(* ===== verification/Prelude.thy ===== *)
theory Prelude
  imports Main "HOL-Library.AList" "HOL-Library.Product_Lexorder"
begin

text \<open>
  Shared vocabulary of the development: identifiers and times, Python exceptions as values,
  SQL statements over tables kept as lists of rows, and the generic lemmas on lists,
  association lists and tables that the component theories use.
  \<^item> A table is a list of rows. \<open>UPDATE t SET f WHERE p\<close> is \<open>update_where p f t\<close>, its
    row count \<open>count_where p t\<close>; \<open>SELECT ... WHERE p ORDER BY k\<close> is \<open>order_by k (filter p t)\<close>.
  \<^item> A nullable column is an \<open>option\<close>; a comparison with NULL is not true
    (\<open>sql_le\<close>, \<open>sql_gt\<close>), and an ascending sort puts NULL last, as PostgreSQL does.
  \<^item> A Python dict whose iteration order matters is an association list under
    \<open>AList.update\<close> (replace in place, else append) and \<open>AList.delete\<close>.
\<close>

section \<open>Identifiers, times, exceptions\<close>

text \<open>UUIDs are opaque, comparable identifiers; times are integral microseconds.\<close>

type_synonym uuid = nat
type_synonym time = int

definition seconds :: "int \<Rightarrow> time" where
  "seconds n = n * 1000000"

lemma seconds_less_iff [simp]: "seconds a < seconds b \<longleftrightarrow> a < b"
  by (simp add: seconds_def)

lemma seconds_le_iff [simp]: "seconds a \<le> seconds b \<longleftrightarrow> a \<le> b"
  by (simp add: seconds_def)

lemma seconds_pos_iff [simp]: "0 < seconds a \<longleftrightarrow> 0 < a"
  by (simp add: seconds_def)

lemma seconds_add: "seconds (a + b) = seconds a + seconds b"
  by (simp add: seconds_def algebra_simps)

text \<open>Exceptions of the Python code, as far as the modelled code tells them apart.\<close>

datatype exn =
    InferenceRequestCancelled
  | CancelledError
  | TimeoutError string
  | TypeError
  | ValueError string
  | RuntimeError string
  | LookupError string
  | KeyError string
  | InferenceLeaseLost
  | ServerBusyError string
  | ServerStartupError string
  | DuplicateInferenceOperation string
  | ProxyOperationExists string
  | HttpStatus nat string
  | ConnectError
  | ReadTimeout
  | GeneratorExit
  | TargetError nat string string
  | TranslationError string
  | ReasoningPolicyError string
  | OtherError string

section \<open>SQL tables as lists of rows\<close>

named_theorems table_simps "facts about statements over tables"

definition sql_le :: "time option \<Rightarrow> time \<Rightarrow> bool" where
  "sql_le c t = (case c of None \<Rightarrow> False | Some x \<Rightarrow> x \<le> t)"

definition sql_gt :: "time option \<Rightarrow> time \<Rightarrow> bool" where
  "sql_gt c t = (case c of None \<Rightarrow> False | Some x \<Rightarrow> t < x)"

lemma sql_le_simps [simp]: "\<not> sql_le None t" "sql_le (Some x) t \<longleftrightarrow> x \<le> t"
  by (simp_all add: sql_le_def)

lemma sql_gt_simps [simp]: "\<not> sql_gt None t" "sql_gt (Some x) t \<longleftrightarrow> t < x"
  by (simp_all add: sql_gt_def)

lemma sql_le_gt_excl: "sql_le c t \<Longrightarrow> \<not> sql_gt c t"
  by (cases c) auto

definition update_where :: "('r \<Rightarrow> bool) \<Rightarrow> ('r \<Rightarrow> 'r) \<Rightarrow> 'r list \<Rightarrow> 'r list" where
  "update_where p f t = map (\<lambda>r. if p r then f r else r) t"

definition count_where :: "('r \<Rightarrow> bool) \<Rightarrow> 'r list \<Rightarrow> nat" where
  "count_where p t = length (filter p t)"

definition order_by :: "('r \<Rightarrow> 'k::linorder) \<Rightarrow> 'r list \<Rightarrow> 'r list" where
  "order_by k t = sort_key k t"

text \<open>\<open>scalar_one_or_none\<close> and \<open>first\<close>: the first row selected, if any.\<close>

definition first_row :: "'r list \<Rightarrow> 'r option" where
  "first_row t = (case t of [] \<Rightarrow> None | r # _ \<Rightarrow> Some r)"

lemma first_row_simps [simp]: "first_row [] = None" "first_row (r # t) = Some r"
  by (simp_all add: first_row_def)

lemma first_row_None_iff [simp]: "first_row t = None \<longleftrightarrow> t = []"
  by (cases t) auto

lemma first_row_SomeD: "first_row t = Some r \<Longrightarrow> r \<in> set t"
  by (cases t) auto

lemma update_where_Nil [simp]: "update_where p f [] = []"
  by (simp add: update_where_def)

lemma update_where_Cons [simp]:
  "update_where p f (r # t) = (if p r then f r else r) # update_where p f t"
  by (simp add: update_where_def)

lemma length_update_where [simp]: "length (update_where p f t) = length t"
  by (simp add: update_where_def)

lemma in_update_where [table_simps]:
  "r' \<in> set (update_where p f t) \<longleftrightarrow> (\<exists>r\<in>set t. r' = (if p r then f r else r))"
  by (auto simp: update_where_def)

lemma map_update_where:
  assumes "\<And>r. p r \<Longrightarrow> k (f r) = k r"
  shows "map k (update_where p f t) = map k t"
  using assms by (induction t) auto

lemma update_where_id:
  assumes "\<And>r. r \<in> set t \<Longrightarrow> \<not> p r"
  shows "update_where p f t = t"
  using assms by (induction t) auto

lemma count_where_Nil [simp]: "count_where p [] = 0"
  by (simp add: count_where_def)

lemma count_where_Cons [simp]:
  "count_where p (r # t) = (if p r then Suc (count_where p t) else count_where p t)"
  by (simp add: count_where_def)

lemma count_where_append [simp]: "count_where p (s @ t) = count_where p s + count_where p t"
  by (simp add: count_where_def)

lemma count_where_0_iff: "count_where p t = 0 \<longleftrightarrow> (\<forall>r\<in>set t. \<not> p r)"
  by (induction t) auto

lemma count_where_mono:
  assumes "\<And>r. r \<in> set t \<Longrightarrow> p r \<Longrightarrow> q r"
  shows "count_where p t \<le> count_where q t"
  using assms by (induction t) (auto simp: le_SucI)

lemma count_where_cong:
  assumes "\<And>r. r \<in> set t \<Longrightarrow> p r \<longleftrightarrow> q r"
  shows "count_where p t = count_where q t"
  using assms by (induction t) auto

lemma count_update_where_mono:
  assumes "\<And>r. r \<in> set t \<Longrightarrow> q (if p r then f r else r) \<Longrightarrow> q r"
  shows "count_where q (update_where p f t) \<le> count_where q t"
  using assms by (induction t) (auto simp: le_SucI)

lemma count_update_where_0:
  assumes "\<And>r. r \<in> set t \<Longrightarrow> \<not> q (if p r then f r else r)"
  shows "count_where q (update_where p f t) = 0"
  using assms by (induction t) auto

lemma all_update_where:
  assumes "\<forall>r\<in>set t. P r"
    and "\<And>r. P r \<Longrightarrow> p r \<Longrightarrow> Q (f r)" "\<And>r. P r \<Longrightarrow> \<not> p r \<Longrightarrow> Q r"
  shows "\<forall>r\<in>set (update_where p f t). Q r"
  using assms by (induction t) auto

text \<open>
  A table with a primary key: updating the row of one key changes a count by at most the
  contribution of that row.
\<close>

lemma count_update_one_le:
  assumes "distinct (map k t)"
    and "\<And>r. r \<in> set t \<Longrightarrow> p r \<Longrightarrow> k r = i"
  shows "count_where q (update_where p f t) \<le> Suc (count_where q t)"
  using assms
proof (induction t)
  case Nil
  then show ?case by simp
next
  case (Cons r t)
  show ?case
  proof (cases "p r")
    case True
    with Cons.prems have "\<And>s. s \<in> set t \<Longrightarrow> \<not> p s" by fastforce
    then have "update_where p f t = t" by (rule update_where_id)
    with True show ?thesis by simp
  next
    case False
    with Cons show ?thesis by simp
  qed
qed

lemma distinct_key_unique:
  assumes "distinct (map k t)" "r \<in> set t" "s \<in> set t" "k r = k s"
  shows "r = s"
  using assms by (metis distinct_map inj_onD)

lemma first_row_filter_key:
  assumes "distinct (map k t)" "r \<in> set t" "k r = i"
  shows "first_row (filter (\<lambda>r. k r = i) t) = Some r"
proof (cases "filter (\<lambda>r. k r = i) t")
  case Nil
  with assms(2,3) show ?thesis by (auto simp: filter_empty_conv)
next
  case (Cons s ts)
  then have "s \<in> set (filter (\<lambda>r. k r = i) t)" by simp
  then have "s \<in> set t" "k s = i" by auto
  with assms have "s = r" by (metis distinct_key_unique)
  with Cons show ?thesis by simp
qed

lemma first_row_filterD:
  assumes "first_row (filter p t) = Some r"
  shows "r \<in> set t" "p r"
  using first_row_SomeD [OF assms] by simp_all

text \<open>The first row of a sorted selection is a least one.\<close>

lemma first_row_order_by_least:
  assumes "first_row (order_by k (filter p t)) = Some r"
  shows "r \<in> set t" "p r" "\<And>s. s \<in> set t \<Longrightarrow> p s \<Longrightarrow> k r \<le> k s"
proof -
  obtain rs where rs: "sort_key k (filter p t) = r # rs"
    using assms by (cases "sort_key k (filter p t)") (auto simp: order_by_def)
  have st: "set (r # rs) = set (filter p t)" by (metis rs set_sort)
  then show "r \<in> set t" "p r" by auto
  fix s
  assume "s \<in> set t" "p s"
  with st have "s \<in> set (r # rs)" by simp
  moreover have "sorted (map k (r # rs))" by (metis rs sorted_sort_key)
  ultimately show "k r \<le> k s" by auto
qed

section \<open>NULLS LAST\<close>

text \<open>An ascending sort key of a nullable column: values in order, NULL after all of them.\<close>

datatype 'a sort_null = SqlValue 'a | SqlNull

definition nulls_last :: "'a option \<Rightarrow> 'a sort_null" where
  "nulls_last c = (case c of None \<Rightarrow> SqlNull | Some x \<Rightarrow> SqlValue x)"

instantiation sort_null :: (linorder) linorder
begin

fun less_eq_sort_null :: "'a sort_null \<Rightarrow> 'a sort_null \<Rightarrow> bool" where
  "less_eq_sort_null _ SqlNull = True"
| "less_eq_sort_null SqlNull (SqlValue _) = False"
| "less_eq_sort_null (SqlValue x) (SqlValue y) = (x \<le> y)"

definition less_sort_null :: "'a sort_null \<Rightarrow> 'a sort_null \<Rightarrow> bool" where
  "less_sort_null a b = (a \<le> b \<and> \<not> b \<le> a)"

instance
proof
  fix x y z :: "'a sort_null"
  show "x < y \<longleftrightarrow> x \<le> y \<and> \<not> y \<le> x" by (simp add: less_sort_null_def)
  show "x \<le> x" by (cases x) auto
  show "x \<le> y \<Longrightarrow> y \<le> z \<Longrightarrow> x \<le> z" by (cases x; cases y; cases z) auto
  show "x \<le> y \<Longrightarrow> y \<le> x \<Longrightarrow> x = y" by (cases x; cases y) auto
  show "x \<le> y \<or> y \<le> x" by (cases x; cases y) auto
qed

end

section \<open>Lists and association lists\<close>

lemma map_of_alist_update [simp]:
  "map_of (AList.update k v al) k' = (if k' = k then Some v else map_of al k')"
  by (simp add: AList.update_conv')

lemma map_of_alist_delete [simp]:
  "map_of (AList.delete k al) k' = (if k' = k then None else map_of al k')"
  by (simp add: AList.delete_conv')

text \<open>
  A bounded buffer that drops its oldest entry keeps the last entries of everything pushed.
\<close>

definition push_last :: "nat \<Rightarrow> 'a \<Rightarrow> 'a list \<Rightarrow> 'a list" where
  "push_last n x xs = (let ys = xs @ [x] in if n < length ys then tl ys else ys)"

definition keep_last :: "nat \<Rightarrow> 'a list \<Rightarrow> 'a list" where
  "keep_last n xs = drop (length xs - n) xs"

lemma length_keep_last [simp]: "length (keep_last n xs) = min n (length xs)"
  by (simp add: keep_last_def)

lemma push_last_keep_last: "0 < n \<Longrightarrow> push_last n x (keep_last n xs) = keep_last n (xs @ [x])"
  unfolding push_last_def keep_last_def Let_def
  by (cases "length xs < n") (auto simp: Suc_diff_le not_less drop_Suc tl_drop)

lemma push_last_fold:
  "0 < n \<Longrightarrow> fold (push_last n) xs (keep_last n ys) = keep_last n (ys @ xs)"
  by (induction xs arbitrary: ys) (simp_all add: push_last_keep_last)

lemma keep_last_sublist: "\<exists>zs. xs = zs @ keep_last n xs"
  unfolding keep_last_def by (metis append_take_drop_id)

lemma pair_fst: "fst p = a \<Longrightarrow> p = (a, snd p)"
  by auto

text \<open>Decimal rendering of integers, as \<open>str\<close> and f-strings do.\<close>

fun show_nat :: "nat \<Rightarrow> string" where
  "show_nat n = (if n < 10 then [char_of (48 + n)]
     else show_nat (n div 10) @ [char_of (48 + n mod 10)])"

declare show_nat.simps [simp del]

definition show_int :: "int \<Rightarrow> string" where
  "show_int i = (if i < 0 then ''-'' @ show_nat (nat (- i)) else show_nat (nat i))"

text \<open>Running a list of steps.\<close>

lemma fold_invariant_step:
  assumes "P s" and "\<And>c s. P s \<Longrightarrow> P (f c s)"
  shows "P (fold f cs s)"
  using assms by (induction cs arbitrary: s) auto

end
