(* ===== verification/Tables.thy ===== *)
theory Tables
  imports Prelude
begin

text \<open>
  The PostgreSQL tables the scheduler works on, from backend/app/models.py: the rows of
  \<open>agents\<close>, \<open>models\<close>, \<open>server_instances\<close> and \<open>inference_leases\<close>, with the columns the modelled
  code reads or writes, and the database as one record of tables. One session block of the
  code (from its first statement to its commit) is one function on this record: the rows it
  decides on are locked or updated by a single statement, so it is taken as one atomic step.
\<close>

section \<open>Status columns\<close>

text \<open>The values the code writes to \<open>InferenceLease.status\<close>.\<close>

datatype lease_status = Queued | Reserving | Active | Released | Cancelled | Expired | Failed

definition terminal :: "lease_status \<Rightarrow> bool" where
  "terminal s \<longleftrightarrow> s = Released \<or> s = Cancelled \<or> s = Expired \<or> s = Failed"

definition pending :: "lease_status \<Rightarrow> bool" where
  "pending s \<longleftrightarrow> s = Queued \<or> s = Reserving"

lemma terminal_simps [simp]:
  "\<not> terminal Queued" "\<not> terminal Reserving" "\<not> terminal Active"
  "terminal Released" "terminal Cancelled" "terminal Expired" "terminal Failed"
  by (simp_all add: terminal_def)

lemma pending_simps [simp]:
  "pending Queued" "pending Reserving" "\<not> pending Active"
  "\<not> pending Released" "\<not> pending Cancelled" "\<not> pending Expired" "\<not> pending Failed"
  by (simp_all add: pending_def)

lemma lease_status_trichotomy: "terminal s \<or> pending s \<or> s = Active"
  by (cases s) auto

lemma pending_not_terminal: "pending s \<Longrightarrow> \<not> terminal s"
  by (cases s) auto

datatype server_status =
    SrvStopped | SrvStarting | SrvRunning | SrvStopping | SrvError
  | SrvUninitialized | SrvPreparing | SrvMetadataGathering | SrvInitializationFailed | SrvDeleting | SrvFailed

fun server_status_name :: "server_status \<Rightarrow> string" where
  "server_status_name SrvStopped = ''stopped''"
| "server_status_name SrvStarting = ''starting''"
| "server_status_name SrvRunning = ''running''"
| "server_status_name SrvStopping = ''stopping''"
| "server_status_name SrvError = ''error''"
| "server_status_name SrvUninitialized = ''uninitialized''"
| "server_status_name SrvInitializationFailed = ''initialization_failed''"
| "server_status_name SrvDeleting = ''deleting''"
| "server_status_name SrvFailed = ''failed''"
| "server_status_name SrvPreparing = ''preparing''"
| "server_status_name SrvMetadataGathering = ''metadata_gathering''"

text \<open>\<open>health_status\<close> may be any string an agent reports at registration.\<close>

datatype health = HUnknown | HHealthy | HUnhealthy | HOther string

section \<open>Rows\<close>

record model_row =
  md_id :: uuid
  md_name :: string
  md_size_bytes :: int

record agent_row =
  ag_id :: uuid
  ag_name :: string
  ag_platform :: string
  ag_type :: string
  ag_host :: string
  ag_port :: int
  ag_status :: string
  ag_gpu_id :: "string option"
  ag_last_seen :: "time option"
  ag_websocket_connected :: bool

record server_row =
  srv_id :: uuid
  srv_model_id :: uuid
  srv_mmproj_model_id :: "uuid option"
  srv_dflash_model_id :: "uuid option"
  srv_alias :: string
  srv_engine :: string
  srv_npu_models :: "string list"
  srv_status :: server_status
  srv_health :: health
  srv_started_at :: "time option"
  srv_last_request_at :: "time option"
  srv_last_health_check :: "time option"
  srv_slot_generation :: int
  srv_effective_capacity :: "int option"
  srv_vram_required_bytes :: "int option"
  srv_error_message :: "string option"
  srv_config_port :: "string option"
  srv_config_engine_port :: "string option"
  srv_metadata :: "string option"
  srv_agent_id :: uuid

record lease_row =
  ls_id :: uuid
  ls_request_id :: string
  ls_model_id :: uuid
  ls_server_instance_id :: "uuid option"
  ls_preferred_server_id :: "uuid option"
  ls_required_agent_id :: "uuid option"
  ls_status :: lease_status
  ls_terminal_reason :: "string option"
  ls_queued_at :: time
  ls_started_at :: "time option"
  ls_lease_expires_at :: "time option"
  ls_slot_generation :: "int option"
  ls_reservation_id :: "uuid option"
  ls_reservation_expires_at :: "time option"
  ls_released_at :: "time option"

record db =
  db_agents :: "agent_row list"
  db_models :: "model_row list"
  db_servers :: "server_row list"
  db_leases :: "lease_row list"

section \<open>Lookups by primary key\<close>

definition get_agent :: "db \<Rightarrow> uuid \<Rightarrow> agent_row option" where
  "get_agent d i = first_row (filter (\<lambda>a. ag_id a = i) (db_agents d))"

definition get_model :: "db \<Rightarrow> uuid \<Rightarrow> model_row option" where
  "get_model d i = first_row (filter (\<lambda>m. md_id m = i) (db_models d))"

definition get_server :: "db \<Rightarrow> uuid \<Rightarrow> server_row option" where
  "get_server d i = first_row (filter (\<lambda>s. srv_id s = i) (db_servers d))"

definition get_lease :: "db \<Rightarrow> uuid \<Rightarrow> lease_row option" where
  "get_lease d i = first_row (filter (\<lambda>l. ls_id l = i) (db_leases d))"

lemma get_lease_in: "get_lease d i = Some l \<Longrightarrow> l \<in> set (db_leases d) \<and> ls_id l = i"
  unfolding get_lease_def by (auto dest: first_row_filterD)

lemma get_server_in: "get_server d i = Some s \<Longrightarrow> s \<in> set (db_servers d) \<and> srv_id s = i"
  unfolding get_server_def by (auto dest: first_row_filterD)

lemma get_lease_eqI:
  "distinct (map ls_id (db_leases d)) \<Longrightarrow> l \<in> set (db_leases d) \<Longrightarrow> get_lease d (ls_id l) = Some l"
  unfolding get_lease_def by (rule first_row_filter_key) auto

lemma get_server_eqI:
  "distinct (map srv_id (db_servers d)) \<Longrightarrow> s \<in> set (db_servers d) \<Longrightarrow> get_server d (srv_id s) = Some s"
  unfolding get_server_def by (rule first_row_filter_key) auto

section \<open>Statements on one table\<close>

definition update_leases :: "(lease_row \<Rightarrow> bool) \<Rightarrow> (lease_row \<Rightarrow> lease_row) \<Rightarrow> db \<Rightarrow> db" where
  "update_leases p f d = d\<lparr>db_leases := update_where p f (db_leases d)\<rparr>"

definition update_servers :: "(server_row \<Rightarrow> bool) \<Rightarrow> (server_row \<Rightarrow> server_row) \<Rightarrow> db \<Rightarrow> db" where
  "update_servers p f d = d\<lparr>db_servers := update_where p f (db_servers d)\<rparr>"

definition count_leases :: "(lease_row \<Rightarrow> bool) \<Rightarrow> db \<Rightarrow> nat" where
  "count_leases p d = count_where p (db_leases d)"

text \<open>An ORM flush of one locked row.\<close>

definition put_lease :: "lease_row \<Rightarrow> db \<Rightarrow> db" where
  "put_lease l = update_leases (\<lambda>r. ls_id r = ls_id l) (\<lambda>_. l)"

definition put_server :: "server_row \<Rightarrow> db \<Rightarrow> db" where
  "put_server s = update_servers (\<lambda>r. srv_id r = srv_id s) (\<lambda>_. s)"

lemma update_leases_sel [simp]:
  "db_agents (update_leases p f d) = db_agents d"
  "db_models (update_leases p f d) = db_models d"
  "db_servers (update_leases p f d) = db_servers d"
  "db_leases (update_leases p f d) = update_where p f (db_leases d)"
  by (simp_all add: update_leases_def)

lemma update_servers_sel [simp]:
  "db_agents (update_servers p f d) = db_agents d"
  "db_models (update_servers p f d) = db_models d"
  "db_leases (update_servers p f d) = db_leases d"
  "db_servers (update_servers p f d) = update_where p f (db_servers d)"
  by (simp_all add: update_servers_def)

lemma put_lease_sel [simp]:
  "db_agents (put_lease l d) = db_agents d"
  "db_models (put_lease l d) = db_models d"
  "db_servers (put_lease l d) = db_servers d"
  "db_leases (put_lease l d) = update_where (\<lambda>r. ls_id r = ls_id l) (\<lambda>_. l) (db_leases d)"
  by (simp_all add: put_lease_def)

lemma put_server_sel [simp]:
  "db_agents (put_server s d) = db_agents d"
  "db_models (put_server s d) = db_models d"
  "db_leases (put_server s d) = db_leases d"
  "db_servers (put_server s d) = update_where (\<lambda>r. srv_id r = srv_id s) (\<lambda>_. s) (db_servers d)"
  by (simp_all add: put_server_def)

lemma get_server_update_leases [simp]: "get_server (update_leases p f d) i = get_server d i"
  by (simp add: get_server_def)

lemma get_server_put_lease [simp]: "get_server (put_lease l d) i = get_server d i"
  by (simp add: get_server_def)

lemma get_lease_update_servers [simp]: "get_lease (update_servers p f d) i = get_lease d i"
  by (simp add: get_lease_def)

lemma get_lease_put_server [simp]: "get_lease (put_server s d) i = get_lease d i"
  by (simp add: get_lease_def)

text \<open>What an update by key and condition does to a lookup.\<close>

lemma get_lease_update_leases:
  assumes "\<And>r. p r \<Longrightarrow> ls_id (f r) = ls_id r"
  shows "get_lease (update_leases p f d) i =
    map_option (\<lambda>r. if p r then f r else r) (get_lease d i)"
proof -
  have "first_row (filter (\<lambda>l. ls_id l = i) (update_where p f t)) =
      map_option (\<lambda>r. if p r then f r else r) (first_row (filter (\<lambda>l. ls_id l = i) t))"
    for t
    using assms by (induction t) auto
  then show ?thesis by (simp add: get_lease_def)
qed

lemma get_lease_put_lease:
  "get_lease (put_lease l d) i =
    (if i = ls_id l then map_option (\<lambda>_. l) (get_lease d i) else get_lease d i)"
proof -
  have "get_lease (put_lease l d) i =
      map_option (\<lambda>r. if ls_id r = ls_id l then l else r) (get_lease d i)"
    unfolding put_lease_def by (rule get_lease_update_leases) simp
  then show ?thesis
    by (auto simp: map_option_case split: option.splits dest: get_lease_in)
qed

lemma get_server_update_servers:
  assumes "\<And>r. p r \<Longrightarrow> srv_id (f r) = srv_id r"
  shows "get_server (update_servers p f d) i =
    map_option (\<lambda>r. if p r then f r else r) (get_server d i)"
proof -
  have "first_row (filter (\<lambda>l. srv_id l = i) (update_where p f t)) =
      map_option (\<lambda>r. if p r then f r else r) (first_row (filter (\<lambda>l. srv_id l = i) t))"
    for t
    using assms by (induction t) auto
  then show ?thesis by (simp add: get_server_def)
qed

lemma get_server_put_server:
  "get_server (put_server s d) i =
    (if i = srv_id s then map_option (\<lambda>_. s) (get_server d i) else get_server d i)"
proof -
  have "get_server (put_server s d) i =
      map_option (\<lambda>r. if srv_id r = srv_id s then s else r) (get_server d i)"
    unfolding put_server_def by (rule get_server_update_servers) simp
  then show ?thesis
    by (auto simp: map_option_case split: option.splits dest: get_server_in)
qed

end
