(* ===== verification/LeaseMachine.thy ===== *)
theory LeaseMachine
  imports Tables
begin

text \<open>
  The contract of the lease table: the state machine one \<open>inference_leases\<close> row goes through,
  what a row in each state holds, and how a whole table may evolve. Every database operation
  of the scheduler refines this machine; the locale \<open>lease_op\<close> names that obligation and
  proves once what follows from it for any run of operations.
\<close>

section \<open>The life of one lease\<close>

definition finish_row :: "lease_status \<Rightarrow> string \<Rightarrow> time \<Rightarrow> lease_row \<Rightarrow> lease_row" where
  "finish_row st reason now r =
     r\<lparr>ls_status := st, ls_terminal_reason := Some reason, ls_released_at := Some now\<rparr>"

definition requeue_row :: "lease_row \<Rightarrow> lease_row" where
  "requeue_row r = r\<lparr>ls_status := Queued, ls_reservation_id := None,
     ls_reservation_expires_at := None, ls_server_instance_id := None,
     ls_slot_generation := None\<rparr>"

definition reserve_row :: "uuid \<Rightarrow> int \<Rightarrow> uuid \<Rightarrow> time \<Rightarrow> lease_row \<Rightarrow> lease_row" where
  "reserve_row server gen attempt expires r = r\<lparr>ls_status := Reserving,
     ls_server_instance_id := Some server, ls_slot_generation := Some gen,
     ls_reservation_id := Some attempt, ls_reservation_expires_at := Some expires\<rparr>"

definition activate_row :: "time \<Rightarrow> time \<Rightarrow> lease_row \<Rightarrow> lease_row" where
  "activate_row now expires r = r\<lparr>ls_status := Active, ls_started_at := Some now,
     ls_lease_expires_at := Some expires, ls_reservation_expires_at := None\<rparr>"

definition renew_row :: "time \<Rightarrow> lease_row \<Rightarrow> lease_row" where
  "renew_row expires r = r\<lparr>ls_lease_expires_at := Some expires\<rparr>"

lemmas row_defs =
  finish_row_def requeue_row_def reserve_row_def activate_row_def renew_row_def

lemma finish_row_sel [simp]:
  "ls_status (finish_row st reason now r) = st"
  "ls_terminal_reason (finish_row st reason now r) = Some reason"
  "ls_released_at (finish_row st reason now r) = Some now"
  "ls_id (finish_row st reason now r) = ls_id r"
  "ls_request_id (finish_row st reason now r) = ls_request_id r"
  "ls_model_id (finish_row st reason now r) = ls_model_id r"
  "ls_server_instance_id (finish_row st reason now r) = ls_server_instance_id r"
  "ls_slot_generation (finish_row st reason now r) = ls_slot_generation r"
  "ls_reservation_id (finish_row st reason now r) = ls_reservation_id r"
  "ls_reservation_expires_at (finish_row st reason now r) = ls_reservation_expires_at r"
  "ls_lease_expires_at (finish_row st reason now r) = ls_lease_expires_at r"
  by (simp_all add: finish_row_def)

lemma requeue_row_sel [simp]:
  "ls_status (requeue_row r) = Queued" "ls_id (requeue_row r) = ls_id r"
  "ls_reservation_id (requeue_row r) = None" "ls_slot_generation (requeue_row r) = None"
  "ls_server_instance_id (requeue_row r) = None"
  by (simp_all add: requeue_row_def)

lemma activate_row_sel [simp]:
  "ls_status (activate_row now e r) = Active" "ls_id (activate_row now e r) = ls_id r"
  "ls_lease_expires_at (activate_row now e r) = Some e"
  "ls_reservation_id (activate_row now e r) = ls_reservation_id r"
  "ls_slot_generation (activate_row now e r) = ls_slot_generation r"
  "ls_server_instance_id (activate_row now e r) = ls_server_instance_id r"
  by (simp_all add: activate_row_def)

inductive lease_step :: "lease_row \<Rightarrow> lease_row \<Rightarrow> bool" where
  reserve: "ls_status r = Queued \<Longrightarrow> lease_step r (reserve_row s g a e r)"
| requeue: "ls_status r = Reserving \<Longrightarrow> lease_step r (requeue_row r)"
| activate: "ls_status r = Reserving \<Longrightarrow> lease_step r (activate_row now e r)"
| renew: "ls_status r = Active \<Longrightarrow> lease_step r (renew_row e r)"
| finish_pending: "pending (ls_status r) \<Longrightarrow> st \<in> {Cancelled, Expired, Failed} \<Longrightarrow>
    lease_step r (finish_row st reason now r)"
| finish_active: "ls_status r = Active \<Longrightarrow> st \<in> {Released, Cancelled, Failed} \<Longrightarrow>
    lease_step r (finish_row st reason now r)"

inductive_cases lease_stepE: "lease_step r r'"

inductive_simps lease_step_iff: "lease_step r r'"

text \<open>What a row in each state holds.\<close>

definition lease_ok :: "lease_row \<Rightarrow> bool" where
  "lease_ok r \<longleftrightarrow> ls_lease_expires_at r \<noteq> None \<and>
     (case ls_status r of
        Queued \<Rightarrow> ls_server_instance_id r = None \<and> ls_slot_generation r = None \<and>
          ls_reservation_id r = None \<and> ls_reservation_expires_at r = None \<and>
          ls_started_at r = None \<and> ls_released_at r = None
      | Reserving \<Rightarrow> ls_slot_generation r \<noteq> None \<and> ls_reservation_id r \<noteq> None \<and>
          ls_reservation_expires_at r \<noteq> None \<and> ls_started_at r = None \<and> ls_released_at r = None
      | Active \<Rightarrow> ls_slot_generation r \<noteq> None \<and> ls_reservation_id r \<noteq> None \<and>
          ls_reservation_expires_at r = None \<and> ls_started_at r \<noteq> None \<and> ls_released_at r = None
      | _ \<Rightarrow> ls_terminal_reason r \<noteq> None \<and> ls_released_at r \<noteq> None)"

lemma lease_step_ok: "lease_step r r' \<Longrightarrow> lease_ok r \<Longrightarrow> lease_ok r'"
  by (induction rule: lease_step.induct) (auto simp: lease_ok_def row_defs)

text \<open>The columns that identify a request never change.\<close>

definition same_request :: "lease_row \<Rightarrow> lease_row \<Rightarrow> bool" where
  "same_request r r' \<longleftrightarrow> ls_id r' = ls_id r \<and> ls_request_id r' = ls_request_id r \<and>
     ls_model_id r' = ls_model_id r \<and> ls_queued_at r' = ls_queued_at r \<and>
     ls_preferred_server_id r' = ls_preferred_server_id r \<and>
     ls_required_agent_id r' = ls_required_agent_id r"

lemma lease_step_same: "lease_step r r' \<Longrightarrow> same_request r r'"
  by (induction rule: lease_step.induct) (auto simp: same_request_def row_defs)

lemma lease_step_terminal: "lease_step r r' \<Longrightarrow> \<not> terminal (ls_status r)"
  by (induction rule: lease_step.induct) (auto simp: pending_not_terminal)

abbreviation lease_steps :: "lease_row \<Rightarrow> lease_row \<Rightarrow> bool" where
  "lease_steps \<equiv> lease_step\<^sup>*\<^sup>*"

lemma lease_steps_ok: "lease_steps r r' \<Longrightarrow> lease_ok r \<Longrightarrow> lease_ok r'"
  by (induction rule: rtranclp_induct) (auto intro: lease_step_ok)

lemma lease_steps_same: "lease_steps r r' \<Longrightarrow> same_request r r'"
proof (induction rule: rtranclp_induct)
  case base
  show ?case by (simp add: same_request_def)
next
  case (step r' r'')
  then show ?case using lease_step_same [of r' r''] by (simp add: same_request_def)
qed

lemma lease_steps_terminal: "lease_steps r r' \<Longrightarrow> terminal (ls_status r) \<Longrightarrow> r' = r"
  by (induction rule: rtranclp_induct) (auto dest: lease_step_terminal)

text \<open>An admitted request keeps its slot, generation and attempt, and is never queued again.\<close>

definition admitted_from :: "lease_row \<Rightarrow> lease_row \<Rightarrow> bool" where
  "admitted_from r r' \<longleftrightarrow> (ls_status r' = Active \<or> terminal (ls_status r')) \<and>
     ls_server_instance_id r' = ls_server_instance_id r \<and>
     ls_slot_generation r' = ls_slot_generation r \<and>
     ls_reservation_id r' = ls_reservation_id r \<and> ls_started_at r' = ls_started_at r"

lemma lease_steps_active: "lease_steps r r' \<Longrightarrow> ls_status r = Active \<Longrightarrow> admitted_from r r'"
proof (induction rule: rtranclp_induct)
  case base
  then show ?case by (simp add: admitted_from_def)
next
  case (step r' r'')
  then have "admitted_from r r'" by simp
  with step.hyps(2) show ?case
    by (auto simp: admitted_from_def row_defs elim!: lease_stepE)
qed

section \<open>How a table evolves\<close>

definition wf_leases :: "db \<Rightarrow> bool" where
  "wf_leases d \<longleftrightarrow> distinct (map ls_id (db_leases d)) \<and> (\<forall>r\<in>set (db_leases d). lease_ok r)"

text \<open>
  Each row takes steps of the machine, and a new row descends from a freshly queued one under
  a fresh key.
\<close>

definition born_queued :: "lease_row \<Rightarrow> bool" where
  "born_queued r \<longleftrightarrow> (\<exists>r0. ls_status r0 = Queued \<and> lease_ok r0 \<and> lease_steps r0 r)"

definition evolves :: "db \<Rightarrow> db \<Rightarrow> bool" where
  "evolves d d' \<longleftrightarrow> (\<exists>rows new. db_leases d' = rows @ new \<and>
     list_all2 lease_steps (db_leases d) rows \<and> (\<forall>r\<in>set new. born_queued r) \<and>
     distinct (map ls_id new) \<and> set (map ls_id new) \<inter> set (map ls_id (db_leases d)) = {})"

named_theorems evolve_intros "operations that refine the lease machine"

lemma evolves_same_leases: "db_leases d' = db_leases d \<Longrightarrow> evolves d d'"
  unfolding evolves_def
  by (intro exI [of _ "db_leases d"] exI [of _ "[]"]) (simp add: list_all2_same)

lemma evolves_refl [simp]: "evolves d d"
  by (rule evolves_same_leases) simp

lemma list_all2_same_keys:
  assumes "list_all2 lease_steps xs ys"
  shows "map ls_id ys = map ls_id xs"
  using assms by (induction) (auto dest: lease_steps_same simp: same_request_def)

lemma list_all2_steps_trans:
  assumes "list_all2 lease_steps xs ys" "list_all2 lease_steps ys zs"
  shows "list_all2 lease_steps xs zs"
  using list_all2_trans [of lease_steps lease_steps lease_steps] assms by (meson rtranclp_trans)

lemma born_queued_steps: "born_queued r \<Longrightarrow> lease_steps r r' \<Longrightarrow> born_queued r'"
  unfolding born_queued_def by (meson rtranclp_trans)

lemma born_queued_list:
  "list_all2 lease_steps xs ys \<Longrightarrow> \<forall>r\<in>set xs. born_queued r \<Longrightarrow> \<forall>r\<in>set ys. born_queued r"
  by (induction rule: list_all2_induct) (auto intro: born_queued_steps)

lemma evolves_trans:
  assumes 1: "evolves a b" and 2: "evolves b c"
  shows "evolves a c"
proof -
  obtain rows new where ab: "db_leases b = rows @ new" "list_all2 lease_steps (db_leases a) rows"
    "\<forall>r\<in>set new. born_queued r" "distinct (map ls_id new)"
    "set (map ls_id new) \<inter> set (map ls_id (db_leases a)) = {}"
    using 1 unfolding evolves_def by blast
  obtain rows2 new2 where bc: "db_leases c = rows2 @ new2"
    "list_all2 lease_steps (rows @ new) rows2" "\<forall>r\<in>set new2. born_queued r"
    "distinct (map ls_id new2)" "set (map ls_id new2) \<inter> set (map ls_id (rows @ new)) = {}"
    using 2 unfolding evolves_def ab(1) by blast
  obtain r1 n1 where split: "rows2 = r1 @ n1" "list_all2 lease_steps rows r1"
    "list_all2 lease_steps new n1"
    using bc(2) by (auto simp: list_all2_append1)
  note keys = list_all2_same_keys [OF ab(2)] list_all2_same_keys [OF split(3)]
  have n1: "\<forall>r\<in>set n1. born_queued r" using born_queued_list [OF split(3) ab(3)] .
  have "list_all2 lease_steps (db_leases a) r1"
    by (rule list_all2_steps_trans [OF ab(2) split(2)])
  moreover have "db_leases c = r1 @ (n1 @ new2)" using bc(1) split(1) by simp
  moreover have "\<forall>r\<in>set (n1 @ new2). born_queued r" using n1 bc(3) by auto
  moreover have "set (map ls_id (n1 @ new2)) \<inter> set (map ls_id (db_leases a)) = {}"
    unfolding map_append set_append Int_Un_distrib2 keys(2)
    using ab(5) bc(5) by (simp add: keys(1) Int_Un_distrib)
  moreover have "distinct (map ls_id (n1 @ new2))"
    unfolding map_append distinct_append keys(2)
    using ab(4) bc(4,5) by (simp add: Int_Un_distrib inf_commute)
  ultimately show ?thesis
    unfolding evolves_def by (intro exI [of _ r1] exI [of _ "n1 @ new2"]) simp
qed

lemma evolves_fold:
  assumes "\<And>c acc. evolves (snd acc) (snd (f c acc))"
  shows "evolves (snd acc) (snd (fold f cs acc))"
proof (induction cs arbitrary: acc)
  case Nil
  then show ?case by simp
next
  case (Cons c cs)
  from evolves_trans [OF assms Cons.IH] show ?case by simp
qed

lemma list_all2_steps_ok:
  "list_all2 lease_steps xs ys \<Longrightarrow> \<forall>r\<in>set xs. lease_ok r \<Longrightarrow> \<forall>r\<in>set ys. lease_ok r"
  by (induction rule: list_all2_induct) (auto intro: lease_steps_ok)

lemma evolves_wf:
  assumes wf: "wf_leases d" and ev: "evolves d d'"
  shows "wf_leases d'"
proof -
  obtain rows new where e: "db_leases d' = rows @ new" "list_all2 lease_steps (db_leases d) rows"
    "\<forall>r\<in>set new. born_queued r" "distinct (map ls_id new)"
    "set (map ls_id new) \<inter> set (map ls_id (db_leases d)) = {}"
    using ev unfolding evolves_def by blast
  have "\<forall>r\<in>set rows. lease_ok r"
    using list_all2_steps_ok [OF e(2)] wf by (simp add: wf_leases_def)
  moreover have "\<forall>r\<in>set new. lease_ok r"
    using e(3) by (auto simp: born_queued_def dest: lease_steps_ok)
  moreover have "distinct (map ls_id (rows @ new))"
    using wf e(4,5) list_all2_same_keys [OF e(2)] by (auto simp: wf_leases_def)
  ultimately show ?thesis using e(1) by (auto simp: wf_leases_def)
qed

lemma first_row_steps:
  assumes "list_all2 lease_steps xs ys" "first_row (filter (\<lambda>l. ls_id l = i) xs) = Some r"
  shows "\<exists>r'. first_row (filter (\<lambda>l. ls_id l = i) (ys @ zs)) = Some r' \<and> lease_steps r r'"
  using assms
proof (induction rule: list_all2_induct)
  case Nil
  then show ?case by simp
next
  case (Cons x xs y ys)
  from Cons.hyps(1) have "ls_id y = ls_id x"
    by (auto dest: lease_steps_same simp: same_request_def)
  with Cons show ?case by (auto split: if_splits)
qed

text \<open>The row of one request, before and after.\<close>

lemma evolves_get_lease:
  assumes "evolves d d'" "get_lease d i = Some r"
  shows "\<exists>r'. get_lease d' i = Some r' \<and> lease_steps r r'"
  using assms first_row_steps unfolding evolves_def get_lease_def by metis

section \<open>Statements that refine the machine\<close>

lemma evolves_update_leases [evolve_intros]:
  assumes "\<And>r. r \<in> set (db_leases d) \<Longrightarrow> p r \<Longrightarrow> lease_step r (f r)"
  shows "evolves d (update_leases p f d)"
proof -
  have "list_all2 lease_steps (db_leases d) (update_where p f (db_leases d))"
    using assms by (auto simp: update_where_def list_all2_map2 intro!: list_all2_same [THEN iffD2])
  then show ?thesis
    unfolding evolves_def
    by (intro exI [of _ "update_where p f (db_leases d)"] exI [of _ "[]"]) simp
qed

lemma evolves_update_servers [evolve_intros]: "evolves d (update_servers p f d)"
  by (rule evolves_same_leases) simp

lemma evolves_put_server [evolve_intros]: "evolves d (put_server s d)"
  by (rule evolves_same_leases) simp

text \<open>Flushing the new state of the one row that has its key.\<close>

lemma evolves_put_lease [evolve_intros]:
  assumes "wf_leases d" "get_lease d i = Some r" "lease_step r r'"
  shows "evolves d (put_lease r' d)"
proof -
  have same: "ls_id r' = i" "ls_id r = i" "r \<in> set (db_leases d)"
    using lease_step_same [OF assms(3)] get_lease_in [OF assms(2)] by (auto simp: same_request_def)
  show ?thesis
    unfolding put_lease_def
  proof (rule evolves_update_leases)
    fix s
    assume "s \<in> set (db_leases d)" "ls_id s = ls_id r'"
    with same assms(1) have "s = r" by (metis distinct_key_unique wf_leases_def)
    with assms(3) show "lease_step s r'" by simp
  qed
qed

section \<open>The contract\<close>

text \<open>
  What the scheduler relies on from every operation on the lease table: it refines the
  machine. For any run of such operations, an ended request is final, an admitted one keeps
  its slot and is never queued again, and the table stays well formed.
\<close>

locale lease_op =
  fixes run :: "'c \<Rightarrow> db \<Rightarrow> db"
  assumes run_evolves: "wf_leases d \<Longrightarrow> evolves d (run c d)"
begin

lemma run_wf: "wf_leases d \<Longrightarrow> wf_leases (run c d)"
  using run_evolves evolves_wf by blast

lemma runs_wf: "wf_leases d \<Longrightarrow> wf_leases (fold run cs d)"
  by (induction cs arbitrary: d) (auto intro: run_wf)

lemma runs_evolve: "wf_leases d \<Longrightarrow> evolves d (fold run cs d)"
proof (induction cs arbitrary: d)
  case Nil
  then show ?case by simp
next
  case (Cons c cs)
  from Cons.prems have "evolves (run c d) (fold run cs (run c d))"
    by (intro Cons.IH run_wf)
  with run_evolves [OF Cons.prems] show ?case by (auto intro: evolves_trans)
qed

lemma runs_keep_row:
  assumes "wf_leases d" "get_lease d i = Some r"
  shows "\<exists>r'. get_lease (fold run cs d) i = Some r' \<and> lease_steps r r' \<and> same_request r r'"
  using evolves_get_lease [OF runs_evolve [OF assms(1)] assms(2)] lease_steps_same by blast

lemma terminal_is_final:
  assumes "wf_leases d" "get_lease d i = Some r" "terminal (ls_status r)"
  shows "get_lease (fold run cs d) i = Some r"
  using runs_keep_row [OF assms(1,2)] lease_steps_terminal assms(3) by metis

lemma admitted_stays_admitted:
  assumes "wf_leases d" "get_lease d i = Some r" "ls_status r = Active"
  shows "\<exists>r'. get_lease (fold run cs d) i = Some r' \<and> admitted_from r r'"
  using runs_keep_row [OF assms(1,2)] lease_steps_active assms(3) by metis

end

end
