(* ===== verification/LeaseHandle.thy ===== *)
theory LeaseHandle
  imports LeaseMachine
begin

text \<open>
  \<open>InferenceLeaseHandle\<close> of backend/app/services/inference_scheduler.py: the in-process owner
  of one active lease. A method returns the exception it raises or its value, the handle, the
  messages it sends to the agent (delivery failures are swallowed by the code) and the
  database. \<open>asyncio\<close> tasks are flags: a task exists (\<open>lh_renewing\<close>, \<open>lh_monitoring\<close>) or not; an
  \<open>asyncio.shield\<close> followed by a second await means the database part always runs, and only the
  re-raised cancellation differs.
\<close>

section \<open>Constants\<close>

definition LEASE_TIMEOUT_SECONDS :: int where "LEASE_TIMEOUT_SECONDS = 30 * 60"
definition ACTIVE_LEASE_TTL_SECONDS :: int where "ACTIVE_LEASE_TTL_SECONDS = 90"
definition LEASE_RENEWAL_INTERVAL_SECONDS :: int where "LEASE_RENEWAL_INTERVAL_SECONDS = 30"
definition RESERVATION_RECOVERY_SECONDS :: int where "RESERVATION_RECOVERY_SECONDS = 12"
definition SERVER_READY_COOLDOWN_SECONDS :: int where "SERVER_READY_COOLDOWN_SECONDS = 3"
definition DEFAULT_SINGLE_REQUEST_CAPACITY :: int where "DEFAULT_SINGLE_REQUEST_CAPACITY = 1"

lemmas scheduler_constants =
  LEASE_TIMEOUT_SECONDS_def ACTIVE_LEASE_TTL_SECONDS_def LEASE_RENEWAL_INTERVAL_SECONDS_def
  RESERVATION_RECOVERY_SECONDS_def SERVER_READY_COOLDOWN_SECONDS_def
  DEFAULT_SINGLE_REQUEST_CAPACITY_def

definition vram_requirements_fit :: "int \<Rightarrow> int \<Rightarrow> int \<Rightarrow> bool" where
  "vram_requirements_fit total_vram target_required running_required \<longleftrightarrow>
     running_required + target_required \<le> total_vram"

text \<open>\<open>int(None)\<close> raises TypeError, which the code maps to the single-request default.\<close>

definition server_capacity :: "server_row \<Rightarrow> int" where
  "server_capacity s = (case srv_effective_capacity s of
     Some c \<Rightarrow> max c 1 | None \<Rightarrow> DEFAULT_SINGLE_REQUEST_CAPACITY)"

lemma server_capacity_pos: "1 \<le> server_capacity s"
  by (auto simp: server_capacity_def scheduler_constants split: option.splits)

section \<open>Messages to agents\<close>

datatype agent_msg =
    CancelOperation (msg_agent: uuid) (msg_server: uuid) (msg_request: string)
      (msg_reservation: "uuid option")
  | ReserveSlot (msg_agent: uuid) (msg_server: uuid) (msg_request: string)
      (msg_generation: int) (msg_attempt: uuid)
  | StopServer (msg_agent: uuid) (msg_server: uuid) (msg_generation: int)

section \<open>The handle\<close>

record lease_handle =
  lh_request_id :: string
  lh_server :: server_row
  lh_lease_id :: uuid
  lh_slot_generation :: "int option"
  lh_reservation_id :: "uuid option"
  lh_lost :: bool
  lh_upstream_started :: bool
  lh_renewing :: bool
  lh_monitoring :: bool

definition new_handle :: "string \<Rightarrow> server_row \<Rightarrow> uuid \<Rightarrow> int \<Rightarrow> uuid \<Rightarrow> lease_handle" where
  "new_handle request server lease gen attempt =
     \<lparr>lh_request_id = request, lh_server = server, lh_lease_id = lease,
      lh_slot_generation = Some gen, lh_reservation_id = Some attempt, lh_lost = False,
      lh_upstream_started = False, lh_renewing = False, lh_monitoring = False\<rparr>"

definition start_renewal :: "lease_handle \<Rightarrow> lease_handle" where
  "start_renewal h = h\<lparr>lh_renewing := True\<rparr>"

definition mark_upstream_started :: "lease_handle \<Rightarrow> lease_handle" where
  "mark_upstream_started h = h\<lparr>lh_upstream_started := True\<rparr>"

text \<open>The headers, before Python's \<open>str\<close> renders generation and reservation.\<close>

record dispatch_headers =
  dh_slot_generation :: "int option"
  dh_request_id :: string
  dh_reservation :: string
  dh_reservation_id :: "uuid option"

definition dispatch_headers_of :: "lease_handle \<Rightarrow> dispatch_headers" where
  "dispatch_headers_of h = \<lparr>dh_slot_generation = lh_slot_generation h,
     dh_request_id = lh_request_id h, dh_reservation = lh_request_id h,
     dh_reservation_id = lh_reservation_id h\<rparr>"

definition monitor_disconnect :: "bool \<Rightarrow> lease_handle \<Rightarrow> lease_handle" where
  "monitor_disconnect has_callback h =
     (if has_callback \<and> \<not> lh_monitoring h then h\<lparr>lh_monitoring := True\<rparr> else h)"

definition stop_disconnect_monitor :: "lease_handle \<Rightarrow> lease_handle" where
  "stop_disconnect_monitor h = h\<lparr>lh_monitoring := False\<rparr>"

text \<open>The row this handle owns, as every one of its statements selects it.\<close>

definition owned_active :: "lease_handle \<Rightarrow> lease_row \<Rightarrow> bool" where
  "owned_active h r \<longleftrightarrow> ls_id r = lh_lease_id h \<and> ls_status r = Active \<and>
     ls_slot_generation r = lh_slot_generation h"

definition cancel_agent_operation :: "lease_handle \<Rightarrow> agent_msg list" where
  "cancel_agent_operation h = [CancelOperation (srv_agent_id (lh_server h)) (srv_id (lh_server h))
     (lh_request_id h) (lh_reservation_id h)]"

definition mark_cancelled :: "time \<Rightarrow> lease_handle \<Rightarrow> db \<Rightarrow> agent_msg list \<times> db" where
  "mark_cancelled now h d =
     (cancel_agent_operation h,
      update_leases (owned_active h) (finish_row Cancelled ''client_disconnected'' now) d)"

text \<open>One poll of the disconnect monitor; the flag says whether it goes on polling.\<close>

definition disconnect_poll ::
  "bool \<Rightarrow> time \<Rightarrow> lease_handle \<Rightarrow> db \<Rightarrow> bool \<times> lease_handle \<times> agent_msg list \<times> db" where
  "disconnect_poll gone now h d =
     (if gone then
        (let (msgs, d') = mark_cancelled now h d in (False, h\<lparr>lh_lost := True\<rparr>, msgs, d'))
      else (True, h, [], d))"

section \<open>guard\<close>

text \<open>
  \<open>asyncio.wait(FIRST_COMPLETED)\<close> returned: \<open>operation\<close> is the result of the upstream operation
  if that task is done, \<open>lease_done\<close> and \<open>client_done\<close> say whether the sentinel tasks are, and
  \<open>lost\<close> is the lost event when it is tested.
\<close>

definition guard ::
  "(exn + 'a) option \<Rightarrow> bool \<Rightarrow> bool \<Rightarrow> bool \<Rightarrow> lease_handle \<Rightarrow> (exn + 'a) \<times> lease_handle" where
  "guard operation lease_done client_done lost h =
     (case operation of
        Some result \<Rightarrow>
          if \<not> (lease_done \<or> client_done) then (result, mark_upstream_started h)
          else if lost then (Inl InferenceLeaseLost, mark_upstream_started h)
          else (Inl InferenceRequestCancelled, mark_upstream_started h)
      | None \<Rightarrow>
          if lost then (Inl InferenceLeaseLost, mark_upstream_started h)
          else (Inl InferenceRequestCancelled, mark_upstream_started h))"

section \<open>Renewal\<close>

definition renewable :: "db \<Rightarrow> lease_handle \<Rightarrow> lease_row \<Rightarrow> bool" where
  "renewable d h r \<longleftrightarrow> owned_active h r \<and>
     (\<exists>s\<in>set (db_servers d). srv_id s = srv_id (lh_server h) \<and> srv_status s = SrvRunning \<and>
        srv_health s = HHealthy \<and> Some (srv_slot_generation s) = lh_slot_generation h)"

definition renew_update :: "time \<Rightarrow> lease_handle \<Rightarrow> db \<Rightarrow> nat \<times> db" where
  "renew_update now h d =
     (count_leases (renewable d h) d,
      update_leases (renewable d h) (renew_row (now + seconds ACTIVE_LEASE_TTL_SECONDS)) d)"

text \<open>
  One turn of \<open>_renew_loop\<close> after its sleep. \<open>t1\<close> is the loop clock where it is read before
  the statement, \<open>t2\<close> where it is read after it, \<open>ok\<close> whether the database answered. The first
  component is the new local expiry while the loop runs, None once it has returned.
\<close>

record renew_tick =
  rt_before :: time
  rt_now :: time
  rt_ok :: bool
  rt_after :: time

definition renew_turn ::
  "renew_tick \<Rightarrow> time \<Rightarrow> lease_handle \<Rightarrow> db \<Rightarrow> time option \<times> lease_handle \<times> db" where
  "renew_turn k expiry h d =
     (if \<not> lh_upstream_started h then
        (if expiry \<le> rt_before k then (None, h\<lparr>lh_lost := True\<rparr>, d) else (Some expiry, h, d))
      else if rt_ok k then
        (let (n, d') = renew_update (rt_now k) h d in
         if n = 0 then (None, h\<lparr>lh_lost := True\<rparr>, d')
         else (Some (rt_after k + seconds ACTIVE_LEASE_TTL_SECONDS), h, d'))
      else if expiry \<le> rt_after k then (None, h\<lparr>lh_lost := True\<rparr>, d)
      else (Some expiry, h, d))"

text \<open>
  The loop over its turns; before each turn other tasks have changed the database and the
  handle's started flag (\<open>env\<close>). The result is None once the loop has returned.
\<close>

fun renew_loop ::
  "(renew_tick \<times> bool \<times> (db \<Rightarrow> db)) list \<Rightarrow> time \<Rightarrow> lease_handle \<Rightarrow> db
     \<Rightarrow> time option \<times> lease_handle \<times> db" where
  "renew_loop [] expiry h d = (Some expiry, h, d)"
| "renew_loop ((k, started, env) # ks) expiry h d =
     (case renew_turn k expiry (if started then mark_upstream_started h else h) (env d) of
        (None, h', d') \<Rightarrow> (None, h', d')
      | (Some e, h', d') \<Rightarrow> renew_loop ks e h' d')"

section \<open>release and cancel\<close>

datatype outcome = Completed | OutFailed | OutCancelled

fun parse_outcome :: "string \<Rightarrow> exn + outcome" where
  "parse_outcome s =
     (if s = ''completed'' then Inr Completed
      else if s = ''failed'' then Inr OutFailed
      else if s = ''cancelled'' then Inr OutCancelled
      else Inl (ValueError (''Invalid inference outcome: '' @ s)))"

fun outcome_status :: "outcome \<Rightarrow> lease_status" where
  "outcome_status Completed = Released"
| "outcome_status OutFailed = Failed"
| "outcome_status OutCancelled = Cancelled"

text \<open>The inner \<open>_release\<close>: stop renewal, stop the monitor, then the one UPDATE.\<close>

definition release_update :: "outcome \<Rightarrow> string \<Rightarrow> time \<Rightarrow> lease_handle \<Rightarrow> db \<Rightarrow> nat \<times> db" where
  "release_update out reason now h d =
     (count_leases (owned_active h) d,
      update_leases (owned_active h) (finish_row (outcome_status out) reason now) d)"

definition stop_tasks :: "lease_handle \<Rightarrow> lease_handle" where
  "stop_tasks h = stop_disconnect_monitor (h\<lparr>lh_renewing := False\<rparr>)"

definition release ::
  "string \<Rightarrow> bool \<Rightarrow> time \<Rightarrow> lease_handle \<Rightarrow> db
     \<Rightarrow> (exn + unit) \<times> lease_handle \<times> agent_msg list \<times> db" where
  "release out task_cancelled now h d =
     (case parse_outcome out of
        Inl e \<Rightarrow> (Inl e, h, [], d)
      | Inr st \<Rightarrow>
          let msgs = (if out \<noteq> ''completed'' \<or> \<not> lh_upstream_started h
                      then cancel_agent_operation h else []);
              (n, d') = release_update st out now h d
          in (if task_cancelled then Inl CancelledError else Inr (), stop_tasks h, msgs, d'))"

definition cancel_lease ::
  "bool \<Rightarrow> time \<Rightarrow> lease_handle \<Rightarrow> db
     \<Rightarrow> (exn + unit) \<times> lease_handle \<times> agent_msg list \<times> db" where
  "cancel_lease task_cancelled now h d =
     (let d' = update_leases (owned_active h) (finish_row Cancelled ''client_disconnected'' now) d
      in if task_cancelled then (Inl CancelledError, stop_tasks h, [], d')
         else (Inr (), stop_tasks h, cancel_agent_operation h, d'))"

section \<open>Every statement of a handle refines the lease machine\<close>

lemma owned_activeD: "owned_active h r \<Longrightarrow> ls_status r = Active"
  by (simp add: owned_active_def)

lemma evolves_finish_owned [evolve_intros]:
  "st \<in> {Released, Cancelled, Failed} \<Longrightarrow>
   evolves d (update_leases (owned_active h) (finish_row st reason now) d)"
  by (rule evolves_update_leases) (auto dest: owned_activeD intro: lease_step.finish_active)

lemma outcome_status_range [simp]: "outcome_status out \<in> {Released, Cancelled, Failed}"
  by (cases out) auto

lemma evolves_release [evolve_intros]: "evolves d (snd (release_update out reason now h d))"
  using evolves_finish_owned [OF outcome_status_range] by (simp add: release_update_def)

lemma evolves_renew [evolve_intros]: "evolves d (snd (renew_update now h d))"
  unfolding renew_update_def snd_conv
  by (rule evolves_update_leases) (auto simp: renewable_def dest: owned_activeD intro: lease_step.renew)

lemma evolves_cancel [evolve_intros]: "evolves d (snd (mark_cancelled now h d))"
  by (simp add: mark_cancelled_def evolves_finish_owned)

section \<open>Properties\<close>

lemma finish_owned_row:
  assumes "get_lease d (lh_lease_id h) = Some r"
  shows "get_lease (update_leases (owned_active h) (finish_row st reason now) d) (lh_lease_id h) =
    Some (if owned_active h r then finish_row st reason now r else r)"
  using assms by (subst get_lease_update_leases) (auto simp: finish_row_def)

text \<open>
  After a turn of the renewal loop the handle is either lost, or its local expiry has not
  passed: a handle whose row it can no longer renew is given up at the latest one turn after
  the lease's time to live.
\<close>

lemma renew_turn_running:
  "renew_turn k expiry h d = (Some e, h', d') \<Longrightarrow>
   e = expiry \<and> d' = d \<or>
   e = rt_after k + seconds ACTIVE_LEASE_TTL_SECONDS \<and> (\<exists>r\<in>set (db_leases d). renewable d h r)"
  by (auto simp: renew_turn_def renew_update_def count_leases_def Let_def count_where_0_iff
      split: if_splits)

lemma renew_turn_lost: "renew_turn k expiry h d = (None, h', d') \<Longrightarrow> lh_lost h'"
  by (auto simp: renew_turn_def Let_def split: if_splits prod.splits)

lemma renew_turn_handle:
  "renew_turn k expiry h d = (Some e, h', d') \<Longrightarrow> h' = h"
  by (auto simp: renew_turn_def Let_def split: if_splits prod.splits)

lemma renew_turn_not_expired:
  assumes "renew_turn k expiry h d = (Some e, h', d')" "rt_before k \<le> rt_after k"
  shows "rt_before k < e"
  using assms
  by (auto simp: renew_turn_def Let_def scheduler_constants seconds_def split: if_splits prod.splits)

end
