(* ===== verification/Admission.thy ===== *)
theory Admission
  imports LeaseHandle
begin

text \<open>
  Admission of backend/app/services/inference_scheduler.py: the candidate servers of a
  request, the claim of a slot for the head of the compatible FIFO, the reservation at the
  agent outside any transaction, the fenced activation, and the queue statements. The claim
  transaction is \<open>claim_tx\<close>; \<open>reserve_and_activate\<close> is what follows it, with the steps other
  workers take between its transactions as explicit arguments.
\<close>

section \<open>Candidates\<close>

definition candidate_row :: "uuid \<Rightarrow> uuid option \<Rightarrow> uuid option \<Rightarrow> server_row \<Rightarrow> bool" where
  "candidate_row model preferred agent s \<longleftrightarrow> srv_model_id s = model \<and>
     srv_status s \<in> {SrvStopped, SrvStarting, SrvRunning} \<and>
     (srv_status s \<noteq> SrvRunning \<or> srv_health s = HHealthy) \<and>
     (case preferred of None \<Rightarrow> True | Some i \<Rightarrow> srv_id s = i) \<and>
     (case agent of None \<Rightarrow> True | Some a \<Rightarrow> srv_agent_id s = a)"

definition candidates :: "uuid \<Rightarrow> uuid option \<Rightarrow> uuid option \<Rightarrow> db \<Rightarrow> server_row list" where
  "candidates model preferred agent d =
     order_by (\<lambda>s. (nulls_last (srv_last_request_at s), srv_id s))
       (filter (candidate_row model preferred agent) (db_servers d))"

definition candidates_for_model :: "uuid \<Rightarrow> uuid option \<Rightarrow> db \<Rightarrow> server_row list" where
  "candidates_for_model model agent d = candidates model None agent d"

section \<open>The claim transaction\<close>

definition serving :: "server_row \<Rightarrow> bool" where
  "serving s \<longleftrightarrow> srv_status s = SrvRunning \<and> srv_health s = HHealthy"

definition in_ready_cooldown :: "time \<Rightarrow> server_row \<Rightarrow> bool" where
  "in_ready_cooldown now s = (case srv_started_at s of None \<Rightarrow> False
     | Some t \<Rightarrow> 0 \<le> now - t \<and> now - t < seconds SERVER_READY_COOLDOWN_SECONDS)"

definition occupies :: "time \<Rightarrow> server_row \<Rightarrow> lease_row \<Rightarrow> bool" where
  "occupies now s r \<longleftrightarrow> ls_server_instance_id r = Some (srv_id s) \<and>
     ls_status r \<in> {Active, Reserving} \<and> ls_slot_generation r = Some (srv_slot_generation s) \<and>
     (ls_status r = Reserving \<or> sql_gt (ls_lease_expires_at r) now)"

definition compatible :: "time \<Rightarrow> server_row \<Rightarrow> lease_row \<Rightarrow> bool" where
  "compatible now s r \<longleftrightarrow> pending (ls_status r) \<and> ls_model_id r = srv_model_id s \<and>
     sql_gt (ls_lease_expires_at r) now \<and>
     (ls_preferred_server_id r = None \<or> ls_preferred_server_id r = Some (srv_id s)) \<and>
     (ls_required_agent_id r = None \<or> ls_required_agent_id r = Some (srv_agent_id s))"

definition fifo_key :: "lease_row \<Rightarrow> time \<times> uuid" where
  "fifo_key r = (ls_queued_at r, ls_id r)"

definition oldest_compatible :: "time \<Rightarrow> server_row \<Rightarrow> db \<Rightarrow> lease_row option" where
  "oldest_compatible now s d = first_row (order_by fifo_key (filter (compatible now s) (db_leases d)))"

record claim_ticket =
  ct_lease :: uuid
  ct_request :: string
  ct_server :: uuid
  ct_agent :: uuid
  ct_generation :: int
  ct_attempt :: uuid

definition claim_tx ::
  "bool \<Rightarrow> time \<Rightarrow> uuid \<Rightarrow> uuid \<Rightarrow> uuid \<Rightarrow> db \<Rightarrow> claim_ticket option \<times> db" where
  "claim_tx benchmark_lock now attempt lease server d =
     (if \<not> benchmark_lock then (None, d)
      else case get_server d server of
        None \<Rightarrow> (None, d)
      | Some locked \<Rightarrow>
          if \<not> serving locked then (None, d)
          else if in_ready_cooldown now locked then (None, d)
          else if int (count_leases (occupies now locked) d) \<ge> server_capacity locked then (None, d)
          else case oldest_compatible now locked d of
            None \<Rightarrow> (None, d)
          | Some oldest \<Rightarrow>
              if ls_id oldest \<noteq> lease \<or> ls_status oldest \<noteq> Queued then (None, d)
              else (Some \<lparr>ct_lease = lease, ct_request = ls_request_id oldest,
                      ct_server = srv_id locked, ct_agent = srv_agent_id locked,
                      ct_generation = srv_slot_generation locked, ct_attempt = attempt\<rparr>,
                    put_lease (reserve_row (srv_id locked) (srv_slot_generation locked) attempt
                      (now + seconds RESERVATION_RECOVERY_SECONDS) oldest) d))"

section \<open>Reservation and activation\<close>

text \<open>
  The inner \<open>finalize\<close>. The disjunction is evaluated left to right, so a NULL expiry is only
  compared, and then raises TypeError, when every test before it is false.
\<close>

definition finalize_tx :: "time \<Rightarrow> claim_ticket \<Rightarrow> db \<Rightarrow> (exn + bool) \<times> db" where
  "finalize_tx now t d =
     (case (get_server d (ct_server t), get_lease d (ct_lease t)) of
        (Some s, Some l) \<Rightarrow>
          if srv_status s \<noteq> SrvRunning \<or> srv_health s \<noteq> HHealthy \<or>
             srv_slot_generation s \<noteq> ct_generation t \<or> ls_status l \<noteq> Reserving \<or>
             ls_reservation_id l \<noteq> Some (ct_attempt t) then (Inr False, d)
          else (case ls_lease_expires_at l of
              None \<Rightarrow> (Inl TypeError, d)
            | Some e \<Rightarrow>
                if e \<le> now then (Inr False, d)
                else (case ls_reservation_expires_at l of
                    None \<Rightarrow> (Inl TypeError, d)
                  | Some re \<Rightarrow>
                      if re \<le> now then (Inr False, d)
                      else (Inr True,
                        put_lease (activate_row now (now + seconds ACTIVE_LEASE_TTL_SECONDS) l) d)))
      | _ \<Rightarrow> (Inr False, d))"

text \<open>The database part of the inner \<open>cleanup\<close>: both statements of its one transaction.\<close>

definition holds_attempt :: "lease_status \<Rightarrow> claim_ticket \<Rightarrow> lease_row \<Rightarrow> bool" where
  "holds_attempt st t r \<longleftrightarrow> ls_id r = ct_lease t \<and> ls_status r = st \<and>
     ls_reservation_id r = Some (ct_attempt t)"

definition cleanup_tx :: "time \<Rightarrow> claim_ticket \<Rightarrow> db \<Rightarrow> db" where
  "cleanup_tx now t d =
     update_leases (holds_attempt Reserving t) requeue_row
       (update_leases (holds_attempt Active t) (finish_row Cancelled ''request_abandoned'' now) d)"

definition cleanup_msg :: "claim_ticket \<Rightarrow> agent_msg" where
  "cleanup_msg t = CancelOperation (ct_agent t) (ct_server t) (ct_request t) (Some (ct_attempt t))"

text \<open>
  What the awaited agent call did: it answered accepted or not, it failed in any way, the
  request task was cancelled while it waited, or it answered with something that is no object
  (\<open>response.get\<close> then raises, outside the inner \<open>try\<close>).
\<close>

datatype reserve_reply = Accepted | Refused | NoAck | ReserveCancelled | BadReply

text \<open>
  The environment of one attempt: the agent's reply, what other workers did to the database
  before the activation and before the cleanup, the clock at both, and whether the request
  task was cancelled while the shielded activation, or the shielded cleanup, ran.
\<close>

record attempt_env =
  ae_reply :: reserve_reply
  ae_before_finalize :: "db \<Rightarrow> db"
  ae_finalize_now :: time
  ae_finalize_cancelled :: bool
  ae_before_cleanup :: "db \<Rightarrow> db"
  ae_cleanup_now :: time
  ae_cleanup_cancelled :: bool

definition reserve_and_activate ::
  "attempt_env \<Rightarrow> claim_ticket \<Rightarrow> server_row \<Rightarrow> db
     \<Rightarrow> (exn + lease_handle option) \<times> agent_msg list \<times> db" where
  "reserve_and_activate e t server d =
     (let ask = ReserveSlot (ct_agent t) (ct_server t) (ct_request t) (ct_generation t) (ct_attempt t);
          give_up = (\<lambda>res d'. (if ae_cleanup_cancelled e then Inl CancelledError else res,
                       [ask, cleanup_msg t],
                       cleanup_tx (ae_cleanup_now e) t (ae_before_cleanup e d')))
      in case ae_reply e of
           ReserveCancelled \<Rightarrow> give_up (Inl CancelledError) d
         | BadReply \<Rightarrow> give_up (Inl (OtherError ''AttributeError'')) d
         | NoAck \<Rightarrow> give_up (Inr None) d
         | Refused \<Rightarrow> give_up (Inr None) d
         | Accepted \<Rightarrow>
             (case finalize_tx (ae_finalize_now e) t (ae_before_finalize e d) of
                (Inl x, d') \<Rightarrow> give_up (Inl x) d'
              | (Inr committed, d') \<Rightarrow>
                  if ae_finalize_cancelled e then give_up (Inl CancelledError) d'
                  else if \<not> committed then give_up (Inr None) d'
                  else (Inr (Some (start_renewal (new_handle (ct_request t) server (ct_lease t)
                          (ct_generation t) (ct_attempt t)))), [ask], d')))"

text \<open>\<open>_claim\<close>: the transaction, then, for a reserved lease, the rest of the attempt.\<close>

definition claim ::
  "bool \<Rightarrow> time \<Rightarrow> uuid \<Rightarrow> attempt_env \<Rightarrow> uuid \<Rightarrow> server_row \<Rightarrow> db
     \<Rightarrow> (exn + lease_handle option) \<times> agent_msg list \<times> db" where
  "claim benchmark_lock now attempt e lease server d =
     (case claim_tx benchmark_lock now attempt lease (srv_id server) d of
        (None, d') \<Rightarrow> (Inr None, [], d')
      | (Some t, d') \<Rightarrow> reserve_and_activate e t server d')"

section \<open>Queue statements\<close>

definition new_lease ::
  "uuid \<Rightarrow> string \<Rightarrow> uuid \<Rightarrow> time \<Rightarrow> uuid option \<Rightarrow> uuid option \<Rightarrow> time \<Rightarrow> lease_row" where
  "new_lease i request model deadline preferred agent queued_at =
     \<lparr>ls_id = i, ls_request_id = request, ls_model_id = model, ls_server_instance_id = None,
      ls_preferred_server_id = preferred, ls_required_agent_id = agent, ls_status = Queued,
      ls_terminal_reason = None, ls_queued_at = queued_at, ls_started_at = None,
      ls_lease_expires_at = Some deadline, ls_slot_generation = None, ls_reservation_id = None,
      ls_reservation_expires_at = None, ls_released_at = None\<rparr>"

text \<open>\<open>_queue\<close>: the primary key and the unique \<open>request_id\<close> make a duplicate insert fail.\<close>

definition queue_tx ::
  "uuid \<Rightarrow> string \<Rightarrow> uuid \<Rightarrow> time \<Rightarrow> uuid option \<Rightarrow> uuid option \<Rightarrow> time \<Rightarrow> db
     \<Rightarrow> (exn + lease_row) \<times> db" where
  "queue_tx i request model deadline preferred agent queued_at d =
     (if i \<in> ls_id ` set (db_leases d) \<or> request \<in> ls_request_id ` set (db_leases d)
      then (Inl (OtherError ''IntegrityError''), d)
      else (let l = new_lease i request model deadline preferred agent queued_at in
            (Inr l, d\<lparr>db_leases := db_leases d @ [l]\<rparr>)))"

definition pending_row :: "uuid \<Rightarrow> lease_row \<Rightarrow> bool" where
  "pending_row i r \<longleftrightarrow> ls_id r = i \<and> pending (ls_status r)"

definition finish_queued :: "uuid \<Rightarrow> lease_status \<Rightarrow> string \<Rightarrow> time \<Rightarrow> db \<Rightarrow> bool \<times> db" where
  "finish_queued i st reason now d =
     (count_leases (pending_row i) d \<noteq> 0, update_leases (pending_row i) (finish_row st reason now) d)"

definition expire_lease :: "uuid \<Rightarrow> time \<Rightarrow> db \<Rightarrow> db" where
  "expire_lease i now d = snd (finish_queued i Expired ''queue_timeout'' now d)"

definition cancel_queued :: "uuid \<Rightarrow> time \<Rightarrow> db \<Rightarrow> db" where
  "cancel_queued i now d = snd (finish_queued i Cancelled ''client_disconnected'' now d)"

text \<open>One poll of \<open>_cancel_when_disconnected\<close>: the new disconnected event, going on, the database.\<close>

definition queue_disconnect_poll :: "bool \<Rightarrow> uuid \<Rightarrow> time \<Rightarrow> db \<Rightarrow> bool \<times> bool \<times> db" where
  "queue_disconnect_poll gone i now d =
     (if gone then (True, False, cancel_queued i now d) else (False, True, d))"

definition clear_queue :: "time \<Rightarrow> db \<Rightarrow> nat \<times> db" where
  "clear_queue now d =
     (count_leases (\<lambda>r. pending (ls_status r)) d,
      update_leases (\<lambda>r. pending (ls_status r)) (finish_row Cancelled ''queue_cleared'' now) d)"

definition ensure_queued :: "uuid \<Rightarrow> time \<Rightarrow> db \<Rightarrow> (exn + bool) \<times> db" where
  "ensure_queued i now d =
     (case get_lease d i of
        None \<Rightarrow> (Inl InferenceRequestCancelled, d)
      | Some l \<Rightarrow>
          if ls_status l = Reserving then
            (case ls_reservation_expires_at l of
               None \<Rightarrow> (Inl TypeError, d)
             | Some e \<Rightarrow> if now < e then (Inr False, d)
                        else (Inr True, put_lease (requeue_row l) d))
          else if ls_status l \<noteq> Queued then (Inl InferenceRequestCancelled, d)
          else (Inr True, d))"

text \<open>\<open>_active_leases\<close>: the unexpired active leases of a server, of any generation.\<close>

definition active_leases :: "time \<Rightarrow> uuid \<Rightarrow> db \<Rightarrow> nat" where
  "active_leases now server d = count_leases (\<lambda>r. ls_server_instance_id r = Some server \<and>
     ls_status r = Active \<and> sql_gt (ls_lease_expires_at r) now) d"

section \<open>Every transaction refines the lease machine\<close>

lemma claim_tx_cases:
  assumes "claim_tx b now a lease server d = (res, d')"
  obtains (refused) "res = None" "d' = d"
  | (reserved) s l where "b" "get_server d server = Some s" "serving s" "\<not> in_ready_cooldown now s"
      "int (count_leases (occupies now s) d) < server_capacity s"
      "oldest_compatible now s d = Some l" "ls_id l = lease" "ls_status l = Queued"
      "res = Some \<lparr>ct_lease = lease, ct_request = ls_request_id l, ct_server = srv_id s,
         ct_agent = srv_agent_id s, ct_generation = srv_slot_generation s, ct_attempt = a\<rparr>"
      "d' = put_lease (reserve_row (srv_id s) (srv_slot_generation s) a
         (now + seconds RESERVATION_RECOVERY_SECONDS) l) d"
proof (cases "get_server d server")
  case None
  with assms show thesis by (intro refused) (auto simp: claim_tx_def split: if_splits)
next
  case (Some s)
  note sv = Some
  show thesis
  proof (cases "b \<and> serving s \<and> \<not> in_ready_cooldown now s \<and>
      int (count_leases (occupies now s) d) < server_capacity s")
    case False
    with assms sv show thesis by (intro refused) (auto simp: claim_tx_def split: if_splits)
  next
    case True
    show thesis
    proof (cases "oldest_compatible now s d")
      case None
      with assms sv True show thesis by (intro refused) (simp_all add: claim_tx_def)
    next
      case (Some l)
      show thesis
      proof (cases "ls_id l = lease \<and> ls_status l = Queued")
        case False
        with assms sv True Some show thesis by (intro refused) (auto simp: claim_tx_def)
      next
        case head: True
        show thesis
          by (rule reserved [of s l]) (use assms sv True Some head in \<open>simp_all add: claim_tx_def\<close>)
      qed
    qed
  qed
qed

lemma oldest_compatible_least:
  assumes "oldest_compatible now s d = Some l"
  shows "l \<in> set (db_leases d)" "compatible now s l"
    "\<And>r. r \<in> set (db_leases d) \<Longrightarrow> compatible now s r \<Longrightarrow> fifo_key l \<le> fifo_key r"
  using first_row_order_by_least [OF assms [unfolded oldest_compatible_def]] by blast+

lemma evolves_claim_tx [evolve_intros]:
  assumes "wf_leases d"
  shows "evolves d (snd (claim_tx b now a lease server d))"
proof -
  obtain res d' where e: "claim_tx b now a lease server d = (res, d')" by fastforce
  then show ?thesis
  proof (cases rule: claim_tx_cases)
    case refused
    with e show ?thesis by simp
  next
    case (reserved s l)
    have "get_lease d (ls_id l) = Some l"
      using assms oldest_compatible_least(1) [OF reserved(6)] by (simp add: get_lease_eqI wf_leases_def)
    then show ?thesis
      using assms e reserved(8,10) by (simp add: evolves_put_lease lease_step.reserve)
  qed
qed

text \<open>The tests of the fence, and what passing them writes.\<close>

definition may_activate :: "time \<Rightarrow> claim_ticket \<Rightarrow> db \<Rightarrow> server_row \<Rightarrow> lease_row \<Rightarrow> bool" where
  "may_activate now t d s l \<longleftrightarrow> get_server d (ct_server t) = Some s \<and> serving s \<and>
     srv_slot_generation s = ct_generation t \<and> get_lease d (ct_lease t) = Some l \<and>
     ls_status l = Reserving \<and> ls_reservation_id l = Some (ct_attempt t) \<and>
     sql_gt (ls_lease_expires_at l) now \<and> sql_gt (ls_reservation_expires_at l) now"

lemma finalize_tx_cases:
  assumes "wf_leases d" "finalize_tx now t d = (res, d')"
  obtains (refused) "res = Inr False" "d' = d" "\<nexists>s l. may_activate now t d s l"
  | (activated) s l where "may_activate now t d s l" "res = Inr True"
      "d' = put_lease (activate_row now (now + seconds ACTIVE_LEASE_TTL_SECONDS) l) d"
proof -
  have ok: "\<exists>e re. ls_lease_expires_at l = Some e \<and> ls_reservation_expires_at l = Some re"
    if "get_lease d (ct_lease t) = Some l" "ls_status l = Reserving" for l
    using assms(1) get_lease_in [OF that(1)] that(2) by (auto simp: wf_leases_def lease_ok_def)
  show thesis
  proof (cases "\<exists>s l. may_activate now t d s l")
    case True
    then obtain s l where m: "may_activate now t d s l" by blast
    with assms(2) have "res = Inr True \<and>
        d' = put_lease (activate_row now (now + seconds ACTIVE_LEASE_TTL_SECONDS) l) d"
      by (auto simp: finalize_tx_def may_activate_def serving_def sql_gt_def split: option.splits)
    with activated [OF m] show thesis by blast
  next
    case False
    then have "finalize_tx now t d = (Inr False, d)"
      by (auto simp: finalize_tx_def may_activate_def serving_def dest: ok
          split: option.splits if_splits)
    with assms(2) have "res = Inr False" "d' = d" by auto
    with False refused show thesis by blast
  qed
qed

lemma evolves_finalize_tx [evolve_intros]:
  assumes "wf_leases d"
  shows "evolves d (snd (finalize_tx now t d))"
proof -
  obtain res d' where e: "finalize_tx now t d = (res, d')" by fastforce
  with assms show ?thesis
  proof (cases rule: finalize_tx_cases)
    case refused
    with e show ?thesis by simp
  next
    case (activated s l)
    then show ?thesis
      using assms e by (auto simp: may_activate_def intro!: evolves_put_lease lease_step.activate)
  qed
qed

lemma evolves_cleanup_tx [evolve_intros]: "evolves d (cleanup_tx now t d)"
proof -
  let ?m = "update_leases (holds_attempt Active t) (finish_row Cancelled ''request_abandoned'' now) d"
  have "evolves d ?m"
    by (rule evolves_update_leases) (auto simp: holds_attempt_def intro: lease_step.finish_active)
  moreover have "evolves ?m (cleanup_tx now t d)"
    unfolding cleanup_tx_def
    by (rule evolves_update_leases) (auto simp: holds_attempt_def intro: lease_step.requeue)
  ultimately show ?thesis by (rule evolves_trans)
qed

lemma lease_ok_new: "lease_ok (new_lease i q m e p a t)"
  by (simp add: lease_ok_def new_lease_def)

lemma evolves_queue_tx [evolve_intros]: "evolves d (snd (queue_tx i q m e p a t d))"
proof (cases "i \<in> ls_id ` set (db_leases d) \<or> q \<in> ls_request_id ` set (db_leases d)")
  case True
  then show ?thesis by (simp add: queue_tx_def)
next
  case False
  let ?l = "new_lease i q m e p a t"
  have "born_queued ?l" unfolding born_queued_def
    by (intro exI [of _ ?l]) (simp add: lease_ok_new, simp add: new_lease_def)
  with False show ?thesis
    unfolding evolves_def
    by (intro exI [of _ "db_leases d"] exI [of _ "[?l]"])
      (auto simp: queue_tx_def Let_def list_all2_same, simp add: new_lease_def)
qed

lemma evolves_finish_queued [evolve_intros]:
  "st \<in> {Cancelled, Expired, Failed} \<Longrightarrow> evolves d (snd (finish_queued i st reason now d))"
  unfolding finish_queued_def snd_conv
  by (rule evolves_update_leases) (auto simp: pending_row_def intro: lease_step.finish_pending)

lemma evolves_expire_lease [evolve_intros]: "evolves d (expire_lease i now d)"
  by (simp add: expire_lease_def evolves_finish_queued)

lemma evolves_cancel_queued [evolve_intros]: "evolves d (cancel_queued i now d)"
  by (simp add: cancel_queued_def evolves_finish_queued)

lemma evolves_clear_queue [evolve_intros]: "evolves d (snd (clear_queue now d))"
  unfolding clear_queue_def snd_conv
  by (rule evolves_update_leases) (auto intro: lease_step.finish_pending)

lemma ensure_queued_cases:
  assumes "wf_leases d" "ensure_queued i now d = (res, d')"
  obtains (stopped) "res = Inl InferenceRequestCancelled" "d' = d"
      "\<And>l. get_lease d i = Some l \<Longrightarrow> \<not> pending (ls_status l)"
  | (waiting) l e where "get_lease d i = Some l" "ls_status l = Reserving"
      "ls_reservation_expires_at l = Some e" "now < e" "res = Inr False" "d' = d"
  | (queued) l where "get_lease d i = Some l" "ls_status l = Queued" "res = Inr True" "d' = d"
  | (recovered) l e where "get_lease d i = Some l" "ls_status l = Reserving"
      "ls_reservation_expires_at l = Some e" "e \<le> now" "res = Inr True"
      "d' = put_lease (requeue_row l) d"
proof (cases "get_lease d i")
  case None
  with assms(2) show thesis by (intro stopped) (auto simp: ensure_queued_def)
next
  case (Some l)
  then have ok: "lease_ok l" using assms(1) get_lease_in by (simp add: wf_leases_def)
  show thesis
  proof (cases "ls_status l")
    case Queued
    with Some assms(2) show thesis by (intro queued) (auto simp: ensure_queued_def)
  next
    case Reserving
    with ok obtain e where "ls_reservation_expires_at l = Some e" by (auto simp: lease_ok_def)
    with Some Reserving assms(2) show thesis
      by (cases "now < e") (auto simp: ensure_queued_def intro: waiting recovered)
  qed (use Some assms(2) in \<open>auto simp: ensure_queued_def intro!: stopped\<close>)
qed

lemma evolves_ensure_queued [evolve_intros]:
  assumes "wf_leases d"
  shows "evolves d (snd (ensure_queued i now d))"
proof -
  obtain res d' where e: "ensure_queued i now d = (res, d')" by fastforce
  with assms show ?thesis
  proof (cases rule: ensure_queued_cases)
    case (recovered l x)
    then show ?thesis using assms e by (auto intro: evolves_put_lease lease_step.requeue)
  qed (use e in simp_all)
qed

section \<open>Properties of admission\<close>

text \<open>
  Claim C4: first in, first out. When a request claims a slot of a server, it is queued,
  and no unexpired request that the server could serve, queued or already reserving, is older
  by \<open>(queued_at, id)\<close>; so a request never overtakes a compatible one, whatever the order in
  which workers poll.
\<close>

theorem claim_takes_fifo_head:
  assumes "claim_tx b now a lease server d = (Some t, d')"
  shows "\<exists>s l. get_server d server = Some s \<and> serving s \<and> l \<in> set (db_leases d) \<and>
    ls_id l = lease \<and> ls_status l = Queued \<and> compatible now s l \<and>
    (\<forall>r\<in>set (db_leases d). compatible now s r \<longrightarrow> fifo_key l \<le> fifo_key r)"
  using assms
proof (cases rule: claim_tx_cases)
  case (reserved s l)
  then show ?thesis using oldest_compatible_least [OF reserved(6)] by blast
qed simp

lemma count_reserved_row:
  assumes "distinct (map ls_id (db_leases d))" "l \<in> set (db_leases d)"
  shows "count_leases q (put_lease (reserve_row s g a e l) d) \<le> Suc (count_leases q d)"
  unfolding count_leases_def put_lease_sel
  by (rule count_update_one_le [OF assms(1), of _ "ls_id l"]) (simp add: reserve_row_def)

text \<open>
  Claim C3: no overshoot. After a successful claim the reservations and the unexpired active
  leases of the server's current generation number at most the capacity the agent confirmed.
\<close>

theorem claim_within_capacity:
  assumes "wf_leases d" "claim_tx b now a lease server d = (Some t, d')"
    and "get_server d server = Some s"
  shows "int (count_leases (occupies now s) d') \<le> server_capacity s"
  using assms(2)
proof (cases rule: claim_tx_cases)
  case (reserved s' l)
  with assms(3) have s: "s' = s" by simp
  have "count_leases (occupies now s) d' \<le> Suc (count_leases (occupies now s) d)"
    unfolding reserved(10) s
    using assms(1) oldest_compatible_least(1) [OF reserved(6)]
    by (intro count_reserved_row) (auto simp: wf_leases_def)
  with reserved(5) s show ?thesis by simp
qed simp

lemma finalize_tx_eq:
  assumes "wf_leases d"
  shows "finalize_tx now t d =
    (if \<exists>s l. may_activate now t d s l
     then (Inr True, put_lease (activate_row now (now + seconds ACTIVE_LEASE_TTL_SECONDS)
             (the (get_lease d (ct_lease t)))) d)
     else (Inr False, d))"
proof -
  obtain res d' where e: "finalize_tx now t d = (res, d')" by fastforce
  with assms show ?thesis
  proof (cases rule: finalize_tx_cases)
    case (activated s l)
    then have "the (get_lease d (ct_lease t)) = l" by (simp add: may_activate_def)
    with activated e show ?thesis by auto
  qed (use e in simp)
qed

text \<open>
  Claim C5: the activation fence. On a well-formed table \<open>finalize\<close> never raises; it commits
  exactly when the server still serves under the claimed generation and the lease is still
  reserving under this very attempt with neither deadline passed, and then it changes that
  row alone, to active with a fresh time to live.
\<close>

theorem activation_fenced:
  assumes "wf_leases d"
  shows "finalize_tx now t d =
    (if \<exists>s l. may_activate now t d s l
     then (Inr True, put_lease (activate_row now (now + seconds ACTIVE_LEASE_TTL_SECONDS)
             (the (get_lease d (ct_lease t)))) d)
     else (Inr False, d))"
  by (rule finalize_tx_eq [OF assms])

text \<open>What other workers do between the transactions of an attempt refines the lease machine.\<close>

definition env_refines :: "attempt_env \<Rightarrow> bool" where
  "env_refines e \<longleftrightarrow> (\<forall>d. wf_leases d \<longrightarrow> evolves d (ae_before_finalize e d)) \<and>
     (\<forall>d. wf_leases d \<longrightarrow> evolves d (ae_before_cleanup e d))"

text \<open>Attempt identifiers are fresh UUIDs: nobody else writes one to a reservation.\<close>

definition keeps_attempt :: "uuid \<Rightarrow> (db \<Rightarrow> db) \<Rightarrow> bool" where
  "keeps_attempt a f \<longleftrightarrow> (\<forall>d i r'. wf_leases d \<and> get_lease (f d) i = Some r' \<and>
     ls_reservation_id r' = Some a \<longrightarrow>
     (\<exists>r. get_lease d i = Some r \<and> ls_reservation_id r = Some a \<and>
        ls_slot_generation r = ls_slot_generation r'))"

lemma claim_tx_row:
  assumes "wf_leases d" "claim_tx b now a lease server d = (Some t, d')"
  shows "ct_lease t = lease" "ct_attempt t = a"
    "\<exists>r. get_lease d' lease = Some r \<and> ls_slot_generation r = Some (ct_generation t)"
proof -
  from assms(2) have "ct_lease t = lease \<and> ct_attempt t = a \<and>
    (\<exists>r. get_lease d' lease = Some r \<and> ls_slot_generation r = Some (ct_generation t))"
  proof (cases rule: claim_tx_cases)
    case (reserved s l)
    have "get_lease d lease = Some l"
      using assms(1) oldest_compatible_least(1) [OF reserved(6)] reserved(7)
      by (auto simp: get_lease_eqI wf_leases_def)
    with reserved show ?thesis by (simp add: get_lease_put_lease reserve_row_def)
  qed simp
  then show "ct_lease t = lease" "ct_attempt t = a"
    "\<exists>r. get_lease d' lease = Some r \<and> ls_slot_generation r = Some (ct_generation t)"
    by simp_all
qed

lemma get_lease_cleanup:
  "get_lease (cleanup_tx now t d) i = map_option (\<lambda>r.
     if holds_attempt Active t r then finish_row Cancelled ''request_abandoned'' now r
     else if holds_attempt Reserving t r then requeue_row r else r) (get_lease d i)"
  unfolding cleanup_tx_def
  by (subst get_lease_update_leases, simp add: requeue_row_def,
      subst get_lease_update_leases, simp add: finish_row_def)
    (auto simp: option.map_comp comp_def holds_attempt_def finish_row_def intro!: option.map_cong)

lemma cleanup_drops_attempt:
  assumes "wf_leases d" "get_lease (cleanup_tx now t d) (ct_lease t) = Some r"
    and "ls_reservation_id r = Some (ct_attempt t)"
  shows "terminal (ls_status r)"
proof -
  obtain r0 where r0: "get_lease d (ct_lease t) = Some r0"
    and r: "r = (if holds_attempt Active t r0 then finish_row Cancelled ''request_abandoned'' now r0
      else if holds_attempt Reserving t r0 then requeue_row r0 else r0)"
    using assms(2) by (auto simp: get_lease_cleanup)
  have "lease_ok r0" "ls_id r0 = ct_lease t"
    using get_lease_in [OF r0] assms(1) by (auto simp: wf_leases_def)
  with r assms(3) show ?thesis
    by (cases "ls_status r0")
      (auto simp: holds_attempt_def finish_row_def requeue_row_def lease_ok_def split: if_splits)
qed

lemma reserve_and_activate_cases:
  assumes "reserve_and_activate e t server d = (res, msgs, d')" "wf_leases d" "env_refines e"
  obtains (gave_up) d1 where "wf_leases d1" "d' = cleanup_tx (ae_cleanup_now e) t d1"
      "\<And>h. res \<noteq> Inr (Some h)"
  | (admitted) s l where "may_activate (ae_finalize_now e) t (ae_before_finalize e d) s l"
      "d' = put_lease (activate_row (ae_finalize_now e)
          (ae_finalize_now e + seconds ACTIVE_LEASE_TTL_SECONDS) l) (ae_before_finalize e d)"
      "res = Inr (Some (start_renewal (new_handle (ct_request t) server (ct_lease t)
          (ct_generation t) (ct_attempt t))))"
proof -
  have w1: "wf_leases (ae_before_finalize e d)"
    and w2: "\<And>x. wf_leases x \<Longrightarrow> wf_leases (ae_before_cleanup e x)"
    using assms(2,3) evolves_wf by (auto simp: env_refines_def)
  obtain fr d1 where f: "finalize_tx (ae_finalize_now e) t (ae_before_finalize e d) = (fr, d1)"
    by fastforce
  have w3: "wf_leases d1" using evolves_wf [OF w1 evolves_finalize_tx [OF w1]] f by (metis snd_conv)
  show thesis
  proof (cases "ae_reply e = Accepted \<and> fr = Inr True \<and> \<not> ae_finalize_cancelled e")
    case True
    show thesis
      using w1 f
    proof (cases rule: finalize_tx_cases)
      case refused
      with True show thesis by simp
    next
      case (activated s l)
      show thesis
        by (rule admitted [OF activated(1)])
          (use assms(1) f True activated in \<open>simp_all add: reserve_and_activate_def Let_def\<close>)
    qed
  next
    case False
    show thesis
    proof (cases "ae_reply e = Accepted")
      case True
      show thesis
        by (rule gave_up [of "ae_before_cleanup e d1"])
          (use assms(1) f False True w2 [OF w3] in
            \<open>auto simp: reserve_and_activate_def Let_def split: sum.splits if_splits\<close>)
    next
      case no: False
      show thesis
        by (rule gave_up [of "ae_before_cleanup e d"])
          (use assms(1) no w2 [OF assms(2)] in
            \<open>auto simp: reserve_and_activate_def Let_def split: reserve_reply.splits if_splits\<close>)
    qed
  qed
qed


end
