(* ===== verification/Lifecycle.thy ===== *)
theory Lifecycle
  imports Admission
begin

text \<open>
  backend/app/services/server_lifecycle.py: reserving the start of a new process generation,
  and the fenced stop of a server around its agent call; and the contract of everything that
  writes server rows: a row keeps its key and its generation never decreases (\<open>server_op\<close>).
\<close>

section \<open>Starting\<close>

definition reserve_server_start :: "uuid \<Rightarrow> db \<Rightarrow> (exn + server_row) \<times> db" where
  "reserve_server_start server d =
     (case get_server d server of
        None \<Rightarrow> (Inl (RuntimeError ''Server instance no longer exists''), d)
      | Some s \<Rightarrow>
          if srv_status s \<in> {SrvStarting, SrvRunning, SrvStopping}
          then (Inl (ServerBusyError (''Server is already '' @ server_status_name (srv_status s))), d)
          else (let s' = s\<lparr>srv_slot_generation := srv_slot_generation s + 1,
                  srv_status := SrvStarting, srv_health := HUnknown, srv_started_at := None,
                  srv_error_message := None\<rparr>
                in (Inr s', put_server s' d)))"

section \<open>Stopping\<close>

definition active_on :: "uuid \<Rightarrow> lease_row \<Rightarrow> bool" where
  "active_on server r \<longleftrightarrow> ls_server_instance_id r = Some server \<and> ls_status r = Active"

text \<open>The fencing transaction: what the stop then tells the agent, or the exception.\<close>

definition stop_fence_tx ::
  "bool \<Rightarrow> string \<Rightarrow> time \<Rightarrow> uuid \<Rightarrow> db \<Rightarrow> (exn + agent_msg) \<times> db" where
  "stop_fence_tx force reason now server d =
     (case get_server d server of
        None \<Rightarrow> (Inl (RuntimeError ''Server instance no longer exists''), d)
      | Some s \<Rightarrow>
          let active = count_leases (active_on server) d in
          if active \<noteq> 0 \<and> \<not> force
          then (Inl (ServerBusyError (''Server has '' @ show_nat active @ '' active inference request(s)'')), d)
          else (let d1 = put_server (s\<lparr>srv_status := SrvStopping, srv_health := HUnknown\<rparr>) d;
                    d2 = (if active \<noteq> 0
                          then update_leases (active_on server) (finish_row Failed reason now) d1
                          else d1)
                in (Inr (StopServer (srv_agent_id s) server (srv_slot_generation s)), d2)))"

definition stop_failed_tx :: "int \<Rightarrow> string \<Rightarrow> uuid \<Rightarrow> db \<Rightarrow> db" where
  "stop_failed_tx gen err server d =
     (case get_server d server of
        None \<Rightarrow> d
      | Some s \<Rightarrow>
          if srv_slot_generation s = gen \<and> srv_status s = SrvStopping
          then put_server (s\<lparr>srv_status := SrvError, srv_health := HUnknown,
                 srv_error_message := Some err\<rparr>) d
          else d)"

definition stop_done_tx :: "int \<Rightarrow> uuid \<Rightarrow> db \<Rightarrow> (exn + server_row) \<times> db" where
  "stop_done_tx gen server d =
     (case get_server d server of
        None \<Rightarrow> (Inl (RuntimeError ''Server instance was deleted while stopping''), d)
      | Some s \<Rightarrow>
          if srv_slot_generation s = gen \<and> srv_status s = SrvStopping
          then (let s' = s\<lparr>srv_status := SrvStopped, srv_health := HUnknown,
                  srv_error_message := None\<rparr> in (Inr s', put_server s' d))
          else (Inr s, d))"

text \<open>
  The whole stop: \<open>reply\<close> is the exception the agent call raised, if any, with its text, and
  \<open>env\<close> what others did to the database while it ran.
\<close>

definition request_server_stop ::
  "bool \<Rightarrow> string \<Rightarrow> time \<Rightarrow> (exn \<times> string) option \<Rightarrow> (db \<Rightarrow> db) \<Rightarrow> uuid \<Rightarrow> db
     \<Rightarrow> (exn + server_row) \<times> agent_msg list \<times> db" where
  "request_server_stop force reason now reply env server d =
     (case stop_fence_tx force reason now server d of
        (Inl x, d1) \<Rightarrow> (Inl x, [], d1)
      | (Inr msg, d1) \<Rightarrow>
          (case reply of
             Some (x, err) \<Rightarrow> (Inl x, [msg], stop_failed_tx (msg_generation msg) err server (env d1))
           | None \<Rightarrow> (let (res, d2) = stop_done_tx (msg_generation msg) server (env d1)
                      in (res, [msg], d2))))"

section \<open>The contract of server rows\<close>

definition server_forward :: "db \<Rightarrow> db \<Rightarrow> bool" where
  "server_forward d d' \<longleftrightarrow> map srv_id (db_servers d') = map srv_id (db_servers d) \<and>
     (\<forall>i s. get_server d i = Some s \<longrightarrow>
        (\<exists>s'. get_server d' i = Some s' \<and> srv_slot_generation s \<le> srv_slot_generation s' \<and>
           srv_agent_id s' = srv_agent_id s \<and> srv_model_id s' = srv_model_id s))"

named_theorems forward_intros "operations that keep server rows and their generations"

lemma server_forward_same: "db_servers d' = db_servers d \<Longrightarrow> server_forward d d'"
  by (simp add: server_forward_def get_server_def)

lemma server_forward_refl [simp]: "server_forward d d"
  by (rule server_forward_same) simp

lemma server_forward_trans:
  assumes ab: "server_forward a b" and bc: "server_forward b c"
  shows "server_forward a c"
  unfolding server_forward_def
proof (intro conjI allI impI)
  show "map srv_id (db_servers c) = map srv_id (db_servers a)"
    using ab bc by (simp add: server_forward_def)
next
  fix i s
  assume "get_server a i = Some s"
  with ab obtain t where t: "get_server b i = Some t" "srv_slot_generation s \<le> srv_slot_generation t"
    "srv_agent_id t = srv_agent_id s" "srv_model_id t = srv_model_id s"
    unfolding server_forward_def by blast
  with bc obtain u where "get_server c i = Some u" "srv_slot_generation t \<le> srv_slot_generation u"
    "srv_agent_id u = srv_agent_id t" "srv_model_id u = srv_model_id t"
    unfolding server_forward_def by blast
  with t show "\<exists>u. get_server c i = Some u \<and> srv_slot_generation s \<le> srv_slot_generation u \<and>
      srv_agent_id u = srv_agent_id s \<and> srv_model_id u = srv_model_id s"
    by auto
qed

lemma server_forward_fold:
  assumes "\<And>c acc. server_forward (snd acc) (snd (f c acc))"
  shows "server_forward (snd acc) (snd (fold f cs acc))"
proof (induction cs arbitrary: acc)
  case Nil
  then show ?case by simp
next
  case (Cons c cs)
  from server_forward_trans [OF assms Cons.IH] show ?case by simp
qed

lemma server_forward_update_leases [forward_intros]: "server_forward d (update_leases p f d)"
  by (rule server_forward_same) simp

lemma server_forward_put_lease [forward_intros]: "server_forward d (put_lease l d)"
  by (rule server_forward_same) simp

lemma server_forward_update [forward_intros]:
  assumes "\<And>r. p r \<Longrightarrow> srv_id (f r) = srv_id r \<and> srv_slot_generation r \<le> srv_slot_generation (f r) \<and>
    srv_agent_id (f r) = srv_agent_id r \<and> srv_model_id (f r) = srv_model_id r"
  shows "server_forward d (update_servers p f d)"
  unfolding server_forward_def
  using assms by (auto simp: get_server_update_servers intro!: map_update_where)

lemma server_forward_put [forward_intros]:
  assumes "get_server d i = Some s" "srv_id s' = srv_id s"
    "srv_slot_generation s \<le> srv_slot_generation s'"
    "srv_agent_id s' = srv_agent_id s" "srv_model_id s' = srv_model_id s"
  shows "server_forward d (put_server s' d)"
  unfolding server_forward_def
proof (intro conjI allI impI)
  show "map srv_id (db_servers (put_server s' d)) = map srv_id (db_servers d)"
    unfolding put_server_sel by (rule map_update_where) simp
next
  fix j r
  assume "get_server d j = Some r"
  then show "\<exists>r'. get_server (put_server s' d) j = Some r' \<and>
      srv_slot_generation r \<le> srv_slot_generation r' \<and> srv_agent_id r' = srv_agent_id r \<and>
      srv_model_id r' = srv_model_id r"
    using assms get_server_in [OF assms(1)]
    by (cases "j = srv_id s'") (auto simp: get_server_put_server)
qed

text \<open>
  What admission relies on from every operation: it refines the lease machine and moves
  generations only forward. A ticket of a past generation then never activates again, in
  any later state.
\<close>

definition wf_servers :: "db \<Rightarrow> bool" where
  "wf_servers d \<longleftrightarrow> distinct (map srv_id (db_servers d))"

lemma server_forward_wf: "server_forward d d' \<Longrightarrow> wf_servers d \<Longrightarrow> wf_servers d'"
  by (simp add: server_forward_def wf_servers_def)

locale scheduler_op = lease_op run for run :: "'c \<Rightarrow> db \<Rightarrow> db" +
  assumes run_forward: "wf_servers d \<Longrightarrow> server_forward d (run c d)"
begin

lemma runs_forward: "wf_servers d \<Longrightarrow> server_forward d (fold run cs d)"
proof (induction cs arbitrary: d)
  case Nil
  then show ?case by simp
next
  case (Cons c cs)
  from server_forward_trans [OF run_forward Cons.IH] Cons.prems
    server_forward_wf [OF run_forward]
  show ?case by simp
qed

lemma runs_wf_servers: "wf_servers d \<Longrightarrow> wf_servers (fold run cs d)"
  using runs_forward server_forward_wf by blast

lemma generation_never_decreases:
  assumes "wf_servers d" "get_server d i = Some s"
  shows "\<exists>s'. get_server (fold run cs d) i = Some s' \<and> srv_slot_generation s \<le> srv_slot_generation s'"
  using runs_forward [OF assms(1), of cs] assms(2) unfolding server_forward_def by blast

lemma past_generation_never_activates:
  assumes "wf_leases d" "wf_servers d" "get_server d (ct_server t) = Some s"
    and "ct_generation t < srv_slot_generation s"
  shows "finalize_tx now t (fold run cs d) = (Inr False, fold run cs d)"
proof -
  obtain s' where "get_server (fold run cs d) (ct_server t) = Some s'"
    "srv_slot_generation s \<le> srv_slot_generation s'"
    using generation_never_decreases [OF assms(2,3)] by blast
  with assms(4) have "\<nexists>s l. may_activate now t (fold run cs d) s l"
    by (auto simp: may_activate_def)
  then show ?thesis using finalize_tx_eq [OF runs_wf [OF assms(1)]] by simp
qed

end

section \<open>Lifecycle transactions keep both contracts\<close>

lemma evolves_reserve_start [evolve_intros]: "evolves d (snd (reserve_server_start i d))"
  by (auto simp: reserve_server_start_def Let_def intro!: evolves_put_server split: option.splits)

lemma forward_reserve_start [forward_intros]: "server_forward d (snd (reserve_server_start i d))"
  by (auto simp: reserve_server_start_def Let_def intro!: server_forward_put split: option.splits)

lemma evolves_fail_active_on: "evolves d (update_leases (active_on i) (finish_row Failed reason now) d)"
  by (rule evolves_update_leases) (auto simp: active_on_def intro: lease_step.finish_active)

lemma evolves_stop_fence [evolve_intros]: "evolves d (snd (stop_fence_tx force reason now i d))"
  by (auto simp: stop_fence_tx_def Let_def intro: evolves_put_server
      intro!: evolves_trans [OF evolves_put_server evolves_fail_active_on] split: option.splits)

lemma forward_stop_fence [forward_intros]:
  "server_forward d (snd (stop_fence_tx force reason now i d))"
  by (auto simp: stop_fence_tx_def Let_def
      intro!: server_forward_put server_forward_trans [OF _ server_forward_update_leases]
      split: option.splits)

lemma evolves_stop_failed [evolve_intros]: "evolves d (stop_failed_tx g err i d)"
  by (auto simp: stop_failed_tx_def intro: evolves_put_server split: option.splits)

lemma forward_stop_failed [forward_intros]: "server_forward d (stop_failed_tx g err i d)"
  by (auto simp: stop_failed_tx_def intro!: server_forward_put split: option.splits)

lemma evolves_stop_done [evolve_intros]: "evolves d (snd (stop_done_tx g i d))"
  by (auto simp: stop_done_tx_def Let_def intro: evolves_put_server split: option.splits)

lemma forward_stop_done [forward_intros]: "server_forward d (snd (stop_done_tx g i d))"
  by (auto simp: stop_done_tx_def Let_def intro!: server_forward_put split: option.splits)

section \<open>Properties\<close>

lemma stop_fence_cases:
  assumes "stop_fence_tx force reason now i d = (Inr msg, d')"
  obtains s where "get_server d i = Some s" "force \<or> count_leases (active_on i) d = 0"
    "msg = StopServer (srv_agent_id s) i (srv_slot_generation s)"
    "get_server d' i = Some (s\<lparr>srv_status := SrvStopping, srv_health := HUnknown\<rparr>)"
    "db_leases d' = update_where (active_on i) (finish_row Failed reason now) (db_leases d)"
proof (cases "get_server d i")
  case None
  with assms show thesis by (simp add: stop_fence_tx_def)
next
  case (Some s)
  have "update_where (active_on i) f (db_leases d) = db_leases d"
    if "count_leases (active_on i) d = 0" for f
    using that by (auto simp: count_leases_def count_where_0_iff intro: update_where_id)
  with Some assms get_server_in [OF Some] show thesis
    by (intro that [of s])
      (auto simp: stop_fence_tx_def Let_def get_server_put_server split: if_splits)
qed

text \<open>
  Claim C9: a stop fences admission. Once the fencing transaction has committed, no ticket
  for the server activates, no request is active on it, and a stop without \<open>force\<close> went through
  only because no request was active before; so a graceful stop fails no request.
\<close>

theorem stop_fences_admission:
  assumes "wf_leases d" "stop_fence_tx force reason now i d = (Inr msg, d')"
  shows "count_leases (active_on i) d' = 0 \<and>
    (\<forall>t later. ct_server t = i \<longrightarrow> finalize_tx later t d' = (Inr False, d')) \<and>
    (force \<or> db_leases d' = db_leases d)"
proof -
  obtain s where s: "get_server d i = Some s" "force \<or> count_leases (active_on i) d = 0"
    "get_server d' i = Some (s\<lparr>srv_status := SrvStopping, srv_health := HUnknown\<rparr>)"
    "db_leases d' = update_where (active_on i) (finish_row Failed reason now) (db_leases d)"
    using assms(2) by (blast elim: stop_fence_cases)
  have wf: "wf_leases d'"
    using evolves_wf [OF assms(1) evolves_stop_fence] assms(2) by (metis snd_conv)
  have "count_leases (active_on i) d' = 0"
    unfolding count_leases_def s(4)
    by (rule count_update_where_0) (simp add: active_on_def finish_row_def)
  moreover have "finalize_tx later t d' = (Inr False, d')" if "ct_server t = i" for t later
    using s(3) that by (subst finalize_tx_eq [OF wf]) (auto simp: may_activate_def serving_def)
  moreover have "db_leases d' = db_leases d" if "\<not> force"
    unfolding s(4) using s(2) that
    by (intro update_where_id) (auto simp: count_leases_def count_where_0_iff)
  ultimately show ?thesis by blast
qed

end
