(* ===== verification/Reconcile.thy ===== *)
theory Reconcile
  imports Lifecycle
begin

text \<open>
  \<open>reconcile_stale_leases\<close> of backend/app/services/inference_scheduler.py: a reading
  transaction, one operations query per server of an expired lease, and a writing
  transaction that ends or renews exactly what the answers allow. The answers of the agents
  and the changes other workers make between the two transactions are arguments.
\<close>

section \<open>The reading transaction\<close>

definition old_generation_leases :: "db \<Rightarrow> uuid list" where
  "old_generation_leases d = concat (map (\<lambda>l.
     map (\<lambda>_. ls_id l)
       (filter (\<lambda>s. ls_server_instance_id l = Some (srv_id s) \<and> ls_status l = Active \<and>
                  ls_slot_generation l \<noteq> Some (srv_slot_generation s)) (db_servers d)))
     (db_leases d))"

definition expired_candidates :: "time \<Rightarrow> db \<Rightarrow> (lease_row \<times> server_row) list" where
  "expired_candidates now d = concat (map (\<lambda>l.
     map (\<lambda>s. (l, s))
       (filter (\<lambda>s. ls_server_instance_id l = Some (srv_id s) \<and> ls_status l = Active \<and>
                  sql_le (ls_lease_expires_at l) now \<and> srv_status s = SrvRunning \<and>
                  srv_health s = HHealthy \<and> ls_slot_generation l = Some (srv_slot_generation s))
          (db_servers d)))
     (db_leases d))"

text \<open>\<open>operations_by_server\<close>: leases grouped by server, in the order servers first appear.\<close>

fun add_by_server ::
  "lease_row \<times> server_row \<Rightarrow> (uuid \<times> server_row \<times> lease_row list) list
     \<Rightarrow> (uuid \<times> server_row \<times> lease_row list) list" where
  "add_by_server (l, s) m =
     (case map_of m (srv_id s) of
        None \<Rightarrow> AList.update (srv_id s) (s, [l]) m
      | Some (s0, ls) \<Rightarrow> AList.update (srv_id s) (s0, ls @ [l]) m)"

definition operations_by_server ::
  "(lease_row \<times> server_row) list \<Rightarrow> (uuid \<times> server_row \<times> lease_row list) list" where
  "operations_by_server cs = fold add_by_server cs []"

section \<open>What the agents answer\<close>

record op_report =
  or_request :: string
  or_generation :: int
  or_status :: string

text \<open>The dict comprehension over the reported operations: the last report of an id wins.\<close>

definition reported_map :: "op_report list \<Rightarrow> string \<Rightarrow> op_report option" where
  "reported_map ops = fold (\<lambda>x m. if or_request x = '''' then m else m(or_request x \<mapsto> x)) ops Map.empty"

definition known_statuses :: "string list" where
  "known_statuses = [''queued'', ''reserved'', ''active'', ''cancelling'',
     ''completed'', ''cancelled'', ''failed'']"

definition classify :: "op_report list \<Rightarrow> lease_row \<Rightarrow> string" where
  "classify ops l = (case reported_map ops (ls_request_id l) of
     Some x \<Rightarrow> if Some (or_generation x) = ls_slot_generation l \<and> or_status x \<in> set known_statuses
               then or_status x else ''unknown''
   | None \<Rightarrow> ''unknown'')"

text \<open>
  The results of all queries: per lease its operation's status, and the leases whose agent
  could not be asked or gave no complete list (\<open>answer\<close> is None), which are deferred.
\<close>

fun query_server ::
  "(server_row \<Rightarrow> op_report list option) \<Rightarrow> uuid \<times> server_row \<times> lease_row list
     \<Rightarrow> (uuid \<times> string) list \<times> uuid list \<Rightarrow> (uuid \<times> string) list \<times> uuid list" where
  "query_server answer (_, s, ls) (results, deferred) =
     (case answer s of
        None \<Rightarrow> (results, deferred @ map ls_id ls)
      | Some ops \<Rightarrow>
          (fold (\<lambda>l r. AList.update (ls_id l) (classify ops l) r) ls results, deferred))"

definition query_all ::
  "(server_row \<Rightarrow> op_report list option) \<Rightarrow> (lease_row \<times> server_row) list
     \<Rightarrow> (uuid \<times> string) list \<times> uuid list" where
  "query_all answer cs = fold (query_server answer) (operations_by_server cs) ([], [])"

section \<open>The writing transaction\<close>

definition ids_with :: "string set \<Rightarrow> (uuid \<times> string) list \<Rightarrow> uuid list" where
  "ids_with sts results = map fst (filter (\<lambda>(_, st). st \<in> sts) results)"

definition expired_active_in :: "time \<Rightarrow> uuid list \<Rightarrow> lease_row \<Rightarrow> bool" where
  "expired_active_in now ids r \<longleftrightarrow>
     ls_id r \<in> set ids \<and> ls_status r = Active \<and> sql_le (ls_lease_expires_at r) now"

definition abandoned_reservation :: "time \<Rightarrow> lease_row \<Rightarrow> bool" where
  "abandoned_reservation now r \<longleftrightarrow> ls_status r = Reserving \<and>
     sql_le (ls_reservation_expires_at r) now \<and> sql_gt (ls_lease_expires_at r) now"

definition expired_reservation :: "time \<Rightarrow> lease_row \<Rightarrow> bool" where
  "expired_reservation now r \<longleftrightarrow> ls_status r = Reserving \<and> sql_le (ls_lease_expires_at r) now"

definition expired_queued :: "time \<Rightarrow> lease_row \<Rightarrow> bool" where
  "expired_queued now r \<longleftrightarrow> ls_status r = Queued \<and> sql_le (ls_lease_expires_at r) now"

definition requeue_abandoned :: "time \<Rightarrow> db \<Rightarrow> nat \<times> db" where
  "requeue_abandoned now d = (count_leases (abandoned_reservation now) d,
     update_leases (abandoned_reservation now) requeue_row d)"

definition expire_reservations :: "time \<Rightarrow> db \<Rightarrow> nat \<times> db" where
  "expire_reservations now d = (count_leases (expired_reservation now) d,
     update_leases (expired_reservation now) (finish_row Expired ''queue_timeout'' now) d)"

definition expire_queued :: "time \<Rightarrow> db \<Rightarrow> nat \<times> db" where
  "expire_queued now d = (count_leases (expired_queued now) d,
     update_leases (expired_queued now) (finish_row Expired ''queue_timeout'' now) d)"

definition fail_old_generations :: "time \<Rightarrow> uuid list \<Rightarrow> db \<Rightarrow> nat \<times> db" where
  "fail_old_generations now ids d =
     (let p = (\<lambda>r. ls_id r \<in> set ids \<and> ls_status r = Active) in
      (count_leases p d, update_leases p (finish_row Failed ''server_generation_changed'' now) d))"

definition renew_reported :: "time \<Rightarrow> uuid list \<Rightarrow> db \<Rightarrow> db" where
  "renew_reported now ids d = update_leases (expired_active_in now ids)
     (renew_row (now + seconds ACTIVE_LEASE_TTL_SECONDS)) d"

definition finish_reported :: "time \<Rightarrow> uuid list \<Rightarrow> lease_status \<Rightarrow> string \<Rightarrow> db \<Rightarrow> nat \<times> db" where
  "finish_reported now ids st reason d = (count_leases (expired_active_in now ids) d,
     update_leases (expired_active_in now ids) (finish_row st reason now) d)"

text \<open>The stale active rows with their server, if it still exists (an outer join).\<close>

definition stale_rows :: "time \<Rightarrow> db \<Rightarrow> (lease_row \<times> server_row option) list" where
  "stale_rows now d =
     filter (\<lambda>(l, so). ls_status l = Active \<and>
         (sql_le (ls_lease_expires_at l) now \<or> ls_server_instance_id l = None \<or>
          (case so of None \<Rightarrow> False
            | Some s \<Rightarrow> srv_status s \<noteq> SrvRunning \<or> srv_health s \<noteq> HHealthy)))
       (map (\<lambda>l. (l, case ls_server_instance_id l of None \<Rightarrow> None | Some i \<Rightarrow> get_server d i))
          (db_leases d))"

text \<open>One turn of the loop over the servers of stale rows: the row is locked and re-read.\<close>

definition failure_update :: "time \<Rightarrow> server_row \<Rightarrow> lease_row \<Rightarrow> bool" where
  "failure_update now s r \<longleftrightarrow> active_on (srv_id s) r \<and>
     ls_slot_generation r = Some (srv_slot_generation s) \<and>
     (serving s \<longrightarrow> sql_le (ls_lease_expires_at r) now)"

definition fence_server :: "time \<Rightarrow> uuid \<Rightarrow> agent_msg list \<times> db \<Rightarrow> agent_msg list \<times> db" where
  "fence_server now i acc = (case acc of (stops, d) \<Rightarrow>
     (case get_server d i of
        None \<Rightarrow> (stops, d)
      | Some s \<Rightarrow>
          let failed = count_leases (failure_update now s) d;
              d1 = update_leases (failure_update now s)
                     (finish_row Failed ''lease_expired_or_server_unavailable'' now) d
          in if failed = 0 then (stops, d1)
             else if \<not> serving s \<and> srv_status s \<in> {SrvRunning, SrvStarting}
             then (stops @ [StopServer (srv_agent_id s) i (srv_slot_generation s)],
                   put_server (s\<lparr>srv_status := SrvStopping\<rparr>) d1)
             else (stops, d1)))"

definition fail_missing :: "time \<Rightarrow> uuid list \<Rightarrow> db \<Rightarrow> db" where
  "fail_missing now ids d = update_leases (\<lambda>r. ls_id r \<in> set ids \<and> ls_status r = Active)
     (finish_row Failed ''server_missing'' now) d"

text \<open>The statements of the transaction up to the stale rows: the count, and the database.\<close>

definition reconcile_deadlines ::
  "time \<Rightarrow> uuid list \<Rightarrow> (uuid \<times> string) list \<Rightarrow> uuid list \<Rightarrow> db \<Rightarrow> nat \<times> db" where
  "reconcile_deadlines now old results deferred d0 =
     (let (n1, d1) = requeue_abandoned now d0;
          (n2, d2) = expire_reservations now d1;
          (n3, d3) = expire_queued now d2;
          (n4, d4) = fail_old_generations now old d3;
          live = ids_with {''queued'', ''reserved'', ''active'', ''cancelling''} results;
          d5 = renew_reported now (live @ deferred) d4;
          (n6, d6) = finish_reported now (ids_with {''completed''} results) Released ''completed'' d5;
          (n7, d7) = finish_reported now (ids_with {''cancelled''} results) Cancelled ''agent_cancelled'' d6;
          (n8, d8) = finish_reported now (ids_with {''failed''} results) Failed ''agent_operation_failed'' d7;
          (n9, d9) = finish_reported now (ids_with {''unknown''} results) Failed ''agent_operation_unknown'' d8
      in (n3 + n1 + n2 + n4 + (n6 + n7 + n8 + n9), d9))"

definition reconcile_stale :: "time \<Rightarrow> db \<Rightarrow> nat \<times> agent_msg list \<times> db" where
  "reconcile_stale now d =
     (let stale = stale_rows now d;
          servers = remdups (map srv_id (concat (map (\<lambda>(_, so). case so of None \<Rightarrow> [] | Some s \<Rightarrow> [s]) stale)));
          (stops, d1) = fold (fence_server now) servers ([], d);
          missing = map (\<lambda>(l, _). ls_id l) (filter (\<lambda>(_, so). so = None) stale)
      in (length stale, stops, fail_missing now missing d1))"

definition reconcile_write ::
  "time \<Rightarrow> uuid list \<Rightarrow> (uuid \<times> string) list \<Rightarrow> uuid list \<Rightarrow> db \<Rightarrow> nat \<times> agent_msg list \<times> db" where
  "reconcile_write now old results deferred d =
     (let (n, d1) = reconcile_deadlines now old results deferred d;
          (m, stops, d2) = reconcile_stale now d1
      in (n + m, stops, d2))"

definition reconcile_stale_leases ::
  "time \<Rightarrow> (server_row \<Rightarrow> op_report list option) \<Rightarrow> (db \<Rightarrow> db) \<Rightarrow> db
     \<Rightarrow> nat \<times> agent_msg list \<times> db" where
  "reconcile_stale_leases now answer env d =
     (let old = old_generation_leases d;
          (results, deferred) = query_all answer (expired_candidates now d)
      in reconcile_write now old results deferred (env d))"

section \<open>Reconciliation keeps both contracts\<close>

lemma evolves_finish_active:
  "(\<And>r. p r \<Longrightarrow> ls_status r = Active) \<Longrightarrow> st \<in> {Released, Cancelled, Failed} \<Longrightarrow>
   evolves d (update_leases p (finish_row st reason now) d)"
  by (rule evolves_update_leases) (auto intro: lease_step.finish_active)

lemma evolves_expire:
  "(\<And>r. p r \<Longrightarrow> pending (ls_status r)) \<Longrightarrow>
   evolves d (update_leases p (finish_row Expired reason now) d)"
  by (rule evolves_update_leases) (auto intro: lease_step.finish_pending)

lemma evolves_requeue_abandoned: "evolves d (snd (requeue_abandoned now d))"
  unfolding requeue_abandoned_def snd_conv
  by (rule evolves_update_leases) (auto simp: abandoned_reservation_def intro: lease_step.requeue)

lemma evolves_expire_reservations: "evolves d (snd (expire_reservations now d))"
  unfolding expire_reservations_def snd_conv
  by (rule evolves_expire) (simp add: expired_reservation_def)

lemma evolves_expire_queued: "evolves d (snd (expire_queued now d))"
  unfolding expire_queued_def snd_conv by (rule evolves_expire) (simp add: expired_queued_def)

lemma evolves_fail_old: "evolves d (snd (fail_old_generations now ids d))"
  unfolding fail_old_generations_def Let_def snd_conv by (rule evolves_finish_active) auto

lemma evolves_renew_reported: "evolves d (renew_reported now ids d)"
  unfolding renew_reported_def
  by (rule evolves_update_leases) (auto simp: expired_active_in_def intro: lease_step.renew)

lemma evolves_finish_reported:
  "st \<in> {Released, Cancelled, Failed} \<Longrightarrow> evolves d (snd (finish_reported now ids st reason d))"
  unfolding finish_reported_def snd_conv
  by (rule evolves_finish_active) (auto simp: expired_active_in_def)

lemmas reconcile_statements = evolves_requeue_abandoned evolves_expire_reservations
  evolves_expire_queued evolves_fail_old evolves_renew_reported evolves_finish_reported

lemma reconcile_deadlines_servers [simp]:
  "db_servers (snd (reconcile_deadlines now old results deferred d)) = db_servers d"
  by (simp add: reconcile_deadlines_def requeue_abandoned_def expire_reservations_def
      expire_queued_def fail_old_generations_def renew_reported_def finish_reported_def Let_def)

lemmas reconcile_then = reconcile_statements [THEN [2] evolves_trans]

lemma evolves_reconcile_deadlines: "evolves d (snd (reconcile_deadlines now old results deferred d))"
  unfolding reconcile_deadlines_def Let_def split_beta snd_conv
  by (intro reconcile_then evolves_refl) simp_all

lemma evolves_fence_server:
  "evolves (snd acc) (snd (fence_server now i acc))"
proof -
  have "evolves d (update_leases (failure_update now s) (finish_row Failed r now) d)" for d s r
    by (rule evolves_finish_active) (auto simp: failure_update_def active_on_def)
  then show ?thesis
    by (cases acc) (auto simp: fence_server_def Let_def intro: evolves_trans [OF _ evolves_put_server]
        split: option.splits)
qed

lemma forward_fence_server:
  "server_forward (snd acc) (snd (fence_server now i acc))"
  by (cases acc) (auto simp: fence_server_def Let_def
      intro!: server_forward_update_leases server_forward_trans [OF server_forward_update_leases server_forward_put]
      split: option.splits)

lemmas evolves_fence_servers = evolves_fold [of "fence_server now" for now, OF evolves_fence_server]

lemmas forward_fence_servers =
  server_forward_fold [of "fence_server now" for now, OF forward_fence_server]

lemma evolves_fail_missing: "evolves d (fail_missing now ids d)"
  unfolding fail_missing_def by (rule evolves_finish_active) auto

lemma evolves_reconcile_stale: "evolves d (snd (snd (reconcile_stale now d)))"
proof -
  have "evolves d (snd (fold (fence_server now) is ([], d)))" for "is"
    using evolves_fence_servers [of "([], d)"] by simp
  then show ?thesis
    by (auto simp: reconcile_stale_def Let_def split_beta intro: evolves_trans evolves_fail_missing)
qed

lemma forward_reconcile_stale: "server_forward d (snd (snd (reconcile_stale now d)))"
proof -
  have "server_forward d (snd (fold (fence_server now) is ([], d)))" for "is"
    using forward_fence_servers [of "([], d)"] by simp
  then show ?thesis
    by (auto simp: reconcile_stale_def Let_def split_beta fail_missing_def
        intro: server_forward_trans server_forward_update_leases)
qed

lemma reconcile_write_db:
  "snd (snd (reconcile_write now old results deferred d)) =
     snd (snd (reconcile_stale now (snd (reconcile_deadlines now old results deferred d))))"
  by (simp add: reconcile_write_def Let_def split_beta)

lemma evolves_reconcile_write [evolve_intros]:
  "evolves d (snd (snd (reconcile_write now old results deferred d)))"
  unfolding reconcile_write_db by (rule evolves_trans [OF evolves_reconcile_deadlines evolves_reconcile_stale])

lemma forward_reconcile_write [forward_intros]:
  "server_forward d (snd (snd (reconcile_write now old results deferred d)))"
  unfolding reconcile_write_db
  by (rule server_forward_trans [OF server_forward_same forward_reconcile_stale]) simp

section \<open>What a reconciliation leaves behind\<close>

text \<open>No deadline of a waiting request has passed.\<close>

definition in_time :: "time \<Rightarrow> lease_row \<Rightarrow> bool" where
  "in_time now r \<longleftrightarrow> (pending (ls_status r) \<longrightarrow> sql_gt (ls_lease_expires_at r) now) \<and>
     (ls_status r = Reserving \<longrightarrow> sql_gt (ls_reservation_expires_at r) now)"

lemma in_time_finish [simp]:
  "terminal st \<Longrightarrow> in_time now (finish_row st reason t r)"
  by (cases st) (auto simp: in_time_def finish_row_def)

lemma in_time_update_active:
  assumes "\<forall>r\<in>set (db_leases d). in_time now r" "\<And>r. p r \<Longrightarrow> in_time now r \<Longrightarrow> in_time now (f r)"
  shows "\<forall>r\<in>set (db_leases (update_leases p f d)). in_time now r"
  unfolding update_leases_sel by (rule all_update_where [OF assms(1)]) (auto intro: assms(2))

lemma in_time_deadlines:
  assumes "wf_leases d"
  shows "\<forall>r\<in>set (db_leases (snd (reconcile_deadlines now old results deferred d))). in_time now r"
proof -
  let ?A = "\<lambda>r. lease_ok r \<and> (ls_status r = Reserving \<and> sql_gt (ls_lease_expires_at r) now \<longrightarrow>
    sql_gt (ls_reservation_expires_at r) now)"
  let ?B = "\<lambda>r. ?A r \<and> (ls_status r = Reserving \<longrightarrow> sql_gt (ls_lease_expires_at r) now)"
  have 1: "\<forall>r\<in>set (db_leases (snd (requeue_abandoned now d))). ?A r"
    unfolding requeue_abandoned_def snd_conv update_leases_sel
    by (rule all_update_where [where P = lease_ok])
      (use assms in \<open>auto simp: wf_leases_def abandoned_reservation_def requeue_row_def lease_ok_def\<close>)
  have 2: "\<forall>r\<in>set (db_leases (snd (expire_reservations now e))). ?B r"
    if "\<forall>r\<in>set (db_leases e). ?A r" for e
    unfolding expire_reservations_def snd_conv update_leases_sel
    by (rule all_update_where [OF that])
      (auto simp: expired_reservation_def finish_row_def lease_ok_def)
  have 3: "\<forall>r\<in>set (db_leases (snd (expire_queued now e))). in_time now r"
    if "\<forall>r\<in>set (db_leases e). ?B r" for e
    unfolding expire_queued_def snd_conv update_leases_sel
    by (rule all_update_where [OF that])
      (auto simp: expired_queued_def lease_ok_def in_time_def pending_def)
  have 4: "\<forall>r\<in>set (db_leases (snd (fail_old_generations now ids e))). in_time now r"
    if "\<forall>r\<in>set (db_leases e). in_time now r" for e ids
    unfolding fail_old_generations_def Let_def snd_conv
    by (rule in_time_update_active [OF that]) simp
  have 5: "\<forall>r\<in>set (db_leases (renew_reported now ids e)). in_time now r"
    if "\<forall>r\<in>set (db_leases e). in_time now r" for e ids
    unfolding renew_reported_def
    by (rule in_time_update_active [OF that]) (simp add: in_time_def renew_row_def expired_active_in_def)
  have 6: "\<forall>r\<in>set (db_leases (snd (finish_reported now ids st reason e))). in_time now r"
    if "\<forall>r\<in>set (db_leases e). in_time now r" "terminal st" for e ids st reason
    unfolding finish_reported_def snd_conv
    by (rule in_time_update_active [OF that(1)]) (simp add: that(2))
  show ?thesis
    unfolding reconcile_deadlines_def Let_def split_beta snd_conv
    by (intro 6 5 4 3 2 1) simp_all
qed

text \<open>The fencing loop only ends active rows.\<close>

lemma fence_server_rows:
  assumes "\<forall>r\<in>set (db_leases (snd acc)). P r"
    and "\<And>r reason. P r \<Longrightarrow> ls_status r = Active \<Longrightarrow> P (finish_row Failed reason now r)"
  shows "\<forall>r\<in>set (db_leases (snd (fence_server now i acc))). P r"
proof -
  have "\<forall>r\<in>set (update_where (failure_update now s) (finish_row Failed reason now) (db_leases (snd acc))). P r"
    for s reason
    by (rule all_update_where [OF assms(1)])
      (auto simp: failure_update_def active_on_def intro: assms(2))
  with assms(1) show ?thesis
    by (cases acc) (auto simp: fence_server_def Let_def split: option.splits)
qed

lemma fence_servers_rows:
  assumes "\<forall>r\<in>set (db_leases (snd acc)). P r"
    and "\<And>r reason. P r \<Longrightarrow> ls_status r = Active \<Longrightarrow> P (finish_row Failed reason now r)"
  shows "\<forall>r\<in>set (db_leases (snd (fold (fence_server now) ks acc))). P r"
  using assms(1)
proof (induction ks arbitrary: acc)
  case (Cons i ks)
  from fence_server_rows [where now = now and i = i, OF Cons.prems assms(2)]
  have "\<forall>r\<in>set (db_leases (snd (fence_server now i acc))). P r" .
  from Cons.IH [OF this] show ?case by simp
qed simp

lemma fence_server_get_other:
  "i \<noteq> j \<Longrightarrow> get_server (snd (fence_server now i acc)) j = get_server (snd acc) j"
  by (cases acc)
    (auto simp: fence_server_def Let_def get_server_put_server dest!: get_server_in split: option.splits)

lemma fence_servers_settle:
  assumes "i \<in> set ks" "distinct ks" "get_server (snd acc) i = Some s"
  shows "\<forall>r\<in>set (db_leases (snd (fold (fence_server now) ks acc))). \<not> failure_update now s r"
  using assms
proof (induction ks arbitrary: acc)
  case (Cons j ks)
  show ?case
  proof (cases "j = i")
    case True
    have s: "srv_id s = i" using get_server_in [OF Cons.prems(3)] by simp
    have "\<forall>r\<in>set (update_where (failure_update now s)
        (finish_row Failed reason now) (db_leases (snd acc))). \<not> failure_update now s r" for reason
      by (rule all_update_where [where P = "\<lambda>_. True"])
        (auto simp: failure_update_def active_on_def finish_row_def)
    then have "\<forall>r\<in>set (db_leases (snd (fence_server now i acc))). \<not> failure_update now s r"
      using Cons.prems(3) by (cases acc) (auto simp: fence_server_def Let_def)
    from fence_servers_rows [where now = now and ks = ks, OF this] True show ?thesis
      by (auto simp: failure_update_def active_on_def finish_row_def)
  next
    case False
    with Cons.prems have "get_server (snd (fence_server now j acc)) i = Some s"
      by (simp add: fence_server_get_other)
    with Cons.IH [of "fence_server now j acc"] Cons.prems False show ?thesis by simp
  qed
qed simp

text \<open>What the second part leaves active, it found unexpired on a server that serves, or fenced.\<close>

definition settled_active :: "time \<Rightarrow> db \<Rightarrow> lease_row \<Rightarrow> bool" where
  "settled_active now d r \<longleftrightarrow>
     (\<exists>i s. ls_server_instance_id r = Some i \<and> get_server d i = Some s \<and> ls_slot_generation r \<noteq> Some (srv_slot_generation s))
     \<or> sql_gt (ls_lease_expires_at r) now \<and> (\<forall>i s. ls_server_instance_id r = Some i \<longrightarrow> get_server d i = Some s \<longrightarrow> serving s)"

lemma fenced_rows_settled:
  fixes d :: db and now :: time
  defines "sv \<equiv> remdups (map srv_id (concat (map (\<lambda>(_, so). case so of None \<Rightarrow> [] | Some s \<Rightarrow> [s]) (stale_rows now d))))"
  assumes "wf_leases d" "r \<in> set (db_leases (snd (fold (fence_server now) sv ([], d))))" "ls_status r = Active"
    and "ls_id r \<notin> set (map (\<lambda>(l, _). ls_id l) (filter (\<lambda>(_, so). so = None) (stale_rows now d)))"
  shows "settled_active now d r"
proof -
  have "\<forall>r\<in>set (db_leases (snd (fold (fence_server now) sv ([], d)))). ls_status r = Active \<longrightarrow> r \<in> set (db_leases d)"
    by (rule fence_servers_rows) (simp_all add: finish_row_def)
  with assms(3,4) have r1: "r \<in> set (db_leases d)" by blast
  let ?so = "case ls_server_instance_id r of None \<Rightarrow> None | Some i \<Rightarrow> get_server d i"
  show ?thesis
  proof (cases "(r, ?so) \<in> set (stale_rows now d)")
    case False
    with r1 assms(4) have "\<not> sql_le (ls_lease_expires_at r) now" and
      "\<And>i s. ls_server_instance_id r = Some i \<Longrightarrow> get_server d i = Some s \<Longrightarrow> serving s"
      by (auto simp: stale_rows_def serving_def)
    moreover have "ls_lease_expires_at r \<noteq> None"
      using assms(2,4) r1 by (auto simp: wf_leases_def lease_ok_def)
    ultimately show ?thesis by (auto simp: settled_active_def)
  next
    case True
    with assms(5) obtain s where s: "?so = Some s" by force
    then obtain i where i: "ls_server_instance_id r = Some i" "get_server d i = Some s"
      by (auto split: option.splits)
    have "srv_id s = i" using get_server_in [OF i(2)] by simp
    moreover have "srv_id s \<in> set sv" "distinct sv" unfolding sv_def using True s by force+
    ultimately have "\<not> failure_update now s r"
      using fence_servers_settle [of i sv "([], d)" s now] i(2) assms(3) by auto
    moreover have "serving s \<longrightarrow> sql_le (ls_lease_expires_at r) now"
      using True s i(1) by (auto simp: stale_rows_def serving_def)
    ultimately show ?thesis
      using assms(4) i get_server_in [OF i(2)] by (auto simp: settled_active_def failure_update_def active_on_def)
  qed
qed


end
