(* ===== verification/ReconcileSafety.thy ===== *)
theory ReconcileSafety
  imports Reconcile
begin

text \<open>
  What a reconciliation never ends: the grouping of expired leases by server and the
  per-server queries are characterised, and a lease on a serving server whose agent reports
  its operation as live, or cannot be asked, is shown to stay active and renewed.
\<close>

section \<open>The groups of the expired candidates\<close>

definition one_row_per_server :: "(lease_row \<times> server_row) list \<Rightarrow> bool" where
  "one_row_per_server cs \<longleftrightarrow>
     (\<forall>(l, s)\<in>set cs. \<forall>(l', s')\<in>set cs. srv_id s = srv_id s' \<longrightarrow> s = s')"

definition groups_of ::
  "(lease_row \<times> server_row) list \<Rightarrow> (uuid \<times> server_row \<times> lease_row list) list \<Rightarrow> bool" where
  "groups_of cs m \<longleftrightarrow> distinct (map fst m) \<and>
     (\<forall>k s ls. map_of m k = Some (s, ls) \<longrightarrow>
        srv_id s = k \<and> ls \<noteq> [] \<and> (\<forall>l\<in>set ls. (l, s) \<in> set cs)) \<and>
     (\<forall>l s. (l, s) \<in> set cs \<longrightarrow> (\<exists>ls. map_of m (srv_id s) = Some (s, ls) \<and> l \<in> set ls))"

lemma groups_ofD:
  assumes "groups_of cs m"
  shows "distinct (map fst m)"
    "\<And>k s ls. map_of m k = Some (s, ls) \<Longrightarrow> srv_id s = k \<and> ls \<noteq> []"
    "\<And>k s ls l. map_of m k = Some (s, ls) \<Longrightarrow> l \<in> set ls \<Longrightarrow> (l, s) \<in> set cs"
    "\<And>l s. (l, s) \<in> set cs \<Longrightarrow> \<exists>ls. map_of m (srv_id s) = Some (s, ls) \<and> l \<in> set ls"
  using assms unfolding groups_of_def by blast+

lemma groups_of_add:
  assumes g: "groups_of cs m" and one: "one_row_per_server (cs @ [(l, s)])"
  shows "groups_of (cs @ [(l, s)]) (add_by_server (l, s) m)"
proof -
  note gd = groups_ofD [OF g]
  have same: "s0 = s" if "map_of m (srv_id s) = Some (s0, ls)" for s0 ls
  proof -
    have "srv_id s0 = srv_id s" "ls \<noteq> []" using gd(2) [OF that] by auto
    then obtain x where "x \<in> set ls" by (cases ls) auto
    then have "(x, s0) \<in> set cs" by (rule gd(3) [OF that])
    with one \<open>srv_id s0 = srv_id s\<close> show ?thesis unfolding one_row_per_server_def by fastforce
  qed
  obtain old where m': "add_by_server (l, s) m = AList.update (srv_id s) (s, old @ [l]) m"
    and old: "map_of m (srv_id s) = None \<and> old = [] \<or> map_of m (srv_id s) = Some (s, old)"
    using same by (cases "map_of m (srv_id s)") auto
  show ?thesis
    unfolding groups_of_def m'
  proof (intro conjI allI impI)
    show "distinct (map fst (AList.update (srv_id s) (s, old @ [l]) m))"
      by (rule AList.distinct_update [OF gd(1)])
  next
    fix k s' ls
    assume *: "map_of (AList.update (srv_id s) (s, old @ [l]) m) k = Some (s', ls)"
    have "srv_id s' = k \<and> ls \<noteq> [] \<and> (\<forall>l'\<in>set ls. (l', s') \<in> set (cs @ [(l, s)]))"
    proof (cases "k = srv_id s")
      case True
      with * have eq: "s' = s" "ls = old @ [l]" by auto
      have "(l', s) \<in> set cs" if "l' \<in> set old" for l'
        using old that by (auto intro: gd(3))
      with True eq show ?thesis by auto
    next
      case False
      with * have "map_of m k = Some (s', ls)" by simp
      from gd(2) [OF this] gd(3) [OF this] show ?thesis by auto
    qed
    then show "srv_id s' = k" "ls \<noteq> []" "\<forall>l'\<in>set ls. (l', s') \<in> set (cs @ [(l, s)])"
      by simp_all
  next
    fix l' s'
    assume *: "(l', s') \<in> set (cs @ [(l, s)])"
    show "\<exists>ls. map_of (AList.update (srv_id s) (s, old @ [l]) m) (srv_id s') = Some (s', ls) \<and> l' \<in> set ls"
    proof (cases "(l', s') \<in> set cs")
      case True
      from gd(4) [OF this] obtain ls where ls: "map_of m (srv_id s') = Some (s', ls)" "l' \<in> set ls"
        by blast
      with old show ?thesis by (cases "srv_id s' = srv_id s") auto
    next
      case False
      with * show ?thesis by auto
    qed
  qed
qed

lemma groups_of_operations:
  "one_row_per_server cs \<Longrightarrow> groups_of cs (operations_by_server cs)"
proof (induction cs rule: rev_induct)
  case Nil
  show ?case by (simp add: groups_of_def operations_by_server_def)
next
  case (snoc p cs)
  obtain l s where p: "p = (l, s)" by fastforce
  have "one_row_per_server cs" using snoc.prems unfolding one_row_per_server_def by auto
  from groups_of_add [OF snoc.IH [OF this]] snoc.prems p show ?case
    by (simp add: operations_by_server_def)
qed

section \<open>The results of the queries\<close>

lemma set_alist_update: "set (AList.update k v al) \<subseteq> insert (k, v) (set al)"
  by (induction al) auto

lemma classify_fold_sound:
  "(i, st) \<in> set (fold (\<lambda>l r. AList.update (ls_id l) (classify ops l) r) ls r0) \<Longrightarrow>
   (i, st) \<in> set r0 \<or> (\<exists>l\<in>set ls. i = ls_id l \<and> st = classify ops l)"
proof (induction ls arbitrary: r0)
  case (Cons l ls)
  then show ?case using set_alist_update [of "ls_id l" "classify ops l" r0] by fastforce
qed simp

lemma classify_fold_keys:
  "fst ` set (fold (\<lambda>l r. AList.update (ls_id l) (classify ops l) r) ls r0) =
   fst ` set r0 \<union> ls_id ` set ls"
  by (induction ls arbitrary: r0) (auto simp: AList.dom_update)

definition answered ::
  "(server_row \<Rightarrow> op_report list option) \<Rightarrow> (uuid \<times> server_row \<times> lease_row list) list
     \<Rightarrow> uuid \<Rightarrow> string \<Rightarrow> bool" where
  "answered answer ms i st \<longleftrightarrow> (\<exists>(k, s, ls)\<in>set ms. \<exists>l\<in>set ls. \<exists>ops.
     answer s = Some ops \<and> i = ls_id l \<and> st = classify ops l)"

lemma query_fold_sound:
  assumes "fold (query_server answer) ms (r0, d0) = (r, d)" "(i, st) \<in> set r"
  shows "(i, st) \<in> set r0 \<or> answered answer ms i st"
  using assms
proof (induction ms arbitrary: r0 d0)
  case (Cons g ms)
  obtain k s ls where g: "g = (k, s, ls)" by (cases g) auto
  show ?case
  proof (cases "answer s")
    case None
    with Cons.prems g Cons.IH [of r0 "d0 @ map ls_id ls"] show ?thesis
      by (auto simp: answered_def)
  next
    case (Some ops)
    let ?r = "fold (\<lambda>l r. AList.update (ls_id l) (classify ops l) r) ls r0"
    from Cons.prems g Some have "(i, st) \<in> set ?r \<or> answered answer ms i st"
      by (intro Cons.IH [of ?r d0]) auto
    with Some g classify_fold_sound [of i st ops ls r0] show ?thesis
      by (fastforce simp: answered_def)
  qed
qed simp

lemma query_fold_grows:
  assumes "fold (query_server answer) ms (r0, d0) = (r, d)"
  shows "fst ` set r0 \<subseteq> fst ` set r \<and> set d0 \<subseteq> set d"
  using assms
proof (induction ms arbitrary: r0 d0)
  case (Cons g ms)
  obtain k s ls where g: "g = (k, s, ls)" by (cases g) auto
  show ?case
  proof (cases "answer s")
    case None
    with Cons.prems g Cons.IH [of r0 "d0 @ map ls_id ls"] show ?thesis by auto
  next
    case (Some ops)
    let ?r = "fold (\<lambda>l r. AList.update (ls_id l) (classify ops l) r) ls r0"
    from Cons.prems g Some have "fst ` set ?r \<subseteq> fst ` set r \<and> set d0 \<subseteq> set d"
      by (intro Cons.IH) simp
    then show ?thesis by (auto simp: classify_fold_keys)
  qed
qed simp

lemma query_fold_complete:
  assumes "fold (query_server answer) ms (r0, d0) = (r, d)" "(k, s, ls) \<in> set ms" "l \<in> set ls"
  shows "case answer s of None \<Rightarrow> ls_id l \<in> set d | Some _ \<Rightarrow> ls_id l \<in> fst ` set r"
  using assms
proof (induction ms arbitrary: r0 d0)
  case (Cons g ms)
  obtain r1 d1 where q: "query_server answer g (r0, d0) = (r1, d1)" by fastforce
  with Cons.prems(1) have rest: "fold (query_server answer) ms (r1, d1) = (r, d)" by simp
  show ?case
  proof (cases "g = (k, s, ls)")
    case True
    with q Cons.prems(3) query_fold_grows [OF rest] show ?thesis
      by (auto simp: classify_fold_keys split: option.splits)
  next
    case False
    with Cons.prems(2,3) Cons.IH [OF rest] show ?thesis by auto
  qed
qed simp

lemma query_all_results:
  assumes "one_row_per_server cs" "inj_on (\<lambda>(l, s). ls_id l) (set cs)"
    and "query_all answer cs = (results, deferred)" "(l, s) \<in> set cs"
  shows "(ls_id l, st) \<in> set results \<Longrightarrow> \<exists>ops. answer s = Some ops \<and> st = classify ops l"
    and "answer s = None \<Longrightarrow> ls_id l \<in> set deferred"
    and "answer s = Some ops \<Longrightarrow> (ls_id l, classify ops l) \<in> set results"
proof -
  note gd = groups_ofD [OF groups_of_operations [OF assms(1)]]
  have q: "fold (query_server answer) (operations_by_server cs) ([], []) = (results, deferred)"
    using assms(3) by (simp add: query_all_def)
  obtain ls where ls: "map_of (operations_by_server cs) (srv_id s) = Some (s, ls)" "l \<in> set ls"
    using gd(4) [OF assms(4)] by blast
  then have mem: "(srv_id s, s, ls) \<in> set (operations_by_server cs)" by (auto dest: map_of_SomeD)
  have sound: "\<exists>ops. answer s = Some ops \<and> st = classify ops l"
    if "(ls_id l, st) \<in> set results" for st
  proof -
    from query_fold_sound [OF q that] obtain k s' ls' l' ops where
      a: "(k, s', ls') \<in> set (operations_by_server cs)" "l' \<in> set ls'" "answer s' = Some ops"
        "ls_id l = ls_id l'" "st = classify ops l'"
      by (auto simp: answered_def)
    from a(1) gd(1) have "map_of (operations_by_server cs) k = Some (s', ls')" by simp
    from gd(3) [OF this a(2)] have "(l', s') \<in> set cs" .
    with a(4) inj_onD [OF assms(2) _ assms(4), of "(l', s')"] have "(l', s') = (l, s)" by simp
    with a show ?thesis by auto
  qed
  then show "(ls_id l, st) \<in> set results \<Longrightarrow> \<exists>ops. answer s = Some ops \<and> st = classify ops l" .
  note complete = query_fold_complete [OF q mem ls(2)]
  show "answer s = None \<Longrightarrow> ls_id l \<in> set deferred" using complete by simp
  show "(ls_id l, classify ops l) \<in> set results" if "answer s = Some ops"
  proof -
    from complete that obtain st where "(ls_id l, st) \<in> set results" by force
    with sound [OF this] that show ?thesis by auto
  qed
qed

section \<open>A live operation is never ended\<close>

lemma fence_server_keeps_serving:
  assumes "get_server (snd acc) j = Some s" "serving s"
  shows "get_server (snd (fence_server now i acc)) j = Some s"
proof (cases "i = j")
  case True
  with assms get_server_in [OF assms(1)] show ?thesis
    by (cases acc) (auto simp: fence_server_def Let_def)
next
  case False
  with assms show ?thesis by (simp add: fence_server_get_other)
qed

text \<open>A row that is unexpired on a serving server survives the fencing loop.\<close>

lemma fence_server_spares:
  assumes "get_server (snd acc) j = Some s" "serving s" "get_lease (snd acc) x = Some l"
    and "ls_server_instance_id l = Some j" "\<not> sql_le (ls_lease_expires_at l) now"
  shows "get_lease (snd (fence_server now i acc)) x = Some l"
proof -
  have "\<not> failure_update now t l" if "get_server (snd acc) i = Some t" for t
    using assms that get_server_in [OF that] by (auto simp: failure_update_def active_on_def)
  with assms(3) show ?thesis
    by (cases acc) (auto simp: fence_server_def Let_def get_lease_update_leases split: option.splits)
qed

lemma fence_servers_spare:
  assumes "get_server (snd acc) j = Some s" "serving s" "get_lease (snd acc) x = Some l"
    and "ls_server_instance_id l = Some j" "\<not> sql_le (ls_lease_expires_at l) now"
  shows "get_lease (snd (fold (fence_server now) ks acc)) x = Some l"
  using assms
proof (induction ks arbitrary: acc)
  case (Cons k ks)
  from Cons.IH [OF fence_server_keeps_serving [OF Cons.prems(1,2)] Cons.prems(2)
      fence_server_spares [OF Cons.prems] Cons.prems(4,5)]
  show ?case by simp
qed simp

lemma get_reported:
  "get_lease (snd (finish_reported now ids st reason d)) x =
     map_option (\<lambda>r. if expired_active_in now ids r then finish_row st reason now r else r) (get_lease d x)"
  "get_lease (renew_reported now ids d) x = map_option (\<lambda>r. if expired_active_in now ids r
     then renew_row (now + seconds ACTIVE_LEASE_TTL_SECONDS) r else r) (get_lease d x)"
  by (simp_all add: finish_reported_def renew_reported_def get_lease_update_leases renew_row_def)

lemma get_deadlines_active:
  assumes "get_lease d x = Some l" "ls_status l = Active" "x \<notin> set old"
    and "x \<notin> set (ids_with {''completed'', ''cancelled'', ''failed'', ''unknown''} results)"
    and "sql_le (ls_lease_expires_at l) now \<Longrightarrow>
      x \<in> set (ids_with {''queued'', ''reserved'', ''active'', ''cancelling''} results @ deferred)"
  shows "get_lease (snd (reconcile_deadlines now old results deferred d)) x =
    Some (if sql_le (ls_lease_expires_at l) now
          then renew_row (now + seconds ACTIVE_LEASE_TTL_SECONDS) l else l)"
proof -
  have x: "ls_id l = x" using get_lease_in [OF assms(1)] by simp
  have sub: "x \<notin> set (ids_with {st} results)"
    if "st \<in> {''completed'', ''cancelled'', ''failed'', ''unknown''}" for st
    using assms(4) that unfolding ids_with_def by force
  have first4: "get_lease (snd (fail_old_generations now old (snd (expire_queued now
      (snd (expire_reservations now (snd (requeue_abandoned now d)))))))) x = Some l"
    using assms(1-3) x
    by (simp add: fail_old_generations_def expire_queued_def expire_reservations_def
        requeue_abandoned_def Let_def get_lease_update_leases abandoned_reservation_def
        expired_reservation_def expired_queued_def)
  have skip: "get_lease (snd (finish_reported now (ids_with {st} results) fs reason e)) x = get_lease e x"
    if "x \<notin> set (ids_with {st} results)" for st fs reason e
    using that by (auto simp: get_reported expired_active_in_def map_option_case split: option.splits
        dest: get_lease_in)
  note skips = sub [THEN skip, OF insertI1] sub [THEN skip, OF insertI2, OF insertI1]
    sub [THEN skip, OF insertI2, OF insertI2, OF insertI1]
    sub [THEN skip, OF insertI2, OF insertI2, OF insertI2, OF insertI1]
  show ?thesis
    unfolding reconcile_deadlines_def Let_def split_beta snd_conv skips
    unfolding get_reported(2) first4 expired_active_in_def option.map
    using assms(2,5) x by simp
qed

text \<open>The reading transaction joins a lease with the one row of its server.\<close>

lemma candidate_iff:
  "(l, s) \<in> set (expired_candidates now d) \<longleftrightarrow> l \<in> set (db_leases d) \<and> s \<in> set (db_servers d) \<and>
     ls_server_instance_id l = Some (srv_id s) \<and> ls_status l = Active \<and>
     sql_le (ls_lease_expires_at l) now \<and> serving s \<and>
     ls_slot_generation l = Some (srv_slot_generation s)"
  by (auto simp: expired_candidates_def serving_def)

lemma candidates_shape:
  assumes "wf_leases d" "distinct (map srv_id (db_servers d))"
  shows "one_row_per_server (expired_candidates now d)"
    and "inj_on (\<lambda>(l, s). ls_id l) (set (expired_candidates now d))"
proof -
  have sv: "s = t" if "s \<in> set (db_servers d)" "t \<in> set (db_servers d)" "srv_id s = srv_id t" for s t
    using assms(2) that by (rule distinct_key_unique)
  have ls: "l = m" if "l \<in> set (db_leases d)" "m \<in> set (db_leases d)" "ls_id l = ls_id m" for l m
    using assms(1) that unfolding wf_leases_def by (metis distinct_key_unique)
  show "one_row_per_server (expired_candidates now d)"
    unfolding one_row_per_server_def by (auto simp: candidate_iff intro: sv)
  show "inj_on (\<lambda>(l, s). ls_id l) (set (expired_candidates now d))"
  proof (rule inj_onI, clarify)
    fix l s m t
    assume *: "(l, s) \<in> set (expired_candidates now d)" "(m, t) \<in> set (expired_candidates now d)"
      "ls_id l = ls_id m"
    then have "l = m" by (auto simp: candidate_iff intro: ls)
    with * show "l = m \<and> s = t" by (auto simp: candidate_iff intro: sv)
  qed
qed

definition live_statuses :: "string set" where
  "live_statuses = {''queued'', ''reserved'', ''active'', ''cancelling''}"

text \<open>What the agents are said to report of a lease whose operation is live.\<close>

lemma live_reports:
  assumes "wf_leases d" "distinct (map srv_id (db_servers d))"
    and "get_lease d x = Some l" "ls_server_instance_id l = Some j" "get_server d j = Some s"
    and "case answer s of None \<Rightarrow> True | Some ops \<Rightarrow> classify ops l \<in> live_statuses"
    and q: "query_all answer (expired_candidates now d) = (results, deferred)"
  shows "(x, st) \<in> set results \<Longrightarrow> st \<in> live_statuses"
    and "(l, s) \<in> set (expired_candidates now d) \<Longrightarrow>
      x \<in> set (ids_with {''queued'', ''reserved'', ''active'', ''cancelling''} results @ deferred)"
proof -
  note ls = get_lease_in [OF assms(3)] and ss = get_server_in [OF assms(5)]
  note shape = candidates_shape [OF assms(1,2), of now]
  note res = query_all_results [OF shape q]
  have uniq: "m = l" if "m \<in> set (db_leases d)" "ls_id m = x" for m
    using that ls assms(1) unfolding wf_leases_def by (metis distinct_key_unique)
  have uniq_s: "t = s" if "t \<in> set (db_servers d)" "srv_id t = j" for t
    using that ss assms(2) by (metis distinct_key_unique)
  show "st \<in> live_statuses" if r: "(x, st) \<in> set results"
  proof -
    from q have "fold (query_server answer) (operations_by_server (expired_candidates now d)) ([], []) = (results, deferred)"
      by (simp add: query_all_def)
    from query_fold_sound [OF this r] obtain k t lst m where
      "(k, t, lst) \<in> set (operations_by_server (expired_candidates now d))" "m \<in> set lst" "x = ls_id m"
      unfolding answered_def by auto
    then have m: "(m, t) \<in> set (expired_candidates now d)"
      using groups_ofD(1,3) [OF groups_of_operations [OF shape(1)]] by (metis map_of_is_SomeI)
    then have "m = l" using \<open>x = ls_id m\<close> by (simp add: candidate_iff uniq)
    moreover from m this have "t = s" using assms(4) by (simp add: candidate_iff uniq_s)
    ultimately have "(l, s) \<in> set (expired_candidates now d)" using m by simp
    from res(1) [OF this, of st] r ls assms(6) show ?thesis by auto
  qed
  show "x \<in> set (ids_with {''queued'', ''reserved'', ''active'', ''cancelling''} results @ deferred)"
    if c: "(l, s) \<in> set (expired_candidates now d)"
  proof (cases "answer s")
    case None
    with res(2) [OF c] ls show ?thesis by simp
  next
    case (Some ops)
    with res(3) [OF c] ls assms(6) show ?thesis unfolding ids_with_def live_statuses_def by force
  qed
qed

text \<open>A row that is active, unexpired and on a serving server is none of the second part's.\<close>

lemma stale_spares:
  assumes "wf_leases d" "get_lease d x = Some l" "ls_status l = Active" "ls_server_instance_id l = Some j"
    and "get_server d j = Some s" "serving s" "sql_gt (ls_lease_expires_at l) now"
  shows "get_lease (snd (snd (reconcile_stale now d))) x = Some l"
proof -
  note ls = get_lease_in [OF assms(2)]
  let ?ms = "map (\<lambda>(l, _). ls_id l) (filter (\<lambda>(_, so). so = None) (stale_rows now d))"
  have fenced: "get_lease (snd (fold (fence_server now) ks ([], d))) x = Some l" for ks
    using assms by (intro fence_servers_spare [of _ j s]) (auto dest: sql_le_gt_excl)
  have "m = l" if "m \<in> set (db_leases d)" "ls_id m = x" for m
    using that ls assms(1) unfolding wf_leases_def by (metis distinct_key_unique)
  with assms(4,5) have "x \<notin> set ?ms" by (fastforce simp: stale_rows_def)
  with fenced ls show ?thesis
    by (auto simp: reconcile_stale_def Let_def split_beta fail_missing_def get_lease_update_leases)
qed


end
