(* ===== verification/AgentEvents.thy ===== *)
theory AgentEvents
  imports Lifecycle
begin

text \<open>
  backend/app/services/agent_manager.py: the registration of an agent with its snapshot of
  running servers, the events it sends over the WebSocket and what they do to server and lease
  rows, the bounded event buffer and the UI subscriber queues, the connection supervisor that
  fences an unreachable agent, and the offline sweep. Agent ids are database UUIDs; a server
  id an agent sends is the UUID it denotes, and an absent or empty JSON field is None.
\<close>

section \<open>Invalidation of the leases of a dead server\<close>

definition invalidate_server_leases :: "time \<Rightarrow> uuid \<Rightarrow> db \<Rightarrow> db" where
  "invalidate_server_leases now server d =
     update_leases (active_on server) (finish_row Failed ''server_unavailable'' now) d"

section \<open>Events\<close>

record server_event =
  se_server_id :: "uuid option"
  se_slot_generation :: "int option"
  se_effective_capacity :: "int option"
  se_status :: "string option"
  se_error :: "string option"

definition matching_server :: "uuid \<Rightarrow> server_event \<Rightarrow> db \<Rightarrow> server_row option" where
  "matching_server agent e d =
     (case se_server_id e of
        None \<Rightarrow> None
      | Some i \<Rightarrow>
          (case first_row (filter (\<lambda>s. srv_id s = i \<and> srv_agent_id s = agent) (db_servers d)) of
             None \<Rightarrow> None
           | Some s \<Rightarrow>
               (case se_slot_generation e of
                  None \<Rightarrow> Some s
                | Some g \<Rightarrow> if srv_slot_generation s \<noteq> g then None else Some s)))"

definition handle_server_error :: "time \<Rightarrow> uuid \<Rightarrow> server_event \<Rightarrow> db \<Rightarrow> db" where
  "handle_server_error now agent e d =
     (case matching_server agent e d of
        None \<Rightarrow> d
      | Some s \<Rightarrow> invalidate_server_leases now (srv_id s)
          (put_server (s\<lparr>srv_status := SrvError, srv_health := HUnhealthy,
             srv_error_message := (case se_error e of None \<Rightarrow> Some ''Unknown error''
               | Some m \<Rightarrow> Some m)\<rparr>) d))"

definition handle_server_health :: "time \<Rightarrow> uuid \<Rightarrow> server_event \<Rightarrow> db \<Rightarrow> db" where
  "handle_server_health now agent e d =
     (if se_status e \<notin> {Some ''healthy'', Some ''unhealthy''} then d
      else case matching_server agent e d of
        None \<Rightarrow> d
      | Some s \<Rightarrow>
          if se_status e = Some ''healthy'' then
            put_server (s\<lparr>srv_health := HHealthy, srv_last_health_check := Some now,
              srv_error_message := None,
              srv_status := (if srv_status s = SrvStarting then SrvRunning else srv_status s)\<rparr>) d
          else
            invalidate_server_leases now (srv_id s)
              (put_server (s\<lparr>srv_health := HUnhealthy, srv_last_health_check := Some now,
                 srv_error_message := (case se_error e of None \<Rightarrow> srv_error_message s
                   | Some m \<Rightarrow> if m = '''' then srv_error_message s else Some m)\<rparr>) d))"

definition handle_server_started :: "time \<Rightarrow> uuid \<Rightarrow> server_event \<Rightarrow> db \<Rightarrow> db" where
  "handle_server_started now agent e d =
     (case matching_server agent e d of
        None \<Rightarrow> d
      | Some s \<Rightarrow>
          if srv_status s \<notin> {SrvStarting, SrvRunning} then d
          else put_server (s\<lparr>srv_status := SrvRunning, srv_health := HHealthy,
            srv_effective_capacity := (case se_effective_capacity e of
                None \<Rightarrow> srv_effective_capacity s | Some c \<Rightarrow> Some (max c 1)),
            srv_last_health_check := Some now,
            srv_started_at := (case srv_started_at s of None \<Rightarrow> Some now | Some t \<Rightarrow> Some t)\<rparr>) d)"

definition handle_server_stopped :: "time \<Rightarrow> uuid \<Rightarrow> server_event \<Rightarrow> db \<Rightarrow> db" where
  "handle_server_stopped now agent e d =
     (case matching_server agent e d of
        None \<Rightarrow> d
      | Some s \<Rightarrow> invalidate_server_leases now (srv_id s)
          (put_server (s\<lparr>srv_status :=
               (if srv_status s \<notin> {SrvPreparing, SrvMetadataGathering} then SrvStopped else srv_status s),
             srv_health := HUnknown, srv_error_message := None\<rparr>) d))"

text \<open>The dispatch on the event type, as far as it concerns server and lease rows.\<close>

definition handle_server_event :: "time \<Rightarrow> uuid \<Rightarrow> string \<Rightarrow> server_event \<Rightarrow> db \<Rightarrow> db" where
  "handle_server_event now agent ty e d =
     (if ty = ''server.started'' then handle_server_started now agent e d
      else if ty = ''server.stopped'' then handle_server_stopped now agent e d
      else if ty = ''server.error'' then handle_server_error now agent e d
      else if ty = ''server.health'' then handle_server_health now agent e d
      else d)"

section \<open>Benchmark events\<close>

record benchmark_run =
  br_status :: string
  br_finished_at :: "time option"
  br_error :: "string option"
  br_results :: "(string \<times> string \<times> string) option"
  br_raw_output :: "string option"

record benchmark_event =
  be_run_known :: bool
  be_error :: "string option"
  be_summary :: "string option"
  be_cases :: "string option"
  be_return_code :: string
  be_raw_output :: "string option"

definition benchmark_status :: "string \<Rightarrow> string option" where
  "benchmark_status ty =
     (if ty = ''benchmark.started'' then Some ''running''
      else if ty = ''benchmark.completed'' then Some ''completed''
      else if ty = ''benchmark.failed'' then Some ''failed''
      else if ty = ''benchmark.error'' then Some ''failed''
      else if ty = ''benchmark.stopped'' then Some ''stopped''
      else None)"

text \<open>JSON values are kept as their text; an absent summary is \<open>{}\<close>, absent cases are \<open>[]\<close>.\<close>

definition handle_benchmark_event ::
  "time \<Rightarrow> string \<Rightarrow> benchmark_event \<Rightarrow> benchmark_run \<Rightarrow> benchmark_run" where
  "handle_benchmark_event now ty e r =
     (if \<not> be_run_known e then r
      else case benchmark_status ty of
        None \<Rightarrow> r
      | Some st \<Rightarrow>
          r\<lparr>br_status := st,
            br_finished_at := (if st \<in> {''completed'', ''failed'', ''stopped''} then Some now
                               else br_finished_at r),
            br_error := (case be_error e of None \<Rightarrow> br_error r
              | Some m \<Rightarrow> if m = '''' then br_error r else Some m),
            br_results := (if be_summary e \<noteq> None \<or> be_cases e \<noteq> None
              then Some (case be_summary e of None \<Rightarrow> ''{}'' | Some s \<Rightarrow> s,
                         case be_cases e of None \<Rightarrow> ''[]'' | Some c \<Rightarrow> c, be_return_code e)
              else br_results r),
            br_raw_output := (case be_raw_output e of None \<Rightarrow> br_raw_output r | Some x \<Rightarrow> Some x)\<rparr>)"

section \<open>The event buffer and the subscribers\<close>

definition EVENT_BUFFER_LIMIT :: nat where "EVENT_BUFFER_LIMIT = 1000"

record 'e ui_queue =
  uq_id :: nat
  uq_items :: "'e list"

record 'e event_hub =
  eh_buffers :: "(uuid \<times> 'e list) list"
  eh_subscribers :: "(uuid \<times> 'e ui_queue list) list"

definition subscribe_events :: "nat \<Rightarrow> uuid \<Rightarrow> 'e event_hub \<Rightarrow> 'e event_hub" where
  "subscribe_events q agent h = h\<lparr>eh_subscribers :=
     AList.update agent
       ((case map_of (eh_subscribers h) agent of None \<Rightarrow> [] | Some qs \<Rightarrow> qs) @ [\<lparr>uq_id = q, uq_items = []\<rparr>])
       (eh_subscribers h)\<rparr>"

fun remove_queue :: "nat \<Rightarrow> 'e ui_queue list \<Rightarrow> 'e ui_queue list" where
  "remove_queue q [] = []"
| "remove_queue q (x # xs) = (if uq_id x = q then xs else x # remove_queue q xs)"

definition unsubscribe_events :: "nat \<Rightarrow> uuid \<Rightarrow> 'e event_hub \<Rightarrow> 'e event_hub" where
  "unsubscribe_events q agent h =
     (let qs = remove_queue q (case map_of (eh_subscribers h) agent of None \<Rightarrow> [] | Some qs \<Rightarrow> qs)
      in h\<lparr>eh_subscribers :=
        (if qs = [] then AList.delete agent (eh_subscribers h)
         else AList.update agent qs (eh_subscribers h))\<rparr>)"

definition put_nowait :: "'e \<Rightarrow> 'e ui_queue \<Rightarrow> 'e ui_queue" where
  "put_nowait e q = (if EVENT_BUFFER_LIMIT \<le> length (uq_items q) then q
     else q\<lparr>uq_items := uq_items q @ [e]\<rparr>)"

text \<open>The part of \<open>_handle_agent_event\<close> before the database: buffer, then fan out.\<close>

definition record_event :: "uuid \<Rightarrow> 'e \<Rightarrow> 'e event_hub \<Rightarrow> 'e event_hub" where
  "record_event agent e h =
     (let h1 = (case map_of (eh_buffers h) agent of
            None \<Rightarrow> h
          | Some b \<Rightarrow> h\<lparr>eh_buffers := AList.update agent (push_last EVENT_BUFFER_LIMIT e b) (eh_buffers h)\<rparr>)
      in (case map_of (eh_subscribers h1) agent of
            None \<Rightarrow> h1
          | Some qs \<Rightarrow>
              h1\<lparr>eh_subscribers := AList.update agent (map (put_nowait e) qs) (eh_subscribers h1)\<rparr>))"

section \<open>Registration\<close>

record server_report =
  rp_id :: "uuid option"
  rp_status :: "string option"
  rp_health :: "string option"
  rp_generation :: "int option"
  rp_capacity :: "int option"

record agent_data =
  ad_name :: string
  ad_platform :: "string option"
  ad_type :: "string option"
  ad_host :: string
  ad_port :: int
  ad_running :: "uuid list"
  ad_healthy :: "uuid list option"
  ad_gpu_id :: "string option"
  ad_statuses :: "server_report list"

definition default_to :: "'a \<Rightarrow> 'a option \<Rightarrow> 'a" where
  "default_to x c = (case c of None \<Rightarrow> x | Some y \<Rightarrow> y)"

definition health_of :: "string \<Rightarrow> health" where
  "health_of s = (if s = ''unknown'' then HUnknown else if s = ''healthy'' then HHealthy
     else if s = ''unhealthy'' then HUnhealthy else HOther s)"

text \<open>The agent row: the one of that name updated, or a new one under a fresh id.\<close>

definition upsert_agent :: "uuid \<Rightarrow> time \<Rightarrow> agent_data \<Rightarrow> db \<Rightarrow> uuid \<times> db" where
  "upsert_agent fresh now a d =
     (case first_row (filter (\<lambda>r. ag_name r = ad_name a) (db_agents d)) of
        Some r \<Rightarrow>
          (let r' = r\<lparr>ag_status := ''online'', ag_platform := default_to ''llamacpp'' (ad_platform a),
                 ag_type := default_to ''generic'' (ad_type a), ag_host := ad_host a,
                 ag_port := ad_port a, ag_gpu_id := ad_gpu_id a, ag_last_seen := Some now\<rparr>
           in (ag_id r, d\<lparr>db_agents := update_where (\<lambda>x. ag_id x = ag_id r) (\<lambda>_. r') (db_agents d)\<rparr>))
      | None \<Rightarrow>
          (fresh, d\<lparr>db_agents := db_agents d @
             [\<lparr>ag_id = fresh, ag_name = ad_name a, ag_platform = default_to ''llamacpp'' (ad_platform a),
               ag_type = default_to ''generic'' (ad_type a), ag_host = ad_host a, ag_port = ad_port a,
               ag_status = ''online'', ag_gpu_id = ad_gpu_id a, ag_last_seen = Some now,
               ag_websocket_connected = False\<rparr>]\<rparr>))"

text \<open>The dict of reports by server id; the last report of an id wins.\<close>

definition reports_of :: "server_report list \<Rightarrow> uuid \<Rightarrow> server_report option" where
  "reports_of rs = fold (\<lambda>r m. case rp_id r of None \<Rightarrow> m | Some i \<Rightarrow> m(i \<mapsto> r)) rs Map.empty"

definition report_is_stale :: "server_report option \<Rightarrow> server_row \<Rightarrow> bool" where
  "report_is_stale r s = (case r of None \<Rightarrow> False
     | Some x \<Rightarrow> (case rp_generation x of None \<Rightarrow> False | Some g \<Rightarrow> srv_slot_generation s \<noteq> g))"

definition apply_report ::
  "time \<Rightarrow> (uuid \<Rightarrow> server_report option) \<Rightarrow> server_row \<Rightarrow> (uuid \<times> int) list \<times> db
     \<Rightarrow> (uuid \<times> int) list \<times> db" where
  "apply_report now reports s acc = (case acc of (stale, d) \<Rightarrow>
     (let r = reports (srv_id s) in
      if r = None \<or> report_is_stale r s then
        ((case r of None \<Rightarrow> stale
          | Some x \<Rightarrow> (case rp_generation x of None \<Rightarrow> stale | Some g \<Rightarrow> stale @ [(srv_id s, g)])),
         (if srv_status s \<in> {SrvStarting, SrvRunning}
          then invalidate_server_leases now (srv_id s)
            (put_server (s\<lparr>srv_status := SrvStopped, srv_health := HUnknown\<rparr>) d)
          else d))
      else (case r of None \<Rightarrow> (stale, d)
        | Some x \<Rightarrow>
            let st = default_to ''starting'' (rp_status x) in
            if st \<notin> {''starting'', ''running''} then (stale, d)
            else (stale, put_server (s\<lparr>srv_status := (if st = ''running'' then SrvRunning else SrvStarting),
                srv_health := health_of (default_to ''unknown'' (rp_health x)),
                srv_effective_capacity := (case rp_capacity x of None \<Rightarrow> srv_effective_capacity s
                  | Some c \<Rightarrow> Some (max c 1))\<rparr>) d))))"

definition current_servers :: "uuid \<Rightarrow> db \<Rightarrow> server_row list" where
  "current_servers agent d = filter (\<lambda>s. srv_agent_id s = agent) (db_servers d)"

definition register_reports ::
  "time \<Rightarrow> uuid \<Rightarrow> server_report list \<Rightarrow> db \<Rightarrow> (uuid \<times> int) list \<times> db" where
  "register_reports now agent rs d =
     fold (apply_report now (reports_of rs)) (current_servers agent d) ([], d)"

text \<open>The snapshot of an agent that sends no per-server statuses.\<close>

definition stale_in_snapshot :: "uuid \<Rightarrow> uuid list \<Rightarrow> server_row \<Rightarrow> bool" where
  "stale_in_snapshot agent running s \<longleftrightarrow> srv_agent_id s = agent \<and>
     srv_status s \<in> {SrvStarting, SrvRunning} \<and> (running = [] \<or> srv_id s \<notin> set running)"

definition register_snapshot :: "time \<Rightarrow> uuid \<Rightarrow> uuid list \<Rightarrow> uuid list \<Rightarrow> db \<Rightarrow> db" where
  "register_snapshot now agent running healthy d =
     (let d1 = (if running = [] then d
          else update_servers (\<lambda>s. srv_agent_id s = agent \<and> srv_status s = SrvStarting \<and>
                 srv_slot_generation s = 0 \<and> srv_id s \<in> set healthy)
               (\<lambda>s. s\<lparr>srv_status := SrvRunning, srv_health := HHealthy\<rparr>) d);
          stale = map srv_id (filter (stale_in_snapshot agent running) (db_servers d1));
          d2 = update_servers (stale_in_snapshot agent running)
                 (\<lambda>s. s\<lparr>srv_status := SrvStopped, srv_health := HUnknown\<rparr>) d1;
          d3 = fold (invalidate_server_leases now) stale d2
      in if set healthy \<noteq> set running
         then update_servers (\<lambda>s. srv_agent_id s = agent \<and> srv_status s = SrvRunning \<and>
                srv_slot_generation s = 0 \<and> srv_id s \<in> set running \<and> srv_id s \<notin> set healthy)
              (\<lambda>s. s\<lparr>srv_health := HUnknown\<rparr>) d3
         else d3)"

definition register_agent ::
  "uuid \<Rightarrow> time \<Rightarrow> agent_data \<Rightarrow> db \<Rightarrow> uuid \<times> agent_msg list \<times> db" where
  "register_agent fresh now a d =
     (let (agent, d1) = upsert_agent fresh now a d;
          healthy = default_to (ad_running a) (ad_healthy a);
          (stale, d2) = (if ad_statuses a \<noteq> [] then register_reports now agent (ad_statuses a) d1
                         else ([], register_snapshot now agent (ad_running a) healthy d1))
      in (agent, map (\<lambda>(i, g). StopServer agent i g) stale, d2))"

section \<open>The connection supervisor\<close>

text \<open>How one \<open>_run_agent_websocket\<close> ended; \<open>WsConnecting\<close> stands for any failure before the
  connection was established.\<close>

datatype ws_end = WsClosed | WsLost | WsConnecting

record supervisor =
  sv_failures :: nat
  sv_marked :: bool

definition supervisor_start :: supervisor where
  "supervisor_start = \<lparr>sv_failures = 0, sv_marked = False\<rparr>"

definition mark_agent_servers_unavailable :: "time \<Rightarrow> uuid \<Rightarrow> db \<Rightarrow> db" where
  "mark_agent_servers_unavailable now agent d =
     (let ids = map srv_id (filter (\<lambda>s. srv_agent_id s = agent \<and>
            srv_status s \<in> {SrvStarting, SrvRunning}) (db_servers d))
      in if ids = [] then d
         else fold (invalidate_server_leases now) ids
           (update_servers (\<lambda>s. srv_id s \<in> set ids)
              (\<lambda>s. s\<lparr>srv_status := SrvStopped, srv_health := HUnknown\<rparr>) d))"

definition set_agent_status :: "string \<Rightarrow> uuid \<Rightarrow> db \<Rightarrow> db" where
  "set_agent_status st agent d = d\<lparr>db_agents :=
     update_where (\<lambda>a. ag_id a = agent) (\<lambda>a. a\<lparr>ag_status := st\<rparr>) (db_agents d)\<rparr>"

text \<open>
  One turn of the loop. The connection's own first transaction runs whenever the connection
  was established, that is, for \<open>WsClosed\<close> and \<open>WsLost\<close>.
\<close>

definition ws_connected :: "time \<Rightarrow> uuid \<Rightarrow> db \<Rightarrow> db" where
  "ws_connected now agent d = d\<lparr>db_agents := update_where (\<lambda>a. ag_id a = agent)
     (\<lambda>a. a\<lparr>ag_status := ''online'', ag_last_seen := Some now\<rparr>) (db_agents d)\<rparr>"

fun supervisor_turn ::
  "nat \<Rightarrow> uuid \<Rightarrow> time \<times> ws_end \<Rightarrow> supervisor \<times> db \<Rightarrow> supervisor \<times> db" where
  "supervisor_turn max_attempts agent (now, WsClosed) (s, d) =
     (s\<lparr>sv_failures := 0, sv_marked := False\<rparr>, ws_connected now agent d)"
| "supervisor_turn max_attempts agent (now, r) (s, d) =
     (let d1 = (if r = WsLost then ws_connected now agent d else d);
          failures = (if r = WsLost then 0 else sv_failures s) + 1
      in if max_attempts \<le> failures \<and> \<not> sv_marked s
         then (s\<lparr>sv_failures := failures, sv_marked := True\<rparr>,
               mark_agent_servers_unavailable now agent (set_agent_status ''unreachable'' agent d1))
         else (s\<lparr>sv_failures := failures\<rparr>, d1))"

definition supervise ::
  "nat \<Rightarrow> uuid \<Rightarrow> (time \<times> ws_end) list \<Rightarrow> supervisor \<times> db \<Rightarrow> supervisor \<times> db" where
  "supervise max_attempts agent ends s = fold (supervisor_turn max_attempts agent) ends s"

section \<open>The offline sweep\<close>

definition cleanup_offline_agents :: "int \<Rightarrow> time \<Rightarrow> db \<Rightarrow> db" where
  "cleanup_offline_agents offline_after now d = d\<lparr>db_agents :=
     update_where (\<lambda>a. (case ag_last_seen a of None \<Rightarrow> False
         | Some t \<Rightarrow> t < now - seconds offline_after) \<and> ag_status a = ''online'')
       (\<lambda>a. a\<lparr>ag_status := ''offline''\<rparr>) (db_agents d)\<rparr>"

section \<open>Every transaction keeps both contracts\<close>

lemma evolves_invalidate [evolve_intros]: "evolves d (invalidate_server_leases now i d)"
  unfolding invalidate_server_leases_def by (rule evolves_fail_active_on)

lemma invalidate_sel [simp]:
  "db_servers (invalidate_server_leases now i d) = db_servers d"
  "db_agents (invalidate_server_leases now i d) = db_agents d"
  "get_server (invalidate_server_leases now i d) j = get_server d j"
  by (simp_all add: invalidate_server_leases_def)

lemma forward_invalidate [forward_intros]: "server_forward d (invalidate_server_leases now i d)"
  by (rule server_forward_same) simp

lemma evolves_put_invalidate [evolve_intros]:
  "evolves d (invalidate_server_leases now i (put_server s d))"
  by (rule evolves_trans [OF evolves_put_server evolves_invalidate])

lemma evolves_invalidates: "evolves d (fold (invalidate_server_leases now) ids d)"
  by (induction ids arbitrary: d) (auto intro: evolves_trans evolves_invalidate)

lemma invalidates_sel [simp]:
  "db_servers (fold (invalidate_server_leases now) ids d) = db_servers d"
  "db_agents (fold (invalidate_server_leases now) ids d) = db_agents d"
  by (induction ids arbitrary: d) simp_all

lemma matching_server_in:
  assumes "matching_server agent e d = Some s"
  shows "s \<in> set (db_servers d)" "srv_agent_id s = agent" "se_server_id e = Some (srv_id s)"
    "\<And>g. se_slot_generation e = Some g \<Longrightarrow> srv_slot_generation s = g"
proof -
  obtain i where i: "se_server_id e = Some i"
    "first_row (filter (\<lambda>s. srv_id s = i \<and> srv_agent_id s = agent) (db_servers d)) = Some s"
    "\<And>g. se_slot_generation e = Some g \<Longrightarrow> srv_slot_generation s = g"
    using assms by (auto simp: matching_server_def split: option.splits if_splits)
  with first_row_filterD [OF i(2)] show "s \<in> set (db_servers d)" "srv_agent_id s = agent"
    "se_server_id e = Some (srv_id s)"
    "\<And>g. se_slot_generation e = Some g \<Longrightarrow> srv_slot_generation s = g" by simp_all
qed

text \<open>
  An event changes nothing, or it rewrites status columns of the row it matched; a row it
  leaves out of service has its active leases failed.
\<close>

definition same_server :: "server_row \<Rightarrow> server_row \<Rightarrow> bool" where
  "same_server s s' \<longleftrightarrow> srv_id s' = srv_id s \<and> srv_slot_generation s' = srv_slot_generation s \<and>
     srv_agent_id s' = srv_agent_id s \<and> srv_model_id s' = srv_model_id s"

lemma handle_started_cases:
  obtains "handle_server_started now agent e d = d"
  | s s' where "matching_server agent e d = Some s" "same_server s s'" "serving s'"
      "handle_server_started now agent e d = put_server s' d"
proof (cases "matching_server agent e d")
  case None
  then show thesis by (intro that(1)) (simp add: handle_server_started_def)
next
  case (Some s)
  show thesis
  proof (cases "srv_status s \<in> {SrvStarting, SrvRunning}")
    case True
    with Some show thesis
      by (intro that(2) [of s "s\<lparr>srv_status := SrvRunning, srv_health := HHealthy,
          srv_effective_capacity := (case se_effective_capacity e of
              None \<Rightarrow> srv_effective_capacity s | Some c \<Rightarrow> Some (max c 1)),
          srv_last_health_check := Some now,
          srv_started_at := (case srv_started_at s of None \<Rightarrow> Some now | Some t \<Rightarrow> Some t)\<rparr>"])
        (simp_all add: handle_server_started_def same_server_def serving_def)
  next
    case False
    with Some show thesis by (intro that(1)) (simp add: handle_server_started_def)
  qed
qed

lemma handle_stopped_cases:
  obtains "handle_server_stopped now agent e d = d"
  | s s' where "matching_server agent e d = Some s" "same_server s s'"
      "handle_server_stopped now agent e d = invalidate_server_leases now (srv_id s) (put_server s' d)"
proof (cases "matching_server agent e d")
  case None
  then show thesis by (intro that(1)) (simp add: handle_server_stopped_def)
next
  case (Some s)
  then show thesis
    by (intro that(2) [of s "s\<lparr>srv_status :=
      (if srv_status s \<notin> {SrvPreparing, SrvMetadataGathering} then SrvStopped else srv_status s),
      srv_health := HUnknown, srv_error_message := None\<rparr>"]) (simp_all add: handle_server_stopped_def same_server_def)
qed

lemma handle_error_cases:
  obtains "handle_server_error now agent e d = d"
  | s s' where "matching_server agent e d = Some s" "same_server s s'"
      "handle_server_error now agent e d = invalidate_server_leases now (srv_id s) (put_server s' d)"
proof (cases "matching_server agent e d")
  case None
  then show thesis by (intro that(1)) (simp add: handle_server_error_def)
next
  case (Some s)
  then show thesis
    by (intro that(2) [of s "s\<lparr>srv_status := SrvError, srv_health := HUnhealthy, srv_error_message :=
      (case se_error e of None \<Rightarrow> Some ''Unknown error'' | Some m \<Rightarrow> Some m)\<rparr>"]) (simp_all add: handle_server_error_def same_server_def)
qed

lemma handle_health_cases:
  obtains "handle_server_health now agent e d = d"
  | s s' where "matching_server agent e d = Some s" "same_server s s'" "serving s \<longrightarrow> serving s'"
      "handle_server_health now agent e d = put_server s' d"
  | s s' where "matching_server agent e d = Some s" "same_server s s'"
      "handle_server_health now agent e d = invalidate_server_leases now (srv_id s) (put_server s' d)"
proof (cases "matching_server agent e d")
  case None
  then show thesis by (intro that(1)) (simp add: handle_server_health_def)
next
  case (Some s)
  consider "se_status e \<notin> {Some ''healthy'', Some ''unhealthy''}" | "se_status e = Some ''healthy''"
    | "se_status e = Some ''unhealthy''" by blast
  then show thesis
  proof cases
    case 1
    then show thesis by (intro that(1)) (simp add: handle_server_health_def)
  next
    case 2
    let ?s = "s\<lparr>srv_health := HHealthy, srv_last_health_check := Some now,
      srv_error_message := None,
      srv_status := (if srv_status s = SrvStarting then SrvRunning else srv_status s)\<rparr>"
    from 2 Some show thesis
      by (intro that(2) [of s ?s]) (simp_all add: handle_server_health_def same_server_def serving_def)
  next
    case 3
    let ?s = "s\<lparr>srv_health := HUnhealthy, srv_last_health_check := Some now,
      srv_error_message := (case se_error e of None \<Rightarrow> srv_error_message s
        | Some m \<Rightarrow> if m = '''' then srv_error_message s else Some m)\<rparr>"
    from 3 Some show thesis
      by (intro that(3) [of s ?s]) (simp_all add: handle_server_health_def same_server_def)
  qed
qed

lemma handle_server_event_cases:
  obtains (none) "handle_server_event now agent ty e d = d"
  | (up) s s' where "matching_server agent e d = Some s" "same_server s s'" "serving s \<longrightarrow> serving s'"
      "handle_server_event now agent ty e d = put_server s' d"
  | (down) s s' where "matching_server agent e d = Some s" "same_server s s'"
      "handle_server_event now agent ty e d = invalidate_server_leases now (srv_id s) (put_server s' d)"
proof -
  consider "handle_server_event now agent ty e d = d"
    | "handle_server_event now agent ty e d = handle_server_started now agent e d"
    | "handle_server_event now agent ty e d = handle_server_stopped now agent e d"
    | "handle_server_event now agent ty e d = handle_server_error now agent e d"
    | "handle_server_event now agent ty e d = handle_server_health now agent e d"
    unfolding handle_server_event_def by metis
  then show thesis
  proof cases
    case 1
    then show thesis by (rule none)
  next
    case 2
    then show thesis using none up by (cases rule: handle_started_cases [of now agent e d]) metis+
  next
    case 3
    then show thesis using none down by (cases rule: handle_stopped_cases [of now agent e d]) metis+
  next
    case 4
    then show thesis using none down by (cases rule: handle_error_cases [of now agent e d]) metis+
  next
    case 5
    then show thesis using none up down by (cases rule: handle_health_cases [of now agent e d]) metis+
  qed
qed

lemma evolves_server_event [evolve_intros]: "evolves d (handle_server_event now agent ty e d)"
  by (cases rule: handle_server_event_cases [of now agent ty e d])
    (simp_all add: evolves_put_server evolves_put_invalidate)

text \<open>
  A server row a transaction locked is the row of its id, since the id is the primary key;
  rewriting it under its key, agent and model, with no smaller generation, goes forward.
\<close>

lemma server_forward_rewrite:
  assumes "distinct (map srv_id (db_servers d))" "s \<in> set (db_servers d)" "same_server s s'"
  shows "server_forward d (put_server s' d)"
  using assms by (intro server_forward_put [OF get_server_eqI]) (auto simp: same_server_def)

lemma forward_server_event [forward_intros]:
  assumes "wf_servers d"
  shows "server_forward d (handle_server_event now agent ty e d)"
proof (cases rule: handle_server_event_cases [of now agent ty e d])
  case (up s s')
  then show ?thesis
    using server_forward_rewrite [OF assms [unfolded wf_servers_def] matching_server_in(1) [OF up(1)] up(2)] by simp
next
  case (down s s')
  then have "server_forward d (put_server s' d)"
    using server_forward_rewrite [OF assms [unfolded wf_servers_def] matching_server_in(1) [OF down(1)] down(2)] by simp
  with down show ?thesis by (simp add: server_forward_trans [OF _ forward_invalidate])
qed simp

text \<open>An event of a process generation, or of an agent, that is not the server's is dropped.\<close>

lemma matching_server_None:
  assumes "distinct (map srv_id (db_servers d))" "get_server d i = Some s" "se_server_id e = Some i"
    and "srv_agent_id s \<noteq> agent \<or> (\<exists>g. se_slot_generation e = Some g \<and> g \<noteq> srv_slot_generation s)"
  shows "matching_server agent e d = None"
proof (rule ccontr)
  assume "matching_server agent e d \<noteq> None"
  then obtain t where t: "matching_server agent e d = Some t" by blast
  note m = matching_server_in [OF t]
  have "t = s"
    using m(1,3) assms(3) get_server_in [OF assms(2)] distinct_key_unique [OF assms(1)] by simp
  with m assms(4) show False by auto
qed

lemma handle_server_event_None:
  "matching_server agent e d = None \<Longrightarrow> handle_server_event now agent ty e d = d"
  by (simp add: handle_server_event_def handle_server_started_def handle_server_stopped_def
      handle_server_error_def handle_server_health_def)

section \<open>Leases and the servers that run them\<close>

text \<open>Every active lease is on a server that is running and healthy.\<close>

definition active_on_serving :: "db \<Rightarrow> bool" where
  "active_on_serving d \<longleftrightarrow> (\<forall>r\<in>set (db_leases d). ls_status r = Active \<longrightarrow>
     (\<exists>i s. ls_server_instance_id r = Some i \<and> get_server d i = Some s \<and> serving s))"

lemma active_on_servingD:
  assumes "active_on_serving d" "r \<in> set (db_leases d)" "ls_status r = Active"
  obtains i s where "ls_server_instance_id r = Some i" "get_server d i = Some s" "serving s"
  using assms unfolding active_on_serving_def by blast

text \<open>
  A write to the lease table that makes no lease active, and a write to one server row that
  keeps it serving or fails its leases, keep the invariant.
\<close>

lemma active_on_serving_leases:
  assumes "active_on_serving d"
    and "\<And>r. p r \<Longrightarrow> ls_status (f r) = Active \<Longrightarrow>
      ls_status r = Active \<and> ls_server_instance_id (f r) = ls_server_instance_id r"
  shows "active_on_serving (update_leases p f d)"
  unfolding active_on_serving_def
proof (intro ballI impI)
  fix r'
  assume "r' \<in> set (db_leases (update_leases p f d))" and act: "ls_status r' = Active"
  then obtain r where r: "r \<in> set (db_leases d)" "r' = (if p r then f r else r)"
    unfolding update_leases_sel in_update_where by blast
  with act assms(2) [of r] have "ls_status r = Active" "ls_server_instance_id r' = ls_server_instance_id r"
    by (auto split: if_splits)
  with active_on_servingD [OF assms(1) r(1)]
  show "\<exists>i s. ls_server_instance_id r' = Some i \<and> get_server (update_leases p f d) i = Some s \<and> serving s"
    by (metis get_server_update_leases)
qed

lemma active_on_serving_put:
  assumes "active_on_serving d" "get_server d i = Some s" "srv_id s' = i" "serving s \<longrightarrow> serving s'"
  shows "active_on_serving (put_server s' d)"
  unfolding active_on_serving_def put_server_sel
proof (intro ballI impI)
  fix r
  assume "r \<in> set (db_leases d)" "ls_status r = Active"
  with assms(1) obtain j t where jt: "ls_server_instance_id r = Some j" "get_server d j = Some t"
    "serving t" by (blast elim: active_on_servingD)
  with assms(2-4) show "\<exists>i s. ls_server_instance_id r = Some i \<and> get_server (put_server s' d) i = Some s \<and>
      serving s"
    by (cases "j = i") (simp_all add: get_server_put_server)
qed

lemma active_on_serving_put_fail:
  assumes "active_on_serving d" "srv_id s' = i"
  shows "active_on_serving (update_leases (active_on i) (finish_row Failed reason now) (put_server s' d))"
  unfolding active_on_serving_def
proof (intro ballI impI)
  fix r
  assume "r \<in> set (db_leases (update_leases (active_on i) (finish_row Failed reason now) (put_server s' d)))"
    and act: "ls_status r = Active"
  then obtain r0 where r0: "r0 \<in> set (db_leases d)"
    "r = (if active_on i r0 then finish_row Failed reason now r0 else r0)"
    unfolding update_leases_sel in_update_where put_server_sel by blast
  with act have "\<not> active_on i r0" by (cases "active_on i r0") simp_all
  with r0 have r: "r \<in> set (db_leases d)" "\<not> active_on i r" by simp_all
  with assms(1) act obtain j t where jt: "ls_server_instance_id r = Some j" "get_server d j = Some t"
    "serving t" by (blast elim: active_on_servingD)
  moreover from r(2) act jt(1) have "j \<noteq> i" by (simp add: active_on_def)
  ultimately show "\<exists>i' s. ls_server_instance_id r = Some i' \<and>
      get_server (update_leases (active_on i) (finish_row Failed reason now) (put_server s' d)) i' = Some s \<and>
      serving s"
    using assms(2) by (simp add: get_server_put_server)
qed

lemma active_on_serving_event:
  assumes "active_on_serving d" "distinct (map srv_id (db_servers d))"
  shows "active_on_serving (handle_server_event now agent ty e d)"
proof (cases rule: handle_server_event_cases [of now agent ty e d])
  case none
  with assms(1) show ?thesis by simp
next
  case (up s s')
  have "get_server d (srv_id s) = Some s"
    using get_server_eqI [OF assms(2) matching_server_in(1) [OF up(1)]] .
  with up assms(1) show ?thesis by (simp add: active_on_serving_put same_server_def)
next
  case (down s s')
  with assms(1) show ?thesis
    by (simp add: active_on_serving_put_fail invalidate_server_leases_def same_server_def)
qed

section \<open>Registration and outage keep the lease machine\<close>

lemma evolves_upsert_agent [evolve_intros]: "evolves d (snd (upsert_agent i now a d))"
  by (rule evolves_same_leases) (simp add: upsert_agent_def Let_def split: option.split)

lemma upsert_agent_servers [simp]: "db_servers (snd (upsert_agent i now a d)) = db_servers d"
  by (simp add: upsert_agent_def Let_def split: option.split)

lemma upsert_agent_get_server [simp]: "get_server (snd (upsert_agent i now a d)) j = get_server d j"
  by (simp add: get_server_def)

text \<open>What one report does: nothing, or one rewritten row, perhaps with its leases failed.\<close>

lemma apply_report_cases:
  obtains (none) st where "apply_report now reports s (stale, d) = (st, d)"
  | (up) st s' where "same_server s s'"
      "apply_report now reports s (stale, d) = (st, put_server s' d)"
  | (down) st s' where "same_server s s'"
      "apply_report now reports s (stale, d) = (st, invalidate_server_leases now (srv_id s) (put_server s' d))"
proof (cases "reports (srv_id s) = None \<or> report_is_stale (reports (srv_id s)) s")
  case True
  show thesis
  proof (cases "srv_status s \<in> {SrvStarting, SrvRunning}")
    case up: True
    with True show thesis
      by (intro down [of "s\<lparr>srv_status := SrvStopped, srv_health := HUnknown\<rparr>"])
        (simp_all add: apply_report_def Let_def same_server_def)
  next
    case False
    with True show thesis by (intro none) (simp add: apply_report_def Let_def)
  qed
next
  case False
  then obtain x where x: "reports (srv_id s) = Some x" by auto
  show thesis
  proof (cases "default_to ''starting'' (rp_status x) \<in> {''starting'', ''running''}")
    case True
    let ?s = "s\<lparr>srv_status := (if default_to ''starting'' (rp_status x) = ''running'' then SrvRunning
                 else SrvStarting),
      srv_health := health_of (default_to ''unknown'' (rp_health x)),
      srv_effective_capacity := (case rp_capacity x of None \<Rightarrow> srv_effective_capacity s
        | Some c \<Rightarrow> Some (max c 1))\<rparr>"
    have "apply_report now reports s (stale, d) = (stale, put_server ?s d)"
      unfolding apply_report_def Let_def using True False x by simp
    then show thesis by (intro up [of ?s]) (simp_all add: same_server_def)
  next
    case no: False
    have "apply_report now reports s (stale, d) = (stale, d)"
      unfolding apply_report_def Let_def using no False x by simp
    then show thesis by (rule none)
  qed
qed

lemma evolves_apply_report: "evolves (snd acc) (snd (apply_report now reports s acc))"
  by (cases acc; cases rule: apply_report_cases [of now reports s "fst acc" "snd acc"])
    (simp_all add: evolves_put_server evolves_put_invalidate)

lemma evolves_register_reports: "evolves d (snd (register_reports now agent rs d))"
  unfolding register_reports_def
  using evolves_fold [of "apply_report now (reports_of rs)" "([], d)"] evolves_apply_report by simp

lemma evolves_if: "evolves d a \<Longrightarrow> evolves d b \<Longrightarrow> evolves d (if c then a else b)"
  by simp

lemma evolves_register_snapshot: "evolves d (register_snapshot now agent running healthy d)"
  unfolding register_snapshot_def Let_def
  by (intro evolves_if evolves_trans [OF _ evolves_update_servers]
      evolves_trans [OF _ evolves_invalidates] evolves_refl)

lemma evolves_register_agent [evolve_intros]:
  "evolves d (snd (snd (register_agent i now a d)))"
  unfolding register_agent_def Let_def split_beta snd_conv
  by (rule evolves_trans [OF evolves_upsert_agent])
    (auto intro: evolves_register_reports evolves_register_snapshot)

lemma evolves_mark_unavailable [evolve_intros]:
  "evolves d (mark_agent_servers_unavailable now agent d)"
  unfolding mark_agent_servers_unavailable_def Let_def
  by (auto intro: evolves_trans [OF evolves_update_servers evolves_invalidates])

lemma evolves_agents: "evolves d (d\<lparr>db_agents := as\<rparr>)"
  by (rule evolves_same_leases) simp

lemma evolves_supervisor_turn [evolve_intros]:
  "evolves (snd sd) (snd (supervisor_turn m agent e sd))"
proof -
  obtain now r where e: "e = (now, r)" by fastforce
  obtain s d where sd: "sd = (s, d)" by fastforce
  have "evolves d (d\<lparr>db_agents := as\<rparr>)" for as by (rule evolves_agents)
  then have *: "evolves d (ws_connected now agent d)" "evolves d (set_agent_status st agent d)"
    "evolves d (set_agent_status st agent (ws_connected now agent d))" for st
    by (simp_all add: set_agent_status_def ws_connected_def)
  from this(2,3) [THEN evolves_trans, OF evolves_mark_unavailable] * show ?thesis
    unfolding e sd by (cases r) (simp_all add: Let_def)
qed

section \<open>The outcome of a registration\<close>

text \<open>The row a report leaves, and the stale process it names, as functions of the old row.\<close>

definition reported_row :: "(uuid \<Rightarrow> server_report option) \<Rightarrow> server_row \<Rightarrow> server_row" where
  "reported_row reports s =
     (if reports (srv_id s) = None \<or> report_is_stale (reports (srv_id s)) s then
        (if srv_status s \<in> {SrvStarting, SrvRunning}
         then s\<lparr>srv_status := SrvStopped, srv_health := HUnknown\<rparr> else s)
      else (case reports (srv_id s) of None \<Rightarrow> s
        | Some x \<Rightarrow>
            let st = default_to ''starting'' (rp_status x) in
            if st \<notin> {''starting'', ''running''} then s
            else s\<lparr>srv_status := (if st = ''running'' then SrvRunning else SrvStarting),
              srv_health := health_of (default_to ''unknown'' (rp_health x)),
              srv_effective_capacity := (case rp_capacity x of None \<Rightarrow> srv_effective_capacity s
                | Some c \<Rightarrow> Some (max c 1))\<rparr>))"

definition stale_process :: "(uuid \<Rightarrow> server_report option) \<Rightarrow> server_row \<Rightarrow> (uuid \<times> int) list" where
  "stale_process reports s = (if report_is_stale (reports (srv_id s)) s
     then map (\<lambda>x. (srv_id s, the (rp_generation x))) (case reports (srv_id s) of None \<Rightarrow> [] | Some x \<Rightarrow> [x])
     else [])"

lemma reported_row_same: "same_server s (reported_row reports s)"
  by (auto simp: reported_row_def same_server_def Let_def split: option.splits)

lemma apply_report_stale:
  "fst (apply_report now reports s acc) = fst acc @ stale_process reports s"
  by (cases acc) (auto simp: apply_report_def stale_process_def report_is_stale_def Let_def
      split: option.splits if_splits)

lemma put_server_self:
  "get_server d (srv_id s) = Some s \<Longrightarrow> get_server (put_server s d) i = get_server d i"
  by (simp add: get_server_put_server)

lemma apply_report_get_server:
  assumes "get_server (snd acc) (srv_id s) = Some s"
  shows "get_server (snd (apply_report now reports s acc)) i =
    (if i = srv_id s then Some (reported_row reports s) else get_server (snd acc) i)"
  using assms
  by (cases acc) (auto simp: apply_report_def reported_row_def Let_def get_server_put_server
      report_is_stale_def split: option.splits)

lemma apply_report_keys:
  "map srv_id (db_servers (snd (apply_report now reports s acc))) = map srv_id (db_servers (snd acc))"
proof -
  have "map srv_id (update_where (\<lambda>r. srv_id r = srv_id s') (\<lambda>_. s') t) = map srv_id t" for s' t
    by (rule map_update_where) simp
  then show ?thesis
    by (cases acc; cases rule: apply_report_cases [of now reports s "fst acc" "snd acc"]) simp_all
qed

lemma apply_reports_outcome:
  assumes "distinct (map srv_id ss)" "\<forall>s\<in>set ss. get_server (snd acc) (srv_id s) = Some s"
  shows "fst (fold (apply_report now reports) ss acc) = fst acc @ concat (map (stale_process reports) ss) \<and>
    map srv_id (db_servers (snd (fold (apply_report now reports) ss acc))) = map srv_id (db_servers (snd acc)) \<and>
    (\<forall>i. get_server (snd (fold (apply_report now reports) ss acc)) i =
      (if i \<in> srv_id ` set ss then map_option (reported_row reports) (get_server (snd acc) i)
       else get_server (snd acc) i))"
  using assms
proof (induction ss arbitrary: acc)
  case Nil
  then show ?case by simp
next
  case (Cons s ss)
  let ?acc = "apply_report now reports s acc"
  have s: "get_server (snd acc) (srv_id s) = Some s" using Cons.prems(2) by simp
  note g = apply_report_get_server [OF s, of now reports]
  have fresh: "srv_id s \<notin> srv_id ` set ss" using Cons.prems(1) by simp
  have "\<forall>t\<in>set ss. get_server (snd ?acc) (srv_id t) = Some t"
  proof
    fix t
    assume t: "t \<in> set ss"
    then have "srv_id t \<in> srv_id ` set ss" by (rule imageI)
    with fresh have "srv_id t \<noteq> srv_id s" by metis
    then show "get_server (snd ?acc) (srv_id t) = Some t"
      unfolding g using Cons.prems(2) t by simp
  qed
  with Cons.IH [of ?acc] Cons.prems(1)
  have ih: "fst (fold (apply_report now reports) ss ?acc) = fst ?acc @ concat (map (stale_process reports) ss)"
    "map srv_id (db_servers (snd (fold (apply_report now reports) ss ?acc))) = map srv_id (db_servers (snd ?acc))"
    "\<And>i. get_server (snd (fold (apply_report now reports) ss ?acc)) i =
      (if i \<in> srv_id ` set ss then map_option (reported_row reports) (get_server (snd ?acc) i)
       else get_server (snd ?acc) i)"
    by simp_all
  show ?case
  proof (intro conjI allI)
    fix i
    show "get_server (snd (fold (apply_report now reports) (s # ss) acc)) i =
      (if i \<in> srv_id ` set (s # ss) then map_option (reported_row reports) (get_server (snd acc) i)
       else get_server (snd acc) i)"
      using fresh s by (cases "i = srv_id s") (simp_all add: ih(3) g)
  qed (simp_all add: ih apply_report_stale apply_report_keys)
qed

lemma register_reports_outcome:
  assumes "distinct (map srv_id (db_servers d))"
  shows "fst (register_reports now agent rs d) =
      concat (map (stale_process (reports_of rs)) (current_servers agent d))"
    "map srv_id (db_servers (snd (register_reports now agent rs d))) = map srv_id (db_servers d)"
    "get_server (snd (register_reports now agent rs d)) i = map_option (\<lambda>s.
      if srv_agent_id s = agent then reported_row (reports_of rs) s else s) (get_server d i)"
proof -
  have "distinct (map srv_id (current_servers agent d))"
    using assms by (simp add: current_servers_def distinct_map_filter)
  moreover have "\<forall>s\<in>set (current_servers agent d). get_server (snd ([] :: (uuid \<times> int) list, d)) (srv_id s) = Some s"
    using get_server_eqI [OF assms] by (simp add: current_servers_def)
  ultimately have o: "fst (register_reports now agent rs d) =
      concat (map (stale_process (reports_of rs)) (current_servers agent d)) \<and>
    map srv_id (db_servers (snd (register_reports now agent rs d))) = map srv_id (db_servers d) \<and>
    (\<forall>i. get_server (snd (register_reports now agent rs d)) i =
      (if i \<in> srv_id ` set (current_servers agent d)
       then map_option (reported_row (reports_of rs)) (get_server d i) else get_server d i))"
    unfolding register_reports_def
    using apply_reports_outcome [of "current_servers agent d" "([], d)" now "reports_of rs"] by simp
  then show "fst (register_reports now agent rs d) =
      concat (map (stale_process (reports_of rs)) (current_servers agent d))"
    "map srv_id (db_servers (snd (register_reports now agent rs d))) = map srv_id (db_servers d)"
    by simp_all
  have "i \<in> srv_id ` set (current_servers agent d) \<longleftrightarrow>
    (\<exists>s. get_server d i = Some s \<and> srv_agent_id s = agent)" (is "?l = ?r")
  proof
    assume ?l
    then show ?r using get_server_eqI [OF assms] by (auto simp: current_servers_def)
  next
    assume ?r
    then obtain s where "get_server d i = Some s" "srv_agent_id s = agent" by blast
    with get_server_in [of d i s] show ?l by (auto simp: current_servers_def intro!: image_eqI [of _ _ s])
  qed
  with o show "get_server (snd (register_reports now agent rs d)) i = map_option (\<lambda>s.
      if srv_agent_id s = agent then reported_row (reports_of rs) s else s) (get_server d i)"
    by (cases "get_server d i") auto
qed

section \<open>Registration and outage move generations only forward\<close>

lemma server_forward_rows:
  assumes "map srv_id (db_servers d') = map srv_id (db_servers d)"
    and "\<And>i. get_server d' i = map_option f (get_server d i)" "\<And>s. same_server s (f s)"
  shows "server_forward d d'"
  using assms unfolding server_forward_def same_server_def by simp

lemma forward_upsert_agent [forward_intros]: "server_forward d (snd (upsert_agent i now a d))"
  by (rule server_forward_same) simp

lemma forward_register_reports:
  assumes "wf_servers d"
  shows "server_forward d (snd (register_reports now agent rs d))"
  by (rule server_forward_rows [OF register_reports_outcome(2,3) [OF assms [unfolded wf_servers_def]]])
    (simp add: reported_row_same, simp add: same_server_def)

lemma forward_status [forward_intros]:
  "server_forward d (update_servers p (\<lambda>s. s\<lparr>srv_status := st, srv_health := h\<rparr>) d)"
  "server_forward d (update_servers p (\<lambda>s. s\<lparr>srv_health := h\<rparr>) d)"
  by (rule server_forward_update; simp)+

lemma forward_invalidates [forward_intros]:
  "server_forward d (fold (invalidate_server_leases now) ids d)"
  by (rule server_forward_same) simp

lemma forward_register_snapshot: "server_forward d (register_snapshot now agent running healthy d)"
proof -
  have if_forward: "server_forward d a \<Longrightarrow> server_forward d b \<Longrightarrow> server_forward d (if c then a else b)"
    for a b c by simp
  show ?thesis
    unfolding register_snapshot_def Let_def
    by (intro if_forward server_forward_trans [OF _ forward_status(1)]
        server_forward_trans [OF _ forward_status(2)] server_forward_trans [OF _ forward_invalidates]
        server_forward_refl)
qed

lemma forward_register_agent [forward_intros]:
  assumes "wf_servers d"
  shows "server_forward d (snd (snd (register_agent i now a d)))"
proof -
  have "wf_servers (snd (upsert_agent i now a d))" using assms by (simp add: wf_servers_def)
  note * = server_forward_trans [OF forward_upsert_agent forward_register_reports [OF this]]
    server_forward_trans [OF forward_upsert_agent forward_register_snapshot]
  show ?thesis
    unfolding register_agent_def Let_def split_beta snd_conv
    by (cases "ad_statuses a = []") (simp_all add: *)
qed

lemma forward_mark_unavailable [forward_intros]:
  "server_forward d (mark_agent_servers_unavailable now agent d)"
  unfolding mark_agent_servers_unavailable_def Let_def
  using server_forward_trans [OF forward_status(1) forward_invalidates] by simp

lemma supervisor_turn_servers:
  "db_servers (set_agent_status st agent d) = db_servers d"
  "db_leases (set_agent_status st agent d) = db_leases d"
  "db_servers (ws_connected now agent d) = db_servers d"
  "db_leases (ws_connected now agent d) = db_leases d"
  by (simp_all add: set_agent_status_def ws_connected_def)

lemma forward_supervisor_turn [forward_intros]:
  "server_forward (snd sd) (snd (supervisor_turn m agent e sd))"
proof -
  obtain now r where e: "e = (now, r)" by fastforce
  obtain s d where sd: "sd = (s, d)" by fastforce
  have *: "server_forward d (ws_connected now agent d)" "server_forward d (set_agent_status st agent d)"
    "server_forward d (set_agent_status st agent (ws_connected now agent d))" for st
    by (simp_all add: supervisor_turn_servers server_forward_same)
  from this(2,3) [THEN server_forward_trans, OF forward_mark_unavailable] * show ?thesis
    unfolding e sd by (cases r) (simp_all add: Let_def)
qed

section \<open>Properties\<close>

text \<open>
  Late events are dropped. An event that names another process generation of the
  server than its current one, or comes from an agent that does not own the server, changes no
  row, whatever its type: a stopped process cannot take down, or bring up, its successor.
\<close>

theorem late_event_ignored:
  assumes "wf_servers d" "get_server d i = Some s" "se_server_id e = Some i"
    and "srv_agent_id s \<noteq> agent \<or> (\<exists>g. se_slot_generation e = Some g \<and> g \<noteq> srv_slot_generation s)"
  shows "handle_server_event now agent ty e d = d"
  by (rule handle_server_event_None)
    (rule matching_server_None [OF assms(1) [unfolded wf_servers_def] assms(2-4)])

text \<open>
  A registration with server statuses is authoritative. Afterwards every server of
  the agent that is starting or running was reported, under its current generation where the
  report names one, and the agent is told to stop exactly the processes it reported under a
  generation that is not the server's.
\<close>

theorem registration_authoritative:
  assumes "wf_servers d" "ad_statuses a \<noteq> []" "register_agent fresh now a d = (agent, msgs, d')"
  shows "(\<forall>i s. get_server d' i = Some s \<and> srv_agent_id s = agent \<and> srv_status s \<in> {SrvStarting, SrvRunning} \<longrightarrow>
      (\<exists>x. reports_of (ad_statuses a) i = Some x \<and>
         rp_generation x \<in> {None, Some (srv_slot_generation s)})) \<and>
    (\<forall>i g. StopServer agent i g \<in> set msgs \<longleftrightarrow>
      (\<exists>s x. get_server d i = Some s \<and> srv_agent_id s = agent \<and>
         reports_of (ad_statuses a) i = Some x \<and> rp_generation x = Some g \<and> g \<noteq> srv_slot_generation s))"
proof -
  let ?d1 = "snd (upsert_agent fresh now a d)"
  let ?rep = "reports_of (ad_statuses a)"
  have wf: "distinct (map srv_id (db_servers ?d1))" using assms(1) by (simp add: wf_servers_def)
  note out = register_reports_outcome [OF wf, of now agent "ad_statuses a"]
  have res: "msgs = map (\<lambda>(i, g). StopServer agent i g) (fst (register_reports now agent (ad_statuses a) ?d1))"
    "d' = snd (register_reports now agent (ad_statuses a) ?d1)"
    using assms(2,3) by (auto simp: register_agent_def Let_def split_beta)
  have "\<exists>x. ?rep i = Some x \<and> rp_generation x \<in> {None, Some (srv_slot_generation s)}"
    if s: "get_server d' i = Some s" "srv_agent_id s = agent" "srv_status s \<in> {SrvStarting, SrvRunning}" for i s
  proof -
    obtain s0 where s0: "get_server d i = Some s0"
      "s = (if srv_agent_id s0 = agent then reported_row ?rep s0 else s0)"
      using s(1) out(3) [of i] by (auto simp: res(2))
    then have "srv_id s0 = i" using get_server_in by blast
    with s0(2) s(2,3) show ?thesis
      by (auto simp: reported_row_def report_is_stale_def Let_def split: if_splits option.splits)
  qed
  moreover have "StopServer agent i g \<in> set msgs \<longleftrightarrow> (\<exists>s x. get_server d i = Some s \<and>
      srv_agent_id s = agent \<and> ?rep i = Some x \<and> rp_generation x = Some g \<and> g \<noteq> srv_slot_generation s)"
    for i g
  proof -
    have "StopServer agent i g \<in> set msgs \<longleftrightarrow>
      (\<exists>s\<in>set (current_servers agent d). (i, g) \<in> set (stale_process ?rep s))"
      unfolding res(1) out(1) by (fastforce simp: current_servers_def)
    also have "\<dots> \<longleftrightarrow> (\<exists>s\<in>set (current_servers agent d). srv_id s = i \<and>
      (\<exists>x. ?rep i = Some x \<and> rp_generation x = Some g \<and> g \<noteq> srv_slot_generation s))"
      by (rule bex_cong) (auto simp: stale_process_def report_is_stale_def split: option.splits)
    also have "\<dots> \<longleftrightarrow> (\<exists>s. get_server d i = Some s \<and> srv_agent_id s = agent \<and>
      (\<exists>x. ?rep i = Some x \<and> rp_generation x = Some g \<and> g \<noteq> srv_slot_generation s))"
      using get_server_in get_server_eqI [OF assms(1) [unfolded wf_servers_def]]
      by (auto simp: current_servers_def)
    finally show ?thesis by blast
  qed
  ultimately show ?thesis by blast
qed

lemma supervise_simps [simp]:
  "supervise m agent [] sd = sd"
  "supervise m agent (e # es) sd = supervise m agent es (supervisor_turn m agent e sd)"
  by (simp_all add: supervise_def)

text \<open>Once marked, a supervisor leaves servers and leases alone until a clean close.\<close>

lemma marked_supervisor_idle:
  assumes "sv_marked s" "\<forall>e\<in>set es. snd e \<noteq> WsClosed"
  shows "sv_marked (fst (supervise m agent es (s, d))) \<and>
    db_servers (snd (supervise m agent es (s, d))) = db_servers d \<and>
    db_leases (snd (supervise m agent es (s, d))) = db_leases d"
  using assms
proof (induction es arbitrary: s d)
  case Nil
  then show ?case by simp
next
  case (Cons e es)
  obtain now r where e: "e = (now, r)" by fastforce
  obtain s1 d1 where t: "supervisor_turn m agent e (s, d) = (s1, d1)" by fastforce
  with Cons.prems e have "sv_marked s1" "db_servers d1 = db_servers d" "db_leases d1 = db_leases d"
    by (cases r; auto simp: Let_def supervisor_turn_servers)+
  with Cons.IH [of s1 d1] Cons.prems t show ?case by simp
qed

text \<open>What marking leaves: no server of the agent up, and no active lease on one that was.\<close>

definition agent_down :: "uuid \<Rightarrow> db \<Rightarrow> db \<Rightarrow> bool" where
  "agent_down agent d d' \<longleftrightarrow>
     (\<forall>s\<in>set (db_servers d'). srv_agent_id s = agent \<longrightarrow> srv_status s \<notin> {SrvStarting, SrvRunning}) \<and>
     (\<forall>r\<in>set (db_leases d'). \<forall>s\<in>set (db_servers d). srv_agent_id s = agent \<and>
        srv_status s \<in> {SrvStarting, SrvRunning} \<longrightarrow> \<not> active_on (srv_id s) r)"

lemma invalidates_none_active:
  "r \<in> set (db_leases (fold (invalidate_server_leases now) ids d)) \<Longrightarrow> i \<in> set ids \<Longrightarrow> \<not> active_on i r"
proof (induction ids arbitrary: d)
  case Nil
  then show ?case by simp
next
  case (Cons k ids)
  have keep: "\<forall>r\<in>set (db_leases (fold (invalidate_server_leases now) js e)). \<not> active_on k r"
    if "\<forall>r\<in>set (db_leases e). \<not> active_on k r" for js e
    using that
  proof (induction js arbitrary: e)
    case (Cons j js)
    have "\<forall>r\<in>set (db_leases (invalidate_server_leases now j e)). \<not> active_on k r"
      unfolding invalidate_server_leases_def update_leases_sel
      by (rule all_update_where [OF Cons.prems]) (simp_all add: active_on_def)
    with Cons.IH show ?case by simp
  qed simp
  have "\<forall>r\<in>set (db_leases (invalidate_server_leases now k d)). \<not> active_on k r"
    unfolding invalidate_server_leases_def update_leases_sel
    by (rule all_update_where [where P = "\<lambda>_. True"]) (simp_all add: active_on_def)
  from keep [OF this] Cons show ?case by auto
qed

lemma mark_unavailable_down: "agent_down agent d (mark_agent_servers_unavailable now agent d)"
proof -
  let ?up = "\<lambda>s. srv_agent_id s = agent \<and> srv_status s \<in> {SrvStarting, SrvRunning}"
  let ?ids = "map srv_id (filter ?up (db_servers d))"
  show ?thesis
  proof (cases "?ids = []")
    case True
    then have "\<forall>s\<in>set (db_servers d). \<not> ?up s" by (simp add: filter_empty_conv)
    with True show ?thesis
      unfolding agent_down_def mark_agent_servers_unavailable_def Let_def by auto
  next
    case False
    then have m: "mark_agent_servers_unavailable now agent d =
      fold (invalidate_server_leases now) ?ids (update_servers (\<lambda>s. srv_id s \<in> set ?ids)
        (\<lambda>s. s\<lparr>srv_status := SrvStopped, srv_health := HUnknown\<rparr>) d)"
      unfolding mark_agent_servers_unavailable_def Let_def by simp
    have "\<forall>s\<in>set (db_servers (mark_agent_servers_unavailable now agent d)). \<not> ?up s"
      unfolding m invalidates_sel update_servers_sel
    proof
      fix s
      assume "s \<in> set (update_where (\<lambda>s. srv_id s \<in> set ?ids)
        (\<lambda>s. s\<lparr>srv_status := SrvStopped, srv_health := HUnknown\<rparr>) (db_servers d))"
      then obtain r where r: "r \<in> set (db_servers d)" "s = (if srv_id r \<in> set ?ids
        then r\<lparr>srv_status := SrvStopped, srv_health := HUnknown\<rparr> else r)"
        unfolding in_update_where by blast
      show "\<not> ?up s"
      proof (cases "srv_id r \<in> set ?ids")
        case True
        with r(2) show ?thesis by simp
      next
        case False
        with r(1) have "\<not> ?up r" by auto
        with False r(2) show ?thesis by simp
      qed
    qed
    moreover have "\<not> active_on (srv_id s) r"
      if "r \<in> set (db_leases (mark_agent_servers_unavailable now agent d))"
        "s \<in> set (db_servers d)" "?up s" for r s
      using invalidates_none_active [OF that(1) [unfolded m], of "srv_id s"] that(2,3) by simp
    ultimately show ?thesis unfolding agent_down_def by blast
  qed
qed

lemma supervise_outage:
  assumes "\<not> sv_marked s" "sv_failures s < m" "m \<le> sv_failures s + length es"
    and "\<forall>e\<in>set es. snd e = WsConnecting"
  shows "sv_marked (fst (supervise m agent es (s, d))) \<and>
    agent_down agent d (snd (supervise m agent es (s, d)))"
  using assms
proof (induction es arbitrary: s)
  case Nil
  then show ?case by simp
next
  case (Cons e es)
  obtain now where e: "e = (now, WsConnecting)" using Cons.prems(4) by (cases e) auto
  show ?case
  proof (cases "Suc (sv_failures s) < m")
    case True
    then have "supervisor_turn m agent e (s, d) = (s\<lparr>sv_failures := Suc (sv_failures s)\<rparr>, d)"
      by (simp add: e Let_def)
    with Cons.IH [of "s\<lparr>sv_failures := Suc (sv_failures s)\<rparr>"] Cons.prems True show ?thesis by simp
  next
    case False
    let ?d = "set_agent_status ''unreachable'' agent d"
    let ?s = "s\<lparr>sv_failures := Suc (sv_failures s), sv_marked := True\<rparr>"
    have t: "supervisor_turn m agent e (s, d) = (?s, mark_agent_servers_unavailable now agent ?d)"
      using False Cons.prems(1) by (simp add: e Let_def)
    have "\<forall>e\<in>set es. snd e \<noteq> WsClosed" using Cons.prems(4) by auto
    from marked_supervisor_idle [of ?s, OF _ this, of m agent "mark_agent_servers_unavailable now agent ?d"]
      mark_unavailable_down [of agent ?d now]
    show ?thesis
      unfolding supervise_simps t agent_down_def supervisor_turn_servers by simp
  qed
qed

text \<open>
  Claim C12: an outage is fenced. A supervisor that has not yet marked its agent, and then
  fails to connect until the configured number of consecutive attempts is reached, leaves no
  server of the agent starting or running, and no request active on one that was.
\<close>

theorem outage_fences_agent:
  assumes "\<not> sv_marked s" "sv_failures s < m" "m \<le> sv_failures s + length es"
    and "\<forall>e\<in>set es. snd e = WsConnecting" "supervise m agent es (s, d) = (s', d')"
  shows "agent_down agent d d'"
  using supervise_outage [OF assms(1-4), of agent d] assms(5) by simp

text \<open>
  A second outage is not fenced. The flag \<open>marked_unavailable\<close> is reset only when a
  connection closes cleanly. After an outage that marked the agent, if the agent reconnects
  and that connection is lost abnormally, no number of further failed attempts marks its
  servers again: they keep their status, and their requests stay active, although the agent
  is unreachable.
\<close>

theorem second_outage_not_fenced:
  assumes "sv_marked s" "supervise m agent ((t, WsLost) # map (\<lambda>t. (t, WsConnecting)) ts) (s, d) = (s', d')"
  shows "db_servers d' = db_servers d \<and> db_leases d' = db_leases d \<and> sv_marked s'"
  using marked_supervisor_idle [OF assms(1), of "(t, WsLost) # map (\<lambda>t. (t, WsConnecting)) ts" m agent d]
    assms(2) by simp

lemma record_event_buffer:
  assumes "map_of (eh_buffers h) agent = Some b"
  shows "map_of (eh_buffers (record_event agent e h)) agent = Some (push_last EVENT_BUFFER_LIMIT e b)"
  using assms by (simp add: record_event_def Let_def split: option.split)

text \<open>
  The event buffer is bounded and loses only the oldest events. After any sequence
  of events of an agent its buffer holds exactly the last 1000 of everything recorded.
\<close>

theorem event_buffer_last:
  assumes "map_of (eh_buffers h) agent = Some (keep_last EVENT_BUFFER_LIMIT old)"
  shows "map_of (eh_buffers (fold (record_event agent) es h)) agent =
    Some (keep_last EVENT_BUFFER_LIMIT (old @ es))"
  using assms
proof (induction es arbitrary: h old)
  case Nil
  then show ?case by simp
next
  case (Cons e es)
  from record_event_buffer [OF Cons.prems, of e]
  have "map_of (eh_buffers (record_event agent e h)) agent = Some (keep_last EVENT_BUFFER_LIMIT (old @ [e]))"
    by (simp add: push_last_keep_last EVENT_BUFFER_LIMIT_def)
  from Cons.IH [OF this] show ?case by simp
qed

end
