(* ===== verification/ServerStartup.thy ===== *)
theory ServerStartup
  imports AgentEvents "HOL-Library.List_Lexorder" "HOL-Library.Multiset"
begin

text \<open>
  backend/app/services/server_startup.py: choosing the primary part of a split model, the gate
  and the acknowledgement of a start dispatch, the initialization of a new server, and
  \<open>ensure_server_ready\<close>, which parallel requests share. Transactions are functions on the
  database; the answers of the agent and what others do between transactions are arguments.
  Text the code interpolates into a message (a UUID, a timeout) is left out of the message.
\<close>

section \<open>Split model files\<close>

text \<open>
  \<open>SPLIT_PART_RE\<close>, \<open>(.+)-(\d+)-of-(\d+)\.gguf\<close> on the last path component, read from the right:
  the suffix, the digits of the total, \<open>-of-\<close>, the digits of the index, a dash, a base that is
  not empty. Names hold no line breaks.
\<close>

definition is_digit :: "char \<Rightarrow> bool" where
  "is_digit c \<longleftrightarrow> 48 \<le> (of_char c :: nat) \<and> (of_char c :: nat) \<le> 57"

definition digits_value :: "string \<Rightarrow> nat" where
  "digits_value = foldl (\<lambda>n c. 10 * n + (of_char c - 48)) 0"

definition strip_prefix :: "'a list \<Rightarrow> 'a list \<Rightarrow> 'a list option" where
  "strip_prefix p xs = (if take (length p) xs = p then Some (drop (length p) xs) else None)"

definition base_name :: "string \<Rightarrow> string" where
  "base_name s = rev (takeWhile (\<lambda>c. c \<noteq> CHR ''/'') (rev s))"

definition split_part :: "string \<Rightarrow> (string \<times> nat \<times> nat) option" where
  "split_part s =
     (case strip_prefix (rev ''.gguf'') (rev s) of
        None \<Rightarrow> None
      | Some r \<Rightarrow>
          let total = takeWhile is_digit r in
          (case strip_prefix (rev ''-of-'') (dropWhile is_digit r) of
             None \<Rightarrow> None
           | Some r2 \<Rightarrow>
               let idx = takeWhile is_digit r2 in
               (case strip_prefix (rev ''-'') (dropWhile is_digit r2) of
                  None \<Rightarrow> None
                | Some base \<Rightarrow>
                    if total = [] \<or> idx = [] \<or> base = [] then None
                    else Some (rev base, digits_value (rev idx), digits_value (rev total)))))"

definition part_index :: "string \<Rightarrow> nat option" where
  "part_index name = map_option (\<lambda>(_, i, _). i) (split_part (base_name name))"

text \<open>\<open>sort_key\<close>: by part index, then by name; Python compares strings by code points.\<close>

definition part_key :: "string \<Rightarrow> nat \<times> nat list" where
  "part_key name = ((case part_index name of None \<Rightarrow> 0 | Some i \<Rightarrow> i), map of_char name)"

definition sort_parts :: "string list \<Rightarrow> string list" where
  "sort_parts names = order_by part_key names"

text \<open>\<open>filenames[0]\<close> of an empty list raises IndexError.\<close>

fun pick_primary_filename :: "string list \<Rightarrow> exn + string" where
  "pick_primary_filename [] = Inl (OtherError ''IndexError'')"
| "pick_primary_filename (n # ns) =
     (case find (\<lambda>x. part_index x = Some 1) (n # ns) of None \<Rightarrow> Inr n | Some x \<Rightarrow> Inr x)"

section \<open>Constants\<close>

definition START_DISPATCH_TIMEOUT :: time where "START_DISPATCH_TIMEOUT = seconds 900"
definition READY_TIMEOUT :: time where "READY_TIMEOUT = seconds 900"
definition UNHEALTHY_RECOVERY_TIMEOUT :: time where "UNHEALTHY_RECOVERY_TIMEOUT = seconds 30"

section \<open>The gated start and its acknowledgement\<close>

text \<open>Whether \<open>_send_start_with_gate\<close> contacts the agent; otherwise it returns an empty dict.\<close>

definition start_gate :: "server_status set \<Rightarrow> uuid \<Rightarrow> int \<Rightarrow> db \<Rightarrow> bool" where
  "start_gate permitted i gen d =
     (case get_server d i of
        None \<Rightarrow> False
      | Some s \<Rightarrow> srv_status s \<in> permitted \<and> srv_slot_generation s = gen)"

record start_response =
  sr_port :: "string option"
  sr_engine_port :: "string option"
  sr_generation :: "int option"
  sr_capacity :: "int option"

definition empty_response :: start_response where
  "empty_response = \<lparr>sr_port = None, sr_engine_port = None, sr_generation = None, sr_capacity = None\<rparr>"

text \<open>The agent's answer to a start: a response, a lost connection, or any other failure.\<close>

datatype start_reply = Started start_response | ConnectionLost string | StartFailed string

definition send_start_with_gate ::
  "server_status set \<Rightarrow> uuid \<Rightarrow> int \<Rightarrow> start_reply \<Rightarrow> db \<Rightarrow> start_reply" where
  "send_start_with_gate permitted i gen reply d =
     (if start_gate permitted i gen d then reply else Started empty_response)"

definition start_ack_tx :: "time \<Rightarrow> uuid \<Rightarrow> int \<Rightarrow> start_response \<Rightarrow> db \<Rightarrow> db" where
  "start_ack_tx now i gen r d =
     (case get_server d i of
        None \<Rightarrow> d
      | Some s \<Rightarrow>
          if srv_status s \<in> {SrvStarting, SrvRunning} \<and> srv_slot_generation s = gen \<and>
             (sr_generation r = None \<or> sr_generation r = Some gen)
          then put_server (s\<lparr>srv_status := SrvRunning, srv_health := HHealthy,
                 srv_started_at := (case srv_started_at s of None \<Rightarrow> Some now | Some t \<Rightarrow> Some t),
                 srv_effective_capacity := (case sr_capacity r of
                     None \<Rightarrow> srv_effective_capacity s | Some c \<Rightarrow> Some (max c 1)),
                 srv_config_port := (case sr_port r of None \<Rightarrow> srv_config_port s | Some p \<Rightarrow> Some p),
                 srv_config_engine_port := (case (sr_port r, sr_engine_port r) of
                     (Some _, Some q) \<Rightarrow> Some q | _ \<Rightarrow> srv_config_engine_port s)\<rparr>) d
          else d)"

definition start_lost_tx :: "string \<Rightarrow> uuid \<Rightarrow> int \<Rightarrow> db \<Rightarrow> db" where
  "start_lost_tx err i gen d =
     (case get_server d i of
        None \<Rightarrow> d
      | Some s \<Rightarrow>
          if srv_slot_generation s = gen \<and> srv_status s = SrvStarting
          then put_server (s\<lparr>srv_status := SrvStarting, srv_health := HUnknown,
                 srv_error_message := Some err\<rparr>) d
          else d)"

definition start_failed_tx :: "string \<Rightarrow> uuid \<Rightarrow> int \<Rightarrow> db \<Rightarrow> db" where
  "start_failed_tx err i gen d =
     (case get_server d i of
        None \<Rightarrow> d
      | Some s \<Rightarrow>
          if srv_slot_generation s = gen \<and> srv_status s = SrvStarting
          then put_server (s\<lparr>srv_status := SrvError, srv_error_message := Some err\<rparr>) d
          else d)"

text \<open>\<open>dispatch_start\<close>: \<open>env\<close> is what happens while the agent is asked.\<close>

definition dispatch_start :: "time \<Rightarrow> uuid \<Rightarrow> int \<Rightarrow> start_reply \<Rightarrow> (db \<Rightarrow> db) \<Rightarrow> db \<Rightarrow> db" where
  "dispatch_start now i gen reply env d =
     (case send_start_with_gate {SrvStarting} i gen reply d of
        Started r \<Rightarrow> start_ack_tx now i gen r (env d)
      | ConnectionLost err \<Rightarrow> start_lost_tx err i gen (env d)
      | StartFailed err \<Rightarrow> start_failed_tx err i gen (env d))"

section \<open>Initialization\<close>

definition begin_initialization :: "uuid \<Rightarrow> db \<Rightarrow> int option \<times> db" where
  "begin_initialization i d =
     (case get_server d i of
        None \<Rightarrow> (None, d)
      | Some s \<Rightarrow> (Some (srv_slot_generation s + 1),
          put_server (s\<lparr>srv_slot_generation := srv_slot_generation s + 1\<rparr>) d))"

definition set_init_status :: "server_status \<Rightarrow> string option \<Rightarrow> uuid \<Rightarrow> db \<Rightarrow> db" where
  "set_init_status st err i d =
     (case get_server d i of
        None \<Rightarrow> d
      | Some s \<Rightarrow> put_server (s\<lparr>srv_status := st, srv_health := HUnknown, srv_error_message := err\<rparr>) d)"

definition persist_flash_ports :: "string option \<Rightarrow> string option \<Rightarrow> uuid \<Rightarrow> db \<Rightarrow> db" where
  "persist_flash_ports port engine_port i d =
     (case (port, engine_port) of
        (Some p, Some q) \<Rightarrow>
          (case get_server d i of
             None \<Rightarrow> d
           | Some s \<Rightarrow> put_server (s\<lparr>srv_config_port := Some p, srv_config_engine_port := Some q\<rparr>) d)
      | _ \<Rightarrow> d)"

definition finish_initialization :: "string \<Rightarrow> uuid \<Rightarrow> db \<Rightarrow> db" where
  "finish_initialization metadata i d =
     (case get_server d i of
        None \<Rightarrow> d
      | Some s \<Rightarrow> put_server (s\<lparr>srv_metadata := Some metadata, srv_status := SrvStopped,
          srv_health := HUnknown, srv_error_message := None\<rparr>) d)"

text \<open>
  The answers of the agent during an initialization: the error of the preparation and of the
  stop, the answer to the start, and to the metadata query an error, or the list of items with
  None for an item that is no object; \<open>ia_env n\<close> is what others do before transaction \<open>n\<close>.
\<close>

record init_answers =
  ia_prepare :: "string option"
  ia_start :: start_reply
  ia_metadata :: "string + string option list"
  ia_stop :: "string option"
  ia_env :: "nat \<Rightarrow> db \<Rightarrow> db"

definition init_metadata :: "init_answers \<Rightarrow> string + string" where
  "init_metadata a = (case ia_metadata a of
     Inl e \<Rightarrow> Inl e
   | Inr [] \<Rightarrow> Inl ''Server returned no model metadata''
   | Inr (None # _) \<Rightarrow> Inl ''Server returned invalid model metadata''
   | Inr (Some m # _) \<Rightarrow> Inr m)"

text \<open>The body of the \<open>try\<close>: the metadata or the error, and the database.\<close>

definition init_body :: "init_answers \<Rightarrow> uuid \<Rightarrow> int \<Rightarrow> bool \<Rightarrow> db \<Rightarrow> (string + string) \<times> db" where
  "init_body a i gen flash d =
     (case ia_prepare a of
        Some e \<Rightarrow> (Inl e, d)
      | None \<Rightarrow>
          let d1 = set_init_status SrvMetadataGathering None i (ia_env a 2 d) in
          (case send_start_with_gate {SrvMetadataGathering} i gen (ia_start a) (ia_env a 3 d1) of
             Started r \<Rightarrow>
               (init_metadata a,
                let d2 = ia_env a 4 (ia_env a 3 d1) in
                if flash then persist_flash_ports (sr_port r) (sr_engine_port r) i d2 else d2)
           | ConnectionLost e \<Rightarrow> (Inl e, ia_env a 3 d1)
           | StartFailed e \<Rightarrow> (Inl e, ia_env a 3 d1)))"

text \<open>\<open>a or b or c\<close> of two nullable texts and a default.\<close>

definition or_text :: "string option \<Rightarrow> string option \<Rightarrow> string \<Rightarrow> string" where
  "or_text a b c = (if a \<noteq> None \<and> a \<noteq> Some '''' then the a
     else if b \<noteq> None \<and> b \<noteq> Some '''' then the b else c)"

definition init_final :: "string + string \<Rightarrow> string option \<Rightarrow> uuid \<Rightarrow> db \<Rightarrow> db" where
  "init_final metadata stop_error i d =
     (case (metadata, stop_error) of
        (Inr m, None) \<Rightarrow> finish_initialization m i d
      | _ \<Rightarrow> set_init_status SrvInitializationFailed
          (Some (or_text stop_error (case metadata of Inl e \<Rightarrow> Some e | Inr _ \<Rightarrow> None)
             ''Metadata gathering failed'')) i d)"

definition initialize_server :: "init_answers \<Rightarrow> uuid \<Rightarrow> bool \<Rightarrow> db \<Rightarrow> db" where
  "initialize_server a i flash d0 =
     (case begin_initialization i d0 of
        (None, d1) \<Rightarrow> d1
      | (Some gen, d1) \<Rightarrow>
          let d2 = set_init_status SrvPreparing None i (ia_env a 1 d1);
              (metadata, d3) = init_body a i gen flash d2
          in init_final metadata (ia_stop a) i (ia_env a 5 d3))"

section \<open>Waiting until ready\<close>

text \<open>One poll: None to go on, else the result. The messages leave out the server's UUID.\<close>

definition ready_poll :: "time \<Rightarrow> time \<Rightarrow> uuid \<Rightarrow> db \<Rightarrow> (string + server_row) option" where
  "ready_poll deadline clock i d =
     (case get_server d i of
        None \<Rightarrow> Some (Inl ''Server instance no longer exists'')
      | Some s \<Rightarrow>
          if srv_status s = SrvRunning \<and> srv_health s = HHealthy then Some (Inr s)
          else if srv_status s = SrvError then
            Some (Inl (case srv_error_message s of None \<Rightarrow> ''Server failed to start''
              | Some m \<Rightarrow> if m = '''' then ''Server failed to start'' else m))
          else if deadline < clock then Some (Inl ''Server did not become healthy'')
          else None)"

text \<open>
  The loop over its polls, each with the loop clock and the database it reads; None when the
  polls run out before the loop returns.
\<close>

fun wait_until_ready :: "time \<Rightarrow> uuid \<Rightarrow> (time \<times> db) list \<Rightarrow> (string + server_row) option" where
  "wait_until_ready deadline i [] = None"
| "wait_until_ready deadline i ((clock, d) # ps) =
     (case ready_poll deadline clock i d of Some r \<Rightarrow> Some r | None \<Rightarrow> wait_until_ready deadline i ps)"

section \<open>ensure_server_ready\<close>

text \<open>What the first look at the row decides.\<close>

datatype ready_plan = ReadyNow server_row | NotReady string | WaitFor time | StartIt

definition ready_check :: "bool \<Rightarrow> time \<Rightarrow> uuid \<Rightarrow> db \<Rightarrow> ready_plan" where
  "ready_check benchmark start_timeout i d =
     (if benchmark then NotReady ''Servers are unavailable while a benchmark is running''
      else case get_server d i of
        None \<Rightarrow> NotReady ''Server no longer exists''
      | Some s \<Rightarrow>
          if srv_status s = SrvRunning \<and> srv_health s = HHealthy then ReadyNow s
          else if srv_status s = SrvError then
            NotReady (case srv_error_message s of None \<Rightarrow> ''Server failed to start''
              | Some m \<Rightarrow> if m = '''' then ''Server failed to start'' else m)
          else if srv_status s \<in> {SrvUninitialized, SrvPreparing, SrvMetadataGathering, SrvInitializationFailed}
          then NotReady ''Server must complete initialization before it can be started''
          else if srv_status s \<in> {SrvStarting, SrvRunning}
          then WaitFor (if srv_health s = HUnhealthy then UNHEALTHY_RECOVERY_TIMEOUT else start_timeout)
          else StartIt)"

text \<open>The locked transaction: join a startup that won the race, or begin one.\<close>

datatype start_decision = Joined | Dispatch uuid int

definition ready_start_tx :: "uuid \<Rightarrow> db \<Rightarrow> (string + start_decision) \<times> db" where
  "ready_start_tx i d =
     (case get_server d i of
        None \<Rightarrow> (Inl ''Server instance no longer exists'', d)
      | Some s \<Rightarrow>
          (case (get_agent d (srv_agent_id s), get_model d (srv_model_id s)) of
             (Some a, Some m) \<Rightarrow>
               if srv_status s \<in> {SrvStarting, SrvRunning} then (Inr Joined, d)
               else if ag_status a \<noteq> ''online''
               then (Inl (''Agent '' @ ag_name a @ '' is '' @ ag_status a), d)
               else (Inr (Dispatch (ag_id a) (srv_slot_generation s + 1)),
                 put_server (s\<lparr>srv_slot_generation := srv_slot_generation s + 1,
                   srv_status := SrvStarting, srv_health := HUnknown, srv_started_at := None,
                   srv_error_message := None\<rparr>) d)
           | _ \<Rightarrow> (Inl ''Server instance, agent, or model no longer exists'', d)))"

fun startup_result :: "string + server_row \<Rightarrow> exn + server_row" where
  "startup_result (Inl m) = Inl (ServerStartupError m)"
| "startup_result (Inr s) = Inr s"

lemma startup_result_Inr [simp]: "startup_result r = Inr s \<longleftrightarrow> r = Inr s"
  by (cases r) simp_all

text \<open>
  The whole: \<open>env\<close> is what others do between the first look and the transaction, \<open>now\<close> the loop
  clock when a wait begins, and \<open>polls\<close> the states that wait sees (the dispatched start, a task
  of its own, acts there). The result is None when the polls run out; with it come the start
  dispatched, if any, and the database after the transaction.
\<close>

definition ensure_server_ready ::
  "bool \<Rightarrow> time \<Rightarrow> (db \<Rightarrow> db) \<Rightarrow> time \<Rightarrow> (time \<times> db) list \<Rightarrow> uuid \<Rightarrow> db
     \<Rightarrow> (exn + server_row) option \<times> (uuid \<times> int) option \<times> db" where
  "ensure_server_ready benchmark start_timeout env now polls i d =
     (let wait = (\<lambda>timeout. map_option startup_result (wait_until_ready (now + timeout) i polls))
      in case ready_check benchmark start_timeout i d of
           ReadyNow s \<Rightarrow> (Some (Inr s), None, d)
         | NotReady m \<Rightarrow> (Some (Inl (ServerStartupError m)), None, d)
         | WaitFor timeout \<Rightarrow> (wait timeout, None, d)
         | StartIt \<Rightarrow>
             (case ready_start_tx i (env d) of
                (Inl m, d') \<Rightarrow> (Some (Inl (ServerStartupError m)), None, d')
              | (Inr Joined, d') \<Rightarrow> (wait start_timeout, None, d')
              | (Inr (Dispatch agent gen), d') \<Rightarrow> (wait start_timeout, Some (agent, gen), d')))"

section \<open>Every transaction keeps both contracts\<close>

lemma evolves_start_ack [evolve_intros]: "evolves d (start_ack_tx now i gen r d)"
  by (auto simp: start_ack_tx_def intro: evolves_put_server split: option.split)

lemma evolves_start_lost [evolve_intros]: "evolves d (start_lost_tx err i gen d)"
  by (auto simp: start_lost_tx_def intro: evolves_put_server split: option.split)

lemma evolves_start_failed [evolve_intros]: "evolves d (start_failed_tx err i gen d)"
  by (auto simp: start_failed_tx_def intro: evolves_put_server split: option.split)

lemma evolves_begin_init [evolve_intros]: "evolves d (snd (begin_initialization i d))"
  by (auto simp: begin_initialization_def intro: evolves_put_server split: option.split)

lemma evolves_init_status [evolve_intros]: "evolves d (set_init_status st err i d)"
  by (auto simp: set_init_status_def intro: evolves_put_server split: option.split)

lemma evolves_flash_ports [evolve_intros]: "evolves d (persist_flash_ports p q i d)"
  by (auto simp: persist_flash_ports_def intro: evolves_put_server split: option.split)

lemma evolves_finish_init [evolve_intros]: "evolves d (finish_initialization m i d)"
  by (auto simp: finish_initialization_def intro: evolves_put_server split: option.split)

lemma evolves_ready_start [evolve_intros]: "evolves d (snd (ready_start_tx i d))"
  by (auto simp: ready_start_tx_def intro: evolves_put_server split: option.split)

lemma forward_startup [forward_intros]:
  "server_forward d (start_ack_tx now i gen r d)"
  "server_forward d (start_lost_tx err i gen d)"
  "server_forward d (start_failed_tx err i gen d)"
  "server_forward d (snd (begin_initialization i d))"
  "server_forward d (set_init_status st e i d)"
  "server_forward d (persist_flash_ports p q i d)"
  "server_forward d (finish_initialization m i d)"
  "server_forward d (snd (ready_start_tx i d))"
  by (auto simp: start_ack_tx_def start_lost_tx_def start_failed_tx_def begin_initialization_def
      set_init_status_def persist_flash_ports_def finish_initialization_def ready_start_tx_def
      intro!: server_forward_put split: option.split)

section \<open>Properties\<close>

lemma wait_until_ready_serving:
  "wait_until_ready deadline i ps = Some (Inr s) \<Longrightarrow> serving s \<and> srv_id s = i"
proof (induction ps)
  case (Cons p ps)
  obtain clock d where p: "p = (clock, d)" by fastforce
  show ?case
  proof (cases "ready_poll deadline clock i d")
    case None
    with Cons p show ?thesis by simp
  next
    case (Some r)
    with Cons.prems p show ?thesis
      using get_server_in by (auto simp: ready_poll_def serving_def split: option.splits if_splits)
  qed
qed simp

text \<open>
  Only a serving server is ready. Whatever it finds, waits for or starts,
  \<open>ensure_server_ready\<close> returns no server but the requested one, and only in a state in which
  its row was running and healthy; every other outcome is an error or waiting on.
\<close>

theorem ready_is_serving:
  assumes "ensure_server_ready b timeout env now polls i d = (Some (Inr s), start, d')"
  shows "serving s \<and> srv_id s = i"
proof (cases "ready_check b timeout i d")
  case (ReadyNow t)
  then have "get_server d i = Some t \<and> serving t"
    by (auto simp: ready_check_def serving_def split: option.splits if_splits)
  with assms ReadyNow get_server_in show ?thesis by (auto simp: ensure_server_ready_def Let_def)
next
  case (NotReady m)
  with assms show ?thesis by (simp add: ensure_server_ready_def Let_def)
next
  case (WaitFor w)
  with assms have "wait_until_ready (now + w) i polls = Some (Inr s)"
    by (auto simp: ensure_server_ready_def Let_def split: sum.splits)
  then show ?thesis by (rule wait_until_ready_serving)
next
  case StartIt
  obtain r e where t: "ready_start_tx i (env d) = (r, e)" by fastforce
  from StartIt assms have "wait_until_ready (now + timeout) i polls = Some (Inr s)"
    by (cases r; auto simp: ensure_server_ready_def Let_def t split: sum.splits start_decision.splits)
  then show ?thesis by (rule wait_until_ready_serving)
qed

lemma ready_start_dispatch:
  assumes "ready_start_tx i d = (Inr (Dispatch agent gen), d')"
  obtains s where "get_server d i = Some s" "gen = srv_slot_generation s + 1"
    "srv_status s \<notin> {SrvStarting, SrvRunning}" "srv_agent_id s = agent"
    "get_server d' i = Some (s\<lparr>srv_slot_generation := gen, srv_status := SrvStarting,
       srv_health := HUnknown, srv_started_at := None, srv_error_message := None\<rparr>)"
proof -
  from assms obtain s a m where s: "get_server d i = Some s" "get_agent d (srv_agent_id s) = Some a"
    "get_model d (srv_model_id s) = Some m" "srv_status s \<notin> {SrvStarting, SrvRunning}"
    by (auto simp: ready_start_tx_def split: option.splits if_splits)
  moreover have "ag_id a = srv_agent_id s" using s(2) unfolding get_agent_def by (auto dest: first_row_filterD)
  ultimately show thesis
    using assms get_server_in [OF s(1)]
    by (intro that [of s]) (auto simp: ready_start_tx_def get_server_put_server split: if_splits)
qed

text \<open>
  Parallel requests share one startup. Once one request's transaction has begun a
  start, under the next generation, no other call of \<open>ensure_server_ready\<close> for the server
  dispatches a second one or writes anything, however the calls interleave, as long as the row
  is still starting or has come up running.
\<close>

theorem one_start_dispatched:
  assumes "ready_start_tx i d = (Inr (Dispatch agent gen), d1)"
    and "get_server d2 i = Some s2" "srv_status s2 \<in> {SrvStarting, SrvRunning}"
    and "ensure_server_ready b timeout (\<lambda>_. d2) now polls i d0 = (res, start, d3)"
  shows "start = None \<and> (d3 = d2 \<or> d3 = d0) \<and>
    (\<exists>s s1. get_server d i = Some s \<and> get_server d1 i = Some s1 \<and> srv_status s1 = SrvStarting \<and>
       srv_slot_generation s1 = srv_slot_generation s + 1 \<and> gen = srv_slot_generation s1)"
proof -
  have "snd (ready_start_tx i d2) = d2 \<and> (\<forall>a g. fst (ready_start_tx i d2) \<noteq> Inr (Dispatch a g))"
    using assms(2,3) by (auto simp: ready_start_tx_def split: option.splits)
  then have "start = None \<and> (d3 = d2 \<or> d3 = d0)"
    using assms(4)
    by (auto simp: ensure_server_ready_def Let_def
        split: ready_plan.splits sum.splits start_decision.splits prod.splits)
  moreover obtain s where "get_server d i = Some s" "gen = srv_slot_generation s + 1"
    "get_server d1 i = Some (s\<lparr>srv_slot_generation := gen, srv_status := SrvStarting,
       srv_health := HUnknown, srv_started_at := None, srv_error_message := None\<rparr>)"
    using assms(1) by (blast elim: ready_start_dispatch)
  ultimately show ?thesis by simp
qed

text \<open>
  A late start answer is fenced. If, while the agent was asked to start a generation,
  the server moved on to another one, or the row is gone, the answer, whatever it is, changes
  nothing; and an answer never takes a server that is stopping, stopped or failed back up.
\<close>

theorem late_start_answer_fenced:
  assumes "case get_server (env d) i of None \<Rightarrow> True
    | Some s \<Rightarrow> srv_slot_generation s \<noteq> gen \<or> srv_status s \<notin> {SrvStarting, SrvRunning}"
  shows "dispatch_start now i gen reply env d = env d"
  using assms
  by (auto simp: dispatch_start_def start_ack_tx_def start_lost_tx_def start_failed_tx_def
      split: start_reply.splits option.splits)

lemma init_final_row:
  "get_server (init_final metadata stop_error i d) i = Some s \<Longrightarrow>
   srv_status s = (case (metadata, stop_error) of (Inr m, None) \<Rightarrow> SrvStopped | _ \<Rightarrow> SrvInitializationFailed)"
  using get_server_in [of d i]
  by (auto simp: init_final_def finish_initialization_def set_init_status_def get_server_put_server
      split: sum.splits option.splits)

text \<open>
  An initialization settles. However the agent answers at each step, and whatever
  others do meanwhile, the server does not stay preparing or gathering metadata: if its row
  still exists it ends stopped, exactly when metadata arrived and the process could be
  stopped, or marked as failed to initialize.
\<close>

theorem initialization_settles:
  assumes "get_server d i = Some s0" "get_server (initialize_server a i flash d) i = Some s"
  shows "srv_status s = SrvStopped \<or> srv_status s = SrvInitializationFailed"
proof -
  have "\<exists>m se e. initialize_server a i flash d = init_final m se i e"
    using assms(1) by (auto simp: initialize_server_def begin_initialization_def Let_def split_beta)
  with assms(2) init_final_row show ?thesis by (fastforce split: sum.splits option.splits)
qed

lemma strip_prefix_append [simp]: "strip_prefix p (p @ xs) = Some xs"
  by (simp add: strip_prefix_def)

lemma span_digits:
  assumes "\<forall>c\<in>set ds. is_digit c" "\<not> is_digit c"
  shows "takeWhile is_digit (rev ds @ c # xs) = rev ds" "dropWhile is_digit (rev ds @ c # xs) = c # xs"
proof -
  have all: "\<And>x. x \<in> set (rev ds) \<Longrightarrow> is_digit x" using assms(1) by simp
  show "takeWhile is_digit (rev ds @ c # xs) = rev ds"
    using takeWhile_append2 [of "rev ds" is_digit "c # xs", OF all] assms(2) by simp
  show "dropWhile is_digit (rev ds @ c # xs) = c # xs"
    using dropWhile_append2 [of "rev ds" is_digit "c # xs", OF all] assms(2) by simp
qed

lemma split_part_parts:
  assumes "base \<noteq> []" "idx \<noteq> []" "tot \<noteq> []" "\<forall>c\<in>set idx. is_digit c" "\<forall>c\<in>set tot. is_digit c"
  shows "split_part (base @ ''-'' @ idx @ ''-of-'' @ tot @ ''.gguf'') =
    Some (base, digits_value idx, digits_value tot)"
proof -
  have dash: "\<not> is_digit CHR ''-''" by (simp add: is_digit_def)
  have r: "rev (base @ ''-'' @ idx @ ''-of-'' @ tot @ ''.gguf'') =
    rev ''.gguf'' @ (rev tot @ CHR ''-'' # ''fo'' @ CHR ''-'' # rev idx @ CHR ''-'' # rev base)"
    by simp
  have o: "strip_prefix (rev ''-of-'') (CHR ''-'' # ''fo'' @ CHR ''-'' # rev idx @ CHR ''-'' # rev base) =
    Some (rev idx @ CHR ''-'' # rev base)" by (simp add: strip_prefix_def)
  have b: "strip_prefix (rev ''-'') (CHR ''-'' # rev base) = Some (rev base)"
    by (simp add: strip_prefix_def)
  show ?thesis
    unfolding split_part_def r strip_prefix_append option.case Let_def span_digits [OF assms(5) dash] o
      span_digits [OF assms(4) dash] b
    using assms(1-3) by simp
qed

text \<open>A part's name, with its directory, and its index.\<close>

definition part_name :: "string \<Rightarrow> nat \<Rightarrow> bool" where
  "part_name x n \<longleftrightarrow> (\<exists>dir base idx tot. x = dir @ base @ ''-'' @ idx @ ''-of-'' @ tot @ ''.gguf'' \<and>
     (dir = [] \<or> last dir = CHR ''/'') \<and> CHR ''/'' \<notin> set base \<and> base \<noteq> [] \<and> idx \<noteq> [] \<and> tot \<noteq> [] \<and>
     (\<forall>c\<in>set idx. is_digit c) \<and> (\<forall>c\<in>set tot. is_digit c) \<and> n = digits_value idx)"

lemma part_name_index:
  assumes "part_name x n"
  shows "part_index x = Some n"
proof -
  obtain dir base i t where e: "x = dir @ base @ ''-'' @ i @ ''-of-'' @ t @ ''.gguf''"
    "dir = [] \<or> last dir = CHR ''/''" "CHR ''/'' \<notin> set base" "base \<noteq> []" "i \<noteq> []" "t \<noteq> []"
    "\<forall>c\<in>set i. is_digit c" "\<forall>c\<in>set t. is_digit c" "n = digits_value i"
    using assms unfolding part_name_def by (elim exE conjE) (rule that; assumption)
  let ?f = "base @ ''-'' @ i @ ''-of-'' @ t @ ''.gguf''"
  have "\<not> is_digit CHR ''/''" by (simp add: is_digit_def)
  with e(7,8) have "CHR ''/'' \<notin> set i" "CHR ''/'' \<notin> set t" by blast+
  with e(3) have nos: "\<forall>c\<in>set (rev ?f). c \<noteq> CHR ''/''" by auto
  have "base_name x = ?f"
  proof (cases "dir = []")
    case True
    with e(1) have "base_name x = rev (takeWhile (\<lambda>c. c \<noteq> CHR ''/'') (rev ?f))"
      by (simp add: base_name_def)
    also have "takeWhile (\<lambda>c. c \<noteq> CHR ''/'') (rev ?f) = rev ?f"
      using nos takeWhile_eq_all_conv [of "\<lambda>c. c \<noteq> CHR ''/''" "rev ?f"] by blast
    finally show ?thesis by simp
  next
    case False
    with e(2) obtain d where "dir = d @ ''/''" by (metis append_butlast_last_id)
    then have x: "rev x = rev ?f @ CHR ''/'' # rev d" using e(1) by simp
    have "takeWhile (\<lambda>c. c \<noteq> CHR ''/'') (rev x) = rev ?f @ takeWhile (\<lambda>c. c \<noteq> CHR ''/'') (CHR ''/'' # rev d)"
      unfolding x by (rule takeWhile_append2) (use nos in blast)
    then show ?thesis by (simp add: base_name_def)
  qed
  with split_part_parts [OF e(4-8)] e(9) show ?thesis by (simp add: part_index_def)
qed

text \<open>
  The primary part of a split model. Given the parts \<open>base-<i>-of-<n>.gguf\<close> of a model
  in any order and with any zero padding, the file passed to the engine is a part with index
  one if there is one, and the parts are downloaded in the order of their indices.
\<close>

theorem primary_part_first:
  assumes "\<forall>x\<in>set names. part_name x (index x)" "first \<in> set names" "index first = 1"
  shows "(\<exists>p\<in>set names. pick_primary_filename (sort_parts names) = Inr p \<and> index p = 1) \<and>
    sorted (map index (sort_parts names)) \<and> mset (sort_parts names) = mset names"
proof -
  have idx: "part_index x = Some (index x)" if "x \<in> set names" for x
    using part_name_index assms(1) that by blast
  have st: "set (sort_parts names) = set names" by (simp add: sort_parts_def order_by_def)
  have "sorted (map part_key (sort_parts names))" by (simp add: sort_parts_def order_by_def)
  then have "sorted (map (\<lambda>x. fst (part_key x)) (sort_parts names))"
    unfolding sorted_map
    by (rule sorted_wrt_mono_rel [rotated]) (auto simp: less_eq_prod_def)
  moreover have "map (\<lambda>x. fst (part_key x)) (sort_parts names) = map index (sort_parts names)"
    using st idx by (intro map_cong) (simp_all add: part_key_def)
  ultimately have srt: "sorted (map index (sort_parts names))" by simp
  have "\<exists>x\<in>set (sort_parts names). part_index x = Some 1"
    using assms(2,3) st idx by auto
  then obtain y where y: "find (\<lambda>x. part_index x = Some 1) (sort_parts names) = Some y"
    by (cases "find (\<lambda>x. part_index x = Some 1) (sort_parts names)") (auto simp: find_None_iff)
  then have "y \<in> set names" "part_index y = Some 1" using st by (auto simp: find_Some_iff)
  moreover have "pick_primary_filename (sort_parts names) = Inr y"
    using y by (cases "sort_parts names") (auto split: if_splits)
  ultimately show ?thesis
    using idx [of y] srt by (auto simp: sort_parts_def order_by_def)
qed

end
