(* ===== verification/System.thy ===== *)
theory System
  imports ReconcileSafety ServerStartup
begin

text \<open>
  The scheduler as a whole: every transaction of the modelled services as one command on the
  database, \<open>exec_cmd\<close>, and the contracts of LeaseMachine and Lifecycle interpreted on it. A
  run of the system is any list of commands, so the facts below hold for every interleaving
  of any number of workers, agents and processes, including commands with stale tickets and
  handles.
\<close>

section \<open>Commands\<close>

datatype db_cmd =
    CQueue uuid string uuid time "uuid option" "uuid option" time
  | CEnsureQueued uuid time
  | CClaim bool time uuid uuid uuid
  | CFinalize time claim_ticket
  | CCleanup time claim_ticket
  | CExpireLease uuid time
  | CCancelQueued uuid time
  | CClearQueue time
  | CRenew time lease_handle
  | CRelease outcome string time lease_handle
  | CMarkCancelled time lease_handle
  | CReconcile time "uuid list" "(uuid \<times> string) list" "uuid list"
  | CStart uuid
  | CStopFence bool string time uuid
  | CStopFailed int string uuid
  | CStopDone int uuid
  | CServerEvent time uuid string server_event
  | CRegister uuid time agent_data
  | CSupervise nat uuid time ws_end supervisor
  | CCleanupAgents int time
  | CReadyStart uuid
  | CStartAck time uuid int start_response
  | CStartLost string uuid int
  | CStartFailed string uuid int
  | CInitBegin uuid
  | CInitStatus server_status "string option" uuid
  | CInitPorts "string option" "string option" uuid
  | CInitDone string uuid

primrec exec_cmd :: "db_cmd \<Rightarrow> db \<Rightarrow> db" where
  "exec_cmd (CQueue i q m e p a t) d = snd (queue_tx i q m e p a t d)"
| "exec_cmd (CEnsureQueued i now) d = snd (ensure_queued i now d)"
| "exec_cmd (CClaim b now a lease server) d = snd (claim_tx b now a lease server d)"
| "exec_cmd (CFinalize now t) d = snd (finalize_tx now t d)"
| "exec_cmd (CCleanup now t) d = cleanup_tx now t d"
| "exec_cmd (CExpireLease i now) d = expire_lease i now d"
| "exec_cmd (CCancelQueued i now) d = cancel_queued i now d"
| "exec_cmd (CClearQueue now) d = snd (clear_queue now d)"
| "exec_cmd (CRenew now h) d = snd (renew_update now h d)"
| "exec_cmd (CRelease out reason now h) d = snd (release_update out reason now h d)"
| "exec_cmd (CMarkCancelled now h) d = snd (mark_cancelled now h d)"
| "exec_cmd (CReconcile now old results deferred) d = snd (snd (reconcile_write now old results deferred d))"
| "exec_cmd (CStart i) d = snd (reserve_server_start i d)"
| "exec_cmd (CStopFence force reason now i) d = snd (stop_fence_tx force reason now i d)"
| "exec_cmd (CStopFailed g err i) d = stop_failed_tx g err i d"
| "exec_cmd (CStopDone g i) d = snd (stop_done_tx g i d)"
| "exec_cmd (CServerEvent now agent ty e) d = handle_server_event now agent ty e d"
| "exec_cmd (CRegister fresh now a) d = snd (snd (register_agent fresh now a d))"
| "exec_cmd (CSupervise m agent now r s) d = snd (supervisor_turn m agent (now, r) (s, d))"
| "exec_cmd (CCleanupAgents off now) d = cleanup_offline_agents off now d"
| "exec_cmd (CReadyStart i) d = snd (ready_start_tx i d)"
| "exec_cmd (CStartAck now i g r) d = start_ack_tx now i g r d"
| "exec_cmd (CStartLost e i g) d = start_lost_tx e i g d"
| "exec_cmd (CStartFailed e i g) d = start_failed_tx e i g d"
| "exec_cmd (CInitBegin i) d = snd (begin_initialization i d)"
| "exec_cmd (CInitStatus st e i) d = set_init_status st e i d"
| "exec_cmd (CInitPorts p q i) d = persist_flash_ports p q i d"
| "exec_cmd (CInitDone m i) d = finish_initialization m i d"

definition run_cmds :: "db_cmd list \<Rightarrow> db \<Rightarrow> db" where
  "run_cmds cs d = fold exec_cmd cs d"

section \<open>The contracts hold of every command\<close>

lemma evolves_cleanup_agents [evolve_intros]: "evolves d (cleanup_offline_agents off now d)"
  by (rule evolves_same_leases) (simp add: cleanup_offline_agents_def)

lemma exec_cmd_evolves: "wf_leases d \<Longrightarrow> evolves d (exec_cmd c d)"
proof (cases c)
  case (CSupervise m agent now r s)
  then show ?thesis using evolves_supervisor_turn [of "(s, d)" m agent "(now, r)"] by simp
qed (simp_all add: evolve_intros)

text \<open>Transactions on leases alone do not touch server rows.\<close>

lemma lease_cmds_servers:
  "db_servers (snd (queue_tx i q m e p a t d)) = db_servers d"
  "db_servers (snd (ensure_queued i now d)) = db_servers d"
  "db_servers (snd (claim_tx b now at lease server d)) = db_servers d"
  "db_servers (snd (finalize_tx now k d)) = db_servers d"
  "db_servers (cleanup_tx now k d) = db_servers d"
  "db_servers (expire_lease i now d) = db_servers d"
  "db_servers (cancel_queued i now d) = db_servers d"
  "db_servers (snd (clear_queue now d)) = db_servers d"
  "db_servers (snd (renew_update now h d)) = db_servers d"
  "db_servers (snd (release_update out reason now h d)) = db_servers d"
  "db_servers (snd (mark_cancelled now h d)) = db_servers d"
  "db_servers (cleanup_offline_agents off now d) = db_servers d"
  by (simp_all add: queue_tx_def Let_def ensure_queued_def claim_tx_def finalize_tx_def cleanup_tx_def
      expire_lease_def cancel_queued_def finish_queued_def clear_queue_def renew_update_def
      release_update_def mark_cancelled_def cleanup_offline_agents_def split: option.splits)

lemma exec_cmd_forward: "wf_servers d \<Longrightarrow> server_forward d (exec_cmd c d)"
proof (cases c)
  case (CSupervise m agent now r s)
  then show ?thesis using forward_supervisor_turn [of "(s, d)" m agent "(now, r)"] by simp
qed (simp_all add: server_forward_same [OF lease_cmds_servers(1)]
    server_forward_same [OF lease_cmds_servers(2)] server_forward_same [OF lease_cmds_servers(3)]
    server_forward_same [OF lease_cmds_servers(4)] server_forward_same [OF lease_cmds_servers(5)]
    server_forward_same [OF lease_cmds_servers(6)] server_forward_same [OF lease_cmds_servers(7)]
    server_forward_same [OF lease_cmds_servers(8)] server_forward_same [OF lease_cmds_servers(9)]
    server_forward_same [OF lease_cmds_servers(10)] server_forward_same [OF lease_cmds_servers(11)]
    server_forward_same [OF lease_cmds_servers(12)] forward_intros)

interpretation sched: scheduler_op exec_cmd
  by unfold_locales (simp_all add: exec_cmd_evolves exec_cmd_forward)

section \<open>Properties of every run\<close>

text \<open>
  Claim C1: an ended request is final. Once a lease row is released, cancelled, expired or
  failed, no run of the system changes any column of it, whatever late finalizations,
  cleanups, renewals, releases or reconciliations the run contains.
\<close>

theorem ended_is_final:
  assumes "wf_leases d" "get_lease d i = Some r" "terminal (ls_status r)"
  shows "get_lease (run_cmds cs d) i = Some r"
  unfolding run_cmds_def by (rule sched.terminal_is_final [OF assms])

text \<open>
  Claim C2: an admitted request keeps its slot. Once a lease is active, in every later state it
  is active or ended, on the same server, under the same generation and attempt: it is never
  queued again, so the request is dispatched under one admission only.
\<close>

theorem admitted_once:
  assumes "wf_leases d" "get_lease d i = Some r" "ls_status r = Active"
  shows "\<exists>r'. get_lease (run_cmds cs d) i = Some r' \<and> admitted_from r r'"
  unfolding run_cmds_def by (rule sched.admitted_stays_admitted [OF assms])

text \<open>
  Claim C11: the tables stay well formed. Every run of the system keeps lease ids distinct, each
  row in the shape its status demands (a queued row holds no slot, a reserving one an attempt
  with a deadline, an active one a start time, an ended one a reason), and the server rows and
  their ids.
\<close>

theorem tables_well_formed:
  assumes "wf_leases d" "wf_servers d"
  shows "wf_leases (run_cmds cs d) \<and> wf_servers (run_cmds cs d)"
  unfolding run_cmds_def using sched.runs_wf [OF assms(1)] sched.runs_wf_servers [OF assms(2)] by simp

text \<open>
  Generations fence for ever. A ticket whose generation is behind its server's never
  activates a lease, in any state any run of the system leads to.
\<close>

theorem past_ticket_never_activates:
  assumes "wf_leases d" "wf_servers d" "get_server d (ct_server t) = Some s"
    and "ct_generation t < srv_slot_generation s"
  shows "finalize_tx now t (run_cmds cs d) = (Inr False, run_cmds cs d)"
  unfolding run_cmds_def by (rule sched.past_generation_never_activates [OF assms])

text \<open>
  A start opens a new generation. When \<open>reserve_server_start\<close> succeeds, the server
  row is starting under a generation one above, and from then on no ticket of an earlier
  generation activates, whatever runs.
\<close>

theorem start_fences_past:
  assumes "wf_leases d" "wf_servers d" "reserve_server_start i d = (Inr s', d')"
    and "ct_server t = i" "ct_generation t < srv_slot_generation s'"
  shows "get_server d' i = Some s' \<and> srv_status s' = SrvStarting \<and>
    fst (finalize_tx now t (run_cmds cs d')) = Inr False"
proof -
  have s': "get_server d' i = Some s'" "srv_status s' = SrvStarting"
    using assms(3) get_server_in
    by (auto simp: reserve_server_start_def Let_def get_server_put_server split: option.splits if_splits)
  have "wf_leases d'" "wf_servers d'"
    using evolves_wf [OF assms(1) evolves_reserve_start] server_forward_wf [OF forward_reserve_start assms(2)]
      assms(3) by (metis snd_conv)+
  from sched.past_generation_never_activates [OF this, of t s' now cs] s' assms(4,5)
  show ?thesis by (simp add: run_cmds_def)
qed

section \<open>Active requests run on serving servers\<close>

text \<open>
  A finalization carries the ticket of its own claim: the row that still holds the attempt is
  on the ticket's server. An initialization runs on a server that is not serving. The registration of an agent is left out: it may write an unhealthy
  state without ending leases, which the next reconciliation does.
\<close>

fun keeps_service :: "db_cmd \<Rightarrow> db \<Rightarrow> bool" where
  "keeps_service (CFinalize now t) d = (case get_lease d (ct_lease t) of None \<Rightarrow> True
     | Some l \<Rightarrow> ls_reservation_id l = Some (ct_attempt t) \<longrightarrow>
         ls_server_instance_id l = Some (ct_server t))"
| "keeps_service (CRegister _ _ _) d = False"
| "keeps_service (CInitStatus _ _ i) d = (case get_server d i of None \<Rightarrow> True | Some s \<Rightarrow> \<not> serving s)"
| "keeps_service (CInitDone _ i) d = (case get_server d i of None \<Rightarrow> True | Some s \<Rightarrow> \<not> serving s)"
| "keeps_service _ d = True"

lemma serving_same_leases:
  "active_on_serving d \<Longrightarrow> db_leases d' = db_leases d \<Longrightarrow> db_servers d' = db_servers d \<Longrightarrow>
   active_on_serving d'"
  by (simp add: active_on_serving_def get_server_def)

lemma serving_put_lease:
  assumes "active_on_serving d" "ls_status r' = Active \<Longrightarrow>
    \<exists>i s. ls_server_instance_id r' = Some i \<and> get_server d i = Some s \<and> serving s"
  shows "active_on_serving (put_lease r' d)"
  unfolding active_on_serving_def put_lease_sel get_server_put_lease
  by (rule all_update_where [OF assms(1) [unfolded active_on_serving_def]]) (use assms(2) in auto)

lemma serving_finish:
  "active_on_serving d \<Longrightarrow> st \<noteq> Active \<Longrightarrow> active_on_serving (update_leases p (finish_row st reason now) d)"
  by (rule active_on_serving_leases) auto

lemma serving_requeue: "active_on_serving d \<Longrightarrow> active_on_serving (update_leases p requeue_row d)"
  by (rule active_on_serving_leases) auto

lemma serving_renew:
  "active_on_serving d \<Longrightarrow> active_on_serving (update_leases p (renew_row e) d)"
  by (rule active_on_serving_leases) (auto simp: renew_row_def)

lemmas serving_writes = serving_finish serving_requeue serving_renew

lemma serving_queue_tx: "active_on_serving d \<Longrightarrow> active_on_serving (snd (queue_tx i q m e p a t d))"
  by (auto simp: queue_tx_def Let_def active_on_serving_def get_server_def new_lease_def)

lemma serving_claim_tx:
  assumes "active_on_serving d"
  shows "active_on_serving (snd (claim_tx b now a lease server d))"
proof -
  obtain res d' where e: "claim_tx b now a lease server d = (res, d')" by fastforce
  then show ?thesis
  proof (cases rule: claim_tx_cases)
    case refused
    with e assms show ?thesis by simp
  next
    case (reserved s l)
    with e assms show ?thesis by (auto simp: reserve_row_def intro!: serving_put_lease)
  qed
qed

lemma serving_finalize_tx:
  assumes "active_on_serving d" "wf_leases d" "keeps_service (CFinalize now t) d"
  shows "active_on_serving (snd (finalize_tx now t d))"
proof -
  obtain res d' where e: "finalize_tx now t d = (res, d')" by fastforce
  with assms(2) show ?thesis
  proof (cases rule: finalize_tx_cases)
    case refused
    with e assms show ?thesis by simp
  next
    case (activated s l)
    with e assms(1,3) show ?thesis by (auto simp: may_activate_def intro!: serving_put_lease)
  qed
qed

lemma serving_ensure_queued:
  assumes "active_on_serving d" "wf_leases d"
  shows "active_on_serving (snd (ensure_queued i now d))"
proof -
  obtain res d' where e: "ensure_queued i now d = (res, d')" by fastforce
  with assms(2) show ?thesis
  proof (cases rule: ensure_queued_cases)
    case (recovered l x)
    with e assms(1) show ?thesis by (auto intro!: serving_put_lease)
  qed (use e assms(1) in simp_all)
qed

lemma serving_start:
  assumes "active_on_serving d"
  shows "active_on_serving (snd (reserve_server_start i d))"
proof (cases "get_server d i")
  case None
  with assms show ?thesis by (simp add: reserve_server_start_def)
next
  case (Some s)
  with assms get_server_in [OF Some] active_on_serving_put [OF assms Some] show ?thesis
    by (auto simp: reserve_server_start_def Let_def serving_def)
qed

lemma serving_stop_fence:
  assumes "active_on_serving d"
  shows "active_on_serving (snd (stop_fence_tx force reason now i d))"
proof -
  obtain res d' where e: "stop_fence_tx force reason now i d = (res, d')" by fastforce
  show ?thesis
  proof (cases res)
    case (Inl x)
    with e have "d' = d" by (auto simp: stop_fence_tx_def Let_def split: option.splits if_splits)
    with e assms show ?thesis by simp
  next
    case (Inr msg)
    with e obtain s where s: "get_server d i = Some s"
      "db_leases d' = update_where (active_on i) (finish_row Failed reason now) (db_leases d)"
      by (blast elim: stop_fence_cases)
    have sv: "db_servers d' = db_servers (put_server (s\<lparr>srv_status := SrvStopping, srv_health := HUnknown\<rparr>) d)"
      using e Inr s(1) by (auto simp: stop_fence_tx_def Let_def split: if_splits)
    have "srv_id s = i" using get_server_in [OF s(1)] by simp
    then have "active_on_serving (update_leases (active_on i) (finish_row Failed reason now)
        (put_server (s\<lparr>srv_status := SrvStopping, srv_health := HUnknown\<rparr>) d))"
      by (intro active_on_serving_put_fail [OF assms]) simp
    then have "active_on_serving d'" by (rule serving_same_leases) (simp_all add: s(2) sv)
    with e show ?thesis by simp
  qed
qed

lemma serving_put_down:
  assumes "active_on_serving d" "get_server d i = Some s" "srv_id s' = srv_id s" "\<not> serving s"
  shows "active_on_serving (put_server s' d)"
  using active_on_serving_put [OF assms(1,2)] get_server_in [OF assms(2)] assms(3,4) by simp

lemma serving_stop_failed:
  assumes "active_on_serving d"
  shows "active_on_serving (stop_failed_tx g err i d)"
  using assms serving_put_down [OF assms]
  by (auto simp: stop_failed_tx_def serving_def split: option.splits)

lemma serving_stop_done:
  assumes "active_on_serving d"
  shows "active_on_serving (snd (stop_done_tx g i d))"
  using assms serving_put_down [OF assms]
  by (auto simp: stop_done_tx_def Let_def serving_def split: option.splits)

lemma serving_deadlines:
  assumes "active_on_serving d"
  shows "active_on_serving (snd (reconcile_deadlines now old results deferred d))"
  unfolding reconcile_deadlines_def Let_def split_beta snd_conv requeue_abandoned_def
    expire_reservations_def expire_queued_def fail_old_generations_def renew_reported_def finish_reported_def
  by (intro serving_finish serving_renew serving_requeue assms) simp_all

lemma serving_fence_server:
  assumes "active_on_serving (snd acc)"
  shows "active_on_serving (snd (fence_server now i acc))"
proof -
  obtain stops d where acc: "acc = (stops, d)" by fastforce
  show ?thesis
  proof (cases "get_server d i")
    case None
    with assms acc show ?thesis by (simp add: fence_server_def)
  next
    case (Some s)
    let ?d = "update_leases (failure_update now s)
      (finish_row Failed ''lease_expired_or_server_unavailable'' now) d"
    have "active_on_serving ?d" using assms acc by (simp add: serving_finish)
    from this serving_put_down [OF this, of i s "s\<lparr>srv_status := SrvStopping\<rparr>"] Some
    show ?thesis by (simp add: fence_server_def acc Let_def)
  qed
qed

lemma serving_reconcile:
  assumes "active_on_serving d"
  shows "active_on_serving (snd (snd (reconcile_write now old results deferred d)))"
proof -
  have "active_on_serving (snd (fold (fence_server now) ks acc))" if "active_on_serving (snd acc)" for ks acc
    using that by (induction ks arbitrary: acc) (simp_all add: serving_fence_server)
  then show ?thesis
    unfolding reconcile_write_def reconcile_stale_def fail_missing_def Let_def split_beta snd_conv
    by (intro serving_finish) (simp_all add: serving_deadlines assms)
qed

lemma serving_mark_unavailable:
  assumes "active_on_serving d" "wf_servers d"
  shows "active_on_serving (mark_agent_servers_unavailable now agent d)"
proof -
  let ?d = "mark_agent_servers_unavailable now agent d"
  let ?ids = "map srv_id (filter (\<lambda>s. srv_agent_id s = agent \<and>
    srv_status s \<in> {SrvStarting, SrvRunning}) (db_servers d))"
  have same: "get_server ?d i = get_server d i" if "i \<notin> set ?ids" for i
  proof (cases "?ids = []")
    case False
    then have "get_server ?d i = get_server (update_servers (\<lambda>s. srv_id s \<in> set ?ids)
        (\<lambda>s. s\<lparr>srv_status := SrvStopped, srv_health := HUnknown\<rparr>) d) i"
      unfolding mark_agent_servers_unavailable_def Let_def get_server_def by simp
    also have "\<dots> = map_option (\<lambda>r. if srv_id r \<in> set ?ids
        then r\<lparr>srv_status := SrvStopped, srv_health := HUnknown\<rparr> else r) (get_server d i)"
      by (rule get_server_update_servers) simp
    also have "\<dots> = get_server d i"
      using that by (cases "get_server d i") (auto dest: get_server_in)
    finally show ?thesis .
  qed (simp add: mark_agent_servers_unavailable_def)
  show ?thesis
    unfolding active_on_serving_def
  proof (intro ballI impI)
    fix r
    assume r: "r \<in> set (db_leases ?d)" "ls_status r = Active"
    have old: "\<forall>r\<in>set (db_leases (fold (invalidate_server_leases now) js e)). ls_status r = Active \<longrightarrow>
        r \<in> set (db_leases d)" if "\<forall>r\<in>set (db_leases e). ls_status r = Active \<longrightarrow> r \<in> set (db_leases d)" for js e
      using that
    proof (induction js arbitrary: e)
      case (Cons j js)
      have "\<forall>r\<in>set (db_leases (invalidate_server_leases now j e)). ls_status r = Active \<longrightarrow> r \<in> set (db_leases d)"
        unfolding invalidate_server_leases_def update_leases_sel
        by (rule all_update_where [OF Cons.prems]) simp_all
      with Cons.IH show ?case by simp
    qed simp
    have "r \<in> set (db_leases d)"
    proof (cases "?ids = []")
      case True
      with r(1) show ?thesis by (simp add: mark_agent_servers_unavailable_def)
    next
      case False
      let ?e = "update_servers (\<lambda>s. srv_id s \<in> set ?ids)
        (\<lambda>s. s\<lparr>srv_status := SrvStopped, srv_health := HUnknown\<rparr>) d"
      have "?d = fold (invalidate_server_leases now) ?ids ?e"
        using False unfolding mark_agent_servers_unavailable_def Let_def by simp
      with old [of ?e ?ids] r show ?thesis by simp
    qed
    with assms(1) r(2) obtain i s where s: "ls_server_instance_id r = Some i" "get_server d i = Some s"
      "serving s" by (blast elim: active_on_servingD)
    have "i \<notin> set ?ids"
    proof
      assume "i \<in> set ?ids"
      then obtain t where t: "t \<in> set (db_servers d)" "srv_id t = i" "srv_agent_id t = agent"
        "srv_status t \<in> {SrvStarting, SrvRunning}" by auto
      with mark_unavailable_down [of agent d now] r(1) have "\<not> active_on i r"
        unfolding agent_down_def by blast
      with r(2) s(1) show False by (simp add: active_on_def)
    qed
    with s same show "\<exists>i s. ls_server_instance_id r = Some i \<and> get_server ?d i = Some s \<and> serving s"
      by auto
  qed
qed

lemma serving_supervisor_turn:
  assumes "active_on_serving d" "wf_servers d"
  shows "active_on_serving (snd (supervisor_turn m agent (now, r) (s, d)))"
proof -
  note c = supervisor_turn_servers
  have agents: "active_on_serving e \<and> wf_servers e"
    if "db_leases e = db_leases d" "db_servers e = db_servers d" for e
    using serving_same_leases [OF assms(1) that] assms(2) that by (simp add: wf_servers_def)
  then have "active_on_serving (ws_connected now agent d)"
    "active_on_serving (mark_agent_servers_unavailable now agent (set_agent_status st agent d))"
    "active_on_serving (mark_agent_servers_unavailable now agent (set_agent_status st agent (ws_connected now agent d)))"
    for st by (simp_all add: c serving_mark_unavailable)
  then show ?thesis using assms(1) by (cases r) (simp_all add: Let_def)
qed

lemma serving_startup:
  assumes "active_on_serving d"
  shows "active_on_serving (snd (ready_start_tx i d))" "active_on_serving (start_ack_tx now i g r d)"
    "active_on_serving (start_lost_tx err i g d)" "active_on_serving (start_failed_tx err i g d)"
    "active_on_serving (snd (begin_initialization i d))" "active_on_serving (persist_flash_ports p q i d)"
  by (auto simp: ready_start_tx_def start_ack_tx_def start_lost_tx_def start_failed_tx_def
      begin_initialization_def persist_flash_ports_def serving_def assms
      intro!: active_on_serving_put [OF assms] dest: get_server_in split: option.splits)

lemma serving_init:
  assumes "active_on_serving d" "\<And>s. get_server d i = Some s \<Longrightarrow> \<not> serving s"
  shows "active_on_serving (set_init_status st e i d)" "active_on_serving (finish_initialization m i d)"
  using assms by (auto simp: set_init_status_def finish_initialization_def split: option.splits
      intro!: serving_put_down [OF assms(1)])


end
