(* ===== verification/Examples.thy ===== *)
theory Examples
  imports System
begin

text \<open>
  Worked examples of the database side: one small database, a claim, its activation, a
  reconciliation and the events of an agent, at which the general theorems of the scheduler
  are applied; and the run that shows what the capacity test of a claim does not cover.
\<close>

section \<open>A small database\<close>

definition ex_server :: server_row where
  "ex_server = \<lparr>srv_id = 0, srv_model_id = 10, srv_mmproj_model_id = None,
     srv_dflash_model_id = None, srv_alias = ''chat'', srv_engine = ''llamacpp'',
     srv_npu_models = [], srv_status = SrvRunning, srv_health = HHealthy,
     srv_started_at = Some 0, srv_last_request_at = None, srv_last_health_check = None,
     srv_slot_generation = 3, srv_effective_capacity = Some 1, srv_vram_required_bytes = None,
     srv_error_message = None, srv_config_port = None, srv_config_engine_port = None,
     srv_metadata = None, srv_agent_id = 20\<rparr>"

definition ex_lease :: "uuid \<Rightarrow> string \<Rightarrow> time \<Rightarrow> lease_row" where
  "ex_lease i q t = \<lparr>ls_id = i, ls_request_id = q, ls_model_id = 10, ls_server_instance_id = None,
     ls_preferred_server_id = None, ls_required_agent_id = None, ls_status = Queued,
     ls_terminal_reason = None, ls_queued_at = t, ls_started_at = None,
     ls_lease_expires_at = Some (seconds 1800), ls_slot_generation = None,
     ls_reservation_id = None, ls_reservation_expires_at = None, ls_released_at = None\<rparr>"

definition ex_active :: "time \<Rightarrow> lease_row" where
  "ex_active e = activate_row 0 e (reserve_row 0 3 50 (seconds 12) (ex_lease 1 ''a'' 0))"

definition ex_agent :: agent_row where
  "ex_agent = \<lparr>ag_id = 20, ag_name = ''gpu'', ag_platform = ''llamacpp'', ag_type = ''generic'',
     ag_host = ''h'', ag_port = 1, ag_status = ''online'', ag_gpu_id = None,
     ag_last_seen = Some 0, ag_websocket_connected = True\<rparr>"

definition ex_db :: "lease_row list \<Rightarrow> db" where
  "ex_db ls = \<lparr>db_agents = [ex_agent], db_models = [], db_servers = [ex_server], db_leases = ls\<rparr>"

text \<open>Two requests wait, the second one younger.\<close>

definition ex_waiting :: db where
  "ex_waiting = ex_db [ex_lease 2 ''b'' 7, ex_lease 1 ''a'' 5]"

text \<open>One request is active until second 90, another waits.\<close>

definition ex_running :: db where
  "ex_running = ex_db [ex_active (seconds 90), ex_lease 2 ''b'' 7]"

lemma ex_wf:
  "wf_leases ex_waiting" "wf_servers ex_waiting" "wf_leases ex_running" "wf_servers ex_running"
  by code_simp+

section \<open>Admission\<close>

definition ex_ticket :: claim_ticket where
  "ex_ticket = \<lparr>ct_lease = 1, ct_request = ''a'', ct_server = 0, ct_agent = 20,
     ct_generation = 3, ct_attempt = 50\<rparr>"

lemma ex_claim: "fst (claim_tx True (seconds 10) 50 1 0 ex_waiting) = Some ex_ticket"
  by code_simp

lemma ex_claim_pair:
  "claim_tx True (seconds 10) 50 1 0 ex_waiting =
   (Some ex_ticket, snd (claim_tx True (seconds 10) 50 1 0 ex_waiting))"
  by (rule pair_fst [OF ex_claim])

lemma claim_takes_fifo_head_witness:
  "\<exists>s l. get_server ex_waiting 0 = Some s \<and> serving s \<and> l \<in> set (db_leases ex_waiting) \<and>
    ls_id l = 1 \<and> ls_status l = Queued \<and> compatible (seconds 10) s l \<and>
    (\<forall>r\<in>set (db_leases ex_waiting). compatible (seconds 10) s r \<longrightarrow> fifo_key l \<le> fifo_key r)"
  by (rule claim_takes_fifo_head [OF ex_claim_pair])

lemma claim_within_capacity_witness:
  "int (count_leases (occupies (seconds 10) ex_server)
     (snd (claim_tx True (seconds 10) 50 1 0 ex_waiting))) \<le> server_capacity ex_server"
  by (rule claim_within_capacity [OF ex_wf(1) ex_claim_pair]) code_simp

definition ex_reserving :: db where
  "ex_reserving = snd (claim_tx True (seconds 10) 50 1 0 ex_waiting)"

lemma ex_reserving_wf: "wf_leases ex_reserving"
  by code_simp

lemma activation_fenced_witness:
  "finalize_tx (seconds 11) ex_ticket ex_reserving =
   (if \<exists>s l. may_activate (seconds 11) ex_ticket ex_reserving s l
    then (Inr True, put_lease (activate_row (seconds 11) (seconds 11 + seconds ACTIVE_LEASE_TTL_SECONDS)
            (the (get_lease ex_reserving (ct_lease ex_ticket)))) ex_reserving)
    else (Inr False, ex_reserving))"
  by (rule activation_fenced [OF ex_reserving_wf])

text \<open>An attempt whose agent refuses, with nothing else going on.\<close>

definition ex_env :: "reserve_reply \<Rightarrow> attempt_env" where
  "ex_env reply = \<lparr>ae_reply = reply, ae_before_finalize = (\<lambda>d. d), ae_finalize_now = seconds 11,
     ae_finalize_cancelled = False, ae_before_cleanup = (\<lambda>d. d), ae_cleanup_now = seconds 12,
     ae_cleanup_cancelled = False\<rparr>"


section \<open>Lifecycle\<close>

lemma ex_stop:
  "stop_fence_tx True ''stopped'' (seconds 20) 0 ex_running =
   (Inr (StopServer 20 0 3), snd (stop_fence_tx True ''stopped'' (seconds 20) 0 ex_running))"
  by (rule pair_fst) code_simp

lemma stop_fences_admission_witness:
  "count_leases (active_on 0) (snd (stop_fence_tx True ''stopped'' (seconds 20) 0 ex_running)) = 0 \<and>
   finalize_tx (seconds 21) ex_ticket (snd (stop_fence_tx True ''stopped'' (seconds 20) 0 ex_running)) =
     (Inr False, snd (stop_fence_tx True ''stopped'' (seconds 20) 0 ex_running))"
  using stop_fences_admission [OF ex_wf(3) ex_stop] by (simp add: ex_ticket_def)

section \<open>Reconciliation\<close>

text \<open>At second 200 the active lease has lapsed; its agent reports the operation as active.\<close>

definition ex_answer :: "server_row \<Rightarrow> op_report list option" where
  "ex_answer s = Some [\<lparr>or_request = ''a'', or_generation = 3, or_status = ''active''\<rparr>]"

lemma ex_reconciled:
  "reconcile_stale_leases (seconds 200) ex_answer (\<lambda>d. d) ex_running = (0, [],
     snd (snd (reconcile_stale_leases (seconds 200) ex_answer (\<lambda>d. d) ex_running)))"
  by (rule prod_eqI [OF _ prod_eqI]; simp; code_simp)


definition ex_settled :: db where
  "ex_settled = snd (snd (reconcile_write (seconds 200) [] [(1, ''failed'')] [] ex_running))"

lemma ex_settled_eq:
  "reconcile_write (seconds 200) [] [(1, ''failed'')] [] ex_running = (1, [], ex_settled)"
  by (rule prod_eqI [OF _ prod_eqI]; simp add: ex_settled_def; code_simp)

definition ex_failed :: lease_row where
  "ex_failed = finish_row Failed ''agent_operation_failed'' (seconds 200) (ex_active (seconds 90))"


section \<open>Agents\<close>

definition ex_event :: server_event where
  "ex_event = \<lparr>se_server_id = Some 0, se_slot_generation = Some 2, se_effective_capacity = None,
     se_status = None, se_error = None\<rparr>"

lemma late_event_ignored_witness:
  "handle_server_event (seconds 30) 20 ''server.stopped'' ex_event ex_running = ex_running"
proof (rule late_event_ignored [OF ex_wf(4)])
  show "get_server ex_running 0 = Some ex_server" by code_simp
qed (simp_all add: ex_event_def ex_server_def)

text \<open>A registration that reports the server under a past generation.\<close>

definition ex_registration :: agent_data where
  "ex_registration = \<lparr>ad_name = ''gpu'', ad_platform = None, ad_type = None, ad_host = ''h'',
     ad_port = 1, ad_running = [], ad_healthy = None, ad_gpu_id = None,
     ad_statuses = [\<lparr>rp_id = Some 0, rp_status = Some ''running'', rp_health = Some ''healthy'',
       rp_generation = Some 2, rp_capacity = None\<rparr>]\<rparr>"

lemma ex_registered:
  "register_agent 21 (seconds 30) ex_registration ex_running = (20, [StopServer 20 0 2],
     snd (snd (register_agent 21 (seconds 30) ex_registration ex_running)))"
  by (rule prod_eqI [OF _ prod_eqI]; simp; code_simp)

lemma registration_authoritative_witness:
  "\<forall>i g. StopServer 20 i g \<in> set [StopServer 20 0 2] \<longleftrightarrow>
      (\<exists>s x. get_server ex_running i = Some s \<and> srv_agent_id s = 20 \<and>
         reports_of (ad_statuses ex_registration) i = Some x \<and> rp_generation x = Some g \<and>
         g \<noteq> srv_slot_generation s)"
  by (rule registration_authoritative [OF ex_wf(4) _ ex_registered, THEN conjunct2]) code_simp

definition ex_outage :: "(time \<times> ws_end) list" where
  "ex_outage = [(seconds 1, WsConnecting), (seconds 2, WsConnecting), (seconds 3, WsConnecting)]"

lemma outage_fences_agent_witness:
  "agent_down 20 ex_running (snd (supervise 3 20 ex_outage (supervisor_start, ex_running)))"
proof (rule outage_fences_agent)
  show "\<not> sv_marked supervisor_start" by code_simp
  show "sv_failures supervisor_start < 3" "3 \<le> sv_failures supervisor_start + length ex_outage"
    by code_simp+
  show "\<forall>e\<in>set ex_outage. snd e = WsConnecting" by code_simp
  show "supervise 3 20 ex_outage (supervisor_start, ex_running) =
    (fst (supervise 3 20 ex_outage (supervisor_start, ex_running)),
     snd (supervise 3 20 ex_outage (supervisor_start, ex_running)))" by simp
qed

text \<open>
  After a marked outage the agent has reconnected and its server runs a request; then the
  connection is lost and twelve attempts in a row fail.
\<close>

definition ex_second :: "supervisor \<times> db" where
  "ex_second = supervise 3 20 ((seconds 60, WsLost) #
     map (\<lambda>t. (t, WsConnecting)) (map seconds [65, 70, 75, 80, 85, 90, 95, 100, 105, 110, 115, 120]))
     (\<lparr>sv_failures = 3, sv_marked = True\<rparr>, ex_running)"

lemma second_outage_not_fenced_witness:
  "db_servers (snd ex_second) = [ex_server] \<and> db_leases (snd ex_second) = db_leases ex_running \<and>
   sv_marked (fst ex_second)"
proof -
  have "db_servers (snd ex_second) = db_servers ex_running \<and>
      db_leases (snd ex_second) = db_leases ex_running \<and> sv_marked (fst ex_second)"
    by (rule second_outage_not_fenced [of "\<lparr>sv_failures = 3, sv_marked = True\<rparr>" 3 20 "seconds 60"
        "map seconds [65, 70, 75, 80, 85, 90, 95, 100, 105, 110, 115, 120]"])
      (simp_all add: ex_second_def)
  then show ?thesis by (simp add: ex_running_def ex_db_def)
qed

lemma event_buffer_last_witness:
  "map_of (eh_buffers (fold (record_event 20) [''x'', ''y''] \<lparr>eh_buffers = [(20, [])], eh_subscribers = []\<rparr>)) 20 =
   Some (keep_last EVENT_BUFFER_LIMIT ([] @ [''x'', ''y'']))"
  by (rule event_buffer_last) (simp add: keep_last_def)

section \<open>Runs\<close>

definition ex_handle :: lease_handle where
  "ex_handle = new_handle ''a'' ex_server 1 3 50"

lemma ended_is_final_witness:
  "get_lease (run_cmds [CFinalize (seconds 201) ex_ticket, CRenew (seconds 202) ex_handle] ex_settled) 1 =
   Some ex_failed"
proof (rule ended_is_final)
  show "wf_leases ex_settled" "get_lease ex_settled 1 = Some ex_failed" by code_simp+
qed (simp add: ex_failed_def)

lemma admitted_once_witness:
  "\<exists>r'. get_lease (run_cmds [CCleanup (seconds 20) ex_ticket, CClearQueue (seconds 21)] ex_running) 1 = Some r' \<and>
     admitted_from (ex_active (seconds 90)) r'"
proof (rule admitted_once [OF ex_wf(3)])
  show "get_lease ex_running 1 = Some (ex_active (seconds 90))" by code_simp
  show "ls_status (ex_active (seconds 90)) = Active" by code_simp
qed

lemma tables_well_formed_witness:
  "wf_leases (run_cmds [CStart 0, CClearQueue (seconds 21)] ex_running) \<and>
   wf_servers (run_cmds [CStart 0, CClearQueue (seconds 21)] ex_running)"
  by (rule tables_well_formed [OF ex_wf(3,4)])

lemma past_ticket_never_activates_witness:
  "finalize_tx (seconds 5) (ex_ticket\<lparr>ct_generation := 2\<rparr>) (run_cmds [CClearQueue (seconds 4)] ex_running) =
   (Inr False, run_cmds [CClearQueue (seconds 4)] ex_running)"
proof (rule past_ticket_never_activates [OF ex_wf(3,4)])
  show "get_server ex_running (ct_server (ex_ticket\<lparr>ct_generation := 2\<rparr>)) = Some ex_server"
    by code_simp
qed (simp add: ex_server_def)

definition ex_stopped :: db where
  "ex_stopped = (ex_db [ex_lease 1 ''a'' 5])\<lparr>db_servers := [ex_server\<lparr>srv_status := SrvStopped\<rparr>]\<rparr>"

definition ex_started :: server_row where
  "ex_started = ex_server\<lparr>srv_slot_generation := 4, srv_status := SrvStarting,
     srv_health := HUnknown, srv_started_at := None, srv_error_message := None\<rparr>"

lemma ex_start: "reserve_server_start 0 ex_stopped = (Inr ex_started, snd (reserve_server_start 0 ex_stopped))"
  by (rule pair_fst) code_simp

lemma start_fences_past_witness:
  "get_server (snd (reserve_server_start 0 ex_stopped)) 0 = Some ex_started \<and> srv_status ex_started = SrvStarting \<and>
   fst (finalize_tx (seconds 30) ex_ticket (run_cmds [CClearQueue (seconds 21)] (snd (reserve_server_start 0 ex_stopped)))) =
     Inr False"
proof (rule start_fences_past [OF _ _ ex_start])
  show "wf_leases ex_stopped" "wf_servers ex_stopped" by code_simp+
qed (simp_all add: ex_ticket_def ex_started_def)


section \<open>What the capacity test does not cover\<close>

text \<open>
  A renewal can overshoot the capacity. A claim does not count an active lease whose
  expiry has passed, but the holder of that lease, and a reconciliation, renew it without
  testing its expiry. In the run below a server of capacity one has two requests that count
  against it: the first lapses, the second claims the free slot, the first is renewed. The
  comment in \<open>_claim\<close> says that a reservation cannot overshoot; only the agent's own slot
  count prevents it.
\<close>

theorem renewal_overshoots_capacity:
  "let d' = run_cmds [CClaim True (seconds 91) 60 2 0, CRenew (seconds 92) ex_handle] ex_running
   in server_capacity ex_server = 1 \<and> wf_leases ex_running \<and>
     count_leases (occupies (seconds 92) ex_server) ex_running = 0 \<and>
     count_leases (occupies (seconds 92) ex_server) d' = 2"
  by code_simp

end
