(* ===== verification/Acquire.thy ===== *)
theory Acquire
  imports System
begin

text \<open>
  The request side of backend/app/services/inference_scheduler.py: making room in VRAM,
  preparing a stopped target, and \<open>acquire\<close>, the loop one request runs from its queue row to its
  handle. What other workers do meanwhile is a list of commands at each point where the loop
  awaits; the clocks, the answers of agents and the state of the client are the other
  arguments of a turn. A loop is a recursion over the turns it makes; it returns None while it
  would still wait when the given turns run out.
\<close>

section \<open>VRAM\<close>

text \<open>\<open>_live_vram\<close>: None when the agent cannot be asked or its answer is no number.\<close>

definition live_vram :: "int option \<Rightarrow> int option" where
  "live_vram reply = map_option (\<lambda>total. max total 0) reply"

definition extra_size :: "db \<Rightarrow> uuid option \<Rightarrow> int" where
  "extra_size d m = (case m of None \<Rightarrow> 0
     | Some i \<Rightarrow> (case get_model d i of None \<Rightarrow> 0 | Some x \<Rightarrow> md_size_bytes x))"

definition required_vram :: "server_row \<Rightarrow> db \<Rightarrow> int" where
  "required_vram s d =
     (case get_model d (srv_model_id s) of
        None \<Rightarrow> (case srv_vram_required_bytes s of None \<Rightarrow> 0 | Some v \<Rightarrow> v)
      | Some m \<Rightarrow>
          (case srv_vram_required_bytes s of
             Some v \<Rightarrow> v
           | None \<Rightarrow> md_size_bytes m + extra_size d (srv_mmproj_model_id s) +
               extra_size d (srv_dflash_model_id s)))"

text \<open>The running servers that share the target's device, least recently used first.\<close>

definition co_located :: "server_row \<Rightarrow> db \<Rightarrow> server_row list" where
  "co_located target d =
     (let ta = get_agent d (srv_agent_id target) in
      order_by (\<lambda>s. (nulls_last (srv_last_request_at s), srv_id s))
        (filter (\<lambda>s. srv_status s = SrvRunning \<and> srv_id s \<noteq> srv_id target \<and>
            (case (get_agent d (srv_agent_id s), ta) of
               (Some a, Some t) \<Rightarrow> ag_host a = ag_host t \<and>
                 (ag_gpu_id t = None \<or> ag_gpu_id a = ag_gpu_id t)
             | _ \<Rightarrow> False))
          (db_servers d)))"

definition allocated_vram :: "server_row \<Rightarrow> db \<Rightarrow> int" where
  "allocated_vram target d = sum_list (map (\<lambda>s. required_vram s d) (co_located target d))"

record room_turn =
  rm_before :: "db_cmd list"
  rm_clock :: time
  rm_total :: "int option"
  rm_now :: time
  rm_reply :: "(exn \<times> string) option"
  rm_during_stop :: "db_cmd list"

text \<open>\<open>_stop_idle_server\<close>: a busy server is left alone, any other failure propagates.\<close>

definition stop_idle_server ::
  "time \<Rightarrow> (exn \<times> string) option \<Rightarrow> db_cmd list \<Rightarrow> uuid \<Rightarrow> db \<Rightarrow> (exn + unit) \<times> agent_msg list \<times> db" where
  "stop_idle_server now reply cmds i d =
     (case request_server_stop False ''vram_eviction'' now reply (run_cmds cmds) i d of
        (Inr _, msgs, d') \<Rightarrow> (Inr (), msgs, d')
      | (Inl (ServerBusyError _), msgs, d') \<Rightarrow> (Inr (), msgs, d')
      | (Inl x, msgs, d') \<Rightarrow> (Inl x, msgs, d'))"

text \<open>One turn of \<open>_make_room\<close>: None to go on.\<close>

definition make_room_turn ::
  "time \<Rightarrow> server_row \<Rightarrow> int \<Rightarrow> room_turn \<Rightarrow> db \<Rightarrow> (exn + unit) option \<times> agent_msg list \<times> db" where
  "make_room_turn deadline target required t d0 =
     (let d = run_cmds (rm_before t) d0 in
      if deadline \<le> rm_clock t
      then (Some (Inl (TimeoutError ''No VRAM became available for the queued inference request'')), [], d)
      else case live_vram (rm_total t) of
        None \<Rightarrow> (None, [], d)
      | Some avail \<Rightarrow>
          if vram_requirements_fit avail required (allocated_vram target d) then (Some (Inr ()), [], d)
          else (case find (\<lambda>s. active_leases (rm_now t) (srv_id s) d = 0) (co_located target d) of
              None \<Rightarrow> (None, [], d)
            | Some s \<Rightarrow>
                (case stop_idle_server (rm_now t) (rm_reply t) (rm_during_stop t) (srv_id s) d of
                   (Inl x, msgs, d') \<Rightarrow> (Some (Inl x), msgs, d')
                 | (Inr _, msgs, d') \<Rightarrow> (None, msgs, d'))))"

fun make_room ::
  "time \<Rightarrow> server_row \<Rightarrow> int \<Rightarrow> room_turn list \<Rightarrow> db \<Rightarrow> (exn + unit) option \<times> agent_msg list \<times> db" where
  "make_room deadline target required [] d = (None, [], d)"
| "make_room deadline target required (t # ts) d =
     (case make_room_turn deadline target required t d of
        (Some r, msgs, d') \<Rightarrow> (Some r, msgs, d')
      | (None, msgs, d') \<Rightarrow>
          (case make_room deadline target required ts d' of
             (r, msgs2, d2) \<Rightarrow> (r, msgs @ msgs2, d2)))"

section \<open>Preparing a target\<close>

text \<open>The loop on the advisory lock: per try the loop clock and whether the lock was granted.\<close>

fun resource_lock :: "time \<Rightarrow> (time \<times> bool) list \<Rightarrow> (exn + unit) option" where
  "resource_lock deadline [] = None"
| "resource_lock deadline ((clock, granted) # ts) =
     (if deadline - clock \<le> 0
      then Some (Inl (TimeoutError ''Inference queue deadline elapsed during startup''))
      else if granted then Some (Inr ())
      else resource_lock deadline ts)"

record prepare_env =
  pe_locks :: "(time \<times> bool) list"
  pe_before :: "db_cmd list"
  pe_room :: "room_turn list"
  pe_clock :: time
  pe_benchmark :: bool
  pe_before_start :: "db_cmd list"
  pe_polls :: "(time \<times> db_cmd list) list"

text \<open>The states the polls of a wait see.\<close>

fun poll_states :: "(time \<times> db_cmd list) list \<Rightarrow> db \<Rightarrow> (time \<times> db) list" where
  "poll_states [] d = []"
| "poll_states ((clock, cmds) # ps) d = (clock, run_cmds cmds d) # poll_states ps (run_cmds cmds d)"

definition after_polls :: "(time \<times> db_cmd list) list \<Rightarrow> db \<Rightarrow> db" where
  "after_polls ps d = fold (\<lambda>(_, cmds). run_cmds cmds) ps d"

text \<open>
  Inside the lock: the row is read, room is made for a stopped target, and a target that is
  not running is started and waited for. The start dispatched by \<open>ensure_server_ready\<close> is a
  task of its own, which acts in the commands of the polls.
\<close>

definition prepare_locked ::
  "time \<Rightarrow> uuid \<Rightarrow> prepare_env \<Rightarrow> db \<Rightarrow> (exn + server_row) option \<times> agent_msg list \<times> db" where
  "prepare_locked deadline i e d =
     (case get_server d i of
        None \<Rightarrow> (Some (Inl (RuntimeError ''Server instance no longer exists'')), [], d)
      | Some current \<Rightarrow>
          (case (if srv_status current = SrvStopped
                 then make_room deadline current (required_vram current d) (pe_room e) d
                 else (Some (Inr ()), [], d)) of
             (None, msgs, d1) \<Rightarrow> (None, msgs, d1)
           | (Some (Inl x), msgs, d1) \<Rightarrow> (Some (Inl x), msgs, d1)
           | (Some (Inr _), msgs, d1) \<Rightarrow>
               if srv_status current = SrvRunning then (Some (Inr current), msgs, d1)
               else if deadline - pe_clock e \<le> 0
               then (Some (Inl (TimeoutError ''Inference queue deadline elapsed during startup'')), msgs, d1)
               else (let remaining = deadline - pe_clock e;
                         ready = (\<lambda>polls. ensure_server_ready (pe_benchmark e) remaining
                           (run_cmds (pe_before_start e)) (pe_clock e) polls i d1);
                         d2 = snd (snd (ready []))
                     in (fst (ready (poll_states (pe_polls e) d2)), msgs, after_polls (pe_polls e) d2))))"

definition prepare_target ::
  "time \<Rightarrow> uuid \<Rightarrow> prepare_env \<Rightarrow> db \<Rightarrow> (exn + server_row) option \<times> agent_msg list \<times> db" where
  "prepare_target deadline i e d =
     (case resource_lock deadline (pe_locks e) of
        None \<Rightarrow> (None, [], d)
      | Some (Inl x) \<Rightarrow> (Some (Inl x), [], d)
      | Some (Inr _) \<Rightarrow> prepare_locked deadline i e (run_cmds (pe_before e) d))"

section \<open>The acquire loop\<close>

text \<open>
  The environment of one attempt on one candidate: what others did before it, the benchmark
  lock, the clock, the fresh attempt id, what follows the claim, whether the client is found
  disconnected when a handle is there, and the clock and cancellation of the handle's cancel.
\<close>

record claim_env =
  ce_before :: "db_cmd list"
  ce_lock :: bool
  ce_now :: time
  ce_attempt :: uuid
  ce_env :: attempt_env
  ce_disconnected :: bool
  ce_cancel_now :: time
  ce_cancel_cancelled :: bool

text \<open>One attempt: None when no handle was got, else the loop's result.\<close>

definition try_claim ::
  "bool \<Rightarrow> uuid \<Rightarrow> claim_env \<Rightarrow> server_row \<Rightarrow> db \<Rightarrow> (exn + lease_handle) option \<times> agent_msg list \<times> db" where
  "try_claim has_callback lease e server d =
     (case claim (ce_lock e) (ce_now e) (ce_attempt e) (ce_env e) lease server (run_cmds (ce_before e) d) of
        (Inl x, msgs, d') \<Rightarrow> (Some (Inl x), msgs, d')
      | (Inr None, msgs, d') \<Rightarrow> (None, msgs, d')
      | (Inr (Some h), msgs, d') \<Rightarrow>
          if ce_disconnected e then
            (case cancel_lease (ce_cancel_cancelled e) (ce_cancel_now e) h d' of
               (Inl x, _, msgs2, d2) \<Rightarrow> (Some (Inl x), msgs @ msgs2, d2)
             | (Inr _, _, msgs2, d2) \<Rightarrow> (Some (Inl InferenceRequestCancelled), msgs @ msgs2, d2))
          else (Some (Inr (monitor_disconnect has_callback h)), msgs, d'))"

fun claim_running ::
  "bool \<Rightarrow> uuid \<Rightarrow> (uuid \<Rightarrow> claim_env) \<Rightarrow> server_row list \<Rightarrow> db
     \<Rightarrow> (exn + lease_handle) option \<times> agent_msg list \<times> db" where
  "claim_running has_callback lease envs [] d = (None, [], d)"
| "claim_running has_callback lease envs (s # ss) d =
     (if srv_status s \<noteq> SrvRunning then claim_running has_callback lease envs ss d
      else case try_claim has_callback lease (envs (srv_id s)) s d of
        (Some r, msgs, d') \<Rightarrow> (Some r, msgs, d')
      | (None, msgs, d') \<Rightarrow>
          (case claim_running has_callback lease envs ss d' of
             (r, msgs2, d2) \<Rightarrow> (r, msgs @ msgs2, d2)))"

text \<open>\<open>starting or stopped\<close>: a server already coming up is preferred to one to be started.\<close>

definition pick_target :: "server_row list \<Rightarrow> server_row option" where
  "pick_target cs = (case find (\<lambda>s. srv_status s = SrvStarting) cs of
     Some s \<Rightarrow> Some s | None \<Rightarrow> find (\<lambda>s. srv_status s = SrvStopped) cs)"

record request =
  rq_lease :: uuid
  rq_model :: uuid
  rq_preferred :: "uuid option"
  rq_agent :: "uuid option"
  rq_deadline :: time
  rq_callback :: bool

text \<open>
  What one turn meets. \<open>at_cancelled\<close> and \<open>at_prepare_cancelled\<close> say that the task was
  cancelled at the turn's awaits before, or inside, the preparation of a target.
\<close>

record acquire_turn =
  at_disconnected :: bool
  at_cancelled :: bool
  at_before :: "db_cmd list"
  at_now :: time
  at_clock :: time
  at_open :: bool
  at_select :: "db_cmd list"
  at_claims :: "uuid \<Rightarrow> claim_env"
  at_prepare :: prepare_env
  at_prepare_cancelled :: bool
  at_prepared_disconnected :: bool
  at_prepared :: "db_cmd list"
  at_prepared_now :: time
  at_prepared_claim :: claim_env
  at_end_clock :: time

abbreviation queue_timeout :: exn where
  "queue_timeout \<equiv> TimeoutError ''No inference server slot became available''"

text \<open>
  How a turn ends: the loop goes on to the next turn, it is still inside the preparation of a
  target when that preparation's arguments run out, or it has a result.
\<close>

datatype turn_end = GoOn | Waiting | Done "exn + lease_handle"

text \<open>The end of a turn that got no handle: the deadline is tested again, before the sleep.\<close>

definition turn_last :: "request \<Rightarrow> acquire_turn \<Rightarrow> db \<Rightarrow> turn_end \<times> db" where
  "turn_last q t d =
     (if rq_deadline q \<le> at_end_clock t
      then (Done (Inl queue_timeout), expire_lease (rq_lease q) (at_now t) d)
      else (GoOn, d))"

definition turn_prepared ::
  "request \<Rightarrow> acquire_turn \<Rightarrow> server_row \<Rightarrow> db \<Rightarrow> turn_end \<times> agent_msg list \<times> db" where
  "turn_prepared q t prepared d =
     (if at_prepared_disconnected t
      then (Done (Inl InferenceRequestCancelled), [], cancel_queued (rq_lease q) (at_prepared_now t) d)
      else case ensure_queued (rq_lease q) (at_prepared_now t) (run_cmds (at_prepared t) d) of
        (Inl x, d') \<Rightarrow> (Done (Inl x), [], d')
      | (Inr False, d') \<Rightarrow> (GoOn, [], d')
      | (Inr True, d') \<Rightarrow>
          (case try_claim (rq_callback q) (rq_lease q) (at_prepared_claim t) prepared d' of
             (Some r, msgs, d2) \<Rightarrow> (Done r, msgs, d2)
           | (None, msgs, d2) \<Rightarrow> (case turn_last q t d2 of (r, d3) \<Rightarrow> (r, msgs, d3))))"

definition turn_target ::
  "request \<Rightarrow> acquire_turn \<Rightarrow> server_row list \<Rightarrow> db \<Rightarrow> turn_end \<times> agent_msg list \<times> db" where
  "turn_target q t cs d =
     (case pick_target cs of
        None \<Rightarrow> (case turn_last q t d of (r, d') \<Rightarrow> (r, [], d'))
      | Some target \<Rightarrow>
          (case prepare_target (rq_deadline q) (srv_id target) (at_prepare t) d of
             (r, msgs, d1) \<Rightarrow>
               if at_prepare_cancelled t then (Done (Inl CancelledError), msgs, d1)
               else (case r of
                  None \<Rightarrow> (Waiting, msgs, d1)
                | Some (Inl x) \<Rightarrow> (Done (Inl x), msgs, d1)
                | Some (Inr prepared) \<Rightarrow>
                    (case turn_prepared q t prepared d1 of (r2, msgs2, d2) \<Rightarrow> (r2, msgs @ msgs2, d2)))))"

definition turn_candidates ::
  "request \<Rightarrow> acquire_turn \<Rightarrow> db \<Rightarrow> turn_end \<times> agent_msg list \<times> db" where
  "turn_candidates q t d =
     (let cs = candidates (rq_model q) (rq_preferred q) (rq_agent q) d in
      case claim_running (rq_callback q) (rq_lease q) (at_claims t) cs d of
        (Some r, msgs, d1) \<Rightarrow> (Done r, msgs, d1)
      | (None, msgs, d1) \<Rightarrow>
          (case turn_target q t cs d1 of (r, msgs2, d2) \<Rightarrow> (r, msgs @ msgs2, d2)))"

definition acquire_turn_step ::
  "request \<Rightarrow> acquire_turn \<Rightarrow> db \<Rightarrow> turn_end \<times> agent_msg list \<times> db" where
  "acquire_turn_step q t d0 =
     (let d = run_cmds (at_before t) d0 in
      if at_cancelled t then (Done (Inl CancelledError), [], d)
      else if at_disconnected t
      then (Done (Inl InferenceRequestCancelled), [], cancel_queued (rq_lease q) (at_now t) d)
      else case ensure_queued (rq_lease q) (at_now t) d of
        (Inl x, d1) \<Rightarrow> (Done (Inl x), [], d1)
      | (Inr False, d1) \<Rightarrow> (GoOn, [], d1)
      | (Inr True, d1) \<Rightarrow>
          if rq_deadline q \<le> at_clock t
          then (Done (Inl queue_timeout), [], expire_lease (rq_lease q) (at_now t) d1)
          else if \<not> at_open t then (GoOn, [], d1)
          else turn_candidates q t (run_cmds (at_select t) d1))"

fun acquire_loop ::
  "request \<Rightarrow> acquire_turn list \<Rightarrow> db \<Rightarrow> turn_end \<times> agent_msg list \<times> db" where
  "acquire_loop q [] d = (GoOn, [], d)"
| "acquire_loop q (t # ts) d =
     (case acquire_turn_step q t d of
        (GoOn, msgs, d') \<Rightarrow>
          (case acquire_loop q ts d' of (r, msgs2, d2) \<Rightarrow> (r, msgs @ msgs2, d2))
      | (r, msgs, d') \<Rightarrow> (r, msgs, d'))"

text \<open>The \<open>except\<close> clauses, then \<open>finally\<close>.\<close>

definition acquire_except :: "exn \<Rightarrow> uuid \<Rightarrow> time \<Rightarrow> db \<Rightarrow> db" where
  "acquire_except x i now d =
     (case x of
        InferenceRequestCancelled \<Rightarrow>
          snd (finish_queued i Cancelled ''client_disconnected_or_queue_cleared'' now d)
      | CancelledError \<Rightarrow> cancel_queued i now d
      | TimeoutError _ \<Rightarrow> snd (finish_queued i Expired ''queue_timeout'' now d)
      | _ \<Rightarrow> snd (finish_queued i Failed ''admission_error'' now d))"

definition acquire_finally :: "uuid \<Rightarrow> time \<Rightarrow> db \<Rightarrow> db" where
  "acquire_finally i now d = snd (finish_queued i Failed ''request_abandoned'' now d)"

record acquire_end =
  ae_before :: "db_cmd list"
  ae_except_now :: time
  ae_between :: "db_cmd list"
  ae_finally_now :: time

definition acquire ::
  "request \<Rightarrow> string \<Rightarrow> time \<Rightarrow> time \<Rightarrow> acquire_turn list \<Rightarrow> acquire_end \<Rightarrow> db
     \<Rightarrow> (exn + lease_handle) option \<times> agent_msg list \<times> db" where
  "acquire q request_id now timeout turns e d =
     (case queue_tx (rq_lease q) request_id (rq_model q) (now + timeout) (rq_preferred q) (rq_agent q) now d of
        (Inl x, d1) \<Rightarrow> (Some (Inl x), [], d1)
      | (Inr _, d1) \<Rightarrow>
          (case acquire_loop q turns d1 of
             (Done (Inr h), msgs, d2) \<Rightarrow> (Some (Inr h), msgs, d2)
           | (Done (Inl x), msgs, d2) \<Rightarrow>
               (Some (Inl x), msgs,
                acquire_finally (rq_lease q) (ae_finally_now e)
                  (run_cmds (ae_between e)
                    (acquire_except x (rq_lease q) (ae_except_now e) (run_cmds (ae_before e) d2))))
           | (_, msgs, d2) \<Rightarrow> (None, msgs, d2)))"

end
