(* ===== verification/AcquireSafety.thy ===== *)
theory AcquireSafety
  imports Acquire
begin

text \<open>
  What \<open>acquire\<close> guarantees to its caller and to the queue: no other worker's command puts this
  request's lease into a slot (\<open>quiet\<close>), so whatever ends the loop, the lease is ended with it
  unless the caller holds the handle of an active lease; and the loop does end.
\<close>

section \<open>Other workers leave a lease out of slots\<close>

definition in_slot :: "lease_row \<Rightarrow> bool" where
  "in_slot r \<longleftrightarrow> ls_status r = Active \<or> ls_status r = Reserving"

definition quiet :: "lease_row \<Rightarrow> lease_row \<Rightarrow> bool" where
  "quiet r r' \<longleftrightarrow> (in_slot r' \<longrightarrow> ls_status r' = ls_status r \<and>
     ls_reservation_id r' = ls_reservation_id r \<and> ls_slot_generation r' = ls_slot_generation r \<and>
     ls_server_instance_id r' = ls_server_instance_id r)"

definition quiet_db :: "uuid \<Rightarrow> db \<Rightarrow> db \<Rightarrow> bool" where
  "quiet_db i d d' \<longleftrightarrow> (\<forall>r. get_lease d i = Some r \<longrightarrow> (\<exists>r'. get_lease d' i = Some r' \<and> quiet r r'))"

lemma quiet_refl [simp]: "quiet r r"
  by (simp add: quiet_def)

lemma quiet_trans: "quiet a b \<Longrightarrow> quiet b c \<Longrightarrow> quiet a c"
  unfolding quiet_def in_slot_def by metis

lemma quiet_out [simp]: "\<not> in_slot r' \<Longrightarrow> quiet r r'"
  by (simp add: quiet_def)

lemma quiet_db_same: "db_leases d' = db_leases d \<Longrightarrow> quiet_db i d d'"
  by (auto simp: quiet_db_def get_lease_def)

lemma quiet_db_refl [simp]: "quiet_db i d d"
  by (rule quiet_db_same) simp

lemma quiet_db_trans: "quiet_db i a b \<Longrightarrow> quiet_db i b c \<Longrightarrow> quiet_db i a c"
  unfolding quiet_db_def by (meson quiet_trans)

lemma quiet_db_fold:
  assumes "\<And>c acc. quiet_db i (snd acc) (snd (f c acc))"
  shows "quiet_db i (snd acc) (snd (fold f cs acc))"
proof (induction cs arbitrary: acc)
  case (Cons c cs)
  from quiet_db_trans [OF assms Cons.IH] show ?case by simp
qed simp

lemma quiet_update:
  assumes "\<And>r. p r \<Longrightarrow> ls_id (f r) = ls_id r" "\<And>r. p r \<Longrightarrow> quiet r (f r)"
  shows "quiet_db i d (update_leases p f d)"
  using assms(2) by (auto simp: quiet_db_def get_lease_update_leases [OF assms(1)])

lemma quiet_finish: "st \<noteq> Active \<Longrightarrow> st \<noteq> Reserving \<Longrightarrow> quiet_db i d (update_leases p (finish_row st reason now) d)"
  by (rule quiet_update) (simp_all add: in_slot_def)

lemma quiet_requeue: "quiet_db i d (update_leases p requeue_row d)"
  by (rule quiet_update) (simp_all add: in_slot_def)

lemma quiet_renew: "quiet_db i d (update_leases p (renew_row e) d)"
  by (rule quiet_update) (simp_all add: quiet_def renew_row_def)

lemma quiet_put_lease: "ls_id l \<noteq> i \<or> \<not> in_slot l \<Longrightarrow> quiet_db i d (put_lease l d)"
  by (auto simp: quiet_db_def get_lease_put_lease)

lemmas quiet_writes = quiet_finish quiet_requeue quiet_renew quiet_db_same

text \<open>A command of another worker: it neither claims nor activates this lease.\<close>

fun foreign :: "uuid \<Rightarrow> db_cmd \<Rightarrow> bool" where
  "foreign i (CClaim b now a lease server) = (lease \<noteq> i)"
| "foreign i (CFinalize now t) = (ct_lease t \<noteq> i)"
| "foreign i _ = True"

lemma quiet_queue_tx: "quiet_db i d (snd (queue_tx j q m e p a t d))"
proof -
  have "get_lease (d\<lparr>db_leases := db_leases d @ [l]\<rparr>) i = Some r" if "get_lease d i = Some r" for l r
    using that unfolding get_lease_def by (cases "filter (\<lambda>l. ls_id l = i) (db_leases d)") auto
  then show ?thesis by (auto simp: quiet_db_def queue_tx_def Let_def)
qed

lemma quiet_claim_tx:
  assumes "lease \<noteq> i"
  shows "quiet_db i d (snd (claim_tx b now a lease server d))"
proof -
  obtain res d' where e: "claim_tx b now a lease server d = (res, d')" by fastforce
  then show ?thesis
  proof (cases rule: claim_tx_cases)
    case refused
    with e show ?thesis by simp
  next
    case (reserved s l)
    with e assms show ?thesis by (auto simp: reserve_row_def intro!: quiet_put_lease)
  qed
qed

lemma quiet_finalize_tx:
  assumes "wf_leases d" "ct_lease t \<noteq> i"
  shows "quiet_db i d (snd (finalize_tx now t d))"
proof -
  obtain res d' where e: "finalize_tx now t d = (res, d')" by fastforce
  with assms(1) show ?thesis
  proof (cases rule: finalize_tx_cases)
    case refused
    with e show ?thesis by simp
  next
    case (activated s l)
    then have "ls_id l = ct_lease t" using get_lease_in by (auto simp: may_activate_def)
    with activated e assms(2) show ?thesis by (auto intro!: quiet_put_lease)
  qed
qed

lemma quiet_cleanup_tx: "quiet_db i d (cleanup_tx now t d)"
  unfolding cleanup_tx_def by (rule quiet_db_trans [OF quiet_finish quiet_requeue]) simp_all

lemma quiet_ensure_queued:
  assumes "wf_leases d"
  shows "quiet_db i d (snd (ensure_queued j now d))"
proof -
  obtain res d' where e: "ensure_queued j now d = (res, d')" by fastforce
  with assms show ?thesis
  proof (cases rule: ensure_queued_cases)
    case (recovered l x)
    with e show ?thesis by (auto simp: in_slot_def intro!: quiet_put_lease)
  qed (use e in simp_all)
qed

lemma quiet_reconcile: "quiet_db i d (snd (snd (reconcile_write now old results deferred d)))"
proof -
  have d1: "quiet_db i d (snd (reconcile_deadlines now old results deferred d))"
    unfolding reconcile_deadlines_def Let_def split_beta snd_conv requeue_abandoned_def
      expire_reservations_def expire_queued_def fail_old_generations_def renew_reported_def finish_reported_def
    by (rule quiet_db_trans [OF _ quiet_finish] quiet_db_trans [OF _ quiet_renew] quiet_requeue | simp)+
  have fence: "quiet_db i (snd acc) (snd (fence_server now k acc))" for k acc
  proof -
    obtain stops e where acc: "acc = (stops, e)" by fastforce
    have "quiet_db i e (put_server s (update_leases p (finish_row Failed r now) e))" for s p r
      by (rule quiet_db_trans [OF quiet_finish quiet_db_same]) simp_all
    moreover have "quiet_db i e (update_leases p (finish_row Failed r now) e)" for p r
      by (rule quiet_finish) simp_all
    ultimately show ?thesis
      unfolding acc by (cases "get_server e k") (simp_all add: fence_server_def Let_def)
  qed
  have "quiet_db i e (snd (snd (reconcile_stale now e)))" for e
    unfolding reconcile_stale_def Let_def split_beta snd_conv fail_missing_def
    using quiet_db_fold [of i "fence_server now" "([], e)", OF fence]
    by (intro quiet_db_trans [OF _ quiet_finish]) simp_all
  with d1 show ?thesis
    unfolding reconcile_write_db by (rule quiet_db_trans)
qed

lemma quiet_invalidate: "quiet_db i d (invalidate_server_leases now k d)"
  unfolding invalidate_server_leases_def by (rule quiet_finish) simp_all

lemma quiet_put_invalidate: "quiet_db i d (invalidate_server_leases now k (put_server s d))"
  by (rule quiet_db_trans [OF quiet_db_same quiet_invalidate]) simp

lemma quiet_invalidates: "quiet_db i d (fold (invalidate_server_leases now) ks d)"
  by (induction ks arbitrary: d) (auto intro: quiet_db_trans quiet_invalidate)

lemma quiet_server_event: "quiet_db i d (handle_server_event now agent ty e d)"
  by (cases rule: handle_server_event_cases [of now agent ty e d])
    (simp_all add: quiet_db_same quiet_put_invalidate)

lemma quiet_apply_report: "quiet_db i (snd acc) (snd (apply_report now reports s acc))"
  by (cases acc; cases rule: apply_report_cases [of now reports s "fst acc" "snd acc"])
    (simp_all add: quiet_db_same quiet_put_invalidate)

lemma quiet_snapshot: "quiet_db i d (register_snapshot now agent running healthy d)"
proof -
  have q_if: "quiet_db i d a \<Longrightarrow> quiet_db i d b \<Longrightarrow> quiet_db i d (if c then a else b)" for a b c by simp
  have upd: "quiet_db i e (update_servers p f e)" for e p f by (rule quiet_db_same) simp
  show ?thesis
    unfolding register_snapshot_def Let_def
    by (intro q_if quiet_db_trans [OF _ upd] quiet_db_trans [OF _ quiet_invalidates] quiet_db_refl)
qed

lemma quiet_register: "quiet_db i d (snd (snd (register_agent fresh now a d)))"
proof -
  have up: "quiet_db i d (snd (upsert_agent fresh now a d))"
    by (rule quiet_db_same) (simp add: upsert_agent_def Let_def split: option.split)
  have "quiet_db i e (snd (register_reports now agent rs e))" for agent rs e
    unfolding register_reports_def
    using quiet_db_fold [of i "apply_report now (reports_of rs)" "([], e)", OF quiet_apply_report] by simp
  note * = quiet_db_trans [OF up this] quiet_db_trans [OF up quiet_snapshot]
  show ?thesis
    unfolding register_agent_def Let_def split_beta snd_conv
    by (cases "ad_statuses a = []") (simp_all add: *)
qed

lemma quiet_mark: "quiet_db i d (mark_agent_servers_unavailable now agent d)"
proof -
  have upd: "quiet_db i e (update_servers p f e)" for e p f by (rule quiet_db_same) simp
  show ?thesis
    unfolding mark_agent_servers_unavailable_def Let_def
    using quiet_db_trans [OF upd quiet_invalidates] by simp
qed

lemma quiet_supervisor_turn: "quiet_db i d (snd (supervisor_turn m agent (now, r) (s, d)))"
proof -
  have *: "quiet_db i d (ws_connected now agent d)" "quiet_db i d (set_agent_status st agent d)"
    "quiet_db i d (set_agent_status st agent (ws_connected now agent d))" for st
    by (simp_all add: supervisor_turn_servers quiet_db_same)
  from this(2,3) [THEN quiet_db_trans, OF quiet_mark] * show ?thesis
    by (cases r) (simp_all add: Let_def)
qed

lemma quiet_stop_fence: "quiet_db i d (snd (stop_fence_tx force reason now k d))"
proof -
  have "quiet_db i d (update_leases p (finish_row Failed r now) (put_server s d))" for p r s
    by (rule quiet_db_trans [OF quiet_db_same quiet_finish]) simp_all
  then show ?thesis
    by (auto simp: stop_fence_tx_def Let_def quiet_db_same split: option.split)
qed

lemma server_cmds_leases:
  "db_leases (snd (reserve_server_start k d)) = db_leases d"
  "db_leases (stop_failed_tx g err k d) = db_leases d"
  "db_leases (snd (stop_done_tx g k d)) = db_leases d"
  "db_leases (cleanup_offline_agents off now d) = db_leases d"
  "db_leases (snd (ready_start_tx k d)) = db_leases d"
  "db_leases (start_ack_tx now k g r d) = db_leases d"
  "db_leases (start_lost_tx err k g d) = db_leases d"
  "db_leases (start_failed_tx err k g d) = db_leases d"
  "db_leases (snd (begin_initialization k d)) = db_leases d"
  "db_leases (set_init_status st e k d) = db_leases d"
  "db_leases (persist_flash_ports p q k d) = db_leases d"
  "db_leases (finish_initialization m k d) = db_leases d"
  by (simp_all add: reserve_server_start_def stop_failed_tx_def stop_done_tx_def Let_def
      cleanup_offline_agents_def ready_start_tx_def start_ack_tx_def start_lost_tx_def
      start_failed_tx_def begin_initialization_def set_init_status_def persist_flash_ports_def
      finish_initialization_def split: option.splits)

lemma outcome_not_slot: "outcome_status out \<noteq> Active" "outcome_status out \<noteq> Reserving"
  by (cases out; simp)+

lemma foreign_quiet:
  assumes "wf_leases d" "foreign i c"
  shows "quiet_db i d (exec_cmd c d)"
proof (cases c)
  case (CEnsureQueued j now)
  then show ?thesis using assms by (simp add: quiet_ensure_queued)
next
  case (CFinalize now t)
  then show ?thesis using assms by (simp add: quiet_finalize_tx)
next
  case (CSupervise m agent now r s)
  then show ?thesis by (simp only: exec_cmd.simps quiet_supervisor_turn)
qed (use assms(2) in \<open>simp_all add: quiet_queue_tx quiet_claim_tx quiet_cleanup_tx quiet_reconcile
    quiet_stop_fence quiet_server_event quiet_register server_cmds_leases expire_lease_def
    cancel_queued_def finish_queued_def clear_queue_def renew_update_def release_update_def
    mark_cancelled_def quiet_writes outcome_not_slot\<close>)

definition foreign_cmds :: "uuid \<Rightarrow> db_cmd list \<Rightarrow> bool" where
  "foreign_cmds i cs \<longleftrightarrow> (\<forall>c\<in>set cs. foreign i c)"

lemma run_cmds_wf: "wf_leases d \<Longrightarrow> wf_leases (run_cmds cs d)"
  unfolding run_cmds_def by (rule sched.runs_wf)

lemma foreign_runs_quiet:
  "wf_leases d \<Longrightarrow> foreign_cmds i cs \<Longrightarrow> quiet_db i d (run_cmds cs d)"
proof (induction cs arbitrary: d)
  case (Cons c cs)
  have "quiet_db i d (exec_cmd c d)" using Cons.prems by (intro foreign_quiet) (auto simp: foreign_cmds_def)
  moreover have "quiet_db i (exec_cmd c d) (run_cmds cs (exec_cmd c d))"
    using Cons.prems by (intro Cons.IH) (auto simp: foreign_cmds_def sched.run_wf)
  ultimately show ?case by (simp add: run_cmds_def quiet_db_trans)
qed (simp add: run_cmds_def)

section \<open>An attempt leaves the lease idle or hands it over\<close>

definition idle :: "uuid \<Rightarrow> db \<Rightarrow> bool" where
  "idle i d \<longleftrightarrow> (\<exists>r. get_lease d i = Some r \<and> \<not> in_slot r)"

text \<open>If the lease is in a slot, it is so under this attempt and generation.\<close>

definition under :: "uuid \<Rightarrow> uuid \<Rightarrow> int \<Rightarrow> db \<Rightarrow> bool" where
  "under i a g d \<longleftrightarrow> (\<exists>r. get_lease d i = Some r \<and>
     (in_slot r \<longrightarrow> ls_reservation_id r = Some a \<and> ls_slot_generation r = Some g))"

lemma idle_quiet: "idle i d \<Longrightarrow> quiet_db i d d' \<Longrightarrow> idle i d'"
  unfolding idle_def quiet_db_def quiet_def in_slot_def by metis

lemma under_quiet: "under i a g d \<Longrightarrow> quiet_db i d d' \<Longrightarrow> under i a g d'"
  unfolding under_def quiet_db_def quiet_def in_slot_def by metis

lemma idle_finish:
  "idle i d \<Longrightarrow> st \<noteq> Active \<Longrightarrow> st \<noteq> Reserving \<Longrightarrow> idle i (update_leases p (finish_row st reason now) d)"
  by (rule idle_quiet [OF _ quiet_finish])

lemma idle_foreign: "idle i d \<Longrightarrow> wf_leases d \<Longrightarrow> foreign_cmds i cs \<Longrightarrow> idle i (run_cmds cs d)"
  by (rule idle_quiet [OF _ foreign_runs_quiet])

definition env_foreign :: "uuid \<Rightarrow> attempt_env \<Rightarrow> bool" where
  "env_foreign i e \<longleftrightarrow> (\<exists>cs1 cs2. ae_before_finalize e = run_cmds cs1 \<and> ae_before_cleanup e = run_cmds cs2 \<and>
     foreign_cmds i cs1 \<and> foreign_cmds i cs2)"

lemma cleanup_idle:
  assumes "under (ct_lease t) (ct_attempt t) g d"
  shows "idle (ct_lease t) (cleanup_tx now t d)"
proof -
  obtain r where r: "get_lease d (ct_lease t) = Some r"
    "in_slot r \<longrightarrow> ls_reservation_id r = Some (ct_attempt t)"
    using assms by (auto simp: under_def)
  have "ls_id r = ct_lease t" using get_lease_in [OF r(1)] by simp
  with r show ?thesis
    by (auto simp: idle_def get_lease_cleanup holds_attempt_def in_slot_def)
qed

lemma finalize_under:
  assumes "under (ct_lease t) (ct_attempt t) g d" "wf_leases d" "finalize_tx now t d = (fr, d')"
  shows "under (ct_lease t) (ct_attempt t) g d'"
  using assms(2,3)
proof (cases rule: finalize_tx_cases)
  case refused
  with assms(1) show ?thesis by simp
next
  case (activated s l)
  then have l: "get_lease d (ct_lease t) = Some l" "ls_status l = Reserving"
    by (auto simp: may_activate_def)
  with activated(3) assms(1) get_lease_in [OF l(1)] show ?thesis
    by (auto simp: under_def get_lease_put_lease in_slot_def)
qed

text \<open>What the caller of an attempt gets.\<close>

definition admitted_or_idle :: "uuid \<Rightarrow> exn + lease_handle option \<Rightarrow> db \<Rightarrow> bool" where
  "admitted_or_idle i res d = (case res of
     Inr (Some h) \<Rightarrow> lh_lease_id h = i \<and> (\<exists>r. get_lease d i = Some r \<and> owned_active h r)
   | _ \<Rightarrow> idle i d)"

lemma admitted_or_idle_simps [simp]:
  "admitted_or_idle i (Inl x) d = idle i d" "admitted_or_idle i (Inr None) d = idle i d"
  by (simp_all add: admitted_or_idle_def)

lemma reserve_and_activate_outcome:
  assumes "under (ct_lease t) (ct_attempt t) (ct_generation t) d" "wf_leases d"
    and "env_foreign (ct_lease t) e" "reserve_and_activate e t server d = (res, msgs, d')"
  shows "admitted_or_idle (ct_lease t) res d' \<and> wf_leases d'"
proof -
  let ?i = "ct_lease t" and ?U = "under (ct_lease t) (ct_attempt t) (ct_generation t)"
  obtain cs1 cs2 where cs: "ae_before_finalize e = run_cmds cs1" "ae_before_cleanup e = run_cmds cs2"
    "foreign_cmds ?i cs1" "foreign_cmds ?i cs2"
    using assms(3) by (auto simp: env_foreign_def)
  obtain fr d2 where f: "finalize_tx (ae_finalize_now e) t (run_cmds cs1 d) = (fr, d2)" by fastforce
  have w1: "wf_leases (run_cmds cs1 d)" using assms(2) by (rule run_cmds_wf)
  have w2: "wf_leases d2" using evolves_wf [OF w1 evolves_finalize_tx [OF w1]] f by (metis snd_conv)
  have u1: "?U (run_cmds cs1 d)" by (rule under_quiet [OF assms(1) foreign_runs_quiet [OF assms(2) cs(3)]])
  have u2: "?U d2" by (rule finalize_under [OF u1 w1 f])
  have give_up: "idle ?i (cleanup_tx n t (run_cmds cs2 x)) \<and> wf_leases (cleanup_tx n t (run_cmds cs2 x))"
    if "?U x" "wf_leases x" for x n
    using cleanup_idle [OF under_quiet [OF that(1) foreign_runs_quiet [OF that(2) cs(4)]]]
      evolves_wf [OF run_cmds_wf [OF that(2)] evolves_cleanup_tx] by blast
  note give_up_d = give_up [OF assms(1,2)] and give_up_d2 = give_up [OF u2 w2]
  note ra = assms(4) [unfolded reserve_and_activate_def Let_def cs(1,2) f]
  show ?thesis
  proof (cases "ae_reply e = Accepted \<and> fr = Inr True \<and> \<not> ae_finalize_cancelled e")
    case True
    show ?thesis
      using w1 f
    proof (cases rule: finalize_tx_cases)
      case refused
      with True show ?thesis by simp
    next
      case (activated s l)
      then have l: "get_lease (run_cmds cs1 d) ?i = Some l" "ls_status l = Reserving"
        by (auto simp: may_activate_def)
      with u1 have "ls_slot_generation l = Some (ct_generation t)" by (auto simp: under_def in_slot_def)
      with ra True activated l get_lease_in [OF l(1)] w2 show ?thesis
        by (auto simp: admitted_or_idle_def get_lease_put_lease owned_active_def start_renewal_def new_handle_def)
    qed
  next
    case False
    show ?thesis
    proof (cases "ae_reply e = Accepted")
      case True
      with False ra give_up_d2 show ?thesis
        by (cases fr) (auto split: if_splits)
    next
      case no: False
      with ra give_up_d show ?thesis
        by (cases "ae_reply e") (auto split: if_splits)
    qed
  qed
qed

lemma claim_outcome:
  assumes "idle i d" "wf_leases d" "env_foreign i e" "claim b now a e i server d = (res, msgs, d')"
  shows "admitted_or_idle i res d' \<and> wf_leases d'"
proof -
  obtain tk d1 where tx: "claim_tx b now a i (srv_id server) d = (tk, d1)" by fastforce
  have w1: "wf_leases d1"
    using evolves_wf [OF assms(2) evolves_claim_tx [OF assms(2)]] tx by (metis snd_conv)
  show ?thesis
    using tx
  proof (cases rule: claim_tx_cases)
    case refused
    with assms tx show ?thesis by (auto simp: claim_def)
  next
    case (reserved s l)
    from reserved(9) obtain t where t: "tk = Some t" "ct_lease t = i" "ct_attempt t = a"
      "ct_generation t = srv_slot_generation s" by auto
    have "get_lease d i = Some l"
      using assms(2) oldest_compatible_least(1) [OF reserved(6)] reserved(7)
      by (auto simp: get_lease_eqI wf_leases_def)
    then have "under i a (srv_slot_generation s) d1"
      using reserved(7,10) by (simp add: under_def get_lease_put_lease reserve_row_def)
    with t assms(3,4) tx reserve_and_activate_outcome [of t d1 e server res msgs d'] w1 show ?thesis
      by (simp add: claim_def)
  qed
qed

section \<open>Making room and preparing a target\<close>

text \<open>A step of this request that is no attempt: the tables stay well formed, its lease quiet.\<close>

definition harmless :: "uuid \<Rightarrow> db \<Rightarrow> db \<Rightarrow> bool" where
  "harmless i d d' \<longleftrightarrow> wf_leases d' \<and> quiet_db i d d'"

lemma harmless_refl [simp]: "wf_leases d \<Longrightarrow> harmless i d d"
  by (simp add: harmless_def)

lemma harmless_wf: "harmless i d d' \<Longrightarrow> wf_leases d'"
  by (simp add: harmless_def)

lemma harmless_idle: "harmless i d d' \<Longrightarrow> idle i d \<Longrightarrow> idle i d'"
  unfolding harmless_def using idle_quiet by blast

lemma harmless_trans: "harmless i a b \<Longrightarrow> harmless i b c \<Longrightarrow> harmless i a c"
  unfolding harmless_def using quiet_db_trans by blast

lemma harmless_foreign: "wf_leases d \<Longrightarrow> foreign_cmds i cs \<Longrightarrow> harmless i d (run_cmds cs d)"
  by (simp add: harmless_def run_cmds_wf foreign_runs_quiet)

lemma harmless_same: "wf_leases d \<Longrightarrow> db_leases d' = db_leases d \<Longrightarrow> harmless i d d'"
  using evolves_wf [OF _ evolves_same_leases] by (simp add: harmless_def quiet_db_same)

lemma harmless_stop:
  assumes "wf_leases d" "foreign_cmds i cs" "request_server_stop force reason now reply (run_cmds cs) k d = (res, msgs, d')"
  shows "harmless i d d'"
proof -
  obtain r d1 where f: "stop_fence_tx force reason now k d = (r, d1)" by fastforce
  have h1: "harmless i d d1"
    using evolves_wf [OF assms(1) evolves_stop_fence] quiet_stop_fence f
    unfolding harmless_def by (metis snd_conv)
  have h2: "harmless i d (run_cmds cs d1)"
    by (rule harmless_trans [OF h1 harmless_foreign [OF harmless_wf [OF h1] assms(2)]])
  note same = harmless_trans [OF h2 harmless_same [OF harmless_wf [OF h2]]]
  show ?thesis
  proof (cases r)
    case (Inl x)
    with assms(3) f h1 show ?thesis by (simp add: request_server_stop_def)
  next
    case (Inr msg)
    show ?thesis
    proof (cases reply)
      case (Some p)
      with assms(3) f Inr same [OF server_cmds_leases(2)] show ?thesis
        by (cases p) (auto simp: request_server_stop_def)
    next
      case None
      with assms(3) f Inr have "d' = snd (stop_done_tx (msg_generation msg) k (run_cmds cs d1))"
        by (auto simp: request_server_stop_def Let_def split: prod.splits)
      with same [OF server_cmds_leases(3)] show ?thesis by simp
    qed
  qed
qed

definition room_foreign :: "uuid \<Rightarrow> room_turn \<Rightarrow> bool" where
  "room_foreign i t \<longleftrightarrow> foreign_cmds i (rm_before t) \<and> foreign_cmds i (rm_during_stop t)"

lemma harmless_room_turn:
  assumes "wf_leases d" "room_foreign i t" "make_room_turn deadline target required t d = (r, msgs, d')"
  shows "harmless i d d'"
proof -
  let ?d = "run_cmds (rm_before t) d"
  have h: "harmless i d ?d" using assms(1,2) by (simp add: harmless_foreign room_foreign_def)
  consider "d' = ?d" | res m k where "request_server_stop False ''vram_eviction'' (rm_now t) (rm_reply t)
      (run_cmds (rm_during_stop t)) k ?d = (res, m, d')"
    using assms(3)
    by (auto simp: make_room_turn_def stop_idle_server_def Let_def split: if_splits option.splits prod.splits
        sum.splits exn.splits)
  then show ?thesis
  proof cases
    case 1
    with h show ?thesis by simp
  next
    case 2
    with harmless_trans [OF h harmless_stop [OF harmless_wf [OF h] _ 2]] assms(2) show ?thesis
      by (simp add: room_foreign_def)
  qed
qed

lemma harmless_make_room:
  assumes "wf_leases d" "\<forall>t\<in>set ts. room_foreign i t" "make_room deadline target required ts d = (r, msgs, d')"
  shows "harmless i d d'"
  using assms
proof (induction ts arbitrary: d msgs r)
  case (Cons t ts)
  obtain r1 m1 d1 where t: "make_room_turn deadline target required t d = (r1, m1, d1)" by (cases "make_room_turn deadline target required t d")
  have h: "harmless i d d1" using harmless_room_turn [OF Cons.prems(1) _ t] Cons.prems(2) by simp
  show ?case
  proof (cases r1)
    case None
    with t Cons.prems(3) obtain r2 m2 where "make_room deadline target required ts d1 = (r2, m2, d')"
      by (auto split: prod.splits)
    from harmless_trans [OF h Cons.IH [OF harmless_wf [OF h] _ this]] Cons.prems(2) show ?thesis by simp
  next
    case (Some x)
    with t Cons.prems(3) h show ?thesis by simp
  qed
qed simp

definition prepare_foreign :: "uuid \<Rightarrow> prepare_env \<Rightarrow> bool" where
  "prepare_foreign i e \<longleftrightarrow> foreign_cmds i (pe_before e) \<and> (\<forall>t\<in>set (pe_room e). room_foreign i t) \<and>
     foreign_cmds i (pe_before_start e) \<and> (\<forall>(_, cs)\<in>set (pe_polls e). foreign_cmds i cs)"

lemma harmless_polls:
  "wf_leases d \<Longrightarrow> \<forall>(_, cs)\<in>set ps. foreign_cmds i cs \<Longrightarrow> harmless i d (after_polls ps d)"
proof (induction ps arbitrary: d)
  case (Cons p ps)
  obtain c cs where p: "p = (c, cs)" by fastforce
  have h: "harmless i d (run_cmds cs d)" using Cons.prems p by (simp add: harmless_foreign)
  have "after_polls (p # ps) d = after_polls ps (run_cmds cs d)" by (simp add: after_polls_def p)
  with harmless_trans [OF h Cons.IH [OF harmless_wf [OF h]]] Cons.prems(2) show ?case by simp
qed (simp add: after_polls_def)

lemma ensure_ready_db:
  "snd (snd (ensure_server_ready b timeout env now polls k d)) \<in> {d, snd (ready_start_tx k (env d))}"
  by (auto simp: ensure_server_ready_def Let_def split: ready_plan.split sum.split start_decision.split prod.split)

lemma harmless_ensure_ready:
  assumes "wf_leases d" "foreign_cmds i cs"
  shows "harmless i d (snd (snd (ensure_server_ready b timeout (run_cmds cs) now polls k d)))"
proof -
  note h = harmless_foreign [OF assms]
  have "harmless i d (snd (ready_start_tx k (run_cmds cs d)))"
    by (rule harmless_trans [OF h harmless_same [OF harmless_wf [OF h] server_cmds_leases(5)]])
  with ensure_ready_db [of b timeout "run_cmds cs" now polls k d] assms(1) show ?thesis
    by (auto simp del: insert_iff elim!: insertE)
qed

lemma harmless_prepare_locked:
  assumes "wf_leases d" "prepare_foreign i e" "prepare_locked deadline k e d = (r, msgs, d')"
  shows "harmless i d d'"
proof (cases "get_server d k")
  case None
  with assms show ?thesis by (simp add: prepare_locked_def)
next
  case (Some current)
  obtain r1 m1 d1 where room: "(if srv_status current = SrvStopped
      then make_room deadline current (required_vram current d) (pe_room e) d
      else (Some (Inr ()), [], d)) = (r1, m1, d1)" by (metis prod_cases3)
  have h1: "harmless i d d1"
    using room harmless_make_room [OF assms(1)] assms(1,2)
    by (auto simp: prepare_foreign_def split: if_splits)
  note w1 = harmless_wf [OF h1]
  have f: "foreign_cmds i (pe_before_start e)" "\<forall>(_, cs)\<in>set (pe_polls e). foreign_cmds i cs"
    using assms(2) by (simp_all add: prepare_foreign_def)
  let ?d2 = "snd (snd (ensure_server_ready (pe_benchmark e) (deadline - pe_clock e)
    (run_cmds (pe_before_start e)) (pe_clock e) [] k d1))"
  have h2: "harmless i d ?d2" by (rule harmless_trans [OF h1 harmless_ensure_ready [OF w1 f(1)]])
  have h3: "harmless i d (after_polls (pe_polls e) ?d2)"
    by (rule harmless_trans [OF h2 harmless_polls [OF harmless_wf [OF h2] f(2)]])
  have "d' \<in> {d1, after_polls (pe_polls e) ?d2}"
    using assms(3) Some
    by (auto simp: prepare_locked_def room Let_def split: option.splits sum.splits if_splits)
  with h1 h3 show ?thesis by auto
qed

lemma harmless_prepare:
  assumes "wf_leases d" "prepare_foreign i e" "prepare_target deadline k e d = (r, msgs, d')"
  shows "harmless i d d'"
proof -
  have h: "harmless i d (run_cmds (pe_before e) d)"
    using assms(1,2) by (simp add: harmless_foreign prepare_foreign_def)
  show ?thesis
    using assms harmless_trans [OF h harmless_prepare_locked [OF harmless_wf [OF h] assms(2)]]
    by (auto simp: prepare_target_def split: option.splits sum.splits)
qed

section \<open>The loop\<close>

definition settled :: "uuid \<Rightarrow> turn_end \<Rightarrow> db \<Rightarrow> bool" where
  "settled i r d \<longleftrightarrow> wf_leases d \<and> (case r of
     Done (Inr h) \<Rightarrow> lh_lease_id h = i \<and> (\<exists>l. get_lease d i = Some l \<and> owned_active h l)
   | _ \<Rightarrow> idle i d)"

lemma settled_simps [simp]:
  "settled i GoOn d \<longleftrightarrow> wf_leases d \<and> idle i d"
  "settled i Waiting d \<longleftrightarrow> wf_leases d \<and> idle i d"
  "settled i (Done (Inl x)) d \<longleftrightarrow> wf_leases d \<and> idle i d"
  by (simp_all add: settled_def)

definition claim_foreign :: "uuid \<Rightarrow> claim_env \<Rightarrow> bool" where
  "claim_foreign i e \<longleftrightarrow> foreign_cmds i (ce_before e) \<and> env_foreign i (ce_env e)"

lemma owned_monitor [simp]: "owned_active (monitor_disconnect c h) l = owned_active h l"
  "lh_lease_id (monitor_disconnect c h) = lh_lease_id h"
  by (simp_all add: owned_active_def monitor_disconnect_def)

lemma wf_finish_owned:
  "wf_leases d \<Longrightarrow> st \<in> {Released, Cancelled, Failed} \<Longrightarrow>
   wf_leases (update_leases (owned_active h) (finish_row st reason now) d)"
  by (rule evolves_wf [OF _ evolves_finish_owned])

lemma cancel_lease_idle:
  assumes "lh_lease_id h = i" "get_lease d i = Some l" "owned_active h l" "wf_leases d"
    and "cancel_lease c now h d = (r, h', msgs, d')"
  shows "idle i d' \<and> wf_leases d'"
proof -
  have d': "d' = update_leases (owned_active h) (finish_row Cancelled ''client_disconnected'' now) d"
    using assms(5) by (auto simp: cancel_lease_def Let_def split: if_splits)
  have "get_lease d' i = Some (finish_row Cancelled ''client_disconnected'' now l)"
    using finish_owned_row [of d h l] assms(1-3) by (simp add: d')
  then show ?thesis
    using wf_finish_owned [OF assms(4)] by (simp add: d' idle_def in_slot_def)
qed

lemma try_claim_settled:
  assumes "idle i d" "wf_leases d" "claim_foreign i e" "try_claim cb i e server d = (r, msgs, d')"
  shows "settled i (case r of None \<Rightarrow> GoOn | Some x \<Rightarrow> Done x) d'"
proof -
  let ?d = "run_cmds (ce_before e) d"
  have f: "foreign_cmds i (ce_before e)" "env_foreign i (ce_env e)"
    using assms(3) by (simp_all add: claim_foreign_def)
  obtain res m d1 where c: "claim (ce_lock e) (ce_now e) (ce_attempt e) (ce_env e) i server ?d = (res, m, d1)"
    by (cases "claim (ce_lock e) (ce_now e) (ce_attempt e) (ce_env e) i server ?d")
  note out = claim_outcome [OF idle_foreign [OF assms(1,2) f(1)] run_cmds_wf [OF assms(2)] f(2) c]
  show ?thesis
  proof (cases "\<exists>h. res = Inr (Some h)")
    case False
    with assms(4) c out show ?thesis
      by (cases res) (auto simp: try_claim_def split: option.splits)
  next
    case True
    then obtain h where h: "res = Inr (Some h)" by blast
    with out obtain l where l: "lh_lease_id h = i" "get_lease d1 i = Some l" "owned_active h l" "wf_leases d1"
      by (auto simp: admitted_or_idle_def)
    show ?thesis
    proof (cases "ce_disconnected e")
      case False
      with assms(4) c h l show ?thesis by (auto simp: try_claim_def settled_def)
    next
      case dis: True
      obtain r2 h2 m2 d2 where x: "cancel_lease (ce_cancel_cancelled e) (ce_cancel_now e) h d1 = (r2, h2, m2, d2)"
        by (cases "cancel_lease (ce_cancel_cancelled e) (ce_cancel_now e) h d1") auto
      from cancel_lease_idle [OF l x] assms(4) c h dis x show ?thesis
        by (cases r2) (auto simp: try_claim_def)
    qed
  qed
qed

lemma claim_running_settled:
  assumes "idle i d" "wf_leases d" "\<forall>k. claim_foreign i (envs k)" "claim_running cb i envs cs d = (r, msgs, d')"
  shows "settled i (case r of None \<Rightarrow> GoOn | Some x \<Rightarrow> Done x) d'"
  using assms
proof (induction cs arbitrary: d msgs)
  case (Cons s ss)
  show ?case
  proof (cases "srv_status s = SrvRunning")
    case False
    with Cons show ?thesis by simp
  next
    case True
    obtain r1 m1 d1 where t: "try_claim cb i (envs (srv_id s)) s d = (r1, m1, d1)"
      by (cases "try_claim cb i (envs (srv_id s)) s d")
    note st = try_claim_settled [OF Cons.prems(1,2) spec [OF Cons.prems(3)] t]
    show ?thesis
    proof (cases r1)
      case None
      with t True Cons.prems(4) obtain m2 where "claim_running cb i envs ss d1 = (r, m2, d')"
        by (auto split: prod.splits)
      with st None Cons.IH [of d1 m2] Cons.prems(3) show ?thesis by simp
    next
      case (Some x)
      with t True Cons.prems(4) st show ?thesis by auto
    qed
  qed
qed simp

lemma settled_queued_write:
  assumes "idle i d" "wf_leases d"
  shows "idle i (expire_lease k now d) \<and> wf_leases (expire_lease k now d)"
    "idle i (cancel_queued k now d) \<and> wf_leases (cancel_queued k now d)"
  using evolves_wf [OF assms(2) evolves_expire_lease] evolves_wf [OF assms(2) evolves_cancel_queued]
    idle_finish [OF assms(1)]
  by (auto simp: expire_lease_def cancel_queued_def finish_queued_def)

lemma ensure_idle:
  assumes "idle i d" "wf_leases d" "ensure_queued k now d = (r, d')"
  shows "idle i d' \<and> wf_leases d'"
  using idle_quiet [OF assms(1) quiet_ensure_queued [OF assms(2)]]
    evolves_wf [OF assms(2) evolves_ensure_queued [OF assms(2)]] assms(3) by (metis snd_conv)

definition turn_foreign :: "uuid \<Rightarrow> acquire_turn \<Rightarrow> bool" where
  "turn_foreign i t \<longleftrightarrow> foreign_cmds i (at_before t) \<and> foreign_cmds i (at_select t) \<and>
     foreign_cmds i (at_prepared t) \<and> (\<forall>k. claim_foreign i (at_claims t k)) \<and>
     claim_foreign i (at_prepared_claim t) \<and> prepare_foreign i (at_prepare t)"

lemma turn_last_settled:
  assumes "idle (rq_lease q) d" "wf_leases d" "turn_last q t d = (r, d')"
  shows "settled (rq_lease q) r d'"
  using assms(3) settled_queued_write(1) [OF assms(1,2)] assms(1,2)
  by (auto simp: turn_last_def split: if_splits)

lemma turn_prepared_settled:
  assumes "idle (rq_lease q) d" "wf_leases d" "turn_foreign (rq_lease q) t"
    and "turn_prepared q t prepared d = (r, msgs, d')"
  shows "settled (rq_lease q) r d'"
proof (cases "at_prepared_disconnected t")
  case True
  with assms(4) settled_queued_write(2) [OF assms(1,2)] show ?thesis by (auto simp: turn_prepared_def)
next
  case False
  have f: "foreign_cmds (rq_lease q) (at_prepared t)" "claim_foreign (rq_lease q) (at_prepared_claim t)"
    using assms(3) by (simp_all add: turn_foreign_def)
  let ?d = "run_cmds (at_prepared t) d"
  obtain e d1 where en: "ensure_queued (rq_lease q) (at_prepared_now t) ?d = (e, d1)" by fastforce
  note d1 = ensure_idle [OF idle_foreign [OF assms(1,2) f(1)] run_cmds_wf [OF assms(2)] en]
  obtain r2 m2 d2 where c: "try_claim (rq_callback q) (rq_lease q) (at_prepared_claim t) prepared d1 = (r2, m2, d2)"
    by (cases "try_claim (rq_callback q) (rq_lease q) (at_prepared_claim t) prepared d1")
  note st = try_claim_settled [OF conjunct1 [OF d1] conjunct2 [OF d1] f(2) c]
  consider x where "e = Inl x" | "e = Inr False" | "e = Inr True" by (metis sum.exhaust_sel)
  then show ?thesis
  proof cases
    case 3
    show ?thesis
    proof (cases r2)
      case None
      with st have "idle (rq_lease q) d2" "wf_leases d2" by simp_all
      from turn_last_settled [OF this] assms(4) en False 3 c None show ?thesis
        by (auto simp: turn_prepared_def split: prod.splits)
    next
      case (Some x)
      with assms(4) en False 3 c st show ?thesis by (auto simp: turn_prepared_def)
    qed
  qed (use assms(4) en False d1 in \<open>auto simp: turn_prepared_def\<close>)
qed

lemma turn_target_settled:
  assumes "idle (rq_lease q) d" "wf_leases d" "turn_foreign (rq_lease q) t"
    and "turn_target q t cs d = (r, msgs, d')"
  shows "settled (rq_lease q) r d'"
proof (cases "pick_target cs")
  case None
  with assms(4) turn_last_settled [OF assms(1,2)] show ?thesis
    by (auto simp: turn_target_def split: prod.splits)
next
  case (Some target)
  obtain p m d1 where p: "prepare_target (rq_deadline q) (srv_id target) (at_prepare t) d = (p, m, d1)"
    by (cases "prepare_target (rq_deadline q) (srv_id target) (at_prepare t) d")
  have h: "harmless (rq_lease q) d d1"
    using harmless_prepare [OF assms(2) _ p] assms(3) by (simp add: turn_foreign_def)
  note i1 = harmless_idle [OF h assms(1)] and w1 = harmless_wf [OF h]
  show ?thesis
  proof (cases "\<not> at_prepare_cancelled t \<and> (\<exists>s. p = Some (Inr s))")
    case True
    then obtain s where s: "p = Some (Inr s)" by blast
    obtain r2 m2 d2 where "turn_prepared q t s d1 = (r2, m2, d2)" by (cases "turn_prepared q t s d1")
    with turn_prepared_settled [OF i1 w1 assms(3) this] assms(4) Some p True s show ?thesis
      by (auto simp: turn_target_def)
  next
    case False
    with assms(4) Some p i1 w1 show ?thesis
      by (auto simp: turn_target_def split: if_splits option.splits sum.splits prod.splits)
  qed
qed

lemma acquire_turn_settled:
  assumes "idle (rq_lease q) d" "wf_leases d" "turn_foreign (rq_lease q) t"
    and "acquire_turn_step q t d = (r, msgs, d')"
  shows "settled (rq_lease q) r d'"
proof -
  let ?i = "rq_lease q" and ?d = "run_cmds (at_before t) d"
  have f: "foreign_cmds ?i (at_before t)" "foreign_cmds ?i (at_select t)" "\<forall>k. claim_foreign ?i (at_claims t k)"
    using assms(3) by (simp_all add: turn_foreign_def)
  have d: "idle ?i ?d" "wf_leases ?d"
    using idle_foreign [OF assms(1,2) f(1)] run_cmds_wf [OF assms(2)] by simp_all
  obtain e d1 where en: "ensure_queued ?i (at_now t) ?d = (e, d1)" by fastforce
  note d1 = ensure_idle [OF d en]
  let ?d2 = "run_cmds (at_select t) d1"
  have d2: "idle ?i ?d2" "wf_leases ?d2"
    using idle_foreign [OF _ _ f(2)] run_cmds_wf d1 by blast+
  have cand: "settled ?i r2 d3" if tc: "turn_candidates q t ?d2 = (r2, m2, d3)" for r2 m2 d3
  proof -
    let ?cs = "candidates (rq_model q) (rq_preferred q) (rq_agent q) ?d2"
    obtain c m d4 where c: "claim_running (rq_callback q) ?i (at_claims t) ?cs ?d2 = (c, m, d4)"
      by (cases "claim_running (rq_callback q) ?i (at_claims t) ?cs ?d2")
    note st = claim_running_settled [OF d2 f(3) c]
    show ?thesis
    proof (cases c)
      case None
      with st have "idle ?i d4" "wf_leases d4" by simp_all
      from turn_target_settled [OF this assms(3)] tc c None show ?thesis
        by (auto simp: turn_candidates_def Let_def split: prod.splits)
    next
      case (Some x)
      with tc c st show ?thesis by (auto simp: turn_candidates_def Let_def)
    qed
  qed
  show ?thesis
    using assms(4) d d1 cand settled_queued_write [OF d] settled_queued_write [of ?i d1]
    by (auto simp: acquire_turn_step_def Let_def en split: if_splits sum.splits bool.splits)
qed

lemma acquire_loop_settled:
  assumes "idle (rq_lease q) d" "wf_leases d" "\<forall>t\<in>set ts. turn_foreign (rq_lease q) t"
    and "acquire_loop q ts d = (r, msgs, d')"
  shows "settled (rq_lease q) r d'"
  using assms
proof (induction ts arbitrary: d r msgs)
  case (Cons t ts)
  obtain r1 m1 d1 where t: "acquire_turn_step q t d = (r1, m1, d1)" by (cases "acquire_turn_step q t d")
  have st: "settled (rq_lease q) r1 d1"
    using acquire_turn_settled [OF Cons.prems(1,2) _ t] Cons.prems(3) by simp
  show ?case
  proof (cases r1)
    case GoOn
    with t Cons.prems(4) obtain m2 where "acquire_loop q ts d1 = (r, m2, d')"
      by (auto split: prod.splits)
    with st GoOn Cons.IH [of d1 r m2] Cons.prems(3) show ?thesis by simp
  qed (use t Cons.prems(4) st in auto)
qed simp

section \<open>The loop ends\<close>

lemma resource_lock_returns:
  "\<exists>(c, g)\<in>set ts. deadline \<le> c \<Longrightarrow> resource_lock deadline ts \<noteq> None"
  by (induction deadline ts rule: resource_lock.induct) auto

lemma make_room_returns:
  "\<exists>t\<in>set ts. deadline \<le> rm_clock t \<Longrightarrow> fst (make_room deadline target required ts d) \<noteq> None"
proof (induction ts arbitrary: d)
  case (Cons t ts)
  obtain r1 m1 d1 where t: "make_room_turn deadline target required t d = (r1, m1, d1)"
    by (cases "make_room_turn deadline target required t d")
  show ?case
  proof (cases "deadline \<le> rm_clock t")
    case True
    with t have "r1 \<noteq> None" by (auto simp: make_room_turn_def Let_def)
    with t show ?thesis by auto
  next
    case False
    with Cons.prems have "\<exists>t\<in>set ts. deadline \<le> rm_clock t" by auto
    from Cons.IH [OF this, of d1] t show ?thesis by (cases r1) (auto split: prod.splits)
  qed
qed simp

lemma wait_returns:
  "\<exists>(c, d)\<in>set ps. deadline < c \<Longrightarrow> wait_until_ready deadline i ps \<noteq> None"
proof (induction ps)
  case (Cons p ps)
  obtain c d where p: "p = (c, d)" by fastforce
  show ?case
  proof (cases "ready_poll deadline c i d")
    case None
    then have "\<not> deadline < c" by (auto simp: ready_poll_def split: option.splits if_splits)
    with Cons p None show ?thesis by auto
  next
    case (Some r)
    with p show ?thesis by simp
  qed
qed simp

lemma poll_states_clocks: "map fst (poll_states ps d) = map fst ps"
  by (induction ps arbitrary: d) auto

lemma ensure_ready_returns:
  assumes "c \<in> set (map fst polls)" "now + timeout < c" "now + UNHEALTHY_RECOVERY_TIMEOUT < c"
  shows "fst (ensure_server_ready b timeout env now polls i d) \<noteq> None"
proof -
  have w: "wait_until_ready (now + x) i polls \<noteq> None" if "x \<in> {timeout, UNHEALTHY_RECOVERY_TIMEOUT}" for x
    using assms that by (intro wait_returns) force
  show ?thesis
  proof (cases "ready_check b timeout i d")
    case (WaitFor x)
    then have "x \<in> {timeout, UNHEALTHY_RECOVERY_TIMEOUT}"
      by (auto simp: ready_check_def split: option.splits if_splits)
    with WaitFor w show ?thesis by (simp add: ensure_server_ready_def Let_def)
  qed (use w in \<open>auto simp: ensure_server_ready_def Let_def split: sum.split start_decision.split prod.split\<close>)
qed

text \<open>The preparation goes on at least until the deadline, if nothing ends it before.\<close>

definition prepare_bounded :: "time \<Rightarrow> prepare_env \<Rightarrow> bool" where
  "prepare_bounded deadline e \<longleftrightarrow> (\<exists>(c, g)\<in>set (pe_locks e). deadline \<le> c) \<and>
     (\<exists>t\<in>set (pe_room e). deadline \<le> rm_clock t) \<and>
     (\<exists>(c, cs)\<in>set (pe_polls e). deadline < c \<and> pe_clock e + UNHEALTHY_RECOVERY_TIMEOUT < c)"

lemma prepare_returns:
  assumes "prepare_bounded deadline e"
  shows "fst (prepare_target deadline k e d) \<noteq> None"
proof -
  have room: "\<exists>t\<in>set (pe_room e). deadline \<le> rm_clock t"
    and lock: "resource_lock deadline (pe_locks e) \<noteq> None"
    using assms resource_lock_returns by (auto simp: prepare_bounded_def)
  obtain c where c: "c \<in> set (map fst (pe_polls e))" "deadline < c"
    "pe_clock e + UNHEALTHY_RECOVERY_TIMEOUT < c"
    using assms by (force simp: prepare_bounded_def)
  have ready: "fst (ensure_server_ready b (deadline - pe_clock e) env (pe_clock e)
      (poll_states (pe_polls e) x) k y) \<noteq> None" for b env x y
    using c by (intro ensure_ready_returns [of c]) (simp_all add: poll_states_clocks del: set_map)
  have "fst (prepare_locked deadline k e d1) \<noteq> None" for d1
  proof (cases "get_server d1 k")
    case (Some s)
    have "fst (make_room deadline s (required_vram s d1) (pe_room e) d1) \<noteq> None"
      by (rule make_room_returns [OF room])
    with Some ready show ?thesis
      by (auto simp: prepare_locked_def Let_def split: option.splits sum.splits prod.splits)
  qed (simp add: prepare_locked_def)
  with lock show ?thesis by (auto simp: prepare_target_def split: option.splits sum.splits)
qed

lemma ensure_idle_not_waiting:
  "idle i d \<Longrightarrow> fst (ensure_queued i now d) \<noteq> Inr False"
  by (auto simp: ensure_queued_def idle_def in_slot_def split: option.splits)

lemma turn_last_not_waiting: "fst (turn_last q t d) \<noteq> Waiting"
  by (simp add: turn_last_def)

lemma turn_not_waiting:
  assumes "prepare_bounded (rq_deadline q) (at_prepare t)"
  shows "fst (acquire_turn_step q t d) \<noteq> Waiting"
proof -
  have last: "turn_last q t x \<noteq> (Waiting, y)" for x y
    using turn_last_not_waiting [of q t x] by auto
  have prep: "fst (turn_prepared q t s x) \<noteq> Waiting" for s x
    using last
    by (auto simp: turn_prepared_def split: sum.splits bool.splits option.splits prod.splits)
  then have prep': "turn_prepared q t s x \<noteq> (Waiting, y)" for s x y by (metis fst_conv)
  have p: "prepare_target (rq_deadline q) k (at_prepare t) x \<noteq> (None, y)" for k x y
    using prepare_returns [OF assms, of k x] by auto
  have targ: "fst (turn_target q t cs x) \<noteq> Waiting" for cs x
    using last prep' p
    by (auto simp: turn_target_def split: option.splits prod.splits sum.splits if_splits)
  then have targ': "turn_target q t cs x \<noteq> (Waiting, y)" for cs x y by (metis fst_conv)
  have "fst (turn_candidates q t x) \<noteq> Waiting" for x
    using targ' by (auto simp: turn_candidates_def Let_def split: option.splits prod.splits)
  then show ?thesis
    by (auto simp: acquire_turn_step_def Let_def split: sum.splits bool.splits prod.splits)
qed

lemma turn_past_deadline:
  assumes "idle (rq_lease q) d" "wf_leases d" "turn_foreign (rq_lease q) t" "rq_deadline q \<le> at_clock t"
  shows "fst (acquire_turn_step q t d) \<noteq> GoOn"
proof -
  have "idle (rq_lease q) (run_cmds (at_before t) d)"
    using idle_foreign [OF assms(1,2)] assms(3) by (simp add: turn_foreign_def)
  from ensure_idle_not_waiting [OF this, of "at_now t"] assms(4) show ?thesis
    by (auto simp: acquire_turn_step_def Let_def split: sum.splits bool.splits prod.splits)
qed

lemma acquire_loop_returns:
  assumes "idle (rq_lease q) d" "wf_leases d" "\<forall>t\<in>set ts. turn_foreign (rq_lease q) t"
    and "\<forall>t\<in>set ts. prepare_bounded (rq_deadline q) (at_prepare t)"
    and "\<exists>t\<in>set ts. rq_deadline q \<le> at_clock t"
  shows "\<exists>r msgs d'. acquire_loop q ts d = (Done r, msgs, d')"
  using assms
proof (induction ts arbitrary: d)
  case (Cons t ts)
  obtain r1 m1 d1 where t: "acquire_turn_step q t d = (r1, m1, d1)" by (cases "acquire_turn_step q t d")
  have st: "settled (rq_lease q) r1 d1" and nw: "r1 \<noteq> Waiting"
    using acquire_turn_settled [OF Cons.prems(1,2) _ t] turn_not_waiting [of q t d] Cons.prems(3,4) t by auto
  show ?case
  proof (cases r1)
    case GoOn
    have "turn_foreign (rq_lease q) t" using Cons.prems(3) by simp
    from turn_past_deadline [OF Cons.prems(1,2) this] t GoOn have "\<not> rq_deadline q \<le> at_clock t" by auto
    with Cons.IH [of d1] Cons.prems(3-5) st GoOn obtain r m d' where "acquire_loop q ts d1 = (Done r, m, d')"
      by auto
    with t GoOn show ?thesis by simp
  next
    case Waiting
    with nw show ?thesis by simp
  next
    case (Done r)
    with t show ?thesis by simp
  qed
qed simp

section \<open>Properties\<close>

text \<open>What a call of \<open>acquire\<close> needs: a fresh id, and other workers that leave its lease to it.\<close>

definition acquire_ok :: "request \<Rightarrow> string \<Rightarrow> acquire_turn list \<Rightarrow> acquire_end \<Rightarrow> db \<Rightarrow> bool" where
  "acquire_ok q request_id turns e d \<longleftrightarrow> wf_leases d \<and> rq_lease q \<notin> ls_id ` set (db_leases d) \<and>
     request_id \<notin> ls_request_id ` set (db_leases d) \<and> (\<forall>t\<in>set turns. turn_foreign (rq_lease q) t) \<and>
     foreign_cmds (rq_lease q) (ae_before e) \<and> foreign_cmds (rq_lease q) (ae_between e)"

lemma acquire_queued:
  assumes "acquire_ok q request_id turns e d"
  obtains l d1 where "queue_tx (rq_lease q) request_id (rq_model q) (now + timeout) (rq_preferred q) (rq_agent q) now d
      = (Inr l, d1)" "idle (rq_lease q) d1" "wf_leases d1"
proof -
  let ?l = "new_lease (rq_lease q) request_id (rq_model q) (now + timeout) (rq_preferred q) (rq_agent q) now"
  let ?d = "d\<lparr>db_leases := db_leases d @ [?l]\<rparr>"
  have q: "queue_tx (rq_lease q) request_id (rq_model q) (now + timeout) (rq_preferred q) (rq_agent q) now d = (Inr ?l, ?d)"
    using assms by (simp add: queue_tx_def Let_def acquire_ok_def)
  have "filter (\<lambda>l. ls_id l = rq_lease q) (db_leases d) = []"
    using assms imageI [of _ "set (db_leases d)" ls_id] unfolding acquire_ok_def filter_empty_conv by metis
  then have "get_lease ?d (rq_lease q) = Some ?l" by (simp add: get_lease_def new_lease_def)
  then have "idle (rq_lease q) ?d" by (auto simp: idle_def in_slot_def new_lease_def)
  moreover have "wf_leases ?d"
    using evolves_wf [OF _ evolves_queue_tx] q assms unfolding acquire_ok_def by (metis snd_conv)
  ultimately show thesis using q that by blast
qed

lemma finally_terminal:
  assumes "idle i d"
  shows "\<exists>l. get_lease (acquire_finally i now d) i = Some l \<and> terminal (ls_status l)"
proof -
  obtain r where r: "get_lease d i = Some r" "\<not> in_slot r" using assms by (auto simp: idle_def)
  have "get_lease (acquire_finally i now d) i =
      map_option (\<lambda>r. if pending_row i r then finish_row Failed ''request_abandoned'' now r else r) (get_lease d i)"
    unfolding acquire_finally_def finish_queued_def snd_conv
    by (rule get_lease_update_leases) simp
  with r get_lease_in [OF r(1)] lease_status_trichotomy [of "ls_status r"] show ?thesis
    by (auto simp: pending_row_def in_slot_def)
qed

lemma except_idle:
  assumes "idle i d" "wf_leases d"
  shows "idle i (acquire_except x i now d) \<and> wf_leases (acquire_except x i now d)"
proof -
  have "idle i (snd (finish_queued i st reason now d)) \<and> wf_leases (snd (finish_queued i st reason now d))"
    if "st \<in> {Cancelled, Expired, Failed}" for st reason
    using idle_finish [OF assms(1), of st "pending_row i" reason now]
      evolves_wf [OF assms(2) evolves_finish_queued [OF that]] that
    by (auto simp: finish_queued_def)
  then show ?thesis by (cases x) (simp_all add: acquire_except_def cancel_queued_def)
qed


text \<open>
  A request that is admitted owns its slot. When \<open>acquire\<close> returns a handle, the lease
  of this request is active under exactly the handle's generation, so the handle's renewal,
  release and cancellation address this row.
\<close>

theorem acquire_success_owns_lease:
  assumes "acquire_ok q request_id turns e d" "acquire q request_id now timeout turns e d = (Some (Inr h), msgs, d')"
  shows "\<exists>l. get_lease d' (rq_lease q) = Some l \<and> owned_active h l"
proof -
  let ?i = "rq_lease q"
  obtain l d1 where d1: "queue_tx ?i request_id (rq_model q) (now + timeout) (rq_preferred q) (rq_agent q) now d = (Inr l, d1)"
    "idle ?i d1" "wf_leases d1"
    using acquire_queued [OF assms(1)] by blast
  obtain r m d2 where lp: "acquire_loop q turns d1 = (r, m, d2)" by (cases "acquire_loop q turns d1")
  have "settled ?i r d2"
    using acquire_loop_settled [OF d1(2,3) _ lp] assms(1) by (simp add: acquire_ok_def)
  moreover from assms(2) d1(1) lp have "r = Done (Inr h)" "d' = d2"
    by (auto simp: acquire_def split: turn_end.splits sum.splits)
  ultimately show ?thesis by (auto simp: settled_def)
qed

text \<open>
  Claim C14: a request does not wait for ever. If its loop makes a turn at or after its deadline,
  and each preparation of a target goes on to the deadline unless it ends before, \<open>acquire\<close>
  returns or raises within the given turns.
\<close>

theorem acquire_returns:
  assumes "acquire_ok q request_id turns e d"
    and "\<forall>t\<in>set turns. prepare_bounded (rq_deadline q) (at_prepare t)"
    and "\<exists>t\<in>set turns. rq_deadline q \<le> at_clock t"
  shows "\<exists>r msgs d'. acquire q request_id now timeout turns e d = (Some r, msgs, d')"
proof -
  obtain l d1 where d1: "queue_tx (rq_lease q) request_id (rq_model q) (now + timeout) (rq_preferred q) (rq_agent q) now d = (Inr l, d1)"
    "idle (rq_lease q) d1" "wf_leases d1"
    using acquire_queued [OF assms(1)] by blast
  obtain r m d2 where "acquire_loop q turns d1 = (Done r, m, d2)"
    using acquire_loop_returns [OF d1(2,3) _ assms(2,3)] assms(1) unfolding acquire_ok_def by blast
  with d1(1) show ?thesis by (cases r) (simp_all add: acquire_def)
qed

text \<open>
  Room is made before a start. When \<open>_make_room\<close> returns, the VRAM the agent reported in
  one of its turns holds the target and all running servers on the same device, as they are in
  the database at that moment.
\<close>

theorem make_room_fits:
  assumes "make_room deadline target required ts d = (Some (Inr u), msgs, d')"
  shows "\<exists>avail \<in> set (List.map_filter rm_total ts). vram_requirements_fit (max avail 0) required (allocated_vram target d')"
  using assms
proof (induction ts arbitrary: d msgs)
  case (Cons t ts)
  obtain r1 m1 d1 where t: "make_room_turn deadline target required t d = (r1, m1, d1)"
    by (cases "make_room_turn deadline target required t d")
  show ?case
  proof (cases r1)
    case None
    with t Cons.prems obtain m2 where "make_room deadline target required ts d1 = (Some (Inr u), m2, d')"
      by (auto split: prod.splits)
    from Cons.IH [OF this] show ?thesis by (auto simp: List.map_filter_simps split: option.split)
  next
    case (Some r)
    with t Cons.prems have "make_room_turn deadline target required t d = (Some (Inr u), m1, d')" by simp
    then show ?thesis
      by (auto simp: make_room_turn_def Let_def live_vram_def List.map_filter_simps split: if_splits option.splits
          prod.splits sum.splits)
  qed
qed simp

end
