(* ===== verification/QueueStatus.thy ===== *)
theory QueueStatus
  imports Admission
begin

text \<open>
  \<open>status_snapshot\<close> of backend/app/services/inference_scheduler.py: the queue and slot figures of
  the UI status bar, from one reading transaction. The state of the reconciliation task, which
  the snapshot also reports, is left out.
\<close>

record server_status_row =
  ss_id :: uuid
  ss_alias :: string
  ss_model :: uuid
  ss_capacity :: int
  ss_active :: int
  ss_stale_active :: int
  ss_available :: int
  ss_queued :: int
  ss_telemetry_known :: bool
  ss_ready :: bool

record queue_status =
  qs_queued :: int
  qs_active :: int
  qs_stale_active :: int
  qs_available :: int
  qs_capacity :: int
  qs_servers :: "server_status_row list"

definition queued_of_model :: "db \<Rightarrow> uuid \<Rightarrow> int" where
  "queued_of_model d m = int (count_leases (\<lambda>r. pending (ls_status r) \<and> ls_model_id r = m) d)"

definition active_of_server :: "db \<Rightarrow> uuid \<Rightarrow> int" where
  "active_of_server d i = int (count_leases (\<lambda>r. ls_status r = Active \<and> ls_server_instance_id r = Some i) d)"

definition stale_of_server :: "time \<Rightarrow> db \<Rightarrow> uuid \<Rightarrow> int" where
  "stale_of_server now d i = int (count_leases (\<lambda>r. ls_status r = Active \<and>
     ls_server_instance_id r = Some i \<and> sql_le (ls_lease_expires_at r) now) d)"

definition server_figures :: "time \<Rightarrow> db \<Rightarrow> server_row \<Rightarrow> server_status_row" where
  "server_figures now d s =
     (let booting = srv_status s \<noteq> SrvRunning \<or> srv_health s \<noteq> HHealthy;
          active = (if booting then 0 else active_of_server d (srv_id s));
          capacity = (if booting then 0 else server_capacity s)
      in \<lparr>ss_id = srv_id s, ss_alias = srv_alias s, ss_model = srv_model_id s, ss_capacity = capacity,
          ss_active = active, ss_stale_active = stale_of_server now d (srv_id s),
          ss_available = (if booting then 0 else max (capacity - active) 0),
          ss_queued = queued_of_model d (srv_model_id s), ss_telemetry_known = (\<not> booting),
          ss_ready = (\<not> booting)\<rparr>)"

definition status_snapshot :: "time \<Rightarrow> db \<Rightarrow> queue_status" where
  "status_snapshot now d =
     (let rows = map (server_figures now d)
            (filter (\<lambda>s. srv_status s \<in> {SrvStarting, SrvRunning}) (db_servers d))
      in \<lparr>qs_queued = int (count_leases (\<lambda>r. pending (ls_status r)) d),
          qs_active = sum_list (map ss_active rows),
          qs_stale_active = int (count_leases (\<lambda>r. ls_status r = Active \<and>
            ls_server_instance_id r \<noteq> None \<and> sql_le (ls_lease_expires_at r) now) d),
          qs_available = sum_list (map ss_available rows),
          qs_capacity = sum_list (map ss_capacity rows), qs_servers = rows\<rparr>)"

section \<open>Properties\<close>

lemma server_figures_balance:
  "ss_capacity (server_figures now d s) \<le> ss_active (server_figures now d s) + ss_available (server_figures now d s) \<and>
   0 \<le> ss_available (server_figures now d s) \<and> 0 \<le> ss_active (server_figures now d s) \<and>
   (0 < ss_available (server_figures now d s) \<longrightarrow> serving s \<and>
      active_of_server d (srv_id s) < server_capacity s)"
  by (auto simp: server_figures_def Let_def active_of_server_def serving_def)

text \<open>
  The status bar adds up: the totals of a snapshot count every slot of the ready servers as used
  or available, and available slots are shown only where a ready server has fewer active leases
  than its capacity.
\<close>

lemma snapshot_adds_up:
  "qs_capacity (status_snapshot now d) \<le> qs_active (status_snapshot now d) + qs_available (status_snapshot now d) \<and>
   (0 < qs_available (status_snapshot now d) \<longrightarrow>
     (\<exists>s\<in>set (db_servers d). serving s \<and> active_of_server d (srv_id s) < server_capacity s))"
proof -
  let ?ss = "filter (\<lambda>s. srv_status s \<in> {SrvStarting, SrvRunning}) (db_servers d)"
  have "sum_list (map (\<lambda>s. ss_capacity (server_figures now d s)) xs) \<le>
      sum_list (map (\<lambda>s. ss_active (server_figures now d s)) xs) +
      sum_list (map (\<lambda>s. ss_available (server_figures now d s)) xs)" for xs
  proof (induction xs)
    case (Cons s xs)
    from Cons server_figures_balance [of now d s] show ?case by simp
  qed simp
  moreover have "\<exists>s\<in>set xs. 0 < ss_available (server_figures now d s)"
    if "0 < sum_list (map (\<lambda>s. ss_available (server_figures now d s)) xs)" for xs
    using that
  proof (induction xs)
    case (Cons s xs)
    then show ?case by (cases "0 < ss_available (server_figures now d s)")
      (use server_figures_balance [of now d s] in auto)
  qed simp
  ultimately show ?thesis
    using server_figures_balance [of now d]
    by (fastforce simp: status_snapshot_def Let_def comp_def)
qed

end
