(* ===== verification/AcquireExamples.thy ===== *)
theory AcquireExamples
  imports Examples AcquireSafety QueueStatus
begin

text \<open>
  Worked examples of server startup and of a request's way to a slot, at which the theorems of
  \<open>ServerStartup\<close> and \<open>AcquireSafety\<close> are applied.
\<close>

section \<open>Startup\<close>

lemma ready_is_serving_witness: "serving ex_server \<and> srv_id ex_server = 0"
proof (rule ready_is_serving)
  show "ensure_server_ready False (seconds 900) id 0 [] 0 ex_running = (Some (Inr ex_server), None, ex_running)"
    by code_simp
qed

definition ex_model :: model_row where
  "ex_model = \<lparr>md_id = 10, md_name = ''m'', md_size_bytes = 100\<rparr>"

text \<open>A stopped server with its model, and the same server once a start was begun.\<close>

definition ex_cold :: db where
  "ex_cold = (ex_db [])\<lparr>db_models := [ex_model], db_servers := [ex_server\<lparr>srv_status := SrvStopped\<rparr>]\<rparr>"

definition ex_begun :: db where
  "ex_begun = snd (ready_start_tx 0 ex_cold)"

lemma ex_begun_eq: "ready_start_tx 0 ex_cold = (Inr (Dispatch 20 4), ex_begun)"
  unfolding ex_begun_def by (rule pair_fst) code_simp

lemma ex_begun_server: "get_server ex_begun 0 = Some ex_started" "srv_status ex_started \<in> {SrvStarting, SrvRunning}"
  by code_simp+

lemma ex_joined:
  "ensure_server_ready False (seconds 900) (\<lambda>_. ex_begun) 0 [] 0 ex_cold = (None, None, ex_begun)"
  by code_simp

lemma one_start_dispatched_witness:
  "(None :: (uuid \<times> int) option) = None \<and> (ex_begun = ex_begun \<or> ex_begun = ex_cold) \<and>
    (\<exists>s s1. get_server ex_cold 0 = Some s \<and> get_server ex_begun 0 = Some s1 \<and> srv_status s1 = SrvStarting \<and>
       srv_slot_generation s1 = srv_slot_generation s + 1 \<and> 4 = srv_slot_generation s1)"
  by (rule one_start_dispatched [OF ex_begun_eq ex_begun_server ex_joined])

lemma late_start_answer_fenced_witness:
  "dispatch_start (seconds 9) 0 3 (Started empty_response) id ex_begun = id ex_begun"
  by (rule late_start_answer_fenced) code_simp

definition ex_answers :: init_answers where
  "ex_answers = \<lparr>ia_prepare = None, ia_start = Started empty_response, ia_metadata = Inr [Some ''meta''],
     ia_stop = None, ia_env = (\<lambda>_ d. d)\<rparr>"

definition ex_initialized :: server_row where
  "ex_initialized = ex_server\<lparr>srv_slot_generation := 4, srv_status := SrvStopped, srv_health := HUnknown,
     srv_metadata := Some ''meta'', srv_error_message := None\<rparr>"

lemma initialization_settles_witness:
  "srv_status ex_initialized = SrvStopped \<or> srv_status ex_initialized = SrvInitializationFailed"
proof (rule initialization_settles)
  show "get_server ex_cold 0 = Some (ex_server\<lparr>srv_status := SrvStopped\<rparr>)" by code_simp
  show "get_server (initialize_server ex_answers 0 False ex_cold) 0 = Some ex_initialized" by code_simp
qed

section \<open>Split models\<close>

definition ex_part :: "string \<Rightarrow> nat" where
  "ex_part x = (if x = ''m-00001-of-00002.gguf'' then 1 else 2)"

lemma ex_parts: "part_name ''m-00001-of-00002.gguf'' 1" "part_name ''m-00002-of-00002.gguf'' 2"
  unfolding part_name_def
  by (rule exI [of _ "[]"], rule exI [of _ "''m''"], rule exI [of _ "''00001''"], rule exI [of _ "''00002''"], code_simp)
    (rule exI [of _ "[]"], rule exI [of _ "''m''"], rule exI [of _ "''00002''"], rule exI [of _ "''00002''"], code_simp)

lemma primary_part_first_witness:
  "(\<exists>p\<in>set [''m-00002-of-00002.gguf'', ''m-00001-of-00002.gguf''].
      pick_primary_filename (sort_parts [''m-00002-of-00002.gguf'', ''m-00001-of-00002.gguf'']) = Inr p \<and> ex_part p = 1) \<and>
    sorted (map ex_part (sort_parts [''m-00002-of-00002.gguf'', ''m-00001-of-00002.gguf''])) \<and>
    mset (sort_parts [''m-00002-of-00002.gguf'', ''m-00001-of-00002.gguf'']) =
      mset [''m-00002-of-00002.gguf'', ''m-00001-of-00002.gguf'']"
proof (rule primary_part_first)
  show "\<forall>x\<in>set [''m-00002-of-00002.gguf'', ''m-00001-of-00002.gguf'']. part_name x (ex_part x)"
    using ex_parts by (simp add: ex_part_def)
  show "''m-00001-of-00002.gguf'' \<in> set [''m-00002-of-00002.gguf'', ''m-00001-of-00002.gguf'']" by simp
  show "ex_part ''m-00001-of-00002.gguf'' = 1" by (simp add: ex_part_def)
qed

section \<open>A request's way to a slot\<close>

definition ex_request :: request where
  "ex_request = \<lparr>rq_lease = 1, rq_model = 10, rq_preferred = None, rq_agent = None,
     rq_deadline = seconds 600, rq_callback = False\<rparr>"

definition ex_claim_env :: claim_env where
  "ex_claim_env = \<lparr>ce_before = [], ce_lock = True, ce_now = seconds 10, ce_attempt = 50,
     ce_env = ex_env Accepted, ce_disconnected = False, ce_cancel_now = 0, ce_cancel_cancelled = False\<rparr>"

definition ex_prepare :: prepare_env where
  "ex_prepare = \<lparr>pe_locks = [(0, True), (seconds 600, True)], pe_before = [],
     pe_room = [\<lparr>rm_before = [], rm_clock = seconds 600, rm_total = None, rm_now = 0, rm_reply = None,
       rm_during_stop = []\<rparr>],
     pe_clock = 0, pe_benchmark = False, pe_before_start = [], pe_polls = [(seconds 1000, [])]\<rparr>"

text \<open>A turn of the loop at a given time on its clock.\<close>

definition ex_turn :: "time \<Rightarrow> acquire_turn" where
  "ex_turn clock = \<lparr>at_disconnected = False, at_cancelled = False, at_before = [],
     at_now = seconds 10, at_clock = clock, at_open = True, at_select = [],
     at_claims = (\<lambda>_. ex_claim_env), at_prepare = ex_prepare, at_prepare_cancelled = False,
     at_prepared_disconnected = False, at_prepared = [], at_prepared_now = seconds 10,
     at_prepared_claim = ex_claim_env, at_end_clock = clock\<rparr>"

definition ex_end :: acquire_end where
  "ex_end = \<lparr>ae_before = [], ae_except_now = seconds 601, ae_between = [], ae_finally_now = seconds 602\<rparr>"

lemma ex_turn_foreign: "turn_foreign i (ex_turn c)"
proof -
  have env: "env_foreign i (ex_env Accepted)"
    unfolding env_foreign_def by (intro exI [of _ "[]"]) (simp add: ex_env_def run_cmds_def foreign_cmds_def fun_eq_iff)
  then show ?thesis
    by (simp add: turn_foreign_def ex_turn_def claim_foreign_def ex_claim_env_def prepare_foreign_def
        ex_prepare_def room_foreign_def foreign_cmds_def)
qed

lemma ex_acquire_ok: "acquire_ok ex_request ''a'' [ex_turn c] ex_end (ex_db [])"
proof -
  have "wf_leases (ex_db [])" by code_simp
  then show ?thesis
    by (simp add: acquire_ok_def ex_turn_foreign ex_end_def foreign_cmds_def ex_request_def ex_db_def)
qed

definition ex_acquire :: "time \<Rightarrow> (exn + lease_handle) option \<times> agent_msg list \<times> db" where
  "ex_acquire c = acquire ex_request ''a'' (seconds 5) (seconds 595) [ex_turn c] ex_end (ex_db [])"

definition ex_handle :: lease_handle where
  "ex_handle = (case fst (ex_acquire (seconds 10)) of Some (Inr h) \<Rightarrow> h)"

text \<open>In time the running server is claimed; at the deadline the request times out.\<close>

lemma ex_admitted: "fst (ex_acquire (seconds 10)) = Some (Inr ex_handle)"
  by code_simp

lemma ex_timed_out: "fst (ex_acquire (seconds 600)) = Some (Inl queue_timeout)"
  by code_simp

lemma triple_fst: "fst p = a \<Longrightarrow> p = (a, fst (snd p), snd (snd p))"
  by auto


lemma acquire_success_owns_lease_witness:
  "\<exists>l. get_lease (snd (snd (ex_acquire (seconds 10)))) 1 = Some l \<and> owned_active ex_handle l"
  using acquire_success_owns_lease [OF ex_acquire_ok triple_fst [OF ex_admitted, unfolded ex_acquire_def]]
  by (simp add: ex_acquire_def ex_request_def)

lemma acquire_returns_witness: "\<exists>r msgs d'. ex_acquire (seconds 600) = (Some r, msgs, d')"
  unfolding ex_acquire_def
proof (rule acquire_returns [OF ex_acquire_ok])
  show "\<forall>t\<in>set [ex_turn (seconds 600)]. prepare_bounded (rq_deadline ex_request) (at_prepare t)"
    by (simp add: prepare_bounded_def ex_turn_def ex_prepare_def ex_request_def) code_simp
  show "\<exists>t\<in>set [ex_turn (seconds 600)]. rq_deadline ex_request \<le> at_clock t"
    by (simp add: ex_turn_def ex_request_def)
qed

definition ex_room :: room_turn where
  "ex_room = \<lparr>rm_before = [], rm_clock = 0, rm_total = Some 1000, rm_now = 0, rm_reply = None, rm_during_stop = []\<rparr>"

lemma make_room_fits_witness:
  "\<exists>avail \<in> set (List.map_filter rm_total [ex_room]).
     vram_requirements_fit (max avail 0) 100 (allocated_vram (ex_server\<lparr>srv_status := SrvStopped\<rparr>) ex_cold)"
proof (rule make_room_fits)
  show "make_room (seconds 9) (ex_server\<lparr>srv_status := SrvStopped\<rparr>) 100 [ex_room] ex_cold = (Some (Inr ()), [], ex_cold)"
    by code_simp
qed

end
