(* ===== verification/AgentState.thy ===== *)
theory AgentState
  imports Prelude
begin

text \<open>
  The state of the agent that its inference proxy works on: the launch configuration of a
  server (\<open>ServerConfig\<close>, \<open>src/agent/app/services/llama_server.py\<close>), the values its options
  may have, the slot capacity read from them (\<open>get_effective_capacity\<close>), and the record of an
  operation with the attributes that \<open>inference_operations.py\<close> and \<open>proxy.py\<close> keep on the
  server manager. \<open>llama_manager\<close> (theory \<open>LlamaManager\<close>) extends this record.
\<close>

section \<open>Option values\<close>

text \<open>
  A value of the JSON object \<open>options\<close>. A float carries its truncation and its rendering by
  \<open>str\<close>; a list or object whether it is non-empty and its rendering.
\<close>

datatype opt_value =
    OptNone
  | OptBool bool
  | OptInt int
  | OptFloat int bool string
  | OptStr string
  | OptTree bool string

text \<open>Truth value, \<open>str\<close> and \<open>int\<close> of an option (\<open>OptFloat\<close>'s flag: it is not zero).\<close>

definition truthy :: "opt_value \<Rightarrow> bool" where
  "truthy v = (case v of OptNone \<Rightarrow> False | OptBool b \<Rightarrow> b | OptInt i \<Rightarrow> i \<noteq> 0
     | OptFloat i nz s \<Rightarrow> nz | OptStr s \<Rightarrow> s \<noteq> [] | OptTree ne s \<Rightarrow> ne)"

definition opt_str :: "opt_value \<Rightarrow> string" where
  "opt_str v = (case v of OptNone \<Rightarrow> ''None'' | OptBool b \<Rightarrow> if b then ''True'' else ''False''
     | OptInt i \<Rightarrow> show_int i | OptFloat i nz s \<Rightarrow> s | OptStr s \<Rightarrow> s | OptTree ne s \<Rightarrow> s)"

text \<open>\<open>int(s)\<close> of a string: white space around, one sign, digits with single underscores
  between them; anything else is a ValueError (None).\<close>

definition blank :: "char \<Rightarrow> bool" where
  "blank c = (of_char c \<in> {9, 10, 11, 12, 13, 28, 29, 30, 31, 32, 133, 160 :: nat})"

definition digit_of :: "char \<Rightarrow> int option" where
  "digit_of c = (let n = of_char c :: nat in if 48 \<le> n \<and> n \<le> 57 then Some (int n - 48) else None)"

text \<open>The flag of \<open>read_digits\<close>: the previous character was a digit.\<close>

fun read_digits :: "bool \<Rightarrow> int \<Rightarrow> string \<Rightarrow> int option" where
  "read_digits after_digit acc [] = (if after_digit then Some acc else None)"
| "read_digits after_digit acc (c # cs) =
     (if c = CHR ''_'' then (if after_digit \<and> cs \<noteq> [] then read_digits False acc cs else None)
      else case digit_of c of None \<Rightarrow> None | Some d \<Rightarrow> read_digits True (10 * acc + d) cs)"

definition int_of_string :: "string \<Rightarrow> int option" where
  "int_of_string s =
     (case rev (dropWhile blank (rev (dropWhile blank s))) of
        [] \<Rightarrow> None
      | c # cs \<Rightarrow>
          if c = CHR ''-'' then map_option uminus (if cs = [] then None else read_digits False 0 cs)
          else if c = CHR ''+'' then (if cs = [] then None else read_digits False 0 cs)
          else if c = CHR ''_'' then None
          else read_digits False 0 (c # cs))"

text \<open>\<open>int(v)\<close>; None where Python raises TypeError or ValueError.\<close>

definition opt_int :: "opt_value \<Rightarrow> int option" where
  "opt_int v = (case v of OptNone \<Rightarrow> None | OptBool b \<Rightarrow> Some (if b then 1 else 0)
     | OptInt i \<Rightarrow> Some i | OptFloat i nz s \<Rightarrow> Some i | OptStr s \<Rightarrow> int_of_string s
     | OptTree ne s \<Rightarrow> None)"

section \<open>Server configuration and capacity\<close>

record engine_config =
  ec_model_path :: string
  ec_port :: int
  ec_gpu_layers :: int
  ec_context_size :: int
  ec_batch_size :: int
  ec_cache_prompt :: bool
  ec_flash_attn :: "bool option"
  ec_mtp_draft_max :: "int option"
  ec_jinja :: bool
  ec_mmproj_path :: "string option"
  ec_draft_model_path :: "string option"
  ec_options :: "(string \<times> opt_value) list option"
  ec_generation :: int

text \<open>\<open>config.options or {}\<close>\<close>

definition options_of :: "engine_config \<Rightarrow> (string \<times> opt_value) list" where
  "options_of c = (case ec_options c of None \<Rightarrow> [] | Some os \<Rightarrow> os)"

definition opt_truthy :: "(string \<times> opt_value) list \<Rightarrow> string \<Rightarrow> bool" where
  "opt_truthy os k = (case map_of os k of None \<Rightarrow> False | Some v \<Rightarrow> truthy v)"

definition effective_capacity :: "engine_config \<Rightarrow> int" where
  "effective_capacity c =
     (let os = options_of c in
      if opt_truthy os ''strict_mtp_qwen'' then 1
      else case opt_int (case map_of os ''parallel'' of None \<Rightarrow> OptInt 1 | Some v \<Rightarrow> v) of
             None \<Rightarrow> 1 | Some n \<Rightarrow> max n 1)"

lemma effective_capacity_pos: "1 \<le> effective_capacity c"
  by (simp add: effective_capacity_def Let_def split: option.splits)

section \<open>Operations and slots\<close>

text \<open>asyncio tasks are identified by numbers.\<close>

type_synonym task = nat

datatype op_status = OpQueued | OpReserved | OpActive | OpCancelling
  | OpCompleted | OpCancelled | OpFailed

definition live_status :: "op_status \<Rightarrow> bool" where
  "live_status s \<longleftrightarrow> s = OpQueued \<or> s = OpReserved \<or> s = OpActive \<or> s = OpCancelling"

lemma live_status_simps [simp]:
  "live_status OpQueued" "live_status OpReserved" "live_status OpActive" "live_status OpCancelling"
  "\<not> live_status OpCompleted" "\<not> live_status OpCancelled" "\<not> live_status OpFailed"
  by (simp_all add: live_status_def)

text \<open>One entry of \<open>_inference_operations\<close>; the keys the dict may lack are options, a missing
  \<open>dispatched\<close> reads as false and a missing \<open>reservation_id\<close> as None, as \<open>get\<close> does.\<close>

record operation =
  op_server :: uuid
  op_generation :: int
  op_status :: op_status
  op_started_at :: time
  op_finished_at :: "time option"
  op_task :: "task option"
  op_dispatched :: bool
  op_reservation :: "uuid option"
  op_timer :: "task option"

text \<open>
  What the operations and the proxy read and write of the manager. \<open>servers\<close> is the process
  table (server ids to process numbers, in insertion order); \<open>slot_conditions\<close> tells
  whether the attribute \<open>_inference_slot_conditions\<close> has been created; \<open>cancelled_tasks\<close>
  lists the tasks \<open>cancel()\<close> was called on, and \<open>done_tasks\<close> the tasks that have ended.
\<close>

record slot_state =
  servers :: "(uuid \<times> nat) list"
  configs :: "uuid \<Rightarrow> engine_config option"
  operations :: "(uuid \<times> operation) list"
  active_requests :: "uuid \<Rightarrow> int option"
  slot_conditions :: bool
  connections :: "uuid \<Rightarrow> int option"
  cancelled_tasks :: "task list"
  done_tasks :: "task list"

definition active_count :: "'a slot_state_scheme \<Rightarrow> uuid \<Rightarrow> int" where
  "active_count m sid = (case active_requests m sid of None \<Rightarrow> 0 | Some n \<Rightarrow> n)"

text \<open>\<open>max(int(get_effective_capacity(server_id)), 1)\<close> under a configuration.\<close>

definition slot_capacity :: "engine_config \<Rightarrow> int" where
  "slot_capacity c = max (effective_capacity c) 1"

lemma slot_capacity_pos: "1 \<le> slot_capacity c"
  by (simp add: slot_capacity_def)

end
