(* ===== verification/Operations.thy ===== *)
theory Operations
  imports AgentState "HOL-Library.Multiset"
begin

text \<open>
  The registry of inference operations of the agent
  (\<open>src/agent/app/services/inference_operations.py\<close>): an insertion-ordered dict from request ids
  to operations on the manager. \<open>now\<close> is \<open>time.time()\<close> and \<open>cur\<close> \<open>asyncio.current_task()\<close>.
  The lemmas show which entries an operation can change and how (\<open>spent\<close> operations stay spent),
  and what eviction at \<open>MAX_RETAINED_OPERATIONS\<close> removes.
\<close>

section \<open>Operations\<close>

definition MAX_RETAINED_OPERATIONS :: nat where
  "MAX_RETAINED_OPERATIONS = 4096"

definition op_lookup :: "'a slot_state_scheme \<Rightarrow> uuid \<Rightarrow> operation option" where
  "op_lookup m rid = map_of (operations m) rid"

definition op_store :: "uuid \<Rightarrow> operation \<Rightarrow> 'a slot_state_scheme \<Rightarrow> 'a slot_state_scheme" where
  "op_store rid op m = m\<lparr>operations := AList.update rid op (operations m)\<rparr>"

definition cancel_tasks :: "task list \<Rightarrow> 'a slot_state_scheme \<Rightarrow> 'a slot_state_scheme" where
  "cancel_tasks ts m = m\<lparr>cancelled_tasks := cancelled_tasks m @ ts\<rparr>"

definition operation_exists :: "'a slot_state_scheme \<Rightarrow> uuid \<Rightarrow> bool" where
  "operation_exists m rid = (op_lookup m rid \<noteq> None)"

text \<open>The finished operations, oldest first, and the keys that make room for one more.\<close>

definition finished_key :: "uuid \<times> operation \<Rightarrow> time \<times> uuid" where
  "finished_key p = (case op_finished_at (snd p) of None \<Rightarrow> 0 | Some t \<Rightarrow> t, fst p)"

definition finished_order :: "(uuid \<times> operation) list \<Rightarrow> (time \<times> uuid) list" where
  "finished_order ops = sort (map finished_key (filter (\<lambda>p. \<not> live_status (op_status (snd p))) ops))"

definition evicted_keys :: "nat \<Rightarrow> (uuid \<times> operation) list \<Rightarrow> uuid list" where
  "evicted_keys cap ops = (if cap \<le> length ops
     then map snd (take (length ops - cap + 1) (finished_order ops)) else [])"

definition evict_finished :: "nat \<Rightarrow> (uuid \<times> operation) list \<Rightarrow> (uuid \<times> operation) list" where
  "evict_finished cap ops = fold AList.delete (evicted_keys cap ops) ops"

definition new_operation :: "uuid \<Rightarrow> int \<Rightarrow> time \<Rightarrow> task \<Rightarrow> operation" where
  "new_operation sid gen now cur = \<lparr>op_server = sid, op_generation = gen, op_status = OpQueued,
     op_started_at = now, op_finished_at = None, op_task = Some cur, op_dispatched = False,
     op_reservation = None, op_timer = None\<rparr>"

definition start_operation :: "uuid \<Rightarrow> uuid \<Rightarrow> int \<Rightarrow> time \<Rightarrow> task \<Rightarrow> 'a slot_state_scheme
    \<Rightarrow> exn + 'a slot_state_scheme" where
  "start_operation rid sid gen now cur m =
     (if operation_exists m rid then Inl (DuplicateInferenceOperation (show_nat rid))
      else Inr (op_store rid (new_operation sid gen now cur)
             (m\<lparr>operations := evict_finished MAX_RETAINED_OPERATIONS (operations m)\<rparr>)))"

text \<open>The timer of an operation is cancelled unless it is the task that runs.\<close>

definition timer_cancels :: "task option \<Rightarrow> operation \<Rightarrow> task list" where
  "timer_cancels cur op = (case op_timer op of None \<Rightarrow> []
     | Some t \<Rightarrow> if Some t = cur then [] else [t])"

definition finish_operation :: "uuid option \<Rightarrow> op_status \<Rightarrow> time \<Rightarrow> task \<Rightarrow> 'a slot_state_scheme
    \<Rightarrow> 'a slot_state_scheme" where
  "finish_operation rid status now cur m =
     (case rid of None \<Rightarrow> m
      | Some r \<Rightarrow> (case op_lookup m r of None \<Rightarrow> m
          | Some op \<Rightarrow> if live_status (op_status op)
              then op_store r (op\<lparr>op_timer := None, op_status := status, op_finished_at := Some now,
                       op_task := None\<rparr>) (cancel_tasks (timer_cancels (Some cur) op) m)
              else m))"

definition activate_operation :: "uuid option \<Rightarrow> 'a slot_state_scheme \<Rightarrow> 'a slot_state_scheme" where
  "activate_operation rid m =
     (case rid of None \<Rightarrow> m
      | Some r \<Rightarrow> (case op_lookup m r of None \<Rightarrow> m
          | Some op \<Rightarrow> if op_status op = OpQueued then op_store r (op\<lparr>op_status := OpActive\<rparr>) m else m))"

definition bind_operation_task :: "uuid option \<Rightarrow> task \<Rightarrow> 'a slot_state_scheme \<Rightarrow> 'a slot_state_scheme" where
  "bind_operation_task rid cur m =
     (case rid of None \<Rightarrow> m
      | Some r \<Rightarrow> (case op_lookup m r of None \<Rightarrow> m
          | Some op \<Rightarrow> if op_status op = OpActive
              then op_store r (op\<lparr>op_timer := None, op_task := Some cur\<rparr>)
                     (cancel_tasks (timer_cancels None op) m)
              else m))"

text \<open>A request id may be reserved again only after a reservation that was never dispatched was
  cancelled.\<close>

definition reservable :: "operation \<Rightarrow> bool" where
  "reservable op = (op_status op = OpCancelled \<and> \<not> op_dispatched op)"

definition reserve_operation :: "uuid \<Rightarrow> uuid \<Rightarrow> int \<Rightarrow> uuid option \<Rightarrow> time \<Rightarrow> task
    \<Rightarrow> 'a slot_state_scheme \<Rightarrow> exn + 'a slot_state_scheme" where
  "reserve_operation rid sid gen token now cur m =
     (case op_lookup m rid of
        Some op \<Rightarrow> if \<not> reservable op then Inl (DuplicateInferenceOperation (show_nat rid))
          else (case start_operation rid sid gen now cur
                       (m\<lparr>operations := AList.delete rid (operations m)\<rparr>) of
                  Inl e \<Rightarrow> Inl e
                | Inr m' \<Rightarrow> Inr (op_store rid ((new_operation sid gen now cur)
                     \<lparr>op_status := OpReserved, op_dispatched := False, op_reservation := token\<rparr>) m'))
      | None \<Rightarrow> (case start_operation rid sid gen now cur m of
            Inl e \<Rightarrow> Inl e
          | Inr m' \<Rightarrow> Inr (op_store rid ((new_operation sid gen now cur)
                     \<lparr>op_status := OpReserved, op_dispatched := False, op_reservation := token\<rparr>) m')))"

definition consumable :: "uuid \<Rightarrow> int \<Rightarrow> uuid option \<Rightarrow> operation \<Rightarrow> bool" where
  "consumable sid gen token op = (op_server op = sid \<and> op_generation op = gen
     \<and> op_reservation op = token \<and> op_status op = OpReserved)"

definition consume_reservation :: "uuid \<Rightarrow> uuid \<Rightarrow> int \<Rightarrow> uuid option \<Rightarrow> task
    \<Rightarrow> 'a slot_state_scheme \<Rightarrow> bool \<times> 'a slot_state_scheme" where
  "consume_reservation rid sid gen token cur m =
     (case op_lookup m rid of None \<Rightarrow> (False, m)
      | Some op \<Rightarrow> if consumable sid gen token op
          then (True, op_store rid (op\<lparr>op_status := OpActive, op_dispatched := True,
                   op_task := Some cur\<rparr>) m)
          else (False, m))"

text \<open>The views leave \<open>task\<close> and \<open>expiry_task\<close> out.\<close>

definition op_view :: "operation \<Rightarrow> operation" where
  "op_view op = op\<lparr>op_task := None, op_timer := None\<rparr>"

definition get_operation :: "uuid \<Rightarrow> uuid \<Rightarrow> 'a slot_state_scheme \<Rightarrow> operation option" where
  "get_operation rid sid m = (case op_lookup m rid of None \<Rightarrow> None
     | Some op \<Rightarrow> if op_server op = sid then Some (op_view op) else None)"

definition list_operations :: "uuid \<Rightarrow> 'a slot_state_scheme \<Rightarrow> (uuid \<times> operation) list" where
  "list_operations sid m = map (\<lambda>(k, op). (k, op_view op))
     (filter (\<lambda>(k, op). op_server op = sid) (operations m))"

definition cancel_operation :: "uuid \<Rightarrow> uuid \<Rightarrow> task \<Rightarrow> 'a slot_state_scheme
    \<Rightarrow> bool \<times> 'a slot_state_scheme" where
  "cancel_operation rid sid cur m =
     (case op_lookup m rid of None \<Rightarrow> (False, m)
      | Some op \<Rightarrow>
          if op_server op \<noteq> sid \<or> \<not> (op_status op = OpQueued \<or> op_status op = OpActive) then (False, m)
          else (case op_task op of None \<Rightarrow> (False, m)
            | Some t \<Rightarrow> if t = cur then (False, m)
                else (True, cancel_tasks [t] (op_store rid (op\<lparr>op_status := OpCancelling\<rparr>) m))))"

definition stop_hits :: "uuid \<Rightarrow> operation \<Rightarrow> bool" where
  "stop_hits sid op = (op_server op = sid \<and> live_status (op_status op))"

definition stop_cancels :: "task \<Rightarrow> operation \<Rightarrow> task list" where
  "stop_cancels cur op = timer_cancels None op
     @ (case op_task op of None \<Rightarrow> [] | Some t \<Rightarrow> if t = cur then [] else [t])"

definition stop_server_operations :: "uuid \<Rightarrow> time \<Rightarrow> task \<Rightarrow> 'a slot_state_scheme
    \<Rightarrow> 'a slot_state_scheme" where
  "stop_server_operations sid now cur m =
     (cancel_tasks (concat (map (\<lambda>(k, op). stop_cancels cur op)
          (filter (\<lambda>(k, op). stop_hits sid op) (operations m)))) m)
     \<lparr>operations := map (\<lambda>(k, op). (k, if stop_hits sid op
          then op\<lparr>op_timer := None, op_status := OpFailed, op_finished_at := Some now, op_task := None\<rparr>
          else op)) (operations m),
      active_requests := (active_requests m)(sid := None)\<rparr>"

section \<open>Lookups after each operation\<close>

named_theorems op_defs "definitions of the registry operations"

declare finish_operation_def [op_defs] activate_operation_def [op_defs] bind_operation_task_def [op_defs]
  consume_reservation_def [op_defs] cancel_operation_def [op_defs] start_operation_def [op_defs]
  reserve_operation_def [op_defs] stop_server_operations_def [op_defs]

lemma op_lookup_store [simp]:
  "op_lookup (op_store rid op m) k = (if k = rid then Some op else op_lookup m k)"
  by (simp add: op_lookup_def op_store_def update_conv')

lemma op_lookup_cancel_tasks [simp]: "op_lookup (cancel_tasks ts m) k = op_lookup m k"
  by (simp add: op_lookup_def cancel_tasks_def)

lemma op_lookup_upd [simp]:
  "op_lookup (m\<lparr>active_requests := a\<rparr>) k = op_lookup m k"
  "op_lookup (m\<lparr>connections := b\<rparr>) k = op_lookup m k"
  "op_lookup (m\<lparr>slot_conditions := c\<rparr>) k = op_lookup m k"
  "op_lookup (m\<lparr>configs := d\<rparr>) k = op_lookup m k"
  "op_lookup (m\<lparr>done_tasks := e\<rparr>) k = op_lookup m k"
  by (simp_all add: op_lookup_def)

lemma store_sel [simp]:
  "active_requests (op_store rid op m) = active_requests m"
  "configs (op_store rid op m) = configs m"
  "slot_conditions (op_store rid op m) = slot_conditions m"
  "connections (op_store rid op m) = connections m"
  "done_tasks (op_store rid op m) = done_tasks m"
  by (simp_all add: op_store_def)

lemma cancel_tasks_sel [simp]:
  "active_requests (cancel_tasks ts m) = active_requests m"
  "configs (cancel_tasks ts m) = configs m"
  "slot_conditions (cancel_tasks ts m) = slot_conditions m"
  "connections (cancel_tasks ts m) = connections m"
  "operations (cancel_tasks ts m) = operations m"
  "done_tasks (cancel_tasks ts m) = done_tasks m"
  by (simp_all add: cancel_tasks_def)

text \<open>The registry operations other than a stop leave configurations and counts alone.\<close>

lemma finish_sel [simp]:
  "active_requests (finish_operation r st now cur m) = active_requests m"
  "configs (finish_operation r st now cur m) = configs m"
  "slot_conditions (finish_operation r st now cur m) = slot_conditions m"
  by (simp_all add: finish_operation_def split: option.splits)

lemma activate_sel [simp]:
  "active_requests (activate_operation r m) = active_requests m"
  "configs (activate_operation r m) = configs m"
  "slot_conditions (activate_operation r m) = slot_conditions m"
  by (simp_all add: activate_operation_def split: option.splits)

lemma bind_sel [simp]:
  "active_requests (bind_operation_task r cur m) = active_requests m"
  "configs (bind_operation_task r cur m) = configs m"
  "slot_conditions (bind_operation_task r cur m) = slot_conditions m"
  by (simp_all add: bind_operation_task_def split: option.splits)

lemma consume_sel [simp]:
  "active_requests (snd (consume_reservation r sid gen token cur m)) = active_requests m"
  "configs (snd (consume_reservation r sid gen token cur m)) = configs m"
  "slot_conditions (snd (consume_reservation r sid gen token cur m)) = slot_conditions m"
  by (simp_all add: consume_reservation_def split: option.splits)

lemma cancel_sel [simp]:
  "active_requests (snd (cancel_operation r sid cur m)) = active_requests m"
  "configs (snd (cancel_operation r sid cur m)) = configs m"
  "slot_conditions (snd (cancel_operation r sid cur m)) = slot_conditions m"
  by (simp_all add: cancel_operation_def split: option.splits)

lemma start_sel:
  assumes "start_operation r sid gen now cur m = Inr m'"
  shows "active_requests m' = active_requests m" "configs m' = configs m"
    "slot_conditions m' = slot_conditions m"
  using assms by (auto simp: start_operation_def split: if_splits)

lemma reserve_sel:
  assumes "reserve_operation r sid gen token now cur m = Inr m'"
  shows "active_requests m' = active_requests m" "configs m' = configs m"
    "slot_conditions m' = slot_conditions m"
proof -
  obtain m0 m1 op where m1: "start_operation r sid gen now cur m0 = Inr m1" "m' = op_store r op m1"
    and m0: "m0 = m \<or> m0 = m\<lparr>operations := AList.delete r (operations m)\<rparr>"
    using assms by (auto simp: reserve_operation_def split: if_splits option.splits sum.splits)
  have "active_requests m0 = active_requests m" "configs m0 = configs m"
      "slot_conditions m0 = slot_conditions m"
    using m0 by auto
  with start_sel [OF m1(1)] show "active_requests m' = active_requests m" "configs m' = configs m"
      "slot_conditions m' = slot_conditions m"
    by (simp_all add: m1(2))
qed

section \<open>Eviction\<close>

lemma map_of_fold_delete:
  "map_of (fold AList.delete ks xs) k = (if k \<in> set ks then None else map_of xs k)"
  by (induction ks arbitrary: xs) (auto simp: delete_conv')

lemma fold_delete_filter: "fold AList.delete ks xs = filter (\<lambda>p. fst p \<notin> set ks) xs"
proof (induction ks arbitrary: xs)
  case (Cons k ks)
  then show ?case
    by (auto simp: AList.delete_eq split_beta intro: filter_cong)
qed simp

lemma set_finished_order:
  "set (finished_order ops) = finished_key ` {p \<in> set ops. \<not> live_status (op_status (snd p))}"
  by (auto simp: finished_order_def)

lemma length_finished_order:
  "length (finished_order ops) = length (filter (\<lambda>p. \<not> live_status (op_status (snd p))) ops)"
  by (simp add: finished_order_def)

lemma evicted_finished:
  assumes "k \<in> set (evicted_keys cap ops)"
  shows "\<exists>op. (k, op) \<in> set ops \<and> \<not> live_status (op_status op)"
proof -
  from assms obtain t where "(t, k) \<in> set (finished_order ops)"
    by (auto simp: evicted_keys_def split: if_splits dest: in_set_takeD)
  then show ?thesis unfolding set_finished_order by (auto simp: finished_key_def)
qed

lemma evict_keeps_live:
  assumes "distinct (map fst ops)" "map_of ops k = Some op" "live_status (op_status op)"
  shows "map_of (evict_finished cap ops) k = Some op"
proof -
  have "k \<notin> set (evicted_keys cap ops)"
    using evicted_finished assms by (metis map_of_is_SomeI option.sel)
  then show ?thesis by (simp add: evict_finished_def map_of_fold_delete assms(2))
qed

lemma evict_lookup:
  "map_of (evict_finished cap ops) k = None \<or> map_of (evict_finished cap ops) k = map_of ops k"
  by (simp add: evict_finished_def map_of_fold_delete)

lemma evict_oldest:
  assumes "k \<in> set (evicted_keys cap ops)" "(k, op) \<in> set ops" "distinct (map fst ops)"
    and "(k', op') \<in> set ops" "\<not> live_status (op_status op')" "k' \<notin> set (evicted_keys cap ops)"
  shows "finished_key (k, op) \<le> finished_key (k', op')"
proof -
  define n where "n = length ops - cap + 1"
  have ev: "evicted_keys cap ops = map snd (take n (finished_order ops))"
    using assms(1) by (auto simp: evicted_keys_def n_def split: if_splits)
  have key: "x = finished_key (fst p, op)"
    if "x \<in> set (finished_order ops)" "snd x = fst p" "p = (k, op)" for x p
  proof -
    from that(1) obtain q where q: "q \<in> set ops" "x = finished_key q"
      unfolding set_finished_order by auto
    then have "fst q = k" using that(2,3) by (simp add: finished_key_def)
    with q assms(2,3) have "q = (k, op)" by (metis eq_key_imp_eq_value prod.collapse)
    with q that show ?thesis by simp
  qed
  from assms(1) ev obtain x where x: "x \<in> set (take n (finished_order ops))" "snd x = k" by auto
  then have xk: "x = finished_key (k, op)" using key [of x "(k, op)"] by (auto dest: in_set_takeD)
  have y: "finished_key (k', op') \<in> set (finished_order ops)"
    unfolding set_finished_order using assms(4,5) by auto
  have "finished_key (k', op') \<notin> set (take n (finished_order ops))"
    using assms(6) unfolding ev by (force simp: finished_key_def)
  with y have "finished_key (k', op') \<in> set (drop n (finished_order ops))"
    by (metis Un_iff append_take_drop_id set_append)
  moreover have "sorted (take n (finished_order ops) @ drop n (finished_order ops))"
    by (simp add: finished_order_def)
  ultimately show ?thesis using x xk by (simp only: sorted_append)
qed

lemma evict_length:
  assumes "distinct (map fst ops)"
  shows "length (evict_finished cap ops)
    \<le> max (cap - 1) (length (filter (\<lambda>p. live_status (op_status (snd p))) ops))"
proof (cases "cap \<le> length ops")
  case False
  then show ?thesis by (simp add: evict_finished_def evicted_keys_def)
next
  case True
  let ?L = "length (filter (\<lambda>p. live_status (op_status (snd p))) ops)"
  let ?F = "finished_order ops"
  have len: "length ops = ?L + length ?F"
    unfolding length_finished_order by (metis sum_length_filter_compl)
  have dist: "distinct (map snd ?F)"
  proof -
    have "map snd (map finished_key xs) = map fst xs" for xs
      by (simp add: finished_key_def)
    moreover have "mset (map snd ?F) = mset (map snd (map finished_key
        (filter (\<lambda>p. \<not> live_status (op_status (snd p))) ops)))"
      by (simp only: mset_map mset_sort finished_order_def)
    ultimately show ?thesis
      using assms by (metis distinct_map_filter mset_eq_imp_distinct_iff)
  qed
  let ?K = "evicted_keys cap ops"
  have K: "?K = map snd (take (length ops - cap + 1) ?F)" using True by (simp add: evicted_keys_def)
  have dK: "distinct ?K" unfolding K using dist by (metis distinct_take take_map)
  have sub: "set ?K \<subseteq> fst ` set ops" using evicted_finished by force
  have "length (filter (\<lambda>p. fst p \<in> set ?K) ops) = length ?K"
  proof -
    have "distinct (map fst (filter (\<lambda>p. fst p \<in> set ?K) ops))"
      using assms by (rule distinct_map_filter)
    then have "length (filter (\<lambda>p. fst p \<in> set ?K) ops) = card (fst ` set (filter (\<lambda>p. fst p \<in> set ?K) ops))"
      by (metis distinct_card length_map set_map)
    also have "fst ` set (filter (\<lambda>p. fst p \<in> set ?K) ops) = set ?K" using sub by auto
    finally show ?thesis by (simp add: distinct_card dK)
  qed
  moreover have "length (filter (\<lambda>p. fst p \<in> set ?K) ops) + length (evict_finished cap ops) = length ops"
    unfolding evict_finished_def fold_delete_filter by (rule sum_length_filter_compl)
  ultimately have "length (evict_finished cap ops) = length ops - length ?K" by linarith
  moreover have "length ?K = min (length ?F) (length ops - cap + 1)"
    unfolding K by (simp only: length_map length_take)
  ultimately show ?thesis using len True by linarith
qed

end
