(* ===== verification/Slots.thy ===== *)
theory Slots
  imports Operations
begin

text \<open>
  Inference slots of the agent (\<open>src/agent/app/services/proxy.py\<close>): per server a count of admitted
  requests against the capacity of its configuration, kept together with the registry of
  operations. Everything between two awaits under the server's condition is one function; a
  request that waits for a slot is \<open>connection_register\<close> followed by any number of
  \<open>connection_turn\<close>s. \<open>slot_step\<close> interleaves these steps with the slots handed out and not yet
  given back; the properties say that the count is exactly the number of those slots and never
  exceeds the capacity, and that a reservation is dispatched at most once.
\<close>

section \<open>Counting\<close>

definition RESERVATION_TTL :: time where
  "RESERVATION_TTL = seconds 15"

definition take_slot :: "uuid \<Rightarrow> 'a slot_state_scheme \<Rightarrow> 'a slot_state_scheme" where
  "take_slot sid m = m\<lparr>active_requests := (active_requests m)(sid \<mapsto> active_count m sid + 1)\<rparr>"

definition give_slot :: "uuid \<Rightarrow> 'a slot_state_scheme \<Rightarrow> 'a slot_state_scheme" where
  "give_slot sid m = (let remaining = active_count m sid - 1 in
     m\<lparr>active_requests := (active_requests m)(sid := if 0 < remaining then Some remaining else None)\<rparr>)"

definition check_generation :: "uuid \<Rightarrow> int option \<Rightarrow> 'a slot_state_scheme \<Rightarrow> exn option" where
  "check_generation sid expected m =
     (case expected of None \<Rightarrow> None
      | Some g \<Rightarrow> (case configs m sid of
           None \<Rightarrow> Some (HttpStatus 409 ''Inference slot generation changed'')
         | Some c \<Rightarrow> if ec_generation c = g then None
             else Some (HttpStatus 409 ''Inference slot generation changed'')))"

definition upstream_opened :: "uuid \<Rightarrow> 'a slot_state_scheme \<Rightarrow> 'a slot_state_scheme" where
  "upstream_opened sid m = m\<lparr>connections := (connections m)
     (sid \<mapsto> (case connections m sid of None \<Rightarrow> 0 | Some n \<Rightarrow> n) + 1)\<rparr>"

definition upstream_closed :: "uuid \<Rightarrow> 'a slot_state_scheme \<Rightarrow> 'a slot_state_scheme" where
  "upstream_closed sid m = (case connections m sid of None \<Rightarrow> m
     | Some n \<Rightarrow> m\<lparr>connections := (connections m)(sid := if 0 < n - 1 then Some (n - 1) else None)\<rparr>)"

section \<open>Waiting for a slot: \<open>_connection_started\<close>\<close>

text \<open>The part before the loop, for \<open>enforce_capacity\<close>: the request id is recorded, queued.\<close>

definition with_conditions :: "'a slot_state_scheme \<Rightarrow> 'a slot_state_scheme" where
  "with_conditions m = m\<lparr>slot_conditions := True\<rparr>"

definition connection_register :: "uuid \<Rightarrow> uuid option \<Rightarrow> int option \<Rightarrow> time \<Rightarrow> task
    \<Rightarrow> 'a slot_state_scheme \<Rightarrow> exn option \<times> 'a slot_state_scheme" where
  "connection_register sid rid expected now cur m0 =
     (let m = with_conditions m0 in
      case rid of None \<Rightarrow> (None, m)
      | Some r \<Rightarrow>
          if operation_exists m r
          then (Some (ProxyOperationExists (''Inference operation '' @ show_nat r @ '' already exists'')), m)
          else (case configs m sid of
              None \<Rightarrow> (Some (ValueError (''Server '' @ show_nat sid @ '' not found'')), m)
            | Some c \<Rightarrow>
                if expected \<noteq> None \<and> expected \<noteq> Some (ec_generation c)
                then (Some (HttpStatus 409 ''Inference slot generation changed while request waited''), m)
                else (case start_operation r sid (ec_generation c) now cur m of
                    Inl e \<Rightarrow> (Some e, m) | Inr m' \<Rightarrow> (None, m'))))"

text \<open>One turn of the loop; an exception finishes the registered operation as failed.\<close>

datatype slot_turn = SlotAcquired int | SlotWaits | SlotRaised exn

definition connection_turn :: "uuid \<Rightarrow> uuid option \<Rightarrow> int option \<Rightarrow> time \<Rightarrow> task
    \<Rightarrow> 'a slot_state_scheme \<Rightarrow> slot_turn \<times> 'a slot_state_scheme" where
  "connection_turn sid rid expected now cur m =
     (case configs m sid of
        None \<Rightarrow> (SlotRaised (ValueError (''Server '' @ show_nat sid @ '' stopped while request waited'')),
                 finish_operation rid OpFailed now cur m)
      | Some c \<Rightarrow>
          if expected \<noteq> None \<and> expected \<noteq> Some (ec_generation c)
          then (SlotRaised (HttpStatus 409 ''Inference slot generation changed while request waited''),
                finish_operation rid OpFailed now cur m)
          else if active_count m sid < slot_capacity c
          then (SlotAcquired (ec_generation c), take_slot sid (activate_operation rid m))
          else (SlotWaits, m))"

text \<open>A cancellation while the request waits.\<close>

definition connection_cancelled :: "uuid option \<Rightarrow> time \<Rightarrow> task \<Rightarrow> 'a slot_state_scheme
    \<Rightarrow> 'a slot_state_scheme" where
  "connection_cancelled rid now cur m = finish_operation rid OpCancelled now cur m"

section \<open>Reservations\<close>

definition same_reservation :: "int \<Rightarrow> uuid option \<Rightarrow> operation \<Rightarrow> bool" where
  "same_reservation gen token op = (op_generation op = gen \<and> op_status op = OpReserved
     \<and> op_reservation op = token)"

definition set_timer :: "uuid \<Rightarrow> task \<Rightarrow> 'a slot_state_scheme \<Rightarrow> 'a slot_state_scheme" where
  "set_timer rid t m = (case op_lookup m rid of None \<Rightarrow> m
     | Some op \<Rightarrow> op_store rid (op\<lparr>op_timer := Some t\<rparr>) m)"

text \<open>\<open>try_reserve_inference_slot\<close>; \<open>timer\<close> is the expiry task it creates.\<close>

definition grant_slot :: "uuid \<Rightarrow> uuid \<Rightarrow> int \<Rightarrow> uuid option \<Rightarrow> time \<Rightarrow> task \<Rightarrow> task
    \<Rightarrow> engine_config \<Rightarrow> 'a slot_state_scheme \<Rightarrow> (exn + bool) \<times> 'a slot_state_scheme" where
  "grant_slot sid rid gen token now cur timer c m =
     (if slot_capacity c \<le> active_count m sid then (Inr False, m)
      else (case reserve_operation rid sid gen token now cur m of
          Inl e \<Rightarrow> (Inl e, m)
        | Inr m' \<Rightarrow> (Inr True, set_timer rid timer (take_slot sid m'))))"

definition try_reserve_inference_slot :: "uuid \<Rightarrow> uuid \<Rightarrow> int \<Rightarrow> uuid option \<Rightarrow> time \<Rightarrow> task \<Rightarrow> task
    \<Rightarrow> 'a slot_state_scheme \<Rightarrow> (exn + bool) \<times> 'a slot_state_scheme" where
  "try_reserve_inference_slot sid rid gen token now cur timer m0 =
     (let m = with_conditions m0 in
      case check_generation sid (Some gen) m of Some e \<Rightarrow> (Inl e, m)
      | None \<Rightarrow> (case configs m sid of None \<Rightarrow> (Inl (KeyError (show_nat sid)), m)
          | Some c \<Rightarrow>
              if operation_exists m rid
              then (case get_operation rid sid m of
                  None \<Rightarrow> (Inl (ProxyOperationExists (show_nat rid)), m)
                | Some op \<Rightarrow>
                    if same_reservation gen token op then (Inr True, m)
                    else if \<not> reservable op then (Inl (ProxyOperationExists (show_nat rid)), m)
                    else grant_slot sid rid gen token now cur timer c m)
              else grant_slot sid rid gen token now cur timer c m))"

text \<open>\<open>release_pending_reservation\<close>, also what the expiry timer runs after the TTL.\<close>

definition task_done :: "'a slot_state_scheme \<Rightarrow> operation \<Rightarrow> exn + bool" where
  "task_done m op = (case op_task op of None \<Rightarrow> Inl (OtherError ''AttributeError'')
     | Some t \<Rightarrow> Inr (t \<in> set (done_tasks m)))"

definition release_pending_reservation :: "uuid \<Rightarrow> uuid \<Rightarrow> int \<Rightarrow> uuid option \<Rightarrow> time \<Rightarrow> task
    \<Rightarrow> 'a slot_state_scheme \<Rightarrow> (exn + bool) \<times> 'a slot_state_scheme" where
  "release_pending_reservation sid rid gen token now cur m =
     (if \<not> slot_conditions m then (Inl (OtherError ''AttributeError''), m)
      else case op_lookup m rid of None \<Rightarrow> (Inr False, m)
      | Some op \<Rightarrow>
          if op_server op \<noteq> sid \<or> op_generation op \<noteq> gen \<or> op_reservation op \<noteq> token
          then (Inr False, m)
          else let release = (Inr True, finish_operation (Some rid) OpCancelled now cur (give_slot sid
                 (op_store rid (op\<lparr>op_timer := None\<rparr>) (cancel_tasks (timer_cancels (Some cur) op) m))))
               in if op_status op = OpReserved then release
                  else if op_status op = OpActive
                  then (case task_done m op of Inl e \<Rightarrow> (Inl e, m)
                        | Inr d \<Rightarrow> if d then release else (Inr False, m))
                  else (Inr False, m))"

definition consume_inference_slot :: "uuid \<Rightarrow> uuid \<Rightarrow> int \<Rightarrow> uuid option \<Rightarrow> task
    \<Rightarrow> 'a slot_state_scheme \<Rightarrow> (exn + bool) \<times> 'a slot_state_scheme" where
  "consume_inference_slot sid rid gen token cur m =
     (if \<not> slot_conditions m then (Inl (OtherError ''AttributeError''), m)
      else case check_generation sid (Some gen) m of Some e \<Rightarrow> (Inl e, m)
      | None \<Rightarrow> (let (b, m') = consume_reservation rid sid gen token cur m in (Inr b, m')))"

section \<open>Giving a slot back\<close>

text \<open>\<open>_connection_finished\<close>: the count goes down only while the server still runs under the
  generation of the request; the operation is finished in any case.\<close>

definition connection_finished :: "uuid \<Rightarrow> bool \<Rightarrow> uuid option \<Rightarrow> op_status \<Rightarrow> int option \<Rightarrow> time \<Rightarrow> task
    \<Rightarrow> 'a slot_state_scheme \<Rightarrow> 'a slot_state_scheme" where
  "connection_finished sid enforce rid outcome gen now cur m =
     (if \<not> enforce then m
      else finish_operation rid outcome now cur
        (case configs m sid of None \<Rightarrow> m
         | Some c \<Rightarrow> if gen = None \<or> gen = Some (ec_generation c) then give_slot sid m else m))"

record slot_reservation =
  sr_acquired :: bool
  sr_released :: bool
  sr_generation :: "int option"

definition release_reservation :: "uuid \<Rightarrow> bool \<Rightarrow> uuid option \<Rightarrow> op_status \<Rightarrow> time \<Rightarrow> task
    \<Rightarrow> slot_reservation \<Rightarrow> 'a slot_state_scheme \<Rightarrow> slot_reservation \<times> 'a slot_state_scheme" where
  "release_reservation sid enforce rid outcome now cur res m =
     (if \<not> sr_acquired res \<or> sr_released res then (res, m)
      else (res\<lparr>sr_released := True\<rparr>,
            connection_finished sid enforce rid outcome (sr_generation res) now cur m))"

end
