(* ===== verification/ProxyDispatch.thy ===== *)
theory ProxyDispatch
  imports Slots "HOL-Library.Sublist"
begin

text \<open>
  The proxied calls of the agent (\<open>ServerProxy.proxy_request\<close> and \<open>proxy_stream\<close>,
  \<open>src/agent/app/services/proxy.py\<close>) and the routes that start them
  (\<open>src/agent/app/api/routes/proxy.py\<close>). What a call meets at its awaits is an argument: a list
  of wake-ups of the slot wait, and a list of attempts, each with what other tasks did to the
  manager before it (a function on the state) and how the upstream answered. The functions end
  with the response or exception, the state left behind, and how many attempts were used.
\<close>

section \<open>Headers, URLs, retry policy\<close>

definition lower_char :: "char \<Rightarrow> char" where
  "lower_char c = (let n = of_char c :: nat in
     if 65 \<le> n \<and> n \<le> 90 then char_of (n + 32) else c)"

definition lower :: "string \<Rightarrow> string" where
  "lower s = map lower_char s"

definition BODY_FRAMING_HEADERS :: "string list" where
  "BODY_FRAMING_HEADERS = [''content-length'', ''transfer-encoding'']"

definition strip_body_framing :: "(string \<times> string) list \<Rightarrow> (string \<times> string) list" where
  "strip_body_framing hs = filter (\<lambda>(k, v). lower k \<notin> set BODY_FRAMING_HEADERS) hs"

definition CONNECT_RETRY_DELAYS :: "time list" where
  "CONNECT_RETRY_DELAYS = [500000, 1000000, 2000000, 4000000, 8000000, 8000000]"

definition MAX_PRE_BYTE_IDLE_RETRIES :: nat where
  "MAX_PRE_BYTE_IDLE_RETRIES = 1"

definition server_url :: "uuid \<Rightarrow> string \<Rightarrow> slot_state \<Rightarrow> exn + string" where
  "server_url sid path m = (case configs m sid of
       None \<Rightarrow> Inl (ValueError (''Server '' @ show_nat sid @ '' not found''))
     | Some c \<Rightarrow> Inr (''http://127.0.0.1:'' @ show_int (ec_port c) @ path))"

section \<open>Calls\<close>

text \<open>The arguments of a call; \<open>now\<close> is the time stamped on its operation, \<open>cur\<close> its task.\<close>

record call =
  ca_server :: uuid
  ca_path :: string
  ca_expected :: "int option"
  ca_enforce :: bool
  ca_reserved :: bool
  ca_operation :: "uuid option"
  ca_now :: time
  ca_task :: task

definition inference_call :: "call \<Rightarrow> bool" where
  "inference_call p = (ca_enforce p \<or> ca_operation p \<noteq> None)"

text \<open>A wake-up of the slot wait: others changed the state and the loop turns, ten seconds
  pass (a stream then sends a keep-alive frame), the waiting task is cancelled, or the client
  of a stream closes it at a keep-alive.\<close>

datatype wake = Wake "slot_state \<Rightarrow> slot_state" | WakeTick
  | WakeCancelled "slot_state \<Rightarrow> slot_state" | WakeClosed "slot_state \<Rightarrow> slot_state"

text \<open>The result of the wait (None: it goes on), the keep-alives sent, the state.\<close>

fun slot_wait :: "call \<Rightarrow> wake list \<Rightarrow> slot_state \<Rightarrow> (exn + int) option \<times> nat \<times> slot_state" where
  "slot_wait p [] m = (None, 0, m)"
| "slot_wait p (Wake f # ws) m =
     (case connection_turn (ca_server p) (ca_operation p) (ca_expected p) (ca_now p) (ca_task p) (f m) of
        (SlotAcquired g, m') \<Rightarrow> (Some (Inr g), 0, m')
      | (SlotRaised e, m') \<Rightarrow> (Some (Inl e), 0, m')
      | (SlotWaits, m') \<Rightarrow> slot_wait p ws m')"
| "slot_wait p (WakeTick # ws) m = (let (r, n, m') = slot_wait p ws m in (r, n + 1, m'))"
| "slot_wait p (WakeCancelled f # ws) m =
     (Some (Inl CancelledError), 0, connection_cancelled (ca_operation p) (ca_now p) (ca_task p) (f m))"
| "slot_wait p (WakeClosed f # ws) m =
     (Some (Inl GeneratorExit), 0, connection_cancelled (ca_operation p) (ca_now p) (ca_task p) (f m))"

text \<open>\<open>_connection_started\<close>: the first turn follows the registration without an await.\<close>

definition connection_started :: "call \<Rightarrow> wake list \<Rightarrow> slot_state
    \<Rightarrow> (exn + int option) option \<times> nat \<times> slot_state" where
  "connection_started p ws m =
     (if \<not> ca_enforce p then (Some (Inr (ca_expected p)), 0, m)
      else case connection_register (ca_server p) (ca_operation p) (ca_expected p) (ca_now p) (ca_task p) m of
        (Some e, m') \<Rightarrow> (Some (Inl e), 0, m')
      | (None, m') \<Rightarrow> (case slot_wait p (Wake id # ws) m' of
            (None, n, m2) \<Rightarrow> (None, n, m2)
          | (Some (Inl e), n, m2) \<Rightarrow> (Some (Inl e), n, m2)
          | (Some (Inr g), n, m2) \<Rightarrow> (Some (Inr (Some g)), n, m2)))"

text \<open>
  How one attempt to reach the upstream goes: the connection cannot be made (httpx raises
  ConnectError or ConnectTimeout only then), no answer comes, or an answer with its status and
  the chunks read before it ended in one of the ways of \<open>attempt_end\<close>.
\<close>

datatype attempt_end = EndOfBody | EndReadTimeout | EndCancelled | EndClosed | EndFailed exn

datatype attempt_result =
    ConnectFails
  | NoAnswer attempt_end
  | Answer nat "string list" attempt_end

record attempt =
  at_env :: "slot_state \<Rightarrow> slot_state"
  at_result :: attempt_result

text \<open>Whether the request may have reached the engine.\<close>

definition reached :: "attempt \<Rightarrow> bool" where
  "reached a = (case at_result a of ConnectFails \<Rightarrow> False | _ \<Rightarrow> True)"

text \<open>The locals of a call: delays left, whether its upstream connection is open, status and
  bytes seen, idle retries, attempts made, frames sent, and the marker scan of streams.\<close>

record call_state =
  cs_delays :: "time list"
  cs_opened :: bool
  cs_status :: "nat option"
  cs_bytes :: nat
  cs_idle :: nat
  cs_attempts :: nat
  cs_frames :: "string list"
  cs_done_seen :: bool
  cs_done_tail :: string

definition call_start :: call_state where
  "call_start = \<lparr>cs_delays = CONNECT_RETRY_DELAYS, cs_opened = False, cs_status = None,
     cs_bytes = 0, cs_idle = 0, cs_attempts = 0, cs_frames = [], cs_done_seen = False, cs_done_tail = []\<rparr>"

datatype call_end = CallReturned nat string | CallRaised exn | CallPending

datatype round = Leave call_end | Again

definition http_error :: "nat option \<Rightarrow> bool" where
  "http_error st = (case st of None \<Rightarrow> False | Some n \<Rightarrow> 400 \<le> n)"

text \<open>The handlers of a failed attempt: \<open>next(connect_delays, None)\<close>, and the idle retry.\<close>

definition retry_connect :: "bool \<Rightarrow> call_state \<Rightarrow> slot_state \<Rightarrow> round \<times> call_state \<times> slot_state" where
  "retry_connect connected s m =
     (case cs_delays s of
        [] \<Rightarrow> (Leave (CallRaised ConnectError), s, m)
      | d # ds \<Rightarrow> (if connected then Leave (CallRaised ConnectError) else Again, s\<lparr>cs_delays := ds\<rparr>, m))"

definition may_replay :: "bool \<Rightarrow> bool \<Rightarrow> call_state \<Rightarrow> bool" where
  "may_replay reserved counted s = (\<not> reserved \<and> counted \<and> cs_bytes s = 0
     \<and> cs_idle s < MAX_PRE_BYTE_IDLE_RETRIES \<and> \<not> http_error (cs_status s))"

definition retry_idle :: "bool \<Rightarrow> call \<Rightarrow> call_state \<Rightarrow> slot_state \<Rightarrow> round \<times> call_state \<times> slot_state" where
  "retry_idle counted p s m =
     (if \<not> may_replay (ca_reserved p) counted s then (Leave (CallRaised ReadTimeout), s, m)
      else let s1 = s\<lparr>cs_idle := cs_idle s + 1, cs_opened := False\<rparr>;
               m1 = (if cs_opened s then upstream_closed (ca_server p) m else m)
           in (case check_generation (ca_server p) (ca_expected p) m1 of
                 Some e \<Rightarrow> (Leave (CallRaised e), s1, m1) | None \<Rightarrow> (Again, s1, m1)))"

text \<open>An attempt that ends without a body; other exceptions than the timeout leave the loop.\<close>

definition attempt_failed :: "bool \<Rightarrow> attempt_end \<Rightarrow> call \<Rightarrow> call_state \<Rightarrow> slot_state
    \<Rightarrow> round \<times> call_state \<times> slot_state" where
  "attempt_failed counted e p s m = (case e of
       EndReadTimeout \<Rightarrow> retry_idle counted p s m
     | EndCancelled \<Rightarrow> (Leave (CallRaised CancelledError), s, m)
     | EndClosed \<Rightarrow> (Leave (CallRaised GeneratorExit), s, m)
     | EndFailed x \<Rightarrow> (Leave (CallRaised x), s, m)
     | EndOfBody \<Rightarrow> (Leave (CallRaised (OtherError ''RemoteProtocolError'')), s, m))"

definition chunk_bytes :: "string list \<Rightarrow> nat" where
  "chunk_bytes cs = sum_list (map length cs)"

section \<open>\<open>proxy_request\<close>\<close>

definition request_attempt :: "call \<Rightarrow> attempt_result \<Rightarrow> call_state \<Rightarrow> slot_state
    \<Rightarrow> round \<times> call_state \<times> slot_state" where
  "request_attempt p r s m =
     (case r of
        ConnectFails \<Rightarrow> retry_connect (cs_opened s) s m
      | NoAnswer e \<Rightarrow> attempt_failed (inference_call p) e p s m
      | Answer st chunks e \<Rightarrow>
          if inference_call p then
            let s1 = s\<lparr>cs_opened := True, cs_status := Some st, cs_bytes := cs_bytes s + chunk_bytes chunks\<rparr>;
                m1 = upstream_opened (ca_server p) m
            in (if e = EndOfBody then (Leave (CallReturned st (concat chunks)), s1, m1)
                else attempt_failed True e p s1 m1)
          else if e = EndOfBody
          then (Leave (CallReturned st (concat chunks)),
                s\<lparr>cs_status := Some st, cs_bytes := chunk_bytes chunks\<rparr>, m)
          else attempt_failed False e p s m)"

fun call_loop :: "(attempt_result \<Rightarrow> call_state \<Rightarrow> slot_state \<Rightarrow> round \<times> call_state \<times> slot_state)
    \<Rightarrow> call \<Rightarrow> attempt list \<Rightarrow> call_state \<Rightarrow> slot_state \<Rightarrow> call_end \<times> call_state \<times> slot_state" where
  "call_loop exch p [] s m = (CallPending, s, m)"
| "call_loop exch p (a # as) s m0 =
     (let m = at_env a m0 in
      case check_generation (ca_server p) (ca_expected p) m of
        Some e \<Rightarrow> (CallRaised e, s, m)
      | None \<Rightarrow> (case exch (at_result a) (s\<lparr>cs_attempts := cs_attempts s + 1\<rparr>) m of
            (Leave e, s', m') \<Rightarrow> (e, s', m')
          | (Again, s', m') \<Rightarrow> call_loop exch p as s' m'))"

text \<open>What comes before the loop. A reserved call whose operation is no longer active must not
  give a slot back; any other refusal of it does.\<close>

datatype prep = Ready | Refused exn | StillWaiting

definition prepare_call :: "bool \<Rightarrow> call \<Rightarrow> wake list \<Rightarrow> slot_state
    \<Rightarrow> prep \<times> slot_reservation \<times> nat \<times> slot_state" where
  "prepare_call streaming p ws m =
     (let res = \<lparr>sr_acquired = ca_reserved p, sr_released = False, sr_generation = ca_expected p\<rparr>;
          own = (case ca_operation p of None \<Rightarrow> None | Some r \<Rightarrow> get_operation r (ca_server p) m);
          active = (case own of None \<Rightarrow> False | Some op \<Rightarrow> op_status op = OpActive)
      in if ca_reserved p \<and> \<not> active
         then (Refused (ProxyOperationExists ''Inference reservation was cancelled''),
               res\<lparr>sr_acquired := False\<rparr>, 0, m)
         else let m1 = (if ca_reserved p then bind_operation_task (ca_operation p) (ca_task p) m else m) in
           case check_generation (ca_server p) (ca_expected p) m1 of Some e \<Rightarrow> (Refused e, res, 0, m1)
           | None \<Rightarrow> (case server_url (ca_server p) (ca_path p) m1 of Inl e \<Rightarrow> (Refused e, res, 0, m1)
             | Inr url \<Rightarrow>
                 if sr_acquired res then (Ready, res, 0, m1)
                 else (case connection_started p ws m1 of
                     (None, n, m2) \<Rightarrow> (StillWaiting, res, n, m2)
                   | (Some (Inl e), n, m2) \<Rightarrow> (Refused e, res, n, m2)
                   | (Some (Inr g), n, m2) \<Rightarrow>
                       let held = res\<lparr>sr_acquired := True, sr_generation := g\<rparr>;
                           live = (case ca_operation p of None \<Rightarrow> True
                             | Some r \<Rightarrow> (case get_operation r (ca_server p) m2 of None \<Rightarrow> False
                                 | Some op \<Rightarrow> op_status op = OpActive))
                       in if streaming \<and> \<not> live then (Refused CancelledError, held, n, m2)
                          else (Ready, held, n,
                                if streaming then bind_operation_task (ca_operation p) (ca_task p) m2 else m2))))"

text \<open>The outcome reported when a call ends, and its \<open>finally\<close> block.\<close>

definition call_outcome_of :: "call_end \<Rightarrow> op_status" where
  "call_outcome_of e = (case e of
       CallReturned st b \<Rightarrow> if 400 \<le> st then OpFailed else OpCompleted
     | CallRaised x \<Rightarrow> if x = CancelledError \<or> x = GeneratorExit then OpCancelled else OpFailed
     | CallPending \<Rightarrow> OpFailed)"

definition close_call :: "call \<Rightarrow> call_end \<Rightarrow> call_state \<Rightarrow> slot_reservation \<Rightarrow> slot_state
    \<Rightarrow> call_end \<times> call_state \<times> slot_reservation \<times> slot_state" where
  "close_call p e s res m =
     (let m1 = (if cs_opened s then upstream_closed (ca_server p) m else m);
          (res', m2) = release_reservation (ca_server p) (ca_enforce p) (ca_operation p)
             (call_outcome_of e) (ca_now p) (ca_task p) res m1
      in (e, s\<lparr>cs_opened := False\<rparr>, res', m2))"

definition proxy_request :: "call \<Rightarrow> wake list \<Rightarrow> attempt list \<Rightarrow> slot_state
    \<Rightarrow> call_end \<times> call_state \<times> slot_reservation \<times> slot_state" where
  "proxy_request p ws as m =
     (case prepare_call False p ws m of
        (StillWaiting, res, n, m1) \<Rightarrow> (CallPending, call_start, res, m1)
      | (Refused e, res, n, m1) \<Rightarrow> close_call p (CallRaised e) call_start res m1
      | (Ready, res, n, m1) \<Rightarrow> (case call_loop (request_attempt p) p as call_start m1 of
            (CallPending, s, m2) \<Rightarrow> (CallPending, s, res, m2)
          | (e, s, m2) \<Rightarrow> close_call p e s res m2))"

section \<open>\<open>proxy_stream\<close>\<close>

text \<open>The scan for the end marker keeps the last 16 bytes of what it looked at.\<close>

definition DONE_MARKER :: string where
  "DONE_MARKER = ''[DONE]''"

definition scan_chunk :: "string \<Rightarrow> bool \<times> string \<Rightarrow> bool \<times> string" where
  "scan_chunk chunk st = (if fst st then st
     else let scan = snd st @ chunk in (sublist DONE_MARKER scan, keep_last 16 scan))"

text \<open>\<open>error_frame\<close> renders the body of an error response as one frame (json and its codec).\<close>

definition stream_attempt :: "(string \<Rightarrow> string) \<Rightarrow> call \<Rightarrow> attempt_result \<Rightarrow> call_state \<Rightarrow> slot_state
    \<Rightarrow> round \<times> call_state \<times> slot_state" where
  "stream_attempt error_frame p r s m =
     (case r of
        ConnectFails \<Rightarrow> retry_connect False s m
      | NoAnswer e \<Rightarrow> attempt_failed (ca_enforce p) e p s m
      | Answer st chunks e \<Rightarrow>
          let m1 = upstream_opened (ca_server p) m;
              s1 = s\<lparr>cs_opened := True, cs_status := Some st, cs_bytes := cs_bytes s + chunk_bytes chunks\<rparr>
          in if 400 \<le> st
             then (if e = EndOfBody
                   then (Leave (CallReturned st []),
                         s1\<lparr>cs_frames := cs_frames s1 @ [error_frame (concat chunks)]\<rparr>, m1)
                   else attempt_failed (ca_enforce p) e p s1 m1)
             else let (seen, tl) = fold scan_chunk chunks (cs_done_seen s1, cs_done_tail s1);
                      s2 = s1\<lparr>cs_frames := cs_frames s1 @ chunks, cs_done_seen := seen, cs_done_tail := tl\<rparr>
                  in if e = EndOfBody
                     then (Leave (CallReturned st []), s2\<lparr>cs_opened := False\<rparr>, upstream_closed (ca_server p) m1)
                     else attempt_failed (ca_enforce p) e p s2 m1)"

definition QUEUED_FRAME :: string where
  "QUEUED_FRAME = '': inference slot queued'' @ [CHR 0x0A, CHR 0x0A]"

definition proxy_stream :: "(string \<Rightarrow> string) \<Rightarrow> call \<Rightarrow> wake list \<Rightarrow> attempt list \<Rightarrow> slot_state
    \<Rightarrow> call_end \<times> call_state \<times> slot_reservation \<times> slot_state" where
  "proxy_stream error_frame p ws as m =
     (case prepare_call True p ws m of
        (StillWaiting, res, n, m1) \<Rightarrow>
          (CallPending, call_start\<lparr>cs_frames := replicate n QUEUED_FRAME\<rparr>, res, m1)
      | (Refused e, res, n, m1) \<Rightarrow>
          close_call p (CallRaised e) (call_start\<lparr>cs_frames := replicate n QUEUED_FRAME\<rparr>) res m1
      | (Ready, res, n, m1) \<Rightarrow>
          (case call_loop (stream_attempt error_frame p) p as
              (call_start\<lparr>cs_frames := replicate n QUEUED_FRAME\<rparr>) m1 of
            (CallPending, s, m2) \<Rightarrow> (CallPending, s, res, m2)
          | (e, s, m2) \<Rightarrow> close_call p e s res m2))"


section \<open>The retry loop\<close>

text \<open>Rounds a call has left, and rounds in which it may still reach the engine again.\<close>

definition rounds_left :: "call_state \<Rightarrow> nat" where
  "rounds_left s = length (cs_delays s) + (MAX_PRE_BYTE_IDLE_RETRIES - cs_idle s)"

definition replays_left :: "bool \<Rightarrow> call \<Rightarrow> call_state \<Rightarrow> nat" where
  "replays_left counted p s =
     (if ca_reserved p \<or> \<not> counted then 0 else MAX_PRE_BYTE_IDLE_RETRIES - cs_idle s)"

definition opened_from :: "uuid \<Rightarrow> bool \<Rightarrow> slot_state \<Rightarrow> slot_state \<Rightarrow> bool" where
  "opened_from sid op m m' \<longleftrightarrow>
     connections m' = connections (if op then upstream_opened sid m else m)"

lemma open_close:
  assumes "\<forall>n. connections m sid = Some n \<longrightarrow> 0 < n"
  shows "connections (upstream_closed sid (upstream_opened sid m)) = connections m"
  using assms by (cases "connections m sid") (auto simp: upstream_closed_def upstream_opened_def fun_eq_iff)

lemma closed_cong:
  "connections m' = connections m \<Longrightarrow> connections (upstream_closed sid m') = connections (upstream_closed sid m)"
  by (simp add: upstream_closed_def split: option.splits)

text \<open>What both call functions promise about one attempt.\<close>

locale retry_policy =
  fixes exch :: "attempt_result \<Rightarrow> call_state \<Rightarrow> slot_state \<Rightarrow> round \<times> call_state \<times> slot_state"
    and p :: call and counted :: bool
  assumes again_rounds: "exch r s m = (Again, s', m') \<Longrightarrow> rounds_left s' < rounds_left s"
    and again_replays: "exch r s m = (Again, s', m') \<Longrightarrow> replays_left counted p s' \<le> replays_left counted p s"
    and again_reached: "exch r s m = (Again, s', m') \<Longrightarrow> r \<noteq> ConnectFails \<Longrightarrow>
      replays_left counted p s' < replays_left counted p s"
    and attempts_kept: "exch r s m = (nx, s', m') \<Longrightarrow> cs_attempts s' = cs_attempts s"
    and leaves: "exch r s m = (Leave e, s', m') \<Longrightarrow> e \<noteq> CallPending"
    and opens: "exch r s m = (nx, s', m') \<Longrightarrow> \<not> cs_opened s \<Longrightarrow>
      (\<forall>n. connections m (ca_server p) = Some n \<longrightarrow> 0 < n) \<Longrightarrow>
      opened_from (ca_server p) (cs_opened s') m m' \<and> (nx = Again \<longrightarrow> \<not> cs_opened s')"
begin

lemma loop_bounds:
  "call_loop exch p as s m = (e, s', m') \<Longrightarrow>
     cs_attempts s' \<le> cs_attempts s + rounds_left s + 1
     \<and> cs_attempts s \<le> cs_attempts s' \<and> cs_attempts s' - cs_attempts s \<le> length as
     \<and> length (filter reached (take (cs_attempts s' - cs_attempts s) as)) \<le> replays_left counted p s + 1
     \<and> (rounds_left s < length as \<longrightarrow> e \<noteq> CallPending)"
proof (induction as arbitrary: s m)
  case Nil
  then show ?case by simp
next
  case (Cons a as)
  let ?m = "at_env a m" and ?s = "s\<lparr>cs_attempts := cs_attempts s + 1\<rparr>"
  have s: "rounds_left ?s = rounds_left s" "replays_left counted p ?s = replays_left counted p s"
    by (simp_all add: rounds_left_def replays_left_def)
  show ?case
  proof (cases "check_generation (ca_server p) (ca_expected p) ?m")
    case (Some x)
    with Cons.prems show ?thesis by (auto simp: Let_def)
  next
    case None
    obtain nx s1 m1 where t: "exch (at_result a) ?s ?m = (nx, s1, m1)" by (metis prod_cases3)
    have n: "cs_attempts s1 = cs_attempts s + 1" using attempts_kept [OF t] by simp
    show ?thesis
    proof (cases nx)
      case (Leave e1)
      with Cons.prems None t have "e = e1" "s' = s1" by (simp_all add: Let_def)
      then show ?thesis using n leaves t Leave by auto
    next
      case Again
      with t have again: "exch (at_result a) ?s ?m = (Again, s1, m1)" by simp
      from Cons.prems None t Again have rest: "call_loop exch p as s1 m1 = (e, s', m')"
        by (simp add: Let_def)
      note IH = Cons.IH [OF rest]
      have r: "rounds_left s1 < rounds_left s" using again_rounds [OF again] s(1) by simp
      have q: "replays_left counted p s1 + (if reached a then 1 else 0) \<le> replays_left counted p s"
        using again_replays [OF again] again_reached [OF again] s(2)
        by (cases "at_result a") (auto simp: reached_def)
      have d: "cs_attempts s' - cs_attempts s = Suc (cs_attempts s' - cs_attempts s1)"
        using IH n by linarith
      have "length (filter reached (take (cs_attempts s' - cs_attempts s) (a # as)))
          \<le> replays_left counted p s + 1"
        using IH q unfolding d by (simp split: if_splits)
      with IH n r d show ?thesis by auto
    qed
  qed
qed

lemma loop_opens:
  assumes "call_loop exch p as s m = (e, s', m')" "\<not> cs_opened s"
    and "\<forall>a\<in>set as. \<forall>m. connections (at_env a m) = connections m"
    and "\<forall>n. connections m (ca_server p) = Some n \<longrightarrow> 0 < n"
  shows "opened_from (ca_server p) (cs_opened s') m m'"
  using assms
proof (induction as arbitrary: s m)
  case Nil
  then show ?case by (simp add: opened_from_def)
next
  case (Cons a as)
  let ?m = "at_env a m" and ?s = "s\<lparr>cs_attempts := cs_attempts s + 1\<rparr>"
  have env: "connections ?m = connections m" using Cons.prems(3) by simp
  have up: "connections (upstream_opened sid ?m) = connections (upstream_opened sid m)" for sid
    using env by (simp add: upstream_opened_def)
  show ?case
  proof (cases "check_generation (ca_server p) (ca_expected p) ?m")
    case (Some x)
    with Cons.prems env show ?thesis by (simp add: Let_def opened_from_def)
  next
    case None
    obtain nx s1 m1 where t: "exch (at_result a) ?s ?m = (nx, s1, m1)" by (metis prod_cases3)
    have o1: "opened_from (ca_server p) (cs_opened s1) ?m m1 \<and> (nx = Again \<longrightarrow> \<not> cs_opened s1)"
      by (rule opens [OF t]) (use Cons.prems(2,4) env in simp_all)
    show ?thesis
    proof (cases nx)
      case (Leave e1)
      with Cons.prems(1) None t have "s' = s1" "m' = m1" by (simp_all add: Let_def)
      with o1 env up show ?thesis by (simp add: opened_from_def split: if_splits)
    next
      case Again
      with o1 have no: "\<not> cs_opened s1" and same: "connections m1 = connections m"
        using env by (simp_all add: opened_from_def)
      from Cons.prems(1) None t Again have rest: "call_loop exch p as s1 m1 = (e, s', m')"
        by (simp add: Let_def)
      have "opened_from (ca_server p) (cs_opened s') m1 m'"
        by (rule Cons.IH [OF rest no]) (use Cons.prems(3,4) same in simp_all)
      moreover have "connections (upstream_opened sid m1) = connections (upstream_opened sid m)" for sid
        using same by (simp add: upstream_opened_def)
      ultimately show ?thesis using same by (simp add: opened_from_def split: if_splits)
    qed
  qed
qed

end

lemma retry_connect_facts:
  assumes "retry_connect c s m = (nx, s', m')"
  shows "m' = m" "cs_opened s' = cs_opened s" "cs_attempts s' = cs_attempts s" "cs_idle s' = cs_idle s"
    "nx = Again \<Longrightarrow> length (cs_delays s') < length (cs_delays s)" "nx = Leave e \<Longrightarrow> e \<noteq> CallPending"
    "nx = Again \<Longrightarrow> \<not> c"
  using assms by (auto simp: retry_connect_def split: list.splits if_splits)

lemma retry_idle_again:
  assumes "retry_idle counted p s m = (Again, s', m')"
  shows "\<not> ca_reserved p" "counted" "cs_idle s < MAX_PRE_BYTE_IDLE_RETRIES" "cs_idle s' = cs_idle s + 1"
    "cs_delays s' = cs_delays s"
  using assms by (auto simp: retry_idle_def may_replay_def Let_def split: if_splits option.splits)

lemma retry_idle_facts:
  assumes "retry_idle counted p s m = (nx, s', m')"
  shows "cs_attempts s' = cs_attempts s" "nx = Leave e \<Longrightarrow> e \<noteq> CallPending"
    "(cs_opened s' = cs_opened s \<and> m' = m \<and> nx \<noteq> Again) \<or>
     (\<not> cs_opened s' \<and> m' = (if cs_opened s then upstream_closed (ca_server p) m else m))"
  using assms by (auto simp: retry_idle_def Let_def split: if_splits option.splits)

lemma attempt_failed_cases:
  assumes "attempt_failed counted e p s m = (nx, s', m')"
  shows "retry_idle counted p s m = (nx, s', m') \<or> (\<exists>x. nx = Leave (CallRaised x) \<and> s' = s \<and> m' = m)"
  using assms by (cases e) (auto simp: attempt_failed_def)

lemma attempt_failed_again:
  assumes "attempt_failed counted e p s m = (Again, s', m')"
  shows "rounds_left s' < rounds_left s" "replays_left counted p s' < replays_left counted p s"
proof -
  have "retry_idle counted p s m = (Again, s', m')" using attempt_failed_cases [OF assms] by simp
  note f = retry_idle_again [OF this]
  show "rounds_left s' < rounds_left s" "replays_left counted p s' < replays_left counted p s"
    using f by (auto simp: rounds_left_def replays_left_def)
qed

lemma attempt_failed_facts:
  assumes "attempt_failed counted e p s m = (nx, s', m')"
  shows "cs_attempts s' = cs_attempts s" "nx = Leave e' \<Longrightarrow> e' \<noteq> CallPending"
  using attempt_failed_cases [OF assms]
  by (auto dest: retry_idle_facts(1) retry_idle_facts(2) [OF _ refl])

lemma attempt_failed_opens:
  assumes "attempt_failed counted e p s m1 = (nx, s', m')"
    and "if cs_opened s then connections m1 = connections (upstream_opened (ca_server p) m) else connections m1 = connections m"
    and "\<forall>n. connections m (ca_server p) = Some n \<longrightarrow> 0 < n"
  shows "opened_from (ca_server p) (cs_opened s') m m' \<and> (nx = Again \<longrightarrow> \<not> cs_opened s')"
  using attempt_failed_cases [OF assms(1)]
proof
  assume "\<exists>x. nx = Leave (CallRaised x) \<and> s' = s \<and> m' = m1"
  with assms(2) show ?thesis by (auto simp: opened_from_def split: if_splits)
next
  assume r: "retry_idle counted p s m1 = (nx, s', m')"
  from retry_idle_facts(3) [OF r] show ?thesis
  proof
    assume "cs_opened s' = cs_opened s \<and> m' = m1 \<and> nx \<noteq> Again"
    with assms(2) show ?thesis by (auto simp: opened_from_def split: if_splits)
  next
    assume c: "\<not> cs_opened s' \<and> m' = (if cs_opened s then upstream_closed (ca_server p) m1 else m1)"
    have "connections m' = connections m"
    proof (cases "cs_opened s")
      case True
      with assms(2) have "connections m1 = connections (upstream_opened (ca_server p) m)" by simp
      from closed_cong [OF this] open_close [OF assms(3)] True c show ?thesis by simp
    next
      case False
      with assms(2) c show ?thesis by simp
    qed
    with c show ?thesis by (simp add: opened_from_def)
  qed
qed


lemma request_again:
  assumes "request_attempt p r s m = (Again, s', m')"
  shows "rounds_left s' < rounds_left s" "replays_left (inference_call p) p s' \<le> replays_left (inference_call p) p s"
    "r \<noteq> ConnectFails \<Longrightarrow> replays_left (inference_call p) p s' < replays_left (inference_call p) p s"
proof -
  consider (con) "r = ConnectFails" "retry_connect (cs_opened s) s m = (Again, s', m')"
    | (fail) counted e s1 m1 where "r \<noteq> ConnectFails" "attempt_failed counted e p s1 m1 = (Again, s', m')"
        "counted = inference_call p" "cs_delays s1 = cs_delays s" "cs_idle s1 = cs_idle s"
    using assms by (auto simp: request_attempt_def Let_def split: attempt_result.splits if_splits)
  then have "rounds_left s' < rounds_left s
      \<and> replays_left (inference_call p) p s' \<le> replays_left (inference_call p) p s
      \<and> (r \<noteq> ConnectFails \<longrightarrow> replays_left (inference_call p) p s' < replays_left (inference_call p) p s)"
  proof cases
    case con
    then show ?thesis using retry_connect_facts(4,5) [OF con(2)]
      by (simp add: rounds_left_def replays_left_def)
  next
    case fail
    have "rounds_left s1 = rounds_left s"
        "replays_left (inference_call p) p s1 = replays_left (inference_call p) p s"
      using fail(4,5) by (simp_all add: rounds_left_def replays_left_def)
    with attempt_failed_again [OF fail(2)] fail(3) show ?thesis by simp
  qed
  then show "rounds_left s' < rounds_left s"
    "replays_left (inference_call p) p s' \<le> replays_left (inference_call p) p s"
    "r \<noteq> ConnectFails \<Longrightarrow> replays_left (inference_call p) p s' < replays_left (inference_call p) p s"
    by auto
qed

lemma request_facts:
  assumes "request_attempt p r s m = (nx, s', m')"
  shows "cs_attempts s' = cs_attempts s" "nx = Leave e \<Longrightarrow> e \<noteq> CallPending"
  using assms
  by (auto simp: request_attempt_def Let_def split: attempt_result.splits if_splits
      dest: retry_connect_facts(3) retry_connect_facts(6) [OF _ refl]
        attempt_failed_facts(1) attempt_failed_facts(2) [OF _ refl])

lemma request_opens:
  assumes "request_attempt p r s m = (nx, s', m')" "\<not> cs_opened s"
    and "\<forall>n. connections m (ca_server p) = Some n \<longrightarrow> 0 < n"
  shows "opened_from (ca_server p) (cs_opened s') m m' \<and> (nx = Again \<longrightarrow> \<not> cs_opened s')"
proof (cases r)
  case ConnectFails
  with assms(1) have t: "retry_connect (cs_opened s) s m = (nx, s', m')" by (simp add: request_attempt_def)
  show ?thesis using retry_connect_facts(1,2) [OF t] assms(2) by (simp add: opened_from_def)
next
  case (NoAnswer e)
  with assms(1) have t: "attempt_failed (inference_call p) e p s m = (nx, s', m')"
    by (simp add: request_attempt_def)
  show ?thesis by (rule attempt_failed_opens [OF t _ assms(3)]) (use assms(2) in simp)
next
  case (Answer st chunks e)
  let ?s1 = "s\<lparr>cs_opened := True, cs_status := Some st, cs_bytes := cs_bytes s + chunk_bytes chunks\<rparr>"
  let ?m1 = "upstream_opened (ca_server p) m"
  show ?thesis
  proof (cases "e = EndOfBody")
    case True
    with Answer assms(1,2) show ?thesis
      by (auto simp: request_attempt_def Let_def opened_from_def split: if_splits)
  next
    case False
    show ?thesis
    proof (cases "inference_call p")
      case True
      with False Answer assms(1) have t: "attempt_failed True e p ?s1 ?m1 = (nx, s', m')"
        by (simp add: request_attempt_def Let_def)
      show ?thesis by (rule attempt_failed_opens [OF t _ assms(3)]) simp
    next
      case no: False
      with False Answer assms(1) have t: "attempt_failed False e p s m = (nx, s', m')"
        by (simp add: request_attempt_def Let_def)
      show ?thesis by (rule attempt_failed_opens [OF t _ assms(3)]) (use assms(2) in simp)
    qed
  qed
qed

interpretation request: retry_policy "request_attempt p" p "inference_call p" for p
  by unfold_locales (fact request_again request_facts(1) request_facts(2) [OF _ refl] request_opens)+

lemma stream_cases:
  assumes "stream_attempt ef p r s m = (nx, s', m')"
  obtains (con) "r = ConnectFails" "retry_connect False s m = (nx, s', m')"
  | (none) e where "r = NoAnswer e" "attempt_failed (ca_enforce p) e p s m = (nx, s', m')"
  | (body) st chunks b where "r = Answer st chunks EndOfBody" "nx = Leave (CallReturned st b)"
      "cs_attempts s' = cs_attempts s"
      "(cs_opened s' \<and> m' = upstream_opened (ca_server p) m)
       \<or> (\<not> cs_opened s' \<and> m' = upstream_closed (ca_server p) (upstream_opened (ca_server p) m))"
  | (broken) st chunks e s1 where "r = Answer st chunks e" "e \<noteq> EndOfBody"
      "attempt_failed (ca_enforce p) e p s1 (upstream_opened (ca_server p) m) = (nx, s', m')"
      "cs_opened s1" "cs_attempts s1 = cs_attempts s" "cs_delays s1 = cs_delays s" "cs_idle s1 = cs_idle s"
proof (cases r)
  case ConnectFails
  with assms con show ?thesis by (simp add: stream_attempt_def)
next
  case (NoAnswer e)
  with assms none show ?thesis by (simp add: stream_attempt_def)
next
  case (Answer st chunks e)
  obtain seen tl where sc: "fold scan_chunk chunks (cs_done_seen s, cs_done_tail s) = (seen, tl)"
    by (metis surj_pair)
  show ?thesis
  proof (cases "e = EndOfBody")
    case True
    show ?thesis
      by (rule body [of st chunks "[]"])
        (use assms Answer True sc in \<open>auto simp: stream_attempt_def Let_def split: if_splits\<close>)
  next
    case False
    show ?thesis
    proof (cases "400 \<le> st")
      case True
      show ?thesis
        by (rule broken [of st chunks e "s\<lparr>cs_opened := True, cs_status := Some st,
              cs_bytes := cs_bytes s + chunk_bytes chunks\<rparr>"])
          (use assms Answer True False in \<open>simp_all add: stream_attempt_def Let_def\<close>)
    next
      case lt: False
      show ?thesis
        by (rule broken [of st chunks e "s\<lparr>cs_opened := True, cs_status := Some st,
              cs_bytes := cs_bytes s + chunk_bytes chunks, cs_frames := cs_frames s @ chunks,
              cs_done_seen := seen, cs_done_tail := tl\<rparr>"])
          (use assms Answer lt False sc in \<open>simp_all add: stream_attempt_def Let_def\<close>)
    qed
  qed
qed

lemma stream_again:
  assumes "stream_attempt ef p r s m = (Again, s', m')"
  shows "rounds_left s' < rounds_left s" "replays_left (ca_enforce p) p s' \<le> replays_left (ca_enforce p) p s"
    "r \<noteq> ConnectFails \<Longrightarrow> replays_left (ca_enforce p) p s' < replays_left (ca_enforce p) p s"
proof -
  have "rounds_left s' < rounds_left s
      \<and> replays_left (ca_enforce p) p s' \<le> replays_left (ca_enforce p) p s
      \<and> (r \<noteq> ConnectFails \<longrightarrow> replays_left (ca_enforce p) p s' < replays_left (ca_enforce p) p s)"
    using assms
  proof (cases rule: stream_cases)
    case con
    then show ?thesis using retry_connect_facts(4,5) [OF con(2)]
      by (simp add: rounds_left_def replays_left_def)
  next
    case (none e)
    with attempt_failed_again [OF none(2)] show ?thesis by simp
  next
    case (body st chunks b)
    then show ?thesis by simp
  next
    case (broken st chunks e s1)
    have "rounds_left s1 = rounds_left s"
        "replays_left (ca_enforce p) p s1 = replays_left (ca_enforce p) p s"
      using broken(6,7) by (simp_all add: rounds_left_def replays_left_def)
    with attempt_failed_again [OF broken(3)] show ?thesis by simp
  qed
  then show "rounds_left s' < rounds_left s"
    "replays_left (ca_enforce p) p s' \<le> replays_left (ca_enforce p) p s"
    "r \<noteq> ConnectFails \<Longrightarrow> replays_left (ca_enforce p) p s' < replays_left (ca_enforce p) p s"
    by auto
qed

lemma stream_facts:
  assumes "stream_attempt ef p r s m = (nx, s', m')"
  shows "cs_attempts s' = cs_attempts s \<and> (\<forall>e. nx = Leave e \<longrightarrow> e \<noteq> CallPending)"
  using assms
proof (cases rule: stream_cases)
  case con
  then show ?thesis using retry_connect_facts(3) [OF con(2)] retry_connect_facts(6) [OF con(2)] by blast
next
  case (none e)
  then show ?thesis using attempt_failed_facts [OF none(2)] by blast
next
  case (body st chunks b)
  then show ?thesis by simp
next
  case (broken st chunks e s1)
  then show ?thesis using attempt_failed_facts [OF broken(3)] by auto
qed

lemma stream_opens:
  assumes "stream_attempt ef p r s m = (nx, s', m')" "\<not> cs_opened s"
    and "\<forall>n. connections m (ca_server p) = Some n \<longrightarrow> 0 < n"
  shows "opened_from (ca_server p) (cs_opened s') m m' \<and> (nx = Again \<longrightarrow> \<not> cs_opened s')"
  using assms(1)
proof (cases rule: stream_cases)
  case con
  then show ?thesis using retry_connect_facts(1,2) [OF con(2)] assms(2) by (simp add: opened_from_def)
next
  case (none e)
  show ?thesis by (rule attempt_failed_opens [OF none(2) _ assms(3)]) (use assms(2) in simp)
next
  case (body st chunks b)
  then show ?thesis using open_close [OF assms(3)] by (auto simp: opened_from_def)
next
  case (broken st chunks e s1)
  show ?thesis by (rule attempt_failed_opens [OF broken(3) _ assms(3)]) (use broken(4) in simp)
qed

interpretation stream: retry_policy "stream_attempt ef p" p "ca_enforce p" for ef p
proof unfold_locales
  fix r s s' m m'
  assume a: "stream_attempt ef p r s m = (Again, s', m')"
  note f = stream_again [OF a]
  show "rounds_left s' < rounds_left s" by (rule f(1))
  show "replays_left (ca_enforce p) p s' \<le> replays_left (ca_enforce p) p s" by (rule f(2))
  show "replays_left (ca_enforce p) p s' < replays_left (ca_enforce p) p s" if "r \<noteq> ConnectFails"
    by (rule f(3) [OF that])
next
  fix r s nx s' m m'
  assume a: "stream_attempt ef p r s m = (nx, s', m')"
  show "cs_attempts s' = cs_attempts s" using stream_facts [OF a] by blast
next
  fix r s e s' m m'
  assume a: "stream_attempt ef p r s m = (Leave e, s', m')"
  show "e \<noteq> CallPending" using stream_facts [OF a] by blast
next
  fix r s nx s' m m'
  assume a: "stream_attempt ef p r s m = (nx, s', m')" "\<not> cs_opened s"
    "\<forall>n. connections m (ca_server p) = Some n \<longrightarrow> 0 < n"
  show "opened_from (ca_server p) (cs_opened s') m m' \<and> (nx = Again \<longrightarrow> \<not> cs_opened s')"
    by (rule stream_opens [OF a])
qed


section \<open>The marker scan\<close>

lemma keep_last_append: "keep_last n (keep_last n xs @ ys) = keep_last n (xs @ ys)"
  by (cases "length xs \<le> n") (simp_all add: keep_last_def add.commute)

lemma sublist_extend: "sublist w xs \<Longrightarrow> sublist w (as @ xs @ bs)"
  unfolding sublist_def by (metis append.assoc)

lemma marker_in_tail:
  assumes "\<not> sublist w xs" "length w \<le> Suc n"
  shows "sublist w (keep_last n xs @ ys) = sublist w (xs @ ys)"
proof
  assume "sublist w (keep_last n xs @ ys)"
  moreover obtain zs where "xs = zs @ keep_last n xs" using keep_last_sublist [of xs n] ..
  ultimately show "sublist w (xs @ ys)"
    using sublist_extend [of w "keep_last n xs @ ys" zs "[]"] by (metis append.assoc append_Nil2)
next
  assume "sublist w (xs @ ys)"
  then obtain ps ss where eq: "xs @ ys = ps @ w @ ss" by (auto simp: sublist_def)
  have "length xs < length ps + length w"
  proof (rule ccontr)
    assume "\<not> length xs < length ps + length w"
    then have "take (length ps + length w) (xs @ ys) = take (length ps + length w) xs" by simp
    moreover have "take (length ps + length w) (xs @ ys) = ps @ w" by (simp add: eq)
    ultimately have "xs = ps @ w @ drop (length ps + length w) xs"
      by (metis append.assoc append_take_drop_id)
    with assms(1) show False by (metis sublist_appendI)
  qed
  then have le: "length xs - n \<le> length ps" using assms(2) by linarith
  have "keep_last n xs @ ys = drop (length xs - n) (xs @ ys)" by (simp add: keep_last_def)
  also have "\<dots> = drop (length xs - n) ps @ w @ ss" using le by (simp add: eq)
  finally show "sublist w (keep_last n xs @ ys)" by (simp add: sublist_appendI)
qed

lemma scan_seen: "fst st \<Longrightarrow> fold scan_chunk cs st = st"
  by (induction cs) (simp_all add: scan_chunk_def)

lemma scan_fold:
  "\<not> sublist DONE_MARKER xs \<Longrightarrow>
   fst (fold scan_chunk cs (False, keep_last 16 xs)) = sublist DONE_MARKER (xs @ concat cs)"
proof (induction cs arbitrary: xs)
  case Nil
  then show ?case by simp
next
  case (Cons c cs)
  have "sublist DONE_MARKER (keep_last 16 xs @ c) = sublist DONE_MARKER (xs @ c)"
    by (rule marker_in_tail [OF Cons.prems]) (simp add: DONE_MARKER_def)
  then have step: "scan_chunk c (False, keep_last 16 xs) = (sublist DONE_MARKER (xs @ c), keep_last 16 (xs @ c))"
    by (simp add: scan_chunk_def Let_def keep_last_append)
  show ?case
  proof (cases "sublist DONE_MARKER (xs @ c)")
    case True
    then have "fst (fold scan_chunk (c # cs) (False, keep_last 16 xs))"
      using step scan_seen [of "(True, keep_last 16 (xs @ c))" cs] by simp
    moreover have "sublist DONE_MARKER ((xs @ c) @ concat cs)"
      using sublist_extend [OF True, of "[]"] by simp
    ultimately show ?thesis by simp
  next
    case False
    with Cons.IH [OF False] step show ?thesis by simp
  qed
qed

section \<open>Properties\<close>

text \<open>
  Claim C18: scanning a stream chunk by chunk with a tail of 16 bytes finds the end marker
  exactly when it occurs anywhere in the whole stream, also across chunk boundaries.
\<close>
lemma marker_scan_complete:
  "fst (fold scan_chunk chunks (False, [])) = sublist DONE_MARKER (concat chunks)"
  using scan_fold [of "[]" chunks] by (simp add: keep_last_def DONE_MARKER_def)


lemma call_start_sel [simp]:
  "\<not> cs_opened call_start" "cs_attempts call_start = 0"
  "rounds_left call_start = 7" "replays_left counted p call_start \<le> Suc 0"
  "ca_reserved p \<Longrightarrow> replays_left counted p call_start = 0"
  by (simp_all add: call_start_def rounds_left_def replays_left_def CONNECT_RETRY_DELAYS_def
      MAX_PRE_BYTE_IDLE_RETRIES_def)

lemma frames_sel [simp]:
  "\<not> cs_opened (call_start\<lparr>cs_frames := fs\<rparr>)" "cs_attempts (call_start\<lparr>cs_frames := fs\<rparr>) = 0"
  "rounds_left (call_start\<lparr>cs_frames := fs\<rparr>) = 7"
  "replays_left counted p (call_start\<lparr>cs_frames := fs\<rparr>) = replays_left counted p call_start"
  by (simp_all add: call_start_def rounds_left_def replays_left_def CONNECT_RETRY_DELAYS_def
      MAX_PRE_BYTE_IDLE_RETRIES_def)

lemma close_call_sel:
  "close_call p e s res m = (e', s', res', m') \<Longrightarrow> e' = e \<and> cs_attempts s' = cs_attempts s"
  by (auto simp: close_call_def Let_def split: prod.splits)

definition calls_made :: "attempt list \<Rightarrow> call_state \<Rightarrow> nat" where
  "calls_made as s = length (filter reached (take (cs_attempts s) as))"

text \<open>How a proxied call ends, from what precedes its loop and the loop.\<close>

lemma proxy_request_cases:
  assumes "proxy_request p ws as m = (e, s, res, m')"
  obtains (wait) n where "prepare_call False p ws m = (StillWaiting, res, n, m')" "e = CallPending" "s = call_start"
  | (refuse) x res1 n m1 where "prepare_call False p ws m = (Refused x, res1, n, m1)"
      "close_call p (CallRaised x) call_start res1 m1 = (e, s, res, m')"
  | (pending) n m1 where "prepare_call False p ws m = (Ready, res, n, m1)" "e = CallPending"
      "call_loop (request_attempt p) p as call_start m1 = (e, s, m')"
  | (ended) res1 n m1 e1 s1 m2 where "prepare_call False p ws m = (Ready, res1, n, m1)"
      "call_loop (request_attempt p) p as call_start m1 = (e1, s1, m2)" "e1 \<noteq> CallPending"
      "close_call p e1 s1 res1 m2 = (e, s, res, m')"
  using assms by (auto simp: proxy_request_def split: prod.splits prep.splits call_end.splits)

lemma proxy_stream_cases:
  assumes "proxy_stream ef p ws as m = (e, s, res, m')"
  obtains (wait) n fs where "prepare_call True p ws m = (StillWaiting, res, n, m')" "e = CallPending"
      "s = call_start\<lparr>cs_frames := fs\<rparr>"
  | (refuse) x res1 n m1 fs where "prepare_call True p ws m = (Refused x, res1, n, m1)"
      "close_call p (CallRaised x) (call_start\<lparr>cs_frames := fs\<rparr>) res1 m1 = (e, s, res, m')"
  | (pending) n m1 fs where "prepare_call True p ws m = (Ready, res, n, m1)" "e = CallPending"
      "call_loop (stream_attempt ef p) p as (call_start\<lparr>cs_frames := fs\<rparr>) m1 = (e, s, m')"
  | (ended) res1 n m1 e1 s1 m2 fs where "prepare_call True p ws m = (Ready, res1, n, m1)"
      "call_loop (stream_attempt ef p) p as (call_start\<lparr>cs_frames := fs\<rparr>) m1 = (e1, s1, m2)" "e1 \<noteq> CallPending"
      "close_call p e1 s1 res1 m2 = (e, s, res, m')"
  using assms by (auto simp: proxy_stream_def split: prod.splits prep.splits call_end.splits)

lemma prepare_reserved:
  "ca_reserved p \<Longrightarrow> prepare_call streaming p ws m = (w, res, n, m1) \<Longrightarrow> w \<noteq> StillWaiting"
  by (auto simp: prepare_call_def Let_def split: if_splits option.splits sum.splits)

lemma made_bounds:
  assumes "cs_attempts s = cs_attempts s1" "replays_left counted p s0 \<le> 1"
    and "ca_reserved p \<Longrightarrow> replays_left counted p s0 = 0"
    and "length (filter reached (take (cs_attempts s1) as)) \<le> replays_left counted p s0 + 1"
  shows "calls_made as s \<le> (if ca_reserved p then 1 else 2)"
  using assms by (auto simp: calls_made_def)

lemma request_bounds:
  assumes "proxy_request p ws as m = (e, s, res, m')"
  shows "cs_attempts s \<le> 8 \<and> calls_made as s \<le> (if ca_reserved p then 1 else 2)
    \<and> (ca_reserved p \<longrightarrow> 7 < length as \<longrightarrow> e \<noteq> CallPending)"
  using assms
proof (cases rule: proxy_request_cases)
  case (wait n)
  then show ?thesis using prepare_reserved [OF _ wait(1)] by (auto simp: calls_made_def)
next
  case (refuse x res1 n m1)
  from close_call_sel [OF refuse(2)] show ?thesis by (simp add: calls_made_def)
next
  case (pending n m1)
  note b = request.loop_bounds [OF pending(3), simplified]
  have "calls_made as s \<le> (if ca_reserved p then 1 else 2)"
    by (rule made_bounds [of s s "inference_call p" p call_start]) (use b in simp_all)
  with b pending(2) show ?thesis by simp
next
  case (ended res1 n m1 e1 s1 m2)
  note b = request.loop_bounds [OF ended(2), simplified] and c = close_call_sel [OF ended(4)]
  have "calls_made as s \<le> (if ca_reserved p then 1 else 2)"
    by (rule made_bounds [of s s1 "inference_call p" p call_start]) (use b c in simp_all)
  with b c ended(3) show ?thesis by simp
qed

lemma stream_bounds:
  assumes "proxy_stream ef p ws as m = (e, s, res, m')"
  shows "cs_attempts s \<le> 8 \<and> calls_made as s \<le> (if ca_reserved p then 1 else 2)
    \<and> (ca_reserved p \<longrightarrow> 7 < length as \<longrightarrow> e \<noteq> CallPending)"
  using assms
proof (cases rule: proxy_stream_cases)
  case (wait n fs)
  then show ?thesis using prepare_reserved [OF _ wait(1)] by (auto simp: calls_made_def)
next
  case (refuse x res1 n m1 fs)
  from close_call_sel [OF refuse(2)] show ?thesis by (simp add: calls_made_def)
next
  case (pending n m1 fs)
  note b = stream.loop_bounds [OF pending(3), simplified]
  have "calls_made as s \<le> (if ca_reserved p then 1 else 2)"
    by (rule made_bounds [of s s "ca_enforce p" p call_start]) (use b in simp_all)
  with b pending(2) show ?thesis by simp
next
  case (ended res1 n m1 e1 s1 m2 fs)
  note b = stream.loop_bounds [OF ended(2), simplified] and c = close_call_sel [OF ended(4)]
  have "calls_made as s \<le> (if ca_reserved p then 1 else 2)"
    by (rule made_bounds [of s s1 "ca_enforce p" p call_start]) (use b c in simp_all)
  with b c ended(3) show ?thesis by simp
qed

text \<open>
  Claim C17: a proxied request and a proxied stream make at most eight attempts, whatever the
  engine does and however the server changes meanwhile; an attempt that may have reached the
  engine is repeated at most once, and for a call with a reserved slot never; a reserved call
  has ended after eight attempts.
\<close>
lemma reserved_never_replayed:
  "(case proxy_request p ws as m of (e, s, res, m') \<Rightarrow>
      cs_attempts s \<le> 8 \<and> calls_made as s \<le> (if ca_reserved p then 1 else 2)
      \<and> (ca_reserved p \<longrightarrow> 7 < length as \<longrightarrow> e \<noteq> CallPending))
   \<and> (case proxy_stream error_frame p ws as m of (e, s, res, m') \<Rightarrow>
      cs_attempts s \<le> 8 \<and> calls_made as s \<le> (if ca_reserved p then 1 else 2)
      \<and> (ca_reserved p \<longrightarrow> 7 < length as \<longrightarrow> e \<noteq> CallPending))"
  using request_bounds stream_bounds by (fastforce split: prod.splits)

text \<open>The connection counters: what precedes the loop and the release leave them alone.\<close>

lemma finish_connections [simp]: "connections (finish_operation r st now cur m) = connections m"
  by (simp add: finish_operation_def split: option.splits)

lemma activate_connections [simp]: "connections (activate_operation r m) = connections m"
  by (simp add: activate_operation_def split: option.splits)

lemma bind_connections [simp]: "connections (bind_operation_task r cur m) = connections m"
  by (simp add: bind_operation_task_def split: option.splits)

lemma start_connections: "start_operation r sid g now cur m = Inr m' \<Longrightarrow> connections m' = connections m"
  by (auto simp: start_operation_def split: if_splits)

lemma slot_connections [simp]:
  "connections (take_slot sid m) = connections m" "connections (give_slot sid m) = connections m"
  "connections (with_conditions m) = connections m"
  by (simp_all add: take_slot_def give_slot_def with_conditions_def Let_def)

lemma register_connections: "connections (snd (connection_register sid r ex now cur m)) = connections m"
  by (auto simp: connection_register_def Let_def dest: start_connections split: option.splits sum.splits)

lemma turn_connections: "connections (snd (connection_turn sid r ex now cur m)) = connections m"
  by (simp add: connection_turn_def split: option.splits)

fun wake_neutral :: "wake \<Rightarrow> bool" where
  "wake_neutral (Wake f) = (\<forall>m. connections (f m) = connections m)"
| "wake_neutral WakeTick = True"
| "wake_neutral (WakeCancelled f) = (\<forall>m. connections (f m) = connections m)"
| "wake_neutral (WakeClosed f) = (\<forall>m. connections (f m) = connections m)"

lemma wait_connections:
  "\<forall>w\<in>set ws. wake_neutral w \<Longrightarrow> connections (snd (snd (slot_wait p ws m))) = connections m"
proof (induction p ws m rule: slot_wait.induct)
  case (2 p f ws m)
  have t: "connections (snd (connection_turn sid r ex now cur (f m))) = connections m" for sid r ex now cur
    using 2(2) by (simp add: turn_connections)
  obtain tn m1 where tn: "connection_turn (ca_server p) (ca_operation p) (ca_expected p) (ca_now p)
      (ca_task p) (f m) = (tn, m1)" by (metis surj_pair)
  with t have m1: "connections m1 = connections m" by (metis snd_conv)
  show ?case
  proof (cases tn)
    case SlotWaits
    with 2(1) [OF tn [symmetric]] 2(2) tn m1 show ?thesis by simp
  qed (use tn m1 in simp_all)
qed (simp_all add: connection_cancelled_def split_beta)

lemma connection_started_connections:
  assumes "\<forall>w\<in>set ws. wake_neutral w"
  shows "connections (snd (snd (connection_started p ws m))) = connections m"
proof -
  have w: "connections (snd (snd (slot_wait p (Wake id # ws) m'))) = connections m'" for m'
    by (rule wait_connections) (use assms in simp)
  obtain e m1 where r: "connection_register (ca_server p) (ca_operation p) (ca_expected p) (ca_now p)
      (ca_task p) m = (e, m1)" by (metis surj_pair)
  have "connections m1 = connections m" using register_connections r by (metis snd_conv)
  with w [of m1] r show ?thesis
    by (auto simp: connection_started_def split: option.splits prod.splits sum.splits)
qed

lemma prepare_connections:
  assumes "\<forall>w\<in>set ws. wake_neutral w" "prepare_call st p ws m = (w, res, n, m1)"
  shows "connections m1 = connections m"
proof -
  have c: "connections m2 = connections m'" if "connection_started p ws m' = (x, k, m2)" for m' x k m2
    using connection_started_connections [OF assms(1), of p m'] that by simp
  show ?thesis
    using assms(2) by (auto simp: prepare_call_def Let_def dest!: c split: if_splits option.splits sum.splits prod.splits)
qed

lemma release_connections: "connections (snd (release_reservation sid en r out now cur res m)) = connections m"
  by (simp add: release_reservation_def connection_finished_def split: option.splits)

lemma close_connections:
  assumes "opened_from (ca_server p) (cs_opened s) m0 m" "\<forall>n. connections m0 (ca_server p) = Some n \<longrightarrow> 0 < n"
    and "close_call p e s res m = (e', s', res', m')"
  shows "connections m' = connections m0 \<and> \<not> cs_opened s'"
proof -
  let ?m1 = "if cs_opened s then upstream_closed (ca_server p) m else m"
  have "connections ?m1 = connections m0"
    using assms(1) open_close [OF assms(2)] closed_cong [of m "upstream_opened (ca_server p) m0"]
    by (auto simp: opened_from_def)
  moreover have "connections m' = connections ?m1" "\<not> cs_opened s'"
  proof -
    obtain r2 m2 where r: "release_reservation (ca_server p) (ca_enforce p) (ca_operation p)
        (call_outcome_of e) (ca_now p) (ca_task p) res ?m1 = (r2, m2)" by (metis surj_pair)
    with assms(3) have "m' = m2" "\<not> cs_opened s'" by (auto simp: close_call_def Let_def)
    moreover have "connections m2 = connections ?m1" using release_connections r by (metis snd_conv)
    ultimately show "connections m' = connections ?m1" "\<not> cs_opened s'" by simp_all
  qed
  ultimately show ?thesis by simp
qed

text \<open>
  The count of open upstream connections is restored by every call that ends, however
  it ends, if the other tasks leave that count alone: no retry, timeout, error, cancellation or
  early close leaks a connection or gives one back twice.
\<close>
lemma connections_restored:
  assumes "proxy_request p ws as m = (e, s, res, m') \<or> proxy_stream error_frame p ws as m = (e, s, res, m')"
    and "e \<noteq> CallPending" "\<forall>n. connections m (ca_server p) = Some n \<longrightarrow> 0 < n"
    and "\<forall>w\<in>set ws. wake_neutral w" "\<forall>a\<in>set as. \<forall>m. connections (at_env a m) = connections m"
  shows "connections m' = connections m \<and> \<not> cs_opened s"
proof -
  have pos: "\<forall>n. connections m1 (ca_server p) = Some n \<longrightarrow> 0 < n"
    if "prepare_call st p ws m = (w, r, n, m1)" for st w r n m1
    using prepare_connections [OF assms(4) that] assms(3) by simp
  have refused: "connections m' = connections m \<and> \<not> cs_opened s"
    if prep: "prepare_call st p ws m = (Refused x, r, n, m1)" and no: "\<not> cs_opened s0"
      and close: "close_call p (CallRaised x) s0 r m1 = (e, s, res, m')" for st x r n m1 s0
    using close_connections [OF _ pos [OF prep] close] prepare_connections [OF assms(4) prep] no
    by (simp add: opened_from_def)
  from assms(1) show ?thesis
  proof
    assume "proxy_request p ws as m = (e, s, res, m')"
    then show ?thesis
    proof (cases rule: proxy_request_cases)
      case (refuse x res1 n m1)
      from refused [OF refuse(1) _ refuse(2)] show ?thesis by simp
    next
      case (ended res1 n m1 e1 s1 m2)
      have "opened_from (ca_server p) (cs_opened s1) m1 m2"
        by (rule request.loop_opens [OF ended(2) _ assms(5) pos [OF ended(1)]]) simp
      from close_connections [OF this pos [OF ended(1)] ended(4)] prepare_connections [OF assms(4) ended(1)]
      show ?thesis by simp
    qed (use assms(2) in simp_all)
  next
    assume "proxy_stream error_frame p ws as m = (e, s, res, m')"
    then show ?thesis
    proof (cases rule: proxy_stream_cases)
      case (refuse x res1 n m1 fs)
      from refused [OF refuse(1) _ refuse(2)] show ?thesis by simp
    next
      case (ended res1 n m1 e1 s1 m2 fs)
      have "opened_from (ca_server p) (cs_opened s1) m1 m2"
        by (rule stream.loop_opens [OF ended(2) _ assms(5) pos [OF ended(1)]]) simp
      from close_connections [OF this pos [OF ended(1)] ended(4)] prepare_connections [OF assms(4) ended(1)]
      show ?thesis by simp
    qed (use assms(2) in simp_all)
  qed
qed

end
