(* ===== verification/SlotSafety.thy ===== *)
theory SlotSafety
  imports Slots
begin

text \<open>
  Runs of the slot operations of the agent in any interleaving. \<open>slot_cmd\<close> are the operations
  with their arguments, \<open>slot_exec\<close> their effect, \<open>slots_after\<close> the slots handed out and not yet
  given back (one per acquired and unreleased \<open>_SlotReservation\<close> or pending reservation), and
  \<open>slot_reach\<close> the states the agent reaches when only a holder gives a slot back and servers end
  by a crash and start again under another generation.
\<close>

section \<open>Commands\<close>

type_synonym slot = "uuid \<times> uuid option \<times> int"

text \<open>The outcomes a proxied call reports.\<close>

datatype call_outcome = CallCompleted | CallCancelled | CallFailed

fun op_outcome :: "call_outcome \<Rightarrow> op_status" where
  "op_outcome CallCompleted = OpCompleted"
| "op_outcome CallCancelled = OpCancelled"
| "op_outcome CallFailed = OpFailed"

lemma op_outcome_not_live [simp]:
  "\<not> live_status (op_outcome out)" "op_outcome out \<noteq> OpReserved" "op_outcome out \<noteq> OpQueued"
  by (cases out; simp)+

datatype slot_cmd =
    CmdReserve uuid uuid int "uuid option" time task task
  | CmdRelease uuid uuid int "uuid option" time task
  | CmdConsume uuid uuid int "uuid option" task
  | CmdRegister uuid "uuid option" "int option" time task
  | CmdTurn uuid "uuid option" "int option" time task
  | CmdWaitCancelled "uuid option" time task
  | CmdBind "uuid option" task
  | CmdFinished uuid "uuid option" call_outcome int time task
  | CmdCancel uuid uuid task
  | CmdTaskDone task
  | CmdStopOps uuid time task
  | CmdRemove uuid
  | CmdInstall uuid engine_config

text \<open>\<open>CmdRemove\<close> forgets a server's process and configuration, \<open>CmdInstall\<close> enters a started one.\<close>

fun slot_exec :: "slot_cmd \<Rightarrow> slot_state \<Rightarrow> slot_state" where
  "slot_exec (CmdReserve sid rid gen token now cur timer) m =
     snd (try_reserve_inference_slot sid rid gen token now cur timer m)"
| "slot_exec (CmdRelease sid rid gen token now cur) m =
     snd (release_pending_reservation sid rid gen token now cur m)"
| "slot_exec (CmdConsume sid rid gen token cur) m = snd (consume_inference_slot sid rid gen token cur m)"
| "slot_exec (CmdRegister sid rid expected now cur) m = snd (connection_register sid rid expected now cur m)"
| "slot_exec (CmdTurn sid rid expected now cur) m = snd (connection_turn sid rid expected now cur m)"
| "slot_exec (CmdWaitCancelled rid now cur) m = connection_cancelled rid now cur m"
| "slot_exec (CmdBind rid cur) m = bind_operation_task rid cur m"
| "slot_exec (CmdFinished sid rid out gen now cur) m =
     connection_finished sid True rid (op_outcome out) (Some gen) now cur m"
| "slot_exec (CmdCancel rid sid cur) m = snd (cancel_operation rid sid cur m)"
| "slot_exec (CmdTaskDone t) m = m\<lparr>done_tasks := t # done_tasks m\<rparr>"
| "slot_exec (CmdStopOps sid now cur) m = stop_server_operations sid now cur m"
| "slot_exec (CmdRemove sid) m = m\<lparr>configs := (configs m)(sid := None)\<rparr>"
| "slot_exec (CmdInstall sid c) m = m\<lparr>configs := (configs m)(sid \<mapsto> c)\<rparr>"

section \<open>A reservation is dispatched at most once\<close>

text \<open>A dispatched operation, and a run in which the request id stays in the table.\<close>

definition spent :: "operation \<Rightarrow> bool" where
  "spent op = (op_dispatched op \<and> op_status op \<noteq> OpReserved \<and> op_status op \<noteq> OpQueued)"

fun retained :: "uuid \<Rightarrow> slot_cmd list \<Rightarrow> slot_state \<Rightarrow> bool" where
  "retained rid [] m = operation_exists m rid"
| "retained rid (c # cs) m = (operation_exists m rid \<and> retained rid cs (slot_exec c m))"

definition stays_spent :: "uuid \<Rightarrow> 'a slot_state_scheme \<Rightarrow> 'a slot_state_scheme \<Rightarrow> bool" where
  "stays_spent rid m m' \<longleftrightarrow>
     (\<forall>op. op_lookup m rid = Some op \<longrightarrow> spent op \<longrightarrow>
        (\<forall>op'. op_lookup m' rid = Some op' \<longrightarrow> spent op'))"

lemma stays_spentI:
  assumes "\<And>op op'. op_lookup m rid = Some op \<Longrightarrow> spent op \<Longrightarrow> op_lookup m' rid = Some op' \<Longrightarrow> spent op'"
  shows "stays_spent rid m m'"
  using assms by (auto simp: stays_spent_def)

lemma stays_spent_same: "op_lookup m' rid = op_lookup m rid \<Longrightarrow> stays_spent rid m m'"
  by (simp add: stays_spent_def)

lemma finish_lookup:
  "op_lookup (finish_operation r st now cur m) k =
     (case op_lookup m k of None \<Rightarrow> None
      | Some op \<Rightarrow> if r = Some k \<and> live_status (op_status op)
          then Some (op\<lparr>op_timer := None, op_status := st, op_finished_at := Some now, op_task := None\<rparr>)
          else Some op)"
  by (auto simp: finish_operation_def split: option.splits)

lemma activate_lookup:
  "op_lookup (activate_operation r m) k =
     (case op_lookup m k of None \<Rightarrow> None
      | Some op \<Rightarrow> if r = Some k \<and> op_status op = OpQueued then Some (op\<lparr>op_status := OpActive\<rparr>) else Some op)"
  by (auto simp: activate_operation_def split: option.splits)

lemma bind_lookup:
  "op_lookup (bind_operation_task r cur m) k =
     (case op_lookup m k of None \<Rightarrow> None
      | Some op \<Rightarrow> if r = Some k \<and> op_status op = OpActive
          then Some (op\<lparr>op_timer := None, op_task := Some cur\<rparr>) else Some op)"
  by (auto simp: bind_operation_task_def split: option.splits)

lemma consume_lookup:
  "op_lookup (snd (consume_reservation r sid gen token cur m)) k =
     (case op_lookup m k of None \<Rightarrow> None
      | Some op \<Rightarrow> if k = r \<and> consumable sid gen token op
          then Some (op\<lparr>op_status := OpActive, op_dispatched := True, op_task := Some cur\<rparr>) else Some op)"
  by (auto simp: consume_reservation_def split: option.splits)

lemma cancel_lookup:
  "op_lookup (snd (cancel_operation r sid cur m)) k = op_lookup m k \<or>
   (\<exists>op. k = r \<and> op_lookup m k = Some op \<and> (op_status op = OpQueued \<or> op_status op = OpActive)
      \<and> op_server op = sid
      \<and> op_lookup (snd (cancel_operation r sid cur m)) k = Some (op\<lparr>op_status := OpCancelling\<rparr>))"
  by (auto simp: cancel_operation_def split: option.splits)

lemma map_of_map_values: "map_of (map (\<lambda>(k, x). (k, f x)) xs) k = map_option f (map_of xs k)"
  by (induction xs) auto

lemma stop_lookup:
  "op_lookup (stop_server_operations sid now cur m) k =
     (case op_lookup m k of None \<Rightarrow> None
      | Some op \<Rightarrow> Some (if stop_hits sid op
          then op\<lparr>op_timer := None, op_status := OpFailed, op_finished_at := Some now, op_task := None\<rparr>
          else op))"
  by (simp add: op_lookup_def stop_server_operations_def map_of_map_values split: option.splits)

lemma start_lookup:
  assumes "start_operation r sid gen now cur m = Inr m'"
  shows "op_lookup m r = None" "op_lookup m' r = Some (new_operation sid gen now cur)"
    "k \<noteq> r \<Longrightarrow> op_lookup m' k = op_lookup m k \<or> op_lookup m' k = None"
proof -
  from assms have m': "m' = op_store r (new_operation sid gen now cur)
      (m\<lparr>operations := evict_finished MAX_RETAINED_OPERATIONS (operations m)\<rparr>)"
    and "op_lookup m r = None"
    by (auto simp: start_operation_def operation_exists_def split: if_splits)
  then show "op_lookup m r = None" "op_lookup m' r = Some (new_operation sid gen now cur)" by simp_all
  assume "k \<noteq> r"
  then have "op_lookup m' k = map_of (evict_finished MAX_RETAINED_OPERATIONS (operations m)) k"
    by (simp add: m') (simp add: op_lookup_def)
  then show "op_lookup m' k = op_lookup m k \<or> op_lookup m' k = None"
    using evict_lookup [of MAX_RETAINED_OPERATIONS "operations m" k] by (auto simp: op_lookup_def)
qed

definition reserved_operation :: "uuid \<Rightarrow> int \<Rightarrow> uuid option \<Rightarrow> time \<Rightarrow> task \<Rightarrow> operation" where
  "reserved_operation sid gen token now cur = (new_operation sid gen now cur)
     \<lparr>op_status := OpReserved, op_dispatched := False, op_reservation := token\<rparr>"

lemma reserve_cases:
  assumes "reserve_operation r sid gen token now cur m = Inr m'"
  obtains m0 m1 where "m0 = m \<or> m0 = m\<lparr>operations := AList.delete r (operations m)\<rparr>"
    "start_operation r sid gen now cur m0 = Inr m1"
    "m' = op_store r (reserved_operation sid gen token now cur) m1"
    "\<And>op. op_lookup m r = Some op \<Longrightarrow> reservable op"
    "\<And>k. k \<noteq> r \<Longrightarrow> op_lookup m0 k = op_lookup m k"
proof (cases "op_lookup m r")
  case None
  with assms obtain m1 where "start_operation r sid gen now cur m = Inr m1"
      "m' = op_store r (reserved_operation sid gen token now cur) m1"
    by (auto simp: reserve_operation_def reserved_operation_def split: sum.splits)
  with None show ?thesis by (intro that [of m m1]) auto
next
  case (Some op)
  with assms obtain m1 where "start_operation r sid gen now cur
        (m\<lparr>operations := AList.delete r (operations m)\<rparr>) = Inr m1"
      "m' = op_store r (reserved_operation sid gen token now cur) m1" "reservable op"
    by (auto simp: reserve_operation_def reserved_operation_def split: sum.splits if_splits)
  with Some show ?thesis
    by (intro that [of "m\<lparr>operations := AList.delete r (operations m)\<rparr>" m1])
      (auto simp: op_lookup_def delete_conv')
qed

lemma reserve_lookup:
  assumes "reserve_operation r sid gen token now cur m = Inr m'"
  shows "op_lookup m' r = Some (reserved_operation sid gen token now cur)"
    "\<And>op. op_lookup m r = Some op \<Longrightarrow> reservable op"
    "k \<noteq> r \<Longrightarrow> op_lookup m' k = op_lookup m k \<or> op_lookup m' k = None"
proof -
  from assms obtain m0 m1 where m: "start_operation r sid gen now cur m0 = Inr m1"
      "m' = op_store r (reserved_operation sid gen token now cur) m1"
      "\<And>op. op_lookup m r = Some op \<Longrightarrow> reservable op" "\<And>k. k \<noteq> r \<Longrightarrow> op_lookup m0 k = op_lookup m k"
    by (rule reserve_cases) blast
  show "op_lookup m' r = Some (reserved_operation sid gen token now cur)" by (simp add: m(2))
  show "\<And>op. op_lookup m r = Some op \<Longrightarrow> reservable op" by (rule m(3))
  assume "k \<noteq> r"
  with start_lookup(3) [OF m(1)] m(2,4) show "op_lookup m' k = op_lookup m k \<or> op_lookup m' k = None"
    by simp
qed

lemma slot_count_lookup [simp]:
  "op_lookup (take_slot sid m) k = op_lookup m k"
  "op_lookup (give_slot sid m) k = op_lookup m k"
  "op_lookup (with_conditions m) k = op_lookup m k"
  by (simp_all add: take_slot_def give_slot_def with_conditions_def Let_def)

lemma set_timer_lookup:
  "op_lookup (set_timer r t m) k = (if k = r then map_option (\<lambda>op. op\<lparr>op_timer := Some t\<rparr>) (op_lookup m r)
     else op_lookup m k)"
  by (auto simp: set_timer_def split: option.splits)


lemma finish_stays_spent: "stays_spent rid m (finish_operation r (op_outcome out) now cur m)"
  by (rule stays_spentI) (auto simp: finish_lookup spent_def split: if_splits)

lemma finish_stays_spent':
  "st \<noteq> OpReserved \<Longrightarrow> st \<noteq> OpQueued \<Longrightarrow> (\<And>k. op_lookup m' k = op_lookup m k) \<Longrightarrow>
   stays_spent rid m (finish_operation r st now cur m')"
  by (rule stays_spentI) (auto simp: finish_lookup spent_def split: if_splits)

lemma reserve_stays_spent:
  assumes "reserve_operation r sid gen token now cur m = Inr m'"
  shows "stays_spent rid m m'"
proof (rule stays_spentI)
  fix op op' assume *: "op_lookup m rid = Some op" "spent op" "op_lookup m' rid = Some op'"
  have "rid \<noteq> r"
    using reserve_lookup(2) [OF assms, of op] * by (auto simp: reservable_def spent_def)
  with reserve_lookup(3) [OF assms this] * show "spent op'" by auto
qed

lemma grant_stays_spent:
  "stays_spent rid m (snd (grant_slot sid r gen token now cur timer c m))"
proof (cases "reserve_operation r sid gen token now cur m")
  case (Inr m')
  then have *: "stays_spent rid m m'" by (rule reserve_stays_spent)
  have "stays_spent rid m (set_timer r timer (take_slot sid m'))"
  proof (rule stays_spentI)
    fix op op'
    assume "op_lookup m rid = Some op" "spent op"
      and "op_lookup (set_timer r timer (take_slot sid m')) rid = Some op'"
    with * obtain op1 where "op_lookup m' rid = Some op1" "spent op1"
        "op' = op1 \<or> op' = op1\<lparr>op_timer := Some timer\<rparr>"
      by (auto simp: stays_spent_def set_timer_lookup split: if_splits)
    then show "spent op'" by (auto simp: spent_def)
  qed
  with Inr show ?thesis by (simp add: grant_slot_def stays_spent_same)
qed (auto simp: grant_slot_def stays_spent_def)

lemma try_reserve_stays_spent:
  "stays_spent rid m (snd (try_reserve_inference_slot sid r gen token now cur timer m))"
proof -
  have "stays_spent rid m (snd (grant_slot sid r gen token now cur timer c (with_conditions m)))" for c
    using grant_stays_spent [of rid "with_conditions m"] by (simp add: stays_spent_def)
  then show ?thesis
    by (auto simp: try_reserve_inference_slot_def Let_def intro!: stays_spent_same split: option.splits)
qed

lemma release_stays_spent:
  "stays_spent rid m (snd (release_pending_reservation sid r gen token now cur m))"
proof (cases "op_lookup m r")
  case None
  then show ?thesis by (simp add: release_pending_reservation_def stays_spent_same)
next
  case (Some op)
  have "stays_spent rid m (finish_operation (Some r) OpCancelled now cur (give_slot sid
      (op_store r (op\<lparr>op_timer := None\<rparr>) (cancel_tasks (timer_cancels (Some cur) op) m))))"
    by (rule stays_spentI) (use Some in \<open>auto simp: finish_lookup spent_def split: if_splits\<close>)
  with Some show ?thesis
    by (simp add: release_pending_reservation_def Let_def stays_spent_same split: option.splits sum.splits)
qed

lemma register_stays_spent:
  "stays_spent rid m (snd (connection_register sid r expected now cur m))"
proof -
  have "stays_spent rid m m'"
    if "start_operation r' sid gen now cur (with_conditions m) = Inr m'" for r' gen m'
  proof (rule stays_spentI)
    fix op op' assume *: "op_lookup m rid = Some op" "spent op" "op_lookup m' rid = Some op'"
    have "rid \<noteq> r'" using start_lookup(1) [OF that] * by auto
    with start_lookup(3) [OF that this] * show "spent op'" by simp
  qed
  then show ?thesis
    by (simp add: connection_register_def Let_def stays_spent_same split: option.splits sum.splits)
qed

lemma turn_stays_spent: "stays_spent rid m (snd (connection_turn sid r expected now cur m))"
proof -
  have "stays_spent rid m (finish_operation r OpFailed now cur m)"
    by (rule finish_stays_spent') simp_all
  moreover have "stays_spent rid m (take_slot sid (activate_operation r m))"
    by (rule stays_spentI) (auto simp: activate_lookup spent_def split: if_splits)
  ultimately show ?thesis
    by (simp add: connection_turn_def stays_spent_same split: option.splits)
qed

lemma consume_stays_spent: "stays_spent rid m (snd (consume_inference_slot sid r gen token cur m))"
  by (rule stays_spentI)
    (auto simp: consume_inference_slot_def split_beta consume_lookup spent_def split: if_splits option.splits)

lemma cancel_stays_spent: "stays_spent rid m (snd (cancel_operation r sid cur m))"
  by (rule stays_spentI)
    (use cancel_lookup [of r sid cur m rid] in \<open>auto simp: spent_def split: if_splits\<close>)

lemma finished_stays_spent:
  "stays_spent rid m (connection_finished sid enforce r (op_outcome out) gen now cur m)"
  unfolding connection_finished_def
  by (cases "\<not> enforce") (auto simp: stays_spent_same intro!: finish_stays_spent' split: option.splits)

lemma stop_stays_spent: "stays_spent rid m (stop_server_operations sid now cur m)"
  by (rule stays_spentI) (auto simp: stop_lookup spent_def split: if_splits)

lemma bind_stays_spent: "stays_spent rid m (bind_operation_task r cur m)"
  by (rule stays_spentI) (auto simp: bind_lookup spent_def split: if_splits)

lemma cancelled_stays_spent: "stays_spent rid m (connection_cancelled r now cur m)"
  unfolding connection_cancelled_def by (rule finish_stays_spent') simp_all

lemmas stays_spent_rules = try_reserve_stays_spent release_stays_spent register_stays_spent
  turn_stays_spent consume_stays_spent cancel_stays_spent finished_stays_spent stop_stays_spent
  bind_stays_spent cancelled_stays_spent

lemma exec_stays_spent: "stays_spent rid m (slot_exec c m)"
  by (cases c) (simp_all add: stays_spent_rules stays_spent_same)

lemma run_stays_spent:
  assumes "op_lookup m rid = Some op" "spent op" "retained rid cs m"
  shows "\<exists>op'. op_lookup (fold slot_exec cs m) rid = Some op' \<and> spent op'"
  using assms
proof (induction cs arbitrary: m op)
  case (Cons c cs)
  then obtain op1 where "op_lookup (slot_exec c m) rid = Some op1"
    by (cases cs) (auto simp: operation_exists_def)
  moreover from this have "spent op1"
    using exec_stays_spent [of rid m c] Cons.prems(1,2) by (simp add: stays_spent_def)
  ultimately show ?case using Cons.IH [of "slot_exec c m" op1] Cons.prems(3) by simp
qed auto

text \<open>
  Claim C16: once a reservation has been consumed for dispatch, then after any commands, of any
  callers and with any arguments, as long as its request id stays in the table, no consumption
  of it succeeds again, no new reservation of that id is granted, and no plain request of that
  id is registered.
\<close>
lemma dispatched_once:
  assumes "fst (consume_inference_slot sid rid gen token cur m) = Inr True"
    and "retained rid cs (slot_exec (CmdConsume sid rid gen token cur) m)"
    and "m' = fold slot_exec cs (slot_exec (CmdConsume sid rid gen token cur) m)"
  shows "fst (consume_inference_slot sid' rid gen' token' cur' m') \<noteq> Inr True
    \<and> fst (try_reserve_inference_slot sid' rid gen' token' now' cur' timer' m') \<noteq> Inr True
    \<and> fst (connection_register sid' (Some rid) expected' now' cur' m') \<noteq> None"
proof -
  let ?m = "slot_exec (CmdConsume sid rid gen token cur) m"
  obtain op where op: "op_lookup ?m rid = Some op" "spent op"
    using assms(1)
    by (auto simp: consume_inference_slot_def split_beta consume_lookup spent_def
        consume_reservation_def split: if_splits option.splits)
  obtain op' where op': "op_lookup m' rid = Some op'" "spent op'"
    using run_stays_spent [OF op assms(2)] assms(3) by blast
  have "\<not> consumable sid' gen' token' op'" "\<not> reservable op'" "\<not> same_reservation gen' token' op'"
    using op'(2) by (auto simp: spent_def consumable_def reservable_def same_reservation_def)
  with op'(1) show ?thesis
    by (auto simp: consume_inference_slot_def consume_reservation_def try_reserve_inference_slot_def
        connection_register_def operation_exists_def get_operation_def Let_def op_view_def
        same_reservation_def reservable_def split: option.splits if_splits)
qed


section \<open>The count is the number of slots handed out\<close>

text \<open>Who holds a slot: an acquisition adds one, a release or the end of a call gives it back,
  and a stop of the server drops its slots.\<close>

definition newly_granted :: "uuid \<Rightarrow> uuid \<Rightarrow> int \<Rightarrow> uuid option \<Rightarrow> (exn + bool) \<Rightarrow> slot_state \<Rightarrow> bool" where
  "newly_granted sid rid gen token r m = (r = Inr True \<and>
     (case get_operation rid sid m of None \<Rightarrow> True | Some op \<Rightarrow> \<not> same_reservation gen token op))"

definition holds_slot :: "slot \<Rightarrow> slot list \<Rightarrow> bool" where
  "holds_slot t ts = (t \<in> set ts)"

fun slots_after :: "slot_cmd \<Rightarrow> slot_state \<Rightarrow> slot list \<Rightarrow> slot list" where
  "slots_after (CmdReserve sid rid gen token now cur timer) m ts =
     (if newly_granted sid rid gen token
           (fst (try_reserve_inference_slot sid rid gen token now cur timer m)) m
      then (sid, Some rid, gen) # ts else ts)"
| "slots_after (CmdRelease sid rid gen token now cur) m ts =
     (if fst (release_pending_reservation sid rid gen token now cur m) = Inr True
      then remove1 (sid, Some rid, gen) ts else ts)"
| "slots_after (CmdTurn sid rid expected now cur) m ts =
     (case fst (connection_turn sid rid expected now cur m) of
        SlotAcquired g \<Rightarrow> (sid, rid, g) # ts | _ \<Rightarrow> ts)"
| "slots_after (CmdFinished sid rid out gen now cur) m ts = remove1 (sid, rid, gen) ts"
| "slots_after (CmdStopOps sid now cur) m ts = filter (\<lambda>t. fst t \<noteq> sid) ts"
| "slots_after c m ts = ts"

text \<open>
  When a command can happen. A turn and a cancelled wait belong to a request that still waits
  under its own queued operation (a cancelled waiter may have been marked cancelling); a call
  ends once, with the slot it holds, or later, when the stop of its server has taken the slot
  and no other request runs under its generation; a configuration is removed after the operations of its server were stopped, and entered
  where there is none.
\<close>

definition waiting_op :: "uuid \<Rightarrow> uuid option \<Rightarrow> slot_state \<Rightarrow> bool" where
  "waiting_op sid rid m = (case rid of None \<Rightarrow> True
     | Some r \<Rightarrow> (case op_lookup m r of None \<Rightarrow> False
         | Some op \<Rightarrow> op_status op = OpQueued \<and> op_server op = sid))"

definition slotless :: "uuid option \<Rightarrow> slot list \<Rightarrow> bool" where
  "slotless rid ts = (rid = None \<or> (\<forall>t\<in>set ts. fst (snd t) \<noteq> rid))"

definition server_idle :: "uuid \<Rightarrow> slot_state \<Rightarrow> bool" where
  "server_idle sid m = (active_requests m sid = None
     \<and> list_all (\<lambda>(k, op). \<not> stop_hits sid op) (operations m))"

fun slot_enabled :: "slot_cmd \<Rightarrow> slot_state \<Rightarrow> slot list \<Rightarrow> bool" where
  "slot_enabled (CmdTurn sid rid expected now cur) m ts = waiting_op sid rid m"
| "slot_enabled (CmdWaitCancelled rid now cur) m ts = slotless rid ts"
| "slot_enabled (CmdFinished sid rid out gen now cur) m ts =
     (holds_slot (sid, rid, gen) ts
      \<or> (slotless rid ts \<and> (active_requests m sid = None \<or>
            (case configs m sid of None \<Rightarrow> True | Some c \<Rightarrow> ec_generation c \<noteq> gen))))"
| "slot_enabled (CmdRemove sid) m ts = server_idle sid m"
| "slot_enabled (CmdInstall sid c) m ts = (configs m sid = None)"
| "slot_enabled c m ts = True"

inductive slot_reach :: "slot_state \<Rightarrow> slot list \<Rightarrow> bool" where
  slot_start: "operations m = [] \<Longrightarrow> active_requests m = (\<lambda>s. None) \<Longrightarrow> slot_reach m []"
| slot_next: "slot_reach m ts \<Longrightarrow> slot_enabled c m ts
    \<Longrightarrow> slot_reach (slot_exec c m) (slots_after c m ts)"


definition holding :: "op_status \<Rightarrow> bool" where
  "holding s \<longleftrightarrow> s = OpReserved \<or> s = OpActive \<or> s = OpCancelling"

definition busy :: "op_status \<Rightarrow> bool" where
  "busy s \<longleftrightarrow> s = OpReserved \<or> s = OpActive"

lemma status_simps [simp]:
  "holding OpReserved" "holding OpActive" "holding OpCancelling" "\<not> holding OpQueued"
  "busy OpReserved" "busy OpActive" "\<not> busy OpCancelling" "\<not> busy OpQueued"
  by (simp_all add: holding_def busy_def)

lemma holding_live: "holding s \<Longrightarrow> live_status s"
  by (auto simp: holding_def)

lemma busy_live: "busy s \<Longrightarrow> live_status s"
  by (auto simp: busy_def)

definition of_server :: "uuid \<Rightarrow> slot list \<Rightarrow> slot list" where
  "of_server sid ts = filter (\<lambda>t. fst t = sid) ts"

definition serves :: "'a slot_state_scheme \<Rightarrow> uuid \<Rightarrow> int \<Rightarrow> bool" where
  "serves m sid g \<longleftrightarrow> (\<exists>c. configs m sid = Some c \<and> ec_generation c = g)"

definition slots_ok :: "slot_state \<Rightarrow> slot list \<Rightarrow> bool" where
  "slots_ok m ts \<longleftrightarrow>
     distinct (map fst (operations m))
     \<and> (\<forall>sid. active_count m sid = int (length (of_server sid ts)))
     \<and> (\<forall>s r g. (s, r, g) \<in> set ts \<longrightarrow> serves m s g)
     \<and> (\<forall>s r g. (s, Some r, g) \<in> set ts \<longrightarrow> (\<exists>op. op_lookup m r = Some op
            \<and> op_server op = s \<and> op_generation op = g \<and> holding (op_status op)))
     \<and> (\<forall>r op. op_lookup m r = Some op \<longrightarrow> busy (op_status op) \<longrightarrow>
            (op_server op, Some r, op_generation op) \<in> set ts)
     \<and> (\<forall>r op. op_lookup m r = Some op \<longrightarrow> live_status (op_status op) \<longrightarrow>
            serves m (op_server op) (op_generation op))
     \<and> distinct (filter (\<lambda>t. fst (snd t) \<noteq> None) ts)
     \<and> (\<forall>sid c. configs m sid = Some c \<longrightarrow> active_count m sid \<le> slot_capacity c)"

lemma slots_okD:
  assumes "slots_ok m ts"
  shows "distinct (map fst (operations m))"
    and "active_count m sid = int (length (of_server sid ts))"
    and "(s, r, g) \<in> set ts \<Longrightarrow> serves m s g"
    and "(s, Some q, g) \<in> set ts \<Longrightarrow> \<exists>op. op_lookup m q = Some op
            \<and> op_server op = s \<and> op_generation op = g \<and> holding (op_status op)"
    and "op_lookup m q = Some op \<Longrightarrow> busy (op_status op) \<Longrightarrow>
            (op_server op, Some q, op_generation op) \<in> set ts"
    and "op_lookup m q = Some op \<Longrightarrow> live_status (op_status op) \<Longrightarrow>
            serves m (op_server op) (op_generation op)"
    and "distinct (filter (\<lambda>t. fst (snd t) \<noteq> None) ts)"
    and "configs m sid = Some c \<Longrightarrow> active_count m sid \<le> slot_capacity c"
  using assms unfolding slots_ok_def by blast+

text \<open>A change of the registry that leaves request \<open>k\<close> with the same claim to a slot.\<close>

definition same_claim :: "'a slot_state_scheme \<Rightarrow> 'b slot_state_scheme \<Rightarrow> slot list \<Rightarrow> uuid \<Rightarrow> bool" where
  "same_claim m m' ts k \<longleftrightarrow>
     (\<forall>op. op_lookup m k = Some op \<longrightarrow> holding (op_status op) \<longrightarrow> \<not> slotless (Some k) ts \<longrightarrow>
        (\<exists>op'. op_lookup m' k = Some op' \<and> op_server op' = op_server op
            \<and> op_generation op' = op_generation op \<and> holding (op_status op')))
     \<and> (\<forall>op'. op_lookup m' k = Some op' \<longrightarrow> busy (op_status op') \<longrightarrow>
        (\<exists>op. op_lookup m k = Some op \<and> op_server op = op_server op'
            \<and> op_generation op = op_generation op' \<and> busy (op_status op)))
     \<and> (\<forall>op'. op_lookup m' k = Some op' \<longrightarrow> live_status (op_status op') \<longrightarrow>
        serves m (op_server op') (op_generation op')
        \<or> (\<exists>op. op_lookup m k = Some op \<and> op_server op = op_server op'
            \<and> op_generation op = op_generation op' \<and> live_status (op_status op)))"

lemma same_claim_same: "op_lookup m' k = op_lookup m k \<Longrightarrow> same_claim m m' ts k"
  by (auto simp: same_claim_def)

lemma slotless_mem: "slotless (Some k) ts \<longleftrightarrow> (\<forall>s g. (s, Some k, g) \<notin> set ts)"
  unfolding slotless_def by force

lemma same_claim_gone:
  assumes "op_lookup m' k = op_lookup m k \<or> op_lookup m' k = None"
    and "\<And>op. op_lookup m k = Some op \<Longrightarrow> live_status (op_status op) \<Longrightarrow> op_lookup m' k = Some op"
  shows "same_claim m m' ts k"
proof (cases "op_lookup m' k = op_lookup m k")
  case True
  then show ?thesis by (rule same_claim_same)
next
  case False
  with assms(1) have none: "op_lookup m' k = None" by blast
  have "\<not> holding (op_status op)" if "op_lookup m k = Some op" for op
    using assms(2) [OF that] holding_live none by fastforce
  with none show ?thesis by (simp add: same_claim_def)
qed

lemma claims_kept:
  assumes "slots_ok m ts" "same_claim m m' ts k"
  shows "(s, Some k, g) \<in> set ts \<Longrightarrow> \<exists>op. op_lookup m' k = Some op
      \<and> op_server op = s \<and> op_generation op = g \<and> holding (op_status op)"
    and "op_lookup m' k = Some op' \<Longrightarrow> busy (op_status op') \<Longrightarrow>
      (op_server op', Some k, op_generation op') \<in> set ts"
    and "op_lookup m' k = Some op' \<Longrightarrow> live_status (op_status op') \<Longrightarrow>
      serves m (op_server op') (op_generation op')"
proof -
  assume t: "(s, Some k, g) \<in> set ts"
  then obtain op where op: "op_lookup m k = Some op" "op_server op = s" "op_generation op = g"
      "holding (op_status op)"
    using slots_okD(4) [OF assms(1)] by blast
  have "\<not> slotless (Some k) ts" using t by (auto simp: slotless_mem)
  with op assms(2) show "\<exists>op. op_lookup m' k = Some op
      \<and> op_server op = s \<and> op_generation op = g \<and> holding (op_status op)"
    unfolding same_claim_def by blast
next
  assume "op_lookup m' k = Some op'" "busy (op_status op')"
  then show "(op_server op', Some k, op_generation op') \<in> set ts"
    using assms(2) slots_okD(5) [OF assms(1)] unfolding same_claim_def by metis
next
  assume "op_lookup m' k = Some op'" "live_status (op_status op')"
  then show "serves m (op_server op') (op_generation op')"
    using assms(2) slots_okD(6) [OF assms(1)] unfolding same_claim_def by metis
qed

lemma serves_cong: "configs m' = configs m \<Longrightarrow> serves m' = serves m"
  by (simp add: serves_def fun_eq_iff)

lemma slots_ok_quiet:
  assumes "slots_ok m ts" "distinct (map fst (operations m'))" "configs m' = configs m"
    and "active_requests m' = active_requests m" "\<And>k. same_claim m m' ts k"
  shows "slots_ok m' ts"
proof -
  have cnt: "active_count m' = active_count m" using assms(4) by (simp add: active_count_def fun_eq_iff)
  note kept = claims_kept [OF assms(1,5)]
  show ?thesis
    unfolding slots_ok_def cnt serves_cong [OF assms(3)] assms(3)
    using assms(2) slots_okD(2,3,7,8) [OF assms(1)] kept by blast
qed

lemma slots_ok_acquire:
  assumes ok: "slots_ok m ts" and dist: "distinct (map fst (operations m'))"
    and cfg: "configs m' = configs m" "configs m sid = Some c"
    and cnt: "active_requests m' = (active_requests m)(sid \<mapsto> active_count m sid + 1)"
    and free: "active_count m sid < slot_capacity c" "slotless rid ts"
    and others: "\<And>k. rid \<noteq> Some k \<Longrightarrow> same_claim m m' ts k"
    and own: "\<And>r. rid = Some r \<Longrightarrow> \<exists>op. op_lookup m' r = Some op \<and> op_server op = sid
         \<and> op_generation op = ec_generation c \<and> busy (op_status op)"
  shows "slots_ok m' ((sid, rid, ec_generation c) # ts)"
proof -
  let ?t = "(sid, rid, ec_generation c)"
  have count: "active_count m' s = active_count m s + (if s = sid then 1 else 0)" for s
    using cnt by (simp add: active_count_def)
  have sv: "serves m sid (ec_generation c)" using cfg(2) by (simp add: serves_def)
  have c1: "active_count m' s = int (length (of_server s (?t # ts)))" for s
    using slots_okD(2) [OF ok, of s] by (simp add: count of_server_def)
  have c2: "serves m s g" if "(s, r, g) \<in> set (?t # ts)" for s r g
    using that slots_okD(3) [OF ok] sv by auto
  have c3: "\<exists>op. op_lookup m' r = Some op \<and> op_server op = s \<and> op_generation op = g
      \<and> holding (op_status op)" if t: "(s, Some r, g) \<in> set (?t # ts)" for s r g
  proof (cases "rid = Some r")
    case True
    with free(2) have "(s, Some r, g) \<notin> set ts" by (simp add: slotless_mem)
    with t have "s = sid" "g = ec_generation c" by auto
    with own [OF True] show ?thesis by (auto simp: holding_def busy_def)
  next
    case False
    with t have "(s, Some r, g) \<in> set ts" by auto
    then show ?thesis by (rule claims_kept(1) [OF ok others [OF False]])
  qed
  have c4: "(op_server op, Some r, op_generation op) \<in> set (?t # ts)"
    if "op_lookup m' r = Some op" "busy (op_status op)" for r op
  proof (cases "rid = Some r")
    case True
    with own [OF True] that show ?thesis by auto
  next
    case False
    then show ?thesis using claims_kept(2) [OF ok others [OF False] that] by simp
  qed
  have c5: "serves m (op_server op) (op_generation op)"
    if "op_lookup m' r = Some op" "live_status (op_status op)" for r op
  proof (cases "rid = Some r")
    case True
    with own [OF True] that sv show ?thesis by auto
  next
    case False
    then show ?thesis using claims_kept(3) [OF ok others [OF False] that] by simp
  qed
  have c6: "distinct (filter (\<lambda>t. fst (snd t) \<noteq> None) (?t # ts))"
    using slots_okD(7) [OF ok] free(2) by (cases rid) (auto simp: slotless_mem)
  have c7: "active_count m' s \<le> slot_capacity d" if "configs m s = Some d" for s d
    using slots_okD(8) [OF ok that] free(1) cfg(2) that by (auto simp: count)
  show ?thesis
    unfolding slots_ok_def serves_cong [OF cfg(1)] cfg(1)
    by (intro conjI allI impI; (rule dist c1 c6 | (rule c2 c3 c4 c5 c7, assumption+)))
qed

lemma length_of_server_remove1:
  "t \<in> set ts \<Longrightarrow> int (length (of_server s (remove1 t ts)))
     = int (length (of_server s ts)) - (if s = fst t then 1 else 0)"
proof (induction ts)
  case (Cons a ts)
  then show ?case by (cases "a = t"; cases "fst a = s") (simp_all add: of_server_def)
qed simp

lemma slots_ok_release:
  assumes ok: "slots_ok m ts" and dist: "distinct (map fst (operations m'))"
    and cfg: "configs m' = configs m" and t: "(sid, rid, g) \<in> set ts"
    and cnt: "active_count m' = (active_count m)(sid := active_count m sid - 1)"
    and others: "\<And>k. rid \<noteq> Some k \<Longrightarrow> same_claim m m' ts k"
    and own: "\<And>r op. rid = Some r \<Longrightarrow> op_lookup m' r = Some op \<Longrightarrow> \<not> live_status (op_status op)"
  shows "slots_ok m' (remove1 (sid, rid, g) ts)"
proof -
  let ?t = "(sid, rid, g)"
  have sub: "set (remove1 ?t ts) \<subseteq> set ts" by (rule set_remove1_subset)
  have uniq: "(s, Some r, h) \<notin> set (remove1 ?t ts)" if "rid = Some r" for s r h
  proof
    assume m: "(s, Some r, h) \<in> set (remove1 ?t ts)"
    then have "(s, Some r, h) \<in> set ts" using sub by auto
    then obtain op where "op_lookup m r = Some op" "op_server op = s" "op_generation op = h"
      using slots_okD(4) [OF ok] by blast
    moreover from t that obtain op' where "op_lookup m r = Some op'" "op_server op' = sid"
        "op_generation op' = g"
      using slots_okD(4) [OF ok] by blast
    ultimately have e: "(s, Some r, h) = ?t" using that by simp
    have "distinct (filter (\<lambda>t. fst (snd t) \<noteq> None) ts)" by (rule slots_okD(7) [OF ok])
    then have "?t \<notin> set (remove1 ?t (filter (\<lambda>t. fst (snd t) \<noteq> None) ts))" by simp
    then have "?t \<notin> set (filter (\<lambda>t. fst (snd t) \<noteq> None) (remove1 ?t ts))"
      using that by (simp add: filter_remove1)
    with m that e show False by simp
  qed
  have c1: "active_count m' s = int (length (of_server s (remove1 ?t ts)))" for s
    using slots_okD(2) [OF ok] by (simp add: cnt length_of_server_remove1 [OF t])
  have c2: "serves m s h" if "(s, r, h) \<in> set (remove1 ?t ts)" for s r h
    using that sub slots_okD(3) [OF ok] by blast
  have c3: "\<exists>op. op_lookup m' r = Some op \<and> op_server op = s \<and> op_generation op = h
      \<and> holding (op_status op)" if m: "(s, Some r, h) \<in> set (remove1 ?t ts)" for s r h
  proof -
    have "rid \<noteq> Some r" using uniq m by blast
    with m sub show ?thesis using claims_kept(1) [OF ok others] by blast
  qed
  have c4: "(op_server op, Some r, op_generation op) \<in> set (remove1 ?t ts)"
    if l: "op_lookup m' r = Some op" and b: "busy (op_status op)" for r op
  proof -
    have n: "rid \<noteq> Some r" using own l b busy_live by blast
    then have "(op_server op, Some r, op_generation op) \<in> set ts"
      using claims_kept(2) [OF ok others [OF n] l b] by simp
    then show ?thesis using n by (simp add: in_set_remove1)
  qed
  have c5: "serves m (op_server op) (op_generation op)"
    if l: "op_lookup m' r = Some op" and b: "live_status (op_status op)" for r op
  proof -
    have n: "rid \<noteq> Some r" using own l b by blast
    show ?thesis by (rule claims_kept(3) [OF ok others [OF n] l b])
  qed
  have c6: "distinct (filter (\<lambda>t. fst (snd t) \<noteq> None) (remove1 ?t ts))"
    using slots_okD(7) [OF ok] by (simp add: filter_remove1 distinct_remove1)
  have c7: "active_count m' s \<le> slot_capacity d" if "configs m s = Some d" for s d
    using slots_okD(8) [OF ok that] by (auto simp: cnt)
  show ?thesis
    unfolding slots_ok_def serves_cong [OF cfg] cfg
    by (intro conjI allI impI; (rule dist c1 c6 | (rule c2 c3 c4 c5 c7, assumption+)))
qed


lemma keys_store: "distinct (map fst (operations m)) \<Longrightarrow> distinct (map fst (operations (op_store r op m)))"
  by (simp add: op_store_def distinct_update)

lemma keys_finish:
  "distinct (map fst (operations m)) \<Longrightarrow> distinct (map fst (operations (finish_operation r st now cur m)))"
  by (auto simp: finish_operation_def keys_store split: option.splits)

lemma keys_activate:
  "distinct (map fst (operations m)) \<Longrightarrow> distinct (map fst (operations (activate_operation r m)))"
  by (auto simp: activate_operation_def keys_store split: option.splits)

lemma keys_bind:
  "distinct (map fst (operations m)) \<Longrightarrow> distinct (map fst (operations (bind_operation_task r cur m)))"
  by (auto simp: bind_operation_task_def keys_store split: option.splits)

lemma keys_consume:
  "distinct (map fst (operations m))
    \<Longrightarrow> distinct (map fst (operations (snd (consume_reservation r sid gen token cur m))))"
  by (auto simp: consume_reservation_def keys_store split: option.splits)

lemma keys_cancel:
  "distinct (map fst (operations m))
    \<Longrightarrow> distinct (map fst (operations (snd (cancel_operation r sid cur m))))"
  by (auto simp: cancel_operation_def keys_store split: option.splits)

lemma keys_timer:
  "distinct (map fst (operations m)) \<Longrightarrow> distinct (map fst (operations (set_timer r t m)))"
  by (auto simp: set_timer_def keys_store split: option.splits)

lemma keys_start:
  assumes "distinct (map fst (operations m))" "start_operation r sid gen now cur m = Inr m'"
  shows "distinct (map fst (operations m'))"
proof -
  have "distinct (map fst (evict_finished n (operations m)))" for n
    unfolding evict_finished_def fold_delete_filter using assms(1) by (rule distinct_map_filter)
  with assms(2) show ?thesis
    by (auto simp: start_operation_def split: if_splits intro!: keys_store)
qed

lemma keys_reserve:
  assumes "distinct (map fst (operations m))" "reserve_operation r sid gen token now cur m = Inr m'"
  shows "distinct (map fst (operations m'))"
  using assms(2)
proof (cases rule: reserve_cases)
  case (1 m0 m1)
  then have "distinct (map fst (operations m0))" using assms(1) by (auto simp: distinct_delete)
  from keys_start [OF this 1(2)] show ?thesis by (simp add: 1(3) keys_store)
qed

lemma start_keeps_live:
  assumes "start_operation r sid gen now cur m = Inr m'" "distinct (map fst (operations m))"
    and "op_lookup m k = Some op" "live_status (op_status op)"
  shows "op_lookup m' k = Some op"
proof -
  have "k \<noteq> r" using start_lookup(1) [OF assms(1)] assms(3) by auto
  moreover have "map_of (evict_finished MAX_RETAINED_OPERATIONS (operations m)) k = Some op"
    using assms(2-4) evict_keeps_live by (simp add: op_lookup_def)
  ultimately show ?thesis
    using assms(1) by (auto simp: start_operation_def op_lookup_def op_store_def update_conv' split: if_splits)
qed

lemma reserve_keeps_live:
  assumes "reserve_operation r sid gen token now cur m = Inr m'" "distinct (map fst (operations m))"
    and "op_lookup m k = Some op" "live_status (op_status op)"
  shows "op_lookup m' k = Some op"
  using assms(1)
proof (cases rule: reserve_cases)
  case (1 m0 m1)
  have k: "k \<noteq> r" using 1(4) [of op] assms(3,4) by (auto simp: reservable_def)
  then have "op_lookup m0 k = Some op" using 1(5) assms(3) by simp
  moreover have "distinct (map fst (operations m0))" using 1(1) assms(2) by (auto simp: distinct_delete)
  ultimately have "op_lookup m1 k = Some op" using start_keeps_live [OF 1(2)] assms(4) by blast
  with k show ?thesis by (simp add: 1(3))
qed

lemma finish_claim:
  assumes "\<And>k. op_lookup m' k = op_lookup m k" "\<not> live_status st" "r \<noteq> Some k \<or> slotless (Some k) ts"
  shows "same_claim m (finish_operation r st now cur m') ts k"
proof (cases "r = Some k")
  case False
  then show ?thesis
    by (intro same_claim_same) (simp add: finish_lookup assms(1) split: option.splits)
next
  case True
  with assms show ?thesis
    by (auto simp: same_claim_def finish_lookup dest: busy_live split: option.splits if_splits)
qed

lemma consume_claim:
  "same_claim m (snd (consume_reservation r sid gen token cur m)) ts k"
  by (auto simp: same_claim_def consume_lookup consumable_def split: option.splits)

lemma bind_claim: "same_claim m (bind_operation_task r cur m) ts k"
  by (auto simp: same_claim_def bind_lookup split: option.splits)

lemma cancel_claim:
  assumes "slots_ok m ts"
  shows "same_claim m (snd (cancel_operation r sid cur m)) ts k"
  using cancel_lookup [of r sid cur m k]
proof
  assume "op_lookup (snd (cancel_operation r sid cur m)) k = op_lookup m k"
  then show ?thesis by (rule same_claim_same)
next
  assume "\<exists>op. k = r \<and> op_lookup m k = Some op \<and> (op_status op = OpQueued \<or> op_status op = OpActive)
      \<and> op_server op = sid
      \<and> op_lookup (snd (cancel_operation r sid cur m)) k = Some (op\<lparr>op_status := OpCancelling\<rparr>)"
  then obtain op where "op_lookup m k = Some op" "op_status op = OpQueued \<or> op_status op = OpActive"
      "op_lookup (snd (cancel_operation r sid cur m)) k = Some (op\<lparr>op_status := OpCancelling\<rparr>)"
    by blast
  then show ?thesis by (auto simp: same_claim_def)
qed

lemma waiting_slotless:
  assumes "slots_ok m ts" "waiting_op sid rid m"
  shows "slotless rid ts"
proof (cases rid)
  case None
  then show ?thesis by (simp add: slotless_def)
next
  case (Some r)
  with assms(2) obtain op where "op_lookup m r = Some op" "op_status op = OpQueued"
    by (auto simp: waiting_op_def split: option.splits)
  then show ?thesis using slots_okD(4) [OF assms(1)] Some by (fastforce simp: slotless_mem)
qed

lemma finish_ok:
  assumes "slots_ok m ts" "\<not> live_status st" "slotless rid ts"
  shows "slots_ok (finish_operation rid st now cur m) ts"
proof (rule slots_ok_quiet [OF assms(1)])
  show "distinct (map fst (operations (finish_operation rid st now cur m)))"
    by (rule keys_finish [OF slots_okD(1) [OF assms(1)]])
  show "same_claim m (finish_operation rid st now cur m) ts k" for k
    by (rule finish_claim) (use assms(2,3) in auto)
qed simp_all


lemma slots_ok_cong:
  assumes "operations m' = operations m" "configs m' = configs m" "active_requests m' = active_requests m"
  shows "slots_ok m' ts = slots_ok m ts"
  using assms by (simp add: slots_ok_def active_count_def op_lookup_def serves_def)

lemma with_conditions_ok [simp]: "slots_ok (with_conditions m) ts = slots_ok m ts"
  by (rule slots_ok_cong) (simp_all add: with_conditions_def)

lemma with_conditions_sel [simp]:
  "operations (with_conditions m) = operations m" "configs (with_conditions m) = configs m"
  "active_requests (with_conditions m) = active_requests m"
  "slot_conditions (with_conditions m)"
  by (simp_all add: with_conditions_def)

lemma consume_ok:
  assumes "slots_ok m ts"
  shows "slots_ok (snd (consume_inference_slot sid rid gen token cur m)) ts"
proof -
  have "slots_ok (snd (consume_reservation rid sid gen token cur m)) ts"
    by (rule slots_ok_quiet [OF assms keys_consume [OF slots_okD(1) [OF assms]]])
      (simp_all add: consume_claim)
  then show ?thesis using assms
    by (simp add: consume_inference_slot_def split_beta split: option.splits)
qed

lemma bind_ok:
  assumes "slots_ok m ts"
  shows "slots_ok (bind_operation_task r cur m) ts"
  by (rule slots_ok_quiet [OF assms keys_bind [OF slots_okD(1) [OF assms]] _ _ bind_claim]) simp_all

lemma cancel_ok:
  assumes "slots_ok m ts"
  shows "slots_ok (snd (cancel_operation r sid cur m)) ts"
  by (rule slots_ok_quiet [OF assms keys_cancel [OF slots_okD(1) [OF assms]] _ _ cancel_claim [OF assms]])
    simp_all

lemma start_ok:
  assumes "slots_ok m ts" "start_operation r sid gen now cur m = Inr m'" "serves m sid gen"
  shows "slots_ok m' ts"
proof (rule slots_ok_quiet [OF assms(1)])
  note keys = slots_okD(1) [OF assms(1)]
  show "distinct (map fst (operations m'))" by (rule keys_start [OF keys assms(2)])
  show "same_claim m m' ts k" for k
  proof (cases "k = r")
    case True
    then show ?thesis using start_lookup(1,2) [OF assms(2)] assms(3)
      by (simp add: same_claim_def new_operation_def)
  next
    case False
    show ?thesis
      by (rule same_claim_gone [OF start_lookup(3) [OF assms(2) False]])
        (rule start_keeps_live [OF assms(2) keys])
  qed
qed (simp_all add: start_sel [OF assms(2)])

lemma register_ok:
  assumes "slots_ok m ts"
  shows "slots_ok (snd (connection_register sid r expected now cur m)) ts"
proof -
  have "slots_ok m' ts"
    if "start_operation q sid (ec_generation c) now cur (with_conditions m) = Inr m'"
      "configs m sid = Some c" for q m' c
    by (rule start_ok [OF _ that(1)]) (use assms that(2) in \<open>simp_all add: serves_def\<close>)
  then show ?thesis using assms
    by (auto simp: connection_register_def Let_def split: option.splits sum.splits)
qed

lemma active_count_take [simp]:
  "active_requests (take_slot sid m) = (active_requests m)(sid \<mapsto> active_count m sid + 1)"
  "configs (take_slot sid m) = configs m" "operations (take_slot sid m) = operations m"
  by (simp_all add: take_slot_def)

lemma active_count_cong:
  "active_requests m' = active_requests m \<Longrightarrow> active_count m' = active_count m"
  by (simp add: active_count_def fun_eq_iff)

lemma turn_ok:
  assumes ok: "slots_ok m ts" and w: "waiting_op sid rid m"
  shows "slots_ok (snd (connection_turn sid rid expected now cur m))
    (slots_after (CmdTurn sid rid expected now cur) m ts)"
proof -
  have fin: "slots_ok (finish_operation rid OpFailed now cur m) ts"
    by (rule finish_ok [OF ok _ waiting_slotless [OF ok w]]) simp
  have acq: "slots_ok (take_slot sid (activate_operation rid m)) ((sid, rid, ec_generation c) # ts)"
    if c: "configs m sid = Some c" and lt: "active_count m sid < slot_capacity c" for c
  proof (rule slots_ok_acquire [OF ok _ _ c _ lt waiting_slotless [OF ok w]])
    show "distinct (map fst (operations (take_slot sid (activate_operation rid m))))"
      using keys_activate [OF slots_okD(1) [OF ok]] by simp
    show "active_requests (take_slot sid (activate_operation rid m))
        = (active_requests m)(sid \<mapsto> active_count m sid + 1)"
      by (simp add: active_count_cong [OF activate_sel(1)])
    show "same_claim m (take_slot sid (activate_operation rid m)) ts k" if "rid \<noteq> Some k" for k
      by (rule same_claim_same) (simp add: activate_lookup that split: option.splits)
    show "\<exists>op. op_lookup (take_slot sid (activate_operation rid m)) r = Some op \<and> op_server op = sid
         \<and> op_generation op = ec_generation c \<and> busy (op_status op)" if r: "rid = Some r" for r
    proof -
      from w r obtain op where op: "op_lookup m r = Some op" "op_status op = OpQueued" "op_server op = sid"
        by (auto simp: waiting_op_def split: option.splits)
      then have "serves m sid (op_generation op)" using slots_okD(6) [OF ok, of r op] by simp
      with c have "op_generation op = ec_generation c" by (simp add: serves_def)
      with op r show ?thesis by (simp add: activate_lookup)
    qed
  qed simp_all
  show ?thesis
  proof (cases "configs m sid")
    case None
    with fin show ?thesis by (simp add: connection_turn_def)
  next
    case (Some c)
    show ?thesis
    proof (cases "expected \<noteq> None \<and> expected \<noteq> Some (ec_generation c)")
      case True
      with fin Some show ?thesis by (simp add: connection_turn_def)
    next
      case False
      then have "connection_turn sid rid expected now cur m
          = (if active_count m sid < slot_capacity c
             then (SlotAcquired (ec_generation c), take_slot sid (activate_operation rid m))
             else (SlotWaits, m))"
        using Some by (simp only: connection_turn_def option.case if_False)
      then show ?thesis using acq [OF Some] ok
        by (cases "active_count m sid < slot_capacity c") simp_all
    qed
  qed
qed

lemma grant_ok:
  assumes ok: "slots_ok m ts" and c: "configs m sid = Some c" "ec_generation c = gen"
    and res: "\<And>op. op_lookup m rid = Some op \<Longrightarrow> reservable op"
  shows "slots_ok (snd (grant_slot sid rid gen token now cur timer c m))
    (if fst (grant_slot sid rid gen token now cur timer c m) = Inr True
     then (sid, Some rid, gen) # ts else ts)"
proof (cases "slot_capacity c \<le> active_count m sid")
  case True
  then show ?thesis using ok by (simp add: grant_slot_def)
next
  case False
  show ?thesis
  proof (cases "reserve_operation rid sid gen token now cur m")
    case (Inl e)
    with False ok show ?thesis by (simp add: grant_slot_def)
  next
    case (Inr m1)
    note look = reserve_lookup [OF Inr]
    note keys = slots_okD(1) [OF ok]
    let ?m = "set_timer rid timer (take_slot sid m1)"
    have "slotless (Some rid) ts"
    proof -
      have "\<not> holding (op_status op)" if "op_lookup m rid = Some op" for op
        using res [OF that] by (simp add: reservable_def holding_def)
      then show ?thesis using slots_okD(4) [OF ok] by (metis slotless_mem)
    qed
    moreover have "active_requests ?m = (active_requests m)(sid \<mapsto> active_count m sid + 1)"
      using reserve_sel(1) [OF Inr]
      by (simp add: set_timer_def active_count_cong [OF reserve_sel(1) [OF Inr]] split: option.splits)
    moreover have "configs ?m = configs m"
      using reserve_sel(2) [OF Inr] by (simp add: set_timer_def split: option.splits)
    moreover have "distinct (map fst (operations ?m))"
      using keys_timer [of "take_slot sid m1"] keys_reserve [OF keys Inr] by simp
    moreover have "same_claim m ?m ts k" if "Some rid \<noteq> Some k" for k
      using that look(3) [of k] reserve_keeps_live [OF Inr keys]
      by (intro same_claim_gone) (auto simp: set_timer_lookup)
    moreover have "\<exists>op. op_lookup ?m r = Some op \<and> op_server op = sid
         \<and> op_generation op = ec_generation c \<and> busy (op_status op)" if "Some rid = Some r" for r
      using that look(1) c(2) by (simp add: set_timer_lookup reserved_operation_def new_operation_def)
    moreover have "active_count m sid < slot_capacity c" using False by simp
    ultimately have "slots_ok ?m ((sid, Some rid, ec_generation c) # ts)"
      using slots_ok_acquire [OF ok _ _ c(1)] by blast
    with Inr False c(2) show ?thesis by (simp add: grant_slot_def)
  qed
qed


lemma lookup_with_conditions: "get_operation rid sid (with_conditions m) = get_operation rid sid m"
  by (simp add: get_operation_def)

lemma check_generation_serves:
  "check_generation sid (Some g) m = None \<longleftrightarrow> serves m sid g"
  by (simp add: check_generation_def serves_def split: option.splits)

lemma get_operation_eq:
  "get_operation rid sid m = Some v \<longleftrightarrow>
     (\<exists>op. op_lookup m rid = Some op \<and> op_server op = sid \<and> v = op_view op)"
  by (auto simp: get_operation_def split: option.splits)

lemma view_sel [simp]:
  "same_reservation gen token (op_view op) = same_reservation gen token op"
  "reservable (op_view op) = reservable op"
  by (simp_all add: same_reservation_def reservable_def op_view_def)

lemma try_reserve_ok:
  assumes ok: "slots_ok m ts"
  shows "slots_ok (snd (try_reserve_inference_slot sid rid gen token now cur timer m))
    (slots_after (CmdReserve sid rid gen token now cur timer) m ts)"
proof -
  let ?w = "with_conditions m"
  let ?attempt = "try_reserve_inference_slot sid rid gen token now cur timer m"
  have okw: "slots_ok ?w ts" using ok by simp
  show ?thesis
  proof (cases "serves m sid gen")
    case False
    then have "\<exists>e. check_generation sid (Some gen) ?w = Some e"
      by (auto simp: serves_def check_generation_def split: option.splits)
    then have "\<exists>e. ?attempt = (Inl e, ?w)" by (auto simp: try_reserve_inference_slot_def Let_def)
    then show ?thesis using okw by (auto simp: newly_granted_def)
  next
    case True
    then obtain c where c: "configs m sid = Some c" "ec_generation c = gen" by (auto simp: serves_def)
    have chk: "check_generation sid (Some gen) ?w = None"
      using True check_generation_serves [of sid gen ?w] by (simp add: serves_def)
    let ?grant = "grant_slot sid rid gen token now cur timer c ?w"
    consider (grant) "?attempt = ?grant" "\<And>op. op_lookup m rid = Some op \<Longrightarrow> reservable op"
      | (refuse) e where "?attempt = (Inl e, ?w)"
      | (same) op where "?attempt = (Inr True, ?w)" "get_operation rid sid m = Some op"
          "same_reservation gen token op"
    proof (cases "op_lookup m rid")
      case None
      then have "?attempt = ?grant"
        using chk c by (simp add: try_reserve_inference_slot_def Let_def operation_exists_def)
      then show thesis using None by (intro grant) auto
    next
      case (Some op)
      show thesis
      proof (cases "op_server op = sid")
        case False
        then have "?attempt = (Inl (ProxyOperationExists (show_nat rid)), ?w)"
          using chk c Some
          by (simp add: try_reserve_inference_slot_def Let_def operation_exists_def get_operation_def)
        then show thesis by (rule refuse)
      next
        case True
        then have g: "get_operation rid sid m = Some (op_view op)" using Some by (simp add: get_operation_def)
        have "?attempt = (if same_reservation gen token op then (Inr True, ?w)
            else if \<not> reservable op then (Inl (ProxyOperationExists (show_nat rid)), ?w) else ?grant)"
          using chk c Some g
          by (simp add: try_reserve_inference_slot_def Let_def operation_exists_def lookup_with_conditions)
        then show thesis
          using grant refuse same g Some
          by (cases "same_reservation gen token op"; cases "reservable op") auto
      qed
    qed
    then show ?thesis
    proof cases
      case grant
      have "newly_granted sid rid gen token (fst ?attempt) m = (fst ?attempt = Inr True)"
        using grant(2) by (auto simp: newly_granted_def get_operation_eq reservable_def op_view_def
            same_reservation_def split: option.splits)
      with grant grant_ok [OF okw, of sid c gen rid token now cur timer] c show ?thesis
        by simp
    next
      case (refuse e)
      with okw show ?thesis by (simp add: newly_granted_def)
    next
      case (same op)
      with okw show ?thesis by (simp add: newly_granted_def)
    qed
  qed
qed

lemma count_give:
  assumes "1 \<le> active_count m sid"
  shows "active_count (give_slot sid m) = (active_count m)(sid := active_count m sid - 1)"
  using assms by (auto simp: give_slot_def active_count_def Let_def fun_eq_iff)

lemma token_count:
  assumes "slots_ok m ts" "(sid, rid, g) \<in> set ts"
  shows "1 \<le> active_count m sid"
proof -
  have "of_server sid ts \<noteq> []" using assms(2) by (force simp: of_server_def filter_empty_conv)
  then have "1 \<le> length (of_server sid ts)" by (cases "of_server sid ts") simp_all
  then show ?thesis using slots_okD(2) [OF assms(1), of sid] by linarith
qed

lemma give_sel [simp]:
  "operations (give_slot sid m) = operations m" "configs (give_slot sid m) = configs m"
  by (simp_all add: give_slot_def Let_def)

text \<open>A holder gives its slot back: the count goes down, its operation is finished.\<close>

lemma holder_ok:
  assumes ok: "slots_ok m ts" and t: "(sid, rid, g) \<in> set ts" and st: "\<not> live_status st"
    and m1: "op_lookup m1 = op_lookup m" "configs m1 = configs m" "active_requests m1 = active_requests m"
      "distinct (map fst (operations m1))"
  shows "slots_ok (finish_operation rid st now cur (give_slot sid m1)) (remove1 (sid, rid, g) ts)"
proof (rule slots_ok_release [OF ok _ _ t])
  show "distinct (map fst (operations (finish_operation rid st now cur (give_slot sid m1))))"
    by (rule keys_finish) (simp add: m1(4))
  show "active_count (finish_operation rid st now cur (give_slot sid m1))
      = (active_count m)(sid := active_count m sid - 1)"
  proof -
    have c: "active_count m1 = active_count m" by (rule active_count_cong [OF m1(3)])
    have "active_count (finish_operation rid st now cur (give_slot sid m1)) = active_count (give_slot sid m1)"
      by (rule active_count_cong) simp
    also have "\<dots> = (active_count m1)(sid := active_count m1 sid - 1)"
      by (rule count_give) (simp add: c token_count [OF ok t])
    finally show ?thesis by (simp add: c)
  qed
  show "same_claim m (finish_operation rid st now cur (give_slot sid m1)) ts k" if "rid \<noteq> Some k" for k
    by (rule finish_claim) (use that st m1(1) in simp_all)
  show "\<not> live_status (op_status op)"
    if "rid = Some r" "op_lookup (finish_operation rid st now cur (give_slot sid m1)) r = Some op" for r op
    using that st by (auto simp: finish_lookup m1(1) split: option.splits if_splits)
qed (simp add: m1(2))


lemma pending_release_ok:
  assumes ok: "slots_ok m ts"
  shows "slots_ok (snd (release_pending_reservation sid rid gen token now cur m))
    (slots_after (CmdRelease sid rid gen token now cur) m ts)"
proof -
  let ?r = "release_pending_reservation sid rid gen token now cur m"
  show ?thesis
  proof (cases "fst ?r = Inr True")
    case False
    then have "snd ?r = m"
      by (auto simp: release_pending_reservation_def Let_def split: option.splits sum.splits if_splits)
    with False ok show ?thesis by simp
  next
    case True
    then obtain op where op: "op_lookup m rid = Some op" "op_server op = sid" "op_generation op = gen"
        "busy (op_status op)"
      and m': "snd ?r = finish_operation (Some rid) OpCancelled now cur (give_slot sid
            (op_store rid (op\<lparr>op_timer := None\<rparr>) (cancel_tasks (timer_cancels (Some cur) op) m)))"
      by (auto simp: release_pending_reservation_def Let_def busy_def
          split: option.splits sum.splits if_splits)
    let ?m1 = "op_store rid (op\<lparr>op_timer := None\<rparr>) (cancel_tasks (timer_cancels (Some cur) op) m)"
    let ?m2 = "cancel_tasks (timer_cancels (Some cur) op) m"
    have t: "(sid, Some rid, gen) \<in> set ts" using slots_okD(5) [OF ok op(1,4)] op(2,3) by simp
    have "slots_ok (finish_operation (Some rid) OpCancelled now cur (give_slot sid ?m1))
        (remove1 (sid, Some rid, gen) ts)"
    proof (rule slots_ok_release [OF ok _ _ t])
      have k1: "distinct (map fst (operations ?m1))"
        by (rule keys_store) (simp add: slots_okD(1) [OF ok])
      show "distinct (map fst (operations (finish_operation (Some rid) OpCancelled now cur (give_slot sid ?m1))))"
        by (rule keys_finish) (simp add: k1)
      show "active_count (finish_operation (Some rid) OpCancelled now cur (give_slot sid ?m1))
          = (active_count m)(sid := active_count m sid - 1)"
      proof -
        have c: "active_count ?m1 = active_count m" by (rule active_count_cong) simp
        have "active_count (finish_operation (Some rid) OpCancelled now cur (give_slot sid ?m1))
            = active_count (give_slot sid ?m1)"
          by (rule active_count_cong) simp
        also have "\<dots> = (active_count ?m1)(sid := active_count ?m1 sid - 1)"
          by (rule count_give) (simp add: c token_count [OF ok t])
        finally show ?thesis by (simp add: c)
      qed
      show "same_claim m (finish_operation (Some rid) OpCancelled now cur (give_slot sid ?m1)) ts k"
        if "Some rid \<noteq> Some k" for k
        by (rule same_claim_same) (use that in \<open>simp add: finish_lookup split: option.splits\<close>)
      show "\<not> live_status (op_status op')"
        if "Some rid = Some r"
          "op_lookup (finish_operation (Some rid) OpCancelled now cur (give_slot sid ?m1)) r = Some op'"
        for r op'
        using that by (auto simp: finish_lookup split: option.splits if_splits)
    qed simp
    with True m' show ?thesis by simp
  qed
qed

lemma finished_ok:
  assumes ok: "slots_ok m ts" and en: "slot_enabled (CmdFinished sid rid out gen now cur) m ts"
  shows "slots_ok (connection_finished sid True rid (op_outcome out) (Some gen) now cur m)
    (remove1 (sid, rid, gen) ts)"
proof (cases "(sid, rid, gen) \<in> set ts")
  case True
  then obtain c where "configs m sid = Some c" "ec_generation c = gen"
    using slots_okD(3) [OF ok True] by (auto simp: serves_def)
  then have "connection_finished sid True rid (op_outcome out) (Some gen) now cur m
      = finish_operation rid (op_outcome out) now cur (give_slot sid m)"
    by (simp add: connection_finished_def)
  then show ?thesis using holder_ok [OF ok True] slots_okD(1) [OF ok] by simp
next
  case False
  with en have free: "slotless rid ts"
    and z: "active_requests m sid = None \<or> (\<forall>c. configs m sid = Some c \<longrightarrow> ec_generation c \<noteq> gen)"
    by (auto simp: holds_slot_def split: option.splits)
  have "give_slot sid m = m" if "active_requests m sid = None"
    using that by (simp add: give_slot_def active_count_def fun_upd_idem)
  with z have "connection_finished sid True rid (op_outcome out) (Some gen) now cur m
      = finish_operation rid (op_outcome out) now cur m"
    by (auto simp: connection_finished_def split: option.splits)
  with finish_ok [OF ok _ free] False show ?thesis by (simp add: remove1_idem)
qed

lemma stop_ok:
  assumes ok: "slots_ok m ts"
  shows "slots_ok (stop_server_operations sid now cur m) (filter (\<lambda>t. fst t \<noteq> sid) ts)"
proof -
  let ?m = "stop_server_operations sid now cur m"
  let ?ts = "filter (\<lambda>t. fst t \<noteq> sid) ts"
  have cfg: "configs ?m = configs m" by (simp add: stop_server_operations_def)
  have keys: "distinct (map fst (operations ?m))"
    using slots_okD(1) [OF ok] by (simp add: stop_server_operations_def split_beta comp_def)
  have cnt: "active_count ?m s = (if s = sid then 0 else active_count m s)" for s
    by (simp add: active_count_def stop_server_operations_def)
  have c1: "active_count ?m s = int (length (of_server s ?ts))" for s
  proof (cases "s = sid")
    case True
    then show ?thesis by (simp add: cnt of_server_def filter_empty_conv)
  next
    case False
    then have "of_server s ?ts = of_server s ts"
      unfolding of_server_def filter_filter by (intro filter_cong) auto
    with False show ?thesis using slots_okD(2) [OF ok, of s] by (simp add: cnt)
  qed
  have c2: "serves m s g" if "(s, r, g) \<in> set ?ts" for s r g
    by (rule slots_okD(3) [OF ok, of s r g]) (use that in simp)
  have c3: "\<exists>op. op_lookup ?m r = Some op \<and> op_server op = s \<and> op_generation op = g
      \<and> holding (op_status op)" if t: "(s, Some r, g) \<in> set ?ts" for s r g
  proof -
    from t obtain op where "op_lookup m r = Some op" "op_server op = s" "op_generation op = g"
        "holding (op_status op)" and "s \<noteq> sid"
      using slots_okD(4) [OF ok] by fastforce
    then show ?thesis by (simp add: stop_lookup stop_hits_def)
  qed
  have hit: "op_lookup m r = Some op \<and> op_server op \<noteq> sid"
    if "op_lookup ?m r = Some op" "live_status (op_status op)" for r op
    using that by (auto simp: stop_lookup stop_hits_def split: option.splits if_splits)
  have c4: "(op_server op, Some r, op_generation op) \<in> set ?ts"
    if "op_lookup ?m r = Some op" "busy (op_status op)" for r op
    using hit [OF that(1) busy_live [OF that(2)]] slots_okD(5) [OF ok _ that(2), of r] by simp
  have c5: "serves m (op_server op) (op_generation op)"
    if "op_lookup ?m r = Some op" "live_status (op_status op)" for r op
    by (rule slots_okD(6) [OF ok conjunct1 [OF hit [OF that]] that(2)])
  have c6: "distinct (filter (\<lambda>t. fst (snd t) \<noteq> None) ?ts)"
  proof -
    have "filter P (filter Q ts) = filter Q (filter P ts)" for P Q :: "slot \<Rightarrow> bool"
      by (simp add: conj_commute)
    then show ?thesis using distinct_filter [OF slots_okD(7) [OF ok]] by metis
  qed
  have c7: "active_count ?m s \<le> slot_capacity d" if "configs m s = Some d" for s d
    using slots_okD(8) [OF ok that] slot_capacity_pos [of d] by (simp add: cnt)
  show ?thesis
    unfolding slots_ok_def serves_cong [OF cfg] cfg
    by (intro conjI allI impI; (rule keys c1 c6 | (rule c2 c3 c4 c5 c7, assumption+)))
qed

lemma remove_ok:
  assumes ok: "slots_ok m ts" and idle: "server_idle sid m"
  shows "slots_ok (m\<lparr>configs := (configs m)(sid := None)\<rparr>) ts"
proof -
  let ?m = "m\<lparr>configs := (configs m)(sid := None)\<rparr>"
  have "active_count m sid = 0" using idle by (simp add: server_idle_def active_count_def)
  then have none: "s \<noteq> sid" if "(s, r, g) \<in> set ts" for s r g
    using token_count [OF ok that] by auto
  have sv: "serves ?m s g" if "serves m s g" "s \<noteq> sid" for s g
    using that by (simp add: serves_def)
  have live: "op_server op \<noteq> sid" if "op_lookup m r = Some op" "live_status (op_status op)" for r op
  proof -
    have "(r, op) \<in> set (operations m)" using that(1) by (simp add: op_lookup_def map_of_SomeD)
    then show ?thesis using idle that(2) by (auto simp: server_idle_def list_all_iff stop_hits_def)
  qed
  have cnt: "active_count ?m = active_count m" by (rule active_count_cong) simp
  have c2: "serves ?m s g" if "(s, r, g) \<in> set ts" for s r g
    by (rule sv [OF slots_okD(3) [OF ok that] none [OF that]])
  have c5: "serves ?m (op_server op) (op_generation op)"
    if "op_lookup m r = Some op" "live_status (op_status op)" for r op
    by (rule sv [OF slots_okD(6) [OF ok that] live [OF that]])
  have c7: "active_count m s \<le> slot_capacity d" if "configs ?m s = Some d" for s d
    using that slots_okD(8) [OF ok] by (simp split: if_splits)
  show ?thesis
    unfolding slots_ok_def cnt op_lookup_upd
    using slots_okD(1,2,4,5,7) [OF ok] c2 c5 c7
    by (intro conjI allI impI; (assumption | simp; fail | (rule c2 c5 c7, assumption+) | blast))
qed

lemma install_ok:
  assumes ok: "slots_ok m ts" and none: "configs m sid = None"
  shows "slots_ok (m\<lparr>configs := (configs m)(sid \<mapsto> c)\<rparr>) ts"
proof -
  let ?m = "m\<lparr>configs := (configs m)(sid \<mapsto> c)\<rparr>"
  have sv: "serves ?m s g" if "serves m s g" for s g
    using that none by (auto simp: serves_def)
  have "of_server sid ts = []"
    using slots_okD(3) [OF ok] none by (force simp: of_server_def filter_empty_conv serves_def)
  then have zero: "active_count m sid = 0" using slots_okD(2) [OF ok, of sid] by simp
  have cnt: "active_count ?m = active_count m" by (rule active_count_cong) simp
  have c2: "serves ?m s g" if "(s, r, g) \<in> set ts" for s r g
    by (rule sv [OF slots_okD(3) [OF ok that]])
  have c5: "serves ?m (op_server op) (op_generation op)"
    if "op_lookup m r = Some op" "live_status (op_status op)" for r op
    by (rule sv [OF slots_okD(6) [OF ok that]])
  have c7: "active_count m s \<le> slot_capacity d" if "configs ?m s = Some d" for s d
    using that slots_okD(8) [OF ok] zero slot_capacity_pos [of d] by (auto split: if_splits)
  show ?thesis
    unfolding slots_ok_def cnt op_lookup_upd
    using slots_okD(1,2,4,5,7) [OF ok] c2 c5 c7
    by (intro conjI allI impI; (assumption | simp; fail | (rule c2 c5 c7, assumption+) | blast))
qed


lemma exec_slots_ok:
  assumes "slots_ok m ts" "slot_enabled c m ts"
  shows "slots_ok (slot_exec c m) (slots_after c m ts)"
proof (cases c)
  case (CmdReserve sid rid gen token now cur timer)
  then show ?thesis using try_reserve_ok [OF assms(1)] by (simp only: slot_exec.simps)
next
  case (CmdRelease sid rid gen token now cur)
  then show ?thesis using pending_release_ok [OF assms(1)] by (simp only: slot_exec.simps)
next
  case (CmdConsume sid rid gen token cur)
  then show ?thesis using consume_ok [OF assms(1)] by simp
next
  case (CmdRegister sid rid expected now cur)
  then show ?thesis using register_ok [OF assms(1)] by simp
next
  case (CmdTurn sid rid expected now cur)
  then show ?thesis using turn_ok [OF assms(1)] assms(2)
    by (simp only: slot_exec.simps slot_enabled.simps)
next
  case (CmdWaitCancelled rid now cur)
  then show ?thesis using finish_ok [OF assms(1)] assms(2) by (simp add: connection_cancelled_def)
next
  case (CmdBind rid cur)
  then show ?thesis using bind_ok [OF assms(1)] by simp
next
  case (CmdFinished sid rid out gen now cur)
  then show ?thesis using finished_ok [OF assms(1)] assms(2)
    by (simp only: slot_exec.simps slots_after.simps)
next
  case (CmdCancel rid sid cur)
  then show ?thesis using cancel_ok [OF assms(1)] by simp
next
  case (CmdTaskDone t)
  have "slots_ok (m\<lparr>done_tasks := t # done_tasks m\<rparr>) ts = slots_ok m ts"
    by (rule slots_ok_cong) simp_all
  with CmdTaskDone show ?thesis using assms(1) by simp
next
  case (CmdStopOps sid now cur)
  then show ?thesis using stop_ok [OF assms(1)] by simp
next
  case (CmdRemove sid)
  then show ?thesis using remove_ok [OF assms(1)] assms(2) by simp
next
  case (CmdInstall sid c')
  then show ?thesis using install_ok [OF assms(1)] assms(2) by simp
qed

text \<open>The contract of a slot table: its steps keep the invariant. What follows from it is proved
  once for every implementation of the steps.\<close>

locale slot_table =
  fixes exec :: "'c \<Rightarrow> 'm \<Rightarrow> 'm" and after :: "'c \<Rightarrow> 'm \<Rightarrow> 't list \<Rightarrow> 't list"
    and enabled :: "'c \<Rightarrow> 'm \<Rightarrow> 't list \<Rightarrow> bool" and ok :: "'m \<Rightarrow> 't list \<Rightarrow> bool"
  assumes step_ok: "ok m ts \<Longrightarrow> enabled c m ts \<Longrightarrow> ok (exec c m) (after c m ts)"
begin

inductive reach :: "'m \<Rightarrow> 't list \<Rightarrow> 'm \<Rightarrow> 't list \<Rightarrow> bool" where
  reach_refl: "reach m ts m ts"
| reach_step: "reach m ts m1 ts1 \<Longrightarrow> enabled c m1 ts1 \<Longrightarrow> reach m ts (exec c m1) (after c m1 ts1)"

lemma reach_ok: "reach m ts m' ts' \<Longrightarrow> ok m ts \<Longrightarrow> ok m' ts'"
  by (induction rule: reach.induct) (auto intro: step_ok)

end

interpretation slot_run: slot_table slot_exec slots_after slot_enabled slots_ok
  by unfold_locales (rule exec_slots_ok)

lemma slots_ok_start:
  "operations m = [] \<Longrightarrow> active_requests m = (\<lambda>s. None) \<Longrightarrow> slots_ok m []"
  using slot_capacity_pos
  by (simp add: slots_ok_def op_lookup_def active_count_def of_server_def) (meson dual_order.trans zero_le_one)

lemma slot_reach_run:
  "slot_reach m ts \<Longrightarrow> \<exists>m0. slots_ok m0 [] \<and> slot_run.reach m0 [] m ts"
proof (induction rule: slot_reach.induct)
  case (slot_start m)
  then show ?case using slots_ok_start slot_run.reach_refl by blast
next
  case (slot_next m ts c)
  then show ?case using slot_run.reach_step by blast
qed

lemma slot_reach_ok: "slot_reach m ts \<Longrightarrow> slots_ok m ts"
  using slot_reach_run slot_run.reach_ok by blast



lemma length_update_le: "length (AList.update k v xs) \<le> Suc (length xs)"
  by (induction xs) auto

text \<open>
  Recording a request evicts finished operations only: every live operation stays as
  it is, the table holds afterwards at most 4096 entries or one more than the live ones, and
  each finished operation dropped ended no later than each finished one kept.
\<close>
lemma start_evicts_finished:
  assumes "distinct (map fst (operations m))" "start_operation rid sid gen now cur m = Inr m'"
  shows "(\<forall>k op. op_lookup m k = Some op \<longrightarrow> live_status (op_status op) \<longrightarrow> op_lookup m' k = Some op)
    \<and> length (operations m') \<le> max MAX_RETAINED_OPERATIONS
         (1 + length (filter (\<lambda>p. live_status (op_status (snd p))) (operations m)))
    \<and> (\<forall>k op k' op'. op_lookup m k = Some op \<longrightarrow> op_lookup m' k = None \<longrightarrow>
         op_lookup m k' = Some op' \<longrightarrow> \<not> live_status (op_status op') \<longrightarrow> op_lookup m' k' \<noteq> None \<longrightarrow>
         finished_key (k, op) \<le> finished_key (k', op'))"
proof -
  let ?N = "MAX_RETAINED_OPERATIONS" and ?ops = "operations m"
  have m': "operations m' = AList.update rid (new_operation sid gen now cur) (evict_finished ?N ?ops)"
    using assms(2) by (auto simp: start_operation_def op_store_def split: if_splits)
  have look: "op_lookup m' k = (if k = rid then Some (new_operation sid gen now cur)
      else if k \<in> set (evicted_keys ?N ?ops) then None else op_lookup m k)" for k
    by (simp add: op_lookup_def m' update_conv' evict_finished_def map_of_fold_delete)
  have fresh: "op_lookup m rid = None" by (rule start_lookup(1) [OF assms(2)])
  have "length (operations m') \<le> Suc (length (evict_finished ?N ?ops))"
    unfolding m' by (rule length_update_le)
  moreover have "length (evict_finished ?N ?ops)
      \<le> max (?N - 1) (length (filter (\<lambda>p. live_status (op_status (snd p))) ?ops))"
    by (rule evict_length [OF assms(1)])
  moreover have "0 < ?N" by (simp add: MAX_RETAINED_OPERATIONS_def)
  ultimately have len: "length (operations m') \<le> max ?N
         (1 + length (filter (\<lambda>p. live_status (op_status (snd p))) ?ops))" by linarith
  have old: "finished_key (k, op) \<le> finished_key (k', op')"
    if "op_lookup m k = Some op" "op_lookup m' k = None" "op_lookup m k' = Some op'"
      "\<not> live_status (op_status op')" "op_lookup m' k' \<noteq> None" for k op k' op'
  proof (rule evict_oldest [OF _ _ assms(1)])
    show "k \<in> set (evicted_keys ?N ?ops)" using that(1,2) look [of k] by (auto split: if_splits)
    show "(k, op) \<in> set ?ops" "(k', op') \<in> set ?ops"
      using that(1,3) by (simp_all add: op_lookup_def map_of_SomeD)
    show "\<not> live_status (op_status op')" by (rule that(4))
    show "k' \<notin> set (evicted_keys ?N ?ops)"
      using that(3,5) look [of k'] fresh by (auto split: if_splits)
  qed
  show ?thesis
    using start_keeps_live [OF assms(2,1)] len old by blast
qed

end
