(* ===== verification/ProxyRoutes.thy ===== *)
theory ProxyRoutes
  imports ProxyDispatch SlotSafety
begin

text \<open>
  The proxy endpoints of the agent (\<open>src/agent/app/api/routes/proxy.py\<close>): reading, cancelling
  and reserving inference operations, and the checks a request passes before it is forwarded.
  An HTTPException is \<open>HttpStatus code detail\<close>; a forwarded request is the \<open>call\<close> handed to the
  proxy with the body that goes with it.
\<close>

section \<open>Operations\<close>

text \<open>The status an operation is reported under; None is \<open>unknown\<close>.\<close>

definition get_inference_operation :: "uuid \<Rightarrow> uuid \<Rightarrow> slot_state \<Rightarrow> operation option" where
  "get_inference_operation sid rid m = get_operation rid sid m"

definition list_inference_operations :: "uuid \<Rightarrow> slot_state \<Rightarrow> bool \<times> (uuid \<times> operation) list" where
  "list_inference_operations sid m = (True, list_operations sid m)"

record cancel_reply =
  cr_status :: "op_status option"
  cr_cancelled :: bool

text \<open>A stored reservation id that differs from the one given refuses the cancellation; an
  operation without one may be cancelled by anyone who knows its id.\<close>

definition wrong_reservation :: "uuid option \<Rightarrow> operation \<Rightarrow> bool" where
  "wrong_reservation token op = (op_reservation op \<noteq> None \<and> op_reservation op \<noteq> token)"

definition cancel_running :: "uuid \<Rightarrow> uuid \<Rightarrow> task \<Rightarrow> slot_state \<Rightarrow> (exn + cancel_reply) \<times> slot_state" where
  "cancel_running sid rid cur m =
     (let (accepted, m') = cancel_operation rid sid cur m in
      (Inr \<lparr>cr_status = map_option op_status (get_operation rid sid m'), cr_cancelled = accepted\<rparr>, m'))"

definition cancel_inference_operation :: "uuid \<Rightarrow> uuid \<Rightarrow> uuid option \<Rightarrow> time \<Rightarrow> task \<Rightarrow> slot_state
    \<Rightarrow> (exn + cancel_reply) \<times> slot_state" where
  "cancel_inference_operation sid rid token now cur m =
     (case get_operation rid sid m of
        None \<Rightarrow> cancel_running sid rid cur m
      | Some op \<Rightarrow>
          if wrong_reservation token op
          then (Inr \<lparr>cr_status = Some (op_status op), cr_cancelled = False\<rparr>, m)
          else if op_status op = OpReserved \<or> op_status op = OpActive
          then (case release_pending_reservation sid rid (op_generation op) token now cur m of
                  (Inl e, m') \<Rightarrow> (Inl e, m')
                | (Inr True, m') \<Rightarrow> (Inr \<lparr>cr_status = Some OpCancelled, cr_cancelled = True\<rparr>, m')
                | (Inr False, m') \<Rightarrow> cancel_running sid rid cur m')
          else cancel_running sid rid cur m)"

definition server_known :: "uuid \<Rightarrow> slot_state \<Rightarrow> bool" where
  "server_known sid m = (sid \<in> set (map fst (servers m)))"

definition reserve_inference_operation :: "uuid \<Rightarrow> uuid \<Rightarrow> int \<Rightarrow> uuid \<Rightarrow> time \<Rightarrow> task \<Rightarrow> task \<Rightarrow> slot_state
    \<Rightarrow> (exn + bool) \<times> slot_state" where
  "reserve_inference_operation sid rid gen token now cur timer m =
     (if \<not> server_known sid m then (Inl (HttpStatus 404 ''Server not found''), m)
      else case try_reserve_inference_slot sid rid gen (Some token) now cur timer m of
        (Inr b, m') \<Rightarrow> (Inr b, m')
      | (Inl e, m') \<Rightarrow>
          (case e of
             ProxyOperationExists s \<Rightarrow> (Inl (HttpStatus 409 ''Reservation already exists''), m')
           | HttpStatus n s \<Rightarrow> (Inl (HttpStatus 409 ''Server generation changed''), m')
           | _ \<Rightarrow> (Inl e, m')))"

section \<open>Forwarding\<close>

definition HALOGEN_FLASH_PATHS :: "string list" where
  "HALOGEN_FLASH_PATHS = [''health'', ''metrics'', ''cache'', ''v1/models'', ''v1/completions'',
     ''v1/chat/completions'', ''v1/responses'', ''v1/embeddings'', ''v1/rerank'', ''v1/moderations'']"

definition GUFO_PATHS :: "string list" where
  "GUFO_PATHS = [''health'', ''ready'', ''metrics'', ''v1/models'', ''v1/completions'',
     ''v1/chat/completions'', ''v1/responses'']"

definition INFERENCE_PATHS :: "string list" where
  "INFERENCE_PATHS = [''v1/chat/completions'', ''v1/completions'', ''v1/embeddings'',
     ''v1/responses'', ''v1/rerank'', ''v1/moderations'']"

definition is_supported_halogen_flash_path :: "string \<Rightarrow> bool" where
  "is_supported_halogen_flash_path path = (path \<in> set HALOGEN_FLASH_PATHS)"

definition is_supported_gufo_path :: "string \<Rightarrow> bool" where
  "is_supported_gufo_path path = (path \<in> set GUFO_PATHS)"

text \<open>A JSON object as body; \<open>get\<close> with its truth value.\<close>

type_synonym json_body = "(string \<times> opt_value) list"

record proxy_http =
  ph_method :: string
  ph_path :: string
  ph_body :: "json_body option"
  ph_generation :: "int option"
  ph_request_id :: "uuid option"
  ph_reservation :: "uuid option"
  ph_reservation_id :: "uuid option"

definition inference_path :: "string \<Rightarrow> bool" where
  "inference_path path = (path \<in> set INFERENCE_PATHS)"

definition platform_refusal :: "string \<Rightarrow> string \<Rightarrow> exn option" where
  "platform_refusal platform path =
     (if platform = ''halogen-flash'' \<and> \<not> is_supported_halogen_flash_path path
      then Some (HttpStatus 404 ''Endpoint is not supported by halogen-flash-server'')
      else if platform = ''gufo'' \<and> \<not> is_supported_gufo_path path
      then Some (HttpStatus 404 ''Endpoint is not supported by gufo'')
      else None)"

text \<open>The body of a request: read for POST, PUT and PATCH; on gufo the model name is filled in
  from the options of the server.\<close>

definition route_body :: "string \<Rightarrow> engine_config \<Rightarrow> proxy_http \<Rightarrow> json_body option" where
  "route_body platform c r =
     (let body = (if ph_method r \<in> {''POST'', ''PUT'', ''PATCH''} then ph_body r else None) in
      case body of None \<Rightarrow> None
      | Some b \<Rightarrow>
          if platform = ''gufo'' \<and> inference_path (ph_path r) \<and> \<not> opt_truthy b ''model''
          then (case map_of (options_of c) ''served_model_name'' of
                  None \<Rightarrow> Some b
                | Some v \<Rightarrow> if truthy v then Some (AList.update ''model'' v b) else Some b)
          else Some b)"

definition wants_stream :: "string \<Rightarrow> json_body option \<Rightarrow> bool" where
  "wants_stream path body = (take 6 path = ''stream''
     \<or> (case body of None \<Rightarrow> False | Some b \<Rightarrow> b \<noteq> [] \<and> opt_truthy b ''stream''))"

text \<open>\<open>proxy_request\<close> up to the call: refused, or forwarded as a stream or as a request.\<close>

datatype route_end = RouteRefused exn | Forward bool call "json_body option"

definition forward_call :: "uuid \<Rightarrow> proxy_http \<Rightarrow> time \<Rightarrow> task \<Rightarrow> call" where
  "forward_call sid r now cur =
     \<lparr>ca_server = sid, ca_path = ''/'' @ ph_path r, ca_expected = ph_generation r,
      ca_enforce = inference_path (ph_path r), ca_reserved = (ph_reservation r \<noteq> None),
      ca_operation = ph_request_id r, ca_now = now, ca_task = cur\<rparr>"

definition consume_for :: "uuid \<Rightarrow> proxy_http \<Rightarrow> task \<Rightarrow> slot_state \<Rightarrow> (exn + bool) \<times> slot_state" where
  "consume_for sid r cur m =
     (case (ph_reservation r, ph_generation r, ph_reservation_id r) of
        (Some rid, Some gen, Some token) \<Rightarrow>
          if \<not> inference_path (ph_path r) \<or> ph_request_id r \<noteq> Some rid then (Inr False, m)
          else consume_inference_slot sid rid gen (Some token) cur m
      | _ \<Rightarrow> (Inr False, m))"

definition route_request :: "string \<Rightarrow> uuid \<Rightarrow> proxy_http \<Rightarrow> time \<Rightarrow> task \<Rightarrow> slot_state
    \<Rightarrow> route_end \<times> slot_state" where
  "route_request platform sid r now cur m =
     (if \<not> server_known sid m then (RouteRefused (HttpStatus 404 ''Server not found''), m)
      else case configs m sid of None \<Rightarrow> (RouteRefused (KeyError (show_nat sid)), m)
      | Some c \<Rightarrow>
         if ph_generation r \<noteq> None \<and> ph_generation r \<noteq> Some (ec_generation c)
         then (RouteRefused (HttpStatus 409 ''Inference slot generation does not match live server''), m)
         else case platform_refusal platform (ph_path r) of Some e \<Rightarrow> (RouteRefused e, m)
         | None \<Rightarrow>
            if inference_path (ph_path r) \<and> ph_reservation r = None
               \<and> (case ph_request_id r of None \<Rightarrow> False | Some rid \<Rightarrow> operation_exists m rid)
            then (RouteRefused (HttpStatus 409 (''Inference operation '' @
                    (case ph_request_id r of None \<Rightarrow> ''None'' | Some rid \<Rightarrow> show_nat rid) @ '' already exists'')), m)
            else let body = route_body platform c r;
                     go = Forward (wants_stream (ph_path r) body) (forward_call sid r now cur) body
                 in if ph_reservation r = None then (go, m)
                    else (case consume_for sid r cur m of
                        (Inl e, m') \<Rightarrow> (RouteRefused e, m')
                      | (Inr ok, m') \<Rightarrow>
                          if ok then (go, m')
                          else (RouteRefused (HttpStatus 409 ''Invalid or expired inference reservation''), m')))"

section \<open>What a forwarded reservation is\<close>

lemma consume_for_true:
  assumes "consume_for sid r cur m = (Inr True, m')"
  obtains rid gen token where "ph_reservation r = Some rid" "ph_generation r = Some gen"
    "ph_reservation_id r = Some token" "inference_path (ph_path r)" "ph_request_id r = Some rid"
    "consume_inference_slot sid rid gen (Some token) cur m = (Inr True, m')"
  using assms by (auto simp: consume_for_def split: option.splits if_splits)

lemma consume_inference_true:
  assumes "consume_inference_slot sid rid gen token cur m = (Inr True, m')"
  obtains op where "op_lookup m rid = Some op" "consumable sid gen token op" "serves m sid gen"
    "op_lookup m' rid = Some (op\<lparr>op_status := OpActive, op_dispatched := True, op_task := Some cur\<rparr>)"
    "configs m' = configs m"
proof -
  from assms have c: "check_generation sid (Some gen) m = None" "consume_reservation rid sid gen token cur m = (True, m')"
    by (auto simp: consume_inference_slot_def split: if_splits option.splits prod.splits)
  then obtain op where op: "op_lookup m rid = Some op" "consumable sid gen token op"
    by (auto simp: consume_reservation_def split: option.splits if_splits)
  have "op_lookup m' rid = Some (op\<lparr>op_status := OpActive, op_dispatched := True, op_task := Some cur\<rparr>)"
    using consume_lookup [of rid sid gen token cur m rid] c(2) op by simp
  moreover have "configs m' = configs m" using consume_sel(2) [of rid sid gen token cur m] c(2) by simp
  ultimately show ?thesis
    using that op c(1) by (simp add: check_generation_serves)
qed

text \<open>
  A request that names a reservation is forwarded only if it is an inference request
  under that same request id, with the generation the server runs under and the reservation id
  the operation was reserved with, the operation was still reserved, and it is now marked
  dispatched and active.
\<close>
lemma forwarded_reservation_owned:
  assumes "route_request platform sid r now cur m = (Forward streaming p body, m')"
    and "ph_reservation r = Some rid"
  shows "inference_path (ph_path r) \<and> ca_operation p = Some rid \<and> ca_reserved p
    \<and> (\<exists>c op token. configs m sid = Some c \<and> ph_generation r = Some (ec_generation c)
         \<and> ph_reservation_id r = Some token
         \<and> op_lookup m rid = Some op \<and> op_status op = OpReserved \<and> op_server op = sid
         \<and> op_generation op = ec_generation c \<and> op_reservation op = Some token
         \<and> op_lookup m' rid = Some (op\<lparr>op_status := OpActive, op_dispatched := True, op_task := Some cur\<rparr>))"
proof -
  from assms have c: "consume_for sid r cur m = (Inr True, m')" and p: "p = forward_call sid r now cur"
    by (auto simp: route_request_def Let_def split: if_splits option.splits prod.splits sum.splits)
  from consume_for_true [OF c] obtain gen token where g: "ph_generation r = Some gen"
      "ph_reservation_id r = Some token" "inference_path (ph_path r)" "ph_request_id r = Some rid"
      and s: "consume_inference_slot sid rid gen (Some token) cur m = (Inr True, m')"
    using assms(2) by (metis option.inject)
  from consume_inference_true [OF s] obtain op where op: "op_lookup m rid = Some op"
      "consumable sid gen (Some token) op" "serves m sid gen"
      "op_lookup m' rid = Some (op\<lparr>op_status := OpActive, op_dispatched := True, op_task := Some cur\<rparr>)"
    by blast
  with g assms(2) show ?thesis by (auto simp: p forward_call_def consumable_def serves_def)
qed

end
