(* ===== verification/LlamaCommand.thy ===== *)
theory LlamaCommand
  imports AgentState "HOL-Library.Sublist"
begin

text \<open>
  The command line of a llama-server process (\<open>_start_server_locked\<close>,
  \<open>src/agent/app/services/llama_server.py\<close>) from its configuration and options, and its relation
  to the capacity the agent reports (\<open>get_effective_capacity\<close>).
\<close>

definition VALUE_FLAGS :: "(string \<times> string) list" where
  "VALUE_FLAGS = [
     (''threads'', ''--threads''), (''threads_batch'', ''--threads-batch''),
     (''ubatch_size'', ''--ubatch-size''), (''keep'', ''--keep''), (''predict'', ''--predict''),
     (''cache_type_k'', ''--cache-type-k''), (''cache_type_v'', ''--cache-type-v''),
     (''cache_reuse'', ''--cache-reuse''), (''ctx_checkpoints'', ''--ctx-checkpoints''),
     (''checkpoint_every'', ''--checkpoint-min-step''), (''cache_ram'', ''--cache-ram''),
     (''slot_save_path'', ''--slot-save-path''), (''device'', ''--device''),
     (''split_mode'', ''--split-mode''), (''tensor_split'', ''--tensor-split''),
     (''main_gpu'', ''--main-gpu''), (''fit'', ''--fit''), (''fit_target'', ''--fit-target''),
     (''fit_ctx'', ''--fit-ctx''), (''temperature'', ''--temperature''), (''top_k'', ''--top-k''),
     (''top_p'', ''--top-p''), (''min_p'', ''--min-p''), (''repeat_penalty'', ''--repeat-penalty''),
     (''presence_penalty'', ''--presence-penalty''), (''frequency_penalty'', ''--frequency-penalty''),
     (''seed'', ''--seed''), (''parallel'', ''--parallel''), (''reasoning'', ''--reasoning''),
     (''reasoning_budget'', ''--reasoning-budget''), (''spec_draft_p_min'', ''--spec-draft-p-min'')]"

text \<open>A boolean option has one flag for true, and perhaps one for false.\<close>

definition BOOLEAN_FLAGS :: "(string \<times> string \<times> string option) list" where
  "BOOLEAN_FLAGS = [
     (''swa_full'', ''--swa-full'', None),
     (''kv_offload'', ''--kv-offload'', Some ''--no-kv-offload''),
     (''cache_prompt'', ''--cache-prompt'', Some ''--no-cache-prompt''),
     (''cont_batching'', ''--cont-batching'', Some ''--no-cont-batching''),
     (''warmup'', ''--warmup'', Some ''--no-warmup''),
     (''context_shift'', ''--context-shift'', Some ''--no-context-shift''),
     (''kv_unified'', ''--kv-unified'', None),
     (''no_mmap'', ''--no-mmap'', Some ''--mmap''),
     (''no_cache_idle_slots'', ''--no-cache-idle-slots'', Some ''--cache-idle-slots''),
     (''strict_mtp_qwen'', ''--spec-mtp-strict-qwen'', None)]"

text \<open>The options a process is started with: strict Qwen MTP forces one sequence.\<close>

definition launch_options :: "engine_config \<Rightarrow> (string \<times> opt_value) list" where
  "launch_options c = (let os = options_of c in
     if opt_truthy os ''strict_mtp_qwen'' then AList.update ''parallel'' (OptInt 1) os else os)"

definition opt_or :: "(string \<times> opt_value) list \<Rightarrow> string \<Rightarrow> opt_value \<Rightarrow> opt_value" where
  "opt_or os k d = (case map_of os k of None \<Rightarrow> d | Some v \<Rightarrow> v)"

definition value_flag :: "(string \<times> opt_value) list \<Rightarrow> string \<times> string \<Rightarrow> string list" where
  "value_flag os f = (case map_of os (fst f) of None \<Rightarrow> []
     | Some v \<Rightarrow> if v = OptNone then [] else [snd f, opt_str v])"

definition boolean_flag :: "(string \<times> opt_value) list \<Rightarrow> string \<times> string \<times> string option \<Rightarrow> string list" where
  "boolean_flag os f = (case map_of os (fst f) of None \<Rightarrow> []
     | Some v \<Rightarrow> if v = OptNone then []
         else if truthy v then [fst (snd f)]
         else (case snd (snd f) of None \<Rightarrow> [] | Some g \<Rightarrow> [g]))"

text \<open>A path option counts when it is neither None nor empty.\<close>

definition given :: "string option \<Rightarrow> bool" where
  "given p = (case p of None \<Rightarrow> False | Some s \<Rightarrow> s \<noteq> [])"

definition draft_max_set :: "engine_config \<Rightarrow> bool" where
  "draft_max_set c = (case ec_mtp_draft_max c of None \<Rightarrow> False | Some n \<Rightarrow> 0 < n)"

definition base_args :: "string \<Rightarrow> engine_config \<Rightarrow> (string \<times> opt_value) list \<Rightarrow> string list" where
  "base_args exe c os =
     [exe, ''--model'', ec_model_path c, ''--port'', show_int (ec_port c),
      ''--n-gpu-layers'', opt_str (opt_or os ''gpu_layers'' (OptInt (ec_gpu_layers c))),
      ''--ctx-size'', opt_str (opt_or os ''context_size'' (OptInt (ec_context_size c))),
      ''--batch-size'', opt_str (opt_or os ''batch_size'' (OptInt (ec_batch_size c))),
      ''--metrics'']"

definition speculative_args :: "engine_config \<Rightarrow> string list" where
  "speculative_args c =
     (if given (ec_draft_model_path c) \<or> draft_max_set c
      then [''--spec-type'', if given (ec_draft_model_path c) then ''draft-dflash'' else ''draft-mtp'']
        @ (case ec_mtp_draft_max c of None \<Rightarrow> []
           | Some n \<Rightarrow> if 0 < n then [''--spec-draft-n-max'', show_int n] else [])
      else [])"

definition path_arg :: "string \<Rightarrow> string option \<Rightarrow> string list" where
  "path_arg flag p = (case p of None \<Rightarrow> [] | Some s \<Rightarrow> if s = [] then [] else [flag, s])"

definition feature_args :: "engine_config \<Rightarrow> (string \<times> opt_value) list \<Rightarrow> string list" where
  "feature_args c os =
     concat (map (boolean_flag os) BOOLEAN_FLAGS)
     @ (case ec_flash_attn c of None \<Rightarrow> [] | Some b \<Rightarrow> [''--flash-attn'', if b then ''on'' else ''off''])
     @ speculative_args c
     @ (if truthy (opt_or os ''jinja'' (OptBool (ec_jinja c))) then [''--jinja''] else [])
     @ path_arg ''--mmproj'' (ec_mmproj_path c)
     @ path_arg ''-md'' (ec_draft_model_path c)"

definition llama_command :: "string \<Rightarrow> engine_config \<Rightarrow> string list" where
  "llama_command exe c =
     (let os = launch_options c in
      base_args exe c os @ concat (map (value_flag os) VALUE_FLAGS) @ feature_args c os)"

section \<open>The capacity passed on the command line\<close>

lemma value_flag_in_command:
  assumes "f \<in> set VALUE_FLAGS"
  shows "sublist (value_flag (launch_options c) f) (llama_command exe c)"
proof -
  let ?v = "value_flag (launch_options c)"
  from assms obtain xs ys where eq: "VALUE_FLAGS = xs @ f # ys" by (meson split_list)
  have "concat (map ?v VALUE_FLAGS) = concat (map ?v xs) @ ?v f @ concat (map ?v ys)"
    unfolding eq by simp
  then have "llama_command exe c = (base_args exe c (launch_options c) @ concat (map ?v xs)) @ ?v f
      @ concat (map ?v ys) @ feature_args c (launch_options c)"
    by (simp add: llama_command_def Let_def)
  then show ?thesis unfolding sublist_def by blast
qed

lemma launch_parallel:
  "map_of (launch_options c) ''parallel'' =
     (if opt_truthy (options_of c) ''strict_mtp_qwen'' then Some (OptInt 1)
      else map_of (options_of c) ''parallel'')"
  by (simp add: launch_options_def Let_def update_conv')

text \<open>
  The concurrency the agent reports is the one passed to llama-server, for a strict
  Qwen MTP server and for every server whose \<open>parallel\<close> option is a positive integer.
\<close>
lemma capacity_is_passed:
  assumes "opt_truthy (options_of c) ''strict_mtp_qwen''
    \<or> (\<exists>n\<ge>1. map_of (options_of c) ''parallel'' = Some (OptInt n))"
  shows "sublist [''--parallel'', show_int (effective_capacity c)] (llama_command exe c)"
proof -
  have mem: "(''parallel'', ''--parallel'') \<in> set VALUE_FLAGS" by (simp add: VALUE_FLAGS_def)
  have "value_flag (launch_options c) (''parallel'', ''--parallel'')
      = [''--parallel'', show_int (effective_capacity c)]"
    using assms by (auto simp: value_flag_def launch_parallel effective_capacity_def Let_def
        opt_str_def opt_int_def)
  with value_flag_in_command [OF mem, of c exe] show ?thesis by simp
qed

end
