(* ===== verification/LogRing.thy ===== *)
theory LogRing
  imports Prelude
begin

text \<open>
  The log feeds of the agent (\<open>src/agent/app/services/log_buffers.py\<close>): a ring of lines, each
  with the sequence number it was appended under, and cursors that are sequence numbers.
  \<^item> \<open>ring_append\<close>, \<open>ring_extend\<close>, \<open>ring_after\<close>, \<open>ring_tail\<close> are the methods of
    \<open>CursorLogRing\<close>; \<open>poll_reply\<close> is the cursor part of \<open>get_server_logs\<close>
    (\<open>services/llama_server.py\<close>), and \<open>poll_run\<close> a consumer that polls between bursts of output.
  \<^item> \<open>ring_of\<close> relates a ring to the whole log it was fed; the locale \<open>cursor_feed\<close> is what a
    consumer relies on, interpreted on the ring.
\<close>

section \<open>Rings\<close>

record log_entry =
  le_seq :: int
  le_stream :: string
  le_line :: string

record log_ring =
  max_lines :: nat
  ring_entries :: "log_entry list"
  next_seq :: int

definition LOG_BUFFER_LINES :: nat where
  "LOG_BUFFER_LINES = 2000"

definition AFTER_LIMIT :: nat where
  "AFTER_LIMIT = 500"

definition new_ring :: "nat \<Rightarrow> log_ring" where
  "new_ring n = \<lparr>max_lines = n, ring_entries = [], next_seq = 0\<rparr>"

definition first_cursor :: "log_ring \<Rightarrow> int" where
  "first_cursor r = (case ring_entries r of [] \<Rightarrow> next_seq r | e # es \<Rightarrow> le_seq e)"

definition last_cursor :: "log_ring \<Rightarrow> int" where
  "last_cursor r = next_seq r"

text \<open>\<open>del entries[:len - max]\<close> when there are more than \<open>max\<close>: the last \<open>max\<close> stay.\<close>

definition ring_append :: "string \<Rightarrow> string \<Rightarrow> log_ring \<Rightarrow> log_entry \<times> log_ring" where
  "ring_append stream line r =
     (let e = \<lparr>le_seq = next_seq r, le_stream = stream, le_line = line\<rparr>;
          es = ring_entries r @ [e];
          es' = (if max_lines r < length es then drop (length es - max_lines r) es else es)
      in (e, r\<lparr>ring_entries := es', next_seq := next_seq r + 1\<rparr>))"

text \<open>\<open>str.splitlines\<close> on characters below 256.\<close>

definition line_end :: "char \<Rightarrow> bool" where
  "line_end c = (of_char c \<in> {10, 11, 12, 13, 28, 29, 30, 133 :: nat})"

fun split_from :: "string \<Rightarrow> string \<Rightarrow> string list" where
  "split_from acc [] = (if acc = [] then [] else [rev acc])"
| "split_from acc [c] = (if line_end c then [rev acc] else [rev (c # acc)])"
| "split_from acc (c # d # cs) =
     (if of_char c = (13::nat) \<and> of_char d = (10::nat) then rev acc # split_from [] cs
      else if line_end c then rev acc # split_from [] (d # cs)
      else split_from (c # acc) (d # cs))"

definition splitlines :: "string \<Rightarrow> string list" where
  "splitlines s = split_from [] s"

fun append_lines :: "string \<Rightarrow> string list \<Rightarrow> log_ring \<Rightarrow> log_entry list \<times> log_ring" where
  "append_lines stream [] r = ([], r)"
| "append_lines stream (l # ls) r =
     (let (e, r1) = ring_append stream l r; (es, r2) = append_lines stream ls r1
      in (e # es, r2))"

definition ring_extend :: "string \<Rightarrow> string \<Rightarrow> log_ring \<Rightarrow> log_entry list \<times> log_ring" where
  "ring_extend stream t r = append_lines stream (filter (\<lambda>l. l \<noteq> []) (splitlines t)) r"

definition ring_after :: "log_ring \<Rightarrow> int \<Rightarrow> nat \<Rightarrow> log_entry list \<times> bool" where
  "ring_after r cursor limit =
     (take limit (filter (\<lambda>e. cursor \<le> le_seq e) (ring_entries r)), cursor < first_cursor r)"

definition ring_tail :: "int \<Rightarrow> log_ring \<Rightarrow> log_entry list" where
  "ring_tail n r = (if n \<le> 0 then [] else keep_last (nat n) (ring_entries r))"

section \<open>The log a ring was fed\<close>

text \<open>The entries of a whole log: line \<open>i\<close> carries the number \<open>i\<close>.\<close>

definition entry_at :: "nat \<Rightarrow> string \<times> string \<Rightarrow> log_entry" where
  "entry_at i p = \<lparr>le_seq = int i, le_stream = fst p, le_line = snd p\<rparr>"

definition entries_of :: "(string \<times> string) list \<Rightarrow> log_entry list" where
  "entries_of log = map (\<lambda>(i, p). entry_at i p) (enumerate 0 log)"

definition ring_of :: "nat \<Rightarrow> (string \<times> string) list \<Rightarrow> log_ring \<Rightarrow> bool" where
  "ring_of n log r = (max_lines r = n \<and> next_seq r = int (length log)
     \<and> ring_entries r = keep_last n (entries_of log))"

lemma length_entries_of [simp]: "length (entries_of log) = length log"
  by (simp add: entries_of_def)

lemma nth_entries_of: "i < length log \<Longrightarrow> entries_of log ! i = entry_at i (log ! i)"
  by (simp add: entries_of_def nth_enumerate_eq)

lemma le_seq_entry_at [simp]: "le_seq (entry_at i p) = int i"
  by (simp add: entry_at_def)

lemma entries_of_snoc:
  "entries_of (log @ [(s, l)]) =
     entries_of log @ [\<lparr>le_seq = int (length log), le_stream = s, le_line = l\<rparr>]"
  by (simp add: entries_of_def enumerate_append_eq entry_at_def)

lemma ring_of_new: "ring_of n [] (new_ring n)"
  by (simp add: ring_of_def new_ring_def entries_of_def keep_last_def)

lemma keep_last_snoc:
  "(if n < length (keep_last n xs @ [x]) then drop (length (keep_last n xs @ [x]) - n) (keep_last n xs @ [x])
    else keep_last n xs @ [x]) = keep_last n (xs @ [x])"
  unfolding keep_last_def by (cases "length xs < n") (auto simp: Suc_diff_le not_less)

lemma ring_of_append:
  assumes "ring_of n log r"
  shows "ring_of n (log @ [(s, l)]) (snd (ring_append s l r))"
proof -
  let ?e = "\<lparr>le_seq = int (length log), le_stream = s, le_line = l\<rparr>"
  have r: "max_lines r = n" "next_seq r = int (length log)" "ring_entries r = keep_last n (entries_of log)"
    using assms by (simp_all add: ring_of_def)
  have "ring_entries (snd (ring_append s l r)) = keep_last n (entries_of log @ [?e])"
    unfolding ring_append_def Let_def snd_conv r
    by (simp only: keep_last_snoc) simp
  then show ?thesis
    by (simp add: ring_of_def entries_of_snoc r) (simp add: ring_append_def Let_def r)
qed

lemma ring_append_entry:
  "ring_of n log r \<Longrightarrow> fst (ring_append s l r) = entry_at (length log) (s, l)"
  by (simp add: ring_of_def ring_append_def Let_def entry_at_def)

lemma append_lines_ring_of:
  "ring_of n log r \<Longrightarrow> ring_of n (log @ map (Pair s) ls) (snd (append_lines s ls r))"
proof (induction ls arbitrary: log r)
  case (Cons l ls)
  obtain e r1 where r1: "ring_append s l r = (e, r1)" by (metis surj_pair)
  then have "ring_of n (log @ [(s, l)]) r1"
    using ring_of_append [OF Cons.prems, of s l] by simp
  from Cons.IH [OF this] r1 show ?case by (simp add: split_beta)
qed simp

lemma filter_drop_entries:
  "0 \<le> c \<Longrightarrow> filter (\<lambda>e. c \<le> le_seq e) (entries_of log) = drop (nat c) (entries_of log)"
proof (induction log rule: rev_induct)
  case Nil
  then show ?case by (simp add: entries_of_def)
next
  case (snoc p log)
  obtain s l where p: "p = (s, l)" by (cases p)
  show ?case
  proof (cases "c \<le> int (length log)")
    case True
    then have "nat c \<le> length log" by simp
    with snoc True show ?thesis by (simp add: p entries_of_snoc)
  next
    case False
    then have "length log < nat c" using snoc.prems by linarith
    with snoc False show ?thesis by (simp add: p entries_of_snoc)
  qed
qed

lemma first_cursor_ring_of:
  assumes "ring_of n log r" "0 < n"
  shows "first_cursor r = int (length log - n)"
proof (cases "log = []")
  case True
  with assms show ?thesis
    by (simp add: ring_of_def first_cursor_def entries_of_def keep_last_def)
next
  case False
  with assms(2) have less: "length log - n < length log" by simp
  have es: "ring_entries r = drop (length log - n) (entries_of log)"
    using assms(1) by (simp add: ring_of_def keep_last_def)
  with less have "ring_entries r = entries_of log ! (length log - n)
      # drop (Suc (length log - n)) (entries_of log)"
    by (simp add: Cons_nth_drop_Suc)
  with less show ?thesis by (simp add: first_cursor_def nth_entries_of)
qed

text \<open>Where it reports no gap, a cursor read returns the next lines of the whole log.\<close>

lemma ring_after_no_gap:
  assumes "ring_of n log r" "0 < n" "0 \<le> c" "ring_after r c k = (es, False)"
  shows "es = take k (drop (nat c) (entries_of log))"
proof -
  have le: "int (length log - n) \<le> c"
    using assms(4) first_cursor_ring_of [OF assms(1,2)] by (simp add: ring_after_def)
  have "filter (\<lambda>e. c \<le> le_seq e) (ring_entries r)
      = filter (\<lambda>e. c \<le> le_seq e) (drop (length log - n) (entries_of log))"
    using assms(1) by (simp add: ring_of_def keep_last_def)
  also have "\<dots> = filter (\<lambda>e. c \<le> le_seq e) (entries_of log)"
  proof -
    have "filter (\<lambda>e. c \<le> le_seq e) (take (length log - n) (entries_of log)) = []"
    proof -
      have "\<not> c \<le> le_seq e" if e: "e \<in> set (take (length log - n) (entries_of log))" for e
      proof -
        from e obtain i where "i < length log - n" "e = entries_of log ! i"
          by (auto simp: in_set_conv_nth)
        then have "le_seq e = int i" "int i < int (length log - n)"
          by (simp_all add: nth_entries_of)
        with le show ?thesis by linarith
      qed
      then show ?thesis by (simp add: filter_empty_conv)
    qed
    then show ?thesis
      by (metis append_Nil append_take_drop_id filter_append)
  qed
  finally show ?thesis
    using assms(3,4) by (simp add: ring_after_def filter_drop_entries)
qed

section \<open>Consumers of a feed\<close>

text \<open>\<open>next_cursor\<close> of a poll, and a consumer that polls after every burst of lines.\<close>

definition next_cursor :: "log_entry list \<Rightarrow> int \<Rightarrow> int" where
  "next_cursor es after = (if es = [] then after else le_seq (last es) + 1)"

definition poll_reply :: "log_ring \<Rightarrow> int \<Rightarrow> log_entry list \<times> int \<times> bool" where
  "poll_reply r after = (let (es, gap) = ring_after r after AFTER_LIMIT
     in (es, next_cursor es after, gap))"

definition push_line :: "string \<times> string \<Rightarrow> log_ring \<Rightarrow> log_ring" where
  "push_line p r = snd (ring_append (fst p) (snd p) r)"

fun poll_run :: "('p \<Rightarrow> 'f \<Rightarrow> 'f) \<Rightarrow> ('f \<Rightarrow> int \<Rightarrow> log_entry list \<times> int \<times> bool)
    \<Rightarrow> 'f \<Rightarrow> int \<Rightarrow> 'p list list \<Rightarrow> log_entry list \<times> int \<times> bool" where
  "poll_run push poll f c [] = ([], c, False)"
| "poll_run push poll f c (burst # bs) =
     (let f1 = fold push burst f;
          (es, c1, gap) = poll f1 c;
          (rest, c2, gaps) = poll_run push poll f1 c1 bs
      in (es @ rest, c2, gap \<or> gaps))"

locale cursor_feed =
  fixes push :: "string \<times> string \<Rightarrow> 'f \<Rightarrow> 'f"
    and poll :: "'f \<Rightarrow> int \<Rightarrow> log_entry list \<times> int \<times> bool"
    and feed_of :: "(string \<times> string) list \<Rightarrow> 'f \<Rightarrow> bool"
    and limit :: nat
  assumes push_feed: "feed_of log f \<Longrightarrow> feed_of (log @ [p]) (push p f)"
    and poll_feed: "feed_of log f \<Longrightarrow> 0 \<le> c \<Longrightarrow> poll f c = (es, c', False) \<Longrightarrow>
      es = take limit (drop (nat c) (entries_of log)) \<and> c' = next_cursor es c"
begin

lemma fold_push: "feed_of log f \<Longrightarrow> feed_of (log @ ps) (fold push ps f)"
proof (induction ps arbitrary: log f)
  case (Cons p ps)
  from Cons.IH [OF push_feed [OF Cons.prems]] show ?case by simp
qed simp

lemma poll_step:
  assumes "feed_of log f" "0 \<le> c" "c \<le> int (length log)" "poll f c = (es, c', False)"
  shows "0 \<le> c'" "c' \<le> int (length log)"
    "take (nat c) (entries_of log) @ es = take (nat c') (entries_of log)"
proof -
  have es: "es = take limit (drop (nat c) (entries_of log))" and c': "c' = next_cursor es c"
    using poll_feed [OF assms(1,2,4)] by auto
  have len: "length es = min limit (length log - nat c)" by (simp add: es)
  have "nat c' = nat c + length es \<and> 0 \<le> c'"
  proof (cases "es = []")
    case True
    then show ?thesis using assms(2) by (simp add: c' next_cursor_def)
  next
    case False
    then have pos: "0 < length es" by simp
    have "last es = entries_of log ! (nat c + (length es - 1))"
    proof -
      have "last es = es ! (length es - 1)" using False by (simp add: last_conv_nth)
      also have "\<dots> = drop (nat c) (entries_of log) ! (length es - 1)"
        unfolding es by (rule nth_take) (use pos len in \<open>unfold es [symmetric], linarith\<close>)
      also have "\<dots> = entries_of log ! (nat c + (length es - 1))"
        by (rule nth_drop) (use assms(2,3) in simp)
      finally show ?thesis .
    qed
    moreover have "nat c + (length es - 1) < length log" using pos len by linarith
    ultimately have "le_seq (last es) = int (nat c + (length es - 1))"
      by (simp add: nth_entries_of)
    moreover have "int (length es - 1) + 1 = int (length es)" using pos by linarith
    ultimately have "c' = c + int (length es)"
      using assms(2) by (simp add: c' next_cursor_def False)
    with assms(2) show ?thesis by simp
  qed
  then have n: "nat c' = nat c + length es" and pos: "0 \<le> c'" by auto
  show "0 \<le> c'" by (rule pos)
  have "nat c + length es \<le> length log" using len assms(2,3) by linarith
  with n pos show "c' \<le> int (length log)" by linarith
  have "es = take (length es) (drop (nat c) (entries_of log))"
    by (metis append_take_drop_id append_eq_conv_conj es)
  then show "take (nat c) (entries_of log) @ es = take (nat c') (entries_of log)"
    by (metis n take_add)
qed

lemma entries_of_append_take:
  "n \<le> length log \<Longrightarrow> take n (entries_of (log @ ps)) = take n (entries_of log)"
  by (simp add: entries_of_def enumerate_append_eq)

lemma run_lossless:
  assumes "feed_of log f" "0 \<le> c" "c \<le> int (length log)"
    and "poll_run push poll f c bs = (es, cz, False)"
  shows "take (nat c) (entries_of log) @ es = take (nat cz) (entries_of (log @ concat bs))
    \<and> 0 \<le> cz \<and> cz \<le> int (length (log @ concat bs))"
  using assms
proof (induction bs arbitrary: log f c es cz)
  case Nil
  then show ?case by simp
next
  case (Cons b bs)
  obtain e1 c1 g1 where p: "poll (fold push b f) c = (e1, c1, g1)" by (metis prod_cases3)
  obtain e2 c2 g2 where q: "poll_run push poll (fold push b f) c1 bs = (e2, c2, g2)"
    by (metis prod_cases3)
  from Cons.prems(4) p q have r: "es = e1 @ e2" "cz = c2" and g: "\<not> g1" "\<not> g2" by simp_all
  from p g have p': "poll (fold push b f) c = (e1, c1, False)" by simp
  from q g have q': "poll_run push poll (fold push b f) c1 bs = (e2, c2, False)" by simp
  have feed: "feed_of (log @ b) (fold push b f)" by (rule fold_push [OF Cons.prems(1)])
  have "c \<le> int (length (log @ b))" using Cons.prems(3) by simp
  note step = poll_step [OF feed Cons.prems(2) this p']
  have IH: "take (nat c1) (entries_of (log @ b)) @ e2
      = take (nat c2) (entries_of ((log @ b) @ concat bs))
      \<and> 0 \<le> c2 \<and> c2 \<le> int (length ((log @ b) @ concat bs))"
    by (rule Cons.IH [OF feed step(1,2) q'])
  have "take (nat c) (entries_of log) = take (nat c) (entries_of (log @ b))"
    using Cons.prems(3) by (simp add: entries_of_append_take nat_le_iff)
  with IH step(3) r show ?case by simp (metis append_assoc)
qed

end

interpretation ring_feed: cursor_feed push_line poll_reply "ring_of LOG_BUFFER_LINES" AFTER_LIMIT
proof unfold_locales
  fix log f p
  assume "ring_of LOG_BUFFER_LINES log f"
  then show "ring_of LOG_BUFFER_LINES (log @ [p]) (push_line p f)"
    using ring_of_append by (cases p) (simp add: push_line_def)
next
  fix log f c es c'
  assume *: "ring_of LOG_BUFFER_LINES log f" "0 \<le> c" "poll_reply f c = (es, c', False)"
  then have "ring_after f c AFTER_LIMIT = (es, False)" and c': "c' = next_cursor es c"
    by (auto simp: poll_reply_def split: prod.splits)
  moreover have "0 < LOG_BUFFER_LINES" by (simp add: LOG_BUFFER_LINES_def)
  ultimately show "es = take AFTER_LIMIT (drop (nat c) (entries_of log)) \<and> c' = next_cursor es c"
    using ring_after_no_gap [OF *(1) _ *(2)] by simp
qed

section \<open>Properties\<close>

text \<open>
  Claim C21: a consumer that starts at cursor 0 and follows the cursors the agent returns
  receives, as long as no reply reports a gap, exactly the lines of the whole log up to its
  cursor, each once, in order and under its own number, whatever the bursts of output between
  its polls and however the replies are cut at the limit.
\<close>
lemma poll_lossless:
  assumes "poll_run push_line poll_reply (new_ring LOG_BUFFER_LINES) 0 bursts = (es, c, False)"
  shows "es = take (nat c) (entries_of (concat bursts)) \<and> 0 \<le> c \<and> c \<le> int (length (concat bursts))"
  using ring_feed.run_lossless [OF ring_of_new _ _ assms] by simp

text \<open>A cursor beyond the feed (the ring was dropped and begun again at a restart) reads
  nothing, reports no gap and does not move.\<close>

lemma stale_cursor_silent:
  assumes "ring_of n log r" "int (length log) \<le> c"
  shows "poll_reply r c = ([], c, False)"
proof -
  have less: "le_seq e < c" if e: "e \<in> set (ring_entries r)" for e
  proof -
    from e assms(1) have "e \<in> set (entries_of log)"
      by (auto simp: ring_of_def keep_last_def dest: in_set_dropD)
    then obtain i where "i < length log" "e = entries_of log ! i" by (auto simp: in_set_conv_nth)
    with assms(2) show ?thesis by (simp add: nth_entries_of)
  qed
  have "\<not> c < first_cursor r"
  proof (cases "ring_entries r")
    case Nil
    with assms show ?thesis by (simp add: first_cursor_def ring_of_def)
  next
    case (Cons e es)
    then show ?thesis using less [of e] by (simp add: first_cursor_def)
  qed
  moreover have "filter (\<lambda>e. c \<le> le_seq e) (ring_entries r) = []"
    using less by (simp add: filter_empty_conv not_le)
  ultimately show ?thesis by (simp add: poll_reply_def ring_after_def next_cursor_def)
qed

end
