(* ===== verification/HealthSpec.thy ===== *)
theory HealthSpec
  imports Prelude
begin

text \<open>
  The health status the managers of llama-server and Gufo keep for a process
  (\<open>src/agent/app/services/llama_server.py\<close>, \<open>gufo_server.py\<close>), as a function of the answers of its
  health endpoint: the specification, and the contract of a manager that keeps two counters instead
  of the answers.
\<close>

datatype health_state = Healthy | Unhealthy

section \<open>The specification\<close>

text \<open>On answers with the latest first: three failures in a row make a healthy
  server unhealthy, two successes in a row an unhealthy one healthy; and its changes of status,
  oldest first.\<close>

fun health_spec :: "bool list \<Rightarrow> health_state" where
  "health_spec [] = Healthy"
| "health_spec (b # h) =
     (if health_spec h = Healthy
      then (if take 3 (b # h) = [False, False, False] then Unhealthy else Healthy)
      else (if take 2 (b # h) = [True, True] then Healthy else Unhealthy))"

fun health_changes :: "bool list \<Rightarrow> (health_state \<times> health_state) list" where
  "health_changes [] = []"
| "health_changes (b # h) = health_changes h @
     (if health_spec (b # h) = health_spec h then [] else [(health_spec h, health_spec (b # h))])"

definition streak :: "bool \<Rightarrow> bool list \<Rightarrow> nat" where
  "streak b h = length (takeWhile (\<lambda>x. x = b) h)"

lemma streak_simps [simp]:
  "streak b [] = 0" "streak b (x # h) = (if x = b then streak b h + 1 else 0)"
  by (simp_all add: streak_def)

lemma streak_take: "n \<le> streak b h \<longleftrightarrow> take n h = replicate n b"
proof (induction h arbitrary: n)
  case Nil
  then show ?case by (cases n) simp_all
next
  case (Cons x h)
  then show ?case by (cases n) auto
qed

lemma three_failures: "3 \<le> streak False h \<longleftrightarrow> take 3 h = [False, False, False]"
  using streak_take [of 3 False h] by (simp add: numeral_3_eq_3)

lemma two_successes: "2 \<le> streak True h \<longleftrightarrow> take 2 h = [True, True]"
  using streak_take [of 2 True h] by (simp add: numeral_2_eq_2)

section \<open>Keeping counters\<close>

text \<open>
  \<open>check a\<close> is what the manager does with the answer \<open>a\<close> while \<open>live\<close> (it has the process); answers
  that do not count, those of a process that is still starting, are dropped. The counters are
  the failures and the successes since the last answer of the other kind.
\<close>

locale health_keeping =
  fixes live :: "'s \<Rightarrow> bool"
    and status :: "'s \<Rightarrow> health_state option"
    and failures successes :: "'s \<Rightarrow> nat"
    and changes :: "'s \<Rightarrow> (health_state \<times> health_state) list"
    and good counts :: "'a \<Rightarrow> bool"
    and check :: "'a \<Rightarrow> 's \<Rightarrow> 's"
  assumes live: "live s \<Longrightarrow> live (check a s)"
    and uncounted: "live s \<Longrightarrow> \<not> counts a \<Longrightarrow> check a s = s"
    and success: "live s \<Longrightarrow> counts a \<Longrightarrow> good a \<Longrightarrow> status s = Some p \<Longrightarrow>
      failures (check a s) = 0 \<and> successes (check a s) = successes s + 1
      \<and> status (check a s) = Some (if 2 \<le> successes s + 1 then Healthy else p)
      \<and> changes (check a s) = changes s @ (if p = Unhealthy \<and> 2 \<le> successes s + 1 then [(Unhealthy, Healthy)] else [])"
    and failure: "live s \<Longrightarrow> counts a \<Longrightarrow> \<not> good a \<Longrightarrow> status s = Some p \<Longrightarrow>
      successes (check a s) = 0 \<and> failures (check a s) = failures s + 1
      \<and> status (check a s) = Some (if 3 \<le> failures s + 1 then Unhealthy else p)
      \<and> changes (check a s) = changes s @ (if p = Healthy \<and> 3 \<le> failures s + 1 then [(Healthy, Unhealthy)] else [])"
begin

definition follows :: "bool list \<Rightarrow> 's \<Rightarrow> bool" where
  "follows h s \<longleftrightarrow> status s = Some (health_spec h) \<and> failures s = streak False h \<and> successes s = streak True h"

lemma spec_success: "health_spec (True # h) = (if 2 \<le> streak True h + 1 then Healthy else health_spec h)"
  using two_successes [of "True # h"] by (cases "health_spec h") auto

lemma spec_failure: "health_spec (False # h) = (if 3 \<le> streak False h + 1 then Unhealthy else health_spec h)"
  using three_failures [of "False # h"] by (cases "health_spec h") auto

lemma check_follows:
  assumes "live s" "counts a" "follows h s" "changes s = pre @ health_changes h"
  shows "follows (good a # h) (check a s) \<and> changes (check a s) = pre @ health_changes (good a # h)"
proof (cases "good a")
  case True
  from assms(3) have s: "status s = Some (health_spec h)" by (simp add: follows_def)
  have "health_changes (True # h) = health_changes h @ (if health_spec h = Unhealthy \<and> 2 \<le> streak True h + 1 then [(Unhealthy, Healthy)] else [])"
    unfolding health_changes.simps spec_success by (cases "health_spec h") auto
  with success [OF assms(1,2) True s] assms(3,4) True show ?thesis
    unfolding follows_def by (simp del: health_changes.simps health_spec.simps add: spec_success)
next
  case False
  from assms(3) have s: "status s = Some (health_spec h)" by (simp add: follows_def)
  have "health_changes (False # h) = health_changes h @ (if health_spec h = Healthy \<and> 3 \<le> streak False h + 1 then [(Healthy, Unhealthy)] else [])"
    unfolding health_changes.simps spec_failure by (cases "health_spec h") auto
  with failure [OF assms(1,2) False s] assms(3,4) False show ?thesis
    unfolding follows_def by (simp del: health_changes.simps health_spec.simps add: spec_failure)
qed

lemma run_follows:
  assumes "live s" "follows h s" "changes s = pre @ health_changes h"
  shows "live (fold check as s) \<and> follows (rev (map good (filter counts as)) @ h) (fold check as s)
    \<and> changes (fold check as s) = pre @ health_changes (rev (map good (filter counts as)) @ h)"
  using assms
proof (induction as arbitrary: s h)
  case Nil
  then show ?case by simp
next
  case (Cons a as)
  show ?case
  proof (cases "counts a")
    case True
    with Cons.IH [OF live [OF Cons.prems(1)], of "good a # h" a] check_follows [OF Cons.prems(1) True Cons.prems(2,3)]
    show ?thesis by simp
  next
    case False
    with Cons uncounted [OF Cons.prems(1) False] show ?thesis by simp
  qed
qed

text \<open>From the moment the process is marked healthy, with the counters at zero.\<close>

lemma keeps_spec:
  assumes "live s" "status s = Some Healthy" "failures s = 0" "successes s = 0" "changes s = pre"
  shows "status (fold check as s) = Some (health_spec (rev (map good (filter counts as))))
    \<and> changes (fold check as s) = pre @ health_changes (rev (map good (filter counts as)))"
  using run_follows [of s "[]" pre as] assms by (simp add: follows_def)

end

end
