(* ===== verification/LlamaManager.thy ===== *)
theory LlamaManager
  imports LlamaCommand Slots LogRing HealthSpec
begin

text \<open>
  The process manager of the agent (\<open>LlamaServerManager\<close>,
  \<open>src/agent/app/services/llama_server.py\<close>): starting and stopping llama-server processes under
  slot generations, the health monitor with its thresholds, and what the routes read (status,
  list, logs). Processes are numbers; an await is a function on the state that stands for what
  other tasks did meanwhile; exit codes, health answers and process output are arguments.
\<close>

section \<open>State and events\<close>

datatype manager_event =
    EvStarted uuid string int int int int int
  | EvStopped uuid int
  | EvError uuid string "int option" int
  | EvHealth uuid health_state health_state nat "string option" int
  | EvLog uuid int string string

record llama_manager = slot_state +
  launched :: "uuid \<Rightarrow> int option"
  healthy_servers :: "uuid set"
  server_health :: "uuid \<Rightarrow> health_state option"
  health_failures :: "uuid \<Rightarrow> nat option"
  health_successes :: "uuid \<Rightarrow> nat option"
  health_errors :: "uuid \<Rightarrow> string option option"
  start_times :: "uuid \<Rightarrow> time option"
  log_buffers :: "uuid \<Rightarrow> log_ring option"
  log_forwarding :: bool
  published :: "manager_event list"

definition HEALTH_FAILURE_THRESHOLD :: nat where
  "HEALTH_FAILURE_THRESHOLD = 3"

definition HEALTH_RECOVERY_THRESHOLD :: nat where
  "HEALTH_RECOVERY_THRESHOLD = 2"

definition publish :: "manager_event \<Rightarrow> llama_manager \<Rightarrow> llama_manager" where
  "publish e m = m\<lparr>published := published m @ [e]\<rparr>"

definition process_of :: "uuid \<Rightarrow> llama_manager \<Rightarrow> nat option" where
  "process_of sid m = map_of (servers m) sid"

definition count_of :: "uuid \<Rightarrow> (uuid \<Rightarrow> nat option) \<Rightarrow> nat" where
  "count_of sid f = (case f sid of None \<Rightarrow> 0 | Some n \<Rightarrow> n)"

lemma count_of_upd [simp]: "count_of sid (f(sid \<mapsto> n)) = n"
  by (simp add: count_of_def)

section \<open>Removing a server\<close>

text \<open>The health fields of one server, forgotten together.\<close>

definition forget_health :: "uuid \<Rightarrow> llama_manager \<Rightarrow> llama_manager" where
  "forget_health sid m = m\<lparr>healthy_servers := healthy_servers m - {sid},
     server_health := (server_health m)(sid := None),
     health_failures := (health_failures m)(sid := None),
     health_successes := (health_successes m)(sid := None),
     health_errors := (health_errors m)(sid := None)\<rparr>"

definition forget_process :: "uuid \<Rightarrow> llama_manager \<Rightarrow> llama_manager" where
  "forget_process sid m = m\<lparr>servers := AList.delete sid (servers m),
     configs := (configs m)(sid := None), start_times := (start_times m)(sid := None)\<rparr>"

definition drop_logs :: "uuid \<Rightarrow> llama_manager \<Rightarrow> llama_manager" where
  "drop_logs sid m = m\<lparr>log_buffers := (log_buffers m)(sid := None)\<rparr>"

definition remove_server_state :: "uuid \<Rightarrow> bool \<Rightarrow> llama_manager \<Rightarrow> llama_manager" where
  "remove_server_state sid preserve_logs m =
     (let m1 = forget_health sid (forget_process sid m) in
      if preserve_logs then m1 else drop_logs sid m1)"

section \<open>Health\<close>

definition publish_health_event :: "uuid \<Rightarrow> health_state \<Rightarrow> health_state \<Rightarrow> string option \<Rightarrow> llama_manager \<Rightarrow> llama_manager" where
  "publish_health_event sid previous status err m =
     (case configs m sid of None \<Rightarrow> m
      | Some c \<Rightarrow> publish (EvHealth sid previous status (count_of sid (health_failures m)) err (ec_generation c)) m)"

text \<open>What one answer of the health endpoint changes.\<close>

definition record_health :: "uuid \<Rightarrow> bool \<Rightarrow> string option \<Rightarrow> llama_manager \<Rightarrow> llama_manager" where
  "record_health sid healthy err m =
     (let previous = (case server_health m sid of None \<Rightarrow> Healthy | Some h \<Rightarrow> h) in
      if healthy then
        (let m1 = m\<lparr>health_failures := (health_failures m)(sid \<mapsto> 0),
                    health_successes := (health_successes m)(sid \<mapsto> count_of sid (health_successes m) + 1)\<rparr>
         in if previous = Unhealthy
            then (if count_of sid (health_successes m1) < HEALTH_RECOVERY_THRESHOLD then m1
                  else publish_health_event sid previous Healthy None
                    (m1\<lparr>server_health := (server_health m1)(sid \<mapsto> Healthy),
                        healthy_servers := insert sid (healthy_servers m1)\<rparr>))
            else m1)
      else
        (let m1 = m\<lparr>health_successes := (health_successes m)(sid \<mapsto> 0),
                    health_failures := (health_failures m)(sid \<mapsto> count_of sid (health_failures m) + 1),
                    health_errors := (health_errors m)(sid \<mapsto> err)\<rparr>
         in if previous = Unhealthy then m1
            else if count_of sid (health_failures m1) < HEALTH_FAILURE_THRESHOLD then m1
            else publish_health_event sid previous Unhealthy err
                   (m1\<lparr>server_health := (server_health m1)(sid \<mapsto> Unhealthy),
                       healthy_servers := healthy_servers m1 - {sid}\<rparr>)))"

text \<open>\<open>_monitor_server_health\<close>: \<open>exit_code\<close> is \<open>process.poll()\<close>, \<open>answer\<close> the health check, and
  \<open>env\<close> what happened while it was awaited; a server that changed hands meanwhile is left.\<close>

definition monitor_server_health :: "uuid \<Rightarrow> int option \<Rightarrow> bool \<times> string option
    \<Rightarrow> (llama_manager \<Rightarrow> llama_manager) \<Rightarrow> time \<Rightarrow> task \<Rightarrow> llama_manager \<Rightarrow> llama_manager" where
  "monitor_server_health sid exit_code answer env now cur m =
     (case (process_of sid m, configs m sid) of
        (Some proc, Some c) \<Rightarrow>
          (case exit_code of
             Some code \<Rightarrow> publish (EvError sid (''llama-server exited with code '' @ show_int code)
                 (Some code) (ec_generation c))
                 (remove_server_state sid True (stop_server_operations sid now cur m))
           | None \<Rightarrow> (let m1 = env m in
               if process_of sid m1 \<noteq> Some proc \<or> configs m1 sid \<noteq> Some c then m1
               else record_health sid (fst answer) (snd answer) m1))
      | _ \<Rightarrow> m)"

section \<open>Logs\<close>

definition get_ring :: "uuid \<Rightarrow> llama_manager \<Rightarrow> log_ring" where
  "get_ring sid m = (case log_buffers m sid of None \<Rightarrow> new_ring LOG_BUFFER_LINES | Some r \<Rightarrow> r)"

definition append_log :: "uuid \<Rightarrow> string \<Rightarrow> string \<Rightarrow> llama_manager \<Rightarrow> llama_manager" where
  "append_log sid stream line m =
     (let (e, r) = ring_append stream line (get_ring sid m) in
      publish (EvLog sid (le_seq e) stream line) (m\<lparr>log_buffers := (log_buffers m)(sid \<mapsto> r)\<rparr>))"

text \<open>\<open>_drain_pipes\<close>: \<open>output\<close> is what each pipe holds, stdout first.\<close>

fun drain_pipes :: "uuid \<Rightarrow> (string \<times> string) list \<Rightarrow> llama_manager \<Rightarrow> llama_manager" where
  "drain_pipes sid [] m = m"
| "drain_pipes sid ((stream, raw) # rest) m =
     (if process_of sid m = None \<or> raw = [] then drain_pipes sid rest m
      else drain_pipes sid rest
        (m\<lparr>log_buffers := (log_buffers m)(sid \<mapsto> snd (ring_extend stream raw (get_ring sid m)))\<rparr>))"

record log_reply =
  lr_status :: string
  lr_stdout :: "string list"
  lr_stderr :: "string list"
  lr_entries :: "log_entry list"
  lr_next :: int
  lr_gap :: bool

definition lines_of :: "string \<Rightarrow> log_entry list \<Rightarrow> string list" where
  "lines_of stream es = map le_line (filter (\<lambda>e. le_stream e = stream) es)"

definition log_reply_of :: "uuid \<Rightarrow> llama_manager \<Rightarrow> log_entry list \<Rightarrow> int \<Rightarrow> bool \<Rightarrow> log_reply" where
  "log_reply_of sid m es nxt gap = \<lparr>lr_status = (if process_of sid m \<noteq> None then ''running'' else ''error''),
     lr_stdout = lines_of ''stdout'' es, lr_stderr = lines_of ''stderr'' es, lr_entries = es,
     lr_next = nxt, lr_gap = gap\<rparr>"

definition get_server_logs :: "uuid \<Rightarrow> int \<Rightarrow> int option \<Rightarrow> (string \<times> string) list \<Rightarrow> llama_manager
    \<Rightarrow> log_reply \<times> llama_manager" where
  "get_server_logs sid lines after output m =
     (if process_of sid m = None \<and> log_buffers m sid = None
      then (\<lparr>lr_status = ''stopped'', lr_stdout = [], lr_stderr = [], lr_entries = [], lr_next = 0,
             lr_gap = False\<rparr>, m)
      else let m1 = (if log_forwarding m then m else drain_pipes sid output m);
               r = get_ring sid m1;
               m2 = m1\<lparr>log_buffers := (log_buffers m1)(sid \<mapsto> r)\<rparr>
           in case after of
                Some c \<Rightarrow> (let (es, nxt, gap) = poll_reply r c in (log_reply_of sid m2 es nxt gap, m2))
              | None \<Rightarrow> (log_reply_of sid m2 (ring_tail (lines * 2) r) (last_cursor r) False, m2))"

section \<open>Stopping\<close>

text \<open>The first half up to the wait for the process; None when there is nothing to stop.\<close>

definition stop_begin :: "uuid \<Rightarrow> int option \<Rightarrow> time \<Rightarrow> task \<Rightarrow> llama_manager
    \<Rightarrow> (engine_config \<times> llama_manager) option" where
  "stop_begin sid gen now cur m =
     (case (process_of sid m, configs m sid) of
        (Some proc, Some c) \<Rightarrow>
          if gen \<noteq> None \<and> gen \<noteq> Some (ec_generation c) then None
          else Some (c, stop_server_operations sid now cur m)
      | _ \<Rightarrow> None)"

definition stop_end :: "uuid \<Rightarrow> engine_config \<Rightarrow> llama_manager \<Rightarrow> llama_manager" where
  "stop_end sid c m = publish (EvStopped sid (ec_generation c)) (remove_server_state sid False m)"

definition stop_server :: "uuid \<Rightarrow> int option \<Rightarrow> (llama_manager \<Rightarrow> llama_manager) \<Rightarrow> time \<Rightarrow> task
    \<Rightarrow> llama_manager \<Rightarrow> bool \<times> llama_manager" where
  "stop_server sid gen env now cur m =
     (case stop_begin sid gen now cur m of
        None \<Rightarrow> (False, m)
      | Some (c, m1) \<Rightarrow> (True, stop_end sid c (env m1)))"

section \<open>Starting\<close>

text \<open>The waiting rounds before the deadline: what others did, the exit code of the process (if
  the table still has one), what its pipes hold, and whether the health endpoint answered 200.\<close>

record wait_round =
  wr_env :: "llama_manager \<Rightarrow> llama_manager"
  wr_exit :: "int option"
  wr_output :: "(string \<times> string) list"
  wr_healthy :: bool

datatype wait_end = WaitHealthy | WaitFailed string

definition join_lines :: "string list \<Rightarrow> string" where
  "join_lines ls = (case ls of [] \<Rightarrow> [] | l # rest \<Rightarrow> l @ concat (map (\<lambda>x. CHR 0x0A # x) rest))"

definition exit_message :: "uuid \<Rightarrow> int \<Rightarrow> llama_manager \<Rightarrow> string" where
  "exit_message sid code m =
     (let stderr = (case log_buffers m sid of None \<Rightarrow> []
            | Some r \<Rightarrow> if ring_entries r = [] then [] else lines_of ''stderr'' (ring_tail 100 r));
          detail = join_lines (keep_last 5 stderr);
          message = ''Server '' @ show_nat sid @ '' exited with code '' @ show_int code
      in if detail = [] then message else message @ '': '' @ detail)"

fun wait_for_server :: "uuid \<Rightarrow> wait_round list \<Rightarrow> llama_manager \<Rightarrow> wait_end \<times> llama_manager" where
  "wait_for_server sid [] m = (WaitFailed (''Server '' @ show_nat sid @ '' failed to start''), m)"
| "wait_for_server sid (w # ws) m0 =
     (let m = wr_env w m0 in
      case (process_of sid m, wr_exit w) of
        (Some proc, Some code) \<Rightarrow> (let m1 = drain_pipes sid (wr_output w) m in
             (WaitFailed (exit_message sid code m1), m1))
      | _ \<Rightarrow> if wr_healthy w then (WaitHealthy, m) else wait_for_server sid ws m)"

text \<open>The decision before a process is spawned; a newer generation first stops the older one.\<close>

definition fenced_generation :: "int \<Rightarrow> int \<Rightarrow> bool" where
  "fenced_generation latest gen = ((0 < latest \<or> 0 < gen) \<and> gen \<le> latest)"

definition decide_start :: "uuid \<Rightarrow> engine_config \<Rightarrow> (llama_manager \<Rightarrow> llama_manager) \<Rightarrow> time \<Rightarrow> task
    \<Rightarrow> llama_manager \<Rightarrow> bool \<times> llama_manager" where
  "decide_start sid c env now cur m =
     (let running = (process_of sid m \<noteq> None);
          current = (case configs m sid of None \<Rightarrow> 0 | Some d \<Rightarrow> ec_generation d)
      in if running \<and> ec_generation c \<le> current then (False, m)
         else let m1 = (if running then snd (stop_server sid (Some current) env now cur m) else m);
                  latest = (case launched m1 sid of None \<Rightarrow> -1 | Some g \<Rightarrow> g)
              in (\<not> fenced_generation latest (ec_generation c), m1))"

definition start_failed :: "uuid \<Rightarrow> engine_config \<Rightarrow> string \<Rightarrow> llama_manager \<Rightarrow> llama_manager" where
  "start_failed sid c msg m =
     publish (EvError sid msg None (ec_generation c)) (forget_process sid (forget_health sid m))"

definition spawn_process :: "uuid \<Rightarrow> engine_config \<Rightarrow> nat \<Rightarrow> time \<Rightarrow> llama_manager \<Rightarrow> llama_manager" where
  "spawn_process sid c proc now m = m\<lparr>servers := AList.update sid proc (servers m),
     configs := (configs m)(sid \<mapsto> c), launched := (launched m)(sid \<mapsto> ec_generation c),
     start_times := (start_times m)(sid \<mapsto> now)\<rparr>"

definition mark_healthy :: "uuid \<Rightarrow> llama_manager \<Rightarrow> llama_manager" where
  "mark_healthy sid m = m\<lparr>healthy_servers := insert sid (healthy_servers m),
     server_health := (server_health m)(sid \<mapsto> Healthy),
     health_failures := (health_failures m)(sid \<mapsto> 0),
     health_successes := (health_successes m)(sid \<mapsto> 0),
     health_errors := (health_errors m)(sid \<mapsto> None)\<rparr>"

text \<open>\<open>_start_server_locked\<close>: \<open>spawn\<close> is the process Popen returns or the text of its exception.
  A configuration that vanished during the wait is a KeyError when the capacity is read.\<close>

definition connections_count :: "uuid \<Rightarrow> llama_manager \<Rightarrow> int" where
  "connections_count sid m = (case connections m sid of None \<Rightarrow> 0 | Some n \<Rightarrow> n)"

definition start_server_locked :: "uuid \<Rightarrow> engine_config \<Rightarrow> string + nat \<Rightarrow> wait_round list \<Rightarrow> time
    \<Rightarrow> llama_manager \<Rightarrow> bool \<times> llama_manager" where
  "start_server_locked sid c spawn rounds now m =
     (case spawn of
        Inl msg \<Rightarrow> (False, start_failed sid c msg m)
      | Inr proc \<Rightarrow>
          (case wait_for_server sid rounds (spawn_process sid c proc now m) of
             (WaitFailed msg, m1) \<Rightarrow> (False, start_failed sid c msg m1)
           | (WaitHealthy, m1) \<Rightarrow>
               (let m2 = mark_healthy sid m1 in
                case configs m2 sid of
                  None \<Rightarrow> (False, start_failed sid c (show_nat sid) m2)
                | Some d \<Rightarrow> (True, publish (EvStarted sid (ec_model_path c) (ec_port c) (ec_generation c)
                      (effective_capacity d) (active_count m2 sid) (connections_count sid m2)) m2))))"

definition start_server :: "uuid \<Rightarrow> engine_config \<Rightarrow> (llama_manager \<Rightarrow> llama_manager) \<Rightarrow> string + nat
    \<Rightarrow> wait_round list \<Rightarrow> time \<Rightarrow> task \<Rightarrow> llama_manager \<Rightarrow> bool \<times> llama_manager" where
  "start_server sid c env spawn rounds now cur m =
     (let (go, m1) = decide_start sid c env now cur m in
      if go then start_server_locked sid c spawn rounds now m1 else (False, m1))"

section \<open>Views\<close>

definition server_uptime :: "uuid \<Rightarrow> time \<Rightarrow> llama_manager \<Rightarrow> time" where
  "server_uptime sid now m = (case start_times m sid of None \<Rightarrow> 0 | Some t \<Rightarrow> if t = 0 then 0 else now - t)"

record server_view =
  vw_id :: uuid
  vw_model_path :: string
  vw_port :: int
  vw_health :: "health_state option"
  vw_uptime :: time
  vw_generation :: int
  vw_capacity :: int

record status_view = server_view +
  vw_active :: int
  vw_connections :: int

definition view_of :: "uuid \<Rightarrow> engine_config \<Rightarrow> time \<Rightarrow> llama_manager \<Rightarrow> server_view" where
  "view_of sid c now m = \<lparr>vw_id = sid, vw_model_path = ec_model_path c, vw_port = ec_port c,
     vw_health = server_health m sid, vw_uptime = server_uptime sid now m,
     vw_generation = ec_generation c, vw_capacity = effective_capacity c\<rparr>"

text \<open>\<open>list_servers\<close> raises KeyError for a process without a configuration; the status of a server
  that is not in the process table is ``stopped'' (None), and has the two counts besides.\<close>

fun list_servers_from :: "(uuid \<times> nat) list \<Rightarrow> time \<Rightarrow> llama_manager \<Rightarrow> exn + server_view list" where
  "list_servers_from [] now m = Inr []"
| "list_servers_from ((sid, proc) # rest) now m =
     (case configs m sid of None \<Rightarrow> Inl (KeyError (show_nat sid))
      | Some c \<Rightarrow> (case list_servers_from rest now m of Inl e \<Rightarrow> Inl e
          | Inr vs \<Rightarrow> Inr (view_of sid c now m # vs)))"

definition list_servers :: "time \<Rightarrow> llama_manager \<Rightarrow> exn + server_view list" where
  "list_servers now m = list_servers_from (servers m) now m"

definition get_server_status :: "uuid \<Rightarrow> time \<Rightarrow> llama_manager \<Rightarrow> exn + status_view option" where
  "get_server_status sid now m =
     (if process_of sid m = None then Inr None
      else case configs m sid of None \<Rightarrow> Inl (KeyError (show_nat sid))
      | Some c \<Rightarrow> Inr (Some (server_view.extend (view_of sid c now m)
           (status_view.fields (active_count m sid) (connections_count sid m)))))"

end
