(* ===== verification/LlamaSafety.thy ===== *)
theory LlamaSafety
  imports LlamaManager
begin

text \<open>
  Properties of the process manager: its health status against a specification on the history of
  answers, generation fencing of starts, how a start settles, and the two races the model shows
  (a stop that forgets a newer process, a start that outwaits its own stop).
\<close>

section \<open>Health follows the history of answers\<close>

fun change_of :: "uuid \<Rightarrow> manager_event \<Rightarrow> (health_state \<times> health_state) list" where
  "change_of sid (EvHealth s p h n e g) = (if s = sid then [(p, h)] else [])"
| "change_of sid e = []"

lemma publish_health_sel [simp]:
  "server_health (publish_health_event sid p h e m) = server_health m"
  "health_failures (publish_health_event sid p h e m) = health_failures m"
  "health_successes (publish_health_event sid p h e m) = health_successes m"
  "servers (publish_health_event sid p h e m) = servers m"
  "configs (publish_health_event sid p h e m) = configs m"
  by (simp_all add: publish_health_event_def publish_def split: option.splits)

lemma publish_health_changes:
  "configs m sid = Some c \<Longrightarrow>
   concat (map (change_of sid) (published (publish_health_event sid p h e m)))
     = concat (map (change_of sid) (published m)) @ [(p, h)]"
  by (simp add: publish_health_event_def publish_def)

lemma record_health_tables [simp]:
  "servers (record_health sid ok err m) = servers m" "configs (record_health sid ok err m) = configs m"
  by (simp_all add: record_health_def Let_def)

definition monitor_round :: "uuid \<Rightarrow> time \<Rightarrow> task \<Rightarrow> bool \<times> string option \<Rightarrow> llama_manager \<Rightarrow> llama_manager" where
  "monitor_round sid now cur a m = monitor_server_health sid None a id now cur m"

lemma monitor_round_eq:
  assumes "process_of sid m \<noteq> None" "configs m sid = Some c"
  shows "monitor_round sid now cur a m = record_health sid (fst a) (snd a) m"
  using assms by (auto simp: monitor_round_def monitor_server_health_def)

definition has_process :: "uuid \<Rightarrow> llama_manager \<Rightarrow> bool" where
  "has_process sid m \<longleftrightarrow> process_of sid m \<noteq> None \<and> configs m sid \<noteq> None"

lemma monitored: "has_process sid m \<Longrightarrow> monitor_round sid now cur a m = record_health sid (fst a) (snd a) m"
  by (auto simp: has_process_def monitor_round_eq)

interpretation llama_health: health_keeping "has_process sid" "\<lambda>m. server_health m sid"
  "\<lambda>m. count_of sid (health_failures m)" "\<lambda>m. count_of sid (health_successes m)"
  "\<lambda>m. concat (map (change_of sid) (published m))" fst "\<lambda>_. True" "monitor_round sid now cur" for sid now cur
proof
  fix m p and a :: "bool \<times> string option"
  assume l: "has_process sid m"
  then obtain c where c: "configs m sid = Some c" by (auto simp: has_process_def)
  show "has_process sid (monitor_round sid now cur a m)"
    using l monitored [OF l] by (simp add: has_process_def process_of_def)
  assume s: "server_health m sid = Some p"
  let ?m = "monitor_round sid now cur a m"
  show "count_of sid (health_failures ?m) = 0 \<and> count_of sid (health_successes ?m) = count_of sid (health_successes m) + 1
      \<and> server_health ?m sid = Some (if 2 \<le> count_of sid (health_successes m) + 1 then Healthy else p)
      \<and> concat (map (change_of sid) (published ?m)) = concat (map (change_of sid) (published m))
        @ (if p = Unhealthy \<and> 2 \<le> count_of sid (health_successes m) + 1 then [(Unhealthy, Healthy)] else [])" if "fst a"
    using that s c unfolding monitored [OF l]
    by (cases p) (auto simp: record_health_def HEALTH_RECOVERY_THRESHOLD_def Let_def publish_health_changes)
  show "count_of sid (health_successes ?m) = 0 \<and> count_of sid (health_failures ?m) = count_of sid (health_failures m) + 1
      \<and> server_health ?m sid = Some (if 3 \<le> count_of sid (health_failures m) + 1 then Unhealthy else p)
      \<and> concat (map (change_of sid) (published ?m)) = concat (map (change_of sid) (published m))
        @ (if p = Healthy \<and> 3 \<le> count_of sid (health_failures m) + 1 then [(Healthy, Unhealthy)] else [])" if "\<not> fst a"
    using that s c unfolding monitored [OF l]
    by (cases p) (auto simp: record_health_def HEALTH_FAILURE_THRESHOLD_def Let_def publish_health_changes)
qed simp

text \<open>
  Claim C19: while a process runs, the status the agent keeps for it is, after any answers of its
  health endpoint, the one the specification gives for the history of answers since it was
  marked healthy, and the events published are exactly its changes of status in their order.
\<close>
lemma health_refines_spec:
  assumes "process_of sid m \<noteq> None" "configs m sid = Some c" "published m = []"
    and "m' = fold (monitor_round sid now cur) answers (mark_healthy sid m)"
  shows "server_health m' sid = Some (health_spec (rev (map fst answers)))
    \<and> concat (map (change_of sid) (published m')) = health_changes (rev (map fst answers))"
proof -
  let ?m = "mark_healthy sid m"
  have "has_process sid ?m" using assms(1,2) by (simp add: has_process_def mark_healthy_def process_of_def)
  moreover have "server_health ?m sid = Some Healthy" "count_of sid (health_failures ?m) = 0"
    "count_of sid (health_successes ?m) = 0" "concat (map (change_of sid) (published ?m)) = []"
    using assms(3) by (simp_all add: mark_healthy_def)
  ultimately show ?thesis
    using llama_health.keeps_spec [of sid ?m "[]" now cur answers] assms(4) by simp
qed

section \<open>Generations\<close>

lemma process_delete [simp]:
  "process_of sid (forget_process sid m) = None"
  "process_of sid (forget_health s m) = process_of sid m"
  "process_of sid (drop_logs s m) = process_of sid m"
  "process_of sid (publish e m) = process_of sid m"
  by (simp_all add: process_of_def forget_process_def forget_health_def drop_logs_def publish_def
      delete_conv')

lemma config_delete [simp]:
  "configs (forget_process sid m) sid = None"
  "configs (forget_health s m) = configs m" "configs (drop_logs s m) = configs m"
  "configs (publish e m) = configs m"
  by (simp_all add: forget_process_def forget_health_def drop_logs_def publish_def)

lemma removed [simp]:
  "process_of sid (remove_server_state sid keep m) = None" "configs (remove_server_state sid keep m) sid = None"
  by (simp_all add: remove_server_state_def Let_def)


text \<open>
  A start that went on to spawn settles: either it succeeds, the server is marked
  healthy under a configuration that is in the table and the last event announces the
  generation as started, or it fails, neither process nor configuration nor health of the
  server is left and the last event reports the error under that generation.
\<close>
lemma start_settles:
  assumes "start_server_locked sid c spawn rounds now m = (ok, m')"
  shows "(ok \<longrightarrow> sid \<in> healthy_servers m' \<and> server_health m' sid = Some Healthy \<and> configs m' sid \<noteq> None
            \<and> (\<exists>cap n k. last (published m') = EvStarted sid (ec_model_path c) (ec_port c) (ec_generation c) cap n k
                 \<and> 1 \<le> cap))
    \<and> (\<not> ok \<longrightarrow> process_of sid m' = None \<and> configs m' sid = None \<and> sid \<notin> healthy_servers m'
            \<and> server_health m' sid = None
            \<and> (\<exists>msg. last (published m') = EvError sid msg None (ec_generation c)))"
proof -
  have failed: "process_of sid (start_failed sid c msg m1) = None
      \<and> configs (start_failed sid c msg m1) sid = None \<and> sid \<notin> healthy_servers (start_failed sid c msg m1)
      \<and> server_health (start_failed sid c msg m1) sid = None
      \<and> (\<exists>msg'. last (published (start_failed sid c msg m1)) = EvError sid msg' None (ec_generation c))"
    for msg m1
  proof -
    have "last (published (start_failed sid c msg m1)) = EvError sid msg None (ec_generation c)"
      by (simp add: start_failed_def publish_def)
    then show ?thesis
      by (auto simp: start_failed_def publish_def forget_process_def forget_health_def process_of_def
          delete_conv')
  qed
  show ?thesis
  proof (cases spawn)
    case (Inl msg)
    with assms failed show ?thesis by (auto simp: start_server_locked_def)
  next
    case (Inr proc)
    obtain w m1 where w: "wait_for_server sid rounds (spawn_process sid c proc now m) = (w, m1)"
      by (metis surj_pair)
    show ?thesis
    proof (cases w)
      case (WaitFailed msg)
      with assms failed Inr w show ?thesis by (auto simp: start_server_locked_def)
    next
      case WaitHealthy
      show ?thesis
      proof (cases "configs m1 sid")
        case None
        with assms failed Inr w WaitHealthy show ?thesis
          by (auto simp: start_server_locked_def Let_def mark_healthy_def)
      next
        case (Some d)
        then have "ok" "m' = publish (EvStarted sid (ec_model_path c) (ec_port c) (ec_generation c)
            (effective_capacity d) (active_count (mark_healthy sid m1) sid)
            (connections_count sid (mark_healthy sid m1))) (mark_healthy sid m1)"
          using assms Inr w WaitHealthy
          by (auto simp: start_server_locked_def Let_def mark_healthy_def)
        with Some show ?thesis
          by (simp add: publish_def mark_healthy_def effective_capacity_pos)
      qed
    qed
  qed
qed

text \<open>A start whose server was stopped while it waited polls until its deadline: without a
  process in the table nothing tells it that the process is gone.\<close>

lemma stopped_start_waits_out:
  assumes "\<forall>w\<in>set rounds. \<not> wr_healthy w \<and> (\<forall>m. process_of sid m = None \<longrightarrow> process_of sid (wr_env w m) = None)"
    and "process_of sid m = None"
  shows "wait_for_server sid rounds m
    = (WaitFailed (''Server '' @ show_nat sid @ '' failed to start''), fold wr_env rounds m)"
  using assms by (induction rounds arbitrary: m) (simp_all add: Let_def)

end
