(* ===== verification/EventBus.thy ===== *)
theory EventBus
  imports Prelude "HOL-Library.Sublist"
begin

text \<open>
  The event bus of the agent (\<open>src/agent/app/services/event_bus.py\<close>): a bounded replay buffer
  and one bounded queue per subscriber. \<open>bus_publish\<close> follows \<open>publish_event\<close>: on the event loop
  the event is fanned out at once, from a worker thread it is handed to the loop that owns the
  subscribers (\<open>handed_over\<close>, run by \<open>bus_callback\<close>), and with no open loop it only reaches the
  buffer. A full queue drops the event.
\<close>

section \<open>State and operations\<close>

datatype loop_state = NoLoop | LoopOpen | LoopClosed

record 'e event_bus =
  bus_events :: "'e list"
  subscribers :: "(nat \<times> 'e list) list"
  bus_loop :: loop_state
  handed_over :: "'e list"

definition WS_MAX_BUFFER_EVENTS :: nat where
  "WS_MAX_BUFFER_EVENTS = 1000"

definition empty_bus :: "'e event_bus" where
  "empty_bus = \<lparr>bus_events = [], subscribers = [], bus_loop = NoLoop, handed_over = []\<rparr>"

text \<open>\<open>EventBuffer.add\<close>\<close>

definition buffer_add :: "nat \<Rightarrow> 'e \<Rightarrow> 'e list \<Rightarrow> 'e list" where
  "buffer_add n e es = push_last n e es"

definition bus_subscribe :: "nat \<Rightarrow> 'e event_bus \<Rightarrow> 'e event_bus" where
  "bus_subscribe q b = b\<lparr>bus_loop := LoopOpen, subscribers := AList.update q [] (subscribers b)\<rparr>"

definition bus_unsubscribe :: "nat \<Rightarrow> 'e event_bus \<Rightarrow> 'e event_bus" where
  "bus_unsubscribe q b = b\<lparr>subscribers := AList.delete q (subscribers b)\<rparr>"

definition queue_put :: "nat \<Rightarrow> 'e \<Rightarrow> 'e list \<Rightarrow> 'e list" where
  "queue_put n e es = (if n \<le> length es then es else es @ [e])"

definition bus_fanout :: "nat \<Rightarrow> 'e \<Rightarrow> 'e event_bus \<Rightarrow> 'e event_bus" where
  "bus_fanout n e b = b\<lparr>bus_events := buffer_add n e (bus_events b),
     subscribers := map (\<lambda>(q, es). (q, queue_put n e es)) (subscribers b)\<rparr>"

definition bus_publish :: "nat \<Rightarrow> bool \<Rightarrow> 'e \<Rightarrow> 'e event_bus \<Rightarrow> 'e event_bus" where
  "bus_publish n on_loop e b =
     (if on_loop then bus_fanout n e b
      else if bus_loop b = LoopOpen then b\<lparr>handed_over := handed_over b @ [e]\<rparr>
      else b\<lparr>bus_events := buffer_add n e (bus_events b)\<rparr>)"

text \<open>One callback the loop runs, and \<open>queue.get()\<close> of the WebSocket sender.\<close>

definition bus_callback :: "nat \<Rightarrow> 'e event_bus \<Rightarrow> 'e event_bus" where
  "bus_callback n b = (case handed_over b of [] \<Rightarrow> b
     | e # es \<Rightarrow> bus_fanout n e (b\<lparr>handed_over := es\<rparr>))"

definition queue_get :: "nat \<Rightarrow> 'e event_bus \<Rightarrow> 'e option \<times> 'e event_bus" where
  "queue_get q b = (case map_of (subscribers b) q of
       Some (e # es) \<Rightarrow> (Some e, b\<lparr>subscribers := AList.update q es (subscribers b)\<rparr>)
     | _ \<Rightarrow> (None, b))"

section \<open>Runs\<close>

datatype 'e bus_cmd = BusPublish bool 'e | BusCallback | BusGet nat

definition bus_exec :: "nat \<Rightarrow> 'e bus_cmd \<Rightarrow> 'e event_bus \<Rightarrow> 'e event_bus" where
  "bus_exec n c b = (case c of BusPublish on_loop e \<Rightarrow> bus_publish n on_loop e b
     | BusCallback \<Rightarrow> bus_callback n b
     | BusGet q \<Rightarrow> snd (queue_get q b))"

text \<open>What a command fans out, and what it hands to the reader of queue \<open>q\<close>.\<close>

definition fanned :: "'e bus_cmd \<Rightarrow> 'e event_bus \<Rightarrow> 'e list" where
  "fanned c b = (case c of BusPublish on_loop e \<Rightarrow> if on_loop then [e] else []
     | BusCallback \<Rightarrow> take 1 (handed_over b) | BusGet q \<Rightarrow> [])"

definition got :: "nat \<Rightarrow> 'e bus_cmd \<Rightarrow> 'e event_bus \<Rightarrow> 'e list" where
  "got q c b = (case c of BusGet q' \<Rightarrow>
       if q' = q then (case fst (queue_get q b) of None \<Rightarrow> [] | Some e \<Rightarrow> [e]) else []
     | _ \<Rightarrow> [])"

fun bus_run :: "nat \<Rightarrow> nat \<Rightarrow> 'e bus_cmd list \<Rightarrow> 'e event_bus \<Rightarrow> 'e event_bus \<times> 'e list \<times> 'e list" where
  "bus_run n q [] b = (b, [], [])"
| "bus_run n q (c # cs) b =
     (let (b', sent, read) = bus_run n q cs (bus_exec n c b)
      in (b', fanned c b @ sent, got q c b @ read))"

lemma map_of_map_queue:
  "map_of (map (\<lambda>(q, es). (q, f es)) xs) q = map_option f (map_of xs q)"
  by (induction xs) auto

lemma queue_after:
  assumes "map_of (subscribers b) q = Some es"
  shows "\<exists>es'. map_of (subscribers (bus_exec n c b)) q = Some es'
    \<and> subseq (got q c b @ es') (es @ fanned c b)"
proof (cases c)
  case (BusPublish on_loop e)
  then show ?thesis using assms
    by (auto simp: bus_exec_def bus_publish_def bus_fanout_def map_of_map_queue got_def fanned_def
        queue_put_def)
next
  case BusCallback
  then show ?thesis using assms
    by (auto simp: bus_exec_def bus_callback_def bus_fanout_def map_of_map_queue got_def fanned_def
        queue_put_def split: list.splits)
next
  case (BusGet p)
  then show ?thesis using assms
    by (cases "p = q"; cases es)
      (auto simp: bus_exec_def queue_get_def got_def fanned_def update_conv' split: list.splits option.splits)
qed

lemma bus_run_ordered:
  assumes "map_of (subscribers b) q = Some es" "bus_run n q cs b = (b', sent, read)"
  shows "\<exists>rest. map_of (subscribers b') q = Some rest \<and> subseq (read @ rest) (es @ sent)"
  using assms
proof (induction cs arbitrary: b es sent read b')
  case Nil
  then show ?case by simp
next
  case (Cons c cs)
  obtain b1 s1 r1 where run: "bus_run n q cs (bus_exec n c b) = (b1, s1, r1)" by (metis prod_cases3)
  obtain es' where es': "map_of (subscribers (bus_exec n c b)) q = Some es'"
      "subseq (got q c b @ es') (es @ fanned c b)"
    using queue_after [OF Cons.prems(1)] by blast
  obtain rest where rest: "map_of (subscribers b1) q = Some rest" "subseq (r1 @ rest) (es' @ s1)"
    using Cons.IH [OF es'(1) run] by blast
  have "subseq (got q c b @ r1 @ rest) (got q c b @ es' @ s1)"
    using rest(2) by (simp add: list_emb_append_mono)
  moreover have "subseq ((got q c b @ es') @ s1) ((es @ fanned c b) @ s1)"
    by (rule list_emb_append_mono [OF es'(2) subseq_order.order_refl])
  ultimately have "subseq (got q c b @ r1 @ rest) (es @ fanned c b @ s1)"
    using subseq_order.order_trans by fastforce
  with rest(1) run Cons.prems(2) show ?case by auto
qed

text \<open>The buffer is the last \<open>n\<close> of everything added to it.\<close>

lemma buffer_fold:
  "0 < n \<Longrightarrow> fold (buffer_add n) es [] = keep_last n es"
  using push_last_fold [of n es "[]"] by (simp add: buffer_add_def [abs_def] keep_last_def)

end
