(* ===== verification/AgentExamples.thy ===== *)
theory AgentExamples
  imports ProxyRoutes LlamaSafety EventBus
begin

text \<open>
  Worked examples of the agent side: one server with a single slot, a reservation on it, a call
  and a start, at which the theorems of the log feed, the slots, the proxy and the process
  manager are applied; and the runs that show what the code does not cover: a slot lost by a
  request that comes in while its server stops, a stop that forgets a newer process, and a
  capacity that is not the one passed to the engine.
\<close>

section \<open>A server with one slot\<close>

definition demo_config :: "int \<Rightarrow> int \<Rightarrow> engine_config" where
  "demo_config par g = \<lparr>ec_model_path = ''/m'', ec_port = 1, ec_gpu_layers = 0, ec_context_size = 0,
     ec_batch_size = 0, ec_cache_prompt = True, ec_flash_attn = None, ec_mtp_draft_max = None,
     ec_jinja = False, ec_mmproj_path = None, ec_draft_model_path = None,
     ec_options = Some [(''parallel'', OptInt par)], ec_generation = g\<rparr>"

definition demo_idle :: slot_state where
  "demo_idle = \<lparr>servers = [(0, 7)], configs = Map.empty(0 \<mapsto> demo_config 1 3), operations = [],
     active_requests = Map.empty, slot_conditions = False, connections = Map.empty,
     cancelled_tasks = [], done_tasks = []\<rparr>"

definition demo_reserve :: slot_cmd where
  "demo_reserve = CmdReserve 0 5 3 (Some 9) 0 1 2"

definition demo_consume :: slot_cmd where
  "demo_consume = CmdConsume 0 5 3 (Some 9) 1"

definition demo_reserved :: slot_state where
  "demo_reserved = slot_exec demo_reserve demo_idle"

section \<open>Slots and operations\<close>

lemma dispatched_once_witness:
  "fst (consume_inference_slot 0 5 3 (Some 9) 4 (slot_exec demo_consume demo_reserved)) \<noteq> Inr True
    \<and> fst (try_reserve_inference_slot 0 5 3 (Some 9) 0 4 6 (slot_exec demo_consume demo_reserved)) \<noteq> Inr True
    \<and> fst (connection_register 0 (Some 5) None 0 4 (slot_exec demo_consume demo_reserved)) \<noteq> None"
proof (rule dispatched_once [of 0 5 3 "Some 9" 1 demo_reserved "[]"])
  show "fst (consume_inference_slot 0 5 3 (Some 9) 1 demo_reserved) = Inr True" by code_simp
  show "retained 5 [] (slot_exec (CmdConsume 0 5 3 (Some 9) 1) demo_reserved)" by code_simp
qed (simp add: demo_consume_def)

definition demo_slots :: "slot list" where
  "demo_slots = [(0, Some 5, 3)]"

lemma demo_reach: "slot_reach demo_reserved demo_slots"
proof -
  have "slot_reach demo_idle []"
    by (rule slot_start) (simp_all add: demo_idle_def)
  then have "slot_reach (slot_exec demo_reserve demo_idle) (slots_after demo_reserve demo_idle [])"
    by (rule slot_next) (simp add: demo_reserve_def)
  moreover have "slots_after demo_reserve demo_idle [] = demo_slots" by code_simp
  ultimately show ?thesis by (simp add: demo_reserved_def)
qed


definition demo_started :: slot_state where
  "demo_started = projr (start_operation 6 0 3 0 1 demo_reserved)"

lemma start_evicts_finished_witness:
  "op_lookup demo_started 5 = op_lookup demo_reserved 5
    \<and> length (operations demo_started) \<le> max MAX_RETAINED_OPERATIONS
         (1 + length (filter (\<lambda>p. live_status (op_status (snd p))) (operations demo_reserved)))"
proof -
  have "distinct (map fst (operations demo_reserved))" by code_simp
  moreover have "\<not> isl (start_operation 6 0 3 0 1 demo_reserved)" by code_simp
  then have "start_operation 6 0 3 0 1 demo_reserved = Inr demo_started"
    by (simp add: demo_started_def)
  moreover obtain op where "op_lookup demo_reserved 5 = Some op" "live_status (op_status op)"
  proof
    show "op_lookup demo_reserved 5 = Some (the (op_lookup demo_reserved 5))" by code_simp
    show "live_status (op_status (the (op_lookup demo_reserved 5)))" by code_simp
  qed
  ultimately show ?thesis using start_evicts_finished [of demo_reserved 6 0 3 0 1 demo_started] by simp
qed

definition demo_leak :: "slot_cmd list" where
  "demo_leak = [CmdStopOps 0 0 1, demo_reserve, demo_consume, CmdRemove 0,
     CmdInstall 0 (demo_config 1 4), CmdFinished 0 (Some 5) CallCompleted 3 0 1]"

definition demo_leaked :: slot_state where
  "demo_leaked = fold slot_exec demo_leak demo_idle"

text \<open>
  A request that reserves and dispatches while its server is being stopped, after the stop has
  settled the operations, holds a slot of the old generation: once a newer process runs, the end
  of the call does not give that slot back, no operation is live, and the only slot of the new
  process can never be reserved again.
\<close>
lemma slot_lost_in_stop_window:
  "active_count demo_leaked 0 = 1 \<and> list_all (\<lambda>(k, op). \<not> live_status (op_status op)) (operations demo_leaked)
    \<and> map_option ec_generation (configs demo_leaked 0) = Some 4
    \<and> fst (try_reserve_inference_slot 0 6 4 (Some 8) 0 1 2 demo_leaked) = Inr False"
  by code_simp

section \<open>Calls\<close>

definition demo_call :: call where
  "demo_call = \<lparr>ca_server = 0, ca_path = ''/v1/responses'', ca_expected = Some 3, ca_enforce = True,
     ca_reserved = True, ca_operation = Some 5, ca_now = 0, ca_task = 1\<rparr>"

definition demo_dispatched :: slot_state where
  "demo_dispatched = slot_exec demo_consume demo_reserved"

text \<open>A connection that fails, then one on which the answer stops coming.\<close>

definition demo_attempts :: "attempt list" where
  "demo_attempts = [\<lparr>at_env = id, at_result = ConnectFails\<rparr>,
     \<lparr>at_env = id, at_result = Answer 200 [] EndReadTimeout\<rparr>, \<lparr>at_env = id, at_result = Answer 200 [''x''] EndOfBody\<rparr>]"

lemma reserved_never_replayed_witness:
  "case proxy_request demo_call [] demo_attempts demo_dispatched of (e, s, res, m') \<Rightarrow>
     cs_attempts s \<le> 8 \<and> calls_made demo_attempts s \<le> 1"
  using reserved_never_replayed [where p = demo_call and ws = "[]" and as = demo_attempts and m = demo_dispatched]
  by (auto simp: demo_call_def split: prod.splits)

definition demo_request :: "call_end \<times> call_state \<times> slot_reservation \<times> slot_state" where
  "demo_request = proxy_request demo_call [] demo_attempts demo_dispatched"

lemma demo_request_end: "fst demo_request = CallRaised ReadTimeout"
  by code_simp

lemma connections_restored_witness:
  "connections (snd (snd (snd demo_request))) = connections demo_dispatched \<and> \<not> cs_opened (fst (snd demo_request))"
proof (rule connections_restored [of demo_call "[]" demo_attempts demo_dispatched "fst demo_request" _
      "fst (snd (snd demo_request))" _ id])
  show "proxy_request demo_call [] demo_attempts demo_dispatched =
      (fst demo_request, fst (snd demo_request), fst (snd (snd demo_request)), snd (snd (snd demo_request)))
    \<or> proxy_stream id demo_call [] demo_attempts demo_dispatched =
      (fst demo_request, fst (snd demo_request), fst (snd (snd demo_request)), snd (snd (snd demo_request)))"
    by (simp add: demo_request_def)
  show "fst demo_request \<noteq> CallPending" by (simp add: demo_request_end)
  have "connections demo_dispatched 0 = None" by code_simp
  then show "\<forall>n. connections demo_dispatched (ca_server demo_call) = Some n \<longrightarrow> 0 < n"
    by (simp add: demo_call_def)
qed (simp_all add: demo_attempts_def)

definition demo_http :: proxy_http where
  "demo_http = \<lparr>ph_method = ''POST'', ph_path = ''v1/responses'', ph_body = None, ph_generation = Some 3,
     ph_request_id = Some 5, ph_reservation = Some 5, ph_reservation_id = Some 9\<rparr>"

lemma demo_forwarded:
  "fst (route_request ''llamacpp'' 0 demo_http 0 1 demo_reserved) = Forward False (forward_call 0 demo_http 0 1) None"
  by code_simp

lemma forwarded_reservation_owned_witness:
  "inference_path (ph_path demo_http) \<and> ca_operation (forward_call 0 demo_http 0 1) = Some 5
    \<and> ca_reserved (forward_call 0 demo_http 0 1)
    \<and> (\<exists>c op token. configs demo_reserved 0 = Some c \<and> ph_generation demo_http = Some (ec_generation c)
         \<and> ph_reservation_id demo_http = Some token
         \<and> op_lookup demo_reserved 5 = Some op \<and> op_status op = OpReserved \<and> op_server op = 0
         \<and> op_generation op = ec_generation c \<and> op_reservation op = Some token
         \<and> op_lookup (snd (route_request ''llamacpp'' 0 demo_http 0 1 demo_reserved)) 5
             = Some (op\<lparr>op_status := OpActive, op_dispatched := True, op_task := Some 1\<rparr>))"
  by (rule forwarded_reservation_owned [OF pair_fst [OF demo_forwarded]]) (simp add: demo_http_def)

section \<open>Processes\<close>

lemma capacity_is_passed_witness:
  "sublist [''--parallel'', show_int (effective_capacity (demo_config 4 3))] (llama_command ''llama'' (demo_config 4 3))"
  by (rule capacity_is_passed) (simp add: demo_config_def options_of_def)

text \<open>With the option at zero the agent reports one slot and passes zero.\<close>

lemma capacity_not_passed:
  "effective_capacity (demo_config 0 3) = 1
    \<and> sublist [''--parallel'', ''0''] (llama_command ''llama'' (demo_config 0 3))
    \<and> \<not> sublist [''--parallel'', ''1''] (llama_command ''llama'' (demo_config 0 3))"
  by code_simp

definition demo_manager :: "(uuid \<times> nat) list \<Rightarrow> (uuid \<Rightarrow> engine_config option) \<Rightarrow> llama_manager" where
  "demo_manager ps cs = \<lparr>servers = ps, configs = cs, operations = [],
     active_requests = Map.empty, slot_conditions = False, connections = Map.empty,
     cancelled_tasks = [], done_tasks = [], launched = Map.empty, healthy_servers = {},
     server_health = Map.empty, health_failures = Map.empty, health_successes = Map.empty,
     health_errors = Map.empty, start_times = Map.empty, log_buffers = Map.empty,
     log_forwarding = True, published = []\<rparr>"

definition demo_running :: llama_manager where
  "demo_running = demo_manager [(0, 7)] (Map.empty(0 \<mapsto> demo_config 1 3))"

definition demo_health :: "(bool \<times> string option) list" where
  "demo_health = [(False, None), (False, None), (False, None), (True, None), (True, None)]"

lemma health_refines_spec_witness:
  "server_health (fold (monitor_round 0 0 1) demo_health (mark_healthy 0 demo_running)) 0
     = Some (health_spec (rev (map fst demo_health)))
   \<and> concat (map (change_of 0) (published (fold (monitor_round 0 0 1) demo_health (mark_healthy 0 demo_running))))
     = health_changes (rev (map fst demo_health))"
  by (rule health_refines_spec [where c = "demo_config 1 3"])
    (simp_all add: demo_running_def demo_manager_def process_of_def)

definition demo_cleared :: llama_manager where
  "demo_cleared = snd (decide_start 0 (demo_config 1 4) id 0 1 demo_running)"

lemma demo_decides: "decide_start 0 (demo_config 1 4) id 0 1 demo_running = (True, demo_cleared)"
  unfolding demo_cleared_def by (rule pair_fst) code_simp


text \<open>The process answers in its second round.\<close>

definition demo_rounds :: "wait_round list" where
  "demo_rounds = [\<lparr>wr_env = id, wr_exit = None, wr_output = [], wr_healthy = False\<rparr>,
     \<lparr>wr_env = id, wr_exit = None, wr_output = [], wr_healthy = True\<rparr>]"

definition demo_up :: llama_manager where
  "demo_up = snd (start_server_locked 0 (demo_config 1 3) (Inr 7) demo_rounds 0 (demo_manager [] Map.empty))"

lemma demo_starts:
  "start_server_locked 0 (demo_config 1 3) (Inr 7) demo_rounds 0 (demo_manager [] Map.empty) = (True, demo_up)"
  unfolding demo_up_def by (rule pair_fst) code_simp

lemma start_settles_witness:
  "0 \<in> healthy_servers demo_up \<and> server_health demo_up 0 = Some Healthy \<and> configs demo_up 0 \<noteq> None
    \<and> (\<exists>cap n k. last (published demo_up) = EvStarted 0 (ec_model_path (demo_config 1 3))
         (ec_port (demo_config 1 3)) (ec_generation (demo_config 1 3)) cap n k \<and> 1 \<le> cap)"
  by (rule start_settles [OF demo_starts, THEN conjunct1, rule_format, OF TrueI])

text \<open>
  While a stop waits for its process, that process is found dead and a newer generation is
  started; when the stop goes on it forgets the newer process, although it announces the end of
  the old generation.
\<close>

definition demo_restart :: "llama_manager \<Rightarrow> llama_manager" where
  "demo_restart m = spawn_process 0 (demo_config 1 4) 8 0 (remove_server_state 0 True m)"

lemma stop_forgets_newer_process:
  "process_of 0 (demo_restart demo_running) = Some 8
    \<and> process_of 0 (snd (stop_server 0 (Some 3) demo_restart 0 1 demo_running)) = None
    \<and> configs (snd (stop_server 0 (Some 3) demo_restart 0 1 demo_running)) 0 = None
    \<and> last (published (snd (stop_server 0 (Some 3) demo_restart 0 1 demo_running))) = EvStopped 0 3"
  by (simp add: stop_server_def stop_begin_def stop_end_def demo_restart_def demo_running_def demo_manager_def
      process_of_def demo_config_def) (simp add: remove_server_state_def forget_health_def forget_process_def
      drop_logs_def publish_def spawn_process_def stop_server_operations_def)

section \<open>Logs\<close>

lemma poll_lossless_witness:
  "[entry_at 0 (''stdout'', ''a''), entry_at 1 (''stderr'', ''b'')] =
     take (nat 2) (entries_of (concat [[(''stdout'', ''a''), (''stderr'', ''b'')]]))
   \<and> 0 \<le> (2 :: int) \<and> 2 \<le> int (length (concat [[(''stdout'', ''a''), (''stderr'', ''b'')]]))"
proof (rule poll_lossless)
  show "poll_run push_line poll_reply (new_ring LOG_BUFFER_LINES) 0 [[(''stdout'', ''a''), (''stderr'', ''b'')]]
      = ([entry_at 0 (''stdout'', ''a''), entry_at 1 (''stderr'', ''b'')], 2, False)"
    by code_simp
qed

end
