(* ===== verification/Scripts.thy ===== *)
theory Scripts
  imports Prelude
begin

text \<open>
  Coroutines as functions on the record of what they did so far: a script returns a value or
  raises, with the record either way. Triples with a normal and an exceptional postcondition
  reason about them. The two streaming routes (\<open>ResponseRun\<close>, \<open>ChatStream\<close>) and the socket are
  written as scripts over records of their own; the reading of lines of server-sent events is
  shared by them.
\<close>

section \<open>Scripts\<close>

type_synonym ('s, 'a) prog = "'s \<Rightarrow> (exn + 'a) \<times> 's"

text \<open>How an await ends, and what the engine sends.\<close>

datatype answer = Answered | Threw exn

datatype upstream = Idle | Line string | Broke exn

definition give :: "'a \<Rightarrow> ('s, 'a) prog" where
  "give x r = (Inr x, r)"

definition throw :: "exn \<Rightarrow> ('s, 'a) prog" where
  "throw e r = (Inl e, r)"

definition and_then :: "('s, 'a) prog \<Rightarrow> ('a \<Rightarrow> ('s, 'b) prog) \<Rightarrow> ('s, 'b) prog" where
  "and_then m k r = (case m r of (Inl e, r') \<Rightarrow> (Inl e, r') | (Inr x, r') \<Rightarrow> k x r')"

definition change :: "('s \<Rightarrow> 's) \<Rightarrow> ('s, unit) prog" where
  "change f r = (Inr (), f r)"

definition await_answer :: "answer \<Rightarrow> ('s, unit) prog" where
  "await_answer a = (case a of Answered \<Rightarrow> give () | Threw e \<Rightarrow> throw e)"

definition lift_res :: "exn + 'a \<Rightarrow> ('s, 'a) prog" where
  "lift_res m = (case m of Inl e \<Rightarrow> throw e | Inr x \<Rightarrow> give x)"

text \<open>\<open>finally\<close>: what it raises replaces the result.\<close>

definition finally_do :: "('s, unit) prog \<Rightarrow> exn + 'a \<Rightarrow> ('s, 'a) prog" where
  "finally_do m res = and_then m (\<lambda>_. lift_res res)"

text \<open>The classes caught by \<open>except Exception\<close>.\<close>

definition is_exception :: "exn \<Rightarrow> bool" where
  "is_exception e \<longleftrightarrow> e \<notin> {GeneratorExit, CancelledError, InferenceRequestCancelled}"

fun deliver_all :: "('f \<Rightarrow> ('s, unit) prog) \<Rightarrow> 'f list \<Rightarrow> ('s, unit) prog" where
  "deliver_all deliver [] = give ()"
| "deliver_all deliver (f # fs) = and_then (deliver f) (\<lambda>_. deliver_all deliver fs)"

section \<open>Lines of server-sent events\<close>

text \<open>\<open>str.isspace\<close> on the characters up to code 255, \<open>lstrip\<close> and \<open>strip\<close>.\<close>

definition is_space :: "char \<Rightarrow> bool" where
  "is_space c \<longleftrightarrow> (let n = of_char c :: nat in 9 \<le> n \<and> n \<le> 13 \<or> 28 \<le> n \<and> n \<le> 32 \<or> n = 133 \<or> n = 160)"

definition lstrip :: "string \<Rightarrow> string" where
  "lstrip s = dropWhile is_space s"

definition strip :: "string \<Rightarrow> string" where
  "strip s = rev (dropWhile is_space (rev (dropWhile is_space s)))"

text \<open>\<open>split(sep)\<close> and \<open>sep.join\<close>.\<close>

fun split_on :: "char \<Rightarrow> string \<Rightarrow> string list" where
  "split_on sep [] = [[]]"
| "split_on sep (c # cs) = (if c = sep then [] # split_on sep cs
     else (case split_on sep cs of [] \<Rightarrow> [[c]] | w # ws \<Rightarrow> (c # w) # ws))"

fun join_with :: "char \<Rightarrow> string list \<Rightarrow> string" where
  "join_with sep [] = []"
| "join_with sep [w] = w"
| "join_with sep (w # ws) = w @ sep # join_with sep ws"

definition sse_data :: "string \<Rightarrow> string option" where
  "sse_data line = (if take 5 line = ''data:'' then Some (lstrip (drop 5 line)) else None)"

section \<open>Triples\<close>

definition hoare :: "('s \<Rightarrow> bool) \<Rightarrow> ('s, 'a) prog \<Rightarrow> ('a \<Rightarrow> 's \<Rightarrow> bool) \<Rightarrow> (exn \<Rightarrow> 's \<Rightarrow> bool) \<Rightarrow> bool" where
  "hoare P m Q E \<longleftrightarrow> (\<forall>r. P r \<longrightarrow> (case m r of (Inr a, r') \<Rightarrow> Q a r' | (Inl e, r') \<Rightarrow> E e r'))"

lemma hoare_give [intro]: "(\<And>r. P r \<Longrightarrow> Q a r) \<Longrightarrow> hoare P (give a) Q E"
  by (simp add: hoare_def give_def)

lemma hoare_throw [intro]: "(\<And>r. P r \<Longrightarrow> E e r) \<Longrightarrow> hoare P (throw e) Q E"
  by (simp add: hoare_def throw_def)

lemma hoare_bind:
  assumes m: "hoare P m Q E" and k: "\<And>a. hoare (Q a) (k a) R E"
  shows "hoare P (and_then m k) R E"
  unfolding hoare_def
proof (intro allI impI)
  fix r
  assume "P r"
  with m have *: "case m r of (Inr a, r') \<Rightarrow> Q a r' | (Inl e, r') \<Rightarrow> E e r'" by (simp add: hoare_def)
  obtain x r1 where mr: "m r = (x, r1)" by fastforce
  show "case and_then m k r of (Inr a, r') \<Rightarrow> R a r' | (Inl e, r') \<Rightarrow> E e r'"
  proof (cases x)
    case (Inl e)
    with * mr show ?thesis by (simp add: and_then_def)
  next
    case (Inr a)
    with * mr have "Q a r1" by simp
    with k [of a] mr Inr show ?thesis by (simp add: hoare_def and_then_def)
  qed
qed

lemma hoare_prod: "(\<And>a b. hoare P (f a b) Q E) \<Longrightarrow> hoare P (case x of (a, b) \<Rightarrow> f a b) Q E"
  by (cases x) simp

lemma hoare_change: "(\<And>r. P r \<Longrightarrow> Q () (f r)) \<Longrightarrow> hoare P (change f) Q E"
  by (simp add: hoare_def change_def)

lemma hoare_read: "(\<And>r. P r \<Longrightarrow> hoare (\<lambda>r'. r' = r) (k r) Q E) \<Longrightarrow> hoare P (\<lambda>r. k r r) Q E"
  by (simp add: hoare_def)

lemma hoare_conseq:
  assumes "hoare P m Q E" "\<And>r. P' r \<Longrightarrow> P r" "\<And>a r. Q a r \<Longrightarrow> Q' a r" "\<And>e r. E e r \<Longrightarrow> E' e r"
  shows "hoare P' m Q' E'"
  unfolding hoare_def
proof (intro allI impI)
  fix r
  assume "P' r"
  with assms(1,2) have "case m r of (Inr a, r') \<Rightarrow> Q a r' | (Inl e, r') \<Rightarrow> E e r'" by (simp add: hoare_def)
  then show "case m r of (Inr a, r') \<Rightarrow> Q' a r' | (Inl e, r') \<Rightarrow> E' e r'"
    using assms(3,4) by (auto split: prod.splits sum.splits)
qed

lemma hoare_pre: "hoare P m Q E \<Longrightarrow> (\<And>r. P' r \<Longrightarrow> P r) \<Longrightarrow> hoare P' m Q E"
  by (simp add: hoare_def)

lemma hoareD:
  assumes "hoare P m Q E" "P r" "m r = (x, r')"
  shows "case x of Inr a \<Rightarrow> Q a r' | Inl e \<Rightarrow> E e r'"
  using assms unfolding hoare_def by fastforce

lemma hoare_await: "(\<And>r. P r \<Longrightarrow> Q () r) \<Longrightarrow> (\<And>e r. P r \<Longrightarrow> E e r) \<Longrightarrow> hoare P (await_answer a) Q E"
  by (cases a) (auto simp: await_answer_def)

lemma hoare_and:
  assumes "hoare P m Q E" "\<And>r a r'. P r \<Longrightarrow> m r = (Inr a, r') \<Longrightarrow> S a r'"
  shows "hoare P m (\<lambda>a r. Q a r \<and> S a r) E"
  using assms unfolding hoare_def by (auto split: prod.splits sum.splits)

lemma hoare_exit:
  assumes "hoare P m Q E" "\<And>r e r'. P r \<Longrightarrow> m r = (Inl e, r') \<Longrightarrow> S e"
  shows "hoare P m Q (\<lambda>e r. E e r \<and> S e)"
  using assms unfolding hoare_def by (auto split: prod.splits sum.splits)

lemma hoare_split:
  "hoare P f Q E \<Longrightarrow> hoare P g Q E \<Longrightarrow> hoare P (\<lambda>r. if b r then f r else g r) Q E"
  by (simp add: hoare_def)

text \<open>Where the outcome does not matter.\<close>

lemma hoare_snd: "hoare P m (\<lambda>_. Q) (\<lambda>_. Q) \<longleftrightarrow> (\<forall>r. P r \<longrightarrow> Q (snd (m r)))"
proof -
  have "(case m r of (Inr a, r') \<Rightarrow> Q r' | (Inl e, r') \<Rightarrow> Q r') = Q (snd (m r))" for r
    by (cases "m r") (simp split: sum.split)
  then show ?thesis by (simp add: hoare_def)
qed

section \<open>Phases\<close>

text \<open>
  A phase of a coroutine: an invariant of its record while the phase lasts, and what is true when
  it is left by an exception. The exceptions that may leave it anywhere need no more than the
  invariant. Scripts that stay in a phase compose.
\<close>

locale phase =
  fixes I :: "'s \<Rightarrow> bool" and X :: "exn \<Rightarrow> 's \<Rightarrow> bool" and may_raise :: "exn \<Rightarrow> bool"
  assumes leave: "I r \<Longrightarrow> may_raise e \<Longrightarrow> X e r"
begin

abbreviation (input) stays_in :: "('s, 'a) prog \<Rightarrow> bool" where
  "stays_in m \<equiv> hoare I m (\<lambda>_. I) X"

lemma bind: "stays_in m \<Longrightarrow> (\<And>a. stays_in (k a)) \<Longrightarrow> stays_in (and_then m k)"
  by (rule hoare_bind)

lemma return: "stays_in (give a)"
  by auto

lemma raise: "may_raise e \<Longrightarrow> stays_in (throw e)"
  by (auto intro: leave)

lemma await: "(\<And>e. w = Threw e \<Longrightarrow> may_raise e) \<Longrightarrow> stays_in (await_answer w)"
  by (cases w) (auto simp: await_answer_def intro: raise)

lemma lifted: "(\<And>e. m = Inl e \<Longrightarrow> may_raise e) \<Longrightarrow> stays_in (lift_res m)"
  by (cases m) (auto simp: lift_res_def intro: raise)

lemma update: "(\<And>r. I r \<Longrightarrow> I (f r)) \<Longrightarrow> stays_in (change f)"
  by (rule hoare_change)

lemma all_delivered: "(\<And>f. f \<in> set fs \<Longrightarrow> stays_in (deliver f)) \<Longrightarrow> stays_in (deliver_all deliver fs)"
  by (induction fs) (auto intro: bind)

end

section \<open>Books\<close>

text \<open>A lease released once and telemetry recorded once, and the two agree.\<close>

definition OUTCOMES :: "(string list \<times> string list) list" where
  "OUTCOMES = [([''completed''], [''success'']), ([''failed''], [''error'']), ([''cancelled''], [''cancelled''])]"

end
