(* ===== verification/Json.thy ===== *)
theory Json
  imports Complex_Main Scripts
begin

text \<open>
  Decoded JSON, and the operations of Python on it that the chat route uses: truth, \<open>get\<close>,
  \<open>in\<close>, \<open>[0]\<close>, \<open>len\<close>, \<open>int\<close> and \<open>or\<close>, each with the exception it raises on a value of
  another type. An object is an association list whose keys are distinct (\<open>json.loads\<close> keeps
  the last of two equal keys); a float is its rational value, so infinities and NaN are left out.
\<close>

section \<open>Values\<close>

datatype json =
    JNull
  | JBool bool
  | JInt int
  | JFloat rat
  | JStr string
  | JArr "json list"
  | JObj "(string \<times> json) list"

type_synonym obj = "(string \<times> json) list"

text \<open>Results of operations that may raise.\<close>

fun bind_res :: "exn + 'a \<Rightarrow> ('a \<Rightarrow> exn + 'b) \<Rightarrow> exn + 'b" where
  "bind_res (Inl e) f = Inl e"
| "bind_res (Inr x) f = f x"

lemma bind_res_Inr_iff: "bind_res m f = Inr y \<longleftrightarrow> (\<exists>x. m = Inr x \<and> f x = Inr y)"
  by (cases m) auto

section \<open>Operations\<close>

fun py_true :: "json \<Rightarrow> bool" where
  "py_true JNull \<longleftrightarrow> False"
| "py_true (JBool b) \<longleftrightarrow> b"
| "py_true (JInt n) \<longleftrightarrow> n \<noteq> 0"
| "py_true (JFloat r) \<longleftrightarrow> r \<noteq> 0"
| "py_true (JStr s) \<longleftrightarrow> s \<noteq> []"
| "py_true (JArr xs) \<longleftrightarrow> xs \<noteq> []"
| "py_true (JObj fs) \<longleftrightarrow> fs \<noteq> []"

definition py_or :: "json \<Rightarrow> json \<Rightarrow> json" where
  "py_or a b = (if py_true a then a else b)"

fun py_type :: "json \<Rightarrow> string" where
  "py_type JNull = ''NoneType''"
| "py_type (JBool _) = ''bool''"
| "py_type (JInt _) = ''int''"
| "py_type (JFloat _) = ''float''"
| "py_type (JStr _) = ''str''"
| "py_type (JArr _) = ''list''"
| "py_type (JObj _) = ''dict''"

definition no_attribute :: "string \<Rightarrow> json \<Rightarrow> exn" where
  "no_attribute a j = OtherError (''AttributeError: '' @ py_type j @ '' object has no attribute '' @ a)"

definition look :: "string \<Rightarrow> json \<Rightarrow> obj \<Rightarrow> json" where
  "look k d fs = (case map_of fs k of None \<Rightarrow> d | Some v \<Rightarrow> v)"

fun py_get :: "string \<Rightarrow> json \<Rightarrow> json \<Rightarrow> exn + json" where
  "py_get k d (JObj fs) = Inr (look k d fs)"
| "py_get k d j = Inl (no_attribute ''get'' j)"

fun contains :: "string \<Rightarrow> string \<Rightarrow> bool" where
  "contains k [] \<longleftrightarrow> k = []"
| "contains k (c # cs) \<longleftrightarrow> take (length k) (c # cs) = k \<or> contains k cs"

fun py_in :: "string \<Rightarrow> json \<Rightarrow> exn + bool" where
  "py_in k (JObj fs) = Inr (map_of fs k \<noteq> None)"
| "py_in k (JArr xs) = Inr (JStr k \<in> set xs)"
| "py_in k (JStr s) = Inr (contains k s)"
| "py_in k j = Inl TypeError"

text \<open>\<open>j[k]\<close>.\<close>

fun py_item :: "string \<Rightarrow> json \<Rightarrow> exn + json" where
  "py_item k (JObj fs) = (case map_of fs k of None \<Rightarrow> Inl (KeyError k) | Some v \<Rightarrow> Inr v)"
| "py_item k j = Inl TypeError"

text \<open>\<open>j[0]\<close>; an object of JSON has no key 0, and a character is a string again.\<close>

fun py_first :: "json \<Rightarrow> exn + json" where
  "py_first (JArr (x # xs)) = Inr x"
| "py_first (JArr []) = Inl (LookupError ''list index out of range'')"
| "py_first (JStr (c # cs)) = Inr (JStr [c])"
| "py_first (JStr []) = Inl (LookupError ''string index out of range'')"
| "py_first (JObj fs) = Inl (KeyError ''0'')"
| "py_first j = Inl TypeError"

fun py_len :: "json \<Rightarrow> exn + nat" where
  "py_len (JStr s) = Inr (length s)"
| "py_len (JArr xs) = Inr (length xs)"
| "py_len (JObj fs) = Inr (length fs)"
| "py_len j = Inl TypeError"

text \<open>\<open>for x in j\<close>.\<close>

fun py_iter :: "json \<Rightarrow> exn + json list" where
  "py_iter (JArr xs) = Inr xs"
| "py_iter (JObj fs) = Inr (map (JStr \<circ> fst) fs)"
| "py_iter (JStr s) = Inr (map (\<lambda>c. JStr [c]) s)"
| "py_iter j = Inl TypeError"

text \<open>A comprehension whose element may raise.\<close>

fun each :: "('a \<Rightarrow> exn + 'b) \<Rightarrow> 'a list \<Rightarrow> exn + 'b list" where
  "each f [] = Inr []"
| "each f (x # xs) = bind_res (f x) (\<lambda>y. bind_res (each f xs) (\<lambda>ys. Inr (y # ys)))"

text \<open>
  \<open>int\<close> of a string: spaces around it, a sign, decimal digits, single underscores between digits.
\<close>

definition decimal_of :: "char \<Rightarrow> int option" where
  "decimal_of c = (let n = of_char c :: nat in if 48 \<le> n \<and> n \<le> 57 then Some (int n - 48) else None)"

fun scan_digits :: "int \<Rightarrow> string \<Rightarrow> int option" where
  "scan_digits acc [] = Some acc"
| "scan_digits acc (c # cs) =
     (case decimal_of c of
        Some d \<Rightarrow> scan_digits (10 * acc + d) cs
      | None \<Rightarrow> (case cs of
          [] \<Rightarrow> None
        | c' # _ \<Rightarrow> if c = CHR ''_'' \<and> decimal_of c' \<noteq> None then scan_digits acc cs else None))"

definition read_number :: "string \<Rightarrow> int option" where
  "read_number s = (case s of [] \<Rightarrow> None | c # _ \<Rightarrow> if decimal_of c = None then None else scan_digits 0 s)"

definition int_of_text :: "string \<Rightarrow> int option" where
  "int_of_text s =
     (case strip s of
        [] \<Rightarrow> None
      | c # cs \<Rightarrow> if c = CHR ''-'' then map_option uminus (read_number cs)
                  else if c = CHR ''+'' then read_number cs else read_number (c # cs))"

definition trunc :: "rat \<Rightarrow> int" where
  "trunc r = (if r < 0 then - \<lfloor>- r\<rfloor> else \<lfloor>r\<rfloor>)"

fun py_int :: "json \<Rightarrow> exn + int" where
  "py_int (JInt n) = Inr n"
| "py_int (JBool b) = Inr (if b then 1 else 0)"
| "py_int (JFloat r) = Inr (trunc r)"
| "py_int (JStr s) = (case int_of_text s of None \<Rightarrow> Inl (ValueError ''invalid literal for int()'') | Some n \<Rightarrow> Inr n)"
| "py_int j = Inl TypeError"

text \<open>\<open>int(j or 0)\<close>.\<close>

definition py_count :: "json \<Rightarrow> exn + int" where
  "py_count j = py_int (py_or j (JInt 0))"

text \<open>\<open>str\<close>: a string is itself; how Python prints another value is an argument.\<close>

definition py_str :: "(json \<Rightarrow> string) \<Rightarrow> json \<Rightarrow> string" where
  "py_str show j = (case j of JStr s \<Rightarrow> s | _ \<Rightarrow> show j)"

section \<open>Objects as they are written\<close>

definition put :: "string \<Rightarrow> json \<Rightarrow> obj \<Rightarrow> obj" where
  "put k v fs = AList.update k v fs"

definition put_some :: "string \<Rightarrow> json option \<Rightarrow> obj \<Rightarrow> obj" where
  "put_some k v fs = (case v of None \<Rightarrow> fs | Some j \<Rightarrow> put k j fs)"

definition set_default :: "string \<Rightarrow> json \<Rightarrow> obj \<Rightarrow> obj" where
  "set_default k v fs = (if map_of fs k = None then put k v fs else fs)"

lemma map_of_put [simp]: "map_of (put k v fs) = (map_of fs)(k \<mapsto> v)"
  by (simp add: put_def update_conv')

lemma map_of_put_some: "map_of (put_some k v fs) i = (if i = k \<and> v \<noteq> None then v else map_of fs i)"
  by (cases v) (auto simp: put_some_def)

lemma map_of_set_default: "map_of (set_default k v fs) i = (if i = k \<and> map_of fs k = None then Some v else map_of fs i)"
  by (auto simp: set_default_def)

lemma look_put [simp]: "look i d (put k v fs) = (if i = k then v else look i d fs)"
  by (auto simp: look_def)

section \<open>What the operations raise\<close>

text \<open>A result that \<open>except Exception\<close> catches when it is an error.\<close>

definition tidy :: "exn + 'a \<Rightarrow> bool" where
  "tidy m \<longleftrightarrow> (\<forall>e. m = Inl e \<longrightarrow> is_exception e)"

lemma tidy_bind: "tidy m \<Longrightarrow> (\<And>a. tidy (f a)) \<Longrightarrow> tidy (bind_res m f)"
  by (cases m) (auto simp: tidy_def)

lemma tidy_Inr: "tidy (Inr a)"
  by (simp add: tidy_def)

lemma tidy_Inl: "is_exception e \<Longrightarrow> tidy (Inl e)"
  by (simp add: tidy_def)

lemma tidy_json:
  "tidy (py_get k d j)" "tidy (py_in k j)" "tidy (py_item k j)" "tidy (py_first j)" "tidy (py_len j)" "tidy (py_int j)"
  by (cases j; auto simp: tidy_def no_attribute_def is_exception_def split: option.splits; fail)+
    (cases j rule: py_first.cases; auto simp: tidy_def is_exception_def; fail
      | cases j; auto simp: tidy_def is_exception_def split: option.splits)+

lemmas tidy_intros = tidy_bind tidy_Inr tidy_Inl tidy_json

text \<open>A result that is not the closing of the coroutine.\<close>

definition unless_exit :: "exn + 'a \<Rightarrow> bool" where
  "unless_exit m \<longleftrightarrow> m \<noteq> Inl GeneratorExit"

lemma unless_exit_bind: "unless_exit m \<Longrightarrow> (\<And>a. unless_exit (f a)) \<Longrightarrow> unless_exit (bind_res m f)"
  by (cases m) (auto simp: unless_exit_def)

lemma tidy_unless_exit: "tidy m \<Longrightarrow> unless_exit m"
  by (auto simp: tidy_def unless_exit_def is_exception_def)

lemma unless_exit_prod: "(\<And>a b. unless_exit (f a b)) \<Longrightarrow> unless_exit (case p of (a, b) \<Rightarrow> f a b)"
  by (simp split: prod.split)

lemma unless_exit_Inr: "unless_exit (Inr a)"
  by (simp add: unless_exit_def)

lemma unless_exit_each: "(\<And>a. unless_exit (f a)) \<Longrightarrow> unless_exit (each f xs)"
  by (induction xs) (auto intro!: unless_exit_bind simp: unless_exit_Inr)

lemma tidy_iter: "tidy (py_iter j)"
  by (cases j) (auto simp: tidy_def is_exception_def)

section \<open>Comprehensions\<close>

lemma each_append:
  "each f (xs @ ys) = bind_res (each f xs) (\<lambda>a. bind_res (each f ys) (\<lambda>b. Inr (a @ b)))"
proof (induction xs)
  case Nil
  show ?case by (cases "each f ys") simp_all
next
  case (Cons x xs)
  then show ?case by (cases "f x"; cases "each f xs"; cases "each f ys") simp_all
qed

lemma each_pointwise: "each f xs = Inr ys \<longleftrightarrow> list_all2 (\<lambda>x y. f x = Inr y) xs ys"
  by (induction xs arbitrary: ys) (auto simp: bind_res_Inr_iff list_all2_Cons1)

lemma each_fine: "(\<And>x. x \<in> set xs \<Longrightarrow> f x = Inr (g x)) \<Longrightarrow> each f xs = Inr (map g xs)"
  by (induction xs) simp_all

end
