(* ===== verification/ChatMessages.thy ===== *)
theory ChatMessages
  imports Json
begin

text \<open>
  The chat completion route, backend/app/api/routes/v1/v1_chat_completions.py: the request, the
  conversion of its messages and tools to the payload of the engine, the readers of a chunk
  (content, reasoning, finish reason, tool calls, usage), and the reply of a buffered call.
  \<^item> A request has passed its pydantic model; its optional fields are \<open>option\<close>s, and JSON parts of
    any shape are \<open>json\<close>. What the client reads back is kept as JSON where the route passes it on.
  \<^item> The output models of pydantic are arguments where a value of the engine reaches them unchecked.
\<close>

section \<open>Messages\<close>

datatype role = RSystem | RUser | RAssistant | RDeveloper | RTool

fun role_name :: "role \<Rightarrow> string" where
  "role_name RSystem = ''system''"
| "role_name RUser = ''user''"
| "role_name RAssistant = ''assistant''"
| "role_name RDeveloper = ''developer''"
| "role_name RTool = ''tool''"

datatype content = NoContent | TextContent string | PartsContent "obj list"

record request_message =
  cm_role :: role
  cm_content :: content
  cm_reasoning :: "string option"
  cm_name :: "string option"
  cm_tool_call_id :: "string option"
  cm_tool_calls :: "obj list option"

definition part_text :: "obj \<Rightarrow> string" where
  "part_text p =
     (if look ''type'' JNull p = JStr ''text''
      then (case look ''text'' JNull p of JStr t \<Rightarrow> t | _ \<Rightarrow> []) else [])"

definition llama_content :: "request_message \<Rightarrow> string" where
  "llama_content m =
     (case cm_content m of
        NoContent \<Rightarrow> []
      | TextContent t \<Rightarrow> t
      | PartsContent ps \<Rightarrow> concat (map part_text ps))"

text \<open>A field given and not empty.\<close>

definition if_given :: "string \<Rightarrow> string option \<Rightarrow> obj" where
  "if_given k v = (case v of None \<Rightarrow> [] | Some s \<Rightarrow> if s = [] then [] else [(k, JStr s)])"

definition convert_message :: "request_message \<Rightarrow> obj" where
  "convert_message m =
     (if cm_role m = RTool
      then [(''role'', JStr ''tool''), (''content'', JStr (llama_content m))]
           @ if_given ''tool_call_id'' (cm_tool_call_id m) @ if_given ''name'' (cm_name m)
      else if cm_role m = RAssistant \<and> cm_tool_calls m \<notin> {None, Some []}
      then [(''role'', JStr ''assistant''), (''content'', JStr (llama_content m)),
            (''tool_calls'', JArr (map JObj (the (cm_tool_calls m))))]
      else [(''role'', JStr (role_name (cm_role m))), (''content'', JStr (llama_content m))])"

definition convert_messages :: "request_message list \<Rightarrow> obj list" where
  "convert_messages ms = map convert_message ms"

section \<open>The payload\<close>

record tool =
  tl_type :: string
  tl_name :: string
  tl_description :: string
  tl_parameters :: obj

definition dump_tool :: "tool \<Rightarrow> json" where
  "dump_tool t = JObj [(''type'', JStr (tl_type t)),
     (''function'', JObj [(''name'', JStr (tl_name t)), (''description'', JStr (tl_description t)),
        (''parameters'', JObj (tl_parameters t))])]"

record chat_request =
  rq_model :: string
  rq_agent_id :: "string option"
  rq_messages :: "request_message list"
  rq_stream :: bool
  rq_temperature :: rat
  rq_max_tokens :: "int option"
  rq_top_p :: "rat option"
  rq_frequency_penalty :: "rat option"
  rq_presence_penalty :: "rat option"
  rq_stop :: "json option"
  rq_tools :: "tool list option"
  rq_tool_choice :: "json option"
  rq_reasoning_effort :: "string option"
  rq_include_usage :: "bool option"

text \<open>\<open>rq_include_usage\<close> is \<open>stream_options.include_usage\<close> when the request has \<open>stream_options\<close>.\<close>

definition tools_payload :: "chat_request \<Rightarrow> obj" where
  "tools_payload r =
     (if rq_tools r \<in> {None, Some []} then [] else [(''tools'', JArr (map dump_tool (the (rq_tools r))))])
     @ (case rq_tool_choice r of None \<Rightarrow> [] | Some c \<Rightarrow> [(''tool_choice'', c)])"

definition update_all :: "obj \<Rightarrow> obj \<Rightarrow> obj" where
  "update_all new fs = fold (\<lambda>(k, v). put k v) new fs"

text \<open>The fields both payloads share, in the order they are set.\<close>

definition add_options :: "string option \<Rightarrow> chat_request \<Rightarrow> obj \<Rightarrow> obj" where
  "add_options npu r p0 =
     (let p1 = (if npu \<in> {None, Some []} then p0 else put ''model'' (JStr (the npu)) p0);
          p2 = put ''temperature'' (JFloat (rq_temperature r)) p1;
          p3 = put_some ''max_tokens'' (map_option JInt (rq_max_tokens r)) p2;
          p4 = put_some ''top_p'' (map_option JFloat (rq_top_p r)) p3;
          p5 = put_some ''frequency_penalty'' (map_option JFloat (rq_frequency_penalty r)) p4;
          p6 = put_some ''presence_penalty'' (map_option JFloat (rq_presence_penalty r)) p5;
          p7 = put_some ''stop'' (rq_stop r) p6;
          p8 = put_some ''reasoning_effort'' (map_option JStr (rq_reasoning_effort r)) p7
      in update_all (tools_payload r) p8)"

definition stream_payload :: "string option \<Rightarrow> chat_request \<Rightarrow> obj" where
  "stream_payload npu r =
     put ''stream_options'' (JObj [(''include_usage'', JBool True)])
       (add_options npu r [(''messages'', JArr (map JObj (convert_messages (rq_messages r)))), (''stream'', JBool True)])"

definition buffered_payload :: "string option \<Rightarrow> chat_request \<Rightarrow> obj" where
  "buffered_payload npu r =
     add_options npu r [(''messages'', JArr (map JObj (convert_messages (rq_messages r)))), (''stream'', JBool False)]"

section \<open>Reading a chunk\<close>

text \<open>The first choice of a chunk that has a list of choices.\<close>

definition first_choice :: "json \<Rightarrow> exn + json option" where
  "first_choice c = bind_res (py_get ''choices'' JNull c) (\<lambda>cs.
     case cs of JArr (x # _) \<Rightarrow> Inr (Some x) | _ \<Rightarrow> Inr None)"

definition choice_delta :: "json \<Rightarrow> exn + json" where
  "choice_delta ch = bind_res (py_get ''delta'' JNull ch) (\<lambda>d. Inr (py_or d (JObj [])))"

definition get_text :: "string \<Rightarrow> json \<Rightarrow> exn + json" where
  "get_text k j = bind_res (py_get k JNull j) (\<lambda>v. Inr (py_or v (JStr [])))"

definition extract_delta_content :: "json \<Rightarrow> exn + json" where
  "extract_delta_content c =
     (let old = bind_res (py_get ''content'' (JStr []) c) (\<lambda>v. Inr (py_or v (JStr [])))
      in bind_res (first_choice c) (\<lambda>choice. case choice of
           None \<Rightarrow> old
         | Some ch \<Rightarrow>
             bind_res (choice_delta ch) (\<lambda>delta.
             bind_res (py_in ''content'' delta) (\<lambda>b. if b then get_text ''content'' delta
             else bind_res (py_in ''text'' ch) (\<lambda>b. if b then get_text ''text'' ch
             else bind_res (py_in ''content'' ch) (\<lambda>b. if b then get_text ''content'' ch
             else old))))))"

definition extract_finish_reason :: "(json \<Rightarrow> string) \<Rightarrow> json \<Rightarrow> exn + string option" where
  "extract_finish_reason show c = bind_res (first_choice c) (\<lambda>choice. case choice of
     None \<Rightarrow> Inr None
   | Some ch \<Rightarrow> bind_res (py_get ''finish_reason'' JNull ch) (\<lambda>v.
       Inr (if v = JNull then None else Some (py_str show v))))"

definition extract_tool_call_deltas :: "json \<Rightarrow> exn + json list" where
  "extract_tool_call_deltas c = bind_res (first_choice c) (\<lambda>choice. case choice of
     None \<Rightarrow> Inr []
   | Some ch \<Rightarrow> bind_res (choice_delta ch) (\<lambda>delta.
       Inr (case delta of JObj fs \<Rightarrow> (case look ''tool_calls'' JNull fs of JArr tcs \<Rightarrow> tcs | _ \<Rightarrow> []) | _ \<Rightarrow> [])))"

definition extract_delta_reasoning :: "json \<Rightarrow> exn + json" where
  "extract_delta_reasoning c = bind_res (first_choice c) (\<lambda>choice. case choice of
     None \<Rightarrow> Inr (JStr [])
   | Some ch \<Rightarrow> bind_res (choice_delta ch) (\<lambda>delta. get_text ''reasoning_content'' delta))"

text \<open>The delta sent on: tool calls alone carry no content.\<close>

definition delta_out :: "json \<Rightarrow> json \<Rightarrow> json list \<Rightarrow> obj" where
  "delta_out content reasoning tcs =
     (if py_true content \<or> tcs = [] then [(''content'', content)] else [])
     @ (if py_true reasoning then [(''reasoning_content'', reasoning)] else [])
     @ (if tcs \<noteq> [] then [(''tool_calls'', JArr tcs)] else [])"

section \<open>Usage\<close>

record chat_usage =
  cu_prompt :: int
  cu_completion :: int
  cu_total :: int
  cu_prompt_details :: obj
  cu_completion_details :: json

definition zero_completion_details :: obj where
  "zero_completion_details = [(''reasoning_tokens'', JInt 0), (''audio_tokens'', JInt 0),
     (''accepted_prediction_tokens'', JInt 0), (''rejected_prediction_tokens'', JInt 0)]"

definition build_chat_usage :: "int \<Rightarrow> int \<Rightarrow> chat_usage" where
  "build_chat_usage prompt completion =
     \<lparr>cu_prompt = prompt, cu_completion = completion, cu_total = prompt + completion,
      cu_prompt_details = [(''cached_tokens'', JInt 0), (''audio_tokens'', JInt 0)],
      cu_completion_details = JObj zero_completion_details\<rparr>"

text \<open>\<open>{**details, ''cached_tokens'': n}\<close> with a default for the audio tokens.\<close>

definition with_cached :: "int \<Rightarrow> json \<Rightarrow> exn + obj" where
  "with_cached n details =
     (case details of
        JObj fs \<Rightarrow> Inr (set_default ''audio_tokens'' (JInt 0) (put ''cached_tokens'' (JInt n) fs))
      | _ \<Rightarrow> Inl TypeError)"

definition cached_count :: "json \<Rightarrow> json \<Rightarrow> exn + int" where
  "cached_count details timings =
     bind_res (py_in ''cached_tokens'' details) (\<lambda>b.
     bind_res (if b then py_item ''cached_tokens'' details else py_get ''cache_n'' (JInt 0) timings) py_count)"

text \<open>
  What the usage of a chunk is read from: its own usage object, or the counts of llama.cpp;
  \<open>validate\<close> stands for the output model, which checks the details.
\<close>

definition chunk_usage :: "obj \<Rightarrow> obj option" where
  "chunk_usage c =
     (case look ''usage'' JNull c of
        JObj (f # fs) \<Rightarrow> Some (f # fs)
      | _ \<Rightarrow>
          if map_of c ''tokens_evaluated'' \<noteq> None \<or> map_of c ''tokens_predicted'' \<noteq> None
          then Some [(''prompt_tokens'', look ''tokens_evaluated'' (JInt 0) c),
                     (''completion_tokens'', look ''tokens_predicted'' (JInt 0) c)]
          else None)"

definition read_usage :: "(obj \<Rightarrow> json \<Rightarrow> exn + obj \<times> json) \<Rightarrow> obj \<Rightarrow> obj \<Rightarrow> exn + chat_usage" where
  "read_usage validate c u =
     bind_res (py_count (look ''prompt_tokens'' (look ''tokens_evaluated'' (JInt 0) c) u)) (\<lambda>prompt.
     bind_res (py_count (look ''completion_tokens'' (look ''tokens_predicted'' (JInt 0) c) u)) (\<lambda>completion.
     bind_res (if look ''total_tokens'' JNull u = JNull then Inr (prompt + completion)
               else py_int (look ''total_tokens'' JNull u)) (\<lambda>total.
     let timings = py_or (look ''timings'' JNull c) (JObj []);
         details = py_or (look ''prompt_tokens_details'' JNull u) (JObj [])
     in bind_res (cached_count details timings) (\<lambda>cached.
     bind_res (with_cached cached details) (\<lambda>pd.
     bind_res (validate pd (py_or (look ''completion_tokens_details'' JNull u) (JObj zero_completion_details)))
       (\<lambda>(pd', cd). Inr \<lparr>cu_prompt = prompt, cu_completion = completion, cu_total = total,
          cu_prompt_details = pd', cu_completion_details = cd\<rparr>))))))"

definition extract_usage :: "(obj \<Rightarrow> json \<Rightarrow> exn + obj \<times> json) \<Rightarrow> json \<Rightarrow> exn + chat_usage option" where
  "extract_usage validate c =
     (case c of
        JObj fs \<Rightarrow> (case chunk_usage fs of
            None \<Rightarrow> Inr None
          | Some u \<Rightarrow> bind_res (read_usage validate fs u) (\<lambda>x. Inr (Some x)))
      | _ \<Rightarrow> Inl (no_attribute ''get'' c))"

text \<open>Four characters a token.\<close>

definition prompt_chars :: "request_message list \<Rightarrow> nat" where
  "prompt_chars ms = sum_list (map (length \<circ> llama_content) ms)"

definition fallback_usage :: "request_message list \<Rightarrow> nat \<Rightarrow> chat_usage" where
  "fallback_usage ms chars = build_chat_usage (int (prompt_chars ms div 4)) (int (chars div 4))"

section \<open>The reply of a buffered call\<close>

record chat_reply =
  cy_content :: json
  cy_reasoning :: json
  cy_tool_calls :: json
  cy_finish :: json
  cy_usage :: chat_usage

text \<open>\<open>int(u[k])\<close> when it is given, else an estimate.\<close>

definition count_or :: "string \<Rightarrow> json \<Rightarrow> int \<Rightarrow> exn + int" where
  "count_or k u estimate = bind_res (py_get k JNull u) (\<lambda>v. if v = JNull then Inr estimate else py_int v)"

definition with_zero_details :: "json \<Rightarrow> exn + obj" where
  "with_zero_details j = (case py_or j (JObj []) of
     JObj fs \<Rightarrow> Inr (fold (\<lambda>(k, v). set_default k v) zero_completion_details fs)
   | _ \<Rightarrow> Inl TypeError)"

text \<open>
  The usage of a reply: \<open>u\<close> is its usage object or an empty one, \<open>chars\<close> and \<open>n\<close> the lengths of the
  prompt and of the content. A list where the details should be an object is not one of pairs.
\<close>

definition reply_usage :: "json \<Rightarrow> json \<Rightarrow> nat \<Rightarrow> nat \<Rightarrow> exn + chat_usage" where
  "reply_usage response u chars n =
     bind_res (count_or ''prompt_tokens'' u (int (chars div 4))) (\<lambda>prompt.
     bind_res (count_or ''completion_tokens'' u (int (n div 4))) (\<lambda>completion.
     bind_res (count_or ''total_tokens'' u (prompt + completion)) (\<lambda>total.
     bind_res (py_get ''prompt_tokens_details'' JNull u) (\<lambda>pd.
     bind_res (py_get ''timings'' JNull response) (\<lambda>timings.
     bind_res (cached_count (py_or pd (JObj [])) (py_or timings (JObj []))) (\<lambda>cached.
     bind_res (with_cached cached (py_or pd (JObj []))) (\<lambda>details.
     bind_res (py_get ''completion_tokens_details'' JNull u) (\<lambda>cd.
     bind_res (with_zero_details cd) (\<lambda>completion_details.
     Inr \<lparr>cu_prompt = prompt, cu_completion = completion, cu_total = total,
       cu_prompt_details = details, cu_completion_details = JObj completion_details\<rparr>)))))))))"

definition get_or_none :: "string \<Rightarrow> json \<Rightarrow> exn + json" where
  "get_or_none k j = bind_res (py_get k JNull j) (\<lambda>v. Inr (py_or v JNull))"

text \<open>\<open>accept\<close> stands for the output models, which check the four fields of the choice.\<close>

definition read_reply :: "(json list \<Rightarrow> answer) \<Rightarrow> request_message list \<Rightarrow> json \<Rightarrow> exn + chat_reply" where
  "read_reply accept ms response =
     bind_res (py_get ''usage'' JNull response) (\<lambda>u.
     bind_res (bind_res (py_item ''choices'' response) py_first) (\<lambda>choice.
     bind_res (py_item ''message'' choice) (\<lambda>message.
     bind_res (get_text ''content'' message) (\<lambda>content.
     bind_res (get_or_none ''reasoning_content'' message) (\<lambda>reasoning.
     bind_res (get_or_none ''tool_calls'' message) (\<lambda>tool_calls.
     bind_res (py_len content) (\<lambda>n.
     bind_res (reply_usage response (py_or u (JObj [])) (prompt_chars ms) n) (\<lambda>usage.
     bind_res (py_get ''finish_reason'' JNull choice) (\<lambda>fr.
     case accept [content, reasoning, tool_calls, fr] of
       Threw e \<Rightarrow> Inl e
     | Answered \<Rightarrow> Inr \<lparr>cy_content = content, cy_reasoning = reasoning, cy_tool_calls = tool_calls,
         cy_finish = fr, cy_usage = usage\<rparr>)))))))))"

text \<open>What a buffered call records: the counts, and the cached tokens.\<close>

definition reply_record :: "chat_usage \<Rightarrow> obj" where
  "reply_record u = [(''prompt_tokens'', JInt (cu_prompt u)), (''completion_tokens'', JInt (cu_completion u)),
     (''prompt_tokens_details'', JObj [(''cached_tokens'', look ''cached_tokens'' (JInt 0) (cu_prompt_details u))])]"

end
