(* ===== verification/InferenceStream.thy ===== *)
theory InferenceStream
  imports Scripts
begin

text \<open>
  backend/app/services/inference_stream.py: waiting for the first frame of an agent while the
  client sees comments. Both generators look at the clock, wait for at most the time left (and at
  most ten seconds), and go on: what the clock says at each look and how each wait ends are the
  arguments. One deadline covers the opening of the stream and its first frame.
\<close>

definition FIRST_FRAME_TIMEOUT_SECONDS :: time where "FIRST_FRAME_TIMEOUT_SECONDS = seconds 150"
definition KEEPALIVE_SECONDS :: time where "KEEPALIVE_SECONDS = seconds 10"

section \<open>Opening the stream\<close>

text \<open>
  A wait ends at its timeout, with the response opened, with the worker over (it returns only
  after it was told to close, so not before the response is opened, unless it raises), or cancelled.
\<close>

datatype open_wake = NotYet | Opened | WorkerRaised exn | WorkerReturned | OpenCancelled exn

text \<open>
  \<open>upstream_with_keepalive\<close>: how many comments it yields, and then the deadline it hands on with
  the response, or what it raises. After the looks that are listed, the response is open.
\<close>

fun open_with_keepalive :: "time \<Rightarrow> (time \<times> open_wake) list \<Rightarrow> nat \<times> (exn + time)" where
  "open_with_keepalive deadline [] = (0, Inr deadline)"
| "open_with_keepalive deadline ((now, w) # ws) =
     (if deadline - now \<le> 0
      then (0, Inl (TimeoutError ''Agent did not open a stream before the dispatch deadline''))
      else case w of
        NotYet \<Rightarrow> (case open_with_keepalive deadline ws of (n, r) \<Rightarrow> (Suc n, r))
      | Opened \<Rightarrow> (0, Inr deadline)
      | WorkerRaised e \<Rightarrow> (0, Inl e)
      | WorkerReturned \<Rightarrow> (0, Inl (RuntimeError ''Agent stream closed before sending headers''))
      | OpenCancelled e \<Rightarrow> (0, Inl e))"

definition upstream_with_keepalive :: "time \<Rightarrow> (time \<times> open_wake) list \<Rightarrow> nat \<times> (exn + time)" where
  "upstream_with_keepalive now ws = open_with_keepalive (now + FIRST_FRAME_TIMEOUT_SECONDS) ws"

section \<open>Reading its lines\<close>

text \<open>A wait ends at its timeout, with a line, or with what the engine or the guard raised.\<close>

type_synonym line_wake = "time \<times> upstream"

definition is_data :: "string \<Rightarrow> bool" where
  "is_data line \<longleftrightarrow> take 5 line = ''data:''"

text \<open>
  \<open>lines_with_keepalive\<close>: its items (\<open>None\<close> is a comment) and how it ends. The deadline binds as
  long as no data line has come. After the looks that are listed, the lines end.
\<close>

fun lines_keepalive :: "time \<Rightarrow> bool \<Rightarrow> line_wake list \<Rightarrow> string option list \<times> (exn + unit)" where
  "lines_keepalive deadline first_frame [] = ([], Inr ())"
| "lines_keepalive deadline first_frame ((now, w) # ws) =
     (if \<not> first_frame \<and> deadline - now \<le> 0
      then ([], Inl (TimeoutError ''LLM did not produce a frame before the dispatch deadline''))
      else case w of
        Idle \<Rightarrow> (case lines_keepalive deadline first_frame ws of (xs, e) \<Rightarrow> (None # xs, e))
      | Line s \<Rightarrow> (case lines_keepalive deadline (first_frame \<or> is_data s) ws of (xs, e) \<Rightarrow> (Some s # xs, e))
      | Broke e \<Rightarrow> ([], Inl e))"

definition lines_with_keepalive :: "time \<Rightarrow> line_wake list \<Rightarrow> string option list \<times> (exn + unit)" where
  "lines_with_keepalive deadline ws = lines_keepalive deadline False ws"

section \<open>The deadline holds\<close>

text \<open>
  What the clock does: a wait that ended at its timeout lasted for at least that long, and the
  next look comes no earlier than the wait ended.
\<close>

definition wait_time :: "time \<Rightarrow> bool \<Rightarrow> time \<Rightarrow> time" where
  "wait_time deadline first_frame now =
     (if first_frame then KEEPALIVE_SECONDS else min KEEPALIVE_SECONDS (deadline - now))"

fun open_clock :: "time \<Rightarrow> time \<Rightarrow> (time \<times> open_wake) list \<Rightarrow> bool" where
  "open_clock deadline t [] \<longleftrightarrow> True"
| "open_clock deadline t ((now, w) # ws) \<longleftrightarrow> t \<le> now \<and>
     open_clock deadline (if w = NotYet then now + wait_time deadline False now else now) ws"

fun open_end :: "time \<Rightarrow> time \<Rightarrow> (time \<times> open_wake) list \<Rightarrow> time" where
  "open_end deadline t [] = t"
| "open_end deadline t ((now, w) # ws) =
     (if w = NotYet then open_end deadline (now + wait_time deadline False now) ws else now)"

definition saw_data :: "upstream \<Rightarrow> bool" where
  "saw_data w \<longleftrightarrow> (case w of Line s \<Rightarrow> is_data s | _ \<Rightarrow> False)"

fun line_clock :: "time \<Rightarrow> bool \<Rightarrow> time \<Rightarrow> line_wake list \<Rightarrow> bool" where
  "line_clock deadline first_frame t [] \<longleftrightarrow> True"
| "line_clock deadline first_frame t ((now, w) # ws) \<longleftrightarrow> t \<le> now \<and>
     line_clock deadline (first_frame \<or> saw_data w)
       (if w = Idle then now + wait_time deadline first_frame now else now) ws"

text \<open>The comments before the first data line.\<close>

definition early_comments :: "string option list \<Rightarrow> nat" where
  "early_comments xs = length (filter (\<lambda>x. x = None) (takeWhile (\<lambda>x. case x of None \<Rightarrow> True | Some s \<Rightarrow> \<not> is_data s) xs))"

lemma early_comments_simps [simp]:
  "early_comments [] = 0" "early_comments (None # xs) = Suc (early_comments xs)"
  "early_comments (Some s # xs) = (if is_data s then 0 else early_comments xs)"
  by (simp_all add: early_comments_def)

lemma keepalive_pos [simp]: "0 < KEEPALIVE_SECONDS"
  by (simp add: KEEPALIVE_SECONDS_def seconds_def)

text \<open>A wait cut short by the deadline is the last one; any other takes ten seconds.\<close>

lemma wait_time_cases:
  assumes "now < deadline"
  obtains "now + wait_time deadline False now = now + KEEPALIVE_SECONDS"
  | "now + wait_time deadline False now = deadline"
  using assms by (cases "KEEPALIVE_SECONDS \<le> deadline - now") (auto simp: wait_time_def min_def)

lemma late_open: "open_clock deadline t ws \<Longrightarrow> deadline \<le> t \<Longrightarrow> fst (open_with_keepalive deadline ws) = 0"
  by (cases ws) auto

lemma late_open_end:
  "open_clock deadline t ws \<Longrightarrow> deadline \<le> t \<Longrightarrow> open_with_keepalive deadline ws = (n, Inr d) \<Longrightarrow> deadline \<le> open_end deadline t ws"
  by (cases ws) auto

lemma open_comments:
  assumes "open_clock deadline t ws" "open_with_keepalive deadline ws = (n, r)" "t \<le> deadline"
  shows "int n * KEEPALIVE_SECONDS < deadline - t + KEEPALIVE_SECONDS
    \<and> (\<forall>d. r = Inr d \<longrightarrow> d = deadline
         \<and> (int n * KEEPALIVE_SECONDS \<le> open_end deadline t ws - t \<or> deadline \<le> open_end deadline t ws))"
  using assms
proof (induction ws arbitrary: t n)
  case (Cons x xs)
  obtain now w where x: "x = (now, w)" by (cases x)
  have t: "t \<le> now" using Cons.prems(1) x by simp
  have pos: "0 < deadline - t + KEEPALIVE_SECONDS" using Cons.prems(3) keepalive_pos by linarith
  show ?case
  proof (cases "w = NotYet \<and> now < deadline")
    case False
    with Cons.prems x t pos show ?thesis by (cases w) (auto split: if_splits prod.splits)
  next
    case True
    let ?t = "now + wait_time deadline False now"
    obtain m where m: "open_with_keepalive deadline xs = (m, r)" "n = Suc m"
      using Cons.prems(2) x True by (auto split: prod.splits)
    have c: "open_clock deadline ?t xs" using Cons.prems(1) x True by simp
    have e: "open_end deadline t (x # xs) = open_end deadline ?t xs" using x True by simp
    from True consider "?t = now + KEEPALIVE_SECONDS" "?t \<le> deadline" | "deadline \<le> ?t"
      by (cases "KEEPALIVE_SECONDS \<le> deadline - now") (auto simp: wait_time_def min_def)
    then show ?thesis
    proof cases
      case 1
      have k: "int n * KEEPALIVE_SECONDS = int m * KEEPALIVE_SECONDS + KEEPALIVE_SECONDS" by (simp add: m(2) algebra_simps)
      from Cons.IH [OF c m(1) 1(2)] 1(1) t show ?thesis unfolding e k by fastforce
    next
      case 2
      then have "m = 0" using late_open [OF c] m(1) by simp
      moreover have "d = deadline \<and> deadline \<le> open_end deadline ?t xs" if "r = Inr d" for d
      proof -
        have "d = deadline" using m(1) that by (induction xs arbitrary: m) (auto split: if_splits open_wake.splits prod.splits)
        with late_open_end [OF c 2] m(1) that show ?thesis by simp
      qed
      ultimately show ?thesis unfolding e using m(2) t True by auto
    qed
  qed
qed (use keepalive_pos in \<open>auto simp: add_nonneg_pos\<close>)

lemma line_comments:
  assumes "line_clock deadline False t ws" "t \<le> deadline"
  shows "int (early_comments (fst (lines_keepalive deadline False ws))) * KEEPALIVE_SECONDS < deadline - t + KEEPALIVE_SECONDS"
  using assms
proof (induction ws arbitrary: t)
  case (Cons x xs)
  obtain now w where x: "x = (now, w)" by (cases x)
  have t: "t \<le> now" using Cons.prems(1) x by simp
  have pos: "0 < deadline - t + KEEPALIVE_SECONDS" using Cons.prems(2) keepalive_pos by linarith
  show ?case
  proof (cases "now < deadline")
    case False
    with pos x show ?thesis by simp
  next
    case True
    show ?thesis
    proof (cases w)
      case Idle
      let ?t = "now + wait_time deadline False now"
      have c: "line_clock deadline False ?t xs" using Cons.prems(1) x Idle by (simp add: saw_data_def)
      from True have "?t \<le> deadline" by (auto simp: wait_time_def min_def)
      note ih = Cons.IH [OF c this]
      have step: "early_comments (fst (lines_keepalive deadline False (x # xs)))
          = Suc (early_comments (fst (lines_keepalive deadline False xs)))"
        using x Idle True by (simp split: prod.splits)
      from True show ?thesis
      proof (cases rule: wait_time_cases)
        case 1
        with ih t show ?thesis unfolding step by (simp add: algebra_simps)
      next
        case 2
        have "fst (lines_keepalive deadline False xs) = []"
          if "xs \<noteq> []" using c 2 that by (cases xs) auto
        then have "early_comments (fst (lines_keepalive deadline False xs)) = 0" by (cases xs) auto
        with True t show ?thesis unfolding step by simp
      qed
    next
      case (Line s)
      have "\<not> is_data s \<Longrightarrow> line_clock deadline False now xs" using Cons.prems(1) x Line by (simp add: saw_data_def)
      from Cons.IH [OF this] True t x Line pos show ?thesis by (auto split: prod.splits)
    next
      case (Broke e)
      with x True pos show ?thesis by simp
    qed
  qed
qed (use keepalive_pos in \<open>simp add: add_nonneg_pos\<close>)

lemma late_lines:
  "line_clock deadline False t ws \<Longrightarrow> deadline \<le> t \<Longrightarrow> fst (lines_keepalive deadline False ws) = []"
  by (cases ws) auto

text \<open>
  However the waits interleave with comments, at most fifteen comments reach the client before the
  first data line: the deadline of 150 seconds covers the opening and the first frame together.
\<close>

theorem keepalives_bounded:
  assumes "open_clock (t + FIRST_FRAME_TIMEOUT_SECONDS) t ows" "upstream_with_keepalive t ows = (n, r)"
    and "\<And>d. r = Inr d \<Longrightarrow> line_clock d False (open_end d t ows) lws"
  shows "n + (case r of Inl e \<Rightarrow> 0 | Inr d \<Rightarrow> early_comments (fst (lines_with_keepalive d lws))) \<le> 15"
proof -
  let ?D = "t + FIRST_FRAME_TIMEOUT_SECONDS"
  let ?n = "\<lambda>k. int k * KEEPALIVE_SECONDS < FIRST_FRAME_TIMEOUT_SECONDS + KEEPALIVE_SECONDS"
  have small: "k \<le> 15" if "?n k" for k
    using that by (simp add: KEEPALIVE_SECONDS_def FIRST_FRAME_TIMEOUT_SECONDS_def seconds_def)
  have "t \<le> ?D" by (simp add: FIRST_FRAME_TIMEOUT_SECONDS_def seconds_def)
  note o = open_comments [OF assms(1) assms(2) [unfolded upstream_with_keepalive_def] this]
  show ?thesis
  proof (cases r)
    case (Inl e)
    with o small show ?thesis by simp
  next
    case (Inr d)
    with o have d: "d = ?D" by simp
    note c = assms(3) [OF Inr, unfolded d]
    consider "?D \<le> open_end ?D t ows" | "open_end ?D t ows < ?D" "int n * KEEPALIVE_SECONDS \<le> open_end ?D t ows - t"
      using o Inr d by force
    then have "?n (n + early_comments (fst (lines_with_keepalive d lws)))"
    proof cases
      case 1
      with late_lines [OF c] o show ?thesis by (simp add: lines_with_keepalive_def d)
    next
      case 2
      with line_comments [OF c] show ?thesis by (simp add: lines_with_keepalive_def d algebra_simps)
    qed
    with Inr small show ?thesis by simp
  qed
qed

end
