(* ===== verification/ProxyStream.thy ===== *)
theory ProxyStream
  imports ChatMessages InferenceStream
begin

text \<open>
  What the two streaming completion routes share (v1_chat_completions.py and v1_completions.py under
  backend/app/api/routes/v1): a generator as a script over the record of what it did, that is the
  frames sent, the lease it released, the telemetry it recorded. Each route supplies what a chunk
  of the engine becomes (\<open>out\<close>) and how the stream succeeds; finding the agent, waiting with
  comments, reading the lines, and the three handlers with their \<open>finally\<close> are the same.
  \<^item> The client takes a number of frames and closes; the \<open>yield\<close> after those raises \<open>GeneratorExit\<close>.
  \<^item> What every other await does is a field of \<open>wire_env\<close>; the two waits for the agent are those of
    \<open>InferenceStream\<close>, with the clock and the outcome of each look.
  \<^item> Where Python takes \<open>dict(x)\<close> of a list, the list is not one of pairs, so this raises. Log lines,
    identifiers and times in the frames are left out.
\<close>

section \<open>State\<close>

datatype chat_frame =
    Comment
  | ChunkFrame obj "string option"
  | UsageFrame chat_usage
  | FailFrame string
  | DoneMark

record chat_run =
  cr_sent :: "chat_frame list"
  cr_takes :: nat
  cr_marked :: bool
  cr_waiting :: bool
  cr_usage :: "chat_usage option"
  cr_timings :: json
  cr_chars :: nat
  cr_recorded :: bool
  cr_released :: bool
  cr_telemetry :: "(string \<times> obj option) list"
  cr_releases :: "string list"

record wire_env =
  ce_agent :: "exn + bool"
  ce_now :: time
  ce_open :: "(time \<times> open_wake) list"
  ce_status :: answer
  ce_lines :: "line_wake list"
  ce_after :: answer
  ce_loads :: "string \<Rightarrow> json option"
  ce_show :: "json \<Rightarrow> string"
  ce_text :: "exn \<Rightarrow> string"
  ce_close_failed :: answer
  ce_close :: answer
  ce_release :: answer

type_synonym 'a chat_script = "(chat_run, 'a) prog"

definition start_chat :: "nat \<Rightarrow> chat_run" where
  "start_chat takes = \<lparr>cr_sent = [], cr_takes = takes, cr_marked = False, cr_waiting = False, cr_usage = None,
     cr_timings = JObj [], cr_chars = 0, cr_recorded = False, cr_released = False, cr_telemetry = [], cr_releases = []\<rparr>"

section \<open>Steps\<close>

definition yield_chat :: "chat_frame \<Rightarrow> unit chat_script" where
  "yield_chat f r =
     (if cr_takes r = 0 then Inl GeneratorExit else Inr (),
      r\<lparr>cr_sent := cr_sent r @ [f], cr_takes := cr_takes r - 1\<rparr>)"

text \<open>\<open>record_request_telemetry\<close> copies the timings into a dict before it starts its task.\<close>

definition record_request :: "string \<Rightarrow> obj option \<Rightarrow> json \<Rightarrow> unit chat_script" where
  "record_request status usage timings =
     (case timings of
        JObj _ \<Rightarrow> change (\<lambda>r. r\<lparr>cr_telemetry := cr_telemetry r @ [(status, usage)]\<rparr>)
      | JNull \<Rightarrow> change (\<lambda>r. r\<lparr>cr_telemetry := cr_telemetry r @ [(status, usage)]\<rparr>)
      | _ \<Rightarrow> throw TypeError)"

definition record_unless :: "string \<Rightarrow> unit chat_script" where
  "record_unless status r = (if cr_recorded r then give () r else record_request status None JNull r)"

definition dump_usage :: "chat_usage \<Rightarrow> obj" where
  "dump_usage u = [(''prompt_tokens'', JInt (cu_prompt u)), (''completion_tokens'', JInt (cu_completion u)),
     (''total_tokens'', JInt (cu_total u)), (''prompt_tokens_details'', JObj (cu_prompt_details u)),
     (''completion_tokens_details'', cu_completion_details u)]"

text \<open>An error the engine reports in a chunk.\<close>

definition chunk_error :: "(json \<Rightarrow> string) \<Rightarrow> json \<Rightarrow> exn + unit" where
  "chunk_error show c = bind_res (py_in ''error'' c) (\<lambda>b.
     if b then bind_res (py_item ''error'' c) (\<lambda>v. Inl (RuntimeError (''LLM error: '' @ py_str show v)))
     else Inr ())"

definition chunk_timings :: "json \<Rightarrow> json" where
  "chunk_timings c = (case c of JObj fs \<Rightarrow> py_or (look ''timings'' JNull fs) (JObj []) | _ \<Rightarrow> JObj [])"

definition note_usage :: "json \<Rightarrow> chat_usage option \<Rightarrow> chat_run \<Rightarrow> chat_run" where
  "note_usage c u r = (case u of None \<Rightarrow> r | Some v \<Rightarrow> r\<lparr>cr_usage := Some v, cr_timings := chunk_timings c\<rparr>)"

section \<open>Reading\<close>

text \<open>One line; the result says whether it is the end marker. A line that is not JSON is skipped.\<close>

definition read_line :: "'e wire_env_scheme \<Rightarrow> (json \<Rightarrow> unit chat_script) \<Rightarrow> string \<Rightarrow> bool chat_script" where
  "read_line x out line =
     (case sse_data line of
        None \<Rightarrow> give False
      | Some data \<Rightarrow>
          if strip data = ''[DONE]'' then give True
          else (case ce_loads x data of
                  None \<Rightarrow> give False
                | Some c \<Rightarrow> and_then (out c) (\<lambda>_. give False)))"

fun read_items :: "'e wire_env_scheme \<Rightarrow> (json \<Rightarrow> unit chat_script) \<Rightarrow> exn + unit \<Rightarrow> string option list \<Rightarrow> bool chat_script" where
  "read_items x out end [] = and_then (lift_res end) (\<lambda>_. give False)"
| "read_items x out end (None # items) = and_then (yield_chat Comment) (\<lambda>_. read_items x out end items)"
| "read_items x out end (Some line # items) =
     and_then (read_line x out line) (\<lambda>marker. if marker then give True else read_items x out end items)"

definition find_agent :: "'e wire_env_scheme \<Rightarrow> unit chat_script" where
  "find_agent x = and_then (lift_res (ce_agent x)) (\<lambda>found.
     if found then give () else throw (ValueError ''Agent not found''))"

text \<open>Opening: comments, and then the deadline under which the lines are read.\<close>

definition open_chat :: "'e wire_env_scheme \<Rightarrow> time chat_script" where
  "open_chat x = (case upstream_with_keepalive (ce_now x) (ce_open x) of
     (n, res) \<Rightarrow> and_then (deliver_all yield_chat (replicate n Comment)) (\<lambda>_. lift_res res))"

definition read_proxied :: "'e wire_env_scheme \<Rightarrow> (json \<Rightarrow> unit chat_script) \<Rightarrow> time \<Rightarrow> bool chat_script" where
  "read_proxied x out deadline = (case lines_with_keepalive deadline (ce_lines x) of
     (items, end) \<Rightarrow> read_items x out end items)"

text \<open>Up to the end marker.\<close>

definition read_upstream :: "'e wire_env_scheme \<Rightarrow> (json \<Rightarrow> unit chat_script) \<Rightarrow> unit chat_script" where
  "read_upstream x out =
     and_then (find_agent x) (\<lambda>_.
     and_then (change (\<lambda>r. r\<lparr>cr_marked := True, cr_waiting := True\<rparr>)) (\<lambda>_.
     and_then (open_chat x) (\<lambda>deadline.
     and_then (await_answer (ce_status x)) (\<lambda>_.
     and_then (read_proxied x out deadline) (\<lambda>marker.
     and_then (await_answer (ce_after x)) (\<lambda>_.
     if marker then give () else throw (RuntimeError ''LLM stream ended without a completion marker'')))))))"

section \<open>The end of a stream\<close>

definition finish_frames :: "bool \<Rightarrow> chat_usage \<Rightarrow> unit chat_script" where
  "finish_frames with_usage u =
     and_then (if with_usage then yield_chat (UsageFrame u) else give ()) (\<lambda>_. yield_chat DoneMark)"

definition close_waiting :: "answer \<Rightarrow> unit chat_script" where
  "close_waiting a r = (if cr_waiting r then await_answer a r else give () r)"

definition chat_failed :: "'e wire_env_scheme \<Rightarrow> exn \<Rightarrow> unit chat_script" where
  "chat_failed x e =
     and_then (close_waiting (ce_close_failed x)) (\<lambda>_.
     and_then (record_unless ''error'') (\<lambda>_.
     yield_chat (FailFrame (ce_text x e))))"

definition chat_finally :: "'e wire_env_scheme \<Rightarrow> string \<Rightarrow> unit chat_script" where
  "chat_finally x outcome =
     and_then (close_waiting (ce_close x)) (\<lambda>_.
     (\<lambda>r. if cr_released r then give () r
          else and_then (change (\<lambda>r. r\<lparr>cr_released := True, cr_releases := cr_releases r @ [outcome]\<rparr>)) (\<lambda>_.
            await_answer (ce_release x)) r))"

definition stream_with :: "'e wire_env_scheme \<Rightarrow> unit chat_script \<Rightarrow> unit chat_script" where
  "stream_with x body r =
     (case body r of
        (Inr u, r1) \<Rightarrow> finally_do (chat_finally x ''completed'') (Inr u) r1
      | (Inl e, r1) \<Rightarrow>
          if is_exception e
          then (case chat_failed x e r1 of (res, r2) \<Rightarrow> finally_do (chat_finally x ''failed'') res r2)
          else (case and_then (record_unless ''cancelled'') (\<lambda>_. throw e) r1 of
                  (res, r2) \<Rightarrow> finally_do (chat_finally x ''cancelled'') res r2))"

end
