(* ===== verification/ChatStream.thy ===== *)
theory ChatStream
  imports ProxyStream
begin

text \<open>
  The streamed chat completion, \<open>_stream_completion_via_agent\<close> of
  backend/app/api/routes/v1/v1_chat_completions.py: what a chunk becomes, how the stream succeeds,
  and the generator, which first waits until the server answers.
\<close>

record chat_env = wire_env +
  ce_request :: chat_request
  ce_npu :: "string option"
  ce_ready :: answer
  ce_validate :: "obj \<Rightarrow> json \<Rightarrow> exn + obj \<times> json"

definition chat_chunk_out :: "chat_env \<Rightarrow> json \<Rightarrow> unit chat_script" where
  "chat_chunk_out x c =
     and_then (lift_res (chunk_error (ce_show x) c)) (\<lambda>_.
     and_then (lift_res (extract_usage (ce_validate x) c)) (\<lambda>u.
     and_then (change (note_usage c u)) (\<lambda>_.
     and_then (lift_res (extract_delta_content c)) (\<lambda>content.
     and_then (lift_res (extract_delta_reasoning c)) (\<lambda>reasoning.
     and_then (lift_res (py_len content)) (\<lambda>n.
     and_then (change (\<lambda>r. r\<lparr>cr_chars := cr_chars r + n\<rparr>)) (\<lambda>_.
     and_then (lift_res (extract_tool_call_deltas c)) (\<lambda>tcs.
     and_then (lift_res (extract_finish_reason (ce_show x) c)) (\<lambda>fr.
     yield_chat (ChunkFrame (delta_out content reasoning tcs) fr))))))))))"

definition reported_usage :: "chat_env \<Rightarrow> chat_run \<Rightarrow> chat_usage" where
  "reported_usage x r = (case cr_usage r of
     Some u \<Rightarrow> u | None \<Rightarrow> fallback_usage (rq_messages (ce_request x)) (cr_chars r))"

definition include_usage :: "chat_env \<Rightarrow> bool" where
  "include_usage x \<longleftrightarrow> rq_include_usage (ce_request x) \<noteq> Some False"

text \<open>Telemetry, the release, and only then the last frames.\<close>

definition chat_success :: "chat_env \<Rightarrow> chat_usage chat_script" where
  "chat_success x r = (let u = reported_usage x r in
     and_then (change (\<lambda>r. r\<lparr>cr_usage := Some u\<rparr>)) (\<lambda>_.
     and_then (record_request ''success'' (Some (dump_usage u)) (cr_timings r)) (\<lambda>_.
     and_then (change (\<lambda>r. r\<lparr>cr_recorded := True, cr_released := True, cr_releases := cr_releases r @ [''completed'']\<rparr>)) (\<lambda>_.
     give u))) r)"

definition chat_reading :: "chat_env \<Rightarrow> unit chat_script" where
  "chat_reading x = and_then (await_answer (ce_ready x)) (\<lambda>_. read_upstream x (chat_chunk_out x))"

definition chat_body :: "chat_env \<Rightarrow> unit chat_script" where
  "chat_body x =
     and_then (chat_reading x) (\<lambda>_. and_then (chat_success x) (\<lambda>u. finish_frames (include_usage x) u))"

definition stream_chat :: "chat_env \<Rightarrow> unit chat_script" where
  "stream_chat x = stream_with x (chat_body x)"

definition serve_chat :: "chat_env \<Rightarrow> nat \<Rightarrow> (exn + unit) \<times> chat_run" where
  "serve_chat x takes = stream_chat x (start_chat takes)"

end
