(* ===== verification/ProxyStreamSafety.thy ===== *)
theory ProxyStreamSafety
  imports ProxyStream
begin

text \<open>
  What holds of a proxied stream whatever its route does with a chunk: the phases of its books,
  how it ends, that it lasts, and that the chunks it sends are those of the engine. A route
  interprets \<open>chunk_reader\<close> on what it makes of a chunk, and \<open>proxied\<close> on its body.
\<close>

section \<open>Phases\<close>

fun in_flow :: "chat_frame \<Rightarrow> bool" where
  "in_flow Comment \<longleftrightarrow> True"
| "in_flow (ChunkFrame d fr) \<longleftrightarrow> True"
| "in_flow f \<longleftrightarrow> False"

text \<open>Before the engine has finished: nothing is settled, and only comments and chunks are sent.\<close>

definition running :: "chat_run \<Rightarrow> bool" where
  "running r \<longleftrightarrow> \<not> cr_recorded r \<and> \<not> cr_released r \<and> cr_telemetry r = [] \<and> cr_releases r = []
     \<and> list_all in_flow (cr_sent r)"

definition succeeded :: "chat_usage \<Rightarrow> chat_run \<Rightarrow> bool" where
  "succeeded u r \<longleftrightarrow> cr_recorded r \<and> cr_released r \<and> cr_telemetry r = [(''success'', Some (dump_usage u))]
     \<and> cr_releases r = [''completed'']"

text \<open>Recorded, but the release was not answered.\<close>

definition unreleased :: "chat_usage \<Rightarrow> chat_run \<Rightarrow> bool" where
  "unreleased u r \<longleftrightarrow> cr_recorded r \<and> \<not> cr_released r \<and> cr_telemetry r = [(''success'', Some (dump_usage u))]
     \<and> cr_releases r = [''completed''] \<and> list_all in_flow (cr_sent r)"

text \<open>The frames that end a stream.\<close>

definition last_frames :: "bool \<Rightarrow> chat_usage \<Rightarrow> chat_frame list" where
  "last_frames with_usage u = (if with_usage then [UsageFrame u] else []) @ [DoneMark]"

definition finished :: "bool \<Rightarrow> chat_usage \<Rightarrow> nat \<Rightarrow> chat_run \<Rightarrow> bool" where
  "finished with_usage u n r \<longleftrightarrow> succeeded u r
     \<and> (\<exists>fs. list_all in_flow fs \<and> cr_sent r = fs @ take n (last_frames with_usage u))"

definition stays :: "'a chat_script \<Rightarrow> bool" where
  "stays m \<longleftrightarrow> hoare running m (\<lambda>_. running) (\<lambda>_. running)"

interpretation engine: phase running "\<lambda>_. running" "\<lambda>_. True"
  by unfold_locales

lemmas stays_bind = engine.bind [folded stays_def]
lemmas stays_simple = engine.return [folded stays_def] engine.raise [folded stays_def, OF TrueI]
  engine.await [folded stays_def, OF TrueI] engine.lifted [folded stays_def, OF TrueI]
lemmas stays_change = engine.update [folded stays_def]

lemma stays_yield: "in_flow f \<Longrightarrow> stays (yield_chat f)"
  by (auto simp: stays_def hoare_def yield_chat_def running_def)

lemma stays_note: "stays (change (note_usage c u))" "stays (change (\<lambda>r. r\<lparr>cr_chars := cr_chars r + n\<rparr>))"
  by (auto intro!: stays_change simp: running_def note_usage_def split: option.split)

lemma stays_line: "(\<And>c. stays (out c)) \<Longrightarrow> stays (read_line x out line)"
  by (auto simp: read_line_def intro!: stays_bind stays_simple split: option.split)

lemma stays_items: "(\<And>c. stays (out c)) \<Longrightarrow> stays (read_items x out end items)"
proof (induction items)
  case (Cons item items)
  then show ?case by (cases item) (auto intro!: stays_bind stays_line stays_yield stays_simple)
qed (auto intro!: stays_bind stays_simple)

lemma stays_comments: "stays (deliver_all yield_chat (replicate n Comment))"
  using engine.all_delivered [of "replicate n Comment" yield_chat] stays_yield [of Comment] by (simp add: stays_def)

lemma stays_open: "stays (open_chat x)"
  by (auto simp: open_chat_def intro!: stays_bind stays_comments stays_simple split: prod.split)

lemma stays_upstream: "(\<And>c. stays (out c)) \<Longrightarrow> stays (read_upstream x out)"
  unfolding read_upstream_def find_agent_def read_proxied_def
  by (intro stays_bind stays_simple stays_open stays_change)
    (auto simp: running_def stays_items stays_simple split: prod.split)

lemma running_start: "running (start_chat n)"
  by (simp add: running_def start_chat_def)

section \<open>The last frames\<close>

lemma finish_cases:
  assumes "finish_frames w u r = (res, r')" "succeeded u r" "list_all in_flow (cr_sent r)"
  shows "\<exists>n. finished w u n r' \<and> (res = Inr () \<and> n = length (last_frames w u) \<or> res = Inl GeneratorExit)"
proof -
  have fin: "finished w u n r'" if "cr_sent r' = cr_sent r @ take n (last_frames w u)"
      "cr_recorded r' = cr_recorded r" "cr_released r' = cr_released r"
      "cr_telemetry r' = cr_telemetry r" "cr_releases r' = cr_releases r" for n
    using that assms(2,3) by (auto simp: finished_def succeeded_def)
  consider (usage) "w" "cr_takes r = 0" | (rest) "\<not> (w \<and> cr_takes r = 0)"
    by (cases "w \<and> cr_takes r = 0") auto
  then show ?thesis
  proof cases
    case usage
    then have "finished w u 1 r'"
      using assms(1) by (intro fin) (auto simp: finish_frames_def and_then_def yield_chat_def last_frames_def)
    with usage assms(1) show ?thesis by (auto simp: finish_frames_def and_then_def yield_chat_def)
  next
    case rest
    then have "finished w u (length (last_frames w u)) r'"
      using assms(1) by (intro fin) (auto simp: finish_frames_def and_then_def yield_chat_def last_frames_def give_def split: if_splits)
    with rest assms(1) show ?thesis
      by (auto simp: finish_frames_def and_then_def yield_chat_def give_def split: if_splits)
  qed
qed

lemma finish_sent:
  assumes "finish_frames w u r = (res, r')"
  shows "\<exists>k. cr_sent r' = cr_sent r @ take k (last_frames w u)" "cr_telemetry r' = cr_telemetry r" "cr_releases r' = cr_releases r"
proof -
  show "cr_telemetry r' = cr_telemetry r" "cr_releases r' = cr_releases r"
    using assms by (auto simp: finish_frames_def and_then_def yield_chat_def give_def split: if_splits prod.splits)
  have "cr_sent r' = cr_sent r @ take 1 (last_frames w u) \<or> cr_sent r' = cr_sent r @ take 2 (last_frames w u)"
    using assms by (auto simp: finish_frames_def and_then_def yield_chat_def give_def last_frames_def split: if_splits prod.splits)
  then show "\<exists>k. cr_sent r' = cr_sent r @ take k (last_frames w u)" by blast
qed

section \<open>The handlers\<close>

lemma await_cases: "await_answer a r = (case a of Answered \<Rightarrow> (Inr (), r) | Threw e \<Rightarrow> (Inl e, r))"
  by (simp add: await_answer_def give_def throw_def split: answer.split)

lemma finally_books:
  assumes "ce_close x = Answered" "finally_do (chat_finally x s) res r = (res', r')"
  shows "cr_telemetry r' = cr_telemetry r" "cr_sent r' = cr_sent r"
    "cr_releases r' = (if cr_released r then cr_releases r else cr_releases r @ [s])"
    "ce_release x = Answered \<or> cr_released r \<Longrightarrow> res' = res"
  using assms
  by (auto simp: finally_do_def chat_finally_def close_waiting_def and_then_def await_cases give_def change_def lift_res_def
      throw_def split: if_splits answer.splits sum.splits)

text \<open>A failure that is answered.\<close>

lemma failed_cases:
  assumes "chat_failed x e r = (res, r')" "ce_close_failed x = Answered"
  shows "cr_telemetry r' = (if cr_recorded r then cr_telemetry r else cr_telemetry r @ [(''error'', None)])"
    "cr_sent r' = cr_sent r @ [FailFrame (ce_text x e)]"
    "cr_released r' = cr_released r" "cr_releases r' = cr_releases r" "res = (if cr_takes r = 0 then Inl GeneratorExit else Inr ())"
  using assms
  by (auto simp: chat_failed_def close_waiting_def and_then_def await_cases give_def change_def record_unless_def
      record_request_def yield_chat_def split: if_splits)

lemma unless_cancelled:
  "record_unless ''cancelled'' r = (Inr (), if cr_recorded r then r else r\<lparr>cr_telemetry := cr_telemetry r @ [(''cancelled'', None)]\<rparr>)"
  by (auto simp: record_unless_def give_def record_request_def change_def)

text \<open>A body that raised is answered, or cancelled; either way the books gain at most one entry each.\<close>

lemma raised_cases:
  assumes "body r0 = (Inl e, r1)" "stream_with x body r0 = (res, r)" "\<not> cr_released r1"
    and "ce_close_failed x = Answered" "ce_close x = Answered"
  obtains (failed) "is_exception e" "cr_sent r = cr_sent r1 @ [FailFrame (ce_text x e)]"
      "cr_releases r = cr_releases r1 @ [''failed'']"
      "cr_telemetry r = (if cr_recorded r1 then cr_telemetry r1 else cr_telemetry r1 @ [(''error'', None)])"
      "ce_release x = Answered \<Longrightarrow> res = (if cr_takes r1 = 0 then Inl GeneratorExit else Inr ())"
  | (cancelled) "\<not> is_exception e" "cr_sent r = cr_sent r1" "cr_releases r = cr_releases r1 @ [''cancelled'']"
      "cr_telemetry r = (if cr_recorded r1 then cr_telemetry r1 else cr_telemetry r1 @ [(''cancelled'', None)])"
proof (cases "is_exception e")
  case True
  obtain b r2 where b: "chat_failed x e r1 = (b, r2)" by fastforce
  note f = failed_cases [OF b assms(4)]
  have fin: "finally_do (chat_finally x ''failed'') b r2 = (res, r)"
    using assms(1,2) True b by (simp add: stream_with_def)
  note g = finally_books [OF assms(5) fin]
  show ?thesis by (rule failed [OF True]) (use f g assms(3) in auto)
next
  case False
  have fin: "finally_do (chat_finally x ''cancelled'') (Inl e :: exn + unit) (snd (record_unless ''cancelled'' r1)) = (res, r)"
    using assms(1,2) False unless_cancelled [of r1] by (simp add: stream_with_def and_then_def throw_def)
  note g = finally_books [OF assms(5) fin]
  show ?thesis by (rule cancelled [OF False]) (use g assms(3) unless_cancelled [of r1] in auto)
qed

section \<open>How a stream ends\<close>

text \<open>A body ends with nothing settled, or recorded and its release not answered, or finished.\<close>

locale proxied =
  fixes x :: "'e wire_env_scheme" and body :: "unit chat_script" and with_usage :: bool
  assumes body_cases: "body r = (res, r') \<Longrightarrow> running r \<Longrightarrow>
     (\<exists>e. res = Inl e \<and> running r') \<or> (\<exists>u e. res = Inl e \<and> unreleased u r')
     \<or> (\<exists>u n. finished with_usage u n r' \<and> (res = Inr () \<and> n = length (last_frames with_usage u) \<or> res = Inl GeneratorExit))"
begin

lemma proxied_cases:
  assumes "stream_with x body (start_chat n) = (res, r)" "ce_close_failed x = Answered" "ce_close x = Answered"
  obtains (over) u k where "body (start_chat n) = (res, r)" "finished with_usage u k r"
      "res = Inr () \<and> k = length (last_frames with_usage u) \<or> res = Inl GeneratorExit"
  | (failed) e r0 where "body (start_chat n) = (Inl e, r0)" "is_exception e" "running r0"
      "cr_sent r = cr_sent r0 @ [FailFrame (ce_text x e)]" "cr_releases r = [''failed'']" "cr_telemetry r = [(''error'', None)]"
      "ce_release x = Answered \<Longrightarrow> res = (if cr_takes r0 = 0 then Inl GeneratorExit else Inr ())"
  | (cancelled) e r0 where "body (start_chat n) = (Inl e, r0)" "\<not> is_exception e" "running r0"
      "cr_sent r = cr_sent r0" "cr_releases r = [''cancelled'']" "cr_telemetry r = [(''cancelled'', None)]"
  | (again) u e r0 where "body (start_chat n) = (Inl e, r0)" "unreleased u r0"
      "cr_sent r = cr_sent r0 @ (if is_exception e then [FailFrame (ce_text x e)] else [])"
      "cr_releases r = [''completed'', if is_exception e then ''failed'' else ''cancelled'']"
      "cr_telemetry r = [(''success'', Some (dump_usage u))]"
      "is_exception e \<Longrightarrow> ce_release x = Answered \<Longrightarrow> res = (if cr_takes r0 = 0 then Inl GeneratorExit else Inr ())"
proof -
  obtain a r1 where a: "body (start_chat n) = (a, r1)" by fastforce
  from body_cases [OF a running_start] consider (raised) e where "a = Inl e" "running r1"
    | (recorded) u e where "a = Inl e" "unreleased u r1"
    | (ended) u k where "finished with_usage u k r1" "a = Inr () \<and> k = length (last_frames with_usage u) \<or> a = Inl GeneratorExit"
    by blast
  then show ?thesis
  proof cases
    case (ended u k)
    have rel: "cr_released r1" "cr_recorded r1" using ended(1) by (simp_all add: finished_def succeeded_def)
    have "stream_with x body (start_chat n) = (a, r1)"
      using ended(2) rel assms(3) a unless_cancelled [of r1]
      by (auto simp: stream_with_def finally_do_def chat_finally_def close_waiting_def and_then_def await_cases give_def
          lift_res_def throw_def is_exception_def)
    then have "res = a" "r = r1" using assms(1) by simp_all
    with ended a over show ?thesis by simp
  next
    case (raised e)
    have "\<not> cr_released r1" using raised(2) by (simp add: running_def)
    from a [unfolded raised(1)] assms(1) this assms(2,3) show ?thesis
    proof (cases rule: raised_cases)
      case failed
      with raised a that(2) show ?thesis by (simp add: running_def)
    next
      case cancelled
      with raised a that(3) show ?thesis by (simp add: running_def)
    qed
  next
    case (recorded u e)
    have "\<not> cr_released r1" using recorded(2) by (simp add: unreleased_def)
    from a [unfolded recorded(1)] assms(1) this assms(2,3) show ?thesis
    proof (cases rule: raised_cases)
      case failed
      with recorded a show ?thesis by (intro again [of e r1 u]) (simp_all add: unreleased_def)
    next
      case cancelled
      with recorded a show ?thesis by (intro again [of e r1 u]) (simp_all add: unreleased_def)
    qed
  qed
qed

end

section \<open>A stream that lasts\<close>

text \<open>Nothing is cancelled: whatever raises, raises a class that \<open>except Exception\<close> catches.\<close>

definition calm :: "answer \<Rightarrow> bool" where
  "calm a \<longleftrightarrow> (case a of Answered \<Rightarrow> True | Threw e \<Rightarrow> is_exception e)"

fun calm_open :: "open_wake \<Rightarrow> bool" where
  "calm_open (WorkerRaised e) \<longleftrightarrow> is_exception e"
| "calm_open (OpenCancelled e) \<longleftrightarrow> False"
| "calm_open w \<longleftrightarrow> True"

fun calm_line :: "upstream \<Rightarrow> bool" where
  "calm_line (Broke e) \<longleftrightarrow> is_exception e"
| "calm_line w \<longleftrightarrow> True"

definition calm_wire :: "'e wire_env_scheme \<Rightarrow> bool" where
  "calm_wire x \<longleftrightarrow> list_all calm [ce_status x, ce_after x]
     \<and> (\<forall>e. ce_agent x = Inl e \<longrightarrow> is_exception e)
     \<and> list_all (\<lambda>w. calm_open (snd w)) (ce_open x) \<and> list_all (\<lambda>w. calm_line (snd w)) (ce_lines x)"

text \<open>Scripts that a client who takes \<open>k\<close> more frames does not interrupt, leaving \<open>l\<close> to take.\<close>

definition lasts :: "nat \<Rightarrow> nat \<Rightarrow> 'a chat_script \<Rightarrow> bool" where
  "lasts k l m \<longleftrightarrow> hoare (\<lambda>r. k \<le> cr_takes r) m (\<lambda>_ r. l \<le> cr_takes r) (\<lambda>e r. is_exception e \<and> l \<le> cr_takes r)"

lemma lasts_bind: "lasts k j m \<Longrightarrow> (\<And>a. lasts j l (f a)) \<Longrightarrow> l \<le> j \<Longrightarrow> lasts k l (and_then m f)"
  unfolding lasts_def by (rule hoare_bind [where Q = "\<lambda>_ r. j \<le> cr_takes r"]) (auto elim: hoare_conseq)

lemma lasts_then: "lasts (Suc k) (Suc k) m \<Longrightarrow> (\<And>a. lasts (Suc k) k (f a)) \<Longrightarrow> lasts (Suc k) k (and_then m f)"
  by (rule lasts_bind [where j = "Suc k"]) auto

lemma lasts_give: "l \<le> k \<Longrightarrow> lasts k l (give a)"
  by (auto simp: lasts_def hoare_def give_def)

lemma lasts_throw: "l \<le> k \<Longrightarrow> is_exception e \<Longrightarrow> lasts k l (throw e)"
  by (auto simp: lasts_def hoare_def throw_def)

lemma lasts_change: "l \<le> k \<Longrightarrow> (\<And>r. cr_takes (f r) = cr_takes r) \<Longrightarrow> lasts k l (change f)"
  by (auto simp: lasts_def hoare_def change_def)

lemma lasts_await: "l \<le> k \<Longrightarrow> calm a \<Longrightarrow> lasts k l (await_answer a)"
  by (auto simp: await_answer_def calm_def lasts_give lasts_throw split: answer.split)

lemma lasts_lift: "l \<le> k \<Longrightarrow> (\<And>e. m = Inl e \<Longrightarrow> is_exception e) \<Longrightarrow> lasts k l (lift_res m)"
  by (auto simp: lift_res_def lasts_give lasts_throw split: sum.split)

lemma lasts_yield: "lasts (Suc k) k (yield_chat f)"
  by (auto simp: lasts_def hoare_def yield_chat_def)

lemma lasts_weaken: "lasts j l m \<Longrightarrow> j \<le> k \<Longrightarrow> lasts k l m"
  unfolding lasts_def by (erule hoare_pre) simp

lemma tidy_error: "tidy (chunk_error show c)"
  unfolding chunk_error_def by (intro tidy_bind tidy_json) (auto intro!: tidy_intros simp: is_exception_def)

lemma lasts_tidy: "tidy m \<Longrightarrow> l \<le> k \<Longrightarrow> lasts k l (lift_res m)"
  by (rule lasts_lift) (auto simp: tidy_def)

lemma lasts_note: "lasts k k (change (note_usage c u))" "lasts k k (change (\<lambda>r. r\<lparr>cr_chars := cr_chars r + n\<rparr>))"
  by (auto intro!: lasts_change simp: note_usage_def split: option.split)

lemma lasts_line:
  assumes "\<And>c. lasts (Suc k) k (out c)"
  shows "lasts (Suc k) k (read_line x out line)"
proof -
  have "lasts (Suc k) k (and_then (out c) (\<lambda>_. give False))" for c
    by (rule lasts_bind [OF assms, of k]) (simp_all add: lasts_give)
  then show ?thesis by (auto simp: read_line_def lasts_give split: option.split)
qed

lemma lasts_items:
  assumes "\<And>c k. lasts (Suc k) k (out c)" "tidy end"
  shows "lasts (length items + k) k (read_items x out end items)"
proof (induction items)
  case Nil
  have "lasts k k (lift_res end)" using assms(2) by (auto simp: tidy_def intro: lasts_lift)
  then show ?case by (auto intro: lasts_bind lasts_give)
next
  case (Cons item items)
  have e: "length (item # items) + k = Suc (length items + k)" by simp
  show ?case unfolding e
  proof (cases item)
    case None
    show "lasts (Suc (length items + k)) k (read_items x out end (item # items))"
      unfolding None read_items.simps by (rule lasts_bind [OF lasts_yield Cons.IH]) simp
  next
    case (Some line)
    have "lasts (length items + k) k (if marker then give True else read_items x out end items)" for marker
      using Cons.IH by (simp add: lasts_give)
    then show "lasts (Suc (length items + k)) k (read_items x out end (item # items))"
      unfolding Some read_items.simps by (rule lasts_bind [OF lasts_line [OF assms(1)]]) simp
  qed
qed

lemma lasts_comments: "lasts (n + k) k (deliver_all yield_chat (replicate n Comment))"
proof (induction n)
  case (Suc n)
  show ?case unfolding replicate_Suc deliver_all.simps add_Suc by (rule lasts_bind [OF lasts_yield Suc.IH]) simp
qed (simp add: lasts_give)

text \<open>What the two waits hand on.\<close>

lemma open_within:
  "fst (open_with_keepalive d ws) \<le> length ws"
  "list_all (\<lambda>w. calm_open (snd w)) ws \<Longrightarrow> tidy (snd (open_with_keepalive d ws))"
  by (induction ws) (auto simp: tidy_def is_exception_def split: open_wake.splits prod.splits if_splits)

lemma lines_within:
  assumes "lines_keepalive d ff ws = (xs, e)"
  shows "length xs \<le> length ws" "list_all (\<lambda>w. calm_line (snd w)) ws \<Longrightarrow> tidy e"
proof -
  have "length xs \<le> length ws \<and> (list_all (\<lambda>w. calm_line (snd w)) ws \<longrightarrow> tidy e)"
    using assms
  proof (induction ws arbitrary: ff xs e)
    case (Cons w ws)
    obtain now u where w: "w = (now, u)" by (cases w)
    show ?case
    proof (cases "\<not> ff \<and> d - now \<le> 0")
      case True
      with Cons.prems w show ?thesis by (auto simp: tidy_def is_exception_def)
    next
      case False
      then show ?thesis using Cons.prems w
        by (cases u) (auto simp: tidy_def dest: Cons.IH split: prod.splits if_splits)
    qed
  qed (auto simp: tidy_def)
  then show "length xs \<le> length ws" "list_all (\<lambda>w. calm_line (snd w)) ws \<Longrightarrow> tidy e" by auto
qed

text \<open>Frames enough for the whole stream.\<close>

definition frames_enough :: "'e wire_env_scheme \<Rightarrow> nat" where
  "frames_enough x = length (ce_open x) + length (ce_lines x) + 2"

lemma lasts_upstream:
  assumes "calm_wire x" "\<And>c k. lasts (Suc k) k (out c)"
  shows "lasts (frames_enough x) 2 (read_upstream x out)"
proof -
  note u = assms(1) [unfolded calm_wire_def]
  let ?j = "length (ce_lines x) + 2"
  obtain n res where o: "upstream_with_keepalive (ce_now x) (ce_open x) = (n, res)" by fastforce
  have open_lasts: "lasts (frames_enough x) ?j (open_chat x)"
  proof -
    have "n \<le> length (ce_open x)" "tidy res"
      using open_within [where d = "ce_now x + FIRST_FRAME_TIMEOUT_SECONDS" and ws = "ce_open x"] o u by (auto simp: upstream_with_keepalive_def)
    then have "lasts ?j ?j (lift_res res)" "n + ?j \<le> frames_enough x"
      by (auto simp: tidy_def frames_enough_def intro: lasts_lift)
    moreover from this(1) have "lasts (n + ?j) ?j (open_chat x)"
      unfolding open_chat_def o prod.case by (rule lasts_bind [OF lasts_comments]) simp
    ultimately show ?thesis by (auto intro: lasts_weaken)
  qed
  have read_lasts: "lasts ?j 2 (read_proxied x out d)" for d
  proof -
    obtain items e where i: "lines_with_keepalive d (ce_lines x) = (items, e)" by fastforce
    have "length items \<le> length (ce_lines x)" "tidy e"
      using lines_within [OF i [unfolded lines_with_keepalive_def]] u by auto
    then show ?thesis unfolding read_proxied_def i prod.case
      by (intro lasts_weaken [OF lasts_items [OF assms(2)]]) simp_all
  qed
  have agent: "lasts (frames_enough x) (frames_enough x) (find_agent x)"
    using u unfolding find_agent_def
    by (intro lasts_bind [where j = "frames_enough x"] lasts_lift) (auto simp: lasts_give lasts_throw is_exception_def)
  have marker: "lasts 2 2 (if marker then give () else throw (RuntimeError ''LLM stream ended without a completion marker''))" for marker
    by (simp add: lasts_give lasts_throw is_exception_def)
  note l = lasts_bind [where l = 2]
  have "2 \<le> frames_enough x" by (simp add: frames_enough_def)
  then show ?thesis unfolding read_upstream_def using u
    by (intro l [OF agent] l [where j = "frames_enough x", OF lasts_change]
        l [OF open_lasts] l [where j = ?j, OF lasts_await] l [OF read_lasts] l [where j = 2, OF lasts_await] marker) simp_all
qed

text \<open>A whole body, for a client who takes every frame.\<close>

lemma lasts_whole:
  assumes "lasts k 2 reading" "lasts 2 2 success"
  shows "hoare (\<lambda>r. k \<le> cr_takes r) (and_then reading (\<lambda>_. and_then success (\<lambda>u. finish_frames w u)))
     (\<lambda>_ r. True) (\<lambda>e r. is_exception e \<and> 2 \<le> cr_takes r)"
proof -
  have "hoare (\<lambda>r. 2 \<le> cr_takes r) (finish_frames w u) (\<lambda>_ r. True) (\<lambda>e r. is_exception e \<and> 2 \<le> cr_takes r)" for u
    by (auto simp: hoare_def finish_frames_def yield_chat_def and_then_def give_def)
  then show ?thesis
    by (intro hoare_bind [OF assms(1) [unfolded lasts_def]] hoare_bind [OF assms(2) [unfolded lasts_def]])
qed

end
