(* ===== verification/ChatStreamSafety.thy ===== *)
theory ChatStreamSafety
  imports ChatStream ProxyStreamSafety
begin

text \<open>
  What a client, the scheduler and the statistics can rely on when a chat completion is streamed:
  the books of the lease and the telemetry, the order of the frames, and that the stream ends.
\<close>

section \<open>The phases of a chat\<close>

lemma stays_chunk: "stays (chat_chunk_out x c)"
  unfolding chat_chunk_out_def by (intro stays_bind stays_simple stays_yield stays_note) simp

lemma stays_reading: "stays (chat_reading x)"
  unfolding chat_reading_def by (intro stays_bind stays_simple stays_upstream stays_chunk)

lemma success_cases:
  assumes "chat_success x r = (res, r')" "running r"
  obtains e where "res = Inl e" "is_exception e" "running r'" "cr_waiting r' = cr_waiting r"
  | u where "res = Inr u" "u = reported_usage x r" "succeeded u r'" "cr_sent r' = cr_sent r" "cr_takes r' = cr_takes r"
  using assms
  by (auto simp: chat_success_def record_request_def Let_def and_then_def change_def throw_def give_def running_def
      succeeded_def is_exception_def split: json.splits)

text \<open>How the body ends: it raised with nothing settled, or it had succeeded.\<close>

lemma chat_body_cases:
  assumes "chat_body x r = (res, r')" "running r"
  shows "(\<exists>e. res = Inl e \<and> running r') \<or> (\<exists>u n. finished (include_usage x) u n r'
     \<and> (res = Inr () \<and> n = length (last_frames (include_usage x) u) \<or> res = Inl GeneratorExit))"
proof -
  obtain a r1 where a: "chat_reading x r = (a, r1)" by fastforce
  have k: "running r1" using hoareD [OF stays_reading [unfolded stays_def] assms(2) a] by (cases a) auto
  show ?thesis
  proof (cases a)
    case (Inl e)
    with assms(1) a k show ?thesis by (auto simp: chat_body_def and_then_def)
  next
    case (Inr v)
    obtain b r2 where b: "chat_success x r1 = (b, r2)" by fastforce
    from b k show ?thesis
    proof (cases rule: success_cases)
      case (1 e)
      with assms(1) a b Inr show ?thesis by (auto simp: chat_body_def and_then_def)
    next
      case (2 u)
      then have "finish_frames (include_usage x) u r2 = (res, r')"
        using assms(1) a b Inr by (auto simp: chat_body_def and_then_def)
      from finish_cases [OF this 2(3)] k 2(4) show ?thesis by (auto simp: running_def)
    qed
  qed
qed

interpretation chat: proxied x "chat_body x" "include_usage x" for x
  by unfold_locales (use chat_body_cases in blast)

section \<open>The books\<close>

text \<open>How a whole stream ends; its release is not awaited where it succeeds, so it ends once.\<close>

lemma serve_chat_cases:
  assumes "serve_chat x n = (res, r)" "ce_close_failed x = Answered" "ce_close x = Answered"
  obtains (over) u k where "chat_body x (start_chat n) = (res, r)" "finished (include_usage x) u k r"
      "res = Inr () \<and> k = length (last_frames (include_usage x) u) \<or> res = Inl GeneratorExit"
  | (failed) e r0 where "chat_body x (start_chat n) = (Inl e, r0)" "is_exception e" "running r0"
      "cr_sent r = cr_sent r0 @ [FailFrame (ce_text x e)]" "cr_releases r = [''failed'']" "cr_telemetry r = [(''error'', None)]"
      "ce_release x = Answered \<Longrightarrow> res = (if cr_takes r0 = 0 then Inl GeneratorExit else Inr ())"
  | (cancelled) e r0 where "chat_body x (start_chat n) = (Inl e, r0)" "\<not> is_exception e" "running r0"
      "cr_sent r = cr_sent r0" "cr_releases r = [''cancelled'']" "cr_telemetry r = [(''cancelled'', None)]"
  using assms unfolding serve_chat_def stream_chat_def
proof (cases rule: chat.proxied_cases)
  case (again u e r0)
  from chat_body_cases [OF again(1) running_start] again(2) have False
    by (auto simp: unreleased_def running_def finished_def succeeded_def)
  then show ?thesis ..
qed (use that in blast)+

text \<open>
  However the engine, the agent and the client behave, a chat stream whose connection closes
  releases its lease once and records the request once, with one outcome: completed and success,
  failed and error, or cancelled and cancelled.
\<close>

lemma stream_books:
  assumes "serve_chat x n = (res, r)" "ce_close_failed x = Answered" "ce_close x = Answered"
  shows "(cr_releases r, map fst (cr_telemetry r)) \<in> set OUTCOMES"
  using assms
proof (cases rule: serve_chat_cases)
  case (over u k)
  then show ?thesis by (simp add: finished_def succeeded_def OUTCOMES_def)
qed (simp_all add: OUTCOMES_def)

text \<open>How a stream may end.\<close>

definition well_ended :: "chat_env \<Rightarrow> chat_run \<Rightarrow> bool" where
  "well_ended x r \<longleftrightarrow> (\<exists>fs. list_all in_flow fs \<and>
     ((\<exists>u k. cr_sent r = fs @ take k (last_frames (include_usage x) u) \<and> cr_releases r = [''completed''])
      \<or> (\<exists>m. cr_sent r = fs @ [FailFrame m] \<and> cr_releases r = [''failed''])
      \<or> cr_sent r = fs \<and> cr_releases r = [''cancelled'']))"

text \<open>
  The frames of a stream: comments and chunks; then the usage (if the client wants it) and the end
  marker, which come only after the lease was released as completed; or one error, and no end
  marker after it; or nothing more, when the client left or the request was cancelled.
\<close>

theorem chat_frames_ordered:
  assumes "serve_chat x n = (res, r)" "ce_close_failed x = Answered" "ce_close x = Answered"
  shows "well_ended x r"
  using assms
proof (cases rule: serve_chat_cases)
  case (over u k)
  then show ?thesis by (auto simp: finished_def succeeded_def well_ended_def)
next
  case (failed e r0)
  then show ?thesis unfolding well_ended_def by (intro exI [of _ "cr_sent r0"]) (simp add: running_def)
next
  case (cancelled e r0)
  then show ?thesis unfolding well_ended_def by (intro exI [of _ "cr_sent r0"]) (simp add: running_def)
qed

section \<open>An answer\<close>

definition undisturbed :: "chat_env \<Rightarrow> bool" where
  "undisturbed x \<longleftrightarrow> calm (ce_ready x) \<and> calm_wire x \<and> (\<forall>d c e. ce_validate x d c = Inl e \<longrightarrow> is_exception e)"

lemma tidy_first_choice: "tidy (first_choice c)"
  unfolding first_choice_def by (rule tidy_bind [OF tidy_json(1)]) (auto intro!: tidy_Inr split: json.split list.split)

lemma tidy_delta: "tidy (choice_delta ch)" "tidy (get_text k j)"
  by (auto simp: choice_delta_def get_text_def intro!: tidy_intros)

lemma tidy_readers:
  "tidy (extract_delta_content c)" "tidy (extract_delta_reasoning c)" "tidy (extract_tool_call_deltas c)"
  "tidy (extract_finish_reason show c)"
  by (auto simp: extract_delta_content_def extract_delta_reasoning_def extract_tool_call_deltas_def
      extract_finish_reason_def Let_def is_exception_def
      intro!: tidy_bind [OF tidy_first_choice] tidy_intros tidy_delta split: option.split)

lemma tidy_usage:
  assumes "\<And>d c. tidy (validate d c)"
  shows "tidy (extract_usage validate c)"
proof -
  have count: "tidy (py_count j)" for j by (simp add: py_count_def tidy_json)
  have "tidy (cached_count d t)" "tidy (with_cached n d)" for d t n
    by (auto simp: cached_count_def with_cached_def is_exception_def intro!: tidy_intros count split: json.split)
  then have "tidy (read_usage validate fs u)" for fs u
    unfolding read_usage_def Let_def
    by (intro tidy_bind) (auto intro!: tidy_intros count assms split: prod.split)
  then show ?thesis
    by (auto simp: extract_usage_def no_attribute_def is_exception_def intro!: tidy_intros split: json.split option.split)
qed

lemma lasts_chunk:
  assumes "\<And>d c. tidy (ce_validate x d c)"
  shows "lasts (Suc k) k (chat_chunk_out x c)"
  unfolding chat_chunk_out_def
  by (intro lasts_then lasts_tidy lasts_note lasts_yield tidy_error tidy_usage assms tidy_readers tidy_json le_refl)

lemma lasts_body:
  assumes "undisturbed x" "chat_body x r = (res, r')" "frames_enough x \<le> cr_takes r"
  shows "case res of Inr u \<Rightarrow> True | Inl e \<Rightarrow> is_exception e \<and> 2 \<le> cr_takes r'"
proof -
  have "lasts (frames_enough x) 2 (chat_reading x)"
    unfolding chat_reading_def using assms(1)
    by (intro lasts_bind [where j = "frames_enough x"] lasts_await lasts_upstream lasts_chunk)
      (auto simp: undisturbed_def tidy_def frames_enough_def)
  moreover have "lasts 2 2 (chat_success x)"
    by (auto simp: lasts_def hoare_def chat_success_def record_request_def Let_def and_then_def change_def throw_def give_def
        is_exception_def split: json.split)
  ultimately show ?thesis using hoareD [OF lasts_whole assms(3)] assms(2) unfolding chat_body_def by blast
qed


text \<open>
  A stream that is cancelled, and cancelled again while it closes its connection to the agent,
  leaves the \<open>finally\<close> block before the release: the request is recorded as cancelled, and its
  lease is not given back by the stream.
\<close>

theorem second_cancel_keeps_lease:
  assumes "chat_body x (start_chat n) = (Inl CancelledError, r)" "cr_waiting r" "cr_releases r = []"
    and "ce_close x = Threw e"
  shows "serve_chat x n = (Inl e, r\<lparr>cr_telemetry := [(''cancelled'', None)]\<rparr>)"
proof -
  have r: "running r" using chat_body_cases [OF assms(1) running_start] assms(3) by (auto simp: finished_def succeeded_def)
  then have "record_unless ''cancelled'' r = (Inr (), r\<lparr>cr_telemetry := [(''cancelled'', None)]\<rparr>)"
    using unless_cancelled [of r] by (simp add: running_def)
  with r show ?thesis
    using assms by (simp add: serve_chat_def stream_chat_def stream_with_def is_exception_def and_then_def throw_def finally_do_def
        chat_finally_def close_waiting_def await_cases running_def)
qed

end
