(* ===== verification/ProxyStreamContent.thy ===== *)
theory ProxyStreamContent
  imports ProxyStreamSafety
begin

text \<open>
  What a proxied stream carries: for any route whose reader passes a chunk on as one frame, the
  frames of a completed stream are those of the engine's chunks, in order, and its usage is the
  last one the engine reported.
\<close>

section \<open>Lines and chunks\<close>

fun is_chunk :: "chat_frame \<Rightarrow> bool" where
  "is_chunk (ChunkFrame d fr) \<longleftrightarrow> True"
| "is_chunk f \<longleftrightarrow> False"

definition sent_chunks :: "chat_frame list \<Rightarrow> chat_frame list" where
  "sent_chunks fs = filter is_chunk fs"

lemma sent_chunks_simps [simp]:
  "sent_chunks [] = []" "sent_chunks (xs @ ys) = sent_chunks xs @ sent_chunks ys"
  "sent_chunks (f # fs) = (if is_chunk f then f # sent_chunks fs else sent_chunks fs)"
  by (simp_all add: sent_chunks_def)

definition is_marker :: "string \<Rightarrow> bool" where
  "is_marker line \<longleftrightarrow> (case sse_data line of None \<Rightarrow> False | Some d \<Rightarrow> strip d = ''[DONE]'')"

definition decode_lines :: "'e wire_env_scheme \<Rightarrow> string list \<Rightarrow> json list" where
  "decode_lines x ls = List.map_filter (\<lambda>l. case sse_data l of None \<Rightarrow> None | Some d \<Rightarrow> ce_loads x d)
     (takeWhile (\<lambda>l. \<not> is_marker l) ls)"

definition engine_lines :: "line_wake list \<Rightarrow> string list" where
  "engine_lines ws = List.map_filter (\<lambda>(t, u). case u of Line s \<Rightarrow> Some s | _ \<Rightarrow> None) ws"

definition engine_chunks :: "'e wire_env_scheme \<Rightarrow> json list" where
  "engine_chunks x = decode_lines x (engine_lines (ce_lines x))"

lemma decode_lines_Cons:
  "decode_lines x (l # ls) = (if is_marker l then [] else decode_lines x [l] @ decode_lines x ls)"
  by (simp add: decode_lines_def map_filter_def)

definition somes :: "'a option list \<Rightarrow> 'a list" where
  "somes xs = List.map_filter id xs"

lemma somes_simps [simp]: "somes [] = []" "somes (None # xs) = somes xs" "somes (Some a # xs) = a # somes xs"
  by (simp_all add: somes_def map_filter_def)

lemma lines_are_prefix: "\<exists>zs. engine_lines ws = somes (fst (lines_keepalive d ff ws)) @ zs"
proof (induction ws arbitrary: ff)
  case (Cons w ws)
  obtain t u where w: "w = (t, u)" by (cases w)
  have c: "engine_lines (w # ws) = (case u of Line s \<Rightarrow> [s] | _ \<Rightarrow> []) @ engine_lines ws"
    unfolding w by (cases u) (simp_all add: engine_lines_def map_filter_def)
  show ?case
  proof (cases "\<not> ff \<and> d - t \<le> 0")
    case True
    with w show ?thesis by simp
  next
    case False
    show ?thesis
    proof (cases u)
      case (Line s)
      with c w Cons.IH [of "ff \<or> is_data s"] show ?thesis by (auto split: prod.splits)
    next
      case Idle
      with c w Cons.IH [of ff] show ?thesis by (auto split: prod.splits)
    qed (use False w in simp)
  qed
qed simp

lemma decode_prefix:
  assumes "list_ex is_marker ls"
  shows "decode_lines x (ls @ zs) = decode_lines x ls"
proof -
  obtain l where "l \<in> set ls" "is_marker l" using assms by (auto simp: list_ex_iff)
  then have "takeWhile (\<lambda>l. \<not> is_marker l) (ls @ zs) = takeWhile (\<lambda>l. \<not> is_marker l) ls"
    by (intro takeWhile_append1) auto
  then show ?thesis by (simp add: decode_lines_def)
qed

text \<open>Successful runs, step by step.\<close>

lemma run_ok:
  "and_then m k r = (Inr b, r') \<longleftrightarrow> (\<exists>a r1. m r = (Inr a, r1) \<and> k a r1 = (Inr b, r'))"
  "lift_res n r = (Inr b, r') \<longleftrightarrow> n = Inr b \<and> r' = r"
  "change f s = (Inr v, s') \<longleftrightarrow> s' = f s"
  "yield_chat g t = (Inr v, t') \<longleftrightarrow> cr_takes t \<noteq> 0 \<and> t' = t\<lparr>cr_sent := cr_sent t @ [g], cr_takes := cr_takes t - 1\<rparr>"
  "give c r = (Inr d, r') \<longleftrightarrow> d = c \<and> r' = r"
  by (auto simp: and_then_def lift_res_def give_def throw_def change_def yield_chat_def split: prod.splits sum.splits)

lemma await_ok: "await_answer a r = (Inr u, r') \<longleftrightarrow> a = Answered \<and> r' = r"
  by (auto simp: await_cases split: answer.splits)

section \<open>Reading keeps a tally\<close>

text \<open>
  What a route makes of a chunk: one frame, the usage it reports, the characters it adds; a script
  that passes the chunk on does just that, and does not touch the books.
\<close>

locale chunk_reader =
  fixes out :: "json \<Rightarrow> unit chat_script" and frame_of :: "json \<Rightarrow> exn + chat_frame"
    and usage_of :: "json \<Rightarrow> exn + chat_usage option" and chars_of :: "json \<Rightarrow> nat"
  assumes out_stays: "stays (out c)"
    and out_passes: "out c r = (Inr u, r') \<Longrightarrow> \<exists>us f. usage_of c = Inr us \<and> frame_of c = Inr f \<and> is_chunk f
      \<and> cr_sent r' = cr_sent r @ [f] \<and> cr_usage r' = (case us of None \<Rightarrow> cr_usage r | Some v \<Rightarrow> Some v)
      \<and> cr_chars r' = cr_chars r + chars_of c"
begin

definition reported :: "json list \<Rightarrow> chat_usage list" where
  "reported cs = List.map_filter (\<lambda>c. case usage_of c of Inr u \<Rightarrow> u | Inl e \<Rightarrow> None) cs"

definition tallied :: "json list \<Rightarrow> chat_run \<Rightarrow> bool" where
  "tallied cs r \<longleftrightarrow> map Inr (sent_chunks (cr_sent r)) = map frame_of cs
     \<and> cr_usage r = (if reported cs = [] then None else Some (last (reported cs)))
     \<and> cr_chars r = sum_list (map chars_of cs)"

lemma tallied_start: "tallied [] (start_chat n)"
  by (simp add: tallied_def start_chat_def reported_def map_filter_def)

lemma tallied_comment: "tallied cs r \<Longrightarrow> tallied cs (snd (yield_chat Comment r))"
  by (simp add: tallied_def yield_chat_def)

lemma tallied_chunk:
  assumes "tallied cs r" "out c r = (Inr u, r')"
  shows "tallied (cs @ [c]) r'"
proof -
  from out_passes [OF assms(2)] obtain us f where parts: "usage_of c = Inr us" "frame_of c = Inr f" "is_chunk f"
      "cr_sent r' = cr_sent r @ [f]" "cr_usage r' = (case us of None \<Rightarrow> cr_usage r | Some v \<Rightarrow> Some v)"
      "cr_chars r' = cr_chars r + chars_of c" by blast
  have "reported (cs @ [c]) = reported cs @ (case us of None \<Rightarrow> [] | Some v \<Rightarrow> [v])"
    by (cases us) (simp_all add: reported_def map_filter_def parts(1))
  with assms(1) parts(2-6) show ?thesis by (cases us) (auto simp: tallied_def)
qed

lemma tallied_line:
  assumes "tallied cs r" "read_line x out line r = (Inr b, r')"
  shows "b = is_marker line" "\<not> b \<Longrightarrow> tallied (cs @ decode_lines x [line]) r'" "b \<Longrightarrow> r' = r"
proof -
  have "b = is_marker line \<and> (\<not> b \<longrightarrow> tallied (cs @ decode_lines x [line]) r') \<and> (b \<longrightarrow> r' = r)"
    using assms
    by (auto simp: read_line_def is_marker_def decode_lines_def map_filter_def give_def and_then_def
        dest: tallied_chunk split: option.splits if_splits prod.splits sum.splits)
  then show "b = is_marker line" "\<not> b \<Longrightarrow> tallied (cs @ decode_lines x [line]) r'" "b \<Longrightarrow> r' = r" by auto
qed

lemma tallied_items:
  assumes "tallied cs r" "read_items x out end items r = (Inr True, r')"
  shows "tallied (cs @ decode_lines x (somes items)) r' \<and> list_ex is_marker (somes items)"
  using assms
proof (induction items arbitrary: cs r)
  case Nil
  then show ?case by (auto simp: and_then_def lift_res_def give_def throw_def split: sum.splits)
next
  case (Cons item items)
  show ?case
  proof (cases item)
    case None
    obtain v r1 where y: "yield_chat Comment r = (v, r1)" by fastforce
    with None Cons.prems(2) have "read_items x out end items r1 = (Inr True, r')"
      by (auto simp: and_then_def split: sum.splits)
    moreover have "tallied cs r1" using tallied_comment [OF Cons.prems(1)] y by simp
    ultimately show ?thesis using Cons.IH None by simp
  next
    case (Some line)
    obtain v r1 where l: "read_line x out line r = (v, r1)" by fastforce
    then obtain b where v: "v = Inr b" using Cons.prems(2) Some by (cases v) (auto simp: and_then_def)
    note t = tallied_line [OF Cons.prems(1) l [unfolded v]]
    show ?thesis
    proof (cases b)
      case True
      then have "r' = r" using Cons.prems(2) Some l v t(3) by (simp add: and_then_def give_def)
      with Cons.prems(1) True t(1) Some show ?thesis by (simp add: decode_lines_Cons [of x line "somes items"])
    next
      case False
      then have "read_items x out end items r1 = (Inr True, r')" using Cons.prems(2) Some l v by (simp add: and_then_def)
      from Cons.IH [OF t(2) this] False t(1) Some show ?thesis by (simp add: decode_lines_Cons [of x line "somes items"])
    qed
  qed
qed

lemma tallied_steps:
  "tallied cs (r\<lparr>cr_marked := b, cr_waiting := w\<rparr>) = tallied cs r"
  by (simp add: tallied_def)

lemma tallied_comments:
  "deliver_all yield_chat (replicate n Comment) r = (Inr u, r') \<Longrightarrow> tallied cs r \<Longrightarrow> tallied cs r'"
proof (induction n arbitrary: r)
  case (Suc n)
  let ?r1 = "r\<lparr>cr_sent := cr_sent r @ [Comment], cr_takes := cr_takes r - 1\<rparr>"
  from Suc.prems(1) have "deliver_all yield_chat (replicate n Comment) ?r1 = (Inr u, r')" by (simp add: run_ok)
  moreover have "tallied cs ?r1" using Suc.prems(2) by (simp add: tallied_def)
  ultimately show ?case by (rule Suc.IH)
qed (simp add: give_def)

lemma reading_tally:
  assumes "read_upstream x out r = (Inr u, r')" "tallied [] r"
  shows "tallied (engine_chunks x) r'"
proof -
  from assms(1) obtain r1 r2 d where o: "open_chat x r1 = (Inr d, r2)" "tallied [] r1"
    and b: "read_proxied x out d r2 = (Inr True, r')"
    by (auto simp: read_upstream_def run_ok await_ok find_agent_def assms(2) tallied_steps throw_def split: if_splits)
  from o have "tallied [] r2"
    by (auto simp: open_chat_def run_ok dest: tallied_comments split: prod.splits)
  moreover obtain items e where i: "lines_with_keepalive d (ce_lines x) = (items, e)" by fastforce
  ultimately have t: "tallied (decode_lines x (somes items)) r'" "list_ex is_marker (somes items)"
    using tallied_items [of "[]" r2 x e items r'] b by (auto simp: read_proxied_def)
  obtain zs where "engine_lines (ce_lines x) = somes items @ zs"
    using lines_are_prefix [of "ce_lines x" d False] i by (auto simp: lines_with_keepalive_def)
  with t show ?thesis by (simp add: engine_chunks_def decode_prefix)
qed

end

end
