(* ===== verification/ChatContent.thy ===== *)
theory ChatContent
  imports ChatStreamSafety ProxyStreamContent
begin

text \<open>
  What a chat completion carries: the messages and options that reach the engine, and the chunks,
  finish reasons, tool calls and usage that reach the client, compared with the engine's own.
\<close>

section \<open>The chunks of a stream\<close>

text \<open>The frame a chunk of the engine becomes.\<close>

definition chunk_of :: "chat_env \<Rightarrow> json \<Rightarrow> exn + chat_frame" where
  "chunk_of x c =
     bind_res (extract_delta_content c) (\<lambda>content.
     bind_res (extract_delta_reasoning c) (\<lambda>reasoning.
     bind_res (extract_tool_call_deltas c) (\<lambda>tcs.
     bind_res (extract_finish_reason (ce_show x) c) (\<lambda>fr.
     Inr (ChunkFrame (delta_out content reasoning tcs) fr)))))"

definition chunk_chars :: "json \<Rightarrow> nat" where
  "chunk_chars c = (case bind_res (extract_delta_content c) py_len of Inr n \<Rightarrow> n | Inl e \<Rightarrow> 0)"

interpretation chat_chunks: chunk_reader "chat_chunk_out x" "chunk_of x" "extract_usage (ce_validate x)" chunk_chars for x
proof unfold_locales
  show "stays (chat_chunk_out x c)" for x c by (rule stays_chunk)
  fix x c r u r'
  assume "chat_chunk_out x c r = (Inr u, r')"
  then obtain us content n reasoning tcs fr where parts:
      "extract_usage (ce_validate x) c = Inr us" "extract_delta_content c = Inr content"
      "extract_delta_reasoning c = Inr reasoning" "py_len content = Inr n"
      "extract_tool_call_deltas c = Inr tcs" "extract_finish_reason (ce_show x) c = Inr fr"
      "cr_sent r' = cr_sent r @ [ChunkFrame (delta_out content reasoning tcs) fr]"
      "cr_usage r' = (case us of None \<Rightarrow> cr_usage r | Some v \<Rightarrow> Some v)" "cr_chars r' = cr_chars r + n"
    unfolding chat_chunk_out_def run_ok
    by (elim exE conjE) (simp add: note_usage_def split: option.splits)
  moreover have "chunk_of x c = Inr (ChunkFrame (delta_out content reasoning tcs) fr)" "chunk_chars c = n"
    by (simp_all add: chunk_of_def chunk_chars_def parts(2-6))
  ultimately show "\<exists>us f. extract_usage (ce_validate x) c = Inr us \<and> chunk_of x c = Inr f \<and> is_chunk f
      \<and> cr_sent r' = cr_sent r @ [f] \<and> cr_usage r' = (case us of None \<Rightarrow> cr_usage r | Some v \<Rightarrow> Some v)
      \<and> cr_chars r' = cr_chars r + chunk_chars c"
    by simp
qed

text \<open>The usage of a whole stream: the last one reported, else an estimate of its text.\<close>

definition usages :: "chat_env \<Rightarrow> json list \<Rightarrow> chat_usage list" where
  "usages x cs = List.map_filter (\<lambda>c. case extract_usage (ce_validate x) c of Inr u \<Rightarrow> u | Inl e \<Rightarrow> None) cs"

definition stream_usage :: "chat_env \<Rightarrow> json list \<Rightarrow> chat_usage" where
  "stream_usage x cs = (case usages x cs of
     [] \<Rightarrow> fallback_usage (rq_messages (ce_request x)) (sum_list (map chunk_chars cs))
   | u # us \<Rightarrow> last (u # us))"

lemma body_tally:
  assumes "chat_body x r = (res, r')" "running r" "chat_chunks.tallied x [] r" "cr_releases r' = [''completed'']"
  shows "map Inr (sent_chunks (cr_sent r')) = map (chunk_of x) (engine_chunks x)
    \<and> cr_telemetry r' = [(''success'', Some (dump_usage (stream_usage x (engine_chunks x))))]
    \<and> (\<exists>fs k. list_all in_flow fs \<and> cr_sent r' = fs @ take k (last_frames (include_usage x) (stream_usage x (engine_chunks x))))"
proof -
  obtain a r1 where a: "chat_reading x r = (a, r1)" by fastforce
  have k: "running r1" using hoareD [OF stays_reading [unfolded stays_def] assms(2) a] by (cases a) auto
  then obtain v where v: "a = Inr v"
    using assms(1,4) a by (cases a) (auto simp: chat_body_def and_then_def running_def)
  have t: "chat_chunks.tallied x (engine_chunks x) r1"
    using a v assms(3) by (auto simp: chat_reading_def run_ok await_ok engine_chunks_def dest: chat_chunks.reading_tally)
  obtain b r2 where b: "chat_success x r1 = (b, r2)" by fastforce
  from b k show ?thesis
  proof (cases rule: success_cases)
    case (1 e)
    with assms(1,4) a b v show ?thesis by (auto simp: chat_body_def and_then_def running_def)
  next
    case (2 u)
    have u: "u = stream_usage x (engine_chunks x)"
      using 2(2) t by (auto simp: reported_usage_def stream_usage_def chat_chunks.tallied_def chat_chunks.reported_def usages_def split: list.split)
    have f: "finish_frames (include_usage x) u r2 = (res, r')" using assms(1) a b v 2(1) by (auto simp: chat_body_def and_then_def)
    obtain n where n: "cr_sent r' = cr_sent r1 @ take n (last_frames (include_usage x) u)" using finish_sent(1) [OF f] 2(4) by auto
    have no_chunk: "sent_chunks (take n (last_frames (include_usage x) u)) = []"
      by (auto simp: sent_chunks_def filter_empty_conv last_frames_def dest!: in_set_takeD split: if_splits)
    have "cr_telemetry r' = [(''success'', Some (dump_usage u))]" using finish_sent(2) [OF f] 2(3) by (simp add: succeeded_def)
    moreover have "map Inr (sent_chunks (cr_sent r')) = map (chunk_of x) (engine_chunks x)"
      using t n no_chunk by (simp add: chat_chunks.tallied_def)
    moreover have "list_all in_flow (cr_sent r1)" using k by (simp add: running_def)
    ultimately show ?thesis using n unfolding u by blast
  qed
qed

text \<open>
  A completed stream is the engine's: its chunks are, one for one and in order, those the engine
  sent before its end marker; and the usage recorded, and sent to a client who wants it, is the
  last the engine reported, or the estimate over everything it sent when it reported none.
\<close>

theorem chat_passes_chunks:
  assumes "serve_chat x n = (res, r)" "ce_close_failed x = Answered" "ce_close x = Answered"
    and "cr_releases r = [''completed'']"
  shows "map Inr (sent_chunks (cr_sent r)) = map (chunk_of x) (engine_chunks x)
    \<and> cr_telemetry r = [(''success'', Some (dump_usage (stream_usage x (engine_chunks x))))]
    \<and> (\<exists>fs k. list_all in_flow fs \<and> cr_sent r = fs @ take k (last_frames (include_usage x) (stream_usage x (engine_chunks x))))"
  using assms(1-3)
proof (cases rule: serve_chat_cases)
  case (over u k)
  then show ?thesis by (intro body_tally [OF over(1) running_start chat_chunks.tallied_start assms(4)])
qed (use assms(4) in simp_all)

section \<open>Messages\<close>

text \<open>A message of the payload, read as a message of a request again.\<close>

definition role_of :: "string \<Rightarrow> role" where
  "role_of s = (if s = ''system'' then RSystem else if s = ''user'' then RUser else if s = ''assistant'' then RAssistant
     else if s = ''developer'' then RDeveloper else RTool)"

definition text_field :: "string \<Rightarrow> obj \<Rightarrow> string option" where
  "text_field k m = (case map_of m k of Some (JStr s) \<Rightarrow> Some s | _ \<Rightarrow> None)"

fun the_obj :: "json \<Rightarrow> obj" where
  "the_obj (JObj fs) = fs"
| "the_obj j = []"

definition read_message :: "obj \<Rightarrow> request_message" where
  "read_message m = \<lparr>cm_role = role_of (the (text_field ''role'' m)),
     cm_content = (case text_field ''content'' m of None \<Rightarrow> NoContent | Some s \<Rightarrow> TextContent s),
     cm_reasoning = text_field ''reasoning_content'' m, cm_name = text_field ''name'' m,
     cm_tool_call_id = text_field ''tool_call_id'' m,
     cm_tool_calls = (case map_of m ''tool_calls'' of Some (JArr cs) \<Rightarrow> Some (map the_obj cs) | _ \<Rightarrow> None)\<rparr>"

text \<open>What the engine needs of a message: who speaks, the text, and the turn of a tool.\<close>

definition nonempty_text :: "string option \<Rightarrow> string option" where
  "nonempty_text v = (if v = Some [] then None else v)"

definition turn_of :: "request_message \<Rightarrow> role \<times> string \<times> string option \<times> string option \<times> obj list" where
  "turn_of m = (cm_role m, llama_content m,
     if cm_role m = RTool then nonempty_text (cm_tool_call_id m) else None,
     if cm_role m = RTool then nonempty_text (cm_name m) else None,
     if cm_role m = RAssistant then (case cm_tool_calls m of None \<Rightarrow> [] | Some cs \<Rightarrow> cs) else [])"

lemma role_of_name [simp]: "role_of (role_name ro) = ro"
  by (cases ro) (simp_all add: role_of_def)

lemma turn_roundtrip: "turn_of (read_message (convert_message m)) = turn_of m"
proof (cases "cm_role m")
  case RTool
  then show ?thesis
    by (cases "cm_tool_call_id m"; cases "cm_name m")
      (auto simp: turn_of_def convert_message_def read_message_def text_field_def if_given_def role_of_def
        llama_content_def nonempty_text_def)
next
  case RAssistant
  have "map (the_obj \<circ> JObj) cs = cs" for cs by (induction cs) auto
  with RAssistant show ?thesis
    by (cases "cm_tool_calls m") (auto simp: turn_of_def convert_message_def read_message_def text_field_def role_of_def llama_content_def)
qed (auto simp: turn_of_def convert_message_def read_message_def text_field_def role_of_def llama_content_def)


section \<open>Streamed and buffered\<close>

text \<open>
  The two payloads say the same to the engine: every field but \<open>stream\<close> and \<open>stream_options\<close> is
  the same in both, and those two differ as they must.
\<close>

lemma map_of_update_all: "map_of (update_all new fs) k = (case map_of (rev new) k of None \<Rightarrow> map_of fs k | Some v \<Rightarrow> Some v)"
  unfolding update_all_def
  by (induction new arbitrary: fs) (auto simp: map_add_def split: option.split)

lemma options_other:
  assumes "map_of p k = map_of q k"
  shows "map_of (add_options npu r p) k = map_of (add_options npu r q) k"
  by (cases "npu \<in> {None, Some []}")
    (simp_all only: add_options_def Let_def map_of_update_all map_of_put_some map_of_put fun_upd_apply assms if_True if_False)

lemma tools_keys: "set (map fst (tools_payload r)) \<subseteq> {''tools'', ''tool_choice''}"
  by (auto simp: tools_payload_def split: option.splits if_splits)

lemma options_kept:
  assumes "k \<in> {''messages'', ''stream'', ''stream_options''}"
  shows "map_of (add_options npu r p) k = map_of p k"
proof -
  have "k \<notin> set (map fst (tools_payload r))" using tools_keys assms by blast
  then have t: "map_of (rev (tools_payload r)) k = None" by (simp add: map_of_eq_None_iff)
  have k: "k \<noteq> ''model''" "k \<noteq> ''temperature''" "k \<noteq> ''max_tokens''" "k \<noteq> ''top_p''" "k \<noteq> ''frequency_penalty''"
    "k \<noteq> ''presence_penalty''" "k \<noteq> ''stop''" "k \<noteq> ''reasoning_effort''" using assms by auto
  show ?thesis
    by (cases "npu \<in> {None, Some []}")
      (simp_all only: add_options_def Let_def map_of_update_all t map_of_put_some map_of_put fun_upd_apply k option.case
        simp_thms if_True if_False)
qed

theorem payloads_agree:
  "(\<lambda>k. if k = ''stream'' \<or> k = ''stream_options'' then None else map_of (stream_payload npu r) k)
     = (\<lambda>k. if k = ''stream'' \<or> k = ''stream_options'' then None else map_of (buffered_payload npu r) k)
   \<and> map_of (stream_payload npu r) ''stream'' = Some (JBool True)
   \<and> map_of (buffered_payload npu r) ''stream'' = Some (JBool False)
   \<and> map_of (buffered_payload npu r) ''stream_options'' = None
   \<and> map_of (stream_payload npu r) ''messages'' = Some (JArr (map JObj (convert_messages (rq_messages r))))"
proof -
  let ?p = "\<lambda>b. [(''messages'', JArr (map JObj (convert_messages (rq_messages r)))), (''stream'', JBool b)]"
  have "map_of (add_options npu r (?p True)) k = map_of (add_options npu r (?p False)) k"
    if "k \<noteq> ''stream''" for k
    using that by (intro options_other) auto
  moreover have "map_of (add_options npu r (?p b)) ''stream'' = Some (JBool b)"
    "map_of (add_options npu r (?p b)) ''stream_options'' = None"
    "map_of (add_options npu r (?p b)) ''messages'' = Some (JArr (map JObj (convert_messages (rq_messages r))))" for b
    by (simp_all add: options_kept)
  ultimately show ?thesis by (auto simp: stream_payload_def buffered_payload_def)
qed

text \<open>
  Both ways of serving a request account for it alike: when the engine reports the tokens of the
  prompt and of the completion and a buffered call accepts the report, a streamed chunk with the
  same report has the same counts and the same details of the prompt.
\<close>

lemma count_or_int:
  assumes "count_or k (JObj u) e = Inr n" "look k JNull u \<noteq> JNull"
  shows "py_count (look k d u) = Inr n"
proof -
  have "look k d u = look k JNull u" using assms(2) by (auto simp: look_def split: option.splits)
  then show ?thesis using assms
    by (cases "look k JNull u") (auto simp: count_or_def py_count_def py_or_def trunc_def int_of_text_def strip_def split: if_splits)
qed

theorem usage_accounts_agree:
  assumes "reply_usage (JObj response) (JObj u) chars n = Inr usage"
    and "look ''prompt_tokens'' JNull u \<noteq> JNull" "look ''completion_tokens'' JNull u \<noteq> JNull"
  shows "\<exists>s. read_usage (\<lambda>d c. Inr (d, c)) response u = Inr s \<and> cu_prompt s = cu_prompt usage
    \<and> cu_completion s = cu_completion usage \<and> cu_total s = cu_total usage
    \<and> cu_prompt_details s = cu_prompt_details usage"
proof -
  let ?pd = "py_or (look ''prompt_tokens_details'' JNull u) (JObj [])"
  let ?t = "py_or (look ''timings'' JNull response) (JObj [])"
  obtain cached where parts:
      "count_or ''prompt_tokens'' (JObj u) (int (chars div 4)) = Inr (cu_prompt usage)"
      "count_or ''completion_tokens'' (JObj u) (int (n div 4)) = Inr (cu_completion usage)"
      "count_or ''total_tokens'' (JObj u) (cu_prompt usage + cu_completion usage) = Inr (cu_total usage)"
      "cached_count ?pd ?t = Inr cached" "with_cached cached ?pd = Inr (cu_prompt_details usage)"
    using assms(1) by (auto simp: reply_usage_def bind_res_Inr_iff)
  note counts = count_or_int [OF parts(1) assms(2)] count_or_int [OF parts(2) assms(3)]
  have total: "(if look ''total_tokens'' JNull u = JNull then Inr (cu_prompt usage + cu_completion usage)
      else py_int (look ''total_tokens'' JNull u)) = Inr (cu_total usage)"
    using parts(3) by (simp add: count_or_def)
  show ?thesis by (simp add: read_usage_def Let_def counts total parts(4,5))
qed

end
