(* ===== verification/ChatTargets.thy ===== *)
theory ChatTargets
  imports ChatMessages Tables
begin

text \<open>
  Which server a chat request is for: backend/app/services/inference_target.py (an alias, the name
  of an NPU model on a flash instance, a model by name or id), npu_aliases.py, the capability and
  reasoning metadata of an instance (server_startup.py, reasoning_metadata.py), and
  \<open>_get_or_create_server\<close> of v1_chat_completions.py, which adds a row for a model that has none.
  \<^item> The metadata column is JSON, read from a row by the argument \<open>meta\<close>. The field types of the
    reasoning block are checked by pydantic: the argument \<open>parse\<close> returns its typed fields.
  \<^item> \<open>uuid.UUID\<close> of a text is the argument \<open>uuid_of\<close>, which is None where it raises ValueError.
\<close>

section \<open>NPU aliases\<close>

definition NPU_SUFFIXES :: "(string \<times> string) list" where
  "NPU_SUFFIXES = [(''qwen3-embedding-0.6b'', ''embed''), (''qwen3-reranker-0.6b'', ''rerank''),
     (''qwen3.5-2b'', ''nano''), (''decider-0.8b'', ''decide''), (''qwen3guard-gen-0.6b'', ''guard'')]"

definition client_name :: "string \<Rightarrow> string \<Rightarrow> string option" where
  "client_name alias upstream = map_option (\<lambda>suffix. alias @ ''-'' @ suffix) (map_of NPU_SUFFIXES upstream)"

definition ends_in :: "string \<Rightarrow> string \<Rightarrow> bool" where
  "ends_in s suffix \<longleftrightarrow> length suffix \<le> length s \<and> drop (length s - length suffix) s = suffix"

definition status_priority :: "server_row \<Rightarrow> nat" where
  "status_priority s = (case srv_status s of SrvRunning \<Rightarrow> 0 | SrvStarting \<Rightarrow> 1 | SrvStopped \<Rightarrow> 2 | _ \<Rightarrow> 3)"

definition flash_candidates :: "string \<Rightarrow> db \<Rightarrow> server_row list" where
  "flash_candidates alias d = sort_key status_priority (filter (\<lambda>s. srv_alias s = alias \<and>
     srv_engine s = ''halogen-flash'' \<and> srv_status s \<in> {SrvRunning, SrvStarting, SrvStopped}) (db_servers d))"

text \<open>The first suffix that fits a non-empty alias decides, even when no instance enables the model.\<close>

fun npu_among :: "(string \<times> string) list \<Rightarrow> string \<Rightarrow> db \<Rightarrow> (server_row \<times> string) option" where
  "npu_among [] model d = None"
| "npu_among ((upstream, suffix) # rest) model d =
     (if \<not> ends_in model (''-'' @ suffix) \<or> length model = length suffix + 1 then npu_among rest model d
      else map_option (\<lambda>s. (s, upstream)) (List.find (\<lambda>s. upstream \<in> set (srv_npu_models s))
             (flash_candidates (take (length model - (length suffix + 1)) model) d)))"

definition npu_virtual_alias :: "string \<Rightarrow> db \<Rightarrow> (server_row \<times> string) option" where
  "npu_virtual_alias model d = npu_among NPU_SUFFIXES model d"

section \<open>Targets\<close>

record inference_target =
  tg_model :: model_row
  tg_preferred :: "uuid option"
  tg_agent :: "uuid option"
  tg_server :: "server_row option"
  tg_npu :: "string option"

definition alias_row :: "string \<Rightarrow> server_row \<Rightarrow> bool" where
  "alias_row model s \<longleftrightarrow> srv_alias s = model \<and> srv_status s \<in> {SrvStarting, SrvRunning, SrvStopped}"

text \<open>\<open>UUID(agent_id) if agent_id else None\<close>.\<close>

definition agent_of :: "(string \<Rightarrow> uuid option) \<Rightarrow> string option \<Rightarrow> exn + uuid option" where
  "agent_of uuid_of agent = (case agent of
     None \<Rightarrow> Inr None
   | Some a \<Rightarrow> if a = [] then Inr None
               else (case uuid_of a of None \<Rightarrow> Inl (ValueError ''badly formed hexadecimal UUID string'') | Some i \<Rightarrow> Inr (Some i)))"

definition pinned_target ::
  "(string \<Rightarrow> uuid option) \<Rightarrow> string \<Rightarrow> string option \<Rightarrow> server_row \<Rightarrow> string option \<Rightarrow> db \<Rightarrow> exn + inference_target" where
  "pinned_target uuid_of missing agent s npu d =
     (case get_model d (srv_model_id s) of
        None \<Rightarrow> Inl (LookupError missing)
      | Some m \<Rightarrow> (case agent_of uuid_of agent of
          Inl e \<Rightarrow> Inl e
        | Inr a \<Rightarrow> Inr \<lparr>tg_model = m, tg_preferred = Some (srv_id s), tg_agent = a, tg_server = Some s, tg_npu = npu\<rparr>))"

definition find_model :: "(string \<Rightarrow> uuid option) \<Rightarrow> string \<Rightarrow> db \<Rightarrow> model_row option" where
  "find_model uuid_of model d =
     (case first_row (filter (\<lambda>m. md_name m = model) (db_models d)) of
        Some m \<Rightarrow> Some m
      | None \<Rightarrow> (case uuid_of model of None \<Rightarrow> None | Some i \<Rightarrow> get_model d i))"

definition resolve_inference_target ::
  "(string \<Rightarrow> uuid option) \<Rightarrow> string \<Rightarrow> string option \<Rightarrow> db \<Rightarrow> exn + inference_target" where
  "resolve_inference_target uuid_of model agent d =
     (case first_row (filter (alias_row model) (db_servers d)) of
        Some s \<Rightarrow> pinned_target uuid_of (''Model for server alias '' @ model @ '' not found'') agent s None d
      | None \<Rightarrow>
          (case npu_virtual_alias model d of
             Some (s, upstream) \<Rightarrow>
               pinned_target uuid_of (''Model for NPU host '' @ srv_alias s @ '' not found'') agent s (Some upstream) d
           | None \<Rightarrow>
               (case find_model uuid_of model d of
                  None \<Rightarrow> Inl (LookupError (''Model '' @ model @ '' not found''))
                | Some m \<Rightarrow> (case agent_of uuid_of agent of
                    Inl e \<Rightarrow> Inl e
                  | Inr a \<Rightarrow> Inr \<lparr>tg_model = m, tg_preferred = None, tg_agent = a, tg_server = None, tg_npu = None\<rparr>))))"

section \<open>Capabilities\<close>

text \<open>\<open>metadata_capability\<close>; the column is a JSON object, or null.\<close>

definition metadata_capability :: "string \<Rightarrow> json \<Rightarrow> exn + bool option" where
  "metadata_capability capability metadata =
     (let m = py_or metadata (JObj [])
      in bind_res (py_get (''supports_'' @ capability) JNull m) (\<lambda>direct.
         case direct of JBool b \<Rightarrow> Inr (Some b)
         | _ \<Rightarrow> bind_res (py_get ''capabilities'' JNull m) (\<lambda>caps.
             case caps of
               JObj fs \<Rightarrow> Inr (case look capability JNull fs of JBool b \<Rightarrow> Some b | _ \<Rightarrow> None)
             | _ \<Rightarrow> Inr None)))"

section \<open>Reasoning\<close>

definition ALL_REASONING_EFFORTS :: "string list" where
  "ALL_REASONING_EFFORTS = [''none'', ''low'', ''medium'', ''high'', ''xhigh'']"

record reasoning_block =
  rb_supported :: bool
  rb_efforts :: "string list"
  rb_default :: "string option"

definition validate_efforts :: "reasoning_block \<Rightarrow> bool" where
  "validate_efforts b \<longleftrightarrow> (rb_supported b \<or> rb_efforts b = [] \<and> rb_default b = None)
     \<and> distinct (rb_efforts b)
     \<and> (case rb_default b of None \<Rightarrow> True | Some e \<Rightarrow> e \<in> set (rb_efforts b))"

definition reasoning_block_of :: "(obj \<Rightarrow> reasoning_block option) \<Rightarrow> json \<Rightarrow> reasoning_block option" where
  "reasoning_block_of parse metadata =
     (case metadata of
        JObj fs \<Rightarrow> (case look ''reasoning'' JNull fs of
            JObj b \<Rightarrow> (case parse b of Some v \<Rightarrow> if validate_efforts v then Some v else None | None \<Rightarrow> None)
          | _ \<Rightarrow> None)
      | _ \<Rightarrow> None)"

definition allowed_reasoning_efforts :: "(obj \<Rightarrow> reasoning_block option) \<Rightarrow> json \<Rightarrow> exn + string list option" where
  "allowed_reasoning_efforts parse metadata =
     (case reasoning_block_of parse metadata of
        Some b \<Rightarrow> Inr (Some (if rb_supported b then rb_efforts b else []))
      | None \<Rightarrow>
          bind_res (case metadata of
              JObj fs \<Rightarrow> py_get ''reasoning'' JNull (look ''capabilities'' (JObj []) fs)
            | _ \<Rightarrow> Inr JNull) (\<lambda>legacy.
          let legacy' = (case legacy of JBool b \<Rightarrow> legacy
                         | _ \<Rightarrow> (case metadata of JObj fs \<Rightarrow> look ''supports_reasoning'' JNull fs | _ \<Rightarrow> JNull))
          in Inr (if legacy' = JBool True then Some ALL_REASONING_EFFORTS
                  else if legacy' = JBool False then Some [] else None)))"

definition default_reasoning_effort :: "(obj \<Rightarrow> reasoning_block option) \<Rightarrow> json \<Rightarrow> string option" where
  "default_reasoning_effort parse metadata =
     (case reasoning_block_of parse metadata of
        Some b \<Rightarrow> if rb_supported b then rb_default b else None
      | None \<Rightarrow> None)"

definition effort_refused :: "string \<Rightarrow> string list \<Rightarrow> exn" where
  "effort_refused requested allowed = ReasoningPolicyError
     (''reasoning effort '' @ requested @ '' is not supported by this model; supported efforts: '' @
      (if allowed = [] then ''none'' else concat (hd allowed # map (\<lambda>e. '', '' @ e) (tl allowed))))"

definition resolve_reasoning_effort ::
  "(obj \<Rightarrow> reasoning_block option) \<Rightarrow> json \<Rightarrow> string option \<Rightarrow> exn + string option" where
  "resolve_reasoning_effort parse metadata requested =
     bind_res (allowed_reasoning_efforts parse metadata) (\<lambda>allowed.
     case requested of
       None \<Rightarrow> Inr (default_reasoning_effort parse metadata)
     | Some e \<Rightarrow>
         (case allowed of
            None \<Rightarrow> Inr (Some e)
          | Some es \<Rightarrow>
              if e \<in> set es then Inr (Some e)
              else if e = ''none'' \<and> es = [] then Inr None
              else Inl (effort_refused e es)))"

section \<open>A row for a model\<close>

definition usable_row :: "server_status set \<Rightarrow> uuid \<Rightarrow> uuid option \<Rightarrow> server_row \<Rightarrow> bool" where
  "usable_row sts model agent s \<longleftrightarrow> srv_model_id s = model \<and> srv_status s \<in> sts
     \<and> (case agent of None \<Rightarrow> True | Some a \<Rightarrow> srv_agent_id s = a)"

definition find_existing_server :: "uuid \<Rightarrow> uuid option \<Rightarrow> db \<Rightarrow> server_row option" where
  "find_existing_server model agent d =
     first_row (filter (usable_row {SrvRunning, SrvStopped, SrvStarting} model agent) (db_servers d))"

definition find_starting_server :: "uuid \<Rightarrow> uuid option \<Rightarrow> db \<Rightarrow> server_row option" where
  "find_starting_server model agent d = first_row (filter (usable_row {SrvStarting} model agent) (db_servers d))"

text \<open>\<open>auto_alias\<close> is the text \<open>auto-{model.id}\<close>.\<close>

definition auto_row :: "(uuid \<Rightarrow> string) \<Rightarrow> uuid \<Rightarrow> uuid \<Rightarrow> uuid \<Rightarrow> server_row" where
  "auto_row auto_alias new model agent =
     \<lparr>srv_id = new, srv_model_id = model, srv_mmproj_model_id = None, srv_dflash_model_id = None,
      srv_alias = auto_alias model, srv_engine = ''llamacpp'', srv_npu_models = [], srv_status = SrvStopped,
      srv_health = HUnknown, srv_started_at = None, srv_last_request_at = None, srv_last_health_check = None,
      srv_slot_generation = 0, srv_effective_capacity = Some 1, srv_vram_required_bytes = None,
      srv_error_message = None, srv_config_port = None, srv_config_engine_port = None, srv_metadata = None,
      srv_agent_id = agent\<rparr>"

text \<open>The transaction under the advisory lock of the model; the alias of a row is unique in the table.\<close>

definition create_row_tx ::
  "(uuid \<Rightarrow> string) \<Rightarrow> uuid \<Rightarrow> uuid \<Rightarrow> bool \<Rightarrow> uuid \<Rightarrow> db \<Rightarrow> (exn + server_row) \<times> db" where
  "create_row_tx auto_alias new model pinned agent d =
     (case find_existing_server model (if pinned then Some agent else None) d of
        Some s \<Rightarrow> (Inr s, d)
      | None \<Rightarrow>
          let row = auto_row auto_alias new model agent
          in if \<exists>s\<in>set (db_servers d). srv_alias s = srv_alias row
             then (Inl (OtherError ''IntegrityError''), d)
             else (Inr row, d\<lparr>db_servers := db_servers d @ [row]\<rparr>))"

text \<open>
  The agent of a new row: the one asked for, else the first the manager lists. The agents are read
  while other transactions run, so their rows are arguments; \<open>env\<close> is what others do before the
  transaction. The row is not started here: the scheduler does that (\<open>start=False\<close>).
\<close>

record agent_answers =
  aa_wanted :: "exn + agent_row option"
  aa_listed :: "exn + uuid list"
  aa_first :: "exn + agent_row option"

definition choose_agent :: "bool \<Rightarrow> agent_answers \<Rightarrow> exn + agent_row" where
  "choose_agent pinned a =
     bind_res (if pinned
       then bind_res (aa_wanted a) (\<lambda>w. if w = None then Inl (HttpStatus 404 ''Agent not found'') else Inr w)
       else bind_res (aa_listed a) (\<lambda>l. if l = [] then Inl (HttpStatus 503 ''No agents available'') else aa_first a))
     (\<lambda>w. case w of
        None \<Rightarrow> Inl (HttpStatus 503 ''No online agents available'')
      | Some g \<Rightarrow> if ag_status g = ''online'' then Inr g else Inl (HttpStatus 503 ''No online agents available''))"

definition get_or_create_server ::
  "(uuid \<Rightarrow> string) \<Rightarrow> agent_answers \<Rightarrow> (db \<Rightarrow> db) \<Rightarrow> (db \<Rightarrow> db) \<Rightarrow> uuid \<Rightarrow> uuid \<Rightarrow> uuid option \<Rightarrow> db
     \<Rightarrow> (exn + server_row) \<times> db" where
  "get_or_create_server auto_alias answers env1 env2 new model agent d =
     (case find_existing_server model agent d of
        Some s \<Rightarrow> (Inr s, d)
      | None \<Rightarrow>
          let d1 = env1 d
          in case find_starting_server model agent d1 of
               Some s \<Rightarrow> (Inr s, d1)
             | None \<Rightarrow>
                 (case choose_agent (agent \<noteq> None) answers of
                    Inl e \<Rightarrow> (Inl e, env2 d1)
                  | Inr g \<Rightarrow> create_row_tx auto_alias new model (agent \<noteq> None) (ag_id g) (env2 d1)))"

section \<open>Virtual aliases lead to their model\<close>

lemma ends_in_rev: "ends_in s t \<longleftrightarrow> take (length t) (rev s) = rev t"
  by (auto simp: ends_in_def take_rev dest: arg_cong [of _ _ length])

lemma filter_distinct_key:
  assumes "distinct (map f xs)" "x \<in> set xs" "P x"
  shows "filter (\<lambda>y. f y = f x \<and> P y) xs = [x]"
  using assms
proof (induction xs)
  case (Cons y ys)
  show ?case
  proof (cases "x = y")
    case True
    have "f y \<notin> f ` set ys" using Cons.prems(1) by simp
    then have "f z \<noteq> f x" if "z \<in> set ys" for z using True that by (metis image_eqI)
    then have "filter (\<lambda>z. f z = f x \<and> P z) ys = []" by (simp add: filter_empty_conv)
    with True Cons.prems(3) show ?thesis by simp
  next
    case False
    then have "x \<in> set ys" "f y \<noteq> f x" using Cons.prems(1,2) by auto
    with Cons show ?thesis by simp
  qed
qed simp

definition flash_live :: "server_row \<Rightarrow> bool" where
  "flash_live s \<longleftrightarrow> srv_engine s = ''halogen-flash'' \<and> srv_status s \<in> {SrvRunning, SrvStarting, SrvStopped}"

lemma flash_candidates_unique:
  assumes "distinct (map srv_alias (db_servers d))" "s \<in> set (db_servers d)" "flash_live s"
  shows "flash_candidates (srv_alias s) d = [s]"
  using filter_distinct_key [of srv_alias _ s flash_live] assms
  by (simp add: flash_candidates_def flash_live_def)

lemma npu_skip: "\<not> ends_in model (''-'' @ suffix) \<Longrightarrow> npu_among ((upstream, suffix) # rest) model d = npu_among rest model d"
  by simp

lemma npu_hit:
  assumes "alias \<noteq> []"
  shows "npu_among ((upstream, suffix) # rest) (alias @ ''-'' @ suffix) d
    = map_option (\<lambda>s. (s, upstream)) (List.find (\<lambda>s. upstream \<in> set (srv_npu_models s)) (flash_candidates alias d))"
  using assms by (simp add: ends_in_def)

lemma npu_name_found:
  assumes "client_name (srv_alias s) upstream = Some name" "srv_alias s \<noteq> []" "upstream \<in> set (srv_npu_models s)"
    and "flash_candidates (srv_alias s) d = [s]"
  shows "npu_virtual_alias name d = Some (s, upstream)"
proof -
  obtain suffix where name: "name = srv_alias s @ ''-'' @ suffix"
    and pair: "(upstream, suffix) \<in> set NPU_SUFFIXES"
    using assms(1) by (auto simp: client_name_def dest: map_of_SomeD)
  have hit: "npu_among ((upstream, suffix) # rest) name d = Some (s, upstream)" for rest
    unfolding name npu_hit [OF assms(2)] using assms(3,4) by simp
  from pair have "(upstream, suffix) = (''qwen3-embedding-0.6b'', ''embed'')
    \<or> (upstream, suffix) = (''qwen3-reranker-0.6b'', ''rerank'')
    \<or> (upstream, suffix) = (''qwen3.5-2b'', ''nano'')
    \<or> (upstream, suffix) = (''decider-0.8b'', ''decide'')
    \<or> (upstream, suffix) = (''qwen3guard-gen-0.6b'', ''guard'')"
    by (simp only: NPU_SUFFIXES_def list.set insert_iff empty_iff simp_thms)
  then show ?thesis
  proof (elim disjE)
    assume "(upstream, suffix) = (''qwen3-embedding-0.6b'', ''embed'')"
    then have e: "upstream = ''qwen3-embedding-0.6b''" "suffix = ''embed''" by (simp_all only: prod.inject)
    show ?thesis using hit unfolding npu_virtual_alias_def NPU_SUFFIXES_def e .
  next
    assume "(upstream, suffix) = (''qwen3-reranker-0.6b'', ''rerank'')"
    then have e: "upstream = ''qwen3-reranker-0.6b''" "suffix = ''rerank''" by (simp_all only: prod.inject)
    have embed: "\<not> ends_in name (''-'' @ ''embed'')" by (simp add: name e(2) ends_in_rev)
    show ?thesis using hit unfolding npu_virtual_alias_def NPU_SUFFIXES_def e npu_skip [OF embed] .
  next
    assume "(upstream, suffix) = (''qwen3.5-2b'', ''nano'')"
    then have e: "upstream = ''qwen3.5-2b''" "suffix = ''nano''" by (simp_all only: prod.inject)
    have embed: "\<not> ends_in name (''-'' @ ''embed'')" by (simp add: name e(2) ends_in_rev)
    have rerank: "\<not> ends_in name (''-'' @ ''rerank'')" by (simp add: name e(2) ends_in_rev)
    show ?thesis using hit unfolding npu_virtual_alias_def NPU_SUFFIXES_def e npu_skip [OF embed] npu_skip [OF rerank] .
  next
    assume "(upstream, suffix) = (''decider-0.8b'', ''decide'')"
    then have e: "upstream = ''decider-0.8b''" "suffix = ''decide''" by (simp_all only: prod.inject)
    have embed: "\<not> ends_in name (''-'' @ ''embed'')" by (simp add: name e(2) ends_in_rev)
    have rerank: "\<not> ends_in name (''-'' @ ''rerank'')" by (simp add: name e(2) ends_in_rev)
    have nano: "\<not> ends_in name (''-'' @ ''nano'')" by (simp add: name e(2) ends_in_rev)
    show ?thesis using hit unfolding npu_virtual_alias_def NPU_SUFFIXES_def e npu_skip [OF embed] npu_skip [OF rerank] npu_skip [OF nano] .
  next
    assume "(upstream, suffix) = (''qwen3guard-gen-0.6b'', ''guard'')"
    then have e: "upstream = ''qwen3guard-gen-0.6b''" "suffix = ''guard''" by (simp_all only: prod.inject)
    have embed: "\<not> ends_in name (''-'' @ ''embed'')" by (simp add: name e(2) ends_in_rev)
    have rerank: "\<not> ends_in name (''-'' @ ''rerank'')" by (simp add: name e(2) ends_in_rev)
    have nano: "\<not> ends_in name (''-'' @ ''nano'')" by (simp add: name e(2) ends_in_rev)
    have decide: "\<not> ends_in name (''-'' @ ''decide'')" by (simp add: name e(2) ends_in_rev)
    show ?thesis using hit unfolding npu_virtual_alias_def NPU_SUFFIXES_def e npu_skip [OF embed] npu_skip [OF rerank] npu_skip [OF nano] npu_skip [OF decide] .
  qed
qed

text \<open>
  The public name of an NPU model leads back to it: for a live flash instance with that model
  enabled, the name built from its alias resolves to that instance and that upstream model, unless
  a live instance has the name as its own alias.
\<close>

theorem npu_name_resolves:
  assumes "client_name (srv_alias s) upstream = Some name" "srv_alias s \<noteq> []" "upstream \<in> set (srv_npu_models s)"
    and "distinct (map srv_alias (db_servers d))" "s \<in> set (db_servers d)" "flash_live s"
    and "filter (alias_row name) (db_servers d) = []" "get_model d (srv_model_id s) = Some m"
  shows "resolve_inference_target uuid_of name None d = Inr \<lparr>tg_model = m, tg_preferred = Some (srv_id s),
     tg_agent = None, tg_server = Some s, tg_npu = Some upstream\<rparr>"
  using npu_name_found [OF assms(1-3) flash_candidates_unique [OF assms(4-6)]] assms(7,8)
  by (simp add: resolve_inference_target_def pinned_target_def agent_of_def)

section \<open>Efforts\<close>

text \<open>
  The effort that is used is one the metadata allows: with an allowed list, an effort of it (the
  default of a valid block is one of its efforts) or none; without any metadata, what was asked for.
\<close>

lemma effort_enforced:
  assumes "resolve_reasoning_effort parse meta requested = Inr effort" "allowed_reasoning_efforts parse meta = Inr (Some es)"
    and "effort = Some e"
  shows "e \<in> set es"
proof (cases requested)
  case (Some r)
  with assms show ?thesis by (auto simp: resolve_reasoning_effort_def split: if_splits)
next
  case None
  then have d: "default_reasoning_effort parse meta = Some e" using assms by (simp add: resolve_reasoning_effort_def)
  then obtain b where b: "reasoning_block_of parse meta = Some b" "rb_supported b" "rb_default b = Some e"
    by (auto simp: default_reasoning_effort_def split: option.splits if_splits)
  then have "validate_efforts b" by (auto simp: reasoning_block_of_def split: json.splits option.splits if_splits)
  with b assms(2) show ?thesis by (auto simp: validate_efforts_def allowed_reasoning_efforts_def)
qed

section \<open>One row for a model\<close>

lemma first_row_usable:
  "find_existing_server model agent d = Some s \<Longrightarrow>
     s \<in> set (db_servers d) \<and> usable_row {SrvRunning, SrvStopped, SrvStarting} model agent s"
  by (auto simp: find_existing_server_def dest!: first_row_SomeD)

lemma starting_usable:
  "find_starting_server model agent d = Some s \<Longrightarrow>
     s \<in> set (db_servers d) \<and> usable_row {SrvRunning, SrvStopped, SrvStarting} model agent s"
  by (auto simp: find_starting_server_def usable_row_def dest!: first_row_SomeD)

lemma create_row_cases:
  assumes "create_row_tx auto new model pinned agent d = (res, d')"
  obtains (found) s where "res = Inr s" "find_existing_server model (if pinned then Some agent else None) d = Some s" "d' = d"
  | (taken) t where "res = Inl (OtherError ''IntegrityError'')" "t \<in> set (db_servers d)" "srv_alias t = auto model" "d' = d"
  | (added) "res = Inr (auto_row auto new model agent)" "d' = d\<lparr>db_servers := db_servers d @ [auto_row auto new model agent]\<rparr>"
      "find_existing_server model (if pinned then Some agent else None) d = None"
      "\<forall>t\<in>set (db_servers d). srv_alias t \<noteq> auto model"
proof (cases "find_existing_server model (if pinned then Some agent else None) d")
  case (Some s)
  with assms show ?thesis by (intro found [of s]) (simp_all add: create_row_tx_def)
next
  case None
  have a: "srv_alias (auto_row auto new model agent) = auto model" by (simp add: auto_row_def)
  show ?thesis
  proof (cases "\<exists>t\<in>set (db_servers d). srv_alias t = auto model")
    case True
    then obtain t where t: "t \<in> set (db_servers d)" "srv_alias t = auto model" by blast
    with True None assms a show ?thesis by (intro taken [of t]) (simp_all add: create_row_tx_def Let_def)
  next
    case False
    with None assms a show ?thesis by (intro added) (simp_all add: create_row_tx_def Let_def)
  qed
qed

text \<open>The agent manager returns the agent it is asked for.\<close>

definition answers_for :: "uuid option \<Rightarrow> agent_answers \<Rightarrow> bool" where
  "answers_for agent ans \<longleftrightarrow> (\<forall>g. choose_agent (agent \<noteq> None) ans = Inr g \<longrightarrow> agent = None \<or> agent = Some (ag_id g))"

definition USABLE :: "server_status set" where
  "USABLE = {SrvRunning, SrvStopped, SrvStarting}"

lemma created_usable:
  assumes "get_or_create_server auto ans env1 env2 new model agent d = (Inr s, d')" "answers_for agent ans"
  shows "s \<in> set (db_servers d') \<and> usable_row USABLE model agent s"
proof (cases "find_existing_server model agent d")
  case (Some t)
  with assms(1) first_row_usable [OF Some] show ?thesis by (simp add: get_or_create_server_def USABLE_def)
next
  case None
  show ?thesis
  proof (cases "find_starting_server model agent (env1 d)")
    case (Some t)
    with None assms(1) starting_usable [OF Some] show ?thesis by (simp add: get_or_create_server_def Let_def USABLE_def)
  next
    case inner: None
    obtain g where g: "choose_agent (agent \<noteq> None) ans = Inr g"
      using assms(1) None inner by (cases "choose_agent (agent \<noteq> None) ans") (auto simp: get_or_create_server_def Let_def)
    have c: "create_row_tx auto new model (agent \<noteq> None) (ag_id g) (env2 (env1 d)) = (Inr s, d')"
      using assms(1) None inner g by (simp add: get_or_create_server_def Let_def)
    have a: "agent = None \<or> agent = Some (ag_id g)" using assms(2) g by (simp add: answers_for_def)
    then have "(if agent \<noteq> None then Some (ag_id g) else None) = agent" by auto
    with c show ?thesis
    proof (cases rule: create_row_cases)
      case (found t)
      with \<open>_ = agent\<close> first_row_usable [of model agent "env2 (env1 d)" t] show ?thesis by (simp add: USABLE_def)
    next
      case added
      with a show ?thesis by (auto simp: usable_row_def auto_row_def USABLE_def split: option.split)
    qed simp
  qed
qed

text \<open>
  A request by model name is given a server of that model that can serve it, on the agent it asked
  for; and one row is enough: another request for the model, whenever it looked, is given a server
  and adds no row once its transaction runs after the first one.
\<close>

theorem servers_are_shared:
  assumes "get_or_create_server auto ans env1 env2 new model agent d = (Inr s, d')" "answers_for agent ans"
    and "get_or_create_server auto ans' env1' env2' new' model agent d0 = (res, d'')" "answers_for agent ans'"
    and "choose_agent (agent \<noteq> None) ans' = Inr g" "env2' (env1' d0) = d'"
  shows "s \<in> set (db_servers d') \<and> usable_row USABLE model agent s
     \<and> (\<exists>s'. res = Inr s') \<and> d'' \<in> {d0, env1' d0, d'}"
proof -
  note row = created_usable [OF assms(1,2)]
  then have "filter (usable_row USABLE model agent) (db_servers d') \<noteq> []" by (auto simp: filter_empty_conv)
  then obtain s' where s': "find_existing_server model agent d' = Some s'"
    by (cases "find_existing_server model agent d'") (auto simp: find_existing_server_def USABLE_def)
  have a: "(if agent \<noteq> None then Some (ag_id g) else None) = agent"
    using assms(4,5) by (auto simp: answers_for_def)
  have "create_row_tx auto new' model (agent \<noteq> None) (ag_id g) d' = (Inr s', d')"
    unfolding create_row_tx_def a using s' by simp
  with assms(3,5,6) row show ?thesis
    by (auto simp: get_or_create_server_def Let_def split: option.splits)
qed

text \<open>No row of the model can serve, and a row that cannot has the automatic alias.\<close>

definition blocked :: "(uuid \<Rightarrow> string) \<Rightarrow> uuid \<Rightarrow> db \<Rightarrow> bool" where
  "blocked auto model d \<longleftrightarrow> find_existing_server model None d = None \<and> (\<exists>t\<in>set (db_servers d). srv_alias t = auto model)"

text \<open>
  The row of a model that failed is in the way of the next: as long as it is there, in a state from
  which no request starts it, every request by model name fails, whatever the agents answer, and
  adds nothing.
\<close>

theorem failed_row_blocks_model:
  assumes "blocked auto model d" "blocked auto model (env1 d)" "blocked auto model (env2 (env1 d))"
  shows "\<exists>e. get_or_create_server auto ans env1 env2 new model None d = (Inl e, env2 (env1 d))"
proof -
  have "find_starting_server model None (env1 d) = None"
  proof (rule ccontr)
    assume "find_starting_server model None (env1 d) \<noteq> None"
    then obtain s where "find_starting_server model None (env1 d) = Some s" by blast
    from starting_usable [OF this] assms(2) show False
      by (auto simp: blocked_def find_existing_server_def filter_empty_conv)
  qed
  moreover have "\<exists>e. create_row_tx auto new model False a (env2 (env1 d)) = (Inl e, env2 (env1 d))" for a
    using assms(3) by (auto simp: create_row_tx_def blocked_def auto_row_def)
  ultimately show ?thesis using assms(1)
    by (cases "choose_agent False ans") (auto simp: get_or_create_server_def blocked_def)
qed

section \<open>Metadata that can be read\<close>

text \<open>The metadata of a server that may be leased: its capabilities, when given, are an object.\<close>

definition capabilities_object :: "json \<Rightarrow> bool" where
  "capabilities_object j \<longleftrightarrow> (case j of
     JObj fs \<Rightarrow> (case look ''capabilities'' (JObj []) fs of JObj _ \<Rightarrow> True | _ \<Rightarrow> False) | _ \<Rightarrow> True)"

lemma allowed_efforts_total:
  assumes "capabilities_object meta"
  shows "\<exists>a. allowed_reasoning_efforts parse meta = Inr a"
proof (cases "reasoning_block_of parse meta")
  case None
  show ?thesis
  proof (cases meta)
    case (JObj fs)
    with assms obtain cs where "look ''capabilities'' (JObj []) fs = JObj cs"
      by (auto simp: capabilities_object_def split: json.splits)
    with None JObj show ?thesis by (auto simp: allowed_reasoning_efforts_def Let_def)
  qed (use None in \<open>simp_all add: allowed_reasoning_efforts_def\<close>)
qed (simp add: allowed_reasoning_efforts_def)

lemma effort_error_is_policy:
  assumes "resolve_reasoning_effort parse meta req = Inl e" "capabilities_object meta"
  shows "\<exists>m. e = ReasoningPolicyError m"
  using assms allowed_efforts_total [OF assms(2), of parse]
  by (auto simp: resolve_reasoning_effort_def effort_refused_def split: option.splits if_splits)

end
