(* ===== verification/LeasedCalls.thy ===== *)
theory LeasedCalls
  imports ChatTargets
begin

text \<open>
  What the routes that call an engine through a lease share: the record of what a request acquired,
  sent, released and recorded, the call between \<open>acquire\<close> and the \<open>finally\<close> that releases, and the
  books such a call leaves. Used for chat and text completions, embeddings, and the NPU routes.
\<close>

section \<open>State\<close>

record route_run =
  rt_asked :: "(uuid \<times> uuid option \<times> uuid option) list"
  rt_leased :: "server_row option"
  rt_held :: bool
  rt_sent :: "(uuid \<times> string \<times> obj) list"
  rt_releases :: "string list"
  rt_telemetry :: "(string \<times> obj option) list"

type_synonym 'a route_script = "(route_run, 'a) prog"

definition start_route :: route_run where
  "start_route = \<lparr>rt_asked = [], rt_leased = None, rt_held = False, rt_sent = [], rt_releases = [], rt_telemetry = []\<rparr>"

text \<open>
  What the world answers a request: the tables, the search for a server, the scheduler, the agent's
  reply, and \<open>str\<close> of an exception.
\<close>

record call_env =
  ca_uuid_of :: "string \<Rightarrow> uuid option"
  ca_db :: db
  ca_created :: "exn + server_row"
  ca_acquire :: "exn + server_row"
  ca_reply :: "exn + json"
  ca_release :: answer
  ca_text :: "exn \<Rightarrow> string"

section \<open>Steps\<close>

text \<open>\<open>inference_scheduler.acquire\<close> and \<open>lease.release\<close>; what they answer are arguments.\<close>

definition take_lease :: "exn + server_row \<Rightarrow> uuid \<Rightarrow> uuid option \<Rightarrow> uuid option \<Rightarrow> server_row route_script" where
  "take_lease answer model preferred agent =
     and_then (change (\<lambda>r. r\<lparr>rt_asked := rt_asked r @ [(model, preferred, agent)]\<rparr>)) (\<lambda>_.
     and_then (lift_res answer) (\<lambda>s.
     and_then (change (\<lambda>r. r\<lparr>rt_leased := Some s, rt_held := True\<rparr>)) (\<lambda>_. give s)))"

definition give_back :: "answer \<Rightarrow> string \<Rightarrow> unit route_script" where
  "give_back answer outcome =
     and_then (change (\<lambda>r. r\<lparr>rt_held := False, rt_releases := rt_releases r @ [outcome]\<rparr>)) (\<lambda>_.
     await_answer answer)"

definition send :: "server_row \<Rightarrow> string \<Rightarrow> obj \<Rightarrow> unit route_script" where
  "send s path body = change (\<lambda>r. r\<lparr>rt_sent := rt_sent r @ [(srv_id s, path, body)]\<rparr>)"

definition rethrow :: "(exn \<Rightarrow> exn) \<Rightarrow> ('s, 'a) prog \<Rightarrow> ('s, 'a) prog" where
  "rethrow f m r = (case m r of (Inl e, r') \<Rightarrow> (Inl (f e), r') | res \<Rightarrow> res)"

text \<open>\<open>record_request_telemetry\<close> copies the timings into a dict before it starts its task.\<close>

definition record_route :: "string \<Rightarrow> obj option \<Rightarrow> json \<Rightarrow> unit route_script" where
  "record_route status usage timings =
     (case timings of
        JObj _ \<Rightarrow> change (\<lambda>r. r\<lparr>rt_telemetry := rt_telemetry r @ [(status, usage)]\<rparr>)
      | JNull \<Rightarrow> change (\<lambda>r. r\<lparr>rt_telemetry := rt_telemetry r @ [(status, usage)]\<rparr>)
      | _ \<Rightarrow> throw TypeError)"

text \<open>\<open>if lease is not None: await lease.release(outcome)\<close>.\<close>

definition release_any :: "answer \<Rightarrow> string \<Rightarrow> unit route_script" where
  "release_any answer outcome r = (if rt_leased r = None then give () r else give_back answer outcome r)"

text \<open>
  The handlers of a call: cancelled, or failed with the result \<open>answered\<close> makes of the exception
  that was caught, a reply or another exception; each records the request, and \<open>finally\<close> releases
  the lease.
\<close>

definition leased_call :: "(exn \<Rightarrow> exn + 'a) \<Rightarrow> answer \<Rightarrow> 'a route_script \<Rightarrow> 'a route_script" where
  "leased_call answered answer body r =
     (case body r of
        (Inr a, r1) \<Rightarrow> finally_do (release_any answer ''completed'') (Inr a) r1
      | (Inl e, r1) \<Rightarrow>
          if e \<in> {CancelledError, InferenceRequestCancelled}
          then (case and_then (record_route ''cancelled'' None JNull) (\<lambda>_. throw e) r1 of
                  (res, r2) \<Rightarrow> finally_do (release_any answer ''cancelled'') res r2)
          else if is_exception e
          then (case and_then (record_route ''error'' None JNull) (\<lambda>_. lift_res (answered e)) r1 of
                  (res, r2) \<Rightarrow> finally_do (release_any answer ''failed'') res r2)
          else finally_do (release_any answer ''completed'') (Inl e) r1)"

definition leased_try :: "(exn \<Rightarrow> exn) \<Rightarrow> answer \<Rightarrow> 'a route_script \<Rightarrow> 'a route_script" where
  "leased_try raised = leased_call (\<lambda>e. Inl (raised e))"

text \<open>\<open>LookupError\<close> and \<open>ValueError\<close> of the resolution are a 404.\<close>

definition not_found_404 :: "exn + 'a \<Rightarrow> exn + 'a" where
  "not_found_404 res = (case res of
     Inl (LookupError m) \<Rightarrow> Inl (HttpStatus 404 m) | Inl (ValueError m) \<Rightarrow> Inl (HttpStatus 404 m) | _ \<Rightarrow> res)"

text \<open>The handler around \<open>_get_or_create_server\<close>, and a deadline that passed.\<close>

definition creation_failure :: "(exn \<Rightarrow> string) \<Rightarrow> exn \<Rightarrow> exn" where
  "creation_failure text e = (case e of
     HttpStatus n m \<Rightarrow> e
   | _ \<Rightarrow> if is_exception e then HttpStatus 503 (''Failed to start server: '' @ text e) else e)"

definition timeout_503 :: "(exn \<Rightarrow> string) \<Rightarrow> exn \<Rightarrow> exn" where
  "timeout_503 text e = (case e of TimeoutError m \<Rightarrow> HttpStatus 503 (text e) | _ \<Rightarrow> e)"

section \<open>The books of a call\<close>

text \<open>Nothing is recorded or released yet, and \<open>L\<close> is known of the lease.\<close>

definition call_open :: "(server_row option \<Rightarrow> bool) \<Rightarrow> route_run \<Rightarrow> bool" where
  "call_open L r \<longleftrightarrow> L (rt_leased r) \<and> rt_held r = (rt_leased r \<noteq> None) \<and> rt_releases r = [] \<and> rt_telemetry r = []"

text \<open>The call has succeeded: it holds its lease, and recorded itself.\<close>

definition call_ready :: "(server_row option \<Rightarrow> bool) \<Rightarrow> route_run \<Rightarrow> bool" where
  "call_ready L r \<longleftrightarrow> L (rt_leased r) \<and> rt_leased r \<noteq> None \<and> rt_releases r = [] \<and> map fst (rt_telemetry r) = [''success'']"

text \<open>
  The call is over: a lease it had is released once, and the request is recorded once, with one
  outcome; without a lease it is recorded as failed or cancelled.
\<close>

definition call_settled :: "(server_row option \<Rightarrow> bool) \<Rightarrow> route_run \<Rightarrow> bool" where
  "call_settled L r \<longleftrightarrow> L (rt_leased r) \<and> \<not> rt_held r \<and>
     (if rt_leased r = None then rt_releases r = [] \<and> map fst (rt_telemetry r) \<in> {[''error''], [''cancelled'']}
      else (rt_releases r, map fst (rt_telemetry r)) \<in> set OUTCOMES)"

interpretation open_call: phase "call_open L" "\<lambda>e r. call_open L r \<and> e \<noteq> GeneratorExit" "\<lambda>e. e \<noteq> GeneratorExit" for L
  by unfold_locales simp

lemma send_open: "open_call.stays_in L (send s path body)"
  unfolding send_def by (rule open_call.update) (simp add: call_open_def)

lemma record_ready:
  "hoare (call_open (\<lambda>l. L l \<and> l \<noteq> None)) (record_route ''success'' u t) (\<lambda>_. call_ready L)
     (\<lambda>e r. call_open L r \<and> e \<noteq> GeneratorExit)"
  by (auto simp: record_route_def hoare_def throw_def change_def call_open_def call_ready_def split: json.split)

lemma take_lease_open:
  assumes "answer \<noteq> Inl GeneratorExit"
  shows "hoare (call_open M) (take_lease answer m p a) (\<lambda>s r. answer = Inr s \<and> call_open (\<lambda>l. l = Some s) r)
     (\<lambda>e r. call_open M r \<and> e \<noteq> GeneratorExit)"
  using assms
  by (cases answer) (auto simp: hoare_def take_lease_def and_then_def change_def lift_res_def throw_def give_def call_open_def)

lemma await_answer_cases: "await_answer a r = (case a of Answered \<Rightarrow> (Inr (), r) | Threw e \<Rightarrow> (Inl e, r))"
  by (simp add: await_answer_def give_def throw_def split: answer.split)

lemma released_books:
  assumes "finally_do (release_any answer outcome) res r = (res', r')"
  shows "rt_leased r' = rt_leased r" "rt_held r' = (rt_held r \<and> rt_leased r = None)"
    "rt_releases r' = (if rt_leased r = None then rt_releases r else rt_releases r @ [outcome])"
    "rt_telemetry r' = rt_telemetry r" "res = Inl e \<Longrightarrow> \<exists>e'. res' = Inl e'"
  using assms
  by (auto simp: finally_do_def release_any_def give_back_def and_then_def change_def await_answer_cases lift_res_def throw_def give_def
      split: answer.splits sum.splits if_splits)

lemma leased_call_settles:
  assumes body: "hoare (call_open M) body (\<lambda>_. call_ready L) (\<lambda>e r. call_open L r \<and> e \<noteq> GeneratorExit)"
    and run: "leased_call answered answer body r = (res, r')" and start: "call_open M r"
  shows "call_settled L r'"
proof -
  obtain a r1 where b: "body r = (a, r1)" by fastforce
  note h = hoareD [OF body start b]
  show ?thesis
  proof (cases a)
    case (Inr v)
    then have fin: "finally_do (release_any answer ''completed'') (Inr v) r1 = (res, r')"
      using run b by (simp add: leased_call_def)
    from h Inr released_books(1-4) [OF fin] show ?thesis by (simp add: call_ready_def call_settled_def OUTCOMES_def)
  next
    case (Inl e)
    with h have k: "call_open L r1" "e \<noteq> GeneratorExit" by simp_all
    obtain status outcome res0 where o: "(status, outcome) \<in> {(''cancelled'', ''cancelled''), (''error'', ''failed'')}"
        "finally_do (release_any answer outcome) (res0 :: exn + 'a) (r1\<lparr>rt_telemetry := [(status, None)]\<rparr>) = (res, r')"
      using run b Inl k
      by (cases "e \<in> {CancelledError, InferenceRequestCancelled}")
        (auto simp: leased_call_def record_route_def and_then_def change_def throw_def lift_res_def give_def call_open_def
          is_exception_def split: sum.splits)
    from k(1) o(1) released_books(1-4) [OF o(2)] show ?thesis
      by (auto simp: call_open_def call_settled_def OUTCOMES_def)
  qed
qed

lemmas leased_try_settles = leased_call_settles [of _ _ _ "\<lambda>e. Inl (raised e)" for raised, folded leased_try_def]

text \<open>What a call raises is its exception again, unless it was answered with another.\<close>

lemma leased_try_result:
  assumes "leased_try raised answer body r = (res, r')" "answer = Answered" "body r = (a, r1)"
  shows "res = (case a of Inr v \<Rightarrow> Inr v
     | Inl e \<Rightarrow> Inl (if is_exception e then raised e else e))"
  using assms
  by (auto simp: leased_try_def leased_call_def finally_do_def release_any_def give_back_def record_route_def and_then_def change_def
      await_answer_cases lift_res_def throw_def give_def is_exception_def split: sum.splits if_splits)

end
