(* ===== verification/ChatRoute.thy ===== *)
theory ChatRoute
  imports LeasedCalls ChatStream
begin

text \<open>
  \<open>create_chat_completion\<close> of backend/app/api/routes/v1/v1_chat_completions.py: the guards in
  order, the lease, the reasoning policy, and then the stream that takes the lease over, or the
  buffered call with its telemetry and its release.
  \<^item> What the scheduler, the agent and the two output models answer are fields of \<open>route_env\<close>;
    \<open>route_run\<close> of \<open>LeasedCalls\<close> records what was acquired, sent, released and recorded.
  \<^item> \<open>str(e)\<close> of an exception is the argument \<open>re_text\<close>.
\<close>

record route_env =
  re_header :: "string option"
  re_uuid_of :: "string \<Rightarrow> uuid option"
  re_uuid_text :: "uuid \<Rightarrow> string"
  re_fresh :: uuid
  re_request :: chat_request
  re_db :: db
  re_meta :: "server_row \<Rightarrow> json"
  re_parse :: "obj \<Rightarrow> reasoning_block option"
  re_candidates :: "exn + uuid list"
  re_created :: "exn + server_row"
  re_acquire :: "exn + server_row"
  re_agent :: "exn + bool"
  re_reply :: "exn + json"
  re_accept :: "json list \<Rightarrow> answer"
  re_release :: answer
  re_text :: "exn \<Rightarrow> string"

datatype route_result = Streams server_row "string option" "string option" | Replies chat_reply

section \<open>Guards\<close>

definition chat_id :: "route_env \<Rightarrow> uuid \<Rightarrow> string" where
  "chat_id x i = ''chatcmpl-'' @ re_uuid_text x i"

definition request_id :: "route_env \<Rightarrow> exn + string" where
  "request_id x = (case re_header x of
     None \<Rightarrow> Inr (chat_id x (re_fresh x))
   | Some h \<Rightarrow>
       if take 9 h = ''chatcmpl-''
       then (case re_uuid_of x (drop 9 h) of
               None \<Rightarrow> Inl (HttpStatus 400 ''Invalid inference request ID'') | Some i \<Rightarrow> Inr (chat_id x i))
       else Inr (chat_id x (re_fresh x)))"

definition refuse_duplicate :: "route_env \<Rightarrow> string \<Rightarrow> exn + unit" where
  "refuse_duplicate x rid =
     (if re_header x \<notin> {None, Some []} \<and> (\<exists>l\<in>set (db_leases (re_db x)). ls_request_id l = rid)
      then Inl (HttpStatus 409 ''Inference request ID already exists'') else Inr ())"

definition route_target :: "route_env \<Rightarrow> exn + inference_target" where
  "route_target x = not_found_404
     (resolve_inference_target (re_uuid_of x) (rq_model (re_request x)) (rq_agent_id (re_request x)) (re_db x))"

definition refuse_tools :: "route_env \<Rightarrow> server_row \<Rightarrow> exn + unit" where
  "refuse_tools x s =
     (if rq_tools (re_request x) \<in> {None, Some []} then Inr ()
      else bind_res (metadata_capability ''tools'' (re_meta x s)) (\<lambda>cap.
        if cap = Some False
        then Inl (HttpStatus 400 (''Model '' @ rq_model (re_request x) @ '' does not support tools'')) else Inr ()))"

section \<open>The lease\<close>

definition acquire_for :: "route_env \<Rightarrow> uuid \<Rightarrow> uuid option \<Rightarrow> uuid option \<Rightarrow> server_row route_script" where
  "acquire_for x model preferred agent = take_lease (re_acquire x) model preferred agent"

text \<open>The handlers around the search for a server.\<close>

definition startup_failure :: "route_env \<Rightarrow> exn \<Rightarrow> exn" where
  "startup_failure x e = (case e of
     HttpStatus n m \<Rightarrow> e
   | ServerStartupError m \<Rightarrow> HttpStatus 503 (''Server not available: '' @ m)
   | _ \<Rightarrow> if is_exception e then HttpStatus 503 (''Failed to start server: '' @ re_text x e) else e)"

text \<open>The server the request is sent to.\<close>

definition serving_lease :: "route_env \<Rightarrow> uuid option \<Rightarrow> inference_target \<Rightarrow> server_row route_script" where
  "serving_lease x agent target =
     (case tg_server target of
        Some s \<Rightarrow> and_then (lift_res (refuse_tools x s)) (\<lambda>_.
          and_then (acquire_for x (md_id (tg_model target)) (tg_preferred target) (tg_agent target)) (\<lambda>_. give s))
      | None \<Rightarrow> rethrow (startup_failure x)
          (and_then (lift_res (re_candidates x)) (\<lambda>cs.
           if cs \<noteq> [] then acquire_for x (md_id (tg_model target)) None agent
           else and_then (lift_res (re_created x)) (\<lambda>s.
             and_then (acquire_for x (md_id (tg_model target)) (Some (srv_id s)) (tg_agent target)) (\<lambda>_. give s)))))"

section \<open>The call\<close>

definition with_effort :: "string option \<Rightarrow> chat_request \<Rightarrow> chat_request" where
  "with_effort e r = r\<lparr>rq_reasoning_effort := e\<rparr>"

text \<open>The reasoning policy of the instance that holds the slot.\<close>

definition check_effort :: "route_env \<Rightarrow> string option route_script" where
  "check_effort x r =
     (case rt_leased r of
        None \<Rightarrow> throw (RuntimeError ''no lease'') r
      | Some s \<Rightarrow>
          (case resolve_reasoning_effort (re_parse x) (re_meta x s) (rq_reasoning_effort (re_request x)) of
             Inl (ReasoningPolicyError m) \<Rightarrow> and_then (give_back (re_release x) ''failed'') (\<lambda>_. throw (HttpStatus 400 m)) r
           | Inl e \<Rightarrow> throw e r
           | Inr e \<Rightarrow> give e r))"

definition buffered_body :: "route_env \<Rightarrow> server_row \<Rightarrow> string option \<Rightarrow> string option \<Rightarrow> chat_reply route_script" where
  "buffered_body x s npu effort =
     and_then (lift_res (re_agent x)) (\<lambda>found.
     and_then (if found then give () else throw (ValueError ''Agent not found'')) (\<lambda>_.
     let req = with_effort effort (re_request x) in
     and_then (send s ''v1/chat/completions'' (buffered_payload npu req)) (\<lambda>_.
     and_then (lift_res (re_reply x)) (\<lambda>response.
     and_then (lift_res (read_reply (re_accept x) (rq_messages req) response)) (\<lambda>reply.
     and_then (lift_res (py_get ''timings'' JNull response)) (\<lambda>timings.
     and_then (record_route ''success'' (Some (reply_record (cy_usage reply))) timings) (\<lambda>_.
     give reply)))))))"

definition buffered_chat :: "route_env \<Rightarrow> server_row \<Rightarrow> string option \<Rightarrow> string option \<Rightarrow> chat_reply route_script" where
  "buffered_chat x s npu effort =
     leased_try (\<lambda>e. HttpStatus 500 (''Inference failed: '' @ re_text x e)) (re_release x) (buffered_body x s npu effort)"

definition create_chat_completion :: "route_env \<Rightarrow> route_result route_script" where
  "create_chat_completion x =
     and_then (lift_res (request_id x)) (\<lambda>rid.
     and_then (lift_res (refuse_duplicate x rid)) (\<lambda>_.
     and_then (lift_res (agent_of (re_uuid_of x) (rq_agent_id (re_request x)))) (\<lambda>agent.
     and_then (lift_res (route_target x)) (\<lambda>target.
     and_then (serving_lease x agent target) (\<lambda>s.
     and_then (check_effort x) (\<lambda>effort.
     if rq_stream (re_request x) then give (Streams s (tg_npu target) effort)
     else and_then (buffered_chat x s (tg_npu target) effort) (\<lambda>reply. give (Replies reply))))))))"

end
