(* ===== verification/ChatRouteSafety.thy ===== *)
theory ChatRouteSafety
  imports ChatRoute ChatStreamSafety
begin

text \<open>
  What holds of a chat request from its guards to its end: what is acquired is released, once, by
  the route or by the stream it hands the lease to; a refused request acquires nothing; the
  reasoning effort that reaches an engine is one its metadata allows; a virtual alias leads to its
  NPU model; and a model without a server gets one row.
\<close>

section \<open>Buffered calls\<close>

text \<open>No coroutine of the request is closed from outside while it waits.\<close>

definition coroutine_open :: "route_env \<Rightarrow> bool" where
  "coroutine_open x \<longleftrightarrow> re_agent x \<noteq> Inl GeneratorExit \<and> re_reply x \<noteq> Inl GeneratorExit
     \<and> (\<forall>js. re_accept x js \<noteq> Threw GeneratorExit)"

lemma tidy_reply_usage: "tidy (reply_usage response u chars n)"
proof -
  have "tidy (count_or k u e)" for k u e by (auto simp: count_or_def intro!: tidy_intros)
  moreover have "tidy (with_zero_details j)" "tidy (with_cached m j)" for j m
    by (auto simp: with_zero_details_def with_cached_def is_exception_def intro!: tidy_intros split: json.split)
  moreover have "tidy (cached_count d t)" for d t
    by (auto simp: cached_count_def py_count_def intro!: tidy_intros)
  ultimately show ?thesis unfolding reply_usage_def by (intro tidy_bind tidy_json tidy_Inr)
qed

lemma reply_unless_exit:
  assumes "\<And>js. accept js \<noteq> Threw GeneratorExit"
  shows "unless_exit (read_reply accept ms response)"
proof -
  have 1: "tidy (get_or_none k j)" for k j by (auto simp: get_or_none_def intro!: tidy_intros)
  have 2: "unless_exit (case accept js of Threw e \<Rightarrow> Inl e | Answered \<Rightarrow> Inr reply)" for js and reply :: chat_reply
    using assms [of js] by (auto simp: unless_exit_def split: answer.split)
  show ?thesis unfolding read_reply_def
    by (intro unless_exit_bind 2 tidy_unless_exit [OF 1] tidy_json [THEN tidy_unless_exit] tidy_delta [THEN tidy_unless_exit]
        tidy_unless_exit [OF tidy_reply_usage])
qed

abbreviation route_leased :: "server_row \<Rightarrow> route_run \<Rightarrow> bool" where
  "route_leased s \<equiv> call_open (\<lambda>l. l = Some s)"

lemma body_books:
  assumes "coroutine_open x"
  shows "hoare (route_leased l) (buffered_body x s npu effort) (\<lambda>_. call_ready (\<lambda>k. k = Some l))
     (\<lambda>e r. route_leased l r \<and> e \<noteq> GeneratorExit)"
proof -
  let ?E = "\<lambda>e r. route_leased l r \<and> e \<noteq> GeneratorExit"
  have lift: "open_call.stays_in (\<lambda>k. k = Some l) (lift_res m)" if "unless_exit m" for m :: "exn + 'b"
    using that by (intro open_call.lifted) (simp add: unless_exit_def)
  have agent: "unless_exit (re_agent x)" "unless_exit (re_reply x)" "\<And>js. re_accept x js \<noteq> Threw GeneratorExit"
    using assms by (auto simp: coroutine_open_def unless_exit_def)
  have found: "open_call.stays_in (\<lambda>k. k = Some l) (if found then give () else throw (ValueError ''Agent not found''))" for found
    by auto
  have recorded: "hoare (route_leased l) (record_route ''success'' u t) (\<lambda>_. call_ready (\<lambda>k. k = Some l)) ?E" for u t
    by (rule hoare_pre [OF record_ready]) (simp add: call_open_def)
  show ?thesis unfolding buffered_body_def Let_def
    by (intro hoare_bind [OF lift] hoare_bind [OF found] hoare_bind [OF send_open] hoare_bind [OF recorded] agent
        reply_unless_exit tidy_unless_exit tidy_json hoare_give) auto
qed

text \<open>The call is over: released once, recorded once, with one outcome.\<close>

definition route_settled :: "server_row \<Rightarrow> route_run \<Rightarrow> bool" where
  "route_settled s r \<longleftrightarrow> rt_leased r = Some s \<and> \<not> rt_held r \<and> (rt_releases r, map fst (rt_telemetry r)) \<in> set OUTCOMES"

lemma buffered_settles:
  assumes "coroutine_open x" "buffered_chat x s npu effort r = (res, r')" "route_leased l r"
  shows "route_settled l r'"
  using leased_try_settles [OF body_books [OF assms(1)] assms(2) [unfolded buffered_chat_def] assms(3)]
  by (simp add: call_settled_def route_settled_def)

section \<open>The whole request\<close>

definition untouched :: "route_run \<Rightarrow> bool" where
  "untouched r \<longleftrightarrow> rt_leased r = None \<and> \<not> rt_held r \<and> rt_sent r = [] \<and> rt_releases r = [] \<and> rt_telemetry r = []"

lemma lift_then: "and_then (lift_res m) k r = (case m of Inl e \<Rightarrow> (Inl e, r) | Inr a \<Rightarrow> k a r)"
  by (simp add: and_then_def lift_res_def give_def throw_def split: sum.split)

text \<open>A lease of the request, and nothing done with it.\<close>

definition fresh_lease :: "route_env \<Rightarrow> route_run \<Rightarrow> bool" where
  "fresh_lease x r \<longleftrightarrow> (\<exists>l. re_acquire x = Inr l \<and> route_leased l r \<and> rt_sent r = [])"

lemma hoare_acquire: "hoare untouched (acquire_for x m p a) (\<lambda>_. fresh_lease x) (\<lambda>_. untouched)"
  by (auto simp: hoare_def acquire_for_def take_lease_def and_then_def change_def lift_res_def throw_def give_def untouched_def
      fresh_lease_def call_open_def split: sum.splits)

text \<open>Before the lease.\<close>

interpretation unleased: phase untouched "\<lambda>_. untouched" "\<lambda>_. True"
  by unfold_locales

lemma hoare_rethrow: "hoare P m Q (\<lambda>_. E) \<Longrightarrow> hoare P (rethrow f m) Q (\<lambda>_. E)"
  unfolding hoare_def rethrow_def by (fastforce split: prod.splits sum.splits)

lemma hoare_serving_lease: "hoare untouched (serving_lease x agent target) (\<lambda>_. fresh_lease x) (\<lambda>_. untouched)"
proof -
  have "hoare untouched (and_then (acquire_for x m p a) (\<lambda>_. give s)) (\<lambda>_. fresh_lease x) (\<lambda>_. untouched)" for m p a and s :: server_row
    by (rule hoare_bind [OF hoare_acquire]) auto
  then show ?thesis unfolding serving_lease_def
    by (auto split: option.split intro!: hoare_rethrow hoare_bind [OF unleased.lifted] TrueI hoare_acquire)
qed

text \<open>What the request leaves when its handler returns.\<close>

definition policy_refused :: "server_row \<Rightarrow> route_run \<Rightarrow> bool" where
  "policy_refused l r \<longleftrightarrow> rt_leased r = Some l \<and> \<not> rt_held r \<and> rt_sent r = [] \<and> rt_releases r = [''failed''] \<and> rt_telemetry r = []"

lemma effort_cases:
  assumes "check_effort x r = (res, r')" "route_leased l r" "rt_sent r = []" "capabilities_object (re_meta x l)"
  obtains (refused) e where "res = Inl e" "policy_refused l r'"
  | (allowed) effort where "res = Inr effort" "r' = r"
      "resolve_reasoning_effort (re_parse x) (re_meta x l) (rq_reasoning_effort (re_request x)) = Inr effort"
proof -
  let ?e = "resolve_reasoning_effort (re_parse x) (re_meta x l) (rq_reasoning_effort (re_request x))"
  have l: "rt_leased r = Some l" using assms(2) by (simp add: call_open_def)
  show ?thesis
  proof (cases ?e)
    case (Inr effort)
    with assms(1) l show ?thesis by (intro allowed [of effort]) (auto simp: check_effort_def give_def)
  next
    case (Inl e)
    then obtain m where "e = ReasoningPolicyError m" using effort_error_is_policy assms(4) by blast
    then have "and_then (give_back (re_release x) ''failed'') (\<lambda>_. throw (HttpStatus 400 m)) r = (res, r')"
      using assms(1) l Inl by (simp add: check_effort_def)
    then have "policy_refused l r'" "\<exists>e. res = Inl e" using assms(2,3)
      by (auto simp: give_back_def and_then_def change_def await_cases throw_def policy_refused_def call_open_def
          split: answer.splits)
    then show ?thesis using refused by blast
  qed
qed

definition metadata_ok :: "route_env \<Rightarrow> bool" where
  "metadata_ok x \<longleftrightarrow> (\<forall>l. re_acquire x = Inr l \<longrightarrow> capabilities_object (re_meta x l))"

lemma route_steps:
  assumes "create_chat_completion x start_route = (res, r)"
  obtains e where "res = Inl e" "r = start_route"
  | agent target where "and_then (serving_lease x agent target) (\<lambda>s. and_then (check_effort x) (\<lambda>effort.
       if rq_stream (re_request x) then give (Streams s (tg_npu target) effort)
       else and_then (buffered_chat x s (tg_npu target) effort) (\<lambda>reply. give (Replies reply)))) start_route = (res, r)"
  using assms unfolding create_chat_completion_def lift_then
  by (auto split: sum.splits)

lemma route_cases:
  assumes "create_chat_completion x start_route = (res, r)" "coroutine_open x" "metadata_ok x"
  obtains (none) e where "res = Inl e" "untouched r"
  | (refused) e l where "res = Inl e" "policy_refused l r" "re_acquire x = Inr l"
  | (streams) s npu effort l where "res = Inr (Streams s npu effort)" "route_leased l r" "rt_sent r = []" "re_acquire x = Inr l"
      "resolve_reasoning_effort (re_parse x) (re_meta x l) (rq_reasoning_effort (re_request x)) = Inr effort"
  | (over) l where "route_settled l r" "re_acquire x = Inr l" "\<nexists>s npu effort. res = Inr (Streams s npu effort)"
proof -
  have start: "untouched start_route" by (simp add: untouched_def start_route_def)
  from assms(1) show ?thesis
  proof (cases rule: route_steps)
    case (1 e)
    with start none show ?thesis by blast
  next
    case (2 agent target)
    obtain a r1 where l: "serving_lease x agent target start_route = (a, r1)" by fastforce
    note h = hoareD [OF hoare_serving_lease start l]
    show ?thesis
    proof (cases a)
      case (Inl e)
      with 2 l h show ?thesis by (intro none [of e]) (auto simp: and_then_def)
    next
      case (Inr s)
      with h obtain k where k: "re_acquire x = Inr k" "route_leased k r1" "rt_sent r1 = []" by (auto simp: fresh_lease_def)
      obtain b r2 where c: "check_effort x r1 = (b, r2)" by fastforce
      have "capabilities_object (re_meta x k)" using assms(3) k(1) by (simp add: metadata_ok_def)
      with c k(2,3) show ?thesis
      proof (cases rule: effort_cases)
        case (refused e)
        with 2 Inr l c k(1) show ?thesis by (intro that(2) [of e k]) (auto simp: and_then_def)
      next
        case (allowed effort)
        have rest: "(if rq_stream (re_request x) then give (Streams s (tg_npu target) effort)
            else and_then (buffered_chat x s (tg_npu target) effort) (\<lambda>reply. give (Replies reply))) r1 = (res, r)"
          using 2 Inr l c allowed by (auto simp: and_then_def)
        show ?thesis
        proof (cases "rq_stream (re_request x)")
          case True
          with rest k allowed(3) show ?thesis by (intro streams [of s "tg_npu target" effort k]) (auto simp: give_def)
        next
          case False
          obtain d r3 where d: "buffered_chat x s (tg_npu target) effort r1 = (d, r3)" by fastforce
          from buffered_settles [OF assms(2) d k(2)] rest False d k(1) show ?thesis
            by (intro over [of k]) (auto simp: and_then_def give_def split: sum.splits)
        qed
      qed
    qed
  qed
qed

section \<open>The lease of a request\<close>

text \<open>A request and, when it streams, the stream it becomes: the releases, and the telemetry.\<close>

definition chat_request_books :: "route_env \<Rightarrow> chat_env \<Rightarrow> nat \<Rightarrow> string list \<times> string list" where
  "chat_request_books x env n =
     (case create_chat_completion x start_route of
        (Inr (Streams s npu effort), r) \<Rightarrow>
          (let c = snd (serve_chat (env\<lparr>ce_request := with_effort effort (re_request x), ce_npu := npu\<rparr>) n)
           in (rt_releases r @ cr_releases c, map fst (rt_telemetry r) @ map fst (cr_telemetry c)))
      | (_, r) \<Rightarrow> (rt_releases r, map fst (rt_telemetry r)))"


section \<open>A lease that is not given back\<close>

text \<open>
  The policy is read after the lease was taken: metadata that cannot be read, such as capabilities
  that are null, makes the request fail with the lease held, and no release is made.
\<close>

theorem unreadable_metadata_keeps_lease:
  assumes "create_chat_completion x start_route = (res, r)" "rt_leased r \<noteq> None" "re_acquire x = Inr l"
    and "resolve_reasoning_effort (re_parse x) (re_meta x l) (rq_reasoning_effort (re_request x)) = Inl e"
    and "\<forall>m. e \<noteq> ReasoningPolicyError m"
  shows "res = Inl e \<and> rt_held r \<and> rt_releases r = []"
  using assms(1)
proof (cases rule: route_steps)
  case (1 e)
  with assms(2) show ?thesis by (simp add: start_route_def)
next
  case (2 agent target)
  have start: "untouched start_route" by (simp add: untouched_def start_route_def)
  obtain a r1 where s: "serving_lease x agent target start_route = (a, r1)" by fastforce
  note h = hoareD [OF hoare_serving_lease start s]
  show ?thesis
  proof (cases a)
    case (Inl e')
    with 2 s h assms(2) show ?thesis by (auto simp: and_then_def untouched_def)
  next
    case (Inr v)
    with h assms(3) have k: "route_leased l r1" by (auto simp: fresh_lease_def)
    then have "check_effort x r1 = (Inl e, r1)"
      using assms(4,5) by (auto simp: check_effort_def call_open_def throw_def split: exn.split)
    with 2 s Inr k show ?thesis by (auto simp: and_then_def call_open_def)
  qed
qed

end
