(* ===== verification/ChatExamples.thy ===== *)
theory ChatExamples
  imports ChatContent ChatRouteSafety
begin

text \<open>
  Concrete chat requests at which the theorems of the chat route apply: a stream of an engine that
  reports its usage, an engine that is slow to open, a table of servers with a flash instance, a
  model whose only row has failed, and a second cancellation.
\<close>

section \<open>A stream\<close>

definition demo_chunk :: "string \<Rightarrow> json" where
  "demo_chunk t = JObj [(''choices'', JArr [JObj [(''delta'', JObj [(''content'', JStr t)])]])]"

definition demo_usage_chunk :: json where
  "demo_usage_chunk = JObj [(''choices'', JArr []),
     (''usage'', JObj [(''prompt_tokens'', JInt 7), (''completion_tokens'', JInt 2)])]"

definition chat_loads :: "string \<Rightarrow> json option" where
  "chat_loads s = (if s = ''a'' then Some (demo_chunk ''hi'') else if s = ''b'' then Some demo_usage_chunk else None)"

definition demo_message :: request_message where
  "demo_message = \<lparr>cm_role = RUser, cm_content = TextContent ''hello'', cm_reasoning = None, cm_name = None,
     cm_tool_call_id = None, cm_tool_calls = None\<rparr>"

definition chat_demo_request :: chat_request where
  "chat_demo_request = \<lparr>rq_model = ''m'', rq_agent_id = None, rq_messages = [demo_message], rq_stream = True,
     rq_temperature = 1, rq_max_tokens = None, rq_top_p = None, rq_frequency_penalty = None,
     rq_presence_penalty = None, rq_stop = None, rq_tools = None, rq_tool_choice = None,
     rq_reasoning_effort = None, rq_include_usage = None\<rparr>"

definition demo_chat :: chat_env where
  "demo_chat = \<lparr>ce_agent = Inr True, ce_now = 0,
     ce_open = [(0, NotYet), (seconds 10, Opened)], ce_status = Answered,
     ce_lines = [(seconds 11, Line ''data: a''), (seconds 12, Line ''data: b''), (seconds 13, Line ''data: [DONE]'')],
     ce_after = Answered, ce_loads = chat_loads, ce_show = (\<lambda>j. []), ce_text = (\<lambda>e. []),
     ce_close_failed = Answered, ce_close = Answered, ce_release = Answered,
     ce_request = chat_demo_request, ce_npu = None, ce_ready = Answered, ce_validate = (\<lambda>d c. Inr (d, c))\<rparr>"

definition demo_usage :: chat_usage where
  "demo_usage = \<lparr>cu_prompt = 7, cu_completion = 2, cu_total = 9,
     cu_prompt_details = [(''cached_tokens'', JInt 0), (''audio_tokens'', JInt 0)],
     cu_completion_details = JObj zero_completion_details\<rparr>"

lemma demo_served:
  "fst (serve_chat demo_chat 7) = Inr ()"
  "cr_sent (snd (serve_chat demo_chat 7)) = [Comment, ChunkFrame [(''content'', JStr ''hi'')] None,
     ChunkFrame [(''content'', JStr [])] None, UsageFrame demo_usage, DoneMark]"
  "cr_releases (snd (serve_chat demo_chat 7)) = [''completed'']"
  by code_simp+

lemma demo_calm: "undisturbed demo_chat" "frames_enough demo_chat = 7"
  by (simp_all add: undisturbed_def calm_wire_def demo_chat_def calm_def frames_enough_def)

lemma demo_closes: "ce_close_failed demo_chat = Answered" "ce_close demo_chat = Answered" "ce_release demo_chat = Answered"
  by (simp_all add: demo_chat_def)

lemma chat_frames_ordered_witness: "well_ended demo_chat (snd (serve_chat demo_chat 7))"
  by (rule chat_frames_ordered [OF surjective_pairing demo_closes(1,2)])


lemma chat_passes_chunks_witness:
  "map Inr (sent_chunks (cr_sent (snd (serve_chat demo_chat 7)))) = map (chunk_of demo_chat) (engine_chunks demo_chat)
   \<and> cr_telemetry (snd (serve_chat demo_chat 7))
       = [(''success'', Some (dump_usage (stream_usage demo_chat (engine_chunks demo_chat))))]
   \<and> (\<exists>fs k. list_all in_flow fs \<and> cr_sent (snd (serve_chat demo_chat 7))
       = fs @ take k (last_frames (include_usage demo_chat) (stream_usage demo_chat (engine_chunks demo_chat))))"
  by (rule chat_passes_chunks [OF surjective_pairing demo_closes(1,2) demo_served(3)])

section \<open>Waiting\<close>

definition slow_open :: "(time \<times> open_wake) list" where
  "slow_open = [(0, NotYet), (seconds 10, NotYet), (seconds 21, Opened)]"

definition slow_lines :: "line_wake list" where
  "slow_lines = [(seconds 21, Idle), (seconds 31, Idle), (seconds 41, Line ''data: a'')]"

lemma keepalives_bounded_witness:
  "(2::nat) + early_comments (fst (lines_with_keepalive (seconds 150) slow_lines)) \<le> 15
   \<and> early_comments (fst (lines_with_keepalive (seconds 150) slow_lines)) = 2"
proof
  have up: "upstream_with_keepalive 0 slow_open = (2, Inr (seconds 150))" by code_simp
  have "open_clock (0 + FIRST_FRAME_TIMEOUT_SECONDS) 0 slow_open" by code_simp
  moreover have "line_clock d False (open_end d 0 slow_open) slow_lines" if "Inr (seconds 150) = (Inr d :: exn + time)" for d
  proof -
    have "line_clock (seconds 150) False (open_end (seconds 150) 0 slow_open) slow_lines" by code_simp
    with that show ?thesis by simp
  qed
  ultimately show "(2::nat) + early_comments (fst (lines_with_keepalive (seconds 150) slow_lines)) \<le> 15"
    using keepalives_bounded [OF _ up, of slow_lines] by simp
  show "early_comments (fst (lines_with_keepalive (seconds 150) slow_lines)) = 2" by code_simp
qed

section \<open>Servers\<close>

definition demo_alias :: "uuid \<Rightarrow> string" where
  "demo_alias i = ''auto'' @ replicate i (CHR ''i'')"

definition demo_server :: "uuid \<Rightarrow> string \<Rightarrow> string \<Rightarrow> string list \<Rightarrow> server_status \<Rightarrow> server_row" where
  "demo_server i alias engine npu st = (auto_row demo_alias i 1 5)\<lparr>srv_alias := alias, srv_engine := engine,
     srv_npu_models := npu, srv_status := st\<rparr>"

definition demo_model :: model_row where
  "demo_model = \<lparr>md_id = 1, md_name = ''m'', md_size_bytes = 10\<rparr>"

definition demo_db :: "server_row list \<Rightarrow> db" where
  "demo_db ss = \<lparr>db_agents = [], db_models = [demo_model], db_servers = ss, db_leases = []\<rparr>"

definition flash :: server_row where
  "flash = demo_server 3 ''big'' ''halogen-flash'' [''qwen3.5-2b''] SrvRunning"

lemma npu_name_resolves_witness:
  "resolve_inference_target (\<lambda>_. None) ''big-nano'' None (demo_db [flash]) = Inr \<lparr>tg_model = demo_model,
     tg_preferred = Some (srv_id flash), tg_agent = None, tg_server = Some flash, tg_npu = Some ''qwen3.5-2b''\<rparr>"
  by (rule npu_name_resolves)
    (simp_all add: client_name_def NPU_SUFFIXES_def flash_def demo_server_def auto_row_def demo_db_def flash_live_def
      alias_row_def get_model_def demo_model_def)

definition demo_agent :: agent_row where
  "demo_agent = \<lparr>ag_id = 5, ag_name = [], ag_platform = [], ag_type = [], ag_host = [], ag_port = 0,
     ag_status = ''online'', ag_gpu_id = None, ag_last_seen = None, ag_websocket_connected = True\<rparr>"

definition demo_answers :: agent_answers where
  "demo_answers = \<lparr>aa_wanted = Inr None, aa_listed = Inr [5], aa_first = Inr (Some demo_agent)\<rparr>"

definition one_row :: db where
  "one_row = demo_db [auto_row demo_alias 9 1 5]"

lemma demo_chosen: "choose_agent (None \<noteq> (None :: uuid option)) demo_answers = Inr demo_agent" "answers_for None demo_answers"
  by (simp_all add: choose_agent_def demo_answers_def demo_agent_def answers_for_def)

text \<open>Two requests look at an empty table; the second runs its transaction after the first.\<close>

lemma servers_are_shared_witness:
  "auto_row demo_alias 9 1 5 \<in> set (db_servers one_row) \<and> usable_row USABLE 1 None (auto_row demo_alias 9 1 5)
   \<and> (\<exists>s'. fst (get_or_create_server demo_alias demo_answers id (\<lambda>_. one_row) 10 1 None (demo_db [])) = Inr s')
   \<and> snd (get_or_create_server demo_alias demo_answers id (\<lambda>_. one_row) 10 1 None (demo_db [])) \<in> {demo_db [], id (demo_db []), one_row}"
proof (rule servers_are_shared [where ans = demo_answers and ?env1.0 = id and ?env2.0 = id and new = 9 and auto = demo_alias])
  show "get_or_create_server demo_alias demo_answers id id 9 1 None (demo_db []) = (Inr (auto_row demo_alias 9 1 5), one_row)"
    by (simp add: get_or_create_server_def find_existing_server_def find_starting_server_def demo_db_def one_row_def
        demo_chosen(1) [simplified] create_row_tx_def demo_agent_def Let_def)
qed (rule surjective_pairing demo_chosen | simp)+

lemma failed_row_blocks_model_witness:
  "\<exists>e. get_or_create_server demo_alias demo_answers id id 10 1 None
     (demo_db [(auto_row demo_alias 9 1 5)\<lparr>srv_status := SrvError\<rparr>])
     = (Inl e, id (id (demo_db [(auto_row demo_alias 9 1 5)\<lparr>srv_status := SrvError\<rparr>])))"
  by (rule failed_row_blocks_model)
    (simp_all add: blocked_def find_existing_server_def demo_db_def usable_row_def auto_row_def)

section \<open>Requests\<close>

definition demo_leased :: server_row where
  "demo_leased = auto_row demo_alias 9 1 5"

definition demo_route :: "json \<Rightarrow> route_env" where
  "demo_route meta = \<lparr>re_header = None, re_uuid_of = (\<lambda>_. None), re_uuid_text = (\<lambda>_. []), re_fresh = 77,
     re_request = chat_demo_request, re_db = demo_db [demo_leased], re_meta = (\<lambda>_. meta), re_parse = (\<lambda>_. None),
     re_candidates = Inr [9], re_created = Inr demo_leased, re_acquire = Inr demo_leased, re_agent = Inr True,
     re_reply = Inr JNull, re_accept = (\<lambda>_. Answered), re_release = Answered, re_text = (\<lambda>_. [])\<rparr>"


lemma unreadable_metadata_keeps_lease_witness:
  "fst (create_chat_completion (demo_route (JObj [(''capabilities'', JNull)])) start_route) = Inl (no_attribute ''get'' JNull)
   \<and> rt_held (snd (create_chat_completion (demo_route (JObj [(''capabilities'', JNull)])) start_route))
   \<and> rt_releases (snd (create_chat_completion (demo_route (JObj [(''capabilities'', JNull)])) start_route)) = []"
proof (rule unreadable_metadata_keeps_lease [OF surjective_pairing])
  show "rt_leased (snd (create_chat_completion (demo_route (JObj [(''capabilities'', JNull)])) start_route)) \<noteq> None" by code_simp
  show "re_acquire (demo_route (JObj [(''capabilities'', JNull)])) = Inr demo_leased" by (simp add: demo_route_def)
  show "resolve_reasoning_effort (re_parse (demo_route (JObj [(''capabilities'', JNull)])))
     (re_meta (demo_route (JObj [(''capabilities'', JNull)])) demo_leased)
     (rq_reasoning_effort (re_request (demo_route (JObj [(''capabilities'', JNull)])))) = Inl (no_attribute ''get'' JNull)"
    by code_simp
  show "\<forall>m. no_attribute ''get'' JNull \<noteq> ReasoningPolicyError m" by (simp add: no_attribute_def)
qed

definition cut_off :: chat_env where
  "cut_off = demo_chat\<lparr>ce_open := [(0, OpenCancelled CancelledError)], ce_close := Threw CancelledError\<rparr>"

lemma second_cancel_keeps_lease_witness:
  "fst (serve_chat cut_off 7) = Inl CancelledError \<and> cr_releases (snd (serve_chat cut_off 7)) = []
   \<and> map fst (cr_telemetry (snd (serve_chat cut_off 7))) = [''cancelled'']"
proof -
  have b: "chat_body cut_off (start_chat 7) = (Inl CancelledError, snd (chat_body cut_off (start_chat 7)))"
    "cr_waiting (snd (chat_body cut_off (start_chat 7)))" "cr_releases (snd (chat_body cut_off (start_chat 7))) = []"
    by code_simp+
  have "ce_close cut_off = Threw CancelledError" by (simp add: cut_off_def)
  from second_cancel_keeps_lease [OF b this] b(3) show ?thesis by simp
qed

end
