(* ===== verification/NpuRoutes.thy ===== *)
theory NpuRoutes
  imports LeasedCalls
begin

text \<open>
  The routes to the small models of a flash instance: npu_dispatch.py of backend/app/services, and
  v1_rerank.py, v1_decisions.py and v1_moderations.py of backend/app/api/routes/v1.
  \<^item> A request has passed its pydantic model. The output models, which check what the engine sent,
    are arguments where it reaches them unchecked.
  \<^item> \<open>math.exp\<close>, how Python prints a value and \<open>json.loads\<close> are arguments. A float is its rational
    value; \<open>float\<close> of a text reads the decimal syntax, without infinities and NaN.
\<close>

section \<open>Values\<close>

definition signed_number :: "string \<Rightarrow> int option" where
  "signed_number s = (case s of
     [] \<Rightarrow> None
   | c # cs \<Rightarrow> if c = CHR ''-'' then map_option uminus (read_number cs)
               else if c = CHR ''+'' then read_number cs else read_number (c # cs))"

definition scaled :: "rat \<Rightarrow> int \<Rightarrow> rat" where
  "scaled q e = (if 0 \<le> e then q * 10 ^ nat e else q / 10 ^ nat (- e))"

text \<open>Digits, a fraction, an exponent; digits on one side of the point at least.\<close>

definition unsigned_float :: "string \<Rightarrow> rat option" where
  "unsigned_float s =
     (let m = takeWhile (\<lambda>c. c \<notin> {CHR ''e'', CHR ''E''}) s;
          ex = (if m = s then Some 0 else signed_number (drop (Suc (length m)) s));
          a = takeWhile (\<lambda>c. c \<noteq> CHR ''.'') m;
          f = drop (Suc (length a)) m;
          whole = (if a = [] then Some 0 else read_number a);
          part = (if f = [] then Some 0 else read_number f)
      in if a = [] \<and> f = [] then None
         else (case (whole, part, ex) of
           (Some w, Some p, Some e) \<Rightarrow>
             Some (scaled (of_int w + of_int p / 10 ^ length (filter (\<lambda>c. decimal_of c \<noteq> None) f)) e)
         | _ \<Rightarrow> None))"

definition float_of_text :: "string \<Rightarrow> rat option" where
  "float_of_text s = (case strip s of
     [] \<Rightarrow> None
   | c # cs \<Rightarrow> if c = CHR ''-'' then map_option uminus (unsigned_float cs)
               else if c = CHR ''+'' then unsigned_float cs else unsigned_float (c # cs))"

fun py_float :: "json \<Rightarrow> exn + rat" where
  "py_float (JInt n) = Inr (of_int n)"
| "py_float (JBool b) = Inr (if b then 1 else 0)"
| "py_float (JFloat q) = Inr q"
| "py_float (JStr s) = (case float_of_text s of None \<Rightarrow> Inl (ValueError ''could not convert string to float'') | Some q \<Rightarrow> Inr q)"
| "py_float j = Inl TypeError"

section \<open>Dispatch\<close>

definition suffix_for :: "string \<Rightarrow> string option" where
  "suffix_for upstream = map_of NPU_SUFFIXES upstream"

definition resolve_npu_target :: "call_env \<Rightarrow> string \<Rightarrow> string option \<Rightarrow> string \<Rightarrow> exn + inference_target" where
  "resolve_npu_target x model agent capability =
     bind_res (not_found_404 (resolve_inference_target (ca_uuid_of x) model agent (ca_db x))) (\<lambda>t.
     case (tg_server t, tg_npu t) of
       (Some s, Some upstream) \<Rightarrow>
         if suffix_for upstream = Some capability then Inr t
         else Inl (HttpStatus 400 (''Model '' @ model @ '' does not support '' @ capability))
     | _ \<Rightarrow> Inl (HttpStatus 400 (''Model '' @ model @ '' does not support '' @ capability)))"

definition dispatch_body :: "call_env \<Rightarrow> inference_target \<Rightarrow> string \<Rightarrow> obj \<Rightarrow> obj route_script" where
  "dispatch_body x t path body =
     and_then (take_lease (ca_acquire x) (md_id (tg_model t)) (tg_preferred t) (tg_agent t)) (\<lambda>s.
     and_then (send s path body) (\<lambda>_.
     and_then (lift_res (ca_reply x)) (\<lambda>response.
     case response of
       JObj fs \<Rightarrow>
         and_then (lift_res (let u = py_or (look ''usage'' JNull fs) (JObj []) in
             bind_res (py_get ''total_tokens'' (JInt 0) u) (\<lambda>total. py_get ''prompt_tokens'' total u))) (\<lambda>tokens.
         and_then (record_route ''success'' (Some [(''prompt_tokens'', tokens)]) (look ''timings'' JNull fs)) (\<lambda>_.
         give fs))
     | _ \<Rightarrow> throw (HttpStatus 500 (''Invalid '' @ path @ '' response from server'')))))"

definition dispatch_error :: "call_env \<Rightarrow> string \<Rightarrow> exn \<Rightarrow> exn" where
  "dispatch_error x what e = (case e of
     HttpStatus n m \<Rightarrow> e
   | TimeoutError m \<Rightarrow> HttpStatus 503 (ca_text x e)
   | _ \<Rightarrow> HttpStatus 500 (''Failed '' @ what @ ca_text x e))"

definition dispatch_npu :: "call_env \<Rightarrow> inference_target \<Rightarrow> string \<Rightarrow> obj \<Rightarrow> obj route_script" where
  "dispatch_npu x t path body =
     leased_try (dispatch_error x (path @ '' request: '')) (ca_release x) (dispatch_body x t path body)"

section \<open>Rerank\<close>

record rerank_request =
  rr_model :: string
  rr_agent_id :: "string option"
  rr_query :: string
  rr_documents :: "string list"
  rr_top_n :: "int option"
  rr_instruct :: "string option"
  rr_return_documents :: bool

record rerank_result =
  rs_index :: int
  rs_score :: rat
  rs_document :: "string option"

record rerank_response =
  rp_results :: "rerank_result list"
  rp_prompt_tokens :: int
  rp_total_tokens :: int

definition npu_model_of :: "inference_target \<Rightarrow> json" where
  "npu_model_of t = (case tg_npu t of None \<Rightarrow> JNull | Some u \<Rightarrow> JStr u)"

definition rerank_body :: "inference_target \<Rightarrow> rerank_request \<Rightarrow> obj" where
  "rerank_body t q =
     [(''model'', npu_model_of t), (''query'', JStr (rr_query q)), (''documents'', JArr (map JStr (rr_documents q))),
      (''return_documents'', JBool (rr_return_documents q))]
     @ (case rr_top_n q of None \<Rightarrow> [] | Some n \<Rightarrow> [(''top_n'', JInt n)])
     @ (case rr_instruct q of None \<Rightarrow> [] | Some s \<Rightarrow> [(''instruction'', JStr s)])"

text \<open>\<open>check\<close> stands for the output model of the document.\<close>

definition rerank_result_of :: "(json \<Rightarrow> exn + string option) \<Rightarrow> nat \<times> json \<Rightarrow> exn + rerank_result" where
  "rerank_result_of check = (\<lambda>(i, item).
     bind_res (bind_res (py_get ''index'' (JInt (int i)) item) py_int) (\<lambda>index.
     bind_res (bind_res (py_get ''relevance_score'' (JFloat 0) item) py_float) (\<lambda>score.
     bind_res (py_get ''document'' JNull item) (\<lambda>d.
     bind_res (check (case d of JStr s \<Rightarrow> JStr s | JObj fs \<Rightarrow> look ''text'' JNull fs | _ \<Rightarrow> JNull)) (\<lambda>document.
     Inr \<lparr>rs_index = index, rs_score = score, rs_document = document\<rparr>)))))"

definition read_rerank :: "(json \<Rightarrow> exn + string option) \<Rightarrow> obj \<Rightarrow> exn + rerank_response" where
  "read_rerank check response =
     (case look ''results'' JNull response of
        JArr items \<Rightarrow>
          bind_res (each (rerank_result_of check) (List.enumerate 0 items)) (\<lambda>results.
          let u = py_or (look ''usage'' JNull response) (JObj []) in
          bind_res (py_get ''prompt_tokens'' (JInt 0) u) (\<lambda>prompt.
          bind_res (py_get ''total_tokens'' prompt u) (\<lambda>total.
          bind_res (py_count prompt) (\<lambda>p.
          bind_res (py_count total) (\<lambda>n.
          Inr \<lparr>rp_results = results, rp_prompt_tokens = p, rp_total_tokens = n\<rparr>)))))
      | _ \<Rightarrow> Inl (HttpStatus 500 ''Invalid rerank response from server''))"

definition rerank :: "call_env \<Rightarrow> (json \<Rightarrow> exn + string option) \<Rightarrow> rerank_request \<Rightarrow> rerank_response route_script" where
  "rerank x check q =
     and_then (lift_res (resolve_npu_target x (rr_model q) (rr_agent_id q) ''rerank'')) (\<lambda>t.
     and_then (dispatch_npu x t ''v1/rerank'' (rerank_body t q)) (\<lambda>response.
     lift_res (read_rerank check response)))"

section \<open>Decisions\<close>

record decision_request =
  dq_model :: string
  dq_agent_id :: "string option"
  dq_text :: string
  dq_question :: string
  dq_options :: "string list"
  dq_system :: "string option"

record decision_env = call_env +
  de_exp :: "rat \<Rightarrow> exn + rat"
  de_loads :: "string \<Rightarrow> json option"
  de_show :: "json \<Rightarrow> string"

definition decision_body :: "inference_target \<Rightarrow> decision_request \<Rightarrow> obj" where
  "decision_body t q =
     (let turn = (\<lambda>speaker s. JObj [(''role'', JStr speaker), (''content'', JStr s)])
      in [(''model'', npu_model_of t),
          (''messages'', JArr ((if dq_system q \<in> {None, Some []} then [] else [turn ''system'' (the (dq_system q))])
             @ [turn ''user'' (dq_text q)])),
          (''response_format'', JObj [(''type'', JStr ''json_schema''),
             (''json_schema'', JObj [(''name'', JStr ''decision''), (''description'', JStr (dq_question q)),
                (''schema'', JObj [(''enum'', JArr (map JStr (dq_options q)))])])]),
          (''logprobs'', JBool True), (''top_logprobs'', JInt (int (length (dq_options q)))),
          (''max_tokens'', JInt 1), (''temperature'', JInt 0), (''stream'', JBool False)])"

definition quote :: char where
  "quote = CHR 0x22"

definition strip_quotes :: "string \<Rightarrow> string" where
  "strip_quotes s = rev (dropWhile (\<lambda>c. c = quote) (rev (dropWhile (\<lambda>c. c = quote) s)))"

text \<open>The answer is the option as JSON: a string in quotes.\<close>

definition unwrap :: "(string \<Rightarrow> json option) \<Rightarrow> (json \<Rightarrow> string) \<Rightarrow> string \<Rightarrow> string" where
  "unwrap loads show raw =
     (if raw \<noteq> [] \<and> hd raw = quote \<and> last raw = quote
      then (case loads raw of Some j \<Rightarrow> py_str show j | None \<Rightarrow> strip_quotes raw)
      else raw)"

definition label_of :: "string \<Rightarrow> string" where
  "label_of token = (if token \<noteq> [] \<and> hd token = quote then strip_quotes token else token)"

type_synonym scores = "(string \<times> rat) list"

definition score :: "scores \<Rightarrow> string \<Rightarrow> rat" where
  "score ps label = (case map_of ps label of None \<Rightarrow> 0 | Some p \<Rightarrow> p)"

text \<open>The probability of every label: the sum over the tokens that read as it.\<close>

fun add_scores :: "(rat \<Rightarrow> exn + rat) \<Rightarrow> json list \<Rightarrow> scores \<Rightarrow> exn + scores" where
  "add_scores expo [] ps = Inr ps"
| "add_scores expo (entry # entries) ps =
     bind_res (py_get ''token'' JNull entry) (\<lambda>token.
     bind_res (py_get ''logprob'' JNull entry) (\<lambda>logprob.
     if token = JNull \<or> logprob = JNull then add_scores expo entries ps
     else (case token of
         JStr s \<Rightarrow> bind_res (py_float logprob) (\<lambda>l. bind_res (expo l) (\<lambda>p.
             add_scores expo entries (AList.update (label_of s) (score ps (label_of s) + p) ps)))
       | _ \<Rightarrow> Inl (no_attribute ''startswith'' token))))"

definition probabilities :: "(rat \<Rightarrow> exn + rat) \<Rightarrow> json \<Rightarrow> exn + scores" where
  "probabilities expo choice =
     bind_res (py_get ''logprobs'' JNull choice) (\<lambda>l.
     bind_res (py_get ''content'' JNull (py_or l (JObj []))) (\<lambda>c.
     let content = py_or c (JArr []) in
     if \<not> py_true content then Inr []
     else bind_res (py_first content) (\<lambda>first.
          bind_res (py_get ''top_logprobs'' JNull first) (\<lambda>top.
          bind_res (py_iter (py_or top (JArr []))) (\<lambda>entries.
          add_scores expo entries [])))))"

text \<open>\<open>max\<close> with a key keeps the first of equal ones.\<close>

fun max_by :: "('a \<Rightarrow> rat) \<Rightarrow> 'a \<Rightarrow> 'a list \<Rightarrow> 'a" where
  "max_by f m [] = m"
| "max_by f m (x # xs) = max_by f (if f m < f x then x else m) xs"

definition choose_option :: "string list \<Rightarrow> scores \<Rightarrow> string \<Rightarrow> string" where
  "choose_option options ps answered =
     (if answered \<in> set options then answered
      else (case filter (\<lambda>opt. map_of ps opt \<noteq> None) options of
          [] \<Rightarrow> answered
        | opt # opts \<Rightarrow> max_by (score ps) opt opts))"

definition read_decision :: "decision_env \<Rightarrow> string list \<Rightarrow> obj \<Rightarrow> exn + string \<times> scores" where
  "read_decision x options response =
     (let choices = py_or (look ''choices'' JNull response) (JArr []) in
      if \<not> py_true choices then Inl (HttpStatus 500 ''Invalid decision response from server'')
      else bind_res (py_first choices) (\<lambda>choice.
      bind_res (py_get ''message'' JNull choice) (\<lambda>m.
      bind_res (py_get ''content'' JNull (py_or m (JObj []))) (\<lambda>c.
      case py_or c (JStr []) of
        JStr s \<Rightarrow>
          bind_res (probabilities (de_exp x) choice) (\<lambda>ps.
          Inr (choose_option options ps (unwrap (de_loads x) (de_show x) (strip s)), ps))
      | j \<Rightarrow> Inl (no_attribute ''strip'' j)))))"

definition decide :: "decision_env \<Rightarrow> decision_request \<Rightarrow> (string \<times> scores) route_script" where
  "decide x q =
     (let y = call_env.truncate x in
     and_then (lift_res (resolve_npu_target y (dq_model q) (dq_agent_id q) ''decide'')) (\<lambda>t.
     and_then (if distinct (dq_options q) then give () else throw (HttpStatus 400 ''Decision options must be unique'')) (\<lambda>_.
     and_then (dispatch_npu y t ''v1/chat/completions'' (decision_body t q)) (\<lambda>response.
     lift_res (read_decision x (dq_options q) response)))))"

section \<open>Moderations\<close>

record moderation_request =
  mq_model :: string
  mq_agent_id :: "string option"
  mq_input :: "json option"
  mq_messages :: "obj list option"
  mq_strict :: "bool option"

definition moderation_body :: "inference_target \<Rightarrow> moderation_request \<Rightarrow> exn + obj" where
  "moderation_body t q =
     (let tail = (case mq_strict q of None \<Rightarrow> [] | Some b \<Rightarrow> [(''strict'', JBool b)])
      in case mq_messages q of
           Some ms \<Rightarrow> Inr ([(''model'', npu_model_of t), (''messages'', JArr (map JObj ms))] @ tail)
         | None \<Rightarrow> (case mq_input q of
             Some i \<Rightarrow> Inr ([(''model'', npu_model_of t), (''input'', i)] @ tail)
           | None \<Rightarrow> Inl (HttpStatus 400 ''Provide input or messages'')))"

text \<open>\<open>accept\<close> stands for the output model, which checks the id and the results.\<close>

definition read_moderation :: "(json \<Rightarrow> json list \<Rightarrow> answer) \<Rightarrow> obj \<Rightarrow> exn + json \<times> json list" where
  "read_moderation accept response =
     (case look ''results'' JNull response of
        JArr rs \<Rightarrow> (case accept (look ''id'' (JStr []) response) rs of
            Answered \<Rightarrow> Inr (look ''id'' (JStr []) response, rs)
          | Threw e \<Rightarrow> Inl e)
      | _ \<Rightarrow> Inl (HttpStatus 500 ''Invalid moderation response''))"

definition moderate :: "call_env \<Rightarrow> (json \<Rightarrow> json list \<Rightarrow> answer) \<Rightarrow> moderation_request \<Rightarrow> (json \<times> json list) route_script" where
  "moderate x accept q =
     and_then (lift_res (resolve_npu_target x (mq_model q) (mq_agent_id q) ''guard'')) (\<lambda>t.
     and_then (lift_res (moderation_body t q)) (\<lambda>body.
     and_then (dispatch_npu x t ''v1/moderations'' body) (\<lambda>response.
     lift_res (read_moderation accept response))))"

end
