(* ===== verification/NpuRoutesSafety.thy ===== *)
theory NpuRoutesSafety
  imports NpuRoutes
begin

text \<open>
  What holds of the NPU routes: a dispatched call gives its lease back and records itself once;
  every request sent fits the capability of its route; and a decision is an option whenever the
  model scored one.
\<close>

section \<open>The books\<close>

definition call_calm :: "call_env \<Rightarrow> bool" where
  "call_calm x \<longleftrightarrow> ca_acquire x \<noteq> Inl GeneratorExit \<and> ca_reply x \<noteq> Inl GeneratorExit"

text \<open>The lease is the one the scheduler gave, or there is none.\<close>

definition lease_of :: "exn + server_row \<Rightarrow> server_row option \<Rightarrow> bool" where
  "lease_of answer l \<longleftrightarrow> l = (case answer of Inl e \<Rightarrow> None | Inr s \<Rightarrow> Some s)"

text \<open>While the lease is held, what keeps it keeps all that is known of it.\<close>

lemma leased_only:
  "open_call.stays_in (\<lambda>l. L l \<and> l \<noteq> None) m \<Longrightarrow> hoare (call_open (\<lambda>l. L l \<and> l \<noteq> None)) m (\<lambda>_. call_open (\<lambda>l. L l \<and> l \<noteq> None))
     (\<lambda>e r. call_open L r \<and> e \<noteq> GeneratorExit)"
  by (erule hoare_conseq) (auto simp: call_open_def)

lemma take_lease_some:
  assumes "answer \<noteq> Inl GeneratorExit"
  shows "hoare (call_open (\<lambda>l. l = None)) (take_lease answer m p a) (\<lambda>_. call_open (\<lambda>l. lease_of answer l \<and> l \<noteq> None))
     (\<lambda>e r. call_open (lease_of answer) r \<and> e \<noteq> GeneratorExit)"
  using assms by (cases answer)
    (auto simp: hoare_def take_lease_def and_then_def change_def lift_res_def throw_def give_def call_open_def lease_of_def)

lemma dispatch_books:
  assumes "call_calm x"
  shows "hoare (call_open (\<lambda>l. l = None)) (dispatch_body x t path body) (\<lambda>_. call_ready (lease_of (ca_acquire x)))
     (\<lambda>e r. call_open (lease_of (ca_acquire x)) r \<and> e \<noteq> GeneratorExit)"
proof -
  let ?L = "lease_of (ca_acquire x)"
  let ?E = "\<lambda>e r. call_open ?L r \<and> e \<noteq> GeneratorExit"
  have reply: "hoare (call_open (\<lambda>l. ?L l \<and> l \<noteq> None)) (lift_res (ca_reply x)) (\<lambda>_. call_open (\<lambda>l. ?L l \<and> l \<noteq> None)) ?E"
    using assms by (intro leased_only open_call.lifted) (auto simp: call_calm_def)
  have tokens: "hoare (call_open (\<lambda>l. ?L l \<and> l \<noteq> None)) (lift_res (let u = v in bind_res (py_get k d u) (\<lambda>total. py_get k' total u)))
      (\<lambda>_. call_open (\<lambda>l. ?L l \<and> l \<noteq> None)) ?E" for v k d k'
    by (intro leased_only open_call.lifted) (cases v; auto simp: Let_def no_attribute_def)
  have bad: "hoare (call_open (\<lambda>l. ?L l \<and> l \<noteq> None)) (throw (HttpStatus 500 m)) Q ?E" for m and Q :: "obj \<Rightarrow> route_run \<Rightarrow> bool"
    by (rule hoare_throw) (auto simp: call_open_def)
  have ok: "hoare (call_open (\<lambda>l. ?L l \<and> l \<noteq> None)) (and_then (lift_res (let u = v in bind_res (py_get k d u) (\<lambda>total. py_get k' total u))) (\<lambda>n.
      and_then (record_route ''success'' (Some [(''prompt_tokens'', n)]) j) (\<lambda>_. give fs))) (\<lambda>_. call_ready ?L) ?E" for v k d k' j fs
    by (intro hoare_bind [OF tokens] hoare_bind [OF record_ready] hoare_give) auto
  have branch: "hoare (call_open (\<lambda>l. ?L l \<and> l \<noteq> None)) (case response of
       JObj fs \<Rightarrow>
         and_then (lift_res (let u = py_or (look ''usage'' JNull fs) (JObj []) in
             bind_res (py_get ''total_tokens'' (JInt 0) u) (\<lambda>total. py_get ''prompt_tokens'' total u))) (\<lambda>tokens.
         and_then (record_route ''success'' (Some [(''prompt_tokens'', tokens)]) (look ''timings'' JNull fs)) (\<lambda>_.
         give fs))
     | _ \<Rightarrow> throw (HttpStatus 500 (''Invalid '' @ path @ '' response from server''))) (\<lambda>_. call_ready ?L) ?E" for response
    by (cases response) (simp_all only: json.case ok bad)
  show ?thesis unfolding dispatch_body_def
    by (intro hoare_bind [OF take_lease_some] hoare_bind [OF leased_only [OF send_open]] hoare_bind [OF reply] branch)
      (use assms in \<open>simp add: call_calm_def\<close>)
qed

lemma dispatch_settles:
  assumes "call_calm x" "dispatch_npu x t path body start_route = (res, r)"
  shows "call_settled (lease_of (ca_acquire x)) r"
  by (rule leased_try_settles [OF dispatch_books [OF assms(1)] assms(2) [unfolded dispatch_npu_def]])
    (simp add: call_open_def start_route_def)

text \<open>What a route does before and after the call leaves its books as they are.\<close>

lemma lift_first: "and_then (lift_res m) k r = (res, r') \<Longrightarrow> (\<exists>e. m = Inl e \<and> res = Inl e \<and> r' = r) \<or> (\<exists>a. m = Inr a \<and> k a r = (res, r'))"
  by (auto simp: and_then_def lift_res_def throw_def give_def split: sum.splits)

lemma then_lift: "and_then m (\<lambda>a. lift_res (f a)) r = (res, r') \<Longrightarrow> \<exists>a. m r = (a, r')"
  by (auto simp: and_then_def lift_res_def throw_def give_def split: sum.splits prod.splits)

definition books_of :: "route_run \<Rightarrow> string list \<times> string list" where
  "books_of r = (rt_releases r, map fst (rt_telemetry r))"

text \<open>The books of a request that may have been refused before its call.\<close>

definition CALL_BOOKS :: "exn + server_row \<Rightarrow> (string list \<times> string list) list" where
  "CALL_BOOKS answer = ([], []) # (case answer of
     Inl e \<Rightarrow> [([], [''error'']), ([], [''cancelled''])] | Inr s \<Rightarrow> OUTCOMES)"

definition route_over :: "exn + server_row \<Rightarrow> route_run \<Rightarrow> bool" where
  "route_over answer r \<longleftrightarrow> books_of r \<in> set (CALL_BOOKS answer) \<and> \<not> rt_held r"

lemma settled_books: "call_settled (lease_of a) r \<Longrightarrow> route_over a r"
  by (auto simp: route_over_def call_settled_def lease_of_def books_of_def CALL_BOOKS_def split: sum.splits if_splits)

lemma start_books: "route_over a start_route"
  by (simp add: route_over_def books_of_def CALL_BOOKS_def start_route_def)

lemma rerank_books:
  assumes "call_calm x" "rerank x check q start_route = (res, r)"
  shows "route_over (ca_acquire x) r"
  using assms(2) unfolding rerank_def
  by (auto dest!: lift_first then_lift intro: start_books settled_books dispatch_settles [OF assms(1)])

lemma decide_books:
  assumes "call_calm (call_env.truncate x)" "decide x q start_route = (res, r)"
  shows "route_over (ca_acquire x) r"
proof -
  have d: "route_over (ca_acquire x) r" if "dispatch_npu (call_env.truncate x) t p b start_route = (v, r)" for t p b v
    using settled_books [OF dispatch_settles [OF assms(1) that]] by (simp add: call_env.truncate_def)
  show ?thesis
  proof (cases "distinct (dq_options q)")
    case True
    then show ?thesis using assms(2) unfolding decide_def Let_def
      by (auto dest!: lift_first then_lift simp: and_then_def [of "give ()"] give_def [of "()"] start_books intro: d)
  next
    case False
    then show ?thesis using assms(2) unfolding decide_def Let_def
      by (auto dest!: lift_first simp: and_then_def [of "throw e" for e] throw_def start_books)
  qed
qed

lemma moderate_books:
  assumes "call_calm x" "moderate x accept q start_route = (res, r)"
  shows "route_over (ca_acquire x) r"
  using assms(2) unfolding moderate_def
  by (auto dest!: lift_first then_lift intro: start_books settled_books dispatch_settles [OF assms(1)])

section \<open>What is sent\<close>

lemma find_in: "List.find P xs = Some y \<Longrightarrow> y \<in> set xs \<and> P y"
  by (induction xs) (auto split: if_splits)

lemma candidates_live: "s \<in> set (flash_candidates alias d) \<Longrightarrow> s \<in> set (db_servers d) \<and> flash_live s"
  by (simp add: flash_candidates_def flash_live_def)

lemma npu_among_live:
  "npu_among table model d = Some (s, u) \<Longrightarrow> s \<in> set (db_servers d) \<and> flash_live s \<and> u \<in> set (srv_npu_models s)"
  by (induction table model d rule: npu_among.induct)
    (auto split: if_splits dest!: find_in dest: candidates_live)

lemma model_has_id: "get_model d i = Some m \<Longrightarrow> md_id m = i"
  by (auto simp: get_model_def dest!: first_row_SomeD)

lemma resolved_npu:
  assumes "resolve_npu_target x model agent capability = Inr t"
  obtains s u where "tg_server t = Some s" "tg_npu t = Some u" "suffix_for u = Some capability"
    "s \<in> set (db_servers (ca_db x))" "flash_live s" "u \<in> set (srv_npu_models s)"
    "md_id (tg_model t) = srv_model_id s" "tg_preferred t = Some (srv_id s)"
proof -
  from assms obtain s u where t: "resolve_inference_target (ca_uuid_of x) model agent (ca_db x) = Inr t"
      "tg_server t = Some s" "tg_npu t = Some u" "suffix_for u = Some capability"
    by (auto simp: resolve_npu_target_def bind_res_Inr_iff not_found_404_def split: sum.splits exn.splits option.splits if_splits)
  then have "npu_virtual_alias model (ca_db x) = Some (s, u) \<and> get_model (ca_db x) (srv_model_id s) = Some (tg_model t)
      \<and> tg_preferred t = Some (srv_id s)"
    by (auto simp: resolve_inference_target_def pinned_target_def split: option.splits sum.splits)
  with t npu_among_live model_has_id [of "ca_db x" "srv_model_id s" "tg_model t"] show ?thesis by (intro that [of s u]) (auto simp: npu_virtual_alias_def)
qed

definition traced :: "(uuid \<times> uuid option \<times> uuid option) \<Rightarrow> string \<Rightarrow> obj \<Rightarrow> route_run \<Rightarrow> bool" where
  "traced a path body r \<longleftrightarrow> rt_asked r = [a] \<and> (\<forall>(i, p, b)\<in>set (rt_sent r). p = path \<and> b = body)"

lemma leased_try_traced:
  assumes "hoare A body (\<lambda>_. traced a path b) (\<lambda>_. traced a path b)" "A r" "leased_try f rel body r = (res, r')"
  shows "traced a path b r'"
proof -
  obtain v r1 where m: "body r = (v, r1)" by fastforce
  have t: "traced a path b r1" using hoareD [OF assms(1,2) m] by (cases v) auto
  have "rt_asked r' = rt_asked r1 \<and> rt_sent r' = rt_sent r1"
    using assms(3) m
    by (auto simp: leased_try_def leased_call_def finally_do_def release_any_def give_back_def record_route_def and_then_def change_def
        await_answer_cases lift_res_def throw_def give_def split: sum.splits if_splits answer.splits)
  with t show ?thesis by (simp add: traced_def)
qed

lemma dispatch_traced:
  assumes "dispatch_npu x t path body start_route = (res, r)"
  shows "traced (md_id (tg_model t), tg_preferred t, tg_agent t) path body r"
proof (rule leased_try_traced [OF _ refl assms [unfolded dispatch_npu_def]])
  let ?T = "traced (md_id (tg_model t), tg_preferred t, tg_agent t) path body"
  have take: "hoare (\<lambda>r. r = start_route) (take_lease (ca_acquire x) (md_id (tg_model t)) (tg_preferred t) (tg_agent t)) (\<lambda>_. ?T) (\<lambda>_. ?T)"
    by (auto simp: hoare_def take_lease_def and_then_def change_def lift_res_def give_def throw_def traced_def start_route_def split: sum.splits)
  have sent: "hoare ?T (send s path body) (\<lambda>_. ?T) (\<lambda>_. ?T)" for s
    by (auto simp: hoare_def send_def change_def traced_def)
  have lift: "hoare ?T (lift_res m) (\<lambda>_. ?T) (\<lambda>_. ?T)" for m :: "exn + 'c"
    by (cases m) (auto simp: lift_res_def)
  have rec: "hoare ?T (record_route k v j) (\<lambda>_. ?T) (\<lambda>_. ?T)" for k v j
    by (auto simp: record_route_def hoare_def change_def throw_def traced_def split: json.split)
  have branch: "hoare ?T (case response of
       JObj fs \<Rightarrow>
         and_then (lift_res (let u = py_or (look ''usage'' JNull fs) (JObj []) in
             bind_res (py_get ''total_tokens'' (JInt 0) u) (\<lambda>total. py_get ''prompt_tokens'' total u))) (\<lambda>tokens.
         and_then (record_route ''success'' (Some [(''prompt_tokens'', tokens)]) (look ''timings'' JNull fs)) (\<lambda>_.
         give fs))
     | _ \<Rightarrow> throw (HttpStatus 500 (''Invalid '' @ path @ '' response from server''))) (\<lambda>_. ?T) (\<lambda>_. ?T)" for response
    by (cases response) (simp_all only: json.case, (intro hoare_bind [OF lift] hoare_bind [OF rec] hoare_give hoare_throw; assumption)+)
  show "hoare (\<lambda>r. r = start_route) (dispatch_body x t path body) (\<lambda>_. ?T) (\<lambda>_. ?T)"
    unfolding dispatch_body_def by (intro hoare_bind [OF take] hoare_bind [OF sent] hoare_bind [OF lift] branch)
qed

text \<open>Nothing was asked; or an instance with a model of the capability was, and only that model is named.\<close>

definition npu_fits :: "string \<Rightarrow> string \<Rightarrow> db \<Rightarrow> route_run \<Rightarrow> bool" where
  "npu_fits path capability d r \<longleftrightarrow> rt_asked r = [] \<and> rt_sent r = [] \<or>
     (\<exists>s\<in>set (db_servers d). \<exists>u\<in>set (srv_npu_models s). flash_live s \<and> suffix_for u = Some capability
        \<and> (\<exists>a. rt_asked r = [(srv_model_id s, Some (srv_id s), a)])
        \<and> (\<forall>(i, p, b)\<in>set (rt_sent r). p = path \<and> map_of b ''model'' = Some (JStr u)))"

lemma fits_start: "npu_fits path capability d start_route"
  by (simp add: npu_fits_def start_route_def)

lemma fits_dispatch:
  assumes "resolve_npu_target x model agent capability = Inr t" "dispatch_npu x t path body start_route = (res, r)"
    and "map_of body ''model'' = Some (npu_model_of t)"
  shows "npu_fits path capability (ca_db x) r"
proof -
  obtain s u where s: "tg_npu t = Some u" "suffix_for u = Some capability"
    "s \<in> set (db_servers (ca_db x))" "flash_live s" "u \<in> set (srv_npu_models s)"
    "md_id (tg_model t) = srv_model_id s" "tg_preferred t = Some (srv_id s)"
    using assms(1) by (rule resolved_npu)
  have m: "map_of body ''model'' = Some (JStr u)" using assms(3) s(1) by (simp add: npu_model_of_def)
  from dispatch_traced [OF assms(2)] have a: "rt_asked r = [(srv_model_id s, Some (srv_id s), tg_agent t)]"
    and b: "\<forall>(i, p, b)\<in>set (rt_sent r). p = path \<and> map_of b ''model'' = Some (JStr u)"
    using m by (auto simp: traced_def s(6,7))
  show ?thesis unfolding npu_fits_def
    by (rule disjI2) (intro bexI [OF _ s(3)] bexI [OF _ s(5)] conjI s(2,4) exI [of _ "tg_agent t"] a b)
qed

lemma rerank_fits: "npu_fits ''v1/rerank'' ''rerank'' (ca_db x) (snd (rerank x check q start_route))"
proof -
  obtain res r where r: "rerank x check q start_route = (res, r)" by fastforce
  have b: "map_of (rerank_body t q) ''model'' = Some (npu_model_of t)" for t by (simp add: rerank_body_def)
  have "npu_fits ''v1/rerank'' ''rerank'' (ca_db x) r"
    using r unfolding rerank_def by (auto dest!: lift_first then_lift intro: fits_start fits_dispatch [OF _ _ b])
  with r show ?thesis by simp
qed

lemma decide_fits: "npu_fits ''v1/chat/completions'' ''decide'' (ca_db x) (snd (decide x q start_route))"
proof -
  obtain res r where r: "decide x q start_route = (res, r)" by fastforce
  have b: "map_of (decision_body t q) ''model'' = Some (npu_model_of t)" for t by (simp add: decision_body_def)
  have d: "ca_db (call_env.truncate x) = ca_db x" by (simp add: call_env.truncate_def)
  have "npu_fits ''v1/chat/completions'' ''decide'' (ca_db x) r"
  proof (cases "distinct (dq_options q)")
    case True
    then show ?thesis using r unfolding decide_def Let_def
      by (auto dest!: lift_first then_lift simp: and_then_def [of "give ()"] give_def [of "()"] fits_start
          intro: fits_dispatch [OF _ _ b, where x = "call_env.truncate x", unfolded d])
  next
    case False
    then show ?thesis using r unfolding decide_def Let_def
      by (auto dest!: lift_first simp: and_then_def [of "throw e" for e] throw_def fits_start)
  qed
  with r show ?thesis by simp
qed

lemma moderate_fits: "npu_fits ''v1/moderations'' ''guard'' (ca_db x) (snd (moderate x accept q start_route))"
proof -
  obtain res r where r: "moderate x accept q start_route = (res, r)" by fastforce
  have b: "map_of body ''model'' = Some (npu_model_of t)" if "moderation_body t q = Inr body" for t body
    using that by (auto simp: moderation_body_def Let_def split: option.splits)
  have "npu_fits ''v1/moderations'' ''guard'' (ca_db x) r"
    using r unfolding moderate_def by (auto dest!: lift_first then_lift intro: fits_start fits_dispatch [OF _ _ b])
  with r show ?thesis by simp
qed

text \<open>
  Claim C35: A request to an NPU route reaches a model of its kind: whatever name it gives, either nothing is
  asked of the scheduler, or the lease is asked for on one live flash instance of the table, and
  what is sent goes to the route's own path and names a model that this instance has enabled and
  whose capability is the route's.
\<close>

theorem npu_requests_fit:
  "npu_fits ''v1/rerank'' ''rerank'' (ca_db x) (snd (rerank x check q start_route))
   \<and> npu_fits ''v1/chat/completions'' ''decide'' (ca_db y) (snd (decide y dq start_route))
   \<and> npu_fits ''v1/moderations'' ''guard'' (ca_db z) (snd (moderate z accept mq start_route))"
  by (intro conjI rerank_fits decide_fits moderate_fits)

section \<open>Decisions\<close>

text \<open>The tokens that count, with their labels.\<close>

definition scored :: "(rat \<Rightarrow> exn + rat) \<Rightarrow> json \<Rightarrow> (string \<times> rat) option" where
  "scored expo entry = (case entry of
     JObj fs \<Rightarrow> (case look ''token'' JNull fs of
         JStr s \<Rightarrow> (case bind_res (py_float (look ''logprob'' JNull fs)) expo of
             Inr p \<Rightarrow> Some (label_of s, p) | Inl e \<Rightarrow> None)
       | _ \<Rightarrow> None)
   | _ \<Rightarrow> None)"

lemma score_update: "score (AList.update k v ps) l = (if l = k then v else score ps l)"
  by (simp add: score_def update_conv')

text \<open>The probability of a label is the sum over the tokens that read as it.\<close>

lemma scores_add_up:
  assumes "add_scores expo entries ps = Inr ps'"
  shows "score ps' l = score ps l + sum_list (map snd (filter (\<lambda>x. fst x = l) (List.map_filter (scored expo) entries)))
    \<and> (map_of ps' l \<noteq> None \<longleftrightarrow> map_of ps l \<noteq> None \<or> l \<in> fst ` set (List.map_filter (scored expo) entries))"
  using assms
proof (induction entries arbitrary: ps)
  case (Cons entry entries)
  from Cons.prems obtain fs where e: "entry = JObj fs" by (cases entry) auto
  consider (skip) "look ''token'' JNull fs = JNull \<or> look ''logprob'' JNull fs = JNull"
    | (count) "look ''token'' JNull fs \<noteq> JNull" "look ''logprob'' JNull fs \<noteq> JNull" by blast
  then show ?case
  proof cases
    case skip
    then have "add_scores expo entries ps = Inr ps'" using Cons.prems e by auto
    moreover have "scored expo entry = None" using skip e by (auto simp: scored_def split: json.split sum.split)
    ultimately show ?thesis using Cons.IH by (simp add: map_filter_def)
  next
    case count
    then obtain s q p where s: "look ''token'' JNull fs = JStr s" "py_float (look ''logprob'' JNull fs) = Inr q" "expo q = Inr p"
      and rest: "add_scores expo entries (AList.update (label_of s) (score ps (label_of s) + p) ps) = Inr ps'"
      using Cons.prems e by (auto simp: bind_res_Inr_iff split: json.splits)
    have "scored expo entry = Some (label_of s, p)" using e s by (simp add: scored_def)
    then show ?thesis using Cons.IH [OF rest] by (auto simp: map_filter_def score_update update_conv')
  qed
qed (simp add: map_filter_def)

lemma max_by_best: "max_by f m xs \<in> set (m # xs) \<and> (\<forall>x\<in>set (m # xs). f x \<le> f (max_by f m xs))"
  by (induction xs arbitrary: m) (auto simp: not_less split: if_splits elim: order_trans, fastforce+)

text \<open>The tokens of a choice: the alternatives of its first position.\<close>

definition arr :: "json \<Rightarrow> json list" where
  "arr j = (case j of JArr xs \<Rightarrow> xs | _ \<Rightarrow> [])"

definition py_field :: "string \<Rightarrow> json \<Rightarrow> json" where
  "py_field k j = (case j of JObj fs \<Rightarrow> look k JNull fs | _ \<Rightarrow> JNull)"

definition token_entries :: "json \<Rightarrow> json list" where
  "token_entries choice = (case arr (py_field ''content'' (py_field ''logprobs'' choice)) of
     [] \<Rightarrow> [] | first # _ \<Rightarrow> arr (py_field ''top_logprobs'' first))"

lemma get_field: "py_get k JNull j = Inr v \<Longrightarrow> py_field k j = v"
  by (cases j) (auto simp: py_field_def)

lemma get_or_field: "py_get k JNull (py_or j (JObj [])) = Inr v \<Longrightarrow> py_field k j = v"
  by (cases j) (auto simp: py_field_def py_or_def look_def split: if_splits)

lemma iter_scores:
  assumes "py_iter (py_or j (JArr [])) = Inr es" "add_scores expo es [] = Inr ps"
  shows "add_scores expo (arr j) [] = Inr ps"
proof (cases j)
  case (JObj fs)
  with assms show ?thesis by (cases fs) (auto simp: arr_def py_or_def)
next
  case (JStr s)
  with assms show ?thesis by (cases s) (auto simp: arr_def py_or_def)
qed (use assms in \<open>auto simp: arr_def py_or_def split: if_splits\<close>)

lemma probabilities_scores:
  assumes "probabilities expo choice = Inr ps"
  shows "add_scores expo (token_entries choice) [] = Inr ps"
proof -
  let ?c = "py_field ''content'' (py_field ''logprobs'' choice)"
  obtain l c where l: "py_field ''logprobs'' choice = l" "py_field ''content'' l = c"
    and rest: "(if \<not> py_true (py_or c (JArr [])) then Inr []
     else bind_res (py_first (py_or c (JArr []))) (\<lambda>first.
          bind_res (py_get ''top_logprobs'' JNull first) (\<lambda>top.
          bind_res (py_iter (py_or top (JArr []))) (\<lambda>entries.
          add_scores expo entries [])))) = Inr ps"
    using assms by (auto simp: probabilities_def Let_def bind_res_Inr_iff dest!: get_field get_or_field)
  show ?thesis
  proof (cases "py_true c")
    case False
    then have "ps = []" "arr c = []" using rest by (cases c; auto simp: py_or_def arr_def)+
    with l show ?thesis by (simp add: token_entries_def)
  next
    case True
    then obtain first top es where f: "py_first c = Inr first" "py_get ''top_logprobs'' JNull first = Inr top"
        "py_iter (py_or top (JArr [])) = Inr es" "add_scores expo es [] = Inr ps"
      using rest by (auto simp: py_or_def bind_res_Inr_iff)
    have "py_get ''top_logprobs'' JNull (JStr s) \<noteq> Inr top" for s by simp
    with f(1,2) obtain rest where "c = JArr (first # rest)"
      by (cases c rule: py_first.cases) auto
    then have "arr ?c = first # rest" using l by (simp add: arr_def)
    with iter_scores [OF f(3,4)] get_field [OF f(2)] show ?thesis by (simp add: token_entries_def)
  qed
qed

text \<open>The answer in the words of the model, unwrapped.\<close>

definition answer_text :: "decision_env \<Rightarrow> json \<Rightarrow> string" where
  "answer_text x choice = unwrap (de_loads x) (de_show x)
     (strip (case py_field ''content'' (py_field ''message'' choice) of JStr s \<Rightarrow> s | _ \<Rightarrow> []))"

text \<open>The three cases of a decision.\<close>

definition decision_right :: "string list \<Rightarrow> scores \<Rightarrow> string \<Rightarrow> string \<Rightarrow> bool" where
  "decision_right options ps answered d \<longleftrightarrow>
     (let ranked = filter (\<lambda>opt. map_of ps opt \<noteq> None) options
      in if answered \<in> set options \<or> ranked = [] then d = answered
         else d \<in> set ranked \<and> Max (score ps ` set ranked) = score ps d)"

lemma choose_option_right: "decision_right options ps answered (choose_option options ps answered)"
proof (cases "filter (\<lambda>opt. map_of ps opt \<noteq> None) options")
  case (Cons opt opts)
  let ?m = "max_by (score ps) opt opts"
  note b = max_by_best [of "score ps" opt opts]
  have "Max (score ps ` set (opt # opts)) = score ps ?m" using b by (intro Max_eqI) auto
  with b Cons show ?thesis by (auto simp: decision_right_def choose_option_def)
qed (simp add: decision_right_def choose_option_def)

text \<open>
  Claim C36: A decision is right for what the model said: it is the option the model answered, or the most
  probable of the options it scored, or, when it scored none, its answer; and the probability of
  every label is the sum over the tokens that read as it.
\<close>

theorem decision_sound:
  assumes "read_decision x options response = Inr (d, ps)"
  shows "\<exists>choice. arr (look ''choices'' JNull response) \<noteq> [] \<and> choice = hd (arr (look ''choices'' JNull response))
     \<and> decision_right options ps (answer_text x choice) d
     \<and> (\<forall>l. score ps l = sum_list (map snd (filter (\<lambda>t. fst t = l) (List.map_filter (scored (de_exp x)) (token_entries choice))))
          \<and> (map_of ps l \<noteq> None \<longleftrightarrow> l \<in> fst ` set (List.map_filter (scored (de_exp x)) (token_entries choice))))"
proof -
  let ?cs = "py_or (look ''choices'' JNull response) (JArr [])"
  obtain choice m c where read: "py_true ?cs" "py_first ?cs = Inr choice" "py_get ''message'' JNull choice = Inr m"
      "py_get ''content'' JNull (py_or m (JObj [])) = Inr c"
    and tail: "(case py_or c (JStr []) of
        JStr s \<Rightarrow> bind_res (probabilities (de_exp x) choice) (\<lambda>ps.
          Inr (choose_option options ps (unwrap (de_loads x) (de_show x) (strip s)), ps))
      | j \<Rightarrow> Inl (no_attribute ''strip'' j)) = Inr (d, ps)"
    using assms by (auto simp: read_decision_def Let_def bind_res_Inr_iff split: if_splits)
  then obtain s where parts: "py_or c (JStr []) = JStr s" "probabilities (de_exp x) choice = Inr ps"
      "d = choose_option options ps (unwrap (de_loads x) (de_show x) (strip s))"
    by (cases "py_or c (JStr [])") (auto simp: bind_res_Inr_iff)
  obtain rest where cs: "look ''choices'' JNull response = JArr (choice # rest)"
    using read(1,2,3) by (cases ?cs rule: py_first.cases) (auto simp: py_or_def split: if_splits)
  have "py_field ''content'' (py_field ''message'' choice) = c" using get_field [OF read(3)] get_or_field [OF read(4)] by simp
  moreover have "(case c of JStr s \<Rightarrow> s | _ \<Rightarrow> []) = s" using parts(1) by (cases c) (auto simp: py_or_def split: if_splits)
  ultimately have a: "unwrap (de_loads x) (de_show x) (strip s) = answer_text x choice" by (simp add: answer_text_def)
  note sums = scores_add_up [OF probabilities_scores [OF parts(2)]]
  show ?thesis
  proof (intro exI [of _ choice] conjI allI)
    show "arr (look ''choices'' JNull response) \<noteq> []" "choice = hd (arr (look ''choices'' JNull response))"
      by (simp_all add: cs arr_def)
    show "decision_right options ps (answer_text x choice) d" unfolding parts(3) a by (rule choose_option_right)
    show "score ps l = sum_list (map snd (filter (\<lambda>t. fst t = l) (List.map_filter (scored (de_exp x)) (token_entries choice))))"
      "map_of ps l \<noteq> None \<longleftrightarrow> l \<in> fst ` set (List.map_filter (scored (de_exp x)) (token_entries choice))" for l
      using sums [of l] by (simp_all add: score_def)
  qed
qed

end
