(* ===== verification/Embeddings.thy ===== *)
theory Embeddings
  imports NpuRoutesSafety
begin

text \<open>
  \<open>create_embedding\<close> of backend/app/api/routes/v1/v1_embeddings.py: the guards on the instance or the
  model, the leased call, and the reply. The output models, which check every vector and the counts,
  are the arguments \<open>em_data\<close> and \<open>em_count\<close>; the metadata of an instance and whether a model supports
  embeddings are columns read by \<open>em_meta\<close> and \<open>em_supports\<close>.
\<close>

section \<open>The route\<close>

record embedding_request =
  eq_model :: string
  eq_agent_id :: "string option"
  eq_input :: "string list"
  eq_encoding :: string

record embedding_env = call_env +
  em_meta :: "server_row \<Rightarrow> json"
  em_supports :: "model_row \<Rightarrow> bool"
  em_data :: "json \<Rightarrow> json \<Rightarrow> exn + rat list \<times> int"
  em_count :: "json \<Rightarrow> exn + int"

record embedding_reply =
  er_data :: "(rat list \<times> int) list"
  er_tokens :: int

text \<open>A request for one text has a list of one. The guards, and then the search for a server.\<close>

definition embedding_guard :: "embedding_env \<Rightarrow> embedding_request \<Rightarrow> inference_target \<Rightarrow> unit route_script" where
  "embedding_guard x q t =
     (case tg_server t of
        Some s \<Rightarrow>
          let npu = tg_npu t \<notin> {None, Some []} in
          if srv_engine s = ''halogen-flash'' \<and> \<not> npu
          then throw (HttpStatus 400 (''Model '' @ eq_model q @ '' is a halogen-flash server''))
          else if npu then give ()
          else and_then (lift_res (metadata_capability ''embeddings'' (em_meta x s))) (\<lambda>cap.
            if cap = Some False then throw (HttpStatus 400 (''Model '' @ eq_model q @ '' does not support embeddings'')) else give ())
      | None \<Rightarrow>
          if \<not> em_supports x (tg_model t)
          then throw (HttpStatus 400 (''Model '' @ eq_model q @ '' does not support embeddings''))
          else rethrow (creation_failure (ca_text x)) (and_then (lift_res (ca_created x)) (\<lambda>_. give ())))"

definition embedding_payload :: "inference_target \<Rightarrow> embedding_request \<Rightarrow> obj" where
  "embedding_payload t q =
     [(''input'', JArr (map JStr (eq_input q))), (''encoding_format'', JStr (eq_encoding q))]
     @ (case tg_npu t of Some u \<Rightarrow> if u = [] then [] else [(''model'', JStr u)] | None \<Rightarrow> [])"

definition embedding_datum :: "embedding_env \<Rightarrow> nat \<times> json \<Rightarrow> exn + rat list \<times> int" where
  "embedding_datum x = (\<lambda>(i, item).
     bind_res (py_item ''embedding'' item) (\<lambda>v. bind_res (py_get ''index'' (JInt (int i)) item) (\<lambda>n. em_data x v n)))"

definition read_embeddings :: "embedding_env \<Rightarrow> nat \<Rightarrow> json \<Rightarrow> exn + embedding_reply \<times> json \<times> json" where
  "read_embeddings x n response =
     (case response of
        JObj fs \<Rightarrow> (case map_of fs ''data'' of
            Some d \<Rightarrow>
              bind_res (py_iter d) (\<lambda>items.
              bind_res (each (embedding_datum x) (List.enumerate 0 items)) (\<lambda>vectors.
              bind_res (let u = look ''usage'' (JObj []) fs in
                bind_res (py_get ''total_tokens'' (JInt (int n)) u) (\<lambda>total. py_get ''prompt_tokens'' total u)) (\<lambda>tokens.
              bind_res (em_count x tokens) (\<lambda>c.
              Inr (\<lparr>er_data = vectors, er_tokens = c\<rparr>, tokens, look ''timings'' JNull fs)))))
          | None \<Rightarrow> Inl (HttpStatus 500 ''Invalid embedding response from server''))
      | _ \<Rightarrow> Inl (HttpStatus 500 ''Invalid embedding response from server''))"

definition embedding_body :: "embedding_env \<Rightarrow> inference_target \<Rightarrow> embedding_request \<Rightarrow> embedding_reply route_script" where
  "embedding_body x t q =
     and_then (take_lease (ca_acquire x) (md_id (tg_model t)) (tg_preferred t) (tg_agent t)) (\<lambda>s.
     and_then (send s ''v1/embeddings'' (embedding_payload t q)) (\<lambda>_.
     and_then (lift_res (ca_reply x)) (\<lambda>response.
     and_then (lift_res (read_embeddings x (length (eq_input q)) response)) (\<lambda>(reply, tokens, timings).
     and_then (record_route ''success'' (Some [(''prompt_tokens'', tokens)]) timings) (\<lambda>_.
     give reply)))))"

definition create_embedding :: "embedding_env \<Rightarrow> embedding_request \<Rightarrow> embedding_reply route_script" where
  "create_embedding x q =
     and_then (lift_res (not_found_404 (resolve_inference_target (ca_uuid_of x) (eq_model q) (eq_agent_id q) (ca_db x)))) (\<lambda>t.
     and_then (embedding_guard x q t) (\<lambda>_.
     leased_try (dispatch_error (call_env.truncate x) ''to create embeddings: '') (ca_release x) (embedding_body x t q)))"

section \<open>The books\<close>

definition embedding_calm :: "embedding_env \<Rightarrow> bool" where
  "embedding_calm x \<longleftrightarrow> ca_acquire x \<noteq> Inl GeneratorExit \<and> ca_reply x \<noteq> Inl GeneratorExit
     \<and> (\<forall>v n. em_data x v n \<noteq> Inl GeneratorExit) \<and> (\<forall>j. em_count x j \<noteq> Inl GeneratorExit)"

lemma unless_exit_embeddings:
  assumes "embedding_calm x"
  shows "unless_exit (read_embeddings x n response)"
proof -
  have p: "unless_exit (em_data x v i)" "unless_exit (em_count x j)" for v i j
    using assms by (auto simp: embedding_calm_def unless_exit_def)
  have "unless_exit (embedding_datum x a)" for a unfolding embedding_datum_def
    by (auto intro!: unless_exit_bind p tidy_json [THEN tidy_unless_exit] split: prod.split)
  moreover have "unless_exit (Inl (HttpStatus k m))" for k m by (simp add: unless_exit_def)
  ultimately show ?thesis unfolding read_embeddings_def Let_def
    by (auto intro!: unless_exit_bind unless_exit_each p unless_exit_Inr tidy_iter [THEN tidy_unless_exit]
        tidy_json [THEN tidy_unless_exit] split: json.split option.split)
qed

lemma embedding_books:
  assumes "embedding_calm x"
  shows "hoare (call_open (\<lambda>l. l = None)) (embedding_body x t q) (\<lambda>_. call_ready (lease_of (ca_acquire x)))
     (\<lambda>e r. call_open (lease_of (ca_acquire x)) r \<and> e \<noteq> GeneratorExit)"
proof -
  let ?L = "lease_of (ca_acquire x)"
  have calm: "ca_acquire x \<noteq> Inl GeneratorExit" "ca_reply x \<noteq> Inl GeneratorExit" using assms by (auto simp: embedding_calm_def)
  have lift: "hoare (call_open (\<lambda>l. ?L l \<and> l \<noteq> None)) (lift_res m) (\<lambda>_. call_open (\<lambda>l. ?L l \<and> l \<noteq> None))
      (\<lambda>e r. call_open ?L r \<and> e \<noteq> GeneratorExit)" if "unless_exit m" for m :: "exn + 'b"
    using that by (intro leased_only open_call.lifted) (auto simp: unless_exit_def)
  show ?thesis unfolding embedding_body_def
    by (intro hoare_bind [OF take_lease_some [OF calm(1)]] hoare_bind [OF leased_only [OF send_open]] hoare_bind [OF lift]
        hoare_prod hoare_bind [OF record_ready] hoare_give unless_exit_embeddings [OF assms])
      (use calm(2) in \<open>auto simp: unless_exit_def\<close>)
qed

text \<open>The guards leave the books as they are.\<close>

lemma guard_untouched:
  assumes "embedding_guard x q t r = (res, r')"
  shows "r' = r"
  using assms
  by (auto simp: embedding_guard_def Let_def rethrow_def and_then_def give_def throw_def lift_res_def
      split: option.splits if_splits sum.splits)

lemma embedding_steps:
  assumes "create_embedding x q start_route = (res, r)"
  obtains e where "res = Inl e" "r = start_route"
  | t where "leased_try (dispatch_error (call_env.truncate x) ''to create embeddings: '') (ca_release x) (embedding_body x t q) start_route = (res, r)"
proof -
  from assms consider e where "res = Inl e" "r = start_route"
    | t where "and_then (embedding_guard x q t) (\<lambda>_. leased_try (dispatch_error (call_env.truncate x) ''to create embeddings: '')
        (ca_release x) (embedding_body x t q)) start_route = (res, r)"
    unfolding create_embedding_def by (auto dest!: lift_first)
  then show ?thesis
  proof cases
    case (2 t)
    obtain v r1 where g: "embedding_guard x q t start_route = (v, r1)" by fastforce
    with 2 guard_untouched [OF g] that show ?thesis by (cases v) (auto simp: and_then_def)
  qed (use that in blast)
qed

lemma embedding_over:
  assumes "embedding_calm x" "create_embedding x q start_route = (res, r)"
  shows "route_over (ca_acquire x) r"
  using assms(2)
proof (cases rule: embedding_steps)
  case (2 t)
  have "call_open (\<lambda>l. l = None) start_route" by (simp add: call_open_def start_route_def)
  from settled_books [OF leased_try_settles [OF embedding_books [OF assms(1)] 2 this]] show ?thesis .
qed (simp add: start_books)

section \<open>Encoded vectors\<close>

text \<open>
  A request may ask for vectors in base64, and the engine then sends every vector as a text; but the
  reply is built of lists of numbers. With an output model that refuses a text where a list of
  numbers is due, the request always fails, after the engine has done the work.
\<close>

theorem encoded_embeddings_fail:
  assumes "create_embedding x q start_route = (res, r)" "rt_sent r \<noteq> []" "ca_release x = Answered"
    and "ca_reply x = Inr (JObj fs)" "map_of fs ''data'' = Some (JArr (JObj d # ds))" "map_of d ''embedding'' = Some (JStr b)"
    and "\<And>n. \<exists>m. em_data x (JStr b) n = Inl (ValueError m)"
  shows "(\<exists>m. res = Inl (HttpStatus 500 m)) \<and> rt_releases r = [''failed''] \<and> map fst (rt_telemetry r) = [''error'']"
  using assms(1)
proof (cases rule: embedding_steps)
  case (1 e)
  with assms(2) show ?thesis by (simp add: start_route_def)
next
  case (2 t)
  obtain m where m: "em_data x (JStr b) (look ''index'' (JInt 0) d) = Inl (ValueError m)" using assms(7) by blast
  have "embedding_datum x (0, JObj d) = Inl (ValueError m)" using assms(6) m by (simp add: embedding_datum_def)
  then have read: "read_embeddings x n (JObj fs) = Inl (ValueError m)" for n
    by (simp add: read_embeddings_def assms(5))
  show ?thesis
  proof (cases "ca_acquire x")
    case (Inl e)
    then have "rt_sent r = []" using 2
      by (auto simp: leased_try_def leased_call_def embedding_body_def take_lease_def and_then_def change_def lift_res_def throw_def start_route_def
          finally_do_def release_any_def record_route_def give_def split: if_splits)
    with assms(2) show ?thesis by simp
  next
    case (Inr s)
    then show ?thesis using 2 assms(3,4) read
      by (auto simp: leased_try_def leased_call_def embedding_body_def take_lease_def send_def and_then_def change_def lift_res_def throw_def give_def
          start_route_def finally_do_def release_any_def give_back_def record_route_def await_answer_def is_exception_def dispatch_error_def)
  qed
qed

end
