(* ===== verification/Completions.thy ===== *)
theory Completions
  imports LeasedCalls ProxyStream
begin

text \<open>
  The legacy text completions, backend/app/api/routes/v1/v1_completions.py: the prompt and the
  payload, the readers of a chunk, the stream, the buffered call, and \<open>create_completion\<close>.
  \<^item> A request has passed its pydantic model. The output models, which check the text, the finish
    reason, the counts and the details of the engine, are arguments.
  \<^item> Unlike a chat, the stream awaits the release of its lease before its last frames.
\<close>

section \<open>The payload\<close>

datatype prompt = TextPrompt string | TextsPrompt "string list" | TokensPrompt "int list" | BatchesPrompt "int list list"

record completion_request =
  co_model :: string
  co_agent_id :: "string option"
  co_prompt :: prompt
  co_stream :: bool
  co_temperature :: rat
  co_max_tokens :: "int option"
  co_top_p :: "rat option"
  co_frequency_penalty :: "rat option"
  co_presence_penalty :: "rat option"
  co_stop :: "json option"
  co_echo :: bool
  co_n :: int
  co_suffix :: "string option"
  co_include_usage :: "bool option"

text \<open>\<open>' '.join\<close>.\<close>

fun spaced :: "string list \<Rightarrow> string" where
  "spaced [] = []"
| "spaced [s] = s"
| "spaced (s # ss) = s @ '' '' @ spaced ss"

definition convert_prompt :: "prompt \<Rightarrow> string" where
  "convert_prompt p = (case p of
     TextPrompt t \<Rightarrow> t
   | TextsPrompt ts \<Rightarrow> spaced ts
   | TokensPrompt ns \<Rightarrow> spaced (map show_int ns)
   | BatchesPrompt nss \<Rightarrow> spaced (map (\<lambda>ns. spaced (map show_int ns)) nss))"

definition completion_payload :: "completion_request \<Rightarrow> bool \<Rightarrow> obj" where
  "completion_payload r streamed =
     (let p0 = [(''prompt'', JStr (convert_prompt (co_prompt r))), (''temperature'', JFloat (co_temperature r)),
                (''stream'', JBool streamed)];
          p1 = put_some ''max_tokens'' (map_option JInt (co_max_tokens r)) p0;
          p2 = put_some ''top_p'' (map_option JFloat (co_top_p r)) p1;
          p3 = put_some ''frequency_penalty'' (map_option JFloat (co_frequency_penalty r)) p2;
          p4 = put_some ''presence_penalty'' (map_option JFloat (co_presence_penalty r)) p3;
          p5 = put_some ''stop'' (co_stop r) p4;
          p6 = (if co_echo r then put ''echo'' (JBool True) p5 else p5);
          p7 = (if co_n r \<noteq> 1 then put ''n'' (JInt (co_n r)) p6 else p6)
      in put_some ''suffix'' (map_option JStr (co_suffix r)) p7)"

section \<open>Reading a chunk\<close>

definition chunk_text :: "json \<Rightarrow> exn + json" where
  "chunk_text c =
     (let old = py_get ''content'' (JStr []) c
      in bind_res (first_choice c) (\<lambda>choice. case choice of
           None \<Rightarrow> old
         | Some ch \<Rightarrow>
             bind_res (py_in ''text'' ch) (\<lambda>b. if b then py_get ''text'' (JStr []) ch
             else bind_res (py_in ''delta'' ch) (\<lambda>b. if b
               then bind_res (py_item ''delta'' ch) (\<lambda>delta.
                    bind_res (py_get ''content'' (JStr []) delta) (\<lambda>v.
                    if py_true v then Inr v else py_get ''text'' (JStr []) delta))
             else bind_res (py_in ''content'' ch) (\<lambda>b. if b then py_get ''content'' (JStr []) ch
             else old)))))"

text \<open>\<open>int(details.get('cached_tokens') or timings.get('cache_n') or 0)\<close>.\<close>

definition cached_or_timed :: "json \<Rightarrow> json \<Rightarrow> exn + int" where
  "cached_or_timed details timings =
     bind_res (py_get ''cached_tokens'' JNull details) (\<lambda>v.
     if py_true v then py_int v else bind_res (py_get ''cache_n'' JNull timings) py_count)"

text \<open>\<open>validate\<close> stands for the output model, which checks the details.\<close>

definition completion_usage :: "(obj \<Rightarrow> json \<Rightarrow> exn + obj \<times> json) \<Rightarrow> obj \<Rightarrow> obj \<Rightarrow> exn + chat_usage" where
  "completion_usage validate c u =
     bind_res (py_int (look ''prompt_tokens'' (JInt 0) u)) (\<lambda>prompt.
     bind_res (py_int (look ''completion_tokens'' (JInt 0) u)) (\<lambda>completion.
     bind_res (if look ''total_tokens'' JNull u = JNull then Inr (prompt + completion)
               else py_int (look ''total_tokens'' JNull u)) (\<lambda>total.
     let timings = py_or (look ''timings'' JNull c) (JObj []);
         details = py_or (look ''prompt_tokens_details'' JNull u) (JObj [])
     in bind_res (with_cached 0 details) (\<lambda>_.
     bind_res (cached_or_timed details timings) (\<lambda>cached.
     bind_res (with_cached cached details) (\<lambda>pd.
     bind_res (validate pd (py_or (look ''completion_tokens_details'' JNull u) (JObj zero_completion_details)))
       (\<lambda>(pd', cd). Inr \<lparr>cu_prompt = prompt, cu_completion = completion, cu_total = total,
          cu_prompt_details = pd', cu_completion_details = cd\<rparr>)))))))"

definition extract_completion_usage :: "(obj \<Rightarrow> json \<Rightarrow> exn + obj \<times> json) \<Rightarrow> json \<Rightarrow> exn + chat_usage option" where
  "extract_completion_usage validate c =
     (case c of
        JObj fs \<Rightarrow> (case chunk_usage fs of
            None \<Rightarrow> Inr None
          | Some u \<Rightarrow> bind_res (completion_usage validate fs u) (\<lambda>x. Inr (Some x)))
      | _ \<Rightarrow> Inl (no_attribute ''get'' c))"

section \<open>The stream\<close>

text \<open>
  \<open>cs_choice\<close> stands for the output model of a choice; \<open>cs_first_release\<close> is how the release before
  the last frames ends.
\<close>

record completion_env = wire_env +
  cs_request :: completion_request
  cs_validate :: "obj \<Rightarrow> json \<Rightarrow> exn + obj \<times> json"
  cs_choice :: "json \<Rightarrow> json \<Rightarrow> exn + string \<times> string option"
  cs_first_release :: answer

definition completion_chunk_out :: "completion_env \<Rightarrow> json \<Rightarrow> unit chat_script" where
  "completion_chunk_out y c =
     and_then (lift_res (chunk_error (ce_show y) c)) (\<lambda>_.
     and_then (lift_res (extract_completion_usage (cs_validate y) c)) (\<lambda>u.
     and_then (change (note_usage c u)) (\<lambda>_.
     and_then (lift_res (chunk_text c)) (\<lambda>text.
     and_then (lift_res (py_len text)) (\<lambda>n.
     and_then (change (\<lambda>r. r\<lparr>cr_chars := cr_chars r + n\<rparr>)) (\<lambda>_.
     and_then (lift_res (py_get ''finish_reason'' JNull c)) (\<lambda>fr.
     and_then (lift_res (cs_choice y text fr)) (\<lambda>(t, finish).
     yield_chat (ChunkFrame [(''text'', JStr t)] finish)))))))))"

definition completion_fallback :: "completion_request \<Rightarrow> nat \<Rightarrow> chat_usage" where
  "completion_fallback r chars =
     build_chat_usage (int (length (convert_prompt (co_prompt r)) div 4)) (int (chars div 4))"

definition completion_usage_out :: "completion_env \<Rightarrow> bool" where
  "completion_usage_out y \<longleftrightarrow> co_include_usage (cs_request y) \<noteq> Some False"

text \<open>Telemetry, and the release, which is awaited.\<close>

definition completion_success :: "completion_env \<Rightarrow> chat_usage chat_script" where
  "completion_success y r =
     (let u = (case cr_usage r of Some v \<Rightarrow> v | None \<Rightarrow> completion_fallback (cs_request y) (cr_chars r)) in
     and_then (change (\<lambda>r. r\<lparr>cr_usage := Some u\<rparr>)) (\<lambda>_.
     and_then (record_request ''success'' (Some (dump_usage u)) (cr_timings r)) (\<lambda>_.
     and_then (change (\<lambda>r. r\<lparr>cr_recorded := True, cr_releases := cr_releases r @ [''completed'']\<rparr>)) (\<lambda>_.
     and_then (await_answer (cs_first_release y)) (\<lambda>_.
     and_then (change (\<lambda>r. r\<lparr>cr_released := True\<rparr>)) (\<lambda>_.
     give u))))) r)"

definition completion_body :: "completion_env \<Rightarrow> unit chat_script" where
  "completion_body y =
     and_then (read_upstream y (completion_chunk_out y)) (\<lambda>_.
     and_then (completion_success y) (\<lambda>u. finish_frames (completion_usage_out y) u))"

definition serve_completion :: "completion_env \<Rightarrow> nat \<Rightarrow> (exn + unit) \<times> chat_run" where
  "serve_completion y takes = stream_with y (completion_body y) (start_chat takes)"

section \<open>The buffered call\<close>

text \<open>\<open>a + b\<close> on decoded JSON.\<close>

fun py_number :: "json \<Rightarrow> rat option" where
  "py_number (JInt n) = Some (of_int n)"
| "py_number (JBool b) = Some (if b then 1 else 0)"
| "py_number (JFloat q) = Some q"
| "py_number j = None"

definition py_add :: "json \<Rightarrow> json \<Rightarrow> exn + json" where
  "py_add a b =
     (case (a, b) of
        (JStr s, JStr t) \<Rightarrow> Inr (JStr (s @ t))
      | (JArr xs, JArr ys) \<Rightarrow> Inr (JArr (xs @ ys))
      | _ \<Rightarrow> (case (py_number a, py_number b) of
          (Some p, Some q) \<Rightarrow>
            Inr (if (\<exists>r\<in>{a, b}. case r of JFloat _ \<Rightarrow> True | _ \<Rightarrow> False) then JFloat (p + q) else JInt \<lfloor>p + q\<rfloor>)
        | _ \<Rightarrow> Inl TypeError))"

record completion_reply =
  cb_text :: string
  cb_finish :: "string option"
  cb_usage :: chat_usage

text \<open>Text, finish reason and counts: of the first choice, or of the reply of llama.cpp.\<close>

definition completion_fields :: "json \<Rightarrow> exn + json \<times> json \<times> json \<times> json" where
  "completion_fields response = bind_res (first_choice response) (\<lambda>choice. case choice of
     Some ch \<Rightarrow>
       bind_res (py_get ''text'' (JStr []) ch) (\<lambda>t.
       bind_res (py_get ''finish_reason'' (JStr ''stop'') ch) (\<lambda>f.
       bind_res (py_get ''usage'' (JObj []) response) (\<lambda>u.
       bind_res (py_get ''prompt_tokens'' (JInt 0) u) (\<lambda>p.
       bind_res (py_get ''completion_tokens'' (JInt 0) u) (\<lambda>c. Inr (t, f, p, c))))))
   | None \<Rightarrow>
       bind_res (py_get ''content'' (JStr []) response) (\<lambda>t.
       bind_res (py_get ''finish_reason'' (JStr ''stop'') response) (\<lambda>f.
       bind_res (py_get ''tokens_evaluated'' (JInt 0) response) (\<lambda>p.
       bind_res (py_get ''tokens_predicted'' (JInt 0) response) (\<lambda>c. Inr (t, f, p, c))))))"

text \<open>\<open>counts\<close> stands for the three integer fields of the output model.\<close>

definition read_completion ::
  "(json \<Rightarrow> json \<Rightarrow> exn + string \<times> string option) \<Rightarrow> (json \<Rightarrow> json \<Rightarrow> json \<Rightarrow> exn + int \<times> int \<times> int) \<Rightarrow> json
   \<Rightarrow> exn + completion_reply" where
  "read_completion choice counts response =
     bind_res (completion_fields response) (\<lambda>(t, f, p, c).
     bind_res (py_add p c) (\<lambda>total.
     bind_res (counts p c total) (\<lambda>(pn, cn, tn).
     bind_res (py_get ''usage'' JNull response) (\<lambda>u.
     bind_res (py_get ''prompt_tokens_details'' JNull (py_or u (JObj []))) (\<lambda>d.
     bind_res (py_get ''timings'' JNull response) (\<lambda>timings.
     bind_res (cached_or_timed (py_or d (JObj [])) (py_or timings (JObj []))) (\<lambda>cached.
     bind_res (choice t f) (\<lambda>(text, finish).
     Inr \<lparr>cb_text = text, cb_finish = finish, cb_usage = \<lparr>cu_prompt = pn, cu_completion = cn, cu_total = tn,
       cu_prompt_details = [(''cached_tokens'', JInt cached), (''audio_tokens'', JInt 0)],
       cu_completion_details = JObj zero_completion_details\<rparr>\<rparr>))))))))"

section \<open>The route\<close>

record completion_call = call_env +
  cc_request :: completion_request
  cc_choice :: "json \<Rightarrow> json \<Rightarrow> exn + string \<times> string option"
  cc_counts :: "json \<Rightarrow> json \<Rightarrow> json \<Rightarrow> exn + int \<times> int \<times> int"

datatype completion_result = CompletionStreams server_row | CompletionReplies completion_reply

definition buffered_completion_body :: "completion_call \<Rightarrow> server_row \<Rightarrow> completion_reply route_script" where
  "buffered_completion_body x s =
     and_then (send s ''v1/completions'' (completion_payload (cc_request x) False)) (\<lambda>_.
     and_then (lift_res (ca_reply x)) (\<lambda>response.
     and_then (lift_res (read_completion (cc_choice x) (cc_counts x) response)) (\<lambda>reply.
     and_then (lift_res (py_get ''timings'' JNull response)) (\<lambda>timings.
     and_then (record_route ''success'' (Some (dump_usage (cb_usage reply))) timings) (\<lambda>_.
     give reply)))))"

definition buffered_completion :: "completion_call \<Rightarrow> server_row \<Rightarrow> completion_reply route_script" where
  "buffered_completion x s =
     leased_try (\<lambda>e. HttpStatus 500 (''Inference failed: '' @ ca_text x e)) (ca_release x) (buffered_completion_body x s)"

text \<open>NPU models are refused before anything is started.\<close>

definition completion_target :: "completion_call \<Rightarrow> exn + inference_target" where
  "completion_target x =
     bind_res (not_found_404 (resolve_inference_target (ca_uuid_of x) (co_model (cc_request x))
       (co_agent_id (cc_request x)) (ca_db x))) (\<lambda>t.
     if tg_npu t \<noteq> None
     then Inl (HttpStatus 400 (''Model '' @ co_model (cc_request x) @ '' is an NPU model and does not support /v1/completions''))
     else Inr t)"

definition ensure_row :: "completion_call \<Rightarrow> inference_target \<Rightarrow> unit route_script" where
  "ensure_row x t =
     (if tg_server t = None
      then rethrow (creation_failure (ca_text x)) (and_then (lift_res (ca_created x)) (\<lambda>_. give ())) else give ())"

definition create_completion :: "completion_call \<Rightarrow> completion_result route_script" where
  "create_completion x =
     and_then (lift_res (completion_target x)) (\<lambda>t.
     and_then (ensure_row x t) (\<lambda>_.
     and_then (rethrow (timeout_503 (ca_text x))
       (take_lease (ca_acquire x) (md_id (tg_model t)) (tg_preferred t) (tg_agent t))) (\<lambda>s.
     if co_stream (cc_request x) then give (CompletionStreams s)
     else and_then (buffered_completion x s) (\<lambda>reply. give (CompletionReplies reply)))))"

end
