(* ===== verification/CompletionsSafety.thy ===== *)
theory CompletionsSafety
  imports Completions ProxyStreamContent
begin

text \<open>
  What holds of text completions: the lease is given back and the request recorded, buffered or
  streamed; a completed stream carries the engine's chunks; and where the streamed reply says less
  than the buffered one.
\<close>

section \<open>The stream\<close>

lemma stays_completion_chunk: "stays (completion_chunk_out y c)"
  unfolding completion_chunk_out_def
  by (intro stays_bind stays_simple stays_yield stays_note) (auto intro: stays_yield split: prod.split)

lemma completion_success_cases:
  assumes "completion_success y r = (res, r')" "running r"
  obtains e where "res = Inl e" "running r'"
  | u e where "res = Inl e" "unreleased u r'" "cs_first_release y = Threw e" "cr_sent r' = cr_sent r"
      "u = (case cr_usage r of Some v \<Rightarrow> v | None \<Rightarrow> completion_fallback (cs_request y) (cr_chars r))"
  | u where "res = Inr u" "succeeded u r'" "cr_sent r' = cr_sent r"
      "u = (case cr_usage r of Some v \<Rightarrow> v | None \<Rightarrow> completion_fallback (cs_request y) (cr_chars r))"
  using assms
  by (cases "cs_first_release y")
    (auto simp: completion_success_def record_request_def Let_def and_then_def change_def throw_def give_def running_def
      await_cases succeeded_def unreleased_def split: json.splits)

lemma completion_body_cases:
  assumes "completion_body y r = (res, r')" "running r"
  shows "(\<exists>e. res = Inl e \<and> running r') \<or> (\<exists>u e. res = Inl e \<and> unreleased u r' \<and> cs_first_release y = Threw e)
     \<or> (\<exists>u n. finished (completion_usage_out y) u n r'
     \<and> (res = Inr () \<and> n = length (last_frames (completion_usage_out y) u) \<or> res = Inl GeneratorExit))"
proof -
  obtain a r1 where a: "read_upstream y (completion_chunk_out y) r = (a, r1)" by fastforce
  have k: "running r1"
    using hoareD [OF stays_upstream [OF stays_completion_chunk, unfolded stays_def] assms(2) a] by (cases a) auto
  show ?thesis
  proof (cases a)
    case (Inl e)
    with assms(1) a k show ?thesis by (auto simp: completion_body_def and_then_def)
  next
    case (Inr v)
    obtain b r2 where b: "completion_success y r1 = (b, r2)" by fastforce
    from b k show ?thesis
    proof (cases rule: completion_success_cases)
      case (1 e)
      with assms(1) a b Inr show ?thesis by (auto simp: completion_body_def and_then_def)
    next
      case (2 u e)
      with assms(1) a b Inr show ?thesis by (auto simp: completion_body_def and_then_def)
    next
      case (3 u)
      then have "finish_frames (completion_usage_out y) u r2 = (res, r')"
        using assms(1) a b Inr by (auto simp: completion_body_def and_then_def)
      from finish_cases [OF this 3(2)] k 3(3) show ?thesis by (auto simp: running_def)
    qed
  qed
qed

interpretation completion: proxied y "completion_body y" "completion_usage_out y" for y
  by unfold_locales (use completion_body_cases in blast)

text \<open>The books of a stream: as for any stream, or twice released when its own release was not answered.\<close>

definition STREAM_OUTCOMES :: "answer \<Rightarrow> (string list \<times> string list) list" where
  "STREAM_OUTCOMES a = OUTCOMES @ (case a of Answered \<Rightarrow> []
     | Threw e \<Rightarrow> [([''completed'', if is_exception e then ''failed'' else ''cancelled''], [''success''])])"

lemma completion_stream_books:
  assumes "serve_completion y n = (res, r)" "ce_close_failed y = Answered" "ce_close y = Answered"
  shows "(cr_releases r, map fst (cr_telemetry r)) \<in> set (STREAM_OUTCOMES (cs_first_release y))"
  using assms unfolding serve_completion_def
proof (cases rule: completion.proxied_cases)
  case (again u e r0)
  from completion_body_cases [OF again(1) running_start] again(2) have "cs_first_release y = Threw e"
    by (auto simp: running_def unreleased_def finished_def succeeded_def)
  with again show ?thesis by (simp add: STREAM_OUTCOMES_def)
qed (auto simp: finished_def succeeded_def OUTCOMES_def STREAM_OUTCOMES_def)

section \<open>The chunks\<close>

definition completion_chunk :: "completion_env \<Rightarrow> json \<Rightarrow> exn + chat_frame" where
  "completion_chunk y c =
     bind_res (chunk_text c) (\<lambda>text.
     bind_res (py_get ''finish_reason'' JNull c) (\<lambda>fr.
     bind_res (cs_choice y text fr) (\<lambda>(t, finish). Inr (ChunkFrame [(''text'', JStr t)] finish))))"

definition completion_chars :: "json \<Rightarrow> nat" where
  "completion_chars c = (case bind_res (chunk_text c) py_len of Inr n \<Rightarrow> n | Inl e \<Rightarrow> 0)"

interpretation completion_chunks: chunk_reader "completion_chunk_out y" "completion_chunk y"
  "extract_completion_usage (cs_validate y)" completion_chars for y
proof unfold_locales
  show "stays (completion_chunk_out y c)" for y c by (rule stays_completion_chunk)
  fix y c r u r'
  assume "completion_chunk_out y c r = (Inr u, r')"
  then obtain us tx n fr t finish where parts:
      "extract_completion_usage (cs_validate y) c = Inr us" "chunk_text c = Inr tx" "py_len tx = Inr n"
      "py_get ''finish_reason'' JNull c = Inr fr" "cs_choice y tx fr = Inr (t, finish)"
      "cr_sent r' = cr_sent r @ [ChunkFrame [(''text'', JStr t)] finish]"
      "cr_usage r' = (case us of None \<Rightarrow> cr_usage r | Some v \<Rightarrow> Some v)" "cr_chars r' = cr_chars r + n"
    unfolding completion_chunk_out_def run_ok
    by (elim exE conjE) (simp add: note_usage_def run_ok split: option.splits prod.splits)
  moreover have "completion_chunk y c = Inr (ChunkFrame [(''text'', JStr t)] finish)" "completion_chars c = n"
    by (simp_all add: completion_chunk_def completion_chars_def parts(2-5))
  ultimately show "\<exists>us f. extract_completion_usage (cs_validate y) c = Inr us \<and> completion_chunk y c = Inr f \<and> is_chunk f
      \<and> cr_sent r' = cr_sent r @ [f] \<and> cr_usage r' = (case us of None \<Rightarrow> cr_usage r | Some v \<Rightarrow> Some v)
      \<and> cr_chars r' = cr_chars r + completion_chars c"
    by simp
qed

text \<open>The last usage the engine reported, else an estimate over the text.\<close>

definition completion_stream_usage :: "completion_env \<Rightarrow> json list \<Rightarrow> chat_usage" where
  "completion_stream_usage y cs =
     (case List.map_filter (\<lambda>c. case extract_completion_usage (cs_validate y) c of Inr u \<Rightarrow> u | Inl e \<Rightarrow> None) cs of
        [] \<Rightarrow> completion_fallback (cs_request y) (sum_list (map completion_chars cs))
      | u # us \<Rightarrow> last (u # us))"

lemma completion_body_tally:
  assumes "completion_body y r = (res, r')" "running r" "completion_chunks.tallied y [] r" "cr_releases r' = [''completed'']"
  shows "map Inr (sent_chunks (cr_sent r')) = map (completion_chunk y) (engine_chunks y)
    \<and> cr_telemetry r' = [(''success'', Some (dump_usage (completion_stream_usage y (engine_chunks y))))]"
proof -
  obtain a r1 where a: "read_upstream y (completion_chunk_out y) r = (a, r1)" by fastforce
  have k: "running r1"
    using hoareD [OF stays_upstream [OF stays_completion_chunk, unfolded stays_def] assms(2) a] by (cases a) auto
  then obtain v where v: "a = Inr v"
    using assms(1,4) a by (cases a) (auto simp: completion_body_def and_then_def running_def)
  note t = completion_chunks.reading_tally [OF a [unfolded v] assms(3)]
  have sent: "map Inr (sent_chunks (cr_sent r1)) = map (completion_chunk y) (engine_chunks y)"
    using t by (simp add: completion_chunks.tallied_def)
  have u: "(case cr_usage r1 of Some v \<Rightarrow> v | None \<Rightarrow> completion_fallback (cs_request y) (cr_chars r1))
      = completion_stream_usage y (engine_chunks y)"
    using t by (auto simp: completion_stream_usage_def completion_chunks.tallied_def completion_chunks.reported_def split: list.split)
  obtain b r2 where b: "completion_success y r1 = (b, r2)" by fastforce
  from b k show ?thesis
  proof (cases rule: completion_success_cases)
    case (1 e)
    with assms(1,4) a b v show ?thesis by (auto simp: completion_body_def and_then_def running_def)
  next
    case (2 w e)
    moreover have "r' = r2" using assms(1) a b v 2(1) by (simp add: completion_body_def and_then_def)
    ultimately show ?thesis using sent u by (simp add: unreleased_def)
  next
    case (3 w)
    have f: "finish_frames (completion_usage_out y) w r2 = (res, r')"
      using assms(1) a b v 3(1) by (auto simp: completion_body_def and_then_def)
    obtain n where n: "cr_sent r' = cr_sent r1 @ take n (last_frames (completion_usage_out y) w)" using finish_sent(1) [OF f] 3(3) by auto
    have no_chunk: "sent_chunks (take n (last_frames (completion_usage_out y) w)) = []"
      by (auto simp: sent_chunks_def filter_empty_conv last_frames_def dest!: in_set_takeD split: if_splits)
    have "cr_telemetry r' = [(''success'', Some (dump_usage w))]" using finish_sent(2) [OF f] 3(2) by (simp add: succeeded_def)
    with n no_chunk sent u 3(4) show ?thesis by simp
  qed
qed

text \<open>
  A completed stream carries the engine's chunks, one for one and in order, and records the last
  usage the engine reported.
\<close>

lemma completion_passes_chunks:
  assumes "serve_completion y n = (res, r)" "ce_close_failed y = Answered" "ce_close y = Answered"
    and "cr_releases r = [''completed'']"
  shows "map Inr (sent_chunks (cr_sent r)) = map (completion_chunk y) (engine_chunks y)
    \<and> cr_telemetry r = [(''success'', Some (dump_usage (completion_stream_usage y (engine_chunks y))))]"
  using assms(1-3) unfolding serve_completion_def
proof (cases rule: completion.proxied_cases)
  case (over u k)
  show ?thesis by (rule completion_body_tally [OF over(1) running_start completion_chunks.tallied_start assms(4)])
qed (use assms(4) in simp_all)

section \<open>A finish reason that is lost\<close>

fun frame_finish :: "chat_frame \<Rightarrow> string option" where
  "frame_finish (ChunkFrame d fr) = fr"
| "frame_finish f = None"

text \<open>
  The stream reads the finish reason beside the choices, the buffered call in the first choice. An
  engine that puts it in the choice, as the OpenAI format does, is passed on without it: no chunk
  of the stream has a finish reason, while the same choice, buffered, has one.
\<close>

theorem stream_loses_finish:
  assumes "serve_completion y n = (res, r)" "ce_close_failed y = Answered" "ce_close y = Answered"
    and "cr_releases r = [''completed'']"
    and "\<forall>c\<in>set (engine_chunks y). \<exists>fs. c = JObj fs \<and> map_of fs ''finish_reason'' = None"
    and "\<And>t t' f. cs_choice y t JNull = Inr (t', f) \<Longrightarrow> f = None"
  shows "\<forall>f\<in>set (sent_chunks (cr_sent r)). frame_finish f = None"
proof
  fix f
  assume "f \<in> set (sent_chunks (cr_sent r))"
  then have "Inr f \<in> set (map Inr (sent_chunks (cr_sent r)) :: (exn + chat_frame) list)" by simp
  then obtain c where c: "c \<in> set (engine_chunks y)" "completion_chunk y c = Inr f"
    using completion_passes_chunks [OF assms(1-4)] by (metis (no_types, lifting) imageE list.set_map)
  then obtain fs where "c = JObj fs" "map_of fs ''finish_reason'' = None" using assms(5) by blast
  with c(2) assms(6) show "frame_finish f = None"
    by (auto simp: completion_chunk_def look_def bind_res_Inr_iff)
qed

section \<open>The buffered call\<close>

text \<open>No coroutine of the request is closed from outside while it waits.\<close>

definition completion_calm :: "completion_call \<Rightarrow> bool" where
  "completion_calm x \<longleftrightarrow> ca_acquire x \<noteq> Inl GeneratorExit \<and> ca_reply x \<noteq> Inl GeneratorExit
     \<and> (\<forall>t f. cc_choice x t f \<noteq> Inl GeneratorExit) \<and> (\<forall>p c t. cc_counts x p c t \<noteq> Inl GeneratorExit)"

lemma tidy_completion_fields: "tidy (completion_fields j)" "tidy (py_add a b)" "tidy (cached_or_timed d t)"
  by (auto simp: completion_fields_def py_add_def cached_or_timed_def py_count_def first_choice_def is_exception_def
      intro!: tidy_intros split: option.split json.split list.split)

lemma read_completion_no_exit:
  assumes "completion_calm x"
  shows "unless_exit (read_completion (cc_choice x) (cc_counts x) response)"
proof -
  have "unless_exit (cc_choice x t f)" "unless_exit (cc_counts x p c n)" for t f p c n
    using assms by (auto simp: completion_calm_def unless_exit_def)
  then show ?thesis unfolding read_completion_def
    by (intro unless_exit_bind unless_exit_prod unless_exit_Inr tidy_unless_exit [OF tidy_completion_fields(1)]
        tidy_unless_exit [OF tidy_completion_fields(2)] tidy_unless_exit [OF tidy_completion_fields(3)]
        tidy_json [THEN tidy_unless_exit])
qed

text \<open>The lease is the one the scheduler gave.\<close>

abbreviation completion_leased :: "server_row \<Rightarrow> route_run \<Rightarrow> bool" where
  "completion_leased s \<equiv> call_open (\<lambda>l. l = Some s)"

lemma completion_body_books:
  assumes "completion_calm x"
  shows "hoare (completion_leased l) (buffered_completion_body x s) (\<lambda>_. call_ready (\<lambda>k. k = Some l))
     (\<lambda>e r. completion_leased l r \<and> e \<noteq> GeneratorExit)"
proof -
  have lift: "open_call.stays_in (\<lambda>k. k = Some l) (lift_res m)" if "unless_exit m" for m :: "exn + 'b"
    using that by (intro open_call.lifted) (simp add: unless_exit_def)
  have reply: "unless_exit (ca_reply x)" using assms by (auto simp: completion_calm_def unless_exit_def)
  have recorded: "hoare (completion_leased l) (record_route ''success'' u t) (\<lambda>_. call_ready (\<lambda>k. k = Some l))
      (\<lambda>e r. completion_leased l r \<and> e \<noteq> GeneratorExit)" for u t
    by (rule hoare_pre [OF record_ready]) (simp add: call_open_def)
  show ?thesis unfolding buffered_completion_body_def
    by (intro hoare_bind [OF lift] hoare_bind [OF send_open] hoare_bind [OF recorded] reply
        read_completion_no_exit [OF assms] tidy_json [THEN tidy_unless_exit] hoare_give) auto
qed

section \<open>The whole request\<close>

lemma hoare_ensure_row: "hoare (call_open (\<lambda>l. l = None)) (ensure_row x t) (\<lambda>_. call_open (\<lambda>l. l = None)) (\<lambda>_. call_open (\<lambda>l. l = None))"
  unfolding ensure_row_def
  by (auto simp: hoare_def rethrow_def and_then_def lift_res_def give_def throw_def split: sum.splits)

lemma hoare_timed_lease:
  "hoare (call_open (\<lambda>l. l = None)) (rethrow f (take_lease a m p g)) (\<lambda>s. completion_leased s) (\<lambda>_. call_open (\<lambda>l. l = None))"
  by (auto simp: hoare_def rethrow_def take_lease_def and_then_def change_def lift_res_def give_def throw_def call_open_def
      split: sum.splits)

lemma completion_cases:
  assumes "create_completion x start_route = (res, r)" "completion_calm x"
  obtains (none) e where "res = Inl e" "call_open (\<lambda>l. l = None) r"
  | (streams) s where "res = Inr (CompletionStreams s)" "completion_leased s r"
  | (over) s where "call_settled (\<lambda>l. l = Some s) r" "\<nexists>s. res = Inr (CompletionStreams s)"
proof -
  let ?N = "call_open (\<lambda>l. l = None)"
  have start: "?N start_route" by (simp add: call_open_def start_route_def)
  show ?thesis
  proof (cases "completion_target x")
    case (Inl e)
    with assms(1) start none [of e] show ?thesis by (simp add: create_completion_def and_then_def lift_res_def throw_def)
  next
    case (Inr t)
    have h: "hoare ?N (and_then (ensure_row x t) (\<lambda>_. rethrow (timeout_503 (ca_text x))
        (take_lease (ca_acquire x) (md_id (tg_model t)) (tg_preferred t) (tg_agent t)))) (\<lambda>s. completion_leased s) (\<lambda>_. ?N)"
      by (rule hoare_bind [OF hoare_ensure_row hoare_timed_lease])
    obtain a r1 where a: "and_then (ensure_row x t) (\<lambda>_. rethrow (timeout_503 (ca_text x))
        (take_lease (ca_acquire x) (md_id (tg_model t)) (tg_preferred t) (tg_agent t))) start_route = (a, r1)" by fastforce
    have rest: "and_then (\<lambda>_. (a, r1)) (\<lambda>s. if co_stream (cc_request x) then give (CompletionStreams s)
       else and_then (buffered_completion x s) (\<lambda>reply. give (CompletionReplies reply))) start_route = (res, r)"
      using assms(1) Inr a by (auto simp: create_completion_def and_then_def lift_res_def give_def split: prod.splits sum.splits)
    note k = hoareD [OF h start a]
    show ?thesis
    proof (cases a)
      case (Inl e)
      with rest k none [of e] show ?thesis by (simp add: and_then_def)
    next
      case (Inr s)
      show ?thesis
      proof (cases "co_stream (cc_request x)")
        case True
        with rest k Inr streams [of s] show ?thesis by (simp add: and_then_def give_def)
      next
        case False
        obtain b r2 where b: "buffered_completion x s r1 = (b, r2)" by fastforce
        have "call_settled (\<lambda>l. l = Some s) r2"
          using leased_try_settles [OF completion_body_books [OF assms(2)] b [unfolded buffered_completion_def]] k Inr by simp
        with rest Inr False b show ?thesis
          by (intro over [of s]) (auto simp: and_then_def give_def split: sum.splits)
      qed
    qed
  qed
qed

text \<open>A request and, when it streams, the stream it becomes: the releases, and the telemetry.\<close>

definition completion_books :: "completion_call \<Rightarrow> completion_env \<Rightarrow> nat \<Rightarrow> string list \<times> string list" where
  "completion_books x y n =
     (case create_completion x start_route of
        (Inr (CompletionStreams s), r) \<Rightarrow>
          (let c = snd (serve_completion (y\<lparr>cs_request := cc_request x\<rparr>) n)
           in (rt_releases r @ cr_releases c, map fst (rt_telemetry r) @ map fst (cr_telemetry c)))
      | (_, r) \<Rightarrow> (rt_releases r, map fst (rt_telemetry r)))"

text \<open>
  From its first guard to its last frame, a text completion gives back what it takes: a request
  that never got a lease releases and records nothing; any other releases its lease and records
  itself once, with one outcome. Only a stream whose own release is not answered releases again.
\<close>

theorem completion_settles:
  assumes "completion_calm x" "ce_close_failed y = Answered" "ce_close y = Answered"
  shows "completion_books x y n \<in> set (if rt_leased (snd (create_completion x start_route)) = None then [([], [])]
     else STREAM_OUTCOMES (cs_first_release y))"
proof -
  obtain res r where c: "create_completion x start_route = (res, r)" by fastforce
  from c assms(1) show ?thesis
  proof (cases rule: completion_cases)
    case (none e)
    with c show ?thesis by (simp add: completion_books_def call_open_def)
  next
    case (streams s)
    let ?y = "y\<lparr>cs_request := cc_request x\<rparr>"
    obtain out run where s: "serve_completion ?y n = (out, run)" by fastforce
    have "(cr_releases run, map fst (cr_telemetry run)) \<in> set (STREAM_OUTCOMES (cs_first_release y))"
      using completion_stream_books [OF s] assms(2,3) by simp
    with c s streams show ?thesis by (simp add: completion_books_def call_open_def)
  next
    case (over s)
    have "completion_books x y n = (rt_releases r, map fst (rt_telemetry r))"
      using c over(2) by (auto simp: completion_books_def split: sum.split completion_result.split)
    with c over(1) show ?thesis by (simp add: call_settled_def STREAM_OUTCOMES_def)
  qed
qed

end
