(* ===== verification/LeasedRoutes.thy ===== *)
theory LeasedRoutes
  imports Embeddings CompletionsSafety
begin

text \<open>
  The books of every route that calls an engine through one lease and is not a chat: text
  completions, buffered or streamed, embeddings, reranking, decisions and moderations.
\<close>


end
