(* ===== verification/RouteExamples.thy ===== *)
theory RouteExamples
  imports ChatExamples LeasedRoutes
begin

text \<open>
  Concrete requests at which the theorems of the text completions, the NPU routes and the
  embeddings apply.
\<close>

section \<open>Text completions\<close>

definition choice_chunk :: json where
  "choice_chunk = JObj [(''choices'', JArr [JObj [(''text'', JStr ''hi''), (''finish_reason'', JStr ''stop'')]])]"

definition demo_completion :: completion_request where
  "demo_completion = \<lparr>co_model = ''m'', co_agent_id = None, co_prompt = TextPrompt ''hello'', co_stream = True,
     co_temperature = 1, co_max_tokens = None, co_top_p = None, co_frequency_penalty = None,
     co_presence_penalty = None, co_stop = None, co_echo = False, co_n = 1, co_suffix = None, co_include_usage = None\<rparr>"

fun plain_choice :: "json \<Rightarrow> json \<Rightarrow> exn + string \<times> string option" where
  "plain_choice (JStr t) (JStr f) = Inr (t, Some f)"
| "plain_choice (JStr t) JNull = Inr (t, None)"
| "plain_choice t f = Inl (ValueError ''Input should be a valid string'')"

definition demo_wire :: completion_env where
  "demo_wire = \<lparr>ce_agent = Inr True, ce_now = 0, ce_open = [(0, Opened)], ce_status = Answered,
     ce_lines = [(seconds 1, Line ''data: a''), (seconds 2, Line ''data: [DONE]'')], ce_after = Answered,
     ce_loads = (\<lambda>s. if s = ''a'' then Some choice_chunk else None), ce_show = (\<lambda>j. []), ce_text = (\<lambda>e. []),
     ce_close_failed = Answered, ce_close = Answered, ce_release = Answered,
     cs_request = demo_completion, cs_validate = (\<lambda>d c. Inr (d, c)), cs_choice = plain_choice,
     cs_first_release = Threw CancelledError\<rparr>"

definition plain_call :: "db \<Rightarrow> exn + json \<Rightarrow> call_env" where
  "plain_call d reply = \<lparr>ca_uuid_of = (\<lambda>_. None), ca_db = d, ca_created = Inr demo_leased, ca_acquire = Inr demo_leased,
     ca_reply = reply, ca_release = Answered, ca_text = (\<lambda>_. [])\<rparr>"

definition demo_completion_call :: completion_call where
  "demo_completion_call = call_env.extend (plain_call (demo_db [demo_leased]) (Inr JNull))
     \<lparr>cc_request = demo_completion, cc_choice = plain_choice, cc_counts = (\<lambda>p c t. Inr (0, 0, 0))\<rparr>"

text \<open>The stream is cancelled while it releases, and releases again.\<close>

lemma demo_wire_closes: "ce_close_failed demo_wire = Answered" "ce_close demo_wire = Answered"
  "cs_first_release demo_wire = Threw CancelledError"
  by (simp_all add: demo_wire_def)

lemma demo_completion_calm: "completion_calm demo_completion_call"
proof -
  have "plain_choice t f \<noteq> Inl GeneratorExit" for t f by (cases "(t, f)" rule: plain_choice.cases) simp_all
  then show ?thesis by (simp add: completion_calm_def demo_completion_call_def call_env.extend_def plain_call_def)
qed

definition released_wire :: completion_env where
  "released_wire = demo_wire\<lparr>cs_first_release := Answered\<rparr>"

lemma stream_loses_finish_witness:
  "sent_chunks (cr_sent (snd (serve_completion released_wire 9))) = [ChunkFrame [(''text'', JStr ''hi'')] None]
   \<and> (\<forall>f\<in>set (sent_chunks (cr_sent (snd (serve_completion released_wire 9)))). frame_finish f = None)"
proof
  show "sent_chunks (cr_sent (snd (serve_completion released_wire 9))) = [ChunkFrame [(''text'', JStr ''hi'')] None]" by code_simp
  have done_once: "cr_releases (snd (serve_completion released_wire 9)) = [''completed'']" by code_simp
  have "engine_chunks released_wire = [choice_chunk]" by code_simp
  then have chunks: "\<forall>c\<in>set (engine_chunks released_wire). \<exists>fs. c = JObj fs \<and> map_of fs ''finish_reason'' = None"
    by (simp add: choice_chunk_def)
  have close: "ce_close_failed released_wire = Answered" "ce_close released_wire = Answered" "cs_choice released_wire = plain_choice"
    by (simp_all add: released_wire_def demo_wire_def)
  have "f = None" if "plain_choice t JNull = Inr (t', f)" for t t' f using that by (cases t) auto
  then show "\<forall>f\<in>set (sent_chunks (cr_sent (snd (serve_completion released_wire 9)))). frame_finish f = None"
    by (intro stream_loses_finish [OF surjective_pairing close(1,2) done_once chunks]) (simp add: close(3))
qed

section \<open>Small models\<close>

definition one_flash :: db where
  "one_flash = demo_db [demo_server 3 ''big'' ''halogen-flash'' [''decider-0.8b''] SrvRunning]"

definition demo_query :: rerank_request where
  "demo_query = \<lparr>rr_model = ''big-rerank'', rr_agent_id = None, rr_query = [], rr_documents = [[]], rr_top_n = None,
     rr_instruct = None, rr_return_documents = False\<rparr>"

definition demo_question :: decision_request where
  "demo_question = \<lparr>dq_model = ''big-decide'', dq_agent_id = None, dq_text = ''fine'', dq_question = ''good?'',
     dq_options = [''yes'', ''no''], dq_system = None\<rparr>"

definition scored_token :: "string \<Rightarrow> rat \<Rightarrow> json" where
  "scored_token t l = JObj [(''token'', JStr t), (''logprob'', JFloat l)]"

definition demo_answer :: obj where
  "demo_answer = [(''choices'', JArr [JObj [(''message'', JObj [(''content'', JStr ''maybe'')]),
     (''logprobs'', JObj [(''content'', JArr [JObj [(''top_logprobs'',
        JArr [scored_token ''yes'' 1, scored_token ''no'' 2, scored_token ''yes'' 3])]])])]])]"

definition demo_decision :: decision_env where
  "demo_decision = call_env.extend (plain_call one_flash (Inr (JObj demo_answer)))
     \<lparr>de_exp = Inr, de_loads = (\<lambda>s. None), de_show = (\<lambda>j. [])\<rparr>"

definition demo_embedding :: embedding_request where
  "demo_embedding = \<lparr>eq_model = ''m'', eq_agent_id = None, eq_input = [''hello''], eq_encoding = ''base64''\<rparr>"

fun plain_data :: "json \<Rightarrow> json \<Rightarrow> exn + rat list \<times> int" where
  "plain_data (JArr js) (JInt n) = Inr ([], n)"
| "plain_data v n = Inl (ValueError ''Input should be a valid list'')"

definition demo_vectors :: embedding_env where
  "demo_vectors = call_env.extend
     (plain_call (demo_db []) (Inr (JObj [(''data'', JArr [JObj [(''embedding'', JStr ''AAAA'')]])])))
     \<lparr>em_meta = (\<lambda>_. JNull), em_supports = (\<lambda>_. True), em_data = plain_data, em_count = py_int\<rparr>"

lemma demo_calls_calm: "call_calm (plain_call d (Inr j))" "call_calm (call_env.truncate demo_decision)" "embedding_calm demo_vectors"
proof -
  show "call_calm (plain_call d (Inr j))" "call_calm (call_env.truncate demo_decision)"
    by (simp_all add: call_calm_def plain_call_def demo_decision_def call_env.extend_def call_env.truncate_def)
  have "plain_data v n \<noteq> Inl GeneratorExit" for v n by (cases "(v, n)" rule: plain_data.cases) simp_all
  moreover have "py_int j \<noteq> Inl GeneratorExit" for j by (cases j) (auto split: option.split)
  ultimately show "embedding_calm demo_vectors"
    by (simp add: embedding_calm_def demo_vectors_def call_env.extend_def plain_call_def)
qed


text \<open>The model answers none of the options; the two tokens that read as yes weigh more than the one that reads as no.\<close>

lemma decision_sound_witness:
  "\<exists>choice. arr (look ''choices'' JNull demo_answer) \<noteq> [] \<and> choice = hd (arr (look ''choices'' JNull demo_answer))
     \<and> decision_right [''yes'', ''no''] [(''yes'', 4), (''no'', 2)] (answer_text demo_decision choice) ''yes''
     \<and> (\<forall>l. score [(''yes'', 4), (''no'', 2)] l
            = sum_list (map snd (filter (\<lambda>t. fst t = l) (List.map_filter (scored (de_exp demo_decision)) (token_entries choice))))
          \<and> (map_of [(''yes'', 4 :: rat), (''no'', 2)] l \<noteq> None
             \<longleftrightarrow> l \<in> fst ` set (List.map_filter (scored (de_exp demo_decision)) (token_entries choice))))"
proof (rule decision_sound)
  show "read_decision demo_decision [''yes'', ''no''] demo_answer = Inr (''yes'', [(''yes'', 4), (''no'', 2)])" by code_simp
qed

lemma encoded_embeddings_fail_witness:
  "(\<exists>m. fst (create_embedding demo_vectors demo_embedding start_route) = Inl (HttpStatus 500 m))
   \<and> rt_releases (snd (create_embedding demo_vectors demo_embedding start_route)) = [''failed'']
   \<and> map fst (rt_telemetry (snd (create_embedding demo_vectors demo_embedding start_route))) = [''error'']"
proof (rule encoded_embeddings_fail [OF surjective_pairing])
  show "rt_sent (snd (create_embedding demo_vectors demo_embedding start_route)) \<noteq> []" by code_simp
  show "ca_release demo_vectors = Answered"
    "ca_reply demo_vectors = Inr (JObj [(''data'', JArr [JObj [(''embedding'', JStr ''AAAA'')]])])"
    by (simp_all add: demo_vectors_def call_env.extend_def plain_call_def)
  show "\<exists>m. em_data demo_vectors (JStr ''AAAA'') n = Inl (ValueError m)" for n
    by (simp add: demo_vectors_def call_env.extend_def)
  show "map_of [(''embedding'', JStr ''AAAA'')] ''embedding'' = Some (JStr ''AAAA'')" by simp
qed simp

end
