(* ===== verification/ResponseStream.thy ===== *)
theory ResponseStream
  imports Prelude
begin

text \<open>
  Streaming of the Responses API: the emitter of numbered events
  (\<open>SSEmitter\<close>, backend/app/api/routes/v1/responses/events.py) and the state that turns deltas of
  an engine into output items and events (\<open>StreamState\<close>, responses/translator.py), fed by chat
  deltas or by the events of an engine with a native Responses endpoint
  (\<open>decode_gufo_stream_event\<close>).
  \<^item> The attributes \<open>_msg_id\<close>, \<open>_msg_text\<close>, \<open>_msg_open\<close> change together (an open message has an
    id, a closed one neither id nor text) and are one optional pair; likewise those of the
    reasoning item. \<open>_call_order\<close> lists the keys of the dict \<open>_calls\<close> in insertion order, which is
    the order of the association list, so it has no field of its own.
  \<^item> A random id is \<open>NewId\<close> with its prefix and a number that is never given out again.
\<close>

section \<open>Items and events\<close>

datatype ident = NewId string nat | Given string

text \<open>An output item; the content of a message or reasoning item is there once it is completed.\<close>

datatype out_item =
    MessageItem ident "string option" "string option"
  | ReasoningItem ident "string option"
  | CallItem ident ident string string bool

datatype payload =
    ResponseEv string string "out_item list"
  | ItemAdded nat out_item
  | ItemDone nat out_item
  | PartAdded ident nat
  | PartDone ident nat string
  | TextDelta ident nat string
  | TextDone ident nat string
  | ReasoningDelta ident nat string
  | ReasoningDone ident nat string
  | SummaryDelta ident nat string
  | ArgsDelta ident nat string
  | ArgsDone ident nat string

section \<open>The emitter\<close>

type_synonym event = "nat \<times> payload"

record emitter =
  em_seq :: nat
  em_pending :: "event list"

definition new_emitter :: emitter where
  "new_emitter = \<lparr>em_seq = 0, em_pending = []\<rparr>"

definition next_sequence :: "emitter \<Rightarrow> nat \<times> emitter" where
  "next_sequence e = (em_seq e + 1, e\<lparr>em_seq := em_seq e + 1\<rparr>)"

definition make_event :: "payload \<Rightarrow> emitter \<Rightarrow> emitter" where
  "make_event p e = (let (n, e1) = next_sequence e in e1\<lparr>em_pending := em_pending e1 @ [(n, p)]\<rparr>)"

definition drain_events :: "emitter \<Rightarrow> event list \<times> emitter" where
  "drain_events e = (em_pending e, e\<lparr>em_pending := []\<rparr>)"

section \<open>The stream state\<close>

record tool_call =
  tc_item :: ident
  tc_call :: ident
  tc_name :: string
  tc_args :: string
  tc_open :: bool

record stream_state =
  ss_emitter :: emitter
  out_items :: "out_item list"
  out_index :: nat
  open_message :: "(ident \<times> string) option"
  open_reasoning :: "(ident \<times> string) option"
  open_calls :: "(int \<times> tool_call) list"
  reasoning_tokens :: nat
  assistant_phase :: "string option"
  next_id :: nat

definition new_stream :: "emitter \<Rightarrow> string option \<Rightarrow> stream_state" where
  "new_stream e phase = \<lparr>ss_emitter = e, out_items = [], out_index = 0, open_message = None,
     open_reasoning = None, open_calls = [], reasoning_tokens = 0, assistant_phase = phase, next_id = 0\<rparr>"

definition emit :: "payload \<Rightarrow> stream_state \<Rightarrow> stream_state" where
  "emit p s = s\<lparr>ss_emitter := make_event p (ss_emitter s)\<rparr>"

definition new_id :: "string \<Rightarrow> stream_state \<Rightarrow> ident \<times> stream_state" where
  "new_id prefix s = (NewId prefix (next_id s), s\<lparr>next_id := next_id s + 1\<rparr>)"

text \<open>A phase that is the empty string counts as none.\<close>

definition shown_phase :: "stream_state \<Rightarrow> string option" where
  "shown_phase s = (case assistant_phase s of None \<Rightarrow> None | Some p \<Rightarrow> if p = [] then None else Some p)"

definition close_item :: "out_item \<Rightarrow> stream_state \<Rightarrow> stream_state" where
  "close_item it s = (emit (ItemDone (out_index s) it) s)
     \<lparr>out_items := out_items s @ [it], out_index := out_index s + 1\<rparr>"

subsection \<open>Reasoning\<close>

definition finish_reasoning :: "stream_state \<Rightarrow> stream_state" where
  "finish_reasoning s =
     (case open_reasoning s of
        None \<Rightarrow> s
      | Some (i, t) \<Rightarrow>
          (let s1 = (if t = [] then s else emit (ReasoningDone i (out_index s) t) s)
           in (close_item (ReasoningItem i (Some t)) s1)\<lparr>open_reasoning := None\<rparr>))"

definition begin_reasoning :: "stream_state \<Rightarrow> stream_state" where
  "begin_reasoning s =
     (case open_reasoning s of
        Some _ \<Rightarrow> s
      | None \<Rightarrow>
          (let (i, s1) = new_id ''rs'' s
           in (emit (ItemAdded (out_index s1) (ReasoningItem i None)) s1)\<lparr>open_reasoning := Some (i, [])\<rparr>))"

definition add_reasoning_delta :: "string \<Rightarrow> stream_state \<Rightarrow> stream_state" where
  "add_reasoning_delta d s =
     (if d = [] then s
      else let s1 = begin_reasoning s in
        (case open_reasoning s1 of
           None \<Rightarrow> s1
         | Some (i, t) \<Rightarrow>
             emit (ReasoningDelta i (out_index s1) d)
               (s1\<lparr>open_reasoning := Some (i, t @ d),
                   reasoning_tokens := reasoning_tokens s1 + max 1 (length d div 4)\<rparr>)))"

subsection \<open>Messages\<close>

definition begin_message :: "stream_state \<Rightarrow> stream_state" where
  "begin_message s0 =
     (let (i, s) = new_id ''msg'' s0;
          s1 = emit (ItemAdded (out_index s) (MessageItem i (shown_phase s) None)) s;
          s2 = emit (PartAdded i (out_index s1)) s1
      in s2\<lparr>open_message := Some (i, [])\<rparr>)"

definition add_text_delta :: "string \<Rightarrow> stream_state \<Rightarrow> stream_state" where
  "add_text_delta d s =
     (if d = [] then s
      else let s1 = (if open_message s = None then begin_message (finish_reasoning s) else s) in
        (case open_message s1 of
           None \<Rightarrow> s1
         | Some (i, t) \<Rightarrow>
             emit (TextDelta i (out_index s1) d) (s1\<lparr>open_message := Some (i, t @ d)\<rparr>)))"

definition finish_message :: "stream_state \<Rightarrow> stream_state" where
  "finish_message s =
     (case open_message s of
        None \<Rightarrow> s
      | Some (i, t) \<Rightarrow>
          (let s1 = emit (TextDone i (out_index s) t) s;
               s2 = emit (PartDone i (out_index s) t) s1
           in (close_item (MessageItem i (shown_phase s) (Some t)) s2)\<lparr>open_message := None\<rparr>))"

subsection \<open>Function calls\<close>

text \<open>A delta of \<open>tool_calls\<close>; the texts are None where the key is missing or null.\<close>

record tool_delta =
  td_id :: "string option"
  td_name :: "string option"
  td_args :: "string option"

definition call_ident :: "tool_delta \<Rightarrow> stream_state \<Rightarrow> ident \<times> stream_state" where
  "call_ident tc s = (case td_id tc of
       None \<Rightarrow> new_id ''call'' s
     | Some x \<Rightarrow> if x = [] then new_id ''call'' s else (Given x, s))"

definition find_call :: "int \<Rightarrow> tool_delta \<Rightarrow> stream_state \<Rightarrow> tool_call \<times> stream_state" where
  "find_call index tc s =
     (case map_of (open_calls s) index of
        Some c \<Rightarrow> (c, s)
      | None \<Rightarrow>
          (let (i, s1) = new_id ''fc'' s;
               (cid, s2) = call_ident tc s1;
               c = \<lparr>tc_item = i, tc_call = cid, tc_name = [], tc_args = [], tc_open = False\<rparr>
           in (c, s2\<lparr>open_calls := open_calls s2 @ [(index, c)]\<rparr>)))"

definition nonempty :: "string option \<Rightarrow> bool" where
  "nonempty x = (case x of None \<Rightarrow> False | Some t \<Rightarrow> t \<noteq> [])"

definition shown_name :: "tool_call \<Rightarrow> string" where
  "shown_name c = (if tc_name c = [] then ''unknown'' else tc_name c)"

definition open_call :: "tool_delta \<Rightarrow> tool_call \<Rightarrow> stream_state \<Rightarrow> tool_call \<times> stream_state" where
  "open_call tc c s =
     (if (nonempty (td_name tc) \<or> td_args tc \<noteq> None) \<and> \<not> tc_open c
      then (c\<lparr>tc_open := True\<rparr>,
            emit (ItemAdded (out_index s) (CallItem (tc_item c) (tc_call c) (shown_name c) [] False)) s)
      else (c, s))"

definition extend_call :: "tool_delta \<Rightarrow> tool_call \<Rightarrow> stream_state \<Rightarrow> tool_call \<times> stream_state" where
  "extend_call tc c s =
     (case td_args tc of
        None \<Rightarrow> (c, s)
      | Some d \<Rightarrow> if d = [] then (c, s)
          else (c\<lparr>tc_args := tc_args c @ d\<rparr>, emit (ArgsDelta (tc_item c) (out_index s) d) s))"

definition add_tool_call_delta :: "int \<Rightarrow> tool_delta \<Rightarrow> stream_state \<Rightarrow> stream_state" where
  "add_tool_call_delta index tc s0 =
     (let (c, s) = find_call index tc (finish_reasoning s0);
          c1 = (if nonempty (td_name tc) \<and> tc_name c = [] then c\<lparr>tc_name := the (td_name tc)\<rparr> else c);
          (c2, s2) = open_call tc c1 s;
          (c3, s3) = extend_call tc c2 s2
      in s3\<lparr>open_calls := AList.update index c3 (open_calls s3)\<rparr>)"

definition call_item :: "tool_call \<Rightarrow> out_item" where
  "call_item c = CallItem (tc_item c) (tc_call c) (shown_name c)
     (if tc_args c = [] then ''{}'' else tc_args c) True"

definition finish_call :: "tool_call \<Rightarrow> stream_state \<Rightarrow> stream_state" where
  "finish_call c s =
     (if \<not> tc_open c then s
      else close_item (call_item c) (emit (ArgsDone (tc_item c) (out_index s) (tc_args c)) s))"

definition finish_calls :: "stream_state \<Rightarrow> stream_state" where
  "finish_calls s = (fold finish_call (map snd (open_calls s)) s)\<lparr>open_calls := []\<rparr>"

definition SUPPRESSED_NOTE :: string where
  "SUPPRESSED_NOTE = ''Tool call suppressed: not in allowed_tools for this request.''"

text \<open>Whether all calls were suppressed, and the state without the disallowed ones.\<close>

definition apply_allowed_tools :: "string list option \<Rightarrow> stream_state \<Rightarrow> bool \<times> stream_state" where
  "apply_allowed_tools allowed s =
     (case allowed of
        None \<Rightarrow> (False, s)
      | Some names \<Rightarrow>
          if list_all (\<lambda>(i, c). shown_name c \<in> set names) (open_calls s) then (False, s)
          else (let s1 = add_text_delta SUPPRESSED_NOTE
                      (s\<lparr>open_calls := filter (\<lambda>(i, c). shown_name c \<in> set names) (open_calls s)\<rparr>)
                in (open_calls s1 = [], s1)))"

text \<open>What ends a stream, and what the buffered path does instead (calls before the message).\<close>

definition close_out :: "string list option \<Rightarrow> stream_state \<Rightarrow> stream_state" where
  "close_out allowed s =
     finish_message (finish_calls (finish_reasoning (snd (apply_allowed_tools allowed s))))"

section \<open>Native events\<close>

text \<open>
  The events of an engine with a native Responses endpoint, as far as they are told apart; a
  delta that is missing or null is the empty string. \<open>'u\<close> is the usage report of the terminal event.
\<close>

datatype 'u native_event =
    NativeText string
  | NativeReasoning string
  | NativeCall "string option" "string option" "string option"
  | NativeArgs "string option" "string option" string
  | NativeEnd bool "'u option"
  | NativeFailed string
  | NativeOther

record native_call =
  nc_index :: nat
  nc_call :: "string option"
  nc_name :: "string option"

type_synonym native_calls = "(ident option \<times> native_call) list"

definition emit_summary :: "string \<Rightarrow> stream_state \<Rightarrow> stream_state" where
  "emit_summary d s =
     emit (SummaryDelta (case open_reasoning s of None \<Rightarrow> Given [] | Some (i, t) \<Rightarrow> i) (out_index s) d) s"

definition native_key :: "string option \<Rightarrow> stream_state \<Rightarrow> ident \<times> stream_state" where
  "native_key gid s = (if nonempty gid then (Given (the gid), s) else new_id ''fc'' s)"

definition native_meta :: "ident option \<Rightarrow> string option \<Rightarrow> native_calls \<Rightarrow> native_call \<times> native_calls" where
  "native_meta key name cs =
     (case map_of cs key of
        Some c \<Rightarrow> (c, cs)
      | None \<Rightarrow> (let c = \<lparr>nc_index = length cs, nc_call = None, nc_name = name\<rparr> in (c, cs @ [(key, c)])))"

text \<open>\<open>decode_gufo_stream_event\<close>: whether the stream is over, its usage, whether it was cut short.\<close>

definition decode_native ::
  "'u native_event \<Rightarrow> stream_state \<times> native_calls
     \<Rightarrow> (exn + bool \<times> 'u option \<times> bool) \<times> stream_state \<times> native_calls" where
  "decode_native e sc =
     (case sc of (s, cs) \<Rightarrow>
      (case e of
         NativeText d \<Rightarrow> (Inr (False, None, False), add_text_delta d s, cs)
       | NativeReasoning d \<Rightarrow>
           (Inr (False, None, False), if d = [] then s else emit_summary d (add_reasoning_delta d s), cs)
       | NativeCall gid cid name \<Rightarrow>
           (let (key, s1) = native_key gid s
            in (Inr (False, None, False), s1,
                AList.update (Some key) \<lparr>nc_index = length cs, nc_call = cid, nc_name = name\<rparr> cs))
       | NativeArgs gid name d \<Rightarrow>
           (let (c, cs1) = native_meta (map_option Given gid) name cs
            in (Inr (False, None, False),
                add_tool_call_delta (int (nc_index c)) \<lparr>td_id = nc_call c, td_name = nc_name c, td_args = Some d\<rparr> s,
                cs1))
       | NativeEnd short u \<Rightarrow> (Inr (True, u, short), s, cs)
       | NativeFailed msg \<Rightarrow> (Inl (RuntimeError (''gufo response error: '' @ (if msg = [] then ''failed'' else msg))), s, cs)
       | NativeOther \<Rightarrow> (Inr (False, None, False), s, cs)))"

section \<open>Chat deltas\<close>

text \<open>
  The first choice of one chunk: its reasoning and content deltas (empty when missing), its tool
  call deltas with their index (0 when missing), and its finish reason.
\<close>

record chat_choice =
  cc_reasoning :: string
  cc_content :: string
  cc_tools :: "(int \<times> tool_delta) list"
  cc_finish :: "string option"

definition feed_tools :: "(int \<times> tool_delta) list \<Rightarrow> stream_state \<Rightarrow> stream_state" where
  "feed_tools tcs s = fold (\<lambda>(i, tc). add_tool_call_delta i tc) tcs s"

definition feed_choice :: "chat_choice \<Rightarrow> stream_state \<Rightarrow> stream_state" where
  "feed_choice c s =
     (let s1 = add_reasoning_delta (cc_reasoning c) s;
          s2 = (if cc_finish c = Some ''reasoning_content'' then finish_reasoning s1 else s1)
      in feed_tools (cc_tools c) (add_text_delta (cc_content c) s2))"

text \<open>
  The buffered path: a whole message; a tool call without an index takes the number of calls
  so far.
\<close>

record chat_message =
  cm_reasoning :: string
  cm_content :: string
  cm_tools :: "(int option \<times> tool_delta) list"

definition feed_whole_tool :: "int option \<times> tool_delta \<Rightarrow> stream_state \<Rightarrow> stream_state" where
  "feed_whole_tool t s = add_tool_call_delta
     (case fst t of None \<Rightarrow> int (length (open_calls s)) | Some i \<Rightarrow> i) (snd t) s"

definition complete_message :: "string list option \<Rightarrow> string option \<Rightarrow> chat_message \<Rightarrow> stream_state" where
  "complete_message allowed phase m =
     (let s0 = new_stream new_emitter phase;
          s1 = (if cm_reasoning m = [] then s0 else finish_reasoning (add_reasoning_delta (cm_reasoning m) s0));
          s2 = add_text_delta (cm_content m) s1;
          s3 = fold feed_whole_tool (cm_tools m) s2
      in finish_message (finish_calls (snd (apply_allowed_tools allowed s3))))"

section \<open>Runs\<close>

text \<open>
  What a connection does to its stream: deltas in any order, closing of reasoning, native
  summaries, a suppression, draining of frames to the client. \<open>run_stream\<close> returns what was sent.
\<close>

datatype stream_op =
    OpText string
  | OpReasoning string
  | OpEndReasoning
  | OpSummary string
  | OpTool int tool_delta
  | OpDrain

fun exec_op :: "stream_op \<Rightarrow> stream_state \<Rightarrow> event list \<times> stream_state" where
  "exec_op (OpText d) s = ([], add_text_delta d s)"
| "exec_op (OpReasoning d) s = ([], add_reasoning_delta d s)"
| "exec_op OpEndReasoning s = ([], finish_reasoning s)"
| "exec_op (OpSummary d) s = ([], emit_summary d s)"
| "exec_op (OpTool i tc) s = ([], add_tool_call_delta i tc s)"
| "exec_op OpDrain s = (let (es, e) = drain_events (ss_emitter s) in (es, s\<lparr>ss_emitter := e\<rparr>))"

fun run_stream :: "stream_op list \<Rightarrow> stream_state \<Rightarrow> event list \<times> stream_state" where
  "run_stream [] s = ([], s)"
| "run_stream (p # ps) s =
     (let (es, s1) = exec_op p s; (fs, s2) = run_stream ps s1 in (es @ fs, s2))"

text \<open>A whole stream: the deltas, the close-out, and the last frames; all events and the final state.\<close>

definition whole_stream ::
  "emitter \<Rightarrow> string option \<Rightarrow> stream_op list \<Rightarrow> string list option \<Rightarrow> event list \<times> stream_state" where
  "whole_stream e0 phase ps allowed =
     (let (es, s) = run_stream ps (new_stream e0 phase);
          s1 = close_out allowed s;
          (fs, e) = drain_events (ss_emitter s1)
      in (es @ fs, s1\<lparr>ss_emitter := e\<rparr>))"

end
