(* ===== verification/ResponseRun.thy ===== *)
theory ResponseRun
  imports ResponseStream Scripts
begin

text \<open>
  The connection of a streamed response: \<open>_stream_events\<close> of
  backend/app/api/routes/v1/responses/router.py, the generator that feeds the stream state from
  the lines of the engine, sends the frames, releases the lease, records telemetry and stores the
  response; with the usage accounting of both engine kinds.
  \<^item> The generator is a function on a record of what it did so far. The client takes a number of
    frames and closes: the \<open>yield\<close> after those raises \<open>GeneratorExit\<close>, for every number.
  \<^item> Each await of the source is an argument that returns, raises or is cancelled; the lines of the
    engine are a list of lines, idle ticks, and an exception, which ends when the engine hangs up.
  \<^item> \<open>json.loads\<close>, the output models of pydantic and the database are arguments.
\<close>

section \<open>Usage\<close>

text \<open>A value read from a JSON object: missing, null, or there.\<close>

datatype 'a field = Absent | Null | Val 'a

definition int_or_zero :: "int field \<Rightarrow> int" where
  "int_or_zero f = (case f of Val n \<Rightarrow> n | _ \<Rightarrow> 0)"

record usage_report =
  ur_prompt :: "int field"
  ur_completion :: "int field"
  ur_input :: "int field"
  ur_output :: "int field"
  ur_cached :: "int field"
  ur_reasoning :: "int field"
  ur_input_cached :: "int field"
  ur_output_reasoning :: "int field"
  ur_cache_n :: "int field"

definition no_report :: usage_report where
  "no_report = \<lparr>ur_prompt = Absent, ur_completion = Absent, ur_input = Absent, ur_output = Absent,
     ur_cached = Absent, ur_reasoning = Absent, ur_input_cached = Absent, ur_output_reasoning = Absent,
     ur_cache_n = Absent\<rparr>"

record usage =
  us_input :: int
  us_output :: int
  us_total :: int
  us_cached :: int
  us_reasoning :: int

definition usage_from_llama :: "int \<Rightarrow> int \<Rightarrow> int \<Rightarrow> int \<Rightarrow> usage" where
  "usage_from_llama prompt completion reasoning cached =
     \<lparr>us_input = prompt, us_output = completion, us_total = prompt + completion,
      us_cached = cached, us_reasoning = reasoning\<rparr>"

definition build_usage :: "usage_report \<Rightarrow> nat \<Rightarrow> nat \<Rightarrow> usage" where
  "build_usage u fallback_chars reasoning =
     (let completion = (if ur_prompt u = Absent \<and> ur_completion u = Absent \<and> ur_input u = Absent \<and> ur_output u = Absent
                        then int (fallback_chars div 4) else int_or_zero (ur_completion u));
          cached = int_or_zero (if ur_cached u \<noteq> Absent then ur_cached u else ur_cache_n u);
          thought = (case ur_reasoning u of Val n \<Rightarrow> n | _ \<Rightarrow> int reasoning)
      in usage_from_llama (int_or_zero (ur_prompt u)) completion thought cached)"

definition gufo_usage_to_spec :: "usage_report \<Rightarrow> usage" where
  "gufo_usage_to_spec u = usage_from_llama (int_or_zero (ur_input u)) (int_or_zero (ur_output u))
     (int_or_zero (ur_output_reasoning u)) (int_or_zero (ur_input_cached u))"

section \<open>The generator\<close>

text \<open>What is sent: a comment, an event, the end marker, or (on a socket) an error envelope.\<close>

datatype frame = KeepAlive | EventFrame event | DoneFrame | ErrorFrame nat string "string option"

text \<open>A decoded chunk of the chat protocol: an error, its usage, the counts of the old protocol, a choice.\<close>

record chat_chunk =
  ck_error :: "string option"
  ck_usage :: "usage_report option"
  ck_evaluated :: "int field"
  ck_predicted :: "int field"
  ck_choice :: "chat_choice option"

record stream_env =
  se_lease :: bool
  se_native :: bool
  se_phase :: "string option"
  se_allowed :: "string list option"
  se_payload :: answer
  se_ready :: "nat \<times> answer"
  se_open :: "nat \<times> answer"
  se_status :: answer
  se_lines :: "upstream list"
  se_loads :: "string \<Rightarrow> chat_chunk option"
  se_native_loads :: "string \<Rightarrow> usage_report native_event option"
  se_close :: answer
  se_validate :: "out_item list \<Rightarrow> answer"
  se_persist :: bool
  se_released :: answer
  se_store :: answer
  se_store_failed :: answer

record run =
  rn_sent :: "frame list"
  rn_takes :: nat
  rn_stream :: stream_state
  rn_calls :: native_calls
  rn_report :: usage_report
  rn_finish :: "string option"
  rn_chars :: nat
  rn_held :: bool
  rn_releases :: "string list"
  rn_telemetry :: "(string \<times> usage option) list"
  rn_status :: string
  rn_output :: "out_item list"
  rn_stored :: "(string \<times> out_item list) list"

type_synonym 'a script = "(run, 'a) prog"

subsection \<open>Frames\<close>

definition yield_frame :: "frame \<Rightarrow> unit script" where
  "yield_frame f r =
     (let r1 = r\<lparr>rn_sent := rn_sent r @ [f], rn_takes := rn_takes r - 1\<rparr>
      in if rn_takes r = 0 then (Inl GeneratorExit, r1) else (Inr (), r1))"

text \<open>Sending the waiting events, by a generator's \<open>yield\<close> or another channel.\<close>

definition drain_with :: "(frame \<Rightarrow> unit script) \<Rightarrow> unit script" where
  "drain_with deliver r =
     (let (es, e) = drain_events (ss_emitter (rn_stream r))
      in deliver_all deliver (map EventFrame es) (r\<lparr>rn_stream := (rn_stream r)\<lparr>ss_emitter := e\<rparr>\<rparr>))"

definition drain_frames :: "unit script" where
  "drain_frames = drain_with yield_frame"

definition on_stream :: "(stream_state \<Rightarrow> stream_state) \<Rightarrow> unit script" where
  "on_stream f = change (\<lambda>r. r\<lparr>rn_stream := f (rn_stream r)\<rparr>)"

definition response_event :: "string \<Rightarrow> unit script" where
  "response_event kind r = on_stream (emit (ResponseEv kind (rn_status r) (rn_output r))) r"

definition telemetry :: "string \<Rightarrow> usage option \<Rightarrow> run \<Rightarrow> run" where
  "telemetry status u r = r\<lparr>rn_telemetry := rn_telemetry r @ [(status, u)]\<rparr>"

definition release_run :: "string \<Rightarrow> run \<Rightarrow> run" where
  "release_run outcome r =
     (if rn_held r then r\<lparr>rn_held := False, rn_releases := rn_releases r @ [outcome]\<rparr> else r)"

subsection \<open>Lines\<close>

text \<open>What a chunk says about usage: the report of the server, then the old counts.\<close>

definition chunk_report :: "chat_chunk \<Rightarrow> usage_report \<Rightarrow> usage_report" where
  "chunk_report c u =
     (let u1 = (case ck_usage c of Some v \<Rightarrow> v | None \<Rightarrow> u)
      in if ck_evaluated c \<noteq> Absent \<or> ck_predicted c \<noteq> Absent
         then no_report\<lparr>ur_prompt := (if ck_evaluated c = Absent then Val 0 else ck_evaluated c),
                        ur_completion := (if ck_predicted c = Absent then Val 0 else ck_predicted c)\<rparr>
         else u1)"

definition chat_chunk_step ::
  "(chat_choice \<Rightarrow> stream_state \<Rightarrow> stream_state) \<Rightarrow> unit script \<Rightarrow> chat_chunk \<Rightarrow> unit script" where
  "chat_chunk_step feed drain c =
     (case ck_error c of
        Some msg \<Rightarrow> throw (RuntimeError (''LLM error: '' @ msg))
      | None \<Rightarrow>
          and_then (change (\<lambda>r. r\<lparr>rn_report := chunk_report c (rn_report r)\<rparr>)) (\<lambda>_.
          (case ck_choice c of
             None \<Rightarrow> give ()
           | Some ch \<Rightarrow>
               and_then (change (\<lambda>r. r\<lparr>rn_finish := (if nonempty (cc_finish ch) then cc_finish ch else rn_finish r),
                                       rn_chars := rn_chars r + length (cc_content ch),
                                       rn_stream := feed ch (rn_stream r)\<rparr>)) (\<lambda>_.
               drain))))"

text \<open>Reading the chat lines; the result says whether the end marker was seen.\<close>

fun read_chat :: "stream_env \<Rightarrow> upstream list \<Rightarrow> bool script" where
  "read_chat x [] = give False"
| "read_chat x (Idle # us) = and_then (yield_frame KeepAlive) (\<lambda>_. read_chat x us)"
| "read_chat x (Broke e # us) = throw e"
| "read_chat x (Line line # us) =
     (case sse_data line of
        None \<Rightarrow> read_chat x us
      | Some data \<Rightarrow>
          if strip data = ''[DONE]'' then give True
          else (case se_loads x data of
                  None \<Rightarrow> read_chat x us
                | Some c \<Rightarrow> and_then (chat_chunk_step feed_choice drain_frames c) (\<lambda>_. read_chat x us)))"

definition native_step :: "unit script \<Rightarrow> usage_report native_event \<Rightarrow> bool script" where
  "native_step drain ev r =
     (case decode_native ev (rn_stream r, rn_calls r) of
        (Inl e, s, cs) \<Rightarrow> (Inl e, r\<lparr>rn_stream := s, rn_calls := cs\<rparr>)
      | (Inr (terminal, u, short), s, cs) \<Rightarrow>
          and_then drain (\<lambda>_.
            and_then (change (\<lambda>r. if terminal \<and> short then r\<lparr>rn_finish := Some ''length''\<rparr> else r)) (\<lambda>_.
            give terminal))
          (r\<lparr>rn_stream := s, rn_calls := cs,
             rn_report := (case u of None \<Rightarrow> rn_report r | Some v \<Rightarrow> v)\<rparr>))"

fun read_native :: "stream_env \<Rightarrow> upstream list \<Rightarrow> bool script" where
  "read_native x [] = give False"
| "read_native x (Idle # us) = and_then (yield_frame KeepAlive) (\<lambda>_. read_native x us)"
| "read_native x (Broke e # us) = throw e"
| "read_native x (Line line # us) =
     (case sse_data line of
        None \<Rightarrow> read_native x us
      | Some data \<Rightarrow>
          (case se_native_loads x data of
             None \<Rightarrow> read_native x us
           | Some ev \<Rightarrow> and_then (native_step drain_frames ev) (\<lambda>terminal. if terminal then give True else read_native x us)))"

subsection \<open>The parts of the generator\<close>

definition first_frames :: "unit script" where
  "first_frames = and_then (response_event ''response.created'') (\<lambda>_.
     and_then (response_event ''response.in_progress'') (\<lambda>_. drain_frames))"

text \<open>A wait that sends comments while it is pending.\<close>

definition wait_ticking :: "nat \<times> answer \<Rightarrow> unit script" where
  "wait_ticking w = and_then (deliver_all yield_frame (replicate (fst w) KeepAlive)) (\<lambda>_. await_answer (snd w))"

definition open_upstream :: "stream_env \<Rightarrow> unit script" where
  "open_upstream x = and_then (await_answer (se_payload x)) (\<lambda>_.
     and_then (wait_ticking (se_ready x)) (\<lambda>_.
     and_then (wait_ticking (se_open x)) (\<lambda>_. await_answer (se_status x))))"

definition read_body :: "stream_env \<Rightarrow> unit script" where
  "read_body x = and_then (if se_native x then read_native x (se_lines x) else read_chat x (se_lines x)) (\<lambda>marker.
     if marker then await_answer (se_close x) else throw (RuntimeError ''LLM stream ended without a completion marker''))"

definition final_usage :: "stream_env \<Rightarrow> run \<Rightarrow> usage" where
  "final_usage x r = (if se_native x then gufo_usage_to_spec (rn_report r)
     else build_usage (rn_report r) (rn_chars r) (reasoning_tokens (rn_stream r)))"

text \<open>From the end of the engine's stream to the terminal event.\<close>

definition record_success :: "stream_env \<Rightarrow> unit script" where
  "record_success x = change (\<lambda>r. release_run ''completed'' (telemetry ''success'' (Some (final_usage x r)) r))"

definition settle_with :: "unit script \<Rightarrow> stream_env \<Rightarrow> unit script" where
  "settle_with drain x =
     and_then (change (\<lambda>r. r\<lparr>rn_status := (if rn_finish r = Some ''length'' then ''incomplete'' else ''completed'')\<rparr>)) (\<lambda>_.
     and_then (\<lambda>r. await_answer (se_validate x (out_items (rn_stream r))) r) (\<lambda>_.
     and_then (change (\<lambda>r. r\<lparr>rn_output := out_items (rn_stream r)\<rparr>)) (\<lambda>_.
     and_then (\<lambda>r. response_event (if rn_status r = ''incomplete'' then ''response.incomplete'' else ''response.completed'') r) (\<lambda>_.
     drain))))"

definition settle :: "stream_env \<Rightarrow> unit script" where
  "settle = settle_with drain_frames"

definition store :: "answer \<Rightarrow> out_item list \<Rightarrow> unit script" where
  "store a items = and_then (await_answer a) (\<lambda>_.
     change (\<lambda>r. r\<lparr>rn_stored := rn_stored r @ [(rn_status r, items)]\<rparr>))"

text \<open>The release has been started; before storing, it is awaited.\<close>

definition keep_response :: "stream_env \<Rightarrow> unit script" where
  "keep_response x = (if se_persist x
     then and_then (if se_lease x then await_answer (se_released x) else give ()) (\<lambda>_.
       (\<lambda>r. store (se_store x) (rn_output r) r))
     else give ())"

definition close_stream :: "stream_env \<Rightarrow> unit script" where
  "close_stream x = and_then (on_stream (close_out (se_allowed x))) (\<lambda>_. drain_frames)"

definition stream_body :: "stream_env \<Rightarrow> unit script" where
  "stream_body x =
     and_then (open_upstream x) (\<lambda>_.
     and_then (read_body x) (\<lambda>_.
     and_then (record_success x) (\<lambda>_.
     and_then (close_stream x) (\<lambda>_.
     and_then (settle x) (\<lambda>_.
     keep_response x)))))"

text \<open>The handlers around it.\<close>

definition record_failure :: "string \<Rightarrow> run \<Rightarrow> run" where
  "record_failure status r = (if rn_telemetry r = [] then telemetry status None r else r)"

definition fail_response :: "stream_env \<Rightarrow> unit script" where
  "fail_response x =
     and_then (change (\<lambda>r. (record_failure ''error'' r)\<lparr>rn_status := ''failed''\<rparr>)) (\<lambda>_.
     and_then (response_event ''response.failed'') (\<lambda>_.
     and_then drain_frames (\<lambda>_.
     if se_persist x then store (se_store_failed x) [] else give ())))"

definition release_finally :: "run \<Rightarrow> run" where
  "release_finally r = release_run (if rn_status r = ''failed'' then ''failed'' else ''cancelled'') r"

definition stream_guarded :: "stream_env \<Rightarrow> unit script" where
  "stream_guarded x r =
     (case stream_body x r of
        (Inr u, r1) \<Rightarrow> (Inr u, release_finally r1)
      | (Inl e, r1) \<Rightarrow>
          if is_exception e
          then (case fail_response x r1 of (a, r2) \<Rightarrow> (a, release_finally r2))
          else (Inl e, release_finally (record_failure ''cancelled'' r1)))"

definition stream_events :: "stream_env \<Rightarrow> unit script" where
  "stream_events x r =
     (case first_frames r of
        (Inl e, r1) \<Rightarrow>
          (Inl e, if rn_held r1 then release_run (if is_exception e then ''failed'' else ''cancelled'')
               (telemetry (if is_exception e then ''error'' else ''cancelled'') None r1) else r1)
      | (Inr _, r1) \<Rightarrow> and_then (stream_guarded x) (\<lambda>_. yield_frame DoneFrame) r1)"

definition start_run :: "stream_env \<Rightarrow> nat \<Rightarrow> run" where
  "start_run x takes = \<lparr>rn_sent = [], rn_takes = takes, rn_stream = new_stream new_emitter (se_phase x),
     rn_calls = [], rn_report = no_report, rn_finish = None, rn_chars = 0, rn_held = se_lease x,
     rn_releases = [], rn_telemetry = [], rn_status = ''in_progress'', rn_output = [], rn_stored = []\<rparr>"

text \<open>The whole connection, with a client that takes that many frames before it closes.\<close>

definition serve :: "stream_env \<Rightarrow> nat \<Rightarrow> (exn + unit) \<times> run" where
  "serve x takes = stream_events x (start_run x takes)"

end
