(* ===== verification/ResponseStreamSafety.thy ===== *)
theory ResponseStreamSafety
  imports ResponseStream "HOL-Library.Multiset"
begin

text \<open>
  What a client of the Responses stream can rely on. \<open>account\<close> is the contract between the events
  sent so far and the items of the stream: the deltas of an item add up to its text, items are
  announced once and completed in the order of the output, ids are never reused. Every
  operation of \<open>StreamState\<close> keeps it; the properties read it off at the end of a stream.
\<close>

section \<open>Reading a log of events\<close>

fun delta_of :: "payload \<Rightarrow> (ident \<times> string) option" where
  "delta_of (TextDelta i k d) = Some (i, d)"
| "delta_of (ReasoningDelta i k d) = Some (i, d)"
| "delta_of (ArgsDelta i k d) = Some (i, d)"
| "delta_of p = None"

fun done_of :: "payload \<Rightarrow> (nat \<times> out_item) option" where
  "done_of (ItemDone k it) = Some (k, it)"
| "done_of p = None"

fun item_ident :: "out_item \<Rightarrow> ident" where
  "item_ident (MessageItem i ph t) = i"
| "item_ident (ReasoningItem i t) = i"
| "item_ident (CallItem i c n a d) = i"

fun added_of :: "payload \<Rightarrow> ident option" where
  "added_of (ItemAdded k it) = Some (item_ident it)"
| "added_of p = None"

definition collect :: "(payload \<Rightarrow> 'a option) \<Rightarrow> event list \<Rightarrow> 'a list" where
  "collect f es = List.map_filter (\<lambda>e. f (snd e)) es"

definition said :: "ident \<Rightarrow> event list \<Rightarrow> string" where
  "said i es = concat (map snd (filter (\<lambda>p. fst p = i) (collect delta_of es)))"

lemma collect_append [simp]: "collect f (xs @ ys) = collect f xs @ collect f ys"
  by (simp add: collect_def map_filter_def)

lemma collect_simps [simp]:
  "collect f [] = []" "collect f (e # es) = (case f (snd e) of None \<Rightarrow> collect f es | Some x \<Rightarrow> x # collect f es)"
  by (simp_all add: collect_def List.map_filter_simps split: option.split)

lemma said_append [simp]: "said i (xs @ ys) = said i xs @ said i ys"
  by (simp add: said_def)

lemma said_simps [simp]:
  "said i [] = []"
  "said i [(n, p)] = (case delta_of p of None \<Rightarrow> [] | Some (j, d) \<Rightarrow> if j = i then d else [])"
  by (simp_all add: said_def split: option.split)

text \<open>A completed item against the text its deltas had.\<close>

fun item_says :: "out_item \<Rightarrow> string \<Rightarrow> bool" where
  "item_says (MessageItem i ph x) t = (x = Some t)"
| "item_says (ReasoningItem i x) t = (x = Some t)"
| "item_says (CallItem i c n a d) t = (d \<and> a = (if t = [] then ''{}'' else t))"

section \<open>The contract\<close>

text \<open>
  An item in progress: id, text so far, whether it has been announced. \<open>gone\<close> are the ids of the
  announced items that were suppressed.
\<close>

type_synonym live_item = "ident \<times> string \<times> bool"

definition known :: "live_item list \<Rightarrow> out_item list \<Rightarrow> ident list \<Rightarrow> ident list" where
  "known live outs gone = map fst live @ map item_ident outs @ gone"

definition account :: "event list \<Rightarrow> out_item list \<Rightarrow> nat \<Rightarrow> live_item list \<Rightarrow> ident list \<Rightarrow> bool" where
  "account es outs n live gone \<longleftrightarrow>
     collect done_of es = enumerate 0 outs \<and>
     (\<forall>(i, t, a)\<in>set live. said i es = t) \<and>
     (\<forall>it\<in>set outs. item_says it (said (item_ident it) es)) \<and>
     distinct (known live outs gone) \<and>
     (\<forall>i\<in>set (known live outs gone). \<exists>p k. i = NewId p k \<and> k < n) \<and>
     (\<forall>p k. n \<le> k \<longrightarrow> said (NewId p k) es = []) \<and>
     mset (collect added_of es) = mset (map fst (filter (\<lambda>x. snd (snd x)) live)) + mset (map item_ident outs) + mset gone"

lemma account_start: "account [] [] n [] []"
  by (simp add: account_def known_def)

lemma account_perm:
  assumes "account es outs n live gone" "mset live = mset live'"
  shows "account es outs n live' gone"
proof -
  have "set live' = set live" using assms(2) by (metis set_mset_mset)
  moreover have "mset (known live' outs gone) = mset (known live outs gone)"
    using assms(2) by (simp add: known_def mset_map)
  moreover from this have "distinct (known live' outs gone) = distinct (known live outs gone)"
    "set (known live' outs gone) = set (known live outs gone)"
    by (metis mset_eq_imp_distinct_iff) (metis calculation(2) set_mset_mset)
  moreover have "mset (map fst (filter (\<lambda>x. snd (snd x)) live')) = mset (map fst (filter (\<lambda>x. snd (snd x)) live))"
    using assms(2) by (simp add: mset_filter mset_map)
  ultimately show ?thesis using assms(1) unfolding account_def by simp
qed

lemma account_neutral:
  assumes "account es outs n live gone" "delta_of p = None" "done_of p = None" "added_of p = None"
  shows "account (es @ [(m, p)]) outs n live gone"
  using assms by (simp add: account_def)

lemma account_skip_id:
  assumes "account es outs n live gone"
  shows "account es outs (Suc n) live gone"
proof -
  have "\<forall>i\<in>set (known live outs gone). \<exists>p k. i = NewId p k \<and> k < n"
    using assms by (simp add: account_def)
  then have "\<forall>i\<in>set (known live outs gone). \<exists>p k. i = NewId p k \<and> k < Suc n"
    by (meson less_SucI)
  with assms show ?thesis by (simp add: account_def)
qed

lemma account_new:
  assumes "account es outs n live gone"
  shows "account es outs (Suc n) ((NewId p n, [], False) # live) gone"
proof -
  have "\<forall>i\<in>set (known live outs gone). \<exists>p k. i = NewId p k \<and> k < n"
    and "said (NewId p n) es = []"
    using assms by (simp_all add: account_def)
  moreover from this have "NewId p n \<notin> set (known live outs gone)" by auto
  ultimately show ?thesis
    using account_skip_id [OF assms] by (simp add: account_def known_def)
qed

lemma account_announce:
  assumes "account es outs n ((i, t, False) # live) gone" "item_ident it = i"
  shows "account (es @ [(m, ItemAdded k it)]) outs n ((i, t, True) # live) gone"
  using assms by (simp add: account_def known_def)

lemma account_delta:
  assumes acc: "account es outs n ((i, t, a) # live) gone"
    and p: "delta_of p = Some (i, d)" "done_of p = None" "added_of p = None"
  shows "account (es @ [(m, p)]) outs n ((i, t @ d, a) # live) gone"
proof -
  have u: "said j (es @ [(m, p)]) = said j es @ (if j = i then d else [])" for j using p by simp
  have di: "distinct (i # known live outs gone)" and ti: "said i es = t"
    and kn: "\<exists>q k. i = NewId q k \<and> k < n"
    using acc by (auto simp: account_def known_def)
  have "\<forall>(j, u, b)\<in>set live. said j (es @ [(m, p)]) = u"
  proof (clarify)
    fix j v b
    assume j: "(j, v, b) \<in> set live"
    then have "j \<in> set (known live outs gone)" by (force simp: known_def)
    with di have "j \<noteq> i" by auto
    with acc j show "said j (es @ [(m, p)]) = v" unfolding u by (auto simp: account_def)
  qed
  moreover have "\<forall>it\<in>set outs. item_says it (said (item_ident it) (es @ [(m, p)]))"
  proof
    fix it
    assume it: "it \<in> set outs"
    then have "item_ident it \<in> set (known live outs gone)" by (simp add: known_def)
    with di have "item_ident it \<noteq> i" by auto
    with acc it show "item_says it (said (item_ident it) (es @ [(m, p)]))"
      unfolding u by (simp add: account_def)
  qed
  moreover have "\<forall>q k. n \<le> k \<longrightarrow> said (NewId q k) (es @ [(m, p)]) = []"
    unfolding u using acc kn by (auto simp: account_def)
  moreover have "collect done_of (es @ [(m, p)]) = enumerate 0 outs"
    "collect added_of (es @ [(m, p)]) = collect added_of es"
    using acc p by (simp_all add: account_def)
  ultimately show ?thesis using acc ti p unfolding account_def known_def by simp
qed

lemma account_close:
  assumes acc: "account es outs n ((i, t, True) # live) gone" and it: "item_ident it = i" "item_says it t"
  shows "account (es @ [(m, ItemDone (length outs) it)]) (outs @ [it]) n live gone"
proof -
  have t: "said i es = t" using acc by (simp add: account_def)
  have "enumerate 0 (outs @ [it]) = enumerate 0 outs @ [(length outs, it)]"
    by (simp add: enumerate_append_eq)
  with acc it t show ?thesis by (auto simp: account_def known_def)
qed

lemma account_drop:
  assumes "account es outs n ((i, t, a) # live) gone"
  shows "account es outs n live (if a then i # gone else gone)"
  using assms by (auto simp: account_def known_def)

text \<open>The steps again, with the items in progress in any order.\<close>

lemma account_close_any:
  assumes "account es outs n live gone" "mset live = add_mset (i, t, True) (mset live')"
    and "item_ident it = i" "item_says it t" "k = length outs"
  shows "account (es @ [(m, ItemDone k it)]) (outs @ [it]) n live' gone"
  using account_close [OF account_perm [OF assms(1)] assms(3,4)] assms(2,5) by simp

lemma account_delta_any:
  assumes "account es outs n live gone" "mset live = add_mset (i, t, a) R" "mset live' = add_mset (i, t @ d, a) R"
    and "delta_of p = Some (i, d)" "done_of p = None" "added_of p = None"
  shows "account (es @ [(m, p)]) outs n live' gone"
proof -
  obtain rest where R: "R = mset rest" using ex_mset by metis
  have "account es outs n ((i, t, a) # rest) gone"
    by (rule account_perm [OF assms(1)]) (simp add: assms(2) R)
  from account_delta [OF this assms(4-6)] have "account (es @ [(m, p)]) outs n ((i, t @ d, a) # rest) gone" .
  then show ?thesis by (rule account_perm) (simp add: assms(3) R)
qed

lemma account_announce_any:
  assumes "account es outs n live gone" "mset live = add_mset (i, t, False) R" "mset live' = add_mset (i, t, True) R"
    and "item_ident it = i"
  shows "account (es @ [(m, ItemAdded k it)]) outs n live' gone"
proof -
  obtain rest where R: "R = mset rest" using ex_mset by metis
  have "account es outs n ((i, t, False) # rest) gone"
    by (rule account_perm [OF assms(1)]) (simp add: assms(2) R)
  from account_announce [OF this assms(4)] have "account (es @ [(m, ItemAdded k it)]) outs n ((i, t, True) # rest) gone" .
  then show ?thesis by (rule account_perm) (simp add: assms(3) R)
qed

lemma account_new_any:
  assumes "account es outs n live gone" "mset live' = add_mset (NewId p n, [], False) (mset live)"
  shows "account es outs (Suc n) live' gone"
  by (rule account_perm [OF account_new [OF assms(1)]]) (simp add: assms(2))

section \<open>The contract of a stream state\<close>

definition live_calls :: "(int \<times> tool_call) list \<Rightarrow> live_item list" where
  "live_calls cs = map (\<lambda>(k, c). (tc_item c, tc_args c, tc_open c)) cs"

definition live_open :: "(ident \<times> string) option \<Rightarrow> live_item list" where
  "live_open x = (case x of None \<Rightarrow> [] | Some (i, t) \<Rightarrow> [(i, t, True)])"

definition live :: "stream_state \<Rightarrow> live_item list" where
  "live s = live_open (open_message s) @ live_open (open_reasoning s) @ live_calls (open_calls s)"

definition event_log :: "event list \<Rightarrow> stream_state \<Rightarrow> event list" where
  "event_log sent s = sent @ em_pending (ss_emitter s)"

definition stream_ok :: "nat \<Rightarrow> event list \<Rightarrow> ident list \<Rightarrow> stream_state \<Rightarrow> bool" where
  "stream_ok b sent gone s \<longleftrightarrow>
     account (event_log sent s) (out_items s) (next_id s) (live s) gone \<and>
     out_index s = length (out_items s) \<and> distinct (map fst (open_calls s)) \<and>
     b \<le> em_seq (ss_emitter s) \<and> map fst (event_log sent s) = [Suc b..<Suc (em_seq (ss_emitter s))]"

lemma emit_sel [simp]:
  "out_items (emit p s) = out_items s" "out_index (emit p s) = out_index s"
  "open_message (emit p s) = open_message s" "open_reasoning (emit p s) = open_reasoning s"
  "open_calls (emit p s) = open_calls s" "next_id (emit p s) = next_id s"
  "assistant_phase (emit p s) = assistant_phase s" "shown_phase (emit p s) = shown_phase s"
  "em_seq (ss_emitter (emit p s)) = Suc (em_seq (ss_emitter s))"
  "em_pending (ss_emitter (emit p s)) = em_pending (ss_emitter s) @ [(Suc (em_seq (ss_emitter s)), p)]"
  by (simp_all add: emit_def make_event_def next_sequence_def shown_phase_def)

lemma event_log_emit [simp]:
  "event_log sent (emit p s) = event_log sent s @ [(Suc (em_seq (ss_emitter s)), p)]"
  by (simp add: event_log_def)

lemma live_open_simps [simp]:
  "live_open None = []" "live_open (Some (i, t)) = [(i, t, True)]"
  by (simp_all add: live_open_def)

lemma live_calls_simps [simp]:
  "live_calls [] = []" "live_calls (kc # cs) = (tc_item (snd kc), tc_args (snd kc), tc_open (snd kc)) # live_calls cs"
  "live_calls (cs @ cs') = live_calls cs @ live_calls cs'"
  by (simp_all add: live_calls_def split: prod.split)

text \<open>How a step shows in the contract: the account of the new log, and the rest by the fields.\<close>

lemma stream_okI:
  assumes "stream_ok b sent gone s"
    and "account (event_log sent s') (out_items s') (next_id s') (live s') gone'"
    and "out_index s' = length (out_items s')" "distinct (map fst (open_calls s'))"
    and "em_seq (ss_emitter s') = em_seq (ss_emitter s) + length ps"
    and "event_log sent s' = event_log sent s @ enumerate (Suc (em_seq (ss_emitter s))) ps"
  shows "stream_ok b sent gone' s'"
proof -
  let ?n = "em_seq (ss_emitter s)"
  have "map fst (event_log sent s') = [Suc b..<Suc ?n] @ [Suc ?n..<Suc ?n + length ps]"
    using assms(1,6) by (simp add: stream_ok_def)
  also have "\<dots> = [Suc b..<Suc ?n + length ps]"
    using assms(1) upt_add_eq_append [of "Suc b" "Suc ?n" "length ps"] by (simp add: stream_ok_def)
  finally show ?thesis using assms by (simp add: stream_ok_def)
qed

lemma stream_okD:
  assumes "stream_ok b sent gone s"
  shows "account (event_log sent s) (out_items s) (next_id s) (live s) gone"
    "out_index s = length (out_items s)" "distinct (map fst (open_calls s))"
  using assms by (simp_all add: stream_ok_def)

lemma emit_ok:
  assumes "stream_ok b sent gone s" "delta_of p = None" "done_of p = None" "added_of p = None"
  shows "stream_ok b sent gone (emit p s)"
  by (rule stream_okI [OF assms(1), where ps = "[p]"])
    (use account_neutral [OF stream_okD(1) [OF assms(1)] assms(2-4)] stream_okD [OF assms(1)] in
      \<open>simp_all add: live_def\<close>)

lemma finish_reasoning_ok:
  assumes "stream_ok b sent gone s"
  shows "stream_ok b sent gone (finish_reasoning s)"
proof (cases "open_reasoning s")
  case None
  with assms show ?thesis by (simp add: finish_reasoning_def)
next
  case (Some it)
  obtain i t where it: "it = (i, t)" by (cases it)
  let ?s1 = "if t = [] then s else emit (ReasoningDone i (out_index s) t) s"
  let ?s2 = "(close_item (ReasoningItem i (Some t)) ?s1)\<lparr>open_reasoning := None\<rparr>"
  have ok: "stream_ok b sent gone ?s1" using assms by (simp add: emit_ok)
  have r: "open_reasoning ?s1 = Some (i, t)" using Some it by simp
  have "account (event_log sent ?s2) (out_items ?s2) (next_id ?s2) (live ?s2) gone"
    using account_close_any [OF stream_okD(1) [OF ok], of i t "live ?s2" "ReasoningItem i (Some t)"]
      r stream_okD(2) [OF ok] by (simp add: close_item_def live_def event_log_def)
  then have "stream_ok b sent gone ?s2"
    by (rule stream_okI [OF ok _ _ _, where ps = "[ItemDone (out_index ?s1) (ReasoningItem i (Some t))]"])
      (use stream_okD [OF ok] in \<open>simp_all add: close_item_def event_log_def\<close>)
  then show ?thesis using Some it by (simp add: finish_reasoning_def)
qed

lemma begin_reasoning_ok:
  assumes "stream_ok b sent gone s"
  shows "stream_ok b sent gone (begin_reasoning s) \<and> open_reasoning (begin_reasoning s) \<noteq> None"
proof (cases "open_reasoning s")
  case (Some it)
  with assms show ?thesis by (simp add: begin_reasoning_def)
next
  case None
  let ?i = "NewId ''rs'' (next_id s)" and ?s1 = "s\<lparr>next_id := next_id s + 1\<rparr>"
  let ?s2 = "(emit (ItemAdded (out_index s) (ReasoningItem ?i None)) ?s1)\<lparr>open_reasoning := Some (?i, [])\<rparr>"
  have "account (event_log sent s) (out_items s) (Suc (next_id s)) ((?i, [], False) # live s) gone"
    by (rule account_new [OF stream_okD(1) [OF assms]])
  from account_announce [OF this, of "ReasoningItem ?i None"]
  have "account (event_log sent ?s2) (out_items s) (Suc (next_id s)) ((?i, [], True) # live s) gone"
    by (simp add: event_log_def)
  from account_perm [OF this, of "live ?s2"]
  have "account (event_log sent ?s2) (out_items ?s2) (next_id ?s2) (live ?s2) gone"
    by (simp add: None live_def)
  then have "stream_ok b sent gone ?s2"
    by (rule stream_okI [OF assms _ _ _, where ps = "[ItemAdded (out_index s) (ReasoningItem ?i None)]"])
      (use stream_okD [OF assms] in \<open>simp_all add: event_log_def\<close>)
  then show ?thesis by (simp add: begin_reasoning_def None new_id_def)
qed

lemma add_reasoning_ok:
  assumes "stream_ok b sent gone s"
  shows "stream_ok b sent gone (add_reasoning_delta d s)"
proof (cases "d = []")
  case False
  let ?s = "begin_reasoning s"
  have ok: "stream_ok b sent gone ?s" and "open_reasoning ?s \<noteq> None" using begin_reasoning_ok [OF assms] by simp_all
  then obtain i t where r: "open_reasoning ?s = Some (i, t)" by auto
  let ?s1 = "?s\<lparr>open_reasoning := Some (i, t @ d), reasoning_tokens := reasoning_tokens ?s + max 1 (length d div 4)\<rparr>"
  let ?p = "ReasoningDelta i (out_index ?s) d"
  have "account (event_log sent (emit ?p ?s1)) (out_items (emit ?p ?s1)) (next_id (emit ?p ?s1)) (live (emit ?p ?s1)) gone"
    using account_delta_any [OF stream_okD(1) [OF ok], of i t True
        "mset (live_open (open_message ?s) @ live_calls (open_calls ?s))" "live (emit ?p ?s1)" d ?p]
      r by (simp add: live_def event_log_def)
  then have "stream_ok b sent gone (emit ?p ?s1)"
    by (rule stream_okI [OF ok _ _ _, where ps = "[?p]"])
      (use stream_okD [OF ok] in \<open>simp_all add: event_log_def\<close>)
  with False r show ?thesis by (simp add: add_reasoning_delta_def Let_def)
qed (use assms in \<open>simp add: add_reasoning_delta_def\<close>)

lemma begin_message_ok:
  assumes "stream_ok b sent gone s" "open_message s = None"
  shows "stream_ok b sent gone (begin_message s) \<and> open_message (begin_message s) \<noteq> None"
proof -
  let ?i = "NewId ''msg'' (next_id s)" and ?s1 = "s\<lparr>next_id := next_id s + 1\<rparr>"
  let ?it = "MessageItem ?i (shown_phase ?s1) None"
  let ?s2 = "(emit (PartAdded ?i (out_index s)) (emit (ItemAdded (out_index s) ?it) ?s1))\<lparr>open_message := Some (?i, [])\<rparr>"
  have "account (event_log sent s) (out_items s) (Suc (next_id s)) ((?i, [], False) # live s) gone"
    by (rule account_new [OF stream_okD(1) [OF assms(1)]])
  from account_neutral [OF account_announce [OF this, of ?it], of "PartAdded ?i (out_index s)"]
  have "account (event_log sent ?s2) (out_items ?s2) (next_id ?s2) (live ?s2) gone"
    by (simp add: assms(2) live_def event_log_def)
  then have "stream_ok b sent gone ?s2"
    by (rule stream_okI [OF assms(1) _ _ _, where ps = "[ItemAdded (out_index s) ?it, PartAdded ?i (out_index s)]"])
      (use stream_okD [OF assms(1)] in \<open>simp_all add: event_log_def\<close>)
  then show ?thesis by (simp add: begin_message_def new_id_def Let_def)
qed

lemma finish_reasoning_sel [simp]:
  "open_message (finish_reasoning s) = open_message s" "open_calls (finish_reasoning s) = open_calls s"
  by (simp_all add: finish_reasoning_def close_item_def Let_def split: option.split prod.split)

lemma add_text_ok:
  assumes "stream_ok b sent gone s"
  shows "stream_ok b sent gone (add_text_delta d s)"
proof (cases "d = []")
  case False
  let ?s = "if open_message s = None then begin_message (finish_reasoning s) else s"
  have ok: "stream_ok b sent gone ?s" and "open_message ?s \<noteq> None"
    using begin_message_ok [OF finish_reasoning_ok [OF assms]] assms by (auto split: if_splits)
  then obtain i t where r: "open_message ?s = Some (i, t)" by (metis not_None_eq surj_pair)
  let ?s1 = "?s\<lparr>open_message := Some (i, t @ d)\<rparr>"
  let ?p = "TextDelta i (out_index ?s) d"
  have "account (event_log sent (emit ?p ?s1)) (out_items (emit ?p ?s1)) (next_id (emit ?p ?s1)) (live (emit ?p ?s1)) gone"
    using account_delta_any [OF stream_okD(1) [OF ok], of i t True
        "mset (live_open (open_reasoning ?s) @ live_calls (open_calls ?s))" "live (emit ?p ?s1)" d ?p]
      r by (simp add: live_def event_log_def)
  then have "stream_ok b sent gone (emit ?p ?s1)"
    by (rule stream_okI [OF ok _ _ _, where ps = "[?p]"])
      (use stream_okD [OF ok] in \<open>simp_all add: event_log_def\<close>)
  with False r show ?thesis by (simp add: add_text_delta_def Let_def)
qed (use assms in \<open>simp add: add_text_delta_def\<close>)

lemma finish_message_ok:
  assumes "stream_ok b sent gone s"
  shows "stream_ok b sent gone (finish_message s)"
proof (cases "open_message s")
  case None
  with assms show ?thesis by (simp add: finish_message_def)
next
  case (Some it)
  obtain i t where it: "it = (i, t)" by (cases it)
  let ?s1 = "emit (PartDone i (out_index s) t) (emit (TextDone i (out_index s) t) s)"
  let ?m = "MessageItem i (shown_phase s) (Some t)"
  let ?s2 = "(close_item ?m ?s1)\<lparr>open_message := None\<rparr>"
  have ok: "stream_ok b sent gone ?s1" using assms by (simp add: emit_ok)
  have "account (event_log sent ?s2) (out_items ?s2) (next_id ?s2) (live ?s2) gone"
    using account_close_any [OF stream_okD(1) [OF ok], of i t "live ?s2" ?m]
      Some it stream_okD(2) [OF ok] by (simp add: close_item_def live_def event_log_def)
  then have "stream_ok b sent gone ?s2"
    by (rule stream_okI [OF ok _ _ _, where ps = "[ItemDone (out_index ?s1) ?m]"])
      (use stream_okD [OF ok] in \<open>simp_all add: close_item_def event_log_def\<close>)
  then show ?thesis using Some it by (simp add: finish_message_def Let_def)
qed

text \<open>A call in the table, and the table with that call replaced.\<close>

definition call_live :: "tool_call \<Rightarrow> live_item" where
  "call_live c = (tc_item c, tc_args c, tc_open c)"

lemma live_calls_eq: "live_calls cs = map (\<lambda>x. call_live (snd x)) cs"
  by (simp add: live_calls_def call_live_def split_def)

lemma live_calls_update:
  assumes "map_of cs k = Some c"
  obtains R where "mset (live_calls cs) = add_mset (call_live c) R"
    "\<And>c'. mset (live_calls (AList.update k c' cs)) = add_mset (call_live c') R"
  using assms
proof (induction cs arbitrary: thesis)
  case (Cons x cs)
  show ?case
  proof (cases "fst x = k")
    case True
    then have "snd x = c" using Cons.prems(2) by (cases x) simp
    with True show ?thesis
      by (intro Cons.prems(1) [of "mset (live_calls cs)"]) (cases x; simp add: live_calls_eq)+
  next
    case False
    then have "map_of cs k = Some c" using Cons.prems(2) by (cases x) simp
    from Cons.IH [OF _ this] obtain R where "mset (live_calls cs) = add_mset (call_live c) R"
      "\<And>c'. mset (live_calls (AList.update k c' cs)) = add_mset (call_live c') R" by blast
    with False show ?thesis
      by (intro Cons.prems(1) [of "add_mset (call_live (snd x)) R"]) (cases x; simp add: live_calls_eq)+
  qed
qed simp

lemma call_ident_ok:
  assumes "stream_ok b sent gone s" "call_ident tc s = (i, s')"
  shows "stream_ok b sent gone s' \<and> open_calls s' = open_calls s"
proof -
  have "stream_ok b sent gone (s\<lparr>next_id := Suc (next_id s)\<rparr>)"
    by (rule stream_okI [OF assms(1), where ps = "[]"])
      (use account_skip_id [OF stream_okD(1) [OF assms(1)]] stream_okD [OF assms(1)] in
        \<open>simp_all add: live_def event_log_def\<close>)
  with assms show ?thesis by (auto simp: call_ident_def new_id_def split: option.splits if_splits)
qed

lemma find_call_ok:
  assumes "stream_ok b sent gone s" "find_call k tc s = (c, s')"
  shows "stream_ok b sent gone s' \<and> map_of (open_calls s') k = Some c"
proof (cases "map_of (open_calls s) k")
  case (Some x)
  with assms show ?thesis by (simp add: find_call_def)
next
  case None
  let ?i = "NewId ''fc'' (next_id s)" and ?s1 = "s\<lparr>next_id := next_id s + 1\<rparr>"
  obtain cid s2 where cid: "call_ident tc ?s1 = (cid, s2)" by fastforce
  let ?c = "\<lparr>tc_item = ?i, tc_call = cid, tc_name = [], tc_args = [], tc_open = False\<rparr>"
  let ?mid = "?s1\<lparr>open_calls := open_calls s @ [(k, ?c)]\<rparr>"
  have "account (event_log sent s) (out_items s) (Suc (next_id s)) (live ?mid) gone"
    by (rule account_new_any [OF stream_okD(1) [OF assms(1)]])
      (simp add: live_def)
  moreover have "k \<notin> fst ` set (open_calls s)" using None by (simp add: map_of_eq_None_iff)
  ultimately have ok: "stream_ok b sent gone ?mid"
    by (intro stream_okI [OF assms(1), where ps = "[]"])
      (use stream_okD [OF assms(1)] in \<open>simp_all add: event_log_def\<close>)
  have same: "call_ident tc ?mid = (cid, s2\<lparr>open_calls := open_calls s2 @ [(k, ?c)]\<rparr>)"
    using cid by (auto simp: call_ident_def new_id_def split: option.splits if_splits)
  have "open_calls s2 = open_calls s"
    using cid by (auto simp: call_ident_def new_id_def split: option.splits if_splits)
  moreover have "c = ?c" "s' = s2\<lparr>open_calls := open_calls s2 @ [(k, ?c)]\<rparr>"
    using assms(2) None cid by (auto simp: find_call_def new_id_def Let_def)
  ultimately show ?thesis
    using call_ident_ok [OF ok same] None by (simp add: map_add_Some_iff)
qed

lemma add_tool_call_ok:
  assumes "stream_ok b sent gone s0"
  shows "stream_ok b sent gone (add_tool_call_delta k tc s0)"
proof -
  obtain c s where f: "find_call k tc (finish_reasoning s0) = (c, s)" by fastforce
  have ok: "stream_ok b sent gone s" and m: "map_of (open_calls s) k = Some c"
    using find_call_ok [OF finish_reasoning_ok [OF assms] f] by simp_all
  obtain R where R: "mset (live_calls (open_calls s)) = add_mset (call_live c) R"
    "\<And>c'. mset (live_calls (AList.update k c' (open_calls s))) = add_mset (call_live c') R"
    using live_calls_update [OF m] by blast
  define others where "others = mset (live_open (open_message s)) + mset (live_open (open_reasoning s)) + R"
  define upd where "upd c' s' = s'\<lparr>open_calls := AList.update k c' (open_calls s)\<rparr>" for c' :: tool_call and s' :: stream_state
  have live_upd: "mset (live (upd c' s')) = add_mset (call_live c') others"
    if "open_message s' = open_message s" "open_reasoning s' = open_reasoning s" for c' s'
    using that by (simp add: live_def upd_def R(2) others_def)
  have base: "mset (live s) = add_mset (call_live c) others" by (simp add: live_def R(1) others_def)
  define c1 where "c1 = (if nonempty (td_name tc) \<and> tc_name c = [] then c\<lparr>tc_name := the (td_name tc)\<rparr> else c)"
  have c1: "call_live c1 = call_live c" by (simp add: c1_def call_live_def)
  obtain c2 s2 where o: "open_call tc c1 s = (c2, s2)" by fastforce
  obtain c3 s3 where x: "extend_call tc c2 s2 = (c3, s3)" by fastforce
  have ok1: "stream_ok b sent gone (upd c1 s)"
    by (rule stream_okI [OF ok, where ps = "[]"])
      (use account_perm [OF stream_okD(1) [OF ok], of "live (upd c1 s)"] base live_upd [of s c1] c1
        stream_okD [OF ok] in \<open>simp_all add: upd_def event_log_def distinct_update\<close>)
  have ok2: "stream_ok b sent gone (upd c2 s2)"
  proof (cases "(nonempty (td_name tc) \<or> td_args tc \<noteq> None) \<and> \<not> tc_open c1")
    case False
    with o ok1 show ?thesis by (auto simp: open_call_def)
  next
    case True
    let ?it = "CallItem (tc_item c1) (tc_call c1) (shown_name c1) [] False"
    let ?p = "ItemAdded (out_index s) ?it"
    have c2: "c2 = c1\<lparr>tc_open := True\<rparr>" "s2 = emit ?p s" using o True by (auto simp: open_call_def)
    have l2: "mset (live (upd c2 s2)) = add_mset (tc_item c1, tc_args c1, True) others"
      using live_upd [of s2 c2] c2 by (simp add: call_live_def)
    have l1: "mset (live (upd c1 s)) = add_mset (tc_item c1, tc_args c1, False) others"
      using live_upd [of s c1] True by (simp add: call_live_def)
    have "account (event_log sent (upd c1 s) @ [(Suc (em_seq (ss_emitter s)), ?p)]) (out_items (upd c1 s))
        (next_id (upd c1 s)) (live (upd c2 s2)) gone"
      by (rule account_announce_any [OF stream_okD(1) [OF ok1] l1 l2]) simp
    then show ?thesis
      by (intro stream_okI [OF ok1, where ps = "[?p]"])
        (use stream_okD(2) [OF ok1] stream_okD(3) [OF ok] in \<open>simp_all add: c2 upd_def event_log_def distinct_update\<close>)
  qed
  have ok3: "stream_ok b sent gone (upd c3 s3)"
  proof (cases "nonempty (td_args tc)")
    case False
    with x ok2 show ?thesis by (auto simp: extend_call_def nonempty_def split: option.splits if_splits)
  next
    case True
    then obtain d where d: "td_args tc = Some d" "d \<noteq> []" by (auto simp: nonempty_def split: option.splits)
    let ?p = "ArgsDelta (tc_item c2) (out_index s2) d"
    have c3: "c3 = c2\<lparr>tc_args := tc_args c2 @ d\<rparr>" "s3 = emit ?p s2" using x d by (auto simp: extend_call_def)
    have same: "open_message s2 = open_message s" "open_reasoning s2 = open_reasoning s"
      using o by (auto simp: open_call_def split: if_splits)
    have l2: "mset (live (upd c2 s2)) = add_mset (tc_item c2, tc_args c2, tc_open c2) others"
      using live_upd [OF same, of c2] by (simp add: call_live_def)
    have l3: "mset (live (upd c3 s3)) = add_mset (tc_item c2, tc_args c2 @ d, tc_open c2) others"
      using live_upd [of s3 c3] same c3 by (simp add: call_live_def)
    have "account (event_log sent (upd c2 s2) @ [(Suc (em_seq (ss_emitter s2)), ?p)]) (out_items (upd c2 s2))
        (next_id (upd c2 s2)) (live (upd c3 s3)) gone"
      by (rule account_delta_any [OF stream_okD(1) [OF ok2] l2 l3]) simp_all
    then show ?thesis
      by (intro stream_okI [OF ok2, where ps = "[?p]"])
        (use stream_okD(2) [OF ok2] stream_okD(3) [OF ok] in \<open>simp_all add: c3 upd_def event_log_def distinct_update\<close>)
  qed
  have "open_calls s3 = open_calls s"
    using o x by (auto simp: open_call_def extend_call_def split: option.splits if_splits)
  then have "add_tool_call_delta k tc s0 = upd c3 s3"
    using f o x by (simp add: add_tool_call_delta_def c1_def [symmetric] upd_def)
  with ok3 show ?thesis by simp
qed

lemma emit_open_calls: "emit p (s\<lparr>open_calls := x\<rparr>) = (emit p s)\<lparr>open_calls := x\<rparr>"
  by (simp add: emit_def)

lemma finish_call_open_calls: "finish_call c (s\<lparr>open_calls := x\<rparr>) = (finish_call c s)\<lparr>open_calls := x\<rparr>"
  by (simp add: finish_call_def close_item_def emit_def)

lemma finish_call_ok:
  assumes "stream_ok b sent gone (s\<lparr>open_calls := kc # cs\<rparr>)"
  shows "stream_ok b sent gone (finish_call (snd kc) (s\<lparr>open_calls := cs\<rparr>))"
proof -
  let ?s = "s\<lparr>open_calls := kc # cs\<rparr>" and ?c = "snd kc"
  define others where "others = live_open (open_message s) @ live_open (open_reasoning s) @ live_calls cs"
  have l: "mset (live ?s) = add_mset (call_live ?c) (mset others)"
    by (simp add: live_def others_def call_live_def)
  note ok = stream_okD [OF assms]
  show ?thesis
  proof (cases "tc_open ?c")
    case False
    have "account (event_log sent ?s) (out_items ?s) (next_id ?s) (call_live ?c # others) gone"
      by (rule account_perm [OF ok(1)]) (simp add: l)
    from account_drop [OF this [unfolded call_live_def]] False
    have "account (event_log sent ?s) (out_items ?s) (next_id ?s) others gone" by simp
    with False have "stream_ok b sent gone (s\<lparr>open_calls := cs\<rparr>)"
      by (intro stream_okI [OF assms, where ps = "[]"]) (use ok in \<open>simp_all add: live_def others_def event_log_def\<close>)
    with False show ?thesis by (simp add: finish_call_def)
  next
    case True
    let ?p = "ArgsDone (tc_item ?c) (out_index s) (tc_args ?c)"
    let ?s1 = "emit ?p ?s" and ?s2 = "close_item (call_item ?c) (emit ?p (s\<lparr>open_calls := cs\<rparr>))"
    have ok1: "stream_ok b sent gone ?s1" by (rule emit_ok [OF assms]) simp_all
    have "account (event_log sent ?s1 @ [(Suc (em_seq (ss_emitter ?s1)), ItemDone (out_index s) (call_item ?c))])
        (out_items ?s1 @ [call_item ?c]) (next_id ?s1) (live ?s2) gone"
      by (rule account_close_any [OF stream_okD(1) [OF ok1], of "tc_item ?c" "tc_args ?c"])
        (use True ok(2) in \<open>simp_all add: live_def call_item_def close_item_def\<close>)
    then have "stream_ok b sent gone ?s2"
      by (intro stream_okI [OF ok1, where ps = "[ItemDone (out_index s) (call_item ?c)]"])
        (use ok in \<open>simp_all add: close_item_def event_log_def\<close>)
    with True show ?thesis by (simp add: finish_call_def)
  qed
qed

lemma finish_calls_ok:
  assumes "stream_ok b sent gone s"
  shows "stream_ok b sent gone (finish_calls s)"
proof -
  have fin: "stream_ok b sent gone ((fold finish_call (map snd cs) s)\<lparr>open_calls := []\<rparr>)"
    if "stream_ok b sent gone (s\<lparr>open_calls := cs\<rparr>)" for cs s
    using that
  proof (induction cs arbitrary: s)
    case (Cons kc cs)
    have "stream_ok b sent gone ((finish_call (snd kc) s)\<lparr>open_calls := cs\<rparr>)"
      using finish_call_ok [OF Cons.prems] by (simp add: finish_call_open_calls)
    from Cons.IH [OF this] show ?case by simp
  qed simp
  from fin [where cs = "open_calls s" and s = s] assms show ?thesis by (simp add: finish_calls_def)
qed

text \<open>Suppressing calls: the announced ones among them are gone.\<close>

lemma account_suppress:
  assumes "account es outs n (X @ live_calls cs) gone"
  shows "\<exists>gone'. account es outs n (X @ live_calls (filter P cs)) gone' \<and> (list_all P cs \<longrightarrow> gone' = gone)"
  using assms
proof (induction cs arbitrary: X gone)
  case (Cons kc cs)
  show ?case
  proof (cases "P kc")
    case True
    have "account es outs n ((X @ [call_live (snd kc)]) @ live_calls cs) gone"
      using Cons.prems by (simp add: call_live_def)
    from Cons.IH [OF this] True show ?thesis by (auto simp: call_live_def)
  next
    case False
    have "account es outs n (call_live (snd kc) # X @ live_calls cs) gone"
      by (rule account_perm [OF Cons.prems]) (simp add: call_live_def)
    from account_drop [OF this [unfolded call_live_def]] Cons.IH False show ?thesis
      by simp blast
  qed
qed auto

lemma suppress_ok:
  assumes "stream_ok b sent gone s"
  shows "\<exists>gone'. stream_ok b sent gone' (s\<lparr>open_calls := filter P (open_calls s)\<rparr>)"
proof -
  let ?X = "live_open (open_message s) @ live_open (open_reasoning s)"
  obtain gone' where "account (event_log sent s) (out_items s) (next_id s)
      (?X @ live_calls (filter P (open_calls s))) gone'"
    using account_suppress [of "event_log sent s" "out_items s" "next_id s" ?X "open_calls s" gone P]
      stream_okD(1) [OF assms] by (auto simp: live_def)
  then have "stream_ok b sent gone' (s\<lparr>open_calls := filter P (open_calls s)\<rparr>)"
    by (intro stream_okI [OF assms, where ps = "[]"])
      (use stream_okD [OF assms] in \<open>simp_all add: live_def event_log_def distinct_map_filter\<close>)
  then show ?thesis by blast
qed

definition permits :: "string list option \<Rightarrow> (int \<times> tool_call) list \<Rightarrow> bool" where
  "permits allowed cs \<longleftrightarrow> (case allowed of None \<Rightarrow> True
     | Some ns \<Rightarrow> list_all (\<lambda>(i, c). shown_name c \<in> set ns) cs)"

lemma apply_allowed_ok:
  assumes "stream_ok b sent gone s"
  shows "\<exists>gone'. stream_ok b sent gone' (snd (apply_allowed_tools allowed s))
    \<and> (permits allowed (open_calls s) \<longrightarrow> gone' = gone)"
proof (cases allowed)
  case None
  with assms show ?thesis by (auto simp: apply_allowed_tools_def permits_def)
next
  case (Some ns)
  show ?thesis
  proof (cases "list_all (\<lambda>(i, c). shown_name c \<in> set ns) (open_calls s)")
    case True
    with Some assms show ?thesis by (auto simp: apply_allowed_tools_def permits_def)
  next
    case False
    obtain gone' where "stream_ok b sent gone'
        (s\<lparr>open_calls := filter (\<lambda>(i, c). shown_name c \<in> set ns) (open_calls s)\<rparr>)"
      using suppress_ok [OF assms] by blast
    from add_text_ok [OF this] Some False show ?thesis by (auto simp: apply_allowed_tools_def Let_def permits_def)
  qed
qed

text \<open>Closing out leaves nothing in progress.\<close>

lemma finish_calls_sel [simp]:
  "open_calls (finish_calls s) = []" "open_reasoning (finish_calls s) = open_reasoning s"
  "open_message (finish_calls s) = open_message s"
proof -
  have "open_reasoning (fold finish_call cs s) = open_reasoning s \<and> open_message (fold finish_call cs s) = open_message s" for cs
    by (induction cs arbitrary: s) (auto simp: finish_call_def close_item_def)
  then show "open_calls (finish_calls s) = []" "open_reasoning (finish_calls s) = open_reasoning s"
    "open_message (finish_calls s) = open_message s"
    by (simp_all add: finish_calls_def)
qed

lemma finish_stream_sel [simp]:
  "open_reasoning (finish_reasoning s) = None" "open_message (finish_message s) = None"
  "open_reasoning (finish_message s) = open_reasoning s" "open_calls (finish_message s) = open_calls s"
  by (simp_all add: finish_reasoning_def finish_message_def close_item_def Let_def split: option.split prod.split)

lemma close_out_ok:
  assumes "stream_ok b sent gone s"
  shows "live (close_out allowed s) = [] \<and> (\<exists>gone'. stream_ok b sent gone' (close_out allowed s)
    \<and> (permits allowed (open_calls s) \<longrightarrow> gone' = gone))"
proof -
  let ?s = "snd (apply_allowed_tools allowed s)"
  obtain gone' where g: "stream_ok b sent gone' ?s" "permits allowed (open_calls s) \<longrightarrow> gone' = gone"
    using apply_allowed_ok [OF assms] by blast
  have "stream_ok b sent gone' (close_out allowed s)"
    unfolding close_out_def
    by (intro finish_message_ok finish_calls_ok finish_reasoning_ok g(1))
  moreover have "live (close_out allowed s) = []" by (simp add: close_out_def live_def)
  ultimately show ?thesis using g(2) by blast
qed

section \<open>Whole streams\<close>

lemma drain_log [simp]:
  "event_log (sent @ em_pending (ss_emitter s)) (s\<lparr>ss_emitter := (ss_emitter s)\<lparr>em_pending := []\<rparr>\<rparr>) = event_log sent s"
  by (simp add: event_log_def)

lemma exec_op_ok:
  assumes "stream_ok b sent gone s" "exec_op p s = (es, s')"
  shows "stream_ok b (sent @ es) gone s'"
proof (cases p)
  case OpDrain
  with assms show ?thesis by (auto simp: drain_events_def stream_ok_def live_def)
next
  case (OpSummary d)
  with assms show ?thesis by (auto simp: emit_summary_def intro!: emit_ok)
qed (use assms in \<open>auto simp: add_text_ok add_reasoning_ok finish_reasoning_ok add_tool_call_ok\<close>)

lemma run_stream_ok:
  "stream_ok b sent gone s \<Longrightarrow> run_stream ps s = (es, s') \<Longrightarrow> stream_ok b (sent @ es) gone s'"
proof (induction ps arbitrary: sent s es)
  case (Cons p ps)
  obtain fs s1 where f: "exec_op p s = (fs, s1)" by fastforce
  obtain gs s2 where g: "run_stream ps s1 = (gs, s2)" by fastforce
  from Cons.prems(2) f g have e: "es = fs @ gs" "s2 = s'" by simp_all
  have "stream_ok b ((sent @ fs) @ gs) gone s'"
    using Cons.IH [OF exec_op_ok [OF Cons.prems(1) f]] g e(2) by simp
  with e show ?case by simp
qed simp

lemma new_stream_ok: "em_pending e = [] \<Longrightarrow> stream_ok (em_seq e) [] [] (new_stream e phase)"
  by (simp add: stream_ok_def new_stream_def event_log_def live_def account_start)

lemma whole_stream_ok:
  assumes "em_pending e = []" "whole_stream e phase ps allowed = (es, s)"
  obtains gone n where "account es (out_items s) n [] gone" "allowed = None \<Longrightarrow> gone = []"
    "map fst es = [Suc (em_seq e)..<Suc (em_seq e + length es)]"
proof -
  obtain fs s1 where f: "run_stream ps (new_stream e phase) = (fs, s1)" by fastforce
  let ?s2 = "close_out allowed s1"
  have "stream_ok (em_seq e) fs [] s1"
    using run_stream_ok [OF new_stream_ok [OF assms(1)] f] by simp
  from close_out_ok [OF this, of allowed] obtain gone where g: "live ?s2 = []"
    "stream_ok (em_seq e) fs gone ?s2" "permits allowed (open_calls s1) \<longrightarrow> gone = []" by blast
  have es: "es = event_log fs ?s2" and s: "out_items s = out_items ?s2"
    using assms(2) f by (auto simp: whole_stream_def drain_events_def event_log_def Let_def)
  have n: "map fst es = [Suc (em_seq e)..<Suc (em_seq (ss_emitter ?s2))]" "em_seq e \<le> em_seq (ss_emitter ?s2)"
    using g(2) es by (simp_all add: stream_ok_def)
  then have "length es = em_seq (ss_emitter ?s2) - em_seq e" by (metis length_map length_upt diff_Suc_Suc)
  with n have "map fst es = [Suc (em_seq e)..<Suc (em_seq e + length es)]" by simp
  moreover have "account es (out_items s) (next_id ?s2) [] gone"
    using stream_okD(1) [OF g(2)] g(1) es s by simp
  moreover have "allowed = None \<Longrightarrow> gone = []" using g(3) by (simp add: permits_def)
  ultimately show ?thesis using that by blast
qed

text \<open>
  What a client assembles from the stream is what the response stores. Whatever deltas
  come in whatever order, and however the frames are sent, the text of every item of the final
  output is the concatenation of the text, reasoning or argument deltas sent under its id
  (arguments that are empty are stored as an empty object).
\<close>

theorem deltas_add_up:
  assumes "em_pending e = []" "whole_stream e phase ps allowed = (es, s)" "it \<in> set (out_items s)"
  shows "item_says it (said (item_ident it) es)"
  using whole_stream_ok [OF assms(1,2)] assms(3) by (metis account_def)

text \<open>
  The events of a stream are numbered consecutively, the completed items are exactly the
  final output in its order and under its indices, no two items share an id, and without a
  restriction on tools the items announced are, each once, the items completed.
\<close>

theorem stream_well_formed:
  assumes "em_pending e = []" "whole_stream e phase ps allowed = (es, s)"
  shows "map fst es = [Suc (em_seq e)..<Suc (em_seq e + length es)]
    \<and> collect done_of es = enumerate 0 (out_items s)
    \<and> distinct (map item_ident (out_items s))
    \<and> (allowed = None \<longrightarrow> mset (collect added_of es) = mset (map item_ident (out_items s)))"
  using whole_stream_ok [OF assms]
  by (rule) (auto simp: account_def known_def)

section \<open>Chunks do not matter\<close>

text \<open>A state without its emitter and its token count: what the final items depend on.\<close>

definition bare :: "stream_state \<Rightarrow> stream_state" where
  "bare s = s\<lparr>ss_emitter := new_emitter, reasoning_tokens := 0\<rparr>"

lemma bare_upd [simp]:
  "bare (emit p s) = bare s" "bare (s\<lparr>ss_emitter := e\<rparr>) = bare s" "bare (s\<lparr>reasoning_tokens := k\<rparr>) = bare s"
  "bare (s\<lparr>out_items := x1\<rparr>) = (bare s)\<lparr>out_items := x1\<rparr>" "bare (s\<lparr>out_index := x2\<rparr>) = (bare s)\<lparr>out_index := x2\<rparr>"
  "bare (s\<lparr>open_message := x3\<rparr>) = (bare s)\<lparr>open_message := x3\<rparr>"
  "bare (s\<lparr>open_reasoning := x4\<rparr>) = (bare s)\<lparr>open_reasoning := x4\<rparr>"
  "bare (s\<lparr>open_calls := x5\<rparr>) = (bare s)\<lparr>open_calls := x5\<rparr>" "bare (s\<lparr>next_id := x6\<rparr>) = (bare s)\<lparr>next_id := x6\<rparr>"
  by (simp_all add: bare_def emit_def)

lemma bare_eqD:
  assumes "bare s = bare s'"
  shows "out_items s = out_items s'" "out_index s = out_index s'" "open_message s = open_message s'"
    "open_reasoning s = open_reasoning s'" "open_calls s = open_calls s'" "next_id s = next_id s'"
    "assistant_phase s = assistant_phase s'" "shown_phase s = shown_phase s'"
proof -
  show "out_items s = out_items s'" "out_index s = out_index s'" "open_message s = open_message s'"
    "open_reasoning s = open_reasoning s'" "open_calls s = open_calls s'" "next_id s = next_id s'"
    and p: "assistant_phase s = assistant_phase s'"
    using arg_cong [OF assms, of out_items] arg_cong [OF assms, of out_index]
      arg_cong [OF assms, of open_message] arg_cong [OF assms, of open_reasoning]
      arg_cong [OF assms, of open_calls] arg_cong [OF assms, of next_id]
      arg_cong [OF assms, of assistant_phase]
    by (simp_all add: bare_def)
  show "shown_phase s = shown_phase s'" by (simp add: shown_phase_def p)
qed

lemma bare_close_item: "bare s = bare s' \<Longrightarrow> bare (close_item it s) = bare (close_item it s')"
  using bare_eqD [of s s'] by (simp add: close_item_def)

lemma bare_finish_reasoning: "bare s = bare s' \<Longrightarrow> bare (finish_reasoning s) = bare (finish_reasoning s')"
  using bare_eqD [of s s']
  by (auto simp: finish_reasoning_def close_item_def Let_def split: option.split)

lemma bare_begin_reasoning: "bare s = bare s' \<Longrightarrow> bare (begin_reasoning s) = bare (begin_reasoning s')"
  using bare_eqD [of s s'] by (auto simp: begin_reasoning_def new_id_def split: option.split)

lemma bare_add_reasoning: "bare s = bare s' \<Longrightarrow> bare (add_reasoning_delta d s) = bare (add_reasoning_delta d s')"
  using bare_begin_reasoning [of s s'] bare_eqD [of "begin_reasoning s" "begin_reasoning s'"]
  by (auto simp: add_reasoning_delta_def Let_def split: option.split)

lemma bare_begin_message: "bare s = bare s' \<Longrightarrow> bare (begin_message s) = bare (begin_message s')"
  using bare_eqD [of s s'] by (simp add: begin_message_def new_id_def Let_def)

lemma bare_add_text:
  assumes "bare s = bare s'"
  shows "bare (add_text_delta d s) = bare (add_text_delta d s')"
proof -
  let ?f = "\<lambda>s. if open_message s = None then begin_message (finish_reasoning s) else s"
  have "bare (?f s) = bare (?f s')"
    using assms bare_eqD(3) [OF assms] bare_begin_message [OF bare_finish_reasoning [OF assms]] by simp
  from this bare_eqD [OF this] show ?thesis
    using assms by (auto simp: add_text_delta_def Let_def split: option.split)
qed

lemma bare_finish_message: "bare s = bare s' \<Longrightarrow> bare (finish_message s) = bare (finish_message s')"
  using bare_eqD [of s s']
  by (auto simp: finish_message_def close_item_def Let_def split: option.split)

lemma bare_find_call:
  assumes "bare s = bare s'"
  shows "fst (find_call k tc s) = fst (find_call k tc s') \<and> bare (snd (find_call k tc s)) = bare (snd (find_call k tc s'))"
  using assms bare_eqD [OF assms]
  by (auto simp: find_call_def new_id_def call_ident_def Let_def split: option.split)

lemma bare_open_call:
  "bare s = bare s' \<Longrightarrow> fst (open_call tc c s) = fst (open_call tc c s') \<and> bare (snd (open_call tc c s)) = bare (snd (open_call tc c s'))"
  by (simp add: open_call_def)

lemma bare_extend_call:
  "bare s = bare s' \<Longrightarrow> fst (extend_call tc c s) = fst (extend_call tc c s') \<and> bare (snd (extend_call tc c s)) = bare (snd (extend_call tc c s'))"
  by (simp add: extend_call_def split: option.split)

text \<open>What a tool call delta does to the call it is about.\<close>

definition merge_call :: "tool_delta \<Rightarrow> tool_call \<Rightarrow> tool_call" where
  "merge_call tc c = c\<lparr>tc_name := (if nonempty (td_name tc) \<and> tc_name c = [] then the (td_name tc) else tc_name c),
     tc_args := tc_args c @ (case td_args tc of None \<Rightarrow> [] | Some d \<Rightarrow> d),
     tc_open := (tc_open c \<or> nonempty (td_name tc) \<or> td_args tc \<noteq> None)\<rparr>"

lemma bare_add_tool_call:
  "bare (add_tool_call_delta k tc s0) =
     (let (c, s) = find_call k tc (finish_reasoning s0)
      in (bare s)\<lparr>open_calls := AList.update k (merge_call tc c) (open_calls s)\<rparr>)"
proof -
  obtain c s where f: "find_call k tc (finish_reasoning s0) = (c, s)" by fastforce
  define c1 where "c1 = (if nonempty (td_name tc) \<and> tc_name c = [] then c\<lparr>tc_name := the (td_name tc)\<rparr> else c)"
  obtain c2 s2 where o: "open_call tc c1 s = (c2, s2)" by fastforce
  obtain c3 s3 where x: "extend_call tc c2 s2 = (c3, s3)" by fastforce
  have "c3 = merge_call tc c" "open_calls s3 = open_calls s" "bare s3 = bare s"
    using o x by (auto simp: c1_def open_call_def extend_call_def merge_call_def split: option.splits if_splits)
  then show ?thesis using f o x by (simp add: add_tool_call_delta_def c1_def [symmetric])
qed

lemma bare_add_tool:
  assumes "bare s = bare s'"
  shows "bare (add_tool_call_delta k tc s) = bare (add_tool_call_delta k tc s')"
  using bare_find_call [OF bare_finish_reasoning [OF assms], of k tc]
    bare_eqD(5) [of "snd (find_call k tc (finish_reasoning s))" "snd (find_call k tc (finish_reasoning s'))"]
  by (simp add: bare_add_tool_call split_beta)

lemma bare_finish_call:
  assumes "bare s = bare s'"
  shows "bare (finish_call c s) = bare (finish_call c s')"
proof (cases "tc_open c")
  case True
  have "bare (emit p s) = bare (emit q s')" for p q using assms by simp
  then have close: "bare (close_item it (emit p s)) = bare (close_item it (emit q s'))" for it p q
    by (rule bare_close_item)
  have f: "finish_call c t = close_item (call_item c) (emit (ArgsDone (tc_item c) (out_index t) (tc_args c)) t)" for t
    using True by (simp add: finish_call_def)
  show ?thesis unfolding f by (rule close)
next
  case False
  with assms show ?thesis by (simp add: finish_call_def)
qed

text \<open>Steps that respect \<open>bare\<close>, folded over a list.\<close>

lemma bare_fold:
  assumes "\<And>x t t'. bare t = bare t' \<Longrightarrow> bare (f x t) = bare (f x t')" "bare s = bare s'"
  shows "bare (fold f xs s) = bare (fold f xs s')"
  using assms(2)
proof (induction xs arbitrary: s s')
  case (Cons x xs)
  from Cons.IH [OF assms(1) [OF Cons.prems]] show ?case by simp
qed simp

lemma bare_finish_calls:
  assumes "bare s = bare s'"
  shows "bare (finish_calls s) = bare (finish_calls s')"
proof -
  have "bare (fold finish_call (map snd (open_calls s)) s) = bare (fold finish_call (map snd (open_calls s)) s')"
    by (rule bare_fold [OF _ assms]) (rule bare_finish_call)
  then show ?thesis using bare_eqD(5) [OF assms] by (simp add: finish_calls_def)
qed

subsection \<open>Two chunks are one\<close>

lemma merge_reasoning:
  "bare (add_reasoning_delta b (add_reasoning_delta a s)) = bare (add_reasoning_delta (a @ b) s)"
  by (auto simp: add_reasoning_delta_def begin_reasoning_def new_id_def Let_def split: option.split prod.split)

lemma merge_text: "bare (add_text_delta b (add_text_delta a s)) = bare (add_text_delta (a @ b) s)"
  by (auto simp: add_text_delta_def begin_message_def new_id_def Let_def split: option.split prod.split)

lemma finish_reasoning_none: "open_reasoning s = None \<Longrightarrow> finish_reasoning s = s"
  by (simp add: finish_reasoning_def)

lemma add_tool_sel:
  "open_reasoning (add_tool_call_delta k tc s) = None"
  "open_message (add_tool_call_delta k tc s) = open_message s"
  by (simp_all add: add_tool_call_delta_def find_call_def new_id_def call_ident_def open_call_def extend_call_def
      finish_reasoning_def close_item_def Let_def split_beta split: option.split)

text \<open>The delta that goes on with the arguments of a call.\<close>

definition more_args :: "string \<Rightarrow> tool_delta" where
  "more_args d = \<lparr>td_id = None, td_name = None, td_args = Some d\<rparr>"

lemma find_call_known:
  "map_of (open_calls s) k = Some c \<Longrightarrow> find_call k tc s = (c, s)"
  by (simp add: find_call_def)

lemma merge_tool:
  fixes x n :: "string option" and a d :: string
  defines "ta \<equiv> \<lparr>td_id = x, td_name = n, td_args = Some a\<rparr>"
    and "tb \<equiv> \<lparr>td_id = x, td_name = n, td_args = Some (a @ d)\<rparr>"
  shows "bare (add_tool_call_delta k (more_args d) (add_tool_call_delta k ta s)) = bare (add_tool_call_delta k tb s)"
proof -
  obtain c s1 where f: "find_call k ta (finish_reasoning s) = (c, s1)" by fastforce
  have "call_ident tb = call_ident ta" by (rule ext) (simp add: call_ident_def ta_def tb_def)
  then have "find_call k tb s2 = find_call k ta s2" for s2 by (simp only: find_call_def)
  with f have f': "find_call k tb (finish_reasoning s) = (c, s1)" by simp
  let ?t = "add_tool_call_delta k ta s"
  have one: "bare ?t = (bare s1)\<lparr>open_calls := AList.update k (merge_call ta c) (open_calls s1)\<rparr>"
    using f by (simp add: bare_add_tool_call)
  from arg_cong [OF this, of open_calls]
  have calls: "open_calls ?t = AList.update k (merge_call ta c) (open_calls s1)"
    by (simp add: bare_def)
  then have "find_call k (more_args d) ?t = (merge_call ta c, ?t)"
    by (intro find_call_known) (simp add: update_conv)
  moreover have "finish_reasoning ?t = ?t" by (rule finish_reasoning_none) (rule add_tool_sel)
  ultimately have "bare (add_tool_call_delta k (more_args d) ?t) =
      (bare ?t)\<lparr>open_calls := AList.update k (merge_call (more_args d) (merge_call ta c)) (open_calls ?t)\<rparr>"
    by (simp add: bare_add_tool_call)
  also have "merge_call (more_args d) (merge_call ta c) = merge_call tb c"
    by (simp add: merge_call_def more_args_def ta_def tb_def nonempty_def)
  also have "AList.update k (merge_call tb c) (open_calls ?t) = AList.update k (merge_call tb c) (open_calls s1)"
    by (simp add: calls)
  finally show ?thesis using f' one by (simp add: bare_add_tool_call)
qed

lemma fold_reasoning: "bare (fold add_reasoning_delta rs s) = bare (add_reasoning_delta (concat rs) s)"
proof (induction rs arbitrary: s)
  case (Cons r rs)
  show ?case using Cons.IH [of "add_reasoning_delta r s"] by (simp add: merge_reasoning)
qed (simp add: add_reasoning_delta_def)

lemma fold_text: "bare (fold add_text_delta ts s) = bare (add_text_delta (concat ts) s)"
proof (induction ts arbitrary: s)
  case (Cons t ts)
  show ?case using Cons.IH [of "add_text_delta t s"] by (simp add: merge_text)
qed (simp add: add_text_delta_def)

lemma fold_args:
  "bare (fold (\<lambda>d. add_tool_call_delta k (more_args d)) ds
      (add_tool_call_delta k \<lparr>td_id = x, td_name = n, td_args = Some a\<rparr> s)) =
   bare (add_tool_call_delta k \<lparr>td_id = x, td_name = n, td_args = Some (a @ concat ds)\<rparr> s)"
proof (induction ds arbitrary: a)
  case (Cons d ds)
  have "bare (fold (\<lambda>d. add_tool_call_delta k (more_args d)) (d # ds)
      (add_tool_call_delta k \<lparr>td_id = x, td_name = n, td_args = Some a\<rparr> s)) =
    bare (fold (\<lambda>d. add_tool_call_delta k (more_args d)) ds
      (add_tool_call_delta k \<lparr>td_id = x, td_name = n, td_args = Some (a @ d)\<rparr> s))"
    unfolding fold_simps by (rule bare_fold [OF _ merge_tool]) (rule bare_add_tool)
  with Cons.IH [of "a @ d"] show ?case by simp
qed simp

subsection \<open>Reasoning that is still open\<close>

text \<open>
  The streamed state may still have its reasoning open where the buffered one has closed it; it
  is closed before anything else is written.
\<close>

definition behind :: "stream_state \<Rightarrow> stream_state \<Rightarrow> bool" where
  "behind S T \<longleftrightarrow> bare (finish_reasoning S) = bare T \<and> (open_message S = None \<or> open_reasoning S = None)"

lemma finish_reasoning_frame:
  "finish_reasoning (s\<lparr>open_calls := cs\<rparr>) = (finish_reasoning s)\<lparr>open_calls := cs\<rparr>"
  by (simp_all add: finish_reasoning_def close_item_def emit_def Let_def split: option.split prod.split)

lemma behindD:
  assumes "behind S T"
  shows "open_calls S = open_calls T" "open_message S = open_message T" "finish_reasoning T = T"
    "open_message S \<noteq> None \<Longrightarrow> bare S = bare T"
proof -
  have b: "bare (finish_reasoning S) = bare T" using assms by (simp add: behind_def)
  show "open_calls S = open_calls T" "open_message S = open_message T"
    using bare_eqD(3,5) [OF b] by (simp_all add: finish_reasoning_frame)
  show "finish_reasoning T = T" using bare_eqD(4) [OF b] by (simp add: finish_reasoning_none)
  show "bare S = bare T" if "open_message S \<noteq> None"
  proof -
    have "open_message S = None \<or> open_reasoning S = None" using assms by (simp add: behind_def)
    then have "open_reasoning S = None" by (rule disjE) (rule notE [OF that], assumption+)
    with b show ?thesis by (simp add: finish_reasoning_none)
  qed
qed

lemma behindI: "bare S = bare T \<Longrightarrow> open_reasoning S = None \<Longrightarrow> behind S T"
  by (simp add: behind_def finish_reasoning_none)

lemma add_text_sel:
  "d \<noteq> [] \<Longrightarrow> open_message s = None \<or> open_reasoning s = None \<Longrightarrow> open_reasoning (add_text_delta d s) = None"
  by (auto simp: add_text_delta_def begin_message_def new_id_def finish_reasoning_def close_item_def emit_def Let_def
      split: option.split prod.split)

lemma add_text_finish:
  "d \<noteq> [] \<Longrightarrow> open_message s = None \<Longrightarrow> add_text_delta d (finish_reasoning s) = add_text_delta d s"
  by (simp add: add_text_delta_def finish_reasoning_none)

lemma behind_text:
  assumes "behind S T"
  shows "behind (add_text_delta d S) (add_text_delta d T)"
proof (cases "d = []")
  case True
  with assms show ?thesis by (simp add: add_text_delta_def)
next
  case False
  have "bare (add_text_delta d S) = bare (add_text_delta d T)"
  proof (cases "open_message S = None")
    case True
    with assms bare_add_text [of "finish_reasoning S" T d] add_text_finish [OF False True] show ?thesis
      by (simp add: behind_def)
  next
    case opened: False
    show ?thesis by (rule bare_add_text) (rule behindD(4) [OF assms opened])
  qed
  moreover have "open_reasoning (add_text_delta d S) = None"
    by (rule add_text_sel [OF False]) (use assms in \<open>simp add: behind_def\<close>)
  ultimately show ?thesis by (rule behindI)
qed

lemma behind_tool:
  assumes "behind S T"
  shows "behind (add_tool_call_delta k tc S) (add_tool_call_delta k tc T)"
proof -
  have "add_tool_call_delta k tc (finish_reasoning S) = add_tool_call_delta k tc S"
    by (simp add: add_tool_call_delta_def finish_reasoning_none)
  with bare_add_tool [of "finish_reasoning S" T k tc] assms
  have "bare (add_tool_call_delta k tc S) = bare (add_tool_call_delta k tc T)" by (simp add: behind_def)
  then show ?thesis by (rule behindI) (rule add_tool_sel)
qed

lemma behind_allowed:
  assumes "behind S T"
  shows "behind (snd (apply_allowed_tools allowed S)) (snd (apply_allowed_tools allowed T))"
proof (cases allowed)
  case None
  with assms show ?thesis by (simp add: apply_allowed_tools_def)
next
  case (Some ns)
  let ?P = "\<lambda>(i, c). shown_name c \<in> set ns"
  have "behind (S\<lparr>open_calls := filter ?P (open_calls S)\<rparr>) (T\<lparr>open_calls := filter ?P (open_calls T)\<rparr>)"
    using assms behindD(1) [OF assms] by (simp add: behind_def finish_reasoning_frame)
  from behind_text [OF this, of SUPPRESSED_NOTE] assms Some behindD(1) [OF assms] show ?thesis
    by (auto simp: apply_allowed_tools_def Let_def)
qed

subsection \<open>The streamed and the buffered response\<close>

text \<open>
  A reply as an engine sends it: reasoning chunks, text chunks, and calls, each with an index,
  the id and name of its first delta, and its argument chunks.
\<close>

type_synonym sent_call = "int \<times> string option \<times> string option \<times> string \<times> string list"

definition call_deltas :: "sent_call \<Rightarrow> stream_op list" where
  "call_deltas c = (case c of (i, x, n, a, ds) \<Rightarrow>
     OpTool i \<lparr>td_id = x, td_name = n, td_args = Some a\<rparr> # map (\<lambda>d. OpTool i (more_args d)) ds)"

definition whole_call :: "sent_call \<Rightarrow> int option \<times> tool_delta" where
  "whole_call c = (case c of (i, x, n, a, ds) \<Rightarrow>
     (Some i, \<lparr>td_id = x, td_name = n, td_args = Some (a @ concat ds)\<rparr>))"

lemma run_stream_append: "snd (run_stream (ps @ qs) s) = snd (run_stream qs (snd (run_stream ps s)))"
  by (induction ps arbitrary: s) (simp_all add: split_beta)

lemma run_stream_maps:
  "snd (run_stream (map OpReasoning rs) s) = fold add_reasoning_delta rs s"
  "snd (run_stream (map OpText ts) s) = fold add_text_delta ts s"
  "snd (run_stream (map (\<lambda>d. OpTool i (more_args d)) ds) s) = fold (\<lambda>d. add_tool_call_delta i (more_args d)) ds s"
  by (induction rs arbitrary: s, simp_all split: prod.split)
    (induction ts arbitrary: s, simp_all split: prod.split, induction ds arbitrary: s, simp_all split: prod.split)

lemma behind_bare: "bare S = bare S' \<Longrightarrow> behind S' T \<Longrightarrow> behind S T"
  using bare_finish_reasoning [of S S'] bare_eqD(3,4) [of S S'] by (simp add: behind_def)

lemma behind_call:
  assumes "behind S T"
  shows "behind (snd (run_stream (call_deltas c) S)) (feed_whole_tool (whole_call c) T)"
proof -
  obtain i x n a ds where c: "c = (i, x, n, a, ds)" by (cases c)
  have "behind (add_tool_call_delta i \<lparr>td_id = x, td_name = n, td_args = Some (a @ concat ds)\<rparr> S)
      (feed_whole_tool (whole_call c) T)"
    using behind_tool [OF assms] by (simp add: feed_whole_tool_def whole_call_def c)
  from behind_bare [OF fold_args this] show ?thesis
    by (simp add: call_deltas_def c run_stream_maps split_beta)
qed

lemma behind_calls:
  "behind S T \<Longrightarrow> behind (snd (run_stream (concat (map call_deltas cs)) S)) (fold feed_whole_tool (map whole_call cs) T)"
  by (induction cs arbitrary: S T) (simp_all add: run_stream_append behind_call)

lemma behind_start:
  "behind (fold add_reasoning_delta rs (new_stream e phase))
     (if concat rs = [] then new_stream new_emitter phase
      else finish_reasoning (add_reasoning_delta (concat rs) (new_stream new_emitter phase)))"
proof -
  let ?s = "new_stream e phase" and ?t = "new_stream new_emitter phase"
  have st: "bare ?s = bare ?t" by (simp add: bare_def new_stream_def)
  have "open_message (add_reasoning_delta (concat rs) ?s) = None"
    by (simp add: add_reasoning_delta_def begin_reasoning_def new_id_def new_stream_def Let_def split: option.split)
  then have "behind (add_reasoning_delta (concat rs) ?s) (finish_reasoning (add_reasoning_delta (concat rs) ?t))"
    using bare_finish_reasoning [OF bare_add_reasoning [OF st]] by (simp add: behind_def)
  from behind_bare [OF fold_reasoning this] show ?thesis
    by (auto simp: add_reasoning_delta_def new_stream_def finish_reasoning_none)
qed

lemma whole_stream_items:
  "out_items (snd (whole_stream e phase ps allowed)) = out_items (close_out allowed (snd (run_stream ps (new_stream e phase))))"
  by (simp add: whole_stream_def drain_events_def Let_def split: prod.split)

text \<open>
  Claim C25: streaming and buffering give the same response. However an engine cuts its
  reasoning, its text and the arguments of its calls into chunks, the items of the streamed
  response are those the buffered path builds from the whole message: same ids, same order, same
  texts, same calls, whatever tools are allowed.
\<close>

theorem streamed_equals_buffered:
  "out_items (snd (whole_stream e phase
       (map OpReasoning rs @ map OpText ts @ concat (map call_deltas cs)) allowed)) =
   out_items (complete_message allowed phase
       \<lparr>cm_reasoning = concat rs, cm_content = concat ts, cm_tools = map whole_call cs\<rparr>)"
  (is "?l = out_items (complete_message allowed phase ?m)")
proof -
  let ?S1 = "fold add_reasoning_delta rs (new_stream e phase)"
    and ?T1 = "if concat rs = [] then new_stream new_emitter phase
      else finish_reasoning (add_reasoning_delta (concat rs) (new_stream new_emitter phase))"
  let ?S2 = "fold add_text_delta ts ?S1" and ?T2 = "add_text_delta (concat ts) ?T1"
  let ?S3 = "snd (run_stream (concat (map call_deltas cs)) ?S2)" and ?T3 = "fold feed_whole_tool (map whole_call cs) ?T2"
  have "behind ?S2 ?T2" by (rule behind_bare [OF fold_text behind_text [OF behind_start]])
  then have "behind ?S3 ?T3" by (rule behind_calls)
  then have "behind (snd (apply_allowed_tools allowed ?S3)) (snd (apply_allowed_tools allowed ?T3))"
    by (rule behind_allowed)
  then have "bare (finish_reasoning (snd (apply_allowed_tools allowed ?S3))) = bare (snd (apply_allowed_tools allowed ?T3))"
    by (simp add: behind_def)
  from bare_eqD(1) [OF bare_finish_message [OF bare_finish_calls [OF this]]] show ?thesis
    by (simp add: whole_stream_items run_stream_append run_stream_maps close_out_def complete_message_def Let_def)
qed

end
