(* ===== verification/ResponseScripts.thy ===== *)
theory ResponseScripts
  imports ResponseRun ResponseStreamSafety
begin

text \<open>
  The logic of \<open>Scripts\<close> for the scripts of \<open>ResponseRun\<close>: the invariant \<open>good\<close> of the frames sent
  and the stream state, and what holds when a script is left (\<open>left\<close>); the interface of a channel to the client (\<open>channel\<close>), which the
  generator and the socket provide; and the steps that both read loops are made of.
\<close>

section \<open>Frames and terminal events\<close>

fun sent_event :: "frame \<Rightarrow> event option" where
  "sent_event (EventFrame e) = Some e"
| "sent_event f = None"

definition sent_events :: "frame list \<Rightarrow> event list" where
  "sent_events fs = List.map_filter sent_event fs"

fun terminal_of :: "payload \<Rightarrow> string option" where
  "terminal_of (ResponseEv k st items) =
     (if k \<in> {''response.completed'', ''response.incomplete'', ''response.failed''} then Some k else None)"
| "terminal_of p = None"

lemma sent_events_simps [simp]:
  "sent_events [] = []" "sent_events (xs @ ys) = sent_events xs @ sent_events ys"
  "sent_events [EventFrame e] = [e]" "sent_events [KeepAlive] = []" "sent_events [DoneFrame] = []"
  "sent_events (map EventFrame es) = es" "sent_events [ErrorFrame n c p] = []"
  by (simp_all add: sent_events_def map_filter_def o_def)

definition numbered :: "frame list \<Rightarrow> bool" where
  "numbered fs \<longleftrightarrow> map fst (sent_events fs) = [1..<Suc (length (sent_events fs))]"

definition terminals :: "frame list \<Rightarrow> string list" where
  "terminals fs = collect terminal_of (sent_events fs)"

lemma terminals_simps [simp]:
  "terminals [] = []" "terminals (xs @ ys) = terminals xs @ terminals ys"
  "terminals [KeepAlive] = []" "terminals [DoneFrame] = []"
  by (simp_all add: terminals_def)

text \<open>The events sent and those waiting in the emitter.\<close>

definition run_log :: "run \<Rightarrow> event list" where
  "run_log r = event_log (sent_events (rn_sent r)) (rn_stream r)"

text \<open>What the stream, frame and line steps leave alone.\<close>

definition books :: "run \<Rightarrow> bool \<times> string list \<times> (string \<times> usage option) list \<times> string \<times> out_item list \<times> (string \<times> out_item list) list" where
  "books r = (rn_held r, rn_releases r, rn_telemetry r, rn_status r, rn_output r, rn_stored r)"

definition of_books :: "(run \<Rightarrow> bool) \<Rightarrow> bool" where
  "of_books M \<longleftrightarrow> (\<forall>r r'. books r = books r' \<longrightarrow> M r = M r')"

lemma of_booksD: "of_books M \<Longrightarrow> books r = books r' \<Longrightarrow> M r = M r'"
  unfolding of_books_def by blast

definition good :: "(run \<Rightarrow> bool) \<Rightarrow> string list \<Rightarrow> run \<Rightarrow> bool" where
  "good M t r \<longleftrightarrow> M r \<and> (\<exists>gone. stream_ok 0 (sent_events (rn_sent r)) gone (rn_stream r))
     \<and> collect terminal_of (run_log r) = t \<and> DoneFrame \<notin> set (rn_sent r)"

definition left :: "bool \<Rightarrow> (run \<Rightarrow> bool) \<Rightarrow> string list \<Rightarrow> exn \<Rightarrow> run \<Rightarrow> bool" where
  "left b M t e r \<longleftrightarrow> (b \<and> is_exception e \<longrightarrow> good M t r) \<and> M r \<and> numbered (rn_sent r)
     \<and> length (terminals (rn_sent r)) \<le> length t \<and> DoneFrame \<notin> set (rn_sent r)"

definition keeps :: "bool \<Rightarrow> (run \<Rightarrow> bool) \<Rightarrow> string list \<Rightarrow> 'a script \<Rightarrow> bool" where
  "keeps b M t m \<longleftrightarrow> hoare (good M t) m (\<lambda>_. good M t) (left b M t)"

lemma numbered_prefix:
  assumes "map fst (es @ fs) = [Suc 0..<Suc n]"
  shows "map fst es = [1..<Suc (length es)]"
proof -
  have "length es + length fs = n" using arg_cong [OF assms, of length] by (simp del: upt_Suc)
  then have "take (length es) [Suc 0..<Suc n] = [Suc 0..<Suc 0 + length es]" by (intro take_upt) simp
  moreover have "map fst es = take (length es) (map fst (es @ fs))" by simp
  ultimately show ?thesis unfolding assms by simp
qed

lemma stream_ok_numbered: "stream_ok 0 es gone s \<Longrightarrow> map fst es = [1..<Suc (length es)]"
  unfolding stream_ok_def event_log_def by (elim conjE) (rule numbered_prefix)

lemma good_left:
  assumes "good M t r"
  shows "left b M t e r"
proof -
  have "numbered (rn_sent r)"
    using assms stream_ok_numbered unfolding good_def numbered_def by blast
  with assms show ?thesis by (auto simp: good_def left_def terminals_def run_log_def event_log_def)
qed

interpretation kept: phase "good M t" "left b M t" "\<lambda>_. True" for b M t
  by unfold_locales (rule good_left)

lemmas keeps_bind = kept.bind [folded keeps_def]
lemmas keeps_give = kept.return [folded keeps_def]
lemmas keeps_throw = kept.raise [folded keeps_def, OF TrueI]
lemmas keeps_await = kept.await [folded keeps_def, OF TrueI]

section \<open>Scripts that only change the rest\<close>

lemma keeps_change:
  assumes "of_books M" "\<And>r. books (f r) = books r" "\<And>r. rn_sent (f r) = rn_sent r" "\<And>r. rn_stream (f r) = rn_stream r"
  shows "keeps b M t (change f)"
  unfolding keeps_def
proof (rule hoare_change)
  fix r
  assume g: "good M t r"
  have "M (f r) = M r" by (rule of_booksD [OF assms(1,2)])
  with g show "good M t (f r)" by (simp add: good_def run_log_def assms(3,4))
qed

section \<open>Channels\<close>

text \<open>What sending a frame leaves alone.\<close>

definition unsent :: "run \<Rightarrow> run" where
  "unsent r = r\<lparr>rn_sent := [], rn_takes := 0\<rparr>"

lemma unsent_sel:
  "books (unsent r) = books r" "rn_stream (unsent r) = rn_stream r" "rn_calls (unsent r) = rn_calls r"
  by (simp_all add: unsent_def books_def)

lemma unsent_eqD:
  assumes "unsent r = unsent r'"
  shows "books r = books r'" "rn_stream r = rn_stream r'" "rn_calls r = rn_calls r'"
  using arg_cong [OF assms, of books] arg_cong [OF assms, of rn_stream] arg_cong [OF assms, of rn_calls]
  by (simp_all add: unsent_sel)

text \<open>
  The way frames reach the client. A channel sends a frame and goes on, or raises with the frame
  sent or not. An orderly one raises nothing that \<open>except Exception\<close> catches, so that nobody
  goes on writing after a frame was lost.
\<close>

locale channel =
  fixes deliver :: "frame \<Rightarrow> unit script" and orderly :: bool
  assumes deliver_sent: "deliver f r = (Inr u, r') \<Longrightarrow> rn_sent r' = rn_sent r @ [f] \<and> unsent r' = unsent r"
    and deliver_raised: "deliver f r = (Inl e, r') \<Longrightarrow>
      (rn_sent r' = rn_sent r @ [f] \<or> rn_sent r' = rn_sent r) \<and> unsent r' = unsent r"
    and deliver_orderly: "deliver f r = (Inl e, r') \<Longrightarrow> orderly \<Longrightarrow> \<not> is_exception e"
begin

lemma all_sent:
  assumes "deliver_all deliver fs r = (x, r')"
  shows "(x = Inr () \<and> rn_sent r' = rn_sent r @ fs
      \<or> (\<exists>e gs hs. x = Inl e \<and> (orderly \<longrightarrow> \<not> is_exception e) \<and> fs = gs @ hs \<and> rn_sent r' = rn_sent r @ gs))
    \<and> unsent r' = unsent r"
  using assms
proof (induction fs arbitrary: r)
  case Nil
  then show ?case by (simp add: give_def)
next
  case (Cons f fs)
  obtain y r1 where d: "deliver f r = (y, r1)" by fastforce
  show ?case
  proof (cases y)
    case (Inl e)
    with Cons.prems d have r': "x = Inl e" "r' = r1" by (simp_all add: and_then_def)
    have o: "orderly \<longrightarrow> \<not> is_exception e" using deliver_orderly d Inl by blast
    from deliver_raised [OF d [unfolded Inl]] consider "rn_sent r1 = rn_sent r @ [f]" | "rn_sent r1 = rn_sent r @ []"
      by auto
    then have "\<exists>gs hs. f # fs = gs @ hs \<and> rn_sent r1 = rn_sent r @ gs"
    proof cases
      case 1 then show ?thesis by (intro exI [of _ "[f]"] exI [of _ fs]) simp
    next
      case 2 then show ?thesis by (intro exI [of _ "[]"] exI [of _ "f # fs"]) simp
    qed
    with r' o deliver_raised [OF d [unfolded Inl]] show ?thesis by blast
  next
    case (Inr u)
    with Cons.prems d have "deliver_all deliver fs r1 = (x, r')" by (simp add: and_then_def)
    from Cons.IH [OF this] deliver_sent [OF d [unfolded Inr]] show ?thesis
      by (auto intro: exI [of _ "f # _"])
  qed
qed

lemma drain:
  assumes "of_books M"
  shows "hoare (good M t) (drain_with deliver)
     (\<lambda>_ r. good M t r \<and> em_pending (ss_emitter (rn_stream r)) = []) (left orderly M t)"
  unfolding hoare_def
proof (intro allI impI)
  fix r
  assume g: "good M t r"
  let ?s = "rn_stream r" and ?es = "em_pending (ss_emitter (rn_stream r))"
  let ?r = "r\<lparr>rn_stream := ?s\<lparr>ss_emitter := (ss_emitter ?s)\<lparr>em_pending := []\<rparr>\<rparr>\<rparr>"
  obtain x r' where y: "deliver_all deliver (map EventFrame ?es) ?r = (x, r')" by fastforce
  have d: "drain_with deliver r = (x, r')" using y by (simp add: drain_with_def drain_events_def)
  note ys = all_sent [OF y]
  then have u: "books r' = books r" "rn_stream r' = rn_stream ?r"
    using unsent_eqD [of r' ?r] by (simp_all add: books_def)
  then have M: "M r'" using of_booksD [OF assms, of r' r] g by (simp add: good_def)
  obtain gone where ok: "stream_ok 0 (sent_events (rn_sent r)) gone ?s" using g by (auto simp: good_def)
  from ys consider (all) "x = Inr ()" "rn_sent r' = rn_sent r @ map EventFrame ?es"
    | (some) e gs hs where "x = Inl e" "orderly \<longrightarrow> \<not> is_exception e" "map EventFrame ?es = gs @ hs"
        "rn_sent r' = rn_sent r @ gs"
    by auto
  then show "case drain_with deliver r of (Inr a, r') \<Rightarrow> good M t r' \<and> em_pending (ss_emitter (rn_stream r')) = []
      | (Inl e, r') \<Rightarrow> left orderly M t e r'"
  proof cases
    case all
    have "stream_ok 0 (sent_events (rn_sent r')) gone (rn_stream r')"
      using ok u all by (simp add: stream_ok_def event_log_def live_def)
    moreover have "run_log r' = run_log r" using u all by (simp add: run_log_def event_log_def)
    ultimately have "good M t r'" using g M all by (auto simp: good_def)
    with d all u show ?thesis by simp
  next
    case some
    then obtain es where es: "gs = map EventFrame es" and pre: "\<exists>fs. ?es = es @ fs"
      by (metis append_eq_map_conv)
    have "map fst (sent_events (rn_sent r) @ ?es) = [Suc 0..<Suc (em_seq (ss_emitter ?s))]"
      using ok by (simp add: stream_ok_def event_log_def)
    with pre have "map fst (sent_events (rn_sent r')) = [1..<Suc (length (sent_events (rn_sent r')))]"
      using some es numbered_prefix by (metis append_assoc sent_events_simps(2,6))
    moreover have "length (terminals (rn_sent r')) \<le> length t"
      using g pre some es by (auto simp: good_def run_log_def event_log_def terminals_def)
    ultimately have "left orderly M t e r'"
      using M g some es by (auto simp: left_def numbered_def good_def)
    with d some show ?thesis by simp
  qed
qed

lemma keeps_drain: "of_books M \<Longrightarrow> keeps orderly M t (drain_with deliver)"
  unfolding keeps_def by (rule hoare_conseq [OF drain]) auto

lemma drained:
  assumes "drain_with deliver r = (Inr u, r')"
  shows "books r' = books r" "run_log r' = run_log r" "em_pending (ss_emitter (rn_stream r')) = []"
    "live (rn_stream r') = live (rn_stream r)" "out_items (rn_stream r') = out_items (rn_stream r)"
proof -
  let ?s = "rn_stream r"
  let ?r = "r\<lparr>rn_stream := ?s\<lparr>ss_emitter := (ss_emitter ?s)\<lparr>em_pending := []\<rparr>\<rparr>\<rparr>"
  have y: "deliver_all deliver (map EventFrame (em_pending (ss_emitter ?s))) ?r = (Inr u, r')"
    using assms by (simp add: drain_with_def drain_events_def)
  have "books r' = books ?r" "rn_stream r' = rn_stream ?r" "rn_sent r' = rn_sent r @ map EventFrame (em_pending (ss_emitter ?s))"
    using all_sent [OF y] unsent_eqD [of r' ?r] by auto
  then show "books r' = books r" "run_log r' = run_log r" "em_pending (ss_emitter (rn_stream r')) = []"
    "live (rn_stream r') = live (rn_stream r)" "out_items (rn_stream r') = out_items (rn_stream r)"
    by (auto simp: books_def run_log_def event_log_def live_def)
qed

lemma drain_exit: "drain_with deliver r = (Inl e, r') \<Longrightarrow> orderly \<Longrightarrow> \<not> is_exception e"
  using all_sent by (fastforce simp: drain_with_def drain_events_def)

end

section \<open>Stream operations announce no end\<close>

definition pending_ends :: "stream_state \<Rightarrow> string list" where
  "pending_ends s = collect terminal_of (em_pending (ss_emitter s))"

lemma pending_ends_emit [simp]:
  "pending_ends (emit p s) = pending_ends s @ (case terminal_of p of None \<Rightarrow> [] | Some k \<Rightarrow> [k])"
  by (simp add: pending_ends_def split: option.split)

lemma pending_ends_upd [simp]:
  "pending_ends (s\<lparr>out_items := x1\<rparr>) = pending_ends s" "pending_ends (s\<lparr>out_index := x2\<rparr>) = pending_ends s"
  "pending_ends (s\<lparr>open_message := x3\<rparr>) = pending_ends s" "pending_ends (s\<lparr>open_reasoning := x4\<rparr>) = pending_ends s"
  "pending_ends (s\<lparr>open_calls := x5\<rparr>) = pending_ends s" "pending_ends (s\<lparr>next_id := x6\<rparr>) = pending_ends s"
  "pending_ends (s\<lparr>reasoning_tokens := x7\<rparr>) = pending_ends s"
  by (simp_all add: pending_ends_def)

lemma ends_reasoning [simp]:
  "pending_ends (finish_reasoning s) = pending_ends s" "pending_ends (add_reasoning_delta d s) = pending_ends s"
  by (simp_all add: finish_reasoning_def add_reasoning_delta_def begin_reasoning_def close_item_def new_id_def Let_def
      split: option.split prod.split)

lemma ends_text [simp]:
  "pending_ends (add_text_delta d s) = pending_ends s" "pending_ends (finish_message s) = pending_ends s"
  "pending_ends (emit_summary d s) = pending_ends s"
  by (simp_all add: add_text_delta_def begin_message_def finish_message_def emit_summary_def close_item_def new_id_def Let_def
      split: option.split prod.split)

lemma ends_tool [simp]: "pending_ends (add_tool_call_delta k tc s) = pending_ends s"
  by (simp add: add_tool_call_delta_def find_call_def call_ident_def open_call_def extend_call_def new_id_def Let_def
      split: option.split prod.split)

lemma ends_fold: "(\<And>x s. pending_ends (f x s) = pending_ends s) \<Longrightarrow> pending_ends (fold f xs s) = pending_ends s"
  by (induction xs arbitrary: s) simp_all

lemma ends_close_out [simp]: "pending_ends (close_out allowed s) = pending_ends s"
proof -
  have "pending_ends (finish_call c s) = pending_ends s" for c s
    by (simp add: finish_call_def close_item_def)
  then have "pending_ends (finish_calls s) = pending_ends s" for s
    by (simp add: finish_calls_def ends_fold)
  moreover have "pending_ends (snd (apply_allowed_tools allowed s)) = pending_ends s"
    by (simp add: apply_allowed_tools_def Let_def split: option.split)
  ultimately show ?thesis by (simp add: close_out_def)
qed

lemma ends_feed [simp]: "pending_ends (feed_choice c s) = pending_ends s"
  by (simp add: feed_choice_def feed_tools_def Let_def ends_fold split_beta)

text \<open>A state change that keeps the contract of the stream and announces no end.\<close>

definition tame :: "(stream_state \<Rightarrow> stream_state) \<Rightarrow> bool" where
  "tame f \<longleftrightarrow> (\<forall>s. pending_ends (f s) = pending_ends s) \<and>
     (\<forall>s sent gone. stream_ok 0 sent gone s \<longrightarrow> (\<exists>gone'. stream_ok 0 sent gone' (f s)))"

lemma tame_feed: "tame (feed_choice c)"
proof -
  have "stream_ok 0 sent gone (feed_choice c s)" if "stream_ok 0 sent gone s" for s sent gone
  proof -
    have fold: "stream_ok 0 sent gone (fold (\<lambda>(i, tc). add_tool_call_delta i tc) tcs s)" if "stream_ok 0 sent gone s" for tcs s
      using that by (induction tcs arbitrary: s) (auto simp: add_tool_call_ok)
    show ?thesis unfolding feed_choice_def feed_tools_def Let_def
      by (intro fold add_text_ok) (simp add: that add_reasoning_ok finish_reasoning_ok)
  qed
  then show ?thesis unfolding tame_def by auto
qed

lemma tame_close_out: "tame (close_out allowed)"
  unfolding tame_def using close_out_ok by (metis ends_close_out)

lemma decode_tame:
  assumes "decode_native ev (s, cs) = (x, s', cs')"
  shows "pending_ends s' = pending_ends s \<and> (stream_ok 0 sent gone s \<longrightarrow> stream_ok 0 sent gone s')"
proof (cases ev)
  case (NativeCall gid cid name)
  then have "s' = s \<or> s' = snd (new_id ''fc'' s)"
    using assms by (auto simp: decode_native_def native_key_def split: if_splits prod.splits)
  moreover have "stream_ok 0 sent gone (snd (new_id ''fc'' s))" if ok: "stream_ok 0 sent gone s"
    by (rule stream_okI [OF ok, where ps = "[]"])
      (use account_skip_id [OF stream_okD(1) [OF ok]] stream_okD [OF ok] in
        \<open>simp_all add: live_def event_log_def new_id_def\<close>)
  moreover have "pending_ends (snd (new_id ''fc'' s)) = pending_ends s" by (simp add: new_id_def)
  ultimately show ?thesis by auto
next
  case (NativeReasoning d)
  have "stream_ok 0 sent gone (emit_summary d (add_reasoning_delta d s))" if "stream_ok 0 sent gone s"
    unfolding emit_summary_def by (intro emit_ok add_reasoning_ok that) simp_all
  with NativeReasoning assms show ?thesis by (auto simp: decode_native_def split: if_splits)
qed (use assms in \<open>auto simp: decode_native_def add_text_ok add_tool_call_ok split: prod.splits\<close>)

lemma good_stream:
  assumes "good M t r" "of_books M" "books r' = books r" "rn_sent r' = rn_sent r"
    and "\<And>sent gone. stream_ok 0 sent gone (rn_stream r) \<Longrightarrow> \<exists>gone'. stream_ok 0 sent gone' (rn_stream r')"
    and "pending_ends (rn_stream r') = pending_ends (rn_stream r)"
  shows "good M t r'"
proof -
  have "M r'" using of_booksD [OF assms(2,3)] assms(1) by (simp add: good_def)
  moreover have "\<exists>gone'. stream_ok 0 (sent_events (rn_sent r')) gone' (rn_stream r')"
    using assms(1,4,5) unfolding good_def by metis
  moreover have "collect terminal_of (run_log r') = t"
    using assms(1,4,6) by (simp add: good_def run_log_def event_log_def pending_ends_def)
  ultimately show ?thesis using assms(1,4) by (simp add: good_def)
qed

lemma tameD:
  "tame f \<Longrightarrow> pending_ends (f s) = pending_ends s"
  "tame f \<Longrightarrow> stream_ok 0 sent gone s \<Longrightarrow> \<exists>gone'. stream_ok 0 sent gone' (f s)"
  unfolding tame_def by blast+

lemma keeps_tame:
  assumes "of_books M" "tame f" "\<And>r. books (g r) = books r" "\<And>r. rn_sent (g r) = rn_sent r"
    "\<And>r. rn_stream (g r) = f (rn_stream r)"
  shows "keeps b M t (change g)"
  unfolding keeps_def
proof (rule hoare_change)
  fix r
  assume "good M t r"
  then show "good M t (g r)"
    by (rule good_stream [OF _ assms(1,3,4)]) (simp_all add: assms(5) tameD [OF assms(2)])
qed

lemma keeps_on_stream: "of_books M \<Longrightarrow> tame f \<Longrightarrow> keeps b M t (on_stream f)"
  unfolding on_stream_def by (rule keeps_tame) (auto simp: books_def)

lemma keeps_chunk:
  assumes "of_books M" "\<And>ch. tame (feed ch)" "keeps b M t drain"
  shows "keeps b M t (chat_chunk_step feed drain c)"
proof -
  have "keeps b M t (change (\<lambda>r. r\<lparr>rn_report := chunk_report c (rn_report r)\<rparr>))"
    by (rule keeps_change [OF assms(1)]) (simp_all add: books_def)
  moreover have "keeps b M t (change (\<lambda>r. r\<lparr>rn_finish := (if nonempty (cc_finish ch) then cc_finish ch else rn_finish r),
        rn_chars := rn_chars r + length (cc_content ch), rn_stream := feed ch (rn_stream r)\<rparr>))" for ch
    by (rule keeps_tame [OF assms(1,2)]) (simp_all add: books_def)
  ultimately show ?thesis
    by (auto simp: chat_chunk_step_def keeps_throw split: option.split
        intro!: keeps_bind keeps_give assms(3))
qed

lemma keeps_native_step:
  assumes "of_books M" "keeps b M t drain"
  shows "keeps b M t (native_step drain ev)"
  unfolding keeps_def hoare_def
proof (intro allI impI)
  fix r
  assume g: "good M t r"
  obtain x s cs where d: "decode_native ev (rn_stream r, rn_calls r) = (x, s, cs)" by (metis prod_cases3)
  have good': "good M t (r\<lparr>rn_stream := s, rn_calls := cs, rn_report := u\<rparr>)" for u
    by (rule good_stream [OF g assms(1)]) (use decode_tame [OF d] in \<open>auto simp: books_def\<close>)
  show "case native_step drain ev r of (Inr a, r') \<Rightarrow> good M t r' | (Inl e, r') \<Rightarrow> left b M t e r'"
  proof (cases x)
    case (Inl e)
    have "good M t (r\<lparr>rn_stream := s, rn_calls := cs\<rparr>)" using good' [of "rn_report r"] by simp
    with Inl d show ?thesis by (simp add: native_step_def good_left)
  next
    case (Inr y)
    obtain terminal u short where y: "y = (terminal, u, short)" by (cases y)
    let ?m = "and_then drain (\<lambda>_. and_then (change (\<lambda>r. if terminal \<and> short then r\<lparr>rn_finish := Some ''length''\<rparr> else r)) (\<lambda>_. give terminal))"
    have "keeps b M t ?m"
      by (intro keeps_bind keeps_give keeps_change assms) (auto simp: books_def)
    with good' show ?thesis using Inr y d by (simp add: native_step_def keeps_def hoare_def)
  qed
qed

section \<open>Terminal events\<close>

definition ends_with :: "string \<Rightarrow> run \<Rightarrow> bool" where
  "ends_with k r \<longleftrightarrow> run_log r \<noteq> [] \<and> terminal_of (snd (last (run_log r))) = Some k"

lemma hoare_event:
  assumes "of_books M"
  shows "hoare (good M t) (response_event k)
     (\<lambda>_ r. good M (t @ (case terminal_of (ResponseEv k s its) of None \<Rightarrow> [] | Some k' \<Rightarrow> [k'])) r) E"
proof -
  have "good M (t @ (case terminal_of (ResponseEv k s its) of None \<Rightarrow> [] | Some k' \<Rightarrow> [k']))
      (r\<lparr>rn_stream := emit (ResponseEv k (rn_status r) (rn_output r)) (rn_stream r)\<rparr>)" if g: "good M t r" for r
  proof -
    let ?p = "ResponseEv k (rn_status r) (rn_output r)"
    let ?r = "r\<lparr>rn_stream := emit ?p (rn_stream r)\<rparr>"
    have "M ?r = M r" by (rule of_booksD [OF assms]) (simp add: books_def)
    moreover have "stream_ok 0 (sent_events (rn_sent r)) gone (emit ?p (rn_stream r))"
      if "stream_ok 0 (sent_events (rn_sent r)) gone (rn_stream r)" for gone
      by (rule emit_ok [OF that]) simp_all
    ultimately show ?thesis using g by (auto simp: good_def run_log_def)
  qed
  then show ?thesis by (auto simp: hoare_def response_event_def on_stream_def change_def)
qed

lemma event_frame:
  assumes "response_event k r = (Inr u, r')"
  shows "books r' = books r" "live (rn_stream r') = live (rn_stream r)" "out_items (rn_stream r') = out_items (rn_stream r)"
    "k \<in> {''response.completed'', ''response.incomplete'', ''response.failed''} \<Longrightarrow> ends_with k r'"
proof -
  have r': "r' = r\<lparr>rn_stream := emit (ResponseEv k (rn_status r) (rn_output r)) (rn_stream r)\<rparr>"
    using assms by (simp add: response_event_def on_stream_def change_def)
  show "books r' = books r" "live (rn_stream r') = live (rn_stream r)" "out_items (rn_stream r') = out_items (rn_stream r)"
    "k \<in> {''response.completed'', ''response.incomplete'', ''response.failed''} \<Longrightarrow> ends_with k r'"
    unfolding r' by (auto simp: books_def live_def ends_with_def run_log_def)
qed

section \<open>From the last item to the terminal event\<close>

definition ENDS :: "string list" where
  "ENDS = [''response.completed'', ''response.incomplete'']"

text \<open>Books that do not depend on the status and the output of the response.\<close>

definition settable :: "(run \<Rightarrow> bool) \<Rightarrow> bool" where
  "settable M \<longleftrightarrow> of_books M \<and> (\<forall>r s. M (r\<lparr>rn_status := s\<rparr>) = M r) \<and> (\<forall>r its. M (r\<lparr>rn_output := its\<rparr>) = M r)"

definition closing :: "(run \<Rightarrow> bool) \<Rightarrow> run \<Rightarrow> bool" where
  "closing M r \<longleftrightarrow> good M [] r \<and> live (rn_stream r) = [] \<and> rn_status r \<in> {''completed'', ''incomplete''}"

definition announced :: "(run \<Rightarrow> bool) \<Rightarrow> run \<Rightarrow> bool" where
  "announced M r \<longleftrightarrow> (\<exists>k\<in>set ENDS. good M [k] r \<and> ends_with k r \<and> k = ''response.'' @ rn_status r)
     \<and> live (rn_stream r) = [] \<and> rn_output r = out_items (rn_stream r)"

text \<open>Terminal event sent, nothing in progress or waiting.\<close>

definition concluded :: "(run \<Rightarrow> bool) \<Rightarrow> run \<Rightarrow> bool" where
  "concluded M r \<longleftrightarrow> (\<exists>k\<in>set ENDS. good M [k] r \<and> ends_with k r \<and> k = ''response.'' @ rn_status r)
     \<and> live (rn_stream r) = [] \<and> em_pending (ss_emitter (rn_stream r)) = [] \<and> rn_output r = out_items (rn_stream r)"

definition settle_left :: "bool \<Rightarrow> (run \<Rightarrow> bool) \<Rightarrow> exn \<Rightarrow> run \<Rightarrow> bool" where
  "settle_left b M e r \<longleftrightarrow> left b M [] e r \<or> (\<exists>k\<in>set ENDS. left b M [k] e r \<and> \<not> (b \<and> is_exception e))"

lemma settle_event:
  assumes "of_books M"
  shows "hoare (\<lambda>r. closing M r \<and> rn_output r = out_items (rn_stream r))
     (\<lambda>r. response_event (if rn_status r = ''incomplete'' then ''response.incomplete'' else ''response.completed'') r)
     (\<lambda>_. announced M) E"
proof (rule hoare_read [where k = "\<lambda>r. response_event (if rn_status r = ''incomplete'' then ''response.incomplete'' else ''response.completed'')"])
  fix r
  assume c: "closing M r \<and> rn_output r = out_items (rn_stream r)"
  let ?k = "if rn_status r = ''incomplete'' then ''response.incomplete'' else ''response.completed''"
  have n: "?k \<in> {''response.completed'', ''response.incomplete'', ''response.failed''}" by simp
  have k: "?k \<in> set ENDS" "?k = ''response.'' @ rn_status r" using c by (auto simp: ENDS_def closing_def)
  have t: "terminal_of (ResponseEv ?k s its) = Some ?k" for s its by simp
  show "hoare (\<lambda>r'. r' = r) (response_event ?k) (\<lambda>_. announced M) E"
    unfolding hoare_def
  proof (intro allI impI)
    fix r0
    assume "r0 = r"
    obtain r' where e: "response_event ?k r = (Inr (), r')" by (simp add: response_event_def on_stream_def change_def)
    note f = event_frame [OF e]
    have "good M [?k] r'"
      using hoareD [OF hoare_event [OF assms, where k = ?k and t = "[]"] _ e] c t by (simp add: closing_def)
    moreover have "ends_with ?k r'" by (rule f(4) [OF n])
    moreover have "rn_status r' = rn_status r" "rn_output r' = rn_output r" using f(1) by (simp_all add: books_def)
    ultimately have "announced M r'" using k c f(2,3) by (auto simp: announced_def closing_def)
    with e \<open>r0 = r\<close> show "case response_event ?k r0 of (Inr a, r') \<Rightarrow> announced M r' | (Inl e, r') \<Rightarrow> E e r'" by simp
  qed
qed

context channel
begin

lemma settle_drain:
  assumes "of_books M"
  shows "hoare (announced M) (drain_with deliver) (\<lambda>_. concluded M) (settle_left orderly M)"
  unfolding hoare_def
proof (intro allI impI)
  fix r
  assume a: "announced M r"
  then obtain k where k: "k \<in> set ENDS" "good M [k] r" "ends_with k r" "k = ''response.'' @ rn_status r"
    by (auto simp: announced_def)
  obtain y r' where d: "drain_with deliver r = (y, r')" by fastforce
  have h: "case y of Inr a \<Rightarrow> good M [k] r' \<and> em_pending (ss_emitter (rn_stream r')) = []
      | Inl e \<Rightarrow> left orderly M [k] e r'"
    by (rule hoareD [OF drain [OF assms] k(2) d])
  show "case drain_with deliver r of (Inr a, r') \<Rightarrow> concluded M r' | (Inl e, r') \<Rightarrow> settle_left orderly M e r'"
  proof (cases y)
    case (Inl e)
    with d have "\<not> (orderly \<and> is_exception e)" using drain_exit by blast
    with h Inl k(1) d show ?thesis by (auto simp: settle_left_def)
  next
    case (Inr u)
    note f = drained [OF d [unfolded Inr]]
    have "ends_with k r'" using k(3) f(2) by (simp add: ends_with_def)
    moreover have "rn_status r' = rn_status r" "rn_output r' = rn_output r" using f(1) by (simp_all add: books_def)
    ultimately have "concluded M r'" using h Inr f a k(1,4) by (auto simp: concluded_def announced_def)
    with d Inr show ?thesis by simp
  qed
qed

lemma settled:
  assumes "settable M"
  shows "hoare (\<lambda>r. good M [] r \<and> live (rn_stream r) = []) (settle_with (drain_with deliver) x)
     (\<lambda>_. concluded M) (settle_left orderly M)"
proof -
  have M: "of_books M" "\<And>r s. M (r\<lparr>rn_status := s\<rparr>) = M r" "\<And>r its. M (r\<lparr>rn_output := its\<rparr>) = M r"
    using assms by (simp_all add: settable_def)
  have 1: "hoare (\<lambda>r. good M [] r \<and> live (rn_stream r) = [])
     (change (\<lambda>r. r\<lparr>rn_status := (if rn_finish r = Some ''length'' then ''incomplete'' else ''completed'')\<rparr>))
     (\<lambda>_. closing M) (settle_left orderly M)"
    by (rule hoare_change) (simp add: closing_def good_def M(2) run_log_def)
  have 2: "hoare (closing M) (\<lambda>r. await_answer (se_validate x (out_items (rn_stream r))) r) (\<lambda>_. closing M) (settle_left orderly M)"
    by (rule hoare_read, rule hoare_await) (auto simp: settle_left_def closing_def good_left)
  have 3: "hoare (closing M) (change (\<lambda>r. r\<lparr>rn_output := out_items (rn_stream r)\<rparr>))
     (\<lambda>_ r. closing M r \<and> rn_output r = out_items (rn_stream r)) (settle_left orderly M)"
    by (rule hoare_change) (simp add: closing_def good_def M(3) run_log_def)
  show ?thesis unfolding settle_with_def
    by (rule hoare_bind [OF 1], rule hoare_bind [OF 2], rule hoare_bind [OF 3], rule hoare_bind [OF settle_event [OF M(1)]])
      (rule settle_drain [OF M(1)])
qed

end

end
