(* ===== verification/ResponseRunSafety.thy ===== *)
theory ResponseRunSafety
  imports ResponseScripts
begin

text \<open>
  What a client, the scheduler and the store can rely on when a response is streamed, however the
  engine behaves and whenever the client leaves: the phases of \<open>_stream_events\<close> in the logic of
  \<open>ResponseScripts\<close>, with the books of the lease, the telemetry and the store.
\<close>

section \<open>The generator as a channel\<close>

text \<open>A \<open>yield\<close> raises only when the client has closed, with its frame already sent.\<close>

interpretation sse: channel yield_frame True
  by unfold_locales (auto simp: yield_frame_def unsent_def is_exception_def Let_def split: if_splits)

lemmas frames_drain = sse.drain [folded drain_frames_def]
lemmas frames_drained = sse.drained [folded drain_frames_def]
lemmas frames_exit = sse.drain_exit [folded drain_frames_def]

lemma keeps_drained: "of_books M \<Longrightarrow> keeps True M t drain_frames"
  unfolding drain_frames_def by (rule sse.keeps_drain)

lemma keeps_yield_comment:
  assumes "of_books M"
  shows "keeps True M t (yield_frame KeepAlive)"
  unfolding keeps_def hoare_def
proof (intro allI impI)
  fix r
  assume g: "good M t r"
  let ?r = "r\<lparr>rn_sent := rn_sent r @ [KeepAlive], rn_takes := rn_takes r - 1\<rparr>"
  have "M ?r = M r" by (rule of_booksD [OF assms]) (simp add: books_def)
  with g have "good M t ?r" by (simp add: good_def run_log_def)
  moreover from this have "left True M t GeneratorExit ?r" by (rule good_left)
  ultimately show "case yield_frame KeepAlive r of (Inr a, r') \<Rightarrow> good M t r' | (Inl e, r') \<Rightarrow> left True M t e r'"
    by (cases "rn_takes r = 0") (simp_all add: yield_frame_def Let_def)
qed

lemma keeps_read_chat:
  assumes "of_books M"
  shows "keeps True M t (read_chat x us)"
proof (induction us)
  case (Cons u us)
  then show ?case
    by (cases u) (auto simp: keeps_give keeps_throw split: option.split
        intro!: keeps_bind keeps_yield_comment [OF assms] keeps_chunk [OF assms tame_feed keeps_drained [OF assms]])
qed (simp add: keeps_give)

lemma keeps_read_native:
  assumes "of_books M"
  shows "keeps True M t (read_native x us)"
proof (induction us)
  case (Cons u us)
  then show ?case
    by (cases u) (auto simp: keeps_give keeps_throw split: option.split
        intro!: keeps_bind keeps_yield_comment [OF assms] keeps_native_step [OF assms keeps_drained [OF assms]])
qed (simp add: keeps_give)

lemma keeps_comments: "of_books M \<Longrightarrow> keeps True M t (deliver_all yield_frame (replicate n KeepAlive))"
  by (induction n) (auto intro!: keeps_bind keeps_yield_comment keeps_give)

lemma keeps_open: "of_books M \<Longrightarrow> keeps True M t (open_upstream x)"
  unfolding open_upstream_def wait_ticking_def by (intro keeps_bind keeps_await keeps_comments)

lemma keeps_read_body: "of_books M \<Longrightarrow> keeps True M t (read_body x)"
  unfolding read_body_def
  by (intro keeps_bind) (auto simp: keeps_read_chat keeps_read_native keeps_await keeps_throw)

section \<open>The phases\<close>

text \<open>The books before the engine has finished, and after.\<close>

definition open_books :: "stream_env \<Rightarrow> run \<Rightarrow> bool" where
  "open_books x r \<longleftrightarrow> rn_held r = se_lease x \<and> rn_releases r = [] \<and> rn_telemetry r = []
     \<and> rn_status r = ''in_progress'' \<and> rn_stored r = []"

definition done_books :: "stream_env \<Rightarrow> run \<Rightarrow> bool" where
  "done_books x r \<longleftrightarrow> \<not> rn_held r \<and> rn_releases r = (if se_lease x then [''completed''] else [])
     \<and> map fst (rn_telemetry r) = [''success''] \<and> rn_stored r = []"

lemma of_books_phases: "of_books (open_books x)" "of_books (done_books x)"
  by (simp_all add: of_books_def books_def open_books_def done_books_def)

definition keep_fails :: "stream_env \<Rightarrow> bool" where
  "keep_fails x \<longleftrightarrow> se_persist x \<and> (se_lease x \<and> se_released x \<noteq> Answered \<or> se_store x \<noteq> Answered)"

text \<open>A response that has been completed.\<close>

definition completed_run :: "stream_env \<Rightarrow> run \<Rightarrow> bool" where
  "completed_run x = concluded (done_books x)"

definition body_left :: "stream_env \<Rightarrow> exn \<Rightarrow> run \<Rightarrow> bool" where
  "body_left x e r \<longleftrightarrow> left True (open_books x) [] e r \<or> left True (done_books x) [] e r
     \<or> (\<exists>k\<in>set ENDS. left True (done_books x) [k] e r \<and> (is_exception e \<longrightarrow> keep_fails x))"

lemma first_frames_ok: "keeps True (open_books x) [] first_frames"
proof -
  have "keeps True (open_books x) [] (response_event k)" if "k \<in> {''response.created'', ''response.in_progress''}" for k
    unfolding keeps_def
    by (rule hoare_conseq [OF hoare_event [OF of_books_phases(1), where k = k and E = "left True (open_books x) []"]]) (use that in auto)
  then show ?thesis unfolding first_frames_def
    by (intro keeps_bind keeps_drained of_books_phases) simp_all
qed

lemma record_success_ok:
  "hoare (good (open_books x) []) (record_success x) (\<lambda>_. good (done_books x) []) E"
  unfolding record_success_def
  by (rule hoare_change)
    (auto simp: good_def open_books_def done_books_def release_run_def telemetry_def run_log_def)

lemma close_stream_ok:
  "hoare (good (done_books x) []) (close_stream x)
     (\<lambda>_ r. good (done_books x) [] r \<and> live (rn_stream r) = []) (left True (done_books x) [])"
proof -
  have "keeps True (done_books x) [] (close_stream x)"
    unfolding close_stream_def by (intro keeps_bind keeps_on_stream keeps_drained of_books_phases tame_close_out)
  moreover have "live (rn_stream r') = []" if g: "good (done_books x) [] r" and c: "close_stream x r = (Inr a, r')" for r a r'
  proof -
    obtain gone where "stream_ok 0 (sent_events (rn_sent r)) gone (rn_stream r)" using g by (auto simp: good_def)
    then have "live (close_out (se_allowed x) (rn_stream r)) = []" using close_out_ok by blast
    moreover have "drain_frames (r\<lparr>rn_stream := close_out (se_allowed x) (rn_stream r)\<rparr>) = (Inr a, r')"
      using c by (simp add: close_stream_def and_then_def on_stream_def change_def)
    ultimately show ?thesis using frames_drained(4) by fastforce
  qed
  ultimately show ?thesis unfolding keeps_def by (rule hoare_and)
qed

lemma settable_done: "settable (done_books x)"
  using of_books_phases(2) by (auto simp: settable_def done_books_def)

lemma settle_ok:
  "hoare (\<lambda>r. good (done_books x) [] r \<and> live (rn_stream r) = []) (settle x) (\<lambda>_. completed_run x) (body_left x)"
  unfolding settle_def drain_frames_def
  by (rule hoare_conseq [OF sse.settled [OF settable_done]]) (auto simp: completed_run_def body_left_def settle_left_def)

text \<open>The response kept, or not to be kept.\<close>

definition kept_run :: "stream_env \<Rightarrow> run \<Rightarrow> bool" where
  "kept_run x r \<longleftrightarrow> completed_run x (r\<lparr>rn_stored := []\<rparr>)
     \<and> rn_stored r = (if se_persist x then [(rn_status r, rn_output r)] else [])"

lemma good_stored: "good M t (r\<lparr>rn_stored := xs\<rparr>) \<longleftrightarrow> M (r\<lparr>rn_stored := xs\<rparr>) \<and> (good (\<lambda>_. True) t r)"
  by (simp add: good_def run_log_def)

lemma keep_ok: "hoare (completed_run x) (keep_response x) (\<lambda>_. kept_run x) (body_left x)"
  unfolding hoare_def
proof (intro allI impI)
  fix r
  assume c: "completed_run x r"
  have st: "rn_stored r = []" using c by (auto simp: completed_run_def concluded_def good_def done_books_def)
  then have s: "completed_run x (r\<lparr>rn_stored := []\<rparr>)" using c by (metis (no_types, lifting) run.surjective run.update_convs(13))
  obtain k where k: "k \<in> set ENDS" "good (done_books x) [k] r" using c by (auto simp: completed_run_def concluded_def)
  have fails: "body_left x e r" if "keep_fails x" for e
    using good_left [OF k(2)] k(1) that by (auto simp: body_left_def)
  show "case keep_response x r of (Inr a, r') \<Rightarrow> kept_run x r' | (Inl e, r') \<Rightarrow> body_left x e r'"
  proof (cases "se_persist x")
    case False
    with s st show ?thesis by (simp add: keep_response_def give_def kept_run_def)
  next
    case True
    show ?thesis
    proof (cases "se_lease x \<and> se_released x \<noteq> Answered")
      case True
      then obtain e where "se_released x = Threw e" by (cases "se_released x") auto
      with True \<open>se_persist x\<close> fails show ?thesis
        by (simp add: keep_response_def and_then_def await_answer_def throw_def keep_fails_def)
    next
      case False
      then have "keep_response x r = store (se_store x) (rn_output r) r"
        using True by (auto simp: keep_response_def and_then_def await_answer_def give_def)
      with True s st fails show ?thesis
        by (cases "se_store x")
          (auto simp: store_def and_then_def await_answer_def give_def throw_def change_def kept_run_def keep_fails_def)
    qed
  qed
qed

lemma body_ok: "hoare (good (open_books x) []) (stream_body x) (\<lambda>_. kept_run x) (body_left x)"
proof -
  have "hoare (good (open_books x) []) (open_upstream x) (\<lambda>_. good (open_books x) []) (body_left x)"
    "hoare (good (open_books x) []) (read_body x) (\<lambda>_. good (open_books x) []) (body_left x)"
    by (rule hoare_conseq [OF keeps_open [OF of_books_phases(1), unfolded keeps_def]], auto simp: body_left_def)
      (rule hoare_conseq [OF keeps_read_body [OF of_books_phases(1), unfolded keeps_def]], auto simp: body_left_def)
  moreover have "hoare (good (done_books x) []) (close_stream x)
     (\<lambda>_ r. good (done_books x) [] r \<and> live (rn_stream r) = []) (body_left x)"
    by (rule hoare_conseq [OF close_stream_ok]) (auto simp: body_left_def)
  ultimately show ?thesis unfolding stream_body_def
    by (intro hoare_bind) (rule record_success_ok settle_ok keep_ok | assumption)+
qed

section \<open>How a connection ends\<close>

text \<open>
  The books of a finished connection: one release and one record of telemetry, and they agree; a
  connection without a lease has neither to settle.
\<close>

definition settled :: "stream_env \<Rightarrow> run \<Rightarrow> bool" where
  "settled x r \<longleftrightarrow> \<not> rn_held r
     \<and> (se_lease x \<longrightarrow> (rn_releases r, map fst (rn_telemetry r)) \<in> set OUTCOMES)"

text \<open>While a failure is being answered, and after it has been stored.\<close>

definition failing_books :: "stream_env \<Rightarrow> run \<Rightarrow> bool" where
  "failing_books x r \<longleftrightarrow> rn_status r = ''failed'' \<and> rn_stored r = []
     \<and> (rn_held r = se_lease x \<and> rn_releases r = [] \<and> map fst (rn_telemetry r) = [''error'']
        \<or> \<not> rn_held r \<and> rn_releases r = (if se_lease x then [''completed''] else [])
          \<and> map fst (rn_telemetry r) = [''success''])"

lemma of_books_failing: "of_books (failing_books x)"
  by (simp add: of_books_def books_def failing_books_def)

lemma failing_settled: "failing_books x r \<Longrightarrow> settled x (release_finally r)"
  by (auto simp: failing_books_def settled_def release_finally_def release_run_def OUTCOMES_def)

lemma good_mono: "good M t r \<Longrightarrow> (\<And>r. M r \<Longrightarrow> M' r) \<Longrightarrow> good M' t r"
  by (auto simp: good_def)

text \<open>
  What is true of the frames and the books at the end, whatever ended it. \<open>ts\<close> are the
  terminal events sent at most.
\<close>

definition over :: "stream_env \<Rightarrow> nat \<Rightarrow> run \<Rightarrow> bool" where
  "over x n r \<longleftrightarrow> settled x r \<and> numbered (rn_sent r) \<and> length (terminals (rn_sent r)) \<le> n
     \<and> DoneFrame \<notin> set (rn_sent r)"

definition failed_run :: "stream_env \<Rightarrow> run \<Rightarrow> bool" where
  "failed_run x r \<longleftrightarrow> (\<exists>t. good (\<lambda>_. True) (t @ [''response.failed'']) r \<and> (t = [] \<or> keep_fails x \<and> length t = 1))
     \<and> ends_with ''response.failed'' r \<and> em_pending (ss_emitter (rn_stream r)) = []
     \<and> rn_status r = ''failed'' \<and> rn_stored r = (if se_persist x then [(''failed'', [])] else [])"

definition limit :: "stream_env \<Rightarrow> nat" where
  "limit x = (if keep_fails x then 2 else 1)"

definition over_finally :: "stream_env \<Rightarrow> run \<Rightarrow> bool" where
  "over_finally x r \<longleftrightarrow> over x (limit x) (release_finally r) \<and> rn_stored r = []"

lemma left_over:
  "left True (failing_books x) t e r \<Longrightarrow> length t \<le> limit x \<Longrightarrow> over_finally x r"
  using failing_settled [of x r]
  by (auto simp: left_def over_def over_finally_def release_finally_def release_run_def failing_books_def)

lemma fail_drain_ok:
  assumes "t = [] \<or> keep_fails x \<and> length t = 1"
  shows "hoare (\<lambda>r. good (failing_books x) (t @ [''response.failed'']) r \<and> ends_with ''response.failed'' r)
     drain_frames
     (\<lambda>_ r. good (failing_books x) (t @ [''response.failed'']) r \<and> ends_with ''response.failed'' r
        \<and> em_pending (ss_emitter (rn_stream r)) = []) (\<lambda>e. over_finally x)"
  unfolding hoare_def
proof (intro allI impI)
  fix r
  assume g: "good (failing_books x) (t @ [''response.failed'']) r \<and> ends_with ''response.failed'' r"
  obtain y r' where d: "drain_frames r = (y, r')" by fastforce
  have h: "case y of Inr a \<Rightarrow> good (failing_books x) (t @ [''response.failed'']) r' \<and> em_pending (ss_emitter (rn_stream r')) = []
      | Inl e \<Rightarrow> left True (failing_books x) (t @ [''response.failed'']) e r'"
    by (rule hoareD [OF frames_drain [OF of_books_failing] conjunct1 [OF g] d])
  have n: "length (t @ [''response.failed'']) \<le> limit x" using assms by (auto simp: limit_def)
  show "case drain_frames r of (Inr a, r') \<Rightarrow> good (failing_books x) (t @ [''response.failed'']) r'
        \<and> ends_with ''response.failed'' r' \<and> em_pending (ss_emitter (rn_stream r')) = []
      | (Inl e, r') \<Rightarrow> over_finally x r'"
  proof (cases y)
    case (Inl e)
    with h have "over_finally x r'" by (auto intro: left_over [OF _ n])
    with d Inl show ?thesis by simp
  next
    case (Inr u)
    with d h g frames_drained(2) [of r u r'] show ?thesis by (simp add: ends_with_def)
  qed
qed

lemma settled_stored [simp]: "settled x (release_finally (r\<lparr>rn_stored := s\<rparr>)) = settled x (release_finally r)"
  by (simp add: settled_def release_finally_def release_run_def)

lemma failed_ok:
  assumes "t = [] \<or> keep_fails x \<and> length t = 1" "good (failing_books x) (t @ [''response.failed'']) r"
    "ends_with ''response.failed'' r" "em_pending (ss_emitter (rn_stream r)) = []"
  shows "failed_run x (r\<lparr>rn_stored := (if se_persist x then [(''failed'', [])] else [])\<rparr>)"
    "settled x (release_finally r)" "over_finally x r"
    "rn_status r = ''failed''" "rn_stored r = []"
proof -
  have b: "failing_books x r" using assms(2) by (simp add: good_def)
  then show "rn_status r = ''failed''" "rn_stored r = []" by (simp_all add: failing_books_def)
  show "settled x (release_finally r)" by (rule failing_settled [OF b])
  have "left True (failing_books x) (t @ [''response.failed'']) GeneratorExit r" by (rule good_left [OF assms(2)])
  then show "over_finally x r" by (rule left_over) (use assms(1) in \<open>auto simp: limit_def\<close>)
  have "good (\<lambda>_. True) (t @ [''response.failed'']) (r\<lparr>rn_stored := (if se_persist x then [(''failed'', [])] else [])\<rparr>)"
    using assms(2) by (simp add: good_def run_log_def)
  then show "failed_run x (r\<lparr>rn_stored := (if se_persist x then [(''failed'', [])] else [])\<rparr>)"
    using assms(1,3,4) b unfolding failed_run_def
    by (intro conjI exI [of _ t]) (simp_all add: failing_books_def ends_with_def run_log_def)
qed

lemma fail_store_ok:
  assumes "t = [] \<or> keep_fails x \<and> length t = 1"
  shows "hoare (\<lambda>r. good (failing_books x) (t @ [''response.failed'']) r \<and> ends_with ''response.failed'' r
        \<and> em_pending (ss_emitter (rn_stream r)) = [])
     (if se_persist x then store (se_store_failed x) [] else give ())
     (\<lambda>_ r. failed_run x r \<and> settled x (release_finally r)) (\<lambda>e. over_finally x)"
  unfolding hoare_def
proof (intro allI impI)
  fix r
  assume g: "good (failing_books x) (t @ [''response.failed'']) r \<and> ends_with ''response.failed'' r
      \<and> em_pending (ss_emitter (rn_stream r)) = []"
  note ok = failed_ok [OF assms, of r] g
  have same: "r\<lparr>rn_stored := []\<rparr> = r" using ok by (cases r) simp
  show "case (if se_persist x then store (se_store_failed x) [] else give ()) r of
      (Inr a, r') \<Rightarrow> failed_run x r' \<and> settled x (release_finally r') | (Inl e, r') \<Rightarrow> over_finally x r'"
  proof (cases "se_persist x")
    case False
    with ok same show ?thesis by (simp add: give_def)
  next
    case True
    with ok show ?thesis
      by (cases "se_store_failed x") (simp_all add: store_def and_then_def await_answer_def give_def throw_def change_def)
  qed
qed

lemma fail_ok:
  assumes "t = [] \<or> keep_fails x \<and> length t = 1"
  shows "hoare (\<lambda>r. good (open_books x) t r \<or> good (done_books x) t r) (fail_response x)
     (\<lambda>_ r. failed_run x r \<and> settled x (release_finally r)) (\<lambda>e. over_finally x)"
proof -
  have 1: "hoare (\<lambda>r. good (open_books x) t r \<or> good (done_books x) t r)
     (change (\<lambda>r. (record_failure ''error'' r)\<lparr>rn_status := ''failed''\<rparr>)) (\<lambda>_. good (failing_books x) t) (\<lambda>e. over_finally x)"
    by (rule hoare_change)
      (auto simp: good_def open_books_def done_books_def failing_books_def record_failure_def telemetry_def run_log_def)
  have 2: "hoare (good (failing_books x) t) (response_event ''response.failed'')
     (\<lambda>_ r. good (failing_books x) (t @ [''response.failed'']) r \<and> ends_with ''response.failed'' r) (\<lambda>e. over_finally x)"
    by (rule hoare_and) (use hoare_event [OF of_books_failing, of x t "''response.failed''"] in simp, auto simp: event_frame)
  show ?thesis unfolding fail_response_def
    by (rule hoare_bind [OF 1], rule hoare_bind [OF 2], rule hoare_bind [OF fail_drain_ok [OF assms]], rule fail_store_ok [OF assms])
qed

lemma release_finally_free: "\<not> rn_held r \<Longrightarrow> release_finally r = r"
  by (simp add: release_finally_def release_run_def)

lemma failed_run_release [simp]: "failed_run x (release_finally r) = failed_run x r"
  by (simp add: failed_run_def release_finally_def release_run_def good_def run_log_def ends_with_def)

lemma kept_settled: "kept_run x r \<Longrightarrow> settled x r \<and> \<not> rn_held r"
  by (auto simp: kept_run_def completed_run_def concluded_def good_def done_books_def settled_def OUTCOMES_def)

lemma cancelled_over:
  assumes "left True M t e r" "M = open_books x \<or> M = done_books x" "length t \<le> limit x"
  shows "over x (limit x) (release_finally (record_failure ''cancelled'' r)) \<and> rn_stored (release_finally (record_failure ''cancelled'' r)) = []"
  using assms
  by (auto simp: left_def over_def settled_def open_books_def done_books_def record_failure_def telemetry_def
      release_finally_def release_run_def OUTCOMES_def)

lemma body_left_cases:
  assumes "body_left x e r"
  obtains M t where "left True M t e r" "M = open_books x \<or> M = done_books x" "length t \<le> limit x"
    "is_exception e \<Longrightarrow> t = [] \<or> keep_fails x \<and> length t = 1"
proof -
  have n: "length ([] :: string list) \<le> limit x" "\<And>k :: string. length [k] \<le> limit x"
    by (simp_all add: limit_def)
  consider "left True (open_books x) [] e r" | "left True (done_books x) [] e r"
    | k where "left True (done_books x) [k] e r" "is_exception e \<longrightarrow> keep_fails x"
    using assms unfolding body_left_def by blast
  then show ?thesis
  proof cases
    case 1 then show ?thesis by (rule that [OF _ _ n(1)]) simp_all
  next
    case 2 then show ?thesis by (rule that [OF _ _ n(1)]) simp_all
  next
    case 3 from 3(1) show ?thesis by (rule that [OF _ _ n(2)]) (use 3(2) in simp_all)
  qed
qed

lemma guarded_ok:
  "hoare (good (open_books x) []) (stream_guarded x)
     (\<lambda>_ r. settled x r \<and> (kept_run x r \<or> failed_run x r)) (\<lambda>e r. over x (limit x) r \<and> rn_stored r = [])"
  unfolding hoare_def
proof (intro allI impI)
  fix r
  assume g: "good (open_books x) [] r"
  obtain y r1 where b: "stream_body x r = (y, r1)" by fastforce
  note h = hoareD [OF body_ok g b]
  show "case stream_guarded x r of (Inr a, r') \<Rightarrow> settled x r' \<and> (kept_run x r' \<or> failed_run x r')
      | (Inl e, r') \<Rightarrow> over x (limit x) r' \<and> rn_stored r' = []"
  proof (cases y)
    case (Inr u)
    with h have "kept_run x r1" by simp
    from this kept_settled [OF this] release_finally_free show ?thesis
      using b Inr by (simp add: stream_guarded_def)
  next
    case (Inl e)
    with h have l: "body_left x e r1" by simp
    show ?thesis
    proof (cases "is_exception e")
      case False
      from l obtain M t where "left True M t e r1" "M = open_books x \<or> M = done_books x" "length t \<le> limit x"
        by (rule body_left_cases)
      from cancelled_over [OF this] b Inl False show ?thesis by (simp add: stream_guarded_def)
    next
      case True
      then obtain t where t: "t = [] \<or> keep_fails x \<and> length t = 1" "good (open_books x) t r1 \<or> good (done_books x) t r1"
        using l by (elim body_left_cases) (auto simp: left_def)
      obtain z r2 where f: "fail_response x r1 = (z, r2)" by fastforce
      from hoareD [OF fail_ok [OF t(1)] t(2) f] f b Inl True show ?thesis
        by (cases z) (simp_all add: stream_guarded_def over_finally_def release_finally_def release_run_def failed_run_def
            good_def run_log_def ends_with_def)
    qed
  qed
qed

lemma start_good: "good (open_books x) [] (start_run x n)"
  using new_stream_ok [of new_emitter "se_phase x"]
  by (auto simp: good_def open_books_def start_run_def run_log_def event_log_def new_stream_def new_emitter_def)

lemma serve_ends:
  assumes "serve x n = (res, r)"
  obtains (stopped) e where "res = Inl e" "over x (limit x) r" "rn_stored r = []"
    | (ended) r0 where "settled x r0" "kept_run x r0 \<or> failed_run x r0" "r = r0\<lparr>rn_sent := rn_sent r0 @ [DoneFrame], rn_takes := rn_takes r0 - 1\<rparr>"
proof -
  obtain y r1 where f: "first_frames (start_run x n) = (y, r1)" by fastforce
  note h = hoareD [OF first_frames_ok [unfolded keeps_def] start_good f]
  show ?thesis
  proof (cases y)
    case (Inl e)
    with h have l: "left True (open_books x) [] e r1" by simp
    then have "res = Inl e" "over x (limit x) r" "rn_stored r = []"
      using assms f Inl
      by (auto simp: serve_def stream_events_def left_def over_def settled_def open_books_def telemetry_def release_run_def
          OUTCOMES_def split: if_splits)
    then show ?thesis by (rule stopped)
  next
    case (Inr u)
    with h have g: "good (open_books x) [] r1" by simp
    obtain z r2 where s: "stream_guarded x r1 = (z, r2)" by fastforce
    note h2 = hoareD [OF guarded_ok g s]
    show ?thesis
    proof (cases z)
      case (Inl e)
      with assms f Inr s have r: "r = r2" and "res = Inl e"
        by (simp_all add: serve_def stream_events_def and_then_def)
      moreover from h2 Inl have "over x (limit x) r2" "rn_stored r2 = []" by simp_all
      ultimately show ?thesis using stopped by blast
    next
      case (Inr v)
      with assms f \<open>y = Inr u\<close> s have "r = r2\<lparr>rn_sent := rn_sent r2 @ [DoneFrame], rn_takes := rn_takes r2 - 1\<rparr>"
        by (auto simp: serve_def stream_events_def and_then_def yield_frame_def Let_def split: if_splits)
      with h2 Inr show ?thesis by (auto intro: ended)
    qed
  qed
qed

section \<open>The properties of a connection\<close>

lemma serve_settles:
  assumes "se_lease x" "serve x n = (res, r)"
  shows "\<not> rn_held r \<and> (rn_releases r, map fst (rn_telemetry r)) \<in> set OUTCOMES"
  using assms(2)
proof (cases rule: serve_ends)
  case (stopped e)
  with assms(1) show ?thesis by (auto simp: over_def settled_def)
next
  case (ended r0)
  with assms(1) show ?thesis by (auto simp: settled_def OUTCOMES_def)
qed


text \<open>What is known of the events of a response that has been completed or failed.\<close>

lemma ended_frames:
  assumes "kept_run x r \<or> failed_run x r"
  shows "numbered (rn_sent r) \<and> DoneFrame \<notin> set (rn_sent r)
    \<and> terminal_of (snd (last (sent_events (rn_sent r)))) = Some (''response.'' @ rn_status r)
    \<and> (\<not> keep_fails x \<longrightarrow> terminals (rn_sent r) = [''response.'' @ rn_status r])"
  using assms
proof
  assume "kept_run x r"
  then have "completed_run x (r\<lparr>rn_stored := []\<rparr>)" by (simp add: kept_run_def)
  then obtain k where "good (done_books x) [k] (r\<lparr>rn_stored := []\<rparr>)" "ends_with k (r\<lparr>rn_stored := []\<rparr>)"
    "k = ''response.'' @ rn_status r" "em_pending (ss_emitter (rn_stream r)) = []"
    by (auto simp: completed_run_def concluded_def)
  then show ?thesis using good_left [of "done_books x" "[k]" "r\<lparr>rn_stored := []\<rparr>" True GeneratorExit]
    by (simp add: good_def left_def ends_with_def run_log_def event_log_def terminals_def)
next
  assume "failed_run x r"
  then obtain t where "good (\<lambda>_. True) (t @ [''response.failed'']) r" "t = [] \<or> keep_fails x"
    "ends_with ''response.failed'' r" "em_pending (ss_emitter (rn_stream r)) = []" "rn_status r = ''failed''"
    by (auto simp: failed_run_def)
  then show ?thesis using good_left [of "\<lambda>_. True" "t @ [''response.failed'']" r True GeneratorExit]
    by (auto simp: good_def left_def ends_with_def run_log_def event_log_def terminals_def)
qed



end
