(* ===== verification/ResponseSocket.thy ===== *)
theory ResponseSocket
  imports ResponseRun
begin

text \<open>
  The WebSocket transport of the Responses API (backend/app/api/routes/v1/responses/ws.py): one
  turn (\<open>_stream_to_ws\<close>) in the scripts of \<open>ResponseRun\<close>, over a socket that takes a number of messages
  and is gone then, and the loop of a connection with its continuation cache
  (\<open>responses_websocket\<close>).
  \<^item> A \<open>with Session(engine)\<close> in \<open>_stream_to_ws\<close> names the local variable \<open>engine\<close>, the engine of the
    serving instance, which shadows the database engine of the module. What a session bound to
    such a name does is an argument (\<open>sk_session\<close>).
  \<^item> Times of the connection limit, the queue of received messages and their JSON are the
    messages of a list: each says what the loop finds before it.
\<close>

section \<open>Tool outputs\<close>

text \<open>An item of a conversation, as far as the check of tool outputs tells items apart.\<close>

datatype chain_item =
    ChainCall "ident option"
  | ChainOutput "ident option"
  | ChainOther string

definition present :: "ident option \<Rightarrow> bool" where
  "present c \<longleftrightarrow> c \<noteq> None \<and> c \<noteq> Some (Given [])"

fun check_outputs :: "ident list \<Rightarrow> chain_item list \<Rightarrow> exn option" where
  "check_outputs ids [] = None"
| "check_outputs ids (ChainCall c # items) = check_outputs (if present c then the c # ids else ids) items"
| "check_outputs ids (ChainOutput c # items) =
     (if c \<noteq> None \<and> the c \<in> set ids then check_outputs ids items
      else Some (TranslationError ''No matching tool call exists for call_id''))"
| "check_outputs ids (ChainOther s # items) = check_outputs ids items"

definition validate_tool_outputs :: "chain_item list \<Rightarrow> chain_item list \<Rightarrow> exn option" where
  "validate_tool_outputs items history = check_outputs [] (history @ items)"

text \<open>An item of the output, as it goes into the cache.\<close>

fun chain_of :: "out_item \<Rightarrow> chain_item" where
  "chain_of (CallItem i c n a d) = ChainCall (Some c)"
| "chain_of (MessageItem i ph t) = ChainOther (case t of None \<Rightarrow> [] | Some x \<Rightarrow> x)"
| "chain_of (ReasoningItem i t) = ChainOther (case t of None \<Rightarrow> [] | Some x \<Rightarrow> x)"

section \<open>A turn\<close>

definition socket_send :: "frame \<Rightarrow> unit script" where
  "socket_send f r =
     (if rn_takes r = 0 then (Inl (OtherError ''WebSocketDisconnect''), r)
      else (Inr (), r\<lparr>rn_sent := rn_sent r @ [f], rn_takes := rn_takes r - 1\<rparr>))"

definition send_events :: "unit script" where
  "send_events = drain_with socket_send"

record turn_env =
  sk_run :: stream_env
  sk_id :: string
  sk_resolve :: answer
  sk_acquire :: answer
  sk_agent :: bool
  sk_previous :: "string option"
  sk_engine :: "string option"
  sk_session :: "string option \<Rightarrow> exn + chain_item list"
  sk_items :: "chain_item list"
  sk_policy :: answer

definition to_script :: "exn + 'a \<Rightarrow> 'a script" where
  "to_script x = (case x of Inl e \<Rightarrow> throw e | Inr a \<Rightarrow> give a)"

text \<open>Target, lease, agent, history and its check.\<close>

definition turn_history :: "turn_env \<Rightarrow> chain_item list \<Rightarrow> exn + chain_item list" where
  "turn_history x history =
     (case (if sk_previous x \<noteq> None \<and> se_persist (sk_run x) then sk_session x (sk_engine x) else Inr history) of
        Inl e \<Rightarrow> Inl e
      | Inr h \<Rightarrow> (case validate_tool_outputs (sk_items x) h of None \<Rightarrow> Inr h | Some e \<Rightarrow> Inl e))"

definition begin_turn :: "turn_env \<Rightarrow> chain_item list \<Rightarrow> unit script" where
  "begin_turn x history =
     and_then (await_answer (sk_resolve x)) (\<lambda>_.
     and_then (await_answer (sk_acquire x)) (\<lambda>_.
     and_then (change (\<lambda>r. r\<lparr>rn_held := True\<rparr>)) (\<lambda>_.
     and_then (if sk_agent x then give () else throw (TargetError 503 ''no_agent_available'' ''Agent not found'')) (\<lambda>_.
     and_then (to_script (turn_history x history)) (\<lambda>_. give ())))))"

definition open_turn :: "unit script" where
  "open_turn = and_then (response_event ''response.created'') (\<lambda>_.
     and_then (response_event ''response.in_progress'') (\<lambda>_. send_events))"

text \<open>Feeding a choice; unlike the generator, the finish reason does not end reasoning here.\<close>

definition socket_choice :: "chat_choice \<Rightarrow> stream_state \<Rightarrow> stream_state" where
  "socket_choice c s = feed_tools (cc_tools c) (add_text_delta (cc_content c) (add_reasoning_delta (cc_reasoning c) s))"

fun read_socket :: "stream_env \<Rightarrow> upstream list \<Rightarrow> bool script" where
  "read_socket x [] = give False"
| "read_socket x (Idle # us) = read_socket x us"
| "read_socket x (Broke e # us) = throw e"
| "read_socket x (Line line # us) =
     (case sse_data line of
        None \<Rightarrow> read_socket x us
      | Some data \<Rightarrow>
          if se_native x
          then (case se_native_loads x data of
                  None \<Rightarrow> read_socket x us
                | Some ev \<Rightarrow> and_then (native_step send_events ev)
                    (\<lambda>terminal. if terminal then give True else read_socket x us))
          else if strip data = ''[DONE]'' then give True
          else (case se_loads x data of
                  None \<Rightarrow> read_socket x us
                | Some c \<Rightarrow> and_then (chat_chunk_step socket_choice send_events c) (\<lambda>_. read_socket x us)))"

definition read_turn :: "turn_env \<Rightarrow> unit script" where
  "read_turn x =
     and_then (await_answer (se_payload (sk_run x))) (\<lambda>_.
     and_then (await_answer (snd (se_open (sk_run x)))) (\<lambda>_.
     and_then (await_answer (se_status (sk_run x))) (\<lambda>_.
     and_then (read_socket (sk_run x) (se_lines (sk_run x))) (\<lambda>marker.
     and_then (await_answer (se_close (sk_run x))) (\<lambda>_.
     if marker then give () else throw (RuntimeError ''LLM stream ended without a completion marker''))))))"

definition finish_stream :: "stream_state \<Rightarrow> stream_state" where
  "finish_stream s = finish_message (finish_calls (finish_reasoning s))"

text \<open>Status, output, terminal event: as in the generator, sent over the socket.\<close>

definition settle_turn :: "stream_env \<Rightarrow> unit script" where
  "settle_turn = settle_with send_events"

definition finish_turn :: "turn_env \<Rightarrow> unit script" where
  "finish_turn x =
     and_then (change (\<lambda>r. telemetry ''success'' (Some (final_usage (sk_run x) r)) r)) (\<lambda>_.
     and_then (change (release_run ''completed'')) (\<lambda>_.
     and_then (on_stream finish_stream) (\<lambda>_.
     and_then send_events (\<lambda>_.
     and_then (settle_turn (sk_run x)) (\<lambda>_.
     if se_persist (sk_run x) then (\<lambda>r. store (se_store (sk_run x)) (rn_output r) r) else give ())))))"

text \<open>The body; its value is whether the turn got to its end (a refused effort does not).\<close>

definition turn_body :: "turn_env \<Rightarrow> chain_item list \<Rightarrow> bool script" where
  "turn_body x history =
     and_then (begin_turn x history) (\<lambda>_.
     and_then open_turn (\<lambda>_.
     (case sk_policy x of
        Threw (ReasoningPolicyError msg) \<Rightarrow>
          and_then (socket_send (ErrorFrame 400 ''unsupported_capability'' (Some ''reasoning.effort''))) (\<lambda>_. give False)
      | Threw e \<Rightarrow> throw e
      | Answered \<Rightarrow> and_then (read_turn x) (\<lambda>_. and_then (finish_turn x) (\<lambda>_. give True)))))"

definition error_status :: "nat \<Rightarrow> nat" where
  "error_status n = (if n \<ge> 500 then 503 else n)"

text \<open>A failure is answered over a new emitter, with a response of its own.\<close>

definition fail_turn :: "unit script" where
  "fail_turn = and_then (change (\<lambda>r. (record_failure ''error'' r)\<lparr>rn_stream := new_stream new_emitter None,
       rn_status := ''failed'', rn_output := []\<rparr>)) (\<lambda>_.
     and_then (response_event ''response.failed'') (\<lambda>_. send_events))"

definition stream_to_ws :: "turn_env \<Rightarrow> chain_item list \<Rightarrow> bool script" where
  "stream_to_ws x history r =
     (case turn_body x history r of
        (Inr b, r1) \<Rightarrow> (Inr b, release_run ''completed'' r1)
      | (Inl e, r1) \<Rightarrow>
          if \<not> is_exception e then (Inl e, release_run ''cancelled'' (record_failure ''cancelled'' r1))
          else (case (case e of
                   TargetError status code msg \<Rightarrow>
                     and_then (change (record_failure ''error'')) (\<lambda>_.
                       socket_send (ErrorFrame (error_status status) code (Some ''model'')))
                 | _ \<Rightarrow> fail_turn) r1 of
               (Inl e', r2) \<Rightarrow> (Inl e', release_run ''failed'' r2)
             | (Inr u, r2) \<Rightarrow> (Inr False, release_run ''failed'' r2)))"

definition start_turn :: "turn_env \<Rightarrow> nat \<Rightarrow> run" where
  "start_turn x takes = (start_run (sk_run x) takes)\<lparr>rn_held := False\<rparr>"

section \<open>The connection\<close>

text \<open>
  What the loop finds: the connection gone or out of time, no valid request, or a turn, with
  whether its previous response is found in the database. The previous id of a turn is None when
  missing or empty.
\<close>

record turn =
  tn_known :: bool
  tn_env :: turn_env

datatype socket_message = Gone | TooLate | NotJson | NotCreate | NotValid | Create turn

type_synonym cache = "(string \<times> chain_item list) list"

text \<open>The history a turn continues, or None when its previous response is missing.\<close>

definition continuation :: "cache \<Rightarrow> turn \<Rightarrow> chain_item list option" where
  "continuation cache t =
     (case sk_previous (tn_env t) of
        None \<Rightarrow> Some []
      | Some i \<Rightarrow>
          if se_persist (sk_run (tn_env t)) then (if tn_known t then Some [] else None)
          else map_of cache i)"

definition failed_turn :: "bool \<Rightarrow> run \<Rightarrow> bool" where
  "failed_turn b r \<longleftrightarrow> \<not> b \<or> rn_status r = ''failed''"

definition cache_after :: "turn \<Rightarrow> chain_item list \<Rightarrow> bool \<Rightarrow> run \<Rightarrow> cache \<Rightarrow> cache" where
  "cache_after t h b r cache =
     (if failed_turn b r
      then (case sk_previous (tn_env t) of None \<Rightarrow> cache | Some i \<Rightarrow> AList.delete i cache)
      else AList.update (sk_id (tn_env t)) (h @ sk_items (tn_env t) @ map chain_of (rn_output r)) cache)"

record connection =
  cn_sent :: "frame list"
  cn_takes :: nat
  cn_cache :: cache
  cn_turns :: "(turn \<times> bool \<times> run) list"
  cn_open :: bool

definition say :: "frame \<Rightarrow> connection \<Rightarrow> connection" where
  "say f c = (if cn_takes c = 0 then c\<lparr>cn_open := False\<rparr>
     else c\<lparr>cn_sent := cn_sent c @ [f], cn_takes := cn_takes c - 1\<rparr>)"

definition take_turn :: "turn \<Rightarrow> chain_item list \<Rightarrow> connection \<Rightarrow> connection" where
  "take_turn t h c =
     (case stream_to_ws (tn_env t) h (start_turn (tn_env t) (cn_takes c)) of
        (res, r) \<Rightarrow>
          (let c1 = c\<lparr>cn_sent := cn_sent c @ rn_sent r, cn_takes := rn_takes r\<rparr>
           in case res of
                Inl e \<Rightarrow> c1\<lparr>cn_turns := cn_turns c @ [(t, False, r)], cn_open := False\<rparr>
              | Inr b \<Rightarrow> c1\<lparr>cn_turns := cn_turns c @ [(t, b, r)], cn_cache := cache_after t h b r (cn_cache c)\<rparr>))"

fun socket_step :: "socket_message \<Rightarrow> connection \<Rightarrow> connection" where
  "socket_step Gone c = c\<lparr>cn_open := False\<rparr>"
| "socket_step TooLate c = (say (ErrorFrame 400 ''websocket_connection_limit_reached'' None) c)\<lparr>cn_open := False\<rparr>"
| "socket_step NotJson c = say (ErrorFrame 400 ''invalid_request'' None) c"
| "socket_step NotCreate c = say (ErrorFrame 400 ''invalid_request'' (Some ''type'')) c"
| "socket_step NotValid c = say (ErrorFrame 400 ''invalid_request'' None) c"
| "socket_step (Create t) c =
     (case continuation (cn_cache c) t of
        None \<Rightarrow> say (ErrorFrame 404 ''previous_response_not_found'' (Some ''previous_response_id'')) c
      | Some h \<Rightarrow> take_turn t h c)"

fun serve_socket :: "socket_message list \<Rightarrow> connection \<Rightarrow> connection" where
  "serve_socket [] c = c"
| "serve_socket (m # ms) c = (if cn_open c then serve_socket ms (socket_step m c) else c)"

definition new_connection :: "nat \<Rightarrow> connection" where
  "new_connection takes = \<lparr>cn_sent = [], cn_takes = takes, cn_cache = [], cn_turns = [], cn_open = True\<rparr>"

end
