(* ===== verification/ResponseChain.thy ===== *)
theory ResponseChain
  imports Prelude
begin

text \<open>
  Continuation of a conversation: the table of stored responses, the lookup of the previous
  response, and the walk back along \<open>previous_response_id\<close> that rebuilds the history (\<open>_load_previous\<close>,
  \<open>_build_chain_history\<close>, \<open>_chain_depth\<close>, \<open>_persist_response\<close>,
  backend/app/api/routes/v1/responses/router.py). The type of the items is left open: the chain
  copies them.
\<close>

section \<open>The table\<close>

record 'i response_record =
  rr_id :: string
  rr_previous :: "string option"
  rr_input :: "'i list"
  rr_output :: "'i list"
  rr_status :: string
  rr_store :: bool

text \<open>The first row of \<open>SELECT ... WHERE response_id = i AND store\<close>.\<close>

definition stored_response :: "'i response_record list \<Rightarrow> string \<Rightarrow> 'i response_record option" where
  "stored_response db i = first_row (filter (\<lambda>r. rr_id r = i \<and> rr_store r) db)"

text \<open>A missing or empty id is no id.\<close>

definition given_id :: "string option \<Rightarrow> string option" where
  "given_id x = (case x of None \<Rightarrow> None | Some i \<Rightarrow> if i = [] then None else Some i)"

definition load_previous ::
  "'i response_record list \<Rightarrow> string option \<Rightarrow> exn + 'i response_record option" where
  "load_previous db previous =
     (case given_id previous of
        None \<Rightarrow> Inr None
      | Some i \<Rightarrow>
          (case stored_response db i of
             None \<Rightarrow> Inl (HttpStatus 404 (''Previous response with id '' @ [CHR 39] @ i @ [CHR 39] @ '' not found.''))
           | Some r \<Rightarrow> Inr (Some r)))"

section \<open>The walk\<close>

lemma stored_response_Some:
  "stored_response db i = Some r \<Longrightarrow> r \<in> set db \<and> rr_id r = i \<and> rr_store r"
  by (auto simp: stored_response_def first_row_def split: list.splits dest: filter_eq_ConsD)

text \<open>The ids still to be seen: those of the table and of the current record. A step leaves fewer.\<close>

definition unseen :: "'i response_record list \<Rightarrow> string list \<Rightarrow> 'i response_record option \<Rightarrow> nat" where
  "unseen db seen current = (case current of None \<Rightarrow> 0
     | Some r \<Rightarrow> card (insert (rr_id r) (set (map rr_id db)) - set seen))"

lemma unseen_step:
  assumes new: "rr_id r \<notin> set seen"
  shows "unseen db (rr_id r # seen) (stored_response db i) < unseen db seen (Some r)"
proof (cases "stored_response db i")
  case None
  from new have "insert (rr_id r) (set (map rr_id db)) - set seen \<noteq> {}" by auto
  then have "0 < card (insert (rr_id r) (set (map rr_id db)) - set seen)" by (simp only: card_gt_0_iff) simp
  with None show ?thesis by (simp add: unseen_def)
next
  case (Some q)
  then have "rr_id q \<in> set (map rr_id db)" using stored_response_Some by fastforce
  then have "insert (rr_id q) (set (map rr_id db)) - set (rr_id r # seen) \<subset> insert (rr_id r) (set (map rr_id db)) - set seen"
    using new by auto
  then have "card (insert (rr_id q) (set (map rr_id db)) - set (rr_id r # seen)) < card (insert (rr_id r) (set (map rr_id db)) - set seen)"
    by (rule psubset_card_mono [rotated]) simp
  with Some show ?thesis by (simp add: unseen_def)
qed

text \<open>
  The loop: from \<open>current\<close>, not yet seen, to the root; the first record may be any, the others come
  from the table. It ends because the ids seen grow within those of the table.
\<close>

function chain_from ::
  "'i response_record list \<Rightarrow> string list \<Rightarrow> 'i response_record option \<Rightarrow> 'i response_record list" where
  "chain_from db seen None = []"
| "chain_from db seen (Some r) =
     (if rr_id r \<in> set seen then []
      else r # (case given_id (rr_previous r) of
                  None \<Rightarrow> []
                | Some i \<Rightarrow> chain_from db (rr_id r # seen) (stored_response db i)))"
  by pat_completeness auto

termination chain_from
  by (relation "measure (\<lambda>(db, seen, current). unseen db seen current)") (simp_all add: unseen_step)

definition build_chain_history ::
  "'i response_record list \<Rightarrow> 'i response_record option \<Rightarrow> 'i list" where
  "build_chain_history db previous =
     concat (map (\<lambda>r. rr_input r @ rr_output r) (rev (chain_from db [] previous)))"

text \<open>The second loop of the source counts instead of collecting.\<close>

function depth_from ::
  "'i response_record list \<Rightarrow> string list \<Rightarrow> nat \<Rightarrow> 'i response_record option \<Rightarrow> nat" where
  "depth_from db seen n None = n"
| "depth_from db seen n (Some r) =
     (if rr_id r \<in> set seen then n
      else (case given_id (rr_previous r) of
              None \<Rightarrow> n + 1
            | Some i \<Rightarrow> depth_from db (rr_id r # seen) (n + 1) (stored_response db i)))"
  by pat_completeness auto

termination depth_from
  by (relation "measure (\<lambda>(db, seen, n, current). unseen db seen current)") (simp_all add: unseen_step)

definition chain_depth :: "'i response_record list \<Rightarrow> 'i response_record option \<Rightarrow> nat" where
  "chain_depth db previous = depth_from db [] 0 previous"

text \<open>
  \<open>INSERT\<close> of a finished response (its unique index refuses a known id); the usage and parameter
  columns are left out.
\<close>

definition persist_response :: "'i response_record \<Rightarrow> 'i response_record list \<Rightarrow> exn + 'i response_record list" where
  "persist_response r db =
     (if rr_id r \<in> set (map rr_id db) then Inl (OtherError ''IntegrityError'') else Inr (db @ [r\<lparr>rr_store := True\<rparr>]))"

section \<open>What a continuation can rely on\<close>

lemma depth_chain: "depth_from db seen n cur = n + length (chain_from db seen cur)"
  by (induction db seen n cur rule: depth_from.induct) (auto split: option.split)

lemma stored_response_append:
  "i \<noteq> rr_id r \<Longrightarrow> stored_response (db @ [r]) i = stored_response db i"
  by (simp add: stored_response_def first_row_def split: list.split)

lemma other_id: "x \<notin> set (map rr_id db) \<Longrightarrow> q \<in> set db \<Longrightarrow> rr_id q \<noteq> x"
  by auto

lemma stored_response_new:
  assumes "rr_id r \<notin> set (map rr_id db)" "rr_store r"
  shows "stored_response (db @ [r]) (rr_id r) = Some r"
proof -
  have "filter (\<lambda>q. rr_id q = rr_id r \<and> rr_store q) db = []"
    using other_id [OF assms(1)] by (simp add: filter_empty_conv)
  with assms(2) show ?thesis by (simp add: stored_response_def first_row_def)
qed

text \<open>A record that nothing refers to does not show in other chains, whether seen or not.\<close>

lemma chain_stable:
  assumes "rr_id r \<notin> set (map rr_id db)" "\<forall>q\<in>set db. rr_previous q \<noteq> Some (rr_id r)"
    and "set seen' - {rr_id r} = set seen - {rr_id r}" "\<And>q. cur = Some q \<Longrightarrow> q \<in> set db"
  shows "chain_from (db @ [r]) seen' cur = chain_from db seen cur"
  using assms
proof (induction db seen cur arbitrary: seen' rule: chain_from.induct)
  case (2 db seen q)
  have q: "q \<in> set db" using 2(5) by simp
  have "rr_id q \<noteq> rr_id r" by (rule other_id [OF 2(2) q])
  then have seen: "rr_id q \<in> set seen' \<longleftrightarrow> rr_id q \<in> set seen" using 2(4) by blast
  show ?case
  proof (cases "rr_id q \<in> set seen")
    case True
    with seen show ?thesis by simp
  next
    case False
    show ?thesis
    proof (cases "given_id (rr_previous q)")
      case None
      with False seen show ?thesis by simp
    next
      case (Some i)
      then have "i \<noteq> rr_id r" using 2(3) q by (auto simp: given_id_def split: option.splits if_splits)
      then have "stored_response (db @ [r]) i = stored_response db i" by (rule stored_response_append)
      moreover have "chain_from (db @ [r]) (rr_id q # seen') (stored_response db i) =
          chain_from db (rr_id q # seen) (stored_response db i)"
        by (rule 2(1) [OF False Some 2(2,3)]) (use 2(4) stored_response_Some in auto)
      ultimately show ?thesis using False Some seen by simp
    qed
  qed
qed simp

text \<open>The chain of a new record: itself, then the chain of the record it continues.\<close>

lemma chain_new:
  assumes "rr_id r \<notin> set (map rr_id db)" "\<forall>q\<in>set db. rr_previous q \<noteq> Some (rr_id r)"
    and "given_id (rr_previous r) = Some i" "stored_response db i = Some p"
  shows "chain_from (db @ [r]) [] (Some r) = r # chain_from db [] (Some p)"
proof -
  have p: "p \<in> set db" "rr_id p = i" using stored_response_Some [OF assms(4)] by auto
  have "i \<noteq> rr_id r" using other_id [OF assms(1) p(1)] p(2) by simp
  then have "stored_response (db @ [r]) i = Some p" using assms(4) by (simp add: stored_response_append)
  moreover have "chain_from (db @ [r]) [rr_id r] (Some p) = chain_from db [] (Some p)"
    by (rule chain_stable [OF assms(1,2)]) (use p in auto)
  ultimately show ?thesis using assms(3) by simp
qed

text \<open>
  A stored response continues its conversation. When a response whose previous one is
  stored has been stored under a new id, it is found under that id, and the history rebuilt from
  it is the history of the previous one followed by its own input and output; its depth is one
  more. Nothing of earlier turns is lost or repeated.
\<close>

theorem history_extends:
  assumes "persist_response r db = Inr db'" "rr_id r \<noteq> []"
    "given_id (rr_previous r) = Some i" "stored_response db i = Some p"
    "\<forall>q\<in>set db. rr_previous q \<noteq> Some (rr_id r)"
  shows "\<exists>r'. load_previous db' (Some (rr_id r)) = Inr (Some r')
    \<and> build_chain_history db' (Some r') = build_chain_history db (Some p) @ rr_input r @ rr_output r
    \<and> chain_depth db' (Some r') = Suc (chain_depth db (Some p))"
proof -
  let ?r = "r\<lparr>rr_store := True\<rparr>"
  have new: "rr_id r \<notin> set (map rr_id db)" and db': "db' = db @ [?r]"
    using assms(1) by (auto simp: persist_response_def split: if_splits)
  have "stored_response db' (rr_id r) = Some ?r"
    using stored_response_new [of ?r db] new by (simp add: db')
  then have "load_previous db' (Some (rr_id r)) = Inr (Some ?r)"
    using assms(2) by (simp add: load_previous_def given_id_def)
  moreover have "chain_from db' [] (Some ?r) = ?r # chain_from db [] (Some p)"
    unfolding db' by (rule chain_new) (use new assms(3-5) in simp_all)
  ultimately show ?thesis by (simp add: build_chain_history_def chain_depth_def depth_chain)
qed

text \<open>The walk never visits a record twice, also when the links of the table form a cycle.\<close>

lemma chain_distinct: "distinct (map rr_id (chain_from db seen cur)) \<and> set (map rr_id (chain_from db seen cur)) \<inter> set seen = {}"
  by (induction db seen cur rule: chain_from.induct) (auto split: option.split)

definition demo_turn :: "string \<Rightarrow> string option \<Rightarrow> nat \<Rightarrow> nat response_record" where
  "demo_turn i p n = \<lparr>rr_id = i, rr_previous = p, rr_input = [n], rr_output = [n + 1], rr_status = ''completed'', rr_store = True\<rparr>"

lemma history_extends_witness:
  "\<exists>r'. load_previous [demo_turn ''a'' None 1, demo_turn ''b'' (Some ''a'') 3] (Some ''b'') = Inr (Some r')
    \<and> build_chain_history [demo_turn ''a'' None 1, demo_turn ''b'' (Some ''a'') 3] (Some r') = [1, 2, 3, 4]"
proof -
  let ?db = "[demo_turn ''a'' None 1]" and ?db' = "[demo_turn ''a'' None 1, demo_turn ''b'' (Some ''a'') 3]"
  have "\<exists>r'. load_previous ?db' (Some (rr_id (demo_turn ''b'' (Some ''a'') 3))) = Inr (Some r')
    \<and> build_chain_history ?db' (Some r') = build_chain_history ?db (Some (demo_turn ''a'' None 1))
        @ rr_input (demo_turn ''b'' (Some ''a'') 3) @ rr_output (demo_turn ''b'' (Some ''a'') 3)
    \<and> chain_depth ?db' (Some r') = Suc (chain_depth ?db (Some (demo_turn ''a'' None 1)))"
    by (rule history_extends [where i = "''a''"]) code_simp+
  then show ?thesis by (auto simp: demo_turn_def build_chain_history_def given_id_def)
qed

end
