(* ===== verification/ResponseSocketSafety.thy ===== *)
theory ResponseSocketSafety
  imports ResponseSocket ResponseScripts ResponseChain
begin

text \<open>
  What a turn over the WebSocket settles, what its messages say, and what the continuation cache
  of a connection holds: the history that the walk along stored responses would rebuild.
\<close>

section \<open>The socket as a channel\<close>

text \<open>A send on a socket that is gone raises an exception that is caught: not orderly.\<close>

interpretation socket: channel socket_send False
  by unfold_locales (auto simp: socket_send_def unsent_def split: if_splits)

lemmas events_drained = socket.drained [folded send_events_def]

lemma keeps_events: "of_books M \<Longrightarrow> keeps False M t send_events"
  unfolding send_events_def by (rule socket.keeps_drain)

lemma tame_socket: "tame (socket_choice c)"
proof -
  have fold: "stream_ok 0 sent gone (fold (\<lambda>(i, tc). add_tool_call_delta i tc) tcs s)" if "stream_ok 0 sent gone s" for tcs s sent gone
    using that by (induction tcs arbitrary: s) (auto simp: add_tool_call_ok)
  have "stream_ok 0 sent gone (socket_choice c s)" if "stream_ok 0 sent gone s" for s sent gone
    unfolding socket_choice_def feed_tools_def by (intro fold add_text_ok add_reasoning_ok that)
  moreover have "pending_ends (socket_choice c s) = pending_ends s" for s
    by (simp add: socket_choice_def feed_tools_def ends_fold split_beta)
  ultimately show ?thesis unfolding tame_def by blast
qed

lemma finish_stream_eq: "finish_stream s = close_out None s"
  by (simp add: finish_stream_def close_out_def apply_allowed_tools_def)

lemma keeps_read_socket:
  assumes "of_books M"
  shows "keeps False M t (read_socket x us)"
proof (induction us)
  case (Cons u us)
  then show ?case
    by (cases u) (auto simp: keeps_give keeps_throw split: option.split
        intro!: keeps_bind keeps_chunk [OF assms tame_socket keeps_events [OF assms]]
          keeps_native_step [OF assms keeps_events [OF assms]])
qed (simp add: keeps_give)

lemma keeps_read_turn: "of_books M \<Longrightarrow> keeps False M t (read_turn x)"
  unfolding read_turn_def by (intro keeps_bind keeps_await keeps_read_socket) (auto simp: keeps_give keeps_throw)

section \<open>The phases of a turn\<close>

text \<open>The books before the lease, under the lease, and after the engine has finished.\<close>

definition idle_books :: "run \<Rightarrow> bool" where
  "idle_books r \<longleftrightarrow> \<not> rn_held r \<and> rn_releases r = [] \<and> rn_telemetry r = [] \<and> rn_stored r = []"

definition leased_books :: "run \<Rightarrow> bool" where
  "leased_books r \<longleftrightarrow> rn_held r \<and> rn_releases r = [] \<and> rn_telemetry r = [] \<and> rn_stored r = []"

definition served_books :: "run \<Rightarrow> bool" where
  "served_books r \<longleftrightarrow> \<not> rn_held r \<and> rn_releases r = [''completed''] \<and> map fst (rn_telemetry r) = [''success''] \<and> rn_stored r = []"

lemma of_books_turn: "of_books idle_books" "of_books leased_books" "of_books served_books"
  by (simp_all add: of_books_def books_def idle_books_def leased_books_def served_books_def)

text \<open>How the body of a turn is left: the books say how far it had come.\<close>

definition turn_left :: "run \<Rightarrow> bool" where
  "turn_left r \<longleftrightarrow> idle_books r \<or> leased_books r \<or> served_books r"

lemma left_books: "left b M t e r \<Longrightarrow> M r"
  by (simp add: left_def)

text \<open>A turn that was answered: concluded, and stored if it was to be.\<close>

definition answered_turn :: "turn_env \<Rightarrow> run \<Rightarrow> bool" where
  "answered_turn x r \<longleftrightarrow> concluded served_books (r\<lparr>rn_stored := []\<rparr>)
     \<and> rn_stored r = (if se_persist (sk_run x) then [(rn_status r, rn_output r)] else [])"

lemma begin_turn_ok:
  "hoare (good idle_books []) (begin_turn x h) (\<lambda>_. good leased_books []) (\<lambda>e. turn_left)"
proof -
  have await: "hoare (good idle_books []) (await_answer a) (\<lambda>_. good idle_books []) (\<lambda>e. turn_left)" for a
    by (rule hoare_await) (auto simp: good_def turn_left_def)
  have held: "hoare (good idle_books []) (change (\<lambda>r. r\<lparr>rn_held := True\<rparr>)) (\<lambda>_. good leased_books []) (\<lambda>e. turn_left)"
    by (rule hoare_change) (auto simp: good_def idle_books_def leased_books_def run_log_def)
  have rest: "hoare (good leased_books []) (if b then give () else throw e) (\<lambda>_. good leased_books []) (\<lambda>e. turn_left)" for b e
    by (auto simp: good_def turn_left_def)
  have hist: "hoare (good leased_books []) (to_script y) (\<lambda>_. good leased_books []) (\<lambda>e. turn_left)" for y :: "exn + chain_item list"
    by (cases y) (auto simp: to_script_def good_def turn_left_def)
  show ?thesis unfolding begin_turn_def
    by (rule hoare_bind [OF await], rule hoare_bind [OF await], rule hoare_bind [OF held], rule hoare_bind [OF rest],
        rule hoare_bind [OF hist]) auto
qed

lemma keeps_left:
  assumes "keeps False M t m" "M = idle_books \<or> M = leased_books \<or> M = served_books"
  shows "hoare (good M t) m (\<lambda>_. good M t) (\<lambda>e. turn_left)"
  by (rule hoare_conseq [OF assms(1) [unfolded keeps_def]]) (use assms(2) in \<open>auto simp: turn_left_def dest: left_books\<close>)

lemma open_turn_ok: "keeps False leased_books [] open_turn"
proof -
  have "keeps False leased_books [] (response_event k)" if "k \<in> {''response.created'', ''response.in_progress''}" for k
    unfolding keeps_def
    by (rule hoare_conseq [OF hoare_event [OF of_books_turn(2), where k = k and E = "left False leased_books []"]]) (use that in auto)
  then show ?thesis unfolding open_turn_def
    by (intro keeps_bind keeps_events of_books_turn) simp_all
qed

lemma finish_turn_ok: "hoare (good leased_books []) (finish_turn x) (\<lambda>_. answered_turn x) (\<lambda>e. turn_left)"
proof -
  have 1: "hoare (good leased_books []) (change (\<lambda>r. telemetry ''success'' (Some (final_usage (sk_run x) r)) r))
     (\<lambda>_ r. good (\<lambda>r. rn_held r \<and> rn_releases r = [] \<and> map fst (rn_telemetry r) = [''success''] \<and> rn_stored r = []) [] r) (\<lambda>e. turn_left)"
    by (rule hoare_change) (auto simp: good_def leased_books_def telemetry_def run_log_def)
  have 2: "hoare (\<lambda>r. good (\<lambda>r. rn_held r \<and> rn_releases r = [] \<and> map fst (rn_telemetry r) = [''success''] \<and> rn_stored r = []) [] r)
     (change (release_run ''completed'')) (\<lambda>_. good served_books []) (\<lambda>e. turn_left)"
    by (rule hoare_change) (auto simp: good_def served_books_def release_run_def run_log_def)
  have 3: "hoare (good served_books []) (and_then (on_stream finish_stream) (\<lambda>_. send_events))
     (\<lambda>_ r. good served_books [] r \<and> live (rn_stream r) = []) (\<lambda>e. turn_left)"
  proof (rule hoare_and)
    show "hoare (good served_books []) (and_then (on_stream finish_stream) (\<lambda>_. send_events))
       (\<lambda>_. good served_books []) (\<lambda>e. turn_left)"
    proof (rule keeps_left)
      have "tame finish_stream"
        using tame_close_out [of None] by (simp add: tame_def finish_stream_eq)
      then show "keeps False served_books [] (and_then (on_stream finish_stream) (\<lambda>_. send_events))"
        by (intro keeps_bind keeps_on_stream keeps_events of_books_turn)
    qed simp
    fix r a r'
    assume g: "good served_books [] r" and c: "and_then (on_stream finish_stream) (\<lambda>_. send_events) r = (Inr a, r')"
    obtain gone where "stream_ok 0 (sent_events (rn_sent r)) gone (rn_stream r)" using g by (auto simp: good_def)
    then have "live (finish_stream (rn_stream r)) = []" unfolding finish_stream_eq using close_out_ok by blast
    moreover have "send_events (r\<lparr>rn_stream := finish_stream (rn_stream r)\<rparr>) = (Inr a, r')"
      using c by (simp add: and_then_def on_stream_def change_def)
    ultimately show "live (rn_stream r') = []" using events_drained(4) by fastforce
  qed
  have st: "settable served_books" using of_books_turn(3) by (auto simp: settable_def served_books_def)
  have 4: "hoare (\<lambda>r. good served_books [] r \<and> live (rn_stream r) = []) (settle_turn (sk_run x))
     (\<lambda>_. concluded served_books) (\<lambda>e. turn_left)"
    unfolding settle_turn_def send_events_def
    by (rule hoare_conseq [OF socket.settled [OF st]]) (auto simp: settle_left_def turn_left_def dest: left_books)
  have 5: "hoare (concluded served_books)
     (if se_persist (sk_run x) then (\<lambda>r. store (se_store (sk_run x)) (rn_output r) r) else give ())
     (\<lambda>_. answered_turn x) (\<lambda>e. turn_left)"
    unfolding hoare_def
  proof (intro allI impI)
    fix r
    assume c: "concluded served_books r"
    then have b: "served_books r" by (auto simp: concluded_def good_def)
    then have "rn_stored r = []" by (simp add: served_books_def)
    then have "r\<lparr>rn_stored := []\<rparr> = r" by (cases r) simp
    with c have "concluded served_books (r\<lparr>rn_stored := []\<rparr>)" by simp
    with b show "case (if se_persist (sk_run x) then (\<lambda>r. store (se_store (sk_run x)) (rn_output r) r) else give ()) r of
        (Inr a, r') \<Rightarrow> answered_turn x r' | (Inl e, r') \<Rightarrow> turn_left r'"
      by (cases "se_store (sk_run x)")
        (auto simp: store_def and_then_def await_answer_def give_def throw_def change_def answered_turn_def turn_left_def
          served_books_def)
  qed
  have assoc: "and_then m (\<lambda>_. and_then n k) = and_then (and_then m (\<lambda>_. n)) k" for m :: "unit script" and n :: "unit script" and k :: "unit \<Rightarrow> unit script"
    by (rule ext) (auto simp: and_then_def split: prod.split sum.split)
  show ?thesis unfolding finish_turn_def
    by (rule hoare_bind [OF 1], rule hoare_bind [OF 2], subst assoc, rule hoare_bind [OF 3], rule hoare_bind [OF 4]) (rule 5)
qed

text \<open>The value of the body: answered, or refused for its reasoning effort.\<close>

definition refused_effort :: "turn_env \<Rightarrow> bool" where
  "refused_effort x \<longleftrightarrow> (\<exists>msg. sk_policy x = Threw (ReasoningPolicyError msg))"

lemma socket_send_error:
  "hoare (good leased_books []) (socket_send (ErrorFrame n c p)) (\<lambda>_. good leased_books []) (\<lambda>e. turn_left)"
  by (auto simp: hoare_def socket_send_def good_def leased_books_def turn_left_def idle_books_def run_log_def
      split: prod.split)

lemma turn_body_ok:
  "hoare (good idle_books []) (turn_body x h)
     (\<lambda>b r. if b then answered_turn x r else leased_books r \<and> refused_effort x) (\<lambda>e. turn_left)"
proof -
  have o: "hoare (good leased_books []) open_turn (\<lambda>_. good leased_books []) (\<lambda>e. turn_left)"
    by (rule keeps_left [OF open_turn_ok]) simp
  have r: "hoare (good leased_books []) (read_turn x) (\<lambda>_. good leased_books []) (\<lambda>e. turn_left)"
    by (rule keeps_left [OF keeps_read_turn [OF of_books_turn(2)]]) simp
  have answer: "hoare (good leased_books []) (and_then (read_turn x) (\<lambda>_. and_then (finish_turn x) (\<lambda>_. give True)))
     (\<lambda>b r. if b then answered_turn x r else leased_books r \<and> refused_effort x) (\<lambda>e. turn_left)"
    by (rule hoare_bind [OF r], rule hoare_bind [OF finish_turn_ok]) auto
  have refuse: "hoare (good leased_books []) (and_then (socket_send f) (\<lambda>_. give False))
     (\<lambda>b r. if b then answered_turn x r else leased_books r \<and> refused_effort x) (\<lambda>e. turn_left)"
    if "f = ErrorFrame n c p" "refused_effort x" for f n c p
    unfolding that(1) by (rule hoare_bind [OF socket_send_error]) (use that(2) in \<open>auto simp: good_def\<close>)
  have throws: "hoare (good leased_books []) (throw e) Q (\<lambda>e. turn_left)" for e and Q :: "bool \<Rightarrow> run \<Rightarrow> bool"
    by (auto simp: good_def turn_left_def)
  show ?thesis unfolding turn_body_def
  proof (rule hoare_bind [OF begin_turn_ok], rule hoare_bind [OF o])
    show "hoare (good leased_books [])
       (case sk_policy x of
          Threw (ReasoningPolicyError msg) \<Rightarrow>
            and_then (socket_send (ErrorFrame 400 ''unsupported_capability'' (Some ''reasoning.effort''))) (\<lambda>_. give False)
        | Threw e \<Rightarrow> throw e
        | Answered \<Rightarrow> and_then (read_turn x) (\<lambda>_. and_then (finish_turn x) (\<lambda>_. give True)))
       (\<lambda>b r. if b then answered_turn x r else leased_books r \<and> refused_effort x) (\<lambda>e. turn_left)"
    proof (cases "sk_policy x")
      case Answered
      with answer show ?thesis by simp
    next
      case (Threw e)
      show ?thesis
      proof (cases "\<exists>msg. e = ReasoningPolicyError msg")
        case True
        then obtain msg where e: "sk_policy x = Threw (ReasoningPolicyError msg)" using Threw by auto
        then show ?thesis by (simp only: answer.case exn.case) (rule refuse [OF refl], simp add: refused_effort_def)
      next
        case False
        with Threw show ?thesis by (cases e) (auto intro: throws)
      qed
    qed
  qed
qed

section \<open>How a turn ends\<close>

lemma start_turn_good: "good idle_books [] (start_turn x n)"
  using new_stream_ok [of new_emitter "se_phase (sk_run x)"]
  by (auto simp: good_def idle_books_def start_turn_def start_run_def run_log_def event_log_def new_stream_def new_emitter_def)

text \<open>What a handler leaves of the books: one telemetry record, at most one release.\<close>

lemma turn_left_recorded:
  assumes "turn_left r"
  shows "(rn_releases (release_run o' (record_failure s r)), map fst (rn_telemetry (record_failure s r)))
    \<in> {([''completed''], [''success'']), ([], [s]), ([o'], [s])}"
  using assms unfolding turn_left_def
proof (elim disjE)
  assume "idle_books r"
  then show ?thesis by (simp add: idle_books_def record_failure_def telemetry_def release_run_def)
next
  assume "leased_books r"
  then show ?thesis by (simp add: leased_books_def record_failure_def telemetry_def release_run_def)
next
  assume b: "served_books r"
  then have "rn_telemetry r \<noteq> []" by (auto simp: served_books_def)
  with b show ?thesis by (simp add: served_books_def record_failure_def release_run_def)
qed

lemma sends_books:
  "deliver_all socket_send fs r = (y, r') \<Longrightarrow> books r' = books r"
  using socket.all_sent unsent_eqD(1) by blast

lemma fail_turn_books:
  assumes "fail_turn r = (y, r')"
  shows "rn_held r' = rn_held r \<and> rn_releases r' = rn_releases r \<and> rn_telemetry r' = rn_telemetry (record_failure ''error'' r)
    \<and> rn_stored r' = rn_stored r"
proof -
  obtain r2 where r2: "send_events r2 = (y, r')"
    and b: "books r2 = books ((record_failure ''error'' r)\<lparr>rn_status := ''failed'', rn_output := []\<rparr>)"
    using assms by (simp add: fail_turn_def and_then_def change_def response_event_def on_stream_def books_def)
  obtain fs r3 where "deliver_all socket_send fs r3 = (y, r')" "books r3 = books r2"
    using r2 by (simp add: send_events_def drain_with_def split_beta books_def)
  from sends_books [OF this(1)] this(2) b show ?thesis
    by (simp add: books_def record_failure_def telemetry_def split: if_splits)
qed

lemma socket_send_books: "socket_send f r = (y, r') \<Longrightarrow> books r' = books r"
  by (auto simp: socket_send_def books_def split: if_splits)

lemma handler_books:
  assumes "(case e of TargetError status code msg \<Rightarrow>
       and_then (change (record_failure ''error'')) (\<lambda>_. socket_send (ErrorFrame (error_status status) code (Some ''model'')))
     | _ \<Rightarrow> fail_turn) r = (y, r')"
  shows "rn_held r' = rn_held r \<and> rn_releases r' = rn_releases r \<and> rn_telemetry r' = rn_telemetry (record_failure ''error'' r)
    \<and> rn_stored r' = rn_stored r"
proof (cases "\<exists>status code msg. e = TargetError status code msg")
  case True
  then obtain status code where "socket_send (ErrorFrame (error_status status) code (Some ''model'')) (record_failure ''error'' r) = (y, r')"
    using assms by (auto simp: and_then_def change_def)
  from socket_send_books [OF this] show ?thesis by (simp add: books_def record_failure_def telemetry_def)
next
  case False
  then have "fail_turn r = (y, r')" using assms by (cases e) auto
  then show ?thesis by (rule fail_turn_books)
qed

lemma turn_ends:
  assumes "stream_to_ws x h (start_turn x n) = (res, r)"
  obtains (answered) "res = Inr True" "answered_turn x r"
    | (refused) r0 where "res = Inr False" "refused_effort x" "leased_books r0" "r = release_run ''completed'' r0"
    | (broken) r0 s o' where "turn_left r0" "(s, o') \<in> {(''error'', ''failed''), (''cancelled'', ''cancelled'')}"
        "rn_held r = False" "rn_stored r = []" "res \<noteq> Inr True"
        "rn_releases r = rn_releases (release_run o' (record_failure s r0))"
        "rn_telemetry r = rn_telemetry (record_failure s r0)"
proof -
  obtain y r1 where b: "turn_body x h (start_turn x n) = (y, r1)" by fastforce
  note hb = hoareD [OF turn_body_ok start_turn_good b]
  show ?thesis
  proof (cases y)
    case (Inr v)
    show ?thesis
    proof (cases v)
      case True
      with hb Inr have a: "answered_turn x r1" by simp
      then have "\<not> rn_held r1" by (auto simp: answered_turn_def concluded_def good_def served_books_def)
      with assms b Inr True have "r = r1" "res = Inr True" by (simp_all add: stream_to_ws_def release_run_def)
      with a show ?thesis by (auto intro: answered)
    next
      case False
      with hb Inr have "leased_books r1" "refused_effort x" by simp_all
      moreover from assms b Inr False have "r = release_run ''completed'' r1" "res = Inr False"
        by (simp_all add: stream_to_ws_def)
      ultimately show ?thesis by (auto intro: refused)
    qed
  next
    case (Inl e)
    with hb have l: "turn_left r1" by simp
    then have st: "rn_stored r1 = []" by (auto simp: turn_left_def idle_books_def leased_books_def served_books_def)
    show ?thesis
    proof (cases "is_exception e")
      case False
      with assms b Inl have "r = release_run ''cancelled'' (record_failure ''cancelled'' r1)" "res = Inl e"
        by (simp_all add: stream_to_ws_def)
      with st show ?thesis
        by (intro broken [OF l, of "''cancelled''" "''cancelled''"]) (simp_all add: release_run_def record_failure_def telemetry_def)
    next
      case True
      obtain z r2 where z: "(case e of TargetError status code msg \<Rightarrow>
          and_then (change (record_failure ''error'')) (\<lambda>_. socket_send (ErrorFrame (error_status status) code (Some ''model'')))
        | _ \<Rightarrow> fail_turn) r1 = (z, r2)" by fastforce
      with assms b Inl True have "r = release_run ''failed'' r2" "res \<noteq> Inr True"
        by (auto simp: stream_to_ws_def split: sum.splits)
      with handler_books [OF z] st show ?thesis
        by (intro broken [OF l, of "''error''" "''failed''"]) (simp_all add: release_run_def record_failure_def telemetry_def)
    qed
  qed
qed


text \<open>The messages of an answered turn, and what is stored of it.\<close>

theorem turn_answers:
  assumes "stream_to_ws x h (start_turn x n) = (Inr True, r)"
  shows "map fst (sent_events (rn_sent r)) = [1..<Suc (length (sent_events (rn_sent r)))]
    \<and> terminals (rn_sent r) = [''response.'' @ rn_status r]
    \<and> collect done_of (sent_events (rn_sent r)) = enumerate 0 (rn_output r)
    \<and> (\<forall>it\<in>set (rn_output r). item_says it (said (item_ident it) (sent_events (rn_sent r))))
    \<and> rn_stored r = (if se_persist (sk_run x) then [(rn_status r, rn_output r)] else [])"
  using assms
proof (cases rule: turn_ends)
  case answered
  let ?r = "r\<lparr>rn_stored := []\<rparr>"
  have c: "concluded served_books ?r" and st: "rn_stored r = (if se_persist (sk_run x) then [(rn_status r, rn_output r)] else [])"
    using answered(2) by (simp_all add: answered_turn_def)
  then obtain k gone where k: "good served_books [k] ?r" "k = ''response.'' @ rn_status r"
    and ok: "stream_ok 0 (sent_events (rn_sent r)) gone (rn_stream r)" "live (rn_stream r) = []"
      "em_pending (ss_emitter (rn_stream r)) = []" "rn_output r = out_items (rn_stream r)"
    by (auto simp: concluded_def good_def)
  have "map fst (sent_events (rn_sent r)) = [1..<Suc (length (sent_events (rn_sent r)))]"
    by (rule stream_ok_numbered [OF ok(1)])
  moreover have "terminals (rn_sent r) = [k]"
    using k(1) ok(3) by (simp add: good_def terminals_def run_log_def event_log_def)
  moreover have "account (sent_events (rn_sent r)) (rn_output r) (next_id (rn_stream r)) [] gone"
    using stream_okD(1) [OF ok(1)] ok by (simp add: event_log_def)
  then have "collect done_of (sent_events (rn_sent r)) = enumerate 0 (rn_output r)"
    "\<forall>it\<in>set (rn_output r). item_says it (said (item_ident it) (sent_events (rn_sent r)))"
    by (simp_all add: account_def)
  ultimately show ?thesis using k(2) st by blast
next
  case (refused r0)
  then show ?thesis by simp
next
  case (broken r0 s o')
  then show ?thesis by simp
qed

section \<open>The continuation cache\<close>

text \<open>The record that would be stored of a turn, and the records of the turns that completed.\<close>

definition turn_record :: "turn \<times> bool \<times> run \<Rightarrow> chain_item response_record" where
  "turn_record c = (case c of (t, b, r) \<Rightarrow>
     \<lparr>rr_id = sk_id (tn_env t), rr_previous = sk_previous (tn_env t), rr_input = sk_items (tn_env t),
      rr_output = map chain_of (rn_output r), rr_status = rn_status r, rr_store = True\<rparr>)"

definition turn_records :: "connection \<Rightarrow> chain_item response_record list" where
  "turn_records c = map turn_record (filter (\<lambda>(t, b, r). \<not> failed_turn b r) (cn_turns c))"

text \<open>What the walk along the records of the connection finds for an id.\<close>

definition walked :: "chain_item response_record list \<Rightarrow> string \<Rightarrow> chain_item list option" where
  "walked db i = (case stored_response db i of None \<Rightarrow> None | Some q \<Rightarrow> Some (build_chain_history db (Some q)))"

definition cache_ok :: "connection \<Rightarrow> bool" where
  "cache_ok c \<longleftrightarrow> (\<forall>q\<in>set (turn_records c). rr_previous q = None \<or> rr_previous q \<in> Some ` set (map rr_id (turn_records c)))
     \<and> (\<forall>i h. map_of (cn_cache c) i = Some h \<longrightarrow> i \<noteq> [] \<and> walked (turn_records c) i = Some h)"

lemma walked_new:
  assumes new: "rr_id r \<notin> set (map rr_id db)" "rr_store r"
    and refs: "\<forall>q\<in>set db. rr_previous q = None \<or> rr_previous q \<in> Some ` set (map rr_id db)"
  shows "walked db i = Some h \<Longrightarrow> walked (db @ [r]) i = Some h"
    "rr_previous r = None \<Longrightarrow> walked (db @ [r]) (rr_id r) = Some (rr_input r @ rr_output r)"
    "rr_previous r = Some i \<Longrightarrow> i \<noteq> [] \<Longrightarrow> walked db i = Some h \<Longrightarrow>
      walked (db @ [r]) (rr_id r) = Some (h @ rr_input r @ rr_output r)"
proof -
  have unref: "\<forall>q\<in>set db. rr_previous q \<noteq> Some (rr_id r)" using refs new(1) by (metis imageE option.distinct(1) option.inject)
  have found: "stored_response (db @ [r]) (rr_id r) = Some r" by (rule stored_response_new [OF new])
  show "walked (db @ [r]) i = Some h" if w: "walked db i = Some h"
  proof -
    obtain q where q: "stored_response db i = Some q" "h = build_chain_history db (Some q)"
      using w by (auto simp: walked_def split: option.splits)
    then have q': "q \<in> set db" "rr_id q = i" using stored_response_Some by blast+
    then have "i \<noteq> rr_id r" using other_id [OF new(1) q'(1)] by simp
    then have "stored_response (db @ [r]) i = Some q" using q(1) by (simp add: stored_response_append)
    moreover have "chain_from (db @ [r]) [] (Some q) = chain_from db [] (Some q)"
      by (rule chain_stable [OF new(1) unref]) (use q' in auto)
    ultimately show ?thesis using q(2) by (simp add: walked_def build_chain_history_def)
  qed
  show "walked (db @ [r]) (rr_id r) = Some (rr_input r @ rr_output r)" if "rr_previous r = None"
    using found that by (simp add: walked_def build_chain_history_def given_id_def)
  show "walked (db @ [r]) (rr_id r) = Some (h @ rr_input r @ rr_output r)"
    if prev: "rr_previous r = Some i" "i \<noteq> []" and w: "walked db i = Some h"
  proof -
    obtain q where q: "stored_response db i = Some q" "h = build_chain_history db (Some q)"
      using w by (auto simp: walked_def split: option.splits)
    have "chain_from (db @ [r]) [] (Some r) = r # chain_from db [] (Some q)"
      by (rule chain_new [OF new(1) unref _ q(1)]) (simp add: prev given_id_def)
    then show ?thesis using found q(2) by (simp add: walked_def build_chain_history_def)
  qed
qed

lemma map_of_alist_deleteD: "map_of (AList.delete k xs) i = Some v \<Longrightarrow> map_of xs i = Some v"
  by (auto simp: delete_conv' split: if_splits)

text \<open>A turn keeps the cache right, if its id is new and it is not to be stored.\<close>

lemma cache_ok_turn:
  assumes ok: "cache_ok c" and new: "sk_id (tn_env t) \<noteq> []" "sk_id (tn_env t) \<notin> set (map rr_id (turn_records c))"
    and t: "\<not> se_persist (sk_run (tn_env t))" "continuation (cn_cache c) t = Some h"
  shows "cache_ok (take_turn t h c)
    \<and> set (map rr_id (turn_records (take_turn t h c))) \<subseteq> insert (sk_id (tn_env t)) (set (map rr_id (turn_records c)))"
proof -
  obtain res r where s: "stream_to_ws (tn_env t) h (start_turn (tn_env t) (cn_takes c)) = (res, r)" by fastforce
  let ?c = "take_turn t h c"
  show ?thesis
  proof (cases "\<exists>b. res = Inr b \<and> \<not> failed_turn b r")
    case False
    then have "turn_records ?c = turn_records c"
      using s by (cases res) (auto simp: take_turn_def turn_records_def failed_turn_def Let_def)
    moreover have "map_of (cn_cache ?c) i = Some h' \<Longrightarrow> map_of (cn_cache c) i = Some h'" for i h'
      using False s
      by (cases res) (auto simp: take_turn_def cache_after_def Let_def split: option.splits if_splits dest: map_of_alist_deleteD)
    ultimately show ?thesis using ok by (auto simp: cache_ok_def)
  next
    case True
    let ?q = "turn_record (t, True, r)"
    have b: "res = Inr True" "\<not> failed_turn True r" using True by (auto simp: failed_turn_def)
    have rec: "turn_records ?c = turn_records c @ [?q]" and
      cache: "cn_cache ?c = AList.update (sk_id (tn_env t)) (h @ sk_items (tn_env t) @ map chain_of (rn_output r)) (cn_cache c)"
      using s b by (simp_all add: take_turn_def turn_records_def cache_after_def)
    have q: "rr_id ?q = sk_id (tn_env t)" "rr_previous ?q = sk_previous (tn_env t)" "rr_store ?q"
      "rr_input ?q @ rr_output ?q = sk_items (tn_env t) @ map chain_of (rn_output r)"
      by (simp_all add: turn_record_def)
    note refs = conjunct1 [OF ok [unfolded cache_ok_def]]
    note old = walked_new [OF new(2) [folded q(1)] q(3) refs]
    have now: "walked (turn_records c @ [?q]) (sk_id (tn_env t)) = Some (h @ sk_items (tn_env t) @ map chain_of (rn_output r))
        \<and> (rr_previous ?q = None \<or> rr_previous ?q \<in> Some ` set (map rr_id (turn_records c)))"
    proof (cases "sk_previous (tn_env t)")
      case None
      with t have "h = []" by (simp add: continuation_def)
      with old(2) q None show ?thesis by simp
    next
      case (Some i)
      with t have "map_of (cn_cache c) i = Some h" by (simp add: continuation_def)
      then have w: "i \<noteq> []" "walked (turn_records c) i = Some h" using ok by (auto simp: cache_ok_def)
      then have "i \<in> set (map rr_id (turn_records c))"
        using stored_response_Some by (fastforce simp: walked_def split: option.splits)
      with old(3) [of i h] q Some w show ?thesis by simp
    qed
    have "map_of (cn_cache ?c) i = Some h' \<Longrightarrow> i \<noteq> [] \<and> walked (turn_records ?c) i = Some h'" for i h'
      unfolding cache rec using now new(1) old(1) ok
      by (cases "i = sk_id (tn_env t)") (auto simp: cache_ok_def update_conv')
    moreover have "\<forall>x\<in>set (turn_records ?c). rr_previous x = None \<or> rr_previous x \<in> Some ` set (map rr_id (turn_records ?c))"
      unfolding rec using refs now by auto
    ultimately show ?thesis using rec q by (auto simp: cache_ok_def)
  qed
qed

text \<open>The ids of the turns that a list of messages asks for.\<close>

definition asked_ids :: "socket_message list \<Rightarrow> string list" where
  "asked_ids ms = concat (map (\<lambda>m. case m of Create t \<Rightarrow> [sk_id (tn_env t)] | _ \<Rightarrow> []) ms)"

definition transient :: "socket_message list \<Rightarrow> bool" where
  "transient ms \<longleftrightarrow> list_all (\<lambda>m. case m of Create t \<Rightarrow> \<not> se_persist (sk_run (tn_env t)) | _ \<Rightarrow> True) ms"

lemma say_cache: "cache_ok (say f c) = cache_ok c" "turn_records (say f c) = turn_records c"
  by (simp_all add: cache_ok_def say_def turn_records_def)

lemma serve_socket_ok:
  assumes "cache_ok c" "distinct (asked_ids ms)" "[] \<notin> set (asked_ids ms)" "transient ms"
    and "set (asked_ids ms) \<inter> set (map rr_id (turn_records c)) = {}"
  shows "cache_ok (serve_socket ms c)"
  using assms
proof (induction ms arbitrary: c)
  case (Cons m ms)
  have rest: "distinct (asked_ids ms)" "[] \<notin> set (asked_ids ms)" "transient ms"
    "set (asked_ids ms) \<inter> set (map rr_id (turn_records c)) = {}"
    using Cons.prems by (auto simp: asked_ids_def transient_def)
  have step: "cache_ok (socket_step m c) \<and> set (asked_ids ms) \<inter> set (map rr_id (turn_records (socket_step m c))) = {}"
  proof (cases "\<exists>t h. m = Create t \<and> continuation (cn_cache c) t = Some h")
    case True
    then obtain t h where m: "m = Create t" "continuation (cn_cache c) t = Some h" by blast
    have "cache_ok (take_turn t h c) \<and> set (map rr_id (turn_records (take_turn t h c)))
        \<subseteq> insert (sk_id (tn_env t)) (set (map rr_id (turn_records c)))"
      by (rule cache_ok_turn [OF Cons.prems(1) _ _ _ m(2)]) (use Cons.prems m in \<open>auto simp: asked_ids_def transient_def\<close>)
    moreover have "sk_id (tn_env t) \<notin> set (asked_ids ms)" using Cons.prems(2) m by (simp add: asked_ids_def)
    moreover have "socket_step m c = take_turn t h c" using m by simp
    ultimately show ?thesis using rest(4) by (simp only:) blast
  next
    case False
    then have "turn_records (socket_step m c) = turn_records c \<and> cn_cache (socket_step m c) = cn_cache c"
      by (cases m) (auto simp: say_def turn_records_def split: option.splits)
    with Cons.prems(1) rest(4) show ?thesis by (simp add: cache_ok_def)
  qed
  show ?case
  proof (cases "cn_open c")
    case True
    with Cons.IH [OF conjunct1 [OF step] rest(1-3) conjunct2 [OF step]] show ?thesis by simp
  next
    case False
    with Cons.prems(1) show ?thesis by simp
  qed
qed simp

text \<open>
  Claim C27: the continuation cache of a socket stands for stored responses. On a connection whose
  turns are not stored, the history cached for a response is the one that the walk along
  \<open>previous_response_id\<close> would rebuild had the completed turns been stored, whatever turns fail in
  between and whatever invalid messages come.
\<close>

theorem cache_matches_chain:
  assumes "transient ms" "distinct (asked_ids ms)" "[] \<notin> set (asked_ids ms)"
    and "map_of (cn_cache (serve_socket ms (new_connection n))) i = Some h"
  shows "\<exists>q. load_previous (turn_records (serve_socket ms (new_connection n))) (Some i) = Inr (Some q)
    \<and> h = build_chain_history (turn_records (serve_socket ms (new_connection n))) (Some q)"
proof -
  have "cache_ok (new_connection n)" "turn_records (new_connection n) = []"
    by (simp_all add: cache_ok_def new_connection_def turn_records_def)
  then have "cache_ok (serve_socket ms (new_connection n))"
    using serve_socket_ok [OF _ assms(2,3,1)] by simp
  with assms(4) show ?thesis
    by (auto simp: cache_ok_def walked_def load_previous_def given_id_def split: option.splits)
qed

section \<open>Stored continuations\<close>

text \<open>
  A turn that continues a stored response opens its session on the name of the engine. Where that
  raises, the turn fails whatever its request: it is answered with response.failed, or not at all.
\<close>

lemma stored_continuation_fails:
  assumes "sk_previous x \<noteq> None" "se_persist (sk_run x)" "sk_session x (sk_engine x) = Inl e" "is_exception e"
    and "stream_to_ws x h (start_turn x n) = (res, r)"
  shows "res \<noteq> Inr True \<and> rn_stored r = []"
  using assms(5)
proof (cases rule: turn_ends)
  case answered
  have "turn_history x h = Inl e" using assms(1-3) by (simp add: turn_history_def)
  then have "fst (turn_body x h (start_turn x n)) \<noteq> Inr True"
    by (auto simp: turn_body_def begin_turn_def and_then_def to_script_def throw_def give_def change_def await_answer_def
        split: answer.splits)
  moreover have "fst (turn_body x h (start_turn x n)) = Inr True"
    using assms(5) answered(1) by (auto simp: stream_to_ws_def split: prod.splits sum.splits if_splits)
  ultimately show ?thesis by simp
next
  case (refused r0)
  then show ?thesis by (simp add: leased_books_def release_run_def)
next
  case (broken r0 s o')
  then show ?thesis by simp
qed

end
