(* ===== verification/ResponseExamples.thy ===== *)
theory ResponseExamples
  imports ResponseRunSafety ResponseSocketSafety
begin

text \<open>
  Worked examples of the Responses stream: a reply with text and two calls, at which the theorems
  on streams are applied; connections that complete and that are cut; and the runs that show
  what the code does not cover: items that share an output index, a suppressed call that is
  never completed, and a second terminal event when storing fails.
\<close>

section \<open>A stream with text and two calls\<close>

definition demo_delta :: "string \<Rightarrow> string \<Rightarrow> tool_delta" where
  "demo_delta n a = \<lparr>td_id = None, td_name = Some n, td_args = Some a\<rparr>"

definition demo_ops :: "stream_op list" where
  "demo_ops = [OpReasoning ''hm'', OpText ''so'', OpTool 0 (demo_delta ''f'' ''{''), OpDrain,
     OpTool 1 (demo_delta ''g'' ''[]''), OpTool 0 (more_args ''}'')]"

definition demo_stream :: "string list option \<Rightarrow> event list \<times> stream_state" where
  "demo_stream allowed = whole_stream new_emitter None demo_ops allowed"

lemma deltas_add_up_witness:
  "item_says (CallItem (NewId ''fc'' 2) (NewId ''call'' 3) ''f'' ''{}'' True)
     (said (NewId ''fc'' 2) (fst (demo_stream None)))"
proof -
  have "item_says (CallItem (NewId ''fc'' 2) (NewId ''call'' 3) ''f'' ''{}'' True)
     (said (item_ident (CallItem (NewId ''fc'' 2) (NewId ''call'' 3) ''f'' ''{}'' True)) (fst (demo_stream None)))"
  proof (rule deltas_add_up [where e = new_emitter and phase = None and ps = demo_ops and allowed = None
        and s = "snd (demo_stream None)"])
    show "em_pending new_emitter = []" by (simp add: new_emitter_def)
    show "whole_stream new_emitter None demo_ops None = (fst (demo_stream None), snd (demo_stream None))"
      by (simp add: demo_stream_def)
    show "CallItem (NewId ''fc'' 2) (NewId ''call'' 3) ''f'' ''{}'' True \<in> set (out_items (snd (demo_stream None)))"
      by code_simp
  qed
  then show ?thesis by simp
qed

lemma stream_well_formed_witness:
  "map fst (fst (demo_stream None)) = [Suc 0..<Suc (length (fst (demo_stream None)))]
    \<and> distinct (map item_ident (out_items (snd (demo_stream None))))"
  using stream_well_formed [of new_emitter None demo_ops None "fst (demo_stream None)" "snd (demo_stream None)"]
  by (simp add: new_emitter_def demo_stream_def del: upt_Suc)

text \<open>The events that announce and complete items, with their indices and the number of the id.\<close>

fun item_marks :: "payload \<Rightarrow> (bool \<times> nat \<times> ident) option" where
  "item_marks (ItemAdded k it) = Some (True, k, item_ident it)"
| "item_marks (ItemDone k it) = Some (False, k, item_ident it)"
| "item_marks p = None"

text \<open>
  Items of one response share an output index. In this stream the message and the two
  calls after it are all announced under index one, and each is completed under another: the
  calls under one and two, the message, which came first, under three.
\<close>

theorem items_share_index:
  "collect item_marks (fst (demo_stream None)) =
     [(True, 0, NewId ''rs'' 0), (False, 0, NewId ''rs'' 0),
      (True, 1, NewId ''msg'' 1), (True, 1, NewId ''fc'' 2), (True, 1, NewId ''fc'' 4),
      (False, 1, NewId ''fc'' 2), (False, 2, NewId ''fc'' 4), (False, 3, NewId ''msg'' 1)]"
  by code_simp

text \<open>With only \<open>f\<close> allowed, the call of \<open>g\<close> is announced and has arguments, and is never completed.\<close>

lemma suppressed_call_left_open:
  "collect added_of (fst (demo_stream (Some [''f'']))) = [NewId ''rs'' 0, NewId ''msg'' 1, NewId ''fc'' 2, NewId ''fc'' 4]
    \<and> map item_ident (out_items (snd (demo_stream (Some [''f''])))) = [NewId ''rs'' 0, NewId ''fc'' 2, NewId ''msg'' 1]"
  by code_simp

section \<open>Connections\<close>

definition demo_choice :: "string \<Rightarrow> chat_choice" where
  "demo_choice t = \<lparr>cc_reasoning = [], cc_content = t, cc_tools = [], cc_finish = None\<rparr>"

text \<open>Every line is a chunk whose text is the line itself.\<close>

definition demo_loads :: "string \<Rightarrow> chat_chunk option" where
  "demo_loads s = Some \<lparr>ck_error = None, ck_usage = None, ck_evaluated = Absent, ck_predicted = Absent,
     ck_choice = Some (demo_choice s)\<rparr>"

definition demo_env :: "answer \<Rightarrow> stream_env" where
  "demo_env stored = \<lparr>se_lease = True, se_native = False, se_phase = None, se_allowed = None, se_payload = Answered,
     se_ready = (1, Answered), se_open = (0, Answered), se_status = Answered,
     se_lines = [Line ''data: ho'', Line '': ping'', Idle, Line ''data:ra'', Line ''data: [DONE]''],
     se_loads = demo_loads, se_native_loads = (\<lambda>s. None), se_close = Answered,
     se_validate = (\<lambda>its. Answered), se_persist = True, se_released = Answered, se_store = stored,
     se_store_failed = Answered\<rparr>"

definition demo_run :: "nat \<Rightarrow> run" where
  "demo_run n = snd (serve (demo_env Answered) n)"

lemma demo_serve: "serve (demo_env Answered) n = (fst (serve (demo_env Answered) n), demo_run n)"
  by (simp add: demo_run_def)




text \<open>The client that leaves after four frames, and the one that stays.\<close>

lemma demo_cut: "rn_releases (demo_run 4) = [''cancelled''] \<and> rn_stored (demo_run 4) = []"
  by code_simp

lemma demo_whole:
  "rn_releases (demo_run 100) = [''completed''] \<and> terminals (rn_sent (demo_run 100)) = [''response.completed'']"
  by code_simp

text \<open>
  When storing the response raises, the client is sent a second terminal event after the first,
  and a failure without output is stored.
\<close>

lemma second_terminal_event:
  "terminals (rn_sent (snd (serve (demo_env (Threw (OtherError []))) 100))) = [''response.completed'', ''response.failed'']
    \<and> rn_stored (snd (serve (demo_env (Threw (OtherError []))) 100)) = [(''failed'', [])]"
  by code_simp

section \<open>Turns over a socket\<close>

definition demo_turn_env :: "string \<Rightarrow> string option \<Rightarrow> turn_env" where
  "demo_turn_env i p = \<lparr>sk_run = (demo_env Answered)\<lparr>se_persist := False\<rparr>, sk_id = i, sk_resolve = Answered,
     sk_acquire = Answered, sk_agent = True, sk_previous = p, sk_engine = Some ''llama'',
     sk_session = (\<lambda>e. Inl (OtherError ''AttributeError'')), sk_items = [ChainOther i], sk_policy = Answered\<rparr>"

definition demo_socket :: "turn_env \<Rightarrow> nat \<Rightarrow> (exn + bool) \<times> run" where
  "demo_socket x n = stream_to_ws x [] (start_turn x n)"


lemma demo_turn_answers:
  "fst (demo_socket (demo_turn_env ''a'' None) 100) = Inr True
    \<and> rn_output (snd (demo_socket (demo_turn_env ''a'' None) 100)) = [MessageItem (NewId ''msg'' 0) None (Some ''hora'')]"
  by code_simp

text \<open>Two turns, the second continuing the first: what is cached for the second.\<close>

definition demo_messages :: "socket_message list" where
  "demo_messages = [Create \<lparr>tn_known = False, tn_env = demo_turn_env ''a'' None\<rparr>, NotJson,
     Create \<lparr>tn_known = False, tn_env = demo_turn_env ''b'' (Some ''a'')\<rparr>]"

definition demo_cached :: "chain_item list" where
  "demo_cached = [ChainOther ''a'', ChainOther ''hora'', ChainOther ''b'', ChainOther ''hora'']"

lemma cache_matches_chain_witness:
  "\<exists>q. load_previous (turn_records (serve_socket demo_messages (new_connection 100))) (Some ''b'') = Inr (Some q)
    \<and> demo_cached = build_chain_history (turn_records (serve_socket demo_messages (new_connection 100))) (Some q)"
proof (rule cache_matches_chain)
  show "transient demo_messages" "distinct (asked_ids demo_messages)" "[] \<notin> set (asked_ids demo_messages)"
    by (simp_all add: demo_messages_def transient_def asked_ids_def demo_turn_env_def)
  show "map_of (cn_cache (serve_socket demo_messages (new_connection 100))) ''b'' = Some demo_cached"
    by code_simp
qed

text \<open>A turn whose reasoning effort is refused: begun, answered with an error, released as completed.\<close>

lemma refused_turn_released_completed:
  "rn_releases (snd (demo_socket (demo_turn_env ''a'' None\<lparr>sk_policy := Threw (ReasoningPolicyError [])\<rparr>) 100)) = [''completed'']
    \<and> rn_telemetry (snd (demo_socket (demo_turn_env ''a'' None\<lparr>sk_policy := Threw (ReasoningPolicyError [])\<rparr>) 100)) = []
    \<and> length (sent_events (rn_sent (snd (demo_socket (demo_turn_env ''a'' None\<lparr>sk_policy := Threw (ReasoningPolicyError [])\<rparr>) 100)))) = 2"
  by code_simp

text \<open>A turn whose engine hangs up: its terminal event is numbered one again.\<close>

lemma failed_turn_renumbers:
  "map fst (sent_events (rn_sent (snd (demo_socket (demo_turn_env ''a'' None\<lparr>sk_run := (demo_env Answered)\<lparr>se_lines := []\<rparr>\<rparr>) 100)))) = [1, 2, 1]"
  by code_simp

text \<open>A turn that continues a stored response.\<close>

lemma stored_turn_fails:
  "fst (demo_socket (demo_turn_env ''b'' (Some ''a'')\<lparr>sk_run := demo_env Answered\<rparr>) 100) = Inr False"
  by code_simp

text \<open>With no tool allowed, a call goes out over the socket all the same.\<close>

definition demo_call_env :: stream_env where
  "demo_call_env = (demo_env Answered)\<lparr>se_allowed := Some [],
     se_loads := (\<lambda>s. Some \<lparr>ck_error = None, ck_usage = None, ck_evaluated = Absent, ck_predicted = Absent,
       ck_choice = Some \<lparr>cc_reasoning = [], cc_content = [], cc_tools = [(0, demo_delta ''f'' ''{}'')], cc_finish = None\<rparr>\<rparr>)\<rparr>"

lemma socket_ignores_allowed_tools:
  "map item_ident (rn_output (snd (demo_socket (demo_turn_env ''a'' None\<lparr>sk_run := demo_call_env\<rparr>) 100))) = [NewId ''fc'' 0]"
  by code_simp

lemma generator_heeds_allowed_tools:
  "map item_ident (rn_output (snd (serve demo_call_env 100))) = [NewId ''msg'' 2]"
  by code_simp

end
