(* ===== verification/ResponsePayload.thy ===== *)
theory ResponsePayload
  imports Json
begin

text \<open>
  What the Responses API asks an engine: the items of a conversation as the messages of the chat
  protocol (\<open>input_items_to_llama_messages\<close>, \<open>tools_to_llama\<close>, \<open>_llama_payload\<close>) or as the input of an
  engine with a native Responses endpoint (\<open>input_items_to_gufo_native\<close>, \<open>gufo_native_payload\<close>);
  backend/app/api/routes/v1/responses/translator.py and router.py.
  \<^item> Items are JSON: a stored item is a dict, and an item of the request, a pydantic model, is the
    object of its fields. \<open>item_field\<close> reads both; the source reads an attribute of a model only where
    the type of the item has it.
  \<^item> \<open>show\<close> is \<open>str\<close> of a value that is not a string. An error of the translation is
    \<open>TranslationError\<close>; iterating over a value that is no sequence raises \<open>TypeError\<close>.
\<close>

section \<open>Fields and parts\<close>

definition NATIVE_RESPONSES_ENGINES :: "string list" where
  "NATIVE_RESPONSES_ENGINES = [''gufo'', ''halogen-flash'']"

definition uses_native_responses :: "json \<Rightarrow> bool" where
  "uses_native_responses engine \<longleftrightarrow> (\<exists>e\<in>set NATIVE_RESPONSES_ENGINES. engine = JStr e)"

fun item_field :: "string \<Rightarrow> json \<Rightarrow> json" where
  "item_field k (JObj fs) = look k JNull fs"
| "item_field k j = JNull"

abbreviation type_of :: "json \<Rightarrow> json" where
  "type_of \<equiv> item_field ''type''"

definition str_unless_null :: "(json \<Rightarrow> string) \<Rightarrow> json \<Rightarrow> string option" where
  "str_unless_null show j = (if j = JNull then None else Some (py_str show j))"

fun item_part_text :: "(json \<Rightarrow> string) \<Rightarrow> json \<Rightarrow> string option" where
  "item_part_text show (JStr s) = Some s"
| "item_part_text show part =
     (if type_of part \<in> {JStr ''input_text'', JStr ''output_text'', JStr ''reasoning_text'', JStr ''summary_text''}
      then str_unless_null show (item_field ''text'' part)
      else if type_of part = JStr ''refusal'' then str_unless_null show (item_field ''refusal'' part)
      else None)"

fun item_part_image :: "(json \<Rightarrow> string) \<Rightarrow> json \<Rightarrow> string option" where
  "item_part_image show (JStr s) = None"
| "item_part_image show part =
     (if type_of part = JStr ''input_image'' \<and> py_true (item_field ''image_url'' part)
      then Some (py_str show (item_field ''image_url'' part)) else None)"

section \<open>Content of a chat message\<close>

datatype chat_part = TextPart string | ImagePart string

datatype chat_content = Flat string | Parts "chat_part list"

fun chat_part_json :: "chat_part \<Rightarrow> json" where
  "chat_part_json (TextPart t) = JObj [(''type'', JStr ''text''), (''text'', JStr t)]"
| "chat_part_json (ImagePart u) = JObj [(''type'', JStr ''image_url''), (''image_url'', JObj [(''url'', JStr u)])]"

fun chat_content_json :: "chat_content \<Rightarrow> json" where
  "chat_content_json (Flat s) = JStr s"
| "chat_content_json (Parts ps) = JArr (map chat_part_json ps)"

definition unsupported_part :: "(json \<Rightarrow> string) \<Rightarrow> string \<Rightarrow> json \<Rightarrow> exn" where
  "unsupported_part show engine ptype =
     TranslationError (if ptype \<in> {JStr ''input_file'', JStr ''input_video''}
       then py_str show ptype @ '' content is not supported by '' @ engine @ ''; use input_text or input_image parts.''
       else ''Unsupported content part type: '' @ py_str show ptype)"

text \<open>The type named in the error; a part that is neither a string nor an object has none.\<close>

definition part_kind :: "json \<Rightarrow> json" where
  "part_kind part = (case part of JObj fs \<Rightarrow> type_of part | _ \<Rightarrow> JStr ''unknown'')"

definition flush_text :: "string list \<Rightarrow> chat_part list \<Rightarrow> chat_part list" where
  "flush_text buf parts = (if buf = [] then parts else parts @ [TextPart (concat buf)])"

fun merge_parts :: "(json \<Rightarrow> string) \<Rightarrow> chat_part list \<Rightarrow> string list \<Rightarrow> json list \<Rightarrow> exn + chat_part list" where
  "merge_parts show parts buf [] = Inr (flush_text buf parts)"
| "merge_parts show parts buf (p # ps) =
     (case item_part_image show p of
        Some u \<Rightarrow> merge_parts show (flush_text buf parts @ [ImagePart u]) [] ps
      | None \<Rightarrow>
          (case item_part_text show p of
             None \<Rightarrow> Inl (unsupported_part show ''llama.cpp chat'' (part_kind p))
           | Some t \<Rightarrow> merge_parts show parts (buf @ [t]) ps))"

definition flatten_parts :: "chat_part list \<Rightarrow> chat_content" where
  "flatten_parts parts = (case parts of [] \<Rightarrow> Flat [] | [TextPart t] \<Rightarrow> Flat t | _ \<Rightarrow> Parts parts)"

definition content_to_llama :: "(json \<Rightarrow> string) \<Rightarrow> json \<Rightarrow> exn + chat_content" where
  "content_to_llama show content =
     (case content of
        JNull \<Rightarrow> Inr (Flat [])
      | JStr s \<Rightarrow> Inr (Flat s)
      | _ \<Rightarrow> bind_res (py_iter content) (\<lambda>ps. bind_res (merge_parts show [] [] ps) (\<lambda>parts. Inr (flatten_parts parts))))"

section \<open>The request\<close>

record function_tool =
  ft_name :: string
  ft_description :: "string option"
  ft_parameters :: "obj option"
  ft_strict :: "bool option"

datatype tool_choice = ChoiceMode string | ChooseFunction string | AllowTools "string list"

datatype text_format =
    PlainText
  | JsonObjectFormat
  | JsonSchemaFormat "string option" "string option" "obj option" "bool option"

record response_request =
  pq_model :: string
  pq_input :: "string + json list"
  pq_previous :: "string option"
  pq_instructions :: "string option"
  pq_tools :: "function_tool list"
  pq_choice :: tool_choice
  pq_format :: "text_format option"
  pq_temperature :: "rat option"
  pq_top_p :: "rat option"
  pq_presence_penalty :: "rat option"
  pq_frequency_penalty :: "rat option"
  pq_parallel :: "bool option"
  pq_max_output_tokens :: "int option"
  pq_effort :: "string option"
  pq_stream :: bool
  pq_background :: bool
  pq_store :: bool

text \<open>The input as items: a string is one user message, in the request and in the stored turn.\<close>

definition input_items :: "response_request \<Rightarrow> json list" where
  "input_items q = (case pq_input q of
     Inl s \<Rightarrow> [JObj [(''type'', JStr ''message''), (''role'', JStr ''user''), (''content'', JStr s)]]
   | Inr items \<Rightarrow> items)"

text \<open>A field that is set and not empty.\<close>

definition opt_given :: "'a list option \<Rightarrow> 'a list option" where
  "opt_given v = (case v of None \<Rightarrow> None | Some xs \<Rightarrow> if xs = [] then None else Some xs)"

definition entry :: "string \<Rightarrow> json option \<Rightarrow> obj" where
  "entry k v = (case v of None \<Rightarrow> [] | Some j \<Rightarrow> [(k, j)])"

section \<open>Tools of the chat protocol\<close>

definition llama_tool :: "function_tool \<Rightarrow> json" where
  "llama_tool t = JObj [(''type'', JStr ''function''),
     (''function'', JObj ([(''name'', JStr (ft_name t))]
        @ entry ''description'' (map_option JStr (opt_given (ft_description t)))
        @ entry ''parameters'' (map_option JObj (opt_given (ft_parameters t)))
        @ entry ''strict'' (map_option JBool (ft_strict t))))]"

definition named_function :: "string \<Rightarrow> json" where
  "named_function n = JObj [(''type'', JStr ''function''), (''function'', JObj [(''name'', JStr n)])]"

definition tools_to_llama :: "response_request \<Rightarrow> obj" where
  "tools_to_llama q =
     (if pq_tools q = [] then [] else [(''tools'', JArr (map llama_tool (pq_tools q)))])
     @ [(''tool_choice'', case pq_choice q of
          ChoiceMode m \<Rightarrow> JStr m | ChooseFunction n \<Rightarrow> named_function n | AllowTools ns \<Rightarrow> JStr ''auto'')]"

definition allowed_tool_names :: "response_request \<Rightarrow> string list option" where
  "allowed_tool_names q = (case pq_choice q of AllowTools ns \<Rightarrow> Some ns | _ \<Rightarrow> None)"

section \<open>Messages of the chat protocol\<close>

definition role_message :: "json \<Rightarrow> json \<Rightarrow> json" where
  "role_message r content = JObj [(''role'', r), (''content'', content)]"

definition ITEM_REFERENCE_ERROR :: exn where
  "ITEM_REFERENCE_ERROR = TranslationError ''item_reference is not supported (no stored item registry)''"

definition unknown_item :: "(json \<Rightarrow> string) \<Rightarrow> json \<Rightarrow> exn" where
  "unknown_item show itype = TranslationError (''Unknown input item type: '' @ py_str show itype)"

definition call_message :: "(json \<Rightarrow> string) \<Rightarrow> json \<Rightarrow> json" where
  "call_message show item = role_message (JStr ''assistant'')
     (JStr (''[Called tool '' @ py_str show (item_field ''name'' item) @ '' with arguments: ''
        @ py_str show (item_field ''arguments'' item) @ '']''))"

fun text_of_part :: "chat_part \<Rightarrow> string" where
  "text_of_part (TextPart t) = t"
| "text_of_part (ImagePart u) = []"

fun joined_text :: "chat_content \<Rightarrow> string" where
  "joined_text (Flat s) = s"
| "joined_text (Parts ps) = concat (map text_of_part ps)"

definition output_message :: "(json \<Rightarrow> string) \<Rightarrow> json \<Rightarrow> exn + json" where
  "output_message show item =
     bind_res (content_to_llama show (item_field ''output'' item)) (\<lambda>c.
     Inr (role_message (JStr ''user'')
       (JStr (''[Tool result ('' @ py_str show (item_field ''call_id'' item) @ '')]: '' @ joined_text c))))"

definition with_phase :: "(json \<Rightarrow> string) \<Rightarrow> json \<Rightarrow> json \<Rightarrow> chat_content \<Rightarrow> chat_content" where
  "with_phase show r label c =
     (case c of
        Flat s \<Rightarrow> if r = JStr ''assistant'' \<and> py_true label
                  then Flat (strip (''[assistant phase: '' @ py_str show label @ ''] '' @ s)) else c
      | Parts ps \<Rightarrow> c)"

definition message_message :: "(json \<Rightarrow> string) \<Rightarrow> json \<Rightarrow> exn + json" where
  "message_message show item =
     bind_res (content_to_llama show (item_field ''content'' item)) (\<lambda>c.
     Inr (role_message (py_or (item_field ''role'' item) (JStr ''user''))
       (chat_content_json (with_phase show (item_field ''role'' item) (item_field ''phase'' item) c))))"

text \<open>The messages of one item: none for a reasoning item, one for another.\<close>

definition llama_messages_of :: "(json \<Rightarrow> string) \<Rightarrow> json \<Rightarrow> exn + json list" where
  "llama_messages_of show item =
     (let itype = type_of item in
      if itype = JStr ''item_reference'' then Inl ITEM_REFERENCE_ERROR
      else if itype = JStr ''compaction''
        then Inr [role_message (JStr ''assistant'') (py_or (item_field ''encrypted_content'' item) (JStr []))]
      else if itype = JStr ''reasoning'' then Inr []
      else if itype = JStr ''function_call'' then Inr [call_message show item]
      else if itype = JStr ''function_call_output'' then bind_res (output_message show item) (\<lambda>m. Inr [m])
      else if itype = JStr ''message'' then bind_res (message_message show item) (\<lambda>m. Inr [m])
      else Inl (unknown_item show itype))"

fun add_messages :: "(json \<Rightarrow> string) \<Rightarrow> json list \<Rightarrow> json list \<Rightarrow> exn + json list" where
  "add_messages show messages [] = Inr messages"
| "add_messages show messages (item # items) =
     bind_res (llama_messages_of show item) (\<lambda>ms. add_messages show (messages @ ms) items)"

definition system_messages :: "response_request \<Rightarrow> json list" where
  "system_messages q = (case opt_given (pq_instructions q) of
     None \<Rightarrow> [] | Some s \<Rightarrow> [role_message (JStr ''system'') (JStr s)])"

definition input_items_to_llama_messages ::
  "(json \<Rightarrow> string) \<Rightarrow> response_request \<Rightarrow> json list \<Rightarrow> exn + json list" where
  "input_items_to_llama_messages show q history =
     add_messages show (system_messages q) (history @ input_items q)"

text \<open>The payload of the chat endpoint.\<close>

definition llama_format :: "text_format option \<Rightarrow> obj \<Rightarrow> obj" where
  "llama_format f fs = (case f of
     Some (JsonSchemaFormat name description schema strict) \<Rightarrow>
       (case opt_given schema of None \<Rightarrow> fs | Some s \<Rightarrow> put ''json_schema'' (JObj [(''schema'', JObj s)]) fs)
   | Some JsonObjectFormat \<Rightarrow> put ''response_format'' (JObj [(''type'', JStr ''json_object'')]) fs
   | _ \<Rightarrow> fs)"

definition llama_payload ::
  "(json \<Rightarrow> string) \<Rightarrow> response_request \<Rightarrow> json list \<Rightarrow> bool \<Rightarrow> string option \<Rightarrow> exn + obj" where
  "llama_payload show q history stream effort =
     bind_res (input_items_to_llama_messages show q history) (\<lambda>ms.
     (let p0 = [(''messages'', JArr ms), (''stream'', JBool stream)];
          p1 = (if stream then put ''stream_options'' (JObj [(''include_usage'', JBool True)]) p0 else p0);
          p2 = put_some ''temperature'' (map_option JFloat (pq_temperature q)) p1;
          p3 = put_some ''top_p'' (map_option JFloat (pq_top_p q)) p2;
          p4 = put_some ''presence_penalty'' (map_option JFloat (pq_presence_penalty q)) p3;
          p5 = put_some ''frequency_penalty'' (map_option JFloat (pq_frequency_penalty q)) p4;
          p6 = put_some ''reasoning_effort'' (map_option JStr effort) p5;
          p7 = put_some ''max_tokens'' (map_option JInt (pq_max_output_tokens q)) p6
      in Inr (fold (\<lambda>(k, v). put k v) (tools_to_llama q) (llama_format (pq_format q) p7))))"

section \<open>Input of a native endpoint\<close>

definition native_text_part :: "string \<Rightarrow> string \<Rightarrow> json" where
  "native_text_part ptype t = JObj [(''type'', JStr ptype), (''text'', JStr t)]"

fun native_content_part :: "(json \<Rightarrow> string) \<Rightarrow> json \<Rightarrow> exn + json" where
  "native_content_part show (JStr s) = Inr (native_text_part ''input_text'' s)"
| "native_content_part show part =
     (let ptype = type_of part in
      if ptype \<in> {JStr ''input_text'', JStr ''output_text''}
      then Inr (JObj [(''type'', ptype), (''text'', JStr (py_str show (py_or (item_field ''text'' part) (JStr []))))])
      else if ptype = JStr ''input_image'' then
        (let url = item_field ''image_url'' part; detail = item_field ''detail'' part in
         if \<not> py_true url then Inl (TranslationError ''input_image requires an image_url'')
         else Inr (JObj ([(''type'', JStr ''input_image''), (''image_url'', JStr (py_str show url))]
                @ (if py_true detail then [(''detail'', detail)] else []))))
      else Inl (unsupported_part show (''gufo'' @ [CHR 39] @ ''s native /v1/responses'') ptype))"

definition native_side :: "json \<Rightarrow> string" where
  "native_side r = (if r = JStr ''assistant'' then ''output_text'' else ''input_text'')"

text \<open>A text part takes the type that its role asks for.\<close>

definition retype_part :: "string \<Rightarrow> json \<Rightarrow> json" where
  "retype_part text_type part =
     (if type_of part \<in> {JStr ''input_text'', JStr ''output_text''}
      then JObj [(''type'', JStr text_type), (''text'', item_field ''text'' part)] else part)"

definition native_message_content :: "(json \<Rightarrow> string) \<Rightarrow> json \<Rightarrow> json \<Rightarrow> exn + json list" where
  "native_message_content show content r =
     (case content of
        JNull \<Rightarrow> Inr []
      | JStr s \<Rightarrow> Inr [native_text_part (native_side r) s]
      | _ \<Rightarrow> bind_res (py_iter content) (each (\<lambda>p. bind_res (native_content_part show p) (\<lambda>m. Inr (retype_part (native_side r) m)))))"

definition summary_part :: "(json \<Rightarrow> string) \<Rightarrow> json \<Rightarrow> json list" where
  "summary_part show part =
     (if py_true (item_field ''text'' part) then [native_text_part ''summary_text'' (py_str show (item_field ''text'' part))] else [])"

definition summary_parts :: "(json \<Rightarrow> string) \<Rightarrow> json \<Rightarrow> exn + json list" where
  "summary_parts show raw = bind_res (py_iter (py_or raw (JArr []))) (\<lambda>ps. Inr (concat (map (summary_part show) ps)))"

definition native_reasoning_item :: "(json \<Rightarrow> string) \<Rightarrow> json \<Rightarrow> exn + json" where
  "native_reasoning_item show item =
     bind_res (summary_parts show (item_field ''summary'' item)) (\<lambda>s.
     bind_res (if s = [] then summary_parts show (item_field ''content'' item) else Inr s) (\<lambda>s'.
     Inr (JObj [(''type'', JStr ''reasoning''), (''summary'', JArr s')])))"

definition native_function_call_item :: "(json \<Rightarrow> string) \<Rightarrow> json \<Rightarrow> exn + json" where
  "native_function_call_item show item =
     (if \<not> py_true (item_field ''call_id'' item) then Inl (TranslationError ''function_call items require a call_id'')
      else Inr (JObj [(''type'', JStr ''function_call''),
        (''call_id'', JStr (py_str show (item_field ''call_id'' item))),
        (''name'', JStr (py_str show (py_or (item_field ''name'' item) (JStr ''unknown'')))),
        (''arguments'', py_or (item_field ''arguments'' item) (JStr ''{}''))]))"

definition native_output :: "(json \<Rightarrow> string) \<Rightarrow> json \<Rightarrow> exn + json" where
  "native_output show out =
     (case out of
        JNull \<Rightarrow> Inr (JStr [])
      | JStr s \<Rightarrow> Inr (JStr s)
      | _ \<Rightarrow> bind_res (py_iter out) (\<lambda>ps. bind_res (each (native_content_part show) ps) (\<lambda>ms. Inr (JArr ms))))"

definition native_function_output_item :: "(json \<Rightarrow> string) \<Rightarrow> json \<Rightarrow> exn + json" where
  "native_function_output_item show item =
     (if \<not> py_true (item_field ''call_id'' item)
      then Inl (TranslationError ''function_call_output items require a call_id'')
      else bind_res (native_output show (item_field ''output'' item)) (\<lambda>out.
        Inr (JObj [(''type'', JStr ''function_call_output''),
          (''call_id'', JStr (py_str show (item_field ''call_id'' item))), (''output'', out)])))"

definition native_message :: "json \<Rightarrow> json list \<Rightarrow> json" where
  "native_message r parts = JObj [(''type'', JStr ''message''), (''role'', r), (''content'', JArr parts)]"

definition native_item_of :: "(json \<Rightarrow> string) \<Rightarrow> json \<Rightarrow> exn + json" where
  "native_item_of show item =
     (let itype = type_of item in
      if itype = JStr ''item_reference'' then Inl ITEM_REFERENCE_ERROR
      else if itype = JStr ''reasoning'' then native_reasoning_item show item
      else if itype = JStr ''function_call'' then native_function_call_item show item
      else if itype = JStr ''function_call_output'' then native_function_output_item show item
      else if itype = JStr ''compaction''
        then Inr (native_message (JStr ''assistant'')
          [JObj [(''type'', JStr ''output_text''), (''text'', py_or (item_field ''encrypted_content'' item) (JStr []))]])
      else if itype = JStr ''message''
        then (let r = py_or (item_field ''role'' item) (JStr ''user'')
              in bind_res (native_message_content show (item_field ''content'' item) r) (\<lambda>parts. Inr (native_message r parts)))
      else Inl (unknown_item show itype))"

definition input_items_to_gufo_native ::
  "(json \<Rightarrow> string) \<Rightarrow> response_request \<Rightarrow> json list \<Rightarrow> exn + json list" where
  "input_items_to_gufo_native show q history = each (native_item_of show) (history @ input_items q)"

text \<open>The payload of the native endpoint.\<close>

definition native_tool :: "function_tool \<Rightarrow> json" where
  "native_tool t = JObj ([(''type'', JStr ''function''), (''name'', JStr (ft_name t))]
     @ entry ''description'' (map_option JStr (opt_given (ft_description t)))
     @ entry ''parameters'' (map_option JObj (ft_parameters t))
     @ entry ''strict'' (map_option JBool (ft_strict t)))"

definition native_tool_choice :: "response_request \<Rightarrow> exn + json" where
  "native_tool_choice q = (case pq_choice q of
     ChoiceMode m \<Rightarrow> Inr (JStr m)
   | AllowTools ns \<Rightarrow> Inl (TranslationError (''tool_choice='' @ [CHR 39] @ ''allowed_tools'' @ [CHR 39]
       @ '' is not supported by the native /v1/responses''))
   | ChooseFunction n \<Rightarrow> Inr (JObj [(''type'', JStr ''function''),
       (''name'', case opt_given (Some n) of None \<Rightarrow> JNull | Some n' \<Rightarrow> JStr n')]))"

definition native_text :: "response_request \<Rightarrow> json option" where
  "native_text q = (case pq_format q of
     Some JsonObjectFormat \<Rightarrow> Some (JObj [(''format'', JObj [(''type'', JStr ''json_object'')])])
   | Some (JsonSchemaFormat name description schema strict) \<Rightarrow>
       (case opt_given schema of
          None \<Rightarrow> None
        | Some s \<Rightarrow> Some (JObj [(''format'', JObj ([(''type'', JStr ''json_schema''),
            (''name'', JStr (case opt_given name of None \<Rightarrow> ''Reply'' | Some n \<Rightarrow> n)), (''schema'', JObj s)]
            @ entry ''strict'' (map_option JBool strict)
            @ entry ''description'' (map_option JStr (opt_given description))))]))
   | _ \<Rightarrow> None)"

definition native_tools_payload :: "response_request \<Rightarrow> obj \<Rightarrow> exn + obj" where
  "native_tools_payload q fs =
     (if pq_tools q = [] then Inr fs
      else bind_res (native_tool_choice q) (\<lambda>c.
        Inr (put ''tool_choice'' c (put ''tools'' (JArr (map native_tool (pq_tools q))) fs))))"

definition gufo_native_payload ::
  "(json \<Rightarrow> string) \<Rightarrow> response_request \<Rightarrow> json list \<Rightarrow> bool \<Rightarrow> string option \<Rightarrow> json \<Rightarrow> exn + obj" where
  "gufo_native_payload show q history stream effort engine =
     bind_res (input_items_to_gufo_native show q history) (\<lambda>items.
     (let p0 = [(''input'', JArr items), (''stream'', JBool stream), (''store'', JBool False)];
          p1 = (if engine = JStr ''halogen-flash'' then put ''model'' (JStr (pq_model q)) p0 else p0);
          p2 = put_some ''instructions'' (map_option JStr (pq_instructions q)) p1;
          p3 = put_some ''max_output_tokens'' (map_option JInt (pq_max_output_tokens q)) p2;
          p4 = put_some ''temperature'' (map_option JFloat (pq_temperature q)) p3;
          p5 = put_some ''top_p'' (map_option JFloat (pq_top_p q)) p4;
          p6 = put_some ''presence_penalty'' (map_option JFloat (pq_presence_penalty q)) p5;
          p7 = put_some ''frequency_penalty'' (map_option JFloat (pq_frequency_penalty q)) p6;
          p8 = put_some ''parallel_tool_calls'' (map_option JBool (pq_parallel q)) p7;
          p9 = put_some ''reasoning'' (map_option (\<lambda>e. JObj [(''effort'', JStr e)]) effort) p8
      in bind_res (native_tools_payload q p9) (\<lambda>p10. Inr (put_some ''text'' (native_text q) p10))))"

section \<open>Items that are stored\<close>

text \<open>\<open>exclude_none\<close>: the entries of an object whose value is not null.\<close>

definition drop_nulls :: "obj \<Rightarrow> obj" where
  "drop_nulls fs = filter (\<lambda>f. look (fst f) JNull fs \<noteq> JNull) fs"

fun clean_part :: "json \<Rightarrow> json" where
  "clean_part (JObj fs) = JObj (drop_nulls fs)"
| "clean_part j = j"

definition clean_parts :: "string \<Rightarrow> obj \<Rightarrow> obj" where
  "clean_parts k fs = (case map_of fs k of Some (JArr ps) \<Rightarrow> put k (JArr (map clean_part ps)) fs | _ \<Rightarrow> fs)"

fun clean_item :: "json \<Rightarrow> json list" where
  "clean_item (JObj fs) = [JObj (clean_parts ''summary'' (clean_parts ''content'' (drop_nulls fs)))]"
| "clean_item j = []"

definition gufo_buffered_to_output_items :: "json \<Rightarrow> exn + json list" where
  "gufo_buffered_to_output_items response =
     bind_res (py_get ''output'' JNull response) (\<lambda>out.
     bind_res (py_iter (py_or out (JArr []))) (\<lambda>items. Inr (concat (map clean_item items))))"

text \<open>
  \<open>_stored_input_items\<close>: the dump of an item without its null fields, also in the parts of the
  fields that hold a list of parts.
\<close>

definition PART_FIELDS :: "string list" where
  "PART_FIELDS = [''content'', ''summary'', ''output'']"

fun dump_parts :: "json \<Rightarrow> json" where
  "dump_parts (JArr ps) = JArr (map clean_part ps)"
| "dump_parts j = j"

fun dump_item :: "json \<Rightarrow> json" where
  "dump_item (JObj fs) = JObj (map (\<lambda>(k, v). (k, if k \<in> set PART_FIELDS then dump_parts v else v)) (drop_nulls fs))"
| "dump_item j = j"

definition stored_input_items :: "response_request \<Rightarrow> json list" where
  "stored_input_items q = (case pq_input q of Inl s \<Rightarrow> input_items q | Inr items \<Rightarrow> map dump_item items)"

end
