(* ===== verification/ResponsePayloadSafety.thy ===== *)
theory ResponsePayloadSafety
  imports ResponsePayload ResponseStream ResponseChain
begin

text \<open>
  What an engine reads of a conversation: the two translations carry the same turns in the same
  order, and a stored turn reads, in the next request, as it did when it was made.
\<close>

section \<open>Readings\<close>

datatype atom = Letter char | Picture string

fun part_atoms :: "chat_part \<Rightarrow> atom list" where
  "part_atoms (TextPart t) = map Letter t"
| "part_atoms (ImagePart u) = [Picture u]"

fun content_atoms :: "chat_content \<Rightarrow> atom list" where
  "content_atoms (Flat s) = map Letter s"
| "content_atoms (Parts ps) = concat (map part_atoms ps)"

text \<open>What a part says: its image, or its text.\<close>

definition source_atoms :: "(json \<Rightarrow> string) \<Rightarrow> json \<Rightarrow> atom list" where
  "source_atoms show p = (case item_part_image show p of
     Some u \<Rightarrow> [Picture u]
   | None \<Rightarrow> (case item_part_text show p of Some t \<Rightarrow> map Letter t | None \<Rightarrow> []))"

lemma flush_atoms:
  "concat (map part_atoms (flush_text buf parts)) = concat (map part_atoms parts) @ map Letter (concat buf)"
  by (simp add: flush_text_def)

lemma merge_atoms:
  "merge_parts sh parts buf ps = Inr out \<Longrightarrow>
    concat (map part_atoms out) = concat (map part_atoms parts) @ map Letter (concat buf) @ concat (map (source_atoms sh) ps)"
  by (induction sh parts buf ps rule: merge_parts.induct)
    (auto simp: flush_atoms source_atoms_def split: option.splits)

text \<open>Texts that follow each other are one part, so a list of parts alternates.\<close>

fun alternating :: "chat_part list \<Rightarrow> bool" where
  "alternating (TextPart s # TextPart t # ps) \<longleftrightarrow> False"
| "alternating (p # ps) \<longleftrightarrow> alternating ps"
| "alternating [] \<longleftrightarrow> True"

fun ends_in_text :: "chat_part list \<Rightarrow> bool" where
  "ends_in_text [] \<longleftrightarrow> False"
| "ends_in_text [TextPart t] \<longleftrightarrow> True"
| "ends_in_text [ImagePart u] \<longleftrightarrow> False"
| "ends_in_text (p # ps) \<longleftrightarrow> ends_in_text ps"

lemma alternating_snoc: "alternating ps \<Longrightarrow> \<not> ends_in_text ps \<Longrightarrow> alternating (ps @ [p])"
  by (induction ps rule: alternating.induct; cases p) (auto elim: ends_in_text.elims)

lemma ends_in_image: "\<not> ends_in_text (ps @ [ImagePart u])"
  by (induction ps rule: ends_in_text.induct) simp_all

lemma alternating_image: "alternating ps \<Longrightarrow> alternating (ps @ [ImagePart u])"
  by (induction ps rule: alternating.induct) simp_all

lemma merge_alternates:
  "alternating parts \<Longrightarrow> \<not> ends_in_text parts \<Longrightarrow> merge_parts sh parts buf ps = Inr out \<Longrightarrow> alternating out"
proof (induction sh parts buf ps rule: merge_parts.induct)
  case (1 sh parts buf)
  then show ?case by (auto simp: flush_text_def alternating_snoc)
next
  case (2 sh parts buf p ps)
  show ?case
  proof (cases "item_part_image sh p")
    case None
    with 2 show ?thesis by (auto split: option.splits)
  next
    case (Some u)
    have "alternating (flush_text buf parts)" using 2(3,4) by (simp add: flush_text_def alternating_snoc)
    then have "alternating (flush_text buf parts @ [ImagePart u])" by (rule alternating_image)
    with 2(2) [OF Some _ ends_in_image] 2(5) Some show ?thesis by simp
  qed
qed

text \<open>What the parts say, whatever the shape of the content.\<close>

definition content_parts :: "json \<Rightarrow> json list" where
  "content_parts c = (case c of JNull \<Rightarrow> [] | JStr s \<Rightarrow> [JStr s] | _ \<Rightarrow> (case py_iter c of Inl e \<Rightarrow> [] | Inr ps \<Rightarrow> ps))"

lemma flatten_atoms: "content_atoms (flatten_parts ps) = concat (map part_atoms ps)"
  by (auto simp: flatten_parts_def split: list.split chat_part.split)

lemma content_to_llama_atoms:
  "content_to_llama sh c = Inr out \<Longrightarrow> content_atoms out = concat (map (source_atoms sh) (content_parts c))"
  by (cases c) (auto simp: content_to_llama_def content_parts_def bind_res_Inr_iff flatten_atoms source_atoms_def dest!: merge_atoms)

section \<open>Turns on the wire\<close>

text \<open>What a part of a payload says, in either protocol, and the turn a message is.\<close>

definition wire_text :: "json \<Rightarrow> atom list" where
  "wire_text j = (case j of JStr t \<Rightarrow> map Letter t | _ \<Rightarrow> [])"

definition wire_picture :: "json \<Rightarrow> atom list" where
  "wire_picture j = (case j of JStr u \<Rightarrow> [Picture u] | _ \<Rightarrow> [])"

definition wire_atoms :: "json \<Rightarrow> atom list" where
  "wire_atoms p =
     (if type_of p \<in> {JStr ''text'', JStr ''input_text'', JStr ''output_text''} then wire_text (item_field ''text'' p)
      else if type_of p = JStr ''input_image'' then wire_picture (item_field ''image_url'' p)
      else if type_of p = JStr ''image_url'' then wire_picture (item_field ''url'' (item_field ''image_url'' p))
      else [])"

fun wire_reading :: "json \<Rightarrow> atom list" where
  "wire_reading (JStr s) = map Letter s"
| "wire_reading (JArr ps) = concat (map wire_atoms ps)"
| "wire_reading j = []"

definition wire_turn :: "json \<Rightarrow> json \<times> atom list" where
  "wire_turn m = (item_field ''role'' m, wire_reading (item_field ''content'' m))"

lemma wire_chat_part: "wire_atoms (chat_part_json p) = part_atoms p"
  by (cases p) (simp_all add: wire_atoms_def wire_text_def wire_picture_def look_def)

lemma wire_chat_content: "wire_reading (chat_content_json c) = content_atoms c"
  by (cases c) (simp_all add: wire_chat_part comp_def)

lemma turn_role_message: "wire_turn (role_message r c) = (r, wire_reading c)"
  by (simp add: wire_turn_def role_message_def look_def)

lemma turn_native_message: "wire_turn (native_message r ps) = (r, concat (map wire_atoms ps))"
  by (simp add: wire_turn_def native_message_def look_def)

subsection \<open>Parts\<close>

text \<open>A part whose text, when it has one, is a string; the models of the request guarantee it.\<close>

definition plain_part :: "json \<Rightarrow> bool" where
  "plain_part p \<longleftrightarrow> (type_of p \<in> {JStr ''input_text'', JStr ''output_text''} \<longrightarrow> (\<exists>t. item_field ''text'' p = JStr t))"

lemma native_part_atoms:
  assumes "native_content_part sh p = Inr m" "plain_part p"
  shows "wire_atoms (retype_part (native_side r) m) = source_atoms sh p"
proof (cases p)
  case (JObj fs)
  have "type_of p = JStr ''input_image'' \<or> (\<exists>t. type_of p \<in> {JStr ''input_text'', JStr ''output_text''} \<and> item_field ''text'' p = JStr t)"
    using assms JObj by (auto simp: plain_part_def Let_def split: if_splits)
  then show ?thesis
  proof (elim disjE exE conjE)
    assume t: "type_of p = JStr ''input_image''"
    show ?thesis
      using assms(1) t JObj
      by (auto simp: Let_def retype_part_def wire_atoms_def wire_picture_def source_atoms_def look_def native_side_def split: if_splits)
  next
    fix t
    assume t: "type_of p \<in> {JStr ''input_text'', JStr ''output_text''}" "item_field ''text'' p = JStr t"
    have m: "m = JObj [(''type'', type_of p), (''text'', JStr t)]"
      using assms(1) t JObj by (auto simp: Let_def py_or_def py_str_def split: if_splits)
    have "source_atoms sh p = map Letter t"
      using t JObj by (auto simp: source_atoms_def str_unless_null_def py_str_def)
    moreover have "wire_atoms (retype_part (native_side r) m) = map Letter t"
      using t(1) unfolding m by (auto simp: retype_part_def wire_atoms_def wire_text_def look_def native_side_def)
    ultimately show ?thesis by simp
  qed
qed (use assms in \<open>auto simp: native_text_part_def retype_part_def wire_atoms_def wire_text_def source_atoms_def look_def
  native_side_def unsupported_part_def Let_def\<close>)

lemma native_parts_atoms:
  assumes "each (\<lambda>p. bind_res (native_content_part sh p) (\<lambda>m. Inr (retype_part (native_side r) m))) ps = Inr out"
    "list_all plain_part ps"
  shows "concat (map wire_atoms out) = concat (map (source_atoms sh) ps)"
  using assms
  by (induction ps arbitrary: out) (auto simp: bind_res_Inr_iff native_part_atoms)

lemma native_content_atoms:
  assumes "native_message_content sh c r = Inr out" "list_all plain_part (content_parts c)"
  shows "concat (map wire_atoms out) = concat (map (source_atoms sh) (content_parts c))"
proof (cases c)
  case (JStr s)
  with assms show ?thesis
    by (auto simp: native_message_content_def content_parts_def native_text_part_def native_side_def wire_atoms_def
        wire_text_def look_def source_atoms_def)
qed (use assms in \<open>auto simp: native_message_content_def content_parts_def bind_res_Inr_iff dest: native_parts_atoms\<close>)

subsection \<open>Items\<close>

text \<open>
  Items that both protocols can carry as they are: messages without a phase label, compacted
  summaries, and reasoning, which the chat protocol leaves out.
\<close>

definition plain_item :: "json \<Rightarrow> bool" where
  "plain_item item \<longleftrightarrow>
     type_of item = JStr ''reasoning''
     \<or> type_of item = JStr ''compaction'' \<and> (item_field ''encrypted_content'' item = JNull \<or> (\<exists>t. item_field ''encrypted_content'' item = JStr t))
     \<or> type_of item = JStr ''message'' \<and> list_all plain_part (content_parts (item_field ''content'' item))
       \<and> \<not> (item_field ''role'' item = JStr ''assistant'' \<and> py_true (item_field ''phase'' item))"

definition native_messages :: "json list \<Rightarrow> json list" where
  "native_messages ns = filter (\<lambda>n. type_of n = JStr ''message'') ns"

lemma type_native_message: "type_of (native_message r ps) = JStr ''message''"
  by (simp add: native_message_def look_def)

lemma reasoning_not_message:
  "native_reasoning_item sh item = Inr n \<Longrightarrow> type_of n = JStr ''reasoning''"
  by (auto simp: native_reasoning_item_def bind_res_Inr_iff look_def)

lemma message_turn:
  assumes "message_message sh item = Inr m" "native_message_content sh (item_field ''content'' item) r = Inr ps"
    and "list_all plain_part (content_parts (item_field ''content'' item))" "r = py_or (item_field ''role'' item) (JStr ''user'')"
    and "\<not> (item_field ''role'' item = JStr ''assistant'' \<and> py_true (item_field ''phase'' item))"
  shows "wire_turn m = wire_turn (native_message r ps)"
proof -
  obtain c where c: "content_to_llama sh (item_field ''content'' item) = Inr c"
    "m = role_message r (chat_content_json (with_phase sh (item_field ''role'' item) (item_field ''phase'' item) c))"
    using assms(1,4) by (auto simp: message_message_def bind_res_Inr_iff)
  have "with_phase sh (item_field ''role'' item) (item_field ''phase'' item) c = c"
    using assms(5) by (cases c) (auto simp: with_phase_def)
  with c content_to_llama_atoms [OF c(1)] native_content_atoms [OF assms(2,3)] show ?thesis
    by (simp add: turn_role_message turn_native_message wire_chat_content)
qed

lemma item_turns:
  assumes "plain_item item" "llama_messages_of sh item = Inr ms" "native_item_of sh item = Inr n"
  shows "map wire_turn ms = map wire_turn (native_messages [n])"
  using assms(1) unfolding plain_item_def
proof (elim disjE conjE)
  assume "type_of item = JStr ''reasoning''"
  with assms(2,3) show ?thesis
    by (auto simp: llama_messages_of_def native_item_of_def native_messages_def Let_def dest: reasoning_not_message)
next
  assume "type_of item = JStr ''compaction''" "item_field ''encrypted_content'' item = JNull"
  with assms(2,3) show ?thesis
    by (auto simp: llama_messages_of_def native_item_of_def native_messages_def type_native_message turn_role_message
        turn_native_message py_or_def wire_atoms_def wire_text_def look_def)
next
  assume "type_of item = JStr ''compaction''" "\<exists>t. item_field ''encrypted_content'' item = JStr t"
  with assms(2,3) show ?thesis
    by (auto simp: llama_messages_of_def native_item_of_def native_messages_def type_native_message turn_role_message
        turn_native_message py_or_def wire_atoms_def wire_text_def look_def)
next
  assume m: "type_of item = JStr ''message''" "list_all plain_part (content_parts (item_field ''content'' item))"
    "\<not> (item_field ''role'' item = JStr ''assistant'' \<and> py_true (item_field ''phase'' item))"
  let ?r = "py_or (item_field ''role'' item) (JStr ''user'')"
  obtain m' where m': "message_message sh item = Inr m'" "ms = [m']"
    using assms(2) m(1) by (auto simp: llama_messages_of_def bind_res_Inr_iff)
  obtain ps where ps: "native_message_content sh (item_field ''content'' item) ?r = Inr ps" "n = native_message ?r ps"
    using assms(3) m(1) by (auto simp: native_item_of_def bind_res_Inr_iff Let_def)
  from message_turn [OF m'(1) ps(1) m(2) refl m(3)] m'(2) ps(2) show ?thesis
    by (simp add: native_messages_def type_native_message)
qed

subsection \<open>Conversations\<close>

lemma add_messages_each:
  "add_messages sh ms items = bind_res (each (llama_messages_of sh) items) (\<lambda>mss. Inr (ms @ concat mss))"
proof (induction items arbitrary: ms)
  case (Cons item items)
  show ?case
  proof (cases "llama_messages_of sh item")
    case (Inr ms')
    with Cons show ?thesis by (cases "each (llama_messages_of sh) items") simp_all
  qed simp
qed simp

lemma items_turns:
  assumes "list_all plain_item items" "each (llama_messages_of sh) items = Inr mss" "each (native_item_of sh) items = Inr ns"
  shows "map wire_turn (concat mss) = map wire_turn (native_messages ns)"
  using assms
proof (induction items arbitrary: mss ns)
  case (Cons item items)
  then obtain ms mss' n ns' where o: "mss = ms # mss'" "ns = n # ns'" "llama_messages_of sh item = Inr ms"
    "native_item_of sh item = Inr n" "each (llama_messages_of sh) items = Inr mss'" "each (native_item_of sh) items = Inr ns'"
    by (auto simp: bind_res_Inr_iff)
  have "plain_item item" "list_all plain_item items" using Cons.prems(1) by simp_all
  with item_turns o Cons.IH have
    "map wire_turn ms = map wire_turn (native_messages [n])" "map wire_turn (concat mss') = map wire_turn (native_messages ns')" by blast+
  moreover have "native_messages ns = native_messages [n] @ native_messages ns'" using o(2) by (simp add: native_messages_def)
  ultimately show ?case using o(1) by simp
qed (simp add: native_messages_def)

text \<open>
  Claim C33: both kinds of engine read the same conversation. Over a history and a request made of
  messages without a phase label, compacted summaries and reasoning, and with both translations accepted, the turns
  sent on the chat protocol (after the system message of the instructions) are the turns of the
  messages sent to a native endpoint, in order: the same roles, the same text character by
  character, the same images at the same places.
\<close>

theorem engines_read_alike:
  assumes "list_all plain_item (history @ input_items q)"
    "input_items_to_llama_messages sh q history = Inr ms" "input_items_to_gufo_native sh q history = Inr ns"
  shows "map wire_turn ms = map wire_turn (system_messages q) @ map wire_turn (native_messages ns)"
proof -
  obtain mss where "each (llama_messages_of sh) (history @ input_items q) = Inr mss" "ms = system_messages q @ concat mss"
    using assms(2) by (auto simp: input_items_to_llama_messages_def add_messages_each bind_res_Inr_iff)
  with items_turns [OF assms(1) _ assms(3) [unfolded input_items_to_gufo_native_def]] show ?thesis by simp
qed

section \<open>Stored turns\<close>

text \<open>A dumped item reads like the item.\<close>

lemma look_drop_nulls: "look k JNull (drop_nulls fs) = look k JNull fs"
proof -
  have "map_of (filter (\<lambda>f. P (fst f)) fs) k = (if P k then map_of fs k else None)" for P
    by (induction fs) auto
  from this [of "\<lambda>k. look k JNull fs \<noteq> JNull"] show ?thesis
    by (auto simp: drop_nulls_def look_def split: option.splits)
qed

lemma clean_part_field: "item_field k (clean_part p) = item_field k p"
  by (cases p) (simp_all add: look_drop_nulls)

lemma dump_item_field:
  "item_field k (dump_item j) = (if k \<in> set PART_FIELDS then dump_parts (item_field k j) else item_field k j)"
proof (cases j)
  case (JObj fs)
  have "map_of (map (\<lambda>(k, v). (k, if k \<in> set PART_FIELDS then dump_parts v else v)) gs) k =
      map_option (if k \<in> set PART_FIELDS then dump_parts else id) (map_of gs k)" for gs
    by (induction gs) auto
  then have "item_field k (dump_item j) = (case map_of (drop_nulls fs) k of None \<Rightarrow> JNull
      | Some v \<Rightarrow> if k \<in> set PART_FIELDS then dump_parts v else v)"
    using JObj by (simp add: look_def split: option.split)
  moreover have "item_field k j = (case map_of (drop_nulls fs) k of None \<Rightarrow> JNull | Some v \<Rightarrow> v)"
    using look_drop_nulls [of k fs] JObj by (simp add: look_def)
  ultimately show ?thesis by (simp split: option.split)
qed auto

lemma clean_part_shape:
  "item_part_image sh (clean_part p) = item_part_image sh p" "item_part_text sh (clean_part p) = item_part_text sh p"
  "part_kind (clean_part p) = part_kind p" "native_content_part sh (clean_part p) = native_content_part sh p"
  "summary_part sh (clean_part p) = summary_part sh p"
  using clean_part_field [of _ p] by (cases p; simp add: part_kind_def Let_def summary_part_def; fail)+

lemma merge_clean: "merge_parts sh parts buf (map clean_part ps) = merge_parts sh parts buf ps"
  by (induction sh parts buf ps rule: merge_parts.induct) (simp_all add: clean_part_shape split: option.split)

lemma each_map: "each f (map g xs) = each (\<lambda>x. f (g x)) xs"
  by (induction xs) simp_all

lemma dump_content:
  "content_to_llama sh (dump_parts c) = content_to_llama sh c" "native_message_content sh (dump_parts c) r = native_message_content sh c r"
  "native_output sh (dump_parts c) = native_output sh c"
  by (cases c; simp add: content_to_llama_def native_message_content_def native_output_def merge_clean each_map clean_part_shape)+

lemma dump_summary: "summary_parts sh (dump_parts c) = summary_parts sh c"
  by (cases c) (simp_all add: summary_parts_def py_or_def clean_part_shape comp_def)

lemma dump_reasoning: "native_reasoning_item sh (dump_item j) = native_reasoning_item sh j"
  by (simp add: native_reasoning_item_def dump_item_field PART_FIELDS_def dump_summary cong: if_cong)

lemma dump_reads_alike: "llama_messages_of sh (dump_item j) = llama_messages_of sh j" "native_item_of sh (dump_item j) = native_item_of sh j"
  by (simp_all add: llama_messages_of_def native_item_of_def dump_item_field PART_FIELDS_def output_message_def
      message_message_def call_message_def dump_reasoning native_function_call_item_def
      native_function_output_item_def dump_content dump_summary Let_def)

subsection \<open>Output items\<close>

text \<open>
  An output item as \<open>finish_reasoning\<close>, \<open>finish_message\<close> and \<open>finish_calls\<close> build it and the table keeps
  it; \<open>name_of\<close> is the text of an id.
\<close>

fun stored_item :: "(ident \<Rightarrow> string) \<Rightarrow> out_item \<Rightarrow> json" where
  "stored_item name_of (MessageItem i label t) =
     JObj ([(''type'', JStr ''message''), (''id'', JStr (name_of i)), (''status'', JStr ''completed''), (''role'', JStr ''assistant''),
        (''content'', case t of None \<Rightarrow> JArr []
          | Some s \<Rightarrow> JArr [JObj [(''type'', JStr ''output_text''), (''text'', JStr s), (''annotations'', JArr [])]])]
       @ entry ''phase'' (map_option JStr label))"
| "stored_item name_of (ReasoningItem i t) =
     JObj [(''type'', JStr ''reasoning''), (''id'', JStr (name_of i)), (''status'', JStr ''completed''), (''summary'', JArr []),
        (''content'', case t of None \<Rightarrow> JArr [] | Some s \<Rightarrow> JArr [JObj [(''type'', JStr ''reasoning_text''), (''text'', JStr s)]])]"
| "stored_item name_of (CallItem i c n args finished) =
     JObj [(''type'', JStr ''function_call''), (''id'', JStr (name_of i)), (''call_id'', JStr (name_of c)), (''name'', JStr n),
        (''arguments'', JStr args), (''status'', JStr (if finished then ''completed'' else ''in_progress''))]"

text \<open>What the next request tells a chat engine about an output item.\<close>

fun item_echo :: "(ident \<Rightarrow> string) \<Rightarrow> out_item \<Rightarrow> json list" where
  "item_echo name_of (MessageItem i label t) =
     (let said = (case t of None \<Rightarrow> [] | Some s \<Rightarrow> s) in
      [role_message (JStr ''assistant'') (JStr (case opt_given label of
         None \<Rightarrow> said | Some l \<Rightarrow> strip (''[assistant phase: '' @ l @ ''] '' @ said)))])"
| "item_echo name_of (ReasoningItem i t) = []"
| "item_echo name_of (CallItem i c n args finished) =
     [role_message (JStr ''assistant'') (JStr (''[Called tool '' @ n @ '' with arguments: '' @ args @ '']''))]"

lemma stored_item_echo: "llama_messages_of sh (stored_item name_of it) = Inr (item_echo name_of it)"
proof (cases it)
  case (MessageItem i label t)
  then show ?thesis
    by (cases t; cases label)
      (simp_all add: llama_messages_of_def message_message_def content_to_llama_def entry_def look_def flush_text_def
        flatten_parts_def with_phase_def opt_given_def py_or_def py_str_def str_unless_null_def)
next
  case (ReasoningItem i t)
  then show ?thesis by (simp add: llama_messages_of_def look_def)
next
  case (CallItem i c n args finished)
  then show ?thesis by (simp add: llama_messages_of_def call_message_def look_def py_str_def)
qed

text \<open>The last output items have ids, so a native endpoint takes them.\<close>

definition call_named :: "(ident \<Rightarrow> string) \<Rightarrow> out_item \<Rightarrow> bool" where
  "call_named name_of it = (case it of CallItem i c n args finished \<Rightarrow> name_of c \<noteq> [] | _ \<Rightarrow> True)"

lemma stored_item_native: "call_named name_of it \<Longrightarrow> \<exists>n. native_item_of sh (stored_item name_of it) = Inr n"
proof (cases it)
  case (MessageItem i label t)
  then show ?thesis
    by (cases t) (simp_all add: native_item_of_def native_message_content_def entry_def look_def py_or_def Let_def)
next
  case (ReasoningItem i t)
  then show ?thesis
    by (cases t) (simp_all add: native_item_of_def native_reasoning_item_def summary_parts_def look_def py_or_def)
next
  case (CallItem i c n args finished)
  then show "call_named name_of it \<Longrightarrow> ?thesis"
    by (simp add: native_item_of_def native_function_call_item_def call_named_def look_def)
qed

subsection \<open>The next request\<close>

lemma history_grows:
  assumes "persist_response r db = Inr db'" "rr_id r \<noteq> []" "load_previous db (rr_previous r) = Inr prev"
    "\<forall>q\<in>set db. rr_previous q \<noteq> Some (rr_id r)"
  shows "\<exists>r'. load_previous db' (Some (rr_id r)) = Inr (Some r')
    \<and> build_chain_history db' (Some r') = build_chain_history db prev @ rr_input r @ rr_output r"
proof (cases "given_id (rr_previous r)")
  case None
  let ?r = "r\<lparr>rr_store := True\<rparr>"
  have prev: "prev = None" using assms(3) None by (simp add: load_previous_def)
  have new: "rr_id r \<notin> set (map rr_id db)" and db': "db' = db @ [?r]"
    using assms(1) by (auto simp: persist_response_def split: if_splits)
  have "stored_response db' (rr_id r) = Some ?r"
    using stored_response_new [of ?r db] new by (simp add: db')
  then have "load_previous db' (Some (rr_id r)) = Inr (Some ?r)"
    using assms(2) by (simp add: load_previous_def given_id_def)
  moreover have "build_chain_history db' (Some ?r) = build_chain_history db prev @ rr_input r @ rr_output r"
    using None prev by (simp add: build_chain_history_def)
  ultimately show ?thesis by blast
next
  case (Some i)
  then obtain p where "stored_response db i = Some p" "prev = Some p"
    using assms(3) by (auto simp: load_previous_def split: option.splits)
  with history_extends [OF assms(1,2) Some _ assms(4)] show ?thesis by blast
qed

text \<open>The record \<open>_persist_response\<close> inserts for a turn.\<close>

definition stored_turn ::
  "(ident \<Rightarrow> string) \<Rightarrow> string \<Rightarrow> response_request \<Rightarrow> out_item list \<Rightarrow> string \<Rightarrow> json response_record" where
  "stored_turn name_of i q outs status =
     \<lparr>rr_id = i, rr_previous = pq_previous q, rr_input = stored_input_items q,
      rr_output = map (stored_item name_of) outs, rr_status = status, rr_store = True\<rparr>"

lemma each_stored:
  assumes "\<And>j. f (dump_item j) = f j"
  shows "each f (stored_input_items q) = each f (input_items q)"
  using assms by (simp add: stored_input_items_def input_items_def each_map split: sum.split)

text \<open>
  A conversation reads the same in its next turn. When a turn was translated for a chat
  engine and its record stored with the items it produced, a request that names that record is
  sent exactly the messages of the earlier turns, then the messages that echo the output, then its
  own, under its own instructions: nothing the engine was told before is lost, repeated or changed
  by the way through the table.
\<close>

theorem conversation_continues:
  assumes "persist_response (stored_turn name_of i q outs status) db = Inr db'" "i \<noteq> []"
    "load_previous db (pq_previous q) = Inr prev" "\<forall>r\<in>set db. rr_previous r \<noteq> Some i"
    "input_items_to_llama_messages sh q (build_chain_history db prev) = Inr (system_messages q @ ms)"
    "input_items_to_llama_messages sh q' [] = Inr (system_messages q' @ ms')"
  shows "\<exists>r'. load_previous db' (Some i) = Inr (Some r')
    \<and> input_items_to_llama_messages sh q' (build_chain_history db' (Some r')) =
        Inr (system_messages q' @ ms @ concat (map (item_echo name_of) outs) @ ms')"
proof -
  let ?r = "stored_turn name_of i q outs status" and ?f = "llama_messages_of sh"
  obtain r' where r': "load_previous db' (Some i) = Inr (Some r')"
    "build_chain_history db' (Some r') = build_chain_history db prev @ stored_input_items q @ map (stored_item name_of) outs"
    using history_grows [OF assms(1)] assms(2-4) by (auto simp: stored_turn_def)
  obtain mss where a: "each ?f (build_chain_history db prev @ input_items q) = Inr mss" "concat mss = ms"
    using assms(5) by (auto simp: input_items_to_llama_messages_def add_messages_each bind_res_Inr_iff)
  obtain mss' where b: "each ?f (input_items q') = Inr mss'" "concat mss' = ms'"
    using assms(6) by (auto simp: input_items_to_llama_messages_def add_messages_each bind_res_Inr_iff)
  have c: "each ?f (map (stored_item name_of) outs) = Inr (map (item_echo name_of) outs)"
    by (simp add: each_map stored_item_echo each_fine)
  have "each ?f (build_chain_history db prev @ stored_input_items q) = Inr mss"
    using a(1) by (simp add: each_append each_stored dump_reads_alike)
  then have "each ?f (build_chain_history db' (Some r') @ input_items q') = Inr (mss @ map (item_echo name_of) outs @ mss')"
    unfolding r'(2) append_assoc [symmetric] by (subst each_append, subst each_append) (simp add: b(1) c)
  with r'(1) a(2) b(2) show ?thesis by (simp add: input_items_to_llama_messages_def add_messages_each)
qed

theorem conversation_continues_native:
  assumes "persist_response (stored_turn name_of i q outs status) db = Inr db'" "i \<noteq> []"
    "load_previous db (pq_previous q) = Inr prev" "\<forall>r\<in>set db. rr_previous r \<noteq> Some i" "list_all (call_named name_of) outs"
    "input_items_to_gufo_native sh q (build_chain_history db prev) = Inr ns" "input_items_to_gufo_native sh q' [] = Inr ns'"
  shows "\<exists>r' ms. load_previous db' (Some i) = Inr (Some r') \<and> length ms = length outs
    \<and> input_items_to_gufo_native sh q' (build_chain_history db' (Some r')) = Inr (ns @ ms @ ns')"
proof -
  let ?f = "native_item_of sh"
  obtain r' where r': "load_previous db' (Some i) = Inr (Some r')"
    "build_chain_history db' (Some r') = build_chain_history db prev @ stored_input_items q @ map (stored_item name_of) outs"
    using history_grows [OF assms(1)] assms(2-4) by (auto simp: stored_turn_def)
  have "\<exists>g. \<forall>it\<in>set outs. ?f (stored_item name_of it) = Inr (g it)"
    using assms(5) stored_item_native by (intro bchoice) (auto simp: list_all_iff)
  then obtain g where c: "each ?f (map (stored_item name_of) outs) = Inr (map g outs)"
    by (auto simp: each_map intro!: each_fine)
  have "each ?f (build_chain_history db prev @ stored_input_items q) = Inr ns"
    using assms(6) by (simp add: input_items_to_gufo_native_def each_append each_stored dump_reads_alike)
  then have "each ?f (build_chain_history db' (Some r') @ input_items q') = Inr (ns @ map g outs @ ns')"
    using assms(7) unfolding r'(2) append_assoc [symmetric] input_items_to_gufo_native_def
    by (subst each_append, subst each_append) (simp add: c)
  with r'(1) show ?thesis by (auto simp: input_items_to_gufo_native_def)
qed

section \<open>What only one protocol takes\<close>

text \<open>A refusal is a part of the request models and reads as text for a chat engine; the native one refuses it.\<close>

lemma refusal_native:
  assumes "type_of part = JStr ''refusal''" "item_field ''refusal'' part = JStr t"
  shows "content_to_llama sh (JArr [part]) = Inr (Flat t)"
    "native_message_content sh (JArr [part]) r = Inl (TranslationError ''Unsupported content part type: refusal'')"
proof -
  obtain fs where p: "part = JObj fs" using assms by (cases part) auto
  show "content_to_llama sh (JArr [part]) = Inr (Flat t)"
    using assms unfolding p
    by (simp add: content_to_llama_def str_unless_null_def py_str_def flush_text_def flatten_parts_def)
  show "native_message_content sh (JArr [part]) r = Inl (TranslationError ''Unsupported content part type: refusal'')"
    using assms unfolding p by (simp add: native_message_content_def unsupported_part_def py_str_def)
qed

end
