(* ===== verification/ResponseRoutes.thy ===== *)
theory ResponseRoutes
  imports LeasedCalls ResponsePayloadSafety ResponseRun
begin

text \<open>
  The routes of the Responses API, backend/app/api/routes/v1/responses/router.py: the search for a
  server (\<open>resolve_target\<close>), the buffered call (\<open>_complete\<close>) with both readers of a reply, the guards
  of \<open>create_response\<close>, its lease, its reasoning policy, its hand-over to the stream of \<open>ResponseRun\<close>,
  and the compaction route.
  \<^item> The reading of one tool call of a reply and the output models are arguments; a reply is JSON.
  \<^item> Logging is left out, and of a result what later requests and the books depend on is kept.
\<close>

section \<open>State\<close>

record response_env = call_env +
  pe_fresh_id :: string
  pe_meta :: "server_row \<Rightarrow> json"
  pe_parse :: "obj \<Rightarrow> reasoning_block option"
  pe_records :: "json response_record list"
  pe_show :: "json \<Rightarrow> string"
  pe_name_of :: "ident \<Rightarrow> string"
  pe_tool :: "json \<Rightarrow> exn + int option \<times> tool_delta"
  pe_validate :: "json list \<Rightarrow> answer"

record response_result =
  pr_status :: string
  pr_output :: "json list"
  pr_usage :: usage
  pr_previous :: "string option"

datatype response_reply =
    ErrorReply nat string string string "string option"
  | StreamReply server_row "json list" "string option"
  | ResultReply response_result "json response_record list"

section \<open>The server\<close>

text \<open>The handlers around \<open>_get_or_create_server\<close>.\<close>

definition target_failure :: "(exn \<Rightarrow> string) \<Rightarrow> exn \<Rightarrow> exn" where
  "target_failure texts e = (case e of
     HttpStatus n m \<Rightarrow> TargetError (if n = 0 then 503 else n) ''no_agent_available'' m
   | ServerStartupError m \<Rightarrow> TargetError 503 ''no_agent_available'' (''Server not available: '' @ m)
   | _ \<Rightarrow> if is_exception e then TargetError 503 ''no_agent_available'' (''Failed to start server: '' @ texts e) else e)"

definition model_not_found :: "exn + 'a \<Rightarrow> exn + 'a" where
  "model_not_found res = (case res of
     Inl (LookupError m) \<Rightarrow> Inl (TargetError 404 ''model_not_found'' m)
   | Inl (ValueError m) \<Rightarrow> Inl (TargetError 404 ''model_not_found'' m)
   | _ \<Rightarrow> res)"

definition resolve_target :: "response_env \<Rightarrow> string \<Rightarrow> exn + server_row \<times> model_row \<times> uuid option" where
  "resolve_target x ref =
     bind_res (model_not_found (resolve_inference_target (ca_uuid_of x) ref None (ca_db x))) (\<lambda>t.
     if tg_npu t \<noteq> None
     then Inl (TargetError 400 ''unsupported_capability''
       (''Model '' @ [CHR 39] @ ref @ [CHR 39] @ '' is an NPU model and does not support /v1/responses''))
     else (case tg_server t of
         Some s \<Rightarrow> Inr (s, tg_model t, tg_preferred t)
       | None \<Rightarrow> (case ca_created x of
             Inl e \<Rightarrow> Inl (target_failure (ca_text x) e)
           | Inr s \<Rightarrow> Inr (s, tg_model t, tg_preferred t))))"

section \<open>Reading a reply\<close>

text \<open>\<open>int(fs.get(k) or 0)\<close>, remembering whether the key is there; a falsy value counts as null.\<close>

definition read_count :: "string \<Rightarrow> obj \<Rightarrow> exn + int field" where
  "read_count k fs = (case map_of fs k of
     None \<Rightarrow> Inr Absent
   | Some j \<Rightarrow> if py_true j then bind_res (py_int j) (\<lambda>n. Inr (Val n)) else Inr Null)"

definition key_field :: "string \<Rightarrow> obj \<Rightarrow> int field" where
  "key_field k fs = (if map_of fs k = None then Absent else Null)"

definition int_field :: "json \<Rightarrow> exn + int field" where
  "int_field j = (if py_true j then bind_res (py_int j) (\<lambda>n. Inr (Val n)) else Inr Null)"

text \<open>The cached tokens: of the details when they say, else of the timings.\<close>

definition read_cached :: "obj \<Rightarrow> exn + int field \<times> int field" where
  "read_cached fs =
     (let details = py_or (look ''prompt_tokens_details'' JNull fs) (JObj []) in
      bind_res (py_in ''cached_tokens'' details) (\<lambda>there.
      if there then bind_res (py_item ''cached_tokens'' details) (\<lambda>j. bind_res (int_field j) (\<lambda>f. Inr (f, Absent)))
      else bind_res (py_get ''cache_n'' (JInt 0) (py_or (look ''timings'' JNull fs) (JObj []))) (\<lambda>j.
           bind_res (int_field j) (\<lambda>f. Inr (Absent, f)))))"

definition read_reasoning :: "obj \<Rightarrow> exn + int field" where
  "read_reasoning fs =
     bind_res (py_get ''reasoning_tokens'' JNull (py_or (look ''completion_tokens_details'' JNull fs) (JObj []))) (\<lambda>j.
     if j = JNull then Inr Absent else bind_res (py_int j) (\<lambda>n. Inr (Val n)))"

definition chat_report :: "obj \<Rightarrow> exn + usage_report" where
  "chat_report fs =
     bind_res (read_count ''prompt_tokens'' fs) (\<lambda>p.
     bind_res (read_count ''completion_tokens'' fs) (\<lambda>c.
     bind_res (read_cached fs) (\<lambda>cached.
     bind_res (read_reasoning fs) (\<lambda>thought.
     Inr (no_report\<lparr>ur_prompt := p, ur_completion := c, ur_input := key_field ''input_tokens'' fs,
       ur_output := key_field ''output_tokens'' fs, ur_cached := fst cached, ur_cache_n := snd cached,
       ur_reasoning := thought\<rparr>)))))"

definition native_usage :: "json \<Rightarrow> exn + usage_report" where
  "native_usage u =
     bind_res (py_get ''input_tokens'' JNull u) (\<lambda>i. bind_res (int_field i) (\<lambda>input.
     bind_res (py_get ''output_tokens'' JNull u) (\<lambda>j. bind_res (int_field j) (\<lambda>output.
     bind_res (py_get ''input_tokens_details'' JNull u) (\<lambda>d.
     bind_res (py_get ''cached_tokens'' JNull (py_or d (JObj []))) (\<lambda>k. bind_res (int_field k) (\<lambda>cached.
     bind_res (py_get ''output_tokens_details'' JNull u) (\<lambda>d'.
     bind_res (py_get ''reasoning_tokens'' JNull (py_or d' (JObj []))) (\<lambda>l. bind_res (int_field l) (\<lambda>thought.
     Inr (no_report\<lparr>ur_input := input, ur_output := output, ur_input_cached := cached,
       ur_output_reasoning := thought\<rparr>)))))))))))"

text \<open>A text that is added to another: one that is missing or empty adds nothing, another type raises.\<close>

definition text_delta :: "json \<Rightarrow> exn + string" where
  "text_delta j = (if py_true j then (case j of JStr s \<Rightarrow> Inr s | _ \<Rightarrow> Inl TypeError) else Inr [])"

definition last_assistant_phase :: "response_request \<Rightarrow> string option" where
  "last_assistant_phase q = (case pq_input q of
     Inl s \<Rightarrow> None
   | Inr items \<Rightarrow> foldl (\<lambda>found item.
       if type_of item = JStr ''message'' \<and> item_field ''role'' item = JStr ''assistant'' \<and> py_true (item_field ''phase'' item)
       then (case item_field ''phase'' item of JStr p \<Rightarrow> Some p | _ \<Rightarrow> found) else found) None items)"

text \<open>The items, the usage, whether the reply was cut short, and the timings.\<close>

type_synonym reading = "json list \<times> usage \<times> bool \<times> json"

definition read_chat_response :: "response_env \<Rightarrow> response_request \<Rightarrow> json \<Rightarrow> exn + reading" where
  "read_chat_response x q response =
     bind_res (py_get ''choices'' JNull response) (\<lambda>choices.
     bind_res (py_first (py_or choices (JArr [JObj []]))) (\<lambda>choice.
     bind_res (py_get ''message'' JNull choice) (\<lambda>m.
     bind_res (py_get ''finish_reason'' JNull choice) (\<lambda>finish.
     bind_res (py_get ''usage'' JNull response) (\<lambda>u.
     bind_res (case py_or u (JObj []) of JObj fs \<Rightarrow> Inr fs | _ \<Rightarrow> Inl TypeError) (\<lambda>fs.
     bind_res (py_get ''timings'' JNull response) (\<lambda>t.
     let message = py_or m (JObj []); timings = py_or t (JObj []) in
     bind_res (py_get ''reasoning_content'' JNull message) (\<lambda>r. bind_res (text_delta r) (\<lambda>thought.
     bind_res (py_get ''content'' JNull message) (\<lambda>c. bind_res (text_delta c) (\<lambda>content.
     bind_res (py_get ''tool_calls'' JNull message) (\<lambda>tcs.
     bind_res (py_iter (py_or tcs (JArr []))) (\<lambda>calls.
     bind_res (each (pe_tool x) calls) (\<lambda>tools.
     let s = complete_message (allowed_tool_names q) (last_assistant_phase q)
           \<lparr>cm_reasoning = thought, cm_content = content, cm_tools = tools\<rparr> in
     bind_res (chat_report (put ''timings'' timings fs)) (\<lambda>report.
     Inr (map (stored_item (pe_name_of x)) (out_items s), build_usage report (length content) (reasoning_tokens s),
       finish = JStr ''length'', timings))))))))))))))))"

fun label_item :: "string \<Rightarrow> json \<Rightarrow> json" where
  "label_item p (JObj fs) =
     (if look ''type'' JNull fs = JStr ''message'' \<and> map_of fs ''phase'' = None then JObj (put ''phase'' (JStr p) fs) else JObj fs)"
| "label_item p j = j"

definition read_native_response :: "response_request \<Rightarrow> json \<Rightarrow> exn + reading" where
  "read_native_response q response =
     bind_res (gufo_buffered_to_output_items response) (\<lambda>items.
     let labelled = (case opt_given (last_assistant_phase q) of None \<Rightarrow> items | Some p \<Rightarrow> map (label_item p) items) in
     bind_res (py_get ''usage'' JNull response) (\<lambda>u.
     bind_res (native_usage (py_or u (JObj []))) (\<lambda>report.
     bind_res (py_get ''status'' JNull response) (\<lambda>status.
     bind_res (py_get ''timings'' JNull response) (\<lambda>t.
     Inr (labelled, gufo_usage_to_spec report, status = JStr ''incomplete'', py_or t (JObj [])))))))"

section \<open>The buffered call\<close>

definition usage_dict :: "usage \<Rightarrow> obj" where
  "usage_dict u = [(''input_tokens'', JInt (us_input u)), (''output_tokens'', JInt (us_output u)),
     (''total_tokens'', JInt (us_total u)), (''input_tokens_details'', JObj [(''cached_tokens'', JInt (us_cached u))]),
     (''output_tokens_details'', JObj [(''reasoning_tokens'', JInt (us_reasoning u))])]"

definition is_native :: "server_row \<Rightarrow> bool" where
  "is_native s \<longleftrightarrow> uses_native_responses (JStr (srv_engine s))"

definition response_payload ::
  "response_env \<Rightarrow> server_row \<Rightarrow> response_request \<Rightarrow> json list \<Rightarrow> bool \<Rightarrow> string option \<Rightarrow> exn + obj" where
  "response_payload x s q history stream effort =
     (if is_native s then gufo_native_payload (pe_show x) q history stream effort (JStr (srv_engine s))
      else llama_payload (pe_show x) q history stream effort)"

definition upstream_path :: "server_row \<Rightarrow> string" where
  "upstream_path s = (if is_native s then ''v1/responses'' else ''v1/chat/completions'')"

definition read_response :: "response_env \<Rightarrow> server_row \<Rightarrow> response_request \<Rightarrow> json \<Rightarrow> exn + reading" where
  "read_response x s q response =
     (if is_native s then read_native_response q response else read_chat_response x q response)"

text \<open>
  \<open>build_response_resource\<close>, as far as it is kept: the previous response is an argument with a default,
  which the buffered call does not give.
\<close>

definition build_response_resource :: "string \<Rightarrow> json list \<Rightarrow> usage \<Rightarrow> string option \<Rightarrow> response_result" where
  "build_response_resource status items u previous =
     \<lparr>pr_status = status, pr_output = items, pr_usage = u, pr_previous = previous\<rparr>"

definition complete_response ::
  "response_env \<Rightarrow> server_row \<Rightarrow> response_request \<Rightarrow> json list \<Rightarrow> string option \<Rightarrow> response_result route_script" where
  "complete_response x s q history effort =
     and_then (lift_res (response_payload x s q history False effort)) (\<lambda>payload.
     and_then (send s (upstream_path s) payload) (\<lambda>_.
     and_then (lift_res (ca_reply x)) (\<lambda>response.
     and_then (lift_res (read_response x s q response)) (\<lambda>(items, u, short, timings).
     and_then (await_answer (pe_validate x items)) (\<lambda>_.
     and_then (record_route ''success'' (Some (usage_dict u)) timings) (\<lambda>_.
     give (build_response_resource (if short then ''incomplete'' else ''completed'') items u None)))))))"

text \<open>The handlers around it answer with an error.\<close>

definition completion_error :: "response_env \<Rightarrow> exn \<Rightarrow> response_reply" where
  "completion_error x e = (case e of
     TranslationError m \<Rightarrow> ErrorReply 400 ''invalid_request'' ''invalid_input'' m None
   | _ \<Rightarrow> ErrorReply 500 ''model_error'' ''model_error'' (ca_text x e) None)"

text \<open>A result that is to be kept is stored after its lease was released.\<close>

definition response_row :: "response_env \<Rightarrow> response_request \<Rightarrow> response_result \<Rightarrow> json response_record" where
  "response_row x q res =
     \<lparr>rr_id = pe_fresh_id x, rr_previous = pq_previous q, rr_input = stored_input_items q, rr_output = pr_output res,
      rr_status = pr_status res, rr_store = True\<rparr>"

definition keep_result :: "response_env \<Rightarrow> response_request \<Rightarrow> response_reply \<Rightarrow> exn + response_reply" where
  "keep_result x q reply = (case reply of
     ResultReply res records \<Rightarrow>
       if pq_store q then bind_res (persist_response (response_row x q res) records) (\<lambda>records'. Inr (ResultReply res records'))
       else Inr reply
   | _ \<Rightarrow> Inr reply)"

definition buffered_response ::
  "response_env \<Rightarrow> server_row \<Rightarrow> response_request \<Rightarrow> json list \<Rightarrow> string option \<Rightarrow> response_reply route_script" where
  "buffered_response x s q history effort =
     and_then (leased_call (\<lambda>e. Inr (completion_error x e)) (ca_release x)
       (and_then (complete_response x s q history effort) (\<lambda>res. give (ResultReply res (pe_records x))))) (\<lambda>reply.
     lift_res (keep_result x q reply))"

section \<open>The route\<close>

definition effort_for :: "response_env \<Rightarrow> server_row \<Rightarrow> response_request \<Rightarrow> exn + string option" where
  "effort_for x s q = resolve_reasoning_effort (pe_parse x) (pe_meta x s) (pq_effort q)"

definition effort_error :: "string \<Rightarrow> response_reply" where
  "effort_error m = ErrorReply 400 ''invalid_request'' ''unsupported_capability'' m (Some ''reasoning.effort'')"

text \<open>The guards before the lease; \<open>Inl (Inl e)\<close> is an exception, \<open>Inl (Inr reply)\<close> an error that is returned.\<close>

definition refuse :: "response_reply \<Rightarrow> (exn + response_reply) + 'a" where
  "refuse reply = Inl (Inr reply)"

definition guard_step :: "(exn \<Rightarrow> response_reply option) \<Rightarrow> exn + 'a \<Rightarrow> ('a \<Rightarrow> (exn + response_reply) + 'b) \<Rightarrow> (exn + response_reply) + 'b" where
  "guard_step caught m k = (case m of
     Inr a \<Rightarrow> k a
   | Inl e \<Rightarrow> (case caught e of Some reply \<Rightarrow> refuse reply | None \<Rightarrow> Inl (Inl e)))"

definition on_http :: "(nat \<Rightarrow> string \<Rightarrow> response_reply) \<Rightarrow> exn \<Rightarrow> response_reply option" where
  "on_http f e = (case e of HttpStatus n m \<Rightarrow> Some (f n m) | _ \<Rightarrow> None)"

definition on_target :: "exn \<Rightarrow> response_reply option" where
  "on_target e = (case e of
     TargetError n code m \<Rightarrow> Some (ErrorReply n (if n = 404 then ''not_found'' else ''too_many_requests'') code m (Some ''model''))
   | _ \<Rightarrow> None)"

definition on_effort :: "exn \<Rightarrow> response_reply option" where
  "on_effort e = (case e of ReasoningPolicyError m \<Rightarrow> Some (effort_error m) | _ \<Rightarrow> None)"

definition on_translation :: "exn \<Rightarrow> response_reply option" where
  "on_translation e = (case e of
     TranslationError m \<Rightarrow> Some (ErrorReply 400 ''invalid_request'' ''invalid_input'' m None) | _ \<Rightarrow> None)"

definition previous_missing :: "nat \<Rightarrow> string \<Rightarrow> response_reply" where
  "previous_missing n m = ErrorReply 404 ''not_found'' ''previous_response_not_found'' m (Some ''previous_response_id'')"

definition response_guards ::
  "response_env \<Rightarrow> response_request \<Rightarrow> (exn + response_reply) + json list \<times> model_row \<times> uuid option" where
  "response_guards x q =
     (if pq_background q
      then refuse (ErrorReply 400 ''invalid_request'' ''background_not_supported''
        ''background=true is not supported by this implementation.'' (Some ''background''))
      else
        guard_step (on_http previous_missing) (load_previous (pe_records x) (pq_previous q)) (\<lambda>previous.
        let history = build_chain_history (pe_records x) previous in
        guard_step on_target (resolve_target x (pq_model q)) (\<lambda>(s, m, preferred).
        guard_step (\<lambda>_. None) (if pq_tools q = [] then Inr None else metadata_capability ''tools'' (pe_meta x s)) (\<lambda>cap.
        if cap = Some False
        then refuse (ErrorReply 400 ''invalid_request'' ''unsupported_capability''
          (''Model '' @ [CHR 39] @ pq_model q @ [CHR 39] @ '' does not support tools'') (Some ''tools''))
        else
          guard_step on_effort (effort_for x s q) (\<lambda>_.
          guard_step on_translation (input_items_to_llama_messages (pe_show x) q history) (\<lambda>_.
          Inr (history, m, preferred)))))))"

text \<open>The lease; a deadline that passed is answered.\<close>

definition lease_response :: "response_env \<Rightarrow> model_row \<Rightarrow> uuid option \<Rightarrow> (response_reply + server_row) route_script" where
  "lease_response x m preferred r =
     (case take_lease (ca_acquire x) (md_id m) preferred None r of
        (Inr s, r') \<Rightarrow> (Inr (Inr s), r')
      | (Inl (TimeoutError t), r') \<Rightarrow> (Inr (Inl (ErrorReply 503 ''too_many_requests'' ''no_slot'' t None)), r')
      | (Inl e, r') \<Rightarrow> (Inl e, r'))"

definition leased_response ::
  "response_env \<Rightarrow> response_request \<Rightarrow> json list \<Rightarrow> server_row \<Rightarrow> response_reply route_script" where
  "leased_response x q history s =
     (case effort_for x s q of
        Inl (ReasoningPolicyError m) \<Rightarrow> and_then (give_back (ca_release x) ''failed'') (\<lambda>_. give (effort_error m))
      | Inl e \<Rightarrow> throw e
      | Inr effort \<Rightarrow> if pq_stream q then give (StreamReply s history effort) else buffered_response x s q history effort)"

text \<open>The environment of the stream a request becomes, from that of its connection.\<close>

definition stream_for ::
  "response_env \<Rightarrow> response_request \<Rightarrow> server_row \<Rightarrow> json list \<Rightarrow> string option \<Rightarrow> stream_env \<Rightarrow> stream_env" where
  "stream_for x q s history effort y =
     y\<lparr>se_lease := True, se_native := is_native s, se_phase := last_assistant_phase q,
       se_allowed := allowed_tool_names q,
       se_payload := (case response_payload x s q history True effort of Inl e \<Rightarrow> Threw e | Inr _ \<Rightarrow> Answered),
       se_persist := pq_store q\<rparr>"

definition create_response :: "response_env \<Rightarrow> response_request \<Rightarrow> response_reply route_script" where
  "create_response x q =
     (case response_guards x q of
        Inl (Inl e) \<Rightarrow> throw e
      | Inl (Inr reply) \<Rightarrow> give reply
      | Inr (history, m, preferred) \<Rightarrow>
          and_then (lease_response x m preferred) (\<lambda>l. case l of
            Inl reply \<Rightarrow> give reply | Inr s \<Rightarrow> leased_response x q history s))"

section \<open>Compaction\<close>

record compact_request =
  cq_model :: string
  cq_input :: "string + json list"
  cq_previous :: "string option"
  cq_instructions :: "string option"

record compact_env = response_env +
  xe_agent :: "exn + bool"
  xe_leased_agent :: "exn + bool"

record compact_result =
  xr_summary :: string
  xr_input_tokens :: int
  xr_output_tokens :: int

datatype compact_reply = CompactError nat string string string | CompactReply compact_result

text \<open>The fields of the request that the translation reads.\<close>

definition as_request :: "compact_request \<Rightarrow> response_request" where
  "as_request c = \<lparr>pq_model = cq_model c, pq_input = cq_input c, pq_previous = cq_previous c, pq_instructions = cq_instructions c,
     pq_tools = [], pq_choice = ChoiceMode ''auto'', pq_format = None, pq_temperature = None, pq_top_p = None,
     pq_presence_penalty = None, pq_frequency_penalty = None, pq_parallel = None, pq_max_output_tokens = None,
     pq_effort = None, pq_stream = False, pq_background = False, pq_store = False\<rparr>"

definition COMPACT_PROMPT :: string where
  "COMPACT_PROMPT = ''Compress this conversation into a concise but complete summary '' @
     ''preserving all key facts, decisions, and unresolved questions. '' @ ''Output only the compressed summary.''"

definition compact_payload :: "compact_request \<Rightarrow> json list \<Rightarrow> obj" where
  "compact_payload c messages =
     [(''messages'', JArr (role_message (JStr ''system'')
         (JStr (case opt_given (cq_instructions c) of None \<Rightarrow> COMPACT_PROMPT | Some s \<Rightarrow> s)) # messages)),
      (''temperature'', JFloat (3 / 10)), (''stream'', JBool False)]"

definition find_alias_instance :: "string \<Rightarrow> db \<Rightarrow> server_row option" where
  "find_alias_instance alias d = first_row (filter (\<lambda>s. srv_alias s = alias) (db_servers d))"

definition resolve_model :: "response_env \<Rightarrow> string \<Rightarrow> exn + model_row" where
  "resolve_model x name = (case find_model (ca_uuid_of x) name (ca_db x) of
     None \<Rightarrow> Inl (HttpStatus 404 (''Model '' @ name @ '' not found'')) | Some m \<Rightarrow> Inr m)"

text \<open>The server asked for first, and whether it is pinned.\<close>

definition compact_server :: "response_env \<Rightarrow> string \<Rightarrow> exn + server_row \<times> uuid option" where
  "compact_server x name =
     (case find_alias_instance name (ca_db x) of
        Some s \<Rightarrow> Inr (s, Some (srv_id s))
      | None \<Rightarrow> bind_res (resolve_model x name) (\<lambda>_. bind_res (ca_created x) (\<lambda>s. Inr (s, None))))"

definition compact_guard :: "exn + 'a \<Rightarrow> (exn \<Rightarrow> compact_reply option) \<Rightarrow> ('a \<Rightarrow> compact_reply route_script) \<Rightarrow> compact_reply route_script" where
  "compact_guard m caught k = (case m of
     Inr a \<Rightarrow> k a
   | Inl e \<Rightarrow> (case caught e of Some reply \<Rightarrow> give reply | None \<Rightarrow> throw e))"

definition server_missing :: "exn \<Rightarrow> compact_reply option" where
  "server_missing e = (case e of
     ServerStartupError m \<Rightarrow> Some (CompactError 503 ''too_many_requests'' ''no_agent_available'' (''Server not available: '' @ m))
   | HttpStatus n m \<Rightarrow> Some (CompactError (if n = 0 then 500 else n)
       (if n = 404 then ''not_found'' else ''server_error'') (if n = 404 then ''model_not_found'' else ''server_error'') m)
   | _ \<Rightarrow> None)"

definition compact_previous_missing :: "exn \<Rightarrow> compact_reply option" where
  "compact_previous_missing e = (case e of
     HttpStatus n m \<Rightarrow> Some (CompactError 404 ''not_found'' ''previous_response_not_found'' m) | _ \<Rightarrow> None)"

definition compact_translation :: "exn \<Rightarrow> compact_reply option" where
  "compact_translation e = (case e of
     TranslationError m \<Rightarrow> Some (CompactError 400 ''invalid_request'' ''invalid_input'' m) | _ \<Rightarrow> None)"

definition AGENT_MISSING :: compact_reply where
  "AGENT_MISSING = CompactError 503 ''server_error'' ''no_agent_available'' ''Agent not found''"

text \<open>The sampling pass: a reply, or the summary and the usage of the engine.\<close>

definition sample_summary ::
  "compact_env \<Rightarrow> compact_request \<Rightarrow> json list \<Rightarrow> server_row \<Rightarrow> uuid option \<Rightarrow> (compact_reply + json \<times> json) route_script" where
  "sample_summary x c messages server pinned =
     and_then (take_lease (ca_acquire x) (srv_model_id server) pinned None) (\<lambda>s.
     and_then (lift_res (xe_leased_agent x)) (\<lambda>found.
     if \<not> found then give (Inl AGENT_MISSING)
     else
       and_then (send s ''v1/chat/completions'' (compact_payload c messages)) (\<lambda>_.
       and_then (lift_res (ca_reply x)) (\<lambda>response.
       and_then (lift_res (py_get ''choices'' JNull response)) (\<lambda>choices.
       and_then (lift_res (py_first (py_or choices (JArr [JObj []])))) (\<lambda>choice.
       and_then (lift_res (py_get ''message'' JNull choice)) (\<lambda>m.
       and_then (lift_res (py_get ''content'' JNull (py_or m (JObj [])))) (\<lambda>content.
       and_then (lift_res (py_get ''usage'' JNull response)) (\<lambda>u.
       give (Inr (py_or content (JStr []), py_or u (JObj []))))))))))))"

text \<open>Its handlers, and the release.\<close>

definition compact_outcome :: "exn + compact_reply + json \<times> json \<Rightarrow> string" where
  "compact_outcome res = (case res of
     Inr (Inr _) \<Rightarrow> ''completed''
   | Inr (Inl _) \<Rightarrow> ''failed''
   | Inl e \<Rightarrow> if e \<in> {CancelledError, InferenceRequestCancelled} then ''cancelled'' else ''failed'')"

definition compact_handled :: "compact_env \<Rightarrow> exn + compact_reply + 'a \<Rightarrow> exn + compact_reply + 'a" where
  "compact_handled x res = (case res of
     Inl (TimeoutError t) \<Rightarrow> Inr (Inl (CompactError 503 ''too_many_requests'' ''no_slot'' t))
   | Inl e \<Rightarrow> if is_exception e then Inr (Inl (CompactError 500 ''model_error'' ''model_error'' (ca_text x e))) else Inl e
   | Inr v \<Rightarrow> Inr v)"

definition leased_summary ::
  "compact_env \<Rightarrow> compact_request \<Rightarrow> json list \<Rightarrow> server_row \<Rightarrow> uuid option \<Rightarrow> (compact_reply + json \<times> json) route_script" where
  "leased_summary x c messages server pinned r =
     (case sample_summary x c messages server pinned r of
        (res, r1) \<Rightarrow> finally_do (release_any (ca_release x) (compact_outcome res)) (compact_handled x res) r1)"

text \<open>The item of the summary; its model takes a text only.\<close>

definition compact_resource :: "json \<Rightarrow> json \<Rightarrow> exn + compact_result" where
  "compact_resource summary u =
     bind_res (py_get ''prompt_tokens'' JNull u) (\<lambda>p. bind_res (py_count p) (\<lambda>prompt.
     bind_res (py_get ''completion_tokens'' JNull u) (\<lambda>q. bind_res (py_count q) (\<lambda>completion.
     case summary of
       JStr s \<Rightarrow> Inr \<lparr>xr_summary = s, xr_input_tokens = prompt, xr_output_tokens = completion\<rparr>
     | _ \<Rightarrow> Inl (ValueError ''Input should be a valid string'')))))"

definition compact_response :: "compact_env \<Rightarrow> compact_request \<Rightarrow> compact_reply route_script" where
  "compact_response x c =
     compact_guard (compact_server (response_env.truncate x) (cq_model c)) server_missing (\<lambda>(server, pinned).
     compact_guard (load_previous (pe_records x) (cq_previous c)) compact_previous_missing (\<lambda>previous.
     compact_guard (input_items_to_llama_messages (pe_show x) (as_request c) (build_chain_history (pe_records x) previous))
       compact_translation (\<lambda>messages.
     and_then (lift_res (xe_agent x)) (\<lambda>found.
     if \<not> found then give AGENT_MISSING
     else and_then (leased_summary x c messages server pinned) (\<lambda>res.
       case res of
         Inl reply \<Rightarrow> give reply
       | Inr (summary, u) \<Rightarrow> and_then (lift_res (compact_resource summary u)) (\<lambda>v. give (CompactReply v)))))))"

end
