(* ===== verification/ResponseRoutesSafety.thy ===== *)
theory ResponseRoutesSafety
  imports ResponseRoutes ResponseRunSafety
begin

text \<open>
  What holds of a request to the Responses API from its guards to its end: its lease is given back
  once, by the handler or by the stream that takes it over, and a compaction gives its own back;
  and what a client or a later turn sees of a buffered reply.
\<close>

section \<open>What the readers raise\<close>

lemma tidy_each: "(\<And>a. tidy (f a)) \<Longrightarrow> tidy (each f xs)"
  by (induction xs) (auto intro!: tidy_intros)

lemma tidy_translation: "tidy (Inl (TranslationError m))" "tidy (Inl TypeError)" "tidy (Inl (unsupported_part sh engine k))"
  "tidy (Inl (unknown_item sh k))" "tidy (Inl ITEM_REFERENCE_ERROR)"
  by (simp_all add: tidy_def is_exception_def unsupported_part_def unknown_item_def ITEM_REFERENCE_ERROR_def)

lemmas tidy_steps = tidy_intros tidy_each tidy_iter tidy_translation

lemma tidy_merge: "tidy (merge_parts sh parts buf ps)"
  by (induction sh parts buf ps rule: merge_parts.induct) (auto simp: tidy_steps split: option.split)

lemma tidy_content: "tidy (content_to_llama sh c)"
  by (cases c) (auto simp: content_to_llama_def intro!: tidy_steps tidy_merge)

lemma tidy_llama_item: "tidy (llama_messages_of sh item)"
  by (auto simp: llama_messages_of_def Let_def output_message_def message_message_def intro!: tidy_steps tidy_content)

lemma tidy_llama_messages: "tidy (input_items_to_llama_messages sh q history)"
  by (simp add: input_items_to_llama_messages_def add_messages_each tidy_steps tidy_llama_item)

lemma tidy_native_part: "tidy (native_content_part sh p)"
  by (cases p) (auto simp: Let_def intro!: tidy_steps)

lemma tidy_summary: "tidy (summary_parts sh raw)"
  by (simp add: summary_parts_def tidy_steps)

lemma tidy_native_content: "tidy (native_message_content sh c r)" "tidy (native_output sh c)"
  by (cases c; auto simp: native_message_content_def native_output_def intro!: tidy_steps tidy_native_part)+

lemma tidy_native_item: "tidy (native_item_of sh item)"
  by (auto simp: native_item_of_def Let_def native_reasoning_item_def native_function_call_item_def native_function_output_item_def
      intro!: tidy_steps tidy_summary tidy_native_content)

lemma tidy_payload: "tidy (response_payload x s q history stream effort)"
proof -
  have "tidy (native_tools_payload q fs)" for fs
    by (auto simp: native_tools_payload_def native_tool_choice_def intro!: tidy_steps split: tool_choice.split)
  then show ?thesis
    by (auto simp: response_payload_def llama_payload_def gufo_native_payload_def input_items_to_gufo_native_def
        intro!: tidy_steps tidy_llama_messages tidy_native_item simp: Let_def)
qed

lemma tidy_int_field: "tidy (int_field j)"
  by (auto simp: int_field_def intro!: tidy_steps)

lemma tidy_chat_report: "tidy (chat_report fs)"
proof -
  have "tidy (read_count k fs)" for k by (auto simp: read_count_def intro!: tidy_steps split: option.split)
  then show ?thesis
    by (auto simp: chat_report_def read_cached_def read_reasoning_def Let_def intro!: tidy_steps tidy_int_field)
qed

lemma tidy_native_response: "tidy (read_native_response q response)"
  unfolding read_native_response_def gufo_buffered_to_output_items_def native_usage_def Let_def
  by (intro tidy_steps tidy_int_field)

text \<open>No wait of the request is closed from outside.\<close>

definition response_calm :: "response_env \<Rightarrow> bool" where
  "response_calm x \<longleftrightarrow> ca_acquire x \<noteq> Inl GeneratorExit \<and> ca_reply x \<noteq> Inl GeneratorExit
     \<and> (\<forall>j. pe_tool x j \<noteq> Inl GeneratorExit) \<and> (\<forall>js. pe_validate x js \<noteq> Threw GeneratorExit)"

lemma read_response_unless_exit:
  assumes "response_calm x"
  shows "unless_exit (read_response x s q response)"
proof -
  have tools: "unless_exit (each (pe_tool x) calls)" for calls
    using assms by (intro unless_exit_each) (simp add: response_calm_def unless_exit_def)
  have texts: "tidy (text_delta j)" for j by (auto simp: text_delta_def intro!: tidy_steps split: json.split)
  have mapping: "tidy (case j of JObj fs \<Rightarrow> Inr fs | _ \<Rightarrow> Inl TypeError)" for j
    by (auto intro!: tidy_steps split: json.split)
  have "unless_exit (read_chat_response x q response)"
    unfolding read_chat_response_def Let_def
    by (intro unless_exit_bind tools unless_exit_Inr tidy_unless_exit [OF texts] tidy_unless_exit [OF mapping]
        tidy_unless_exit [OF tidy_chat_report] tidy_json [THEN tidy_unless_exit] tidy_iter [THEN tidy_unless_exit])
  then show ?thesis by (simp add: read_response_def tidy_unless_exit [OF tidy_native_response])
qed

section \<open>The buffered call\<close>

abbreviation holds_lease :: "server_row \<Rightarrow> route_run \<Rightarrow> bool" where
  "holds_lease s \<equiv> call_open (\<lambda>l. l = Some s)"

lemma complete_books:
  assumes "response_calm x"
  shows "hoare (holds_lease s) (and_then (complete_response x s q history effort) (\<lambda>res. give (ResultReply res records)))
     (\<lambda>_. call_ready (\<lambda>l. l = Some s)) (\<lambda>e r. holds_lease s r \<and> e \<noteq> GeneratorExit)"
proof -
  let ?E = "\<lambda>e r. holds_lease s r \<and> e \<noteq> GeneratorExit"
  have lift: "open_call.stays_in (\<lambda>l. l = Some s) (lift_res m)" if "unless_exit m" for m :: "exn + 'b"
    using that by (intro open_call.lifted) (simp add: unless_exit_def)
  have reply: "unless_exit (ca_reply x)" using assms by (simp add: response_calm_def unless_exit_def)
  have accept: "hoare (holds_lease s) (await_answer (pe_validate x js)) (\<lambda>_. holds_lease s) ?E" for js
    using assms by (auto simp: response_calm_def hoare_def await_answer_cases split: answer.split)
  have recorded: "hoare (holds_lease s) (record_route ''success'' u t) (\<lambda>_. call_ready (\<lambda>l. l = Some s)) ?E" for u t
    by (rule hoare_pre [OF record_ready]) (simp add: call_open_def)
  have "hoare (holds_lease s) (complete_response x s q history effort) (\<lambda>_. call_ready (\<lambda>l. l = Some s)) ?E"
    unfolding complete_response_def
    by (intro hoare_bind [OF lift] hoare_bind [OF send_open] hoare_prod hoare_bind [OF accept] hoare_bind [OF recorded] reply
        tidy_unless_exit [OF tidy_payload] read_response_unless_exit [OF assms] hoare_give) auto
  then show ?thesis by (rule hoare_bind) (rule hoare_give)
qed

text \<open>The call has been answered, given back and recorded, with one outcome.\<close>

definition over_with :: "server_row \<Rightarrow> route_run \<Rightarrow> bool" where
  "over_with s r \<longleftrightarrow> rt_leased r = Some s \<and> \<not> rt_held r \<and> (rt_releases r, map fst (rt_telemetry r)) \<in> set OUTCOMES"

lemma keep_not_stream: "keep_result x q reply = Inr reply' \<Longrightarrow> \<nexists>s h e. reply = StreamReply s h e \<Longrightarrow> \<nexists>s h e. reply' = StreamReply s h e"
  by (auto simp: keep_result_def bind_res_Inr_iff split: response_reply.splits if_splits)

definition no_stream :: "exn + response_reply \<Rightarrow> bool" where
  "no_stream res \<longleftrightarrow> (\<nexists>s h e. res = Inr (StreamReply s h e))"

lemma leased_call_reply:
  assumes "leased_call answered a body r = (Inr v, r')"
  shows "(\<exists>r1. body r = (Inr v, r1)) \<or> (\<exists>e. answered e = Inr v)"
  using assms
  by (auto simp: leased_call_def finally_do_def and_then_def lift_res_def give_def throw_def split: sum.splits prod.splits if_splits)

lemma complete_no_stream:
  "and_then (complete_response x s q history effort) (\<lambda>res. give (ResultReply res records)) r = (Inr v, r1) \<Longrightarrow> no_stream (Inr v)"
  by (auto simp: and_then_def give_def no_stream_def split: sum.splits prod.splits)

lemma error_no_stream: "no_stream (Inr (completion_error x e))"
  by (cases e) (simp_all add: completion_error_def no_stream_def)

lemma buffered_no_stream:
  assumes "buffered_response x s q history effort r = (res, r')"
  shows "no_stream res"
proof (cases res)
  case (Inr reply)
  then obtain v r1 where v: "leased_call (\<lambda>e. Inr (completion_error x e)) (ca_release x)
      (and_then (complete_response x s q history effort) (\<lambda>res. give (ResultReply res (pe_records x)))) r = (Inr v, r1)"
    "keep_result x q v = Inr reply"
    using assms by (auto simp: buffered_response_def and_then_def lift_res_def give_def throw_def split: sum.splits prod.splits)
  have "no_stream (Inr v)"
    using leased_call_reply [OF v(1)] complete_no_stream error_no_stream by auto
  with keep_not_stream [OF v(2)] Inr show ?thesis by (auto simp: no_stream_def)
qed (simp add: no_stream_def)

lemma buffered_over:
  assumes "response_calm x" "buffered_response x s q history effort r = (res, r')" "holds_lease s r"
  shows "over_with s r'"
proof -
  obtain v r1 where v: "leased_call (\<lambda>e. Inr (completion_error x e)) (ca_release x)
      (and_then (complete_response x s q history effort) (\<lambda>res. give (ResultReply res (pe_records x)))) r = (v, r1)"
    by fastforce
  then have "r' = r1" using assms(2)
    by (auto simp: buffered_response_def and_then_def lift_res_def give_def throw_def split: sum.splits)
  with leased_call_settles [OF complete_books [OF assms(1)] v assms(3)] show ?thesis
    by (simp add: call_settled_def over_with_def)
qed

section \<open>The whole request\<close>

definition readable_metadata :: "response_env \<Rightarrow> bool" where
  "readable_metadata x \<longleftrightarrow> (\<forall>l. ca_acquire x = Inr l \<longrightarrow> capabilities_object (pe_meta x l))"

text \<open>Refused by the policy of the server that was leased.\<close>

definition refused_with :: "server_row \<Rightarrow> route_run \<Rightarrow> bool" where
  "refused_with s r \<longleftrightarrow> rt_leased r = Some s \<and> \<not> rt_held r \<and> rt_releases r = [''failed''] \<and> rt_telemetry r = []"

lemma leased_response_cases:
  assumes "leased_response x q history s r = (res, r')" "holds_lease s r" "response_calm x" "capabilities_object (pe_meta x s)"
  obtains (refused) "refused_with s r'" "no_stream res"
  | (streams) effort where "res = Inr (StreamReply s history effort)" "r' = r"
  | (over) "over_with s r'" "no_stream res"
proof (cases "effort_for x s q")
  case (Inl e)
  then obtain m where "e = ReasoningPolicyError m" using effort_error_is_policy assms(4) unfolding effort_for_def by blast
  with Inl assms(1) have run: "and_then (give_back (ca_release x) ''failed'') (\<lambda>_. give (effort_error m)) r = (res, r')"
    by (simp add: leased_response_def)
  have "refused_with s r'" "no_stream res"
    using run assms(2)
    by (auto simp: give_back_def and_then_def change_def await_answer_cases give_def refused_with_def call_open_def no_stream_def
        effort_error_def split: answer.splits)
  then show ?thesis by (rule refused)
next
  case (Inr effort)
  show ?thesis
  proof (cases "pq_stream q")
    case True
    with Inr assms(1) show ?thesis by (intro streams [of effort]) (auto simp: leased_response_def give_def)
  next
    case False
    with Inr assms(1) have "buffered_response x s q history effort r = (res, r')" by (simp add: leased_response_def)
    with buffered_over [OF assms(3) this assms(2)] buffered_no_stream show ?thesis by (intro over) blast+
  qed
qed

text \<open>Nothing was acquired.\<close>

definition untaken_books :: "route_run \<Rightarrow> bool" where
  "untaken_books r \<longleftrightarrow> rt_leased r = None \<and> \<not> rt_held r \<and> rt_releases r = [] \<and> rt_telemetry r = []"

lemma lease_response_cases:
  assumes "lease_response x m preferred start_route = (res, r)"
  obtains (idle) "untaken_books r" "\<nexists>s. res = Inr (Inr s)" "\<nexists>s h e. res = Inr (Inl (StreamReply s h e))"
  | (held) s where "res = Inr (Inr s)" "ca_acquire x = Inr s" "holds_lease s r"
proof (cases "ca_acquire x")
  case (Inl e)
  with assms show ?thesis
    by (intro idle) (auto simp: lease_response_def take_lease_def and_then_def change_def lift_res_def throw_def
        start_route_def untaken_books_def split: exn.splits)
next
  case (Inr s)
  with assms show ?thesis
    by (intro held [of s]) (auto simp: lease_response_def take_lease_def and_then_def change_def lift_res_def give_def
        start_route_def call_open_def)
qed

lemma create_response_cases:
  assumes "create_response x q start_route = (res, r)" "response_calm x" "readable_metadata x"
  obtains (idle) "untaken_books r" "no_stream res"
  | (refused) s where "refused_with s r" "no_stream res"
  | (streams) s history effort where "res = Inr (StreamReply s history effort)" "holds_lease s r" "ca_acquire x = Inr s"
  | (over) s where "over_with s r" "no_stream res"
proof (cases "response_guards x q")
  case (Inl stop)
  have "no_stream (Inr reply)" if "stop = Inr reply" for reply
    using Inl that
    by (auto simp: response_guards_def guard_step_def refuse_def no_stream_def on_http_def on_target_def on_effort_def on_translation_def
        previous_missing_def effort_error_def Let_def split: if_splits sum.splits exn.splits prod.splits)
  with assms(1) Inl show ?thesis
    by (intro idle) (cases stop; auto simp: create_response_def throw_def give_def start_route_def untaken_books_def no_stream_def)+
next
  case (Inr v)
  obtain history m preferred where v: "v = (history, m, preferred)" by (cases v)
  obtain l r1 where l: "lease_response x m preferred start_route = (l, r1)" by fastforce
  from l show ?thesis
  proof (cases rule: lease_response_cases)
    case idle
    with assms(1) Inr v l that(1) show ?thesis
      by (auto simp: create_response_def and_then_def give_def no_stream_def split: sum.splits)
  next
    case (held s)
    with assms(1) Inr v l have "leased_response x q history s r1 = (res, r)" by (simp add: create_response_def and_then_def)
    from this held(3) assms(2) show ?thesis
    proof (cases rule: leased_response_cases)
      show "capabilities_object (pe_meta x s)" using assms(3) held(2) by (simp add: readable_metadata_def)
    qed (use that held in blast)+
  qed
qed

text \<open>The books of a request, with those of the stream it becomes.\<close>

definition request_books :: "response_env \<Rightarrow> response_request \<Rightarrow> stream_env \<Rightarrow> nat \<Rightarrow> string list \<times> string list" where
  "request_books x q y n =
     (case create_response x q start_route of
        (Inr (StreamReply s history effort), r) \<Rightarrow>
          (let c = snd (serve (stream_for x q s history effort y) n)
           in (rt_releases r @ rn_releases c, map fst (rt_telemetry r) @ map fst (rn_telemetry c)))
      | (_, r) \<Rightarrow> (rt_releases r, map fst (rt_telemetry r)))"

lemma no_stream_books:
  assumes "create_response x q start_route = (res, r)" "no_stream res"
  shows "request_books x q y n = (rt_releases r, map fst (rt_telemetry r))"
  using assms by (auto simp: request_books_def no_stream_def split: sum.split response_reply.split)

lemma request_settles:
  assumes "response_calm x" "readable_metadata x"
  shows "request_books x q y n \<in> set (if rt_leased (snd (create_response x q start_route)) = None
     then [([], [])] else ([''failed''], []) # OUTCOMES)"
proof -
  obtain res r where c: "create_response x q start_route = (res, r)" by fastforce
  from c assms show ?thesis
  proof (cases rule: create_response_cases)
    case (streams s history effort)
    let ?y = "stream_for x q s history effort y"
    obtain out run where run: "serve ?y n = (out, run)" by fastforce
    have "se_lease ?y" by (simp add: stream_for_def)
    from serve_settles [OF this run] c streams run show ?thesis by (simp add: request_books_def call_open_def)
  qed (use c in \<open>simp_all add: no_stream_books untaken_books_def refused_with_def over_with_def\<close>)
qed

section \<open>Compaction\<close>

interpretation sampling: phase "holds_lease s" "\<lambda>_. holds_lease s" "\<lambda>_. True" for s
  by unfold_locales

lemma sample_books:
  assumes "ca_acquire x = Inr s"
  shows "hoare (call_open (\<lambda>l. l = None)) (sample_summary x c messages server pinned) (\<lambda>_. holds_lease s) (\<lambda>_. holds_lease s)"
proof -
  have leased: "hoare (call_open (\<lambda>l. l = None)) (take_lease (ca_acquire x) m p a) (\<lambda>_. holds_lease s) (\<lambda>_. holds_lease s)" for m p a
    using assms by (auto simp: hoare_def take_lease_def and_then_def change_def lift_res_def give_def call_open_def)
  have lift: "sampling.stays_in s (lift_res m)" for m :: "exn + 'b" by (rule sampling.lifted) simp
  have sent: "sampling.stays_in s (send t path body)" for t path body
    unfolding send_def by (rule sampling.update) (simp add: call_open_def)
  have rest: "sampling.stays_in s (if \<not> found then give (Inl AGENT_MISSING) else k)" if "sampling.stays_in s k" for found k
    using that by auto
  show ?thesis unfolding sample_summary_def
    by (intro hoare_bind [OF leased] hoare_bind [OF lift] rest hoare_bind [OF sent]) auto
qed

lemma sample_unleased:
  assumes "ca_acquire x = Inl e" "sample_summary x c messages server pinned start_route = (res, r)"
  shows "res = Inl e \<and> untaken_books r"
  using assms
  by (auto simp: sample_summary_def take_lease_def and_then_def change_def lift_res_def throw_def start_route_def untaken_books_def)

text \<open>The compaction gave its lease back, with that outcome; it keeps no telemetry.\<close>

definition compacted_with :: "compact_env \<Rightarrow> string \<Rightarrow> route_run \<Rightarrow> bool" where
  "compacted_with x outcome r \<longleftrightarrow> (\<exists>s. ca_acquire x = Inr s \<and> rt_leased r = Some s) \<and> \<not> rt_held r
     \<and> rt_releases r = [outcome] \<and> rt_telemetry r = []"

definition compaction_books :: "compact_env \<Rightarrow> bool \<Rightarrow> route_run \<Rightarrow> bool" where
  "compaction_books x answered r \<longleftrightarrow> untaken_books r \<and> \<not> answered
     \<or> compacted_with x ''completed'' r \<or> (\<exists>outcome\<in>{''failed'', ''cancelled''}. compacted_with x outcome r \<and> \<not> answered)"

lemma leased_summary_books:
  assumes "leased_summary x c messages server pinned start_route = (res, r)"
  shows "compaction_books x (\<exists>v. res = Inr (Inr v)) r"
proof -
  obtain a r1 where s: "sample_summary x c messages server pinned start_route = (a, r1)" by fastforce
  have fin: "finally_do (release_any (ca_release x) (compact_outcome a)) (compact_handled x a) r1 = (res, r)"
    using assms s by (simp add: leased_summary_def)
  note books = released_books(1-4) [OF fin]
  have handled: "\<exists>v. a = Inr (Inr v)" if "res = Inr (Inr v)" for v
    using fin that
    by (auto simp: finally_do_def and_then_def lift_res_def give_def throw_def compact_handled_def split: sum.splits exn.splits if_splits prod.splits)
  show ?thesis
  proof (cases "ca_acquire x")
    case (Inl e)
    from sample_unleased [OF this s] books handled show ?thesis by (auto simp: compaction_books_def untaken_books_def)
  next
    case (Inr l)
    have "call_open (\<lambda>l. l = None) start_route" by (simp add: call_open_def start_route_def)
    from hoareD [OF sample_books [OF Inr] this s] have "holds_lease l r1" by (cases a) simp_all
    then have "compacted_with x (compact_outcome a) r" using books Inr by (simp add: compacted_with_def call_open_def)
    with handled show ?thesis
      by (cases a rule: sum.exhaust [case_product sum.exhaust [of "projr a"]])
        (auto simp: compaction_books_def compact_outcome_def split: sum.splits if_splits)
  qed
qed

lemma guard_books:
  assumes "compact_guard m caught k start_route = (res, r)" "\<And>e v. caught e = Some v \<Longrightarrow> \<exists>n t d msg. v = CompactError n t d msg"
  obtains "untaken_books r" "\<nexists>v. res = Inr (CompactReply v)" | a where "m = Inr a" "k a start_route = (res, r)"
  using assms
  by (fastforce simp: compact_guard_def give_def throw_def untaken_books_def start_route_def split: sum.splits option.splits)

lemma errors_only:
  "server_missing e = Some v \<Longrightarrow> \<exists>n t d msg. v = CompactError n t d msg"
  "compact_previous_missing e = Some v \<Longrightarrow> \<exists>n t d msg. v = CompactError n t d msg"
  "compact_translation e = Some v \<Longrightarrow> \<exists>n t d msg. v = CompactError n t d msg"
  by (cases e; auto simp: server_missing_def compact_previous_missing_def compact_translation_def)+

lemma summary_tail:
  assumes "leased_summary x c messages server pinned start_route = (a, r1)"
    "(case a of Inl e \<Rightarrow> (Inl e, r1) | Inr (Inl reply) \<Rightarrow> give reply r1
      | Inr (Inr (summary, u)) \<Rightarrow> and_then (lift_res (compact_resource summary u)) (\<lambda>v. give (CompactReply v)) r1) = (res, r)"
    "\<And>reply. a = Inr (Inl reply) \<Longrightarrow> \<nexists>v. reply = CompactReply v"
  shows "compaction_books x (\<exists>v. res = Inr (CompactReply v)) r"
proof -
  have r: "r = r1" using assms(2)
    by (auto simp: give_def and_then_def lift_res_def throw_def split: sum.splits)
  have "(\<exists>v. a = Inr (Inr v)) \<or> (\<nexists>v. res = Inr (CompactReply v))" using assms(2,3)
    by (auto simp: give_def split: sum.splits)
  with leased_summary_books [OF assms(1)] r show ?thesis by (auto simp: compaction_books_def)
qed

lemma leased_summary_errors:
  assumes "leased_summary x c messages server pinned r = (Inr (Inl reply), r')"
  shows "\<nexists>v. reply = CompactReply v"
proof -
  obtain a r1 where s: "sample_summary x c messages server pinned r = (a, r1)" by fastforce
  have "compact_handled x a = Inr (Inl reply)" using assms s
    by (auto simp: leased_summary_def finally_do_def and_then_def lift_res_def give_def throw_def split: sum.splits prod.splits)
  moreover have "\<nexists>v. reply' = CompactReply v" if "a = Inr (Inl reply')" for reply'
    using s that
    by (auto simp: sample_summary_def and_then_def lift_res_def give_def throw_def AGENT_MISSING_def split: sum.splits prod.splits if_splits)
  ultimately show ?thesis by (auto simp: compact_handled_def split: sum.splits exn.splits if_splits)
qed

lemma compaction_settles:
  assumes "compact_response x c start_route = (res, r)"
  shows "compaction_books x (\<exists>v. res = Inr (CompactReply v)) r"
  using assms unfolding compact_response_def
proof (rule guard_books)
  fix sp
  assume 1: "(case sp of (server, pinned) \<Rightarrow>
      compact_guard (load_previous (pe_records x) (cq_previous c)) compact_previous_missing (\<lambda>previous.
      compact_guard (input_items_to_llama_messages (pe_show x) (as_request c) (build_chain_history (pe_records x) previous))
        compact_translation (\<lambda>messages.
      and_then (lift_res (xe_agent x)) (\<lambda>found.
      if \<not> found then give AGENT_MISSING
      else and_then (leased_summary x c messages server pinned) (\<lambda>res.
        case res of
          Inl reply \<Rightarrow> give reply
        | Inr (summary, u) \<Rightarrow> and_then (lift_res (compact_resource summary u)) (\<lambda>v. give (CompactReply v))))))) start_route = (res, r)"
  obtain server pinned where sp: "sp = (server, pinned)" by (cases sp)
  from 1 [unfolded sp prod.case] show ?thesis
  proof (rule guard_books)
    fix previous
    assume "compact_guard (input_items_to_llama_messages (pe_show x) (as_request c) (build_chain_history (pe_records x) previous))
        compact_translation (\<lambda>messages.
      and_then (lift_res (xe_agent x)) (\<lambda>found.
      if \<not> found then give AGENT_MISSING
      else and_then (leased_summary x c messages server pinned) (\<lambda>res.
        case res of
          Inl reply \<Rightarrow> give reply
        | Inr (summary, u) \<Rightarrow> and_then (lift_res (compact_resource summary u)) (\<lambda>v. give (CompactReply v))))) start_route = (res, r)"
    then show ?thesis
    proof (rule guard_books)
      fix messages
      assume k: "and_then (lift_res (xe_agent x)) (\<lambda>found.
        if \<not> found then give AGENT_MISSING
        else and_then (leased_summary x c messages server pinned) (\<lambda>res.
          case res of
            Inl reply \<Rightarrow> give reply
          | Inr (summary, u) \<Rightarrow> and_then (lift_res (compact_resource summary u)) (\<lambda>v. give (CompactReply v)))) start_route = (res, r)"
      obtain a r1 where s: "leased_summary x c messages server pinned start_route = (a, r1)" by fastforce
      show ?thesis
      proof (cases "xe_agent x = Inr True")
        case True
        with k s have "(case a of Inl e \<Rightarrow> (Inl e, r1) | Inr (Inl reply) \<Rightarrow> give reply r1
            | Inr (Inr (summary, u)) \<Rightarrow> and_then (lift_res (compact_resource summary u)) (\<lambda>v. give (CompactReply v)) r1) = (res, r)"
          by (auto simp: and_then_def lift_res_def give_def split: sum.split)
        from summary_tail [OF s this] leased_summary_errors s show ?thesis by blast
      next
        case False
        with k show ?thesis
          by (auto simp: and_then_def lift_res_def give_def throw_def AGENT_MISSING_def compaction_books_def untaken_books_def start_route_def
              split: sum.splits)
      qed
    qed (auto simp: compaction_books_def dest: errors_only)
  qed (auto simp: compaction_books_def dest: errors_only)
qed (auto simp: compaction_books_def dest: errors_only)

section \<open>The requests to the Responses API\<close>


section \<open>What a buffered reply leaves\<close>

lemma guards_pass:
  assumes "response_guards x q = Inr (history, m, preferred)"
  obtains previous msgs where "load_previous (pe_records x) (pq_previous q) = Inr previous"
    "history = build_chain_history (pe_records x) previous" "input_items_to_llama_messages (pe_show x) q history = Inr msgs"
  using assms
  by (auto simp: response_guards_def guard_step_def refuse_def Let_def split: if_splits sum.splits option.splits prod.splits)

lemma complete_result:
  assumes "complete_response x s q history effort r = (Inr res, r')"
  obtains response items u short timings where "ca_reply x = Inr response" "read_response x s q response = Inr (items, u, short, timings)"
    "res = build_response_resource (if short then ''incomplete'' else ''completed'') items u None"
    "\<exists>before. rt_telemetry r' = before @ [(''success'', Some (usage_dict u))]"
proof -
  have "\<exists>response items u short timings. ca_reply x = Inr response \<and> read_response x s q response = Inr (items, u, short, timings)
      \<and> res = build_response_resource (if short then ''incomplete'' else ''completed'') items u None
      \<and> (\<exists>before. rt_telemetry r' = before @ [(''success'', Some (usage_dict u))])"
    using assms
    by (auto simp: complete_response_def and_then_def lift_res_def give_def throw_def await_answer_cases record_route_def change_def
        split: sum.splits prod.splits answer.splits json.splits) blast+
  with that show ?thesis by blast
qed

lemma chat_items:
  "read_chat_response x q response = Inr (items, u, short, timings) \<Longrightarrow> \<exists>outs. items = map (stored_item (pe_name_of x)) outs"
  by (auto simp: read_chat_response_def bind_res_Inr_iff Let_def)

lemma buffered_result:
  assumes "buffered_response x s q history effort r = (Inr (ResultReply res records), r')" "pq_store q"
  obtains r1 r2 where "complete_response x s q history effort r1 = (Inr res, r2)"
    "persist_response (response_row x q res) (pe_records x) = Inr records"
proof -
  let ?body = "and_then (complete_response x s q history effort) (\<lambda>res. give (ResultReply res (pe_records x)))"
  obtain v r1 where v: "leased_call (\<lambda>e. Inr (completion_error x e)) (ca_release x) ?body r = (Inr v, r1)"
      "keep_result x q v = Inr (ResultReply res records)"
    using assms(1) by (auto simp: buffered_response_def and_then_def lift_res_def give_def throw_def split: sum.splits prod.splits)
  have "v \<noteq> completion_error x e" for e
    using v(2) by (cases e) (auto simp: keep_result_def completion_error_def)
  then obtain r2 where "?body r = (Inr v, r2)" using leased_call_reply [OF v(1)] by auto
  then obtain res' where res': "complete_response x s q history effort r = (Inr res', r2)" "v = ResultReply res' (pe_records x)"
    by (auto simp: and_then_def give_def split: sum.splits prod.splits)
  with v(2) assms(2) have "persist_response (response_row x q res') (pe_records x) = Inr records" "res' = res"
    by (auto simp: keep_result_def bind_res_Inr_iff)
  with res' that show ?thesis by blast
qed

lemma stored_steps:
  assumes "create_response x q start_route = (Inr (ResultReply res records), r)" "pq_store q"
  obtains previous msgs s effort r1 r2 where "load_previous (pe_records x) (pq_previous q) = Inr previous"
    "input_items_to_llama_messages (pe_show x) q (build_chain_history (pe_records x) previous) = Inr msgs"
    "ca_acquire x = Inr s" "complete_response x s q (build_chain_history (pe_records x) previous) effort r1 = (Inr res, r2)"
    "persist_response (response_row x q res) (pe_records x) = Inr records"
proof (cases "response_guards x q")
  case (Inl stop)
  with assms(1) have "stop = Inr (ResultReply res records)" by (cases stop) (auto simp: create_response_def throw_def give_def)
  with Inl have False
    by (auto simp: response_guards_def guard_step_def refuse_def on_http_def on_target_def on_effort_def on_translation_def
        previous_missing_def effort_error_def Let_def split: if_splits sum.splits exn.splits prod.splits)
  then show ?thesis ..
next
  case (Inr v)
  obtain history m preferred where v: "v = (history, m, preferred)" by (cases v)
  from Inr v obtain previous msgs where p: "load_previous (pe_records x) (pq_previous q) = Inr previous"
    "history = build_chain_history (pe_records x) previous" "input_items_to_llama_messages (pe_show x) q history = Inr msgs"
    by (auto elim: guards_pass)
  obtain l r1 where l: "lease_response x m preferred start_route = (l, r1)" by fastforce
  from l obtain s where s: "l = Inr (Inr s)" "ca_acquire x = Inr s"
  proof (cases rule: lease_response_cases)
    case idle
    with assms(1) Inr v l have "\<exists>reply. l = Inr (Inl reply) \<and> reply = ResultReply res records"
      by (auto simp: create_response_def and_then_def give_def split: sum.splits)
    with l have False
      by (auto simp: lease_response_def split: sum.splits prod.splits exn.splits)
    then show ?thesis ..
  qed blast
  have "leased_response x q history s r1 = (Inr (ResultReply res records), r)"
    using assms(1) Inr v l s by (simp add: create_response_def and_then_def)
  then obtain effort where "buffered_response x s q history effort r1 = (Inr (ResultReply res records), r)"
    by (auto simp: leased_response_def give_back_def and_then_def change_def await_answer_cases give_def throw_def effort_error_def
        split: sum.splits exn.splits if_splits answer.splits)
  from buffered_result [OF this assms(2)] p s that show ?thesis by metis
qed

text \<open>
  Claim C32: a stored reply can be continued. When a request was answered from a chat engine and stored,
  any later request whose own input translates may name it as its previous response: it is found,
  and the engine is then sent exactly the messages of the earlier turns, those that echo the
  output items of the reply, and the new ones, under the instructions of the new request.
\<close>

theorem stored_reply_continues:
  assumes "create_response x q start_route = (Inr (ResultReply res records), r)" "pq_store q"
    "pe_fresh_id x \<noteq> []" "\<forall>p\<in>set (pe_records x). rr_previous p \<noteq> Some (pe_fresh_id x)"
    "\<forall>s. ca_acquire x = Inr s \<longrightarrow> \<not> is_native s"
    "input_items_to_llama_messages (pe_show x) q' [] = Inr (system_messages q' @ ms')"
  shows "\<exists>previous ms outs p. load_previous (pe_records x) (pq_previous q) = Inr previous
    \<and> input_items_to_llama_messages (pe_show x) q (build_chain_history (pe_records x) previous) = Inr (system_messages q @ ms)
    \<and> pr_output res = map (stored_item (pe_name_of x)) outs
    \<and> load_previous records (Some (pe_fresh_id x)) = Inr (Some p)
    \<and> input_items_to_llama_messages (pe_show x) q' (build_chain_history records (Some p)) =
        Inr (system_messages q' @ ms @ concat (map (item_echo (pe_name_of x)) outs) @ ms')"
  using assms(1,2)
proof (rule stored_steps)
  fix previous msgs s effort r1 r2
  assume h: "load_previous (pe_records x) (pq_previous q) = Inr previous"
    "input_items_to_llama_messages (pe_show x) q (build_chain_history (pe_records x) previous) = Inr msgs"
    "ca_acquire x = Inr s" "complete_response x s q (build_chain_history (pe_records x) previous) effort r1 = (Inr res, r2)"
    "persist_response (response_row x q res) (pe_records x) = Inr records"
  obtain ms where ms: "msgs = system_messages q @ ms"
    using h(2) by (auto simp: input_items_to_llama_messages_def add_messages_each bind_res_Inr_iff)
  from h(4) obtain response items u short timings where c: "read_response x s q response = Inr (items, u, short, timings)"
    "res = build_response_resource (if short then ''incomplete'' else ''completed'') items u None"
    by (rule complete_result)
  with assms(5) h(3) have "read_chat_response x q response = Inr (items, u, short, timings)" by (simp add: read_response_def)
  from chat_items [OF this] c(2) obtain outs where outs: "pr_output res = map (stored_item (pe_name_of x)) outs"
    by (auto simp: build_response_resource_def)
  then have "response_row x q res = stored_turn (pe_name_of x) (pe_fresh_id x) q outs (pr_status res)"
    by (simp add: response_row_def stored_turn_def)
  from conversation_continues [OF h(5) [unfolded this] assms(3) h(1) assms(4) h(2) [unfolded ms] assms(6)] h(1,2) ms outs
  show ?thesis by blast
qed

section \<open>What a client does not learn\<close>

text \<open>
  A native engine that reports a failure in its reply is taken to have completed: the buffered
  reader only looks for \<open>incomplete\<close>, where the stream raises.
\<close>

theorem failed_reply_completes:
  assumes "complete_response x s q history effort r = (Inr res, r')" "is_native s"
    "ca_reply x = Inr (JObj fs)" "look ''status'' JNull fs = JStr ''failed''"
  shows "pr_status res = ''completed'' \<and> fst (last (rt_telemetry r')) = ''success''"
proof -
  from assms(1) obtain response items u short timings before where c: "ca_reply x = Inr response"
    "read_response x s q response = Inr (items, u, short, timings)"
    "res = build_response_resource (if short then ''incomplete'' else ''completed'') items u None"
    "rt_telemetry r' = before @ [(''success'', Some (usage_dict u))]"
    by (rule complete_result) blast
  have "\<not> short"
    using c(1,2) assms(2-4) by (auto simp: read_response_def read_native_response_def bind_res_Inr_iff Let_def)
  with c(3,4) show ?thesis by (simp add: build_response_resource_def)
qed

text \<open>A buffered reply never says which response it continues.\<close>

theorem previous_not_echoed:
  "complete_response x s q history effort r = (Inr res, r') \<Longrightarrow> pr_previous res = None \<and> rr_previous (response_row x q res) = pq_previous q"
  by (erule complete_result) (simp add: build_response_resource_def response_row_def)

text \<open>The instructions of a compaction are sent twice.\<close>

theorem compact_instructions_twice:
  assumes "cq_instructions c = Some (ch # s)"
    "input_items_to_llama_messages sh (as_request c) history = Inr messages"
  shows "\<exists>rest. look ''messages'' JNull (compact_payload c messages) =
    JArr (role_message (JStr ''system'') (JStr (ch # s)) # role_message (JStr ''system'') (JStr (ch # s)) # rest)"
proof -
  have "system_messages (as_request c) = [role_message (JStr ''system'') (JStr (ch # s))]"
    using assms(1) by (simp add: system_messages_def as_request_def opt_given_def)
  with assms show ?thesis
    by (auto simp: input_items_to_llama_messages_def add_messages_each bind_res_Inr_iff compact_payload_def opt_given_def look_def)
qed

end
