(* ===== verification/ResponseRouteExamples.thy ===== *)
theory ResponseRouteExamples
  imports RouteExamples ResponseExamples ResponseRoutesSafety
begin

text \<open>
  Concrete requests to the Responses API: a conversation both kinds of engine read, a reply that
  is stored and continued, a compaction, and a native engine that fails.
\<close>

definition ask :: "string option \<Rightarrow> string + json list \<Rightarrow> response_request" where
  "ask previous what = \<lparr>pq_model = ''m'', pq_input = what, pq_previous = previous, pq_instructions = Some ''be kind'',
     pq_tools = [], pq_choice = ChoiceMode ''auto'', pq_format = None, pq_temperature = Some 1, pq_top_p = None,
     pq_presence_penalty = None, pq_frequency_penalty = None, pq_parallel = None, pq_max_output_tokens = None,
     pq_effort = None, pq_stream = False, pq_background = False, pq_store = True\<rparr>"

definition mixed_input :: "json list" where
  "mixed_input =
     [JObj [(''type'', JStr ''message''), (''role'', JStr ''user''),
        (''content'', JArr [JObj [(''type'', JStr ''input_text''), (''text'', JStr ''a'')],
           JObj [(''type'', JStr ''input_text''), (''text'', JStr ''b'')],
           JObj [(''type'', JStr ''input_image''), (''image_url'', JStr ''u''), (''detail'', JStr ''low'')]])],
      JObj [(''type'', JStr ''reasoning''), (''summary'', JArr [])]]"

definition compacted :: "json list" where
  "compacted = [JObj [(''type'', JStr ''compaction''), (''encrypted_content'', JStr ''z'')]]"

abbreviation no_print :: "json \<Rightarrow> string" where
  "no_print \<equiv> (\<lambda>j. [])"

definition mixed_chat :: "json list" where
  "mixed_chat = [role_message (JStr ''system'') (JStr ''be kind''), role_message (JStr ''assistant'') (JStr ''z''),
     role_message (JStr ''user'') (JArr [JObj [(''type'', JStr ''text''), (''text'', JStr ''ab'')],
       JObj [(''type'', JStr ''image_url''), (''image_url'', JObj [(''url'', JStr ''u'')])]])]"

definition mixed_native :: "json list" where
  "mixed_native = [native_message (JStr ''assistant'') [native_text_part ''output_text'' ''z''],
     native_message (JStr ''user'') [native_text_part ''input_text'' ''a'', native_text_part ''input_text'' ''b'',
       JObj [(''type'', JStr ''input_image''), (''image_url'', JStr ''u''), (''detail'', JStr ''low'')]],
     JObj [(''type'', JStr ''reasoning''), (''summary'', JArr [])]]"

lemma engines_read_alike_witness:
  "map wire_turn mixed_chat = map wire_turn (system_messages (ask None (Inr mixed_input))) @ map wire_turn (native_messages mixed_native)
   \<and> length (native_messages mixed_native) = 2"
proof
  show "map wire_turn mixed_chat = map wire_turn (system_messages (ask None (Inr mixed_input))) @ map wire_turn (native_messages mixed_native)"
  proof (rule engines_read_alike [where history = compacted and sh = no_print])
    show "list_all plain_item (compacted @ input_items (ask None (Inr mixed_input)))"
      by (simp add: compacted_def mixed_input_def ask_def input_items_def plain_item_def plain_part_def content_parts_def look_def)
    show "input_items_to_llama_messages no_print (ask None (Inr mixed_input)) compacted = Inr mixed_chat" by code_simp
    show "input_items_to_gufo_native no_print (ask None (Inr mixed_input)) compacted = Inr mixed_native" by code_simp
  qed
  show "length (native_messages mixed_native) = 2" by code_simp
qed

definition kind_reply :: json where
  "kind_reply = JObj [(''choices'', JArr [JObj [(''message'', JObj [(''content'', JStr ''hi'')]), (''finish_reason'', JStr ''stop'')]])]"

definition demo_response :: "server_row \<Rightarrow> json \<Rightarrow> response_env" where
  "demo_response s reply = call_env.extend (plain_call (demo_db [demo_leased]) (Inr reply))
     \<lparr>pe_fresh_id = ''r1'', pe_meta = (\<lambda>_. JNull), pe_parse = (\<lambda>_. None), pe_records = [], pe_show = no_print,
      pe_name_of = (\<lambda>i. ''i''), pe_tool = (\<lambda>j. Inl TypeError), pe_validate = (\<lambda>js. Answered)\<rparr>\<lparr>ca_acquire := Inr s\<rparr>"

definition demo_result :: response_result where
  "demo_result = build_response_resource ''completed'' [stored_item (\<lambda>i. ''i'') (MessageItem (NewId ''msg'' 0) None (Some ''hi''))]
     (usage_from_llama 0 0 0 0) None"

definition demo_stored :: "json response_record list" where
  "demo_stored = [response_row (demo_response demo_leased kind_reply) (ask None (Inl ''hello'')) demo_result]"

lemma demo_created:
  "fst (create_response (demo_response demo_leased kind_reply) (ask None (Inl ''hello'')) start_route) = Inr (ResultReply demo_result demo_stored)"
  by code_simp

lemma stored_reply_continues_witness:
  "\<exists>p. load_previous demo_stored (Some ''r1'') = Inr (Some p)
     \<and> input_items_to_llama_messages no_print (ask (Some ''r1'') (Inl ''go on'')) (build_chain_history demo_stored (Some p)) =
         Inr (map (\<lambda>(r, t). role_message (JStr r) (JStr t))
           [(''system'', ''be kind''), (''user'', ''hello''), (''assistant'', ''hi''), (''user'', ''go on'')])"
proof -
  let ?x = "demo_response demo_leased kind_reply" and ?q = "ask None (Inl ''hello'')" and ?q' = "ask (Some ''r1'') (Inl ''go on'')"
  have env: "pe_fresh_id ?x = ''r1''" "pe_records ?x = []" "pe_show ?x = no_print" "pe_name_of ?x = (\<lambda>i. ''i'')" "ca_acquire ?x = Inr demo_leased"
    by (simp_all add: demo_response_def call_env.extend_def plain_call_def)
  have own: "input_items_to_llama_messages (pe_show ?x) ?q' [] = Inr (system_messages ?q' @ [role_message (JStr ''user'') (JStr ''go on'')])"
    unfolding env by code_simp
  have chat: "\<forall>s. ca_acquire ?x = Inr s \<longrightarrow> \<not> is_native s"
    unfolding env by (simp add: is_native_def uses_native_responses_def NATIVE_RESPONSES_ENGINES_def demo_leased_def auto_row_def)
  have created: "create_response ?x ?q start_route = (Inr (ResultReply demo_result demo_stored), snd (create_response ?x ?q start_route))"
    using demo_created by (metis prod.collapse)
  have keep: "pq_store ?q" "pe_fresh_id ?x \<noteq> []" "\<forall>p\<in>set (pe_records ?x). rr_previous p \<noteq> Some (pe_fresh_id ?x)"
    by (simp_all add: ask_def env)
  from stored_reply_continues [OF created keep chat own] obtain p where
    "load_previous demo_stored (Some ''r1'') = Inr (Some p)" unfolding env by blast
  then have "p = hd demo_stored" by (simp add: load_previous_def given_id_def stored_response_def first_row_def demo_stored_def
      response_row_def env)
  moreover have "input_items_to_llama_messages no_print ?q' (build_chain_history demo_stored (Some (hd demo_stored))) =
      Inr (map (\<lambda>(r, t). role_message (JStr r) (JStr t))
        [(''system'', ''be kind''), (''user'', ''hello''), (''assistant'', ''hi''), (''user'', ''go on'')])" by code_simp
  ultimately show ?thesis using \<open>load_previous demo_stored (Some ''r1'') = Inr (Some p)\<close> by blast
qed

definition demo_compact :: compact_env where
  "demo_compact = response_env.extend (demo_response demo_leased kind_reply) \<lparr>xe_agent = Inr True, xe_leased_agent = Inr True\<rparr>"

definition compact_all :: compact_request where
  "compact_all = \<lparr>cq_model = ''m'', cq_input = Inl ''hello'', cq_previous = None, cq_instructions = Some ''be brief''\<rparr>"

lemma demo_response_calm: "response_calm (demo_response s j)" "readable_metadata (demo_response s j)"
  by (simp_all add: response_calm_def readable_metadata_def demo_response_def call_env.extend_def plain_call_def capabilities_object_def)


text \<open>A native engine that reports a failure.\<close>

lemma failed_reply_completes_witness:
  "\<exists>res r. complete_response (demo_response flash (JObj [(''status'', JStr ''failed'')])) flash (ask None (Inl ''hello'')) [] None start_route
     = (Inr res, r) \<and> pr_status res = ''completed''"
proof -
  let ?run = "complete_response (demo_response flash (JObj [(''status'', JStr ''failed'')])) flash (ask None (Inl ''hello'')) [] None start_route"
  have "fst ?run = Inr (build_response_resource ''completed'' [] (usage_from_llama 0 0 0 0) None)" by code_simp
  then obtain r where run: "?run = (Inr (build_response_resource ''completed'' [] (usage_from_llama 0 0 0 0) None), r)"
    by (metis prod.collapse)
  have "is_native flash" "ca_reply (demo_response flash (JObj [(''status'', JStr ''failed'')])) = Inr (JObj [(''status'', JStr ''failed'')])"
    "look ''status'' JNull [(''status'', JStr ''failed'')] = JStr ''failed''"
    by (simp_all add: is_native_def uses_native_responses_def NATIVE_RESPONSES_ENGINES_def flash_def demo_server_def demo_response_def
        call_env.extend_def plain_call_def look_def)
  from failed_reply_completes [OF run this] run show ?thesis by blast
qed

end
