(* ===== verification/StartLocks.thy ===== *)
theory StartLocks
  imports Prelude
begin

text \<open>
  The locks that serialize the starts of one server on an agent: \<open>_start_locks\<close> of the process
  managers (\<open>src/agent/app/services/llama_server.py\<close>, \<open>gufo_server.py\<close>, \<open>halogen_server.py\<close>). A start
  takes the lock of the table, making one when there is none, waits for it, and leaves; the managers
  of llama-server and Gufo then drop the lock from the table, that of Halogen keeps it.
  Tasks and locks are numbers. A task that waits may be cancelled: it leaves without having entered.
\<close>

section \<open>The table\<close>

record start_locks =
  lk_entry :: "nat option"
  lk_fresh :: nat
  lk_starts :: "(nat \<times> nat \<times> bool) list"

datatype lock_move = Arrive nat | Enter nat | Leave nat

definition no_locks :: start_locks where
  "no_locks = \<lparr>lk_entry = None, lk_fresh = 0, lk_starts = []\<rparr>"

text \<open>\<open>setdefault(server_id, Lock())\<close>: the new lock is dropped when there is one.\<close>

definition set_default_lock :: "start_locks \<Rightarrow> nat \<times> start_locks" where
  "set_default_lock s = (case lk_entry s of
     Some l \<Rightarrow> (l, s)
   | None \<Rightarrow> (lk_fresh s, s\<lparr>lk_entry := Some (lk_fresh s), lk_fresh := lk_fresh s + 1\<rparr>))"

definition lock_held :: "nat \<Rightarrow> start_locks \<Rightarrow> bool" where
  "lock_held l s \<longleftrightarrow> (\<exists>(t, k, inside)\<in>set (lk_starts s). k = l \<and> inside)"

text \<open>\<open>finally: if _start_locks.get(server_id) is lock: pop\<close>, where the manager has it.\<close>

definition drop_lock :: "bool \<Rightarrow> nat \<Rightarrow> start_locks \<Rightarrow> start_locks" where
  "drop_lock drops l s = (if drops \<and> lk_entry s = Some l then s\<lparr>lk_entry := None\<rparr> else s)"

fun lock_exec :: "bool \<Rightarrow> lock_move \<Rightarrow> start_locks \<Rightarrow> start_locks option" where
  "lock_exec drops (Arrive t) s =
     (if map_of (lk_starts s) t \<noteq> None then None
      else let (l, s1) = set_default_lock s in Some (s1\<lparr>lk_starts := (t, l, False) # lk_starts s1\<rparr>))"
| "lock_exec drops (Enter t) s =
     (case map_of (lk_starts s) t of
        Some (l, False) \<Rightarrow> if lock_held l s then None
          else Some (s\<lparr>lk_starts := AList.update t (l, True) (lk_starts s)\<rparr>)
      | _ \<Rightarrow> None)"
| "lock_exec drops (Leave t) s =
     (case map_of (lk_starts s) t of
        Some (l, inside) \<Rightarrow> Some (drop_lock drops l (s\<lparr>lk_starts := AList.delete t (lk_starts s)\<rparr>))
      | None \<Rightarrow> None)"

inductive locks_reach :: "bool \<Rightarrow> start_locks \<Rightarrow> bool" for drops where
  locks_start: "locks_reach drops no_locks"
| locks_step: "locks_reach drops s \<Longrightarrow> lock_exec drops mv s = Some s' \<Longrightarrow> locks_reach drops s'"

fun lock_run :: "bool \<Rightarrow> lock_move list \<Rightarrow> start_locks \<Rightarrow> start_locks option" where
  "lock_run drops [] s = Some s"
| "lock_run drops (mv # mvs) s = (case lock_exec drops mv s of None \<Rightarrow> None | Some s1 \<Rightarrow> lock_run drops mvs s1)"

lemma lock_run_reach: "locks_reach drops s \<Longrightarrow> lock_run drops mvs s = Some s' \<Longrightarrow> locks_reach drops s'"
  by (induction mvs arbitrary: s) (auto split: option.splits intro: locks_step)

text \<open>The starts that are inside.\<close>

definition inside_starts :: "start_locks \<Rightarrow> nat list" where
  "inside_starts s = map fst (filter (\<lambda>x. snd (snd x)) (lk_starts s))"

section \<open>Exclusion\<close>

text \<open>Every task has one entry, and a lock lets in one task at a time.\<close>

definition locks_ok :: "start_locks \<Rightarrow> bool" where
  "locks_ok s \<longleftrightarrow> distinct (map fst (lk_starts s))
     \<and> (\<forall>t u l. (t, l, True) \<in> set (lk_starts s) \<longrightarrow> (u, l, True) \<in> set (lk_starts s) \<longrightarrow> t = u)"

lemma set_default_starts: "set_default_lock s = (l, s1) \<Longrightarrow> lk_starts s1 = lk_starts s"
  by (auto simp: set_default_lock_def split: option.splits)

lemma drop_lock_starts [simp]: "lk_starts (drop_lock drops l s) = lk_starts s"
  by (simp add: drop_lock_def)

lemma set_update_distinct:
  "distinct (map fst xs) \<Longrightarrow> set (AList.update k v xs) = {x \<in> set xs. fst x \<noteq> k} \<union> {(k, v)}"
  by (induction xs) (auto simp: image_iff)

lemma locks_ok_exec:
  assumes "locks_ok s" "lock_exec drops mv s = Some s'"
  shows "locks_ok s'"
proof (cases mv)
  case (Arrive t)
  then have new: "t \<notin> fst ` set (lk_starts s)" and s': "\<exists>l. lk_starts s' = (t, l, False) # lk_starts s"
    using assms(2) by (auto simp: map_of_eq_None_iff dest: set_default_starts split: if_splits prod.splits)
  from s' obtain l where "lk_starts s' = (t, l, False) # lk_starts s" by blast
  with new assms(1) show ?thesis by (auto simp: locks_ok_def)
next
  case (Enter t)
  then obtain l where l: "map_of (lk_starts s) t = Some (l, False)" "\<not> lock_held l s"
    "lk_starts s' = AList.update t (l, True) (lk_starts s)"
    using assms(2) by (auto split: option.splits bool.splits if_splits)
  have d: "distinct (map fst (lk_starts s))" using assms(1) by (simp add: locks_ok_def)
  have free: "(u, l, True) \<notin> set (lk_starts s)" for u using l(2) by (auto simp: lock_held_def)
  have "distinct (map fst (lk_starts s'))" using d l(3) by (simp add: distinct_update)
  moreover have "t1 = t2" if "(t1, k, True) \<in> set (lk_starts s')" "(t2, k, True) \<in> set (lk_starts s')" for t1 t2 k
    using that free assms(1) unfolding l(3) set_update_distinct [OF d] by (auto simp: locks_ok_def)
  ultimately show ?thesis by (auto simp: locks_ok_def)
next
  case (Leave t)
  then have "lk_starts s' = AList.delete t (lk_starts s)" using assms(2) by (auto split: option.splits)
  with assms(1) show ?thesis by (auto simp: locks_ok_def AList.delete_eq distinct_map_filter)
qed

lemma locks_reach_ok: "locks_reach drops s \<Longrightarrow> locks_ok s"
  by (induction rule: locks_reach.induct) (auto simp: no_locks_def locks_ok_def dest: locks_ok_exec [rotated])

text \<open>Where locks are kept, all starts use the one of the table.\<close>

definition one_lock :: "start_locks \<Rightarrow> bool" where
  "one_lock s \<longleftrightarrow> (\<forall>(t, l, inside)\<in>set (lk_starts s). lk_entry s = Some l)"

lemma one_lock_exec:
  assumes "one_lock s" "locks_ok s" "lock_exec False mv s = Some s'"
  shows "one_lock s'"
proof (cases mv)
  case (Arrive t)
  show ?thesis
  proof (cases "lk_entry s")
    case None
    then have "lk_starts s = []" using assms(1) by (cases "lk_starts s") (auto simp: one_lock_def)
    with None Arrive assms(3) show ?thesis by (auto simp: set_default_lock_def one_lock_def)
  next
    case (Some l)
    with Arrive assms(1,3) show ?thesis by (auto simp: set_default_lock_def one_lock_def split: if_splits)
  qed
next
  case (Enter t)
  then obtain l where l: "map_of (lk_starts s) t = Some (l, False)" "s' = s\<lparr>lk_starts := AList.update t (l, True) (lk_starts s)\<rparr>"
    using assms(3) by (auto split: option.splits bool.splits if_splits)
  have "distinct (map fst (lk_starts s))" using assms(2) by (simp add: locks_ok_def)
  with l assms(1) show ?thesis by (auto simp: one_lock_def set_update_distinct dest!: map_of_SomeD)
next
  case (Leave t)
  with assms(1,3) show ?thesis by (auto simp: one_lock_def drop_lock_def AList.delete_eq split: option.splits)
qed

lemma locks_reach_one: "locks_reach False s \<Longrightarrow> one_lock s"
proof (induction rule: locks_reach.induct)
  case (locks_step s mv s')
  then show ?case using one_lock_exec locks_reach_ok by blast
qed (simp add: no_locks_def one_lock_def)

lemma inside_le_one:
  assumes "locks_ok s" "one_lock s"
  shows "length (inside_starts s) \<le> 1"
proof -
  have d: "distinct (inside_starts s)" using assms(1) by (auto simp: inside_starts_def locks_ok_def distinct_map_filter)
  have same: "t = u" if "t \<in> set (inside_starts s)" "u \<in> set (inside_starts s)" for t u
  proof -
    from that obtain l k where e: "(t, l, True) \<in> set (lk_starts s)" "(u, k, True) \<in> set (lk_starts s)"
      by (auto simp: inside_starts_def)
    with assms(2) have "lk_entry s = Some l" "lk_entry s = Some k" by (auto simp: one_lock_def)
    with e assms(1) show "t = u" by (auto simp: locks_ok_def)
  qed
  show ?thesis
  proof (rule ccontr)
    assume "\<not> length (inside_starts s) \<le> 1"
    then obtain t u us where ts: "inside_starts s = t # u # us"
      by (cases "inside_starts s" rule: remdups_adj.cases) simp_all
    have "t = u" by (rule same) (simp_all add: ts)
    with d ts show False by simp
  qed
qed

text \<open>
  Where the lock stays in the table, starts of a server exclude each other: however starts
  arrive, wait, are cancelled and end, at most one is inside.
\<close>

theorem starts_exclusive:
  assumes "locks_reach False s"
  shows "length (inside_starts s) \<le> 1"
  using inside_le_one [OF locks_reach_ok [OF assms] locks_reach_one [OF assms]] .

text \<open>
  Where it is dropped, they do not: a start that ends drops the lock another still waits for, the
  next start makes a new one, and both are inside. A start cancelled while it waits does the same.
\<close>

theorem starts_overlap:
  "\<exists>s. locks_reach True s \<and> inside_starts s = [3, 2]"
  "\<exists>s. locks_reach True s \<and> inside_starts s = [3, 1]"
proof -
  have "lock_run True [Arrive 1, Enter 1, Arrive 2, Leave 1, Enter 2, Arrive 3, Enter 3] no_locks =
      Some \<lparr>lk_entry = Some 1, lk_fresh = 2, lk_starts = [(3, 1, True), (2, 0, True)]\<rparr>" by code_simp
  from lock_run_reach [OF locks_start this] show "\<exists>s. locks_reach True s \<and> inside_starts s = [3, 2]"
    by (intro exI conjI) (auto simp: inside_starts_def)
  have "lock_run True [Arrive 1, Enter 1, Arrive 2, Leave 2, Arrive 3, Enter 3] no_locks =
      Some \<lparr>lk_entry = Some 1, lk_fresh = 2, lk_starts = [(3, 1, True), (1, 0, True)]\<rparr>" by code_simp
  from lock_run_reach [OF locks_start this] show "\<exists>s. locks_reach True s \<and> inside_starts s = [3, 1]"
    by (intro exI conjI) (auto simp: inside_starts_def)
qed

end
