(* ===== verification/DownloadShare.thy ===== *)
theory DownloadShare
  imports Prelude
begin

text \<open>
  Who shares the download of one file on an agent (\<open>download_model\<close> and \<open>download_repository\<close>,
  \<open>src/agent/app/services/model_manager.py\<close>), as steps of tasks: a request that finds a download in
  flight awaits its task, the request that started it takes it from the table when it goes on, and
  cancelling a request that awaits a task cancels the task. The fetch runs in a thread, which a
  cancelled task leaves behind. Requests and tasks are numbered.
\<close>

section \<open>Steps\<close>

datatype fetch_status = Fetching | Fetched | FetchFailed | FetchCancelled

datatype wait_result = WaitGot | WaitFailed | WaitCancelled

record shared_download =
  sd_entry :: "nat option"
  sd_status :: "nat \<Rightarrow> fetch_status"
  sd_threads :: "nat list"
  sd_waiting :: "(nat \<times> nat \<times> bool) list"
  sd_results :: "(nat \<times> wait_result) list"
  sd_cancelled :: "nat list"
  sd_stored :: bool
  sd_fresh :: nat

text \<open>A request arrives; the thread of a task ends, well or not; a request goes on; a request is cancelled.\<close>

datatype share_move = Request nat | ThreadEnds nat bool | GoesOn nat | Cancelled nat

definition no_downloads :: shared_download where
  "no_downloads = \<lparr>sd_entry = None, sd_status = (\<lambda>_. Fetching), sd_threads = [], sd_waiting = [], sd_results = [],
     sd_cancelled = [], sd_stored = False, sd_fresh = 0\<rparr>"

definition known_request :: "nat \<Rightarrow> shared_download \<Rightarrow> bool" where
  "known_request w s \<longleftrightarrow> map_of (sd_waiting s) w \<noteq> None \<or> map_of (sd_results s) w \<noteq> None"

definition wait_for :: "nat \<Rightarrow> nat \<Rightarrow> bool \<Rightarrow> shared_download \<Rightarrow> shared_download" where
  "wait_for w k own s = s\<lparr>sd_waiting := (w, k, own) # sd_waiting s\<rparr>"

text \<open>The end of a request: the one that started the task takes it from the table (\<open>finally\<close>).\<close>

definition end_request :: "nat \<Rightarrow> bool \<Rightarrow> wait_result \<Rightarrow> shared_download \<Rightarrow> shared_download" where
  "end_request w own res s = s\<lparr>sd_waiting := AList.delete w (sd_waiting s), sd_results := (w, res) # sd_results s,
     sd_entry := (if own then None else sd_entry s)\<rparr>"

definition result_of :: "fetch_status \<Rightarrow> wait_result" where
  "result_of st = (case st of Fetched \<Rightarrow> WaitGot | FetchFailed \<Rightarrow> WaitFailed | _ \<Rightarrow> WaitCancelled)"

definition start_fetch :: "shared_download \<Rightarrow> nat \<times> shared_download" where
  "start_fetch s = (sd_fresh s, s\<lparr>sd_entry := Some (sd_fresh s), sd_threads := sd_fresh s # sd_threads s, sd_fresh := sd_fresh s + 1,
     sd_status := (sd_status s)(sd_fresh s := Fetching)\<rparr>)"

fun share_exec :: "share_move \<Rightarrow> shared_download \<Rightarrow> shared_download option" where
  "share_exec (Request w) s =
     (if known_request w s then None
      else if sd_stored s then Some (s\<lparr>sd_results := (w, WaitGot) # sd_results s\<rparr>)
      else (case sd_entry s of
          Some k \<Rightarrow> Some (wait_for w k False s)
        | None \<Rightarrow> (let (k, s1) = start_fetch s in Some (wait_for w k True s1))))"
| "share_exec (ThreadEnds k good) s =
     (if k \<notin> set (sd_threads s) then None
      else Some (s\<lparr>sd_threads := removeAll k (sd_threads s), sd_stored := sd_stored s \<or> good,
        sd_status := (if sd_status s k = Fetching
                      then (sd_status s)(k := (if good then Fetched else FetchFailed)) else sd_status s)\<rparr>))"
| "share_exec (GoesOn w) s =
     (case map_of (sd_waiting s) w of
        Some (k, own) \<Rightarrow> if sd_status s k = Fetching then None else Some (end_request w own (result_of (sd_status s k)) s)
      | None \<Rightarrow> None)"
| "share_exec (Cancelled w) s =
     (case map_of (sd_waiting s) w of
        Some (k, own) \<Rightarrow>
          (let s1 = s\<lparr>sd_cancelled := w # sd_cancelled s\<rparr> in
           if sd_status s k = Fetching then Some (s1\<lparr>sd_status := (sd_status s)(k := FetchCancelled)\<rparr>)
           else Some (end_request w own WaitCancelled s1))
      | None \<Rightarrow> None)"

definition is_cancel :: "share_move \<Rightarrow> bool" where
  "is_cancel mv = (case mv of Cancelled w \<Rightarrow> True | _ \<Rightarrow> False)"

text \<open>The states reached, with or without cancellations.\<close>

inductive share_reach :: "bool \<Rightarrow> shared_download \<Rightarrow> bool" for cancels where
  share_start: "share_reach cancels no_downloads"
| share_step: "share_reach cancels s \<Longrightarrow> share_exec mv s = Some s' \<Longrightarrow> is_cancel mv \<longrightarrow> cancels \<Longrightarrow> share_reach cancels s'"

fun share_run :: "share_move list \<Rightarrow> shared_download \<Rightarrow> shared_download option" where
  "share_run [] s = Some s"
| "share_run (mv # mvs) s = (case share_exec mv s of None \<Rightarrow> None | Some s1 \<Rightarrow> share_run mvs s1)"

lemma share_run_reach: "share_reach True s \<Longrightarrow> share_run mvs s = Some s' \<Longrightarrow> share_reach True s'"
  by (induction mvs arbitrary: s) (auto split: option.splits intro: share_step)

section \<open>One fetch for all\<close>

text \<open>What a request may await, and the requests that started a task.\<close>

definition may_await :: "shared_download \<Rightarrow> nat \<Rightarrow> bool" where
  "may_await s k \<longleftrightarrow> k < sd_fresh s \<and> sd_status s k \<noteq> FetchCancelled \<and> (sd_status s k = Fetched \<longrightarrow> sd_stored s)"

definition starters :: "shared_download \<Rightarrow> (nat \<times> nat \<times> bool) list" where
  "starters s = filter (\<lambda>x. snd (snd x)) (sd_waiting s)"

definition share_ok :: "shared_download \<Rightarrow> bool" where
  "share_ok s \<longleftrightarrow> distinct (map fst (sd_waiting s))
     \<and> (sd_threads s = [] \<or> (\<exists>k. sd_threads s = [k] \<and> sd_entry s = Some k \<and> sd_status s k = Fetching))
     \<and> (starters s = [] \<or> (\<exists>w k. starters s = [(w, k, True)] \<and> sd_entry s = Some k))
     \<and> (\<forall>x\<in>set (sd_waiting s). may_await s (fst (snd x)))
     \<and> (\<forall>k. sd_entry s = Some k \<longrightarrow> may_await s k)
     \<and> (\<forall>x\<in>set (sd_results s). snd x \<noteq> WaitCancelled \<and> (snd x = WaitGot \<longrightarrow> sd_stored s))"

lemma share_ok_request:
  assumes "share_ok s" "share_exec (Request w) s = Some s'"
  shows "share_ok s'"
proof -
  have new: "w \<notin> fst ` set (sd_waiting s)" using assms(2) by (auto simp: known_request_def map_of_eq_None_iff split: if_splits)
  show ?thesis
  proof (cases "sd_stored s")
    case True
    with assms(2) have "s' = s\<lparr>sd_results := (w, WaitGot) # sd_results s\<rparr>" by (simp split: if_splits)
    with True assms(1) show ?thesis by (simp add: share_ok_def may_await_def starters_def)
  next
    case False
    show ?thesis
    proof (cases "sd_entry s")
      case None
      with assms(1) have "sd_threads s = []" "starters s = []" by (auto simp: share_ok_def)
      moreover from None False assms(2) have "s' = wait_for w (sd_fresh s) True (snd (start_fetch s))"
        by (simp add: start_fetch_def Let_def split: if_splits)
      ultimately show ?thesis
        using assms(1) new by (auto simp: share_ok_def wait_for_def start_fetch_def starters_def may_await_def)
    next
      case (Some k)
      with False assms(2) have "s' = wait_for w k False s" by (simp split: if_splits)
      with Some assms(1) new show ?thesis by (auto simp: share_ok_def wait_for_def starters_def may_await_def)
    qed
  qed
qed

lemma share_ok_thread:
  assumes "share_ok s" "share_exec (ThreadEnds k good) s = Some s'"
  shows "share_ok s'"
proof -
  have "k \<in> set (sd_threads s)" using assms(2) by (auto split: if_splits)
  with assms(1) have one: "sd_threads s = [k]" "sd_status s k = Fetching" by (auto simp: share_ok_def)
  with assms(2) have "s' = s\<lparr>sd_threads := [], sd_stored := sd_stored s \<or> good,
      sd_status := (sd_status s)(k := (if good then Fetched else FetchFailed))\<rparr>" by simp
  with assms(1) show ?thesis by (auto simp: share_ok_def starters_def may_await_def)
qed

lemma starters_delete: "starters (end_request w own res s) = filter (\<lambda>x. fst x \<noteq> w) (starters s)"
  by (auto simp: starters_def end_request_def AList.delete_eq case_prod_unfold intro!: filter_cong)

lemma share_ok_goes_on:
  assumes "share_ok s" "share_exec (GoesOn w) s = Some s'"
  shows "share_ok s'"
proof -
  obtain k own where w: "map_of (sd_waiting s) w = Some (k, own)" "sd_status s k \<noteq> Fetching"
    "s' = end_request w own (result_of (sd_status s k)) s"
    using assms(2) by (auto split: option.splits if_splits)
  have wk: "(w, k, own) \<in> set (sd_waiting s)" using w(1) by (rule map_of_SomeD)
  with assms(1) have await: "may_await s k" by (force simp: share_ok_def)
  with w(2) have res: "result_of (sd_status s k) \<noteq> WaitCancelled \<and> (result_of (sd_status s k) = WaitGot \<longrightarrow> sd_stored s)"
    by (cases "sd_status s k") (auto simp: may_await_def result_of_def)
  have rest: "distinct (map fst (sd_waiting s'))" "\<forall>x\<in>set (sd_waiting s'). may_await s' (fst (snd x))"
    "\<forall>x\<in>set (sd_results s'). snd x \<noteq> WaitCancelled \<and> (snd x = WaitGot \<longrightarrow> sd_stored s')"
    using assms(1) res unfolding w(3)
    by (auto simp: share_ok_def end_request_def may_await_def AList.delete_eq distinct_map_filter)
  have others: "sd_threads s' = sd_threads s" "sd_status s' = sd_status s" "may_await s' j = may_await s j" for j
    unfolding w(3) by (simp_all add: end_request_def may_await_def)
  show ?thesis
  proof (cases own)
    case False
    have "fst x \<noteq> w" if "x \<in> set (starters s)" for x
    proof
      assume "fst x = w"
      with that have "(w, snd x) \<in> set (sd_waiting s)" "snd (snd x)" by (auto simp: starters_def)
      moreover have "distinct (map fst (sd_waiting s))" using assms(1) by (simp add: share_ok_def)
      ultimately show False using wk False by (metis eq_key_imp_eq_value snd_conv)
    qed
    then have "starters s' = starters s" unfolding w(3) starters_delete by (simp add: filter_id_conv)
    with False w(3) rest others assms(1) show ?thesis by (auto simp: share_ok_def end_request_def)
  next
    case True
    then have "(w, k, own) \<in> set (starters s)" using wk by (simp add: starters_def)
    with assms(1) have one: "starters s = [(w, k, own)]" "sd_entry s = Some k" by (auto simp: share_ok_def)
    with w(2) assms(1) have "sd_threads s = []" by (auto simp: share_ok_def)
    moreover have "starters s' = []" "sd_entry s' = None" using one True unfolding w(3) starters_delete by (simp_all add: end_request_def)
    ultimately show ?thesis using rest others by (auto simp: share_ok_def)
  qed
qed

lemma share_ok_exec: "share_ok s \<Longrightarrow> share_exec mv s = Some s' \<Longrightarrow> \<not> is_cancel mv \<Longrightarrow> share_ok s'"
  by (cases mv) (auto simp: is_cancel_def intro: share_ok_request share_ok_thread share_ok_goes_on simp del: share_exec.simps)

lemma share_reach_ok: "share_reach False s \<Longrightarrow> share_ok s"
proof (induction rule: share_reach.induct)
  case share_start
  then show ?case by (simp add: share_ok_def no_downloads_def starters_def)
next
  case (share_step s mv s')
  then show ?case using share_ok_exec by blast
qed

text \<open>
  While nobody is cancelled a file is fetched once for all who ask: at most one thread fetches it
  at any time, every request that ends has the file or the failure of the fetch, and one that has
  the file finds it stored.
\<close>

theorem fetched_once:
  assumes "share_reach False s"
  shows "length (sd_threads s) \<le> 1
    \<and> (\<forall>(w, r)\<in>set (sd_results s). r = WaitFailed \<or> r = WaitGot \<and> sd_stored s)"
proof -
  note ok = share_reach_ok [OF assms]
  then have "length (sd_threads s) \<le> 1" by (auto simp: share_ok_def)
  moreover have "r = WaitFailed \<or> r = WaitGot \<and> sd_stored s" if "(w, r) \<in> set (sd_results s)" for w r
    using ok that by (cases r) (force simp: share_ok_def)+
  ultimately show ?thesis by blast
qed

text \<open>
  A cancellation reaches those who share: of two requests for a file the second is cancelled, and the
  first ends as cancelled too, though nobody cancelled it; its thread goes on, and the next request
  starts another beside it.
\<close>

theorem cancellation_spreads:
  "\<exists>s. share_reach True s \<and> sd_cancelled s = [2] \<and> (1, WaitCancelled) \<in> set (sd_results s) \<and> length (sd_threads s) = 2"
proof -
  obtain s where run: "share_run [Request 1, Request 2, Cancelled 2, GoesOn 2, GoesOn 1, Request 3] no_downloads = Some s"
    and s: "sd_cancelled s = [2]" "sd_results s = [(1, WaitCancelled), (2, WaitCancelled)]" "sd_threads s = [1, 0]"
    by (simp add: no_downloads_def known_request_def start_fetch_def wait_for_def end_request_def result_of_def)
  have "share_reach True s" using share_run_reach [OF share_start run] .
  with s show ?thesis by (intro exI [of _ s]) simp
qed

end
