(* ===== verification/ModelFiles.thy ===== *)
theory ModelFiles
  imports Scripts LogRing AgentState
begin

text \<open>
  Model files on an agent (\<open>src/agent/app/services/model_manager.py\<close>, \<open>npu_models.py\<close>, and the routes
  of \<open>src/agent/app/api/routes/models.py\<close>): where a file of a repository lies, downloads with their
  events, the pins of the small models and the set of files they need, the local files.
  \<^item> The disk maps a path to its size and digest; paths are strings in the form pathlib prints
    (no empty or \<open>.\<close> segments), symbolic links are left out. A directory that exists is an entry too.
  \<^item> The hub is an argument: the result of a fetch, and a function on the state for what it
    stored and what other tasks did meanwhile. Who shares a download is the subject of \<open>DownloadShare\<close>.
  \<^item> Of an event the fields that say what it is about are kept (the repository only where it starts),
    and the texts of errors are shortened.
\<close>

section \<open>Paths\<close>

definition is_absolute :: "string \<Rightarrow> bool" where
  "is_absolute p \<longleftrightarrow> (case p of [] \<Rightarrow> False | c # _ \<Rightarrow> c = CHR ''/'')"

text \<open>\<open>Path(a) / b\<close>.\<close>

definition join_path :: "string \<Rightarrow> string \<Rightarrow> string" where
  "join_path a b = (if is_absolute b then b else a @ CHR ''/'' # b)"

definition parts_of :: "string \<Rightarrow> string list" where
  "parts_of p = filter (\<lambda>w. w \<noteq> [] \<and> w \<noteq> ''.'') (split_on (CHR ''/'') p)"

text \<open>The segments of \<open>resolve()\<close>, for an absolute path.\<close>

definition climb :: "string \<Rightarrow> string list \<Rightarrow> string list" where
  "climb w st = (if w = ''..'' then butlast st else st @ [w])"

definition resolved :: "string \<Rightarrow> string list" where
  "resolved p = fold climb (parts_of p) []"

definition relative_to :: "string list \<Rightarrow> string list \<Rightarrow> bool" where
  "relative_to p d \<longleftrightarrow> take (length d) p = d"

text \<open>\<open>rsplit('/', 1)[-1]\<close>.\<close>

definition last_segment :: "string \<Rightarrow> string" where
  "last_segment p = rev (takeWhile (\<lambda>c. c \<noteq> CHR ''/'') (rev p))"

section \<open>State\<close>

datatype download_event =
    DownStarted string string string string
  | DownFailed string string string string
  | DownCompleted string string string string

record model_files =
  mf_disk :: "string \<Rightarrow> (int \<times> string) option"
  mf_flight :: "string list"
  mf_events :: "download_event list"

type_synonym 'a file_script = "(model_files, 'a) prog"

definition on_disk :: "string \<Rightarrow> model_files \<Rightarrow> bool" where
  "on_disk p m \<longleftrightarrow> mf_disk m p \<noteq> None"

definition file_event :: "download_event \<Rightarrow> model_files \<Rightarrow> model_files" where
  "file_event e m = m\<lparr>mf_events := mf_events m @ [e]\<rparr>"

text \<open>\<open>a or b\<close> on an optional text.\<close>

definition text_or :: "string option \<Rightarrow> string \<Rightarrow> string" where
  "text_or a b = (case a of None \<Rightarrow> b | Some s \<Rightarrow> if s = [] then b else s)"

section \<open>Split models\<close>

definition index_digit :: "char \<Rightarrow> bool" where
  "index_digit c \<longleftrightarrow> digit_of c \<noteq> None"

text \<open>The index matched by \<open>SPLIT_PART_RE\<close> in a file name that does not end in a line break, read from its end.\<close>

definition split_index :: "string \<Rightarrow> int option" where
  "split_index name =
     (let r = rev name; r1 = drop 5 r; r2 = dropWhile index_digit r1; r3 = drop 4 r2; idx = rev (takeWhile index_digit r3);
          r4 = dropWhile index_digit r3
      in if take 5 r = rev ''.gguf'' \<and> takeWhile index_digit r1 \<noteq> [] \<and> take 4 r2 = rev ''-of-'' \<and> idx \<noteq> []
            \<and> take 1 r4 = ''-'' \<and> drop 1 r4 \<noteq> [] \<and> \<not> list_ex (\<lambda>c. c = CHR 0x0A) (drop 1 r4)
         then int_of_string idx else None)"

text \<open>\<open>filenames[0]\<close> of an empty list raises.\<close>

definition pick_primary :: "string list \<Rightarrow> exn + string" where
  "pick_primary names =
     (case List.find (\<lambda>n. split_index (last_segment n) = Some 1) names of
        Some n \<Rightarrow> Inr n
      | None \<Rightarrow> (case names of [] \<Rightarrow> Inl (LookupError ''list index out of range'') | n # _ \<Rightarrow> Inr n))"

section \<open>Where a file lies\<close>

definition storage_path :: "string \<Rightarrow> string \<Rightarrow> string \<Rightarrow> exn + string" where
  "storage_path models repo fname =
     (if is_absolute repo \<or> ''..'' \<in> set (split_on (CHR ''/'') repo)
         \<or> is_absolute fname \<or> ''..'' \<in> set (split_on (CHR ''/'') fname)
      then Inl (ValueError ''Model filename must be relative to its repository'')
      else Inr (join_path (join_path models repo) fname))"

section \<open>Downloads\<close>

record hub_answer =
  hb_result :: "exn + string"
  hb_others :: "model_files \<Rightarrow> model_files"

definition await_hub :: "hub_answer \<Rightarrow> string file_script" where
  "await_hub h = and_then (change (hb_others h)) (\<lambda>_. lift_res (hb_result h))"

text \<open>\<open>except Exception\<close> with an event, and \<open>finally\<close>.\<close>

definition on_failure :: "(exn \<Rightarrow> model_files \<Rightarrow> model_files) \<Rightarrow> 'a file_script \<Rightarrow> 'a file_script" where
  "on_failure f p m = (case p m of
     (Inl e, m1) \<Rightarrow> (Inl e, if is_exception e then f e m1 else m1)
   | res \<Rightarrow> res)"

definition lastly :: "(model_files \<Rightarrow> model_files) \<Rightarrow> 'a file_script \<Rightarrow> 'a file_script" where
  "lastly f p m = (case p m of (r, m1) \<Rightarrow> (r, f m1))"

definition download_to_disk :: "(exn \<Rightarrow> string) \<Rightarrow> hub_answer \<Rightarrow> string \<Rightarrow> string \<Rightarrow> string option \<Rightarrow> string option
    \<Rightarrow> string file_script" where
  "download_to_disk str h repo fname job server =
     (let j = text_or job fname; s = text_or server [] in
      and_then (change (file_event (DownStarted j fname repo s))) (\<lambda>_.
      and_then (on_failure (\<lambda>e. file_event (DownFailed j fname s (str e))) (await_hub h)) (\<lambda>p.
      and_then (change (file_event (DownCompleted j fname s p))) (\<lambda>_.
      give p))))"

text \<open>A call of \<open>download_model\<close>: what its own task meets, or the task it finds in flight.\<close>

record download_call =
  dc_own :: hub_answer
  dc_shared :: hub_answer
  dc_str :: "exn \<Rightarrow> string"

definition flight_on :: "string \<Rightarrow> model_files \<Rightarrow> model_files" where
  "flight_on k m = m\<lparr>mf_flight := k # mf_flight m\<rparr>"

definition flight_off :: "string \<Rightarrow> model_files \<Rightarrow> model_files" where
  "flight_off k m = m\<lparr>mf_flight := removeAll k (mf_flight m)\<rparr>"

definition download_key :: "string \<Rightarrow> string \<Rightarrow> string" where
  "download_key repo fname = repo @ CHR ''/'' # fname"

definition download_model :: "string \<Rightarrow> download_call \<Rightarrow> string \<Rightarrow> string \<Rightarrow> string \<Rightarrow> string option \<Rightarrow> string option
    \<Rightarrow> string file_script" where
  "download_model models x repo fname source job server m =
     (if source \<noteq> ''huggingface''
      then and_then (change (file_event (DownFailed (text_or job fname) fname (text_or server []) (''Unsupported source: '' @ source))))
             (\<lambda>_. throw (OtherError ''NotImplementedError'')) m
      else case storage_path models repo fname of
        Inl e \<Rightarrow> throw e m
      | Inr p \<Rightarrow>
          if on_disk p m then give p m
          else if download_key repo fname \<in> set (mf_flight m) then await_hub (dc_shared x) m
          else lastly (flight_off (download_key repo fname))
                 (and_then (change (flight_on (download_key repo fname)))
                   (\<lambda>_. download_to_disk (dc_str x) (dc_own x) repo fname job server)) m)"

fun download_each :: "string \<Rightarrow> (string \<Rightarrow> download_call) \<Rightarrow> string \<Rightarrow> string list \<Rightarrow> string \<Rightarrow> string option \<Rightarrow> string option
    \<Rightarrow> (string \<times> string) list \<Rightarrow> (string \<times> string) list file_script" where
  "download_each models x repo [] source job server got = give got"
| "download_each models x repo (fname # rest) source job server got =
     and_then (download_model models (x fname) repo fname source job server)
       (\<lambda>p. download_each models x repo rest source job server (AList.update fname p got))"

definition download_model_parts :: "string \<Rightarrow> (string \<Rightarrow> download_call) \<Rightarrow> string \<Rightarrow> string list \<Rightarrow> string \<Rightarrow> string option
    \<Rightarrow> string option \<Rightarrow> string file_script" where
  "download_model_parts models x repo names source job server =
     (if names = [] then throw (ValueError ''No filenames provided for download'')
      else and_then (download_each models x repo names source job server []) (\<lambda>got.
        and_then (lift_res (pick_primary names)) (\<lambda>primary.
        case map_of got primary of None \<Rightarrow> throw (KeyError primary) | Some p \<Rightarrow> give p)))"

definition REPOSITORY_CHECKPOINT :: string where
  "REPOSITORY_CHECKPOINT = ''qwen3.8-27b-p1w4d-d2.hgn''"

definition repository_to_disk :: "string \<Rightarrow> (exn \<Rightarrow> string) \<Rightarrow> hub_answer \<Rightarrow> string \<Rightarrow> string option \<Rightarrow> string option
    \<Rightarrow> string file_script" where
  "repository_to_disk models str h repo job server =
     (let j = text_or job (''repo-'' @ repo); s = text_or server []; dir = join_path models repo in
      and_then (change (file_event (DownStarted j ''*'' repo s))) (\<lambda>_.
      and_then (on_failure (\<lambda>e. file_event (DownFailed j ''*'' s (str e))) (await_hub h)) (\<lambda>_.
      and_then (change (file_event (DownCompleted j ''*'' s dir))) (\<lambda>_.
      give dir))))"

definition download_repository :: "string \<Rightarrow> download_call \<Rightarrow> string \<Rightarrow> string option \<Rightarrow> string option \<Rightarrow> string file_script" where
  "download_repository models x repo job server m =
     (let dir = join_path models repo; key = ''repo:'' @ repo in
      if on_disk (join_path dir REPOSITORY_CHECKPOINT) m \<and> on_disk (join_path dir ''tokenizer'') m then give dir m
      else if key \<in> set (mf_flight m) then await_hub (dc_shared x) m
      else lastly (flight_off key)
             (and_then (change (flight_on key)) (\<lambda>_. repository_to_disk models (dc_str x) (dc_own x) repo job server)) m)"


section \<open>Pins of the small models\<close>

record npu_pin =
  np_id :: string
  np_repo :: "string option"
  np_revision :: "string option"
  np_devices_of :: string
  np_files :: "(string \<times> int \<times> string) list"

definition new_pin :: "string \<Rightarrow> npu_pin" where
  "new_pin mid = \<lparr>np_id = mid, np_repo = None, np_revision = None, np_devices_of = mid, np_files = []\<rparr>"

definition in_devices :: "string \<times> int \<times> string \<Rightarrow> bool" where
  "in_devices f \<longleftrightarrow> take 8 (fst f) = ''devices/''"

definition devices_files :: "npu_pin \<Rightarrow> (string \<times> int \<times> string) list" where
  "devices_files r = filter in_devices (np_files r)"

text \<open>\<open>split()\<close> and \<open>split('=', 1)\<close>; the fuel of \<open>words_of\<close> is the length of the text.\<close>

fun words_upto :: "nat \<Rightarrow> string \<Rightarrow> string list" where
  "words_upto 0 s = []"
| "words_upto (Suc n) s =
     (let t = dropWhile is_space s in
      if t = [] then [] else takeWhile (\<lambda>c. \<not> is_space c) t # words_upto n (dropWhile (\<lambda>c. \<not> is_space c) t))"

definition words_of :: "string \<Rightarrow> string list" where
  "words_of s = words_upto (length s) s"

definition key_value :: "string \<Rightarrow> (string \<times> string) option" where
  "key_value tok = (if CHR ''='' \<in> set tok
     then Some (takeWhile (\<lambda>c. c \<noteq> CHR ''='') tok, drop 1 (dropWhile (\<lambda>c. c \<noteq> CHR ''='') tok)) else None)"

definition set_field :: "string \<Rightarrow> npu_pin \<Rightarrow> npu_pin" where
  "set_field tok r = (case key_value tok of
     None \<Rightarrow> r
   | Some (k, v) \<Rightarrow>
       if k = ''repo'' then r\<lparr>np_repo := Some v\<rparr>
       else if k = ''revision'' then r\<lparr>np_revision := Some v\<rparr>
       else if k = ''devices'' then r\<lparr>np_devices_of := v\<rparr> else r)"

text \<open>\<open>records.setdefault(mid, NpuPinRecord(mid))\<close>, changed in place.\<close>

definition change_pin :: "string \<Rightarrow> (npu_pin \<Rightarrow> npu_pin) \<Rightarrow> (string \<times> npu_pin) list \<Rightarrow> (string \<times> npu_pin) list" where
  "change_pin mid f rs = AList.update mid (f (case map_of rs mid of None \<Rightarrow> new_pin mid | Some r \<Rightarrow> r)) rs"

definition parse_pin_line :: "string \<Rightarrow> (string \<times> npu_pin) list \<Rightarrow> (string \<times> npu_pin) list" where
  "parse_pin_line raw rs = (case words_of (strip raw) of
     kind # mid # rest \<Rightarrow>
       if kind = ''model'' then change_pin mid (fold set_field rest) rs
       else if kind = ''file'' then
         (case rest of
            path # sz # sha # _ \<Rightarrow>
              (case int_of_string sz of
                 None \<Rightarrow> rs
               | Some n \<Rightarrow> change_pin mid (\<lambda>r. r\<lparr>np_files := np_files r @ [(path, n, sha)]\<rparr>) rs)
          | _ \<Rightarrow> rs)
       else rs
   | _ \<Rightarrow> rs)"

definition parse_npu_pins :: "string \<Rightarrow> (string \<times> npu_pin) list" where
  "parse_npu_pins txt = fold parse_pin_line (splitlines txt) []"

text \<open>
  A plan has, for every directory, the repository and revision first added and its files; an added
  file whose path the directory has already is dropped.
\<close>

record npu_dir =
  nd_repo :: "string option"
  nd_revision :: "string option"
  nd_files :: "(string \<times> int \<times> string) list"

type_synonym npu_plan = "(string \<times> npu_dir) list"

definition add_file :: "string \<times> int \<times> string \<Rightarrow> npu_dir \<Rightarrow> npu_dir" where
  "add_file f d = (if fst f \<in> fst ` set (nd_files d) then d else d\<lparr>nd_files := nd_files d @ [f]\<rparr>)"

definition plan_add :: "npu_pin \<Rightarrow> (string \<times> int \<times> string) list \<Rightarrow> npu_plan \<Rightarrow> npu_plan" where
  "plan_add r files plan =
     AList.update (np_id r)
       (fold add_file files (case map_of plan (np_id r) of
          None \<Rightarrow> \<lparr>nd_repo = np_repo r, nd_revision = np_revision r, nd_files = []\<rparr> | Some d \<Rightarrow> d)) plan"

definition pin_text :: "string \<Rightarrow> string" where
  "pin_text uid = ''no NPU pin record for '' @ uid"

definition plan_model :: "(string \<times> npu_pin) list \<Rightarrow> string \<Rightarrow> npu_plan \<Rightarrow> exn + npu_plan" where
  "plan_model rs uid plan =
     (case map_of rs uid of
        None \<Rightarrow> Inl (ValueError (pin_text uid))
      | Some r \<Rightarrow>
          if text_or (np_repo r) [] = [] then Inl (ValueError (''NPU pin record names no download repo: '' @ uid))
          else (let plan1 = plan_add r (np_files r) plan; owner = np_devices_of r in
            if owner = uid then Inr plan1
            else (case map_of rs owner of
                None \<Rightarrow> Inl (ValueError (''no NPU pin record for devices owner '' @ owner))
              | Some r2 \<Rightarrow>
                  if text_or (np_repo r2) [] = [] then Inl (ValueError (''NPU pin record names no download repo: '' @ owner))
                  else Inr (plan_add r2 (devices_files r2) plan1))))"

fun plan_models :: "(string \<times> npu_pin) list \<Rightarrow> string list \<Rightarrow> npu_plan \<Rightarrow> exn + npu_plan" where
  "plan_models rs [] plan = Inr plan"
| "plan_models rs (uid # uids) plan =
     (case plan_model rs uid plan of Inl e \<Rightarrow> Inl e | Inr plan1 \<Rightarrow> plan_models rs uids plan1)"

definition resolve_npu_download_set :: "(string \<times> npu_pin) list \<Rightarrow> string list \<Rightarrow> exn + npu_plan" where
  "resolve_npu_download_set rs uids = plan_models rs uids []"

section \<open>Files of a small model\<close>

definition matches_pin :: "string \<Rightarrow> int \<Rightarrow> string \<Rightarrow> model_files \<Rightarrow> bool" where
  "matches_pin p sz sha m = (case mf_disk m p of None \<Rightarrow> False | Some (n, d) \<Rightarrow> n = sz \<and> (sha = [] \<or> d = sha))"

definition unlink_file :: "string \<Rightarrow> model_files \<Rightarrow> model_files" where
  "unlink_file p m = m\<lparr>mf_disk := (mf_disk m)(p := None)\<rparr>"

definition show_path :: "string list \<Rightarrow> string" where
  "show_path ws = CHR ''/'' # join_with (CHR ''/'') ws"

definition download_npu_file :: "(exn \<Rightarrow> string) \<Rightarrow> hub_answer \<Rightarrow> string \<Rightarrow> string \<Rightarrow> string \<Rightarrow> string \<Rightarrow> string option
    \<Rightarrow> unit file_script" where
  "download_npu_file str h repo fname target job server =
     (let s = text_or server [] in
      and_then (change (file_event (DownStarted job fname repo s))) (\<lambda>_.
      and_then (on_failure (\<lambda>e. file_event (DownFailed job fname s (str e))) (await_hub h)) (\<lambda>_.
      change (file_event (DownCompleted job fname s target)))))"

text \<open>One file of a directory \<open>d\<close>; nothing is fetched for a path that leaves it.\<close>

definition npu_file :: "(exn \<Rightarrow> string) \<Rightarrow> (string \<Rightarrow> hub_answer) \<Rightarrow> string \<Rightarrow> string list \<Rightarrow> string \<Rightarrow> string option
    \<Rightarrow> string \<times> int \<times> string \<Rightarrow> unit file_script" where
  "npu_file str hub repo d job server f m =
     (case f of (fname, sz, sha) \<Rightarrow>
        (let ws = resolved (join_path (show_path d) fname); target = show_path ws in
         if \<not> relative_to ws d then throw (ValueError (''NPU file path escapes '' @ show_path d @ '': '' @ fname)) m
         else if on_disk target m \<and> matches_pin target sz sha m then give () m
         else and_then (change (if on_disk target m then unlink_file target else id))
                (\<lambda>_. download_npu_file str (hub fname) repo fname target job server) m))"

text \<open>\<open>locked\<close> is what others did while the lock of the directory was awaited.\<close>

definition download_npu_files :: "string \<Rightarrow> (exn \<Rightarrow> string) \<Rightarrow> (model_files \<Rightarrow> model_files) \<Rightarrow> (string \<Rightarrow> hub_answer) \<Rightarrow> string
    \<Rightarrow> (string \<times> int \<times> string) list \<Rightarrow> string \<Rightarrow> string option \<Rightarrow> string option \<Rightarrow> string file_script" where
  "download_npu_files models str locked hub dir files repo job server =
     (let d = resolved (join_path (join_path models ''npu'') dir) in
      if files = [] then throw (ValueError (''no files to download for NPU model '' @ dir))
      else and_then (change locked) (\<lambda>_.
           and_then (deliver_all (npu_file str hub repo d (text_or job (''npu-'' @ dir)) server) files) (\<lambda>_.
           give (show_path d))))"

section \<open>Local files\<close>

definition model_exists :: "string \<Rightarrow> string \<Rightarrow> model_files \<Rightarrow> bool" where
  "model_exists models fname m = on_disk (join_path models fname) m"

definition delete_model :: "string \<Rightarrow> string \<Rightarrow> model_files \<Rightarrow> bool \<times> model_files" where
  "delete_model models fname m =
     (if model_exists models fname m then (True, unlink_file (join_path models fname) m) else (False, m))"

definition is_downloading :: "string \<Rightarrow> model_files \<Rightarrow> bool" where
  "is_downloading k m \<longleftrightarrow> k \<in> set (mf_flight m)"

section \<open>Routes\<close>

datatype download_status = AlreadyExists string | InProgress string | Completed string

datatype file_status = Available string int | Downloading | Missing

definition download_route :: "string \<Rightarrow> download_call \<Rightarrow> string \<Rightarrow> string \<Rightarrow> string \<Rightarrow> string option \<Rightarrow> download_status file_script" where
  "download_route models x repo fname source job m =
     (case storage_path models repo fname of
        Inl e \<Rightarrow> throw e m
      | Inr p \<Rightarrow>
          if on_disk p m then give (AlreadyExists p) m
          else if is_downloading (download_key repo fname) m then give (InProgress p) m
          else (case download_model models x repo fname source job None m of
              (Inr q, m1) \<Rightarrow> give (Completed q) m1
            | (Inl e, m1) \<Rightarrow> throw (if is_exception e then HttpStatus 500 (''Download failed: '' @ dc_str x e) else e) m1))"

definition status_route :: "string \<Rightarrow> string \<Rightarrow> model_files \<Rightarrow> file_status" where
  "status_route models fname m =
     (case mf_disk m (join_path models fname) of
        Some (n, _) \<Rightarrow> Available (join_path models fname) n
      | None \<Rightarrow> if is_downloading fname m then Downloading else Missing)"

definition delete_route :: "string \<Rightarrow> string \<Rightarrow> unit file_script" where
  "delete_route models fname m =
     (case delete_model models fname m of
        (True, m1) \<Rightarrow> give () m1
      | (False, m1) \<Rightarrow> throw (HttpStatus 404 ''Model not found'') m1)"

end
