(* ===== verification/HalogenServers.thy ===== *)
theory HalogenServers
  imports LlamaManager Scripts
begin

text \<open>
  The process managers of the Halogen engines (\<open>HalogenServerManager\<close> and its subclass
  \<open>HalogenFlashServerManager\<close>, \<open>src/agent/app/services/halogen_server.py\<close> and
  \<open>halogen_flash_server.py\<close>): the environment a process is started with, starting under slot
  generations and an instance limit, the health monitor, stopping, logs and views.
  \<^item> The two managers differ in a label, the repository, the table of options, and what a start
    marks before it waits: the fields of \<open>halogen_kind\<close>.
  \<^item> An await is a function on the state for what other tasks did, or an answer; that
    \<open>stop_server_operations\<close> was called is recorded. Processes are numbers.
\<close>

section \<open>State\<close>

record halogen_config =
  hc_model_path :: string
  hc_port :: int
  hc_api_port :: int
  hc_engine_port :: int
  hc_options :: "(string \<times> opt_value) list"
  hc_npu_models :: "string list"
  hc_generation :: int

datatype halogen_event =
    HvStarted uuid string int int int
  | HvStopped uuid int
  | HvError uuid string int
  | HvHealth uuid string "string option" int
  | HvLog uuid int string

record halogen_manager =
  hm_servers :: "(uuid \<times> nat) list"
  hm_configs :: "(uuid \<times> halogen_config) list"
  hm_generations :: "uuid \<Rightarrow> int option"
  hm_healthy :: "uuid set"
  hm_health :: "uuid \<Rightarrow> string option"
  hm_failures :: "uuid \<Rightarrow> nat option"
  hm_start_times :: "uuid \<Rightarrow> time option"
  hm_logs :: "uuid \<Rightarrow> log_ring option"
  hm_forwarding :: bool
  hm_readers :: "uuid set"
  hm_active :: "uuid \<Rightarrow> int option"
  hm_connections :: "uuid \<Rightarrow> int option"
  hm_fenced :: "uuid list"
  hm_events :: "halogen_event list"

type_synonym 'a halogen_script = "(halogen_manager, 'a) prog"

definition halogen_process :: "uuid \<Rightarrow> halogen_manager \<Rightarrow> nat option" where
  "halogen_process sid m = map_of (hm_servers m) sid"

definition halogen_config_of :: "uuid \<Rightarrow> halogen_manager \<Rightarrow> halogen_config option" where
  "halogen_config_of sid m = map_of (hm_configs m) sid"

definition halogen_publish :: "halogen_event \<Rightarrow> halogen_manager \<Rightarrow> halogen_manager" where
  "halogen_publish e m = m\<lparr>hm_events := hm_events m @ [e]\<rparr>"

text \<open>\<open>configs[server_id]\<close>.\<close>

definition require_config :: "uuid \<Rightarrow> halogen_config halogen_script" where
  "require_config sid m = (case halogen_config_of sid m of None \<Rightarrow> throw (KeyError (show_nat sid)) m | Some c \<Rightarrow> give c m)"

definition fence_operations :: "uuid \<Rightarrow> (halogen_manager \<Rightarrow> halogen_manager) \<Rightarrow> unit halogen_script" where
  "fence_operations sid others = change (\<lambda>m. others (m\<lparr>hm_fenced := hm_fenced m @ [sid]\<rparr>))"

section \<open>The environment of a process\<close>

record halogen_kind =
  hk_label :: string
  hk_checkpoint :: string
  hk_tokenizer :: string
  hk_options :: "(string \<times> string) list"
  hk_flash :: bool

definition HALOGEN_OPTIONS :: "(string \<times> string) list" where
  "HALOGEN_OPTIONS = [
     (''drafter'', ''HALOGEN_DRAFTER''), (''cache_align'', ''HALOGEN_CACHE_ALIGN''), (''kv_slots'', ''HALOGEN_KV_SLOTS''),
     (''slot_ctx'', ''HALOGEN_SLOT_CTX''), (''cache_mb'', ''HALOGEN_CACHE_MB''),
     (''cache_reserve_mb'', ''HALOGEN_CACHE_RESERVE_MB''), (''max_tokens_cap'', ''HALOGEN_MAX_TOKENS_CAP''),
     (''queue_timeout'', ''HALOGEN_QUEUE_TIMEOUT''), (''w4a4'', ''HALOGEN_W4A4''), (''w4a4_excl'', ''HALOGEN_W4A4_EXCL''),
     (''keepalive_timeout'', ''HALOGEN_KEEPALIVE_TIMEOUT''), (''sse_keepalive_s'', ''HALOGEN_SSE_KEEPALIVE_S'')]"

definition FLASH_OPTIONS :: "(string \<times> string) list" where
  "FLASH_OPTIONS = [
     (''kv_slots'', ''HALOGEN_KV_SLOTS''), (''kv_pool_positions'', ''HALOGEN_KV_POOL_POSITIONS''),
     (''kv_pool_fit'', ''HALOGEN_KV_POOL_FIT''), (''host_reserve_gib'', ''HALOGEN_HOST_RESERVE_GIB''), (''ctx'', ''HALOGEN_CTX''),
     (''max_tok'', ''HALOGEN_MAX_TOK''), (''rope_yarn'', ''HALOGEN_ROPE_YARN''), (''admit_chunk'', ''HALOGEN_ADMIT_CHUNK''),
     (''indexer_budget'', ''HALOGEN_INDEXER_BUDGET''), (''max_tokens_cap'', ''HALOGEN_MAX_TOKENS_CAP''),
     (''max_tokens_default'', ''HALOGEN_MAX_TOKENS_DEFAULT''), (''queue_timeout'', ''HALOGEN_QUEUE_TIMEOUT''),
     (''keepalive_timeout'', ''HALOGEN_KEEPALIVE_TIMEOUT''), (''sse_keepalive_s'', ''HALOGEN_SSE_KEEPALIVE_S''),
     (''temperature'', ''HALOGEN_TEMPERATURE''), (''top_p'', ''HALOGEN_TOP_P''), (''top_k'', ''HALOGEN_TOP_K''),
     (''min_p'', ''HALOGEN_MIN_P''), (''presence_penalty'', ''HALOGEN_PRESENCE_PENALTY''),
     (''frequency_penalty'', ''HALOGEN_FREQUENCY_PENALTY''), (''reasoning_effort'', ''HALOGEN_REASONING_EFFORT''),
     (''enable_thinking'', ''HALOGEN_ENABLE_THINKING''), (''max_thinking_tokens'', ''HALOGEN_MAX_THINKING_TOKENS''),
     (''thinking_answer_room'', ''HALOGEN_THINKING_ANSWER_ROOM''), (''drafter_default'', ''HALOGEN_DRAFTER_DEFAULT''),
     (''mtp_depth'', ''HALOGEN_MTP_DEPTH''), (''pld'', ''HALOGEN_PLD''), (''spec_adapt'', ''HALOGEN_SPEC_ADAPT''),
     (''prompt_cache'', ''HALOGEN_PROMPT_CACHE''), (''cache_inplace'', ''HALOGEN_CACHE_INPLACE''),
     (''prefill_chunk'', ''HALOGEN_PREFILL_CHUNK''), (''cache_entries'', ''HALOGEN_CACHE_ENTRIES''),
     (''cache_branches'', ''HALOGEN_CACHE_BRANCHES''), (''cache_snap3'', ''HALOGEN_CACHE_SNAP3''),
     (''cache_full'', ''HALOGEN_CACHE_FULL''), (''cache_disk_gib'', ''HALOGEN_CACHE_DISK_GIB''),
     (''cache_prune_old'', ''HALOGEN_CACHE_PRUNE_OLD''), (''composable_context'', ''HALOGEN_COMPOSABLE_CONTEXT''),
     (''composable_context_floor'', ''HALOGEN_COMPOSABLE_CONTEXT_FLOOR''),
     (''composable_context_bytes'', ''HALOGEN_COMPOSABLE_CONTEXT_BYTES''), (''grammar'', ''HALOGEN_GRAMMAR''),
     (''vision_tower'', ''HALOGEN_VISION_TOWER''), (''vision_max_pixels'', ''HALOGEN_VISION_MAX_PIXELS'')]"

definition halogen :: halogen_kind where
  "halogen = \<lparr>hk_label = ''halogen'', hk_checkpoint = ''/models/peonist-ai/halogen-qwen3.8-27b/qwen3.8-27b-p1w4d-d2.hgn'',
     hk_tokenizer = ''/models/peonist-ai/halogen-qwen3.8-27b/tokenizer'', hk_options = HALOGEN_OPTIONS, hk_flash = False\<rparr>"

definition halogen_flash :: halogen_kind where
  "halogen_flash = \<lparr>hk_label = ''halogen-flash'',
     hk_checkpoint = ''/models/peonist-ai/halogen-qwen3.8-flash-next/qwen38-flash-next-w4b.hgn'',
     hk_tokenizer = ''/models/peonist-ai/halogen-qwen3.8-flash-next/tokenizer'', hk_options = FLASH_OPTIONS, hk_flash = True\<rparr>"

type_synonym environment = "(string \<times> string) list"

definition clean_environment :: "environment \<Rightarrow> environment" where
  "clean_environment base =
     (let env = AList.delete ''VIRTUAL_ENV'' base;
          path = (case map_of env ''PATH'' of None \<Rightarrow> [] | Some p \<Rightarrow> p)
      in AList.update ''PATH'' (join_with (CHR '':'') (filter (\<lambda>p. p \<noteq> ''/agent/.venv/bin'') (split_on (CHR '':'') path))) env)"

definition engine_entries :: "halogen_kind \<Rightarrow> halogen_config \<Rightarrow> environment" where
  "engine_entries k c =
     [(''HALOGEN_API_PORT'', show_int (hc_api_port c)), (''HALOGEN_PORT'', show_int (hc_engine_port c)),
      (''HALOGEN_BIND'', ''127.0.0.1''), (''HALOGEN_ENGINE'', ''127.0.0.1:'' @ show_int (hc_engine_port c)),
      (''HALOGEN_CHECKPOINT'', hk_checkpoint k), (''HALOGEN_TOKENIZER'', hk_tokenizer k)]"

definition option_entries :: "halogen_kind \<Rightarrow> (string \<times> opt_value) list \<Rightarrow> environment" where
  "option_entries k options = List.map_filter (\<lambda>(key, variable).
     case map_of options key of
       None \<Rightarrow> None
     | Some v \<Rightarrow> if v = OptNone then None else Some (variable, opt_str v)) (hk_options k)"

text \<open>What the flash engine has besides: its cache directory and its small models.\<close>

definition flash_cache :: "halogen_kind \<Rightarrow> string \<Rightarrow> halogen_config \<Rightarrow> environment" where
  "flash_cache k dir c =
     (if hk_flash k \<and> opt_truthy (hc_options c) ''cache_dir_enabled'' then [(''HALOGEN_CACHE_DIR'', dir)] else [])"

definition flash_models :: "halogen_kind \<Rightarrow> halogen_config \<Rightarrow> environment" where
  "flash_models k c =
     (if hk_flash k \<and> hc_npu_models c \<noteq> [] then [(''HALOGEN_NPU_MODELS'', join_with (CHR '','') (hc_npu_models c))] else [])"

definition halogen_environment :: "halogen_kind \<Rightarrow> string \<Rightarrow> environment \<Rightarrow> halogen_config \<Rightarrow> environment" where
  "halogen_environment k dir base c =
     fold (\<lambda>(v, t). AList.update v t)
       (engine_entries k c @ flash_cache k dir c @ option_entries k (hc_options c) @ flash_models k c) (clean_environment base)"

section \<open>Capacity\<close>

definition slots_option :: "(string \<times> opt_value) list \<Rightarrow> opt_value" where
  "slots_option options = (case map_of options ''kv_slots'' of None \<Rightarrow> OptInt 1 | Some v \<Rightarrow> v)"

definition halogen_capacity :: "halogen_config \<Rightarrow> int" where
  "halogen_capacity c = (case opt_int (slots_option (hc_options c)) of None \<Rightarrow> 1 | Some n \<Rightarrow> max n 1)"

section \<open>Health\<close>

definition HALOGEN_FAILURE_THRESHOLD :: nat where
  "HALOGEN_FAILURE_THRESHOLD = 3"

definition STARTUP_HEALTH_GRACE :: time where
  "STARTUP_HEALTH_GRACE = seconds 900"

definition remove_halogen :: "uuid \<Rightarrow> halogen_manager \<Rightarrow> halogen_manager" where
  "remove_halogen sid m = m\<lparr>hm_servers := AList.delete sid (hm_servers m), hm_configs := AList.delete sid (hm_configs m),
     hm_readers := hm_readers m - {sid}, hm_healthy := hm_healthy m - {sid}, hm_health := (hm_health m)(sid := None),
     hm_failures := (hm_failures m)(sid := None), hm_start_times := (hm_start_times m)(sid := None)\<rparr>"

definition in_grace :: "uuid \<Rightarrow> time \<Rightarrow> halogen_manager \<Rightarrow> bool" where
  "in_grace sid now m = (case hm_start_times m sid of None \<Rightarrow> False | Some t \<Rightarrow> now - t < STARTUP_HEALTH_GRACE)"

definition shown_health :: "uuid \<Rightarrow> halogen_manager \<Rightarrow> string" where
  "shown_health sid m = (case hm_health m sid of None \<Rightarrow> ''unknown'' | Some s \<Rightarrow> s)"

text \<open>The new status, and its event when it differs from the one before.\<close>

definition set_health :: "uuid \<Rightarrow> halogen_config \<Rightarrow> bool \<Rightarrow> string option \<Rightarrow> halogen_manager \<Rightarrow> halogen_manager" where
  "set_health sid c healthy err m =
     (let status = (if healthy then ''healthy'' else ''unhealthy'');
          m1 = m\<lparr>hm_health := (hm_health m)(sid \<mapsto> status),
                 hm_healthy := (if healthy then insert sid (hm_healthy m) else hm_healthy m - {sid})\<rparr>
      in if status = shown_health sid m then m1 else halogen_publish (HvHealth sid status err (hc_generation c)) m1)"

definition record_halogen_health :: "uuid \<Rightarrow> halogen_config \<Rightarrow> bool \<Rightarrow> string option \<Rightarrow> time \<Rightarrow> halogen_manager \<Rightarrow> halogen_manager" where
  "record_halogen_health sid c healthy err now m =
     (if healthy then set_health sid c True err (m\<lparr>hm_failures := (hm_failures m)(sid \<mapsto> 0)\<rparr>)
      else if in_grace sid now m then m
      else (let n = (case hm_failures m sid of None \<Rightarrow> 0 | Some n \<Rightarrow> n) + 1;
                m1 = m\<lparr>hm_failures := (hm_failures m)(sid \<mapsto> n)\<rparr>
            in if n < HALOGEN_FAILURE_THRESHOLD then m1 else set_health sid c False err m1))"

text \<open>\<open>_monitor\<close>: the exit code of the process, or the answer of its health endpoint.\<close>

definition monitor_halogen :: "halogen_kind \<Rightarrow> uuid \<Rightarrow> int option \<Rightarrow> bool \<times> string option
    \<Rightarrow> (halogen_manager \<Rightarrow> halogen_manager) \<Rightarrow> time \<Rightarrow> halogen_manager \<Rightarrow> halogen_manager" where
  "monitor_halogen k sid exit_code answer others now m =
     (case (halogen_process sid m, halogen_config_of sid m) of
        (Some proc, Some c) \<Rightarrow>
          (case exit_code of
             Some code \<Rightarrow>
               halogen_publish (HvError sid (hk_label k @ '' exited with code '' @ show_int code) (hc_generation c))
                 (remove_halogen sid (others (m\<lparr>hm_fenced := hm_fenced m @ [sid]\<rparr>)))
           | None \<Rightarrow> (let m1 = others m in
               if halogen_process sid m1 \<noteq> Some proc \<or> halogen_config_of sid m1 \<noteq> Some c then m1
               else record_halogen_health sid c (fst answer) (snd answer) now m1))
      | _ \<Rightarrow> m)"

section \<open>Logs\<close>

definition halogen_ring :: "uuid \<Rightarrow> halogen_manager \<Rightarrow> log_ring" where
  "halogen_ring sid m = (case hm_logs m sid of None \<Rightarrow> new_ring LOG_BUFFER_LINES | Some r \<Rightarrow> r)"

text \<open>One line read from the process.\<close>

definition read_log_line :: "uuid \<Rightarrow> string \<Rightarrow> halogen_manager \<Rightarrow> halogen_manager" where
  "read_log_line sid line m =
     (let (e, r) = ring_append ''stdout'' line (halogen_ring sid m)
      in halogen_publish (HvLog sid (le_seq e) line) (m\<lparr>hm_logs := (hm_logs m)(sid \<mapsto> r)\<rparr>))"

definition start_log_reader :: "uuid \<Rightarrow> halogen_manager \<Rightarrow> halogen_manager" where
  "start_log_reader sid m =
     (if hm_forwarding m \<and> halogen_process sid m \<noteq> None then m\<lparr>hm_readers := insert sid (hm_readers m)\<rparr> else m)"

definition start_log_forwarding :: "halogen_manager \<Rightarrow> halogen_manager" where
  "start_log_forwarding m = fold (\<lambda>(sid, _). start_log_reader sid) (hm_servers m) (m\<lparr>hm_forwarding := True\<rparr>)"

definition delete_halogen :: "uuid \<Rightarrow> halogen_manager \<Rightarrow> halogen_manager" where
  "delete_halogen sid m = m\<lparr>hm_logs := (hm_logs m)(sid := None)\<rparr>"

text \<open>\<open>get_server_logs\<close>: an unknown ring reads as empty, else as that of llama-server with its own limits.\<close>

definition halogen_status_text :: "uuid \<Rightarrow> halogen_manager \<Rightarrow> string" where
  "halogen_status_text sid m = (if halogen_process sid m \<noteq> None then ''running'' else ''stopped'')"

definition halogen_log_reply :: "uuid \<Rightarrow> halogen_manager \<Rightarrow> log_entry list \<Rightarrow> int \<Rightarrow> bool \<Rightarrow> log_reply" where
  "halogen_log_reply sid m es nxt gap = \<lparr>lr_status = halogen_status_text sid m, lr_stdout = lines_of ''stdout'' es,
     lr_stderr = lines_of ''stderr'' es, lr_entries = es, lr_next = nxt, lr_gap = gap\<rparr>"

definition halogen_logs :: "uuid \<Rightarrow> int \<Rightarrow> int option \<Rightarrow> halogen_manager \<Rightarrow> log_reply" where
  "halogen_logs sid lines after m =
     (case hm_logs m sid of
        None \<Rightarrow> halogen_log_reply sid m [] 0 False
      | Some r \<Rightarrow>
          (case after of
             Some c \<Rightarrow> (let (es, nxt, gap) = poll_reply r c in halogen_log_reply sid m es nxt gap)
           | None \<Rightarrow> halogen_log_reply sid m (ring_tail lines r) (last_cursor r) False))"

section \<open>Stopping\<close>

text \<open>
  The await for the operations and the wait for the process, then the state goes, whichever process
  the table holds by then.
\<close>

definition stop_halogen :: "uuid \<Rightarrow> int option \<Rightarrow> (halogen_manager \<Rightarrow> halogen_manager)
    \<Rightarrow> (halogen_manager \<Rightarrow> halogen_manager) \<Rightarrow> bool halogen_script" where
  "stop_halogen sid gen fencing waiting m =
     (if halogen_process sid m = None then give False m
      else and_then (require_config sid) (\<lambda>c.
        if gen \<noteq> None \<and> gen \<noteq> Some (hc_generation c) then give False
        else and_then (fence_operations sid fencing) (\<lambda>_.
             and_then (change (\<lambda>m. halogen_publish (HvStopped sid (hc_generation c)) (remove_halogen sid (waiting m)))) (\<lambda>_.
             give True))) m)"

section \<open>Starting\<close>

text \<open>
  A round of the wait: the exit code found first, then what others did while the endpoint answered,
  and its answer; a start that is cancelled has CancelledError there.
\<close>

record halogen_round =
  hr_exit :: "int option"
  hr_others :: "halogen_manager \<Rightarrow> halogen_manager"
  hr_check :: "exn + bool"

record halogen_start =
  hs_limit :: nat
  hs_dir :: string
  hs_base :: environment
  hs_fencing :: "halogen_manager \<Rightarrow> halogen_manager"
  hs_waiting :: "halogen_manager \<Rightarrow> halogen_manager"
  hs_download :: answer
  hs_downloading :: "halogen_manager \<Rightarrow> halogen_manager"
  hs_spawn :: "environment \<Rightarrow> exn + nat"
  hs_rounds :: "halogen_round list"
  hs_abort_fencing :: "halogen_manager \<Rightarrow> halogen_manager"
  hs_abort_waiting :: "halogen_manager \<Rightarrow> halogen_manager"
  hs_now :: time

definition exit_text :: "int option \<Rightarrow> string" where
  "exit_text code = ''Halogen exited before becoming healthy (exit_code='' @
     (case code of None \<Rightarrow> ''None'' | Some n \<Rightarrow> show_int n) @ '')''"

fun wait_for_health :: "uuid \<Rightarrow> halogen_round list \<Rightarrow> unit halogen_script" where
  "wait_for_health sid [] m = throw (TimeoutError ''Halogen failed to become healthy'') m"
| "wait_for_health sid (w # ws) m =
     (if halogen_process sid m = None then throw (RuntimeError (exit_text None)) m
      else if hr_exit w \<noteq> None then throw (RuntimeError (exit_text (hr_exit w))) m
      else (case hr_check w of
          Inl e \<Rightarrow> throw e (hr_others w m)
        | Inr healthy \<Rightarrow> if healthy then give () (hr_others w m) else wait_for_health sid ws (hr_others w m)))"

text \<open>The generations: a start that may go on has stopped an older process.\<close>

definition admit_halogen :: "halogen_start \<Rightarrow> uuid \<Rightarrow> halogen_config \<Rightarrow> bool halogen_script" where
  "admit_halogen x sid c m =
     (let latest = (case hm_generations m sid of None \<Rightarrow> -1 | Some g \<Rightarrow> g) in
      if halogen_process sid m = None then give (\<not> fenced_generation latest (hc_generation c)) m
      else and_then (require_config sid) (\<lambda>d.
        if hc_generation c \<le> hc_generation d then give False
        else and_then (stop_halogen sid (Some (hc_generation d)) (hs_fencing x) (hs_waiting x)) (\<lambda>_. give True)) m)"

definition limit_text :: "halogen_kind \<Rightarrow> string" where
  "limit_text k = (if hk_flash k then ''Halogen Flash instance limit reached'' else ''Halogen instance limit reached'')"

definition check_limit :: "halogen_kind \<Rightarrow> nat \<Rightarrow> unit halogen_script" where
  "check_limit k limit m = (if limit \<le> length (hm_servers m) then throw (RuntimeError (limit_text k)) m else give () m)"

definition install_halogen :: "halogen_kind \<Rightarrow> uuid \<Rightarrow> halogen_config \<Rightarrow> nat \<Rightarrow> time \<Rightarrow> halogen_manager \<Rightarrow> halogen_manager" where
  "install_halogen k sid c proc now m =
     (let m1 = m\<lparr>hm_servers := AList.update sid proc (hm_servers m), hm_configs := AList.update sid c (hm_configs m),
                 hm_generations := (hm_generations m)(sid \<mapsto> hc_generation c), hm_start_times := (hm_start_times m)(sid \<mapsto> now)\<rparr>;
          m2 = (if hk_flash k then m1\<lparr>hm_failures := (hm_failures m1)(sid \<mapsto> 0), hm_health := (hm_health m1)(sid \<mapsto> ''starting''),
                                     hm_healthy := hm_healthy m1 - {sid}\<rparr> else m1)
      in start_log_reader sid m2)"

definition wait_or_stop :: "halogen_start \<Rightarrow> uuid \<Rightarrow> unit halogen_script" where
  "wait_or_stop x sid m =
     (case wait_for_health sid (hs_rounds x) m of
        (Inl e, m1) \<Rightarrow>
          if is_exception e then and_then (stop_halogen sid None (hs_abort_fencing x) (hs_abort_waiting x)) (\<lambda>_. throw e) m1
          else (Inl e, m1)
      | res \<Rightarrow> res)"

definition announce_halogen :: "uuid \<Rightarrow> halogen_config \<Rightarrow> bool halogen_script" where
  "announce_halogen sid c =
     and_then (change (\<lambda>m. m\<lparr>hm_healthy := insert sid (hm_healthy m), hm_health := (hm_health m)(sid \<mapsto> ''healthy'')\<rparr>)) (\<lambda>_.
     and_then (require_config sid) (\<lambda>d.
     and_then (change (halogen_publish (HvStarted sid (hc_model_path c) (hc_api_port c) (hc_generation c) (halogen_capacity d)))) (\<lambda>_.
     give True)))"

definition start_halogen :: "halogen_kind \<Rightarrow> halogen_start \<Rightarrow> uuid \<Rightarrow> halogen_config \<Rightarrow> bool halogen_script" where
  "start_halogen k x sid c =
     and_then (admit_halogen x sid c) (\<lambda>go.
     if \<not> go then give False
     else and_then (check_limit k (hs_limit x)) (\<lambda>_.
       and_then (change (hs_downloading x)) (\<lambda>_.
       and_then (await_answer (hs_download x)) (\<lambda>_.
       and_then (lift_res (hs_spawn x (halogen_environment k (hs_dir x) (hs_base x) c))) (\<lambda>proc.
       and_then (change (install_halogen k sid c proc (hs_now x))) (\<lambda>_.
       and_then (wait_or_stop x sid) (\<lambda>_.
       announce_halogen sid c)))))))"

section \<open>Views\<close>

record halogen_view =
  hw_id :: uuid
  hw_model_path :: string
  hw_port :: int
  hw_health :: string
  hw_uptime :: time
  hw_generation :: int
  hw_capacity :: int

definition halogen_view_of :: "uuid \<Rightarrow> halogen_config \<Rightarrow> time \<Rightarrow> halogen_manager \<Rightarrow> halogen_view" where
  "halogen_view_of sid c now m =
     \<lparr>hw_id = sid, hw_model_path = hc_model_path c, hw_port = hc_api_port c, hw_health = shown_health sid m,
      hw_uptime = now - (case hm_start_times m sid of None \<Rightarrow> now | Some t \<Rightarrow> t),
      hw_generation = hc_generation c, hw_capacity = halogen_capacity c\<rparr>"

definition list_halogen :: "time \<Rightarrow> halogen_manager \<Rightarrow> halogen_view list" where
  "list_halogen now m = map (\<lambda>(sid, c). halogen_view_of sid c now m)
     (filter (\<lambda>(sid, c). halogen_process sid m \<noteq> None) (hm_configs m))"

text \<open>None is a server that is stopped; the counters are those of the proxy.\<close>

definition halogen_status :: "uuid \<Rightarrow> time \<Rightarrow> halogen_manager \<Rightarrow> exn + (halogen_view \<times> int \<times> int) option" where
  "halogen_status sid now m =
     (if halogen_process sid m = None then Inr None
      else case halogen_config_of sid m of
        None \<Rightarrow> Inl (KeyError (show_nat sid))
      | Some c \<Rightarrow>
          if hm_start_times m sid = None then Inl (KeyError (show_nat sid))
          else Inr (Some (halogen_view_of sid c now m,
            (case hm_active m sid of None \<Rightarrow> 0 | Some n \<Rightarrow> n), (case hm_connections m sid of None \<Rightarrow> 0 | Some n \<Rightarrow> n))))"

end
