(* ===== verification/GufoServers.thy ===== *)
theory GufoServers
  imports LlamaManager Scripts
begin

text \<open>
  The process manager of the Gufo engines (\<open>GufoServerManager\<close>,
  \<open>src/agent/app/services/gufo_server.py\<close>): the command line, starting under slot generations and an
  instance limit, the health monitor, stopping, logs and views. The lock of a start is the subject of
  \<open>StartLocks\<close>; the specification of the health status is that of \<open>HealthSpec\<close>.
  \<^item> An await is a function on the state for what other tasks did, or an answer; that
    \<open>stop_server_operations\<close> was called is recorded, and so are the signals sent (a process, and
    whether it was SIGKILL). Processes are numbers; exit codes and the output of processes are arguments.
\<close>

section \<open>State\<close>

record gufo_config =
  gc_model_path :: string
  gc_port :: int
  gc_options :: "(string \<times> opt_value) list"
  gc_generation :: int

datatype gufo_event =
    GvStarted uuid string int int int int int
  | GvStopped uuid int
  | GvError uuid string int
  | GvHealth uuid health_state health_state nat "string option" int
  | GvLog uuid int string string

record gufo_manager =
  gm_servers :: "(uuid \<times> nat) list"
  gm_configs :: "uuid \<Rightarrow> gufo_config option"
  gm_generations :: "uuid \<Rightarrow> int option"
  gm_healthy :: "uuid set"
  gm_health :: "uuid \<Rightarrow> health_state option"
  gm_failures :: "uuid \<Rightarrow> nat option"
  gm_successes :: "uuid \<Rightarrow> nat option"
  gm_errors :: "uuid \<Rightarrow> string option option"
  gm_start_times :: "uuid \<Rightarrow> time option"
  gm_logs :: "uuid \<Rightarrow> log_ring option"
  gm_forwarding :: bool
  gm_readers :: "uuid \<Rightarrow> string set option"
  gm_active :: "uuid \<Rightarrow> int option"
  gm_connections :: "uuid \<Rightarrow> int option"
  gm_fenced :: "uuid list"
  gm_signals :: "(nat \<times> bool) list"
  gm_events :: "gufo_event list"

type_synonym 'a gufo_script = "(gufo_manager, 'a) prog"

definition gufo_process :: "uuid \<Rightarrow> gufo_manager \<Rightarrow> nat option" where
  "gufo_process sid m = map_of (gm_servers m) sid"

definition gufo_publish :: "gufo_event \<Rightarrow> gufo_manager \<Rightarrow> gufo_manager" where
  "gufo_publish e m = m\<lparr>gm_events := gm_events m @ [e]\<rparr>"

definition gufo_config_at :: "uuid \<Rightarrow> gufo_config gufo_script" where
  "gufo_config_at sid m = (case gm_configs m sid of None \<Rightarrow> throw (KeyError (show_nat sid)) m | Some c \<Rightarrow> give c m)"

definition gufo_process_at :: "uuid \<Rightarrow> nat gufo_script" where
  "gufo_process_at sid m = (case gufo_process sid m of None \<Rightarrow> throw (KeyError (show_nat sid)) m | Some p \<Rightarrow> give p m)"

definition gufo_fence :: "uuid \<Rightarrow> (gufo_manager \<Rightarrow> gufo_manager) \<Rightarrow> unit gufo_script" where
  "gufo_fence sid others = change (\<lambda>m. others (m\<lparr>gm_fenced := gm_fenced m @ [sid]\<rparr>))"

definition kill_group :: "nat \<Rightarrow> bool \<Rightarrow> gufo_manager \<Rightarrow> gufo_manager" where
  "kill_group proc force m = m\<lparr>gm_signals := gm_signals m @ [(proc, force)]\<rparr>"

section \<open>The command line\<close>

definition GUFO_VALUE_FLAGS :: "(string \<times> string) list" where
  "GUFO_VALUE_FLAGS = [
     (''context'', ''--context''), (''served_model_name'', ''--served-model-name''), (''mmproj'', ''--mmproj''),
     (''max_tokens'', ''--max-tokens''), (''temperature'', ''--temperature''), (''top_k'', ''--top-k''),
     (''top_p'', ''--top-p''), (''min_p'', ''--min-p''), (''min_keep'', ''--min-keep''), (''seed'', ''--seed''),
     (''repeat_penalty'', ''--repeat-penalty''), (''repeat_last_n'', ''--repeat-last-n''),
     (''frequency_penalty'', ''--frequency-penalty''), (''presence_penalty'', ''--presence-penalty''),
     (''think'', ''--think''), (''reasoning_effort'', ''--reasoning-effort''), (''preserve_thinking'', ''--preserve-thinking''),
     (''speculative'', ''--speculative''), (''dflash_model'', ''--dflash-model''), (''dspark_model'', ''--dspark-model''),
     (''mtp_model'', ''--mtp-model''), (''draft_policy'', ''--draft-policy''), (''draft_tokens'', ''--draft-tokens''),
     (''min_draft_tokens'', ''--min-draft-tokens''), (''prefill_chunk'', ''--prefill-chunk''),
     (''max_pending'', ''--max-pending''), (''max_pending_per_client'', ''--max-pending-per-client''),
     (''request_timeout_ms'', ''--request-timeout-ms''), (''max_output_bytes'', ''--max-output-bytes''),
     (''max_buffered_output_bytes'', ''--max-buffered-output-bytes''),
     (''max_buffered_output_total'', ''--max-buffered-output-total''), (''cache_disk_bytes'', ''--cache-disk-bytes''),
     (''cache_disk_staging_bytes'', ''--cache-disk-staging-bytes''), (''sessions'', ''--sessions''),
     (''max_connections'', ''--max-connections''), (''max_request_bytes'', ''--max-request-bytes''), (''api_key'', ''--api-key'')]"

definition GUFO_BOOL_FLAGS :: "(string \<times> string) list" where
  "GUFO_BOOL_FLAGS = [(''verbose'', ''--verbose''), (''log_progress'', ''--log-progress'')]"

definition option_on :: "(string \<times> opt_value) list \<Rightarrow> string \<Rightarrow> bool" where
  "option_on os k \<longleftrightarrow> map_of os k = Some (OptBool True)"

text \<open>\<open>dir\<close> is the directory of the disk cache of the server.\<close>

definition gufo_command :: "string \<Rightarrow> string \<Rightarrow> gufo_config \<Rightarrow> string list" where
  "gufo_command exe dir c =
     [exe, ''serve'', ''llm'', ''--host'', ''127.0.0.1'', ''--port'', show_int (gc_port c), ''--model'', gc_model_path c]
     @ concat (map (value_flag (gc_options c)) GUFO_VALUE_FLAGS)
     @ (if option_on (gc_options c) ''cache_disk'' then [''--cache-disk'', dir] else [])
     @ map snd (filter (\<lambda>f. option_on (gc_options c) (fst f)) GUFO_BOOL_FLAGS)"

definition DEFAULT_SESSIONS :: int where
  "DEFAULT_SESSIONS = 1"

definition gufo_capacity :: "gufo_config \<Rightarrow> int" where
  "gufo_capacity c =
     (case opt_int (case map_of (gc_options c) ''sessions'' of None \<Rightarrow> OptInt DEFAULT_SESSIONS | Some v \<Rightarrow> v) of
        None \<Rightarrow> DEFAULT_SESSIONS | Some n \<Rightarrow> max n 1)"

section \<open>Health\<close>

definition GUFO_FAILURE_THRESHOLD :: nat where
  "GUFO_FAILURE_THRESHOLD = 3"

definition GUFO_RECOVERY_THRESHOLD :: nat where
  "GUFO_RECOVERY_THRESHOLD = 2"

definition GUFO_HEALTH_GRACE :: time where
  "GUFO_HEALTH_GRACE = seconds 900"

definition gufo_health_event :: "uuid \<Rightarrow> health_state \<Rightarrow> health_state \<Rightarrow> string option \<Rightarrow> gufo_config
    \<Rightarrow> gufo_manager \<Rightarrow> gufo_manager" where
  "gufo_health_event sid previous status err c m =
     gufo_publish (GvHealth sid previous status (count_of sid (gm_failures m)) err (gc_generation c)) m"

definition gufo_grace :: "uuid \<Rightarrow> time \<Rightarrow> gufo_manager \<Rightarrow> bool" where
  "gufo_grace sid now m = (case gm_start_times m sid of None \<Rightarrow> False | Some t \<Rightarrow> now - t < GUFO_HEALTH_GRACE)"

text \<open>What one answer of the health endpoint changes; \<open>c\<close> is the configuration, compared before.\<close>

definition gufo_record :: "uuid \<Rightarrow> gufo_config \<Rightarrow> bool \<Rightarrow> string option \<Rightarrow> time \<Rightarrow> gufo_manager \<Rightarrow> gufo_manager" where
  "gufo_record sid c healthy err now m =
     (let previous = (case gm_health m sid of None \<Rightarrow> Healthy | Some h \<Rightarrow> h) in
      if healthy then
        (let m1 = m\<lparr>gm_failures := (gm_failures m)(sid \<mapsto> 0),
                    gm_successes := (gm_successes m)(sid \<mapsto> count_of sid (gm_successes m) + 1)\<rparr>
         in if previous = Unhealthy
            then (if count_of sid (gm_successes m1) < GUFO_RECOVERY_THRESHOLD then m1
                  else gufo_health_event sid previous Healthy None c
                    (m1\<lparr>gm_health := (gm_health m1)(sid \<mapsto> Healthy), gm_healthy := insert sid (gm_healthy m1)\<rparr>))
            else m1)
      else if gufo_grace sid now m then m
      else
        (let m1 = m\<lparr>gm_successes := (gm_successes m)(sid \<mapsto> 0),
                    gm_failures := (gm_failures m)(sid \<mapsto> count_of sid (gm_failures m) + 1),
                    gm_errors := (gm_errors m)(sid \<mapsto> err)\<rparr>
         in if previous = Unhealthy then m1
            else if count_of sid (gm_failures m1) < GUFO_FAILURE_THRESHOLD then m1
            else gufo_health_event sid previous Unhealthy err c
                   (m1\<lparr>gm_health := (gm_health m1)(sid \<mapsto> Unhealthy), gm_healthy := gm_healthy m1 - {sid}\<rparr>)))"

text \<open>
  What a check finds: the exit code of the process, what others did while it was awaited, and the
  answer of the endpoint. For a process that exited the code calls \<open>_remove_server_state\<close>, a method
  this manager does not have: an AttributeError once the operations are stopped.
\<close>

record gufo_probe =
  gp_exit :: "int option"
  gp_others :: "gufo_manager \<Rightarrow> gufo_manager"
  gp_answer :: "bool \<times> string option"
  gp_now :: time

definition monitor_gufo :: "uuid \<Rightarrow> gufo_probe \<Rightarrow> unit gufo_script" where
  "monitor_gufo sid p m =
     (case (gufo_process sid m, gm_configs m sid) of
        (Some proc, Some c) \<Rightarrow>
          (if gp_exit p \<noteq> None then and_then (gufo_fence sid (gp_others p)) (\<lambda>_. throw (OtherError ''AttributeError'')) m
           else (let m1 = gp_others p m in
             if gufo_process sid m1 \<noteq> Some proc \<or> gm_configs m1 sid \<noteq> Some c then give () m1
             else give () (gufo_record sid c (fst (gp_answer p)) (snd (gp_answer p)) (gp_now p) m1)))
      | _ \<Rightarrow> give () m)"

text \<open>A round of \<open>_health_loop\<close>: an exception of one check is logged, and the next server is checked.\<close>

definition gufo_health_round :: "(uuid \<Rightarrow> gufo_probe) \<Rightarrow> gufo_manager \<Rightarrow> gufo_manager" where
  "gufo_health_round probe m = fold (\<lambda>sid m. snd (monitor_gufo sid (probe sid) m)) (map fst (gm_servers m)) m"

section \<open>Logs\<close>

definition gufo_ring :: "uuid \<Rightarrow> gufo_manager \<Rightarrow> log_ring" where
  "gufo_ring sid m = (case gm_logs m sid of None \<Rightarrow> new_ring LOG_BUFFER_LINES | Some r \<Rightarrow> r)"

definition gufo_append_log :: "uuid \<Rightarrow> string \<Rightarrow> string \<Rightarrow> gufo_manager \<Rightarrow> gufo_manager" where
  "gufo_append_log sid stream line m =
     (let (e, r) = ring_append stream line (gufo_ring sid m)
      in gufo_publish (GvLog sid (le_seq e) stream line) (m\<lparr>gm_logs := (gm_logs m)(sid \<mapsto> r)\<rparr>))"

text \<open>\<open>_start_log_readers\<close>: a set of readers that is not empty is left as it is.\<close>

definition gufo_log_readers :: "uuid \<Rightarrow> gufo_manager \<Rightarrow> gufo_manager" where
  "gufo_log_readers sid m =
     (if \<not> gm_forwarding m \<or> gufo_process sid m = None then m
      else (let readers = (case gm_readers m sid of None \<Rightarrow> {} | Some rs \<Rightarrow> rs)
            in m\<lparr>gm_readers := (gm_readers m)(sid \<mapsto> (if readers = {} then {''stdout'', ''stderr''} else readers))\<rparr>))"

text \<open>The end of a reader, at the end of its stream.\<close>

definition gufo_reader_ends :: "uuid \<Rightarrow> string \<Rightarrow> gufo_manager \<Rightarrow> gufo_manager" where
  "gufo_reader_ends sid stream m =
     (case gm_readers m sid of None \<Rightarrow> m | Some rs \<Rightarrow> m\<lparr>gm_readers := (gm_readers m)(sid \<mapsto> rs - {stream})\<rparr>)"

definition gufo_log_forwarding :: "gufo_manager \<Rightarrow> gufo_manager" where
  "gufo_log_forwarding m = fold (\<lambda>(sid, _). gufo_log_readers sid) (gm_servers m) (m\<lparr>gm_forwarding := True\<rparr>)"

fun gufo_drain :: "uuid \<Rightarrow> (string \<times> string) list \<Rightarrow> gufo_manager \<Rightarrow> gufo_manager" where
  "gufo_drain sid [] m = m"
| "gufo_drain sid ((stream, raw) # rest) m =
     (if gufo_process sid m = None \<or> raw = [] then gufo_drain sid rest m
      else gufo_drain sid rest (m\<lparr>gm_logs := (gm_logs m)(sid \<mapsto> snd (ring_extend stream raw (gufo_ring sid m)))\<rparr>))"

definition gufo_log_reply :: "uuid \<Rightarrow> gufo_manager \<Rightarrow> log_entry list \<Rightarrow> int \<Rightarrow> bool \<Rightarrow> log_reply" where
  "gufo_log_reply sid m es nxt gap = \<lparr>lr_status = (if gufo_process sid m \<noteq> None then ''running'' else ''error''),
     lr_stdout = lines_of ''stdout'' es, lr_stderr = lines_of ''stderr'' es, lr_entries = es, lr_next = nxt, lr_gap = gap\<rparr>"

definition gufo_logs :: "uuid \<Rightarrow> int \<Rightarrow> int option \<Rightarrow> (string \<times> string) list \<Rightarrow> gufo_manager \<Rightarrow> log_reply \<times> gufo_manager" where
  "gufo_logs sid lines after output m =
     (if gufo_process sid m = None \<and> gm_logs m sid = None
      then (\<lparr>lr_status = ''stopped'', lr_stdout = [], lr_stderr = [], lr_entries = [], lr_next = 0, lr_gap = False\<rparr>, m)
      else let m1 = (if gm_forwarding m then m else gufo_drain sid output m);
               r = gufo_ring sid m1;
               m2 = m1\<lparr>gm_logs := (gm_logs m1)(sid \<mapsto> r)\<rparr>
           in case after of
                Some c \<Rightarrow> (let (es, nxt, gap) = poll_reply r c in (gufo_log_reply sid m2 es nxt gap, m2))
              | None \<Rightarrow> (gufo_log_reply sid m2 (ring_tail (lines * 2) r) (last_cursor r) False, m2))"


section \<open>Stopping\<close>

definition gufo_clear_health :: "uuid \<Rightarrow> gufo_manager \<Rightarrow> gufo_manager" where
  "gufo_clear_health sid m = m\<lparr>gm_healthy := gm_healthy m - {sid}, gm_health := (gm_health m)(sid := None),
     gm_failures := (gm_failures m)(sid := None), gm_successes := (gm_successes m)(sid := None),
     gm_errors := (gm_errors m)(sid := None)\<rparr>"

definition gufo_forget :: "uuid \<Rightarrow> gufo_manager \<Rightarrow> gufo_manager" where
  "gufo_forget sid m = m\<lparr>gm_servers := AList.delete sid (gm_servers m), gm_configs := (gm_configs m)(sid := None),
     gm_start_times := (gm_start_times m)(sid := None)\<rparr>"

text \<open>How the operations end, what others do while the process is waited for, and whether it outlasts the 30 seconds.\<close>

record gufo_stop =
  gt_fencing :: "gufo_manager \<Rightarrow> gufo_manager"
  gt_waiting :: "gufo_manager \<Rightarrow> gufo_manager"
  gt_slow :: bool

definition stop_gufo :: "uuid \<Rightarrow> bool \<Rightarrow> int option \<Rightarrow> gufo_stop \<Rightarrow> bool gufo_script" where
  "stop_gufo sid force gen t m =
     (if gufo_process sid m = None then give False m
      else and_then (gufo_config_at sid) (\<lambda>c.
        if gen \<noteq> None \<and> gen \<noteq> Some (gc_generation c) then give False
        else and_then (gufo_fence sid (gt_fencing t)) (\<lambda>_.
             and_then (gufo_process_at sid) (\<lambda>proc.
             and_then (change (kill_group proc force)) (\<lambda>_.
             and_then (change (gt_waiting t)) (\<lambda>_.
             and_then (change (if gt_slow t then kill_group proc True else id)) (\<lambda>_.
             and_then (change (\<lambda>m. let m1 = gufo_clear_health sid (gufo_forget sid m)
                  in gufo_publish (GvStopped sid (gc_generation c)) (m1\<lparr>gm_logs := (gm_logs m1)(sid := None)\<rparr>))) (\<lambda>_.
             give True))))))) m)"

section \<open>Starting\<close>

text \<open>
  A round of the wait: the exit code found first and the output that is then read, what others did
  while the endpoint answered, and its answer; a start that is cancelled has CancelledError there.
\<close>

record gufo_round =
  gr_exit :: "int option"
  gr_output :: "(string \<times> string) list"
  gr_others :: "gufo_manager \<Rightarrow> gufo_manager"
  gr_check :: "exn + bool"

text \<open>\<open>gs_alive\<close> is \<open>poll() is None\<close> when a start cleans up, \<open>gs_str\<close> the text of an exception.\<close>

record gufo_start =
  gs_limit :: nat
  gs_exe :: string
  gs_dir :: string
  gs_stop :: gufo_stop
  gs_mkdir :: answer
  gs_spawn :: "string list \<Rightarrow> exn + nat"
  gs_rounds :: "gufo_round list"
  gs_alive :: "nat \<Rightarrow> bool"
  gs_reaping :: "gufo_manager \<Rightarrow> gufo_manager"
  gs_str :: "exn \<Rightarrow> string"
  gs_now :: time

definition gufo_exit_text :: "uuid \<Rightarrow> int \<Rightarrow> gufo_manager \<Rightarrow> string" where
  "gufo_exit_text sid code m =
     (let stderr = (case gm_logs m sid of None \<Rightarrow> []
            | Some r \<Rightarrow> if ring_entries r = [] then [] else lines_of ''stderr'' (ring_tail 100 r));
          detail = join_lines (keep_last 5 stderr);
          message = ''Gufo server '' @ show_nat sid @ '' exited with code '' @ show_int code
      in if detail = [] then message else message @ '': '' @ detail)"

fun gufo_wait :: "uuid \<Rightarrow> gufo_round list \<Rightarrow> unit gufo_script" where
  "gufo_wait sid [] m = throw (TimeoutError (''Gufo server '' @ show_nat sid @ '' failed to start'')) m"
| "gufo_wait sid (w # ws) m =
     (case (gufo_process sid m, gr_exit w) of
        (Some proc, Some code) \<Rightarrow>
          (let m1 = gufo_drain sid (gr_output w) m in throw (RuntimeError (gufo_exit_text sid code m1)) m1)
      | _ \<Rightarrow> (case gr_check w of
            Inl e \<Rightarrow> throw e (gr_others w m)
          | Inr healthy \<Rightarrow> if healthy then give () (gr_others w m) else gufo_wait sid ws (gr_others w m)))"

text \<open>The decision before a process is spawned; a newer generation first stops the older one.\<close>

definition gufo_latest :: "uuid \<Rightarrow> gufo_manager \<Rightarrow> int" where
  "gufo_latest sid m = (case gm_generations m sid of None \<Rightarrow> -1 | Some g \<Rightarrow> g)"

definition gufo_not_fenced :: "uuid \<Rightarrow> gufo_config \<Rightarrow> bool gufo_script" where
  "gufo_not_fenced sid c m = give (\<not> fenced_generation (gufo_latest sid m) (gc_generation c)) m"

definition admit_gufo :: "gufo_start \<Rightarrow> uuid \<Rightarrow> gufo_config \<Rightarrow> bool gufo_script" where
  "admit_gufo x sid c m =
     (if gufo_process sid m = None then gufo_not_fenced sid c m
      else and_then (gufo_config_at sid) (\<lambda>d.
        if gc_generation c \<le> gc_generation d then give False
        else and_then (stop_gufo sid False (Some (gc_generation d)) (gs_stop x)) (\<lambda>_. gufo_not_fenced sid c)) m)"

definition install_gufo :: "uuid \<Rightarrow> gufo_config \<Rightarrow> nat \<Rightarrow> time \<Rightarrow> gufo_manager \<Rightarrow> gufo_manager" where
  "install_gufo sid c proc now m = gufo_log_readers sid
     (m\<lparr>gm_servers := AList.update sid proc (gm_servers m), gm_configs := (gm_configs m)(sid \<mapsto> c),
        gm_generations := (gm_generations m)(sid \<mapsto> gc_generation c), gm_start_times := (gm_start_times m)(sid \<mapsto> now)\<rparr>)"

definition mark_gufo_healthy :: "uuid \<Rightarrow> gufo_manager \<Rightarrow> gufo_manager" where
  "mark_gufo_healthy sid m = m\<lparr>gm_healthy := insert sid (gm_healthy m), gm_health := (gm_health m)(sid \<mapsto> Healthy),
     gm_failures := (gm_failures m)(sid \<mapsto> 0), gm_successes := (gm_successes m)(sid \<mapsto> 0),
     gm_errors := (gm_errors m)(sid \<mapsto> None)\<rparr>"

definition count_or_0 :: "(uuid \<Rightarrow> int option) \<Rightarrow> uuid \<Rightarrow> int" where
  "count_or_0 f sid = (case f sid of None \<Rightarrow> 0 | Some n \<Rightarrow> n)"

text \<open>The body of the \<open>try\<close> once the process is spawned.\<close>

definition bring_up_gufo :: "gufo_start \<Rightarrow> uuid \<Rightarrow> gufo_config \<Rightarrow> nat \<Rightarrow> bool gufo_script" where
  "bring_up_gufo x sid c proc =
     and_then (change (install_gufo sid c proc (gs_now x))) (\<lambda>_.
     and_then (gufo_wait sid (gs_rounds x)) (\<lambda>_.
     and_then (change (mark_gufo_healthy sid)) (\<lambda>_.
     and_then (gufo_config_at sid) (\<lambda>d.
     and_then (change (\<lambda>m. gufo_publish (GvStarted sid (gc_model_path c) (gc_port c) (gc_generation c) (gufo_capacity d)
         (count_or_0 (gm_active m) sid) (count_or_0 (gm_connections m) sid)) m)) (\<lambda>_.
     give True)))))"

text \<open>\<open>except Exception\<close>: whatever process the table has is killed, or else the one spawned.\<close>

definition kill_leftover :: "(nat \<Rightarrow> bool) \<Rightarrow> nat option \<Rightarrow> nat option \<Rightarrow> gufo_manager \<Rightarrow> gufo_manager" where
  "kill_leftover alive live proc m =
     (case live of
        Some p \<Rightarrow> if alive p then kill_group p True m
          else (case proc of Some q \<Rightarrow> if alive q then kill_group q True m else m | None \<Rightarrow> m)
      | None \<Rightarrow> (case proc of Some q \<Rightarrow> if alive q then kill_group q True m else m | None \<Rightarrow> m))"

definition gufo_start_failed :: "gufo_start \<Rightarrow> uuid \<Rightarrow> gufo_config \<Rightarrow> nat option \<Rightarrow> exn \<Rightarrow> gufo_manager \<Rightarrow> gufo_manager" where
  "gufo_start_failed x sid c proc e m =
     gufo_publish (GvError sid (gs_str x e) (gc_generation c))
       (gs_reaping x (kill_leftover (gs_alive x) (gufo_process sid m) proc (gufo_forget sid (gufo_clear_health sid m))))"

definition start_gufo_locked :: "gufo_start \<Rightarrow> uuid \<Rightarrow> gufo_config \<Rightarrow> bool gufo_script" where
  "start_gufo_locked x sid c m =
     (if gs_limit x \<le> length (gm_servers m) then throw (RuntimeError ''Gufo instance limit reached'') m
      else and_then (if option_on (gc_options c) ''cache_disk'' then await_answer (gs_mkdir x) else give ()) (\<lambda>_ m.
        case gs_spawn x (gufo_command (gs_exe x) (gs_dir x) c) of
          Inl e \<Rightarrow> give False (gufo_start_failed x sid c None e m)
        | Inr proc \<Rightarrow>
            (case bring_up_gufo x sid c proc m of
               (Inl e, m1) \<Rightarrow>
                 if is_exception e then give False (gufo_start_failed x sid c (Some proc) e m1) else throw e m1
             | res \<Rightarrow> res)) m)"

definition start_gufo :: "gufo_start \<Rightarrow> uuid \<Rightarrow> gufo_config \<Rightarrow> bool gufo_script" where
  "start_gufo x sid c = and_then (admit_gufo x sid c) (\<lambda>go. if go then start_gufo_locked x sid c else give False)"

section \<open>Views\<close>

record gufo_view =
  gv_id :: uuid
  gv_model_path :: string
  gv_port :: int
  gv_health :: "health_state option"
  gv_uptime :: time
  gv_generation :: int
  gv_capacity :: int

definition gufo_uptime :: "uuid \<Rightarrow> time \<Rightarrow> gufo_manager \<Rightarrow> time" where
  "gufo_uptime sid now m = (case gm_start_times m sid of None \<Rightarrow> 0 | Some t \<Rightarrow> if t = 0 then 0 else now - t)"

definition gufo_view_of :: "uuid \<Rightarrow> gufo_config \<Rightarrow> time \<Rightarrow> gufo_manager \<Rightarrow> gufo_view" where
  "gufo_view_of sid c now m = \<lparr>gv_id = sid, gv_model_path = gc_model_path c, gv_port = gc_port c,
     gv_health = gm_health m sid, gv_uptime = gufo_uptime sid now m, gv_generation = gc_generation c,
     gv_capacity = gufo_capacity c\<rparr>"

text \<open>A process without a configuration is a KeyError; None is a server that is stopped.\<close>

fun list_gufo_from :: "uuid list \<Rightarrow> time \<Rightarrow> gufo_manager \<Rightarrow> exn + gufo_view list" where
  "list_gufo_from [] now m = Inr []"
| "list_gufo_from (sid # rest) now m =
     (case gm_configs m sid of None \<Rightarrow> Inl (KeyError (show_nat sid))
      | Some c \<Rightarrow> (case list_gufo_from rest now m of Inl e \<Rightarrow> Inl e | Inr vs \<Rightarrow> Inr (gufo_view_of sid c now m # vs)))"

definition list_gufo :: "time \<Rightarrow> gufo_manager \<Rightarrow> exn + gufo_view list" where
  "list_gufo now m = list_gufo_from (map fst (gm_servers m)) now m"

definition gufo_status :: "uuid \<Rightarrow> time \<Rightarrow> gufo_manager \<Rightarrow> exn + (gufo_view \<times> int \<times> int) option" where
  "gufo_status sid now m =
     (if gufo_process sid m = None then Inr None
      else case gm_configs m sid of None \<Rightarrow> Inl (KeyError (show_nat sid))
      | Some c \<Rightarrow> Inr (Some (gufo_view_of sid c now m, count_or_0 (gm_active m) sid, count_or_0 (gm_connections m) sid)))"

end
