(* ===== verification/ServerRoutes.thy ===== *)
theory ServerRoutes
  imports ModelFiles HalogenServers GufoServers
begin

text \<open>
  The routes of an agent that prepare, start and stop servers
  (\<open>src/agent/app/api/routes/servers.py\<close>): the guards of a start, finding and fetching its files, ports,
  the configuration of each engine, and the call of the process manager
  (\<open>services/server_manager.py\<close> picks one for the platform).
  \<^item> The manager is a record of its operations (\<open>manager_api\<close>), given below for each manager.
  \<^item> The state is that of the manager and that of the model files. What other tasks did to the
    manager while files were fetched is a function of the request's environment.
\<close>

section \<open>The manager\<close>

datatype engine_setup = LlamaSetup engine_config | GufoSetup gufo_config | HalogenSetup halogen_config

text \<open>What the routes read of a configuration in the table; only those of Halogen have an engine port.\<close>

record run_info =
  ri_model_path :: string
  ri_port :: int
  ri_engine_port :: "int option"
  ri_generation :: int

record 'm manager_api =
  ma_running :: "uuid \<Rightarrow> 'm \<Rightarrow> bool"
  ma_config :: "uuid \<Rightarrow> 'm \<Rightarrow> run_info option"
  ma_latest :: "uuid \<Rightarrow> 'm \<Rightarrow> int"
  ma_capacity :: "uuid \<Rightarrow> 'm \<Rightarrow> exn + int"
  ma_stop :: "uuid \<Rightarrow> int option \<Rightarrow> ('m, bool) prog"
  ma_start :: "uuid \<Rightarrow> engine_setup \<Rightarrow> ('m, bool) prog"
  ma_forget :: "uuid \<Rightarrow> 'm \<Rightarrow> 'm"

definition gufo_info :: "gufo_config \<Rightarrow> run_info" where
  "gufo_info c = \<lparr>ri_model_path = gc_model_path c, ri_port = gc_port c, ri_engine_port = None, ri_generation = gc_generation c\<rparr>"

definition halogen_info :: "halogen_config \<Rightarrow> run_info" where
  "halogen_info c = \<lparr>ri_model_path = hc_model_path c, ri_port = hc_port c, ri_engine_port = Some (hc_engine_port c),
     ri_generation = hc_generation c\<rparr>"

text \<open>A configuration of another engine does not fit the manager; the platform check keeps it away.\<close>

definition gufo_api :: "gufo_start \<Rightarrow> gufo_stop \<Rightarrow> gufo_manager manager_api" where
  "gufo_api x t = \<lparr>ma_running = (\<lambda>sid m. gufo_process sid m \<noteq> None), ma_config = (\<lambda>sid m. map_option gufo_info (gm_configs m sid)),
     ma_latest = gufo_latest,
     ma_capacity = (\<lambda>sid m. case gm_configs m sid of None \<Rightarrow> Inl (KeyError (show_nat sid)) | Some c \<Rightarrow> Inr (gufo_capacity c)),
     ma_stop = (\<lambda>sid gen. stop_gufo sid False gen t),
     ma_start = (\<lambda>sid c. case c of GufoSetup g \<Rightarrow> start_gufo x sid g | _ \<Rightarrow> throw TypeError),
     ma_forget = (\<lambda>sid m. m)\<rparr>"

definition llama_info :: "engine_config \<Rightarrow> run_info" where
  "llama_info c = \<lparr>ri_model_path = ec_model_path c, ri_port = ec_port c, ri_engine_port = None, ri_generation = ec_generation c\<rparr>"

text \<open>What a call of the llama-server manager meets.\<close>

record llama_call =
  lm_stopping :: "llama_manager \<Rightarrow> llama_manager"
  lm_spawn :: "string + nat"
  lm_rounds :: "wait_round list"
  lm_now :: time
  lm_task :: task

definition llama_api :: "llama_call \<Rightarrow> llama_manager manager_api" where
  "llama_api x = \<lparr>ma_running = (\<lambda>sid m. process_of sid m \<noteq> None), ma_config = (\<lambda>sid m. map_option llama_info (configs m sid)),
     ma_latest = (\<lambda>sid m. case launched m sid of None \<Rightarrow> -1 | Some g \<Rightarrow> g),
     ma_capacity = (\<lambda>sid m. case configs m sid of None \<Rightarrow> Inl (KeyError (show_nat sid)) | Some c \<Rightarrow> Inr (effective_capacity c)),
     ma_stop = (\<lambda>sid gen m. case stop_server sid gen (lm_stopping x) (lm_now x) (lm_task x) m of (b, m1) \<Rightarrow> (Inr b, m1)),
     ma_start = (\<lambda>sid c. case c of
        LlamaSetup e \<Rightarrow> (\<lambda>m. case start_server sid e (lm_stopping x) (lm_spawn x) (lm_rounds x) (lm_now x) (lm_task x) m of
          (b, m1) \<Rightarrow> (Inr b, m1))
      | _ \<Rightarrow> throw TypeError),
     ma_forget = (\<lambda>sid m. m)\<rparr>"

definition halogen_api :: "halogen_kind \<Rightarrow> halogen_start \<Rightarrow> (halogen_manager \<Rightarrow> halogen_manager) \<Rightarrow> halogen_manager manager_api" where
  "halogen_api k x others = \<lparr>ma_running = (\<lambda>sid m. halogen_process sid m \<noteq> None),
     ma_config = (\<lambda>sid m. map_option halogen_info (halogen_config_of sid m)),
     ma_latest = (\<lambda>sid m. case hm_generations m sid of None \<Rightarrow> -1 | Some g \<Rightarrow> g),
     ma_capacity = (\<lambda>sid m. case halogen_config_of sid m of None \<Rightarrow> Inl (KeyError (show_nat sid)) | Some c \<Rightarrow> Inr (halogen_capacity c)),
     ma_stop = (\<lambda>sid gen. stop_halogen sid gen others id),
     ma_start = (\<lambda>sid c. case c of HalogenSetup h \<Rightarrow> start_halogen k x sid h | _ \<Rightarrow> throw TypeError),
     ma_forget = delete_halogen\<rparr>"

section \<open>Requests\<close>

text \<open>A download source; an empty dictionary is no source. The list under \<open>npu_models\<close> is kept apart.\<close>

record file_source =
  fs_repo :: "string option"
  fs_filename :: "string option"
  fs_filenames :: "string list"
  fs_source :: "string option"
  fs_job :: "string option"
  fs_server :: "string option"
  fs_path :: "string option"
  fs_key :: "string option"

record server_spec =
  sp_id :: uuid
  sp_model_path :: string
  sp_engine :: string
  sp_engine_options :: "(string \<times> opt_value) list"
  sp_npu_models :: "string list"
  sp_port :: "int option"
  sp_engine_port :: "int option"
  sp_gpu_layers :: int
  sp_context_size :: int
  sp_batch_size :: int
  sp_cache_prompt :: bool
  sp_flash_attn :: "bool option"
  sp_mtp_draft_max :: "int option"
  sp_jinja :: bool
  sp_mmproj_path :: "string option"
  sp_draft_model_path :: "string option"
  sp_options :: "(string \<times> opt_value) list"
  sp_generation :: int

record start_request =
  sq_config :: server_spec
  sq_source :: "file_source option"
  sq_mmproj_source :: "file_source option"
  sq_draft_source :: "file_source option"
  sq_aux :: "file_source list"

text \<open>
  The environment of a request: the platform and the models directory, the hub, the text of the pins
  file or why it cannot be read, the shuffles of the candidate ports and the ports that can be bound.
\<close>

record 'm start_env =
  se_platform :: string
  se_models :: string
  se_calls :: "string \<Rightarrow> download_call"
  se_repository :: download_call
  se_npu_hub :: "string \<Rightarrow> string \<Rightarrow> hub_answer"
  se_pins :: "string + string"
  se_downloading :: "'m \<Rightarrow> 'm"
  se_shuffle :: "nat \<Rightarrow> int list \<Rightarrow> int list"
  se_free :: "int \<Rightarrow> bool"
  se_text :: "exn \<Rightarrow> string"

definition STRICT_PLATFORMS :: "string list" where
  "STRICT_PLATFORMS = [''halogen'', ''halogen-flash'', ''gufo'']"

definition validate_platform :: "string \<Rightarrow> string \<Rightarrow> exn + unit" where
  "validate_platform platform engine =
     (if platform \<in> set STRICT_PLATFORMS \<and> engine \<noteq> platform
      then Inl (HttpStatus 400 (''Agent platform='' @ platform @ '' only supports engine='' @ platform))
      else if platform \<notin> set STRICT_PLATFORMS \<and> engine \<noteq> ''llamacpp''
      then Inl (HttpStatus 400 (''Agent platform='' @ platform @ '' only supports engine=llamacpp''))
      else Inr ())"

section \<open>Ports\<close>

definition EPHEMERAL_PORTS :: "int \<times> int" where
  "EPHEMERAL_PORTS = (8090, 8190)"

definition FLASH_PORTS :: "int \<times> int" where
  "FLASH_PORTS = (8200, 8290)"

definition allocate_port :: "(int list \<Rightarrow> int list) \<Rightarrow> (int \<Rightarrow> bool) \<Rightarrow> int \<times> int \<Rightarrow> int list \<Rightarrow> exn + int" where
  "allocate_port shuffle free rng exclude =
     (case List.find free (shuffle (filter (\<lambda>p. p \<notin> set exclude) [fst rng..snd rng - 1])) of
        Some p \<Rightarrow> Inr p
      | None \<Rightarrow> Inl (HttpStatus 503 (''No free ports in '' @ show_int (fst rng) @ ''-'' @ show_int (snd rng))))"

text \<open>\<open>pinned or _allocate_port(...)\<close>: zero is no port.\<close>

definition port_or :: "int option \<Rightarrow> exn + int \<Rightarrow> exn + int" where
  "port_or pinned other = (case pinned of Some p \<Rightarrow> if p = 0 then other else Inr p | None \<Rightarrow> other)"

section \<open>Finding and fetching a file\<close>

definition resolve_model_path :: "string \<Rightarrow> string \<Rightarrow> string" where
  "resolve_model_path models p = (if is_absolute p then p else join_path models p)"

fun dedupe :: "string list \<Rightarrow> string list \<Rightarrow> string list" where
  "dedupe seen [] = []"
| "dedupe seen (p # ps) = (if p \<in> set seen then dedupe seen ps else p # dedupe (p # seen) ps)"

definition model_candidates :: "string \<Rightarrow> string \<Rightarrow> string \<Rightarrow> string list" where
  "model_candidates models p fname =
     dedupe [] ((if is_absolute p then [p] else [])
       @ [join_path models (dropWhile (\<lambda>c. c = CHR ''/'') p), join_path models fname])"

definition source_repo :: "file_source option \<Rightarrow> string" where
  "source_repo src = (case src of None \<Rightarrow> [] | Some s \<Rightarrow> text_or (fs_repo s) [])"

definition source_names :: "file_source option \<Rightarrow> string list" where
  "source_names src = (case src of None \<Rightarrow> [] | Some s \<Rightarrow>
     if fs_filenames s \<noteq> [] then fs_filenames s
     else (let f = text_or (fs_filename s) [] in if f = [] then [] else [f]))"

definition primary_name :: "string \<Rightarrow> string list \<Rightarrow> string" where
  "primary_name path names = (case pick_primary names of Inr n \<Rightarrow> n | Inl _ \<Rightarrow> last_segment path)"

text \<open>\<open>exists(fn)\<close>: a name that leaves its repository raises.\<close>

definition part_exists :: "string \<Rightarrow> string \<Rightarrow> string \<Rightarrow> string \<Rightarrow> string \<Rightarrow> model_files \<Rightarrow> exn + bool" where
  "part_exists models p repo primary fname m =
     (let local = [join_path models fname] @ (if fname = primary then model_candidates models p fname else []) in
      if repo = [] then Inr (list_ex (\<lambda>c. on_disk c m) local)
      else (case storage_path models repo fname of
          Inl e \<Rightarrow> Inl e
        | Inr q \<Rightarrow> Inr (list_ex (\<lambda>c. on_disk c m) (q # local))))"

fun all_exist :: "string \<Rightarrow> string \<Rightarrow> string \<Rightarrow> string \<Rightarrow> string list \<Rightarrow> model_files \<Rightarrow> exn + bool" where
  "all_exist models p repo primary [] m = Inr True"
| "all_exist models p repo primary (f # fs) m =
     (case part_exists models p repo primary f m of
        Inl e \<Rightarrow> Inl e
      | Inr b \<Rightarrow> if b then all_exist models p repo primary fs m else Inr False)"

text \<open>The path of the first part once every part was found.\<close>

definition found_path :: "string \<Rightarrow> string \<Rightarrow> string \<Rightarrow> string \<Rightarrow> string \<Rightarrow> model_files \<Rightarrow> exn + string" where
  "found_path models p repo primary path m =
     (let rest = (if on_disk (join_path models primary) m then join_path models primary
          else (case List.find (\<lambda>c. on_disk c m) (model_candidates models p primary) of None \<Rightarrow> path | Some c \<Rightarrow> c))
      in if repo = [] then Inr rest
         else (case storage_path models repo primary of
             Inl e \<Rightarrow> Inl e | Inr q \<Rightarrow> Inr (if on_disk q m then q else rest)))"

definition not_on_agent :: "string \<Rightarrow> exn" where
  "not_on_agent primary = HttpStatus 404 (''Model file '' @ primary @ '' not found on agent and no download source provided'')"

definition fetch_model :: "(exn \<Rightarrow> string) \<Rightarrow> string \<Rightarrow> (string \<Rightarrow> download_call) \<Rightarrow> string \<Rightarrow> string list \<Rightarrow> file_source option
    \<Rightarrow> string file_script" where
  "fetch_model str models x primary names src =
     (case src of
        None \<Rightarrow> throw (not_on_agent primary)
      | Some s \<Rightarrow>
          if source_repo src = [] then throw (not_on_agent primary)
          else (let job = text_or (fs_job s) (''server-file-'' @ primary) in
            on_failure (\<lambda>e. file_event (DownFailed job primary (text_or (fs_server s) []) (str e)))
              (download_model_parts models x (source_repo src) (if names = [] then [primary] else names)
                 (case fs_source s of None \<Rightarrow> ''huggingface'' | Some t \<Rightarrow> t) (Some job) (fs_server s))))"

definition ensure_model :: "(exn \<Rightarrow> string) \<Rightarrow> string \<Rightarrow> (string \<Rightarrow> download_call) \<Rightarrow> string \<Rightarrow> file_source option
    \<Rightarrow> string file_script" where
  "ensure_model str models x p src m =
     (let path = resolve_model_path models p; names = source_names src; primary = primary_name path names; repo = source_repo src in
      case (if names = [] then Inr False else all_exist models p repo primary names m) of
        Inl e \<Rightarrow> throw e m
      | Inr True \<Rightarrow> lift_res (found_path models p repo primary path m) m
      | Inr False \<Rightarrow> fetch_model str models x primary names src m)"


section \<open>Preparing the files of a server\<close>

record 'm agent_state =
  as_manager :: 'm
  as_files :: model_files

type_synonym ('m, 'a) agent_script = "('m agent_state, 'a) prog"

definition on_files :: "'a file_script \<Rightarrow> ('m, 'a) agent_script" where
  "on_files p s = (case p (as_files s) of (r, f) \<Rightarrow> (r, s\<lparr>as_files := f\<rparr>))"

definition on_manager :: "('m, 'a) prog \<Rightarrow> ('m, 'a) agent_script" where
  "on_manager p s = (case p (as_manager s) of (r, m) \<Rightarrow> (r, s\<lparr>as_manager := m\<rparr>))"

definition HALOGEN_REPO :: "string \<Rightarrow> string" where
  "HALOGEN_REPO engine = (if engine = ''halogen'' then ''peonist-ai/halogen-qwen3.8-27b'' else ''peonist-ai/halogen-qwen3.8-flash-next'')"

definition engine_checkpoint :: "string \<Rightarrow> string" where
  "engine_checkpoint engine = (if engine = ''halogen'' then hk_checkpoint halogen else hk_checkpoint halogen_flash)"

text \<open>\<open>_prepare_npu_models\<close>: the pins of the image, the plan, then directory by directory.\<close>

definition fetch_npu_dir :: "'m start_env \<Rightarrow> string \<Rightarrow> string \<Rightarrow> string \<times> npu_dir \<Rightarrow> string file_script" where
  "fetch_npu_dir x job server d = download_npu_files (se_models x) (se_text x) id (se_npu_hub x (fst d)) (fst d) (nd_files (snd d))
     (text_or (nd_repo (snd d)) []) (Some job) (Some server)"

definition prepare_npu_models :: "'m start_env \<Rightarrow> server_spec \<Rightarrow> string list file_script" where
  "prepare_npu_models x c =
     (if sp_npu_models c = [] then give []
      else (case se_pins x of
          Inl e \<Rightarrow> throw (HttpStatus 500 (''Cannot read NPU pins file: '' @ e))
        | Inr txt \<Rightarrow>
            (case resolve_npu_download_set (parse_npu_pins txt) (sp_npu_models c) of
               Inl e \<Rightarrow> throw (HttpStatus 422 (se_text x e))
             | Inr plan \<Rightarrow>
                 and_then (deliver_all (\<lambda>d. and_then (fetch_npu_dir x (''halogen-flash-npu-'' @ show_nat (sp_id c)) (show_nat (sp_id c)) d) (\<lambda>_. give ())) plan)
                   (\<lambda>_. give (sp_npu_models c)))))"

definition halogen_repository :: "'m start_env \<Rightarrow> server_spec \<Rightarrow> string file_script" where
  "halogen_repository x c = download_repository (se_models x) (se_repository x) (HALOGEN_REPO (sp_engine c))
     (Some (sp_engine c @ ''-'' @ show_nat (sp_id c))) (Some (show_nat (sp_id c)))"

definition find_model_file :: "'m start_env \<Rightarrow> string \<Rightarrow> file_source option \<Rightarrow> string file_script" where
  "find_model_file x p src = ensure_model (se_text x) (se_models x) (se_calls x) p src"

text \<open>The projector and the draft model, where the request names them; the start route says more in its refusal.\<close>

definition missing_projector :: exn where
  "missing_projector = HttpStatus 422 ''mmproj_path set but mmproj_source missing''"

definition find_projector :: "'m start_env \<Rightarrow> start_request \<Rightarrow> string option file_script" where
  "find_projector x q = (let p = text_or (sp_mmproj_path (sq_config q)) [] in
     if p = [] then give None
     else if sq_mmproj_source q = None then throw missing_projector
     else and_then (find_model_file x p (sq_mmproj_source q)) (\<lambda>r. give (Some r)))"

definition find_draft :: "'m start_env \<Rightarrow> start_request \<Rightarrow> string option file_script" where
  "find_draft x q = (let p = text_or (sp_draft_model_path (sq_config q)) [] in
     if p = [] then give None else and_then (find_model_file x p (sq_draft_source q)) (\<lambda>r. give (Some r)))"

text \<open>The auxiliary files: each one found replaces the path in the engine options.\<close>

fun find_aux :: "'m start_env \<Rightarrow> file_source list \<Rightarrow> (string \<times> opt_value) list \<Rightarrow> (string \<times> opt_value) list file_script" where
  "find_aux x [] os = give os"
| "find_aux x (a # rest) os =
     (let p = text_or (fs_path a) []; k = text_or (fs_key a) [] in
      if p = [] then find_aux x rest os
      else and_then (find_model_file x p (Some a)) (\<lambda>r. find_aux x rest (if k = [] then os else AList.update k (OptStr r) os)))"

definition main_file :: "'m start_env \<Rightarrow> start_request \<Rightarrow> string file_script" where
  "main_file x q = (let c = sq_config q in
     if sp_engine c = ''halogen'' then and_then (halogen_repository x c) (\<lambda>_. give (engine_checkpoint (sp_engine c)))
     else if sp_engine c = ''halogen-flash'' then
       and_then (halogen_repository x c) (\<lambda>_. and_then (prepare_npu_models x c) (\<lambda>_. give (engine_checkpoint (sp_engine c))))
     else find_model_file x (sp_model_path c) (sq_source q))"

record found_files =
  ff_model :: string
  ff_mmproj :: "string option"
  ff_draft :: "string option"
  ff_options :: "(string \<times> opt_value) list"

definition find_files :: "'m start_env \<Rightarrow> start_request \<Rightarrow> found_files file_script" where
  "find_files x q =
     and_then (main_file x q) (\<lambda>model.
     and_then (find_projector x q) (\<lambda>mmproj.
     and_then (find_draft x q) (\<lambda>draft.
     and_then (find_aux x (sq_aux q) (sp_engine_options (sq_config q))) (\<lambda>os.
     give \<lparr>ff_model = model, ff_mmproj = mmproj, ff_draft = draft, ff_options = os\<rparr>))))"

section \<open>Starting\<close>

text \<open>The two ports: those of Flash come from a range of their own, its engine port is never the other.\<close>

definition ports_of :: "'m start_env \<Rightarrow> server_spec \<Rightarrow> exn + int \<times> int option" where
  "ports_of x c =
     (if sp_engine c = ''halogen-flash'' then
        (case port_or (sp_port c) (allocate_port (se_shuffle x 0) (se_free x) FLASH_PORTS []) of
           Inl e \<Rightarrow> Inl e
         | Inr p \<Rightarrow> (case port_or (sp_engine_port c) (allocate_port (se_shuffle x 1) (se_free x) FLASH_PORTS [p]) of
               Inl e \<Rightarrow> Inl e | Inr q \<Rightarrow> Inr (p, Some q)))
      else (case port_or (sp_port c) (allocate_port (se_shuffle x 0) (se_free x) EPHEMERAL_PORTS []) of
          Inl e \<Rightarrow> Inl e | Inr p \<Rightarrow> Inr (p, sp_engine_port c)))"

definition setup_of :: "'m start_env \<Rightarrow> server_spec \<Rightarrow> found_files \<Rightarrow> int \<times> int option \<Rightarrow> exn + engine_setup" where
  "setup_of x c f ports =
     (let port = fst ports in
      if sp_engine c = ''halogen'' then
        (case port_or (snd ports) (allocate_port (se_shuffle x 1) (se_free x) EPHEMERAL_PORTS []) of
           Inl e \<Rightarrow> Inl e
         | Inr q \<Rightarrow> Inr (HalogenSetup \<lparr>hc_model_path = hk_checkpoint halogen, hc_port = port, hc_api_port = port, hc_engine_port = q,
             hc_options = ff_options f, hc_npu_models = sp_npu_models c, hc_generation = sp_generation c\<rparr>))
      else if sp_engine c = ''halogen-flash'' then
        Inr (HalogenSetup \<lparr>hc_model_path = hk_checkpoint halogen_flash, hc_port = port, hc_api_port = port,
          hc_engine_port = (case snd ports of None \<Rightarrow> 0 | Some q \<Rightarrow> q), hc_options = ff_options f,
          hc_npu_models = sp_npu_models c, hc_generation = sp_generation c\<rparr>)
      else if sp_engine c = ''gufo'' then
        Inr (GufoSetup \<lparr>gc_model_path = ff_model f, gc_port = port, gc_options = ff_options f, gc_generation = sp_generation c\<rparr>)
      else Inr (LlamaSetup \<lparr>ec_model_path = ff_model f, ec_port = port, ec_gpu_layers = sp_gpu_layers c,
          ec_context_size = sp_context_size c, ec_batch_size = sp_batch_size c, ec_cache_prompt = sp_cache_prompt c,
          ec_flash_attn = sp_flash_attn c, ec_mtp_draft_max = sp_mtp_draft_max c, ec_jinja = sp_jinja c,
          ec_mmproj_path = ff_mmproj f, ec_draft_model_path = ff_draft f, ec_options = Some (sp_options c),
          ec_generation = sp_generation c\<rparr>))"

record started_reply =
  st_model_path :: string
  st_port :: int
  st_engine_port :: "int option"
  st_generation :: int
  st_capacity :: int
  st_already :: bool

text \<open>\<open>except Exception\<close>: anything but an HTTP error is a 500 with its text.\<close>

definition as_500 :: "(exn \<Rightarrow> string) \<Rightarrow> ('s, 'a) prog \<Rightarrow> ('s, 'a) prog" where
  "as_500 str p s = (case p s of
     (Inl e, s1) \<Rightarrow> (Inl (case e of HttpStatus n t \<Rightarrow> e | _ \<Rightarrow> if is_exception e then HttpStatus 500 (str e) else e), s1)
   | res \<Rightarrow> res)"

definition stale_generation :: exn where
  "stale_generation = HttpStatus 409 ''Stale slot generation''"

text \<open>The guard: refused, already running, or to go on, an older process stopped first.\<close>

definition start_guard :: "'m manager_api \<Rightarrow> server_spec \<Rightarrow> ('m, started_reply option) prog" where
  "start_guard api c m =
     (let sid = sp_id c; gen = sp_generation c in
      if \<not> ma_running api sid m then
        (if fenced_generation (ma_latest api sid m) gen then throw stale_generation m else give None m)
      else (case ma_config api sid m of
          None \<Rightarrow> throw (KeyError (show_nat sid)) m
        | Some d \<Rightarrow>
            if gen < ri_generation d then throw stale_generation m
            else if ri_generation d < gen then and_then (ma_stop api sid (Some (ri_generation d))) (\<lambda>_. give None) m
            else (case ma_capacity api sid m of
                Inl e \<Rightarrow> throw e m
              | Inr n \<Rightarrow> give (Some \<lparr>st_model_path = ri_model_path d, st_port = ri_port d, st_engine_port = ri_engine_port d,
                  st_generation = ri_generation d, st_capacity = n, st_already = True\<rparr>) m)))"

text \<open>The last part, with the files at hand.\<close>

definition launch :: "'m manager_api \<Rightarrow> 'm start_env \<Rightarrow> server_spec \<Rightarrow> found_files \<Rightarrow> ('m, started_reply) prog" where
  "launch api x c f =
     and_then (lift_res (ports_of x c)) (\<lambda>ports.
     and_then (lift_res (setup_of x c f ports)) (\<lambda>setup.
     and_then (ma_start api (sp_id c) setup) (\<lambda>ok.
     if \<not> ok then throw (HttpStatus 500 ''Failed to start server'')
     else (\<lambda>m. case ma_capacity api (sp_id c) m of
        Inl e \<Rightarrow> throw e m
      | Inr n \<Rightarrow> give \<lparr>st_model_path = ff_model f, st_port = fst ports, st_engine_port = snd ports, st_generation = sp_generation c,
          st_capacity = n, st_already = False\<rparr> m))))"

definition start_server_route :: "'m manager_api \<Rightarrow> 'm start_env \<Rightarrow> start_request \<Rightarrow> ('m, started_reply) agent_script" where
  "start_server_route api x q =
     as_500 (se_text x)
       (and_then (lift_res (validate_platform (se_platform x) (sp_engine (sq_config q)))) (\<lambda>_.
        and_then (on_manager (start_guard api (sq_config q))) (\<lambda>already.
        case already of
          Some r \<Rightarrow> give r
        | None \<Rightarrow>
            and_then (on_files (find_files x q)) (\<lambda>f.
            and_then (on_manager (change (se_downloading x))) (\<lambda>_.
            on_manager (launch api x (sq_config q) f))))))"

text \<open>\<open>prepare_server\<close>: the files only; of the auxiliary ones nothing is answered.\<close>

record prepare_reply =
  pp_model_path :: string
  pp_mmproj :: "string option"
  pp_draft :: "string option"
  pp_npu :: "string list"

definition prepare_route :: "'m start_env \<Rightarrow> start_request \<Rightarrow> prepare_reply file_script" where
  "prepare_route x q = (let c = sq_config q in
     as_500 (se_text x)
       (and_then (lift_res (validate_platform (se_platform x) (sp_engine c))) (\<lambda>_.
        if sp_engine c = ''halogen'' then
          and_then (halogen_repository x c) (\<lambda>_.
          give \<lparr>pp_model_path = engine_checkpoint (sp_engine c), pp_mmproj = None, pp_draft = None, pp_npu = []\<rparr>)
        else if sp_engine c = ''halogen-flash'' then
          and_then (halogen_repository x c) (\<lambda>_.
          and_then (prepare_npu_models x c) (\<lambda>npu.
          give \<lparr>pp_model_path = engine_checkpoint (sp_engine c), pp_mmproj = None, pp_draft = None, pp_npu = npu\<rparr>))
        else and_then (find_files x q) (\<lambda>f.
          give \<lparr>pp_model_path = ff_model f, pp_mmproj = ff_mmproj f, pp_draft = ff_draft f, pp_npu = []\<rparr>))))"

section \<open>Stopping, deleting, reading\<close>

text \<open>True is \<open>already_stopped\<close>.\<close>

definition stop_route :: "'m manager_api \<Rightarrow> (exn \<Rightarrow> string) \<Rightarrow> uuid \<Rightarrow> int option \<Rightarrow> ('m, bool) prog" where
  "stop_route api str sid gen =
     as_500 str (\<lambda>m.
       if (case ma_config api sid m of None \<Rightarrow> False | Some d \<Rightarrow> gen \<noteq> None \<and> gen \<noteq> Some (ri_generation d))
       then throw stale_generation m
       else and_then (ma_stop api sid gen) (\<lambda>stopped. give (\<not> stopped)) m)"

definition delete_server_route :: "'m manager_api \<Rightarrow> uuid \<Rightarrow> ('m, unit) prog" where
  "delete_server_route api sid = and_then (ma_stop api sid None) (\<lambda>_. change (ma_forget api sid))"

text \<open>\<open>answer\<close> is what the request to the engine gives: its JSON, and whether that is an object with a list.\<close>

definition metadata_route :: "'m manager_api \<Rightarrow> (exn \<Rightarrow> string) \<Rightarrow> (int \<Rightarrow> exn + ('j \<times> bool)) \<Rightarrow> uuid \<Rightarrow> 'm \<Rightarrow> exn + 'j" where
  "metadata_route api str answer sid m =
     (case ma_config api sid m of
        None \<Rightarrow> Inl (HttpStatus 404 ''Server is not running'')
      | Some d \<Rightarrow>
          if \<not> ma_running api sid m then Inl (HttpStatus 404 ''Server is not running'')
          else (case answer (ri_port d) of
              Inl e \<Rightarrow> Inl (if is_exception e then HttpStatus 502 (str e) else e)
            | Inr (j, ok) \<Rightarrow> if ok then Inr j else Inl (HttpStatus 502 ''Invalid /v1/models response'')))"

end
