(* ===== verification/GufoSafety.thy ===== *)
theory GufoSafety
  imports GufoServers
begin

text \<open>
  What holds of the Gufo manager: its health status follows the specification shared with
  llama-server, a process that exited is never reported, starts are fenced and settle, the instance
  limit is kept, and what a failing start does to a process that is not its own.
\<close>

lemma gufo_process_published [simp]: "gufo_process s (gufo_publish e m) = gufo_process s m"
  by (simp add: gufo_process_def gufo_publish_def)

lemma gufo_publish_sel [simp]:
  "gm_servers (gufo_publish e m) = gm_servers m" "gm_configs (gufo_publish e m) = gm_configs m"
  "gm_start_times (gufo_publish e m) = gm_start_times m" "gm_health (gufo_publish e m) = gm_health m"
  "gm_healthy (gufo_publish e m) = gm_healthy m" "gm_failures (gufo_publish e m) = gm_failures m"
  "gm_successes (gufo_publish e m) = gm_successes m" "gm_events (gufo_publish e m) = gm_events m @ [e]"
  by (simp_all add: gufo_publish_def)

section \<open>Health\<close>

lemma gufo_record_tables [simp]:
  "gm_servers (gufo_record sid c ok err now m) = gm_servers m" "gm_configs (gufo_record sid c ok err now m) = gm_configs m"
  "gm_start_times (gufo_record sid c ok err now m) = gm_start_times m"
  by (simp_all add: gufo_record_def gufo_health_event_def Let_def)

fun gufo_change_of :: "uuid \<Rightarrow> gufo_event \<Rightarrow> (health_state \<times> health_state) list" where
  "gufo_change_of sid (GvHealth s p h n e g) = (if s = sid then [(p, h)] else [])"
| "gufo_change_of sid e = []"

definition gufo_check :: "uuid \<Rightarrow> time \<times> bool \<times> string option \<Rightarrow> gufo_manager \<Rightarrow> gufo_manager" where
  "gufo_check sid a m = snd (monitor_gufo sid \<lparr>gp_exit = None, gp_others = id, gp_answer = snd a, gp_now = fst a\<rparr> m)"

definition gufo_live :: "uuid \<Rightarrow> time \<Rightarrow> gufo_manager \<Rightarrow> bool" where
  "gufo_live sid t m \<longleftrightarrow> gufo_process sid m \<noteq> None \<and> gm_configs m sid \<noteq> None \<and> gm_start_times m sid = Some t"

text \<open>A failure counts once the process had its time to start.\<close>

definition answer_counts :: "time \<Rightarrow> time \<times> bool \<times> string option \<Rightarrow> bool" where
  "answer_counts t a \<longleftrightarrow> fst (snd a) \<or> t + GUFO_HEALTH_GRACE \<le> fst a"

lemma gufo_checked:
  assumes "gufo_live sid t m"
  obtains c where "gm_configs m sid = Some c" "gufo_check sid a m = gufo_record sid c (fst (snd a)) (snd (snd a)) (fst a) m"
  using assms by (auto simp: gufo_live_def gufo_check_def monitor_gufo_def give_def)

interpretation gufo_health: health_keeping "gufo_live sid t" "\<lambda>m. gm_health m sid" "\<lambda>m. count_of sid (gm_failures m)"
  "\<lambda>m. count_of sid (gm_successes m)" "\<lambda>m. concat (map (gufo_change_of sid) (gm_events m))" "\<lambda>a. fst (snd a)"
  "answer_counts t" "gufo_check sid" for sid t
proof
  fix m p and a :: "time \<times> bool \<times> string option"
  assume l: "gufo_live sid t m"
  then obtain c where m': "gufo_check sid a m = gufo_record sid c (fst (snd a)) (snd (snd a)) (fst a) m"
    by (rule gufo_checked)
  show "gufo_live sid t (gufo_check sid a m)"
    using l m' by (simp add: gufo_live_def gufo_process_def)
  have grace: "gufo_grace sid (fst a) m \<longleftrightarrow> fst a < t + GUFO_HEALTH_GRACE"
    using l by (auto simp: gufo_grace_def gufo_live_def)
  show "gufo_check sid a m = m" if "\<not> answer_counts t a"
    using that grace by (simp add: m' gufo_record_def answer_counts_def)
  assume counts: "answer_counts t a" and s: "gm_health m sid = Some p"
  let ?m = "gufo_check sid a m"
  show "count_of sid (gm_failures ?m) = 0 \<and> count_of sid (gm_successes ?m) = count_of sid (gm_successes m) + 1
      \<and> gm_health ?m sid = Some (if 2 \<le> count_of sid (gm_successes m) + 1 then Healthy else p)
      \<and> concat (map (gufo_change_of sid) (gm_events ?m)) = concat (map (gufo_change_of sid) (gm_events m))
        @ (if p = Unhealthy \<and> 2 \<le> count_of sid (gm_successes m) + 1 then [(Unhealthy, Healthy)] else [])" if "fst (snd a)"
    using that s unfolding m'
    by (cases p) (auto simp: gufo_record_def gufo_health_event_def GUFO_RECOVERY_THRESHOLD_def Let_def)
  show "count_of sid (gm_successes ?m) = 0 \<and> count_of sid (gm_failures ?m) = count_of sid (gm_failures m) + 1
      \<and> gm_health ?m sid = Some (if 3 \<le> count_of sid (gm_failures m) + 1 then Unhealthy else p)
      \<and> concat (map (gufo_change_of sid) (gm_events ?m)) = concat (map (gufo_change_of sid) (gm_events m))
        @ (if p = Healthy \<and> 3 \<le> count_of sid (gm_failures m) + 1 then [(Healthy, Unhealthy)] else [])" if "\<not> fst (snd a)"
    using that s counts grace unfolding m'
    by (cases p) (auto simp: gufo_record_def gufo_health_event_def GUFO_FAILURE_THRESHOLD_def Let_def answer_counts_def)
qed

text \<open>
  While a process runs, its status is the one the specification gives for the answers of its
  health endpoint that count: all that are good, and the bad ones from 900 seconds after its start.
\<close>

theorem gufo_health_refines_spec:
  assumes "gufo_live sid t m" "gm_events m = []"
  shows "gm_health (fold (gufo_check sid) as (mark_gufo_healthy sid m)) sid =
      Some (health_spec (rev (map (fst \<circ> snd) (filter (answer_counts t) as))))
    \<and> concat (map (gufo_change_of sid) (gm_events (fold (gufo_check sid) as (mark_gufo_healthy sid m)))) =
      health_changes (rev (map (fst \<circ> snd) (filter (answer_counts t) as)))"
proof -
  let ?m = "mark_gufo_healthy sid m"
  have "gufo_live sid t ?m" using assms(1) by (simp add: gufo_live_def mark_gufo_healthy_def gufo_process_def)
  moreover have "gm_health ?m sid = Some Healthy" "count_of sid (gm_failures ?m) = 0" "count_of sid (gm_successes ?m) = 0"
    "concat (map (gufo_change_of sid) (gm_events ?m)) = []"
    using assms(2) by (simp_all add: mark_gufo_healthy_def count_of_def)
  ultimately show ?thesis using gufo_health.keeps_spec [of sid t ?m "[]" as] by (simp add: comp_def)
qed

section \<open>A process that exited\<close>

fun gufo_event_server :: "gufo_event \<Rightarrow> uuid" where
  "gufo_event_server (GvStarted s p n g c a k) = s"
| "gufo_event_server (GvStopped s g) = s"
| "gufo_event_server (GvError s t g) = s"
| "gufo_event_server (GvHealth s p h n e g) = s"
| "gufo_event_server (GvLog s n st l) = s"

text \<open>All the manager shows of a server.\<close>

definition shown_of :: "uuid \<Rightarrow> gufo_manager
    \<Rightarrow> nat option \<times> gufo_config option \<times> bool \<times> health_state option \<times> time option \<times> int option \<times> gufo_event list" where
  "shown_of sid m = (gufo_process sid m, gm_configs m sid, sid \<in> gm_healthy m, gm_health m sid, gm_start_times m sid,
     gm_generations m sid, filter (\<lambda>e. gufo_event_server e = sid) (gm_events m))"

lemma shown_after_record: "s \<noteq> sid \<Longrightarrow> shown_of s (gufo_record sid c ok err now m) = shown_of s m"
  by (auto simp: shown_of_def gufo_process_def gufo_record_def gufo_health_event_def gufo_publish_def Let_def)

lemma shown_after_check:
  assumes "gp_others p = id" "s = sid \<Longrightarrow> gp_exit p \<noteq> None"
  shows "shown_of s (snd (monitor_gufo sid p m)) = shown_of s m"
  using assms shown_after_record [of s sid]
  by (cases "s = sid") (auto simp: monitor_gufo_def gufo_fence_def and_then_def change_def throw_def give_def shown_of_def
      gufo_process_def split: option.splits)

lemma shown_after_round:
  assumes "\<forall>s. gp_others (probe s) = id" "gp_exit (probe sid) \<noteq> None"
  shows "shown_of sid (gufo_health_round probe m) = shown_of sid m"
proof -
  have "shown_of sid (fold (\<lambda>s m. snd (monitor_gufo s (probe s) m)) ss m) = shown_of sid m" for ss
  proof (induction ss arbitrary: m)
    case (Cons s ss)
    have "shown_of sid (snd (monitor_gufo s (probe s) m)) = shown_of sid m"
      using assms by (intro shown_after_check) auto
    with Cons show ?case by simp
  qed simp
  then show ?thesis by (simp add: gufo_health_round_def)
qed

text \<open>
  A Gufo process that exits is never reported. However many rounds of the health monitor find it
  exited, nothing the manager shows of the server changes: it stays in the table, running and
  healthy as before, no event of it is published, and a start that is not newer is refused.
\<close>

theorem gufo_exit_unnoticed:
  assumes "\<forall>probe\<in>set rounds. (\<forall>s. gp_others (probe s) = id) \<and> gp_exit (probe sid) \<noteq> None"
    "gufo_process sid m = Some proc" "gm_configs m sid = Some d"
  shows "shown_of sid (fold gufo_health_round rounds m) = shown_of sid m
    \<and> (gc_generation c \<le> gc_generation d \<longrightarrow>
      start_gufo x sid c (fold gufo_health_round rounds m) = (Inr False, fold gufo_health_round rounds m))"
proof -
  have shown: "shown_of sid (fold gufo_health_round rounds m) = shown_of sid m"
    using assms(1) by (induction rounds arbitrary: m) (auto simp: shown_after_round)
  with assms(2,3) show ?thesis
    by (simp add: start_gufo_def admit_gufo_def gufo_config_at_def and_then_def give_def shown_of_def)
qed

section \<open>Starts\<close>

definition gufo_outdated :: "uuid \<Rightarrow> gufo_config \<Rightarrow> gufo_manager \<Rightarrow> bool" where
  "gufo_outdated sid c m = (case gufo_process sid m of
     Some _ \<Rightarrow> (case gm_configs m sid of Some d \<Rightarrow> gc_generation c \<le> gc_generation d | None \<Rightarrow> False)
   | None \<Rightarrow> fenced_generation (gufo_latest sid m) (gc_generation c))"

lemma gufo_start_outdated: "gufo_outdated sid c m \<Longrightarrow> start_gufo x sid c m = (Inr False, m)"
  by (auto simp: gufo_outdated_def start_gufo_def admit_gufo_def gufo_not_fenced_def gufo_config_at_def and_then_def give_def
      split: option.splits)


section \<open>The instance limit\<close>

text \<open>What other tasks do while a start awaits something.\<close>

definition gufo_others :: "gufo_start \<Rightarrow> (gufo_manager \<Rightarrow> gufo_manager) set" where
  "gufo_others x = {gt_fencing (gs_stop x), gt_waiting (gs_stop x), gs_reaping x} \<union> gr_others ` set (gs_rounds x)"

definition within_limit :: "nat \<Rightarrow> gufo_manager \<Rightarrow> bool" where
  "within_limit n m \<longleftrightarrow> length (gm_servers m) \<le> n"

interpretation limited: phase "within_limit n" "\<lambda>_. within_limit n" "\<lambda>_. True" for n
  by unfold_locales

lemma within_limit_simps [simp]:
  "within_limit n (gufo_publish e m) = within_limit n m" "within_limit n (gufo_clear_health sid m) = within_limit n m"
  "within_limit n (kill_group p f m) = within_limit n m" "within_limit n (gm_logs_update l m) = within_limit n m"
  "within_limit n (gm_fenced_update g m) = within_limit n m" "within_limit n (mark_gufo_healthy sid m) = within_limit n m"
  "within_limit n (kill_leftover alive live proc m) = within_limit n m" "within_limit n (gufo_log_readers sid m) = within_limit n m"
  by (auto simp: within_limit_def gufo_publish_def gufo_clear_health_def kill_group_def mark_gufo_healthy_def kill_leftover_def
      gufo_log_readers_def Let_def split: option.splits)

lemma within_limit_forget: "within_limit n m \<Longrightarrow> within_limit n (gufo_forget sid m)"
  by (auto simp: within_limit_def gufo_forget_def AList.delete_eq case_prod_unfold intro: order_trans [OF length_filter_le])

lemma length_update_Suc: "length (AList.update k v xs) \<le> Suc (length xs)"
  by (induction xs) auto

lemma within_limit_install:
  "length (gm_servers m) < n \<Longrightarrow> within_limit n (install_gufo sid c proc now m)"
  using length_update_Suc [of sid proc "gm_servers m"] by (simp add: install_gufo_def) (simp add: within_limit_def)

lemma within_limit_drain: "within_limit n (gufo_drain sid out m) = within_limit n m"
  by (induction sid out m rule: gufo_drain.induct) simp_all

lemma limited_at: "limited.stays_in n (gufo_config_at sid)" "limited.stays_in n (gufo_process_at sid)"
  by (auto simp: hoare_def gufo_config_at_def gufo_process_at_def throw_def give_def split: option.split)

lemma limited_stop:
  assumes "\<And>m. within_limit n m \<Longrightarrow> within_limit n (gt_fencing t m)" "\<And>m. within_limit n m \<Longrightarrow> within_limit n (gt_waiting t m)"
  shows "limited.stays_in n (stop_gufo sid force gen t)"
  unfolding stop_gufo_def [abs_def] gufo_fence_def
  by (auto intro!: hoare_split limited.bind limited.return limited.update limited_at assms within_limit_forget simp: Let_def)

lemma limited_wait:
  assumes "\<And>w m. w \<in> set ws \<Longrightarrow> within_limit n m \<Longrightarrow> within_limit n (gr_others w m)" "within_limit n m"
  shows "within_limit n (snd (gufo_wait sid ws m))"
  using assms
  by (induction ws arbitrary: m)
    (auto simp: throw_def give_def within_limit_drain Let_def split: option.split sum.split)

text \<open>
  The instance limit of Gufo is kept. Nothing is awaited between its check and the entry in the
  table: if what others do never crosses the limit, no start does, whatever its outcome.
\<close>

lemma limited_start_locked:
  assumes "\<And>f m. f \<in> gufo_others x \<Longrightarrow> within_limit (gs_limit x) m \<Longrightarrow> within_limit (gs_limit x) (f m)"
    "within_limit (gs_limit x) m"
  shows "within_limit (gs_limit x) (snd (start_gufo_locked x sid c m))"
proof (cases "gs_limit x \<le> length (gm_servers m)")
  case True
  with assms(2) show ?thesis by (simp add: start_gufo_locked_def throw_def)
next
  case False
  let ?n = "gs_limit x"
  have failed: "within_limit ?n m' \<Longrightarrow> within_limit ?n (gufo_start_failed x sid c proc e m')" for proc e m'
    unfolding gufo_start_failed_def within_limit_simps
    by (rule assms(1)) (simp_all add: gufo_others_def within_limit_forget)
  have "within_limit ?n (snd (gufo_wait sid (gs_rounds x) m'))" if "within_limit ?n m'" for m'
  proof (rule limited_wait [OF _ that])
    fix w m'
    assume "w \<in> set (gs_rounds x)" "within_limit ?n m'"
    then show "within_limit ?n (gr_others w m')" using assms(1) [of "gr_others w" m'] by (simp add: gufo_others_def)
  qed
  then have wait: "limited.stays_in ?n (gufo_wait sid (gs_rounds x))" by (simp add: hoare_snd)
  have install: "hoare (\<lambda>m'. m' = m) (change (install_gufo sid c proc (gs_now x))) (\<lambda>_. within_limit ?n) (\<lambda>_. within_limit ?n)" for proc
    using False by (intro hoare_change) (simp add: within_limit_install)
  have "hoare (\<lambda>m'. m' = m) (bring_up_gufo x sid c proc) (\<lambda>_. within_limit ?n) (\<lambda>_. within_limit ?n)" for proc
    unfolding bring_up_gufo_def
    by (auto intro!: hoare_bind [OF install] limited.bind limited.return limited.update limited_at wait)
  then have up: "within_limit ?n (snd (bring_up_gufo x sid c proc m))" for proc by (simp add: hoare_snd)
  have "within_limit ?n (snd (case bring_up_gufo x sid c proc m of
      (Inl e, m1) \<Rightarrow> if is_exception e then give False (gufo_start_failed x sid c (Some proc) e m1) else throw e m1
    | res \<Rightarrow> res))" for proc
    using up [of proc] by (auto simp: give_def throw_def failed split: prod.splits sum.splits)
  with False assms(2) failed show ?thesis
    by (auto simp: start_gufo_locked_def and_then_def await_answer_def give_def throw_def split: answer.splits sum.splits)
qed

theorem gufo_limit_kept:
  assumes "\<forall>f\<in>gufo_others x. \<forall>m. length (gm_servers m) \<le> gs_limit x \<longrightarrow> length (gm_servers (f m)) \<le> gs_limit x"
    "length (gm_servers m) \<le> gs_limit x"
  shows "length (gm_servers (snd (start_gufo x sid c m))) \<le> gs_limit x"
proof -
  let ?n = "gs_limit x"
  have keep: "f \<in> gufo_others x \<Longrightarrow> within_limit ?n m' \<Longrightarrow> within_limit ?n (f m')" for f m'
    using assms(1) by (auto simp: within_limit_def)
  have stop: "limited.stays_in ?n (stop_gufo sid False gen (gs_stop x))" for gen
    using keep [of "gt_fencing (gs_stop x)"] keep [of "gt_waiting (gs_stop x)"]
    by (intro limited_stop) (simp_all add: gufo_others_def)
  have fenced: "limited.stays_in ?n (gufo_not_fenced sid c)"
    by (simp add: hoare_def gufo_not_fenced_def give_def)
  have admit: "limited.stays_in ?n (admit_gufo x sid c)"
    unfolding admit_gufo_def [abs_def]
    by (auto intro!: hoare_split limited.bind limited.return stop fenced limited_at)
  have "limited.stays_in ?n (start_gufo_locked x sid c)"
    unfolding hoare_snd using limited_start_locked [of x] keep by blast
  then have "limited.stays_in ?n (start_gufo x sid c)"
    unfolding start_gufo_def by (auto intro!: limited.bind admit limited.return)
  then show ?thesis using assms(2) by (simp add: hoare_snd within_limit_def)
qed


section \<open>How a start settles\<close>

definition gufo_quiet :: "gufo_start \<Rightarrow> bool" where
  "gufo_quiet x \<longleftrightarrow> (\<forall>f\<in>gufo_others x. f = id)"

definition gufo_elsewhere :: "uuid \<Rightarrow> gufo_manager \<Rightarrow> gufo_manager \<Rightarrow> bool" where
  "gufo_elsewhere sid m m' \<longleftrightarrow> (\<forall>s. s \<noteq> sid \<longrightarrow> gufo_process s m' = gufo_process s m \<and> gm_configs m' s = gm_configs m s)"

definition gufo_gone :: "uuid \<Rightarrow> gufo_manager \<Rightarrow> gufo_manager \<Rightarrow> bool" where
  "gufo_gone sid m m' \<longleftrightarrow> gufo_process sid m' = None \<and> gm_configs m' sid = None \<and> gufo_elsewhere sid m m'"

definition gufo_running :: "uuid \<Rightarrow> gufo_config \<Rightarrow> nat \<Rightarrow> gufo_manager \<Rightarrow> gufo_manager \<Rightarrow> bool" where
  "gufo_running sid c proc m m' \<longleftrightarrow> gufo_process sid m' = Some proc \<and> gm_configs m' sid = Some c \<and> gufo_elsewhere sid m m'"

definition gufo_announced :: "uuid \<Rightarrow> gufo_config \<Rightarrow> gufo_manager \<Rightarrow> bool" where
  "gufo_announced sid c m \<longleftrightarrow> sid \<in> gm_healthy m \<and> gm_health m sid = Some Healthy
     \<and> (\<exists>n k. last (gm_events m) = GvStarted sid (gc_model_path c) (gc_port c) (gc_generation c) (gufo_capacity c) n k)"

lemma gufo_tables [simp]:
  "gufo_process s (gufo_forget sid m) = (if s = sid then None else gufo_process s m)"
  "gufo_process s (gufo_clear_health sid m) = gufo_process s m"
  "gufo_process s (kill_group p f m) = gufo_process s m" "gm_configs (kill_group p f m) = gm_configs m"
  "gufo_process s (gm_logs_update l m) = gufo_process s m" "gufo_process s (gm_fenced_update g m) = gufo_process s m"
  "gm_configs (gufo_forget sid m) = (gm_configs m)(sid := None)" "gm_configs (gufo_clear_health sid m) = gm_configs m"
  "gufo_process s (mark_gufo_healthy sid m) = gufo_process s m" "gm_configs (mark_gufo_healthy sid m) = gm_configs m"
  "gufo_process s (kill_leftover alive live own m) = gufo_process s m"
  "gm_configs (kill_leftover alive live own m) = gm_configs m"
  "gufo_process s (install_gufo sid c proc now m) = (if s = sid then Some proc else gufo_process s m)"
  "gm_configs (install_gufo sid c proc now m) = (gm_configs m)(sid \<mapsto> c)"
  "gufo_process s (gufo_drain sid out m) = gufo_process s m" "gm_configs (gufo_drain sid out m) = gm_configs m"
proof -
  show "gufo_process s (gufo_drain sid out m) = gufo_process s m"
    by (induction sid out m rule: gufo_drain.induct) (simp_all add: gufo_process_def)
  show "gm_configs (gufo_drain sid out m) = gm_configs m"
    by (induction sid out m rule: gufo_drain.induct) simp_all
qed (simp_all add: gufo_process_def gufo_forget_def gufo_clear_health_def kill_group_def mark_gufo_healthy_def
    kill_leftover_def install_gufo_def gufo_log_readers_def Let_def delete_conv' update_conv' split: option.split)

lemma gufo_stop_quiet:
  assumes "gt_fencing t = id" "gt_waiting t = id" "gufo_process sid m \<noteq> None" "gm_configs m sid = Some d"
  shows "\<exists>m'. stop_gufo sid force (Some (gc_generation d)) t m = (Inr True, m') \<and> gufo_gone sid m m'"
  using assms
  by (auto simp: stop_gufo_def gufo_config_at_def gufo_fence_def gufo_process_at_def and_then_def change_def give_def
      gufo_gone_def gufo_elsewhere_def Let_def)

lemma gufo_wait_quiet:
  assumes "\<forall>w\<in>set ws. gr_others w = id" "gufo_running sid c proc m0 m"
  shows "gufo_running sid c proc m0 (snd (gufo_wait sid ws m))"
  using assms
proof (induction ws)
  case (Cons w ws)
  then have "gr_others w = id" and go: "gufo_running sid c proc m0 (snd (gufo_wait sid ws m))" by auto
  with Cons.prems(2) show ?case
    by (cases "gufo_process sid m"; cases "gr_exit w"; cases "gr_check w")
      (auto simp: throw_def give_def gufo_running_def gufo_elsewhere_def Let_def)
qed (simp add: throw_def)

lemma gufo_up_quiet:
  assumes "gufo_quiet x" "gufo_elsewhere sid m0 m" "bring_up_gufo x sid c proc m = (r, m')"
  shows "gufo_running sid c proc m0 m' \<and> (r = Inr True \<and> gufo_announced sid c m' \<or> (\<exists>e. r = Inl e))"
proof -
  let ?R = "gufo_running sid c proc m0"
  have install: "hoare (\<lambda>m'. m' = m) (change (install_gufo sid c proc (gs_now x))) (\<lambda>_. ?R) (\<lambda>_. ?R)"
    using assms(2) by (intro hoare_change) (simp add: gufo_running_def gufo_elsewhere_def)
  have "\<forall>w\<in>set (gs_rounds x). gr_others w = id" using assms(1) by (auto simp: gufo_quiet_def gufo_others_def)
  then have wait: "hoare ?R (gufo_wait sid (gs_rounds x)) (\<lambda>_. ?R) (\<lambda>_. ?R)"
    by (simp add: hoare_snd gufo_wait_quiet)
  have rest: "hoare ?R (and_then (change (mark_gufo_healthy sid)) (\<lambda>_.
     and_then (gufo_config_at sid) (\<lambda>d.
     and_then (change (\<lambda>m. gufo_publish (GvStarted sid (gc_model_path c) (gc_port c) (gc_generation c) (gufo_capacity d)
         (count_or_0 (gm_active m) sid) (count_or_0 (gm_connections m) sid)) m)) (\<lambda>_.
     give True)))) (\<lambda>b m. ?R m \<and> b \<and> gufo_announced sid c m) (\<lambda>_. ?R)"
    by (auto simp: hoare_def and_then_def change_def gufo_config_at_def give_def gufo_running_def gufo_elsewhere_def
        gufo_announced_def) (simp_all add: mark_gufo_healthy_def)
  have "hoare (\<lambda>m'. m' = m) (bring_up_gufo x sid c proc) (\<lambda>b m. ?R m \<and> b \<and> gufo_announced sid c m) (\<lambda>_. ?R)"
    unfolding bring_up_gufo_def by (intro hoare_bind [OF install] hoare_bind [OF wait] rest)
  from hoareD [OF this refl assms(3)] show ?thesis by (cases r) auto
qed

text \<open>What a start leaves: refused, failed and cleaned up, running, or left by a cancellation.\<close>

definition gufo_failed :: "gufo_start \<Rightarrow> uuid \<Rightarrow> gufo_config \<Rightarrow> gufo_manager \<Rightarrow> bool" where
  "gufo_failed x sid c m \<longleftrightarrow> (\<exists>t. last (gm_events m) = GvError sid t (gc_generation c))
     \<and> (\<forall>p. gs_spawn x (gufo_command (gs_exe x) (gs_dir x) c) = Inr p \<longrightarrow> gs_alive x p \<longrightarrow> (p, True) \<in> set (gm_signals m))"

lemma gufo_failed_leaves:
  assumes "gufo_quiet x" "gufo_elsewhere sid m0 m"
    "\<forall>q. gs_spawn x (gufo_command (gs_exe x) (gs_dir x) c) = Inr q \<longrightarrow> gufo_process sid m = Some q"
  shows "gufo_gone sid m0 (gufo_start_failed x sid c proc e m) \<and> gufo_failed x sid c (gufo_start_failed x sid c proc e m)"
proof -
  have "gs_reaping x = id" using assms(1) by (auto simp: gufo_quiet_def gufo_others_def)
  with assms(2,3) show ?thesis
    by (auto simp: gufo_start_failed_def gufo_gone_def gufo_elsewhere_def gufo_failed_def)
      (simp_all add: kill_leftover_def kill_group_def gufo_publish_def)
qed

lemma gufo_locked_quiet:
  assumes "gufo_quiet x" "gufo_gone sid m0 m" "start_gufo_locked x sid c m = (r, m')"
  shows "case r of
      Inr True \<Rightarrow> (\<exists>proc. gufo_running sid c proc m0 m') \<and> gufo_announced sid c m'
    | Inr False \<Rightarrow> gufo_gone sid m0 m' \<and> gufo_failed x sid c m'
    | Inl e \<Rightarrow> gufo_gone sid m0 m' \<or> \<not> is_exception e \<and> (\<exists>proc. gufo_running sid c proc m0 m')"
proof (cases "gs_limit x \<le> length (gm_servers m) \<or> option_on (gc_options c) ''cache_disk'' \<and> gs_mkdir x \<noteq> Answered")
  case True
  with assms(2,3) show ?thesis
    by (cases "gs_mkdir x") (auto simp: start_gufo_locked_def throw_def and_then_def await_answer_def split: if_splits)
next
  case False
  have away: "gufo_elsewhere sid m0 m" using assms(2) by (simp add: gufo_gone_def)
  show ?thesis
  proof (cases "gs_spawn x (gufo_command (gs_exe x) (gs_dir x) c)")
    case (Inl e)
    with False assms(3) have "r = Inr False" "m' = gufo_start_failed x sid c None e m"
      by (auto simp: start_gufo_locked_def and_then_def await_answer_def give_def split: if_splits)
    with gufo_failed_leaves [OF assms(1) away, of c None e] Inl show ?thesis by simp
  next
    case (Inr proc)
    obtain s m1 where up: "bring_up_gufo x sid c proc m = (s, m1)" by fastforce
    note u = gufo_up_quiet [OF assms(1) away up]
    then have away1: "gufo_elsewhere sid m0 m1" "gufo_process sid m1 = Some proc" by (auto simp: gufo_running_def)
    have eq: "(r, m') = (case (s, m1) of
        (Inl e, m1) \<Rightarrow> if is_exception e then give False (gufo_start_failed x sid c (Some proc) e m1) else throw e m1
      | res \<Rightarrow> res)"
      using False Inr up assms(3) by (auto simp: start_gufo_locked_def and_then_def await_answer_def give_def split: if_splits)
    show ?thesis
    proof (cases s)
      case (Inl e)
      with eq u away1 Inr gufo_failed_leaves [OF assms(1) away1(1), of c "Some proc" e] show ?thesis
        by (cases "is_exception e") (auto simp: give_def throw_def)
    next
      case (Inr b)
      with eq u show ?thesis by auto
    qed
  qed
qed

text \<open>The tables agree on a server, and the generation recorded last is that of its process.\<close>

definition gufo_matched :: "uuid \<Rightarrow> gufo_manager \<Rightarrow> bool" where
  "gufo_matched sid m \<longleftrightarrow> (gufo_process sid m = None \<longleftrightarrow> gm_configs m sid = None)
     \<and> (\<forall>d. gm_configs m sid = Some d \<longrightarrow> gufo_latest sid m = gc_generation d)"

lemma gufo_admit_quiet:
  assumes "gufo_quiet x" "gufo_matched sid m" "\<not> gufo_outdated sid c m"
  shows "\<exists>m1. admit_gufo x sid c m = (Inr True, m1) \<and> gufo_gone sid m m1"
proof (cases "gufo_process sid m")
  case None
  with assms show ?thesis
    by (auto simp: admit_gufo_def gufo_not_fenced_def give_def gufo_outdated_def gufo_gone_def gufo_elsewhere_def gufo_matched_def)
next
  case (Some p)
  with assms(2) obtain d where d: "gm_configs m sid = Some d" "gufo_latest sid m = gc_generation d"
    by (auto simp: gufo_matched_def)
  have t: "gt_fencing (gs_stop x) = id" "gt_waiting (gs_stop x) = id" using assms(1) by (auto simp: gufo_quiet_def gufo_others_def)
  obtain m1 where m1: "stop_gufo sid False (Some (gc_generation d)) (gs_stop x) m = (Inr True, m1)" "gufo_gone sid m m1"
    using gufo_stop_quiet [OF t, of sid m d False] Some d by auto
  have "gm_generations m1 = gm_generations m"
    using m1(1) t Some d
    by (auto simp: stop_gufo_def gufo_config_at_def gufo_fence_def gufo_process_at_def and_then_def change_def give_def Let_def
        gufo_publish_def gufo_clear_health_def gufo_forget_def kill_group_def split: if_splits)
  then have "gufo_latest sid m1 = gc_generation d" using d by (simp add: gufo_latest_def)
  with Some d m1 assms(3) show ?thesis
    by (auto simp: admit_gufo_def gufo_config_at_def gufo_not_fenced_def and_then_def give_def gufo_outdated_def fenced_generation_def)
qed

text \<open>
  Claim C37: a start of Gufo settles. With nothing else going on: an outdated one answers False and changes
  nothing; True leaves the new process running, healthy and announced; False otherwise leaves no
  process, and where one was spawned and still runs it was killed and the error published; an
  exception that is not a cancellation leaves no process either; other servers keep theirs.
\<close>

theorem gufo_start_settles:
  assumes "gufo_quiet x" "gufo_matched sid m" "start_gufo x sid c m = (r, m')"
  shows "(gufo_outdated sid c m \<longrightarrow> r = Inr False \<and> m' = m)
    \<and> (r = Inr True \<longrightarrow> (\<exists>proc. gufo_running sid c proc m m') \<and> gufo_announced sid c m')
    \<and> (r = Inr False \<longrightarrow> \<not> gufo_outdated sid c m \<longrightarrow> gufo_gone sid m m' \<and> gufo_failed x sid c m')
    \<and> (\<forall>e. r = Inl e \<longrightarrow> is_exception e \<longrightarrow> gufo_gone sid m m')
    \<and> gufo_elsewhere sid m m'"
proof (cases "gufo_outdated sid c m")
  case True
  with gufo_start_outdated [OF True, of x] assms(3) show ?thesis by (simp add: gufo_elsewhere_def)
next
  case False
  obtain m1 where m1: "admit_gufo x sid c m = (Inr True, m1)" "gufo_gone sid m m1"
    using gufo_admit_quiet [OF assms(1,2) False] by blast
  with assms(3) have "start_gufo_locked x sid c m1 = (r, m')" by (simp add: start_gufo_def and_then_def)
  with gufo_locked_quiet [OF assms(1) m1(2) this] False show ?thesis
    by (auto simp: gufo_gone_def gufo_running_def split: sum.splits bool.splits)
qed


section \<open>Concrete runs\<close>

definition empty_gufo :: gufo_manager where
  "empty_gufo = \<lparr>gm_servers = [], gm_configs = (\<lambda>_. None), gm_generations = (\<lambda>_. None), gm_healthy = {}, gm_health = (\<lambda>_. None),
     gm_failures = (\<lambda>_. None), gm_successes = (\<lambda>_. None), gm_errors = (\<lambda>_. None), gm_start_times = (\<lambda>_. None),
     gm_logs = (\<lambda>_. None), gm_forwarding = True, gm_readers = (\<lambda>_. None), gm_active = (\<lambda>_. None), gm_connections = (\<lambda>_. None),
     gm_fenced = [], gm_signals = [], gm_events = []\<rparr>"

definition ex_gufo :: "int \<Rightarrow> gufo_config" where
  "ex_gufo g = \<lparr>gc_model_path = ''m'', gc_port = 9001, gc_options = [(''sessions'', OptInt 2)], gc_generation = g\<rparr>"

definition ex_gufo_start :: "nat \<Rightarrow> gufo_round list \<Rightarrow> gufo_start" where
  "ex_gufo_start pid rounds = \<lparr>gs_limit = 2, gs_exe = ''gufo'', gs_dir = ''/c'',
     gs_stop = \<lparr>gt_fencing = id, gt_waiting = id, gt_slow = False\<rparr>, gs_mkdir = Answered, gs_spawn = (\<lambda>_. Inr pid),
     gs_rounds = rounds, gs_alive = (\<lambda>_. True), gs_reaping = id, gs_str = (\<lambda>_. ''e''), gs_now = 5\<rparr>"

definition ex_round :: gufo_round where
  "ex_round = \<lparr>gr_exit = None, gr_output = [], gr_others = id, gr_check = Inr True\<rparr>"

definition ex_gufo_up :: gufo_manager where
  "ex_gufo_up = empty_gufo\<lparr>gm_servers := [(7, 31)], gm_configs := [7 \<mapsto> ex_gufo 1], gm_generations := [7 \<mapsto> 1],
     gm_healthy := {7}, gm_health := [7 \<mapsto> Healthy], gm_failures := [7 \<mapsto> 0], gm_successes := [7 \<mapsto> 0], gm_errors := [7 \<mapsto> None],
     gm_start_times := [7 \<mapsto> 5], gm_readers := [7 \<mapsto> {''stdout'', ''stderr''}], gm_events := [GvStarted 7 ''m'' 9001 1 2 0 0]\<rparr>"

lemmas run_gufo = start_gufo_def admit_gufo_def gufo_not_fenced_def start_gufo_locked_def bring_up_gufo_def gufo_config_at_def
  stop_gufo_def gufo_fence_def gufo_process_at_def and_then_def change_def give_def throw_def await_answer_def
  fenced_generation_def gufo_latest_def gufo_publish_def install_gufo_def gufo_log_readers_def gufo_forget_def
  gufo_clear_health_def mark_gufo_healthy_def kill_group_def gufo_process_def gufo_capacity_def opt_int_def option_on_def
  count_or_0_def is_exception_def ex_gufo_def ex_gufo_start_def ex_round_def empty_gufo_def Let_def

lemma ex_gufo_started: "start_gufo (ex_gufo_start 31 [ex_round]) 7 (ex_gufo 1) empty_gufo = (Inr True, ex_gufo_up)"
  by (simp add: run_gufo ex_gufo_up_def)

theorem gufo_start_settles_witness: "\<exists>proc. gufo_running 7 (ex_gufo 1) proc empty_gufo ex_gufo_up"
proof -
  have quiet: "gufo_quiet (ex_gufo_start 31 [ex_round])"
    by (simp add: gufo_quiet_def gufo_others_def ex_gufo_start_def ex_round_def)
  have matched: "gufo_matched 7 empty_gufo" by (simp add: gufo_matched_def gufo_process_def empty_gufo_def)
  from gufo_start_settles [OF quiet matched ex_gufo_started] show ?thesis by simp
qed

theorem gufo_exit_unnoticed_witness:
  "let probe = \<lambda>_. \<lparr>gp_exit = Some 137, gp_others = id, gp_answer = (False, None), gp_now = 9\<rparr>
   in gufo_process 7 (fold gufo_health_round [probe, probe] ex_gufo_up) = Some 31
      \<and> gm_health (fold gufo_health_round [probe, probe] ex_gufo_up) 7 = Some Healthy"
proof -
  let ?p = "\<lambda>_ :: uuid. \<lparr>gp_exit = Some 137, gp_others = id, gp_answer = (False, None), gp_now = 9\<rparr>"
  have m: "gufo_process 7 ex_gufo_up = Some 31" "gm_configs ex_gufo_up 7 = Some (ex_gufo 1)"
    by (simp_all add: ex_gufo_up_def gufo_process_def)
  have p: "\<forall>probe\<in>set [?p, ?p]. (\<forall>s. gp_others (probe s) = id) \<and> gp_exit (probe 7) \<noteq> None" by simp
  have shown: "shown_of 7 (fold gufo_health_round [?p, ?p] ex_gufo_up) = shown_of 7 ex_gufo_up"
    using gufo_exit_unnoticed [OF p m, THEN conjunct1] .
  have "gm_health ex_gufo_up 7 = Some Healthy" by (simp add: ex_gufo_up_def)
  with shown m(1) show ?thesis by (simp only: Let_def shown_of_def prod.inject simp_thms)
qed

text \<open>
  The locks do not keep starts apart (\<open>starts_overlap\<close>), and a start that fails cleans up what the
  table holds: it was overtaken by a newer one while it waited, and it kills and forgets the
  process of that one, which is healthy and announced, and which is then fenced.
\<close>

definition ex_gufo_waiting :: gufo_manager where
  "ex_gufo_waiting = empty_gufo\<lparr>gm_servers := [(7, 31)], gm_configs := [7 \<mapsto> ex_gufo 1], gm_generations := [7 \<mapsto> 1],
     gm_start_times := [7 \<mapsto> 5], gm_readers := [7 \<mapsto> {''stdout'', ''stderr''}]\<rparr>"

definition ex_gufo_overtaken :: gufo_manager where
  "ex_gufo_overtaken = ex_gufo_up\<lparr>gm_servers := [(7, 32)], gm_configs := [7 \<mapsto> ex_gufo 2], gm_generations := [7 \<mapsto> 2],
     gm_fenced := [7], gm_signals := [(31, False)], gm_events := [GvStopped 7 1, GvStarted 7 ''m'' 9001 2 2 0 0]\<rparr>"

lemma ex_gufo_waits: "install_gufo 7 (ex_gufo 1) 31 5 empty_gufo = ex_gufo_waiting"
  by (simp add: run_gufo ex_gufo_waiting_def)

lemma ex_gufo_overtakes: "start_gufo (ex_gufo_start 32 [ex_round]) 7 (ex_gufo 2) ex_gufo_waiting = (Inr True, ex_gufo_overtaken)"
  by (simp add: run_gufo ex_gufo_waiting_def ex_gufo_overtaken_def ex_gufo_up_def)

theorem gufo_failed_start_kills_other:
  "let newer = \<lambda>m. snd (start_gufo (ex_gufo_start 32 [ex_round]) 7 (ex_gufo 2) m);
       (r, m) = start_gufo (ex_gufo_start 31 [ex_round\<lparr>gr_others := newer, gr_check := Inr False\<rparr>]) 7 (ex_gufo 1) empty_gufo
   in r = Inr False \<and> gm_signals m = [(31, False), (32, True)] \<and> gufo_process 7 m = None \<and> gufo_outdated 7 (ex_gufo 2) m
      \<and> gm_events m = [GvStopped 7 1, GvStarted 7 ''m'' 9001 2 2 0 0, GvError 7 ''e'' 1]"
proof -
  let ?newer = "\<lambda>m. snd (start_gufo (ex_gufo_start 32 [ex_round]) 7 (ex_gufo 2) m)"
  let ?x = "ex_gufo_start 31 [ex_round\<lparr>gr_others := ?newer, gr_check := Inr False\<rparr>]"
  have x: "gs_rounds ?x = [ex_round\<lparr>gr_others := ?newer, gr_check := Inr False\<rparr>]" "gs_now ?x = 5"
    by (simp_all add: ex_gufo_start_def)
  have wait: "gufo_wait 7 (gs_rounds ?x) ex_gufo_waiting =
      (Inl (TimeoutError (''Gufo server '' @ show_nat 7 @ '' failed to start'')), ex_gufo_overtaken)"
    unfolding x by (simp add: ex_round_def throw_def ex_gufo_overtakes [unfolded ex_round_def] split: option.split)
  have up: "bring_up_gufo ?x 7 (ex_gufo 1) 31 empty_gufo =
      (Inl (TimeoutError (''Gufo server '' @ show_nat 7 @ '' failed to start'')), ex_gufo_overtaken)"
    unfolding bring_up_gufo_def and_then_def change_def x(2) ex_gufo_waits by (simp add: wait)
  have "admit_gufo ?x 7 (ex_gufo 1) empty_gufo = (Inr True, empty_gufo)"
    by (simp add: admit_gufo_def gufo_not_fenced_def give_def gufo_process_def empty_gufo_def gufo_latest_def fenced_generation_def
        ex_gufo_def)
  moreover have "start_gufo_locked ?x 7 (ex_gufo 1) empty_gufo =
      (Inr False, gufo_start_failed ?x 7 (ex_gufo 1) (Some 31)
        (TimeoutError (''Gufo server '' @ show_nat 7 @ '' failed to start'')) ex_gufo_overtaken)"
  proof -
    have "gs_limit ?x = 2" "gs_spawn ?x = (\<lambda>_. Inr 31)" "\<not> option_on (gc_options (ex_gufo 1)) ''cache_disk''" "gm_servers empty_gufo = []"
      by (simp_all add: ex_gufo_start_def ex_gufo_def option_on_def empty_gufo_def)
    with up show ?thesis by (simp add: start_gufo_locked_def and_then_def give_def is_exception_def)
  qed
  ultimately show ?thesis
    by (simp add: start_gufo_def and_then_def Let_def)
      (simp add: gufo_start_failed_def kill_leftover_def kill_group_def gufo_forget_def gufo_clear_health_def gufo_publish_def
        gufo_process_def ex_gufo_overtaken_def ex_gufo_up_def gufo_outdated_def gufo_latest_def fenced_generation_def
        empty_gufo_def ex_gufo_start_def ex_gufo_def)
qed

text \<open>The readers of a process that was stopped are not ended: while one is left, a new process gets none.\<close>

theorem gufo_restart_unread:
  "let m = snd (start_gufo (ex_gufo_start 32 [ex_round]) 7 (ex_gufo 2) (gufo_reader_ends 7 ''stderr'' ex_gufo_up))
   in gufo_process 7 m = Some 32 \<and> gm_readers m 7 = Some {''stdout''}
      \<and> gm_readers (gufo_reader_ends 7 ''stdout'' m) 7 = Some {}"
  by (simp add: run_gufo ex_gufo_up_def gufo_reader_ends_def insert_Diff_if)

end
