(* ===== verification/HalogenSafety.thy ===== *)
theory HalogenSafety
  imports HalogenServers
begin

text \<open>
  What holds of the Halogen managers: the environment of a process carries its options, starts are
  fenced by generation and settle, and what the awaits of a start let happen.
\<close>

section \<open>The environment\<close>

lemma map_of_fold_update:
  "map_of (fold (\<lambda>(v, t). AList.update v t) ws env) k =
     (case map_of (rev ws) k of None \<Rightarrow> map_of env k | Some t \<Rightarrow> Some t)"
proof (induction ws arbitrary: env)
  case (Cons w ws)
  obtain v t where w: "w = (v, t)" by (cases w)
  show ?case
    by (cases "map_of (rev ws) k"; cases "v = k") (auto simp: Cons.IH w update_conv' map_add_def)
qed simp

lemma option_variables_distinct: "distinct (map snd HALOGEN_OPTIONS)" "distinct (map snd FLASH_OPTIONS)"
  by code_simp+

lemma option_keys_distinct: "distinct (map fst HALOGEN_OPTIONS)" "distinct (map fst FLASH_OPTIONS)"
  by code_simp+

definition engine_variables :: "string list" where
  "engine_variables = [''HALOGEN_API_PORT'', ''HALOGEN_PORT'', ''HALOGEN_BIND'', ''HALOGEN_ENGINE'', ''HALOGEN_CHECKPOINT'',
     ''HALOGEN_TOKENIZER'', ''HALOGEN_CACHE_DIR'', ''HALOGEN_NPU_MODELS'', ''VIRTUAL_ENV'', ''PATH'']"

lemma option_variables_own:
  "\<forall>v\<in>set (map snd HALOGEN_OPTIONS). v \<notin> set engine_variables" "\<forall>v\<in>set (map snd FLASH_OPTIONS). v \<notin> set engine_variables"
  by code_simp+

lemma kind_options:
  assumes "k \<in> {halogen, halogen_flash}"
  shows "distinct (map snd (hk_options k))" "v \<in> set (map snd (hk_options k)) \<Longrightarrow> v \<notin> set engine_variables"
  using assms option_variables_distinct option_variables_own by (auto simp: halogen_def halogen_flash_def)

definition option_entry :: "(string \<times> opt_value) list \<Rightarrow> string \<times> string \<Rightarrow> (string \<times> string) option" where
  "option_entry options f = (case map_of options (fst f) of
     None \<Rightarrow> None | Some v \<Rightarrow> if v = OptNone then None else Some (snd f, opt_str v))"

lemma option_entries_eq: "option_entries k options = List.map_filter (option_entry options) (hk_options k)"
  by (simp add: option_entries_def option_entry_def [abs_def] case_prod_unfold)

lemma option_entry_variable: "option_entry options f = Some e \<Longrightarrow> fst e = snd f"
  by (auto simp: option_entry_def split: option.splits if_splits)

lemma map_of_entries:
  assumes "distinct (map snd fs)"
  shows "map_of (rev (List.map_filter (option_entry options) fs)) v =
    (case List.find (\<lambda>f. snd f = v) fs of None \<Rightarrow> None | Some f \<Rightarrow> map_option snd (option_entry options f))"
  using assms
proof (induction fs arbitrary: v)
  case (Cons f fs)
  have "List.find (\<lambda>g. snd g = snd f) fs = None" using Cons.prems by (auto simp: find_None_iff image_iff)
  with Cons have other: "map_of (rev (List.map_filter (option_entry options) fs)) (snd f) = None" by simp
  show ?case
  proof (cases "option_entry options f")
    case None
    with Cons other show ?thesis by (auto simp: map_filter_simps)
  next
    case (Some e)
    with option_entry_variable [OF Some] Cons other show ?thesis
      by (cases e; cases "snd f = v") (auto simp: map_filter_simps map_add_def split: option.split)
  qed
qed (simp add: map_filter_simps)

lemma halogen_variable:
  assumes "k \<in> {halogen, halogen_flash}" "(key, v) \<in> set (hk_options k)"
  shows "map_of (halogen_environment k dir base c) v =
    (case option_entry (hc_options c) (key, v) of Some (_, t) \<Rightarrow> Some t | None \<Rightarrow> map_of base v)"
proof -
  have own: "v \<notin> set engine_variables" using kind_options(2) [OF assms(1)] assms(2) by force
  have "List.find (\<lambda>f. snd f = v) (hk_options k) = Some (key, v)"
  proof -
    obtain f where f: "List.find (\<lambda>f. snd f = v) (hk_options k) = Some f"
      using assms(2) by (cases "List.find (\<lambda>f. snd f = v) (hk_options k)") (auto simp: find_None_iff)
    then have "f \<in> set (hk_options k)" "snd f = v" by (auto simp: find_Some_iff)
    then have "f = (key, v)" using kind_options(1) [OF assms(1)] assms(2) by (auto simp: distinct_map inj_on_def)
    with f show ?thesis by simp
  qed
  then have entries: "map_of (rev (option_entries k (hc_options c))) v = map_option snd (option_entry (hc_options c) (key, v))"
    by (simp add: option_entries_eq map_of_entries kind_options(1) [OF assms(1)])
  have rest: "map_of (rev (engine_entries k c)) v = None" "map_of (rev (flash_cache k dir c)) v = None"
    "map_of (rev (flash_models k c)) v = None" "map_of (clean_environment base) v = map_of base v"
    using own by (auto simp: engine_variables_def engine_entries_def flash_cache_def flash_models_def clean_environment_def Let_def
        update_conv' delete_conv')
  show ?thesis
    unfolding halogen_environment_def map_of_fold_update
    by (auto simp: map_add_def entries rest split: option.split)
qed



section \<open>Starts\<close>

text \<open>
  A start whose generation is not newer than that of the running process, or than the last one
  started once generations are in use, is refused before anything is done.
\<close>

definition outdated :: "uuid \<Rightarrow> halogen_config \<Rightarrow> halogen_manager \<Rightarrow> bool" where
  "outdated sid c m = (case (halogen_process sid m, halogen_config_of sid m) of
     (Some _, Some d) \<Rightarrow> hc_generation c \<le> hc_generation d
   | (None, _) \<Rightarrow> fenced_generation (case hm_generations m sid of None \<Rightarrow> -1 | Some g \<Rightarrow> g) (hc_generation c)
   | _ \<Rightarrow> False)"

lemma halogen_start_outdated:
  "outdated sid c m \<Longrightarrow> start_halogen k x sid c m = (Inr False, m)"
  by (auto simp: outdated_def start_halogen_def admit_halogen_def require_config_def and_then_def give_def Let_def
      split: option.splits)

definition matched :: "uuid \<Rightarrow> halogen_manager \<Rightarrow> bool" where
  "matched sid m \<longleftrightarrow> (halogen_process sid m = None \<longleftrightarrow> halogen_config_of sid m = None)"

definition halogen_quiet :: "halogen_start \<Rightarrow> bool" where
  "halogen_quiet x \<longleftrightarrow> hs_fencing x = id \<and> hs_waiting x = id \<and> hs_downloading x = id \<and> hs_abort_fencing x = id
     \<and> hs_abort_waiting x = id \<and> (\<forall>w\<in>set (hs_rounds x). hr_others w = id)"

definition others_kept :: "uuid \<Rightarrow> halogen_manager \<Rightarrow> halogen_manager \<Rightarrow> bool" where
  "others_kept sid m m' \<longleftrightarrow>
     (\<forall>s. s \<noteq> sid \<longrightarrow> halogen_process s m' = halogen_process s m \<and> halogen_config_of s m' = halogen_config_of s m)"

definition vacant :: "uuid \<Rightarrow> halogen_manager \<Rightarrow> halogen_manager \<Rightarrow> bool" where
  "vacant sid m m' \<longleftrightarrow> halogen_process sid m' = None \<and> halogen_config_of sid m' = None \<and> others_kept sid m m'"

definition launched_as :: "uuid \<Rightarrow> halogen_config \<Rightarrow> halogen_manager \<Rightarrow> halogen_manager \<Rightarrow> bool" where
  "launched_as sid c m m' \<longleftrightarrow> halogen_process sid m' \<noteq> None \<and> halogen_config_of sid m' = Some c \<and> others_kept sid m m'"

lemma halogen_tables_removed [simp]:
  "halogen_process s (remove_halogen sid m) = (if s = sid then None else halogen_process s m)"
  "halogen_config_of s (remove_halogen sid m) = (if s = sid then None else halogen_config_of s m)"
  by (simp_all add: halogen_process_def halogen_config_of_def remove_halogen_def delete_conv')

lemma halogen_tables_published [simp]:
  "halogen_process s (halogen_publish e m) = halogen_process s m"
  "halogen_config_of s (halogen_publish e m) = halogen_config_of s m"
  by (simp_all add: halogen_process_def halogen_config_of_def halogen_publish_def)

lemma halogen_tables_updated [simp]:
  "halogen_process s (hm_fenced_update f m) = halogen_process s m" "halogen_config_of s (hm_fenced_update f m) = halogen_config_of s m"
  "halogen_process s (hm_healthy_update g m) = halogen_process s m" "halogen_config_of s (hm_healthy_update g m) = halogen_config_of s m"
  "halogen_process s (hm_health_update h m) = halogen_process s m" "halogen_config_of s (hm_health_update h m) = halogen_config_of s m"
  by (simp_all add: halogen_process_def halogen_config_of_def)

lemma halogen_tables_installed [simp]:
  "halogen_process s (install_halogen k sid c proc now m) = (if s = sid then Some proc else halogen_process s m)"
  "halogen_config_of s (install_halogen k sid c proc now m) = (if s = sid then Some c else halogen_config_of s m)"
  by (simp_all add: halogen_process_def halogen_config_of_def install_halogen_def start_log_reader_def Let_def update_conv')

lemma stop_vacates:
  assumes "halogen_config_of sid m0 \<noteq> None" "gen = None \<or> gen = map_option hc_generation (halogen_config_of sid m0)"
    "halogen_process sid m0 \<noteq> None"
  shows "hoare (\<lambda>m. m = m0) (stop_halogen sid gen id id) (\<lambda>_ m. vacant sid m0 m) (\<lambda>_ _. False)"
  using assms
  by (auto simp: hoare_def stop_halogen_def require_config_def and_then_def fence_operations_def change_def give_def vacant_def
      others_kept_def)

lemma admit_vacates:
  assumes "halogen_quiet x" "matched sid m0"
  shows "hoare (\<lambda>m. m = m0) (admit_halogen x sid c) (\<lambda>go m. if go then vacant sid m0 m else m = m0) (\<lambda>_ _. False)"
proof (cases "halogen_process sid m0")
  case None
  with assms show ?thesis
    by (auto simp: hoare_def admit_halogen_def give_def vacant_def others_kept_def matched_def Let_def)
next
  case (Some p)
  with assms(2) obtain d where d: "halogen_config_of sid m0 = Some d" by (auto simp: matched_def)
  have st: "case stop_halogen sid (Some (hc_generation d)) id id m0 of (Inr _, m) \<Rightarrow> vacant sid m0 m | _ \<Rightarrow> False"
    using stop_vacates [of sid m0 "Some (hc_generation d)"] Some d by (auto simp: hoare_def split: prod.splits sum.splits)
  from assms(1) have "hs_fencing x = id" "hs_waiting x = id" by (auto simp: halogen_quiet_def)
  with Some d st show ?thesis
    by (auto simp: hoare_def admit_halogen_def require_config_def and_then_def give_def Let_def split: prod.splits sum.splits)
qed

lemma vacant_trans: "others_kept sid m0 m \<Longrightarrow> vacant sid m m' \<Longrightarrow> vacant sid m0 m'"
  by (auto simp: vacant_def others_kept_def)

lemma wait_quiet:
  assumes "\<forall>w\<in>set ws. hr_others w = id"
  shows "snd (wait_for_health sid ws m) = m"
  using assms by (induction ws) (auto simp: throw_def give_def split: sum.split)

lemma wait_or_stop_vacates:
  assumes "halogen_quiet x"
  shows "hoare (launched_as sid c m0) (wait_or_stop x sid) (\<lambda>_. launched_as sid c m0)
    (\<lambda>e m. if is_exception e then vacant sid m0 m else launched_as sid c m0 m)"
  unfolding hoare_def
proof (intro allI impI)
  fix m
  assume l: "launched_as sid c m0 m"
  obtain r where w: "wait_for_health sid (hs_rounds x) m = (r, m)"
    using assms wait_quiet [of "hs_rounds x" sid m] by (cases "wait_for_health sid (hs_rounds x) m") (auto simp: halogen_quiet_def)
  have st: "case stop_halogen sid None id id m of (Inr _, m') \<Rightarrow> vacant sid m0 m' | _ \<Rightarrow> False"
    using stop_vacates [of sid m None] l
    by (auto simp: hoare_def launched_as_def split: prod.splits sum.splits intro: vacant_trans)
  from assms have "hs_abort_fencing x = id" "hs_abort_waiting x = id" by (auto simp: halogen_quiet_def)
  with l w st show "case wait_or_stop x sid m of (Inr a, m') \<Rightarrow> launched_as sid c m0 m'
    | (Inl e, m') \<Rightarrow> if is_exception e then vacant sid m0 m' else launched_as sid c m0 m'"
    by (cases r) (auto simp: wait_or_stop_def and_then_def throw_def split: prod.splits sum.splits)
qed

definition halogen_announced :: "uuid \<Rightarrow> halogen_config \<Rightarrow> halogen_manager \<Rightarrow> bool" where
  "halogen_announced sid c m \<longleftrightarrow> sid \<in> hm_healthy m \<and> hm_health m sid = Some ''healthy''
     \<and> last (hm_events m) = HvStarted sid (hc_model_path c) (hc_api_port c) (hc_generation c) (halogen_capacity c)"

lemma announce_launched:
  "hoare (launched_as sid c m0) (announce_halogen sid c)
     (\<lambda>r m. r \<and> launched_as sid c m0 m \<and> halogen_announced sid c m) (\<lambda>_ _. False)"
  by (auto simp: hoare_def announce_halogen_def require_config_def and_then_def change_def give_def launched_as_def
      others_kept_def halogen_announced_def) (auto simp: halogen_publish_def)

definition start_outcome :: "uuid \<Rightarrow> halogen_config \<Rightarrow> halogen_manager \<Rightarrow> exn + bool \<Rightarrow> halogen_manager \<Rightarrow> bool" where
  "start_outcome sid c m0 r m = (case r of
     Inr True \<Rightarrow> launched_as sid c m0 m \<and> halogen_announced sid c m
   | Inr False \<Rightarrow> m = m0
   | Inl e \<Rightarrow> if is_exception e then vacant sid m0 m else vacant sid m0 m \<or> launched_as sid c m0 m)"

lemma hoare_start:
  assumes "halogen_quiet x" "matched sid m0"
  shows "hoare (\<lambda>m. m = m0) (start_halogen k x sid c) (\<lambda>r. start_outcome sid c m0 (Inr r)) (\<lambda>e. start_outcome sid c m0 (Inl e))"
proof -
  let ?E = "\<lambda>e. start_outcome sid c m0 (Inl e)" and ?V = "vacant sid m0" and ?L = "launched_as sid c m0"
  note admit = hoare_conseq [OF admit_vacates [OF assms], where P' = "\<lambda>m. m = m0" and E' = ?E]
  have limit: "hoare ?V (check_limit k n) (\<lambda>_. ?V) ?E" for n
    by (auto simp: hoare_def check_limit_def throw_def give_def start_outcome_def)
  have down: "hs_downloading x = id" using assms(1) by (simp add: halogen_quiet_def)
  have spawn: "hoare ?V (lift_res s) (\<lambda>_. ?V) ?E" for s :: "exn + nat"
    by (auto simp: hoare_def lift_res_def throw_def give_def start_outcome_def split: sum.splits)
  have install: "hoare ?V (change (install_halogen k sid c p now)) (\<lambda>_. ?L) ?E" for p now
    by (rule hoare_change) (auto simp: vacant_def launched_as_def others_kept_def)
  have wait: "hoare ?L (wait_or_stop x sid) (\<lambda>_. ?L) ?E"
    by (rule hoare_conseq [OF wait_or_stop_vacates [OF assms(1)]]) (auto simp: start_outcome_def split: if_splits)
  have announce: "hoare ?L (announce_halogen sid c) (\<lambda>r. start_outcome sid c m0 (Inr r)) ?E"
    by (rule hoare_conseq [OF announce_launched]) (auto simp: start_outcome_def)
  have body: "hoare ?V (and_then (check_limit k (hs_limit x)) (\<lambda>_.
       and_then (change (hs_downloading x)) (\<lambda>_.
       and_then (await_answer (hs_download x)) (\<lambda>_.
       and_then (lift_res (hs_spawn x (halogen_environment k (hs_dir x) (hs_base x) c))) (\<lambda>proc.
       and_then (change (install_halogen k sid c proc (hs_now x))) (\<lambda>_.
       and_then (wait_or_stop x sid) (\<lambda>_.
       announce_halogen sid c))))))) (\<lambda>r. start_outcome sid c m0 (Inr r)) ?E"
    by (intro hoare_bind [OF limit] hoare_bind [OF spawn] hoare_bind [OF install] hoare_bind [OF wait] announce
        hoare_bind [OF hoare_change [where Q = "\<lambda>_. ?V"]] hoare_bind [OF hoare_await [where Q = "\<lambda>_. ?V"]])
      (auto simp: down start_outcome_def)
  show ?thesis
    unfolding start_halogen_def
  proof (rule hoare_bind)
    show "hoare (\<lambda>m. m = m0) (admit_halogen x sid c) (\<lambda>go m. if go then ?V m else m = m0) ?E"
      by (rule admit) auto
  next
    fix go
    show "hoare (\<lambda>m. if go then ?V m else m = m0) (if \<not> go then give False else and_then (check_limit k (hs_limit x)) (\<lambda>_.
       and_then (change (hs_downloading x)) (\<lambda>_.
       and_then (await_answer (hs_download x)) (\<lambda>_.
       and_then (lift_res (hs_spawn x (halogen_environment k (hs_dir x) (hs_base x) c))) (\<lambda>proc.
       and_then (change (install_halogen k sid c proc (hs_now x))) (\<lambda>_.
       and_then (wait_or_stop x sid) (\<lambda>_.
       announce_halogen sid c))))))) (\<lambda>r. start_outcome sid c m0 (Inr r)) ?E"
      using body by (cases go) (auto simp: start_outcome_def)
  qed
qed


text \<open>
  A start settles. With nothing else going on: one that is outdated answers False and changes
  nothing; one that answers True leaves the process running under the new configuration, marked
  healthy, with its event published last; one that raises an exception that is caught leaves no
  process of the server, stopped or never started; and the other servers keep theirs either way.
\<close>

theorem halogen_start_settles:
  assumes "halogen_quiet x" "matched sid m" "start_halogen k x sid c m = (r, m')"
  shows "(outdated sid c m \<longrightarrow> r = Inr False \<and> m' = m)
    \<and> (r = Inr False \<longrightarrow> m' = m)
    \<and> (r = Inr True \<longrightarrow> launched_as sid c m m' \<and> halogen_announced sid c m')
    \<and> (\<forall>e. r = Inl e \<longrightarrow> is_exception e \<longrightarrow> vacant sid m m')
    \<and> others_kept sid m m'"
proof -
  have "case r of Inr a \<Rightarrow> start_outcome sid c m (Inr a) m' | Inl e \<Rightarrow> start_outcome sid c m (Inl e) m'"
    by (rule hoareD [OF hoare_start [OF assms(1,2)] refl assms(3)])
  moreover have "outdated sid c m \<longrightarrow> r = Inr False \<and> m' = m"
    using halogen_start_outdated [of sid c m k x] assms(3) by auto
  ultimately show ?thesis
    by (auto simp: start_outcome_def others_kept_def vacant_def launched_as_def split: sum.splits bool.splits if_splits)
qed

definition empty_halogen :: halogen_manager where
  "empty_halogen = \<lparr>hm_servers = [], hm_configs = [], hm_generations = (\<lambda>_. None), hm_healthy = {}, hm_health = (\<lambda>_. None),
     hm_failures = (\<lambda>_. None), hm_start_times = (\<lambda>_. None), hm_logs = (\<lambda>_. None), hm_forwarding = False, hm_readers = {},
     hm_active = (\<lambda>_. None), hm_connections = (\<lambda>_. None), hm_fenced = [], hm_events = []\<rparr>"

definition ex_halogen :: "int \<Rightarrow> halogen_config" where
  "ex_halogen g = \<lparr>hc_model_path = ''m'', hc_port = 9000, hc_api_port = 9001, hc_engine_port = 9002,
     hc_options = [(''kv_slots'', OptInt 4), (''drafter'', OptNone)], hc_npu_models = [], hc_generation = g\<rparr>"

definition ex_halogen_start :: "nat \<Rightarrow> halogen_start" where
  "ex_halogen_start pid = \<lparr>hs_limit = 1, hs_dir = ''/cache'', hs_base = [(''PATH'', ''/bin:/agent/.venv/bin''), (''VIRTUAL_ENV'', ''v'')],
     hs_fencing = id, hs_waiting = id, hs_download = Answered, hs_downloading = id, hs_spawn = (\<lambda>_. Inr pid),
     hs_rounds = [\<lparr>hr_exit = None, hr_others = id, hr_check = Inr True\<rparr>], hs_abort_fencing = id, hs_abort_waiting = id,
     hs_now = 5\<rparr>"

lemmas run_halogen = start_halogen_def admit_halogen_def check_limit_def wait_or_stop_def announce_halogen_def require_config_def
  stop_halogen_def fence_operations_def and_then_def change_def give_def throw_def await_answer_def lift_res_def
  fenced_generation_def halogen_publish_def install_halogen_def start_log_reader_def remove_halogen_def
  halogen_process_def halogen_config_of_def halogen_capacity_def slots_option_def opt_int_def is_exception_def
  ex_halogen_def ex_halogen_start_def empty_halogen_def halogen_def Let_def

theorem halogen_start_settles_witness:
  "outdated 7 (ex_halogen 1) (snd (start_halogen halogen (ex_halogen_start 31) 7 (ex_halogen 1) empty_halogen))
    \<and> launched_as 7 (ex_halogen 1) empty_halogen (snd (start_halogen halogen (ex_halogen_start 31) 7 (ex_halogen 1) empty_halogen))"
proof -
  have quiet: "halogen_quiet (ex_halogen_start 31)" by (simp add: halogen_quiet_def ex_halogen_start_def)
  have matched: "matched 7 empty_halogen"
    by (simp add: matched_def halogen_process_def halogen_config_of_def empty_halogen_def)
  obtain r m' where start: "start_halogen halogen (ex_halogen_start 31) 7 (ex_halogen 1) empty_halogen = (r, m')" by fastforce
  have "fst (start_halogen halogen (ex_halogen_start 31) 7 (ex_halogen 1) empty_halogen) = Inr True" by (simp add: run_halogen)
  with start have "r = Inr True" by simp
  with halogen_start_settles [OF quiet matched start] start have "launched_as 7 (ex_halogen 1) empty_halogen m'" by simp
  with start show ?thesis by (auto simp: outdated_def launched_as_def)
qed


section \<open>What the awaits let happen\<close>

text \<open>
  The instance limit is checked before the download is awaited: two starts of different servers
  pass it together, and with a limit of one both run.
\<close>

theorem halogen_limit_crossed:
  "\<exists>x y. hs_limit x = 1 \<and> hs_limit y = 1 \<and>
    (let (r, m) = start_halogen halogen (x\<lparr>hs_downloading := \<lambda>m. snd (start_halogen halogen y 8 (ex_halogen 1) m)\<rparr>) 7 (ex_halogen 1)
                    empty_halogen
     in r = Inr True \<and> hm_servers m = [(8, 32), (7, 31)])"
  by (rule exI [of _ "ex_halogen_start 31"], rule exI [of _ "ex_halogen_start 32"]) (simp add: run_halogen)

text \<open>
  A stop that waits for its process forgets whatever the table holds when it goes on: a newer
  process started meanwhile is announced, then is in no table any more, and is fenced against
  being started again under its generation.
\<close>

definition ex_halogen_up :: halogen_manager where
  "ex_halogen_up = empty_halogen\<lparr>hm_servers := [(7, 31)], hm_configs := [(7, ex_halogen 1)], hm_generations := [7 \<mapsto> 1],
     hm_healthy := {7}, hm_health := [7 \<mapsto> ''healthy''], hm_start_times := [7 \<mapsto> 5],
     hm_events := [HvStarted 7 ''m'' 9001 1 4]\<rparr>"

lemma ex_halogen_started: "start_halogen halogen (ex_halogen_start 31) 7 (ex_halogen 1) empty_halogen = (Inr True, ex_halogen_up)"
  by (simp add: run_halogen ex_halogen_up_def)

lemma ex_newer_start:
  "snd (start_halogen halogen (ex_halogen_start 32) 7 (ex_halogen 2) (ex_halogen_up\<lparr>hm_fenced := [7]\<rparr>)) =
     ex_halogen_up\<lparr>hm_servers := [(7, 32)], hm_configs := [(7, ex_halogen 2)], hm_generations := [7 \<mapsto> 2], hm_fenced := [7, 7],
       hm_events := [HvStarted 7 ''m'' 9001 1 4, HvStopped 7 1, HvStarted 7 ''m'' 9001 2 4]\<rparr>"
  by (simp add: run_halogen ex_halogen_up_def)

theorem halogen_stop_forgets_newer:
  "let m0 = snd (start_halogen halogen (ex_halogen_start 31) 7 (ex_halogen 1) empty_halogen);
       (r, m) = stop_halogen 7 (Some 1) id (\<lambda>m. snd (start_halogen halogen (ex_halogen_start 32) 7 (ex_halogen 2) m)) m0
   in r = Inr True \<and> halogen_process 7 m = None \<and> outdated 7 (ex_halogen 2) m
      \<and> hm_events m = [HvStarted 7 ''m'' 9001 1 4, HvStopped 7 1, HvStarted 7 ''m'' 9001 2 4, HvStopped 7 1]"
proof -
  have "stop_halogen 7 (Some 1) id (\<lambda>m. snd (start_halogen halogen (ex_halogen_start 32) 7 (ex_halogen 2) m)) ex_halogen_up =
      (Inr True, halogen_publish (HvStopped 7 1)
        (remove_halogen 7 (snd (start_halogen halogen (ex_halogen_start 32) 7 (ex_halogen 2) (ex_halogen_up\<lparr>hm_fenced := [7]\<rparr>)))))"
    by (simp add: stop_halogen_def require_config_def fence_operations_def and_then_def change_def give_def
        halogen_process_def halogen_config_of_def ex_halogen_up_def empty_halogen_def ex_halogen_def)
  then show ?thesis
    unfolding ex_halogen_started ex_newer_start
    by (simp add: outdated_def) (simp add: halogen_publish_def remove_halogen_def fenced_generation_def ex_halogen_def ex_halogen_up_def)
qed

text \<open>
  A stop that comes while the last health check is awaited leaves a start that raises KeyError and
  a server that is marked healthy and is not there.
\<close>

theorem halogen_stopped_stays_healthy:
  "let x = (ex_halogen_start 31)\<lparr>hs_rounds := [\<lparr>hr_exit = None, hr_others = (\<lambda>m. snd (stop_halogen 7 None id id m)), hr_check = Inr True\<rparr>]\<rparr>;
       (r, m) = start_halogen halogen x 7 (ex_halogen 1) empty_halogen
   in r = Inl (KeyError (show_nat 7)) \<and> halogen_process 7 m = None \<and> 7 \<in> hm_healthy m \<and> hm_health m 7 = Some ''healthy''"
  by (simp add: run_halogen)

end
