(* ===== verification/ModelFilesSafety.thy ===== *)
theory ModelFilesSafety
  imports ModelFiles HalogenServers
begin

text \<open>
  What holds of the model files of an agent: stored files stay below the models directory, downloads
  of what is there do nothing, a plan for the small models has all the files they need, and what
  the routes and the check of a repository do not see.
\<close>

section \<open>Paths\<close>

lemma split_on_nonempty: "split_on sep s \<noteq> []"
  by (induction s) (auto split: list.splits)

lemma split_on_append: "split_on sep (a @ sep # b) = split_on sep a @ split_on sep b"
proof (induction a)
  case (Cons c a)
  obtain w ws where "split_on sep a = w # ws" using split_on_nonempty by (meson neq_Nil_conv)
  with Cons show ?case by simp
qed simp

lemma parts_join: "\<not> is_absolute b \<Longrightarrow> parts_of (join_path a b) = parts_of a @ parts_of b"
  by (simp add: join_path_def parts_of_def split_on_append)

lemma climb_plain: "''..'' \<notin> set ws \<Longrightarrow> fold climb ws st = st @ ws"
  by (induction ws arbitrary: st) (auto simp: climb_def)

lemma resolved_join:
  assumes "\<not> is_absolute b" "''..'' \<notin> set (split_on (CHR ''/'') b)"
  shows "resolved (join_path a b) = resolved a @ parts_of b"
proof -
  have "''..'' \<notin> set (parts_of b)" using assms(2) by (simp add: parts_of_def)
  then show ?thesis by (simp add: resolved_def parts_join [OF assms(1)] climb_plain)
qed

text \<open>
  A stored file lies below the models directory, at the path of its repository and name, whatever
  names a request gives; names that would leave the directory are refused.
\<close>

theorem stored_below_models:
  assumes "storage_path models repo fname = Inr p"
  shows "resolved p = resolved models @ parts_of repo @ parts_of fname \<and> relative_to (resolved p) (resolved models)"
  using assms
  by (auto simp: storage_path_def relative_to_def resolved_join split: if_splits)

theorem stored_below_models_witness:
  "storage_path ''/models'' ''org/repo'' ''mtp/a.gguf'' = Inr ''/models/org/repo/mtp/a.gguf''
    \<and> resolved ''/models/org/repo/mtp/a.gguf'' = [''models'', ''org'', ''repo'', ''mtp'', ''a.gguf'']"
proof -
  have s: "storage_path ''/models'' ''org/repo'' ''mtp/a.gguf'' = Inr ''/models/org/repo/mtp/a.gguf''" by code_simp
  have "resolved ''/models'' @ parts_of ''org/repo'' @ parts_of ''mtp/a.gguf'' = [''models'', ''org'', ''repo'', ''mtp'', ''a.gguf'']"
    by code_simp
  with stored_below_models [OF s] s show ?thesis by simp
qed

section \<open>The first part of a split model\<close>

lemma pick_primary_cases:
  assumes "pick_primary names = Inr n"
  shows "n \<in> set names \<and> ((\<exists>x\<in>set names. split_index (last_segment x) = Some 1) \<longrightarrow> split_index (last_segment n) = Some 1)"
  using assms
  by (auto simp: pick_primary_def find_None_iff dest!: find_Some_iff [THEN iffD1] split: option.splits list.splits)

lemma pick_primary_some: "names \<noteq> [] \<Longrightarrow> \<exists>n\<in>set names. pick_primary names = Inr n"
proof -
  assume "names \<noteq> []"
  then obtain n where "pick_primary names = Inr n"
    by (cases names; cases "List.find (\<lambda>n. split_index (last_segment n) = Some 1) names") (auto simp: pick_primary_def)
  with pick_primary_cases show ?thesis by blast
qed

section \<open>Downloads of what is there\<close>

lemma download_present:
  assumes "storage_path models repo fname = Inr p" "on_disk p m"
  shows "download_model models x repo fname ''huggingface'' job server m = (Inr p, m)"
  using assms by (simp add: download_model_def give_def)

lemma download_each_present:
  assumes "\<forall>f\<in>set names. \<exists>p. storage_path models repo f = Inr p \<and> on_disk p m"
  shows "\<exists>got'. download_each models x repo names ''huggingface'' job server got m = (Inr got', m)
    \<and> (\<forall>f\<in>set names. map_option Inr (map_of got' f) = Some (storage_path models repo f))
    \<and> (\<forall>f. f \<notin> set names \<longrightarrow> map_of got' f = map_of got f)"
  using assms
proof (induction names arbitrary: got)
  case (Cons f fs)
  then obtain p where p: "storage_path models repo f = Inr p" "on_disk p m" by auto
  from Cons.prems have "\<forall>f\<in>set fs. \<exists>p. storage_path models repo f = Inr p \<and> on_disk p m" by simp
  from Cons.IH [OF this, of "AList.update f p got"] obtain got' where g:
    "download_each models x repo fs ''huggingface'' job server (AList.update f p got) m = (Inr got', m)"
    "\<forall>f\<in>set fs. map_option Inr (map_of got' f) = Some (storage_path models repo f)"
    "\<forall>g. g \<notin> set fs \<longrightarrow> map_of got' g = map_of (AList.update f p got) g" by blast
  have "map_option Inr (map_of got' f) = Some (storage_path models repo f)"
    using g(2,3) p by (cases "f \<in> set fs") auto
  with g p show ?case
    by (intro exI [of _ got']) (auto simp: and_then_def download_present)
qed (simp add: give_def)

text \<open>
  A model that is stored is not downloaded again: with every part on disk, the call answers the path
  of the first part, and nothing changes.
\<close>

theorem parts_present:
  assumes "names \<noteq> []" "\<forall>f\<in>set names. \<exists>p. storage_path models repo f = Inr p \<and> on_disk p m"
  shows "\<exists>n p. pick_primary names = Inr n \<and> storage_path models repo n = Inr p
    \<and> download_model_parts models x repo names ''huggingface'' job server m = (Inr p, m)"
proof -
  obtain n where n: "n \<in> set names" "pick_primary names = Inr n" using pick_primary_some [OF assms(1)] by blast
  with assms(2) obtain p where p: "storage_path models repo n = Inr p" by blast
  obtain got where g: "download_each models x repo names ''huggingface'' job server [] m = (Inr got, m)"
    "\<forall>f\<in>set names. map_option Inr (map_of got f) = Some (storage_path models repo f)"
    using download_each_present [OF assms(2)] by blast
  with n p have "map_of got n = Some p" by (cases "map_of got n") force+
  with g n p assms(1) show ?thesis
    by (intro exI conjI) (simp_all add: download_model_parts_def and_then_def lift_res_def give_def)
qed

text \<open>The files of a small model that match their pins are left alone.\<close>

lemma npu_file_present:
  assumes "relative_to (resolved (join_path (show_path d) (fst f))) d"
    "matches_pin (show_path (resolved (join_path (show_path d) (fst f)))) (fst (snd f)) (snd (snd f)) m"
  shows "npu_file str hub repo d job server f m = (Inr (), m)"
  using assms by (cases f) (auto simp: npu_file_def Let_def give_def on_disk_def matches_pin_def split: option.splits)

theorem npu_files_present:
  assumes "files \<noteq> []" "d = resolved (join_path (join_path models ''npu'') dir)"
    "\<forall>(fname, n, sha)\<in>set files. relative_to (resolved (join_path (show_path d) fname)) d
       \<and> matches_pin (show_path (resolved (join_path (show_path d) fname))) n sha m"
  shows "download_npu_files models str id hub dir files repo job server m = (Inr (show_path d), m)"
proof -
  have "deliver_all (npu_file str hub repo d j server) files m = (Inr (), m)" for j
    using assms(3) by (induction files) (auto simp: give_def and_then_def npu_file_present)
  with assms(1,2) show ?thesis
    by (simp add: download_npu_files_def Let_def and_then_def change_def give_def)
qed

section \<open>Plans\<close>

definition keyed :: "(string \<times> npu_pin) list \<Rightarrow> bool" where
  "keyed rs \<longleftrightarrow> (\<forall>k r. map_of rs k = Some r \<longrightarrow> np_id r = k)"

lemma set_field_same [simp]: "np_id (set_field tok r) = np_id r"
  by (simp add: set_field_def split: option.split)

lemma set_field_id [simp]: "np_id (fold set_field toks r) = np_id r"
  by (induction toks arbitrary: r) simp_all

lemma keyed_change: "keyed rs \<Longrightarrow> (\<And>r. np_id (f r) = np_id r) \<Longrightarrow> keyed (change_pin k f rs)"
  by (auto simp: keyed_def change_pin_def new_pin_def split: option.splits)

lemma keyed_line: "keyed rs \<Longrightarrow> keyed (parse_pin_line raw rs)"
  by (auto simp: parse_pin_line_def intro!: keyed_change split: list.splits option.splits)

lemma pins_keyed: "keyed (parse_npu_pins txt)"
  unfolding parse_npu_pins_def by (rule fold_invariant_step) (simp_all add: keyed_line, simp add: keyed_def)

definition plan_has :: "npu_plan \<Rightarrow> string \<Rightarrow> string \<Rightarrow> bool" where
  "plan_has plan k p \<longleftrightarrow> (\<exists>d. map_of plan k = Some d \<and> p \<in> fst ` set (nd_files d))"

definition plan_clean :: "npu_plan \<Rightarrow> bool" where
  "plan_clean plan \<longleftrightarrow> (\<forall>k d. map_of plan k = Some d \<longrightarrow> distinct (map fst (nd_files d)))"

lemma add_files_paths: "fst ` set (nd_files (fold add_file fs d)) = fst ` set (nd_files d) \<union> fst ` set fs"
  by (induction fs arbitrary: d) (auto simp: add_file_def)

lemma add_files_distinct: "distinct (map fst (nd_files d)) \<Longrightarrow> distinct (map fst (nd_files (fold add_file fs d)))"
  by (induction fs arbitrary: d) (auto simp: add_file_def)

lemma plan_add_has: "plan_has (plan_add r fs plan) k p \<longleftrightarrow> plan_has plan k p \<or> k = np_id r \<and> (\<exists>f\<in>set fs. p = fst f)"
  by (auto simp: plan_has_def plan_add_def add_files_paths split: option.splits)

lemma plan_add_clean: "plan_clean plan \<Longrightarrow> plan_clean (plan_add r fs plan)"
  by (auto simp: plan_clean_def plan_add_def add_files_distinct split: option.splits)

definition plan_covers :: "(string \<times> npu_pin) list \<Rightarrow> npu_plan \<Rightarrow> string \<Rightarrow> bool" where
  "plan_covers rs plan uid \<longleftrightarrow> (\<exists>r. map_of rs uid = Some r \<and> (\<forall>f\<in>set (np_files r). plan_has plan uid (fst f))
     \<and> (np_devices_of r \<noteq> uid \<longrightarrow> (\<exists>o2. map_of rs (np_devices_of r) = Some o2
          \<and> (\<forall>f\<in>set (devices_files o2). plan_has plan (np_devices_of r) (fst f)))))"

lemma plan_model_grows:
  assumes "plan_model rs uid plan = Inr plan'"
  shows "plan_has plan k p \<Longrightarrow> plan_has plan' k p" "plan_clean plan \<Longrightarrow> plan_clean plan'"
  using assms
  by (auto simp: plan_model_def Let_def plan_add_has plan_add_clean split: option.splits if_splits)

lemma plan_add_gets: "\<forall>f\<in>set fs. plan_has (plan_add r fs plan) (np_id r) (fst f)"
  unfolding plan_add_has by blast

lemma plan_model_covers:
  assumes "plan_model rs uid plan = Inr plan'" "keyed rs"
  shows "plan_covers rs plan' uid"
proof -
  obtain r where r: "map_of rs uid = Some r" using assms(1) by (auto simp: plan_model_def split: option.splits)
  with assms(2) have id: "np_id r = uid" by (simp add: keyed_def)
  note own = plan_add_gets [where fs = "np_files r" and r = r and plan = plan, unfolded id]
  show ?thesis
  proof (cases "np_devices_of r = uid")
    case True
    with assms(1) r have "plan' = plan_add r (np_files r) plan" by (simp add: plan_model_def Let_def split: if_splits)
    with True r own show ?thesis by (simp add: plan_covers_def)
  next
    case False
    with assms(1) r obtain r2 where r2: "map_of rs (np_devices_of r) = Some r2"
      "plan' = plan_add r2 (devices_files r2) (plan_add r (np_files r) plan)"
      by (auto simp: plan_model_def Let_def split: if_splits option.splits)
    with assms(2) have id2: "np_id r2 = np_devices_of r" by (simp add: keyed_def)
    note shared = plan_add_gets [where fs = "devices_files r2" and r = r2, unfolded id2]
    have "\<forall>f\<in>set (np_files r). plan_has plan' uid (fst f)" using own unfolding r2(2) plan_add_has [of r2] by blast
    with r r2(1) shared show ?thesis unfolding plan_covers_def r2(2) by blast
  qed
qed

lemma plan_models_grow:
  "plan_models rs uids plan = Inr plan' \<Longrightarrow> plan_has plan k p \<Longrightarrow> plan_has plan' k p"
  by (induction uids arbitrary: plan) (auto split: sum.splits dest: plan_model_grows(1))

lemma covers_mono:
  "plan_covers rs plan uid \<Longrightarrow> (\<And>k p. plan_has plan k p \<Longrightarrow> plan_has plan' k p) \<Longrightarrow> plan_covers rs plan' uid"
  unfolding plan_covers_def by (elim exE conjE) (intro exI conjI; auto; blast)

lemma plan_models_cover:
  assumes "plan_models rs uids plan = Inr plan'" "keyed rs" "plan_clean plan"
  shows "(\<forall>uid\<in>set uids. plan_covers rs plan' uid) \<and> plan_clean plan'"
  using assms
proof (induction uids arbitrary: plan)
  case (Cons u us)
  then obtain plan1 where p: "plan_model rs u plan = Inr plan1" "plan_models rs us plan1 = Inr plan'"
    by (auto split: sum.splits)
  have "plan_covers rs plan' u"
    using covers_mono [OF plan_model_covers [OF p(1) Cons.prems(2)]] plan_models_grow [OF p(2)] by blast
  with Cons.IH [OF p(2) Cons.prems(2) plan_model_grows(2) [OF p(1) Cons.prems(3)]] show ?case by simp
qed simp


definition ex_pins :: string where
  "ex_pins = ''model a repo=r/a devices=b'' @ [CHR 0x0A] @ ''file a w.bin 5 x1'' @ [CHR 0x0A] @ ''model b repo=r/b'' @ [CHR 0x0A]
     @ ''file b w.bin 7 x2'' @ [CHR 0x0A] @ ''file b devices/p.bin 9 x3'' @ [CHR 0x0A]"


section \<open>What is not seen\<close>

text \<open>
  The routes for local files name a file without its repository, and every download is kept under
  its repository: neither a stored file nor a download in flight changes what the status route
  answers for its name, and the delete route does not reach it.
\<close>

lemma stored_elsewhere:
  assumes "storage_path models repo fname = Inr p"
  shows "p \<noteq> join_path models fname" "download_key repo fname \<noteq> fname"
proof -
  have "length p > length (join_path models fname)"
    using assms by (auto simp: storage_path_def join_path_def split: if_splits)
  then show "p \<noteq> join_path models fname" by auto
  have "length (download_key repo fname) > length fname" by (simp add: download_key_def)
  then show "download_key repo fname \<noteq> fname" by (metis less_irrefl)
qed

theorem status_blind:
  assumes "storage_path models repo fname = Inr p"
  shows "status_route models fname (m\<lparr>mf_disk := (mf_disk m)(p \<mapsto> f), mf_flight := download_key repo fname # mf_flight m\<rparr>)
      = status_route models fname m
    \<and> on_disk p (snd (delete_route models fname (m\<lparr>mf_disk := (mf_disk m)(p \<mapsto> f)\<rparr>)))"
  using stored_elsewhere [OF assms] stored_elsewhere(1) [OF assms, symmetric]
  by (auto simp: status_route_def is_downloading_def delete_route_def delete_model_def model_exists_def on_disk_def unlink_file_def
      give_def throw_def split: option.split)

text \<open>
  Whether a repository is there is asked of one checkpoint, that of the plain Halogen model: the
  repository of Flash, complete, is fetched again at every start.
\<close>

theorem flash_fetched_again:
  assumes "mf_disk m (join_path (join_path models repo) REPOSITORY_CHECKPOINT) = None" "''repo:'' @ repo \<notin> set (mf_flight m)"
    "hb_result (dc_own x) = Inr p" "hb_others (dc_own x) = id"
  shows "\<exists>m'. download_repository models x repo job server m = (Inr (join_path models repo), m')
    \<and> mf_events m' = mf_events m @ [DownStarted (text_or job (''repo-'' @ repo)) ''*'' repo (text_or server []),
         DownCompleted (text_or job (''repo-'' @ repo)) ''*'' (text_or server []) (join_path models repo)]"
  using assms
  by (simp add: download_repository_def on_disk_def Let_def lastly_def and_then_def change_def flight_on_def repository_to_disk_def
      file_event_def on_failure_def await_hub_def lift_res_def give_def flight_off_def)

lemma checkpoints_differ:
  "last_segment (hk_checkpoint halogen) = REPOSITORY_CHECKPOINT" "last_segment (hk_checkpoint halogen_flash) \<noteq> REPOSITORY_CHECKPOINT"
  by code_simp+

end
