(* ===== verification/ServerRoutesSafety.thy ===== *)
theory ServerRoutesSafety
  imports ServerRoutes LlamaSafety GufoSafety HalogenSafety ModelFilesSafety
begin

text \<open>
  What the start route of an agent answers, from the contract of a process manager: the locale
  \<open>process_manager\<close>, interpreted for llama-server, Gufo and Halogen. And what holds of the files and ports
  a start is given, and of a stop that comes while files are fetched.
\<close>

section \<open>The contract of a manager\<close>

definition info_of :: "engine_setup \<Rightarrow> run_info" where
  "info_of c = (case c of LlamaSetup e \<Rightarrow> llama_info e | GufoSetup g \<Rightarrow> gufo_info g | HalogenSetup h \<Rightarrow> halogen_info h)"

text \<open>What is known of a server from its manager.\<close>

definition known_of :: "'m manager_api \<Rightarrow> uuid \<Rightarrow> 'm \<Rightarrow> bool \<times> run_info option" where
  "known_of api sid m = (ma_running api sid m, ma_config api sid m)"

definition others_same :: "'m manager_api \<Rightarrow> uuid \<Rightarrow> 'm \<Rightarrow> 'm \<Rightarrow> bool" where
  "others_same api sid m m' \<longleftrightarrow> (\<forall>s. s \<noteq> sid \<longrightarrow> known_of api s m' = known_of api s m)"

text \<open>A request that names a generation older than the one running, or than one launched before.\<close>

definition request_stale :: "'m manager_api \<Rightarrow> server_spec \<Rightarrow> 'm \<Rightarrow> bool" where
  "request_stale api c m \<longleftrightarrow>
     (if ma_running api (sp_id c) m
      then (case ma_config api (sp_id c) m of None \<Rightarrow> False | Some d \<Rightarrow> sp_generation c < ri_generation d)
      else fenced_generation (ma_latest api (sp_id c) m) (sp_generation c))"

text \<open>What an answer of the start route says of the server.\<close>

definition answer_right :: "'m manager_api \<Rightarrow> server_spec \<Rightarrow> started_reply \<Rightarrow> 'm \<Rightarrow> bool" where
  "answer_right api c r m \<longleftrightarrow> ma_running api (sp_id c) m \<and> st_generation r = sp_generation c \<and> 1 \<le> st_capacity r
     \<and> (\<exists>d. ma_config api (sp_id c) m = Some d \<and> ri_generation d = sp_generation c \<and> ri_port d = st_port r
          \<and> ri_model_path d = st_model_path r)"

text \<open>
  What a start comes to: an answer is right, one that says already running changed nothing, a stale
  request is refused and changes nothing, and, if nobody else was at work, other servers are as before.
\<close>

definition start_settled :: "'m manager_api \<Rightarrow> 'm start_env \<Rightarrow> server_spec \<Rightarrow> 'm agent_state \<Rightarrow> exn + started_reply \<Rightarrow> 'm agent_state \<Rightarrow> bool" where
  "start_settled api x c s r s' \<longleftrightarrow>
     (\<forall>rep. r = Inr rep \<longrightarrow> answer_right api c rep (as_manager s') \<and> (st_already rep \<longrightarrow> s' = s))
     \<and> (request_stale api c (as_manager s) \<longrightarrow> (\<exists>n t. r = Inl (HttpStatus n t)) \<and> s' = s)
     \<and> (se_downloading x = id \<longrightarrow> others_same api (sp_id c) (as_manager s) (as_manager s'))"

lemma main_file_checkpoint:
  assumes "main_file x q m = (Inr p, m')" "sp_engine (sq_config q) \<in> {''halogen'', ''halogen-flash''}"
  shows "p = engine_checkpoint (sp_engine (sq_config q))"
  using assms by (auto simp: main_file_def Let_def and_then_def give_def split: prod.splits sum.splits if_splits)

lemma find_files_checkpoint:
  assumes "find_files x q m = (Inr f, m')" "sp_engine (sq_config q) \<in> {''halogen'', ''halogen-flash''}"
  shows "ff_model f = engine_checkpoint (sp_engine (sq_config q))"
proof -
  obtain r m1 where main: "main_file x q m = (r, m1)" by fastforce
  with assms(1) obtain p where p: "r = Inr p" by (cases r) (auto simp: find_files_def and_then_def)
  with main have "p = engine_checkpoint (sp_engine (sq_config q))" using main_file_checkpoint assms(2) by blast
  moreover have "ff_model f = p"
    using assms(1) main p by (auto simp: find_files_def and_then_def give_def split: prod.splits sum.splits)
  ultimately show ?thesis by simp
qed

lemma setup_info:
  assumes "setup_of x c f ports = Inr setup"
    "sp_engine c \<in> {''halogen'', ''halogen-flash''} \<longrightarrow> ff_model f = engine_checkpoint (sp_engine c)"
  shows "ri_generation (info_of setup) = sp_generation c \<and> ri_port (info_of setup) = fst ports
    \<and> ri_model_path (info_of setup) = ff_model f"
  using assms
  by (auto simp: setup_of_def Let_def info_of_def llama_info_def gufo_info_def halogen_info_def engine_checkpoint_def
      split: if_splits sum.splits)

locale process_manager =
  fixes api :: "'m manager_api" and inv :: "'m \<Rightarrow> bool"
  assumes matched_config: "inv m \<Longrightarrow> ma_running api sid m \<longleftrightarrow> ma_config api sid m \<noteq> None"
    and capacity: "ma_config api sid m \<noteq> None \<Longrightarrow> \<exists>n\<ge>1. ma_capacity api sid m = Inr n"
    and stop: "inv m \<Longrightarrow> ma_config api sid m = Some d \<Longrightarrow>
      \<exists>m'. ma_stop api sid (Some (ri_generation d)) m = (Inr True, m') \<and> inv m' \<and> \<not> ma_running api sid m' \<and> others_same api sid m m'"
    and start: "inv m \<Longrightarrow> ma_start api sid c m = (r, m') \<Longrightarrow>
      inv m' \<and> others_same api sid m m' \<and> (r = Inr True \<longrightarrow> ma_config api sid m' = Some (info_of c))"
begin

lemma guard_keeps:
  assumes "inv m" "start_guard api c m = (r, m')"
  shows "inv m' \<and> others_same api (sp_id c) m m'
    \<and> (request_stale api c m \<longrightarrow> r = Inl stale_generation \<and> m' = m)
    \<and> (\<forall>rep. r = Inr (Some rep) \<longrightarrow> m' = m \<and> answer_right api c rep m \<and> st_already rep)"
proof (cases "ma_running api (sp_id c) m")
  case False
  with assms show ?thesis
    by (auto simp: start_guard_def Let_def throw_def give_def request_stale_def others_same_def split: if_splits)
next
  case True
  with matched_config [OF assms(1)] obtain d where d: "ma_config api (sp_id c) m = Some d" by blast
  then obtain n where n: "1 \<le> n" "ma_capacity api (sp_id c) m = Inr n" using capacity by blast
  obtain m1 where st: "ma_stop api (sp_id c) (Some (ri_generation d)) m = (Inr True, m1)" "inv m1" "others_same api (sp_id c) m m1"
    using stop [OF assms(1) d] by blast
  show ?thesis
    using True d n st assms
    by (auto simp: start_guard_def Let_def throw_def give_def and_then_def request_stale_def others_same_def answer_right_def
        split: if_splits)
qed

lemma launched:
  assumes "inv m" "launch api x c f m = (r, m')"
    "sp_engine c \<in> {''halogen'', ''halogen-flash''} \<longrightarrow> ff_model f = engine_checkpoint (sp_engine c)"
  shows "others_same api (sp_id c) m m' \<and> (\<forall>rep. r = Inr rep \<longrightarrow> answer_right api c rep m' \<and> \<not> st_already rep)"
proof -
  have same: "others_same api (sp_id c) m m" by (simp add: others_same_def)
  show ?thesis
  proof (cases "ports_of x c")
    case (Inl e)
    with assms(2) same show ?thesis by (auto simp: launch_def and_then_def lift_res_def throw_def)
  next
    case (Inr ports)
    show ?thesis
    proof (cases "setup_of x c f ports")
      case (Inl e)
      with Inr assms(2) same show ?thesis by (auto simp: launch_def and_then_def lift_res_def throw_def give_def)
    next
      case (Inr cfg)
      obtain b m1 where b: "ma_start api (sp_id c) cfg m = (b, m1)" by fastforce
      note s = start [OF assms(1) b] and info = setup_info [OF Inr assms(3)]
      show ?thesis
      proof (cases "b = Inr True")
        case False
        with \<open>ports_of x c = Inr ports\<close> Inr b assms(2) s show ?thesis
          by (cases b) (auto simp: launch_def and_then_def lift_res_def throw_def give_def)
      next
        case True
        with s have conf: "ma_config api (sp_id c) m1 = Some (info_of cfg)" by blast
        then obtain n where n: "1 \<le> n" "ma_capacity api (sp_id c) m1 = Inr n" using capacity [of "sp_id c" m1] by auto
        have "ma_running api (sp_id c) m1" using matched_config [of m1 "sp_id c"] s conf by simp
        with \<open>ports_of x c = Inr ports\<close> Inr b True n assms(2) s info conf show ?thesis
          by (auto simp: launch_def and_then_def lift_res_def throw_def give_def answer_right_def)
      qed
    qed
  qed
qed

lemma others_trans: "others_same api sid m m1 \<Longrightarrow> others_same api sid m1 m2 \<Longrightarrow> others_same api sid m m2"
  by (simp add: others_same_def)

lemma as_500_cases:
  "as_500 str p s = (r, s') \<Longrightarrow> \<exists>r0. p s = (r0, s') \<and> (\<forall>v. r = Inr v \<longleftrightarrow> r0 = Inr v) \<and> (\<forall>n t. r0 = Inl (HttpStatus n t) \<longrightarrow> r = r0)"
  by (auto simp: as_500_def split: prod.splits sum.splits exn.splits)

text \<open>The route behind the check of the platform.\<close>

lemma route_settles:
  assumes "inv (as_manager s)" "\<And>m. inv m \<Longrightarrow> inv (se_downloading x m)" "start_server_route api x q s = (r, s')"
  shows "start_settled api x (sq_config q) s r s'"
proof -
  let ?c = "sq_config q"
  have same: "others_same api (sp_id ?c) m m" for m by (simp add: others_same_def)
  obtain r0 where r0: "(and_then (lift_res (validate_platform (se_platform x) (sp_engine ?c))) (\<lambda>_.
        and_then (on_manager (start_guard api ?c)) (\<lambda>already.
        case already of
          Some r \<Rightarrow> give r
        | None \<Rightarrow>
            and_then (on_files (find_files x q)) (\<lambda>f.
            and_then (on_manager (change (se_downloading x))) (\<lambda>_.
            on_manager (launch api x ?c f)))))) s = (r0, s')"
    "\<And>v. r = Inr v \<longleftrightarrow> r0 = Inr v" "\<And>n t. r0 = Inl (HttpStatus n t) \<Longrightarrow> r = r0"
    using as_500_cases [OF assms(3) [unfolded start_server_route_def]] by blast
  show ?thesis
  proof (cases "validate_platform (se_platform x) (sp_engine ?c)")
    case (Inl e)
    then have "\<exists>n t. e = HttpStatus n t" by (auto simp: validate_platform_def split: if_splits)
    with Inl r0 same show ?thesis by (auto simp: and_then_def lift_res_def throw_def start_settled_def)
  next
    case (Inr u)
    obtain g m1 where g: "start_guard api ?c (as_manager s) = (g, m1)" by fastforce
    note guarded = guard_keeps [OF assms(1) g]
    have step: "on_manager (start_guard api ?c) s = (g, s\<lparr>as_manager := m1\<rparr>)" by (simp add: on_manager_def g)
    show ?thesis
    proof (cases g)
      case (Inl e)
      with r0(1) Inr step have "r0 = Inl e" "s' = s\<lparr>as_manager := m1\<rparr>" by (auto simp: and_then_def lift_res_def give_def)
      with Inl guarded r0(2,3) show ?thesis by (auto simp: start_settled_def stale_generation_def)
    next
      case (Inr already)
      note going = Inr
      show ?thesis
      proof (cases already)
        case (Some rep)
        with going \<open>validate_platform _ _ = Inr u\<close> r0(1) step have "r0 = Inr rep" "s' = s\<lparr>as_manager := m1\<rparr>"
          by (auto simp: and_then_def lift_res_def give_def)
        with Some going guarded r0(2) show ?thesis by (auto simp: start_settled_def)
      next
        case None
        have fresh: "\<not> request_stale api ?c (as_manager s)" using guarded going None by auto
        obtain f fs1 where f: "find_files x q (as_files s) = (f, fs1)" by fastforce
        show ?thesis
        proof (cases f)
          case (Inl e)
          with None going \<open>validate_platform _ _ = Inr u\<close> r0(1) step f have "r0 = Inl e" "as_manager s' = m1"
            by (auto simp: and_then_def lift_res_def give_def on_files_def)
          with fresh guarded r0(2) show ?thesis by (auto simp: start_settled_def)
        next
          case (Inr found)
          obtain l m2 where l: "launch api x ?c found (se_downloading x m1) = (l, m2)" by fastforce
          have "l = r0 \<and> as_manager s' = m2"
            using None going \<open>validate_platform _ _ = Inr u\<close> r0(1) step f Inr l
            by (auto simp: and_then_def lift_res_def give_def on_files_def on_manager_def change_def)
          moreover have "sp_engine ?c \<in> {''halogen'', ''halogen-flash''} \<longrightarrow> ff_model found = engine_checkpoint (sp_engine ?c)"
            using find_files_checkpoint f Inr by blast
          ultimately show ?thesis
            using launched [OF _ l] assms(2) guarded fresh r0(2) others_trans by (auto simp: start_settled_def)
        qed
      qed
    qed
  qed
qed

end


section \<open>The managers keep it\<close>

subsection \<open>Gufo\<close>

lemma gufo_admit_cases:
  assumes "gufo_quiet x" "gufo_process sid m = None \<longleftrightarrow> gm_configs m sid = None" "admit_gufo x sid c m = (r, m1)"
  shows "(r = Inr True \<and> gufo_gone sid m m1) \<or> (r = Inr False \<and> (m1 = m \<or> gufo_gone sid m m1))"
proof (cases "gm_configs m sid")
  case None
  with assms(2,3) show ?thesis
    by (auto simp: admit_gufo_def gufo_not_fenced_def give_def gufo_gone_def gufo_elsewhere_def)
next
  case (Some d)
  with assms(2) have p: "gufo_process sid m \<noteq> None" by simp
  have t: "gt_fencing (gs_stop x) = id" "gt_waiting (gs_stop x) = id" using assms(1) by (auto simp: gufo_quiet_def gufo_others_def)
  obtain m' where "stop_gufo sid False (Some (gc_generation d)) (gs_stop x) m = (Inr True, m')" "gufo_gone sid m m'"
    using gufo_stop_quiet [OF t p Some] by blast
  with Some p assms(3) show ?thesis
    by (auto simp: admit_gufo_def gufo_config_at_def gufo_not_fenced_def and_then_def give_def split: if_splits)
qed

lemma gufo_started:
  assumes "gufo_quiet x" "gufo_process sid m = None \<longleftrightarrow> gm_configs m sid = None" "start_gufo x sid c m = (r, m')"
  shows "(m' = m \<or> gufo_gone sid m m' \<or> (\<exists>proc. gufo_running sid c proc m m')) \<and> (r = Inr True \<longrightarrow> (\<exists>proc. gufo_running sid c proc m m'))"
proof -
  obtain a m1 where a: "admit_gufo x sid c m = (a, m1)" by fastforce
  consider "a = Inr True" "gufo_gone sid m m1" | "a = Inr False" "m1 = m \<or> gufo_gone sid m m1"
    using gufo_admit_cases [OF assms(1,2) a] by blast
  then show ?thesis
  proof cases
    case 1
    with a assms(3) have "start_gufo_locked x sid c m1 = (r, m')" by (simp add: start_gufo_def and_then_def)
    from gufo_locked_quiet [OF assms(1) 1(2) this] show ?thesis by (auto split: sum.splits bool.splits)
  next
    case 2
    with a assms(3) show ?thesis by (auto simp: start_gufo_def and_then_def give_def)
  qed
qed

definition gufo_steady :: "gufo_start \<Rightarrow> gufo_stop \<Rightarrow> gufo_manager \<Rightarrow> bool" where
  "gufo_steady x t m \<longleftrightarrow> gufo_quiet x \<and> gt_fencing t = id \<and> gt_waiting t = id
     \<and> (\<forall>sid. gufo_process sid m = None \<longleftrightarrow> gm_configs m sid = None)"

lemma gufo_steady_kept:
  assumes "gufo_steady x t m" "m' = m \<or> gufo_gone sid m m' \<or> (\<exists>c proc. gufo_running sid c proc m m')"
  shows "gufo_steady x t m' \<and> others_same (gufo_api x t) sid m m'"
proof -
  have "gufo_process s m' = None \<longleftrightarrow> gm_configs m' s = None" for s
    using assms by (cases "s = sid") (auto simp: gufo_steady_def gufo_gone_def gufo_running_def gufo_elsewhere_def)
  with assms show ?thesis
    by (auto simp: gufo_steady_def others_same_def known_of_def gufo_api_def gufo_gone_def gufo_running_def gufo_elsewhere_def)
qed

interpretation gufo_process: process_manager "gufo_api x t" "gufo_steady x t" for x t
proof
  fix m sid d c r m'
  show "gufo_steady x t m \<Longrightarrow> ma_running (gufo_api x t) sid m = (ma_config (gufo_api x t) sid m \<noteq> None)"
    by (simp add: gufo_steady_def gufo_api_def del: not_None_eq)
  show "ma_config (gufo_api x t) sid m \<noteq> None \<Longrightarrow> \<exists>n\<ge>1. ma_capacity (gufo_api x t) sid m = Inr n"
    by (auto simp: gufo_api_def gufo_capacity_def DEFAULT_SESSIONS_def split: option.splits)
  assume steady: "gufo_steady x t m"
  show "\<exists>m'. ma_stop (gufo_api x t) sid (Some (ri_generation d)) m = (Inr True, m') \<and> gufo_steady x t m'
      \<and> \<not> ma_running (gufo_api x t) sid m' \<and> others_same (gufo_api x t) sid m m'" if "ma_config (gufo_api x t) sid m = Some d"
  proof -
    from that obtain e where e: "gm_configs m sid = Some e" "d = gufo_info e" by (auto simp: gufo_api_def)
    with steady have "gt_fencing t = id" "gt_waiting t = id" "gufo_process sid m \<noteq> None" by (auto simp: gufo_steady_def)
    from gufo_stop_quiet [OF this e(1)] obtain m' where m':
      "stop_gufo sid False (Some (gc_generation e)) t m = (Inr True, m')" "gufo_gone sid m m'" by blast
    moreover have "ma_stop (gufo_api x t) sid (Some (ri_generation d)) m = (Inr True, m')" "\<not> ma_running (gufo_api x t) sid m'"
      using m' e(2) by (simp_all add: gufo_api_def gufo_info_def gufo_gone_def)
    ultimately show ?thesis using gufo_steady_kept [OF steady] by blast
  qed
  show "gufo_steady x t m' \<and> others_same (gufo_api x t) sid m m' \<and> (r = Inr True \<longrightarrow> ma_config (gufo_api x t) sid m' = Some (info_of c))"
    if "ma_start (gufo_api x t) sid c m = (r, m')"
  proof (cases c)
    case (GufoSetup g)
    with that have st: "start_gufo x sid g m = (r, m')" by (simp add: gufo_api_def)
    have "gufo_quiet x" "gufo_process sid m = None \<longleftrightarrow> gm_configs m sid = None" using steady by (auto simp: gufo_steady_def)
    note started = gufo_started [OF this st]
    then have "gufo_steady x t m' \<and> others_same (gufo_api x t) sid m m'" by (intro gufo_steady_kept [OF steady]) blast
    moreover have "ma_config (gufo_api x t) sid m' = Some (info_of c)" if "r = Inr True"
      using started that GufoSetup by (auto simp: gufo_api_def info_of_def gufo_running_def)
    ultimately show ?thesis by blast
  qed (use that steady in \<open>auto simp: gufo_api_def throw_def others_same_def\<close>)
qed

subsection \<open>Halogen\<close>

definition halogen_steady :: "halogen_start \<Rightarrow> (halogen_manager \<Rightarrow> halogen_manager) \<Rightarrow> halogen_manager \<Rightarrow> bool" where
  "halogen_steady x others m \<longleftrightarrow> halogen_quiet x \<and> others = id \<and> (\<forall>sid. matched sid m)"

lemma halogen_steady_kept:
  assumes "halogen_steady x others m" "m' = m \<or> vacant sid m m' \<or> (\<exists>c. launched_as sid c m m')"
  shows "halogen_steady x others m' \<and> others_same (halogen_api k x others) sid m m'"
proof -
  have "matched s m'" for s
    using assms by (cases "s = sid") (auto simp: halogen_steady_def matched_def vacant_def launched_as_def others_kept_def)
  with assms show ?thesis
    by (auto simp: halogen_steady_def others_same_def known_of_def halogen_api_def vacant_def launched_as_def others_kept_def)
qed

interpretation halogen_process: process_manager "halogen_api k x others" "halogen_steady x others" for k x others
proof
  fix m sid d c r m'
  show "halogen_steady x others m \<Longrightarrow> ma_running (halogen_api k x others) sid m = (ma_config (halogen_api k x others) sid m \<noteq> None)"
    by (simp add: halogen_steady_def halogen_api_def matched_def del: not_None_eq)
  show "ma_config (halogen_api k x others) sid m \<noteq> None \<Longrightarrow> \<exists>n\<ge>1. ma_capacity (halogen_api k x others) sid m = Inr n"
    by (auto simp: halogen_api_def halogen_capacity_def split: option.splits)
  assume steady: "halogen_steady x others m"
  show "\<exists>m'. ma_stop (halogen_api k x others) sid (Some (ri_generation d)) m = (Inr True, m') \<and> halogen_steady x others m'
      \<and> \<not> ma_running (halogen_api k x others) sid m' \<and> others_same (halogen_api k x others) sid m m'"
    if "ma_config (halogen_api k x others) sid m = Some d"
  proof -
    from that obtain e where e: "halogen_config_of sid m = Some e" "d = halogen_info e" by (auto simp: halogen_api_def)
    with steady have p: "halogen_process sid m \<noteq> None" by (auto simp: halogen_steady_def matched_def)
    then have m': "stop_halogen sid (Some (hc_generation e)) id id m =
        (Inr True, halogen_publish (HvStopped sid (hc_generation e)) (remove_halogen sid (m\<lparr>hm_fenced := hm_fenced m @ [sid]\<rparr>)))"
      using e(1) by (simp add: stop_halogen_def require_config_def and_then_def fence_operations_def change_def give_def)
    have "vacant sid m (halogen_publish (HvStopped sid (hc_generation e)) (remove_halogen sid (m\<lparr>hm_fenced := hm_fenced m @ [sid]\<rparr>)))"
      by (simp add: vacant_def others_kept_def)
    with m' e(2) steady halogen_steady_kept [OF steady, of _ sid k] show ?thesis
      by (auto simp: halogen_api_def halogen_info_def halogen_steady_def vacant_def)
  qed
  show "halogen_steady x others m' \<and> others_same (halogen_api k x others) sid m m'
      \<and> (r = Inr True \<longrightarrow> ma_config (halogen_api k x others) sid m' = Some (info_of c))"
    if "ma_start (halogen_api k x others) sid c m = (r, m')"
  proof (cases c)
    case (HalogenSetup h)
    with that have st: "start_halogen k x sid h m = (r, m')" by (simp add: halogen_api_def)
    have q: "halogen_quiet x" "matched sid m" using steady by (auto simp: halogen_steady_def)
    have "start_outcome sid h m r m'" using hoareD [OF hoare_start [OF q] refl st] by (cases r) auto
    then have "m' = m \<or> vacant sid m m' \<or> launched_as sid h m m'" "r = Inr True \<longrightarrow> launched_as sid h m m'"
      by (auto simp: start_outcome_def split: sum.splits bool.splits if_splits)
    moreover have "halogen_steady x others m' \<and> others_same (halogen_api k x others) sid m m'"
      using calculation(1) by (intro halogen_steady_kept [OF steady]) blast
    ultimately show ?thesis using HalogenSetup by (auto simp: halogen_api_def info_of_def launched_as_def)
  qed (use that steady in \<open>auto simp: halogen_api_def throw_def others_same_def\<close>)
qed


subsection \<open>llama-server\<close>

definition llama_tables :: "uuid \<Rightarrow> llama_manager \<Rightarrow> nat option \<times> engine_config option" where
  "llama_tables sid m = (process_of sid m, configs m sid)"

lemma llama_tables_simps [simp]:
  "llama_tables s (stop_server_operations sid now cur m) = llama_tables s m"
  "llama_tables s (publish e m) = llama_tables s m" "llama_tables s (forget_health sid m) = llama_tables s m"
  "llama_tables s (drop_logs sid m) = llama_tables s m" "llama_tables s (mark_healthy sid m) = llama_tables s m"
  "llama_tables s (log_buffers_update l m) = llama_tables s m"
  "llama_tables s (forget_process sid m) = (if s = sid then (None, None) else llama_tables s m)"
  "llama_tables s (spawn_process sid c proc now m) = (if s = sid then (Some proc, Some c) else llama_tables s m)"
  by (simp_all add: llama_tables_def process_of_def stop_server_operations_def cancel_tasks_def publish_def forget_health_def
      drop_logs_def mark_healthy_def forget_process_def spawn_process_def delete_conv' update_conv')

lemma llama_tables_drained [simp]: "llama_tables s (drain_pipes sid out m) = llama_tables s m"
  by (induction sid out m rule: drain_pipes.induct) simp_all

lemma llama_tables_removed [simp]:
  "llama_tables s (remove_server_state sid keep m) = (if s = sid then (None, None) else llama_tables s m)"
  "llama_tables s (start_failed sid c msg m) = (if s = sid then (None, None) else llama_tables s m)"
  by (simp_all add: remove_server_state_def start_failed_def Let_def)

lemma llama_wait_quiet:
  "\<forall>w\<in>set ws. wr_env w = id \<Longrightarrow> llama_tables s (snd (wait_for_server sid ws m)) = llama_tables s m"
  by (induction ws arbitrary: m) (auto simp: Let_def split: option.split)

lemma llama_tables_iff: "llama_tables s m = (p, c) \<longleftrightarrow> process_of s m = p \<and> configs m s = c"
  by (simp add: llama_tables_def)

text \<open>The table after a stop or a start: as before, without the server, or with it as asked.\<close>

definition llama_after :: "uuid \<Rightarrow> llama_manager \<Rightarrow> (nat option \<times> engine_config option) \<Rightarrow> llama_manager \<Rightarrow> bool" where
  "llama_after sid m e m' \<longleftrightarrow> llama_tables sid m' = e \<and> (\<forall>s. s \<noteq> sid \<longrightarrow> llama_tables s m' = llama_tables s m)"

lemma llama_stopped:
  assumes "process_of sid m \<noteq> None" "configs m sid = Some d"
  shows "\<exists>m'. stop_server sid (Some (ec_generation d)) id now cur m = (True, m') \<and> llama_after sid m (None, None) m'"
  using assms by (auto simp: stop_server_def stop_begin_def stop_end_def llama_after_def)

lemma llama_started:
  assumes "lm_stopping x = id" "\<forall>w\<in>set (lm_rounds x). wr_env w = id" "process_of sid m = None \<longleftrightarrow> configs m sid = None"
    "start_server sid c (lm_stopping x) (lm_spawn x) (lm_rounds x) now cur m = (b, m')"
  shows "(llama_after sid m (llama_tables sid m) m' \<or> llama_after sid m (None, None) m'
      \<or> (\<exists>proc. llama_after sid m (Some proc, Some c) m'))
    \<and> (b \<longrightarrow> (\<exists>proc. llama_after sid m (Some proc, Some c) m'))"
proof -
  obtain go m1 where d: "decide_start sid c (lm_stopping x) now cur m = (go, m1)" by fastforce
  have m1: "m1 = m \<or> llama_after sid m (None, None) m1"
  proof (cases "configs m sid")
    case None
    with assms(3) d show ?thesis by (auto simp: decide_start_def Let_def)
  next
    case (Some e)
    with assms(3) have p: "process_of sid m \<noteq> None" by simp
    from llama_stopped [OF p Some, of now cur] assms(1) Some p d show ?thesis
      by (auto simp: decide_start_def Let_def split: if_splits)
  qed
  show ?thesis
  proof (cases go)
    case False
    with d assms(4) m1 show ?thesis by (auto simp: start_server_def llama_after_def)
  next
    case True
    with d assms(4) have st: "start_server_locked sid c (lm_spawn x) (lm_rounds x) now m1 = (b, m')" by (simp add: start_server_def)
    have away: "s \<noteq> sid \<Longrightarrow> llama_tables s m1 = llama_tables s m" for s using m1 by (auto simp: llama_after_def)
    show ?thesis
    proof (cases "lm_spawn x")
      case (Inl e)
      with st away show ?thesis by (auto simp: start_server_locked_def llama_after_def)
    next
      case (Inr proc)
      obtain w m2 where w: "wait_for_server sid (lm_rounds x) (spawn_process sid c proc now m1) = (w, m2)" by fastforce
      with llama_wait_quiet [OF assms(2), of _ sid "spawn_process sid c proc now m1"]
      have t: "llama_tables s m2 = (if s = sid then (Some proc, Some c) else llama_tables s m1)" for s by simp
      then have "configs (mark_healthy sid m2) sid = Some c"
        using llama_tables_simps(5) [of sid sid m2] by (simp add: llama_tables_def)
      with st Inr w t away show ?thesis
        by (cases w) (auto simp: start_server_locked_def Let_def llama_after_def)
    qed
  qed
qed

definition llama_steady :: "llama_call \<Rightarrow> llama_manager \<Rightarrow> bool" where
  "llama_steady x m \<longleftrightarrow> lm_stopping x = id \<and> (\<forall>w\<in>set (lm_rounds x). wr_env w = id)
     \<and> (\<forall>sid. process_of sid m = None \<longleftrightarrow> configs m sid = None)"

lemma llama_steady_kept:
  assumes "llama_steady x m" "llama_after sid m e m'" "fst e = None \<longleftrightarrow> snd e = None"
  shows "llama_steady x m' \<and> others_same (llama_api x) sid m m'"
proof -
  have "process_of s m' = None \<longleftrightarrow> configs m' s = None" for s
    using assms by (cases "s = sid") (auto simp: llama_steady_def llama_after_def llama_tables_def)
  with assms show ?thesis
    by (auto simp: llama_steady_def others_same_def known_of_def llama_api_def llama_after_def llama_tables_def)
qed

interpretation llama_process: process_manager "llama_api x" "llama_steady x" for x
proof
  fix m sid d c r m'
  show "llama_steady x m \<Longrightarrow> ma_running (llama_api x) sid m = (ma_config (llama_api x) sid m \<noteq> None)"
    by (simp add: llama_steady_def llama_api_def del: not_None_eq)
  show "ma_config (llama_api x) sid m \<noteq> None \<Longrightarrow> \<exists>n\<ge>1. ma_capacity (llama_api x) sid m = Inr n"
    by (auto simp: llama_api_def effective_capacity_pos)
  assume steady: "llama_steady x m"
  show "\<exists>m'. ma_stop (llama_api x) sid (Some (ri_generation d)) m = (Inr True, m') \<and> llama_steady x m'
      \<and> \<not> ma_running (llama_api x) sid m' \<and> others_same (llama_api x) sid m m'" if "ma_config (llama_api x) sid m = Some d"
  proof -
    from that obtain e where e: "configs m sid = Some e" "d = llama_info e" by (auto simp: llama_api_def)
    with steady have "process_of sid m \<noteq> None" by (auto simp: llama_steady_def)
    from llama_stopped [OF this e(1)] obtain m' where m':
      "stop_server sid (Some (ec_generation e)) id (lm_now x) (lm_task x) m = (True, m')" "llama_after sid m (None, None) m'" by blast
    have "ma_stop (llama_api x) sid (Some (ri_generation d)) m = (Inr True, m')"
      using m'(1) e(2) steady by (simp add: llama_api_def llama_info_def llama_steady_def)
    moreover have "\<not> ma_running (llama_api x) sid m'" using m'(2) by (simp add: llama_api_def llama_after_def llama_tables_def)
    ultimately show ?thesis using llama_steady_kept [OF steady m'(2)] by auto
  qed
  show "llama_steady x m' \<and> others_same (llama_api x) sid m m' \<and> (r = Inr True \<longrightarrow> ma_config (llama_api x) sid m' = Some (info_of c))"
    if "ma_start (llama_api x) sid c m = (r, m')"
  proof (cases c)
    case (LlamaSetup e)
    with that obtain b where st: "start_server sid e (lm_stopping x) (lm_spawn x) (lm_rounds x) (lm_now x) (lm_task x) m = (b, m')" "r = Inr b"
      by (auto simp: llama_api_def split: prod.splits)
    have q: "lm_stopping x = id" "\<forall>w\<in>set (lm_rounds x). wr_env w = id" "process_of sid m = None \<longleftrightarrow> configs m sid = None"
      using steady by (auto simp: llama_steady_def)
    note started = llama_started [OF q st(1)]
    have "llama_steady x m' \<and> others_same (llama_api x) sid m m'"
      using started llama_steady_kept [OF steady] q(3) by (fastforce simp: llama_tables_def)
    moreover have "ma_config (llama_api x) sid m' = Some (info_of c)" if "r = Inr True"
      using started that st(2) LlamaSetup by (auto simp: llama_api_def info_of_def llama_after_def llama_tables_def)
    ultimately show ?thesis by blast
  qed (use that steady in \<open>auto simp: llama_api_def throw_def others_same_def\<close>)
qed


section \<open>Every start\<close>



definition ex_spec :: "int \<Rightarrow> server_spec" where
  "ex_spec g = \<lparr>sp_id = 7, sp_model_path = ''m'', sp_engine = ''gufo'', sp_engine_options = [(''sessions'', OptInt 2)], sp_npu_models = [],
     sp_port = Some 9001, sp_engine_port = None, sp_gpu_layers = 35, sp_context_size = 4096, sp_batch_size = 512, sp_cache_prompt = True,
     sp_flash_attn = Some True, sp_mtp_draft_max = None, sp_jinja = True, sp_mmproj_path = None, sp_draft_model_path = None,
     sp_options = [], sp_generation = g\<rparr>"

definition ex_source :: file_source where
  "ex_source = \<lparr>fs_repo = Some ''r'', fs_filename = Some ''m'', fs_filenames = [], fs_source = None, fs_job = None, fs_server = None,
     fs_path = None, fs_key = None\<rparr>"

definition ex_start_request :: "int \<Rightarrow> start_request" where
  "ex_start_request g = \<lparr>sq_config = ex_spec g, sq_source = Some ex_source, sq_mmproj_source = None, sq_draft_source = None, sq_aux = []\<rparr>"

definition ex_call :: download_call where
  "ex_call = \<lparr>dc_own = \<lparr>hb_result = Inr ''/d/r/m'', hb_others = id\<rparr>, dc_shared = \<lparr>hb_result = Inr ''/d/r/m'', hb_others = id\<rparr>,
     dc_str = (\<lambda>_. ''e'')\<rparr>"

definition ex_agent_env :: "'m start_env" where
  "ex_agent_env = \<lparr>se_platform = ''gufo'', se_models = ''/d'', se_calls = (\<lambda>_. ex_call), se_repository = ex_call,
     se_npu_hub = (\<lambda>_ _. dc_own ex_call), se_pins = Inr [], se_downloading = id, se_shuffle = (\<lambda>_ ps. ps), se_free = (\<lambda>_. True),
     se_text = (\<lambda>_. ''e'')\<rparr>"

definition ex_files :: model_files where
  "ex_files = \<lparr>mf_disk = [''/d/m'' \<mapsto> (5, [])], mf_flight = [], mf_events = []\<rparr>"

abbreviation ex_gufo_agent :: "gufo_manager manager_api" where
  "ex_gufo_agent \<equiv> gufo_api (ex_gufo_start 31 [ex_round]) \<lparr>gt_fencing = id, gt_waiting = id, gt_slow = False\<rparr>"

lemma ex_found: "find_files ex_agent_env (ex_start_request g) ex_files =
    (Inr \<lparr>ff_model = ''/d/m'', ff_mmproj = None, ff_draft = None, ff_options = [(''sessions'', OptInt 2)]\<rparr>, ex_files)"
  by (simp add: find_files_def main_file_def find_model_file_def ensure_model_def find_projector_def find_draft_def ex_agent_env_def ex_start_request_def
      ex_spec_def ex_source_def ex_files_def source_names_def source_repo_def primary_name_def pick_primary_def last_segment_def
      split_index_def text_or_def part_exists_def found_path_def storage_path_def is_absolute_def join_path_def on_disk_def
      resolve_model_path_def model_candidates_def and_then_def give_def lift_res_def Let_def)

lemma ex_gufo_launched: "\<exists>m. start_gufo (ex_gufo_start 31 [ex_round]) 7 (ex_gufo 1\<lparr>gc_model_path := ''/d/m''\<rparr>) empty_gufo = (Inr True, m)
    \<and> gm_configs m 7 = Some (ex_gufo 1\<lparr>gc_model_path := ''/d/m''\<rparr>)"
  by (simp add: run_gufo)

lemma ex_gufo_route: "\<exists>m. start_server_route ex_gufo_agent ex_agent_env (ex_start_request 1) \<lparr>as_manager = empty_gufo, as_files = ex_files\<rparr> =
    (Inr \<lparr>st_model_path = ''/d/m'', st_port = 9001, st_engine_port = None, st_generation = 1, st_capacity = 2, st_already = False\<rparr>,
     \<lparr>as_manager = m, as_files = ex_files\<rparr>)"
proof -
  let ?c = "ex_gufo 1\<lparr>gc_model_path := ''/d/m''\<rparr>"
  obtain m where m: "start_gufo (ex_gufo_start 31 [ex_round]) 7 ?c empty_gufo = (Inr True, m)" "gm_configs m 7 = Some ?c"
    using ex_gufo_launched by blast
  have cap: "gufo_capacity ?c = 2" by (simp add: gufo_capacity_def ex_gufo_def opt_int_def)
  have found: "find_files (ex_agent_env :: gufo_manager start_env) (ex_start_request 1) ex_files =
      (Inr \<lparr>ff_model = ''/d/m'', ff_mmproj = None, ff_draft = None, ff_options = [(''sessions'', OptInt 2)]\<rparr>, ex_files)" by (rule ex_found)
  have guard: "start_guard ex_gufo_agent (ex_spec 1) empty_gufo = (Inr None, empty_gufo)"
    by (simp add: start_guard_def gufo_api_def ex_spec_def gufo_process_def empty_gufo_def gufo_latest_def fenced_generation_def give_def)
  let ?f = "\<lparr>ff_model = ''/d/m'', ff_mmproj = None, ff_draft = None, ff_options = [(''sessions'', OptInt 2)]\<rparr>"
  have made: "setup_of (ex_agent_env :: gufo_manager start_env) (ex_spec 1) ?f (9001, None) = Inr (GufoSetup ?c)" "ports_of (ex_agent_env :: gufo_manager start_env) (ex_spec 1) = Inr (9001, None)"
    by (simp_all add: setup_of_def ports_of_def port_or_def ex_spec_def ex_gufo_def)
  have spec: "sp_id (ex_spec 1) = 7" "sp_generation (ex_spec 1) = 1" by (simp_all add: ex_spec_def)
  have "launch ex_gufo_agent ex_agent_env (ex_spec 1) ?f empty_gufo =
      (Inr \<lparr>st_model_path = ''/d/m'', st_port = 9001, st_engine_port = None, st_generation = 1, st_capacity = 2, st_already = False\<rparr>, m)"
    using m cap made spec by (simp add: launch_def gufo_api_def and_then_def lift_res_def give_def)
  moreover have "validate_platform (se_platform (ex_agent_env :: gufo_manager start_env)) (sp_engine (ex_spec 1)) = Inr ()"
    by (simp add: validate_platform_def ex_agent_env_def ex_spec_def STRICT_PLATFORMS_def)
  moreover have "sq_config (ex_start_request 1) = ex_spec 1" "se_downloading (ex_agent_env :: gufo_manager start_env) = id"
    by (simp_all add: ex_start_request_def ex_agent_env_def)
  ultimately show ?thesis
    using guard found
    by (simp add: start_server_route_def as_500_def and_then_def lift_res_def give_def on_manager_def on_files_def change_def)
qed

lemma ex_undisturbed: "se_downloading ex_agent_env m = m"
  by (simp add: ex_agent_env_def)



section \<open>What a start does not notice\<close>

text \<open>A file on disk is not found unless the request names its source: it is refused as missing.\<close>

theorem unnamed_file_refused:
  "ensure_model str models x p None m = (Inl (not_on_agent (last_segment (resolve_model_path models p))), m)"
  by (simp add: ensure_model_def source_names_def source_repo_def primary_name_def pick_primary_def fetch_model_def throw_def Let_def)

text \<open>What others do to the manager does not bear on the files.\<close>

lemma find_model_apart: "find_model_file (e\<lparr>se_downloading := f\<rparr>) = find_model_file e"
  by (rule ext)+ (simp add: find_model_file_def)

lemma find_aux_apart: "find_aux (e\<lparr>se_downloading := f\<rparr>) auxs os = find_aux e auxs os"
  by (induction e auxs os rule: find_aux.induct) (simp_all add: find_model_apart Let_def cong: if_cong)

lemma prepare_npu_apart: "prepare_npu_models (e\<lparr>se_downloading := f\<rparr>) c = prepare_npu_models e c"
  by (simp add: prepare_npu_models_def fetch_npu_dir_def [abs_def] cong: if_cong sum.case_cong)

lemma find_files_apart: "find_files (e\<lparr>se_downloading := f\<rparr>) q = find_files e q"
  by (simp add: find_files_def main_file_def find_projector_def find_draft_def halogen_repository_def prepare_npu_apart
      find_model_apart find_aux_apart Let_def cong: if_cong)

lemma ports_apart: "ports_of (e\<lparr>se_downloading := f\<rparr>) c = ports_of e c"
  by (simp add: ports_of_def cong: if_cong sum.case_cong)

lemma setup_apart: "setup_of (e\<lparr>se_downloading := f\<rparr>) c files ports = setup_of e c files ports"
  by (simp add: setup_of_def Let_def cong: if_cong)

lemma launch_apart: "launch api (e\<lparr>se_downloading := f\<rparr>) c = launch api e c"
  by (rule ext) (simp add: launch_def ports_apart setup_apart)

text \<open>
  A stop that comes while the files of a start are fetched is lost: it is answered as already stopped,
  and the start then goes on as if it had not been made.
\<close>

lemma llama_stop_idle:
  assumes "llama_steady x m" "\<not> ma_running (llama_api x) sid m"
  shows "stop_route (llama_api x) str sid gen m = (Inr True, m)"
  using assms
  by (auto simp: stop_route_def as_500_def llama_api_def llama_steady_def stop_server_def stop_begin_def and_then_def give_def
      split: option.splits)

lemma guard_idle:
  assumes "llama_steady x m" "start_guard (llama_api x) c m = (Inr None, m1)"
  shows "llama_steady x m1 \<and> \<not> ma_running (llama_api x) (sp_id c) m1"
proof (cases "ma_running (llama_api x) (sp_id c) m")
  case False
  with assms show ?thesis by (auto simp: start_guard_def Let_def throw_def give_def split: if_splits)
next
  case True
  with llama_process.matched_config [OF assms(1)] obtain d where d: "ma_config (llama_api x) (sp_id c) m = Some d" by blast
  obtain m' where "ma_stop (llama_api x) (sp_id c) (Some (ri_generation d)) m = (Inr True, m')" "llama_steady x m'"
    "\<not> ma_running (llama_api x) (sp_id c) m'"
    using llama_process.stop [OF assms(1) d] by blast
  with True d assms(2) show ?thesis
    by (auto simp: start_guard_def Let_def throw_def give_def and_then_def split: if_splits sum.splits)
qed

theorem stop_while_fetching_lost:
  assumes "llama_steady x (as_manager s)"
  shows "start_server_route (llama_api x) (e\<lparr>se_downloading := (\<lambda>m. snd (stop_route (llama_api x) str (sp_id (sq_config q)) gen m))\<rparr>) q s
    = start_server_route (llama_api x) (e\<lparr>se_downloading := id\<rparr>) q s"
proof -
  let ?c = "sq_config q"
  let ?lost = "\<lambda>m. snd (stop_route (llama_api x) str (sp_id ?c) gen m)"
  obtain g m1 where g: "start_guard (llama_api x) ?c (as_manager s) = (g, m1)" by fastforce
  obtain f fs where f: "find_files e q (as_files s) = (f, fs)" by fastforce
  have same: "?lost m1 = m1" if "g = Inr None"
    using guard_idle [OF assms g [unfolded that]] llama_stop_idle by fastforce
  show ?thesis
  proof (cases "validate_platform (se_platform e) (sp_engine ?c)")
    case (Inl t)
    then show ?thesis by (simp add: start_server_route_def as_500_def and_then_def lift_res_def throw_def)
  next
    case (Inr u)
    with g f same show ?thesis
      by (cases g; cases f; cases "projr g")
        (simp_all add: start_server_route_def as_500_def and_then_def lift_res_def give_def on_manager_def on_files_def change_def
          find_files_apart launch_apart)
  qed
qed


section \<open>Ports\<close>

lemma allocated:
  assumes "\<And>ps. set (shuffle ps) \<subseteq> set ps" "allocate_port shuffle free rng exclude = Inr p"
  shows "fst rng \<le> p \<and> p < snd rng \<and> free p \<and> p \<notin> set exclude"
proof -
  have "List.find free (shuffle (filter (\<lambda>p. p \<notin> set exclude) [fst rng..snd rng - 1])) = Some p"
    using assms(2) by (auto simp: allocate_port_def split: option.splits)
  then have "p \<in> set (shuffle (filter (\<lambda>p. p \<notin> set exclude) [fst rng..snd rng - 1]))" "free p"
    by (auto simp: find_Some_iff)
  with assms(1) [of "filter (\<lambda>p. p \<notin> set exclude) [fst rng..snd rng - 1]"] show ?thesis by auto
qed

text \<open>The two ports that a Flash server is given on its first start are free, differ, and lie in the range kept for it.\<close>

theorem flash_ports_apart:
  assumes "\<And>k ps. set (se_shuffle e k ps) \<subseteq> set ps" "sp_engine c = ''halogen-flash''" "sp_port c = None" "sp_engine_port c = None"
    "ports_of e c = Inr (p, q)"
  shows "\<exists>r. q = Some r \<and> p \<noteq> r \<and> {p, r} \<subseteq> {8200..<8290} \<and> se_free e p \<and> se_free e r"
  using assms(2-5) allocated [OF assms(1)] by (fastforce simp: ports_of_def port_or_def FLASH_PORTS_def split: sum.splits)

text \<open>
  A Halogen server gets its engine port from the same range without regard to the other: where both
  draws meet the same free port the two are one, and the answer does not name it.
\<close>

theorem halogen_ports_collide:
  assumes "sp_engine c = ''halogen''" "sp_port c = None" "sp_engine_port c = None" "se_shuffle e 1 = se_shuffle e 0"
    "ports_of e c = Inr ports" "setup_of e c f ports = Inr (HalogenSetup h)"
  shows "hc_engine_port h = hc_port h \<and> snd ports = None"
  using assms by (auto simp: ports_of_def setup_of_def port_or_def Let_def split: sum.splits)

end
