(* ===== verification/Spec2Isabelle.thy ===== *)
theory Spec2Isabelle
  imports AcquireExamples AgentExamples ResponseRouteExamples StartLocks DownloadShare ServerRoutesSafety
begin

text \<open>
  A verification development of the inference matrix: a backend that queues inference requests in
  a database and admits them to server slots, and an agent per machine that runs the engine
  processes and proxies the requests to them. Paths are relative to the repository's source tree;
  \<open>services\<close> is backend/app/services or agent/app/services.

  \<^bold>\<open>How the parts interact.\<close> A request calls \<open>acquire\<close> (backend): it queues a lease row, waits until it is
  the oldest compatible request for a server with a free slot, claims the slot under a fresh
  attempt, asks the agent to reserve a slot, and activates the lease. The agent counts slots per
  server process, consumes the reservation when the request arrives and proxies the call. Server
  processes carry a slot generation that grows with every start; each transaction, event and
  agent call names the generation it is about, and stale ones must have no effect.

  \<^bold>\<open>Theories, backend.\<close>
  \<^item> \<open>Prelude\<close>: time, errors as values (\<open>exn\<close>), SQL comparisons with null, list and map lemmas.
  \<^item> \<open>Tables\<close> (models.py): the rows of agents, models, servers and leases and the queries on them.
  \<^item> \<open>LeaseMachine\<close>: the life of a lease row as a step relation; \<open>evolves\<close> says that a transaction
    moves every row along it and adds only queued rows. All transactions are shown to evolve.
  \<^item> \<open>LeaseHandle\<close>, \<open>Admission\<close>, \<open>Acquire\<close>, \<open>Reconcile\<close>, \<open>QueueStatus\<close>
    (services/inference_scheduler.py): the handle's renewal, release and cancellation; candidates,
    claim, activation and clean-up; room in VRAM, preparation of a target and the loop of
    \<open>acquire\<close>; reconciliation of expired leases with what agents report; the status figures.
  \<^item> \<open>Lifecycle\<close> (services/server_lifecycle.py) and \<open>ServerStartup\<close> (services/server_startup.py):
    start and stop transactions, start dispatch, initialization, waiting until ready.
  \<^item> \<open>AgentEvents\<close> (services/agent_manager.py): registration, events and supervision of agents.
  \<^item> \<open>System\<close>: all transactions as commands; runs in any order; what holds of every run.
  \<^item> \<open>ReconcileSafety\<close>, \<open>AcquireSafety\<close>: properties of reconciliation and of \<open>acquire\<close>.

  \<^bold>\<open>Theories, Responses API\<close> (backend/app/api/routes/v1/responses).
  \<^item> \<open>ResponseStream\<close> (events.py, translator.py): numbered events, and the state that turns the deltas
    of an engine into output items; \<open>ResponseStreamSafety\<close>: the contract between events and items,
    and the equality of streamed and buffered output.
  \<^item> \<open>Scripts\<close>: coroutines as functions that return or raise, Hoare triples for them, and phases of a
    coroutine, shared by the streaming routes. \<open>ResponseRun\<close> (router.py, \<open>_stream_events\<close>): the
    generator of a connection with its handlers; \<open>ResponseScripts\<close>: the interface of a channel to
    the client; \<open>ResponseRunSafety\<close>: the release of the lease, the terminal event and
    the stored record of a connection.
  \<^item> \<open>ResponseSocket\<close>, \<open>ResponseSocketSafety\<close> (ws.py): the same over a WebSocket, turn by turn, with the
    continuation cache.
  \<^item> \<open>ResponseChain\<close> (router.py): stored responses and the history rebuilt from them.
  \<^item> \<open>ResponsePayload\<close> (translator.py, schemas.py): items as chat messages and as native input, and both
    payloads; \<open>ResponsePayloadSafety\<close>: that both say the same, and that stored turns read as before.
    \<open>ResponseRoutes\<close>, \<open>ResponseRoutesSafety\<close> (router.py): guards, lease, buffered call, compaction.

  \<^bold>\<open>Theories, chat completions\<close> (backend/app/api/routes/v1/v1_chat_completions.py and the services it calls).
  \<^item> \<open>Json\<close>: decoded JSON and Python's operations on it with their exceptions; \<open>ChatMessages\<close>: messages,
    tools, payloads, the readers of a chunk, usage; \<open>InferenceStream\<close> (services/inference_stream.py):
    the two waits under one deadline; \<open>ProxyStream\<close>: what the two streaming generators share;
    \<open>ChatStream\<close>: the generator of a chat.
  \<^item> \<open>ChatTargets\<close> (services/inference_target.py, npu_aliases.py, reasoning_metadata.py): which server a
    request is for, its reasoning policy, the row added for a model; \<open>ChatRoute\<close>: the route.
  \<^item> \<open>ProxyStreamSafety\<close>, \<open>ProxyStreamContent\<close>: the books, the liveness and the content of any such
    stream. \<open>ChatStreamSafety\<close>, \<open>ChatContent\<close>, \<open>ChatRouteSafety\<close>: lease and telemetry, order of the frames, that a
    client is answered, what is passed on, and streamed against buffered accounting.

  \<^bold>\<open>Theories, other routes of the OpenAI API\<close> (backend/app/api/routes/v1).
  \<^item> \<open>LeasedCalls\<close> (services/npu_dispatch.py): a call under a lease, from acquire to the finally block,
    and the books it leaves; shared by every route, the chat included.
  \<^item> \<open>Completions\<close>, \<open>CompletionsSafety\<close> (v1_completions.py): prompt, payload, stream, buffered call, route.
  \<^item> \<open>NpuRoutes\<close>, \<open>NpuRoutesSafety\<close> (services/npu_dispatch.py, v1_rerank.py, v1_decisions.py,
    v1_moderations.py): dispatch to a small model, what is sent, decisions. \<open>Embeddings\<close>
    (v1_embeddings.py). \<open>LeasedRoutes\<close>: the books of all these routes.

  \<^bold>\<open>Theories, agent.\<close>
  \<^item> \<open>AgentState\<close>, \<open>Operations\<close> (services/inference_operations.py), \<open>Slots\<close>, \<open>ProxyDispatch\<close>
    (services/proxy.py), \<open>ProxyRoutes\<close> (api/routes/proxy.py): the table of operations, slots and
    reservations, proxied calls with their retries, and the routes. \<open>SlotSafety\<close> interleaves the
    slot operations.
  \<^item> \<open>LlamaCommand\<close>, \<open>LlamaManager\<close>, \<open>LlamaSafety\<close> (services/llama_server.py): command line, process
    table, health monitor, start and stop.
  \<^item> \<open>HealthSpec\<close>: the health status as a function of the answers, and the contract of a manager that keeps
    counters instead, interpreted for llama-server and Gufo. \<open>GufoServers\<close>, \<open>GufoSafety\<close>
    (services/gufo_server.py), \<open>HalogenServers\<close>, \<open>HalogenSafety\<close> (services/halogen_server.py,
    halogen_flash_server.py): the other managers; how starts settle, the instance limit, what a stop or a
    failing start does to a newer process. \<open>StartLocks\<close>: the locks of starts, interleaved.
  \<^item> \<open>ModelFiles\<close>, \<open>ModelFilesSafety\<close> (services/model_manager.py, services/npu_models.py,
    api/routes/models.py): where files lie, downloads and their events, the pins of the small models and
    the plan drawn from them. \<open>DownloadShare\<close>: requests that share a download, interleaved.
  \<^item> \<open>ServerRoutes\<close>, \<open>ServerRoutesSafety\<close> (api/routes/servers.py, services/server_manager.py): finding and
    fetching the files of a server, ports, and the start and stop routes over the operations of a
    process manager; that a start settles, from the contract of a manager.
  \<^item> \<open>LogRing\<close> (services/log_buffers.py) and \<open>EventBus\<close> (services/event_bus.py): log feeds with
    cursors, events to subscribers.

  \<^bold>\<open>Conventions.\<close> A transaction is a function on the database record; an await is a function (or a list
  of commands) standing for what other tasks do meanwhile; clocks, answers of agents, engines and
  operating system, and cancellations are arguments. Times are integers in microseconds. A
  database row locked in the code (\<open>FOR UPDATE\<close>) is read and written in one step. Loops are
  recursions over the turns they are given; a loop that would still wait returns None, and the
  termination theorems say how many turns are enough (\<open>acquire_returns\<close>: one turn at the deadline;
  \<open>reserved_never_replayed\<close>: eight attempts). Interfaces are locales, each interpreted on the
  model: transactions that evolve (\<open>System\<close>), cursor feeds (\<open>LogRing\<close>), slot tables (\<open>SlotSafety\<close>),
  retry policies (\<open>ProxyDispatch\<close>), channels (\<open>ResponseScripts\<close>), phases of a coroutine (\<open>Scripts\<close>),
  bodies of a proxied stream (\<open>ProxyStreamSafety\<close>), readers of a chunk (\<open>ProxyStreamContent\<close>), health
  records (\<open>HealthSpec\<close>), process managers (\<open>ServerRoutesSafety\<close>).

  \<^bold>\<open>Not modelled.\<close> Rendering of JSON and HTTP, logging, the engines themselves, the transfer of files from
  the hub, GPU and NPU probes, the web frontend and the database server; the manifest lists each part with the reason.
\<close>

end
